(* ===== verification/Zpt_Prelude.thy ===== *)
theory Zpt_Prelude
  imports Main "HOL-Library.Word" "HOL-Library.Signed_Division"
begin

text \<open>
  Shared vocabulary of the development: the machine integer types of the C code, the
  collections of rewrite rules the component theories add to, and generic lemmas.

  \<^item> Unsigned quantities that wrap or are used as bit sets (times in milliseconds, spans,
    flags, identifiers, resolutions, intervals) are words: \<open>u8\<close>, \<open>u16\<close>, \<open>u32\<close>.
  \<^item> \<open>int64_t\<close> and \<open>uint64_t\<close> quantities are \<open>int\<close>. \<open>in_i64\<close> and \<open>in_u64\<close>
    say that a value fits the C type; \<open>i64\<close>, \<open>i32\<close> and \<open>u64\<close> write the wrap-around out,
    so a definition that overflows shows it, and a lemma says where it cannot.
  \<^item> C division truncates towards zero: \<open>sdiv\<close> and \<open>smod\<close> of HOL-Library.
\<close>

unbundle bit_operations_syntax

named_theorems zpt_range \<open>facts saying that a value fits its machine type\<close>
named_theorems zpt_simps \<open>rewrite rules of the operations, in terms of their specification\<close>

type_synonym u8 = "8 word"
type_synonym u16 = "16 word"
type_synonym u32 = "32 word"

section \<open>Limits and wrap-around\<close>

abbreviation INT64_MAX :: int where "INT64_MAX \<equiv> 9223372036854775807"
abbreviation INT64_MIN :: int where "INT64_MIN \<equiv> - 9223372036854775808"
abbreviation UINT64_MAX :: int where "UINT64_MAX \<equiv> 18446744073709551615"
abbreviation INT32_MAX :: int where "INT32_MAX \<equiv> 2147483647"
abbreviation INT32_MIN :: int where "INT32_MIN \<equiv> - 2147483648"
abbreviation UINT32_MAX :: int where "UINT32_MAX \<equiv> 4294967295"
abbreviation INT16_MAX :: int where "INT16_MAX \<equiv> 32767"
abbreviation INT16_MIN :: int where "INT16_MIN \<equiv> - 32768"

definition in_i64 :: "int \<Rightarrow> bool" where
  "in_i64 x \<longleftrightarrow> INT64_MIN \<le> x \<and> x \<le> INT64_MAX"

definition in_u64 :: "int \<Rightarrow> bool" where
  "in_u64 x \<longleftrightarrow> 0 \<le> x \<and> x \<le> UINT64_MAX"

definition in_i32 :: "int \<Rightarrow> bool" where
  "in_i32 x \<longleftrightarrow> INT32_MIN \<le> x \<and> x \<le> INT32_MAX"

definition in_i16 :: "int \<Rightarrow> bool" where
  "in_i16 x \<longleftrightarrow> INT16_MIN \<le> x \<and> x \<le> INT16_MAX"

lemmas in_range_defs = in_i64_def in_u64_def in_i32_def in_i16_def

definition i64 :: "int \<Rightarrow> int" where
  "i64 x = (x + 9223372036854775808) mod 18446744073709551616 - 9223372036854775808"

definition i32 :: "int \<Rightarrow> int" where
  "i32 x = (x + 2147483648) mod 4294967296 - 2147483648"

definition u64 :: "int \<Rightarrow> int" where
  "u64 x = x mod 18446744073709551616"

lemma i64_id [simp]: "in_i64 x \<Longrightarrow> i64 x = x"
  by (simp add: i64_def in_i64_def)

lemma i32_id [simp]: "in_i32 x \<Longrightarrow> i32 x = x"
  by (simp add: i32_def in_i32_def)

lemma u64_id [simp]: "in_u64 x \<Longrightarrow> u64 x = x"
  by (simp add: u64_def in_u64_def)

lemma in_i64_i64 [simp, zpt_range]: "in_i64 (i64 x)"
  by (simp add: i64_def in_i64_def)

lemma in_u64_u64 [simp, zpt_range]: "in_u64 (u64 x)"
  by (simp add: u64_def in_u64_def)

lemma in_i64_0 [simp]: "in_i64 0" and in_u64_0 [simp]: "in_u64 0"
  and in_i32_0 [simp]: "in_i32 0" and in_i16_0 [simp]: "in_i16 0"
  by (simp_all add: in_range_defs)

lemmas wrap_numeral [simp] =
  i64_def [of "numeral n"] i64_def [of "- numeral n"] i64_def [of 1] i64_def [of "- 1"]
  i32_def [of "numeral n"] i32_def [of "- numeral n"] i32_def [of 1] i32_def [of "- 1"]
  u64_def [of "numeral n"] u64_def [of "- numeral n"] u64_def [of 1] u64_def [of "- 1"] for n

lemmas in_range_numeral [simp] =
  in_i64_def [of "numeral n"] in_i64_def [of "- numeral n"] in_i64_def [of 1] in_i64_def [of "- 1"]
  in_u64_def [of "numeral n"] in_u64_def [of "- numeral n"] in_u64_def [of 1] in_u64_def [of "- 1"]
  in_i32_def [of "numeral n"] in_i32_def [of "- numeral n"] in_i32_def [of 1] in_i32_def [of "- 1"]
  in_i16_def [of "numeral n"] in_i16_def [of "- numeral n"] in_i16_def [of 1] in_i16_def [of "- 1"]
  for n

lemma in_i32_in_i64: "in_i32 x \<Longrightarrow> in_i64 x"
  and in_i16_in_i32: "in_i16 x \<Longrightarrow> in_i32 x"
  by (simp_all add: in_range_defs)

section \<open>Clamping\<close>

text \<open>The value a saturating 64-bit operation is meant to return.\<close>

definition clamp64 :: "int \<Rightarrow> int" where
  "clamp64 x = max INT64_MIN (min INT64_MAX x)"

lemma clamp64_in_i64 [simp, zpt_range]: "in_i64 (clamp64 x)"
  by (simp add: clamp64_def in_i64_def)

lemma clamp64_id [simp]: "in_i64 x \<Longrightarrow> clamp64 x = x"
  by (simp add: clamp64_def in_i64_def)

lemma clamp64_mono: "x \<le> y \<Longrightarrow> clamp64 x \<le> clamp64 y"
  by (simp add: clamp64_def)

section \<open>Error numbers\<close>

text \<open>
  Operations return \<open>int\<close>, zero on success and a negated error number otherwise, as the C
  code does. The numbers are those of Zephyr's \<open>errno.h\<close>; the code relies only on their
  being positive and distinct.
\<close>

abbreviation (input) ENOENT :: int where "ENOENT \<equiv> 2"
abbreviation (input) E2BIG :: int where "E2BIG \<equiv> 7"
abbreviation (input) EAGAIN :: int where "EAGAIN \<equiv> 11"
abbreviation (input) ENOMEM :: int where "ENOMEM \<equiv> 12"
abbreviation (input) EACCES :: int where "EACCES \<equiv> 13"
abbreviation (input) EBUSY :: int where "EBUSY \<equiv> 16"
abbreviation (input) EEXIST :: int where "EEXIST \<equiv> 17"
abbreviation (input) ENODEV :: int where "ENODEV \<equiv> 19"
abbreviation (input) EINVAL :: int where "EINVAL \<equiv> 22"
abbreviation (input) ENOSPC :: int where "ENOSPC \<equiv> 28"
abbreviation (input) ERANGE :: int where "ERANGE \<equiv> 34"
abbreviation (input) EBADMSG :: int where "EBADMSG \<equiv> 77"
abbreviation (input) ENOSYS :: int where "ENOSYS \<equiv> 88"
abbreviation (input) EPROTOTYPE :: int where "EPROTOTYPE \<equiv> 107"
abbreviation (input) EALREADY :: int where "EALREADY \<equiv> 120"
abbreviation (input) ENOTSUP :: int where "ENOTSUP \<equiv> 134"

section \<open>Truncating division\<close>

lemma sdiv_nonneg: "0 \<le> a \<Longrightarrow> 0 < b \<Longrightarrow> a sdiv b = a div b" for a b :: int
  by (cases "a = 0") (simp_all add: signed_divide_int_def)

lemma sdiv_neg: "a < 0 \<Longrightarrow> 0 < b \<Longrightarrow> a sdiv b = - ((- a) div b)" for a b :: int
  by (simp add: signed_divide_int_def)

lemma sdiv_pos_cases:
  "0 < b \<Longrightarrow> a sdiv b = (if 0 \<le> a then a div b else - ((- a) div b))" for a b :: int
  by (simp add: sdiv_nonneg sdiv_neg)

lemma smod_pos_cases:
  "0 < b \<Longrightarrow> a smod b = (if 0 \<le> a then a mod b else - ((- a) mod b))" for a b :: int
  by (auto simp add: signed_modulo_int_def sgn_if)

lemma sdiv_remainder_abs: "0 < b \<Longrightarrow> \<bar>a - (a sdiv b) * b\<bar> < b" for a b :: int
proof -
  assume b: "0 < b"
  have "a - (a sdiv b) * b = a smod b"
    using sdiv_mult_smod_eq [of a b] by simp
  then show ?thesis
    using b pos_mod_bound [OF b, of a] pos_mod_sign [OF b, of a]
      pos_mod_bound [OF b, of "- a"] pos_mod_sign [OF b, of "- a"]
    by (auto simp: smod_pos_cases)
qed

lemma sdiv_minus_numerator: "(- a) sdiv b = - (a sdiv b)" for a b :: int
  by (simp add: signed_divide_int_def)

text \<open>Comparing with a quotient is comparing with the product.\<close>

lemma le_div_iff_mult_le: "0 < b \<Longrightarrow> (a \<le> c div b) = (a * b \<le> c)" for a b c :: int
  by (metis div_mult_mod_eq linorder_not_le mult_le_cancel_right_pos
      pos_mod_sign zdiv_mono1 nonzero_mult_div_cancel_right
      less_irrefl le_add_same_cancel1 order_trans)

lemma div_less_iff_less_mult': "0 < b \<Longrightarrow> (c div b < a) = (c < a * b)" for a b c :: int
  using le_div_iff_mult_le [of b a c] by linarith

lemma div_mod_obtain:
  fixes a b :: int
  assumes "0 < b"
  obtains q r where "a div b = q" "a mod b = r" "a = q * b + r" "0 \<le> r" "r < b"
  using assms that [of "a div b" "a mod b"] by simp

section \<open>Generic lemmas\<close>

lemma uint_bounds [zpt_range]:
  "0 \<le> uint (w :: u16)" "uint (w :: u16) \<le> 65535"
  "0 \<le> uint (v :: u32)" "uint (v :: u32) \<le> 4294967295"
  "0 \<le> uint (b :: u8)" "uint (b :: u8) \<le> 255"
  using uint_lt2p [of w] uint_lt2p [of v] uint_lt2p [of b] by simp_all

lemma uint_pos_iff: "0 < uint w \<longleftrightarrow> w \<noteq> 0" for w :: "'a::len word"
  by (simp add: less_le flip: uint_0_iff)

lemma nonneg_sint_uint: "0 \<le> sint (w :: u32) \<Longrightarrow> uint w < 2147483648"
proof -
  assume nonneg: "0 \<le> sint w"
  have "uint w = uint (word_of_int (sint w) :: u32)" by simp
  also have "\<dots> = sint w mod 4294967296" by (simp only: uint_word_of_int) simp
  also have "\<dots> = sint w" using nonneg sint_lt [of w] by simp
  finally show ?thesis using sint_lt [of w] by simp
qed

lemma nth_list_update_split:
  "i < length xs \<Longrightarrow> xs[i := x] ! j = (if i = j then x else xs ! j)"
  by (simp add: nth_list_update)

section \<open>Packed fields\<close>

text \<open>A mask of low bits selects a field.\<close>

lemma masks_take_bit:
  fixes w :: "'a::len word"
  shows "w AND 0x3 = take_bit 2 w" "w AND 0xF = take_bit 4 w" "w AND 0xFF = take_bit 8 w"
    "w AND 0x7FF = take_bit 11 w" "w AND 0xFFFF = take_bit 16 w"
  by (simp_all add: take_bit_eq_mask mask_eq_exp_minus_1)

lemma bits_above:
  "8 \<le> n \<Longrightarrow> \<not> bit (w :: u8) n" "16 \<le> n \<Longrightarrow> \<not> bit (v :: u16) n"
  using bit_imp_le_length [of w n] bit_imp_le_length [of v n] by auto

lemma uint_diff: "uint v \<le> uint w \<Longrightarrow> uint (w - v) = uint w - uint v"
  for v w :: "'a::len word"
  by (simp add: uint_sub_if')

end
