(* ===== verification/Signal.thy ===== *)
theory Signal
  imports Zpt_Prelude
begin

text \<open>
  The typed values the pipeline runtime exchanges (\<open>core/signal.h\<close>): signal kinds and kind
  masks, metadata, annotations, the payload, and the unit conversions of devicetree values.

  The payload of \<open>struct zpt_signal\<close> is a C union. It is a datatype here, with one
  constructor per member; writing a member replaces the payload, and a member is read through
  \<open>fixed_vector\<close>, \<open>raw_motion\<close>, \<open>delta\<close> or \<open>action_id\<close>. Raw motion and fixed vectors have the
  same layout (two \<open>int64_t\<close>), so either is read through the other, as in C. Reading a member
  of another layout is not something the code does (\<open>payload_fits\<close> ties the kind to the
  payload); the accessors return zero there.
\<close>

section \<open>Kinds\<close>

datatype zpt_signal_kind =
    SIGNAL_INVALID
  | SIGNAL_RAW_MOTION
  | SIGNAL_NORMALIZED_MOTION
  | SIGNAL_POINTER_DELTA
  | SIGNAL_SCROLL_STEPS
  | SIGNAL_ACTION
  | SIGNAL_KIND_COUNT

primrec kind_code :: "zpt_signal_kind \<Rightarrow> nat" where
  "kind_code SIGNAL_INVALID = 0"
| "kind_code SIGNAL_RAW_MOTION = 1"
| "kind_code SIGNAL_NORMALIZED_MOTION = 2"
| "kind_code SIGNAL_POINTER_DELTA = 3"
| "kind_code SIGNAL_SCROLL_STEPS = 4"
| "kind_code SIGNAL_ACTION = 5"
| "kind_code SIGNAL_KIND_COUNT = 6"

lemma kind_code_inject: "kind_code k = kind_code k' \<Longrightarrow> k = k'"
  by (cases k; cases k') simp_all

instantiation zpt_signal_kind :: linorder
begin

definition less_eq_zpt_signal_kind :: "zpt_signal_kind \<Rightarrow> zpt_signal_kind \<Rightarrow> bool" where
  "k \<le> k' \<longleftrightarrow> kind_code k \<le> kind_code k'"

definition less_zpt_signal_kind :: "zpt_signal_kind \<Rightarrow> zpt_signal_kind \<Rightarrow> bool" where
  "k < k' \<longleftrightarrow> kind_code k < kind_code k'"

instance
  by standard
     (auto simp: less_eq_zpt_signal_kind_def less_zpt_signal_kind_def intro: kind_code_inject)

end

lemmas kind_order_defs [simp] = less_eq_zpt_signal_kind_def less_zpt_signal_kind_def

definition zpt_signal_kind_valid :: "zpt_signal_kind \<Rightarrow> bool" where
  "zpt_signal_kind_valid kind \<longleftrightarrow> kind > SIGNAL_INVALID \<and> kind < SIGNAL_KIND_COUNT"

definition ZPT_SIGNAL_KIND_MASK :: "zpt_signal_kind \<Rightarrow> u32" where
  "ZPT_SIGNAL_KIND_MASK kind = push_bit (kind_code kind) 1"

lemma kind_mask_and:
  "zpt_signal_kind_valid k \<Longrightarrow>
   (ZPT_SIGNAL_KIND_MASK k AND ZPT_SIGNAL_KIND_MASK k' \<noteq> 0) = (k = k')"
  by (cases k; cases k') (simp_all add: ZPT_SIGNAL_KIND_MASK_def zpt_signal_kind_valid_def)

section \<open>Flags and axis intents\<close>

abbreviation (input) FLAG_LOCAL :: u32 where "FLAG_LOCAL \<equiv> 1"
abbreviation (input) FLAG_TRANSPORTED :: u32 where "FLAG_TRANSPORTED \<equiv> 2"
abbreviation (input) FLAG_COALESCED :: u32 where "FLAG_COALESCED \<equiv> 4"
abbreviation (input) FLAG_TIMING_ESTIMATED :: u32 where "FLAG_TIMING_ESTIMATED \<equiv> 8"
abbreviation (input) FLAG_CLIPPED :: u32 where "FLAG_CLIPPED \<equiv> 16"
abbreviation (input) FLAG_SEQUENCE_GAP :: u32 where "FLAG_SEQUENCE_GAP \<equiv> 32"
abbreviation (input) FLAG_DISCONTINUITY :: u32 where "FLAG_DISCONTINUITY \<equiv> 64"
abbreviation (input) FLAG_SAMPLE_SPAN_CLIPPED :: u32 where "FLAG_SAMPLE_SPAN_CLIPPED \<equiv> 128"

text \<open>
  \<open>enum zpt_signal_axis_intent\<close> and the estimator's \<open>enum zpt_axis_intent\<close> have the same
  values (static assertions of \<open>axis_intent.h\<close>); signals carry them in one byte.
\<close>

abbreviation (input) AXIS_UNDECIDED :: u8 where "AXIS_UNDECIDED \<equiv> 0"
abbreviation (input) AXIS_FREE :: u8 where "AXIS_FREE \<equiv> 1"
abbreviation (input) AXIS_HORIZONTAL :: u8 where "AXIS_HORIZONTAL \<equiv> 2"
abbreviation (input) AXIS_VERTICAL :: u8 where "AXIS_VERTICAL \<equiv> 3"

section \<open>Signals\<close>

record zpt_signal_metadata =
  observed_at_ms :: u32
  sample_span_us :: u32
  flags :: u32
  source_id :: u16
  sequence :: u16
  resolution_cpi :: u16

record zpt_signal_annotations =
  speed_per_second :: int
  axis_confidence_percent :: u16
  axis_intent :: u8
  reserved :: u8

datatype zpt_signal_data =
    RawMotion int int
  | FixedVector int int
  | Delta int int
  | Action u32

record zpt_signal =
  kind :: zpt_signal_kind
  metadata :: zpt_signal_metadata
  annotations :: zpt_signal_annotations
  data :: zpt_signal_data

fun raw_motion :: "zpt_signal \<Rightarrow> int \<times> int" where
  "raw_motion s = (case data s of RawMotion x y \<Rightarrow> (x, y) | FixedVector x y \<Rightarrow> (x, y) | _ \<Rightarrow> (0, 0))"

fun fixed_vector :: "zpt_signal \<Rightarrow> int \<times> int" where
  "fixed_vector s = (case data s of FixedVector x y \<Rightarrow> (x, y) | RawMotion x y \<Rightarrow> (x, y) | _ \<Rightarrow> (0, 0))"

fun delta :: "zpt_signal \<Rightarrow> int \<times> int" where
  "delta s = (case data s of Delta x y \<Rightarrow> (x, y) | _ \<Rightarrow> (0, 0))"

fun action_id :: "zpt_signal \<Rightarrow> u32" where
  "action_id s = (case data s of Action i \<Rightarrow> i | _ \<Rightarrow> 0)"

text \<open>The zero-initialised values \<open>(struct ...){0}\<close> of the C code.\<close>

definition zero_metadata :: zpt_signal_metadata where
  "zero_metadata = \<lparr>observed_at_ms = 0, sample_span_us = 0, flags = 0, source_id = 0,
     sequence = 0, resolution_cpi = 0\<rparr>"

definition zero_annotations :: zpt_signal_annotations where
  "zero_annotations = \<lparr>speed_per_second = 0, axis_confidence_percent = 0, axis_intent = 0,
     reserved = 0\<rparr>"

definition zero_signal :: zpt_signal where
  "zero_signal = \<lparr>kind = SIGNAL_INVALID, metadata = zero_metadata,
     annotations = zero_annotations, data = RawMotion 0 0\<rparr>"

lemmas zero_signal_defs = zero_signal_def zero_metadata_def zero_annotations_def

text \<open>Set one flag of a signal's metadata, as \<open>signal.metadata.flags |= f\<close> does.\<close>

definition add_flag :: "u32 \<Rightarrow> zpt_signal \<Rightarrow> zpt_signal" where
  "add_flag f s = s\<lparr>metadata := (metadata s)\<lparr>flags := flags (metadata s) OR f\<rparr>\<rparr>"

lemma add_flag_simps [simp]:
  "kind (add_flag f s) = kind s" "data (add_flag f s) = data s"
  "annotations (add_flag f s) = annotations s"
  "resolution_cpi (metadata (add_flag f s)) = resolution_cpi (metadata s)"
  "observed_at_ms (metadata (add_flag f s)) = observed_at_ms (metadata s)"
  "flags (metadata (add_flag f s)) = flags (metadata s) OR f"
  by (simp_all add: add_flag_def)

text \<open>The payload is the union member the kind says, with values of the member's C type.\<close>

fun payload_fits :: "zpt_signal_kind \<Rightarrow> zpt_signal_data \<Rightarrow> bool" where
  "payload_fits SIGNAL_RAW_MOTION (RawMotion x y) = (in_i64 x \<and> in_i64 y)"
| "payload_fits SIGNAL_NORMALIZED_MOTION (FixedVector x y) = (in_i64 x \<and> in_i64 y)"
| "payload_fits SIGNAL_POINTER_DELTA (Delta x y) = (in_i32 x \<and> in_i32 y)"
| "payload_fits SIGNAL_SCROLL_STEPS (Delta x y) = (in_i32 x \<and> in_i32 y)"
| "payload_fits SIGNAL_ACTION (Action i) = True"
| "payload_fits _ _ = False"

definition signal_ok :: "zpt_signal \<Rightarrow> bool" where
  "signal_ok s \<longleftrightarrow> payload_fits (kind s) (data s) \<and> in_i64 (speed_per_second (annotations s))"

lemma payload_fitsD:
  "payload_fits SIGNAL_RAW_MOTION d \<Longrightarrow> \<exists>x y. d = RawMotion x y \<and> in_i64 x \<and> in_i64 y"
  "payload_fits SIGNAL_NORMALIZED_MOTION d \<Longrightarrow> \<exists>x y. d = FixedVector x y \<and> in_i64 x \<and> in_i64 y"
  "payload_fits SIGNAL_POINTER_DELTA d \<Longrightarrow> \<exists>x y. d = Delta x y \<and> in_i32 x \<and> in_i32 y"
  "payload_fits SIGNAL_SCROLL_STEPS d \<Longrightarrow> \<exists>x y. d = Delta x y \<and> in_i32 x \<and> in_i32 y"
  by (cases d; simp)+

lemma signal_ok_cases:
  "signal_ok s \<Longrightarrow> kind s = SIGNAL_RAW_MOTION \<Longrightarrow>
     \<exists>x y. data s = RawMotion x y \<and> in_i64 x \<and> in_i64 y"
  "signal_ok s \<Longrightarrow> kind s = SIGNAL_NORMALIZED_MOTION \<Longrightarrow>
     \<exists>x y. data s = FixedVector x y \<and> in_i64 x \<and> in_i64 y"
  "signal_ok s \<Longrightarrow> kind s = SIGNAL_POINTER_DELTA \<Longrightarrow>
     \<exists>x y. data s = Delta x y \<and> in_i32 x \<and> in_i32 y"
  by (auto simp: signal_ok_def dest: payload_fitsD)

lemma signal_ok_add_flag [simp]: "signal_ok (add_flag f s) = signal_ok s"
  by (simp add: signal_ok_def)

section \<open>Units\<close>

abbreviation FIXED_FRACTION_BITS :: nat where "FIXED_FRACTION_BITS \<equiv> 16"
abbreviation FIXED_ONE :: int where "FIXED_ONE \<equiv> 65536"

definition ZPT_MICROMETERS_TO_FIXED_MILLIMETERS :: "int \<Rightarrow> int" where
  "ZPT_MICROMETERS_TO_FIXED_MILLIMETERS value = i64 (value * FIXED_ONE + 500) sdiv 1000"

definition ZPT_PER_METER_TO_FIXED_PER_MILLIMETER :: "int \<Rightarrow> int" where
  "ZPT_PER_METER_TO_FIXED_PER_MILLIMETER value = i64 (value * FIXED_ONE) sdiv 1000"

definition ZPT_CPI_TO_FIXED_PER_MILLIMETER :: "u16 \<Rightarrow> int" where
  "ZPT_CPI_TO_FIXED_PER_MILLIMETER cpi = i64 (uint cpi * FIXED_ONE * 10) sdiv 254"

lemma micrometers_to_fixed_i32:
  assumes "in_i32 v" "0 \<le> v"
  shows "ZPT_MICROMETERS_TO_FIXED_MILLIMETERS v = (v * 65536 + 500) div 1000"
proof -
  have "in_i64 (v * 65536 + 500)"
    using assms by (simp add: in_range_defs)
  then show ?thesis
    using assms by (simp add: ZPT_MICROMETERS_TO_FIXED_MILLIMETERS_def sdiv_nonneg)
qed

lemma per_meter_to_fixed_i32:
  assumes "in_i32 v" "0 \<le> v"
  shows "ZPT_PER_METER_TO_FIXED_PER_MILLIMETER v = (v * 65536) div 1000"
proof -
  have "in_i64 (v * 65536)"
    using assms by (simp add: in_range_defs)
  then show ?thesis
    using assms by (simp add: ZPT_PER_METER_TO_FIXED_PER_MILLIMETER_def sdiv_nonneg)
qed

lemma cpi_to_fixed: "ZPT_CPI_TO_FIXED_PER_MILLIMETER cpi = uint cpi * 655360 div 254"
proof -
  have "in_i64 (uint cpi * 65536 * 10)"
    using uint_bounds(1) [of cpi] uint_bounds(2) [of cpi] unfolding in_i64_def by linarith
  then show ?thesis
    using uint_bounds(1) [of cpi] by (simp add: ZPT_CPI_TO_FIXED_PER_MILLIMETER_def sdiv_nonneg)
qed

end
