(* ===== verification/Fixed.thy ===== *)
theory Fixed
  imports Signal
begin

text \<open>
  The saturating fixed-point helpers of \<open>core/fixed.h\<close>, each proved equal to its mathematical
  meaning: a clamped sum, a clamped product, an exact ratio comparison, a clamped truncation.
\<close>

section \<open>Operations\<close>

definition zpt_fixed_magnitude :: "int \<Rightarrow> int" where
  "zpt_fixed_magnitude value =
     (if value \<ge> 0 then u64 value else u64 (u64 (- (value + 1)) + 1))"

definition zpt_fixed_saturating_add :: "int \<Rightarrow> int \<Rightarrow> int" where
  "zpt_fixed_saturating_add left right =
     (if right > 0 \<and> left > INT64_MAX - right then INT64_MAX
      else if right < 0 \<and> left < INT64_MIN - right then INT64_MIN
      else i64 (left + right))"

definition zpt_fixed_saturating_add_u64 :: "int \<Rightarrow> int \<Rightarrow> int" where
  "zpt_fixed_saturating_add_u64 left right =
     (if UINT64_MAX - left < right then UINT64_MAX else u64 (left + right))"

definition zpt_fixed_ratio_dominates :: "int \<Rightarrow> int \<Rightarrow> u16 \<Rightarrow> bool" where
  "zpt_fixed_ratio_dominates major minor ratio_percent =
     (if minor \<noteq> 0 \<and> ratio_percent \<noteq> 0 \<and> minor > UINT64_MAX div uint ratio_percent then True
      else
        let product = u64 (minor * uint ratio_percent);
            required = u64 (product div 100 + (if product mod 100 \<noteq> 0 then 1 else 0))
        in major \<ge> required)"

definition zpt_fixed_multiply :: "int \<Rightarrow> int \<Rightarrow> int" where
  "zpt_fixed_multiply left right =
     (if left = 0 \<or> right = 0 then 0
      else if left > 0 \<and> right > 0 then
        (if left > INT64_MAX sdiv right then INT64_MAX
         else drop_bit FIXED_FRACTION_BITS (i64 (left * right)))
      else if left < 0 \<and> right < 0 then
        (if left < INT64_MAX sdiv right then INT64_MAX
         else drop_bit FIXED_FRACTION_BITS (i64 (left * right)))
      else if left > 0 \<and> right < INT64_MIN sdiv left then INT64_MIN
      else if \<not> left > 0 \<and> u64 right > 9223372036854775808 div zpt_fixed_magnitude left
        then INT64_MIN
      else drop_bit FIXED_FRACTION_BITS (i64 (left * right)))"

definition zpt_fixed_to_int32 :: "int \<Rightarrow> int" where
  "zpt_fixed_to_int32 value =
     (let value = value sdiv FIXED_ONE
      in if value > INT32_MAX then INT32_MAX else if value < INT32_MIN then INT32_MIN
         else i32 value)"

section \<open>Saturating addition\<close>

text \<open>
  Three components have their own saturating 64-bit addition (this one, the motion gate's and
  the frame assembler's). The contract they share: the sum, clamped to \<open>int64_t\<close>.
\<close>

locale saturating_adder =
  fixes add :: "int \<Rightarrow> int \<Rightarrow> int"
  assumes add_clamps: "in_i64 a \<Longrightarrow> in_i64 b \<Longrightarrow> add a b = clamp64 (a + b)"
begin

lemma add_in_range: "in_i64 a \<Longrightarrow> in_i64 b \<Longrightarrow> in_i64 (add a b)"
  by (simp add: add_clamps)

lemma add_exact: "in_i64 a \<Longrightarrow> in_i64 b \<Longrightarrow> in_i64 (a + b) \<Longrightarrow> add a b = a + b"
  by (simp add: add_clamps)

lemma add_commute: "in_i64 a \<Longrightarrow> in_i64 b \<Longrightarrow> add a b = add b a"
  by (simp add: add_clamps add.commute)

lemma add_zero [simp]: "in_i64 a \<Longrightarrow> add a 0 = a" "in_i64 a \<Longrightarrow> add 0 a = a"
  by (simp_all add: add_clamps)

lemma add_mono:
  "in_i64 a \<Longrightarrow> in_i64 a' \<Longrightarrow> in_i64 b \<Longrightarrow> a \<le> a' \<Longrightarrow> add a b \<le> add a' b"
  by (simp add: add_clamps clamp64_mono)

lemma foldl_add_in_range:
  "in_i64 a \<Longrightarrow> \<forall>x \<in> set xs. in_i64 x \<Longrightarrow> in_i64 (foldl add a xs)"
  by (induction xs arbitrary: a) (simp_all add: add_in_range)

text \<open>As long as the motion so far cannot reach the limits, the fold is the plain sum.\<close>

lemma foldl_add_exact:
  "in_i64 a \<Longrightarrow> \<bar>a\<bar> + (\<Sum>x\<leftarrow>xs. \<bar>x\<bar>) \<le> INT64_MAX \<Longrightarrow> foldl add a xs = a + sum_list xs"
proof (induction xs arbitrary: a)
  case Nil
  then show ?case by simp
next
  case (Cons x xs)
  have nonneg: "0 \<le> (\<Sum>x\<leftarrow>xs. \<bar>x\<bar>)"
    by (rule sum_list_nonneg) auto
  from Cons.prems nonneg have ranges: "in_i64 x" "in_i64 (a + x)"
    by (auto simp: in_i64_def)
  with Cons.prems have "add a x = a + x" by (simp add: add_exact)
  moreover from Cons.prems have "\<bar>a + x\<bar> + (\<Sum>x\<leftarrow>xs. \<bar>x\<bar>) \<le> INT64_MAX" by auto
  ultimately show ?case using Cons.IH [of "a + x"] ranges by simp
qed

end

lemma magnitude_abs [zpt_simps]: "in_i64 v \<Longrightarrow> zpt_fixed_magnitude v = \<bar>v\<bar>"
  by (auto simp: zpt_fixed_magnitude_def in_i64_def u64_def)

interpretation fixed_add: saturating_adder zpt_fixed_saturating_add
  by unfold_locales (auto simp: zpt_fixed_saturating_add_def clamp64_def in_i64_def i64_def)

lemma saturating_add_in_i64 [zpt_range]: "in_i64 (zpt_fixed_saturating_add l r)"
  by (simp add: zpt_fixed_saturating_add_def)

lemma saturating_add_u64_min [zpt_simps]:
  "in_u64 l \<Longrightarrow> in_u64 r \<Longrightarrow> zpt_fixed_saturating_add_u64 l r = min UINT64_MAX (l + r)"
  by (auto simp: zpt_fixed_saturating_add_u64_def in_u64_def u64_def)

lemma saturating_add_u64_in_u64 [zpt_range]: "in_u64 (zpt_fixed_saturating_add_u64 l r)"
  by (simp add: zpt_fixed_saturating_add_u64_def)

section \<open>Multiplication\<close>

lemma sdiv_neg_denominator: "0 \<le> a \<Longrightarrow> b < 0 \<Longrightarrow> a sdiv b = - (a div (- b))" for a b :: int
  by (cases "a = 0") (simp_all add: signed_divide_int_def)

lemma mul_overflow_tests:
  fixes l r :: int
  shows "0 < l \<Longrightarrow> 0 < r \<Longrightarrow> (INT64_MAX div r < l) = (l * r > INT64_MAX)"
    and "l < 0 \<Longrightarrow> r < 0 \<Longrightarrow> (l < - (INT64_MAX div - r)) = (l * r > INT64_MAX)"
    and "0 < l \<Longrightarrow> r < 0 \<Longrightarrow> (r < - (9223372036854775808 div l)) = (l * r < INT64_MIN)"
    and "l < 0 \<Longrightarrow> 0 < r \<Longrightarrow> (9223372036854775808 div - l < r) = (l * r < INT64_MIN)"
  using div_less_iff_less_mult' [of r INT64_MAX l]
    div_less_iff_less_mult' [of "- r" INT64_MAX "- l"]
    div_less_iff_less_mult' [of l 9223372036854775808 "- r"]
    div_less_iff_less_mult' [of "- l" 9223372036854775808 r]
  by (auto simp: mult.commute)

text \<open>The floor of the exact product over \<open>2 ^ 16\<close>, or the limit it lies beyond.\<close>

lemma fixed_multiply_cases [zpt_simps]:
  assumes l: "in_i64 l" and r: "in_i64 r"
  shows "zpt_fixed_multiply l r =
    (if l * r > INT64_MAX then INT64_MAX
     else if l * r < INT64_MIN then INT64_MIN
     else l * r div FIXED_ONE)"
proof -
  have wrap: "drop_bit FIXED_FRACTION_BITS (i64 (l * r)) = l * r div 65536"
    if "\<not> l * r > INT64_MAX" "\<not> l * r < INT64_MIN"
    using that by (simp add: in_i64_def drop_bit_eq_div)
  consider "l = 0 \<or> r = 0" | "0 < l" "0 < r" | "l < 0" "r < 0" | "0 < l" "r < 0" | "l < 0" "0 < r"
    by linarith
  then show ?thesis
  proof cases
    case 1
    then show ?thesis by (auto simp: zpt_fixed_multiply_def)
  next
    case 2
    then have "\<not> l * r < INT64_MIN" by (smt (verit) mult_pos_pos)
    with 2 show ?thesis
      by (simp add: zpt_fixed_multiply_def sdiv_nonneg mul_overflow_tests wrap)
  next
    case 3
    then have "\<not> l * r < INT64_MIN" by (smt (verit) mult_neg_neg)
    with 3 show ?thesis
      by (simp add: zpt_fixed_multiply_def sdiv_neg_denominator mul_overflow_tests wrap)
  next
    case 4
    then have "\<not> l * r > INT64_MAX" by (smt (verit) mult_pos_neg)
    with 4 show ?thesis
      by (simp add: zpt_fixed_multiply_def sdiv_nonneg mul_overflow_tests wrap)
  next
    case 5
    then have "\<not> l * r > INT64_MAX" by (smt (verit) mult_neg_pos)
    moreover have "u64 r = r" using 5 r by (simp add: in_range_defs)
    ultimately show ?thesis
      using 5 l by (simp add: zpt_fixed_multiply_def mul_overflow_tests magnitude_abs wrap)
  qed
qed

lemma fixed_multiply_in_i64 [zpt_range]:
  assumes "in_i64 l" "in_i64 r"
  shows "in_i64 (zpt_fixed_multiply l r)"
proof -
  have "in_i64 (l * r div 65536)" if "l * r \<le> INT64_MAX" "INT64_MIN \<le> l * r"
    using that by (simp add: in_i64_def) linarith
  then show ?thesis by (simp add: fixed_multiply_cases [OF assms])
qed

lemma fixed_multiply_exact:
  "in_i64 l \<Longrightarrow> in_i64 r \<Longrightarrow> in_i64 (l * r) \<Longrightarrow> zpt_fixed_multiply l r = l * r div FIXED_ONE"
  by (simp add: fixed_multiply_cases in_i64_def)

section \<open>Ratio comparison and truncation\<close>

lemma ceil_div_le_iff:
  "0 < d \<Longrightarrow> (p div d + (if p mod d \<noteq> 0 then 1 else 0) \<le> m) = (p \<le> m * d)" for p m d :: int
proof -
  assume d: "0 < d"
  have "(p div d + (if p mod d \<noteq> 0 then 1 else 0) \<le> m) = (- m \<le> (- p) div d)"
    using d by (auto simp: zdiv_zminus1_eq_if)
  also have "\<dots> = (- m * d \<le> - p)" by (rule le_div_iff_mult_le [OF d])
  finally show ?thesis by auto
qed

text \<open>
  The comparison \<open>major * 100 >= minor * ratio\<close> is exact while the product fits 64 bits, and
  true when it does not.
\<close>

lemma ratio_dominates_cases [zpt_simps]:
  assumes minor: "in_u64 minor"
  shows "zpt_fixed_ratio_dominates major minor ratio =
    (if minor * uint ratio > UINT64_MAX then True else minor * uint ratio \<le> major * 100)"
proof (cases "ratio = 0 \<or> minor = 0")
  case True
  then show ?thesis by (auto simp: zpt_fixed_ratio_dominates_def)
next
  case False
  then have pos: "0 < uint ratio" by (simp add: uint_pos_iff)
  let ?p = "minor * uint ratio"
  have test: "(minor > UINT64_MAX div uint ratio) = (?p > UINT64_MAX)"
    by (rule div_less_iff_less_mult' [OF pos])
  show ?thesis
  proof (cases "?p > UINT64_MAX")
    case True
    with False test show ?thesis by (simp add: zpt_fixed_ratio_dominates_def)
  next
    case small: False
    have "0 \<le> ?p" using minor pos by (simp add: in_u64_def)
    with small have "u64 ?p = ?p" by (simp add: in_u64_def)
    moreover have "u64 (?p div 100 + (if ?p mod 100 \<noteq> 0 then 1 else 0)) =
        ?p div 100 + (if ?p mod 100 \<noteq> 0 then 1 else 0)"
      using \<open>0 \<le> ?p\<close> small by (intro u64_id) (auto simp: in_u64_def)
    ultimately show ?thesis
      using False test small ceil_div_le_iff [of 100 ?p major]
      by (simp add: zpt_fixed_ratio_dominates_def Let_def)
  qed
qed

lemma fixed_to_int32_cases [zpt_simps]:
  "zpt_fixed_to_int32 v = max INT32_MIN (min INT32_MAX (v sdiv FIXED_ONE))"
  by (auto simp: zpt_fixed_to_int32_def Let_def i32_def)

lemma fixed_to_int32_in_i32 [zpt_range]: "in_i32 (zpt_fixed_to_int32 v)"
  by (simp add: fixed_to_int32_cases in_i32_def)

text \<open>What truncation leaves behind, when the integer part fits.\<close>

lemma fixed_to_int32_remainder:
  assumes "in_i32 (v sdiv FIXED_ONE)"
  shows "\<bar>v - zpt_fixed_to_int32 v * FIXED_ONE\<bar> < FIXED_ONE"
proof -
  have "zpt_fixed_to_int32 v = v sdiv FIXED_ONE"
    using assms by (simp add: fixed_to_int32_cases in_i32_def)
  then show ?thesis by (simp add: sdiv_remainder_abs)
qed

text \<open>
  The fixed-point helpers compute the exact value, clamped to the result type: the
  sum, the floor of the product over \<open>2 ^ 16\<close>, and the integer part truncated towards zero.
\<close>

theorem fixed_point_helpers_saturate:
  assumes "in_i64 l" and "in_i64 r"
  shows "zpt_fixed_saturating_add l r = clamp64 (l + r) \<and>
    zpt_fixed_multiply l r =
      (if l * r > INT64_MAX then INT64_MAX else if l * r < INT64_MIN then INT64_MIN
       else l * r div 65536) \<and>
    zpt_fixed_to_int32 l = max INT32_MIN (min INT32_MAX (l sdiv 65536))"
  using assms by (simp_all add: fixed_add.add_clamps fixed_multiply_cases fixed_to_int32_cases)

theorem fixed_point_helpers_saturate_witness:
  "zpt_fixed_saturating_add INT64_MAX 5 = INT64_MAX \<and>
   zpt_fixed_multiply (- 98304) 131073 = - 196610 \<and>
   zpt_fixed_multiply INT64_MIN 2 = INT64_MIN \<and>
   zpt_fixed_to_int32 (- 98304) = - 1"
  using fixed_point_helpers_saturate [of INT64_MAX 5]
    fixed_point_helpers_saturate [of "- 98304" 131073]
    fixed_point_helpers_saturate [of INT64_MIN 2]
  by (simp_all add: clamp64_def sdiv_neg)

text \<open>
  The ratio test decides \<open>major * 100 >= minor * ratio\<close> exactly whenever the
  product \<open>minor * ratio\<close> fits an unsigned 64-bit integer.
\<close>

theorem ratio_dominates_exact:
  assumes "in_u64 minor" and "minor * uint ratio \<le> UINT64_MAX"
  shows "zpt_fixed_ratio_dominates major minor ratio \<longleftrightarrow> major * 100 \<ge> minor * uint ratio"
  using assms by (simp add: ratio_dominates_cases)

theorem ratio_dominates_exact_witness:
  "zpt_fixed_ratio_dominates 150 100 150 \<and> \<not> zpt_fixed_ratio_dominates 149 100 150"
  using ratio_dominates_exact [of 100 150 150] ratio_dominates_exact [of 100 150 149] by simp

text \<open>
  Beyond that range the test answers true whatever the major value is, so it is not the
  comparison the comment of \<open>zpt_fixed_ratio_dominates\<close> states.
\<close>

lemma ratio_dominates_overflow_is_true:
  "zpt_fixed_ratio_dominates 0 9223372036854775808 150 \<and>
   \<not> (0 * 100 \<ge> (9223372036854775808 :: int) * uint (150 :: u16))"
  by (simp add: ratio_dominates_cases)

end
