(* ===== verification/Stage_Program.thy ===== *)
theory Stage_Program
  imports Fixed
begin

text \<open>
  What a stage is to the runtime (\<open>core/pipeline.h\<close>): its API record and the program one call
  of it runs.

  A stage's \<open>process\<close>, \<open>flush\<close> and \<open>deactivate\<close> callbacks receive a context and call back into
  the runtime: \<open>zpt_stage_emit\<close>, \<open>zpt_stage_schedule_flush\<close>, \<open>zpt_stage_cancel_flush\<close>,
  \<open>zpt_stage_notify\<close>. A callback is modelled by the tree of the calls it makes: each node is one
  call, its continuation receives the call's return code, and \<open>Return\<close> carries the callback's
  own return code and the value it leaves in its state. The runtime interprets the tree
  (theory Pipeline), so a stage model never sees the runtime and the runtime never sees a
  stage's internals, as in C.

  Pointers that may be \<open>NULL\<close> and are tested by the code (\<open>config\<close>, \<open>state\<close>, the API's function
  pointers, identifiers) are options. References that the runtime passes itself (stage, signal,
  context) are never \<open>NULL\<close> and are not options, here and in every theory of the development; the
  \<open>NULL\<close> guards of such parameters have no counterpart.
\<close>

definition time_reached :: "u32 \<Rightarrow> u32 \<Rightarrow> bool" where
  "time_reached now_ms deadline_ms \<longleftrightarrow> sint (now_ms - deadline_ms) \<ge> 0"

text \<open>A deadline that is reached is at most half the clock's range behind.\<close>

lemma time_reached_span:
  assumes "time_reached now (start + span)" "uint span \<le> 65535"
  shows "span \<le> now - start"
proof -
  have "0 \<le> sint (now - (start + span))" using assms(1) by (simp add: time_reached_def)
  then have small: "uint (now - (start + span)) < 2147483648" by (rule nonneg_sint_uint)
  have "uint (now - start) = uint (now - (start + span) + span)" by simp
  also have "\<dots> = uint (now - (start + span)) + uint span"
    using small assms(2) uint_bounds(3) [of span] by (intro uint_add_lem [THEN iffD1]) simp
  finally show ?thesis using uint_bounds(3) [of "now - (start + span)"] by (simp add: word_le_def)
qed

datatype zpt_reset_reason =
    RESET_INITIALIZATION
  | RESET_IDLE
  | RESET_PIPELINE_ENTERED
  | RESET_PIPELINE_LEFT
  | RESET_SOURCE_DISCONNECTED
  | RESET_SOURCE_RECONNECTED
  | RESET_TRANSPORT_DISCONTINUITY
  | RESET_EXTERNAL_SUPPRESSION
  | RESET_SETTINGS_CHANGED
  | RESET_SETTINGS_DEFAULTED
  | RESET_ADMINISTRATIVE

datatype zpt_stage_event =
    EVENT_SUPPRESSED
  | EVENT_DISCARDED
  | EVENT_QUALIFIED
  | EVENT_INTENT_CHANGED
  | EVENT_FLUSHED
  | EVENT_ACTION

abbreviation (input) STAGE_STATEFUL :: u32 where "STAGE_STATEFUL \<equiv> 1"

datatype 's stage_prog =
    Return int "'s option"
  | Emit zpt_signal "int \<Rightarrow> 's stage_prog"
  | ScheduleFlush u32 "int \<Rightarrow> 's stage_prog"
  | CancelFlush "'s stage_prog"
  | Notify zpt_stage_event int "'s stage_prog"

text \<open>
  The callbacks read \<open>stage->config\<close>, \<open>stage->state\<close>, the operation's time
  (\<open>zpt_stage_now_ms\<close>) and, in \<open>flush\<close>, \<open>stage->deadline_ms\<close>.
\<close>

type_synonym ('c, 's) zpt_stage_process = "'c option \<Rightarrow> 's option \<Rightarrow> u32 \<Rightarrow> zpt_signal \<Rightarrow> 's stage_prog"
type_synonym ('c, 's) zpt_stage_flush = "'c option \<Rightarrow> 's option \<Rightarrow> u32 \<Rightarrow> u32 \<Rightarrow> 's stage_prog"
type_synonym ('c, 's) zpt_stage_activate = "'c option \<Rightarrow> 's option \<Rightarrow> zpt_reset_reason \<Rightarrow> int \<times> 's option"
type_synonym ('c, 's) zpt_stage_deactivate =
  "'c option \<Rightarrow> 's option \<Rightarrow> u32 \<Rightarrow> zpt_reset_reason \<Rightarrow> 's stage_prog"
type_synonym ('c, 's) zpt_stage_reset = "'c option \<Rightarrow> 's option \<Rightarrow> zpt_reset_reason \<Rightarrow> 's option"

record ('c, 's) zpt_stage_api =
  strategy_id :: "string option"
  accepted_kinds :: u32
  output_kind :: zpt_signal_kind
  api_flags :: u32
  api_process :: "('c, 's) zpt_stage_process option"
  api_flush :: "('c, 's) zpt_stage_flush option"
  api_activate :: "('c, 's) zpt_stage_activate option"
  api_deactivate :: "('c, 's) zpt_stage_deactivate option"
  api_reset :: "('c, 's) zpt_stage_reset option"

text \<open>The tail call \<open>return zpt_stage_emit(context, &output)\<close>.\<close>

definition emit_return :: "zpt_signal \<Rightarrow> 's option \<Rightarrow> 's stage_prog" where
  "emit_return out st = Emit out (\<lambda>ret. Return ret st)"

section \<open>Shapes of stage programs\<close>

text \<open>
  \<open>prog_ok K I p\<close>: the program emits at most once, as its last call, a well-formed signal of
  kind \<open>K\<close>, returns the emission's code, and leaves a state satisfying \<open>I\<close> whatever its calls
  return.
\<close>

primrec prog_ok :: "zpt_signal_kind \<Rightarrow> ('s option \<Rightarrow> bool) \<Rightarrow> 's stage_prog \<Rightarrow> bool" where
  "prog_ok K I (Return r st) = I st"
| "prog_ok K I (Emit s k) =
     (kind s = K \<and> signal_ok s \<and> (\<exists>st. I st \<and> (\<forall>r. k r = Return r st)))"
| "prog_ok K I (ScheduleFlush d k) = (\<forall>r. prog_ok K I (k r))"
| "prog_ok K I (CancelFlush p) = prog_ok K I p"
| "prog_ok K I (Notify e v p) = prog_ok K I p"

lemma prog_ok_emit_return [simp]:
  "prog_ok K I (emit_return s st) = (kind s = K \<and> signal_ok s \<and> I st)"
  by (auto simp: emit_return_def)

lemma prog_ok_mono: "prog_ok K I p \<Longrightarrow> (\<And>st. I st \<Longrightarrow> J st) \<Longrightarrow> prog_ok K J p"
  by (induction p) auto

text \<open>Make a list of notifications, then go on.\<close>

definition notify_all :: "(zpt_stage_event \<times> int) list \<Rightarrow> 's stage_prog \<Rightarrow> 's stage_prog" where
  "notify_all events p = foldr (\<lambda>(e, v) q. Notify e v q) events p"

lemma prog_ok_notify_all [simp]: "prog_ok K I (notify_all es p) = prog_ok K I p"
  by (induction es) (auto simp: notify_all_def)

text \<open>
  \<open>tail_emit K p\<close> keeps only what the runtime itself depends on: at most one emission, last, of
  the declared kind, whose code is returned.
\<close>

primrec tail_emit :: "zpt_signal_kind \<Rightarrow> 's stage_prog \<Rightarrow> bool" where
  "tail_emit K (Return r st) = True"
| "tail_emit K (Emit s k) = (kind s = K \<and> (\<exists>st. \<forall>r. k r = Return r st))"
| "tail_emit K (ScheduleFlush d k) = (\<forall>r. tail_emit K (k r))"
| "tail_emit K (CancelFlush p) = tail_emit K p"
| "tail_emit K (Notify e v p) = tail_emit K p"

lemma tail_emit_return [simp]: "tail_emit K (emit_return s st) = (kind s = K)"
  by (auto simp: emit_return_def)

lemma tail_emit_notify_all [simp]: "tail_emit K (notify_all es p) = tail_emit K p"
  by (induction es) (auto simp: notify_all_def)

lemma prog_ok_tail_emit: "prog_ok K I p \<Longrightarrow> tail_emit K p"
  by (induction p) auto

text \<open>\<open>prog_typed K I p\<close>: the same, and the state left satisfies \<open>I\<close>.\<close>

primrec prog_typed :: "zpt_signal_kind \<Rightarrow> ('s option \<Rightarrow> bool) \<Rightarrow> 's stage_prog \<Rightarrow> bool" where
  "prog_typed K I (Return r st) = I st"
| "prog_typed K I (Emit s k) = (kind s = K \<and> (\<exists>st. I st \<and> (\<forall>r. k r = Return r st)))"
| "prog_typed K I (ScheduleFlush d k) = (\<forall>r. prog_typed K I (k r))"
| "prog_typed K I (CancelFlush p) = prog_typed K I p"
| "prog_typed K I (Notify e v p) = prog_typed K I p"

lemma prog_typed_return [simp]: "prog_typed K I (emit_return s st) = (kind s = K \<and> I st)"
  by (auto simp: emit_return_def)

lemma prog_typed_notify_all [simp]: "prog_typed K I (notify_all es p) = prog_typed K I p"
  by (induction es) (auto simp: notify_all_def)

lemma prog_typed_tail_emit: "prog_typed K I p \<Longrightarrow> tail_emit K p"
  by (induction p) auto

text \<open>
  One call of a stage on its own, with every runtime call succeeding: the return code, the
  state left, the signals emitted, and the deadline left pending.
\<close>

record 's call_result =
  res_ret :: int
  res_state :: "'s option"
  res_out :: "zpt_signal list"
  res_deadline :: "u32 option"
  res_events :: "(zpt_stage_event \<times> int) list"

primrec run_call :: "'s stage_prog \<Rightarrow> u32 option \<Rightarrow> 's call_result" where
  "run_call (Return r st) dl =
     \<lparr>res_ret = r, res_state = st, res_out = [], res_deadline = dl, res_events = []\<rparr>"
| "run_call (Emit s k) dl =
     (let c = run_call (k 0) dl in c\<lparr>res_out := s # res_out c\<rparr>)"
| "run_call (ScheduleFlush d k) dl = run_call (k 0) (Some d)"
| "run_call (CancelFlush p) dl = run_call p None"
| "run_call (Notify e v p) dl =
     (let c = run_call p dl in c\<lparr>res_events := (e, v) # res_events c\<rparr>)"

lemma run_call_emit_return [simp]:
  "run_call (emit_return s st) dl =
     \<lparr>res_ret = 0, res_state = st, res_out = [s], res_deadline = dl, res_events = []\<rparr>"
  by (simp add: emit_return_def)

lemma run_notify_all [simp]:
  "res_out (run_call (notify_all es p) dl) = res_out (run_call p dl)"
  "res_state (run_call (notify_all es p) dl) = res_state (run_call p dl)"
  "res_ret (run_call (notify_all es p) dl) = res_ret (run_call p dl)"
  "res_deadline (run_call (notify_all es p) dl) = res_deadline (run_call p dl)"
  by (induction es) (auto simp: notify_all_def Let_def)

lemma run_call_ok:
  "prog_ok K I p \<Longrightarrow>
     I (res_state (run_call p dl)) \<and> length (res_out (run_call p dl)) \<le> 1 \<and>
     (\<forall>s \<in> set (res_out (run_call p dl)). kind s = K \<and> signal_ok s)"
proof (induction p arbitrary: dl)
  case (Emit s k)
  then obtain st where "I st" "\<forall>r. k r = Return r st" by auto
  with Emit.prems show ?case by (simp add: Let_def)
next
  case (ScheduleFlush d k)
  then show ?case by (metis prog_ok.simps(3) rangeI run_call.simps(3))
qed (simp_all add: Let_def)

section \<open>The stage contract\<close>

text \<open>
  The interface between the runtime and the stages. A stage keeps the contract when, under a
  valid configuration, every callback preserves its state invariant and every emission is a
  well-formed signal of the declared output kind, made as the callback's last call. The runtime
  relies on nothing else.
\<close>

text \<open>
  A disciplined stage emits a signal of its output kind at most once, as its last call, and keeps
  the type \<open>I\<close> of its state, whatever its configuration and whatever its calls return. This is all
  the runtime needs to run a stage in a pipeline (theory Pipeline_Properties).
\<close>

definition disciplined :: "('s option \<Rightarrow> bool) \<Rightarrow> ('c, 's) zpt_stage_api \<Rightarrow> bool" where
  "disciplined I api \<longleftrightarrow> (\<forall>f c st now s. api_process api = Some f \<longrightarrow> I st \<longrightarrow>
     accepted_kinds api AND ZPT_SIGNAL_KIND_MASK (kind s) \<noteq> 0 \<longrightarrow>
     prog_typed (output_kind api) I (f c st now s))"

datatype stage_input = FrameIn u32 zpt_signal | FlushIn u32 u32 | ResetIn zpt_reset_reason

definition accepts :: "('c, 's) zpt_stage_api \<Rightarrow> zpt_signal \<Rightarrow> bool" where
  "accepts api s \<longleftrightarrow> zpt_signal_kind_valid (kind s) \<and>
     accepted_kinds api AND ZPT_SIGNAL_KIND_MASK (kind s) \<noteq> 0"

lemma accepts_mask:
  assumes "accepts api s" "accepted_kinds api = ZPT_SIGNAL_KIND_MASK k" "zpt_signal_kind_valid k"
  shows "kind s = k"
  using assms kind_mask_and [of k "kind s"] by (simp add: accepts_def)

fun stage_step :: "('c, 's) zpt_stage_api \<Rightarrow> 'c option \<Rightarrow> 's option \<Rightarrow> stage_input \<Rightarrow>
    's option \<times> zpt_signal list" where
  "stage_step api c st (FrameIn now s) =
     (case api_process api of None \<Rightarrow> (st, [])
      | Some f \<Rightarrow> let r = run_call (f c st now s) None in (res_state r, res_out r))"
| "stage_step api c st (FlushIn dl now) =
     (case api_flush api of None \<Rightarrow> (st, [])
      | Some f \<Rightarrow> let r = run_call (f c st dl now) None in (res_state r, res_out r))"
| "stage_step api c st (ResetIn reason) =
     (case api_reset api of None \<Rightarrow> (st, []) | Some f \<Rightarrow> (f c st reason, []))"

primrec stage_run :: "('c, 's) zpt_stage_api \<Rightarrow> 'c option \<Rightarrow> 's option \<Rightarrow> stage_input list \<Rightarrow>
    's option \<times> zpt_signal list" where
  "stage_run api c st [] = (st, [])"
| "stage_run api c st (i # is) =
     (let (st1, out1) = stage_step api c st i; (st2, out2) = stage_run api c st1 is
      in (st2, out1 @ out2))"

fun input_ok :: "('c, 's) zpt_stage_api \<Rightarrow> stage_input \<Rightarrow> bool" where
  "input_ok api (FrameIn now s) = (accepts api s \<and> signal_ok s)"
| "input_ok api _ = True"

locale stage_contract =
  fixes api :: "('c, 's) zpt_stage_api"
    and config_ok :: "'c option \<Rightarrow> bool"
    and inv :: "'c option \<Rightarrow> 's option \<Rightarrow> bool"
  assumes process_ok: "config_ok c \<Longrightarrow> inv c st \<Longrightarrow> accepts api s \<Longrightarrow> signal_ok s \<Longrightarrow>
      api_process api = Some f \<Longrightarrow> prog_ok (output_kind api) (inv c) (f c st now s)"
    and flush_ok: "config_ok c \<Longrightarrow> inv c st \<Longrightarrow> api_flush api = Some g \<Longrightarrow>
      prog_ok (output_kind api) (inv c) (g c st dl now)"
    and reset_ok: "config_ok c \<Longrightarrow> inv c st \<Longrightarrow> api_reset api = Some h \<Longrightarrow> inv c (h c st reason)"
    and no_deactivate: "api_deactivate api = None"
begin

lemma step_ok:
  assumes "config_ok c" "inv c st" "input_ok api i"
  shows "inv c (fst (stage_step api c st i)) \<and>
    (\<forall>s \<in> set (snd (stage_step api c st i)). kind s = output_kind api \<and> signal_ok s)"
proof (cases i)
  case (FrameIn now s)
  with assms show ?thesis
    by (auto simp: Let_def split: option.split dest!: run_call_ok [OF process_ok])
next
  case (FlushIn dl now)
  with assms show ?thesis
    by (auto simp: Let_def split: option.split dest!: run_call_ok [OF flush_ok])
next
  case (ResetIn reason)
  with assms show ?thesis by (auto split: option.split dest: reset_ok)
qed

lemma run_ok:
  assumes "config_ok c" "inv c st" "\<forall>i \<in> set is. input_ok api i"
  shows "inv c (fst (stage_run api c st is)) \<and>
    (\<forall>s \<in> set (snd (stage_run api c st is)). kind s = output_kind api \<and> signal_ok s)"
  using assms(2,3)
proof (induction "is" arbitrary: st)
  case Nil
  then show ?case by simp
next
  case (Cons i "is")
  obtain st1 out1 where s1: "stage_step api c st i = (st1, out1)" by (cases "stage_step api c st i")
  obtain st2 out2 where s2: "stage_run api c st1 is = (st2, out2)" by (cases "stage_run api c st1 is")
  from step_ok [OF assms(1), of st i] Cons.prems s1
  have "inv c st1 \<and> (\<forall>s \<in> set out1. kind s = output_kind api \<and> signal_ok s)" by simp
  with Cons.IH [of st1] Cons.prems s2 show ?case by (auto simp: s1 s2)
qed

end

section \<open>A stage driven by the clock\<close>

text \<open>
  A stage on its own with the deadline the runtime keeps for it: frames arrive, and a tick
  flushes the stage when its deadline is reached, as \<open>zpt_pipeline_flush\<close> does.
\<close>

datatype drive_input = FrameAt u32 zpt_signal | TickAt u32

fun input_time :: "drive_input \<Rightarrow> u32" where
  "input_time (FrameAt now s) = now"
| "input_time (TickAt now) = now"

fun drive_step :: "('c, 's) zpt_stage_api \<Rightarrow> 'c option \<Rightarrow> 's option \<times> u32 option \<Rightarrow> drive_input \<Rightarrow>
    ('s option \<times> u32 option) \<times> zpt_signal list" where
  "drive_step api c (st, dl) (FrameAt now s) =
     (let r = run_call (the (api_process api) c st now s) dl in ((res_state r, res_deadline r), res_out r))"
| "drive_step api c (st, dl) (TickAt now) =
     (case dl of
        None \<Rightarrow> ((st, dl), [])
      | Some d \<Rightarrow>
          if time_reached now d then
            let r = run_call (the (api_flush api) c st d now) None in ((res_state r, res_deadline r), res_out r)
          else ((st, dl), []))"

primrec drive :: "('c, 's) zpt_stage_api \<Rightarrow> 'c option \<Rightarrow> 's option \<times> u32 option \<Rightarrow> drive_input list \<Rightarrow>
    ('s option \<times> u32 option) \<times> zpt_signal list" where
  "drive api c d [] = (d, [])"
| "drive api c d (i # is) =
     (let (d, out1) = drive_step api c d i; (d, out2) = drive api c d is in (d, out1 @ out2))"

end
