(* ===== verification/Pipeline.thy ===== *)
theory Pipeline
  imports Stage_Program
begin

text \<open>
  The composable pipeline runtime (\<open>core/pipeline.h\<close>, \<open>core/pipeline.c\<close>).

  Stages, sinks, pipelines and stage states are objects of a store, named by numbers, so that
  two pipelines may refer to the same stage, two stages to the same state, and ownership
  (\<open>owner\<close>) means what it means in C. The store also keeps a log of the observer callbacks made,
  in order; an observer that is not installed logs nothing.
\<close>

section \<open>The store\<close>

record 'k zpt_sink_api =
  type_id :: "string option"
  sink_accepted_kinds :: u32
  sink_emit :: "('k \<Rightarrow> zpt_signal \<Rightarrow> int \<times> 'k) option"
  sink_activate :: "('k \<Rightarrow> zpt_reset_reason \<Rightarrow> int \<times> 'k) option"
  sink_deactivate :: "('k \<Rightarrow> zpt_reset_reason \<Rightarrow> int \<times> 'k) option"
  sink_reset :: "('k \<Rightarrow> zpt_reset_reason \<Rightarrow> 'k) option"

record 'k zpt_sink =
  snk_stable_id :: "string option"
  snk_api :: "'k zpt_sink_api option"
  snk_state :: 'k
  snk_owner :: "nat option"

record ('c, 's) zpt_stage =
  stg_stable_id :: "string option"
  stg_api :: "('c, 's) zpt_stage_api option"
  stg_config :: "'c option"
  stg_state :: "nat option"
  stg_owner :: "nat option"
  stg_deadline_ms :: u32
  stg_deadline_pending :: bool
  stg_observer_callback :: bool
  stg_observer_frame :: bool

record zpt_pipeline_observer =
  obs_input :: bool
  obs_input_done :: bool
  obs_flush :: bool
  obs_flush_done :: bool
  obs_lifecycle :: bool

record zpt_pipeline =
  pl_stable_id :: "string option"
  pl_input_kind :: zpt_signal_kind
  pl_stages :: "nat list"
  pl_sink :: nat
  pl_dispatch_budget :: u32
  pl_validated :: bool
  pl_active :: bool
  pl_observer :: zpt_pipeline_observer

datatype log_entry =
    LogInput nat zpt_signal
  | LogInputDone nat
  | LogFlush nat u32
  | LogFlushDone nat
  | LogLifecycle nat bool
  | LogEvent nat zpt_stage_event int u32
  | LogFrame nat zpt_signal u32

record ('c, 's, 'k) world =
  w_stages :: "nat \<Rightarrow> ('c, 's) zpt_stage"
  w_heap :: "nat \<Rightarrow> 's"
  w_sinks :: "nat \<Rightarrow> 'k zpt_sink"
  w_pipes :: "nat \<Rightarrow> zpt_pipeline"
  w_log :: "log_entry list"

definition log_if :: "bool \<Rightarrow> log_entry \<Rightarrow> ('c, 's, 'k) world \<Rightarrow> ('c, 's, 'k) world" where
  "log_if b e w = (if b then w\<lparr>w_log := w_log w @ [e]\<rparr> else w)"

definition stage_state :: "('c, 's, 'k) world \<Rightarrow> nat \<Rightarrow> 's option" where
  "stage_state w sid = map_option (w_heap w) (stg_state (w_stages w sid))"

definition put_state :: "nat \<Rightarrow> 's option \<Rightarrow> ('c, 's, 'k) world \<Rightarrow> ('c, 's, 'k) world" where
  "put_state sid st w =
     (case (stg_state (w_stages w sid), st) of
        (Some a, Some v) \<Rightarrow> w\<lparr>w_heap := (w_heap w)(a := v)\<rparr>
      | _ \<Rightarrow> w)"

definition update_stage ::
  "nat \<Rightarrow> (('c, 's) zpt_stage \<Rightarrow> ('c, 's) zpt_stage) \<Rightarrow> ('c, 's, 'k) world \<Rightarrow> ('c, 's, 'k) world" where
  "update_stage sid f w = w\<lparr>w_stages := (w_stages w)(sid := f (w_stages w sid))\<rparr>"

definition update_pipe ::
  "nat \<Rightarrow> (zpt_pipeline \<Rightarrow> zpt_pipeline) \<Rightarrow> ('c, 's, 'k) world \<Rightarrow> ('c, 's, 'k) world" where
  "update_pipe pid f w = w\<lparr>w_pipes := (w_pipes w)(pid := f (w_pipes w pid))\<rparr>"

definition update_sink ::
  "nat \<Rightarrow> ('k zpt_sink \<Rightarrow> 'k zpt_sink) \<Rightarrow> ('c, 's, 'k) world \<Rightarrow> ('c, 's, 'k) world" where
  "update_sink kid f w = w\<lparr>w_sinks := (w_sinks w)(kid := f (w_sinks w kid))\<rparr>"

lemmas store_defs = log_if_def update_stage_def update_pipe_def update_sink_def

section \<open>Operations\<close>

record zpt_pipeline_result =
  dispatches :: nat
  outputs :: nat

record zpt_op =
  op_pipeline :: nat
  op_result :: zpt_pipeline_result
  op_now :: u32
  op_remaining :: nat
  op_pending :: "(zpt_signal \<times> nat) option"

type_synonym ('c, 's, 'k) machine = "('c, 's, 'k) world \<times> zpt_op"

definition kind_accepted :: "u32 \<Rightarrow> zpt_signal_kind \<Rightarrow> bool" where
  "kind_accepted accepted k \<longleftrightarrow>
     zpt_signal_kind_valid k \<and> accepted AND ZPT_SIGNAL_KIND_MASK k \<noteq> 0"

definition clear_result :: zpt_pipeline_result where
  "clear_result = \<lparr>dispatches = 0, outputs = 0\<rparr>"

fun op_stages :: "('c, 's, 'k) machine \<Rightarrow> nat list" where
  "op_stages (w, op) = pl_stages (w_pipes w (op_pipeline op))"

text \<open>
  The runtime services a stage program calls. \<open>disp\<close> is the dispatcher that a second emission
  uses to finish the first one downstream before the second is held.
\<close>

fun zpt_stage_emit :: "(zpt_signal \<Rightarrow> nat \<Rightarrow> ('c, 's, 'k) machine \<Rightarrow> int \<times> ('c, 's, 'k) machine) \<Rightarrow>
    nat \<Rightarrow> zpt_signal \<Rightarrow> ('c, 's, 'k) machine \<Rightarrow> int \<times> ('c, 's, 'k) machine" where
  "zpt_stage_emit disp index s (w, op) =
     (if index \<ge> length (op_stages (w, op)) then (- EINVAL, (w, op))
      else let sid = op_stages (w, op) ! index; stage = w_stages w sid in
      if kind s \<noteq> output_kind (the (stg_api stage)) then (- EPROTOTYPE, (w, op))
      else
        let w = log_if (stg_observer_frame stage) (LogFrame sid s (op_now op)) w;
            (ret, w, op) = (case op_pending op of
                None \<Rightarrow> (0, w, op)
              | Some (earlier, i) \<Rightarrow> disp earlier i (w, op\<lparr>op_pending := None\<rparr>))
        in if ret < 0 then (ret, (w, op))
           else (0, (w, op\<lparr>op_pending := Some (s, Suc index)\<rparr>)))"

fun zpt_stage_schedule_flush :: "nat \<Rightarrow> u32 \<Rightarrow> ('c, 's, 'k) machine \<Rightarrow> int \<times> ('c, 's, 'k) machine" where
  "zpt_stage_schedule_flush index deadline (w, op) =
     (if index \<ge> length (op_stages (w, op)) then (- EINVAL, (w, op))
      else let sid = op_stages (w, op) ! index; api = the (stg_api (w_stages w sid)) in
      if api_flags api AND STAGE_STATEFUL = 0 \<or> api_flush api = None then (- ENOTSUP, (w, op))
      else (0, (update_stage sid
             (\<lambda>g. g\<lparr>stg_deadline_ms := deadline, stg_deadline_pending := True\<rparr>) w, op)))"

fun zpt_stage_cancel_flush :: "nat \<Rightarrow> ('c, 's, 'k) machine \<Rightarrow> ('c, 's, 'k) machine" where
  "zpt_stage_cancel_flush index (w, op) =
     (if index \<ge> length (op_stages (w, op)) then (w, op)
      else (update_stage (op_stages (w, op) ! index)
              (\<lambda>g. g\<lparr>stg_deadline_pending := False\<rparr>) w, op))"

fun zpt_stage_notify :: "nat \<Rightarrow> zpt_stage_event \<Rightarrow> int \<Rightarrow> ('c, 's, 'k) machine \<Rightarrow> ('c, 's, 'k) machine" where
  "zpt_stage_notify index event v (w, op) =
     (if index \<ge> length (op_stages (w, op)) then (w, op)
      else let sid = op_stages (w, op) ! index in
        (log_if (stg_observer_callback (w_stages w sid)) (LogEvent sid event v (op_now op)) w, op))"

text \<open>Interpret one call of the stage at \<open>index\<close>.\<close>

primrec run_stage :: "(zpt_signal \<Rightarrow> nat \<Rightarrow> ('c, 's, 'k) machine \<Rightarrow> int \<times> ('c, 's, 'k) machine) \<Rightarrow>
    nat \<Rightarrow> 's stage_prog \<Rightarrow> ('c, 's, 'k) machine \<Rightarrow> int \<times> ('c, 's, 'k) machine" where
  "run_stage disp index (Return ret st) m = (ret, put_state (op_stages m ! index) st (fst m), snd m)"
| "run_stage disp index (Emit s k) m =
     (let (ret, m) = zpt_stage_emit disp index s m in run_stage disp index (k ret) m)"
| "run_stage disp index (ScheduleFlush d k) m =
     (let (ret, m) = zpt_stage_schedule_flush index d m in run_stage disp index (k ret) m)"
| "run_stage disp index (CancelFlush p) m =
     run_stage disp index p (zpt_stage_cancel_flush index m)"
| "run_stage disp index (Notify e v p) m =
     run_stage disp index p (zpt_stage_notify index e v m)"

text \<open>
  \<open>drain\<close> loops while an emission is held and nothing failed. Every turn dispatches, and a
  dispatch without remaining budget fails, so \<open>op_remaining + 1\<close> turns suffice; the loop is given
  that much fuel (\<open>drain_fuel_irrelevant\<close> below: more changes nothing).
\<close>

primrec drain_loop :: "nat \<Rightarrow> (nat \<Rightarrow> zpt_signal \<Rightarrow> ('c, 's, 'k) machine \<Rightarrow> int \<times> ('c, 's, 'k) machine) \<Rightarrow>
    int \<Rightarrow> ('c, 's, 'k) machine \<Rightarrow> int \<times> ('c, 's, 'k) machine" where
  "drain_loop 0 disp ret m = (ret, fst m, (snd m)\<lparr>op_pending := None\<rparr>)"
| "drain_loop (Suc n) disp ret m =
     (if ret = 0 then
        (case op_pending (snd m) of
           None \<Rightarrow> (ret, m)
         | Some (next, i) \<Rightarrow>
             let (ret, m) = disp i next (fst m, (snd m)\<lparr>op_pending := None\<rparr>)
             in drain_loop n disp ret m)
      else (ret, fst m, (snd m)\<lparr>op_pending := None\<rparr>))"

definition count_dispatch :: "zpt_op \<Rightarrow> zpt_op" where
  "count_dispatch op = op\<lparr>op_remaining := op_remaining op - 1,
     op_result := (op_result op)\<lparr>dispatches := Suc (dispatches (op_result op))\<rparr>\<rparr>"

definition dispatch_to_sink :: "zpt_signal \<Rightarrow> ('c, 's, 'k) machine \<Rightarrow> int \<times> ('c, 's, 'k) machine" where
  "dispatch_to_sink s m =
     (let (w, op) = m;
          kid = pl_sink (w_pipes w (op_pipeline op));
          api = the (snk_api (w_sinks w kid))
      in if \<not> kind_accepted (sink_accepted_kinds api) (kind s) then (- EPROTOTYPE, (w, op))
         else
           let (ret, st) = the (sink_emit api) (snk_state (w_sinks w kid)) s;
               w = update_sink kid (\<lambda>k. k\<lparr>snk_state := st\<rparr>) w
           in (ret, (w, if ret = 0
                 then op\<lparr>op_result := (op_result op)\<lparr>outputs := Suc (outputs (op_result op))\<rparr>\<rparr>
                 else op)))"

text \<open>
  The fuel of \<open>dispatch_at\<close> bounds the nesting of dispatches, each of which spends one of
  \<open>op_remaining\<close>; fuel that covers \<open>op_remaining\<close> is enough (\<open>dispatch_fuel_irrelevant\<close>). With no
  fuel left there is no budget left either, so the result is the one the code returns.
\<close>

primrec dispatch_at :: "nat \<Rightarrow> nat \<Rightarrow> zpt_signal \<Rightarrow> ('c, 's, 'k) machine \<Rightarrow> int \<times> ('c, 's, 'k) machine" where
  "dispatch_at 0 index s m = (- E2BIG, m)"
| "dispatch_at (Suc fuel) index s m =
     (if op_remaining (snd m) = 0 then (- E2BIG, m)
      else
        let m = (fst m, count_dispatch (snd m)) in
        if index = length (op_stages m) then dispatch_to_sink s m
        else
          let w = fst m; op = snd m;
              sid = op_stages m ! index; stage = w_stages w sid; api = the (stg_api stage)
          in if \<not> kind_accepted (accepted_kinds api) (kind s) then (- EPROTOTYPE, m)
             else run_stage
                    (\<lambda>earlier i m. let (ret, m) = dispatch_at fuel i earlier m
                       in drain_loop (Suc fuel) (dispatch_at fuel) ret m)
                    index
                    (the (api_process api) (stg_config stage) (stage_state w sid) (op_now op) s) m)"

definition drain :: "nat \<Rightarrow> int \<Rightarrow> ('c, 's, 'k) machine \<Rightarrow> int \<times> ('c, 's, 'k) machine" where
  "drain fuel ret m = drain_loop (Suc fuel) (dispatch_at fuel) ret m"

definition drain_dispatch :: "nat \<Rightarrow> zpt_signal \<Rightarrow> nat \<Rightarrow> ('c, 's, 'k) machine \<Rightarrow> int \<times> ('c, 's, 'k) machine" where
  "drain_dispatch fuel s i m = (let (ret, m) = dispatch_at fuel i s m in drain fuel ret m)"

definition begin_operation :: "('c, 's, 'k) world \<Rightarrow> nat \<Rightarrow> u32 \<Rightarrow> zpt_op" where
  "begin_operation w pid now =
     \<lparr>op_pipeline = pid, op_result = clear_result, op_now = now,
      op_remaining = unat (pl_dispatch_budget (w_pipes w pid)), op_pending = None\<rparr>"

section \<open>Validation\<close>

definition missing_id :: "string option \<Rightarrow> bool" where
  "missing_id x \<longleftrightarrow> x = None \<or> x = Some []"

definition validate_pipeline_identity :: "zpt_pipeline \<Rightarrow> int" where
  "validate_pipeline_identity p =
     (if missing_id (pl_stable_id p) \<or> \<not> zpt_signal_kind_valid (pl_input_kind p) \<or>
         pl_dispatch_budget p = 0
      then - EINVAL else 0)"

definition validate_pipeline_sink :: "('c, 's, 'k) world \<Rightarrow> nat \<Rightarrow> int" where
  "validate_pipeline_sink w pid =
     (let sink = w_sinks w (pl_sink (w_pipes w pid)) in
      case snk_api sink of
        None \<Rightarrow> - EINVAL
      | Some api \<Rightarrow>
          if snk_stable_id sink = None \<or> missing_id (type_id api) \<or> sink_emit api = None
          then - EINVAL
          else if snk_owner sink \<noteq> None \<and> snk_owner sink \<noteq> Some pid then - EBUSY
          else 0)"

definition validate_stage_api :: "('c, 's) zpt_stage_api option \<Rightarrow> zpt_signal_kind \<Rightarrow> int" where
  "validate_stage_api api_opt current_kind =
     (case api_opt of
        None \<Rightarrow> - EINVAL
      | Some api \<Rightarrow>
          if missing_id (strategy_id api) \<or> api_process api = None \<or>
             \<not> zpt_signal_kind_valid (output_kind api) \<or>
             \<not> kind_accepted (accepted_kinds api) current_kind
          then - EINVAL else 0)"

definition stateful :: "('c, 's) zpt_stage \<Rightarrow> bool" where
  "stateful stage \<longleftrightarrow> api_flags (the (stg_api stage)) AND STAGE_STATEFUL \<noteq> 0"

text \<open>\<open>previous\<close> lists the stages before this one, first stage first.\<close>

fun find_stage_link_conflict ::
  "('c, 's, 'k) world \<Rightarrow> nat list \<Rightarrow> ('c, 's) zpt_stage \<Rightarrow> int" where
  "find_stage_link_conflict w [] stage = 0"
| "find_stage_link_conflict w (p # previous) stage =
     (if stg_stable_id (w_stages w p) = stg_stable_id stage then - EEXIST
      else if stateful stage \<and> stg_state (w_stages w p) = stg_state stage then - EBUSY
      else find_stage_link_conflict w previous stage)"

definition validate_stage_link ::
  "('c, 's, 'k) world \<Rightarrow> nat \<Rightarrow> nat list \<Rightarrow> nat \<Rightarrow> zpt_signal_kind \<Rightarrow> int" where
  "validate_stage_link w pid previous sid current_kind =
     (let stage = w_stages w sid; ret = validate_stage_api (stg_api stage) current_kind in
      if missing_id (stg_stable_id stage) then - EINVAL
      else if ret < 0 then ret
      else if stateful stage \<and> stg_state stage = None then - EINVAL
      else if stg_owner stage \<noteq> None \<and> stg_owner stage \<noteq> Some pid then - EBUSY
      else find_stage_link_conflict w previous stage)"

text \<open>The loop over the stages: the code, and the kind that leaves the last stage.\<close>

fun validate_links :: "('c, 's, 'k) world \<Rightarrow> nat \<Rightarrow> nat list \<Rightarrow> nat list \<Rightarrow> zpt_signal_kind \<Rightarrow>
    int \<times> zpt_signal_kind" where
  "validate_links w pid previous [] current_kind = (0, current_kind)"
| "validate_links w pid previous (sid # rest) current_kind =
     (let ret = validate_stage_link w pid previous sid current_kind in
      if ret < 0 then (ret, current_kind)
      else validate_links w pid (previous @ [sid]) rest
             (output_kind (the (stg_api (w_stages w sid)))))"

definition validate_structure :: "('c, 's, 'k) world \<Rightarrow> nat \<Rightarrow> int" where
  "validate_structure w pid =
     (let p = w_pipes w pid; sink = w_sinks w (pl_sink p);
          ret_identity = validate_pipeline_identity p;
          ret_sink = validate_pipeline_sink w pid;
          (ret_links, last_kind) = validate_links w pid [] (pl_stages p) (pl_input_kind p)
      in if ret_identity < 0 then ret_identity
         else if ret_sink < 0 then ret_sink
         else if ret_links < 0 then ret_links
         else if \<not> kind_accepted (sink_accepted_kinds (the (snk_api sink))) last_kind
           then - EPROTOTYPE
         else if \<exists>sid \<in> set (pl_stages p). stg_stable_id (w_stages w sid) = snk_stable_id sink
           then - EEXIST
         else 0)"

section \<open>Reset, validation, activation\<close>

definition reset_stage :: "zpt_reset_reason \<Rightarrow> nat \<Rightarrow> ('c, 's, 'k) world \<Rightarrow> ('c, 's, 'k) world" where
  "reset_stage reason sid w =
     (let stage = w_stages w sid;
          w = update_stage sid (\<lambda>g. g\<lparr>stg_deadline_pending := False\<rparr>) w
      in case stg_api stage of
           None \<Rightarrow> w
         | Some api \<Rightarrow>
             (case api_reset api of
                None \<Rightarrow> w
              | Some f \<Rightarrow> put_state sid (f (stg_config stage) (stage_state w sid) reason) w))"

definition reset_sink :: "zpt_reset_reason \<Rightarrow> nat \<Rightarrow> ('c, 's, 'k) world \<Rightarrow> ('c, 's, 'k) world" where
  "reset_sink reason kid w =
     (case snk_api (w_sinks w kid) of
        None \<Rightarrow> w
      | Some api \<Rightarrow>
          (case sink_reset api of
             None \<Rightarrow> w
           | Some f \<Rightarrow> update_sink kid (\<lambda>k. k\<lparr>snk_state := f (snk_state k) reason\<rparr>) w))"

definition zpt_pipeline_reset :: "nat \<Rightarrow> zpt_reset_reason \<Rightarrow> ('c, 's, 'k) world \<Rightarrow> ('c, 's, 'k) world" where
  "zpt_pipeline_reset pid reason w =
     reset_sink reason (pl_sink (w_pipes w pid))
       (fold (reset_stage reason) (pl_stages (w_pipes w pid)) w)"

definition own_stage :: "nat \<Rightarrow> nat \<Rightarrow> ('c, 's, 'k) world \<Rightarrow> ('c, 's, 'k) world" where
  "own_stage pid sid = update_stage sid (\<lambda>g. g\<lparr>stg_owner := Some pid, stg_deadline_pending := False\<rparr>)"

definition zpt_pipeline_validate :: "nat \<Rightarrow> ('c, 's, 'k) world \<Rightarrow> int \<times> ('c, 's, 'k) world" where
  "zpt_pipeline_validate pid w =
     (if pl_validated (w_pipes w pid) then (- EALREADY, w)
      else if validate_structure w pid < 0 then (validate_structure w pid, w)
      else
        let w = fold (own_stage pid) (pl_stages (w_pipes w pid)) w;
            w = update_sink (pl_sink (w_pipes w pid)) (\<lambda>k. k\<lparr>snk_owner := Some pid\<rparr>) w;
            w = update_pipe pid (\<lambda>p. p\<lparr>pl_validated := True, pl_active := False\<rparr>) w
        in (0, zpt_pipeline_reset pid RESET_INITIALIZATION w))"

fun activate_stages :: "zpt_reset_reason \<Rightarrow> nat list \<Rightarrow> ('c, 's, 'k) world \<Rightarrow> int \<times> ('c, 's, 'k) world" where
  "activate_stages reason [] w = (0, w)"
| "activate_stages reason (sid # rest) w =
     (let stage = w_stages w sid in
      case api_activate (the (stg_api stage)) of
        None \<Rightarrow> activate_stages reason rest w
      | Some f \<Rightarrow>
          let (ret, st) = f (stg_config stage) (stage_state w sid) reason; w = put_state sid st w
          in if ret < 0 then (ret, w) else activate_stages reason rest w)"

definition activate_sink :: "zpt_reset_reason \<Rightarrow> nat \<Rightarrow> ('c, 's, 'k) world \<Rightarrow> int \<times> ('c, 's, 'k) world" where
  "activate_sink reason kid w =
     (case sink_activate (the (snk_api (w_sinks w kid))) of
        None \<Rightarrow> (0, w)
      | Some f \<Rightarrow>
          let (ret, st) = f (snk_state (w_sinks w kid)) reason
          in (ret, update_sink kid (\<lambda>k. k\<lparr>snk_state := st\<rparr>) w))"

definition zpt_pipeline_activate ::
  "nat \<Rightarrow> zpt_reset_reason \<Rightarrow> ('c, 's, 'k) world \<Rightarrow> int \<times> ('c, 's, 'k) world" where
  "zpt_pipeline_activate pid reason w =
     (if \<not> pl_validated (w_pipes w pid) then (- EINVAL, w)
      else if pl_active (w_pipes w pid) then (- EALREADY, w)
      else
        let w = zpt_pipeline_reset pid reason w;
            (ret, w) = activate_stages reason (pl_stages (w_pipes w pid)) w
        in if ret < 0 then (ret, zpt_pipeline_reset pid reason w)
           else
             let (ret, w) = activate_sink reason (pl_sink (w_pipes w pid)) w
             in if ret < 0 then (ret, zpt_pipeline_reset pid reason w)
                else
                  let w = update_pipe pid (\<lambda>p. p\<lparr>pl_active := True\<rparr>) w
                  in (0, log_if (obs_lifecycle (pl_observer (w_pipes w pid))) (LogLifecycle pid True) w))"

section \<open>Push, flush, deadlines, deactivation\<close>

definition zpt_pipeline_push ::
  "nat \<Rightarrow> zpt_signal \<Rightarrow> ('c, 's, 'k) world \<Rightarrow> int \<times> zpt_pipeline_result \<times> ('c, 's, 'k) world" where
  "zpt_pipeline_push pid s w =
     (if \<not> pl_validated (w_pipes w pid) then (- EINVAL, clear_result, w)
      else if \<not> pl_active (w_pipes w pid) then (- EACCES, clear_result, w)
      else if kind s \<noteq> pl_input_kind (w_pipes w pid) then (- EPROTOTYPE, clear_result, w)
      else
        let observer = pl_observer (w_pipes w pid);
            w = log_if (obs_input observer) (LogInput pid s) w;
            op = begin_operation w pid (observed_at_ms (metadata s));
            (ret, w, op) = drain_dispatch (op_remaining op) s 0 (w, op)
        in (ret, op_result op, log_if (obs_input_done observer) (LogInputDone pid) w))"

text \<open>The loop over the stages in \<open>zpt_pipeline_flush\<close>: code, whether a deadline was due.\<close>

fun flush_stages :: "nat \<Rightarrow> nat \<Rightarrow> nat list \<Rightarrow> bool \<Rightarrow> ('c, 's, 'k) machine \<Rightarrow>
    int \<times> bool \<times> ('c, 's, 'k) machine" where
  "flush_stages fuel index [] observed m = (0, observed, m)"
| "flush_stages fuel index (sid # rest) observed (w, op) =
     (let stage = w_stages w sid; pid = op_pipeline op in
      if \<not> stg_deadline_pending stage \<or> \<not> time_reached (op_now op) (stg_deadline_ms stage)
      then flush_stages fuel (Suc index) rest observed (w, op)
      else
        let w = log_if (\<not> observed \<and> obs_flush (pl_observer (w_pipes w pid)))
                  (LogFlush pid (op_now op)) w;
            w = update_stage sid (\<lambda>g. g\<lparr>stg_deadline_pending := False\<rparr>) w;
            prog = the (api_flush (the (stg_api stage))) (stg_config stage) (stage_state w sid)
                     (stg_deadline_ms stage) (op_now op);
            (ret, m) = run_stage (drain_dispatch fuel) index prog (w, op);
            (ret, m) = drain fuel ret m
        in if ret < 0 then (ret, True, m) else flush_stages fuel (Suc index) rest True m)"

definition zpt_pipeline_flush ::
  "nat \<Rightarrow> u32 \<Rightarrow> ('c, 's, 'k) world \<Rightarrow> int \<times> zpt_pipeline_result \<times> ('c, 's, 'k) world" where
  "zpt_pipeline_flush pid now w =
     (if \<not> pl_validated (w_pipes w pid) then (- EINVAL, clear_result, w)
      else if \<not> pl_active (w_pipes w pid) then (- EACCES, clear_result, w)
      else
        let op = begin_operation w pid now;
            (ret, observed, w, op) =
              flush_stages (op_remaining op) 0 (pl_stages (w_pipes w pid)) False (w, op)
        in (ret, op_result op,
            log_if (observed \<and> obs_flush_done (pl_observer (w_pipes w pid))) (LogFlushDone pid) w))"

text \<open>The loop of \<open>zpt_pipeline_next_deadline\<close>: best delta and deadline found so far.\<close>

fun best_deadline :: "('c, 's, 'k) world \<Rightarrow> u32 \<Rightarrow> nat list \<Rightarrow> (u32 \<times> u32) option \<Rightarrow> (u32 \<times> u32) option" where
  "best_deadline w now [] best = best"
| "best_deadline w now (sid # rest) best =
     (let stage = w_stages w sid in
      if \<not> stg_deadline_pending stage then best_deadline w now rest best
      else
        let delta = (if time_reached now (stg_deadline_ms stage) then 0
                     else stg_deadline_ms stage - now)
        in best_deadline w now rest
             (case best of
                None \<Rightarrow> Some (delta, stg_deadline_ms stage)
              | Some (best_delta, d) \<Rightarrow>
                  if delta < best_delta then Some (delta, stg_deadline_ms stage) else best))"

definition zpt_pipeline_next_deadline :: "('c, 's, 'k) world \<Rightarrow> nat \<Rightarrow> u32 \<Rightarrow> u32 option" where
  "zpt_pipeline_next_deadline w pid now =
     (if \<not> pl_validated (w_pipes w pid) \<or> \<not> pl_active (w_pipes w pid) then None
      else map_option snd (best_deadline w now (pl_stages (w_pipes w pid)) None))"

fun deactivate_stages :: "nat \<Rightarrow> zpt_reset_reason \<Rightarrow> nat \<Rightarrow> nat list \<Rightarrow> int \<Rightarrow> ('c, 's, 'k) machine \<Rightarrow>
    int \<times> ('c, 's, 'k) machine" where
  "deactivate_stages fuel reason index [] first_error m = (first_error, m)"
| "deactivate_stages fuel reason index (sid # rest) first_error (w, op) =
     (let w = update_stage sid (\<lambda>g. g\<lparr>stg_deadline_pending := False\<rparr>) w;
          stage = w_stages w sid
      in case api_deactivate (the (stg_api stage)) of
           None \<Rightarrow> deactivate_stages fuel reason (Suc index) rest first_error (w, op)
         | Some f \<Rightarrow>
             let (ret, m) = run_stage (drain_dispatch fuel) index
                   (f (stg_config stage) (stage_state w sid) (op_now op) reason) (w, op);
                 (ret, m) = drain fuel ret m
             in deactivate_stages fuel reason (Suc index) rest
                  (if ret < 0 \<and> first_error = 0 then ret else first_error) m)"

definition deactivate_sink :: "zpt_reset_reason \<Rightarrow> nat \<Rightarrow> int \<Rightarrow> ('c, 's, 'k) world \<Rightarrow>
    int \<times> ('c, 's, 'k) world" where
  "deactivate_sink reason kid first_error w =
     (case sink_deactivate (the (snk_api (w_sinks w kid))) of
        None \<Rightarrow> (first_error, w)
      | Some f \<Rightarrow>
          let (ret, st) = f (snk_state (w_sinks w kid)) reason
          in (if ret < 0 \<and> first_error = 0 then ret else first_error,
              update_sink kid (\<lambda>k. k\<lparr>snk_state := st\<rparr>) w))"

definition zpt_pipeline_deactivate :: "nat \<Rightarrow> u32 \<Rightarrow> zpt_reset_reason \<Rightarrow> ('c, 's, 'k) world \<Rightarrow>
    int \<times> zpt_pipeline_result \<times> ('c, 's, 'k) world" where
  "zpt_pipeline_deactivate pid now reason w =
     (if \<not> pl_validated (w_pipes w pid) then (- EINVAL, clear_result, w)
      else if \<not> pl_active (w_pipes w pid) then (- EALREADY, clear_result, w)
      else
        let op = begin_operation w pid now;
            (first_error, w, op) =
              deactivate_stages (op_remaining op) reason 0 (pl_stages (w_pipes w pid)) 0 (w, op);
            (first_error, w) = deactivate_sink reason (pl_sink (w_pipes w pid)) first_error w;
            w = update_pipe pid (\<lambda>p. p\<lparr>pl_active := False\<rparr>) w;
            w = zpt_pipeline_reset pid reason w
        in (first_error, op_result op,
            log_if (obs_lifecycle (pl_observer (w_pipes w pid))) (LogLifecycle pid False) w))"

end
