(* ===== verification/Pipeline_Laws.thy ===== *)
theory Pipeline_Laws
  imports Pipeline
begin

text \<open>
  What every operation of the pipeline runtime leaves alone, how it spends the dispatch budget,
  and why the fuel of the model is enough. The component properties of theory
  Pipeline_Properties and of the router rest on these lemmas.
\<close>

section \<open>The shape of the store\<close>

text \<open>
  An operation changes stage states, deadlines, sink states and the log. Everything else is
  the shape of the store: the pipelines with their flags, what a stage or sink is, who owns it.
\<close>

definition stage_shape :: "('c, 's) zpt_stage \<Rightarrow> ('c, 's) zpt_stage" where
  "stage_shape g = g\<lparr>stg_deadline_ms := 0, stg_deadline_pending := False\<rparr>"

definition sink_shape :: "'k zpt_sink \<Rightarrow> string option \<times> 'k zpt_sink_api option \<times> nat option" where
  "sink_shape k = (snk_stable_id k, snk_api k, snk_owner k)"

definition same_shape :: "('c, 's, 'k) world \<Rightarrow> ('c, 's, 'k) world \<Rightarrow> bool" where
  "same_shape w w' \<longleftrightarrow> w_pipes w' = w_pipes w \<and>
     (\<forall>i. stage_shape (w_stages w' i) = stage_shape (w_stages w i)) \<and>
     (\<forall>k. sink_shape (w_sinks w' k) = sink_shape (w_sinks w k))"

lemma same_shape_refl [simp, intro]: "same_shape w w"
  by (simp add: same_shape_def)

lemma same_shape_trans: "same_shape w w1 \<Longrightarrow> same_shape w1 w2 \<Longrightarrow> same_shape w w2"
  by (simp add: same_shape_def)

lemma same_shape_stage:
  assumes "same_shape w w'"
  shows "stg_stable_id (w_stages w' i) = stg_stable_id (w_stages w i)"
    and "stg_api (w_stages w' i) = stg_api (w_stages w i)"
    and "stg_config (w_stages w' i) = stg_config (w_stages w i)"
    and "stg_state (w_stages w' i) = stg_state (w_stages w i)"
    and "stg_owner (w_stages w' i) = stg_owner (w_stages w i)"
    and "stg_observer_callback (w_stages w' i) = stg_observer_callback (w_stages w i)"
    and "stg_observer_frame (w_stages w' i) = stg_observer_frame (w_stages w i)"
proof -
  have "stage_shape (w_stages w' i) = stage_shape (w_stages w i)"
    using assms by (simp add: same_shape_def)
  then show "stg_stable_id (w_stages w' i) = stg_stable_id (w_stages w i)"
    "stg_api (w_stages w' i) = stg_api (w_stages w i)"
    "stg_config (w_stages w' i) = stg_config (w_stages w i)"
    "stg_state (w_stages w' i) = stg_state (w_stages w i)"
    "stg_owner (w_stages w' i) = stg_owner (w_stages w i)"
    "stg_observer_callback (w_stages w' i) = stg_observer_callback (w_stages w i)"
    "stg_observer_frame (w_stages w' i) = stg_observer_frame (w_stages w i)"
    by (cases "w_stages w i"; cases "w_stages w' i"; simp add: stage_shape_def)+
qed

lemma same_shape_sink:
  assumes "same_shape w w'"
  shows "snk_stable_id (w_sinks w' k) = snk_stable_id (w_sinks w k)"
    and "snk_api (w_sinks w' k) = snk_api (w_sinks w k)"
    and "snk_owner (w_sinks w' k) = snk_owner (w_sinks w k)"
  using assms by (auto simp: same_shape_def sink_shape_def)

lemma same_shape_pipes: "same_shape w w' \<Longrightarrow> w_pipes w' = w_pipes w"
  by (simp add: same_shape_def)

lemmas same_shape_simps = same_shape_stage same_shape_sink same_shape_pipes

lemma put_state_fields [simp]:
  "w_stages (put_state sid st w) = w_stages w" "w_sinks (put_state sid st w) = w_sinks w"
  "w_pipes (put_state sid st w) = w_pipes w" "w_log (put_state sid st w) = w_log w"
  by (simp_all add: put_state_def split: option.split)

lemma log_if_fields [simp]:
  "w_stages (log_if b e w) = w_stages w" "w_sinks (log_if b e w) = w_sinks w"
  "w_pipes (log_if b e w) = w_pipes w" "w_heap (log_if b e w) = w_heap w"
  by (simp_all add: log_if_def)

lemma update_fields [simp]:
  "w_pipes (update_stage sid f w) = w_pipes w" "w_sinks (update_stage sid f w) = w_sinks w"
  "w_heap (update_stage sid f w) = w_heap w" "w_log (update_stage sid f w) = w_log w"
  "w_pipes (update_sink kid g w) = w_pipes w" "w_stages (update_sink kid g w) = w_stages w"
  "w_heap (update_sink kid g w) = w_heap w" "w_log (update_sink kid g w) = w_log w"
  "w_stages (update_pipe pid h w) = w_stages w" "w_sinks (update_pipe pid h w) = w_sinks w"
  "w_heap (update_pipe pid h w) = w_heap w" "w_log (update_pipe pid h w) = w_log w"
  "w_stages (update_stage sid f w) i = (if i = sid then f (w_stages w sid) else w_stages w i)"
  "w_sinks (update_sink kid g w) k = (if k = kid then g (w_sinks w kid) else w_sinks w k)"
  "w_pipes (update_pipe pid h w) p = (if p = pid then h (w_pipes w pid) else w_pipes w p)"
  by (simp_all add: store_defs)

lemma same_shape_basic [intro]:
  "same_shape w (log_if b e w)"
  "same_shape w (put_state sid st w)"
  "same_shape w (update_stage sid (\<lambda>g. g\<lparr>stg_deadline_pending := b\<rparr>) w)"
  "same_shape w (update_stage sid (\<lambda>g. g\<lparr>stg_deadline_ms := d, stg_deadline_pending := b\<rparr>) w)"
  "same_shape w (update_sink kid (\<lambda>k. k\<lparr>snk_state := v\<rparr>) w)"
  "same_shape w (update_sink kid (\<lambda>k. k\<lparr>snk_state := u (snk_state k)\<rparr>) w)"
  by (simp_all add: same_shape_def stage_shape_def sink_shape_def)

section \<open>Progress of an operation\<close>

text \<open>
  The machine advances: same shape, same operation, and every dispatch counted against the
  budget; no more outputs than dispatches.
\<close>

definition advances :: "('c, 's, 'k) machine \<Rightarrow> ('c, 's, 'k) machine \<Rightarrow> bool" where
  "advances m m' \<longleftrightarrow> same_shape (fst m) (fst m') \<and>
     op_pipeline (snd m') = op_pipeline (snd m) \<and> op_now (snd m') = op_now (snd m) \<and>
     op_remaining (snd m') + dispatches (op_result (snd m')) =
       op_remaining (snd m) + dispatches (op_result (snd m)) \<and>
     op_remaining (snd m') \<le> op_remaining (snd m) \<and>
     outputs (op_result (snd m')) + dispatches (op_result (snd m)) \<le>
       outputs (op_result (snd m)) + dispatches (op_result (snd m'))"

lemma advances_refl [simp, intro]: "advances m m"
  by (simp add: advances_def)

lemma advances_trans: "advances m m1 \<Longrightarrow> advances m1 m2 \<Longrightarrow> advances m m2"
  unfolding advances_def by (auto intro: same_shape_trans)

lemma advances_world: "same_shape w w' \<Longrightarrow> advances (w, op) (w', op)"
  by (simp add: advances_def)

lemma advances_pending [simp]:
  "advances (w, op\<lparr>op_pending := p\<rparr>) m = advances (w, op) m"
  "advances m (w, op\<lparr>op_pending := p\<rparr>) = advances m (w, op)"
  by (simp_all add: advances_def)

lemma advances_stages: "advances m m' \<Longrightarrow> op_stages m' = op_stages m"
  by (cases m; cases m') (auto simp: advances_def dest: same_shape_pipes)

lemma count_dispatch_fields [simp]:
  "op_pipeline (count_dispatch op) = op_pipeline op" "op_now (count_dispatch op) = op_now op"
  "op_remaining (count_dispatch op) = op_remaining op - 1"
  "op_pending (count_dispatch op) = op_pending op"
  "dispatches (op_result (count_dispatch op)) = Suc (dispatches (op_result op))"
  "outputs (op_result (count_dispatch op)) = outputs (op_result op)"
  by (simp_all add: count_dispatch_def)

lemma emit_advances:
  assumes "\<And>s i m. advances m (snd (disp s i m))"
  shows "advances m (snd (zpt_stage_emit disp index s m))"
proof (cases m)
  case (Pair w op)
  let ?sid = "pl_stages (w_pipes w (op_pipeline op)) ! index"
  let ?w = "log_if (stg_observer_frame (w_stages w ?sid)) (LogFrame ?sid s (op_now op)) w"
  have logged: "advances (w, op) (?w, op)" by (intro advances_world) auto
  show ?thesis
  proof (cases "op_pending op")
    case None
    then show ?thesis using logged by (auto simp: Pair Let_def)
  next
    case (Some e)
    obtain earlier i where e: "e = (earlier, i)" by (cases e)
    obtain r w' op' where d: "disp earlier i (?w, op\<lparr>op_pending := None\<rparr>) = (r, w', op')"
      by (cases "disp earlier i (?w, op\<lparr>op_pending := None\<rparr>)") auto
    have "advances (?w, op) (w', op')"
      using assms [of "(?w, op\<lparr>op_pending := None\<rparr>)" earlier i] by (simp add: d)
    with logged have "advances (w, op) (w', op')" by (rule advances_trans)
    then show ?thesis by (auto simp: Pair Let_def Some e d)
  qed
qed

lemma service_advances:
  "advances m (snd (zpt_stage_schedule_flush index d m))"
  "advances m (zpt_stage_cancel_flush index m)"
  "advances m (zpt_stage_notify index e v m)"
  by (cases m; auto simp: Let_def intro!: advances_world)+

lemma run_stage_advances:
  assumes "\<And>s i m. advances m (snd (disp s i m))"
  shows "advances m (snd (run_stage disp index p m))"
proof (induction p arbitrary: m)
  case (Return r st)
  then show ?case by (cases m) (auto intro: advances_world)
next
  case (Emit s k)
  obtain r m1 where e: "zpt_stage_emit disp index s m = (r, m1)"
    by (cases "zpt_stage_emit disp index s m")
  with emit_advances [where disp = disp and m = m and index = index and s = s, OF assms] have "advances m m1" by simp
  moreover have "advances m1 (snd (run_stage disp index (k r) m1))"
    by (rule Emit.IH) simp
  ultimately show ?case by (auto simp: e intro: advances_trans)
next
  case (ScheduleFlush d k)
  obtain r m1 where e: "zpt_stage_schedule_flush index d m = (r, m1)"
    by (cases "zpt_stage_schedule_flush index d m")
  with service_advances(1) [of m index d] have "advances m m1" by simp
  moreover have "advances m1 (snd (run_stage disp index (k r) m1))"
    by (rule ScheduleFlush.IH) simp
  ultimately show ?case by (auto simp: e intro: advances_trans)
next
  case (CancelFlush p)
  show ?case using advances_trans [OF service_advances(2) CancelFlush.IH] by simp
next
  case (Notify e v p)
  show ?case using advances_trans [OF service_advances(3) Notify.IH] by simp
qed

lemma drain_loop_advances:
  assumes "\<And>i s m. advances m (snd (disp i s m))"
  shows "advances m (snd (drain_loop n disp ret m))"
proof (induction n arbitrary: ret m)
  case 0
  then show ?case by (cases m) simp
next
  case (Suc n)
  obtain w op where m: "m = (w, op)" by (cases m)
  show ?case
  proof (cases "ret = 0 \<and> op_pending op \<noteq> None")
    case True
    then obtain next_s i where p: "op_pending op = Some (next_s, i)" by auto
    obtain r m1 where d: "disp i next_s (w, op\<lparr>op_pending := None\<rparr>) = (r, m1)"
      by (cases "disp i next_s (w, op\<lparr>op_pending := None\<rparr>)")
    with assms [of "(w, op\<lparr>op_pending := None\<rparr>)" i next_s] have "advances (w, op) m1" by simp
    then show ?thesis using True Suc.IH [of m1 r] by (auto simp: m p d intro: advances_trans)
  next
    case False
    then show ?thesis by (auto simp: m split: option.split)
  qed
qed

lemma dispatch_to_sink_advances:
  "op_remaining op > 0 \<Longrightarrow> advances (w, op) (snd (dispatch_to_sink s (w, count_dispatch op)))"
  by (auto simp: dispatch_to_sink_def Let_def advances_def case_prod_unfold)

lemma dispatch_at_advances:
  fixes m :: "('c, 's, 'k) machine"
  shows "advances m (snd (dispatch_at fuel index s m))"
proof (induction fuel arbitrary: index s m)
  case 0
  then show ?case by simp
next
  case (Suc fuel)
  obtain w op where m: "m = (w, op)" by (cases m)
  have disp: "advances m (snd (let (ret, m) = dispatch_at fuel i e m
      in drain_loop (Suc fuel) (dispatch_at fuel) ret m))"
    for e i and m :: "('c, 's, 'k) machine"
  proof -
    obtain r m1 where d: "dispatch_at fuel i e m = (r, m1)" by (cases "dispatch_at fuel i e m")
    with Suc.IH [of m i e] have "advances m m1" by simp
    moreover have "advances m1 (snd (drain_loop (Suc fuel) (dispatch_at fuel) r m1))"
      by (rule drain_loop_advances) (rule Suc.IH)
    ultimately show ?thesis unfolding d Let_def prod.case by (rule advances_trans)
  qed
  show ?case
  proof (cases "op_remaining op = 0")
    case True
    then show ?thesis by (simp add: m)
  next
    case False
    then have spent: "advances (w, op) (w, count_dispatch op)" by (simp add: advances_def)
    show ?thesis
      using False dispatch_to_sink_advances [of op w s] spent
      by (auto simp: m Let_def simp del: drain_loop.simps
               intro!: advances_trans [OF spent] run_stage_advances disp [unfolded Let_def])
  qed
qed

lemma drain_advances: "advances m (snd (drain fuel ret m))"
  unfolding drain_def by (rule drain_loop_advances) (rule dispatch_at_advances)

lemma drain_dispatch_advances: "advances m (snd (drain_dispatch fuel s i m))"
proof -
  obtain r m1 where d: "dispatch_at fuel i s m = (r, m1)" by (cases "dispatch_at fuel i s m")
  with dispatch_at_advances [of m fuel i s] have "advances m m1" by simp
  then show ?thesis
    by (auto simp: drain_dispatch_def d intro: advances_trans drain_advances)
qed

section \<open>Enough fuel\<close>

text \<open>
  Every dispatch spends budget: without any it fails, otherwise less is left. So nested
  dispatches and turns of \<open>drain\<close> are bounded by the remaining budget, and fuel beyond it
  changes nothing.
\<close>

lemma dispatch_at_broke: "op_remaining (snd m) = 0 \<Longrightarrow> dispatch_at fuel i s m = (- E2BIG, m)"
  by (cases fuel) simp_all

lemma dispatch_at_spends:
  assumes "op_remaining (snd m) > 0" and "fuel > 0"
  shows "op_remaining (snd (snd (dispatch_at fuel i s m))) < op_remaining (snd m)"
proof -
  obtain f where fuel: "fuel = Suc f" using assms by (cases fuel) auto
  obtain w op where m: "m = (w, op)" by (cases m)
  have inner: "advances m' (snd (let (ret, m) = dispatch_at f i e m'
      in drain_loop (Suc f) (dispatch_at f) ret m))" for e i and m' :: "('a, 'b, 'c) machine"
    using drain_dispatch_advances [of m' f e i] unfolding drain_dispatch_def drain_def .
  let ?m = "(w, count_dispatch op)"
  let ?r = "dispatch_at (Suc f) i s (w, op)"
  have "op_remaining (snd (snd ?r)) \<le> op_remaining (snd ?m)"
  proof (cases "i = length (op_stages ?m)")
    case True
    then show ?thesis
      using assms by (auto simp: m Let_def dispatch_to_sink_def case_prod_unfold)
  next
    case False
    let ?stage = "w_stages w (op_stages ?m ! i)"
    let ?prog = "the (api_process (the (stg_api ?stage))) (stg_config ?stage)
      (stage_state w (op_stages ?m ! i)) (op_now op) s"
    have "advances ?m (snd (run_stage (\<lambda>e i m. let (ret, m) = dispatch_at f i e m
        in drain_loop (Suc f) (dispatch_at f) ret m) i ?prog ?m))"
      by (rule run_stage_advances) (rule inner)
    then show ?thesis using False assms by (simp add: m Let_def advances_def del: drain_loop.simps)
  qed
  then show ?thesis
    using assms by (simp add: fuel m del: dispatch_at.simps)
qed

lemma zpt_stage_emit_cong:
  assumes "\<And>e i m'. op_remaining (snd m') \<le> b \<Longrightarrow> d1 e i m' = d2 e i m'"
    and "op_remaining (snd m) \<le> b"
  shows "zpt_stage_emit d1 index s m = zpt_stage_emit d2 index s m"
  using assms by (cases m) (auto simp: Let_def split: option.split)

lemma run_stage_cong:
  assumes disp: "\<And>e i m'. op_remaining (snd m') \<le> b \<Longrightarrow> d1 e i m' = d2 e i m'"
    and adv: "\<And>e i m'. advances m' (snd (d1 e i m'))"
    and "op_remaining (snd m) \<le> b"
  shows "run_stage d1 index p m = run_stage d2 index p m"
  using assms(3)
proof (induction p arbitrary: m)
  case (Emit s k)
  obtain r m1 where e: "zpt_stage_emit d1 index s m = (r, m1)"
    by (cases "zpt_stage_emit d1 index s m")
  have "advances m m1"
    using emit_advances [where disp = d1 and m = m and index = index and s = s, OF adv] e by simp
  then have "op_remaining (snd m1) \<le> b" using Emit.prems by (simp add: advances_def)
  moreover have "zpt_stage_emit d2 index s m = (r, m1)"
    using zpt_stage_emit_cong [where ?d1.0 = d1 and ?d2.0 = d2, OF disp Emit.prems] e by simp
  ultimately show ?case using Emit.IH [of "k r" m1] by (simp add: e)
next
  case (ScheduleFlush d k)
  obtain r m1 where e: "zpt_stage_schedule_flush index d m = (r, m1)"
    by (cases "zpt_stage_schedule_flush index d m")
  then have "advances m m1" using service_advances(1) [of m index d] by simp
  then have "op_remaining (snd m1) \<le> b" using ScheduleFlush.prems by (simp add: advances_def)
  then show ?case using ScheduleFlush.IH [of "k r" m1] by (simp add: e)
next
  case (CancelFlush p)
  have "op_remaining (snd (zpt_stage_cancel_flush index m)) \<le> b"
    using CancelFlush.prems service_advances(2) [of m index] by (simp add: advances_def)
  then show ?case by (simp add: CancelFlush.IH)
next
  case (Notify e v p)
  have "op_remaining (snd (zpt_stage_notify index e v m)) \<le> b"
    using Notify.prems service_advances(3) [of m index e v] by (simp add: advances_def)
  then show ?case by (simp add: Notify.IH)
qed simp

lemma drain_loop_fuel:
  assumes "\<And>i s m'. op_remaining (snd m') \<le> b \<Longrightarrow> d1 i s m' = d2 i s m'"
    and "\<And>i s m'. op_remaining (snd m') = 0 \<Longrightarrow> fst (d1 i s m') \<noteq> 0"
    and "\<And>i s m'. 0 < op_remaining (snd m') \<Longrightarrow> op_remaining (snd m') \<le> b \<Longrightarrow>
          op_remaining (snd (snd (d1 i s m'))) < op_remaining (snd m')"
    and "op_remaining (snd m) \<le> b" "op_remaining (snd m) < n" "op_remaining (snd m) < n'"
  shows "drain_loop n d1 ret m = drain_loop n' d2 ret m"
  using assms(4-6)
proof (induction n arbitrary: n' ret m)
  case 0
  then show ?case by simp
next
  case (Suc n)
  obtain k where n': "n' = Suc k" using Suc.prems by (cases n') auto
  obtain w op where m: "m = (w, op)" by (cases m)
  show ?case
  proof (cases "ret = 0 \<and> op_pending op \<noteq> None")
    case False
    then show ?thesis by (auto simp: n' m split: option.split)
  next
    case True
    then obtain s i where p: "op_pending op = Some (s, i)" by auto
    let ?m = "(w, op\<lparr>op_pending := None\<rparr>)"
    obtain r m1 where d: "d1 i s ?m = (r, m1)" by (cases "d1 i s ?m")
    have d2: "d2 i s ?m = (r, m1)" using assms(1) [of ?m i s] Suc.prems d by (simp add: m)
    show ?thesis
    proof (cases "op_remaining op = 0")
      case broke: True
      then have "r \<noteq> 0" using assms(2) [of ?m i s] d by simp
      then have "drain_loop n d1 r m1 = drain_loop k d2 r m1"
        by (cases n; cases k) simp_all
      then show ?thesis using True by (simp add: n' m p d d2)
    next
      case False
      then have less: "op_remaining (snd m1) < op_remaining op"
        using assms(3) [of ?m i s] Suc.prems d by (simp add: m)
      then have "drain_loop n d1 r m1 = drain_loop k d2 r m1"
        using Suc.prems by (intro Suc.IH) (auto simp: m n')
      then show ?thesis using True by (simp add: n' m p d d2)
    qed
  qed
qed

lemma dispatch_fuel_irrelevant:
  fixes m :: "('c, 's, 'k) machine"
  assumes "op_remaining (snd m) \<le> f" "op_remaining (snd m) \<le> f'"
  shows "dispatch_at f i s m = dispatch_at f' i s m"
  using assms
proof (induction f arbitrary: f' i s m)
  case 0
  then show ?case by (simp add: dispatch_at_broke)
next
  case (Suc f)
  show ?case
  proof (cases "op_remaining (snd m) = 0")
    case True
    then show ?thesis by (simp add: dispatch_at_broke)
  next
    case False
    then obtain f1 where f': "f' = Suc f1" using Suc.prems by (cases f') auto
    obtain w op where m: "m = (w, op)" by (cases m)
    let ?b = "op_remaining (count_dispatch op)"
    have same: "dispatch_at f i e m' = dispatch_at f1 i e m'"
      if "op_remaining (snd m') \<le> ?b" for i e and m' :: "('c, 's, 'k) machine"
      using that Suc.prems False by (intro Suc.IH) (auto simp: m f')
    have drains: "(let (ret, m) = dispatch_at f i e m' in drain_loop (Suc f) (dispatch_at f) ret m) =
        (let (ret, m) = dispatch_at f1 i e m' in drain_loop (Suc f1) (dispatch_at f1) ret m)"
      if le: "op_remaining (snd m') \<le> ?b" for i e and m' :: "('c, 's, 'k) machine"
    proof -
      obtain r m1 where d: "dispatch_at f i e m' = (r, m1)" by (cases "dispatch_at f i e m'")
      then have "advances m' m1" using dispatch_at_advances [of m' f i e] by simp
      then have le1: "op_remaining (snd m1) \<le> ?b" using le by (simp add: advances_def)
      have "drain_loop (Suc f) (dispatch_at f) r m1 = drain_loop (Suc f1) (dispatch_at f1) r m1"
      proof (rule drain_loop_fuel [where b = ?b])
        fix i s and m' :: "('c, 's, 'k) machine"
        show "fst (dispatch_at f i s m') \<noteq> 0" if "op_remaining (snd m') = 0"
          using that by (simp add: dispatch_at_broke)
        show "op_remaining (snd (snd (dispatch_at f i s m'))) < op_remaining (snd m')"
          if "0 < op_remaining (snd m')" "op_remaining (snd m') \<le> ?b"
          using that Suc.prems False by (intro dispatch_at_spends) (auto simp: m)
      qed (use same le1 Suc.prems False in \<open>auto simp: m f'\<close>)
      moreover have "dispatch_at f1 i e m' = (r, m1)" using same [OF le, of i e] d by simp
      ultimately show ?thesis by (simp add: d del: drain_loop.simps)
    qed
    have adv: "advances m' (snd (let (ret, m) = dispatch_at f i e m'
        in drain_loop (Suc f) (dispatch_at f) ret m))" for i e and m' :: "('c, 's, 'k) machine"
      using drain_dispatch_advances [of m' f e i] unfolding drain_dispatch_def drain_def .
    let ?stage = "w_stages w (op_stages (w, op) ! i)"
    let ?prog = "the (api_process (the (stg_api ?stage))) (stg_config ?stage)
      (stage_state w (op_stages (w, op) ! i)) (op_now op) s"
    have "run_stage (\<lambda>e i m. let (ret, m) = dispatch_at f i e m
          in drain_loop (Suc f) (dispatch_at f) ret m) i ?prog (w, count_dispatch op) =
        run_stage (\<lambda>e i m. let (ret, m) = dispatch_at f1 i e m
          in drain_loop (Suc f1) (dispatch_at f1) ret m) i ?prog (w, count_dispatch op)"
      by (rule run_stage_cong [where b = ?b]) (use drains adv in simp_all)
    then show ?thesis by (simp add: m f' Let_def del: drain_loop.simps)
  qed
qed

end
