(* ===== verification/Pipeline_Properties.thy ===== *)
theory Pipeline_Properties
  imports Pipeline_Laws
begin

text \<open>
  The properties of the pipeline runtime: bounded dispatching, the refinement of a push to a
  straight walk through the stages, what validation guarantees, the lifecycle, deadlines.
\<close>

section \<open>The budget bounds every operation\<close>

lemma drain_fuel_irrelevant:
  assumes "op_remaining (snd m) \<le> f"
  shows "drain f ret m = drain (op_remaining (snd m)) ret m"
  unfolding drain_def
  by (rule drain_loop_fuel [where b = "op_remaining (snd m)"])
     (use assms in \<open>auto intro: dispatch_fuel_irrelevant dispatch_at_spends simp: dispatch_at_broke\<close>)

text \<open>Property C26. The recursion depth and the loop bound of the model are immaterial: a
  dispatch followed by \<open>drain\<close> finishes within the remaining dispatch budget, so every bound that
  covers the budget computes the same result. The runtime's dispatch loop terminates for every
  pipeline, every stage and every signal.\<close>

theorem dispatch_terminates_within_budget:
  fixes m :: "('c, 's, 'k) machine"
  assumes "op_remaining (snd m) \<le> f"
  shows "drain_dispatch f s i m = drain_dispatch (op_remaining (snd m)) s i m"
proof -
  have same: "dispatch_at f i s m = dispatch_at (op_remaining (snd m)) i s m"
    by (rule dispatch_fuel_irrelevant) (use assms in simp_all)
  obtain r m1 where d: "dispatch_at f i s m = (r, m1)" by (cases "dispatch_at f i s m")
  have "op_remaining (snd m1) \<le> op_remaining (snd m)"
    using dispatch_at_advances [of m f i s] d by (simp add: advances_def)
  then show ?thesis
    using assms drain_fuel_irrelevant [of m1 f r] drain_fuel_irrelevant [of m1 "op_remaining (snd m)" r]
    by (simp add: drain_dispatch_def d flip: same)
qed

lemma begin_operation_fields [simp]:
  "op_pipeline (begin_operation w pid now) = pid" "op_now (begin_operation w pid now) = now"
  "op_remaining (begin_operation w pid now) = unat (pl_dispatch_budget (w_pipes w pid))"
  "op_pending (begin_operation w pid now) = None"
  "op_result (begin_operation w pid now) = clear_result"
  by (simp_all add: begin_operation_def)

lemma clear_result_fields [simp]: "dispatches clear_result = 0" "outputs clear_result = 0"
  by (simp_all add: clear_result_def)

lemma flush_stages_advances: "advances m (snd (snd (flush_stages fuel index sids observed m)))"
proof (induction sids arbitrary: index observed m)
  case Nil
  then show ?case by simp
next
  case (Cons sid rest)
  obtain w op where m: "m = (w, op)" by (cases m)
  let ?stage = "w_stages w sid"
  show ?case
  proof (cases "\<not> stg_deadline_pending ?stage \<or> \<not> time_reached (op_now op) (stg_deadline_ms ?stage)")
    case True
    then show ?thesis using Cons.IH by (simp add: m Let_def)
  next
    case False
    let ?w1 = "log_if (\<not> observed \<and> obs_flush (pl_observer (w_pipes w (op_pipeline op))))
                  (LogFlush (op_pipeline op) (op_now op)) w"
    let ?w2 = "update_stage sid (\<lambda>g. g\<lparr>stg_deadline_pending := False\<rparr>) ?w1"
    let ?prog = "the (api_flush (the (stg_api ?stage))) (stg_config ?stage) (stage_state ?w2 sid)
      (stg_deadline_ms ?stage) (op_now op)"
    obtain r1 m1 where r1: "run_stage (drain_dispatch fuel) index ?prog (?w2, op) = (r1, m1)"
      by (cases "run_stage (drain_dispatch fuel) index ?prog (?w2, op)")
    obtain r2 m2 where r2: "drain fuel r1 m1 = (r2, m2)" by (cases "drain fuel r1 m1")
    have "same_shape w ?w2" by (rule same_shape_trans [of w ?w1]) auto
    then have "advances m (?w2, op)" unfolding m by (rule advances_world)
    moreover have "advances (?w2, op) m1"
      using run_stage_advances [where disp = "drain_dispatch fuel" and m = "(?w2, op)"
          and index = index and p = ?prog, OF drain_dispatch_advances] r1 by simp
    ultimately have "advances m m1" by (rule advances_trans)
    moreover have "advances m1 m2" using drain_advances [of m1 fuel r1] r2 by simp
    ultimately have "advances m m2" by (rule advances_trans)
    then show ?thesis
      using False Cons.IH [where index = "Suc index" and observed = True and m = m2] advances_trans [of m m2]
      by (simp add: m Let_def r1 r2)
  qed
qed

lemma push_advances:
  fixes w :: "('c, 's, 'k) world"
  assumes "zpt_pipeline_push pid s w = (ret, res, w')"
  shows "same_shape w w' \<and> dispatches res \<le> unat (pl_dispatch_budget (w_pipes w pid)) \<and>
    outputs res \<le> dispatches res"
proof (cases "\<not> pl_validated (w_pipes w pid) \<or> \<not> pl_active (w_pipes w pid) \<or>
    kind s \<noteq> pl_input_kind (w_pipes w pid)")
  case True
  then show ?thesis using assms by (auto simp: zpt_pipeline_push_def split: if_splits)
next
  case False
  let ?obs = "pl_observer (w_pipes w pid)"
  let ?w = "log_if (obs_input ?obs) (LogInput pid s) w"
  let ?op = "begin_operation ?w pid (observed_at_ms (metadata s))"
  obtain r w1 op1 where d: "drain_dispatch (op_remaining ?op) s 0 (?w, ?op) = (r, w1, op1)"
    by (cases "drain_dispatch (op_remaining ?op) s 0 (?w, ?op)") auto
  have "advances (?w, ?op) (w1, op1)"
    using drain_dispatch_advances [of "(?w, ?op)" "op_remaining ?op" s 0] d by simp
  moreover have "same_shape w ?w" "same_shape w1 (log_if b e w1)" for b e by auto
  moreover have "res = op_result op1"
    "w' = log_if (obs_input_done ?obs) (LogInputDone pid) w1"
    using assms False d by (auto simp: zpt_pipeline_push_def Let_def)
  ultimately show ?thesis
    by (auto simp: advances_def intro: same_shape_trans)
qed

lemma flush_advances:
  fixes w :: "('c, 's, 'k) world"
  assumes "zpt_pipeline_flush pid now w = (ret, res, w')"
  shows "same_shape w w' \<and> dispatches res \<le> unat (pl_dispatch_budget (w_pipes w pid)) \<and>
    outputs res \<le> dispatches res"
proof (cases "\<not> pl_validated (w_pipes w pid) \<or> \<not> pl_active (w_pipes w pid)")
  case True
  then show ?thesis using assms by (auto simp: zpt_pipeline_flush_def split: if_splits)
next
  case False
  let ?op = "begin_operation w pid now"
  obtain r ob w1 op1 where d: "flush_stages (op_remaining ?op) 0 (pl_stages (w_pipes w pid)) False
      (w, ?op) = (r, ob, w1, op1)"
    by (cases "flush_stages (op_remaining ?op) 0 (pl_stages (w_pipes w pid)) False (w, ?op)") auto
  have "advances (w, ?op) (w1, op1)"
    using flush_stages_advances [of "(w, ?op)" "op_remaining ?op" 0] d by (metis snd_conv)
  moreover have "same_shape w1 (log_if b e w1)" for b e by auto
  moreover have "res = op_result op1"
    "\<exists>b e. w' = log_if b e w1"
    using assms False d by (auto simp: zpt_pipeline_flush_def Let_def)
  ultimately show ?thesis
    by (auto simp: advances_def intro: same_shape_trans)
qed

section \<open>A push walks the stages\<close>

text \<open>
  The specification of a push: the stages run one after another, each handing its emission to
  the next, the last one to the sink; the walk stops at the first stage that emits nothing or
  fails. No budget, no held emission, no nesting.
\<close>

primrec perform :: "nat \<Rightarrow> u32 \<Rightarrow> 's stage_prog \<Rightarrow> ('c, 's, 'k) world \<Rightarrow>
    int \<times> zpt_signal option \<times> ('c, 's, 'k) world" where
  "perform sid now (Return ret st) w = (ret, None, put_state sid st w)"
| "perform sid now (Emit s k) w =
     (let w = log_if (stg_observer_frame (w_stages w sid)) (LogFrame sid s now) w;
          (ret, _, w) = perform sid now (k 0) w in (ret, Some s, w))"
| "perform sid now (ScheduleFlush d k) w =
     (let api = the (stg_api (w_stages w sid)) in
      if api_flags api AND STAGE_STATEFUL = 0 \<or> api_flush api = None
      then perform sid now (k (- ENOTSUP)) w
      else perform sid now (k 0)
             (update_stage sid (\<lambda>g. g\<lparr>stg_deadline_ms := d, stg_deadline_pending := True\<rparr>) w))"
| "perform sid now (CancelFlush p) w =
     perform sid now p (update_stage sid (\<lambda>g. g\<lparr>stg_deadline_pending := False\<rparr>) w)"
| "perform sid now (Notify e v p) w =
     perform sid now p (log_if (stg_observer_callback (w_stages w sid)) (LogEvent sid e v now) w)"

definition deliver :: "nat \<Rightarrow> zpt_signal \<Rightarrow> ('c, 's, 'k) world \<Rightarrow> int \<times> ('c, 's, 'k) world" where
  "deliver kid s w =
     (let (ret, st) = the (sink_emit (the (snk_api (w_sinks w kid)))) (snk_state (w_sinks w kid)) s
      in (ret, update_sink kid (\<lambda>k. k\<lparr>snk_state := st\<rparr>) w))"

fun walk :: "u32 \<Rightarrow> nat \<Rightarrow> nat list \<Rightarrow> zpt_signal \<Rightarrow> ('c, 's, 'k) world \<Rightarrow>
    int \<times> zpt_pipeline_result \<times> ('c, 's, 'k) world" where
  "walk now kid [] s w =
     (let (ret, w) = deliver kid s w in (ret, \<lparr>dispatches = 1, outputs = if ret = 0 then 1 else 0\<rparr>, w))"
| "walk now kid (sid # rest) s w =
     (let stage = w_stages w sid;
          (ret, out, w) = perform sid now (the (api_process (the (stg_api stage))) (stg_config stage)
            (stage_state w sid) now s) w
      in case out of
           Some next \<Rightarrow>
             if ret = 0 then
               let (ret, res, w) = walk now kid rest next w
               in (ret, res\<lparr>dispatches := Suc (dispatches res)\<rparr>, w)
             else (ret, \<lparr>dispatches = 1, outputs = 0\<rparr>, w)
         | None \<Rightarrow> (ret, \<lparr>dispatches = 1, outputs = 0\<rparr>, w))"

definition add_result :: "zpt_pipeline_result \<Rightarrow> zpt_op \<Rightarrow> zpt_op" where
  "add_result r op = op\<lparr>op_pending := None, op_remaining := op_remaining op - dispatches r,
     op_result := \<lparr>dispatches = dispatches (op_result op) + dispatches r,
                   outputs = outputs (op_result op) + outputs r\<rparr>\<rparr>"

lemma perform_shape: "same_shape w (snd (snd (perform sid now p w)))"
proof (induction p arbitrary: w)
  case (Emit s k)
  show ?case
    using same_shape_trans [OF same_shape_basic(1) Emit.IH [OF rangeI, of _ 0]]
    by (simp add: Let_def case_prod_unfold)
next
  case (ScheduleFlush d k)
  show ?case
    using same_shape_trans [OF same_shape_basic(4) ScheduleFlush.IH [OF rangeI]]
      ScheduleFlush.IH [OF rangeI]
    by (simp add: Let_def)
next
  case (CancelFlush p)
  show ?case using same_shape_trans [OF same_shape_basic(3) CancelFlush.IH] by simp
next
  case (Notify e v p)
  show ?case using same_shape_trans [OF same_shape_basic(1) Notify.IH] by simp
qed auto

lemma perform_out: "tail_emit K p \<Longrightarrow> fst (snd (perform sid now p w)) = Some s \<Longrightarrow>
    kind s = K \<and> fst (perform sid now p w) = 0"
  by (induction p arbitrary: w)
     (auto simp: Let_def case_prod_unfold split: if_splits)

lemma run_stage_performs:
  assumes "index < length (op_stages (w, op))" "sid = op_stages (w, op) ! index"
    and "tail_emit (output_kind (the (stg_api (w_stages w sid)))) p" "op_pending op = None"
  shows "run_stage disp index p (w, op) =
    (let (ret, out, w') = perform sid (op_now op) p w
     in (ret, w', op\<lparr>op_pending := map_option (\<lambda>s. (s, Suc index)) out\<rparr>))"
  using assms
proof (induction p arbitrary: w)
  case (Return r st)
  then show ?case by (cases op) (simp add: Let_def)
next
  case (Emit s k)
  then obtain st where "\<forall>r. k r = Return r st" by auto
  with Emit.prems show ?case by (simp add: Let_def)
next
  case (ScheduleFlush d k)
  then show ?case by (simp add: Let_def)
next
  case (CancelFlush p)
  then show ?case by (simp add: Let_def)
next
  case (Notify e v p)
  then show ?case by (simp add: Let_def)
qed

text \<open>Stages whose state no other one of a set writes; a list of stages each with a state of its own.\<close>

definition separate :: "('c, 's, 'k) world \<Rightarrow> nat \<Rightarrow> nat set \<Rightarrow> bool" where
  "separate w sid S \<longleftrightarrow> (\<forall>sid' \<in> S. stg_state (w_stages w sid') = None \<or> stg_state (w_stages w sid') \<noteq> stg_state (w_stages w sid))"

fun own_states :: "('c, 's, 'k) world \<Rightarrow> nat list \<Rightarrow> bool" where
  "own_states w [] = True"
| "own_states w (sid # rest) = (separate w sid (set rest) \<and> own_states w rest)"

lemma same_shape_state: "same_shape w w' \<Longrightarrow> stg_state (w_stages w' sid) = stg_state (w_stages w sid)"
proof -
  assume "same_shape w w'"
  then have "stg_state (stage_shape (w_stages w' sid)) = stg_state (stage_shape (w_stages w sid))" by (simp add: same_shape_def)
  then show ?thesis by (simp add: stage_shape_def)
qed

lemma separate_shape: "same_shape w w' \<Longrightarrow> separate w' sid S = separate w sid S"
  by (simp add: separate_def same_shape_state)

lemma separate_sym: "separate w sid {sid'} = separate w sid' {sid}"
  by (auto simp: separate_def)

lemma put_state_other: "separate w sid {sid'} \<Longrightarrow> stage_state (put_state sid st w) sid' = stage_state w sid'"
  by (cases "stg_state (w_stages w sid')") (auto simp: separate_def stage_state_def put_state_def split: option.splits)

lemma put_state_own: "stage_state (put_state sid st w) sid \<in> {stage_state w sid, st}"
  by (auto simp: stage_state_def put_state_def split: option.splits)

lemma stage_state_unwritten [simp]:
  "stage_state (log_if b e w) sid = stage_state w sid"
  "stage_state (update_stage sid' (\<lambda>g. g\<lparr>stg_deadline_pending := pend\<rparr>) w) sid = stage_state w sid"
  "stage_state (update_stage sid' (\<lambda>g. g\<lparr>stg_deadline_ms := dl, stg_deadline_pending := pend\<rparr>) w) sid = stage_state w sid"
  by (simp_all add: stage_state_def update_stage_def)

lemma separate_unwritten [simp]:
  "separate (log_if b e w) sid S = separate w sid S"
  "separate (update_stage sid' (\<lambda>g. g\<lparr>stg_deadline_pending := pend\<rparr>) w) sid S = separate w sid S"
  "separate (update_stage sid' (\<lambda>g. g\<lparr>stg_deadline_ms := dl, stg_deadline_pending := pend\<rparr>) w) sid S = separate w sid S"
  by (simp_all add: separate_shape [OF same_shape_basic(1)] separate_shape [OF same_shape_basic(3)] separate_shape [OF same_shape_basic(4)])

text \<open>
  Every stage accepts what the stage before it emits, the sink what the last one emits; every state
  has the type \<open>T\<close> gives it and is no other stage's.
\<close>

fun links_fit :: "(nat \<Rightarrow> 's option \<Rightarrow> bool) \<Rightarrow> ('c, 's, 'k) world \<Rightarrow> nat \<Rightarrow> nat list \<Rightarrow> zpt_signal_kind \<Rightarrow> bool" where
  "links_fit T w kid [] k = kind_accepted (sink_accepted_kinds (the (snk_api (w_sinks w kid)))) k"
| "links_fit T w kid (sid # rest) k =
     (let api = the (stg_api (w_stages w sid)) in
      api_process api \<noteq> None \<and> kind_accepted (accepted_kinds api) k \<and> disciplined (T sid) api \<and>
      T sid (stage_state w sid) \<and> separate w sid (set rest) \<and> links_fit T w kid rest (output_kind api))"

lemma disciplined_process:
  assumes "disciplined I api" "api_process api \<noteq> None" "kind_accepted (accepted_kinds api) (kind s)" "I st"
  shows "prog_typed (output_kind api) I (the (api_process api) c st now s)"
  using assms by (auto simp: disciplined_def kind_accepted_def)

lemma perform_separate:
  "separate w sid {sid'} \<Longrightarrow> stage_state (snd (snd (perform sid now p w))) sid' = stage_state w sid'"
  by (induction p arbitrary: w) (simp_all add: Let_def case_prod_unfold put_state_other)

lemma perform_typed:
  "prog_typed K I p \<Longrightarrow> I (stage_state w sid) \<Longrightarrow> I (stage_state (snd (snd (perform sid now p w))) sid)"
proof (induction p arbitrary: w)
  case (Return r st)
  then show ?case using put_state_own [of sid st w] by auto
next
  case (Emit s k)
  then obtain st where "I st" "\<forall>r. k r = Return r st" by auto
  then show ?case using Emit.prems(2) put_state_own [of sid st "log_if (stg_observer_frame (w_stages w sid)) (LogFrame sid s now) w"]
    by (auto simp: Let_def)
qed (simp_all add: Let_def)

lemma links_fit_after:
  assumes "links_fit T w kid rest k" "separate w sid (set rest)"
  shows "links_fit T (snd (snd (perform sid now p w))) kid rest k"
proof -
  let ?w = "snd (snd (perform sid now p w))"
  have shape: "same_shape w ?w" by (rule perform_shape)
  have kept: "stage_state ?w sid' = stage_state w sid'" if "sid' \<in> set rest" for sid'
    using assms(2) that by (intro perform_separate) (simp add: separate_def)
  show ?thesis
    using assms(1) kept
    by (induction rest arbitrary: k) (simp_all add: Let_def same_shape_simps [OF shape] separate_shape [OF shape])
qed

lemma drain_loop_idle: "op_pending (snd m) = None \<Longrightarrow> drain_loop (Suc n) d ret m = (ret, m)"
  by (cases m; cases "snd m") (simp add: Let_def)

lemma dispatch_delivers:
  fixes w :: "('c, 's, 'k) world"
  assumes "pl_stages (w_pipes w (op_pipeline op)) = pre"
    and "kind_accepted (sink_accepted_kinds (the (snk_api (w_sinks w (pl_sink (w_pipes w (op_pipeline op))))))) (kind s)"
    and "op_pending op = None" "0 < op_remaining op"
  shows "dispatch_at (Suc f) (length pre) s (w, op) =
    (let (ret, res, w') = walk (op_now op) (pl_sink (w_pipes w (op_pipeline op))) [] s w
     in (ret, w', add_result res op))"
proof -
  let ?kid = "pl_sink (w_pipes w (op_pipeline op))"
  obtain r st where e: "the (sink_emit (the (snk_api (w_sinks w ?kid)))) (snk_state (w_sinks w ?kid)) s = (r, st)"
    by (cases "the (sink_emit (the (snk_api (w_sinks w ?kid)))) (snk_state (w_sinks w ?kid)) s")
  have "dispatch_at (Suc f) (length pre) s (w, op) = dispatch_to_sink s (w, count_dispatch op)"
    using assms by simp
  then show ?thesis
    using assms e
    by (cases op) (simp add: dispatch_to_sink_def deliver_def add_result_def count_dispatch_def)
qed

lemma dispatch_runs:
  fixes w :: "('c, 's, 'k) world" and op :: zpt_op
  assumes stages: "pl_stages (w_pipes w (op_pipeline op)) = pre @ sid # rest"
    and links: "links_fit T w kid (sid # rest) (kind s)"
    and op: "op_pending op = None" "0 < op_remaining op"
    and perf: "perform sid (op_now op) (the (api_process (the (stg_api (w_stages w sid))))
      (stg_config (w_stages w sid)) (stage_state w sid) (op_now op) s) w = (ret, out, w1)"
  shows "dispatch_at (Suc f) (length pre) s (w, op) =
    (ret, w1, count_dispatch op\<lparr>op_pending := map_option (\<lambda>s. (s, Suc (length pre))) out\<rparr>)"
proof -
  let ?api = "the (stg_api (w_stages w sid))"
  let ?prog = "the (api_process ?api) (stg_config (w_stages w sid)) (stage_state w sid) (op_now op) s"
  have fit: "kind_accepted (accepted_kinds ?api) (kind s)" "disciplined (T sid) ?api" "api_process ?api \<noteq> None"
      "T sid (stage_state w sid)"
    using links by (simp_all add: Let_def)
  have tail: "tail_emit (output_kind ?api) ?prog"
    using fit by (intro prog_typed_tail_emit [OF disciplined_process])
  have len: "length pre \<noteq> length (op_stages (w, count_dispatch op))"
    and nth: "op_stages (w, count_dispatch op) ! length pre = sid"
    and less: "length pre < length (op_stages (w, count_dispatch op))"
    using stages by simp_all
  have "dispatch_at (Suc f) (length pre) s (w, op) =
    run_stage (\<lambda>e i m. let (ret, m) = dispatch_at f i e m in drain_loop (Suc f) (dispatch_at f) ret m)
      (length pre) ?prog (w, count_dispatch op)"
    using len nth fit(1) op(2)
    by (simp only: dispatch_at.simps snd_conv fst_conv Let_def if_False if_True
        neq0_conv [symmetric] not_True_eq_False not_False_eq_True count_dispatch_fields(2))
  also have "\<dots> = (ret, w1, count_dispatch op\<lparr>op_pending := map_option (\<lambda>s. (s, Suc (length pre))) out\<rparr>)"
    using run_stage_performs [where index = "length pre" and w = w and op = "count_dispatch op"
        and sid = sid and p = ?prog, OF less nth [symmetric] tail] perf op(1)
    by simp
  finally show ?thesis .
qed

lemma drain_walks:
  fixes w :: "('c, 's, 'k) world"
  assumes "pl_stages (w_pipes w (op_pipeline op)) = pre @ suf"
    and "links_fit T w (pl_sink (w_pipes w (op_pipeline op))) suf (kind s)"
    and "op_pending op = None" "length suf < op_remaining op" "length suf < n" "0 < f"
  shows "(let (ret, m) = dispatch_at f (length pre) s (w, op) in drain_loop n (dispatch_at f) ret m) =
    (let (ret, res, w') = walk (op_now op) (pl_sink (w_pipes w (op_pipeline op))) suf s w
     in (ret, w', add_result res op))"
  using assms
proof (induction suf arbitrary: pre s w op n)
  case Nil
  obtain f1 where f: "f = Suc f1" using Nil.prems by (cases f) auto
  obtain n1 where n: "n = Suc n1" using Nil.prems by (cases n) auto
  have "dispatch_at f (length pre) s (w, op) =
    (let (ret, res, w') = walk (op_now op) (pl_sink (w_pipes w (op_pipeline op))) [] s w
     in (ret, w', add_result res op))"
    unfolding f using Nil.prems by (intro dispatch_delivers) simp_all
  moreover obtain r res w2 where wk: "walk (op_now op) (pl_sink (w_pipes w (op_pipeline op))) [] s w = (r, res, w2)"
    by (cases "walk (op_now op) (pl_sink (w_pipes w (op_pipeline op))) [] s w") auto
  ultimately show ?case
    by (simp add: n drain_loop_idle add_result_def del: walk.simps drain_loop.simps dispatch_at.simps)
next
  case (Cons sid rest)
  obtain f1 where f: "f = Suc f1" using Cons.prems by (cases f) auto
  obtain n1 where n: "n = Suc n1" using Cons.prems by (cases n) auto
  let ?stage = "w_stages w sid"
  let ?api = "the (stg_api ?stage)"
  let ?prog = "the (api_process ?api) (stg_config ?stage) (stage_state w sid) (op_now op) s"
  let ?kid = "pl_sink (w_pipes w (op_pipeline op))"
  have tail: "tail_emit (output_kind ?api) ?prog"
    using Cons.prems(2) by (auto simp: Let_def intro!: prog_typed_tail_emit [OF disciplined_process])
  obtain ret out w1 where perf: "perform sid (op_now op) ?prog w = (ret, out, w1)"
    by (cases "perform sid (op_now op) ?prog w") auto
  have shape: "same_shape w w1" using perform_shape [of w sid "op_now op" ?prog] perf by simp
  have ran: "dispatch_at f (length pre) s (w, op) =
      (ret, w1, count_dispatch op\<lparr>op_pending := map_option (\<lambda>s. (s, Suc (length pre))) out\<rparr>)"
    unfolding f using Cons.prems perf by (intro dispatch_runs) auto
  show ?case
  proof (cases "out")
    case None
    have "add_result \<lparr>dispatches = 1, outputs = 0\<rparr> op = count_dispatch op\<lparr>op_pending := None\<rparr>"
      by (cases op) (simp add: add_result_def count_dispatch_def)
    then show ?thesis
      by (simp add: ran perf n None drain_loop_idle del: drain_loop.simps dispatch_at.simps)
  next
    case (Some nxt)
    with perform_out [OF tail, of sid "op_now op" w nxt] perf
    have nk: "kind nxt = output_kind ?api" "ret = 0" by auto
    let ?op2 = "count_dispatch op\<lparr>op_pending := None\<rparr>"
    have "(let (ret, m) = dispatch_at f (length (pre @ [sid])) nxt (w1, ?op2)
         in drain_loop n1 (dispatch_at f) ret m) =
        (let (ret, res, w') = walk (op_now ?op2) (pl_sink (w_pipes w1 (op_pipeline ?op2))) rest nxt w1
         in (ret, w', add_result res ?op2))"
      using Cons.prems nk shape
        links_fit_after [of T w ?kid rest "kind nxt" sid "op_now op" ?prog] perf
      by (intro Cons.IH) (simp_all add: same_shape_pipes n Let_def)
    moreover obtain r res w2 where wk: "walk (op_now op) ?kid rest nxt w1 = (r, res, w2)"
      by (cases "walk (op_now op) ?kid rest nxt w1") auto
    moreover have "add_result res ?op2 = add_result (res\<lparr>dispatches := Suc (dispatches res)\<rparr>) op"
      by (simp add: add_result_def count_dispatch_def)
    ultimately show ?thesis
      using shape by (simp add: ran perf n Some nk same_shape_pipes Let_def del: dispatch_at.simps)
  qed
qed

lemma links_fit_log: "links_fit T (log_if b e w) kid sids k = links_fit T w kid sids k"
  by (induction sids arbitrary: k) (simp_all add: Let_def)

section \<open>What validation checks\<close>

text \<open>A stage in its place: what precedes it and the kind that reaches it.\<close>

definition link_ok :: "('c, 's, 'k) world \<Rightarrow> nat \<Rightarrow> nat list \<Rightarrow> nat \<Rightarrow> zpt_signal_kind \<Rightarrow> bool" where
  "link_ok w pid previous sid k \<longleftrightarrow>
     (let stage = w_stages w sid in
      \<not> missing_id (stg_stable_id stage) \<and>
      (\<exists>api. stg_api stage = Some api \<and> \<not> missing_id (strategy_id api) \<and> api_process api \<noteq> None \<and>
         zpt_signal_kind_valid (output_kind api) \<and> kind_accepted (accepted_kinds api) k) \<and>
      (stg_owner stage = None \<or> stg_owner stage = Some pid) \<and>
      (stateful stage \<longrightarrow> stg_state stage \<noteq> None) \<and>
      (\<forall>p \<in> set previous. stg_stable_id (w_stages w p) \<noteq> stg_stable_id stage \<and>
         (stateful stage \<longrightarrow> stg_state (w_stages w p) \<noteq> stg_state stage)))"

definition kind_at :: "('c, 's, 'k) world \<Rightarrow> zpt_signal_kind \<Rightarrow> nat list \<Rightarrow> nat \<Rightarrow> zpt_signal_kind" where
  "kind_at w k sids i = (if i = 0 then k else output_kind (the (stg_api (w_stages w (sids ! (i - 1))))))"

definition structure_ok :: "('c, 's, 'k) world \<Rightarrow> nat \<Rightarrow> bool" where
  "structure_ok w pid \<longleftrightarrow>
     (let p = w_pipes w pid; sids = pl_stages p; sink = w_sinks w (pl_sink p) in
      \<not> missing_id (pl_stable_id p) \<and> zpt_signal_kind_valid (pl_input_kind p) \<and>
      pl_dispatch_budget p \<noteq> 0 \<and>
      snk_stable_id sink \<noteq> None \<and> (snk_owner sink = None \<or> snk_owner sink = Some pid) \<and>
      (\<exists>api. snk_api sink = Some api \<and> \<not> missing_id (type_id api) \<and> sink_emit api \<noteq> None \<and>
         kind_accepted (sink_accepted_kinds api) (kind_at w (pl_input_kind p) sids (length sids))) \<and>
      (\<forall>i < length sids. link_ok w pid (take i sids) (sids ! i) (kind_at w (pl_input_kind p) sids i)) \<and>
      (\<forall>sid \<in> set sids. stg_stable_id (w_stages w sid) \<noteq> snk_stable_id sink))"

lemma find_stage_link_conflict_iff:
  "find_stage_link_conflict w previous stage \<le> 0 \<and>
   ((find_stage_link_conflict w previous stage = 0) =
     (\<forall>p \<in> set previous. stg_stable_id (w_stages w p) \<noteq> stg_stable_id stage \<and>
         (stateful stage \<longrightarrow> stg_state (w_stages w p) \<noteq> stg_state stage)))"
  by (induction previous) auto

lemma validate_stage_link_iff:
  "validate_stage_link w pid previous sid k \<le> 0 \<and>
   ((validate_stage_link w pid previous sid k = 0) = link_ok w pid previous sid k)"
  using find_stage_link_conflict_iff [of w previous "w_stages w sid"]
  by (auto simp: validate_stage_link_def link_ok_def validate_stage_api_def Let_def
      split: option.split)

lemma nth_append_take: "i < length xs \<Longrightarrow> take i ((x # xs)) = (if i = 0 then [] else x # take (i - 1) xs)"
  by (cases i) auto

lemma kind_at_Suc [simp]:
  "kind_at w k (sid # rest) (Suc i) = kind_at w (output_kind (the (stg_api (w_stages w sid)))) rest i"
  by (cases i) (simp_all add: kind_at_def)

lemma kind_at_0 [simp]: "kind_at w k sids 0 = k"
  by (simp add: kind_at_def)

lemma validate_links_iff:
  "fst (validate_links w pid previous sids k) \<le> 0 \<and>
   ((fst (validate_links w pid previous sids k) = 0) =
     (\<forall>i < length sids. link_ok w pid (previous @ take i sids) (sids ! i) (kind_at w k sids i))) \<and>
   (fst (validate_links w pid previous sids k) = 0 \<longrightarrow>
     snd (validate_links w pid previous sids k) = kind_at w k sids (length sids))"
proof (induction sids arbitrary: previous k)
  case Nil
  then show ?case by simp
next
  case (Cons sid rest)
  show ?case
    using Cons.IH [of "previous @ [sid]" "output_kind (the (stg_api (w_stages w sid)))"]
      validate_stage_link_iff [of w pid previous sid k]
    by (auto simp: Let_def All_less_Suc2)
qed

text \<open>Property C33. Validation is exact: \<open>validate_structure\<close> returns zero precisely for the
  structures that satisfy the declarative reading of its checks, and a negative error number
  otherwise. The reading: identifiers present and distinct among stages and sink, every stage
  accepting the kind that reaches it and declaring a valid output kind, the sink accepting the
  last kind, no owner other than this pipeline, and no stateful stage without a state of its
  own.\<close>

theorem validation_is_exact:
  "(validate_structure w pid = 0) = structure_ok w pid \<and> validate_structure w pid \<le> 0"
proof -
  let ?p = "w_pipes w pid"
  let ?sink = "w_sinks w (pl_sink ?p)"
  obtain r k where links: "validate_links w pid [] (pl_stages ?p) (pl_input_kind ?p) = (r, k)"
    by (cases "validate_links w pid [] (pl_stages ?p) (pl_input_kind ?p)")
  have r: "r \<le> 0" "(r = 0) = (\<forall>i < length (pl_stages ?p). link_ok w pid (take i (pl_stages ?p))
      (pl_stages ?p ! i) (kind_at w (pl_input_kind ?p) (pl_stages ?p) i))"
    and k: "r = 0 \<Longrightarrow> k = kind_at w (pl_input_kind ?p) (pl_stages ?p) (length (pl_stages ?p))"
    using validate_links_iff [of w pid "[]" "pl_stages ?p" "pl_input_kind ?p"] links by simp_all
  have identity: "validate_pipeline_identity ?p \<le> 0"
    "(validate_pipeline_identity ?p = 0) = (\<not> missing_id (pl_stable_id ?p) \<and>
      zpt_signal_kind_valid (pl_input_kind ?p) \<and> pl_dispatch_budget ?p \<noteq> 0)"
    by (simp_all add: validate_pipeline_identity_def)
  have sink: "validate_pipeline_sink w pid \<le> 0"
    "(validate_pipeline_sink w pid = 0) = (snk_stable_id ?sink \<noteq> None \<and>
      (snk_owner ?sink = None \<or> snk_owner ?sink = Some pid) \<and>
      (\<exists>api. snk_api ?sink = Some api \<and> \<not> missing_id (type_id api) \<and> sink_emit api \<noteq> None))"
    by (auto simp: validate_pipeline_sink_def Let_def split: option.split)
  show ?thesis
    unfolding validate_structure_def structure_ok_def Let_def links prod.case r(2) [symmetric]
    using r(1) k identity sink by (cases "r = 0") auto
qed

lemma structure_links_fit:
  assumes "structure_ok w pid" "own_states w (pl_stages (w_pipes w pid))"
    and "\<forall>sid \<in> set (pl_stages (w_pipes w pid)). disciplined (T sid) (the (stg_api (w_stages w sid))) \<and> T sid (stage_state w sid)"
  shows "links_fit T w (pl_sink (w_pipes w pid)) (pl_stages (w_pipes w pid)) (pl_input_kind (w_pipes w pid))"
proof -
  let ?sink = "w_sinks w (pl_sink (w_pipes w pid))"
  have "links_fit T w (pl_sink (w_pipes w pid)) sids k"
    if "\<forall>i < length sids. link_ok w pid (previous i) (sids ! i) (kind_at w k sids i)"
      and "kind_accepted (sink_accepted_kinds (the (snk_api ?sink))) (kind_at w k sids (length sids))"
      and "\<forall>sid \<in> set sids. disciplined (T sid) (the (stg_api (w_stages w sid))) \<and> T sid (stage_state w sid)"
      and "own_states w sids"
    for previous sids k
    using that
  proof (induction sids arbitrary: k previous)
    case Nil
    then show ?case by simp
  next
    case (Cons sid rest)
    then show ?case
      using Cons.IH [of "\<lambda>i. previous (Suc i)"]
      by (auto simp: All_less_Suc2 Let_def link_ok_def)
  qed
  then show ?thesis using assms by (auto simp: structure_ok_def Let_def)
qed

lemma walk_keeps_types:
  assumes "links_fit T w kid suf (kind s)" "\<forall>sid \<in> S. T sid (stage_state w sid)"
    and "\<forall>sid \<in> set suf. \<forall>sid' \<in> S. sid' = sid \<or> separate w sid {sid'}"
  shows "\<forall>sid \<in> S. T sid (stage_state (snd (snd (walk now kid suf s w))) sid)"
  using assms
proof (induction suf arbitrary: s w)
  case Nil
  then show ?case by (simp add: deliver_def case_prod_unfold Let_def stage_state_def update_sink_def)
next
  case (Cons sid rest)
  let ?api = "the (stg_api (w_stages w sid))"
  let ?prog = "the (api_process ?api) (stg_config (w_stages w sid)) (stage_state w sid) now s"
  obtain ret out w1 where perf: "perform sid now ?prog w = (ret, out, w1)" by (metis prod_cases3)
  then have w1: "w1 = snd (snd (perform sid now ?prog w))" by simp
  have typed: "prog_typed (output_kind ?api) (T sid) ?prog"
    using Cons.prems(1) by (auto simp: Let_def intro!: disciplined_process)
  have types: "T sid' (stage_state w1 sid')" if "sid' \<in> S" for sid'
    using perform_typed [OF typed, of w sid now] perform_separate [of w sid sid' now ?prog] Cons.prems that unfolding w1 by fastforce
  have next_kind: "kind nxt = output_kind ?api" if "out = Some nxt" for nxt
    using perform_out [OF prog_typed_tail_emit [OF typed], of sid now w nxt] perf that by simp
  have shape: "same_shape w w1" unfolding w1 by (rule perform_shape)
  have "\<forall>sid \<in> S. T sid (stage_state (snd (snd (walk now kid rest nxt w1))) sid)" if "out = Some nxt" for nxt
    using Cons.prems types next_kind [OF that] links_fit_after [of T w kid rest "output_kind ?api" sid now ?prog]
    by (intro Cons.IH) (auto simp: w1 [symmetric] Let_def separate_shape [OF shape])
  then show ?case using types perf by (auto simp: Let_def case_prod_unfold split: option.splits)
qed

lemma own_states_separate:
  "own_states w sids \<Longrightarrow> sid \<in> set sids \<Longrightarrow> sid' \<in> set sids \<Longrightarrow> sid' = sid \<or> separate w sid {sid'}"
proof (induction sids)
  case (Cons x rest)
  have "separate w x {y}" if "y \<in> set rest" for y using Cons.prems(1) that by (simp add: separate_def)
  with Cons separate_sym [of w x] show ?case by auto
qed simp

text \<open>Property C1. In a pipeline whose structure validates, whose stages are disciplined with states of
  their own and of their types, and whose
  budget exceeds the number of stages, a push is exactly the straight walk through the stages:
  the runtime's held emissions, its budget and its kind checks never get in the way, no push
  fails for them, and the result counts one dispatch per stage reached; and it leaves every stage
  in a state of its type, ready for the next push.\<close>

theorem push_walks_the_stages:
  assumes "structure_ok w pid" "pl_validated (w_pipes w pid)" "pl_active (w_pipes w pid)"
    and "own_states w (pl_stages (w_pipes w pid))"
    and "\<forall>sid \<in> set (pl_stages (w_pipes w pid)). disciplined (T sid) (the (stg_api (w_stages w sid))) \<and> T sid (stage_state w sid)"
    and "kind s = pl_input_kind (w_pipes w pid)"
    and "length (pl_stages (w_pipes w pid)) < unat (pl_dispatch_budget (w_pipes w pid))"
  shows "zpt_pipeline_push pid s w =
    (let p = w_pipes w pid;
         (ret, res, w1) = walk (observed_at_ms (metadata s)) (pl_sink p) (pl_stages p) s
           (log_if (obs_input (pl_observer p)) (LogInput pid s) w)
     in (ret, res, log_if (obs_input_done (pl_observer p)) (LogInputDone pid) w1)) \<and>
    (\<forall>sid \<in> set (pl_stages (w_pipes w pid)). T sid (stage_state (snd (snd (zpt_pipeline_push pid s w))) sid))"
proof -
  let ?p = "w_pipes w pid"
  let ?w = "log_if (obs_input (pl_observer ?p)) (LogInput pid s) w"
  let ?op = "begin_operation ?w pid (observed_at_ms (metadata s))"
  let ?f = "unat (pl_dispatch_budget ?p)"
  obtain r res w1 where wk: "walk (op_now ?op) (pl_sink ?p) (pl_stages ?p) s ?w = (r, res, w1)"
    by (cases "walk (op_now ?op) (pl_sink ?p) (pl_stages ?p) s ?w") auto
  have fit: "links_fit T ?w (pl_sink ?p) (pl_stages ?p) (kind s)"
    using structure_links_fit [OF assms(1,4,5)] assms(6) by (simp add: links_fit_log)
  then have "drain_dispatch ?f s 0 (?w, ?op) = (r, w1, add_result res ?op)"
    using drain_walks [of ?w ?op "[]" "pl_stages ?p" T s "Suc ?f" ?f] assms(7) wk
    by (simp add: drain_dispatch_def drain_def del: drain_loop.simps)
  moreover have "op_result (add_result res ?op) = res"
    by (cases res) (simp add: add_result_def)
  ultimately have push: "zpt_pipeline_push pid s w =
      (r, res, log_if (obs_input_done (pl_observer ?p)) (LogInputDone pid) w1)"
    using assms wk by (simp add: zpt_pipeline_push_def Let_def)
  have "\<forall>sid \<in> set (pl_stages ?p). T sid (stage_state w1 sid)"
    using walk_keeps_types [OF fit, of "set (pl_stages ?p)" "op_now ?op"] own_states_separate [OF assms(4)] assms(5) wk by simp
  with push wk show ?thesis by (simp add: Let_def)
qed

section \<open>Lifecycle\<close>

lemma reset_stage_shape: "same_shape w (reset_stage reason sid w)"
  unfolding reset_stage_def Let_def
  by (auto split: option.split
      intro: same_shape_trans [OF same_shape_basic(3) [of _ sid False] same_shape_basic(2)])

lemma fold_reset_shape: "same_shape w (fold (reset_stage reason) sids w)"
  by (induction sids arbitrary: w) (auto intro: same_shape_trans reset_stage_shape)

lemma reset_sink_shape: "same_shape w (reset_sink reason kid w)"
  unfolding reset_sink_def by (auto split: option.split)

lemma reset_sink_stages [simp]: "w_stages (reset_sink reason kid w) = w_stages w"
  unfolding reset_sink_def by (auto split: option.split)

lemma reset_shape: "same_shape w (zpt_pipeline_reset pid reason w)"
  unfolding zpt_pipeline_reset_def by (rule same_shape_trans [OF fold_reset_shape reset_sink_shape])

lemma reset_stage_pending:
  "stg_deadline_pending (w_stages (reset_stage reason sid w) i) =
     (i \<noteq> sid \<and> stg_deadline_pending (w_stages w i))"
  by (auto simp: reset_stage_def Let_def split: option.split)

lemma fold_reset_pending:
  "stg_deadline_pending (w_stages (fold (reset_stage reason) sids w) i) =
     (i \<notin> set sids \<and> stg_deadline_pending (w_stages w i))"
  by (induction sids arbitrary: w) (auto simp: reset_stage_pending)

lemma reset_pending:
  "stg_deadline_pending (w_stages (zpt_pipeline_reset pid reason w) i) =
     (i \<notin> set (pl_stages (w_pipes w pid)) \<and> stg_deadline_pending (w_stages w i))"
  by (simp add: zpt_pipeline_reset_def fold_reset_pending)

lemma activate_stages_world:
  "w_stages (snd (activate_stages reason sids w)) = w_stages w \<and>
   same_shape w (snd (activate_stages reason sids w))"
proof (induction sids arbitrary: w)
  case (Cons sid rest)
  show ?case
    using Cons.IH Cons.IH [of "put_state sid st w" for st]
    by (auto simp: Let_def case_prod_unfold split: option.split intro: same_shape_trans)
qed auto

lemma activate_sink_world:
  "w_stages (snd (activate_sink reason kid w)) = w_stages w \<and>
   same_shape w (snd (activate_sink reason kid w))"
  by (auto simp: activate_sink_def Let_def case_prod_unfold split: option.split)

lemma deactivate_sink_world:
  "same_shape w (snd (deactivate_sink reason kid e w))"
  by (auto simp: deactivate_sink_def Let_def case_prod_unfold split: option.split)

lemma deactivate_stages_advances:
  "advances m (snd (deactivate_stages fuel reason index sids e m))"
proof (induction sids arbitrary: index e m)
  case Nil
  then show ?case by simp
next
  case (Cons sid rest)
  obtain w op where m: "m = (w, op)" by (cases m)
  let ?w = "update_stage sid (\<lambda>g. g\<lparr>stg_deadline_pending := False\<rparr>) w"
  let ?stage = "w_stages ?w sid"
  have start: "advances m (?w, op)" unfolding m by (rule advances_world) auto
  show ?case
  proof (cases "api_deactivate (the (stg_api ?stage))")
    case None
    then show ?thesis
      using advances_trans [OF start Cons.IH [where m = "(?w, op)"]] by (simp add: m)
  next
    case (Some f)
    let ?prog = "f (stg_config ?stage) (stage_state ?w sid) (op_now op) reason"
    obtain r1 m1 where r1: "run_stage (drain_dispatch fuel) index ?prog (?w, op) = (r1, m1)"
      by (cases "run_stage (drain_dispatch fuel) index ?prog (?w, op)")
    obtain r2 m2 where r2: "drain fuel r1 m1 = (r2, m2)" by (cases "drain fuel r1 m1")
    have "advances (?w, op) m1"
      using run_stage_advances [where disp = "drain_dispatch fuel" and m = "(?w, op)"
          and index = index and p = ?prog, OF drain_dispatch_advances] r1 by simp
    moreover have "advances m1 m2" using drain_advances [of m1 fuel r1] r2 by simp
    ultimately have "advances m m2" using start advances_trans by blast
    then show ?thesis
      using Some r1 r2 Cons.IH [where m = m2] advances_trans [of m m2]
      by (simp add: m Let_def)
  qed
qed

text \<open>What each lifecycle operation does to the pipelines and to the deadlines of its stages.\<close>

lemma activate_effect:
  assumes "zpt_pipeline_activate pid reason w = (ret, w')"
    and "pl_validated (w_pipes w pid)" "\<not> pl_active (w_pipes w pid)"
  shows "ret \<le> 0 \<and> w_pipes w' = (w_pipes w)(pid := w_pipes w pid\<lparr>pl_active := ret = 0\<rparr>) \<and>
    (\<forall>sid \<in> set (pl_stages (w_pipes w pid)). \<not> stg_deadline_pending (w_stages w' sid))"
proof -
  let ?p = "w_pipes w pid"
  let ?w = "zpt_pipeline_reset pid reason w"
  obtain r1 w1 where a: "activate_stages reason (pl_stages ?p) ?w = (r1, w1)"
    by (cases "activate_stages reason (pl_stages ?p) ?w")
  obtain r2 w2 where b: "activate_sink reason (pl_sink ?p) w1 = (r2, w2)"
    by (cases "activate_sink reason (pl_sink ?p) w1")
  have pipes: "w_pipes ?w = w_pipes w" "w_pipes w1 = w_pipes w" "w_pipes w2 = w_pipes w"
    "w_pipes (zpt_pipeline_reset pid reason v) = w_pipes v" for v :: "('a, 'b, 'c) world"
    using reset_shape [of w pid reason] activate_stages_world [of reason "pl_stages ?p" ?w]
      activate_sink_world [of reason "pl_sink ?p" w1] a b reset_shape [of v pid reason]
    by (auto dest!: same_shape_pipes)
  have stages: "w_stages w1 = w_stages ?w" "w_stages w2 = w_stages ?w"
    using activate_stages_world [of reason "pl_stages ?p" ?w]
      activate_sink_world [of reason "pl_sink ?p" w1] a b by simp_all
  have off: "w_pipes w = (w_pipes w)(pid := ?p\<lparr>pl_active := False\<rparr>)"
    using assms(3) by (cases ?p) (auto intro!: ext)
  show ?thesis
  proof (cases "r1 < 0 \<or> r2 < 0")
    case True
    then have "ret < 0 \<and> (w' = zpt_pipeline_reset pid reason w1 \<or> w' = zpt_pipeline_reset pid reason w2)"
      using assms a b pipes by (auto simp: zpt_pipeline_activate_def Let_def split: if_splits)
    then show ?thesis
      using pipes off by (auto simp: reset_pending)
  next
    case False
    then have "ret = 0 \<and> w' = log_if (obs_lifecycle (pl_observer (w_pipes w pid))) (LogLifecycle pid True)
        (update_pipe pid (\<lambda>p. p\<lparr>pl_active := True\<rparr>) w2)"
      using assms a b pipes by (auto simp: zpt_pipeline_activate_def Let_def)
    then show ?thesis
      using pipes stages by (auto simp: reset_pending fun_eq_iff)
  qed
qed

lemma deactivate_effect:
  assumes "zpt_pipeline_deactivate pid now reason w = (ret, res, w')"
    and "pl_validated (w_pipes w pid)" "pl_active (w_pipes w pid)"
  shows "w_pipes w' = (w_pipes w)(pid := w_pipes w pid\<lparr>pl_active := False\<rparr>) \<and>
    (\<forall>sid \<in> set (pl_stages (w_pipes w pid)). \<not> stg_deadline_pending (w_stages w' sid)) \<and>
    dispatches res \<le> unat (pl_dispatch_budget (w_pipes w pid)) \<and> outputs res \<le> dispatches res"
proof -
  let ?p = "w_pipes w pid"
  let ?op = "begin_operation w pid now"
  obtain e1 w1 op1 where a: "deactivate_stages (op_remaining ?op) reason 0 (pl_stages ?p) 0 (w, ?op) = (e1, w1, op1)"
    by (cases "deactivate_stages (op_remaining ?op) reason 0 (pl_stages ?p) 0 (w, ?op)") auto
  obtain e2 w2 where b: "deactivate_sink reason (pl_sink ?p) e1 w1 = (e2, w2)"
    by (cases "deactivate_sink reason (pl_sink ?p) e1 w1")
  let ?w3 = "update_pipe pid (\<lambda>p. p\<lparr>pl_active := False\<rparr>) w2"
  have adv: "advances (w, ?op) (w1, op1)"
    using deactivate_stages_advances [of "(w, ?op)" "op_remaining ?op" reason 0 "pl_stages ?p" 0] a by simp
  then have "w_pipes w1 = w_pipes w" by (auto simp: advances_def dest: same_shape_pipes)
  moreover have "w_pipes w2 = w_pipes w1"
    using deactivate_sink_world [of w1 reason "pl_sink ?p" e1] b by (auto dest: same_shape_pipes)
  ultimately have pipes: "w_pipes w1 = w_pipes w" "w_pipes w2 = w_pipes w" by simp_all
  have "res = op_result op1 \<and> w' = log_if (obs_lifecycle (pl_observer ?p)) (LogLifecycle pid False)
      (zpt_pipeline_reset pid reason ?w3)"
    using assms a b pipes same_shape_pipes [OF reset_shape [of ?w3 pid reason]]
    by (auto simp: zpt_pipeline_deactivate_def Let_def)
  then show ?thesis
    using pipes adv same_shape_pipes [OF reset_shape [of ?w3 pid reason]]
    by (auto simp: reset_pending advances_def fun_eq_iff)
qed

text \<open>Property C34. The lifecycle keeps its promises: activating an inactive validated pipeline makes
  it active exactly when it returns zero, whatever the activation callbacks answer, and a failed
  activation leaves it inactive; deactivating an active one always leaves it inactive, even when
  a stage or the sink reports an error; after either, none of its stages has a pending deadline,
  and no other pipeline is touched.\<close>

theorem lifecycle_is_faithful:
  assumes "pl_validated (w_pipes w pid)"
  shows "(\<not> pl_active (w_pipes w pid) \<longrightarrow> zpt_pipeline_activate pid reason w = (ret, w1) \<longrightarrow>
      ret \<le> 0 \<and> w_pipes w1 = (w_pipes w)(pid := w_pipes w pid\<lparr>pl_active := ret = 0\<rparr>) \<and>
      (\<forall>sid \<in> set (pl_stages (w_pipes w pid)). \<not> stg_deadline_pending (w_stages w1 sid))) \<and>
    (pl_active (w_pipes w pid) \<longrightarrow> zpt_pipeline_deactivate pid now reason w = (ret, res, w2) \<longrightarrow>
      w_pipes w2 = (w_pipes w)(pid := w_pipes w pid\<lparr>pl_active := False\<rparr>) \<and>
      (\<forall>sid \<in> set (pl_stages (w_pipes w pid)). \<not> stg_deadline_pending (w_stages w2 sid)))"
  using activate_effect [of pid reason w ret w1] deactivate_effect [of pid now reason w ret res w2] assms
  by blast

section \<open>Deadlines\<close>

text \<open>Milliseconds until a deadline; a deadline up to half the clock's range behind is due.\<close>

definition remaining_ms :: "u32 \<Rightarrow> u32 \<Rightarrow> u32" where
  "remaining_ms now deadline = (if time_reached now deadline then 0 else deadline - now)"

lemma remaining_ms_eq_0: "(remaining_ms now d = 0) = time_reached now d"
  by (auto simp: remaining_ms_def time_reached_def)

lemma best_deadline_correct:
  assumes "\<forall>b. best = Some b \<longrightarrow> fst b = remaining_ms now (snd b)"
  shows "case best_deadline w now sids best of
     None \<Rightarrow> best = None \<and> (\<forall>sid \<in> set sids. \<not> stg_deadline_pending (w_stages w sid))
   | Some (left, d) \<Rightarrow> left = remaining_ms now d \<and>
       (best = Some (left, d) \<or> (\<exists>sid \<in> set sids. stg_deadline_pending (w_stages w sid) \<and>
          stg_deadline_ms (w_stages w sid) = d)) \<and>
       (\<forall>b. best = Some b \<longrightarrow> left \<le> fst b) \<and>
       (\<forall>sid \<in> set sids. stg_deadline_pending (w_stages w sid) \<longrightarrow>
          left \<le> remaining_ms now (stg_deadline_ms (w_stages w sid)))"
  using assms
proof (induction sids arbitrary: best)
  case Nil
  then show ?case by (cases best) auto
next
  case (Cons sid rest)
  show ?case
  proof (cases "stg_deadline_pending (w_stages w sid)")
    case False
    then show ?thesis
      using Cons.IH [OF Cons.prems] by (auto simp: Let_def split: option.splits)
  next
    case True
    let ?d = "stg_deadline_ms (w_stages w sid)"
    let ?delta = "remaining_ms now ?d"
    let ?best = "case best of None \<Rightarrow> Some (?delta, ?d)
      | Some (best_delta, d) \<Rightarrow> if ?delta < best_delta then Some (?delta, ?d) else best"
    have step: "best_deadline w now (sid # rest) best = best_deadline w now rest ?best"
      using True by (simp only: best_deadline.simps Let_def remaining_ms_def not_True_eq_False if_False)
    have "\<forall>b. ?best = Some b \<longrightarrow> fst b = remaining_ms now (snd b)"
      using Cons.prems by (cases best) (auto split: if_splits)
    from Cons.IH [OF this] show ?thesis
      unfolding step using True by (cases best) (fastforce split: option.splits if_splits)+
  qed
qed

text \<open>\<open>zpt_pipeline_next_deadline\<close> of an active pipeline is the pending deadline
  with the least time left, across the wrap-around of the clock; there is one exactly when some
  stage has a pending deadline.\<close>

theorem next_deadline_is_earliest:
  assumes "pl_validated (w_pipes w pid)" "pl_active (w_pipes w pid)"
  shows "case zpt_pipeline_next_deadline w pid now of
     None \<Rightarrow> \<forall>sid \<in> set (pl_stages (w_pipes w pid)). \<not> stg_deadline_pending (w_stages w sid)
   | Some d \<Rightarrow>
       (\<exists>sid \<in> set (pl_stages (w_pipes w pid)). stg_deadline_pending (w_stages w sid) \<and>
          stg_deadline_ms (w_stages w sid) = d) \<and>
       (\<forall>sid \<in> set (pl_stages (w_pipes w pid)). stg_deadline_pending (w_stages w sid) \<longrightarrow>
          remaining_ms now d \<le> remaining_ms now (stg_deadline_ms (w_stages w sid)))"
  using best_deadline_correct [where best = None and now = now and w = w and sids = "pl_stages (w_pipes w pid)"] assms
  by (auto simp: zpt_pipeline_next_deadline_def split: option.splits)

lemma flush_stages_idle:
  assumes "\<forall>sid \<in> set sids. stg_deadline_pending (w_stages w sid) \<longrightarrow>
      \<not> time_reached (op_now op) (stg_deadline_ms (w_stages w sid))"
  shows "flush_stages fuel index sids observed (w, op) = (0, observed, w, op)"
  using assms by (induction sids arbitrary: index) (auto simp: Let_def)

text \<open>Sleeping until the next deadline loses nothing: as long as the deadline that
  \<open>zpt_pipeline_next_deadline\<close> reports is not reached, flushing returns zero, dispatches nothing
  and changes nothing.\<close>

theorem flush_before_next_deadline_is_idle:
  assumes "pl_validated (w_pipes w pid)" "pl_active (w_pipes w pid)"
    and "case zpt_pipeline_next_deadline w pid now of None \<Rightarrow> True | Some d \<Rightarrow> \<not> time_reached now d"
  shows "zpt_pipeline_flush pid now w = (0, clear_result, w)"
proof -
  let ?sids = "pl_stages (w_pipes w pid)"
  have "\<not> time_reached now (stg_deadline_ms (w_stages w sid))"
    if "sid \<in> set ?sids" "stg_deadline_pending (w_stages w sid)" for sid
  proof (cases "zpt_pipeline_next_deadline w pid now")
    case None
    then show ?thesis
      using best_deadline_correct [where best = None and now = now and w = w and sids = ?sids] assms that
      by (auto simp: zpt_pipeline_next_deadline_def split: option.splits)
  next
    case (Some d)
    then have "remaining_ms now d \<le> remaining_ms now (stg_deadline_ms (w_stages w sid))"
      using best_deadline_correct [where best = None and now = now and w = w and sids = ?sids] assms that
      by (auto simp: zpt_pipeline_next_deadline_def split: option.splits)
    moreover have "remaining_ms now d \<noteq> 0" using Some assms by (simp add: remaining_ms_eq_0)
    ultimately show ?thesis by (auto simp flip: remaining_ms_eq_0)
  qed
  then have "flush_stages (op_remaining (begin_operation w pid now)) 0 ?sids False
      (w, begin_operation w pid now) = (0, False, w, begin_operation w pid now)"
    by (intro flush_stages_idle) simp
  then show ?thesis
    using assms by (simp add: zpt_pipeline_flush_def log_if_def)
qed

section \<open>A concrete pipeline\<close>

text \<open>
  One stateful stage that counts and relays normalized motion, schedules a flush ten
  milliseconds ahead, and a sink that records what it receives.
\<close>

definition relay_api :: "(unit, nat) zpt_stage_api" where
  "relay_api = \<lparr>strategy_id = Some ''relay'',
     accepted_kinds = ZPT_SIGNAL_KIND_MASK SIGNAL_NORMALIZED_MOTION,
     output_kind = SIGNAL_NORMALIZED_MOTION, api_flags = STAGE_STATEFUL,
     api_process = Some (\<lambda>c st now s. ScheduleFlush (now + 10) (\<lambda>r. emit_return s (map_option Suc st))),
     api_flush = Some (\<lambda>c st deadline now. Return 0 st),
     api_activate = Some (\<lambda>c st reason. (0, Some 0)), api_deactivate = None,
     api_reset = Some (\<lambda>c st reason. Some 0)\<rparr>"

definition recorder_api :: "zpt_signal list zpt_sink_api" where
  "recorder_api = \<lparr>type_id = Some ''recorder'',
     sink_accepted_kinds = ZPT_SIGNAL_KIND_MASK SIGNAL_NORMALIZED_MOTION,
     sink_emit = Some (\<lambda>k s. (0, k @ [s])), sink_activate = None, sink_deactivate = None,
     sink_reset = None\<rparr>"

definition sample_world :: "bool \<Rightarrow> bool \<Rightarrow> (unit, nat, zpt_signal list) world" where
  "sample_world active pending = \<lparr>
     w_stages = (\<lambda>_. \<lparr>stg_stable_id = Some ''relay-0'', stg_api = Some relay_api, stg_config = None,
       stg_state = Some 0, stg_owner = Some 0, stg_deadline_ms = 500, stg_deadline_pending = pending,
       stg_observer_callback = False, stg_observer_frame = False\<rparr>),
     w_heap = (\<lambda>_. 0),
     w_sinks = (\<lambda>_. \<lparr>snk_stable_id = Some ''recorder-0'', snk_api = Some recorder_api, snk_state = [],
       snk_owner = Some 0\<rparr>),
     w_pipes = (\<lambda>_. \<lparr>pl_stable_id = Some ''pipe'', pl_input_kind = SIGNAL_NORMALIZED_MOTION,
       pl_stages = [7], pl_sink = 0, pl_dispatch_budget = 8, pl_validated = True, pl_active = active,
       pl_observer = \<lparr>obs_input = False, obs_input_done = False, obs_flush = False,
         obs_flush_done = False, obs_lifecycle = True\<rparr>\<rparr>),
     w_log = []\<rparr>"

definition sample_signal :: zpt_signal where
  "sample_signal = zero_signal\<lparr>kind := SIGNAL_NORMALIZED_MOTION, data := FixedVector 65536 0\<rparr>"

lemmas sample_defs = relay_api_def recorder_api_def sample_world_def sample_signal_def

lemma sample_structure_ok: "structure_ok (sample_world active pending) 0"
  by (simp add: structure_ok_def link_ok_def kind_at_def missing_id_def sample_defs Let_def
      kind_accepted_def zpt_signal_kind_valid_def ZPT_SIGNAL_KIND_MASK_def stateful_def)

lemma relay_disciplined: "disciplined (\<lambda>st. st \<noteq> None) relay_api"
proof -
  have "k = SIGNAL_NORMALIZED_MOTION"
    if "ZPT_SIGNAL_KIND_MASK SIGNAL_NORMALIZED_MOTION AND ZPT_SIGNAL_KIND_MASK k \<noteq> 0" for k
    using that kind_mask_and [of SIGNAL_NORMALIZED_MOTION k] by (simp add: zpt_signal_kind_valid_def)
  then show ?thesis by (auto simp: disciplined_def relay_api_def)
qed

lemma dispatch_terminates_within_budget_witness:
  "drain_dispatch 100 sample_signal 0 (sample_world True False, begin_operation (sample_world True False) 0 5) =
   drain_dispatch 8 sample_signal 0 (sample_world True False, begin_operation (sample_world True False) 0 5)"
proof -
  have budget: "op_remaining (begin_operation (sample_world True False) 0 5) = 8"
    by (simp add: sample_world_def)
  show ?thesis
    using dispatch_terminates_within_budget
      [of "(sample_world True False, begin_operation (sample_world True False) 0 5)" 100 sample_signal 0]
    by (simp add: budget del: begin_operation_fields)
qed

lemma push_walks_the_stages_witness:
  "fst (zpt_pipeline_push 0 sample_signal (sample_world True False)) = 0 \<and>
   fst (snd (zpt_pipeline_push 0 sample_signal (sample_world True False))) =
     \<lparr>dispatches = 2, outputs = 1\<rparr>"
proof -
  have "\<forall>sid \<in> set (pl_stages (w_pipes (sample_world True False) 0)).
      disciplined (\<lambda>st. st \<noteq> None) (the (stg_api (w_stages (sample_world True False) sid))) \<and>
      stage_state (sample_world True False) sid \<noteq> None"
    using relay_disciplined by (simp add: sample_world_def stage_state_def)
  from push_walks_the_stages [where T = "\<lambda>_ st. st \<noteq> None", OF sample_structure_ok _ _ _ this, of sample_signal] show ?thesis
    by (simp add: sample_defs separate_def deliver_def log_if_def emit_return_def Let_def)
qed

lemma lifecycle_is_faithful_witness:
  "pl_active (w_pipes (snd (zpt_pipeline_activate 0 RESET_IDLE (sample_world False True))) 0) \<and>
   \<not> stg_deadline_pending
       (w_stages (snd (zpt_pipeline_activate 0 RESET_IDLE (sample_world False True))) 7)"
proof -
  have "fst (zpt_pipeline_activate 0 RESET_IDLE (sample_world False True)) = 0"
    by (simp add: zpt_pipeline_activate_def zpt_pipeline_reset_def reset_stage_def reset_sink_def
        activate_sink_def sample_defs store_defs put_state_def Let_def)
  then obtain w1 where run: "zpt_pipeline_activate 0 RESET_IDLE (sample_world False True) = (0, w1)"
    by (cases "zpt_pipeline_activate 0 RESET_IDLE (sample_world False True)") auto
  show ?thesis
    using lifecycle_is_faithful [of "sample_world False True" 0 RESET_IDLE 0 w1] run
    by (simp add: sample_world_def)
qed

lemma next_deadline_is_earliest_witness:
  "zpt_pipeline_next_deadline (sample_world True True) 0 100 = Some 500 \<and>
   remaining_ms 100 500 \<le> remaining_ms 100 (stg_deadline_ms (w_stages (sample_world True True) 7))"
proof -
  have "zpt_pipeline_next_deadline (sample_world True True) 0 100 = Some 500"
    by (simp add: zpt_pipeline_next_deadline_def sample_world_def time_reached_def)
  then show ?thesis
    using next_deadline_is_earliest [of "sample_world True True" 0 100] by (simp add: sample_world_def)
qed

lemma flush_before_next_deadline_is_idle_witness:
  "zpt_pipeline_flush 0 499 (sample_world True True) = (0, clear_result, sample_world True True)"
  by (rule flush_before_next_deadline_is_idle)
     (simp_all add: zpt_pipeline_next_deadline_def sample_world_def time_reached_def)

end
