(* ===== verification/Router.thy ===== *)
theory Router
  imports Pipeline_Properties
begin

text \<open>
  The router (\<open>core/router.h\<close>, \<open>core/router.c\<close>): a set of pipelines for one input kind, at most
  one of them active. Pipelines are numbers of the store of theory Pipeline;
  \<open>ZPT_ROUTER_NO_PIPELINE\<close> is \<open>None\<close>.
\<close>

record zpt_router =
  rt_stable_id :: "string option"
  rt_input_kind :: zpt_signal_kind
  rt_pipelines :: "nat list"
  default_pipeline_index :: nat
  active_pipeline_index :: "nat option"
  rt_validated :: bool
  rt_active :: bool

section \<open>Operations\<close>

definition validate_router_pipeline :: "zpt_router \<Rightarrow> ('c, 's, 'k) world \<Rightarrow> nat list \<Rightarrow> nat \<Rightarrow> int" where
  "validate_router_pipeline r w previous pid =
     (let pipeline = w_pipes w pid in
      if missing_id (pl_stable_id pipeline) \<or> pl_input_kind pipeline \<noteq> rt_input_kind r then - EINVAL
      else if pl_validated pipeline then - EBUSY
      else if \<exists>p \<in> set previous. pl_stable_id (w_pipes w p) = pl_stable_id pipeline then - EEXIST
      else 0)"

fun validate_router_pipelines :: "zpt_router \<Rightarrow> ('c, 's, 'k) world \<Rightarrow> nat list \<Rightarrow> nat list \<Rightarrow> int" where
  "validate_router_pipelines r w previous [] = 0"
| "validate_router_pipelines r w previous (pid # rest) =
     (let ret = validate_router_pipeline r w previous pid in
      if ret < 0 then ret else validate_router_pipelines r w (previous @ [pid]) rest)"

definition router_validate_structure :: "zpt_router \<Rightarrow> ('c, 's, 'k) world \<Rightarrow> int" where
  "router_validate_structure r w =
     (if missing_id (rt_stable_id r) \<or> \<not> zpt_signal_kind_valid (rt_input_kind r) \<or>
         rt_pipelines r = [] \<or> length (rt_pipelines r) \<le> default_pipeline_index r
      then - EINVAL
      else validate_router_pipelines r w [] (rt_pipelines r))"

fun validate_pipelines :: "nat list \<Rightarrow> ('c, 's, 'k) world \<Rightarrow> int \<times> ('c, 's, 'k) world" where
  "validate_pipelines [] w = (0, w)"
| "validate_pipelines (pid # rest) w =
     (let (ret, w) = zpt_pipeline_validate pid w in
      if ret < 0 then (ret, w) else validate_pipelines rest w)"

definition zpt_router_validate ::
  "zpt_router \<Rightarrow> ('c, 's, 'k) world \<Rightarrow> int \<times> zpt_router \<times> ('c, 's, 'k) world" where
  "zpt_router_validate r w =
     (if rt_validated r then (- EALREADY, r, w)
      else if router_validate_structure r w < 0 then (router_validate_structure r w, r, w)
      else
        let (ret, w) = validate_pipelines (rt_pipelines r) w in
        if ret < 0 then (ret, r, w)
        else (0, r\<lparr>active_pipeline_index := None, rt_validated := True, rt_active := False\<rparr>, w))"

definition zpt_router_active_pipeline :: "zpt_router \<Rightarrow> nat option" where
  "zpt_router_active_pipeline r =
     (if \<not> rt_validated r \<or> \<not> rt_active r then None
      else case active_pipeline_index r of
             None \<Rightarrow> None
           | Some i \<Rightarrow> if i < length (rt_pipelines r) then Some (rt_pipelines r ! i) else None)"

definition zpt_router_activate ::
  "zpt_router \<Rightarrow> zpt_reset_reason \<Rightarrow> ('c, 's, 'k) world \<Rightarrow> int \<times> zpt_router \<times> ('c, 's, 'k) world" where
  "zpt_router_activate r reason w =
     (if \<not> rt_validated r then (- EINVAL, r, w)
      else if rt_active r then (- EALREADY, r, w)
      else
        let (ret, w) = zpt_pipeline_activate (rt_pipelines r ! default_pipeline_index r) reason w
        in if ret < 0 then (ret, r, w)
           else (0, r\<lparr>active_pipeline_index := Some (default_pipeline_index r), rt_active := True\<rparr>, w))"

definition zpt_router_select ::
  "zpt_router \<Rightarrow> nat \<Rightarrow> u32 \<Rightarrow> ('c, 's, 'k) world \<Rightarrow>
   int \<times> zpt_pipeline_result \<times> zpt_router \<times> ('c, 's, 'k) world" where
  "zpt_router_select r pipeline_index now w =
     (if \<not> rt_validated r \<or> length (rt_pipelines r) \<le> pipeline_index then (- EINVAL, clear_result, r, w)
      else if \<not> rt_active r then (- EACCES, clear_result, r, w)
      else if active_pipeline_index r = Some pipeline_index then (0, clear_result, r, w)
      else
        let previous_index = active_pipeline_index r;
            outgoing = zpt_router_active_pipeline r;
            (ret, result, w) =
              (case outgoing of
                 Some out \<Rightarrow> zpt_pipeline_deactivate out now RESET_PIPELINE_LEFT w
               | None \<Rightarrow> (0, clear_result, w));
            first_error = (if ret < 0 then ret else 0);
            r = r\<lparr>active_pipeline_index := None\<rparr>;
            (ret, w) = zpt_pipeline_activate (rt_pipelines r ! pipeline_index) RESET_PIPELINE_ENTERED w
        in if ret < 0 then
             (case outgoing of
                None \<Rightarrow> (ret, result, r, w)
              | Some out \<Rightarrow>
                  let (restore_ret, w) = zpt_pipeline_activate out RESET_PIPELINE_ENTERED w in
                  if restore_ret < 0 then (restore_ret, result, r\<lparr>active_pipeline_index := None\<rparr>, w)
                  else (ret, result, r\<lparr>active_pipeline_index := previous_index\<rparr>, w))
           else (first_error, result, r\<lparr>active_pipeline_index := Some pipeline_index\<rparr>, w))"

definition zpt_router_deactivate ::
  "zpt_router \<Rightarrow> u32 \<Rightarrow> zpt_reset_reason \<Rightarrow> ('c, 's, 'k) world \<Rightarrow>
   int \<times> zpt_pipeline_result \<times> zpt_router \<times> ('c, 's, 'k) world" where
  "zpt_router_deactivate r now reason w =
     (if \<not> rt_validated r then (- EINVAL, clear_result, r, w)
      else if \<not> rt_active r then (- EALREADY, clear_result, r, w)
      else
        let (ret, result, w) =
              (case zpt_router_active_pipeline r of
                 None \<Rightarrow> (0, clear_result, w)
               | Some p \<Rightarrow> zpt_pipeline_deactivate p now reason w)
        in (ret, result, r\<lparr>active_pipeline_index := None, rt_active := False\<rparr>, w))"

definition zpt_router_push ::
  "zpt_router \<Rightarrow> zpt_signal \<Rightarrow> ('c, 's, 'k) world \<Rightarrow> int \<times> zpt_pipeline_result \<times> ('c, 's, 'k) world" where
  "zpt_router_push r s w =
     (if \<not> rt_validated r then (- EINVAL, clear_result, w)
      else if kind s \<noteq> rt_input_kind r then (- EPROTOTYPE, clear_result, w)
      else case zpt_router_active_pipeline r of
             None \<Rightarrow> (- EACCES, clear_result, w)
           | Some p \<Rightarrow> zpt_pipeline_push p s w)"

definition zpt_router_flush ::
  "zpt_router \<Rightarrow> u32 \<Rightarrow> ('c, 's, 'k) world \<Rightarrow> int \<times> zpt_pipeline_result \<times> ('c, 's, 'k) world" where
  "zpt_router_flush r now w =
     (if \<not> rt_validated r then (- EINVAL, clear_result, w)
      else case zpt_router_active_pipeline r of
             None \<Rightarrow> (- EACCES, clear_result, w)
           | Some p \<Rightarrow> zpt_pipeline_flush p now w)"

definition zpt_router_next_deadline :: "zpt_router \<Rightarrow> ('c, 's, 'k) world \<Rightarrow> u32 \<Rightarrow> u32 option" where
  "zpt_router_next_deadline r w now =
     (case zpt_router_active_pipeline r of None \<Rightarrow> None
      | Some p \<Rightarrow> zpt_pipeline_next_deadline w p now)"

section \<open>Switching between exclusive components\<close>

text \<open>
  What the router needs of the things it switches: entering enables exactly on success,
  leaving always disables, and neither touches the others.
\<close>

locale switchable =
  fixes ready :: "'w \<Rightarrow> nat \<Rightarrow> bool"
    and enabled :: "'w \<Rightarrow> nat \<Rightarrow> bool"
    and enter :: "nat \<Rightarrow> 'w \<Rightarrow> int \<times> 'w"
    and leave :: "nat \<Rightarrow> 'w \<Rightarrow> 'w"
  assumes enter_enables: "ready w p \<Longrightarrow> \<not> enabled w p \<Longrightarrow> enter p w = (ret, w') \<Longrightarrow>
      ret \<le> 0 \<and> enabled w' = (enabled w)(p := ret = 0) \<and> ready w' = ready w"
    and leave_disables: "ready w p \<Longrightarrow> enabled w p \<Longrightarrow>
      enabled (leave p w) = (enabled w)(p := False) \<and> ready (leave p w) = ready w"
begin

text \<open>Of the components \<open>ps\<close>, exactly \<open>a\<close> is enabled.\<close>

definition only :: "nat list \<Rightarrow> 'w \<Rightarrow> nat option \<Rightarrow> bool" where
  "only ps w a \<longleftrightarrow> (\<forall>p \<in> set ps. ready w p \<and> enabled w p = (a = Some p)) \<and>
     (\<forall>p. a = Some p \<longrightarrow> p \<in> set ps)"

lemma only_enter:
  assumes "only ps w None" "p \<in> set ps" "enter p w = (ret, w')"
  shows "ret \<le> 0 \<and> only ps w' (if ret = 0 then Some p else None)"
proof -
  have "ready w p" "\<not> enabled w p" using assms(1,2) by (auto simp: only_def)
  from enter_enables [OF this assms(3)] assms(1,2) show ?thesis by (auto simp: only_def)
qed

lemma only_leave:
  assumes "only ps w (Some p)"
  shows "only ps (leave p w) None"
proof -
  have "ready w p" "enabled w p" using assms by (auto simp: only_def)
  from leave_disables [OF this] assms show ?thesis by (auto simp: only_def)
qed

end

definition pipe_ready :: "('c, 's, 'k) world \<Rightarrow> nat \<Rightarrow> bool" where
  "pipe_ready w pid = pl_validated (w_pipes w pid)"

definition pipe_enabled :: "('c, 's, 'k) world \<Rightarrow> nat \<Rightarrow> bool" where
  "pipe_enabled w pid = pl_active (w_pipes w pid)"

definition pipe_leave :: "u32 \<Rightarrow> zpt_reset_reason \<Rightarrow> nat \<Rightarrow> ('c, 's, 'k) world \<Rightarrow> ('c, 's, 'k) world" where
  "pipe_leave now reason pid w = snd (snd (zpt_pipeline_deactivate pid now reason w))"

interpretation pipes: switchable pipe_ready pipe_enabled
    "\<lambda>p w. zpt_pipeline_activate p reason w" "pipe_leave now reason'" for reason reason' now
proof (unfold_locales, goal_cases)
  case (1 w p ret w')
  then show ?case
    using activate_effect [of p reason w ret w']
    by (auto simp: pipe_ready_def [abs_def] pipe_enabled_def [abs_def] fun_eq_iff)
next
  case (2 w p)
  obtain ret res w' where "zpt_pipeline_deactivate p now reason' w = (ret, res, w')"
    by (cases "zpt_pipeline_deactivate p now reason' w") auto
  then show ?case
    using 2 deactivate_effect [of p now reason' w ret res w']
    by (auto simp: pipe_leave_def pipe_ready_def [abs_def] pipe_enabled_def [abs_def] fun_eq_iff)
qed

section \<open>Exactly one pipeline is active\<close>

text \<open>
  The router's pipelines are validated, and the active one is the one the router says, if any.
\<close>

definition router_inv :: "zpt_router \<Rightarrow> ('c, 's, 'k) world \<Rightarrow> bool" where
  "router_inv r w \<longleftrightarrow> rt_validated r \<and> distinct (rt_pipelines r) \<and>
     default_pipeline_index r < length (rt_pipelines r) \<and>
     (\<forall>i. active_pipeline_index r = Some i \<longrightarrow> rt_active r \<and> i < length (rt_pipelines r)) \<and>
     (\<forall>p \<in> set (rt_pipelines r). pl_validated (w_pipes w p) \<and>
        pl_active (w_pipes w p) = (zpt_router_active_pipeline r = Some p))"

lemma router_inv_only:
  "router_inv r w = (rt_validated r \<and> distinct (rt_pipelines r) \<and>
     default_pipeline_index r < length (rt_pipelines r) \<and>
     (\<forall>i. active_pipeline_index r = Some i \<longrightarrow> rt_active r \<and> i < length (rt_pipelines r)) \<and>
     pipes.only (rt_pipelines r) w (zpt_router_active_pipeline r))"
  by (auto simp: router_inv_def pipes.only_def pipe_ready_def pipe_enabled_def
      zpt_router_active_pipeline_def split: option.splits if_splits)

lemma active_pipeline_at:
  "rt_validated r \<Longrightarrow> i < length (rt_pipelines r) \<Longrightarrow>
     zpt_router_active_pipeline (r\<lparr>active_pipeline_index := Some i, rt_active := True\<rparr>) = Some (rt_pipelines r ! i)"
  "zpt_router_active_pipeline (r\<lparr>active_pipeline_index := None\<rparr>) = None"
  by (simp_all add: zpt_router_active_pipeline_def)

lemma own_stages_pipes [simp]: "w_pipes (fold (own_stage pid) sids w) = w_pipes w"
  by (induction sids arbitrary: w) (simp_all add: own_stage_def)

lemma pipeline_validate_effect:
  assumes "zpt_pipeline_validate pid w = (ret, w')"
  shows "ret \<le> 0 \<and> w_pipes w' = (if ret = 0
    then (w_pipes w)(pid := w_pipes w pid\<lparr>pl_validated := True, pl_active := False\<rparr>) else w_pipes w)"
proof -
  let ?w = "update_pipe pid (\<lambda>p. p\<lparr>pl_validated := True, pl_active := False\<rparr>)
    (update_sink (pl_sink (w_pipes w pid)) (\<lambda>k. k\<lparr>snk_owner := Some pid\<rparr>)
      (fold (own_stage pid) (pl_stages (w_pipes w pid)) w))"
  show ?thesis
    using assms validation_is_exact [of w pid]
      same_shape_pipes [OF reset_shape [of ?w pid RESET_INITIALIZATION]]
    by (auto simp: zpt_pipeline_validate_def Let_def fun_eq_iff split: if_splits)
qed

lemma validate_pipelines_effect:
  assumes "validate_pipelines ps w = (ret, w')" "ret \<ge> 0"
    and "\<forall>p \<in> set ps. \<not> pl_validated (w_pipes w p)"
  shows "ret = 0 \<and> distinct ps \<and>
    (\<forall>p. w_pipes w' p = (if p \<in> set ps then w_pipes w p\<lparr>pl_validated := True, pl_active := False\<rparr>
       else w_pipes w p))"
  using assms
proof (induction ps arbitrary: w)
  case Nil
  then show ?case by simp
next
  case (Cons p ps)
  obtain r1 w1 where v: "zpt_pipeline_validate p w = (r1, w1)" by (cases "zpt_pipeline_validate p w")
  note eff = pipeline_validate_effect [OF v]
  have r1: "r1 = 0" and rest: "validate_pipelines ps w1 = (ret, w')"
    using Cons.prems v eff by (auto split: if_splits)
  have notin: "p \<notin> set ps"
  proof
    assume "p \<in> set ps"
    then obtain xs ys where ps: "ps = xs @ p # ys" by (meson split_list)
    have again: "fst (validate_pipelines (xs @ p # ys) v) < 0"
      if "pl_validated (w_pipes v p)" for v :: "('a, 'b, 'c) world"
      using that
    proof (induction xs arbitrary: v)
      case Nil
      then show ?case by (simp add: zpt_pipeline_validate_def)
    next
      case (Cons x xs)
      obtain r2 w2 where v2: "zpt_pipeline_validate x v = (r2, w2)" by (cases "zpt_pipeline_validate x v")
      from pipeline_validate_effect [OF v2] Cons.prems have "pl_validated (w_pipes w2 p)" by auto
      then show ?case using Cons.IH [of w2] v2 by simp
    qed
    have "pl_validated (w_pipes w1 p)" using eff r1 by simp
    from again [OF this] rest ps Cons.prems(2) show False by simp
  qed
  have "\<forall>q \<in> set ps. \<not> pl_validated (w_pipes w1 q)"
    using Cons.prems(3) eff r1 notin by auto
  with Cons.IH [OF rest Cons.prems(2)] eff r1 notin show ?case by auto
qed

lemma validate_router_pipelines_fresh:
  "validate_router_pipelines r w previous ps \<ge> 0 \<Longrightarrow> \<forall>p \<in> set ps. \<not> pl_validated (w_pipes w p)"
  by (induction ps arbitrary: previous)
     (auto simp: Let_def validate_router_pipeline_def split: if_splits)

lemma router_validate_inv:
  assumes "zpt_router_validate r w = (ret, r', w')" "ret = 0"
  shows "router_inv r' w'"
proof -
  have ok: "\<not> router_validate_structure r w < 0" and fresh: "\<not> rt_validated r"
    using assms by (auto simp: zpt_router_validate_def split: if_splits)
  obtain r1 where v: "validate_pipelines (rt_pipelines r) w = (r1, w')" and "r1 \<ge> 0"
    and r': "r' = r\<lparr>active_pipeline_index := None, rt_validated := True, rt_active := False\<rparr>"
    using assms ok fresh by (auto simp: zpt_router_validate_def split: prod.splits if_splits)
  have idx: "default_pipeline_index r < length (rt_pipelines r)"
    using ok by (auto simp: router_validate_structure_def split: if_splits)
  have "validate_router_pipelines r w [] (rt_pipelines r) \<ge> 0"
    using ok by (auto simp: router_validate_structure_def split: if_splits)
  from validate_pipelines_effect [OF v \<open>r1 \<ge> 0\<close> validate_router_pipelines_fresh [OF this]] idx
  show ?thesis
    by (auto simp: router_inv_def r' zpt_router_active_pipeline_def)
qed

lemma router_activate_inv:
  assumes "router_inv r w" "zpt_router_activate r reason w = (ret, r', w')"
  shows "router_inv r' w' \<and> (ret = 0 \<longrightarrow> active_pipeline_index r' = Some (default_pipeline_index r))"
proof (cases "rt_active r")
  case True
  then show ?thesis using assms by (auto simp: zpt_router_activate_def router_inv_def)
next
  case False
  let ?p = "rt_pipelines r ! default_pipeline_index r"
  obtain r1 w1 where a: "zpt_pipeline_activate ?p reason w = (r1, w1)"
    by (cases "zpt_pipeline_activate ?p reason w")
  have "zpt_router_active_pipeline r = None" using False by (simp add: zpt_router_active_pipeline_def)
  then have "pipes.only (rt_pipelines r) w None" using assms(1) by (simp add: router_inv_only)
  moreover have "?p \<in> set (rt_pipelines r)" using assms(1) by (simp add: router_inv_def)
  ultimately have "r1 \<le> 0 \<and> pipes.only (rt_pipelines r) w1 (if r1 = 0 then Some ?p else None)"
    using a by (rule pipes.only_enter)
  then show ?thesis
    using assms a False
    by (auto simp: zpt_router_activate_def router_inv_only active_pipeline_at
        zpt_router_active_pipeline_def split: if_splits)
qed

lemma router_deactivate_inv:
  assumes "router_inv r w" "zpt_router_deactivate r now reason w = (ret, res, r', w')"
  shows "router_inv r' w' \<and> zpt_router_active_pipeline r' = None"
proof (cases "rt_active r")
  case False
  then show ?thesis
    using assms by (auto simp: zpt_router_deactivate_def router_inv_def zpt_router_active_pipeline_def)
next
  case True
  have inactive: "zpt_router_active_pipeline (r\<lparr>active_pipeline_index := None, rt_active := False\<rparr>) = None"
    by (simp add: zpt_router_active_pipeline_def)
  show ?thesis
  proof (cases "zpt_router_active_pipeline r")
    case None
    then show ?thesis
      using assms True inactive by (auto simp: zpt_router_deactivate_def router_inv_only)
  next
    case (Some p)
    obtain r1 res1 w1 where d: "zpt_pipeline_deactivate p now reason w = (r1, res1, w1)"
      by (cases "zpt_pipeline_deactivate p now reason w") auto
    have "pipes.only (rt_pipelines r) (pipe_leave now reason p w) None"
      using assms(1) Some by (intro pipes.only_leave) (simp add: router_inv_only)
    then show ?thesis
      using assms True inactive Some d
      by (auto simp: zpt_router_deactivate_def router_inv_only pipe_leave_def)
  qed
qed

lemma router_select_effect:
  assumes inv: "router_inv r w" and sel: "zpt_router_select r i now w = (ret, res, r', w')"
  shows "router_inv r' w' \<and> rt_active r' = rt_active r \<and> rt_pipelines r' = rt_pipelines r \<and>
    (rt_active r \<longrightarrow> i < length (rt_pipelines r) \<longrightarrow>
       active_pipeline_index r' = Some i \<or>
       ret < 0 \<and> (active_pipeline_index r' = active_pipeline_index r \<or> active_pipeline_index r' = None))"
proof (cases "i < length (rt_pipelines r) \<and> rt_active r \<and> active_pipeline_index r \<noteq> Some i")
  case False
  then show ?thesis using assms by (auto simp: zpt_router_select_def router_inv_def split: if_splits)
next
  case True
  let ?ps = "rt_pipelines r"
  let ?out = "zpt_router_active_pipeline r"
  let ?off = "case ?out of Some out \<Rightarrow> zpt_pipeline_deactivate out now RESET_PIPELINE_LEFT w
    | None \<Rightarrow> (0, clear_result, w)"
  obtain r1 res1 w1 where lv: "?off = (r1, res1, w1)" by (cases ?off) auto
  have only1: "pipes.only ?ps w1 None"
  proof (cases ?out)
    case None
    then show ?thesis using inv lv by (simp add: router_inv_only)
  next
    case (Some p)
    then have "pipes.only ?ps (pipe_leave now RESET_PIPELINE_LEFT p w) None"
      using inv by (intro pipes.only_leave) (simp add: router_inv_only)
    then show ?thesis using lv Some by (simp add: pipe_leave_def)
  qed
  obtain r2 w2 where ent: "zpt_pipeline_activate (?ps ! i) RESET_PIPELINE_ENTERED w1 = (r2, w2)"
    by (cases "zpt_pipeline_activate (?ps ! i) RESET_PIPELINE_ENTERED w1")
  have r2: "r2 \<le> 0" and only2: "pipes.only ?ps w2 (if r2 = 0 then Some (?ps ! i) else None)"
    using pipes.only_enter [OF only1 _ ent] True by auto
  have idx: "zpt_router_active_pipeline (r\<lparr>active_pipeline_index := Some j\<rparr>) = Some (?ps ! j)"
    if "j < length ?ps" for j
    using that True inv by (simp add: zpt_router_active_pipeline_def router_inv_def)
  note facts = inv [unfolded router_inv_only] True
  show ?thesis
  proof (cases "r2 < 0")
    case False
    then have "r' = r\<lparr>active_pipeline_index := Some i\<rparr>" "w' = w2"
      using sel facts lv ent by (auto simp: zpt_router_select_def Let_def)
    then show ?thesis
      using facts only2 r2 False idx by (simp add: router_inv_only)
  next
    case fail: True
    show ?thesis
    proof (cases ?out)
      case None
      then have "r' = r\<lparr>active_pipeline_index := None\<rparr>" "w' = w2" "ret < 0"
        using sel facts lv ent fail by (auto simp: zpt_router_select_def Let_def)
      then show ?thesis
        using facts only2 fail by (simp add: router_inv_only active_pipeline_at)
    next
      case (Some p)
      obtain r3 w3 where restored: "zpt_pipeline_activate p RESET_PIPELINE_ENTERED w2 = (r3, w3)"
        by (cases "zpt_pipeline_activate p RESET_PIPELINE_ENTERED w2")
      have "p \<in> set ?ps" using inv Some by (auto simp: router_inv_only pipes.only_def)
      then have r3: "r3 \<le> 0" and only3: "pipes.only ?ps w3 (if r3 = 0 then Some p else None)"
        using pipes.only_enter [OF _ _ restored, of ?ps] only2 fail by auto
      have out: "w' = w3 \<and> ret < 0 \<and> (if r3 < 0 then r' = r\<lparr>active_pipeline_index := None\<rparr>
          else r' = r\<lparr>active_pipeline_index := active_pipeline_index r\<rparr>)"
        using sel facts lv ent fail Some restored by (auto simp: zpt_router_select_def Let_def)
      then show ?thesis
        using facts only3 r3 Some by (cases "r3 < 0") (auto simp: router_inv_only active_pipeline_at)
    qed
  qed
qed

lemma router_traffic_inv:
  assumes "router_inv r w"
  shows "zpt_router_push r s w = (ret, res, w') \<Longrightarrow> router_inv r w'"
    and "zpt_router_flush r now w = (ret, res, w') \<Longrightarrow> router_inv r w'"
  using assms push_advances [THEN conjunct1, THEN same_shape_pipes]
    flush_advances [THEN conjunct1, THEN same_shape_pipes]
  by (fastforce simp: zpt_router_push_def zpt_router_flush_def router_inv_def
      split: if_splits option.splits)+

section \<open>Every reachable state\<close>

inductive router_step :: "zpt_router \<Rightarrow> ('c, 's, 'k) world \<Rightarrow> zpt_router \<Rightarrow> ('c, 's, 'k) world \<Rightarrow> bool" where
  activate: "zpt_router_activate r reason w = (ret, r', w') \<Longrightarrow> router_step r w r' w'"
| select: "zpt_router_select r i now w = (ret, res, r', w') \<Longrightarrow> router_step r w r' w'"
| deactivate: "zpt_router_deactivate r now reason w = (ret, res, r', w') \<Longrightarrow> router_step r w r' w'"
| push: "zpt_router_push r s w = (ret, res, w') \<Longrightarrow> router_step r w r w'"
| flush: "zpt_router_flush r now w = (ret, res, w') \<Longrightarrow> router_step r w r w'"

inductive router_reachable :: "zpt_router \<Rightarrow> ('c, 's, 'k) world \<Rightarrow> bool" where
  validated: "zpt_router_validate r0 w0 = (0, r, w) \<Longrightarrow> router_reachable r w"
| step: "router_reachable r w \<Longrightarrow> router_step r w r' w' \<Longrightarrow> router_reachable r' w'"

inductive_cases router_stepE: "router_step r w r' w'"

lemma router_step_inv: "router_step r w r' w' \<Longrightarrow> router_inv r w \<Longrightarrow> router_inv r' w'"
  by (erule router_stepE)
     (blast dest: router_activate_inv router_select_effect router_deactivate_inv router_traffic_inv)+

lemma router_reachable_inv: "router_reachable r w \<Longrightarrow> router_inv r w"
  by (induction rule: router_reachable.induct)
     (auto intro: router_validate_inv router_step_inv)

text \<open>Property C2. In every state a router reaches from its validation by activations, selections,
  deactivations, pushes and flushes in any order, with any outcome of the stages' and sinks'
  callbacks, exactly the pipeline \<open>zpt_router_active_pipeline\<close> returns is active: at most one
  pipeline handles input, and none does when the router says there is none.\<close>

theorem reachable_router_has_one_active_pipeline:
  assumes "router_reachable r w" "p \<in> set (rt_pipelines r)"
  shows "pl_active (w_pipes w p) = (zpt_router_active_pipeline r = Some p)"
  using router_reachable_inv [OF assms(1)] assms(2) by (simp add: router_inv_def)

text \<open>Property C3. Selecting a pipeline of an active router ends in one of three ways: the selected
  pipeline is the active one; or the selection failed, a negative code is returned, and the
  previous selection is restored; or restoring failed too and no pipeline is active. The router
  itself stays active in every case, so a later selection can recover.\<close>

theorem select_switches_or_rolls_back:
  assumes "router_reachable r w" "rt_active r" "i < length (rt_pipelines r)"
    and "zpt_router_select r i now w = (ret, res, r', w')"
  shows "rt_active r' \<and>
    (active_pipeline_index r' = Some i \<and> pl_active (w_pipes w' (rt_pipelines r ! i)) \<or>
     ret < 0 \<and> active_pipeline_index r' = active_pipeline_index r \<or>
     ret < 0 \<and> active_pipeline_index r' = None \<and>
       (\<forall>p \<in> set (rt_pipelines r). \<not> pl_active (w_pipes w' p)))"
proof -
  from router_select_effect [OF router_reachable_inv [OF assms(1)] assms(4)] assms(2,3)
  have inv: "router_inv r' w'" and same: "rt_active r'" "rt_pipelines r' = rt_pipelines r"
    and cases: "active_pipeline_index r' = Some i \<or>
       ret < 0 \<and> (active_pipeline_index r' = active_pipeline_index r \<or> active_pipeline_index r' = None)"
    by auto
  have "pl_active (w_pipes w' (rt_pipelines r ! i))" if "active_pipeline_index r' = Some i"
    using inv that same assms(3) by (auto simp: router_inv_def zpt_router_active_pipeline_def)
  moreover have "\<forall>p \<in> set (rt_pipelines r). \<not> pl_active (w_pipes w' p)"
    if "active_pipeline_index r' = None"
    using inv that same by (auto simp: router_inv_def zpt_router_active_pipeline_def)
  ultimately show ?thesis using cases same(1) by auto
qed

section \<open>A concrete router\<close>

definition two_pipes :: "(unit, nat, zpt_signal list) world" where
  "two_pipes = \<lparr>
     w_stages = (\<lambda>i. \<lparr>stg_stable_id = Some ''relay'', stg_api = Some relay_api, stg_config = None,
       stg_state = Some i, stg_owner = None, stg_deadline_ms = 0, stg_deadline_pending = False,
       stg_observer_callback = False, stg_observer_frame = False\<rparr>),
     w_heap = (\<lambda>_. 0),
     w_sinks = (\<lambda>_. \<lparr>snk_stable_id = Some ''recorder'', snk_api = Some recorder_api, snk_state = [],
       snk_owner = None\<rparr>),
     w_pipes = (\<lambda>i. \<lparr>pl_stable_id = Some (if i = 0 then ''cursor'' else ''scroll''),
       pl_input_kind = SIGNAL_NORMALIZED_MOTION,
       pl_stages = [i], pl_sink = i, pl_dispatch_budget = 8, pl_validated = False, pl_active = False,
       pl_observer = \<lparr>obs_input = False, obs_input_done = False, obs_flush = False,
         obs_flush_done = False, obs_lifecycle = False\<rparr>\<rparr>),
     w_log = []\<rparr>"

definition two_router :: zpt_router where
  "two_router = \<lparr>rt_stable_id = Some ''router'', rt_input_kind = SIGNAL_NORMALIZED_MOTION,
     rt_pipelines = [0, 1], default_pipeline_index = 0, active_pipeline_index = Some 0,
     rt_validated = False, rt_active = False\<rparr>"

lemmas two_defs = two_pipes_def two_router_def relay_api_def recorder_api_def Let_def store_defs

lemmas two_run = zpt_router_validate_def router_validate_structure_def validate_router_pipeline_def
  missing_id_def zpt_signal_kind_valid_def zpt_pipeline_validate_def validate_structure_def
  validate_pipeline_identity_def validate_pipeline_sink_def validate_stage_link_def
  validate_stage_api_def kind_accepted_def ZPT_SIGNAL_KIND_MASK_def stateful_def
  zpt_pipeline_reset_def reset_stage_def reset_sink_def own_stage_def put_state_def two_defs

definition two_started :: "zpt_router \<times> (unit, nat, zpt_signal list) world" where
  "two_started = (let (_, r, w) = zpt_router_validate two_router two_pipes in
     snd (zpt_router_activate r RESET_IDLE w))"

lemma two_validates: "fst (zpt_router_validate two_router two_pipes) = 0"
  by (simp add: two_run)

lemma two_started:
  "router_reachable (fst two_started) (snd two_started)" "rt_active (fst two_started)"
  "rt_pipelines (fst two_started) = [0, 1]"
  "zpt_router_active_pipeline (fst two_started) = Some 0"
proof -
  obtain r w where v: "zpt_router_validate two_router two_pipes = (0, r, w)"
    using two_validates by (cases "zpt_router_validate two_router two_pipes") auto
  obtain ret r1 w1 where a: "zpt_router_activate r RESET_IDLE w = (ret, r1, w1)"
    by (cases "zpt_router_activate r RESET_IDLE w") auto
  have start: "two_started = (r1, w1)" by (simp add: two_started_def v a)
  have "router_reachable r1 w1"
    using router_reachable.validated [OF v] router_step.activate [OF a] by (rule router_reachable.step)
  then show "router_reachable (fst two_started) (snd two_started)" by (simp add: start)
  show "rt_active (fst two_started)" "rt_pipelines (fst two_started) = [0, 1]"
    "zpt_router_active_pipeline (fst two_started) = Some 0"
    by (simp_all add: two_started_def two_run zpt_router_activate_def zpt_pipeline_activate_def
        activate_sink_def zpt_router_active_pipeline_def log_if_def)
qed

lemma reachable_router_has_one_active_pipeline_witness:
  "pl_active (w_pipes (snd two_started) 0) \<and> \<not> pl_active (w_pipes (snd two_started) 1)"
  using reachable_router_has_one_active_pipeline [OF two_started(1), of 0]
    reachable_router_has_one_active_pipeline [OF two_started(1), of 1] two_started
  by simp

lemma select_switches_or_rolls_back_witness:
  "rt_active (fst (snd (snd (zpt_router_select (fst two_started) 1 7 (snd two_started)))))"
proof -
  obtain ret res r' w' where "zpt_router_select (fst two_started) 1 7 (snd two_started) = (ret, res, r', w')"
    by (cases "zpt_router_select (fst two_started) 1 7 (snd two_started)") auto
  then show ?thesis
    using select_switches_or_rolls_back [OF two_started(1,2), of 1 7 ret res r' w'] two_started(3)
    by simp
qed

end
