(* ===== verification/Route_Override.thy ===== *)
theory Route_Override
  imports Zpt_Prelude "HOL-Library.Multiset"
begin

text \<open>
  Explicit route overrides (\<open>core/route_override.h\<close>, \<open>core/route_override.c\<close>): a fixed table of
  overrides keyed by key position, the newest press winning. The capacity is the length of the
  array; \<open>next_order\<close> is the 64-bit press counter.
\<close>

record zpt_route_override =
  position :: u32
  ov_pipeline_index :: nat
  order :: int
  ov_active :: bool

record zpt_route_override_table =
  overrides :: "zpt_route_override list option"
  next_order :: int

definition zero_override :: zpt_route_override where
  "zero_override = \<lparr>position = 0, ov_pipeline_index = 0, order = 0, ov_active = False\<rparr>"

definition zpt_route_override_table_init :: "zpt_route_override list option \<Rightarrow> zpt_route_override_table" where
  "zpt_route_override_table_init array =
     \<lparr>overrides = map_option (map (\<lambda>_. zero_override)) array, next_order = 0\<rparr>"

text \<open>The loop of \<open>zpt_route_override_press\<close>: the slot to write, from slot \<open>k\<close> on.\<close>

fun find_slot :: "u32 \<Rightarrow> zpt_route_override list \<Rightarrow> nat \<Rightarrow> nat option \<Rightarrow> nat option" where
  "find_slot pos [] k available = available"
| "find_slot pos (c # cs) k available =
     (if ov_active c \<and> position c = pos then Some k
      else find_slot pos cs (Suc k) (if \<not> ov_active c \<and> available = None then Some k else available))"

definition zpt_route_override_press ::
  "zpt_route_override_table \<Rightarrow> u32 \<Rightarrow> nat \<Rightarrow> int \<times> zpt_route_override_table" where
  "zpt_route_override_press table pos pipeline_index =
     (case overrides table of
        None \<Rightarrow> (- EINVAL, table)
      | Some os \<Rightarrow>
          (case find_slot pos os 0 None of
             None \<Rightarrow> (- ENOSPC, table)
           | Some k \<Rightarrow>
               let n = u64 (next_order table + 1) in
               (0, \<lparr>overrides = Some (os[k := \<lparr>position = pos, ov_pipeline_index = pipeline_index,
                      order = n, ov_active = True\<rparr>]), next_order = n\<rparr>)))"

fun release_first :: "u32 \<Rightarrow> zpt_route_override list \<Rightarrow> zpt_route_override list" where
  "release_first pos [] = []"
| "release_first pos (c # cs) =
     (if ov_active c \<and> position c = pos then c\<lparr>ov_active := False\<rparr> # cs else c # release_first pos cs)"

definition zpt_route_override_release ::
  "zpt_route_override_table \<Rightarrow> u32 \<Rightarrow> int \<times> zpt_route_override_table" where
  "zpt_route_override_release table pos =
     (case overrides table of
        None \<Rightarrow> (- EINVAL, table)
      | Some os \<Rightarrow> (0, table\<lparr>overrides := Some (release_first pos os)\<rparr>))"

fun newest :: "zpt_route_override option \<Rightarrow> zpt_route_override list \<Rightarrow> zpt_route_override option" where
  "newest selected [] = selected"
| "newest selected (c # cs) =
     newest (if ov_active c \<and> (case selected of None \<Rightarrow> True | Some s \<Rightarrow> order c > order s)
             then Some c else selected) cs"

definition zpt_route_override_selected :: "zpt_route_override_table \<Rightarrow> nat option" where
  "zpt_route_override_selected table =
     (case overrides table of None \<Rightarrow> None | Some os \<Rightarrow> map_option ov_pipeline_index (newest None os))"

section \<open>The abstract table\<close>

text \<open>The keys held and their routes, newest press first.\<close>

type_synonym held = "(u32 \<times> nat) list"

definition hold :: "nat \<Rightarrow> u32 \<Rightarrow> nat \<Rightarrow> held \<Rightarrow> int \<times> held" where
  "hold capacity pos i h =
     (let others = filter (\<lambda>x. fst x \<noteq> pos) h in
      if length others = capacity then (- ENOSPC, h) else (0, (pos, i) # others))"

definition unhold :: "u32 \<Rightarrow> held \<Rightarrow> held" where
  "unhold pos h = filter (\<lambda>x. fst x \<noteq> pos) h"

definition front :: "held \<Rightarrow> nat option" where
  "front h = (case h of [] \<Rightarrow> None | x # _ \<Rightarrow> Some (snd x))"

text \<open>The active overrides, newest first, as records of the table.\<close>

definition listing :: "zpt_route_override list \<Rightarrow> int \<Rightarrow> zpt_route_override list \<Rightarrow> bool" where
  "listing os n hs \<longleftrightarrow> mset hs = filter_mset ov_active (mset os) \<and>
     sorted_wrt (\<lambda>a b. order b < order a) hs \<and> distinct (map position hs) \<and>
     (\<forall>h \<in> set hs. order h \<le> n)"

definition as_held :: "zpt_route_override list \<Rightarrow> held" where
  "as_held hs = map (\<lambda>x. (position x, ov_pipeline_index x)) hs"

definition refines :: "zpt_route_override_table \<Rightarrow> nat \<Rightarrow> held \<Rightarrow> bool" where
  "refines t capacity h \<longleftrightarrow> (\<exists>os hs. overrides t = Some os \<and> length os = capacity \<and>
     listing os (next_order t) hs \<and> h = as_held hs)"

lemma listing_set: "listing os n hs \<Longrightarrow> set hs = {x \<in> set os. ov_active x}"
proof -
  assume "listing os n hs"
  then have "set_mset (mset hs) = set_mset (filter_mset ov_active (mset os))" by (simp add: listing_def)
  then show ?thesis by simp
qed

lemma find_slot_spec:
  assumes "\<forall>c \<in> set pre. \<not> (ov_active c \<and> position c = pos)"
    and "case available of None \<Rightarrow> \<forall>c \<in> set pre. ov_active c
         | Some k \<Rightarrow> k < length pre \<and> \<not> ov_active (pre ! k)"
  shows "case find_slot pos suf (length pre) available of
     None \<Rightarrow> \<forall>c \<in> set (pre @ suf). ov_active c \<and> position c \<noteq> pos
   | Some k \<Rightarrow> k < length (pre @ suf) \<and>
       (ov_active ((pre @ suf) ! k) \<and> position ((pre @ suf) ! k) = pos \<or>
        \<not> ov_active ((pre @ suf) ! k) \<and> (\<forall>c \<in> set (pre @ suf). \<not> (ov_active c \<and> position c = pos)))"
  using assms
proof (induction suf arbitrary: pre available)
  case Nil
  then show ?case by (cases available) auto
next
  case (Cons c cs)
  show ?case
  proof (cases "ov_active c \<and> position c = pos")
    case True
    then show ?thesis by simp
  next
    case False
    let ?available = "if \<not> ov_active c \<and> available = None then Some (length pre) else available"
    have pre: "\<forall>c \<in> set (pre @ [c]). \<not> (ov_active c \<and> position c = pos)"
      using False Cons.prems(1) by auto
    have available: "case ?available of None \<Rightarrow> \<forall>c \<in> set (pre @ [c]). ov_active c
         | Some k \<Rightarrow> k < length (pre @ [c]) \<and> \<not> ov_active ((pre @ [c]) ! k)"
      using Cons.prems(2) by (cases available) (auto simp: nth_append)
    have step: "find_slot pos (c # cs) (length pre) available =
        find_slot pos cs (length (pre @ [c])) ?available"
      using False by auto
    have app: "pre @ c # cs = (pre @ [c]) @ cs" by simp
    show ?thesis unfolding step app by (rule Cons.IH [OF pre available])
  qed
qed

lemma newest_spec:
  "case newest sel os of
     None \<Rightarrow> sel = None \<and> (\<forall>c \<in> set os. \<not> ov_active c)
   | Some m \<Rightarrow> (sel = Some m \<or> m \<in> set os \<and> ov_active m) \<and>
       (\<forall>s. sel = Some s \<longrightarrow> order s \<le> order m) \<and>
       (\<forall>c \<in> set os. ov_active c \<longrightarrow> order c \<le> order m)"
proof (induction os arbitrary: sel)
  case Nil
  then show ?case by (cases sel) auto
next
  case (Cons c cs)
  let ?sel = "if ov_active c \<and> (case sel of None \<Rightarrow> True | Some s \<Rightarrow> order c > order s) then Some c else sel"
  have step: "newest sel (c # cs) = newest ?sel cs" by simp
  have sel: "case ?sel of None \<Rightarrow> sel = None \<and> \<not> ov_active c
    | Some s \<Rightarrow> (sel = Some s \<or> s = c \<and> ov_active c) \<and> (\<forall>s0. sel = Some s0 \<longrightarrow> order s0 \<le> order s) \<and>
        (ov_active c \<longrightarrow> order c \<le> order s)"
    by (cases sel) auto
  show ?case
  proof (cases "newest ?sel cs")
    case None
    then show ?thesis unfolding step using Cons.IH [of ?sel] sel by (auto simp del: newest.simps)
  next
    case (Some m)
    then show ?thesis
      unfolding step using Cons.IH [of ?sel] sel
      by (cases ?sel) (force simp del: newest.simps)+
  qed
qed

lemma newest_listing:
  assumes "listing os n hs"
  shows "newest None os = (case hs of [] \<Rightarrow> None | h # _ \<Rightarrow> Some h)"
proof (cases "newest None os")
  case None
  then have "set hs = {}"
    using newest_spec [of None os] listing_set [OF assms] by auto
  then show ?thesis using None by simp
next
  case (Some m)
  then have m: "m \<in> set hs" "\<forall>c \<in> set hs. order c \<le> order m"
    using newest_spec [of None os] listing_set [OF assms] by auto
  then obtain h rest where hs: "hs = h # rest" by (cases hs) auto
  have "\<forall>x \<in> set rest. order x < order h" using assms hs by (simp add: listing_def)
  then have "m = h" using m hs by force
  then show ?thesis using Some hs by simp
qed

section \<open>Refinement\<close>

lemma listing_unique:
  assumes "listing os n hs" "x \<in> set os" "ov_active x" "position x = pos"
  shows "mset hs = add_mset x (mset (filter (\<lambda>h. position h \<noteq> pos) hs))"
proof -
  have "x \<in> set hs" using assms listing_set [OF assms(1)] by auto
  then obtain xs ys where hs: "hs = xs @ x # ys" by (meson split_list)
  have "\<forall>y \<in> set xs \<union> set ys. position y \<noteq> pos"
    using assms hs by (auto simp: listing_def image_iff)
  then have "filter (\<lambda>h. position h \<noteq> pos) xs = xs" "filter (\<lambda>h. position h \<noteq> pos) ys = ys"
    by (auto simp: filter_id_conv)
  then show ?thesis using assms hs by simp
qed

lemma listing_absent:
  assumes "listing os n hs" "\<forall>c \<in> set os. \<not> (ov_active c \<and> position c = pos)"
  shows "filter (\<lambda>h. position h \<noteq> pos) hs = hs"
  using assms listing_set [OF assms(1)] by (auto simp: filter_id_conv)

lemma listing_filter:
  "listing os n hs \<Longrightarrow> sorted_wrt (\<lambda>a b. order b < order a) (filter P hs) \<and>
     distinct (map position (filter P hs)) \<and> (\<forall>h \<in> set (filter P hs). order h \<le> n)"
  by (auto simp: listing_def sorted_wrt_filter distinct_map intro: inj_on_subset)

lemma as_held_filter: "filter (\<lambda>x. fst x \<noteq> pos) (as_held hs) = as_held (filter (\<lambda>h. position h \<noteq> pos) hs)"
  by (simp add: as_held_def filter_map comp_def)

lemma press_listing:
  assumes l: "listing os n hs" and "find_slot pos os 0 None = Some k"
  shows "k < length os \<and> listing (os[k := \<lparr>position = pos, ov_pipeline_index = i, order = n + 1, ov_active = True\<rparr>]) (n + 1)
    (\<lparr>position = pos, ov_pipeline_index = i, order = n + 1, ov_active = True\<rparr> # filter (\<lambda>h. position h \<noteq> pos) hs)"
proof -
  let ?new = "\<lparr>position = pos, ov_pipeline_index = i, order = n + 1, ov_active = True\<rparr>"
  let ?rest = "filter (\<lambda>h. position h \<noteq> pos) hs"
  have k: "k < length os" and slot: "ov_active (os ! k) \<and> position (os ! k) = pos \<or>
        \<not> ov_active (os ! k) \<and> (\<forall>c \<in> set os. \<not> (ov_active c \<and> position c = pos))"
    using find_slot_spec [of "[]" pos None os] assms by auto
  have "filter_mset ov_active (mset (os[k := ?new])) = add_mset ?new (mset ?rest)"
  proof (cases "ov_active (os ! k)")
    case True
    then have "mset hs = add_mset (os ! k) (mset ?rest)"
      using l slot k by (intro listing_unique) auto
    then have "filter_mset ov_active (mset os) = add_mset (os ! k) (mset ?rest)"
      using l by (simp add: listing_def del: mset_filter)
    then show ?thesis using k True by (simp add: mset_update filter_diff_mset del: mset_filter)
  next
    case False
    then have "?rest = hs" using l slot by (intro listing_absent) auto
    then show ?thesis using l k False by (simp add: mset_update filter_diff_mset listing_def)
  qed
  then show ?thesis
    using k listing_filter [OF l, of "\<lambda>h. position h \<noteq> pos"]
    by (auto simp: listing_def)
qed

lemma release_first_filter:
  assumes "length (filter (\<lambda>x. ov_active x \<and> position x = pos) os) \<le> 1"
  shows "filter_mset ov_active (mset (release_first pos os)) =
    filter_mset (\<lambda>x. ov_active x \<and> position x \<noteq> pos) (mset os)"
  using assms
proof (induction os)
  case (Cons c cs)
  show ?case
  proof (cases "ov_active c \<and> position c = pos")
    case True
    then have "\<forall>x \<in> set cs. \<not> (ov_active x \<and> position x = pos)"
      using Cons.prems by (simp add: filter_empty_conv)
    then have "filter_mset ov_active (mset cs) = filter_mset (\<lambda>x. ov_active x \<and> position x \<noteq> pos) (mset cs)"
      by (intro filter_mset_cong) auto
    then show ?thesis using True by simp
  next
    case False
    then have "filter_mset ov_active (mset (release_first pos cs)) =
        filter_mset (\<lambda>x. ov_active x \<and> position x \<noteq> pos) (mset cs)"
      using Cons by auto
    then show ?thesis using False by auto
  qed
qed simp

lemma distinct_replicate_le: "distinct (replicate m x) \<Longrightarrow> m \<le> 1"
  by (cases m; cases "m - 1") auto

lemma release_listing:
  assumes "listing os n hs"
  shows "listing (release_first pos os) n (filter (\<lambda>h. position h \<noteq> pos) hs)"
proof -
  have "mset (filter (\<lambda>x. position x = pos) hs) = mset (filter (\<lambda>x. ov_active x \<and> position x = pos) os)"
    using assms by (simp add: listing_def filter_filter_mset conj_commute)
  then have "length (filter (\<lambda>x. ov_active x \<and> position x = pos) os) = length (filter (\<lambda>x. position x = pos) hs)"
    by (metis size_mset)
  also have "\<dots> \<le> 1"
  proof -
    have "distinct (map position (filter (\<lambda>x. position x = pos) hs))"
      using assms by (simp add: listing_def distinct_map_filter)
    moreover have "map position (filter (\<lambda>x. position x = pos) hs) = replicate (length (filter (\<lambda>x. position x = pos) hs)) pos"
      by (rule replicate_eqI) auto
    ultimately have "distinct (replicate (length (filter (\<lambda>x. position x = pos) hs)) pos)" by simp
    then show ?thesis by (rule distinct_replicate_le)
  qed
  finally have "filter_mset ov_active (mset (release_first pos os)) =
      filter_mset (\<lambda>x. ov_active x \<and> position x \<noteq> pos) (mset os)"
    by (rule release_first_filter)
  then show ?thesis
    using assms listing_filter [OF assms, of "\<lambda>h. position h \<noteq> pos"]
    by (simp add: listing_def filter_filter_mset conj_commute)
qed

lemma length_release_first [simp]: "length (release_first pos os) = length os"
  by (induction os) auto

lemma refines_init: "refines (zpt_route_override_table_init (Some array)) (length array) []"
  by (auto simp: refines_def zpt_route_override_table_init_def listing_def as_held_def zero_override_def
      intro!: exI [of _ "[]"])

lemma refines_selected: "refines t capacity h \<Longrightarrow> zpt_route_override_selected t = front h"
  by (auto simp: refines_def zpt_route_override_selected_def newest_listing front_def as_held_def
      split: list.split)

lemma refines_release:
  "refines t capacity h \<Longrightarrow> zpt_route_override_release t pos = (r, t') \<Longrightarrow>
     r = 0 \<and> refines t' capacity (unhold pos h) \<and> next_order t' = next_order t"
  using release_listing
  by (fastforce simp: refines_def zpt_route_override_release_def unhold_def as_held_filter)

lemma refines_press:
  assumes ref: "refines t capacity h" and "zpt_route_override_press t pos i = (r, t')"
    and "0 \<le> next_order t" "next_order t < UINT64_MAX"
  shows "r = fst (hold capacity pos i h) \<and> refines t' capacity (snd (hold capacity pos i h)) \<and>
    0 \<le> next_order t' \<and> next_order t' \<le> next_order t + 1"
proof -
  obtain os hs where os: "overrides t = Some os" "length os = capacity" "h = as_held hs"
    and l: "listing os (next_order t) hs"
    using ref by (auto simp: refines_def)
  let ?rest = "filter (\<lambda>h. position h \<noteq> pos) hs"
  show ?thesis
  proof (cases "find_slot pos os 0 None")
    case None
    then have full: "\<forall>c \<in> set os. ov_active c \<and> position c \<noteq> pos"
      using find_slot_spec [of "[]" pos None os] by simp
    then have "?rest = hs" using l by (intro listing_absent) auto
    moreover have "filter_mset ov_active (mset os) = mset os"
      using full by (simp add: filter_mset_eq_conv)
    then have "length hs = capacity"
      using l os(2) by (metis listing_def size_mset)
    ultimately have "hold capacity pos i h = (- ENOSPC, h)"
      by (simp add: hold_def os as_held_filter) (simp add: as_held_def)
    then show ?thesis using assms None os l by (auto simp: zpt_route_override_press_def refines_def)
  next
    case (Some k)
    let ?n = "next_order t + 1"
    let ?new = "\<lparr>position = pos, ov_pipeline_index = i, order = ?n, ov_active = True\<rparr>"
    note pl = press_listing [OF l Some, of i]
    have "size (mset (?new # ?rest)) \<le> size (mset (os[k := ?new]))"
      using pl by (metis listing_def multiset_filter_subset size_mset_mono)
    then have "length (?new # ?rest) \<le> length (os[k := ?new])" unfolding size_mset .
    then have "length ?rest < capacity" using os by simp
    then have "hold capacity pos i h = (0, as_held (?new # ?rest))"
      by (simp add: hold_def os as_held_filter) (simp add: as_held_def)
    moreover have "u64 ?n = ?n" using assms(3,4) by (simp add: in_u64_def)
    then have "r = 0 \<and> t' = \<lparr>overrides = Some (os[k := ?new]), next_order = ?n\<rparr>"
      using assms(2) Some os(1) by (simp add: zpt_route_override_press_def Let_def)
    moreover have "refines \<lparr>overrides = Some (os[k := ?new]), next_order = ?n\<rparr> capacity (as_held (?new # ?rest))"
      unfolding refines_def using pl os(2)
      by (intro exI [of _ "os[k := ?new]"] exI [of _ "?new # ?rest"]) simp
    ultimately show ?thesis using assms(3) by simp
  qed
qed

datatype override_event = Press u32 nat | Release u32

fun table_run :: "override_event list \<Rightarrow> zpt_route_override_table \<Rightarrow> int list \<times> zpt_route_override_table" where
  "table_run [] t = ([], t)"
| "table_run (Press p i # es) t =
     (let (r, t) = zpt_route_override_press t p i; (rs, t) = table_run es t in (r # rs, t))"
| "table_run (Release p # es) t =
     (let (r, t) = zpt_route_override_release t p; (rs, t) = table_run es t in (r # rs, t))"

fun held_run :: "nat \<Rightarrow> override_event list \<Rightarrow> held \<Rightarrow> int list \<times> held" where
  "held_run capacity [] h = ([], h)"
| "held_run capacity (Press p i # es) h =
     (let (r, h) = hold capacity p i h; (rs, h) = held_run capacity es h in (r # rs, h))"
| "held_run capacity (Release p # es) h =
     (let (rs, h) = held_run capacity es (unhold p h) in (0 # rs, h))"

lemma runs_agree:
  assumes "refines t capacity h" "0 \<le> next_order t" "next_order t + int (length es) \<le> UINT64_MAX"
  shows "fst (table_run es t) = fst (held_run capacity es h) \<and>
    zpt_route_override_selected (snd (table_run es t)) = front (snd (held_run capacity es h))"
  using assms
proof (induction es arbitrary: t h)
  case Nil
  then show ?case by (simp add: refines_selected)
next
  case (Cons e es)
  show ?case
  proof (cases e)
    case (Press p i)
    obtain r t' where t': "zpt_route_override_press t p i = (r, t')"
      by (cases "zpt_route_override_press t p i")
    obtain r0 h' where h': "hold capacity p i h = (r0, h')" by (cases "hold capacity p i h")
    have "r = r0 \<and> refines t' capacity h' \<and> 0 \<le> next_order t' \<and> next_order t' \<le> next_order t + 1"
      using refines_press [OF Cons.prems(1) t' Cons.prems(2)] Cons.prems(3) h' by simp
    then show ?thesis
      using Cons.IH [of t' h'] Cons.prems(3) by (simp add: Press t' h' case_prod_unfold Let_def)
  next
    case (Release p)
    obtain r t' where t': "zpt_route_override_release t p = (r, t')"
      by (cases "zpt_route_override_release t p")
    from refines_release [OF Cons.prems(1) t'] show ?thesis
      using Cons.IH [of t' "unhold p h"] Cons.prems by (simp add: Release t' case_prod_unfold Let_def)
  qed
qed

text \<open>Property C27. Over any sequence of fewer than 2^64 presses and releases from an initialised
  table, the override table behaves as the list of held keys, newest press first, bounded by its
  capacity: pressing a held key moves it to the front with its new route, a new key is refused
  with \<open>-ENOSPC\<close> only when the capacity is taken by other held keys, releasing a key reveals the
  next newest one, and the selected route is the front of the list.\<close>

theorem overrides_are_newest_first:
  assumes "int (length es) \<le> UINT64_MAX"
  shows "fst (table_run es (zpt_route_override_table_init (Some array))) =
      fst (held_run (length array) es []) \<and>
    zpt_route_override_selected (snd (table_run es (zpt_route_override_table_init (Some array)))) =
      front (snd (held_run (length array) es []))"
  using runs_agree [OF refines_init, of array es] assms
  by (simp add: zpt_route_override_table_init_def)

lemma overrides_are_newest_first_witness:
  "let events = [Press 4 0, Press 9 1, Press 2 2, Press 4 3, Release 4]; table =
       zpt_route_override_table_init (Some [zero_override, zero_override])
   in fst (table_run events table) = [0, 0, - ENOSPC, 0, 0] \<and>
      zpt_route_override_selected (snd (table_run events table)) = Some 1"
  using overrides_are_newest_first
    [of "[Press 4 0, Press 9 1, Press 2 2, Press 4 3, Release 4]" "[zero_override, zero_override]"]
  by (simp add: hold_def unhold_def front_def)

end
