(* ===== verification/Orientation.thy ===== *)
theory Orientation
  imports Stage_Program
begin

text \<open>
  The orthogonal mounting transform of a sensor (\<open>stage/orientation.h\<close>, \<open>stage/orientation.c\<close>):
  an optional swap of the axes, then optional inversions, exact and all or nothing. An output
  that is not written is \<open>None\<close>.
\<close>

record zpt_orientation_config =
  swap_xy :: bool
  invert_x :: bool
  invert_y :: bool

definition invert_if_requested :: "int \<Rightarrow> bool \<Rightarrow> int \<times> int option" where
  "invert_if_requested value invert =
     (if invert \<and> value = INT64_MIN then (- ERANGE, None)
      else (0, Some (if invert then i64 (- value) else value)))"

definition zpt_orientation_apply ::
  "zpt_orientation_config option \<Rightarrow> int \<times> int \<Rightarrow> int \<times> (int \<times> int) option" where
  "zpt_orientation_apply config_opt input =
     (case config_opt of
        None \<Rightarrow> (- EINVAL, None)
      | Some config \<Rightarrow>
          let x = (if swap_xy config then snd input else fst input);
              y = (if swap_xy config then fst input else snd input);
              (ret, cx) = invert_if_requested x (invert_x config)
          in if ret < 0 then (ret, None)
             else
               let (ret, cy) = invert_if_requested y (invert_y config)
               in if ret < 0 then (ret, None) else (0, Some (the cx, the cy)))"

definition orthogonal_orientation_process :: "(zpt_orientation_config, unit) zpt_stage_process" where
  "orthogonal_orientation_process config st now s =
     (let (ret, out) = zpt_orientation_apply config (raw_motion s) in
      if ret < 0 then Return ret st
      else emit_return (s\<lparr>data := RawMotion (fst (the out)) (snd (the out))\<rparr>) st)"

definition zpt_orthogonal_orientation_stage_api :: "(zpt_orientation_config, unit) zpt_stage_api" where
  "zpt_orthogonal_orientation_stage_api = \<lparr>strategy_id = Some ''orthogonal-orientation'',
     accepted_kinds = ZPT_SIGNAL_KIND_MASK SIGNAL_RAW_MOTION, output_kind = SIGNAL_RAW_MOTION,
     api_flags = 0, api_process = Some orthogonal_orientation_process, api_flush = None,
     api_activate = None, api_deactivate = None, api_reset = None\<rparr>"

section \<open>The transform\<close>

text \<open>What a mounting does to a vector, and the mounting that undoes it.\<close>

definition mount :: "zpt_orientation_config \<Rightarrow> int \<times> int \<Rightarrow> int \<times> int" where
  "mount c v =
     (let (x, y) = (if swap_xy c then (snd v, fst v) else v)
      in (if invert_x c then - x else x, if invert_y c then - y else y))"

definition unmount :: "zpt_orientation_config \<Rightarrow> zpt_orientation_config" where
  "unmount c = \<lparr>swap_xy = swap_xy c, invert_x = if swap_xy c then invert_y c else invert_x c,
     invert_y = if swap_xy c then invert_x c else invert_y c\<rparr>"

lemma unmount_mount: "mount (unmount c) (mount c v) = v"
  by (cases v) (simp add: mount_def unmount_def)

lemma orientation_apply_cases:
  assumes "in_i64 (fst v)" "in_i64 (snd v)"
  shows "zpt_orientation_apply (Some c) v =
    (if in_i64 (fst (mount c v)) \<and> in_i64 (snd (mount c v)) then (0, Some (mount c v)) else (- ERANGE, None))"
  using assms
  by (cases v) (auto simp: zpt_orientation_apply_def invert_if_requested_def mount_def in_i64_def i64_def)

text \<open>Orientation is exact and atomic: it produces the mounted vector when both
  components are representable and otherwise fails with \<open>-ERANGE\<close> writing nothing; and it loses
  nothing, since the inverse mounting recovers the sensor's counts from what it produced.\<close>

theorem orientation_is_exact_and_reversible:
  assumes "in_i64 (fst v)" "in_i64 (snd v)"
  shows "zpt_orientation_apply (Some c) v =
      (if in_i64 (fst (mount c v)) \<and> in_i64 (snd (mount c v)) then (0, Some (mount c v)) else (- ERANGE, None)) \<and>
    (in_i64 (fst (mount c v)) \<longrightarrow> in_i64 (snd (mount c v)) \<longrightarrow>
      zpt_orientation_apply (Some (unmount c)) (mount c v) = (0, Some v))"
  using assms by (simp add: orientation_apply_cases unmount_mount)

lemma orientation_is_exact_and_reversible_witness:
  "let c = \<lparr>swap_xy = True, invert_x = True, invert_y = False\<rparr> in
   zpt_orientation_apply (Some c) (3, 5) = (0, Some (- 5, 3)) \<and>
   zpt_orientation_apply (Some (unmount c)) (- 5, 3) = (0, Some (3, 5))"
  using orientation_is_exact_and_reversible [of "(3, 5)" "\<lparr>swap_xy = True, invert_x = True, invert_y = False\<rparr>"]
  by (simp add: mount_def in_i64_def)

section \<open>The stage contract\<close>

interpretation orientation: stage_contract zpt_orthogonal_orientation_stage_api "\<lambda>c. True" "\<lambda>c st. True"
proof (unfold_locales, goal_cases)
  case (1 c st s f now)
  have k: "kind s = SIGNAL_RAW_MOTION"
    using 1(3) by (rule accepts_mask) (simp_all add: zpt_orthogonal_orientation_stage_api_def zpt_signal_kind_valid_def)
  then obtain x y where d: "data s = RawMotion x y" "in_i64 x" "in_i64 y"
    using signal_ok_cases(1) [OF 1(4)] by blast
  have f: "f = orthogonal_orientation_process"
    using 1(5) by (simp add: zpt_orthogonal_orientation_stage_api_def)
  show ?case
  proof (cases c)
    case None
    then show ?thesis by (simp add: f orthogonal_orientation_process_def zpt_orientation_apply_def)
  next
    case (Some config)
    then show ?thesis
      using orientation_apply_cases [of "(x, y)" config] d k 1(4)
      by (auto simp: f orthogonal_orientation_process_def signal_ok_def
          zpt_orthogonal_orientation_stage_api_def)
  qed
qed (simp_all add: zpt_orthogonal_orientation_stage_api_def)

end
