(* ===== verification/Resolution_Normalize.thy ===== *)
theory Resolution_Normalize
  imports Orientation
begin

text \<open>
  Sensor counts to signed Q16 millimetres (\<open>stage/resolution_normalize.h\<close>,
  \<open>stage/resolution_normalize.c\<close>): one multiplication, one rounded division.
\<close>

abbreviation TENTHS_OF_MILLIMETERS_PER_INCH :: int where "TENTHS_OF_MILLIMETERS_PER_INCH \<equiv> 254"

definition divide_round_nearest :: "int \<Rightarrow> int \<Rightarrow> int" where
  "divide_round_nearest numerator denominator =
     (let quotient = numerator sdiv denominator;
          remainder = numerator smod denominator;
          threshold = (denominator + 1) sdiv 2
      in if remainder \<ge> threshold then i64 (quotient + 1)
         else if remainder \<le> - threshold then i64 (quotient - 1)
         else quotient)"

definition zpt_counts_to_millimeters :: "int \<Rightarrow> u16 \<Rightarrow> int \<times> int option" where
  "zpt_counts_to_millimeters counts cpi =
     (if cpi = 0 then (- EINVAL, None)
      else
        let factor = TENTHS_OF_MILLIMETERS_PER_INCH * FIXED_ONE in
        if counts > INT64_MAX sdiv factor \<or> counts < INT64_MIN sdiv factor then (- ERANGE, None)
        else (0, Some (divide_round_nearest (i64 (counts * factor)) (uint cpi * 10))))"

definition resolution_normalize_process :: "(unit, unit) zpt_stage_process" where
  "resolution_normalize_process config st now s =
     (let (ret, x) = zpt_counts_to_millimeters (fst (raw_motion s)) (resolution_cpi (metadata s)) in
      if ret < 0 then Return ret st
      else
        let (ret, y) = zpt_counts_to_millimeters (snd (raw_motion s)) (resolution_cpi (metadata s)) in
        if ret < 0 then Return ret st
        else emit_return (s\<lparr>kind := SIGNAL_NORMALIZED_MOTION, data := FixedVector (the x) (the y)\<rparr>) st)"

definition zpt_resolution_normalize_stage_api :: "(unit, unit) zpt_stage_api" where
  "zpt_resolution_normalize_stage_api = \<lparr>strategy_id = Some ''resolution-normalize-mm'',
     accepted_kinds = ZPT_SIGNAL_KIND_MASK SIGNAL_RAW_MOTION, output_kind = SIGNAL_NORMALIZED_MOTION,
     api_flags = 0, api_process = Some resolution_normalize_process, api_flush = None,
     api_activate = None, api_deactivate = None, api_reset = None\<rparr>"

section \<open>Correct rounding\<close>

text \<open>The nearest integer to \<open>n / d\<close>, ties away from zero.\<close>

definition round_half_away :: "int \<Rightarrow> int \<Rightarrow> int" where
  "round_half_away n d = sgn n * ((2 * \<bar>n\<bar> + d) div (2 * d))"

lemma round_half_away_bound:
  assumes "0 < d"
  shows "\<bar>2 * (round_half_away n d * d - n)\<bar> \<le> d"
proof -
  have nonneg: "\<bar>2 * (((2 * a + d) div (2 * d)) * d - a)\<bar> \<le> d" for a
  proof -
    obtain q r where "(2 * a + d) div (2 * d) = q" "2 * a + d = q * (2 * d) + r" "0 \<le> r" "r < 2 * d"
      using assms by (auto intro: div_mod_obtain [of "2 * d" "2 * a + d"])
    then show ?thesis by (simp add: abs_le_iff algebra_simps)
  qed
  obtain Q where Q: "(2 * \<bar>n\<bar> + d) div (2 * d) = Q" by simp
  have "\<bar>2 * (Q * d - \<bar>n\<bar>)\<bar> \<le> d" using nonneg [of "\<bar>n\<bar>"] unfolding Q .
  then show ?thesis
    unfolding round_half_away_def Q by (auto simp: sgn_if abs_if split: if_splits)
qed

lemma round_nonneg:
  assumes "0 < c" "0 \<le> (a :: int)"
  shows "(2 * a + 2 * c) div (2 * (2 * c)) = (if c \<le> a mod (2 * c) then a div (2 * c) + 1 else a div (2 * c))"
proof -
  obtain q r where qr: "a div (2 * c) = q" "a mod (2 * c) = r" and a: "a = q * (2 * c) + r"
    and r: "0 \<le> r" "r < 2 * c"
    using assms by (auto intro: div_mod_obtain [of "2 * c" a])
  have "(2 * a + 2 * c) div (2 * (2 * c)) = (a + c) div (2 * c)"
    using div_mult_mult1 [of 2 "a + c" "2 * c"] by (simp add: algebra_simps)
  also have "\<dots> = ((r + c) + q * (2 * c)) div (2 * c)" unfolding a by (simp add: algebra_simps)
  also have "\<dots> = (r + c) div (2 * c) + q" using assms by (subst div_mult_self1) simp_all
  also have "(r + c) div (2 * c) = (if c \<le> r then 1 else 0)"
    using r assms le_div_iff_mult_le [of "2 * c" 1 "r + c"] div_less_iff_less_mult' [of "2 * c" "r + c" 2]
      le_div_iff_mult_le [of "2 * c" 0 "r + c"]
    by auto
  finally show ?thesis by (simp add: qr)
qed

lemma divide_round_nearest_correct:
  assumes "0 < c" "in_i64 n" "10 \<le> 2 * c"
  shows "divide_round_nearest n (2 * c) = round_half_away n (2 * c) \<and> in_i64 (divide_round_nearest n (2 * c))"
proof -
  have threshold: "(2 * c + 1) sdiv 2 = c" using assms by (simp add: sdiv_nonneg)
  obtain q r where qr: "\<bar>n\<bar> div (2 * c) = q" "\<bar>n\<bar> mod (2 * c) = r" and n: "\<bar>n\<bar> = q * (2 * c) + r"
    and r: "0 \<le> r" "r < 2 * c"
    using assms by (auto intro: div_mod_obtain [of "2 * c" "\<bar>n\<bar>"])
  have q0: "0 \<le> q" unfolding qr(1) [symmetric] using assms by (simp add: pos_imp_zdiv_nonneg_iff)
  have "q * 10 \<le> q * (2 * c)" using q0 assms by (intro mult_left_mono)
  moreover have "\<bar>n\<bar> \<le> 9223372036854775808" using assms(2) by (simp add: in_i64_def abs_le_iff)
  ultimately have q: "q * 10 \<le> 9223372036854775808" using n r by linarith
  have nearest: "round_half_away n (2 * c) = sgn n * (if c \<le> r then q + 1 else q)"
    using round_nonneg [of c "\<bar>n\<bar>"] assms qr by (simp add: round_half_away_def)
  show ?thesis
  proof (cases "0 \<le> n")
    case True
    then have "n sdiv (2 * c) = q" "n smod (2 * c) = r"
      using assms qr by (simp_all add: sdiv_pos_cases smod_pos_cases)
    moreover have "round_half_away n (2 * c) = (if c \<le> r then q + 1 else q)"
    proof (cases "n = 0")
      case True
      then have "q = 0" "r = 0" using qr by simp_all
      then show ?thesis using True assms by (simp add: round_half_away_def)
    next
      case False
      then show ?thesis using True by (simp add: nearest)
    qed
    moreover have "i64 (q + 1) = q + 1" "in_i64 (q + 1)" "in_i64 q"
      using q0 q by (simp_all add: in_i64_def)
    ultimately show ?thesis
      using r assms by (simp add: divide_round_nearest_def Let_def threshold)
  next
    case False
    then have "n sdiv (2 * c) = - q" "n smod (2 * c) = - r"
      using assms qr by (simp_all add: sdiv_pos_cases smod_pos_cases)
    moreover have "i64 (- q - 1) = - q - 1" "in_i64 (- q - 1)" "in_i64 (- q)"
      using q0 q by (simp_all add: in_i64_def)
    ultimately show ?thesis
      using False r assms by (simp add: divide_round_nearest_def Let_def threshold nearest)
  qed
qed

lemma counts_to_millimeters_cases:
  assumes "in_i64 counts"
  shows "zpt_counts_to_millimeters counts cpi =
    (if cpi = 0 then (- EINVAL, None)
     else if \<not> in_i64 (counts * 16646144) then (- ERANGE, None)
     else (0, Some (round_half_away (counts * 16646144) (10 * uint cpi)))) \<and>
    (\<forall>v. snd (zpt_counts_to_millimeters counts cpi) = Some v \<longrightarrow> in_i64 v)"
proof (cases "cpi = 0")
  case True
  then show ?thesis by (simp add: zpt_counts_to_millimeters_def)
next
  case False
  then have pos: "0 < 5 * uint cpi" "10 \<le> 2 * (5 * uint cpi)"
    using uint_pos_iff [of cpi] by simp_all
  have range: "in_i64 (counts * 16646144) = (counts \<le> 554084599824 \<and> - 554084599824 \<le> counts)"
    by (auto simp: in_i64_def)
  show ?thesis
  proof (cases "in_i64 (counts * 16646144)")
    case True
    note dr = divide_round_nearest_correct [OF pos(1) True pos(2)]
    have eq: "divide_round_nearest (counts * 16646144) (uint cpi * 10) =
        round_half_away (counts * 16646144) (10 * uint cpi)"
      using dr by (simp add: mult.commute)
    have "in_i64 (round_half_away (counts * 16646144) (10 * uint cpi))"
      using dr [THEN conjunct2] unfolding dr [THEN conjunct1] by simp
    then show ?thesis
      using True False range eq by (simp add: zpt_counts_to_millimeters_def)
  next
    case out: False
    then show ?thesis using False range by (auto simp: zpt_counts_to_millimeters_def)
  qed
qed

text \<open>Counts are converted to Q16 millimetres correctly rounded: for a known
  resolution the result is the integer nearest to \<open>counts * 25.4 * 65536 / cpi\<close>, ties away from
  zero, off by at most half a unit; a resolution of zero is refused with \<open>-EINVAL\<close> and a product
  that does not fit 64 bits with \<open>-ERANGE\<close>, exactly then.\<close>

theorem counts_are_correctly_rounded:
  assumes "in_i64 counts"
  shows "zpt_counts_to_millimeters counts cpi =
    (if cpi = 0 then (- EINVAL, None)
     else if \<not> in_i64 (counts * (254 * 65536)) then (- ERANGE, None)
     else (0, Some (round_half_away (counts * (254 * 65536)) (10 * uint cpi)))) \<and>
    (cpi \<noteq> 0 \<longrightarrow> \<bar>2 * (round_half_away (counts * (254 * 65536)) (10 * uint cpi) * (10 * uint cpi)
        - counts * (254 * 65536))\<bar> \<le> 10 * uint cpi)"
proof (rule conjI)
  have factor: "counts * (254 * 65536) = counts * 16646144" by simp
  show "zpt_counts_to_millimeters counts cpi =
    (if cpi = 0 then (- EINVAL, None)
     else if \<not> in_i64 (counts * (254 * 65536)) then (- ERANGE, None)
     else (0, Some (round_half_away (counts * (254 * 65536)) (10 * uint cpi))))"
    unfolding factor by (rule counts_to_millimeters_cases [OF assms, THEN conjunct1])
qed (intro impI round_half_away_bound, simp add: uint_pos_iff)

lemma counts_are_correctly_rounded_witness:
  "zpt_counts_to_millimeters (- 3) 800 = (0, Some (- 6242)) \<and>
   zpt_counts_to_millimeters 554084599825 800 = (- ERANGE, None)"
  using counts_are_correctly_rounded [of "- 3" 800, THEN conjunct1]
    counts_are_correctly_rounded [of 554084599825 800, THEN conjunct1]
  by (simp add: round_half_away_def)

interpretation resolution: stage_contract zpt_resolution_normalize_stage_api "\<lambda>c. True" "\<lambda>c st. True"
proof (unfold_locales, goal_cases)
  case (1 c st s f now)
  have k: "kind s = SIGNAL_RAW_MOTION"
    using 1(3) by (rule accepts_mask) (simp_all add: zpt_resolution_normalize_stage_api_def zpt_signal_kind_valid_def)
  then obtain x y where d: "data s = RawMotion x y" "in_i64 x" "in_i64 y"
    using signal_ok_cases(1) [OF 1(4)] by blast
  have f: "f = resolution_normalize_process"
    using 1(5) by (simp add: zpt_resolution_normalize_stage_api_def)
  obtain rx ox where ox: "zpt_counts_to_millimeters x (resolution_cpi (metadata s)) = (rx, ox)"
    by (cases "zpt_counts_to_millimeters x (resolution_cpi (metadata s))")
  obtain ry oy where oy: "zpt_counts_to_millimeters y (resolution_cpi (metadata s)) = (ry, oy)"
    by (cases "zpt_counts_to_millimeters y (resolution_cpi (metadata s))")
  have x: "rx < 0 \<or> in_i64 (the ox)"
    using counts_to_millimeters_cases [OF d(2), of "resolution_cpi (metadata s)"] ox
    by (cases ox) (simp_all split: if_splits)
  have y: "ry < 0 \<or> in_i64 (the oy)"
    using counts_to_millimeters_cases [OF d(3), of "resolution_cpi (metadata s)"] oy
    by (cases oy) (simp_all split: if_splits)
  show ?case
    using d(1) 1(4) x y
    by (cases "rx < 0"; cases "ry < 0")
       (simp_all add: f resolution_normalize_process_def ox oy signal_ok_def
        zpt_resolution_normalize_stage_api_def)
qed (simp_all add: zpt_resolution_normalize_stage_api_def)

end
