(* ===== verification/Suppression.thy ===== *)
theory Suppression
  imports Stage_Program
begin

text \<open>
  The shared suppression policy (\<open>policy/suppression.h\<close>) and the test each stage that honours it
  makes. \<open>is_suppressed\<close> belongs to the platform: it is a function of the frame and the time here,
  its context closed over (Keypress_Suppression has the one the repository provides). Stages refer
  to a policy by address, so \<open>policy_at\<close> names the object; \<open>freezes\<close> and \<open>thaws\<close> say that
  \<open>freeze_keypress\<close> and \<open>thaw_keypress\<close> are set.
\<close>

record zpt_suppression_policy =
  policy_at :: nat
  is_suppressed :: "(zpt_signal \<Rightarrow> u32 \<Rightarrow> bool) option"
  keypress_window_ms :: u32
  freezes :: bool
  thaws :: bool

definition suppression_active :: "zpt_suppression_policy option \<Rightarrow> zpt_signal \<Rightarrow> u32 \<Rightarrow> bool" where
  "suppression_active suppression s now =
     (case suppression of
        None \<Rightarrow> False
      | Some policy \<Rightarrow> (case is_suppressed policy of None \<Rightarrow> False | Some f \<Rightarrow> f s now))"

lemma suppression_inactive [simp]: "\<not> suppression_active None s now"
  by (simp add: suppression_active_def)

end
