(* ===== verification/Motion_Gate.thy ===== *)
theory Motion_Gate
  imports Suppression
begin

text \<open>
  The coherent displacement motion gate (\<open>stage/motion_gate.h\<close>,
  \<open>stage/motion_gate/coherent_displacement.h\<close>, \<open>stage/motion_gate/coherent_displacement.c\<close>,
  \<open>stage/motion_gate/coherent_displacement_stage.c\<close>): motion is held back until it has gone far
  and straight enough, then passes unchanged until the pointer rests.
\<close>

datatype zpt_motion_gate_phase = GATE_IDLE | GATE_PENDING | GATE_ACTIVE | GATE_BYPASS

record zpt_coherent_displacement_settings =
  enabled :: bool
  cd_activation_distance :: int
  coherence_percent :: u16
  qualification_timeout_ms :: u16
  cd_idle_timeout_ms :: u16

record zpt_coherent_displacement_state =
  cd_pending_x :: int
  cd_pending_y :: int
  squared_energy :: int
  sample_count :: u32
  pending_started_ms :: u32
  cd_last_frame_ms :: u32
  cd_have_last_frame :: bool
  cd_active :: bool
  pending_clipped :: bool

record zpt_coherent_displacement_result =
  res_x :: int
  res_y :: int
  phase :: zpt_motion_gate_phase
  reset_for_idle :: bool
  reset_for_timeout :: bool
  suppressed :: bool
  gate_qualified :: bool
  discarded :: bool
  clipped :: bool

section \<open>Arithmetic\<close>

definition saturating_add_clipped :: "int \<Rightarrow> int \<Rightarrow> int \<times> bool" where
  "saturating_add_clipped left right =
     (if right > 0 \<and> left > INT64_MAX - right then (INT64_MAX, True)
      else if right < 0 \<and> left < INT64_MIN - right then (INT64_MIN, True)
      else (i64 (left + right), False))"

definition saturating_multiply_u64 :: "int \<Rightarrow> int \<Rightarrow> int" where
  "saturating_multiply_u64 left right =
     (if left \<noteq> 0 \<and> right > UINT64_MAX div left then UINT64_MAX else u64 (left * right))"

definition square_saturated :: "int \<Rightarrow> int" where
  "square_saturated value =
     (let magnitude = zpt_fixed_magnitude value
      in if magnitude > UINT32_MAX then UINT64_MAX else u64 (magnitude * magnitude))"

definition magnitude_squared :: "int \<Rightarrow> int \<Rightarrow> int" where
  "magnitude_squared x y = zpt_fixed_saturating_add_u64 (square_saturated x) (square_saturated y)"

definition coherence_meets :: "int \<Rightarrow> int \<Rightarrow> u32 \<Rightarrow> u16 \<Rightarrow> bool" where
  "coherence_meets net_squared energy count percent =
     (if percent = 0 \<or> count \<le> 1 then True
      else
        let denominator = saturating_multiply_u64 (uint count) energy in
        if denominator = 0 then False
        else
          let percent_squared = uint percent * uint percent;
              required = u64 (denominator div 10000 * percent_squared);
              remainder = denominator mod 10000;
              required = zpt_fixed_saturating_add_u64 required
                ((remainder * percent_squared + 9999) div 10000)
          in net_squared \<ge> required)"

section \<open>The strategy\<close>

definition has_pending :: "zpt_coherent_displacement_state \<Rightarrow> bool" where
  "has_pending state \<longleftrightarrow> sample_count state \<noteq> 0"

definition reset_pending :: "zpt_coherent_displacement_state \<Rightarrow> zpt_coherent_displacement_state" where
  "reset_pending state = state\<lparr>cd_pending_x := 0, cd_pending_y := 0, squared_energy := 0,
     sample_count := 0, pending_started_ms := 0, pending_clipped := False\<rparr>"

definition zpt_coherent_displacement_validate :: "zpt_coherent_displacement_settings \<Rightarrow> int" where
  "zpt_coherent_displacement_validate settings =
     (if cd_activation_distance settings \<le> 0 \<or> coherence_percent settings > 100 \<or>
         qualification_timeout_ms settings = 0 \<or> cd_idle_timeout_ms settings = 0
      then - EINVAL else 0)"

definition zpt_coherent_displacement_reset :: zpt_coherent_displacement_state where
  "zpt_coherent_displacement_reset = \<lparr>cd_pending_x = 0, cd_pending_y = 0, squared_energy = 0,
     sample_count = 0, pending_started_ms = 0, cd_last_frame_ms = 0, cd_have_last_frame = False,
     cd_active = False, pending_clipped = False\<rparr>"

definition zero_gate_result :: zpt_coherent_displacement_result where
  "zero_gate_result = \<lparr>res_x = 0, res_y = 0, phase = GATE_IDLE, reset_for_idle = False,
     reset_for_timeout = False, suppressed = False, gate_qualified = False, discarded = False,
     clipped = False\<rparr>"

definition expire_state :: "zpt_coherent_displacement_settings \<Rightarrow> u32 \<Rightarrow>
    zpt_coherent_displacement_state \<Rightarrow>
    zpt_coherent_displacement_result \<times> zpt_coherent_displacement_state" where
  "expire_state settings now_ms state =
     (let result = zero_gate_result\<lparr>phase := (if cd_active state then GATE_ACTIVE
            else if has_pending state then GATE_PENDING else GATE_IDLE)\<rparr>
      in if cd_have_last_frame state \<and>
            now_ms - cd_last_frame_ms state \<ge> ucast (cd_idle_timeout_ms settings) then
           (result\<lparr>discarded := has_pending state, phase := GATE_IDLE, reset_for_idle := True\<rparr>,
            zpt_coherent_displacement_reset)
         else if \<not> cd_active state \<and> has_pending state \<and>
            now_ms - pending_started_ms state \<ge> ucast (qualification_timeout_ms settings) then
           (result\<lparr>discarded := True, phase := GATE_IDLE, reset_for_timeout := True\<rparr>,
            reset_pending state)
         else (result, state))"

definition zpt_coherent_displacement_expire :: "zpt_coherent_displacement_settings \<Rightarrow> u32 \<Rightarrow>
    zpt_coherent_displacement_state \<Rightarrow>
    zpt_coherent_displacement_result \<times> zpt_coherent_displacement_state" where
  "zpt_coherent_displacement_expire settings now_ms state =
     (if zpt_coherent_displacement_validate settings < 0 \<or> \<not> enabled settings
      then (zero_gate_result\<lparr>phase := GATE_BYPASS\<rparr>, state)
      else expire_state settings now_ms state)"

text \<open>Fold one frame into the pending evidence of a gate that is not active.\<close>

definition accumulate_pending :: "int \<Rightarrow> int \<Rightarrow> u32 \<Rightarrow>
    zpt_coherent_displacement_state \<Rightarrow> zpt_coherent_displacement_state" where
  "accumulate_pending x y now_ms state =
     (let state = (if has_pending state then state else state\<lparr>pending_started_ms := now_ms\<rparr>);
          (px, cx) = saturating_add_clipped (cd_pending_x state) x;
          (py, cy) = saturating_add_clipped (cd_pending_y state) y
      in state\<lparr>cd_pending_x := px, cd_pending_y := py,
           pending_clipped := pending_clipped state \<or> cx \<or> cy,
           squared_energy := zpt_fixed_saturating_add_u64 (squared_energy state) (magnitude_squared x y),
           sample_count := (if sample_count state \<noteq> - 1 then sample_count state + 1
                            else sample_count state)\<rparr>)"

definition zpt_coherent_displacement_update :: "zpt_coherent_displacement_settings \<Rightarrow>
    int \<Rightarrow> int \<Rightarrow> u32 \<Rightarrow> bool \<Rightarrow> zpt_coherent_displacement_state \<Rightarrow>
    zpt_coherent_displacement_result \<times> zpt_coherent_displacement_state" where
  "zpt_coherent_displacement_update settings x y now_ms suppress state =
     (if zpt_coherent_displacement_validate settings < 0 then (zero_gate_result, state)
      else if \<not> enabled settings then
        (zero_gate_result\<lparr>res_x := x, res_y := y, phase := GATE_BYPASS\<rparr>,
         zpt_coherent_displacement_reset)
      else if suppress then
        (zero_gate_result\<lparr>discarded := has_pending state \<or> cd_active state, phase := GATE_IDLE,
           suppressed := True\<rparr>, zpt_coherent_displacement_reset)
      else
        let (expired, state) = expire_state settings now_ms state;
            state = state\<lparr>cd_last_frame_ms := now_ms, cd_have_last_frame := True\<rparr>
        in if cd_active state then
             (zero_gate_result\<lparr>res_x := x, res_y := y, phase := GATE_ACTIVE\<rparr>, state)
           else
             let state = accumulate_pending x y now_ms state;
                 net_squared = magnitude_squared (cd_pending_x state) (cd_pending_y state);
                 activation_squared = square_saturated (cd_activation_distance settings);
                 carried = zero_gate_result\<lparr>reset_for_idle := reset_for_idle expired,
                   reset_for_timeout := reset_for_timeout expired, discarded := discarded expired,
                   clipped := pending_clipped state\<rparr>
             in if net_squared \<ge> activation_squared \<and>
                   coherence_meets net_squared (squared_energy state) (sample_count state)
                     (coherence_percent settings)
                then (carried\<lparr>res_x := cd_pending_x state, res_y := cd_pending_y state,
                        phase := GATE_ACTIVE, gate_qualified := True\<rparr>,
                      reset_pending (state\<lparr>cd_active := True\<rparr>))
                else (carried\<lparr>phase := GATE_PENDING\<rparr>, state))"

section \<open>The stage\<close>

record zpt_coherent_displacement_stage_config =
  cd_settings :: zpt_coherent_displacement_settings
  cd_suppression :: "zpt_suppression_policy option"

record zpt_coherent_displacement_stage_state =
  strategy :: zpt_coherent_displacement_state
  pending_evidence :: zpt_signal
  have_pending_evidence :: bool

definition clear_pending_evidence ::
  "zpt_coherent_displacement_stage_state \<Rightarrow> zpt_coherent_displacement_stage_state" where
  "clear_pending_evidence state =
     state\<lparr>pending_evidence := zero_signal, have_pending_evidence := False\<rparr>"

definition accumulate_pending_evidence ::
  "zpt_signal \<Rightarrow> zpt_coherent_displacement_stage_state \<Rightarrow> zpt_coherent_displacement_stage_state" where
  "accumulate_pending_evidence s state =
     (if \<not> have_pending_evidence state then
        state\<lparr>pending_evidence := s, have_pending_evidence := True\<rparr>
      else
        let e = pending_evidence state; m = metadata e;
            overflow = (- 1 - sample_span_us m < sample_span_us (metadata s));
            m = m\<lparr>sample_span_us := (if overflow then - 1
                    else sample_span_us m + sample_span_us (metadata s)),
                  flags := (if overflow then flags m OR FLAG_SAMPLE_SPAN_CLIPPED else flags m)
                    OR flags (metadata s),
                  observed_at_ms := observed_at_ms (metadata s),
                  sequence := sequence (metadata s)\<rparr>
        in state\<lparr>pending_evidence := e\<lparr>metadata := m, annotations := annotations s\<rparr>\<rparr>)"

text \<open>Arm the next timer, or none, and go on with its return code.\<close>

definition schedule_next_deadline :: "zpt_coherent_displacement_settings \<Rightarrow>
    zpt_coherent_displacement_state \<Rightarrow> u32 \<Rightarrow> (int \<Rightarrow> 's stage_prog) \<Rightarrow> 's stage_prog" where
  "schedule_next_deadline settings state now k =
     (if \<not> enabled settings \<or> (\<not> cd_active state \<and> \<not> has_pending state) then CancelFlush (k 0)
      else
        let deadline = cd_last_frame_ms state + ucast (cd_idle_timeout_ms settings);
            qualification = pending_started_ms state + ucast (qualification_timeout_ms settings);
            deadline = (if \<not> cd_active state \<and> has_pending state \<and>
                qualification - now < deadline - now then qualification else deadline)
        in ScheduleFlush deadline k)"

definition coherent_stage_activate ::
  "(zpt_coherent_displacement_stage_config, zpt_coherent_displacement_stage_state) zpt_stage_activate" where
  "coherent_stage_activate config st reason =
     (case (config, st) of
        (Some c, Some _) \<Rightarrow> (zpt_coherent_displacement_validate (cd_settings c), st)
      | _ \<Rightarrow> (- EINVAL, st))"

definition coherent_stage_reset ::
  "(zpt_coherent_displacement_stage_config, zpt_coherent_displacement_stage_state) zpt_stage_reset" where
  "coherent_stage_reset config st reason =
     map_option (\<lambda>state. clear_pending_evidence (state\<lparr>strategy := zpt_coherent_displacement_reset\<rparr>)) st"

definition observe_result :: "zpt_signal \<Rightarrow> zpt_coherent_displacement_result \<Rightarrow> bool \<Rightarrow>
    zpt_coherent_displacement_stage_state \<Rightarrow>
    (zpt_stage_event \<times> int) list \<times> zpt_coherent_displacement_stage_state" where
  "observe_result s result had_pending state =
     (let state = (if suppressed result \<or> phase result = GATE_BYPASS \<or> reset_for_idle result \<or>
             reset_for_timeout result \<or> \<not> had_pending
           then clear_pending_evidence state else state);
          events = (if suppressed result then [(EVENT_SUPPRESSED, 0)]
             else if discarded result \<and> (reset_for_idle result \<or> reset_for_timeout result)
               then [(EVENT_DISCARDED, 0)] else []);
          state = (if phase result = GATE_PENDING \<or> gate_qualified result
           then accumulate_pending_evidence s state else state)
      in (events, state))"

definition qualified_output :: "zpt_coherent_displacement_stage_state \<Rightarrow>
    zpt_coherent_displacement_result \<Rightarrow> bool \<Rightarrow> zpt_signal" where
  "qualified_output state result had_pending =
     (let out = (pending_evidence state)\<lparr>data := FixedVector (res_x result) (res_y result)\<rparr>;
          out = (if clipped result then add_flag FLAG_CLIPPED out else out)
      in if had_pending then add_flag FLAG_COALESCED out else out)"

definition coherent_stage_process ::
  "(zpt_coherent_displacement_stage_config, zpt_coherent_displacement_stage_state) zpt_stage_process" where
  "coherent_stage_process config st now s =
     (case (config, st) of
        (Some c, Some state) \<Rightarrow>
          if kind s \<noteq> SIGNAL_NORMALIZED_MOTION then Return (- EINVAL) st
          else
            let had_pending = has_pending (strategy state);
                (result, strat) = zpt_coherent_displacement_update (cd_settings c)
                  (fst (fixed_vector s)) (snd (fixed_vector s)) now
                  (suppression_active (cd_suppression c) s now) (strategy state);
                (events, state) = observe_result s result had_pending (state\<lparr>strategy := strat\<rparr>)
            in notify_all events
                 (schedule_next_deadline (cd_settings c) strat now
                   (\<lambda>ret. if ret < 0 then Return ret (Some state)
                      else if phase result = GATE_BYPASS then emit_return s (Some state)
                      else if gate_qualified result then
                        Notify EVENT_QUALIFIED 0
                          (emit_return (qualified_output state result had_pending)
                            (Some (clear_pending_evidence state)))
                      else if phase result = GATE_ACTIVE then emit_return s (Some state)
                      else Return 0 (Some state)))
      | _ \<Rightarrow> Return (- EINVAL) st)"

definition coherent_stage_flush ::
  "(zpt_coherent_displacement_stage_config, zpt_coherent_displacement_stage_state) zpt_stage_flush" where
  "coherent_stage_flush config st deadline now =
     (case (config, st) of
        (Some c, Some state) \<Rightarrow>
          let (result, strat) = zpt_coherent_displacement_expire (cd_settings c) now (strategy state);
              state = state\<lparr>strategy := strat\<rparr>;
              expired = reset_for_idle result \<or> reset_for_timeout result;
              state = (if expired then clear_pending_evidence state else state);
              events = (if expired \<and> discarded result then [(EVENT_DISCARDED, 0)] else [])
          in notify_all events
               (schedule_next_deadline (cd_settings c) strat now (\<lambda>ret. Return ret (Some state)))
      | _ \<Rightarrow> Return (- EINVAL) st)"

definition zpt_coherent_displacement_stage_api ::
  "(zpt_coherent_displacement_stage_config, zpt_coherent_displacement_stage_state) zpt_stage_api" where
  "zpt_coherent_displacement_stage_api = \<lparr>strategy_id = Some ''coherent-displacement'',
     accepted_kinds = ZPT_SIGNAL_KIND_MASK SIGNAL_NORMALIZED_MOTION,
     output_kind = SIGNAL_NORMALIZED_MOTION,
     api_flags = STAGE_STATEFUL, api_process = Some coherent_stage_process,
     api_flush = Some coherent_stage_flush, api_activate = Some coherent_stage_activate,
     api_deactivate = None, api_reset = Some coherent_stage_reset\<rparr>"

section \<open>The coherence test\<close>

lemma saturating_multiply_exact:
  assumes "0 \<le> a" "0 \<le> b"
  shows "saturating_multiply_u64 a b = min UINT64_MAX (a * b)"
proof (cases "a = 0")
  case False
  then have "(b > UINT64_MAX div a) = (b * a > UINT64_MAX)"
    using assms by (intro div_less_iff_less_mult') simp
  then show ?thesis
    using False assms by (auto simp: saturating_multiply_u64_def in_u64_def mult.commute)
qed (simp add: saturating_multiply_u64_def)

lemma square_cases:
  "in_i64 v \<Longrightarrow> square_saturated v = (if \<bar>v\<bar> > UINT32_MAX then UINT64_MAX else v * v)"
proof -
  assume v: "in_i64 v"
  have "\<bar>v\<bar> * \<bar>v\<bar> \<le> 4294967295 * 4294967295" if "\<bar>v\<bar> \<le> 4294967295"
    using that by (intro mult_mono) auto
  then show ?thesis
    using v by (auto simp: square_saturated_def magnitude_abs in_u64_def Let_def)
qed

lemma ceil_mult_le: "((a + 9999) div 10000 \<le> k) = (a \<le> 10000 * k)" for a k :: int
  using div_less_iff_less_mult' [of 10000 "a + 9999" "k + 1"] by auto

text \<open>The straightness test is exact: as long as the sample count times the energy fits
  64 bits, the division-free rounding decides precisely whether the squared net displacement is
  at least the squared coherence percentage of that product, with no rounding error in either
  direction.\<close>

theorem coherence_test_is_exact:
  assumes "0 \<le> energy" "uint count * energy \<le> UINT64_MAX" "percent \<le> 100"
  shows "coherence_meets net energy count percent =
    (percent = 0 \<or> count \<le> 1 \<or>
     energy \<noteq> 0 \<and> net * 10000 \<ge> uint count * energy * (uint percent * uint percent))"
proof (cases "percent = 0 \<or> count \<le> 1")
  case True
  then show ?thesis by (auto simp: coherence_meets_def)
next
  case False
  obtain d where d: "uint count * energy = d" by simp
  obtain p where p: "uint percent * uint percent = p" by simp
  obtain q r where qr: "d div 10000 = q" "d mod 10000 = r" and dq: "d = q * 10000 + r"
    and r: "0 \<le> r" "r < 10000"
    by (rule div_mod_obtain [of 10000 d]) auto
  have d0: "0 \<le> d" "d \<le> UINT64_MAX" using assms(1,2) d [symmetric] by auto
  have "uint percent \<le> 100" using assms(3) by (simp add: word_le_def)
  then have "uint percent * uint percent \<le> 100 * 100" by (intro mult_mono) auto
  then have p0: "0 \<le> p" "p \<le> 10000" unfolding p [symmetric] by auto
  have q0: "0 \<le> q" using d0 qr(1) by (auto simp: pos_imp_zdiv_nonneg_iff)
  have qp: "0 \<le> q * p" "q * p \<le> q * 10000" using q0 p0 by (simp_all add: mult_left_mono)
  have rp: "0 \<le> r * p" "r * p \<le> 10000 * 10000"
    using r p0 mult_mono [of r 10000 p 10000] by simp_all
  have ceil: "0 \<le> (r * p + 9999) div 10000" "(r * p + 9999) div 10000 \<le> r"
    using rp mult_left_mono [OF p0(2) r(1)] by (simp_all add: ceil_mult_le pos_imp_zdiv_nonneg_iff)
  have fits: "q * p + (r * p + 9999) div 10000 \<le> UINT64_MAX"
    using qp ceil dq d0 by linarith
  have u: "u64 (q * p) = q * p" using qp fits ceil by (intro u64_id) (simp add: in_u64_def)
  have sum: "zpt_fixed_saturating_add_u64 (q * p) ((r * p + 9999) div 10000) =
      q * p + (r * p + 9999) div 10000"
    using qp fits ceil by (simp add: saturating_add_u64_min in_u64_def)
  have mult: "saturating_multiply_u64 (uint count) energy = d"
    using assms d d0 by (simp add: saturating_multiply_exact)
  have "(q * p + (r * p + 9999) div 10000 \<le> net) = (r * p \<le> 10000 * (net - q * p))"
    using ceil_mult_le [of "r * p" "net - q * p"] by linarith
  also have "\<dots> = (d * p \<le> net * 10000)" unfolding dq by (simp add: algebra_simps)
  finally have test: "(q * p + (r * p + 9999) div 10000 \<le> net) = (d * p \<le> net * 10000)" .
  have "(d = 0) = (energy = 0)" using False d by (auto simp: word_le_def)
  then show ?thesis
    using False test unfolding coherence_meets_def mult p Let_def qr u sum d by auto
qed

lemma coherence_test_is_exact_witness:
  "coherence_meets 90 100 10 30 \<and> \<not> coherence_meets 89 100 10 30"
  using coherence_test_is_exact [of 100 10 30 90] coherence_test_is_exact [of 100 10 30 89]
  by (simp add: word_le_def)

section \<open>Motion is held, released whole, or reported discarded\<close>

interpretation gate_add: saturating_adder "\<lambda>a b. fst (saturating_add_clipped a b)"
  by unfold_locales (auto simp: saturating_add_clipped_def clamp64_def in_i64_def i64_def)

lemma add_clipped_flag: "snd (saturating_add_clipped a b) = (in_i64 a \<and> in_i64 b \<and> \<not> in_i64 (a + b))"
  if "in_i64 a" "in_i64 b"
  using that by (auto simp: saturating_add_clipped_def in_i64_def)

definition gate_inv :: "zpt_coherent_displacement_state \<Rightarrow> bool" where
  "gate_inv st \<longleftrightarrow> in_i64 (cd_pending_x st) \<and> in_i64 (cd_pending_y st) \<and>
     (sample_count st = 0 \<longrightarrow> cd_pending_x st = 0 \<and> cd_pending_y st = 0) \<and>
     (cd_active st \<longrightarrow> sample_count st = 0)"

lemma gate_inv_reset [simp]: "gate_inv zpt_coherent_displacement_reset"
  by (simp add: gate_inv_def zpt_coherent_displacement_reset_def)

lemma expire_state_cases:
  assumes "gate_inv st" "expire_state settings now st = (r, st')"
  shows "gate_inv st' \<and> res_x r = 0 \<and> res_y r = 0 \<and> \<not> gate_qualified r \<and>
    cd_pending_x st' = (if discarded r then 0 else cd_pending_x st) \<and>
    cd_pending_y st' = (if discarded r then 0 else cd_pending_y st) \<and>
    (discarded r \<longrightarrow> has_pending st) \<and> (cd_active st' \<longrightarrow> \<not> discarded r)"
  using assms
  by (auto simp: expire_state_def gate_inv_def reset_pending_def zpt_coherent_displacement_reset_def
      zero_gate_result_def has_pending_def Let_def split: if_splits)

lemma accumulate_fields:
  assumes "gate_inv st" "\<not> cd_active st" "in_i64 x" "in_i64 y"
    and "in_i64 (cd_pending_x st + x)" "in_i64 (cd_pending_y st + y)"
  shows "cd_pending_x (accumulate_pending x y now st) = cd_pending_x st + x"
    "cd_pending_y (accumulate_pending x y now st) = cd_pending_y st + y"
    "gate_inv (accumulate_pending x y now st)" "\<not> cd_active (accumulate_pending x y now st)"
    "sample_count (accumulate_pending x y now st) \<noteq> 0"
proof -
  have "saturating_add_clipped (cd_pending_x st) x = (cd_pending_x st + x, False)"
    "saturating_add_clipped (cd_pending_y st) y = (cd_pending_y st + y, False)"
    using assms by (auto simp: saturating_add_clipped_def in_i64_def)
  moreover have "sample_count st + 1 \<noteq> 0" if "sample_count st \<noteq> - 1"
    using that by (metis add.commute add_eq_0_iff)
  ultimately show "cd_pending_x (accumulate_pending x y now st) = cd_pending_x st + x"
    "cd_pending_y (accumulate_pending x y now st) = cd_pending_y st + y"
    "gate_inv (accumulate_pending x y now st)" "\<not> cd_active (accumulate_pending x y now st)"
    "sample_count (accumulate_pending x y now st) \<noteq> 0"
    using assms by (auto simp: accumulate_pending_def gate_inv_def Let_def)
qed

lemma update_step:
  assumes valid: "zpt_coherent_displacement_validate settings = 0" "enabled settings"
    and inv: "gate_inv st" and xy: "in_i64 x" "in_i64 y"
    and room: "\<bar>cd_pending_x st\<bar> + \<bar>x\<bar> \<le> INT64_MAX" "\<bar>cd_pending_y st\<bar> + \<bar>y\<bar> \<le> INT64_MAX"
    and upd: "zpt_coherent_displacement_update settings x y now False st = (r, st')"
  shows "gate_inv st' \<and>
    res_x r + cd_pending_x st' = (if discarded r then 0 else cd_pending_x st) + x \<and>
    res_y r + cd_pending_y st' = (if discarded r then 0 else cd_pending_y st) + y \<and>
    cd_active st' = (phase r = GATE_ACTIVE) \<and> (phase r = GATE_PENDING \<or> phase r = GATE_ACTIVE) \<and>
    (phase r = GATE_PENDING \<longrightarrow> res_x r = 0 \<and> res_y r = 0 \<and> \<not> gate_qualified r) \<and>
    (gate_qualified r \<longrightarrow> cd_pending_x st' = 0 \<and> cd_pending_y st' = 0 \<and>
       magnitude_squared (res_x r) (res_y r) \<ge> square_saturated (cd_activation_distance settings)) \<and>
    (phase r = GATE_ACTIVE \<longrightarrow> \<not> gate_qualified r \<longrightarrow> res_x r = x \<and> res_y r = y \<and> cd_active st)"
proof -
  obtain e st1 where e: "expire_state settings now st = (e, st1)" by (cases "expire_state settings now st")
  note ex = expire_state_cases [OF inv e]
  let ?st = "st1\<lparr>cd_last_frame_ms := now, cd_have_last_frame := True\<rparr>"
  have "gate_inv st1" using ex by blast
  then have inv2: "gate_inv ?st" by (simp add: gate_inv_def)
  have active: "cd_active st" if "cd_active st1"
    using e that by (auto simp: expire_state_def zpt_coherent_displacement_reset_def reset_pending_def
        Let_def split: if_splits)
  show ?thesis
  proof (cases "cd_active st1")
    case True
    then have "cd_pending_x st1 = 0" "cd_pending_y st1 = 0" "\<not> discarded e"
      "cd_pending_x st = 0" "cd_pending_y st = 0"
      using ex inv active by (auto simp: gate_inv_def)
    then show ?thesis
      using True upd e valid inv2 active
      by (auto simp: zpt_coherent_displacement_update_def zero_gate_result_def Let_def)
  next
    case False
    have sums: "in_i64 (cd_pending_x ?st + x)" "in_i64 (cd_pending_y ?st + y)"
      using room ex xy unfolding in_i64_def by auto
    note acc = accumulate_fields [OF inv2 _ xy sums, of now]
    have na: "\<not> cd_active ?st" using False by simp
    show ?thesis
      using upd e valid False ex acc [OF na]
      by (auto simp: zpt_coherent_displacement_update_def zero_gate_result_def reset_pending_def
          gate_inv_def Let_def split: if_splits)
  qed
qed

text \<open>Frames offered to the gate, without suppression, and its results in order.\<close>

fun gate_run :: "zpt_coherent_displacement_settings \<Rightarrow> zpt_coherent_displacement_state \<Rightarrow>
    (int \<times> int \<times> u32) list \<Rightarrow>
    zpt_coherent_displacement_result list \<times> zpt_coherent_displacement_state" where
  "gate_run settings st [] = ([], st)"
| "gate_run settings st ((x, y, now) # frames) =
     (let (r, st) = zpt_coherent_displacement_update settings x y now False st;
          (rs, st) = gate_run settings st frames
      in (r # rs, st))"

lemma gate_run_conserves:
  assumes valid: "zpt_coherent_displacement_validate settings = 0" "enabled settings"
    and "gate_inv st"
    and "\<forall>f \<in> set frames. in_i64 (fst f) \<and> in_i64 (fst (snd f))"
    and "\<bar>cd_pending_x st\<bar> + (\<Sum>f\<leftarrow>frames. \<bar>fst f\<bar>) \<le> INT64_MAX"
    and "\<bar>cd_pending_y st\<bar> + (\<Sum>f\<leftarrow>frames. \<bar>fst (snd f)\<bar>) \<le> INT64_MAX"
    and "gate_run settings st frames = (rs, st')" "\<forall>r \<in> set rs. \<not> discarded r"
  shows "(\<Sum>r\<leftarrow>rs. res_x r) + cd_pending_x st' = cd_pending_x st + (\<Sum>f\<leftarrow>frames. fst f) \<and>
    (\<Sum>r\<leftarrow>rs. res_y r) + cd_pending_y st' = cd_pending_y st + (\<Sum>f\<leftarrow>frames. fst (snd f)) \<and>
    (\<forall>r \<in> set rs. phase r = GATE_PENDING \<and> res_x r = 0 \<and> res_y r = 0 \<or> phase r = GATE_ACTIVE) \<and>
    (\<forall>r \<in> set rs. gate_qualified r \<longrightarrow>
       magnitude_squared (res_x r) (res_y r) \<ge> square_saturated (cd_activation_distance settings))"
  using assms(3-8)
proof (induction frames arbitrary: st rs)
  case Nil
  then show ?case by simp
next
  case (Cons f frames)
  obtain x y now where f: "f = (x, y, now)" by (cases f) auto
  obtain r st1 where upd: "zpt_coherent_displacement_update settings x y now False st = (r, st1)"
    by (cases "zpt_coherent_displacement_update settings x y now False st")
  obtain rs1 st2 where run: "gate_run settings st1 frames = (rs1, st2)" by (cases "gate_run settings st1 frames")
  have rs: "rs = r # rs1" "st' = st2" using Cons.prems(5) by (simp_all add: f upd run)
  have tail: "0 \<le> (\<Sum>f\<leftarrow>frames. \<bar>fst f\<bar>)" "0 \<le> (\<Sum>f\<leftarrow>frames. \<bar>fst (snd f)\<bar>)"
    by (auto intro!: sum_list_nonneg)
  have xy: "in_i64 x" "in_i64 y" using Cons.prems(2) f by auto
  have room: "\<bar>cd_pending_x st\<bar> + \<bar>x\<bar> \<le> INT64_MAX" "\<bar>cd_pending_y st\<bar> + \<bar>y\<bar> \<le> INT64_MAX"
    using Cons.prems(3,4) f tail by auto
  have keep: "\<not> discarded r" using Cons.prems(6) rs by simp
  note step = update_step [OF valid Cons.prems(1) xy room upd]
  have sums: "res_x r + cd_pending_x st1 = cd_pending_x st + x" "res_y r + cd_pending_y st1 = cd_pending_y st + y"
    using step keep by auto
  have small: "\<bar>cd_pending_x st1\<bar> \<le> \<bar>cd_pending_x st\<bar> + \<bar>x\<bar>" "\<bar>cd_pending_y st1\<bar> \<le> \<bar>cd_pending_y st\<bar> + \<bar>y\<bar>"
    using step sums by (auto simp: gate_inv_def)
  have room1: "\<bar>cd_pending_x st1\<bar> + (\<Sum>f\<leftarrow>frames. \<bar>fst f\<bar>) \<le> INT64_MAX"
    "\<bar>cd_pending_y st1\<bar> + (\<Sum>f\<leftarrow>frames. \<bar>fst (snd f)\<bar>) \<le> INT64_MAX"
    using Cons.prems(3,4) small f by auto
  have "\<forall>f \<in> set frames. in_i64 (fst f) \<and> in_i64 (fst (snd f))" using Cons.prems(2) by simp
  from Cons.IH [OF _ this room1 run [folded rs(2)]] step Cons.prems(6) rs sums show ?case
    by (auto simp: f)
qed

text \<open>Property C4. The gate never loses or invents motion silently: over any run of frames offered to an
  enabled gate with valid settings without suppression, from any state it can be in and of motion whose sums
  fit 64 bits, in which no result reports a discard, everything received has either been passed on
  or is still held; while it is deciding it passes on nothing; and when it opens, the motion it
  releases at once reaches the activation distance.\<close>

theorem gate_conserves_motion:
  assumes "zpt_coherent_displacement_validate settings = 0" "enabled settings" "gate_inv st"
    and "\<forall>f \<in> set frames. in_i64 (fst f) \<and> in_i64 (fst (snd f))"
    and "\<bar>cd_pending_x st\<bar> + (\<Sum>f\<leftarrow>frames. \<bar>fst f\<bar>) \<le> INT64_MAX"
    and "\<bar>cd_pending_y st\<bar> + (\<Sum>f\<leftarrow>frames. \<bar>fst (snd f)\<bar>) \<le> INT64_MAX"
    and "gate_run settings st frames = (rs, st')" "\<forall>r \<in> set rs. \<not> discarded r"
  shows "(\<Sum>r\<leftarrow>rs. res_x r) + cd_pending_x st' = cd_pending_x st + (\<Sum>f\<leftarrow>frames. fst f) \<and>
    (\<Sum>r\<leftarrow>rs. res_y r) + cd_pending_y st' = cd_pending_y st + (\<Sum>f\<leftarrow>frames. fst (snd f)) \<and>
    (\<forall>r \<in> set rs. phase r = GATE_PENDING \<and> res_x r = 0 \<and> res_y r = 0 \<or> phase r = GATE_ACTIVE) \<and>
    (\<forall>r \<in> set rs. gate_qualified r \<longrightarrow>
       magnitude_squared (res_x r) (res_y r) \<ge> square_saturated (cd_activation_distance settings))"
  by (rule gate_run_conserves [OF assms])

definition sample_gate :: zpt_coherent_displacement_settings where
  "sample_gate = \<lparr>enabled = True, cd_activation_distance = 100, coherence_percent = 70,
     qualification_timeout_ms = 150, cd_idle_timeout_ms = 300\<rparr>"

lemma gate_conserves_motion_witness:
  "let (rs, st') = gate_run sample_gate zpt_coherent_displacement_reset [(60, 1, 10), (50, 2, 20), (7, - 9, 30)]
   in map phase rs = [GATE_PENDING, GATE_ACTIVE, GATE_ACTIVE] \<and>
      (\<Sum>r\<leftarrow>rs. res_x r) + cd_pending_x st' = 117"
proof -
  let ?frames = "[(60, 1, 10), (50, 2, 20), (7, - 9, 30)]"
  let ?run = "gate_run sample_gate zpt_coherent_displacement_reset ?frames"
  have run: "map phase (fst ?run) = [GATE_PENDING, GATE_ACTIVE, GATE_ACTIVE]"
    "\<forall>r \<in> set (fst ?run). \<not> discarded r"
    by code_simp+
  obtain rs st' where eq: "?run = (rs, st')" by (cases ?run)
  have "(\<Sum>r\<leftarrow>rs. res_x r) + cd_pending_x st' = 117"
    using gate_conserves_motion [OF _ _ gate_inv_reset _ _ _ eq] run eq
    by (simp add: sample_gate_def zpt_coherent_displacement_validate_def zpt_coherent_displacement_reset_def
        word_le_def)
  then show ?thesis using run unfolding eq by simp
qed

section \<open>The stage contract\<close>

definition evidence_ok :: "zpt_coherent_displacement_stage_state \<Rightarrow> bool" where
  "evidence_ok state \<longleftrightarrow> (have_pending_evidence state \<longrightarrow>
     kind (pending_evidence state) = SIGNAL_NORMALIZED_MOTION \<and>
     in_i64 (speed_per_second (annotations (pending_evidence state))))"

definition gate_range :: "zpt_coherent_displacement_state \<Rightarrow> bool" where
  "gate_range st \<longleftrightarrow> in_i64 (cd_pending_x st) \<and> in_i64 (cd_pending_y st)"

lemma gate_range_update:
  assumes "gate_range st" "in_i64 x" "in_i64 y"
    and "zpt_coherent_displacement_update settings x y now suppress st = (r, st')"
  shows "gate_range st' \<and> in_i64 (res_x r) \<and> in_i64 (res_y r)"
proof -
  have acc: "gate_range (accumulate_pending x y now s)" for s now
    by (auto simp: gate_range_def accumulate_pending_def saturating_add_clipped_def Let_def)
  have exp: "gate_range (snd (expire_state settings now s))" if "gate_range s" for s
    using that by (auto simp: gate_range_def expire_state_def zpt_coherent_displacement_reset_def
        reset_pending_def Let_def)
  obtain e st1 where e: "expire_state settings now st = (e, st1)" by (cases "expire_state settings now st")
  have "gate_range st1" using exp [OF assms(1)] e by simp
  then show ?thesis
    using assms acc [of now "st1\<lparr>cd_last_frame_ms := now, cd_have_last_frame := True\<rparr>"] e
    by (auto simp: zpt_coherent_displacement_update_def zero_gate_result_def reset_pending_def
        zpt_coherent_displacement_reset_def gate_range_def Let_def split: if_splits)
qed

lemma observe_evidence:
  assumes "evidence_ok state" "signal_ok s" "kind s = SIGNAL_NORMALIZED_MOTION"
    and "observe_result s r had state = (events, state')"
  shows "evidence_ok state' \<and> strategy state' = strategy state \<and>
    (gate_qualified r \<longrightarrow> have_pending_evidence state')"
  using assms
  by (auto simp: observe_result_def evidence_ok_def clear_pending_evidence_def
      accumulate_pending_evidence_def signal_ok_def Let_def split: if_splits)

lemma qualified_output_ok:
  assumes "evidence_ok state" "have_pending_evidence state" "in_i64 (res_x r)" "in_i64 (res_y r)"
  shows "kind (qualified_output state r had) = SIGNAL_NORMALIZED_MOTION \<and>
    signal_ok (qualified_output state r had) \<and>
    fixed_vector (qualified_output state r had) = (res_x r, res_y r)"
  using assms by (simp add: qualified_output_def evidence_ok_def signal_ok_def Let_def)

lemma prog_ok_schedule_next:
  "(\<And>ret. prog_ok K I (k ret)) \<Longrightarrow> prog_ok K I (schedule_next_deadline settings st now k)"
  by (simp add: schedule_next_deadline_def Let_def)

interpretation gate: stage_contract zpt_coherent_displacement_stage_api "\<lambda>c. True"
    "\<lambda>c st. \<forall>s. st = Some s \<longrightarrow> evidence_ok s \<and> gate_range (strategy s)"
proof (unfold_locales, goal_cases)
  case (1 c st s f now)
  have k: "kind s = SIGNAL_NORMALIZED_MOTION"
    using 1(3) by (rule accepts_mask) (simp_all add: zpt_coherent_displacement_stage_api_def zpt_signal_kind_valid_def)
  then obtain x y where d: "data s = FixedVector x y" "in_i64 x" "in_i64 y"
    using signal_ok_cases(2) [OF 1(4)] by blast
  have f: "f = coherent_stage_process" using 1(5) by (simp add: zpt_coherent_displacement_stage_api_def)
  show ?case
  proof (cases "c = None \<or> st = None")
    case True
    then show ?thesis using 1(2) by (auto simp: f coherent_stage_process_def split: option.split)
  next
    case False
    then obtain config state where cs: "c = Some config" "st = Some state" by auto
    obtain r strat where u: "zpt_coherent_displacement_update (cd_settings config) x y now
        (suppression_active (cd_suppression config) s now) (strategy state) = (r, strat)"
      by (cases "zpt_coherent_displacement_update (cd_settings config) x y now
        (suppression_active (cd_suppression config) s now) (strategy state)")
    obtain events state' where o1: "observe_result s r (has_pending (strategy state)) (state\<lparr>strategy := strat\<rparr>) = (events, state')"
      by (cases "observe_result s r (has_pending (strategy state)) (state\<lparr>strategy := strat\<rparr>)")
    have inv: "evidence_ok state" "gate_range (strategy state)" using 1(2) cs by auto
    note ru = gate_range_update [OF inv(2) d(2,3) u]
    have "evidence_ok (state\<lparr>strategy := strat\<rparr>)" using inv(1) by (simp add: evidence_ok_def)
    note ob = observe_evidence [OF this 1(4) k o1]
    have "evidence_ok (clear_pending_evidence state')" "strategy (clear_pending_evidence state') = strat"
      using ob by (simp_all add: evidence_ok_def clear_pending_evidence_def)
    then show ?thesis
      using cs d k u o1 ru ob 1(4) qualified_output_ok [of state' r]
      by (auto simp: f coherent_stage_process_def zpt_coherent_displacement_stage_api_def
          intro!: prog_ok_schedule_next)
  qed
next
  case (2 c st g dl now)
  have "gate_range (snd (zpt_coherent_displacement_expire settings now s))" if "gate_range s" for settings s
    using that by (auto simp: gate_range_def zpt_coherent_displacement_expire_def expire_state_def
        zpt_coherent_displacement_reset_def reset_pending_def Let_def)
  then show ?case
    using 2
    by (auto simp: zpt_coherent_displacement_stage_api_def coherent_stage_flush_def case_prod_unfold
        evidence_ok_def clear_pending_evidence_def Let_def split: option.split intro!: prog_ok_schedule_next)
next
  case (3 c st h reason)
  then show ?case
    by (auto simp: zpt_coherent_displacement_stage_api_def coherent_stage_reset_def
        clear_pending_evidence_def evidence_ok_def gate_range_def zpt_coherent_displacement_reset_def)
qed (simp_all add: zpt_coherent_displacement_stage_api_def)

end
