(* ===== verification/Axis_Intent.thy ===== *)
theory Axis_Intent
  imports Suppression
begin

text \<open>
  The axis intent estimator and its stage (\<open>stage/axis_intent.h\<close>,
  \<open>stage/axis_intent/axis_intent.c\<close>, \<open>stage/axis_intent/axis_intent_stage.c\<close>).

  Energies are \<open>uint64_t\<close>, carried as \<open>int\<close>. A policy is the enumeration's number, since the
  code has a default branch for others.
\<close>

abbreviation (input) POLICY_FREE :: int where "POLICY_FREE \<equiv> 0"
abbreviation (input) POLICY_ADAPTIVE :: int where "POLICY_ADAPTIVE \<equiv> 1"
abbreviation (input) POLICY_HORIZONTAL :: int where "POLICY_HORIZONTAL \<equiv> 2"
abbreviation (input) POLICY_VERTICAL :: int where "POLICY_VERTICAL \<equiv> 3"

datatype zpt_axis_intent = INTENT_UNDECIDED | INTENT_FREE | INTENT_HORIZONTAL | INTENT_VERTICAL

primrec intent_code :: "zpt_axis_intent \<Rightarrow> u8" where
  "intent_code INTENT_UNDECIDED = AXIS_UNDECIDED"
| "intent_code INTENT_FREE = AXIS_FREE"
| "intent_code INTENT_HORIZONTAL = AXIS_HORIZONTAL"
| "intent_code INTENT_VERTICAL = AXIS_VERTICAL"

record zpt_axis_intent_settings =
  engage_ratio_percent :: u16
  release_ratio_percent :: u16
  ai_activation_distance :: int
  window_ms :: u16

record zpt_axis_intent_state =
  horizontal_energy :: int
  vertical_energy :: int
  intent :: zpt_axis_intent

section \<open>The estimator\<close>

definition decay :: "int \<Rightarrow> u32 \<Rightarrow> u32 \<Rightarrow> int" where
  "decay energy elapsed_ms window =
     (if elapsed_ms \<ge> window \<or> window = 0 then 0
      else
        let remaining = uint (window - elapsed_ms) in
        if energy > UINT64_MAX div remaining then UINT64_MAX
        else u64 (energy * remaining) div uint window)"

definition zpt_axis_intent_validate :: "zpt_axis_intent_settings \<Rightarrow> int" where
  "zpt_axis_intent_validate settings =
     (if engage_ratio_percent settings = 0 \<or> release_ratio_percent settings = 0 \<or>
         ai_activation_distance settings \<le> 0 \<or> window_ms settings = 0
      then - EINVAL else 0)"

definition zpt_axis_intent_reset :: zpt_axis_intent_state where
  "zpt_axis_intent_reset = \<lparr>horizontal_energy = 0, vertical_energy = 0, intent = INTENT_UNDECIDED\<rparr>"

definition update_adaptive_intent ::
  "zpt_axis_intent_state \<Rightarrow> zpt_axis_intent_settings \<Rightarrow> bool \<Rightarrow> bool \<Rightarrow> zpt_axis_intent" where
  "update_adaptive_intent state settings horizontal_engaged vertical_engaged =
     (case intent state of
        INTENT_HORIZONTAL \<Rightarrow>
          if zpt_fixed_ratio_dominates (horizontal_energy state) (vertical_energy state)
               (release_ratio_percent settings)
          then INTENT_HORIZONTAL
          else if vertical_engaged then INTENT_VERTICAL else INTENT_FREE
      | INTENT_VERTICAL \<Rightarrow>
          if zpt_fixed_ratio_dominates (vertical_energy state) (horizontal_energy state)
               (release_ratio_percent settings)
          then INTENT_VERTICAL
          else if horizontal_engaged then INTENT_HORIZONTAL else INTENT_FREE
      | _ \<Rightarrow>
          if horizontal_engaged then INTENT_HORIZONTAL
          else if vertical_engaged then INTENT_VERTICAL else INTENT_FREE)"

definition zpt_axis_intent_estimate ::
  "zpt_axis_intent_settings \<Rightarrow> int \<Rightarrow> int \<Rightarrow> int \<Rightarrow> u32 \<Rightarrow> zpt_axis_intent_state \<Rightarrow>
   zpt_axis_intent \<times> zpt_axis_intent_state" where
  "zpt_axis_intent_estimate settings policy x y elapsed_ms state =
     (if zpt_axis_intent_validate settings < 0 then (INTENT_FREE, state)
      else if policy \<noteq> POLICY_ADAPTIVE then
        let i = (if policy = POLICY_HORIZONTAL then INTENT_HORIZONTAL
                 else if policy = POLICY_VERTICAL then INTENT_VERTICAL else INTENT_FREE)
        in (i, state\<lparr>intent := i\<rparr>)
      else
        let window = ucast (window_ms settings);
            state = state\<lparr>
              horizontal_energy := zpt_fixed_saturating_add_u64
                (decay (horizontal_energy state) elapsed_ms window) (zpt_fixed_magnitude x),
              vertical_energy := zpt_fixed_saturating_add_u64
                (decay (vertical_energy state) elapsed_ms window) (zpt_fixed_magnitude y)\<rparr>;
            total = zpt_fixed_saturating_add_u64 (horizontal_energy state) (vertical_energy state)
        in if total < u64 (ai_activation_distance settings) then (intent state, state)
           else
             let horizontal_engaged = zpt_fixed_ratio_dominates (horizontal_energy state)
                   (vertical_energy state) (engage_ratio_percent settings);
                 vertical_engaged = zpt_fixed_ratio_dominates (vertical_energy state)
                   (horizontal_energy state) (engage_ratio_percent settings);
                 i = update_adaptive_intent state settings horizontal_engaged vertical_engaged
             in (i, state\<lparr>intent := i\<rparr>))"

definition zpt_axis_intent_confidence :: "zpt_axis_intent_state \<Rightarrow> u16" where
  "zpt_axis_intent_confidence state =
     (if intent state = INTENT_UNDECIDED \<or> intent state = INTENT_FREE then 0
      else
        let major = (if intent state = INTENT_HORIZONTAL then horizontal_energy state
                     else vertical_energy state);
            total = zpt_fixed_saturating_add_u64 (horizontal_energy state) (vertical_energy state)
        in if total = 0 then 0
           else if major > UINT64_MAX div 100 then 100
           else word_of_int (u64 (major * 100) div total))"

section \<open>The stage\<close>

record zpt_axis_intent_stage_config =
  ai_settings :: zpt_axis_intent_settings
  ai_policy :: int
  ai_idle_timeout_ms :: u16
  ai_suppression :: "zpt_suppression_policy option"

record zpt_axis_intent_stage_state =
  estimator :: zpt_axis_intent_state
  ai_last_frame_ms :: u32
  ai_have_last_frame :: bool
  last_notified_intent :: u8

definition axis_speed_per_second :: "int \<Rightarrow> int \<Rightarrow> u32 \<Rightarrow> int" where
  "axis_speed_per_second x y elapsed_ms =
     (if elapsed_ms = 0 then 0
      else
        let magnitude_total = zpt_fixed_saturating_add_u64 (zpt_fixed_magnitude x) (zpt_fixed_magnitude y)
        in if magnitude_total > INT64_MAX div 1000 then INT64_MAX
           else i64 (u64 (magnitude_total * 1000) div uint elapsed_ms))"

definition axis_intent_stage_activate ::
  "(zpt_axis_intent_stage_config, zpt_axis_intent_stage_state) zpt_stage_activate" where
  "axis_intent_stage_activate config st reason =
     (case (config, st) of
        (Some c, Some _) \<Rightarrow> (zpt_axis_intent_validate (ai_settings c), st)
      | _ \<Rightarrow> (- EINVAL, st))"

definition axis_intent_stage_reset ::
  "(zpt_axis_intent_stage_config, zpt_axis_intent_stage_state) zpt_stage_reset" where
  "axis_intent_stage_reset config st reason =
     map_option (\<lambda>state. state\<lparr>estimator := zpt_axis_intent_reset, ai_have_last_frame := False,
       last_notified_intent := 255\<rparr>) st"

text \<open>The estimator reset of a stale or suppressed stage, with the notification it makes.\<close>

definition reset_estimator_if_stale ::
  "bool \<Rightarrow> bool \<Rightarrow> u16 \<Rightarrow> u32 \<Rightarrow> zpt_axis_intent_stage_state \<Rightarrow>
   (zpt_stage_event \<times> int) list \<times> zpt_axis_intent_stage_state" where
  "reset_estimator_if_stale suppressed have_last_frame idle_timeout_ms elapsed state =
     (if suppressed \<or> \<not> have_last_frame \<or> (idle_timeout_ms \<noteq> 0 \<and> elapsed \<ge> ucast idle_timeout_ms) then
        (if \<not> suppressed \<and> last_notified_intent state \<noteq> AXIS_UNDECIDED
         then [(EVENT_INTENT_CHANGED, 0)] else [],
         state\<lparr>estimator := zpt_axis_intent_reset, last_notified_intent := AXIS_UNDECIDED\<rparr>)
      else ([], state))"

definition axis_intent_stage_process ::
  "(zpt_axis_intent_stage_config, zpt_axis_intent_stage_state) zpt_stage_process" where
  "axis_intent_stage_process config st now s =
     (case (config, st) of
        (Some c, Some state) \<Rightarrow>
          let elapsed = (if ai_have_last_frame state then now - ai_last_frame_ms state else 0);
              suppressed = suppression_active (ai_suppression c) s now;
              (notes, state) = reset_estimator_if_stale suppressed (ai_have_last_frame state)
                (ai_idle_timeout_ms c) elapsed state;
              state = state\<lparr>ai_last_frame_ms := now, ai_have_last_frame := True\<rparr>
          in if suppressed then
               notify_all (notes @ [(EVENT_SUPPRESSED, 0)])
                 (emit_return (s\<lparr>data := FixedVector 0 0\<rparr>) (Some state))
             else
               let (x, y) = fixed_vector s;
                   (i, est) = zpt_axis_intent_estimate (ai_settings c) (ai_policy c) x y elapsed
                     (estimator state);
                   out = s\<lparr>annotations := (annotations s)\<lparr>
                     axis_intent := intent_code i,
                     axis_confidence_percent :=
                       (if ai_policy c = POLICY_ADAPTIVE then zpt_axis_intent_confidence est else 100),
                     speed_per_second := axis_speed_per_second x y elapsed\<rparr>\<rparr>;
                   changed = (last_notified_intent state \<noteq> intent_code i);
                   state = state\<lparr>estimator := est,
                     last_notified_intent := (if changed then intent_code i else last_notified_intent state)\<rparr>
               in notify_all
                    (notes @ (if changed then [(EVENT_INTENT_CHANGED, uint (intent_code i))] else []))
                    (emit_return out (Some state))
      | _ \<Rightarrow> Return (- EINVAL) st)"

definition zpt_axis_intent_stage_api ::
  "(zpt_axis_intent_stage_config, zpt_axis_intent_stage_state) zpt_stage_api" where
  "zpt_axis_intent_stage_api = \<lparr>strategy_id = Some ''axis-intent'',
     accepted_kinds = ZPT_SIGNAL_KIND_MASK SIGNAL_NORMALIZED_MOTION,
     output_kind = SIGNAL_NORMALIZED_MOTION,
     api_flags = STAGE_STATEFUL, api_process = Some axis_intent_stage_process,
     api_flush = None, api_activate = Some axis_intent_stage_activate,
     api_deactivate = None, api_reset = Some axis_intent_stage_reset\<rparr>"

section \<open>Decay\<close>

lemma decay_cases:
  assumes "0 \<le> e"
  shows "decay e elapsed window =
    (if elapsed \<ge> window then 0
     else if e * uint (window - elapsed) > UINT64_MAX then UINT64_MAX
     else e * uint (window - elapsed) div uint window)"
proof (cases "elapsed \<ge> window")
  case True
  then show ?thesis by (simp add: decay_def)
next
  case False
  then have "0 < uint (window - elapsed)" by (auto simp: uint_pos_iff)
  then have test: "(e > UINT64_MAX div uint (window - elapsed)) = (e * uint (window - elapsed) > UINT64_MAX)"
    by (rule div_less_iff_less_mult')
  have "window \<noteq> 0" using False by auto
  moreover have "0 \<le> e * uint (window - elapsed)" using assms by simp
  ultimately show ?thesis using False test by (auto simp: decay_def in_u64_def)
qed

lemma decay_in_u64:
  assumes "in_u64 e"
  shows "in_u64 (decay e elapsed window)"
proof -
  have e: "0 \<le> e" using assms by (simp add: in_u64_def)
  have "in_u64 (v div uint window)" if "0 \<le> v" "v \<le> UINT64_MAX" for v
  proof (cases "window = 0")
    case False
    then have "0 < uint window" by (simp add: uint_pos_iff)
    then show ?thesis
      using that zdiv_mono2 [of v 1 "uint window"] by (simp add: in_u64_def pos_imp_zdiv_nonneg_iff)
  qed simp
  then show ?thesis using e by (auto simp: decay_cases)
qed

lemma magnitude_in_u64: "in_i64 x \<Longrightarrow> in_u64 (zpt_fixed_magnitude x)"
  by (auto simp: magnitude_abs in_range_defs)

section \<open>The hysteresis machine\<close>

text \<open>The estimator in exact arithmetic: linearly decayed energy, then engage and release ratios.\<close>

definition decayed :: "int \<Rightarrow> u32 \<Rightarrow> u16 \<Rightarrow> int" where
  "decayed e elapsed window =
     (if uint window \<le> uint elapsed then 0 else e * (uint window - uint elapsed) div uint window)"

definition next_intent :: "zpt_axis_intent_settings \<Rightarrow> int \<Rightarrow> int \<Rightarrow> zpt_axis_intent \<Rightarrow> zpt_axis_intent" where
  "next_intent settings h v old =
     (let engage = uint (engage_ratio_percent settings);
          release = uint (release_ratio_percent settings);
          fresh = (if h * 100 \<ge> v * engage then INTENT_HORIZONTAL
                   else if v * 100 \<ge> h * engage then INTENT_VERTICAL else INTENT_FREE)
      in if h + v < ai_activation_distance settings then old
         else case old of
           INTENT_HORIZONTAL \<Rightarrow>
             if h * 100 \<ge> v * release then INTENT_HORIZONTAL
             else if v * 100 \<ge> h * engage then INTENT_VERTICAL else INTENT_FREE
         | INTENT_VERTICAL \<Rightarrow>
             if v * 100 \<ge> h * release then INTENT_VERTICAL
             else if h * 100 \<ge> v * engage then INTENT_HORIZONTAL else INTENT_FREE
         | _ \<Rightarrow> fresh)"

lemma ucast_window: "uint (ucast (w :: u16) :: u32) = uint w"
  by (simp add: uint_up_ucast is_up)

lemma decay_exact:
  assumes "0 \<le> e" "e \<le> 281474976710656"
  shows "decay e elapsed (ucast window) = decayed e elapsed window \<and>
    0 \<le> decayed e elapsed window \<and> decayed e elapsed window \<le> e"
proof (cases "uint window \<le> uint elapsed")
  case True
  then show ?thesis using assms by (simp add: decay_cases decayed_def word_le_def ucast_window)
next
  case False
  obtain w where w: "uint window = w" by simp
  obtain d where d: "w - uint elapsed = d" by simp
  have sub: "uint (ucast window - elapsed) = d"
    using False d w uint_sub_lem [of elapsed "ucast window :: u32"] by (simp add: ucast_window)
  have range: "0 < d" "d \<le> w" "w \<le> 65535"
    using False d w uint_bounds(2) [of window] uint_bounds(3) [of elapsed] by auto
  have "e * d \<le> 281474976710656 * 65535" using assms range by (intro mult_mono) auto
  then have fits: "\<not> e * d > UINT64_MAX" by simp
  have "e * d \<le> e * w" using assms range by (intro mult_left_mono) auto
  then have "e * d div w \<le> e * w div w" using range by (intro zdiv_mono1) auto
  then have le: "e * d div w \<le> e" using range by simp
  have nonneg: "0 \<le> e * d div w" using assms range by (simp add: pos_imp_zdiv_nonneg_iff)
  show ?thesis
    using False assms fits le nonneg
    by (simp add: decay_cases decayed_def word_le_def ucast_window sub w d)
qed

lemma dominates_exact:
  assumes "0 \<le> minor" "minor \<le> 281474976710656"
  shows "zpt_fixed_ratio_dominates major minor r = (major * 100 \<ge> minor * uint r)"
proof -
  have "minor * uint r \<le> 281474976710656 * 65535"
    using assms uint_bounds(2) [of r] by (intro mult_mono) auto
  then show ?thesis using assms by (simp add: ratio_dominates_cases in_u64_def)
qed

text \<open>Property C28. In adaptive policy the estimator is exactly the hysteresis machine: while
  energies stay below 2^48, both energies are the linearly decayed old ones plus the frame's
  magnitude, and the intent follows the engage ratio when nothing is engaged, is kept while the
  engaged axis meets the release ratio, switches directly to the other axis when that one meets
  the engage ratio, and is untouched below the activation distance. No saturation or rounding of
  the 64-bit comparisons shows.\<close>

theorem estimator_is_the_hysteresis_machine:
  assumes "zpt_axis_intent_validate settings = 0" "in_i64 (ai_activation_distance settings)"
    and "0 \<le> horizontal_energy st" "horizontal_energy st \<le> 140737488355328" "\<bar>x\<bar> \<le> 140737488355328"
    and "0 \<le> vertical_energy st" "vertical_energy st \<le> 140737488355328" "\<bar>y\<bar> \<le> 140737488355328"
    and "zpt_axis_intent_estimate settings POLICY_ADAPTIVE x y elapsed st = (i, st')"
  shows "horizontal_energy st' = decayed (horizontal_energy st) elapsed (window_ms settings) + \<bar>x\<bar> \<and>
    vertical_energy st' = decayed (vertical_energy st) elapsed (window_ms settings) + \<bar>y\<bar> \<and>
    intent st' = i \<and> i = next_intent settings (horizontal_energy st') (vertical_energy st') (intent st)"
proof -
  let ?w = "window_ms settings"
  obtain h where h: "decayed (horizontal_energy st) elapsed ?w + \<bar>x\<bar> = h" by simp
  obtain v where v: "decayed (vertical_energy st) elapsed ?w + \<bar>y\<bar> = v" by simp
  note dh = decay_exact [of "horizontal_energy st" elapsed ?w]
    and dv = decay_exact [of "vertical_energy st" elapsed ?w]
  have hv: "0 \<le> h" "h \<le> 281474976710656" "0 \<le> v" "v \<le> 281474976710656"
    using assms(3-8) dh dv h v by auto
  have xy: "in_i64 x" "in_i64 y" using assms(5,8) unfolding in_i64_def by linarith+
  have eh: "zpt_fixed_saturating_add_u64 (decay (horizontal_energy st) elapsed (ucast ?w)) (zpt_fixed_magnitude x) = h"
    using assms(3-5) dh h hv xy by (simp add: magnitude_abs saturating_add_u64_min in_u64_def)
  have ev: "zpt_fixed_saturating_add_u64 (decay (vertical_energy st) elapsed (ucast ?w)) (zpt_fixed_magnitude y) = v"
    using assms(6-8) dv v hv xy by (simp add: magnitude_abs saturating_add_u64_min in_u64_def)
  have total: "zpt_fixed_saturating_add_u64 h v = h + v"
    using hv by (simp add: saturating_add_u64_min in_u64_def)
  have act: "u64 (ai_activation_distance settings) = ai_activation_distance settings"
    using assms(1,2) by (simp add: zpt_axis_intent_validate_def in_range_defs split: if_splits)
  have dom: "zpt_fixed_ratio_dominates h v r = (h * 100 \<ge> v * uint r)"
    "zpt_fixed_ratio_dominates v h r = (v * 100 \<ge> h * uint r)" for r
    using hv by (simp_all add: dominates_exact)
  show ?thesis
    using assms(9) unfolding h v
    by (auto simp: zpt_axis_intent_estimate_def assms(1) eh ev total act dom next_intent_def
        update_adaptive_intent_def Let_def split: zpt_axis_intent.splits if_splits)
qed

definition sample_intent :: zpt_axis_intent_settings where
  "sample_intent = \<lparr>engage_ratio_percent = 150, release_ratio_percent = 110, ai_activation_distance = 100,
     window_ms = 100\<rparr>"

lemma estimator_is_the_hysteresis_machine_witness:
  "zpt_axis_intent_estimate sample_intent 1 (- 10) 55 25
     \<lparr>horizontal_energy = 80, vertical_energy = 12, intent = INTENT_HORIZONTAL\<rparr> =
   (INTENT_FREE, \<lparr>horizontal_energy = 70, vertical_energy = 64, intent = INTENT_FREE\<rparr>)"
proof -
  let ?st = "\<lparr>horizontal_energy = 80, vertical_energy = 12, intent = INTENT_HORIZONTAL\<rparr>"
  obtain i st' where run: "zpt_axis_intent_estimate sample_intent 1 (- 10) 55 25 ?st = (i, st')"
    by (cases "zpt_axis_intent_estimate sample_intent 1 (- 10) 55 25 ?st")
  show ?thesis
    using estimator_is_the_hysteresis_machine [of sample_intent ?st "- 10" 55 25 i st'] run
    by (cases st') (simp add: sample_intent_def zpt_axis_intent_validate_def decayed_def next_intent_def)
qed

section \<open>What the stage emits\<close>

lemma confidence_bound:
  assumes "0 \<le> horizontal_energy st" "0 \<le> vertical_energy st"
    "in_u64 (horizontal_energy st)" "in_u64 (vertical_energy st)"
  shows "zpt_axis_intent_confidence st \<le> 100"
proof -
  have part: "(word_of_int (u64 (m * 100) div total) :: u16) \<le> 100"
    if "0 \<le> m" "m \<le> total" "\<not> m > UINT64_MAX div 100" "total \<noteq> 0" for m total
  proof -
    have "u64 (m * 100) = m * 100" using that by (intro u64_id) (simp add: in_u64_def)
    moreover have "m * 100 div total \<le> total * 100 div total"
      using that by (intro zdiv_mono1) auto
    then have "m * 100 div total \<le> 100" using that by simp
    moreover have "0 \<le> m * 100 div total" using that by (simp add: pos_imp_zdiv_nonneg_iff)
    ultimately show ?thesis by (simp add: word_le_def uint_word_of_int)
  qed
  have "horizontal_energy st \<le> zpt_fixed_saturating_add_u64 (horizontal_energy st) (vertical_energy st)"
    "vertical_energy st \<le> zpt_fixed_saturating_add_u64 (horizontal_energy st) (vertical_energy st)"
    using assms by (auto simp: saturating_add_u64_min in_u64_def)
  then show ?thesis
    using part assms by (auto simp: zpt_axis_intent_confidence_def Let_def)
qed

lemma axis_speed_range: "in_i64 (axis_speed_per_second x y e)"
  by (simp add: axis_speed_per_second_def Let_def)

definition energies_ok :: "zpt_axis_intent_state \<Rightarrow> bool" where
  "energies_ok st \<longleftrightarrow> in_u64 (horizontal_energy st) \<and> in_u64 (vertical_energy st)"

lemma estimate_energies:
  assumes "energies_ok st"
  shows "energies_ok (snd (zpt_axis_intent_estimate settings policy x y e st))"
  using assms by (simp add: zpt_axis_intent_estimate_def energies_ok_def Let_def saturating_add_u64_in_u64)

lemma reset_stale_energies:
  "energies_ok (estimator st) \<Longrightarrow> energies_ok (estimator (snd (reset_estimator_if_stale b h i e st)))"
  by (simp add: reset_estimator_if_stale_def energies_ok_def zpt_axis_intent_reset_def)

lemma intent_code_le: "intent_code i \<le> 3"
  by (cases i) simp_all

text \<open>The axis intent stage emits exactly one frame per frame, at once, and never
  alters motion that is not suppressed: it adds an intent of the enumeration, a confidence of at
  most 100 and a non-negative speed, and leaves vector and metadata alone. Under suppression the
  frame still goes out, with a zero vector, so downstream stages see the suppression without
  seeing the motion.\<close>

theorem axis_intent_stage_only_annotates:
  assumes "signal_ok s" "kind s = SIGNAL_NORMALIZED_MOTION" "energies_ok (estimator st)"
  shows "\<exists>st' out. stage_step zpt_axis_intent_stage_api (Some c) (Some st) (FrameIn now s) = (Some st', [out]) \<and>
    kind out = SIGNAL_NORMALIZED_MOTION \<and> metadata out = metadata s \<and> energies_ok (estimator st') \<and>
    (if suppression_active (ai_suppression c) s now
     then fixed_vector out = (0, 0) \<and> annotations out = annotations s
     else fixed_vector out = fixed_vector s \<and> axis_intent (annotations out) \<le> 3 \<and>
       axis_confidence_percent (annotations out) \<le> 100 \<and> 0 \<le> speed_per_second (annotations out))"
proof -
  obtain x y where d: "data s = FixedVector x y" "in_i64 x" "in_i64 y"
    using signal_ok_cases(2) [OF assms(1,2)] by blast
  let ?sup = "suppression_active (ai_suppression c) s now"
  let ?el = "if ai_have_last_frame st then now - ai_last_frame_ms st else 0"
  obtain events st1 where r: "reset_estimator_if_stale ?sup (ai_have_last_frame st) (ai_idle_timeout_ms c) ?el st = (events, st1)"
    by (cases "reset_estimator_if_stale ?sup (ai_have_last_frame st) (ai_idle_timeout_ms c) ?el st")
  have e1: "energies_ok (estimator st1)"
    using reset_stale_energies [OF assms(3), of ?sup "ai_have_last_frame st" "ai_idle_timeout_ms c" ?el] r by simp
  obtain i est where est: "zpt_axis_intent_estimate (ai_settings c) (ai_policy c) x y ?el (estimator st1) = (i, est)"
    by (cases "zpt_axis_intent_estimate (ai_settings c) (ai_policy c) x y ?el (estimator st1)")
  have e2: "energies_ok est" using estimate_energies [OF e1] est by (metis snd_conv)
  then have conf: "zpt_axis_intent_confidence est \<le> 100"
    by (intro confidence_bound) (simp_all add: energies_ok_def in_u64_def)
  have speed: "0 \<le> axis_speed_per_second x y ?el"
  proof -
    let ?m = "zpt_fixed_saturating_add_u64 (zpt_fixed_magnitude x) (zpt_fixed_magnitude y)"
    have m: "0 \<le> ?m" using saturating_add_u64_in_u64 [of "zpt_fixed_magnitude x" "zpt_fixed_magnitude y"]
      by (simp add: in_u64_def)
    have "0 \<le> i64 (u64 (?m * 1000) div uint e)" if "?m \<le> INT64_MAX div 1000" "e \<noteq> 0" for e :: u32
    proof -
      have "u64 (?m * 1000) = ?m * 1000" using m that by (intro u64_id) (simp add: in_u64_def)
      moreover have nonneg: "0 \<le> ?m * 1000 div uint e"
        using m that uint_pos_iff [of e] by (simp add: pos_imp_zdiv_nonneg_iff)
      moreover have "?m * 1000 div uint e \<le> ?m * 1000"
        using m that uint_pos_iff [of e] zdiv_mono2 [of "?m * 1000" 1 "uint e"] by simp
      then have "in_i64 (?m * 1000 div uint e)"
        using nonneg that(1) unfolding in_i64_def by linarith
      ultimately show ?thesis by simp
    qed
    then show ?thesis by (simp add: axis_speed_per_second_def Let_def not_less)
  qed
  show ?thesis
    using assms d r est e1 e2 conf speed intent_code_le
    by (simp add: zpt_axis_intent_stage_api_def axis_intent_stage_process_def Let_def)
qed

definition sample_intent_stage :: "bool \<Rightarrow> zpt_axis_intent_stage_config" where
  "sample_intent_stage suppress = \<lparr>ai_settings = sample_intent, ai_policy = 1, ai_idle_timeout_ms = 300,
     ai_suppression = Some \<lparr>policy_at = 0, is_suppressed = Some (\<lambda>s now. suppress),
       keypress_window_ms = 0, freezes = False, thaws = False\<rparr>\<rparr>"

definition idle_intent_stage :: zpt_axis_intent_stage_state where
  "idle_intent_stage = \<lparr>estimator = zpt_axis_intent_reset, ai_last_frame_ms = 0,
     ai_have_last_frame = False, last_notified_intent = 255\<rparr>"

lemma axis_intent_stage_only_annotates_witness:
  "let s = zero_signal\<lparr>kind := SIGNAL_NORMALIZED_MOTION, data := FixedVector 500 (- 2)\<rparr>;
       out = (\<lambda>b. snd (stage_step zpt_axis_intent_stage_api (Some (sample_intent_stage b))
         (Some idle_intent_stage) (FrameIn 9 s)))
   in map fixed_vector (out False) = [(500, - 2)] \<and> map fixed_vector (out True) = [(0, 0)]"
proof -
  let ?s = "zero_signal\<lparr>kind := SIGNAL_NORMALIZED_MOTION, data := FixedVector 500 (- 2)\<rparr>"
  have s: "signal_ok ?s" "kind ?s = SIGNAL_NORMALIZED_MOTION" "energies_ok (estimator idle_intent_stage)"
    by (simp_all add: signal_ok_def zero_signal_defs energies_ok_def idle_intent_stage_def zpt_axis_intent_reset_def)
  obtain st' out where "stage_step zpt_axis_intent_stage_api (Some (sample_intent_stage False))
      (Some idle_intent_stage) (FrameIn 9 ?s) = (Some st', [out])" "fixed_vector out = (500, - 2)"
    using axis_intent_stage_only_annotates [OF s, of "sample_intent_stage False" 9]
    by (auto simp: sample_intent_stage_def suppression_active_def simp del: stage_step.simps)
  moreover obtain st'' out' where "stage_step zpt_axis_intent_stage_api (Some (sample_intent_stage True))
      (Some idle_intent_stage) (FrameIn 9 ?s) = (Some st'', [out'])" "fixed_vector out' = (0, 0)"
    using axis_intent_stage_only_annotates [OF s, of "sample_intent_stage True" 9]
    by (auto simp: sample_intent_stage_def suppression_active_def simp del: stage_step.simps)
  ultimately show ?thesis by (simp del: stage_step.simps fixed_vector.simps)
qed

interpretation axis_intent: stage_contract zpt_axis_intent_stage_api "\<lambda>c. True"
    "\<lambda>c st. \<forall>s. st = Some s \<longrightarrow> energies_ok (estimator s)"
proof (unfold_locales, goal_cases)
  case (1 c st s f now)
  have k: "kind s = SIGNAL_NORMALIZED_MOTION"
    using 1(3) by (rule accepts_mask) (simp_all add: zpt_axis_intent_stage_api_def zpt_signal_kind_valid_def)
  then obtain x y where d: "data s = FixedVector x y" "in_i64 x" "in_i64 y"
    using signal_ok_cases(2) [OF 1(4)] by blast
  have f: "f = axis_intent_stage_process" using 1(5) by (simp add: zpt_axis_intent_stage_api_def)
  show ?case
    using 1(2,4) d k reset_stale_energies estimate_energies axis_speed_range
    by (auto simp: f axis_intent_stage_process_def zpt_axis_intent_stage_api_def case_prod_unfold
        signal_ok_def Let_def split: option.split)
next
  case (3 c st h reason)
  then show ?case
    by (auto simp: zpt_axis_intent_stage_api_def axis_intent_stage_reset_def energies_ok_def
        zpt_axis_intent_reset_def)
qed (simp_all add: zpt_axis_intent_stage_api_def)

end
