(* ===== verification/Axis_Constraint.thy ===== *)
theory Axis_Constraint
  imports Suppression
begin

text \<open>
  The axis constraint stage (\<open>stage/axis_constraint.h\<close>, \<open>stage/axis_constraint/axis_constraint.c\<close>):
  motion the upstream estimator calls horizontal or vertical loses its other axis; undecided
  motion is buffered until an intent engages or a flush releases or drops it.
\<close>

record zpt_axis_constraint_config =
  discard_unclassified :: bool
  ac_idle_timeout_ms :: u16
  fold_interval_ms :: u16
  ac_suppression :: "zpt_suppression_policy option"

record zpt_axis_constraint_state =
  undecided_x :: int
  undecided_y :: int
  previous_intent :: u8
  ac_last_frame_ms :: u32
  ac_have_last_frame :: bool
  have_undecided :: bool

definition clear_undecided :: "zpt_axis_constraint_state \<Rightarrow> zpt_axis_constraint_state" where
  "clear_undecided state = state\<lparr>undecided_x := 0, undecided_y := 0, have_undecided := False\<rparr>"

definition axis_constraint_stage_activate ::
  "(zpt_axis_constraint_config, zpt_axis_constraint_state) zpt_stage_activate" where
  "axis_constraint_stage_activate config st reason =
     (if config = None \<or> st = None then - EINVAL else 0, st)"

definition axis_constraint_stage_reset ::
  "(zpt_axis_constraint_config, zpt_axis_constraint_state) zpt_stage_reset" where
  "axis_constraint_stage_reset config st reason =
     map_option (\<lambda>state. (clear_undecided state)\<lparr>previous_intent := AXIS_UNDECIDED, ac_have_last_frame := False\<rparr>) st"

text \<open>Keep the expiry of buffered motion scheduled, then go on.\<close>

definition schedule_undecided_expiry :: "zpt_axis_constraint_state \<Rightarrow> zpt_axis_constraint_config \<Rightarrow> u32 \<Rightarrow>
    zpt_axis_constraint_state stage_prog \<Rightarrow> zpt_axis_constraint_state stage_prog" where
  "schedule_undecided_expiry state config now k =
     (let interval = (if fold_interval_ms config \<noteq> 0 then ucast (fold_interval_ms config) else ucast (ac_idle_timeout_ms config))
      in if interval = 0 then k
         else if have_undecided state then ScheduleFlush (now + interval) (\<lambda>ret. k)
         else CancelFlush k)"

definition zeroed_frame :: "zpt_signal \<Rightarrow> zpt_signal" where
  "zeroed_frame s = s\<lparr>data := FixedVector 0 0\<rparr>"

text \<open>Fold buffered motion into an output: the vector, the state left, and whether it was folded.\<close>

definition fold_undecided_motion :: "zpt_axis_constraint_state \<Rightarrow> u8 \<Rightarrow> int \<times> int \<Rightarrow>
    (int \<times> int) \<times> zpt_axis_constraint_state \<times> bool" where
  "fold_undecided_motion state intended out =
     (if previous_intent state \<noteq> AXIS_UNDECIDED \<or> \<not> have_undecided state then (out, state, False)
      else ((if intended \<noteq> AXIS_VERTICAL then zpt_fixed_saturating_add (fst out) (undecided_x state) else fst out,
             if intended \<noteq> AXIS_HORIZONTAL then zpt_fixed_saturating_add (snd out) (undecided_y state) else snd out),
            clear_undecided state, True))"

definition axis_constraint_stage_process ::
  "(zpt_axis_constraint_config, zpt_axis_constraint_state) zpt_stage_process" where
  "axis_constraint_stage_process config st now s =
     (case (config, st) of
        (Some c, Some state) \<Rightarrow>
          if kind s \<noteq> SIGNAL_NORMALIZED_MOTION then Return (- EINVAL) st
          else if suppression_active (ac_suppression c) s now then
            Notify EVENT_SUPPRESSED 0 (emit_return (zeroed_frame s) (Some (clear_undecided state)))
          else
            let elapsed = (if ac_have_last_frame state then now - ac_last_frame_ms state else 0);
                (x, y) = fixed_vector s;
                intended = axis_intent (annotations s);
                state = (if \<not> ac_have_last_frame state \<or>
                            ac_idle_timeout_ms c \<noteq> 0 \<and> elapsed \<ge> ucast (ac_idle_timeout_ms c)
                         then (clear_undecided state)\<lparr>previous_intent := AXIS_UNDECIDED\<rparr> else state);
                state = state\<lparr>ac_last_frame_ms := now, ac_have_last_frame := True\<rparr>
            in if intended = AXIS_UNDECIDED then
                 let state = state\<lparr>undecided_x := zpt_fixed_saturating_add (undecided_x state) x,
                       undecided_y := zpt_fixed_saturating_add (undecided_y state) y, have_undecided := True\<rparr>
                 in schedule_undecided_expiry state c now (emit_return (zeroed_frame s) (Some state))
               else
                 let ((out_x, out_y), state, folded) = fold_undecided_motion state intended (0, 0);
                     out_x = (if intended \<noteq> AXIS_VERTICAL then zpt_fixed_saturating_add out_x x else out_x);
                     out_y = (if intended \<noteq> AXIS_HORIZONTAL then zpt_fixed_saturating_add out_y y else out_y);
                     done = emit_return (s\<lparr>data := FixedVector out_x out_y\<rparr>) (Some (state\<lparr>previous_intent := intended\<rparr>))
                 in if folded then schedule_undecided_expiry state c now done else done
      | _ \<Rightarrow> Return (- EINVAL) st)"

definition axis_constraint_stage_flush ::
  "(zpt_axis_constraint_config, zpt_axis_constraint_state) zpt_stage_flush" where
  "axis_constraint_stage_flush config st deadline now =
     (case (config, st) of
        (Some c, Some state) \<Rightarrow>
          if \<not> have_undecided state then Return 0 st
          else if \<not> discard_unclassified c then
            Notify EVENT_FLUSHED
              (i64 ((if undecided_x state > 0 then undecided_x state else i64 (- undecided_x state)) +
                    (if undecided_y state > 0 then undecided_y state else i64 (- undecided_y state))))
              (emit_return
                (zero_signal\<lparr>kind := SIGNAL_NORMALIZED_MOTION, metadata := zero_metadata\<lparr>observed_at_ms := deadline\<rparr>,
                   data := FixedVector (undecided_x state) (undecided_y state)\<rparr>)
                (Some (clear_undecided state)))
          else Notify EVENT_DISCARDED 0 (Return 0 (Some (clear_undecided state)))
      | _ \<Rightarrow> Return (- EINVAL) st)"

definition zpt_axis_constraint_stage_api ::
  "(zpt_axis_constraint_config, zpt_axis_constraint_state) zpt_stage_api" where
  "zpt_axis_constraint_stage_api = \<lparr>strategy_id = Some ''axis-constraint'',
     accepted_kinds = ZPT_SIGNAL_KIND_MASK SIGNAL_NORMALIZED_MOTION, output_kind = SIGNAL_NORMALIZED_MOTION,
     api_flags = STAGE_STATEFUL, api_process = Some axis_constraint_stage_process,
     api_flush = Some axis_constraint_stage_flush, api_activate = Some axis_constraint_stage_activate,
     api_deactivate = None, api_reset = Some axis_constraint_stage_reset\<rparr>"

lemma run_schedule_expiry [simp]:
  "res_state (run_call (schedule_undecided_expiry st c now (emit_return s x)) dl) = x"
  "res_out (run_call (schedule_undecided_expiry st c now (emit_return s x)) dl) = [s]"
  by (simp_all add: schedule_undecided_expiry_def Let_def)

lemma prog_ok_schedule_expiry [simp]:
  "prog_ok K I (schedule_undecided_expiry st c now k) = prog_ok K I k"
  "tail_emit K (schedule_undecided_expiry st c now k) = tail_emit K k"
  by (simp_all add: schedule_undecided_expiry_def Let_def)

lemma clear_undecided_simps [simp]:
  "undecided_x (clear_undecided st) = 0" "undecided_y (clear_undecided st) = 0"
  "\<not> have_undecided (clear_undecided st)" "previous_intent (clear_undecided st) = previous_intent st"
  "ac_last_frame_ms (clear_undecided st) = ac_last_frame_ms st"
  "ac_have_last_frame (clear_undecided st) = ac_have_last_frame st"
  by (simp_all add: clear_undecided_def)

section \<open>One frame\<close>

text \<open>A frame within the idle gap of the one before.\<close>

definition fresh :: "zpt_axis_constraint_config \<Rightarrow> u32 option \<Rightarrow> u32 \<Rightarrow> bool" where
  "fresh c before now \<longleftrightarrow> (case before of None \<Rightarrow> True
     | Some l \<Rightarrow> ac_idle_timeout_ms c = 0 \<or> now - l < ucast (ac_idle_timeout_ms c))"

text \<open>What is buffered is nothing unless something was; before the first frame nothing is.\<close>

definition constraint_inv :: "zpt_axis_constraint_state \<Rightarrow> u32 option \<Rightarrow> bool" where
  "constraint_inv st before \<longleftrightarrow>
     before = (if ac_have_last_frame st then Some (ac_last_frame_ms st) else None) \<and>
     (have_undecided st \<or> undecided_x st = 0 \<and> undecided_y st = 0) \<and>
     (ac_have_last_frame st \<or> \<not> have_undecided st)"

definition frame_x :: "zpt_signal \<Rightarrow> int" where "frame_x s = fst (fixed_vector s)"
definition frame_y :: "zpt_signal \<Rightarrow> int" where "frame_y s = snd (fixed_vector s)"

lemma room:
  assumes "\<bar>u\<bar> + \<bar>v\<bar> \<le> INT64_MAX"
  shows "zpt_fixed_saturating_add u v = u + v" "zpt_fixed_saturating_add 0 u = u" "zpt_fixed_saturating_add 0 v = v"
    "zpt_fixed_saturating_add (zpt_fixed_saturating_add 0 u) v = u + v"
proof -
  have r: "in_i64 u" "in_i64 v" "in_i64 (u + v)" using assms unfolding in_i64_def by linarith+
  then show "zpt_fixed_saturating_add u v = u + v" "zpt_fixed_saturating_add 0 u = u" "zpt_fixed_saturating_add 0 v = v"
    by (simp_all add: fixed_add.add_exact)
  with r show "zpt_fixed_saturating_add (zpt_fixed_saturating_add 0 u) v = u + v" by (simp add: fixed_add.add_exact)
qed

lemma constraint_frame:
  assumes "ac_suppression c = None" "constraint_inv st before" "fresh c before now"
    and "kind s = SIGNAL_NORMALIZED_MOTION" "fixed_vector s = (x, y)"
    and "\<bar>undecided_x st\<bar> + \<bar>x\<bar> \<le> INT64_MAX" "\<bar>undecided_y st\<bar> + \<bar>y\<bar> \<le> INT64_MAX"
  shows "\<exists>st' out. let r = run_call (axis_constraint_stage_process (Some c) (Some st) now s) dl in
    res_state r = Some st' \<and> res_out r = [out] \<and> constraint_inv st' (Some now) \<and>
    \<bar>undecided_x st'\<bar> \<le> \<bar>undecided_x st\<bar> + \<bar>x\<bar> \<and> \<bar>undecided_y st'\<bar> \<le> \<bar>undecided_y st\<bar> + \<bar>y\<bar> \<and>
    (axis_intent (annotations s) \<noteq> AXIS_VERTICAL \<longrightarrow> fst (fixed_vector out) + undecided_x st' = undecided_x st + x) \<and>
    (axis_intent (annotations s) \<noteq> AXIS_HORIZONTAL \<longrightarrow> snd (fixed_vector out) + undecided_y st' = undecided_y st + y)"
proof -
  define i where "i = axis_intent (annotations s)"
  note rx = room [OF assms(6)] and ry = room [OF assms(7)]
  have stale: "\<not> (ac_have_last_frame st \<and> ac_idle_timeout_ms c \<noteq> 0 \<and>
      ucast (ac_idle_timeout_ms c) \<le> now - ac_last_frame_ms st)"
    using assms(2,3) by (auto simp: fresh_def constraint_inv_def)
  consider "i = AXIS_UNDECIDED" | "i \<noteq> AXIS_UNDECIDED" by blast
  then show ?thesis
  proof cases
    case 1
    then show ?thesis
      using assms(1-5) stale rx ry
      by (auto simp: axis_constraint_stage_process_def Let_def i_def constraint_inv_def zeroed_frame_def)
  next
    case 2
    then show ?thesis
      using assms(1-5) stale rx ry
      by (auto simp: axis_constraint_stage_process_def fold_undecided_motion_def Let_def i_def constraint_inv_def)
  qed
qed

section \<open>Any schedule\<close>

fun constraint_x :: "drive_input \<Rightarrow> int" where
  "constraint_x (FrameAt now s) = fst (fixed_vector s)"
| "constraint_x (TickAt now) = 0"

fun constraint_y :: "drive_input \<Rightarrow> int" where
  "constraint_y (FrameAt now s) = snd (fixed_vector s)"
| "constraint_y (TickAt now) = 0"

fun normalized :: "drive_input \<Rightarrow> bool" where
  "normalized (FrameAt now s) = (kind s = SIGNAL_NORMALIZED_MOTION)"
| "normalized (TickAt now) = True"

fun intended :: "u8 \<Rightarrow> drive_input \<Rightarrow> bool" where
  "intended i (FrameAt now s) = (axis_intent (annotations s) = i)"
| "intended i (TickAt now) = False"

text \<open>No frame comes after an idle gap.\<close>

fun gapless :: "zpt_axis_constraint_config \<Rightarrow> u32 option \<Rightarrow> drive_input list \<Rightarrow> bool" where
  "gapless c before [] = True"
| "gapless c before (FrameAt now s # is) = (fresh c before now \<and> gapless c (Some now) is)"
| "gapless c before (TickAt now # is) = gapless c before is"

lemma constraint_tick:
  assumes "\<not> discard_unclassified c" "constraint_inv st before"
  shows "\<exists>st' dl' outs. drive_step zpt_axis_constraint_stage_api (Some c) (Some st, dl) (TickAt now) =
      ((Some st', dl'), outs) \<and> constraint_inv st' before \<and>
    (\<Sum>s\<leftarrow>outs. fst (fixed_vector s)) + undecided_x st' = undecided_x st \<and>
    (\<Sum>s\<leftarrow>outs. snd (fixed_vector s)) + undecided_y st' = undecided_y st \<and>
    \<bar>undecided_x st'\<bar> \<le> \<bar>undecided_x st\<bar> \<and> \<bar>undecided_y st'\<bar> \<le> \<bar>undecided_y st\<bar>"
  using assms
  by (cases dl)
    (auto simp: zpt_axis_constraint_stage_api_def axis_constraint_stage_flush_def constraint_inv_def Let_def)

lemma constraint_step:
  assumes "ac_suppression c = None" "\<not> discard_unclassified c" "constraint_inv st before" "normalized i"
    and "gapless c before (i # is)"
    and "\<bar>undecided_x st\<bar> + \<bar>constraint_x i\<bar> \<le> INT64_MAX" "\<bar>undecided_y st\<bar> + \<bar>constraint_y i\<bar> \<le> INT64_MAX"
  obtains st' dl' outs before' where
    "drive_step zpt_axis_constraint_stage_api (Some c) (Some st, dl) i = ((Some st', dl'), outs)"
    "constraint_inv st' before'" "gapless c before' is"
    "\<bar>undecided_x st'\<bar> \<le> \<bar>undecided_x st\<bar> + \<bar>constraint_x i\<bar>"
    "\<bar>undecided_y st'\<bar> \<le> \<bar>undecided_y st\<bar> + \<bar>constraint_y i\<bar>"
    "\<not> intended AXIS_VERTICAL i \<Longrightarrow>
       (\<Sum>s\<leftarrow>outs. fst (fixed_vector s)) + undecided_x st' = undecided_x st + constraint_x i"
    "\<not> intended AXIS_HORIZONTAL i \<Longrightarrow>
       (\<Sum>s\<leftarrow>outs. snd (fixed_vector s)) + undecided_y st' = undecided_y st + constraint_y i"
proof (cases i)
  case (FrameAt now s)
  obtain x y where xy: "fixed_vector s = (x, y)" by (cases "fixed_vector s")
  have "\<bar>undecided_x st\<bar> + \<bar>x\<bar> \<le> INT64_MAX" "\<bar>undecided_y st\<bar> + \<bar>y\<bar> \<le> INT64_MAX"
    "fresh c before now" "kind s = SIGNAL_NORMALIZED_MOTION"
    using assms(4-7) FrameAt xy by simp_all
  note f = constraint_frame [OF assms(1,3) this(3,4) xy this(1,2), of dl]
  then obtain st' out where r: "let r = run_call (axis_constraint_stage_process (Some c) (Some st) now s) dl in
      res_state r = Some st' \<and> res_out r = [out] \<and> constraint_inv st' (Some now) \<and>
      \<bar>undecided_x st'\<bar> \<le> \<bar>undecided_x st\<bar> + \<bar>x\<bar> \<and> \<bar>undecided_y st'\<bar> \<le> \<bar>undecided_y st\<bar> + \<bar>y\<bar> \<and>
      (axis_intent (annotations s) \<noteq> AXIS_VERTICAL \<longrightarrow> fst (fixed_vector out) + undecided_x st' = undecided_x st + x) \<and>
      (axis_intent (annotations s) \<noteq> AXIS_HORIZONTAL \<longrightarrow> snd (fixed_vector out) + undecided_y st' = undecided_y st + y)"
    by blast
  show thesis
    by (rule that [of st' "res_deadline (run_call (axis_constraint_stage_process (Some c) (Some st) now s) dl)" "[out]" "Some now"])
      (use r assms(5) FrameAt xy in \<open>simp_all add: zpt_axis_constraint_stage_api_def Let_def\<close>)
next
  case (TickAt now)
  from constraint_tick [OF assms(2,3), of dl now] obtain st' dl' outs where
    "drive_step zpt_axis_constraint_stage_api (Some c) (Some st, dl) (TickAt now) = ((Some st', dl'), outs)"
    "constraint_inv st' before" "\<bar>undecided_x st'\<bar> \<le> \<bar>undecided_x st\<bar>" "\<bar>undecided_y st'\<bar> \<le> \<bar>undecided_y st\<bar>"
    "(\<Sum>s\<leftarrow>outs. fst (fixed_vector s)) + undecided_x st' = undecided_x st"
    "(\<Sum>s\<leftarrow>outs. snd (fixed_vector s)) + undecided_y st' = undecided_y st"
    by blast
  then show thesis using assms(5) TickAt by (intro that [of st' dl' outs before]) simp_all
qed

lemma constraint_drive:
  assumes "ac_suppression c = None" "\<not> discard_unclassified c"
  shows "constraint_inv st before \<Longrightarrow> gapless c before is \<Longrightarrow> \<forall>i \<in> set is. normalized i \<Longrightarrow>
    \<bar>undecided_x st\<bar> + (\<Sum>i\<leftarrow>is. \<bar>constraint_x i\<bar>) \<le> INT64_MAX \<Longrightarrow>
    \<bar>undecided_y st\<bar> + (\<Sum>i\<leftarrow>is. \<bar>constraint_y i\<bar>) \<le> INT64_MAX \<Longrightarrow>
    drive zpt_axis_constraint_stage_api (Some c) (Some st, dl) is = ((Some st', dl'), outs) \<Longrightarrow>
    ((\<forall>i \<in> set is. \<not> intended AXIS_VERTICAL i) \<longrightarrow>
       (\<Sum>s\<leftarrow>outs. fst (fixed_vector s)) + undecided_x st' = undecided_x st + (\<Sum>i\<leftarrow>is. constraint_x i)) \<and>
    ((\<forall>i \<in> set is. \<not> intended AXIS_HORIZONTAL i) \<longrightarrow>
       (\<Sum>s\<leftarrow>outs. snd (fixed_vector s)) + undecided_y st' = undecided_y st + (\<Sum>i\<leftarrow>is. constraint_y i))"
proof (induction "is" arbitrary: st dl before outs)
  case Nil
  then show ?case by simp
next
  case (Cons i "is")
  have nonneg: "0 \<le> (\<Sum>i\<leftarrow>is. \<bar>constraint_x i\<bar>)" "0 \<le> (\<Sum>i\<leftarrow>is. \<bar>constraint_y i\<bar>)" by (rule sum_list_nonneg; auto)+
  obtain st1 dl1 outs1 before1 where
    s: "drive_step zpt_axis_constraint_stage_api (Some c) (Some st, dl) i = ((Some st1, dl1), outs1)"
    and inv: "constraint_inv st1 before1" "gapless c before1 is"
    and b: "\<bar>undecided_x st1\<bar> \<le> \<bar>undecided_x st\<bar> + \<bar>constraint_x i\<bar>"
      "\<bar>undecided_y st1\<bar> \<le> \<bar>undecided_y st\<bar> + \<bar>constraint_y i\<bar>"
    and x: "\<not> intended AXIS_VERTICAL i \<Longrightarrow>
       (\<Sum>s\<leftarrow>outs1. fst (fixed_vector s)) + undecided_x st1 = undecided_x st + constraint_x i"
    and y: "\<not> intended AXIS_HORIZONTAL i \<Longrightarrow>
       (\<Sum>s\<leftarrow>outs1. snd (fixed_vector s)) + undecided_y st1 = undecided_y st + constraint_y i"
    using Cons.prems nonneg
    by (elim constraint_step [OF assms, of st before i "is" dl, rotated -1]) (simp_all del: drive_step.simps)
  obtain d2 outs2 where r: "drive zpt_axis_constraint_stage_api (Some c) (Some st1, dl1) is = (d2, outs2)"
    by (cases "drive zpt_axis_constraint_stage_api (Some c) (Some st1, dl1) is")
  have d2: "d2 = (Some st', dl')" "outs = outs1 @ outs2" using Cons.prems(6) s r by (simp_all del: drive_step.simps)
  have "\<bar>undecided_x st1\<bar> + (\<Sum>i\<leftarrow>is. \<bar>constraint_x i\<bar>) \<le> INT64_MAX"
    "\<bar>undecided_y st1\<bar> + (\<Sum>i\<leftarrow>is. \<bar>constraint_y i\<bar>) \<le> INT64_MAX"
    using Cons.prems(4,5) b by simp_all
  from Cons.IH [OF inv _ this r [unfolded d2(1)]] Cons.prems(3) x y show ?case
    by (auto simp: d2(2))
qed

definition constraint_start :: "zpt_axis_constraint_state \<Rightarrow> zpt_axis_constraint_state" where
  "constraint_start any = the (axis_constraint_stage_reset None (Some any) RESET_PIPELINE_ENTERED)"

text \<open>Whatever the configuration, an output labelled with an axis carries no motion on the other one, and
  as many outputs as frames are labelled with either axis.\<close>

definition keeps_to_its_axis :: "zpt_signal \<Rightarrow> bool" where
  "keeps_to_its_axis s \<longleftrightarrow>
     (axis_intent (annotations s) = AXIS_VERTICAL \<longrightarrow> fst (fixed_vector s) = 0) \<and>
     (axis_intent (annotations s) = AXIS_HORIZONTAL \<longrightarrow> snd (fixed_vector s) = 0)"

definition labelled :: "u8 \<Rightarrow> zpt_signal \<Rightarrow> bool" where
  "labelled a s \<longleftrightarrow> axis_intent (annotations s) = a"

lemma constraint_axis_step:
  assumes "normalized i" "a = AXIS_VERTICAL \<or> a = AXIS_HORIZONTAL"
    and "drive_step zpt_axis_constraint_stage_api (Some c) (Some st, dl) i = ((Some st', dl'), outs)"
  shows "(\<forall>s \<in> set outs. keeps_to_its_axis s) \<and>
    length [s \<leftarrow> outs. labelled a s] = (if intended a i then 1 else 0)"
proof (cases i)
  case (FrameAt now s)
  obtain x y where xy: "fixed_vector s = (x, y)" by (cases "fixed_vector s")
  show ?thesis
    using assms FrameAt xy
    by (auto simp: zpt_axis_constraint_stage_api_def axis_constraint_stage_process_def fold_undecided_motion_def Let_def
        keeps_to_its_axis_def labelled_def zeroed_frame_def split: if_splits)
next
  case (TickAt now)
  then show ?thesis
    using assms
    by (cases dl) (auto simp: zpt_axis_constraint_stage_api_def axis_constraint_stage_flush_def Let_def
        keeps_to_its_axis_def labelled_def zero_signal_defs split: if_splits)
qed

lemma constraint_keeps_a_state:
  assumes "normalized i"
  obtains st' dl' outs where
    "drive_step zpt_axis_constraint_stage_api (Some c) (Some st, dl) i = ((Some st', dl'), outs)"
proof (cases i)
  case (FrameAt now s)
  obtain x y where xy: "fixed_vector s = (x, y)" by (cases "fixed_vector s")
  have "\<exists>st'. res_state (run_call (axis_constraint_stage_process (Some c) (Some st) now s) dl) = Some st'"
    using assms FrameAt xy
    by (auto simp: axis_constraint_stage_process_def fold_undecided_motion_def Let_def)
  then show thesis using that FrameAt by (auto simp: zpt_axis_constraint_stage_api_def Let_def)
next
  case (TickAt now)
  have "\<exists>st' dl' outs. drive_step zpt_axis_constraint_stage_api (Some c) (Some st, dl) i = ((Some st', dl'), outs)"
    using TickAt by (cases dl) (auto simp: zpt_axis_constraint_stage_api_def axis_constraint_stage_flush_def Let_def)
  with that show thesis by blast
qed

lemma constraint_axes:
  assumes "a = AXIS_VERTICAL \<or> a = AXIS_HORIZONTAL"
  shows "\<forall>i \<in> set is. normalized i \<Longrightarrow>
    drive zpt_axis_constraint_stage_api (Some c) (Some st, dl) is = ((st', dl'), outs) \<Longrightarrow>
    (\<forall>s \<in> set outs. keeps_to_its_axis s) \<and>
    length [s \<leftarrow> outs. labelled a s] = length [i \<leftarrow> is. intended a i]"
proof (induction "is" arbitrary: st dl outs)
  case Nil
  then show ?case by simp
next
  case (Cons i "is")
  from Cons.prems(1) have n: "normalized i" by simp
  obtain st1 dl1 outs1 where
    s: "drive_step zpt_axis_constraint_stage_api (Some c) (Some st, dl) i = ((Some st1, dl1), outs1)"
    by (rule constraint_keeps_a_state [OF n])
  obtain d2 outs2 where r: "drive zpt_axis_constraint_stage_api (Some c) (Some st1, dl1) is = (d2, outs2)"
    by (cases "drive zpt_axis_constraint_stage_api (Some c) (Some st1, dl1) is")
  have d2: "d2 = (st', dl')" "outs = outs1 @ outs2" using Cons.prems(2) s r by (simp_all del: drive_step.simps)
  show ?case
    using Cons.IH [OF _ r [unfolded d2(1)]] constraint_axis_step [OF n assms s] Cons.prems(1)
    by (auto simp: d2(2))
qed

text \<open>Property C11. The constraint removes the motion it is told to and no other. Over any schedule of
  normalized frames and flushes after a reset, whatever the configuration: an output labelled vertical
  carries no horizontal motion and one labelled horizontal no vertical motion, and there are exactly
  as many of either as frames classified so. And without suppression, with no idle gap between
  frames, with undecided motion released rather than discarded and with motion whose sums fit 64
  bits: if no frame is classified vertical then all horizontal motion received is emitted or still
  buffered, and if none is classified horizontal then all vertical motion is.\<close>

theorem constraint_conserves_permitted_motion:
  assumes "\<forall>i \<in> set is. normalized i"
    and "drive zpt_axis_constraint_stage_api (Some c) (Some (constraint_start any), None) is = ((Some st, dl), outs)"
  shows "(\<forall>s \<in> set outs. keeps_to_its_axis s) \<and>
    length [s \<leftarrow> outs. labelled AXIS_VERTICAL s] = length [i \<leftarrow> is. intended AXIS_VERTICAL i] \<and>
    length [s \<leftarrow> outs. labelled AXIS_HORIZONTAL s] = length [i \<leftarrow> is. intended AXIS_HORIZONTAL i] \<and>
    (ac_suppression c = None \<and> \<not> discard_unclassified c \<and> gapless c None is \<and>
     (\<Sum>i\<leftarrow>is. \<bar>constraint_x i\<bar>) \<le> INT64_MAX \<and> (\<Sum>i\<leftarrow>is. \<bar>constraint_y i\<bar>) \<le> INT64_MAX \<longrightarrow>
     ((\<forall>i \<in> set is. \<not> intended AXIS_VERTICAL i) \<longrightarrow>
       (\<Sum>s\<leftarrow>outs. fst (fixed_vector s)) + undecided_x st = (\<Sum>i\<leftarrow>is. constraint_x i)) \<and>
     ((\<forall>i \<in> set is. \<not> intended AXIS_HORIZONTAL i) \<longrightarrow>
       (\<Sum>s\<leftarrow>outs. snd (fixed_vector s)) + undecided_y st = (\<Sum>i\<leftarrow>is. constraint_y i)))"
proof -
  have start: "constraint_inv (constraint_start any) None" "undecided_x (constraint_start any) = 0"
    "undecided_y (constraint_start any) = 0"
    by (simp_all add: constraint_start_def axis_constraint_stage_reset_def constraint_inv_def)
  note axes = constraint_axes [OF _ assms, of AXIS_VERTICAL] constraint_axes [OF _ assms, of AXIS_HORIZONTAL]
  show ?thesis
    using constraint_drive [OF _ _ start(1) _ assms(1) _ _ assms(2)] start(2,3) axes by simp
qed

definition sample_constraint :: zpt_axis_constraint_config where
  "sample_constraint = \<lparr>discard_unclassified = False, ac_idle_timeout_ms = 200, fold_interval_ms = 50,
     ac_suppression = None\<rparr>"

definition sample_constraint_state :: zpt_axis_constraint_state where
  "sample_constraint_state = \<lparr>undecided_x = 9, undecided_y = 9, previous_intent = AXIS_FREE,
     ac_last_frame_ms = 5, ac_have_last_frame = True, have_undecided = True\<rparr>"

definition classified :: "u8 \<Rightarrow> int \<Rightarrow> int \<Rightarrow> zpt_signal" where
  "classified i x y = zero_signal\<lparr>kind := SIGNAL_NORMALIZED_MOTION, data := FixedVector x y,
     annotations := zero_annotations\<lparr>axis_intent := i\<rparr>\<rparr>"

lemma constraint_conserves_permitted_motion_witness:
  "let (d, outs) = drive zpt_axis_constraint_stage_api (Some sample_constraint)
         (Some (constraint_start sample_constraint_state), None)
         [FrameAt 10 (classified AXIS_UNDECIDED 5 3), FrameAt 20 (classified AXIS_HORIZONTAL 7 2), TickAt 80]
   in (\<forall>s \<in> set outs. keeps_to_its_axis s) \<and> length [s \<leftarrow> outs. labelled AXIS_HORIZONTAL s] = 1 \<and>
     (\<Sum>s\<leftarrow>outs. fst (fixed_vector s)) = 12"
proof -
  let ?is = "[FrameAt 10 (classified AXIS_UNDECIDED 5 3), FrameAt 20 (classified AXIS_HORIZONTAL 7 2), TickAt 80]"
  let ?run = "drive zpt_axis_constraint_stage_api (Some sample_constraint)
    (Some (constraint_start sample_constraint_state), None) ?is"
  have left: "map_option undecided_x (fst (fst ?run)) = Some 0" by code_simp
  then obtain st dl outs where r: "?run = ((Some st, dl), outs)" by (cases ?run) auto
  from constraint_conserves_permitted_motion [OF _ r] left r show ?thesis
    by (simp add: sample_constraint_def classified_def fresh_def)
qed

text \<open>Undecided frames, then one that engages.\<close>

lemma undecided_frames:
  assumes "ac_suppression c = None" "constraint_inv st before" "previous_intent st = AXIS_UNDECIDED"
    and "gapless c before (map (\<lambda>(now, s). FrameAt now s) us)"
    and "\<forall>(now, s) \<in> set us. kind s = SIGNAL_NORMALIZED_MOTION \<and> axis_intent (annotations s) = AXIS_UNDECIDED"
    and "\<bar>undecided_x st\<bar> + (\<Sum>u\<leftarrow>us. \<bar>frame_x (snd u)\<bar>) \<le> INT64_MAX"
    and "\<bar>undecided_y st\<bar> + (\<Sum>u\<leftarrow>us. \<bar>frame_y (snd u)\<bar>) \<le> INT64_MAX"
  shows "\<exists>st'. stage_run zpt_axis_constraint_stage_api (Some c) (Some st) (map (\<lambda>(now, s). FrameIn now s) us) =
      (Some st', map (\<lambda>u. zeroed_frame (snd u)) us) \<and>
    constraint_inv st' (if us = [] then before else Some (fst (last us))) \<and> previous_intent st' = AXIS_UNDECIDED \<and>
    undecided_x st' = undecided_x st + (\<Sum>u\<leftarrow>us. frame_x (snd u)) \<and>
    undecided_y st' = undecided_y st + (\<Sum>u\<leftarrow>us. frame_y (snd u))"
  using assms(2-7)
proof (induction us arbitrary: st before)
  case Nil
  then show ?case by simp
next
  case (Cons u us)
  obtain now s where u: "u = (now, s)" by (cases u)
  obtain x y where xy: "fixed_vector s = (x, y)" by (cases "fixed_vector s")
  have nonneg: "0 \<le> (\<Sum>u\<leftarrow>us. \<bar>frame_x (snd u)\<bar>)" "0 \<le> (\<Sum>u\<leftarrow>us. \<bar>frame_y (snd u)\<bar>)" by (rule sum_list_nonneg; auto)+
  have b: "\<bar>undecided_x st\<bar> + \<bar>x\<bar> \<le> INT64_MAX" "\<bar>undecided_y st\<bar> + \<bar>y\<bar> \<le> INT64_MAX"
    using Cons.prems(5,6) nonneg u xy by (simp_all add: frame_x_def frame_y_def)
  have s: "kind s = SIGNAL_NORMALIZED_MOTION" "axis_intent (annotations s) = AXIS_UNDECIDED" "fresh c before now"
    using Cons.prems(3,4) u by simp_all
  define st1 where "st1 = st\<lparr>ac_last_frame_ms := now, ac_have_last_frame := True, have_undecided := True,
    undecided_x := undecided_x st + x, undecided_y := undecided_y st + y\<rparr>"
  have "\<not> (ac_have_last_frame st \<and> ac_idle_timeout_ms c \<noteq> 0 \<and> ucast (ac_idle_timeout_ms c) \<le> now - ac_last_frame_ms st)"
    using s(3) Cons.prems(1) by (auto simp: fresh_def constraint_inv_def)
  then have step: "stage_step zpt_axis_constraint_stage_api (Some c) (Some st) (FrameIn now s) = (Some st1, [zeroed_frame s])"
    using assms(1) s room [OF b(1)] room [OF b(2)] xy Cons.prems(1,2)
    by (auto simp: zpt_axis_constraint_stage_api_def axis_constraint_stage_process_def Let_def st1_def constraint_inv_def
        clear_undecided_def)
  have "\<exists>st'. stage_run zpt_axis_constraint_stage_api (Some c) (Some st1) (map (\<lambda>(now, s). FrameIn now s) us) =
      (Some st', map (\<lambda>u. zeroed_frame (snd u)) us) \<and>
    constraint_inv st' (if us = [] then Some now else Some (fst (last us))) \<and> previous_intent st' = AXIS_UNDECIDED \<and>
    undecided_x st' = undecided_x st1 + (\<Sum>u\<leftarrow>us. frame_x (snd u)) \<and>
    undecided_y st' = undecided_y st1 + (\<Sum>u\<leftarrow>us. frame_y (snd u))"
  proof (rule Cons.IH)
    show "constraint_inv st1 (Some now)" by (simp add: st1_def constraint_inv_def)
    show "previous_intent st1 = AXIS_UNDECIDED" using Cons.prems(2) by (simp add: st1_def)
    show "\<bar>undecided_x st1\<bar> + (\<Sum>u\<leftarrow>us. \<bar>frame_x (snd u)\<bar>) \<le> INT64_MAX"
      "\<bar>undecided_y st1\<bar> + (\<Sum>u\<leftarrow>us. \<bar>frame_y (snd u)\<bar>) \<le> INT64_MAX"
      using Cons.prems(5,6) u xy by (simp_all add: st1_def frame_x_def frame_y_def)
  qed (use Cons.prems(3,4) u in simp_all)
  then show ?case using step u xy by (auto simp: st1_def frame_x_def frame_y_def simp del: stage_step.simps)
qed

text \<open>Undecided motion follows the intent that engages: after a reset, without suppression, with no
  idle gap between the frames and no flush among them, and with motion whose sums fit 64 bits, frames
  classified undecided only send zero frames on; the first frame with an intent then carries
  everything buffered together with its own motion, less the axis the intent excludes, and nothing
  stays buffered.\<close>

theorem undecided_motion_follows_the_intent:
  assumes "ac_suppression c = None" "gapless c None (map (\<lambda>(now, s). FrameAt now s) (us @ [(now, s)]))"
    and "\<forall>(now, s) \<in> set us. kind s = SIGNAL_NORMALIZED_MOTION \<and> axis_intent (annotations s) = AXIS_UNDECIDED"
    and "kind s = SIGNAL_NORMALIZED_MOTION" "axis_intent (annotations s) \<noteq> AXIS_UNDECIDED"
    and "(\<Sum>u\<leftarrow>us. \<bar>frame_x (snd u)\<bar>) + \<bar>frame_x s\<bar> \<le> INT64_MAX"
    and "(\<Sum>u\<leftarrow>us. \<bar>frame_y (snd u)\<bar>) + \<bar>frame_y s\<bar> \<le> INT64_MAX"
  shows "\<exists>st'. stage_run zpt_axis_constraint_stage_api (Some c) (Some (constraint_start any))
      (map (\<lambda>(now, s). FrameIn now s) (us @ [(now, s)])) =
      (Some st', map (\<lambda>u. zeroed_frame (snd u)) us @ [s\<lparr>data := FixedVector
         (if axis_intent (annotations s) = AXIS_VERTICAL then 0 else (\<Sum>u\<leftarrow>us. frame_x (snd u)) + frame_x s)
         (if axis_intent (annotations s) = AXIS_HORIZONTAL then 0 else (\<Sum>u\<leftarrow>us. frame_y (snd u)) + frame_y s)\<rparr>]) \<and>
    \<not> have_undecided st'"
proof -
  have append: "stage_run api cc st (is @ js) = (let (st1, out1) = stage_run api cc st is;
      (st2, out2) = stage_run api cc st1 js in (st2, out1 @ out2))" for api :: "('c, 's) zpt_stage_api" and cc st "is" js
    by (induction "is" arbitrary: st) (auto simp: Let_def split: prod.splits)
  have gap: "gapless c None (map (\<lambda>(now, s). FrameAt now s) us) \<and>
      fresh c (if us = [] then None else Some (fst (last us))) now"
  proof -
    have "gapless c b (map (\<lambda>(now, s). FrameAt now s) (us @ [(now, s)])) \<longrightarrow>
        gapless c b (map (\<lambda>(now, s). FrameAt now s) us) \<and> fresh c (if us = [] then b else Some (fst (last us))) now" for b
      by (induction us arbitrary: b) auto
    with assms(2) show ?thesis by blast
  qed
  let ?st0 = "constraint_start any"
  have start: "constraint_inv ?st0 None" "undecided_x ?st0 = 0" "undecided_y ?st0 = 0" "previous_intent ?st0 = AXIS_UNDECIDED"
    by (simp_all add: constraint_start_def axis_constraint_stage_reset_def constraint_inv_def)
  have sums: "(\<Sum>u\<leftarrow>us. \<bar>frame_x (snd u)\<bar>) \<le> INT64_MAX" "(\<Sum>u\<leftarrow>us. \<bar>frame_y (snd u)\<bar>) \<le> INT64_MAX"
    using assms(6,7) by linarith+
  obtain st1 where r: "stage_run zpt_axis_constraint_stage_api (Some c) (Some ?st0) (map (\<lambda>(now, s). FrameIn now s) us) =
      (Some st1, map (\<lambda>u. zeroed_frame (snd u)) us)"
    and inv: "constraint_inv st1 (if us = [] then None else Some (fst (last us)))" "previous_intent st1 = AXIS_UNDECIDED"
    and u: "undecided_x st1 = (\<Sum>u\<leftarrow>us. frame_x (snd u))" "undecided_y st1 = (\<Sum>u\<leftarrow>us. frame_y (snd u))"
    using undecided_frames [OF assms(1) start(1,4), of us] gap assms(3) start(2,3) sums by auto
  obtain x y where xy: "fixed_vector s = (x, y)" by (cases "fixed_vector s")
  have "\<bar>undecided_x st1\<bar> + \<bar>x\<bar> \<le> INT64_MAX" "\<bar>undecided_y st1\<bar> + \<bar>y\<bar> \<le> INT64_MAX"
    using assms(6,7) xy sum_list_abs [of "map (\<lambda>u. frame_x (snd u)) us"] sum_list_abs [of "map (\<lambda>u. frame_y (snd u)) us"]
    unfolding u by (simp_all add: frame_x_def frame_y_def o_def)
  note rx = room [OF this(1)] and ry = room [OF this(2)]
  have stale: "\<not> (ac_have_last_frame st1 \<and> ac_idle_timeout_ms c \<noteq> 0 \<and> ucast (ac_idle_timeout_ms c) \<le> now - ac_last_frame_ms st1)"
    using gap inv(1) by (auto simp: fresh_def constraint_inv_def split: if_splits)
  have "\<exists>st'. stage_step zpt_axis_constraint_stage_api (Some c) (Some st1) (FrameIn now s) =
      (Some st', [s\<lparr>data := FixedVector
         (if axis_intent (annotations s) = AXIS_VERTICAL then 0 else undecided_x st1 + x)
         (if axis_intent (annotations s) = AXIS_HORIZONTAL then 0 else undecided_y st1 + y)\<rparr>]) \<and> \<not> have_undecided st'"
    using assms(1,4,5) inv stale rx ry xy
    by (auto simp: zpt_axis_constraint_stage_api_def axis_constraint_stage_process_def fold_undecided_motion_def Let_def
        constraint_inv_def)
  then show ?thesis
    using r xy by (auto simp: append u frame_x_def frame_y_def simp del: stage_step.simps)
qed

lemma undecided_motion_follows_the_intent_witness:
  "map fixed_vector (snd (stage_run zpt_axis_constraint_stage_api (Some sample_constraint)
     (Some (constraint_start sample_constraint_state))
     (map (\<lambda>(now, s). FrameIn now s) ([(10, classified AXIS_UNDECIDED 5 3), (15, classified AXIS_UNDECIDED (- 1) 4)] @
       [(20, classified AXIS_VERTICAL 7 2)])))) = [(0, 0), (0, 0), (0, 9)]"
  using undecided_motion_follows_the_intent [of sample_constraint
      "[(10, classified AXIS_UNDECIDED 5 3), (15, classified AXIS_UNDECIDED (- 1) 4)]" 20 "classified AXIS_VERTICAL 7 2"
      sample_constraint_state]
  by (auto simp: sample_constraint_def classified_def fresh_def frame_x_def frame_y_def zeroed_frame_def
      simp del: stage_run.simps)

text \<open>
  Motion that becomes undecided after an intent was engaged is not folded when one engages
  again: it stays buffered until a flush, an idle gap or a reset.
\<close>

lemma undecided_after_an_intent_is_not_folded:
  "map fixed_vector (snd (stage_run zpt_axis_constraint_stage_api (Some sample_constraint)
     (Some (constraint_start sample_constraint_state))
     [FrameIn 10 (classified AXIS_FREE 1 1), FrameIn 15 (classified AXIS_UNDECIDED 5 3),
      FrameIn 20 (classified AXIS_FREE 7 2)])) = [(1, 1), (0, 0), (7, 2)]"
  by code_simp

interpretation axis_constraint: stage_contract zpt_axis_constraint_stage_api "\<lambda>c. True"
    "\<lambda>c st. \<forall>s. st = Some s \<longrightarrow> in_i64 (undecided_x s) \<and> in_i64 (undecided_y s)"
proof (unfold_locales, goal_cases)
  case (1 c st s f now)
  have kind: "kind s = SIGNAL_NORMALIZED_MOTION"
    using 1(3) by (rule accepts_mask) (simp_all add: zpt_axis_constraint_stage_api_def zpt_signal_kind_valid_def)
  then obtain x y where "data s = FixedVector x y" using signal_ok_cases(2) [OF 1(4)] by blast
  with 1 kind show ?case
    by (auto simp: zpt_axis_constraint_stage_api_def axis_constraint_stage_process_def fold_undecided_motion_def
        zeroed_frame_def signal_ok_def saturating_add_in_i64 Let_def split: option.split)
next
  case (2 c st g dl now)
  then show ?case
    by (auto simp: zpt_axis_constraint_stage_api_def axis_constraint_stage_flush_def signal_ok_def zero_signal_defs
        Let_def split: option.split)
next
  case (3 c st h reason)
  then show ?case by (auto simp: zpt_axis_constraint_stage_api_def axis_constraint_stage_reset_def)
qed (simp_all add: zpt_axis_constraint_stage_api_def)

end
