(* ===== verification/Cursor_Transfer.thy ===== *)
theory Cursor_Transfer
  imports Stage_Program
begin

text \<open>
  The base gain of the cursor (\<open>stage/cursor_transfer.h\<close>,
  \<open>stage/cursor_transfer/cursor_transfer.c\<close>): a rational scale with a saturating product.
\<close>

record zpt_cursor_transfer_config =
  scale_multiplier :: u16
  scale_divisor :: u16

text \<open>The scaled value and whether it was clipped; \<open>*clipped\<close> is only ever set.\<close>

definition saturating_scale :: "int \<Rightarrow> u16 \<Rightarrow> u16 \<Rightarrow> int \<times> bool" where
  "saturating_scale value multiplier divisor =
     (if multiplier = 0 then (0, False)
      else if value > INT64_MAX sdiv uint multiplier then (INT64_MAX, True)
      else if value < INT64_MIN sdiv uint multiplier then (INT64_MIN, True)
      else (i64 (value * uint multiplier) sdiv uint divisor, False))"

definition cursor_transfer_stage_activate :: "(zpt_cursor_transfer_config, unit) zpt_stage_activate" where
  "cursor_transfer_stage_activate config st reason =
     (case config of None \<Rightarrow> (- EINVAL, st)
      | Some c \<Rightarrow> (if scale_divisor c = 0 then - EINVAL else 0, st))"

definition cursor_transfer_stage_process :: "(zpt_cursor_transfer_config, unit) zpt_stage_process" where
  "cursor_transfer_stage_process config st now s =
     (case config of
        None \<Rightarrow> Return (- EINVAL) st
      | Some c \<Rightarrow>
          if kind s \<noteq> SIGNAL_NORMALIZED_MOTION then Return (- EINVAL) st
          else
            let (x, clipped_x) = saturating_scale (fst (fixed_vector s)) (scale_multiplier c) (scale_divisor c);
                (y, clipped_y) = saturating_scale (snd (fixed_vector s)) (scale_multiplier c) (scale_divisor c);
                out = s\<lparr>data := FixedVector x y\<rparr>
            in emit_return (if clipped_x \<or> clipped_y then add_flag FLAG_CLIPPED out else out) st)"

definition zpt_cursor_transfer_stage_api :: "(zpt_cursor_transfer_config, unit) zpt_stage_api" where
  "zpt_cursor_transfer_stage_api = \<lparr>strategy_id = Some ''cursor-transfer'',
     accepted_kinds = ZPT_SIGNAL_KIND_MASK SIGNAL_NORMALIZED_MOTION,
     output_kind = SIGNAL_NORMALIZED_MOTION,
     api_flags = 0, api_process = Some cursor_transfer_stage_process, api_flush = None,
     api_activate = Some cursor_transfer_stage_activate, api_deactivate = None, api_reset = None\<rparr>"

section \<open>The scale\<close>

lemma saturating_scale_cases:
  assumes "in_i64 v"
  shows "saturating_scale v m d =
    (if v * uint m > INT64_MAX then (INT64_MAX, True)
     else if v * uint m < INT64_MIN then (INT64_MIN, True)
     else ((v * uint m) sdiv uint d, False))"
proof (cases "m = 0")
  case True
  then show ?thesis by (simp add: saturating_scale_def)
next
  case False
  then have m: "0 < uint m" by (simp add: uint_pos_iff)
  have hi: "(v > INT64_MAX sdiv uint m) = (v * uint m > INT64_MAX)"
    using div_less_iff_less_mult' [OF m, of INT64_MAX v] m by (simp add: sdiv_nonneg)
  have lo: "(v < INT64_MIN sdiv uint m) = (v * uint m < INT64_MIN)"
    using div_less_iff_less_mult' [OF m, of 9223372036854775808 "- v"] m
    by (simp add: sdiv_pos_cases) linarith
  show ?thesis
    using False hi lo by (simp add: saturating_scale_def in_i64_def)
qed

lemma sdiv_in_i64: "in_i64 a \<Longrightarrow> 0 \<le> b \<Longrightarrow> in_i64 (a sdiv b)"
proof -
  assume a: "in_i64 a" and b: "0 \<le> b"
  have "\<bar>a\<bar> div b \<le> \<bar>a\<bar>" "0 \<le> \<bar>a\<bar> div b"
    using b zdiv_mono2 [of "\<bar>a\<bar>" 1 b] by (cases "b = 0"; simp add: pos_imp_zdiv_nonneg_iff)+
  then show ?thesis
    using a b by (cases "b = 0"; auto simp: in_i64_def sdiv_pos_cases abs_if split: if_splits)
qed

lemma saturating_scale_in_i64: "in_i64 v \<Longrightarrow> in_i64 (fst (saturating_scale v m d))"
  by (auto simp: saturating_scale_cases intro!: sdiv_in_i64) (simp add: in_i64_def)

text \<open>The base gain multiplies and then divides, truncating towards zero, with the
  exact 64-bit product; a product that does not fit becomes the limit of its sign and is reported
  as clipped, and nothing else is.\<close>

theorem scale_is_exact_or_clipped:
  assumes "in_i64 v"
  shows "saturating_scale v m d =
    (if in_i64 (v * uint m) then ((v * uint m) sdiv uint d, False)
     else (if v < 0 then INT64_MIN else INT64_MAX, True))"
proof (cases "in_i64 (v * uint m)")
  case True
  then show ?thesis using assms by (simp add: saturating_scale_cases in_i64_def)
next
  case False
  show ?thesis
  proof (cases "v < 0")
    case True
    then have "v * uint m \<le> 0" using mult_nonpos_nonneg [of v "uint m"] by simp
    then have "\<not> v * uint m > INT64_MAX" by linarith
    then show ?thesis using True False assms by (auto simp: saturating_scale_cases in_i64_def)
  next
    case nonneg: False
    then have "0 \<le> v * uint m" by simp
    then have "\<not> v * uint m < INT64_MIN" by linarith
    then show ?thesis using nonneg False assms by (auto simp: saturating_scale_cases in_i64_def)
  qed
qed

lemma scale_is_exact_or_clipped_witness:
  "saturating_scale (- 65537) 3 2 = (- 98305, False) \<and>
   saturating_scale (- INT64_MAX) 2 2 = (INT64_MIN, True)"
  using scale_is_exact_or_clipped [of "- 65537" 3 2] scale_is_exact_or_clipped [of "- INT64_MAX" 2 2]
  by (simp add: sdiv_neg)

interpretation transfer: stage_contract zpt_cursor_transfer_stage_api "\<lambda>c. True" "\<lambda>c st. True"
proof (unfold_locales, goal_cases)
  case (1 c st s f now)
  have k: "kind s = SIGNAL_NORMALIZED_MOTION"
    using 1(3) by (rule accepts_mask) (simp_all add: zpt_cursor_transfer_stage_api_def zpt_signal_kind_valid_def)
  then obtain x y where d: "data s = FixedVector x y" "in_i64 x" "in_i64 y"
    using signal_ok_cases(2) [OF 1(4)] by blast
  have f: "f = cursor_transfer_stage_process"
    using 1(5) by (simp add: zpt_cursor_transfer_stage_api_def)
  show ?case
    using 1(4) d k saturating_scale_in_i64 [OF d(2)] saturating_scale_in_i64 [OF d(3)]
    by (auto simp: f cursor_transfer_stage_process_def case_prod_unfold signal_ok_def
        zpt_cursor_transfer_stage_api_def Let_def split: option.split)
qed (simp_all add: zpt_cursor_transfer_stage_api_def)

end
