(* ===== verification/Cursor_Quantizer.thy ===== *)
theory Cursor_Quantizer
  imports Stage_Program
begin

text \<open>
  The cursor quantizer (\<open>stage/cursor_quantizer.h\<close>,
  \<open>stage/cursor_quantizer/cursor_quantizer.c\<close>): Q16 millimetres to whole pointer units at the
  frame's resolution, the fraction carried to the next frame.
\<close>

record zpt_cursor_quantizer_state =
  remainder_x :: int
  remainder_y :: int

definition clamp_i16 :: "int \<Rightarrow> int" where
  "clamp_i16 v = (if v > INT16_MAX then INT16_MAX else if v < INT16_MIN then INT16_MIN else v)"

text \<open>One axis: the whole units of a frame and the remainder left for the next.\<close>

definition quantize_axis :: "int \<Rightarrow> int \<Rightarrow> int \<Rightarrow> int \<times> int" where
  "quantize_axis value units_per_millimeter remainder =
     (let units = zpt_fixed_saturating_add (zpt_fixed_multiply value units_per_millimeter) remainder;
          integer = zpt_fixed_to_int32 units
      in (clamp_i16 integer, i64 (units - integer * FIXED_ONE)))"

definition cursor_quantizer_stage_activate :: "(unit, zpt_cursor_quantizer_state) zpt_stage_activate" where
  "cursor_quantizer_stage_activate config st reason = (if st = None then - EINVAL else 0, st)"

definition cursor_quantizer_stage_reset :: "(unit, zpt_cursor_quantizer_state) zpt_stage_reset" where
  "cursor_quantizer_stage_reset config st reason =
     map_option (\<lambda>state. state\<lparr>remainder_x := 0, remainder_y := 0\<rparr>) st"

definition cursor_quantizer_stage_process :: "(unit, zpt_cursor_quantizer_state) zpt_stage_process" where
  "cursor_quantizer_stage_process config st now s =
     (case st of
        None \<Rightarrow> Return (- EINVAL) st
      | Some state \<Rightarrow>
          if kind s \<noteq> SIGNAL_NORMALIZED_MOTION \<or> resolution_cpi (metadata s) = 0
          then Return (- EINVAL) st
          else
            let units_per_millimeter = ZPT_CPI_TO_FIXED_PER_MILLIMETER (resolution_cpi (metadata s));
                (integer_x, rest_x) =
                  quantize_axis (fst (fixed_vector s)) units_per_millimeter (remainder_x state);
                (integer_y, rest_y) =
                  quantize_axis (snd (fixed_vector s)) units_per_millimeter (remainder_y state)
            in emit_return (s\<lparr>kind := SIGNAL_POINTER_DELTA, data := Delta integer_x integer_y\<rparr>)
                 (Some \<lparr>remainder_x = rest_x, remainder_y = rest_y\<rparr>))"

definition zpt_cursor_quantizer_stage_api :: "(unit, zpt_cursor_quantizer_state) zpt_stage_api" where
  "zpt_cursor_quantizer_stage_api = \<lparr>strategy_id = Some ''cursor-quantizer'',
     accepted_kinds = ZPT_SIGNAL_KIND_MASK SIGNAL_NORMALIZED_MOTION, output_kind = SIGNAL_POINTER_DELTA,
     api_flags = STAGE_STATEFUL, api_process = Some cursor_quantizer_stage_process, api_flush = None,
     api_activate = Some cursor_quantizer_stage_activate, api_deactivate = None,
     api_reset = Some cursor_quantizer_stage_reset\<rparr>"

section \<open>One frame\<close>

text \<open>The exact size of a movement in Q16 units, rounded down, and when a frame can report it whole.\<close>

definition scaled :: "int \<Rightarrow> u16 \<Rightarrow> int" where
  "scaled v cpi = v * (uint cpi * 655360 div 254) div 65536"

definition reportable :: "int \<Rightarrow> u16 \<Rightarrow> bool" where
  "reportable v cpi \<longleftrightarrow> \<bar>scaled v cpi\<bar> \<le> 32766 * 65536"

lemma quantize_axis_in_range:
  assumes "in_i64 v" "in_i64 rest"
  shows "in_i32 (fst (quantize_axis v (ZPT_CPI_TO_FIXED_PER_MILLIMETER cpi) rest)) \<and>
    in_i16 (fst (quantize_axis v (ZPT_CPI_TO_FIXED_PER_MILLIMETER cpi) rest)) \<and>
    in_i64 (snd (quantize_axis v (ZPT_CPI_TO_FIXED_PER_MILLIMETER cpi) rest))"
  by (auto simp: quantize_axis_def Let_def clamp_i16_def in_range_defs i64_def)

lemma upm_in_i64: "in_i64 (uint cpi * 655360 div 254)" "0 \<le> uint cpi * 655360 div 254" for cpi :: u16
proof -
  have "uint cpi * 655360 div 254 \<le> 65535 * 655360 div 254"
    using uint_bounds(2) [of cpi] by (intro zdiv_mono1) auto
  moreover show "0 \<le> uint cpi * 655360 div 254" by (simp add: pos_imp_zdiv_nonneg_iff)
  ultimately show "in_i64 (uint cpi * 655360 div 254)" by (simp add: in_i64_def)
qed

lemma quantize_axis_exact:
  assumes "in_i64 v" "\<bar>rest\<bar> < 65536" "reportable v cpi"
    and "quantize_axis v (ZPT_CPI_TO_FIXED_PER_MILLIMETER cpi) rest = (out, rest')"
  shows "out * 65536 + rest' = scaled v cpi + rest \<and> \<bar>rest'\<bar> < 65536"
proof -
  obtain u where u: "uint cpi * 655360 div 254 = u" by simp
  let ?n = "scaled v cpi + rest"
  have scaled: "scaled v cpi = v * u div 65536" by (simp only: scaled_def u)
  have small: "\<bar>v * u div 65536\<bar> \<le> 2147352576" using assms(3) by (simp add: reportable_def scaled)
  have "v * u \<le> INT64_MAX" "INT64_MIN \<le> v * u" using small by linarith+
  moreover have "in_i64 u" using upm_in_i64(1) [of cpi] unfolding u .
  ultimately have mult: "zpt_fixed_multiply v u = scaled v cpi"
    using assms(1) by (simp add: fixed_multiply_cases scaled)
  have n: "\<bar>?n\<bar> < 32767 * 65536" using assms(2,3) by (auto simp: reportable_def)
  have sum: "zpt_fixed_saturating_add (scaled v cpi) rest = ?n"
    using assms(2,3) by (intro fixed_add.add_exact) (auto simp: reportable_def in_i64_def)
  have q: "\<bar>?n sdiv 65536\<bar> \<le> 32767"
    using n by (auto simp: sdiv_pos_cases)
  have rest: "\<bar>?n - ?n sdiv 65536 * 65536\<bar> < 65536" by (rule sdiv_remainder_abs) simp
  have int: "zpt_fixed_to_int32 ?n = ?n sdiv 65536"
    using q by (auto simp: fixed_to_int32_cases)
  have wrap: "i64 (?n - ?n sdiv 65536 * 65536) = ?n - ?n sdiv 65536 * 65536"
    using rest by (intro i64_id) (auto simp: in_i64_def)
  have clamp: "clamp_i16 (?n sdiv 65536) = ?n sdiv 65536" using q by (auto simp: clamp_i16_def)
  have "out = ?n sdiv 65536" "rest' = ?n - ?n sdiv 65536 * 65536"
    using assms(4) unfolding cpi_to_fixed u quantize_axis_def Let_def mult sum int wrap clamp
    by simp_all
  then show ?thesis using rest by simp
qed

section \<open>Any number of frames\<close>

definition frame_fits :: "zpt_signal \<Rightarrow> bool" where
  "frame_fits s \<longleftrightarrow> signal_ok s \<and> kind s = SIGNAL_NORMALIZED_MOTION \<and> resolution_cpi (metadata s) \<noteq> 0 \<and>
     reportable (fst (fixed_vector s)) (resolution_cpi (metadata s)) \<and>
     reportable (snd (fixed_vector s)) (resolution_cpi (metadata s))"

definition scaled_x :: "zpt_signal \<Rightarrow> int" where
  "scaled_x s = scaled (fst (fixed_vector s)) (resolution_cpi (metadata s))"

definition scaled_y :: "zpt_signal \<Rightarrow> int" where
  "scaled_y s = scaled (snd (fixed_vector s)) (resolution_cpi (metadata s))"

definition quantizer_inv :: "zpt_cursor_quantizer_state \<Rightarrow> bool" where
  "quantizer_inv st \<longleftrightarrow> \<bar>remainder_x st\<bar> < 65536 \<and> \<bar>remainder_y st\<bar> < 65536"

lemma quantizer_frame:
  assumes "frame_fits s" "quantizer_inv st"
  obtains out st' where
    "stage_step zpt_cursor_quantizer_stage_api c (Some st) (FrameIn now s) = (Some st', [out])"
    "quantizer_inv st'" "kind out = SIGNAL_POINTER_DELTA"
    "fst (delta out) * 65536 + remainder_x st' = scaled_x s + remainder_x st"
    "snd (delta out) * 65536 + remainder_y st' = scaled_y s + remainder_y st"
proof -
  let ?cpi = "resolution_cpi (metadata s)"
  have k: "kind s = SIGNAL_NORMALIZED_MOTION" using assms by (simp add: frame_fits_def)
  then obtain x y where d: "data s = FixedVector x y" "in_i64 x" "in_i64 y"
    using signal_ok_cases(2) [of s] assms by (auto simp: frame_fits_def)
  obtain ox rx where qx: "quantize_axis x (ZPT_CPI_TO_FIXED_PER_MILLIMETER ?cpi) (remainder_x st) = (ox, rx)"
    by (cases "quantize_axis x (ZPT_CPI_TO_FIXED_PER_MILLIMETER ?cpi) (remainder_x st)")
  obtain oy ry where qy: "quantize_axis y (ZPT_CPI_TO_FIXED_PER_MILLIMETER ?cpi) (remainder_y st) = (oy, ry)"
    by (cases "quantize_axis y (ZPT_CPI_TO_FIXED_PER_MILLIMETER ?cpi) (remainder_y st)")
  have x: "ox * 65536 + rx = scaled x ?cpi + remainder_x st \<and> \<bar>rx\<bar> < 65536"
    using assms d by (intro quantize_axis_exact [OF d(2) _ _ qx]) (simp_all add: frame_fits_def quantizer_inv_def)
  have y: "oy * 65536 + ry = scaled y ?cpi + remainder_y st \<and> \<bar>ry\<bar> < 65536"
    using assms d by (intro quantize_axis_exact [OF d(3) _ _ qy]) (simp_all add: frame_fits_def quantizer_inv_def)
  have "stage_step zpt_cursor_quantizer_stage_api c (Some st) (FrameIn now s) =
     (Some \<lparr>remainder_x = rx, remainder_y = ry\<rparr>,
      [s\<lparr>kind := SIGNAL_POINTER_DELTA, data := Delta ox oy\<rparr>])"
    using assms k d qx qy
    by (simp add: zpt_cursor_quantizer_stage_api_def cursor_quantizer_stage_process_def frame_fits_def)
  then show thesis
    by (rule that) (use x y d in \<open>simp_all add: quantizer_inv_def scaled_x_def scaled_y_def\<close>)
qed

lemma quantizer_frames:
  assumes "\<forall>f \<in> set frames. frame_fits (snd f)" "quantizer_inv st"
  shows "\<exists>st' outs. stage_run zpt_cursor_quantizer_stage_api c (Some st)
      (map (\<lambda>(now, s). FrameIn now s) frames) = (Some st', outs) \<and> quantizer_inv st' \<and>
    length outs = length frames \<and>
    (\<Sum>s\<leftarrow>outs. fst (delta s)) * 65536 + remainder_x st' =
      (\<Sum>f\<leftarrow>frames. scaled_x (snd f)) + remainder_x st \<and>
    (\<Sum>s\<leftarrow>outs. snd (delta s)) * 65536 + remainder_y st' =
      (\<Sum>f\<leftarrow>frames. scaled_y (snd f)) + remainder_y st"
  using assms
proof (induction frames arbitrary: st)
  case Nil
  then show ?case by simp
next
  case (Cons f frames)
  obtain now s where f: "f = (now, s)" by (cases f)
  have "frame_fits s" "quantizer_inv st" using Cons.prems f by simp_all
  then obtain out st1 where
    step: "stage_step zpt_cursor_quantizer_stage_api c (Some st) (FrameIn now s) = (Some st1, [out])"
    and inv: "quantizer_inv st1" and "kind out = SIGNAL_POINTER_DELTA"
    and sums: "fst (delta out) * 65536 + remainder_x st1 = scaled_x s + remainder_x st"
      "snd (delta out) * 65536 + remainder_y st1 = scaled_y s + remainder_y st"
    by (rule quantizer_frame [where c = c and now = now])
  from Cons.IH [OF _ inv] Cons.prems(1) obtain st' outs where
    run: "stage_run zpt_cursor_quantizer_stage_api c (Some st1)
      (map (\<lambda>(now, s). FrameIn now s) frames) = (Some st', outs)" "quantizer_inv st'"
      "length outs = length frames"
      "(\<Sum>s\<leftarrow>outs. fst (delta s)) * 65536 + remainder_x st' =
        (\<Sum>f\<leftarrow>frames. scaled_x (snd f)) + remainder_x st1"
      "(\<Sum>s\<leftarrow>outs. snd (delta s)) * 65536 + remainder_y st' =
        (\<Sum>f\<leftarrow>frames. scaled_y (snd f)) + remainder_y st1"
    by (auto simp del: delta.simps)
  show ?case
    by (rule exI [of _ st'], rule exI [of _ "out # outs"])
       (use run sums f step in \<open>simp add: algebra_simps del: delta.simps stage_step.simps\<close>)
qed

text \<open>Property C35. Quantization loses no motion: over any sequence of frames each of which fits the
  HID range, whatever their resolutions, every frame reports, and the whole units reported times
  2^16 plus the remainder kept equal the exact Q16 units received plus the remainder at the
  start. The remainder stays below one unit, so the accumulated report is never off by a unit.\<close>

theorem quantizer_conserves_motion:
  assumes "\<forall>f \<in> set frames. frame_fits (snd f)" "quantizer_inv st"
    and "stage_run zpt_cursor_quantizer_stage_api c (Some st)
      (map (\<lambda>(now, s). FrameIn now s) frames) = (Some st', outs)"
  shows "length outs = length frames \<and>
    (\<Sum>s\<leftarrow>outs. fst (delta s)) * 65536 + remainder_x st' =
      (\<Sum>f\<leftarrow>frames. scaled_x (snd f)) + remainder_x st \<and>
    (\<Sum>s\<leftarrow>outs. snd (delta s)) * 65536 + remainder_y st' =
      (\<Sum>f\<leftarrow>frames. scaled_y (snd f)) + remainder_y st \<and>
    \<bar>remainder_x st'\<bar> < 65536 \<and> \<bar>remainder_y st'\<bar> < 65536"
  using quantizer_frames [OF assms(1,2), of c] assms(3) by (auto simp: quantizer_inv_def)

text \<open>A tenth of a millimetre at 800 counts per inch is 3.15 units.\<close>

definition tenth_of_millimeter :: zpt_signal where
  "tenth_of_millimeter = zero_signal\<lparr>kind := SIGNAL_NORMALIZED_MOTION, data := FixedVector 6554 (- 6554),
     metadata := zero_metadata\<lparr>resolution_cpi := 800\<rparr>\<rparr>"

lemma quantizer_conserves_motion_witness:
  "let st = \<lparr>remainder_x = 0, remainder_y = 0\<rparr>;
       (st', outs) = stage_run zpt_cursor_quantizer_stage_api None (Some st)
         [FrameIn 1 tenth_of_millimeter, FrameIn 2 tenth_of_millimeter]
   in length outs = 2 \<and>
      (\<Sum>s\<leftarrow>outs. fst (delta s)) * 65536 + remainder_x (the st') = 2 * scaled_x tenth_of_millimeter \<and>
      scaled_x tenth_of_millimeter = 206425"
proof -
  let ?frames = "[(1, tenth_of_millimeter), (2, tenth_of_millimeter)]"
  let ?st = "\<lparr>remainder_x = 0, remainder_y = 0\<rparr>"
  have fits: "\<forall>f \<in> set ?frames. frame_fits (snd f)"
    by (simp add: frame_fits_def tenth_of_millimeter_def zero_signal_defs signal_ok_def reportable_def
        scaled_def)
  have inv: "quantizer_inv ?st" by (simp add: quantizer_inv_def)
  obtain st' outs where run: "stage_run zpt_cursor_quantizer_stage_api None (Some ?st)
      (map (\<lambda>(now, s). FrameIn now s) ?frames) = (Some st', outs)"
    using quantizer_frames [OF fits inv, of None] by blast
  have "scaled_x tenth_of_millimeter = 206425"
    by (simp add: scaled_x_def scaled_def tenth_of_millimeter_def zero_signal_defs)
  then show ?thesis
    using quantizer_conserves_motion [OF fits inv run] run
    by (simp del: delta.simps stage_step.simps)
qed

section \<open>Beyond 32 bits\<close>

text \<open>
  \<open>zpt_fixed_to_int32\<close> clamps, so whole units beyond the 32-bit range stay in the remainder and
  are reported by later frames, which the comment in \<open>cursor_quantizer_stage_process\<close> excludes:
  here a frame without motion reports the maximum.
\<close>

lemma clamped_frame_leaves_whole_units:
  "let still = zero_signal\<lparr>kind := SIGNAL_NORMALIZED_MOTION, data := FixedVector 0 0,
         metadata := zero_metadata\<lparr>resolution_cpi := 25400\<rparr>\<rparr>;
       huge = still\<lparr>data := FixedVector 196608000000 0\<rparr>
   in map delta (snd (stage_run zpt_cursor_quantizer_stage_api None
        (Some \<lparr>remainder_x = 0, remainder_y = 0\<rparr>) [FrameIn 1 huge, FrameIn 2 still])) =
      [(32767, 0), (32767, 0)]"
  by (simp add: zpt_cursor_quantizer_stage_api_def cursor_quantizer_stage_process_def zero_signal_defs
      quantize_axis_def cpi_to_fixed fixed_multiply_cases fixed_add.add_clamps fixed_to_int32_cases
      clamp_i16_def clamp64_def sdiv_nonneg)

interpretation quantizer: stage_contract zpt_cursor_quantizer_stage_api "\<lambda>c. True"
    "\<lambda>c st. \<forall>state. st = Some state \<longrightarrow> in_i64 (remainder_x state) \<and> in_i64 (remainder_y state)"
proof (unfold_locales, goal_cases)
  case (1 c st s f now)
  have k: "kind s = SIGNAL_NORMALIZED_MOTION"
    using 1(3) by (rule accepts_mask) (simp_all add: zpt_cursor_quantizer_stage_api_def zpt_signal_kind_valid_def)
  then obtain x y where d: "data s = FixedVector x y" "in_i64 x" "in_i64 y"
    using signal_ok_cases(2) [OF 1(4)] by blast
  have f: "f = cursor_quantizer_stage_process"
    using 1(5) by (simp add: zpt_cursor_quantizer_stage_api_def)
  show ?case
    using 1(2,4) d k quantize_axis_in_range [of x _ "resolution_cpi (metadata s)"]
      quantize_axis_in_range [of y _ "resolution_cpi (metadata s)"]
    by (auto simp: f cursor_quantizer_stage_process_def case_prod_unfold signal_ok_def
        zpt_cursor_quantizer_stage_api_def Let_def split: option.split)
next
  case (3 c st h reason)
  then show ?case by (auto simp: zpt_cursor_quantizer_stage_api_def cursor_quantizer_stage_reset_def)
qed (simp_all add: zpt_cursor_quantizer_stage_api_def)

end
