(* ===== verification/Cursor_Coalescer.thy ===== *)
theory Cursor_Coalescer
  imports Stage_Program
begin

text \<open>
  The cursor report coalescer (\<open>stage/cursor_coalescer.h\<close>,
  \<open>stage/cursor_coalescer/cursor_coalescer.c\<close>): at most one report per interval, motion summed
  in between, the HID range respected by splitting.

  \<open>current_link\<close> is a function pointer the platform provides; the model carries what it answers
  in this call, \<open>None\<close> for a null pointer.
\<close>

datatype zpt_cursor_link = LINK_USB | LINK_BLE

record zpt_cursor_coalescer_config =
  usb_report_interval_ms :: u16
  ble_report_interval_ms :: u16
  current_link :: "zpt_cursor_link option"

record zpt_cursor_coalescer_state =
  pending_x :: int
  pending_y :: int
  pending_metadata :: zpt_signal_metadata
  pending_frames :: u32
  last_report_ms :: u32
  have_report :: bool
  armed :: bool

definition zero_coalescer :: zpt_cursor_coalescer_state where
  "zero_coalescer = \<lparr>pending_x = 0, pending_y = 0, pending_metadata = zero_metadata,
     pending_frames = 0, last_report_ms = 0, have_report = False, armed = False\<rparr>"

text \<open>The part of a pending sum one report takes, and what stays.\<close>

definition take_report_axis :: "int \<Rightarrow> int \<times> int" where
  "take_report_axis pending =
     (let value = (if pending > INT16_MAX then INT16_MAX
                   else if pending < INT16_MIN then INT16_MIN else pending)
      in (value, i64 (pending - value)))"

definition zpt_cursor_coalescer_interval_ms :: "zpt_cursor_coalescer_config \<Rightarrow> u16" where
  "zpt_cursor_coalescer_interval_ms config =
     (let link = (case current_link config of Some l \<Rightarrow> l | None \<Rightarrow> LINK_USB)
      in if link = LINK_BLE then ble_report_interval_ms config else usb_report_interval_ms config)"

definition interval_elapsed :: "zpt_cursor_coalescer_state \<Rightarrow> u32 \<Rightarrow> u16 \<Rightarrow> bool" where
  "interval_elapsed state now_ms interval_ms \<longleftrightarrow>
     \<not> have_report state \<or> now_ms - last_report_ms state \<ge> ucast interval_ms"

definition arm :: "zpt_cursor_coalescer_state \<Rightarrow> u32 \<Rightarrow>
    (int \<Rightarrow> zpt_cursor_coalescer_state \<Rightarrow> zpt_cursor_coalescer_state stage_prog) \<Rightarrow>
    zpt_cursor_coalescer_state stage_prog" where
  "arm state deadline_ms k =
     (if armed state then k 0 state
      else ScheduleFlush deadline_ms
             (\<lambda>ret. k ret (if ret = 0 then state\<lparr>armed := True\<rparr> else state)))"

definition send_report :: "zpt_cursor_coalescer_state \<Rightarrow> u32 \<Rightarrow> u16 \<Rightarrow>
    zpt_cursor_coalescer_state stage_prog" where
  "send_report state now_ms interval_ms =
     (let (report_x, rest_x) = take_report_axis (pending_x state);
          (report_y, rest_y) = take_report_axis (pending_y state);
          meta = (pending_metadata state)\<lparr>observed_at_ms := now_ms\<rparr>;
          meta = (if pending_frames state > 1 then meta\<lparr>flags := flags meta OR FLAG_COALESCED\<rparr> else meta);
          out = \<lparr>kind = SIGNAL_POINTER_DELTA, metadata = meta, annotations = zero_annotations,
                 data = Delta report_x report_y\<rparr>;
          state = state\<lparr>pending_x := rest_x, pending_y := rest_y, pending_frames := 0,
                    last_report_ms := now_ms, have_report := True\<rparr>
      in if pending_x state \<noteq> 0 \<or> pending_y state \<noteq> 0 then
           arm state (now_ms + ucast interval_ms)
             (\<lambda>ret state. if ret < 0 then Return ret (Some state) else emit_return out (Some state))
         else emit_return out (Some state))"

definition cursor_coalescer_stage_activate ::
  "(zpt_cursor_coalescer_config, zpt_cursor_coalescer_state) zpt_stage_activate" where
  "cursor_coalescer_stage_activate config st reason =
     (if config = None \<or> st = None then - EINVAL else 0, st)"

definition cursor_coalescer_stage_reset ::
  "(zpt_cursor_coalescer_config, zpt_cursor_coalescer_state) zpt_stage_reset" where
  "cursor_coalescer_stage_reset config st reason = map_option (\<lambda>_. zero_coalescer) st"

definition fold_frame :: "zpt_signal \<Rightarrow> zpt_cursor_coalescer_state \<Rightarrow> zpt_cursor_coalescer_state" where
  "fold_frame s state =
     (if fst (delta s) \<noteq> 0 \<or> snd (delta s) \<noteq> 0 then
        state\<lparr>pending_x := zpt_fixed_saturating_add (pending_x state) (fst (delta s)),
              pending_y := zpt_fixed_saturating_add (pending_y state) (snd (delta s)),
              pending_metadata := metadata s, pending_frames := pending_frames state + 1\<rparr>
      else state)"

definition cursor_coalescer_stage_process ::
  "(zpt_cursor_coalescer_config, zpt_cursor_coalescer_state) zpt_stage_process" where
  "cursor_coalescer_stage_process config st now s =
     (case (config, st) of
        (Some c, Some state) \<Rightarrow>
          if kind s \<noteq> SIGNAL_POINTER_DELTA then Return (- EINVAL) st
          else
            let state = fold_frame s state in
            if pending_x state = 0 \<and> pending_y state = 0 then Return 0 (Some state)
            else
              let interval_ms = zpt_cursor_coalescer_interval_ms c in
              if \<not> armed state \<and> interval_elapsed state now interval_ms
              then send_report state now interval_ms
              else arm state (last_report_ms state + ucast interval_ms)
                     (\<lambda>ret state. Return ret (Some state))
      | _ \<Rightarrow> Return (- EINVAL) st)"

definition cursor_coalescer_stage_flush ::
  "(zpt_cursor_coalescer_config, zpt_cursor_coalescer_state) zpt_stage_flush" where
  "cursor_coalescer_stage_flush config st deadline now =
     (case (config, st) of
        (Some c, Some state) \<Rightarrow>
          let state = state\<lparr>armed := False\<rparr> in
          if pending_x state = 0 \<and> pending_y state = 0 then Return 0 (Some state)
          else send_report state now (zpt_cursor_coalescer_interval_ms c)
      | _ \<Rightarrow> Return (- EINVAL) st)"

definition zpt_cursor_coalescer_stage_api ::
  "(zpt_cursor_coalescer_config, zpt_cursor_coalescer_state) zpt_stage_api" where
  "zpt_cursor_coalescer_stage_api = \<lparr>strategy_id = Some ''cursor-coalescer'',
     accepted_kinds = ZPT_SIGNAL_KIND_MASK SIGNAL_POINTER_DELTA, output_kind = SIGNAL_POINTER_DELTA,
     api_flags = STAGE_STATEFUL, api_process = Some cursor_coalescer_stage_process,
     api_flush = Some cursor_coalescer_stage_flush, api_activate = Some cursor_coalescer_stage_activate,
     api_deactivate = None, api_reset = Some cursor_coalescer_stage_reset\<rparr>"

section \<open>One step\<close>

lemma take_report_axis_split:
  assumes "in_i64 p" "take_report_axis p = (v, rest)"
  shows "v + rest = p \<and> in_i16 v \<and> \<bar>rest\<bar> \<le> \<bar>p\<bar> \<and> in_i64 rest"
proof -
  let ?v = "if p > INT16_MAX then INT16_MAX else if p < INT16_MIN then INT16_MIN else p"
  have "in_i64 (p - ?v)" using assms(1) by (auto simp: in_i64_def)
  then have "v = ?v" "rest = p - ?v" using assms(2) by (auto simp: take_report_axis_def Let_def)
  then show ?thesis using \<open>in_i64 (p - ?v)\<close> by (auto simp: in_i16_def)
qed

text \<open>
  What a step of the coalescer leaves: motion held back is armed, and the deadline of an armed
  stage is one interval after the last report.
\<close>

definition coalescer_inv :: "u16 \<Rightarrow> zpt_cursor_coalescer_state \<Rightarrow> u32 option \<Rightarrow> bool" where
  "coalescer_inv interval st dl \<longleftrightarrow> in_i64 (pending_x st) \<and> in_i64 (pending_y st) \<and>
     (pending_x st \<noteq> 0 \<or> pending_y st \<noteq> 0 \<longrightarrow> armed st) \<and>
     (if armed st then have_report st \<and> dl = Some (last_report_ms st + ucast interval) else dl = None)"

text \<open>
  The outcome of a step from \<open>st\<close> at time \<open>now\<close> whose folded sums are \<open>x\<close> and \<open>y\<close>: nothing
  reported and nothing lost, or one report, in range and no sooner than the interval allows.
\<close>

definition step_outcome ::
  "u16 \<Rightarrow> zpt_cursor_coalescer_state \<Rightarrow> u32 \<Rightarrow> int \<Rightarrow> int \<Rightarrow> zpt_cursor_coalescer_state \<Rightarrow>
   zpt_signal list \<Rightarrow> bool" where
  "step_outcome interval st now x y st' outs \<longleftrightarrow>
     (outs = [] \<and> pending_x st' = x \<and> pending_y st' = y \<and>
        last_report_ms st' = last_report_ms st \<and> have_report st' = have_report st) \<or>
     (\<exists>o1. outs = [o1] \<and> kind o1 = SIGNAL_POINTER_DELTA \<and> observed_at_ms (metadata o1) = now \<and>
        in_i16 (fst (delta o1)) \<and> in_i16 (snd (delta o1)) \<and>
        fst (delta o1) + pending_x st' = x \<and> snd (delta o1) + pending_y st' = y \<and>
        \<bar>pending_x st'\<bar> \<le> \<bar>x\<bar> \<and> \<bar>pending_y st'\<bar> \<le> \<bar>y\<bar> \<and>
        (have_report st \<longrightarrow> ucast interval \<le> now - last_report_ms st) \<and>
        last_report_ms st' = now \<and> have_report st')"

lemma ucast_interval: "uint (ucast (i :: u16) :: u32) = uint i"
  by (simp add: uint_up_ucast is_up)

lemma send_report_run:
  assumes "in_i64 (pending_x st)" "in_i64 (pending_y st)" "\<not> armed st"
    and "have_report st \<longrightarrow> ucast interval \<le> now - last_report_ms st"
  shows "\<exists>st'. res_state (run_call (send_report st now interval) None) = Some st' \<and>
    coalescer_inv interval st' (res_deadline (run_call (send_report st now interval) None)) \<and>
    step_outcome interval st now (pending_x st) (pending_y st) st'
      (res_out (run_call (send_report st now interval) None))"
proof -
  obtain vx rx where x: "take_report_axis (pending_x st) = (vx, rx)" by (cases "take_report_axis (pending_x st)")
  obtain vy ry where y: "take_report_axis (pending_y st) = (vy, ry)" by (cases "take_report_axis (pending_y st)")
  note sx = take_report_axis_split [OF assms(1) x] and sy = take_report_axis_split [OF assms(2) y]
  show ?thesis
    using assms(3,4) sx sy
    by (simp add: send_report_def x y arm_def coalescer_inv_def step_outcome_def Let_def)
qed

lemma fold_frame_fields:
  assumes "in_i64 (pending_x st)" "in_i64 (pending_y st)" "signal_ok s" "kind s = SIGNAL_POINTER_DELTA"
    and "\<bar>pending_x st\<bar> + \<bar>fst (delta s)\<bar> \<le> INT64_MAX" "\<bar>pending_y st\<bar> + \<bar>snd (delta s)\<bar> \<le> INT64_MAX"
  shows "pending_x (fold_frame s st) = pending_x st + fst (delta s)"
    "pending_y (fold_frame s st) = pending_y st + snd (delta s)"
    "in_i64 (pending_x (fold_frame s st))" "in_i64 (pending_y (fold_frame s st))"
    "armed (fold_frame s st) = armed st" "last_report_ms (fold_frame s st) = last_report_ms st"
    "have_report (fold_frame s st) = have_report st"
proof -
  obtain x y where d: "data s = Delta x y" "in_i32 x" "in_i32 y"
    using signal_ok_cases(3) [OF assms(3,4)] by blast
  have "in_i64 (pending_x st + x)" "in_i64 (pending_y st + y)"
    using assms(5,6) d(1) by (auto simp: in_i64_def)
  moreover note in_i32_in_i64 [OF d(2)] in_i32_in_i64 [OF d(3)]
  ultimately show "pending_x (fold_frame s st) = pending_x st + fst (delta s)"
    "pending_y (fold_frame s st) = pending_y st + snd (delta s)"
    "in_i64 (pending_x (fold_frame s st))" "in_i64 (pending_y (fold_frame s st))"
    "armed (fold_frame s st) = armed st" "last_report_ms (fold_frame s st) = last_report_ms st"
    "have_report (fold_frame s st) = have_report st"
    using assms(1,2) d(1) by (auto simp: fold_frame_def fixed_add.add_exact)
qed

lemma coalescer_frame:
  assumes inv: "coalescer_inv (zpt_cursor_coalescer_interval_ms c) st dl"
    and s: "signal_ok s" "kind s = SIGNAL_POINTER_DELTA"
    and room: "\<bar>pending_x st\<bar> + \<bar>fst (delta s)\<bar> \<le> INT64_MAX" "\<bar>pending_y st\<bar> + \<bar>snd (delta s)\<bar> \<le> INT64_MAX"
  shows "\<exists>st' dl' outs. drive_step zpt_cursor_coalescer_stage_api (Some c) (Some st, dl) (FrameAt now s) =
      ((Some st', dl'), outs) \<and> coalescer_inv (zpt_cursor_coalescer_interval_ms c) st' dl' \<and>
    step_outcome (zpt_cursor_coalescer_interval_ms c) st now (pending_x st + fst (delta s))
      (pending_y st + snd (delta s)) st' outs"
proof -
  let ?i = "zpt_cursor_coalescer_interval_ms c"
  have ranges: "in_i64 (pending_x st)" "in_i64 (pending_y st)" using inv by (simp_all add: coalescer_inv_def)
  note fold = fold_frame_fields [OF ranges s room]
  let ?st = "fold_frame s st"
  show ?thesis
  proof (cases "(pending_x ?st \<noteq> 0 \<or> pending_y ?st \<noteq> 0) \<and> \<not> armed ?st \<and> interval_elapsed ?st now ?i")
    case True
    then have dl: "dl = None" using inv fold by (simp add: coalescer_inv_def)
    have proc: "cursor_coalescer_stage_process (Some c) (Some st) now s = send_report ?st now ?i"
      using True s by (auto simp: cursor_coalescer_stage_process_def Let_def)
    have "have_report ?st \<longrightarrow> ucast ?i \<le> now - last_report_ms ?st"
      using True by (simp add: interval_elapsed_def)
    from send_report_run [OF fold(3,4) _ this] True proc dl fold show ?thesis
      by (auto simp: zpt_cursor_coalescer_stage_api_def step_outcome_def Let_def simp del: delta.simps)
  next
    case False
    then show ?thesis
      using inv fold s
      by (auto simp: zpt_cursor_coalescer_stage_api_def cursor_coalescer_stage_process_def arm_def
          coalescer_inv_def step_outcome_def interval_elapsed_def Let_def simp del: delta.simps)
  qed
qed

lemma coalescer_tick:
  assumes inv: "coalescer_inv (zpt_cursor_coalescer_interval_ms c) st dl"
  shows "\<exists>st' dl' outs. drive_step zpt_cursor_coalescer_stage_api (Some c) (Some st, dl) (TickAt now) =
      ((Some st', dl'), outs) \<and> coalescer_inv (zpt_cursor_coalescer_interval_ms c) st' dl' \<and>
    step_outcome (zpt_cursor_coalescer_interval_ms c) st now (pending_x st) (pending_y st) st' outs"
proof (cases "dl")
  case None
  then show ?thesis using inv by (auto simp: step_outcome_def)
next
  case (Some d)
  let ?i = "zpt_cursor_coalescer_interval_ms c"
  have d: "d = last_report_ms st + ucast ?i" "have_report st" "in_i64 (pending_x st)" "in_i64 (pending_y st)"
    using inv Some by (simp_all add: coalescer_inv_def split: if_splits)
  show ?thesis
  proof (cases "time_reached now d \<and> (pending_x st \<noteq> 0 \<or> pending_y st \<noteq> 0)")
    case False
    then show ?thesis
      using inv Some
      by (auto simp: zpt_cursor_coalescer_stage_api_def cursor_coalescer_stage_flush_def step_outcome_def
          coalescer_inv_def Let_def)
  next
    case True
    let ?st = "st\<lparr>armed := False\<rparr>"
    have "ucast ?i \<le> now - last_report_ms st"
      using True d(1) uint_bounds(2) [of ?i] by (intro time_reached_span) (simp_all add: ucast_interval)
    moreover have "cursor_coalescer_stage_flush (Some c) (Some st) d now = send_report ?st now ?i"
      using True by (auto simp: cursor_coalescer_stage_flush_def Let_def)
    ultimately show ?thesis
      using send_report_run [of ?st ?i now] d Some True
      by (auto simp: zpt_cursor_coalescer_stage_api_def step_outcome_def Let_def simp del: delta.simps)
  qed
qed

section \<open>Any schedule\<close>

fun motion_x :: "drive_input \<Rightarrow> int" where
  "motion_x (FrameAt now s) = fst (delta s)"
| "motion_x (TickAt now) = 0"

fun motion_y :: "drive_input \<Rightarrow> int" where
  "motion_y (FrameAt now s) = snd (delta s)"
| "motion_y (TickAt now) = 0"

fun delta_input :: "drive_input \<Rightarrow> bool" where
  "delta_input (FrameAt now s) = (signal_ok s \<and> kind s = SIGNAL_POINTER_DELTA)"
| "delta_input (TickAt now) = True"

definition report_times :: "zpt_signal list \<Rightarrow> u32 list" where
  "report_times = map (\<lambda>s. observed_at_ms (metadata s))"

definition spaced :: "u16 \<Rightarrow> zpt_cursor_coalescer_state \<Rightarrow> zpt_signal list \<Rightarrow> bool" where
  "spaced interval st outs \<longleftrightarrow> successively (\<lambda>a b. ucast interval \<le> b - a)
     ((if have_report st then [last_report_ms st] else []) @ report_times outs)"

lemma coalescer_step:
  assumes "coalescer_inv (zpt_cursor_coalescer_interval_ms c) st dl" "delta_input i"
    and "\<bar>pending_x st\<bar> + \<bar>motion_x i\<bar> \<le> INT64_MAX" "\<bar>pending_y st\<bar> + \<bar>motion_y i\<bar> \<le> INT64_MAX"
  obtains st' dl' outs where
    "drive_step zpt_cursor_coalescer_stage_api (Some c) (Some st, dl) i = ((Some st', dl'), outs)"
    "coalescer_inv (zpt_cursor_coalescer_interval_ms c) st' dl'"
    "step_outcome (zpt_cursor_coalescer_interval_ms c) st (input_time i) (pending_x st + motion_x i)
      (pending_y st + motion_y i) st' outs"
proof (cases i)
  case (FrameAt now s)
  then show thesis using coalescer_frame [OF assms(1), of s now] assms(2-4) that by auto
next
  case (TickAt now)
  then show thesis using coalescer_tick [OF assms(1), of now] that by auto
qed

lemma coalescer_drive:
  assumes "coalescer_inv (zpt_cursor_coalescer_interval_ms c) st dl" "\<forall>i \<in> set is. delta_input i"
    and "\<bar>pending_x st\<bar> + (\<Sum>i\<leftarrow>is. \<bar>motion_x i\<bar>) \<le> INT64_MAX"
    and "\<bar>pending_y st\<bar> + (\<Sum>i\<leftarrow>is. \<bar>motion_y i\<bar>) \<le> INT64_MAX"
  shows "\<exists>st' dl' outs. drive zpt_cursor_coalescer_stage_api (Some c) (Some st, dl) is =
      ((Some st', dl'), outs) \<and> coalescer_inv (zpt_cursor_coalescer_interval_ms c) st' dl' \<and>
    (\<Sum>s\<leftarrow>outs. fst (delta s)) + pending_x st' = pending_x st + (\<Sum>i\<leftarrow>is. motion_x i) \<and>
    (\<Sum>s\<leftarrow>outs. snd (delta s)) + pending_y st' = pending_y st + (\<Sum>i\<leftarrow>is. motion_y i) \<and>
    (\<forall>s \<in> set outs. in_i16 (fst (delta s)) \<and> in_i16 (snd (delta s))) \<and>
    spaced (zpt_cursor_coalescer_interval_ms c) st outs"
  using assms
proof (induction "is" arbitrary: st dl)
  case Nil
  then show ?case by (simp add: spaced_def report_times_def)
next
  case (Cons i "is")
  let ?i = "zpt_cursor_coalescer_interval_ms c"
  have tail: "0 \<le> (\<Sum>i\<leftarrow>is. \<bar>motion_x i\<bar>)" "0 \<le> (\<Sum>i\<leftarrow>is. \<bar>motion_y i\<bar>)"
    by (auto intro!: sum_list_nonneg)
  obtain st1 dl1 out1 where step:
    "drive_step zpt_cursor_coalescer_stage_api (Some c) (Some st, dl) i = ((Some st1, dl1), out1)"
    "coalescer_inv ?i st1 dl1"
    "step_outcome ?i st (input_time i) (pending_x st + motion_x i) (pending_y st + motion_y i) st1 out1"
    by (rule coalescer_step [OF Cons.prems(1)]) (use Cons.prems tail in auto)
  have "\<bar>pending_x st1\<bar> \<le> \<bar>pending_x st + motion_x i\<bar>" "\<bar>pending_y st1\<bar> \<le> \<bar>pending_y st + motion_y i\<bar>"
    using step(3) by (auto simp: step_outcome_def)
  then have room: "\<bar>pending_x st1\<bar> + (\<Sum>i\<leftarrow>is. \<bar>motion_x i\<bar>) \<le> INT64_MAX"
      "\<bar>pending_y st1\<bar> + (\<Sum>i\<leftarrow>is. \<bar>motion_y i\<bar>) \<le> INT64_MAX"
    using Cons.prems(3,4) by auto
  obtain st' dl' outs where run:
    "drive zpt_cursor_coalescer_stage_api (Some c) (Some st1, dl1) is = ((Some st', dl'), outs)"
    "coalescer_inv ?i st' dl'"
    "(\<Sum>s\<leftarrow>outs. fst (delta s)) + pending_x st' = pending_x st1 + (\<Sum>i\<leftarrow>is. motion_x i)"
    "(\<Sum>s\<leftarrow>outs. snd (delta s)) + pending_y st' = pending_y st1 + (\<Sum>i\<leftarrow>is. motion_y i)"
    "\<forall>s \<in> set outs. in_i16 (fst (delta s)) \<and> in_i16 (snd (delta s))"
    "spaced ?i st1 outs"
    using Cons.IH [OF step(2) _ room] Cons.prems(2) by (auto simp del: delta.simps)
  have all: "drive zpt_cursor_coalescer_stage_api (Some c) (Some st, dl) (i # is) =
      ((Some st', dl'), out1 @ outs)"
    using step(1) run(1) by (simp del: drive_step.simps)
  have sums: "(\<Sum>s\<leftarrow>out1. fst (delta s)) + pending_x st1 = pending_x st + motion_x i"
      "(\<Sum>s\<leftarrow>out1. snd (delta s)) + pending_y st1 = pending_y st + motion_y i"
      "\<forall>s \<in> set out1. in_i16 (fst (delta s)) \<and> in_i16 (snd (delta s))"
    using step(3) by (auto simp: step_outcome_def simp del: delta.simps)
  have "spaced ?i st (out1 @ outs)"
    using step(3) run(6)
    by (auto simp: step_outcome_def spaced_def report_times_def simp del: delta.simps split: if_splits)
  then show ?case
    using run sums unfolding all by (auto simp del: delta.simps)
qed

text \<open>Property C5. Whatever the schedule of frames and flushes, and as long as the total motion fits
  64 bits, the coalescer loses none of it: what it reported plus what it holds is what it
  received. Every report fits the signed 16-bit HID range, consecutive reports are at least the
  link's interval apart, and whenever motion is held back a flush is scheduled to send it.\<close>

theorem coalescer_conserves_and_paces:
  assumes "\<forall>i \<in> set is. delta_input i"
    and "(\<Sum>i\<leftarrow>is. \<bar>motion_x i\<bar>) \<le> INT64_MAX" "(\<Sum>i\<leftarrow>is. \<bar>motion_y i\<bar>) \<le> INT64_MAX"
    and "drive zpt_cursor_coalescer_stage_api (Some c) (Some zero_coalescer, None) is = ((Some st, dl), outs)"
  shows "(\<Sum>s\<leftarrow>outs. fst (delta s)) + pending_x st = (\<Sum>i\<leftarrow>is. motion_x i) \<and>
    (\<Sum>s\<leftarrow>outs. snd (delta s)) + pending_y st = (\<Sum>i\<leftarrow>is. motion_y i) \<and>
    (\<forall>s \<in> set outs. in_i16 (fst (delta s)) \<and> in_i16 (snd (delta s))) \<and>
    successively (\<lambda>a b. ucast (zpt_cursor_coalescer_interval_ms c) \<le> b - a) (report_times outs) \<and>
    (pending_x st \<noteq> 0 \<or> pending_y st \<noteq> 0 \<longrightarrow>
       dl = Some (last_report_ms st + ucast (zpt_cursor_coalescer_interval_ms c)))"
proof -
  have "coalescer_inv (zpt_cursor_coalescer_interval_ms c) zero_coalescer None"
    by (simp add: coalescer_inv_def zero_coalescer_def)
  from coalescer_drive [OF this assms(1)] assms(2-4) show ?thesis
    by (auto simp: zero_coalescer_def spaced_def coalescer_inv_def simp del: delta.simps)
qed

definition sample_delta :: zpt_signal where
  "sample_delta = zero_signal\<lparr>kind := SIGNAL_POINTER_DELTA, data := Delta 40000 (- 3)\<rparr>"

definition sample_coalescer :: zpt_cursor_coalescer_config where
  "sample_coalescer = \<lparr>usb_report_interval_ms = 2, ble_report_interval_ms = 8, current_link = Some LINK_BLE\<rparr>"

lemma coalescer_conserves_and_paces_witness:
  "let ((st, dl), outs) = drive zpt_cursor_coalescer_stage_api (Some sample_coalescer)
         (Some zero_coalescer, None)
         [FrameAt 100 sample_delta, FrameAt 101 sample_delta, TickAt 108]
   in report_times outs = [100, 108] \<and> dl = Some 116 \<and>
      (\<Sum>s\<leftarrow>outs. fst (delta s)) + pending_x (the st) = 80000"
proof -
  let ?c = sample_coalescer
  let ?is = "[FrameAt 100 sample_delta, FrameAt 101 sample_delta, TickAt 108]"
  let ?run = "drive zpt_cursor_coalescer_stage_api (Some ?c) (Some zero_coalescer, None) ?is"
  have times: "report_times (snd ?run) = [100, 108]" "snd (fst ?run) = Some 116" "fst (fst ?run) \<noteq> None"
    by (simp_all add: sample_coalescer_def zpt_cursor_coalescer_stage_api_def cursor_coalescer_stage_process_def
        cursor_coalescer_stage_flush_def fold_frame_def send_report_def arm_def interval_elapsed_def
        take_report_axis_def zpt_cursor_coalescer_interval_ms_def zero_coalescer_def sample_delta_def
        zero_signal_defs fixed_add.add_clamps clamp64_def time_reached_def report_times_def Let_def)
  then obtain st dl outs where run: "?run = ((Some st, dl), outs)"
    by (cases ?run) auto
  have "\<forall>i \<in> set ?is. delta_input i"
    by (simp add: sample_delta_def zero_signal_defs signal_ok_def)
  then have "(\<Sum>s\<leftarrow>outs. fst (delta s)) + pending_x st = 80000"
    using coalescer_conserves_and_paces [OF _ _ _ run] by (simp add: sample_delta_def)
  then show ?thesis using times unfolding run by simp
qed

lemma coalescer_send_ok:
  assumes "in_i64 (pending_x st)" "in_i64 (pending_y st)"
  shows "prog_ok SIGNAL_POINTER_DELTA (\<lambda>st. \<forall>s. st = Some s \<longrightarrow> in_i64 (pending_x s) \<and> in_i64 (pending_y s))
    (send_report st now interval)"
proof -
  obtain vx rx where x: "take_report_axis (pending_x st) = (vx, rx)" by (cases "take_report_axis (pending_x st)")
  obtain vy ry where y: "take_report_axis (pending_y st) = (vy, ry)" by (cases "take_report_axis (pending_y st)")
  show ?thesis
    using take_report_axis_split [OF assms(1) x] take_report_axis_split [OF assms(2) y]
    by (auto simp: send_report_def x y arm_def Let_def signal_ok_def zero_annotations_def in_i16_in_i32)
qed

interpretation coalescer: stage_contract zpt_cursor_coalescer_stage_api "\<lambda>c. True"
    "\<lambda>c st. \<forall>s. st = Some s \<longrightarrow> in_i64 (pending_x s) \<and> in_i64 (pending_y s)"
proof (unfold_locales, goal_cases)
  case (1 c st s f now)
  have k: "kind s = SIGNAL_POINTER_DELTA"
    using 1(3) by (rule accepts_mask) (simp_all add: zpt_cursor_coalescer_stage_api_def zpt_signal_kind_valid_def)
  have f: "f = cursor_coalescer_stage_process"
    using 1(5) by (simp add: zpt_cursor_coalescer_stage_api_def)
  have fold: "in_i64 (pending_x (fold_frame s state)) \<and> in_i64 (pending_y (fold_frame s state))"
    if "st = Some state" for state
    using 1(2) that by (simp add: fold_frame_def saturating_add_in_i64)
  show ?case
    using k fold 1(2) coalescer_send_ok
    by (auto simp: f cursor_coalescer_stage_process_def arm_def Let_def
        zpt_cursor_coalescer_stage_api_def split: option.split)
next
  case (2 c st g dl now)
  then show ?case
    using coalescer_send_ok
    by (auto simp: zpt_cursor_coalescer_stage_api_def cursor_coalescer_stage_flush_def Let_def
        split: option.split)
next
  case (3 c st h reason)
  then show ?case
    by (auto simp: zpt_cursor_coalescer_stage_api_def cursor_coalescer_stage_reset_def zero_coalescer_def)
qed (simp_all add: zpt_cursor_coalescer_stage_api_def)

end
