(* ===== verification/Scroll_Batcher.thy ===== *)
theory Scroll_Batcher
  imports Suppression
begin

text \<open>
  The scroll batcher (\<open>stage/scroll_batcher.h\<close>, \<open>stage/scroll_batcher/scroll_batcher.c\<close>): motion is
  summed until one armed flush turns it into whole wheel steps, the fraction carried over.
\<close>

record zpt_scroll_batcher_config =
  steps_per_millimeter :: int
  report_interval_ms :: u16
  sb_suppression :: "zpt_suppression_policy option"

record zpt_scroll_batcher_state =
  sb_pending_x :: int
  sb_pending_y :: int
  sb_remainder_x :: int
  sb_remainder_y :: int
  sb_armed :: bool

definition zero_batcher :: zpt_scroll_batcher_state where
  "zero_batcher = \<lparr>sb_pending_x = 0, sb_pending_y = 0, sb_remainder_x = 0, sb_remainder_y = 0,
     sb_armed = False\<rparr>"

definition scroll_batcher_stage_activate ::
  "(zpt_scroll_batcher_config, zpt_scroll_batcher_state) zpt_stage_activate" where
  "scroll_batcher_stage_activate config st reason =
     (case (config, st) of
        (Some c, Some _) \<Rightarrow>
          (if steps_per_millimeter c \<le> 0 \<or> report_interval_ms c = 0 then - EINVAL else 0, st)
      | _ \<Rightarrow> (- EINVAL, st))"

definition scroll_batcher_stage_reset ::
  "(zpt_scroll_batcher_config, zpt_scroll_batcher_state) zpt_stage_reset" where
  "scroll_batcher_stage_reset config st reason = map_option (\<lambda>_. zero_batcher) st"

definition scroll_batcher_stage_process ::
  "(zpt_scroll_batcher_config, zpt_scroll_batcher_state) zpt_stage_process" where
  "scroll_batcher_stage_process config st now s =
     (case (config, st) of
        (Some c, Some state) \<Rightarrow>
          if kind s \<noteq> SIGNAL_NORMALIZED_MOTION then Return (- EINVAL) st
          else if suppression_active (sb_suppression c) s now then
            Notify EVENT_SUPPRESSED 0
              (Return 0 (Some (state\<lparr>sb_pending_x := 0, sb_pending_y := 0\<rparr>)))
          else
            let state = state\<lparr>
                  sb_pending_x := zpt_fixed_saturating_add (sb_pending_x state) (fst (fixed_vector s)),
                  sb_pending_y := zpt_fixed_saturating_add (sb_pending_y state) (snd (fixed_vector s))\<rparr>
            in if \<not> sb_armed state then
                 ScheduleFlush (now + ucast (report_interval_ms c))
                   (\<lambda>ret. if ret < 0 then Return ret (Some state)
                          else Return 0 (Some (state\<lparr>sb_armed := True\<rparr>)))
               else Return 0 (Some state)
      | _ \<Rightarrow> Return (- EINVAL) st)"

text \<open>One axis of a flush: whole steps and the remainder left.\<close>

definition scroll_axis :: "int \<Rightarrow> int \<Rightarrow> int \<Rightarrow> int \<times> int" where
  "scroll_axis pending spm remainder =
     (let units = zpt_fixed_saturating_add (zpt_fixed_multiply pending spm) remainder;
          steps = zpt_fixed_to_int32 units
      in (steps, i64 (units - steps * FIXED_ONE)))"

definition scroll_batcher_stage_flush ::
  "(zpt_scroll_batcher_config, zpt_scroll_batcher_state) zpt_stage_flush" where
  "scroll_batcher_stage_flush config st deadline now =
     (case (config, st) of
        (Some c, Some state) \<Rightarrow>
          let (horizontal, rest_x) =
                scroll_axis (sb_pending_x state) (steps_per_millimeter c) (sb_remainder_x state);
              (vertical, rest_y) =
                scroll_axis (sb_pending_y state) (steps_per_millimeter c) (sb_remainder_y state);
              state = \<lparr>sb_pending_x = 0, sb_pending_y = 0, sb_remainder_x = rest_x,
                       sb_remainder_y = rest_y, sb_armed = False\<rparr>
          in if horizontal = 0 \<and> vertical = 0 then Return 0 (Some state)
             else
               Notify EVENT_FLUSHED
                 ((if horizontal > 0 then horizontal else i32 (- horizontal)) +
                  (if vertical > 0 then vertical else i32 (- vertical)))
                 (emit_return
                   \<lparr>kind = SIGNAL_SCROLL_STEPS, metadata = zero_metadata\<lparr>observed_at_ms := deadline\<rparr>,
                    annotations = zero_annotations, data = Delta horizontal vertical\<rparr>
                   (Some state))
      | _ \<Rightarrow> Return (- EINVAL) st)"

definition zpt_scroll_batcher_stage_api ::
  "(zpt_scroll_batcher_config, zpt_scroll_batcher_state) zpt_stage_api" where
  "zpt_scroll_batcher_stage_api = \<lparr>strategy_id = Some ''scroll-batcher'',
     accepted_kinds = ZPT_SIGNAL_KIND_MASK SIGNAL_NORMALIZED_MOTION, output_kind = SIGNAL_SCROLL_STEPS,
     api_flags = STAGE_STATEFUL, api_process = Some scroll_batcher_stage_process,
     api_flush = Some scroll_batcher_stage_flush, api_activate = Some scroll_batcher_stage_activate,
     api_deactivate = None, api_reset = Some scroll_batcher_stage_reset\<rparr>"

section \<open>One flush\<close>

lemma scroll_axis_exact:
  assumes "in_i64 spm" "in_i64 p" "\<bar>p * spm\<bar> \<le> 4611686018427387904" "\<bar>rest\<bar> < 65536"
    and "scroll_axis p spm rest = (steps, rest')"
  shows "steps * 65536 + rest' = p * spm div 65536 + rest \<and> \<bar>rest'\<bar> < 65536 \<and> in_i32 steps"
proof -
  obtain v where v: "p * spm = v" by simp
  let ?n = "v div 65536 + rest"
  have bound: "\<bar>v\<bar> \<le> 4611686018427387904" using assms(3) v by simp
  then have mult: "zpt_fixed_multiply p spm = v div 65536"
    using assms(1,2) v by (auto simp: fixed_multiply_cases)
  have n: "\<bar>?n\<bar> \<le> 70368744177664 + 65535" using bound assms(4) by linarith
  have sum: "zpt_fixed_saturating_add (v div 65536) rest = ?n"
    using n bound assms(4) by (intro fixed_add.add_exact; unfold in_i64_def; linarith)
  have q: "\<bar>?n sdiv 65536\<bar> \<le> 1073741825" using n by (auto simp: sdiv_pos_cases)
  have rest: "\<bar>?n - ?n sdiv 65536 * 65536\<bar> < 65536" by (rule sdiv_remainder_abs) simp
  have int: "zpt_fixed_to_int32 ?n = ?n sdiv 65536" using q by (auto simp: fixed_to_int32_cases)
  have wrap: "i64 (?n - ?n sdiv 65536 * 65536) = ?n - ?n sdiv 65536 * 65536"
    using rest by (intro i64_id) (auto simp: in_i64_def)
  have "steps = ?n sdiv 65536" "rest' = ?n - ?n sdiv 65536 * 65536"
    using assms(5) unfolding scroll_axis_def Let_def mult sum int wrap by simp_all
  moreover have "in_i32 (?n sdiv 65536)" using q unfolding in_i32_def by linarith
  ultimately show ?thesis using rest unfolding v by simp
qed

lemma scroll_axis_in_range:
  "in_i32 (fst (scroll_axis p spm rest))" "in_i64 (snd (scroll_axis p spm rest))"
  by (simp_all add: scroll_axis_def Let_def fixed_to_int32_in_i32)

section \<open>Any schedule\<close>

fun scroll_x :: "drive_input \<Rightarrow> int" where
  "scroll_x (FrameAt now s) = fst (fixed_vector s)"
| "scroll_x (TickAt now) = 0"

fun scroll_y :: "drive_input \<Rightarrow> int" where
  "scroll_y (FrameAt now s) = snd (fixed_vector s)"
| "scroll_y (TickAt now) = 0"

fun ticks :: "drive_input list \<Rightarrow> int" where
  "ticks [] = 0"
| "ticks (FrameAt now s # is) = ticks is"
| "ticks (TickAt now # is) = 1 + ticks is"

fun motion_input :: "drive_input \<Rightarrow> bool" where
  "motion_input (FrameAt now s) = (signal_ok s \<and> kind s = SIGNAL_NORMALIZED_MOTION)"
| "motion_input (TickAt now) = True"

lemma ticks_append: "ticks (i # is) = ticks [i] + ticks is" "0 \<le> ticks is"
  by (cases i; simp) (induction "is" rule: ticks.induct; simp)

definition batcher_inv :: "zpt_scroll_batcher_state \<Rightarrow> bool" where
  "batcher_inv st \<longleftrightarrow> \<bar>sb_remainder_x st\<bar> < 65536 \<and> \<bar>sb_remainder_y st\<bar> < 65536"

text \<open>What an axis holds, in 2^-32 steps.\<close>

definition held_x :: "int \<Rightarrow> zpt_scroll_batcher_state \<Rightarrow> int" where
  "held_x spm st = sb_pending_x st * spm + 65536 * sb_remainder_x st"

definition held_y :: "int \<Rightarrow> zpt_scroll_batcher_state \<Rightarrow> int" where
  "held_y spm st = sb_pending_y st * spm + 65536 * sb_remainder_y st"

text \<open>\<open>shortfall\<close>: motion received and not yet accounted for as steps or as held.\<close>

definition within :: "int \<Rightarrow> int \<Rightarrow> bool" where
  "within n d \<longleftrightarrow> 0 \<le> d \<and> d \<le> 65535 * n"

lemma within_add: "within a x \<Longrightarrow> within b y \<Longrightarrow> within (a + b) (x + y)"
  by (auto simp: within_def)

lemma within_div: "within 1 (v - 65536 * (v div 65536))"
  by (simp add: within_def minus_mult_div_eq_mod)

lemma batcher_room:
  assumes "0 < spm" "(\<bar>p\<bar> + \<bar>x\<bar>) * spm \<le> 4611686018427387904"
  shows "zpt_fixed_saturating_add p x = p + x" "\<bar>p * spm\<bar> \<le> 4611686018427387904"
    "in_i64 p"
proof -
  have "(\<bar>p\<bar> + \<bar>x\<bar>) * 1 \<le> (\<bar>p\<bar> + \<bar>x\<bar>) * spm" using assms(1) by (intro mult_left_mono) auto
  then have "(\<bar>p\<bar> + \<bar>x\<bar>) * 1 \<le> 4611686018427387904" using assms(2) by (rule order_trans)
  then have "\<bar>p\<bar> + \<bar>x\<bar> \<le> 4611686018427387904" by simp
  then show "zpt_fixed_saturating_add p x = p + x"
    by (intro fixed_add.add_exact; unfold in_i64_def; linarith)
  show "in_i64 p" using \<open>\<bar>p\<bar> + \<bar>x\<bar> \<le> 4611686018427387904\<close> unfolding in_i64_def by linarith
  have "\<bar>p * spm\<bar> = \<bar>p\<bar> * spm" using assms(1) by (simp add: abs_mult)
  also have "\<dots> \<le> (\<bar>p\<bar> + \<bar>x\<bar>) * spm" using assms(1) by (intro mult_right_mono) auto
  finally show "\<bar>p * spm\<bar> \<le> 4611686018427387904" using assms(2) by linarith
qed

lemma batcher_frame:
  assumes "sb_suppression c = None" "batcher_inv st" "0 < steps_per_millimeter c"
    and "kind s = SIGNAL_NORMALIZED_MOTION"
    and "(\<bar>sb_pending_x st\<bar> + \<bar>fst (fixed_vector s)\<bar>) * steps_per_millimeter c \<le> 4611686018427387904"
    and "(\<bar>sb_pending_y st\<bar> + \<bar>snd (fixed_vector s)\<bar>) * steps_per_millimeter c \<le> 4611686018427387904"
  obtains st' dl' where
    "drive_step zpt_scroll_batcher_stage_api (Some c) (Some st, dl) (FrameAt now s) = ((Some st', dl'), [])"
    "sb_pending_x st' = sb_pending_x st + fst (fixed_vector s)"
    "sb_pending_y st' = sb_pending_y st + snd (fixed_vector s)"
    "sb_remainder_x st' = sb_remainder_x st" "sb_remainder_y st' = sb_remainder_y st"
proof -
  note x = batcher_room(1) [OF assms(3,5)] and y = batcher_room(1) [OF assms(3,6)]
  show thesis
    using assms(1,4) x y
    by (cases "sb_armed st")
       (auto intro!: that simp: zpt_scroll_batcher_stage_api_def scroll_batcher_stage_process_def Let_def
         simp del: fixed_vector.simps)
qed

lemma batcher_flush:
  assumes "in_i64 (steps_per_millimeter c)" "batcher_inv st"
    and "in_i64 (sb_pending_x st)" "in_i64 (sb_pending_y st)"
    and "\<bar>sb_pending_x st * steps_per_millimeter c\<bar> \<le> 4611686018427387904"
    and "\<bar>sb_pending_y st * steps_per_millimeter c\<bar> \<le> 4611686018427387904"
  obtains st' outs where
    "drive_step zpt_scroll_batcher_stage_api (Some c) (Some st, dl) (TickAt now) = ((Some st, dl), []) \<or>
     drive_step zpt_scroll_batcher_stage_api (Some c) (Some st, dl) (TickAt now) = ((Some st', None), outs)"
    "batcher_inv st'" "sb_pending_x st' = 0" "sb_pending_y st' = 0"
    "(\<Sum>s\<leftarrow>outs. fst (delta s)) * 65536 + sb_remainder_x st' =
       sb_pending_x st * steps_per_millimeter c div 65536 + sb_remainder_x st"
    "(\<Sum>s\<leftarrow>outs. snd (delta s)) * 65536 + sb_remainder_y st' =
       sb_pending_y st * steps_per_millimeter c div 65536 + sb_remainder_y st"
    "\<forall>s \<in> set outs. kind s = SIGNAL_SCROLL_STEPS \<and> in_i32 (fst (delta s)) \<and> in_i32 (snd (delta s))"
proof -
  let ?spm = "steps_per_millimeter c"
  obtain sx rx where x: "scroll_axis (sb_pending_x st) ?spm (sb_remainder_x st) = (sx, rx)"
    by (cases "scroll_axis (sb_pending_x st) ?spm (sb_remainder_x st)")
  obtain sy ry where y: "scroll_axis (sb_pending_y st) ?spm (sb_remainder_y st) = (sy, ry)"
    by (cases "scroll_axis (sb_pending_y st) ?spm (sb_remainder_y st)")
  have ex: "sx * 65536 + rx = sb_pending_x st * ?spm div 65536 + sb_remainder_x st \<and> \<bar>rx\<bar> < 65536 \<and> in_i32 sx"
    using assms by (intro scroll_axis_exact [OF _ _ _ _ x]) (simp_all add: batcher_inv_def)
  have ey: "sy * 65536 + ry = sb_pending_y st * ?spm div 65536 + sb_remainder_y st \<and> \<bar>ry\<bar> < 65536 \<and> in_i32 sy"
    using assms by (intro scroll_axis_exact [OF _ _ _ _ y]) (simp_all add: batcher_inv_def)
  let ?st = "\<lparr>sb_pending_x = 0, sb_pending_y = 0, sb_remainder_x = rx, sb_remainder_y = ry, sb_armed = False\<rparr>"
  define outs where "outs d = (if sx = 0 \<and> sy = 0 then []
    else [\<lparr>kind = SIGNAL_SCROLL_STEPS, metadata = zero_metadata\<lparr>observed_at_ms := d\<rparr>,
           annotations = zero_annotations, data = Delta sx sy\<rparr>])" for d
  have step: "drive_step zpt_scroll_batcher_stage_api (Some c) (Some st, Some d) (TickAt now) =
      (if time_reached now d then ((Some ?st, None), outs d) else ((Some st, Some d), []))" for d
    by (auto simp: zpt_scroll_batcher_stage_api_def scroll_batcher_stage_flush_def x y outs_def Let_def)
  have sums: "(\<Sum>s\<leftarrow>outs d. fst (delta s)) = sx" "(\<Sum>s\<leftarrow>outs d. snd (delta s)) = sy"
    "\<forall>s \<in> set (outs d). kind s = SIGNAL_SCROLL_STEPS \<and> in_i32 (fst (delta s)) \<and> in_i32 (snd (delta s))" for d
    using ex ey by (auto simp: outs_def)
  show thesis
    by (rule that [of ?st "outs (the dl)"])
       (use step sums ex ey in \<open>cases dl; simp add: batcher_inv_def del: delta.simps\<close>)+
qed

lemma batcher_step:
  assumes "sb_suppression c = None" "in_i64 (steps_per_millimeter c)" "batcher_inv st" "motion_input i"
    and spm: "0 < steps_per_millimeter c"
    and x: "(\<bar>sb_pending_x st\<bar> + \<bar>scroll_x i\<bar>) * steps_per_millimeter c \<le> 4611686018427387904"
    and y: "(\<bar>sb_pending_y st\<bar> + \<bar>scroll_y i\<bar>) * steps_per_millimeter c \<le> 4611686018427387904"
  obtains st' dl' outs where
    "drive_step zpt_scroll_batcher_stage_api (Some c) (Some st, dl) i = ((Some st', dl'), outs)"
    "batcher_inv st'" "\<bar>sb_pending_x st'\<bar> \<le> \<bar>sb_pending_x st\<bar> + \<bar>scroll_x i\<bar>"
    "\<bar>sb_pending_y st'\<bar> \<le> \<bar>sb_pending_y st\<bar> + \<bar>scroll_y i\<bar>"
    "within (ticks [i]) (held_x (steps_per_millimeter c) st + scroll_x i * steps_per_millimeter c -
       (4294967296 * (\<Sum>s\<leftarrow>outs. fst (delta s)) + held_x (steps_per_millimeter c) st'))"
    "within (ticks [i]) (held_y (steps_per_millimeter c) st + scroll_y i * steps_per_millimeter c -
       (4294967296 * (\<Sum>s\<leftarrow>outs. snd (delta s)) + held_y (steps_per_millimeter c) st'))"
    "\<forall>s \<in> set outs. kind s = SIGNAL_SCROLL_STEPS \<and> in_i32 (fst (delta s)) \<and> in_i32 (snd (delta s))"
proof (cases i)
  case (FrameAt now s)
  have "kind s = SIGNAL_NORMALIZED_MOTION" using assms(4) FrameAt by simp
  from batcher_frame [OF assms(1,3) spm this] x y obtain st' dl' where
    "drive_step zpt_scroll_batcher_stage_api (Some c) (Some st, dl) i = ((Some st', dl'), [])"
    "sb_pending_x st' = sb_pending_x st + scroll_x i" "sb_pending_y st' = sb_pending_y st + scroll_y i"
    "sb_remainder_x st' = sb_remainder_x st" "sb_remainder_y st' = sb_remainder_y st"
    by (metis FrameAt scroll_x.simps(1) scroll_y.simps(1))
  then show thesis
    using assms(3) FrameAt
    by (intro that [of st' dl' "[]"])
       (auto simp: batcher_inv_def within_def held_x_def held_y_def algebra_simps simp del: scroll_x.simps scroll_y.simps)
next
  case (TickAt now)
  note px = batcher_room(2,3) [OF spm x] and py = batcher_room(2,3) [OF spm y]
  obtain st' outs where
    step: "drive_step zpt_scroll_batcher_stage_api (Some c) (Some st, dl) i = ((Some st, dl), []) \<or>
     drive_step zpt_scroll_batcher_stage_api (Some c) (Some st, dl) i = ((Some st', None), outs)"
    and st': "batcher_inv st'" "sb_pending_x st' = 0" "sb_pending_y st' = 0"
    and sums: "(\<Sum>s\<leftarrow>outs. fst (delta s)) * 65536 + sb_remainder_x st' =
       sb_pending_x st * steps_per_millimeter c div 65536 + sb_remainder_x st"
    "(\<Sum>s\<leftarrow>outs. snd (delta s)) * 65536 + sb_remainder_y st' =
       sb_pending_y st * steps_per_millimeter c div 65536 + sb_remainder_y st"
    and ok: "\<forall>s \<in> set outs. kind s = SIGNAL_SCROLL_STEPS \<and> in_i32 (fst (delta s)) \<and> in_i32 (snd (delta s))"
    unfolding TickAt by (rule batcher_flush [OF assms(2,3) px(2) py(2) px(1) py(1)])
  have dx: "held_x (steps_per_millimeter c) st - (4294967296 * (\<Sum>s\<leftarrow>outs. fst (delta s)) + held_x (steps_per_millimeter c) st') =
      sb_pending_x st * steps_per_millimeter c - 65536 * (sb_pending_x st * steps_per_millimeter c div 65536)"
    using sums(1) unfolding held_x_def st'(2) mult_zero_left by linarith
  have dy: "held_y (steps_per_millimeter c) st - (4294967296 * (\<Sum>s\<leftarrow>outs. snd (delta s)) + held_y (steps_per_millimeter c) st') =
      sb_pending_y st * steps_per_millimeter c - 65536 * (sb_pending_y st * steps_per_millimeter c div 65536)"
    using sums(2) unfolding held_y_def st'(3) mult_zero_left by linarith
  from step show thesis
  proof
    assume "drive_step zpt_scroll_batcher_stage_api (Some c) (Some st, dl) i = ((Some st, dl), [])"
    then show thesis using assms(3) TickAt by (intro that [of st dl "[]"]) (simp_all add: within_def)
  next
    assume "drive_step zpt_scroll_batcher_stage_api (Some c) (Some st, dl) i = ((Some st', None), outs)"
    then show thesis
      using st' ok TickAt within_div
      by (intro that [of st' None outs]) (simp_all add: dx dy del: delta.simps)
  qed
qed

lemma batcher_drive:
  assumes c: "sb_suppression c = None" "in_i64 (steps_per_millimeter c)" "0 < steps_per_millimeter c"
    and "batcher_inv st" "\<forall>i \<in> set is. motion_input i"
    and "(\<bar>sb_pending_x st\<bar> + (\<Sum>i\<leftarrow>is. \<bar>scroll_x i\<bar>)) * steps_per_millimeter c \<le> 4611686018427387904"
    and "(\<bar>sb_pending_y st\<bar> + (\<Sum>i\<leftarrow>is. \<bar>scroll_y i\<bar>)) * steps_per_millimeter c \<le> 4611686018427387904"
  shows "\<exists>st' dl' outs. drive zpt_scroll_batcher_stage_api (Some c) (Some st, dl) is = ((Some st', dl'), outs) \<and>
    batcher_inv st' \<and>
    within (ticks is) (held_x (steps_per_millimeter c) st + (\<Sum>i\<leftarrow>is. scroll_x i) * steps_per_millimeter c -
       (4294967296 * (\<Sum>s\<leftarrow>outs. fst (delta s)) + held_x (steps_per_millimeter c) st')) \<and>
    within (ticks is) (held_y (steps_per_millimeter c) st + (\<Sum>i\<leftarrow>is. scroll_y i) * steps_per_millimeter c -
       (4294967296 * (\<Sum>s\<leftarrow>outs. snd (delta s)) + held_y (steps_per_millimeter c) st')) \<and>
    (\<forall>s \<in> set outs. kind s = SIGNAL_SCROLL_STEPS \<and> in_i32 (fst (delta s)) \<and> in_i32 (snd (delta s)))"
  using assms(4-7)
proof (induction "is" arbitrary: st dl)
  case Nil
  then show ?case by (simp add: within_def)
next
  case (Cons i "is")
  let ?spm = "steps_per_millimeter c"
  have tail: "0 \<le> (\<Sum>i\<leftarrow>is. \<bar>scroll_x i\<bar>)" "0 \<le> (\<Sum>i\<leftarrow>is. \<bar>scroll_y i\<bar>)"
    by (auto intro!: sum_list_nonneg)
  have below: "u * ?spm \<le> 4611686018427387904" if "u \<le> v" "v * ?spm \<le> 4611686018427387904" for u v
    using mult_right_mono [OF that(1), of ?spm] that(2) c(3) by linarith
  obtain st1 dl1 out1 where step:
    "drive_step zpt_scroll_batcher_stage_api (Some c) (Some st, dl) i = ((Some st1, dl1), out1)"
    and inv: "batcher_inv st1" and px: "\<bar>sb_pending_x st1\<bar> \<le> \<bar>sb_pending_x st\<bar> + \<bar>scroll_x i\<bar>"
    and py: "\<bar>sb_pending_y st1\<bar> \<le> \<bar>sb_pending_y st\<bar> + \<bar>scroll_y i\<bar>"
    and wx: "within (ticks [i]) (held_x ?spm st + scroll_x i * ?spm -
       (4294967296 * (\<Sum>s\<leftarrow>out1. fst (delta s)) + held_x ?spm st1))"
    and wy: "within (ticks [i]) (held_y ?spm st + scroll_y i * ?spm -
       (4294967296 * (\<Sum>s\<leftarrow>out1. snd (delta s)) + held_y ?spm st1))"
    and ok: "\<forall>s \<in> set out1. kind s = SIGNAL_SCROLL_STEPS \<and> in_i32 (fst (delta s)) \<and> in_i32 (snd (delta s))"
  proof (rule batcher_step [OF c(1,2) Cons.prems(1) _ c(3)])
    show "motion_input i" using Cons.prems(2) by simp
    show "(\<bar>sb_pending_x st\<bar> + \<bar>scroll_x i\<bar>) * ?spm \<le> 4611686018427387904"
      by (rule below [OF _ Cons.prems(3)]) (use tail in simp)
    show "(\<bar>sb_pending_y st\<bar> + \<bar>scroll_y i\<bar>) * ?spm \<le> 4611686018427387904"
      by (rule below [OF _ Cons.prems(4)]) (use tail in simp)
  qed
  have room: "(\<bar>sb_pending_x st1\<bar> + (\<Sum>i\<leftarrow>is. \<bar>scroll_x i\<bar>)) * ?spm \<le> 4611686018427387904"
    "(\<bar>sb_pending_y st1\<bar> + (\<Sum>i\<leftarrow>is. \<bar>scroll_y i\<bar>)) * ?spm \<le> 4611686018427387904"
    by (rule below [OF _ Cons.prems(3)], use px in simp) (rule below [OF _ Cons.prems(4)], use py in simp)
  have rest: "\<forall>i \<in> set is. motion_input i" using Cons.prems(2) by simp
  obtain st' dl' outs where run:
    "drive zpt_scroll_batcher_stage_api (Some c) (Some st1, dl1) is = ((Some st', dl'), outs)" "batcher_inv st'"
    "within (ticks is) (held_x ?spm st1 + (\<Sum>i\<leftarrow>is. scroll_x i) * ?spm -
       (4294967296 * (\<Sum>s\<leftarrow>outs. fst (delta s)) + held_x ?spm st'))"
    "within (ticks is) (held_y ?spm st1 + (\<Sum>i\<leftarrow>is. scroll_y i) * ?spm -
       (4294967296 * (\<Sum>s\<leftarrow>outs. snd (delta s)) + held_y ?spm st'))"
    "\<forall>s \<in> set outs. kind s = SIGNAL_SCROLL_STEPS \<and> in_i32 (fst (delta s)) \<and> in_i32 (snd (delta s))"
    using Cons.IH [OF inv rest room, of dl1] by blast
  have all: "drive zpt_scroll_batcher_stage_api (Some c) (Some st, dl) (i # is) = ((Some st', dl'), out1 @ outs)"
    using step run(1) by (simp del: drive_step.simps)
  have "within (ticks (i # is)) (held_x ?spm st + (\<Sum>i\<leftarrow>i # is. scroll_x i) * ?spm -
       (4294967296 * (\<Sum>s\<leftarrow>out1 @ outs. fst (delta s)) + held_x ?spm st'))"
    using within_add [OF wx run(3)] unfolding ticks_append(1) [of i "is"]
    by (simp add: algebra_simps del: ticks.simps delta.simps)
  moreover have "within (ticks (i # is)) (held_y ?spm st + (\<Sum>i\<leftarrow>i # is. scroll_y i) * ?spm -
       (4294967296 * (\<Sum>s\<leftarrow>out1 @ outs. snd (delta s)) + held_y ?spm st'))"
    using within_add [OF wy run(4)] unfolding ticks_append(1) [of i "is"]
    by (simp add: algebra_simps del: ticks.simps delta.simps)
  ultimately show ?case
    using run(2,5) ok unfolding all by (auto simp del: ticks.simps delta.simps)
qed

text \<open>Property C23. Scrolling does not drift: over any schedule of frames and flushes without
  suppression, whose total motion times the steps-per-millimetre factor stays below 2^62, the
  motion received (in 2^-32 steps) exceeds the steps emitted plus what is still pending or in the
  remainder by less than one Q16 unit per flush and is never below it, on both axes; the remainder
  carried is below one step on either axis; and every emitted step count fits 32 bits.\<close>

theorem scrolling_does_not_drift:
  assumes "sb_suppression c = None" "in_i64 (steps_per_millimeter c)" "0 < steps_per_millimeter c"
    and "\<forall>i \<in> set is. motion_input i"
    and "(\<Sum>i\<leftarrow>is. \<bar>scroll_x i\<bar>) * steps_per_millimeter c \<le> 4611686018427387904"
    and "(\<Sum>i\<leftarrow>is. \<bar>scroll_y i\<bar>) * steps_per_millimeter c \<le> 4611686018427387904"
    and "drive zpt_scroll_batcher_stage_api (Some c) (Some zero_batcher, None) is = ((Some st, dl), outs)"
  shows "within (ticks is) ((\<Sum>i\<leftarrow>is. scroll_x i) * steps_per_millimeter c -
       (4294967296 * (\<Sum>s\<leftarrow>outs. fst (delta s)) + held_x (steps_per_millimeter c) st)) \<and>
    within (ticks is) ((\<Sum>i\<leftarrow>is. scroll_y i) * steps_per_millimeter c -
       (4294967296 * (\<Sum>s\<leftarrow>outs. snd (delta s)) + held_y (steps_per_millimeter c) st)) \<and>
    \<bar>sb_remainder_x st\<bar> < 65536 \<and> \<bar>sb_remainder_y st\<bar> < 65536 \<and>
    (\<forall>s \<in> set outs. in_i32 (fst (delta s)) \<and> in_i32 (snd (delta s)))"
proof -
  have inv: "batcher_inv zero_batcher" by (simp add: batcher_inv_def zero_batcher_def)
  have zero: "held_x spm zero_batcher = 0" "held_y spm zero_batcher = 0" for spm
    by (simp_all add: held_x_def held_y_def zero_batcher_def)
  show ?thesis
    using batcher_drive [OF assms(1-3) inv assms(4), of None] assms(5-7) zero
    by (auto simp: zero_batcher_def batcher_inv_def simp del: delta.simps)
qed

definition sample_scroll :: zpt_signal where
  "sample_scroll = zero_signal\<lparr>kind := SIGNAL_NORMALIZED_MOTION, data := FixedVector 100000 (- 70000)\<rparr>"

definition sample_batcher :: zpt_scroll_batcher_config where
  "sample_batcher = \<lparr>steps_per_millimeter = 98304, report_interval_ms = 10, sb_suppression = None\<rparr>"

lemma scrolling_does_not_drift_witness:
  "let ((st, dl), outs) = drive zpt_scroll_batcher_stage_api (Some sample_batcher) (Some zero_batcher, None)
         [FrameAt 5 sample_scroll, FrameAt 6 sample_scroll, TickAt 15]
   in (\<Sum>s\<leftarrow>outs. fst (delta s)) = 4 \<and>
      within 1 (200000 * 98304 - (4294967296 * (\<Sum>s\<leftarrow>outs. fst (delta s)) + held_x 98304 (the st)))"
proof -
  let ?is = "[FrameAt 5 sample_scroll, FrameAt 6 sample_scroll, TickAt 15]"
  let ?run = "drive zpt_scroll_batcher_stage_api (Some sample_batcher) (Some zero_batcher, None) ?is"
  have steps: "(\<Sum>s\<leftarrow>snd ?run. fst (delta s)) = 4" "fst (fst ?run) \<noteq> None"
    by (simp_all add: sample_batcher_def sample_scroll_def zpt_scroll_batcher_stage_api_def
        scroll_batcher_stage_process_def scroll_batcher_stage_flush_def scroll_axis_def zero_batcher_def
        zero_signal_defs fixed_add.add_clamps fixed_multiply_cases fixed_to_int32_cases clamp64_def
        time_reached_def sdiv_pos_cases Let_def)
  then obtain st dl outs where run: "?run = ((Some st, dl), outs)" by (cases ?run) auto
  have ok: "\<forall>i \<in> set ?is. motion_input i"
    by (simp add: sample_scroll_def zero_signal_defs signal_ok_def)
  have "within 1 (200000 * 98304 - (4294967296 * (\<Sum>s\<leftarrow>outs. fst (delta s)) + held_x 98304 st))"
    using scrolling_does_not_drift [OF _ _ _ ok _ _ run]
    by (simp add: sample_batcher_def sample_scroll_def del: delta.simps)
  then show ?thesis using steps unfolding run by simp
qed

interpretation scroll: stage_contract zpt_scroll_batcher_stage_api "\<lambda>c. True"
    "\<lambda>c st. \<forall>s. st = Some s \<longrightarrow> in_i64 (sb_remainder_x s) \<and> in_i64 (sb_remainder_y s)"
proof (unfold_locales, goal_cases)
  case (1 c st s f now)
  then show ?case
    by (auto simp: zpt_scroll_batcher_stage_api_def scroll_batcher_stage_process_def Let_def
        split: option.split)
next
  case (2 c st g dl now)
  then show ?case
    using scroll_axis_in_range
    by (auto simp: zpt_scroll_batcher_stage_api_def scroll_batcher_stage_flush_def case_prod_unfold
        signal_ok_def zero_annotations_def Let_def split: option.split)
next
  case (3 c st h reason)
  then show ?case
    by (auto simp: zpt_scroll_batcher_stage_api_def scroll_batcher_stage_reset_def zero_batcher_def)
qed (simp_all add: zpt_scroll_batcher_stage_api_def)

end
