(* ===== verification/Text_Nav.thy ===== *)
theory Text_Nav
  imports Stage_Program
begin

text \<open>
  The text navigation mapper (\<open>stage/text_nav.h\<close>, \<open>stage/text_nav/text_nav.c\<close>): motion along the
  decided axis is accumulated and turned into one action per threshold crossed.
  \<open>last_direction\<close> is the action's number, \<open>- 1\<close> for none.
\<close>

abbreviation TEXT_NAV_NONE :: int where "TEXT_NAV_NONE \<equiv> - 1"
abbreviation (input) TEXT_NAV_LEFT :: int where "TEXT_NAV_LEFT \<equiv> 0"
abbreviation (input) TEXT_NAV_RIGHT :: int where "TEXT_NAV_RIGHT \<equiv> 1"
abbreviation (input) TEXT_NAV_UP :: int where "TEXT_NAV_UP \<equiv> 2"
abbreviation (input) TEXT_NAV_DOWN :: int where "TEXT_NAV_DOWN \<equiv> 3"

record zpt_text_nav_config =
  horizontal_threshold :: int
  vertical_threshold :: int
  tn_idle_timeout_ms :: u16

record zpt_text_nav_state =
  accumulated_x :: int
  accumulated_y :: int
  last_direction :: int
  tn_last_frame_ms :: u32
  tn_have_last_frame :: bool

definition text_nav_stage_activate :: "(zpt_text_nav_config, zpt_text_nav_state) zpt_stage_activate" where
  "text_nav_stage_activate config st reason =
     (case (config, st) of
        (Some c, Some _) \<Rightarrow>
          (if horizontal_threshold c \<le> 0 \<or> vertical_threshold c \<le> 0 \<or> tn_idle_timeout_ms c = 0
           then - EINVAL else 0, st)
      | _ \<Rightarrow> (- EINVAL, st))"

definition reset_text_nav :: zpt_text_nav_state where
  "reset_text_nav = \<lparr>accumulated_x = 0, accumulated_y = 0, last_direction = TEXT_NAV_NONE,
     tn_last_frame_ms = 0, tn_have_last_frame = False\<rparr>"

definition text_nav_stage_reset :: "(zpt_text_nav_config, zpt_text_nav_state) zpt_stage_reset" where
  "text_nav_stage_reset config st reason = map_option (\<lambda>_. reset_text_nav) st"

definition store_axis_accumulation :: "bool \<Rightarrow> int \<Rightarrow> zpt_text_nav_state \<Rightarrow> zpt_text_nav_state" where
  "store_axis_accumulation horizontal accumulated state =
     (if horizontal then state\<lparr>accumulated_x := accumulated\<rparr> else state\<lparr>accumulated_y := accumulated\<rparr>)"

text \<open>The accumulation, threshold and two directions of the decided axis, if one is decided.\<close>

definition resolve_text_nav_axis :: "zpt_text_nav_state \<Rightarrow> zpt_text_nav_config \<Rightarrow> u8 \<Rightarrow> int \<Rightarrow> int \<Rightarrow>
    (int \<times> int \<times> int \<times> int) option" where
  "resolve_text_nav_axis state config intent x y =
     (if intent = AXIS_HORIZONTAL then
        Some (zpt_fixed_saturating_add (accumulated_x state) x, horizontal_threshold config,
              TEXT_NAV_LEFT, TEXT_NAV_RIGHT)
      else if intent = AXIS_VERTICAL then
        Some (zpt_fixed_saturating_add (accumulated_y state) y, vertical_threshold config,
              TEXT_NAV_UP, TEXT_NAV_DOWN)
      else None)"

definition start_frame :: "zpt_text_nav_config \<Rightarrow> u32 \<Rightarrow> zpt_text_nav_state \<Rightarrow> zpt_text_nav_state" where
  "start_frame config now state =
     (let elapsed = (if tn_have_last_frame state then now - tn_last_frame_ms state else 0);
          state = (if \<not> tn_have_last_frame state \<or> elapsed \<ge> ucast (tn_idle_timeout_ms config)
                   then state\<lparr>accumulated_x := 0, accumulated_y := 0\<rparr> else state)
      in state\<lparr>tn_last_frame_ms := now, tn_have_last_frame := True\<rparr>)"

definition text_nav_stage_process :: "(zpt_text_nav_config, zpt_text_nav_state) zpt_stage_process" where
  "text_nav_stage_process config st now s =
     (case (config, st) of
        (Some c, Some state) \<Rightarrow>
          if kind s \<noteq> SIGNAL_NORMALIZED_MOTION then Return (- EINVAL) st
          else
            let state = start_frame c now state; intent = axis_intent (annotations s) in
            (case resolve_text_nav_axis state c intent (fst (fixed_vector s)) (snd (fixed_vector s)) of
               None \<Rightarrow> Return 0 (Some (state\<lparr>last_direction := TEXT_NAV_NONE\<rparr>))
             | Some (accumulated, threshold, negative_direction, positive_direction) \<Rightarrow>
                 let horizontal = (intent = AXIS_HORIZONTAL) in
                 if zpt_fixed_magnitude accumulated < u64 threshold then
                   Return 0 (Some ((store_axis_accumulation horizontal accumulated state)
                     \<lparr>last_direction := TEXT_NAV_NONE\<rparr>))
                 else
                   let direction = (if accumulated < 0 then negative_direction else positive_direction);
                       accumulated = i64 (accumulated + (if accumulated < 0 then threshold else - threshold));
                       state = (store_axis_accumulation horizontal accumulated state)
                         \<lparr>last_direction := direction\<rparr>
                   in Notify EVENT_ACTION direction
                        (emit_return
                          \<lparr>kind = SIGNAL_ACTION, metadata = zero_metadata\<lparr>observed_at_ms := now\<rparr>,
                           annotations = zero_annotations, data = Action (word_of_int direction)\<rparr>
                          (Some state)))
      | _ \<Rightarrow> Return (- EINVAL) st)"

definition zpt_text_nav_stage_api :: "(zpt_text_nav_config, zpt_text_nav_state) zpt_stage_api" where
  "zpt_text_nav_stage_api = \<lparr>strategy_id = Some ''text-nav'',
     accepted_kinds = ZPT_SIGNAL_KIND_MASK SIGNAL_NORMALIZED_MOTION, output_kind = SIGNAL_ACTION,
     api_flags = STAGE_STATEFUL, api_process = Some text_nav_stage_process,
     api_flush = None, api_activate = Some text_nav_stage_activate,
     api_deactivate = None, api_reset = Some text_nav_stage_reset\<rparr>"

section \<open>One frame\<close>

text \<open>What a frame contributes to each axis, and what the actions sent stand for.\<close>

definition nav_x :: "zpt_signal \<Rightarrow> int" where
  "nav_x s = (if axis_intent (annotations s) = AXIS_HORIZONTAL then fst (fixed_vector s) else 0)"

definition nav_y :: "zpt_signal \<Rightarrow> int" where
  "nav_y s = (if axis_intent (annotations s) = AXIS_VERTICAL then snd (fixed_vector s) else 0)"

definition sent_x :: "zpt_signal list \<Rightarrow> int" where
  "sent_x outs = (\<Sum>s\<leftarrow>outs. if action_id s = 1 then 1 else if action_id s = 0 then - 1 else 0)"

definition sent_y :: "zpt_signal list \<Rightarrow> int" where
  "sent_y outs = (\<Sum>s\<leftarrow>outs. if action_id s = 3 then 1 else if action_id s = 2 then - 1 else 0)"

lemma sent_append [simp]:
  "sent_x [] = 0" "sent_y [] = 0"
  "sent_x (xs @ ys) = sent_x xs + sent_x ys" "sent_y (xs @ ys) = sent_y xs + sent_y ys"
  by (simp_all add: sent_x_def sent_y_def)

definition nav_config_ok :: "zpt_text_nav_config \<Rightarrow> bool" where
  "nav_config_ok c \<longleftrightarrow> 0 < horizontal_threshold c \<and> in_i64 (horizontal_threshold c) \<and>
     0 < vertical_threshold c \<and> in_i64 (vertical_threshold c)"

text \<open>The axis arithmetic: one threshold is taken off, towards zero, when it is reached.\<close>

definition nav_take :: "int \<Rightarrow> int \<Rightarrow> int \<times> int" where
  "nav_take a th = (if \<bar>a\<bar> < th then (0, a) else if a < 0 then (- 1, a + th) else (1, a - th))"

lemma nav_take_sum: "nav_take a th = (n, b) \<Longrightarrow> n * th + b = a \<and> \<bar>n\<bar> \<le> 1 \<and> (0 < th \<longrightarrow> \<bar>b\<bar> \<le> \<bar>a\<bar>)"
  by (auto simp: nav_take_def split: if_splits)

text \<open>
  The counter the stage implements, over unbounded integers: a frame decided for an axis adds its
  motion there and sends that axis's action, and takes the threshold off, exactly when the
  accumulated magnitude reaches it; any other frame does nothing.
\<close>

definition nav_fire :: "int \<Rightarrow> int \<Rightarrow> u32 \<Rightarrow> u32 \<Rightarrow> int \<times> u32 list" where
  "nav_fire a th negative positive =
     (if \<bar>a\<bar> < th then (a, []) else if a < 0 then (a + th, [negative]) else (a - th, [positive]))"

definition nav_count :: "zpt_text_nav_config \<Rightarrow> int \<times> int \<Rightarrow> zpt_signal \<Rightarrow> (int \<times> int) \<times> u32 list" where
  "nav_count c a s =
     (if axis_intent (annotations s) = AXIS_HORIZONTAL then
        let (x, sent) = nav_fire (fst a + fst (fixed_vector s)) (horizontal_threshold c) 0 1 in ((x, snd a), sent)
      else if axis_intent (annotations s) = AXIS_VERTICAL then
        let (y, sent) = nav_fire (snd a + snd (fixed_vector s)) (vertical_threshold c) 2 3 in ((fst a, y), sent)
      else (a, []))"

primrec nav_counter :: "zpt_text_nav_config \<Rightarrow> int \<times> int \<Rightarrow> zpt_signal list \<Rightarrow> (int \<times> int) \<times> u32 list" where
  "nav_counter c a [] = (a, [])"
| "nav_counter c a (s # frames) =
     (let (a, sent) = nav_count c a s; (a, later) = nav_counter c a frames in (a, sent @ later))"

lemma nav_frame:
  assumes c: "nav_config_ok c" and s: "kind s = SIGNAL_NORMALIZED_MOTION"
    and gap: "tn_have_last_frame st" "now - tn_last_frame_ms st < ucast (tn_idle_timeout_ms c)"
    and room: "\<bar>accumulated_x st\<bar> + \<bar>nav_x s\<bar> \<le> INT64_MAX" "\<bar>accumulated_y st\<bar> + \<bar>nav_y s\<bar> \<le> INT64_MAX"
  obtains st' outs where
    "stage_step zpt_text_nav_stage_api (Some c) (Some st) (FrameIn now s) = (Some st', outs)"
    "tn_have_last_frame st'" "tn_last_frame_ms st' = now"
    "horizontal_threshold c * sent_x outs + accumulated_x st' = accumulated_x st + nav_x s"
    "vertical_threshold c * sent_y outs + accumulated_y st' = accumulated_y st + nav_y s"
    "\<bar>accumulated_x st'\<bar> \<le> \<bar>accumulated_x st\<bar> + \<bar>nav_x s\<bar>"
    "\<bar>accumulated_y st'\<bar> \<le> \<bar>accumulated_y st\<bar> + \<bar>nav_y s\<bar>"
    "length outs \<le> 1"
    "nav_count c (accumulated_x st, accumulated_y st) s =
       ((accumulated_x st', accumulated_y st'), map action_id outs)"
proof -
  have start: "start_frame c now st = st\<lparr>tn_last_frame_ms := now, tn_have_last_frame := True\<rparr>"
    using gap by (simp add: start_frame_def not_le)
  consider (h) "axis_intent (annotations s) = AXIS_HORIZONTAL" | (v) "axis_intent (annotations s) = AXIS_VERTICAL"
    | (n) "axis_intent (annotations s) \<noteq> AXIS_HORIZONTAL" "axis_intent (annotations s) \<noteq> AXIS_VERTICAL"
    by blast
  then show thesis
  proof cases
    case h
    obtain a where a: "accumulated_x st + nav_x s = a" by simp
    have range: "in_i64 a" "in_i64 (accumulated_x st)" "in_i64 (nav_x s)"
      using room(1) a unfolding in_i64_def by linarith+
    have sum: "zpt_fixed_saturating_add (accumulated_x st) (fst (fixed_vector s)) = a"
      using range a h by (simp add: fixed_add.add_exact nav_x_def)
    have th: "u64 (horizontal_threshold c) = horizontal_threshold c"
      "in_i64 (a + horizontal_threshold c) \<or> 0 \<le> a" "in_i64 (a - horizontal_threshold c) \<or> a < 0"
      using c range by (auto simp: nav_config_ok_def in_range_defs)
    obtain m b where mb: "nav_take a (horizontal_threshold c) = (m, b)"
      by (cases "nav_take a (horizontal_threshold c)")
    note take = nav_take_sum [OF mb]
    show thesis
      using s h start sum th mb take range a c
      by (cases "\<bar>a\<bar> < horizontal_threshold c"; cases "a < 0")
         (auto intro!: that simp: zpt_text_nav_stage_api_def text_nav_stage_process_def
          resolve_text_nav_axis_def store_axis_accumulation_def magnitude_abs nav_take_def
          nav_x_def nav_y_def sent_x_def sent_y_def nav_config_ok_def
          nav_count_def nav_fire_def Let_def simp del: fixed_vector.simps)
  next
    case v
    obtain a where a: "accumulated_y st + nav_y s = a" by simp
    have range: "in_i64 a" "in_i64 (accumulated_y st)" "in_i64 (nav_y s)"
      using room(2) a unfolding in_i64_def by linarith+
    have sum: "zpt_fixed_saturating_add (accumulated_y st) (snd (fixed_vector s)) = a"
      using range a v by (simp add: fixed_add.add_exact nav_y_def)
    have th: "u64 (vertical_threshold c) = vertical_threshold c"
      "in_i64 (a + vertical_threshold c) \<or> 0 \<le> a" "in_i64 (a - vertical_threshold c) \<or> a < 0"
      using c range by (auto simp: nav_config_ok_def in_range_defs)
    obtain m b where mb: "nav_take a (vertical_threshold c) = (m, b)"
      by (cases "nav_take a (vertical_threshold c)")
    note take = nav_take_sum [OF mb]
    show thesis
      using s v start sum th mb take range a c
      by (cases "\<bar>a\<bar> < vertical_threshold c"; cases "a < 0")
         (auto intro!: that simp: zpt_text_nav_stage_api_def text_nav_stage_process_def
          resolve_text_nav_axis_def store_axis_accumulation_def magnitude_abs nav_take_def
          nav_x_def nav_y_def sent_x_def sent_y_def nav_config_ok_def
          nav_count_def nav_fire_def Let_def simp del: fixed_vector.simps)
  next
    case n
    then show thesis
      using s start
      by (auto intro!: that simp: zpt_text_nav_stage_api_def text_nav_stage_process_def
          resolve_text_nav_axis_def nav_x_def nav_y_def nav_count_def Let_def)
  qed
qed

section \<open>A gesture\<close>

text \<open>Frames that follow each other without an idle gap, the first one follows \<open>previous\<close>.\<close>

fun gesture :: "zpt_text_nav_config \<Rightarrow> u32 \<Rightarrow> (u32 \<times> zpt_signal) list \<Rightarrow> bool" where
  "gesture c previous [] = True"
| "gesture c previous ((now, s) # rest) =
     (kind s = SIGNAL_NORMALIZED_MOTION \<and> now - previous < ucast (tn_idle_timeout_ms c) \<and> gesture c now rest)"

lemma nav_frames:
  assumes "nav_config_ok c" "gesture c (tn_last_frame_ms st) frames" "tn_have_last_frame st"
    and "\<bar>accumulated_x st\<bar> + (\<Sum>f\<leftarrow>frames. \<bar>nav_x (snd f)\<bar>) \<le> INT64_MAX"
    and "\<bar>accumulated_y st\<bar> + (\<Sum>f\<leftarrow>frames. \<bar>nav_y (snd f)\<bar>) \<le> INT64_MAX"
  shows "\<exists>st' outs. stage_run zpt_text_nav_stage_api (Some c) (Some st)
      (map (\<lambda>(now, s). FrameIn now s) frames) = (Some st', outs) \<and>
    horizontal_threshold c * sent_x outs + accumulated_x st' =
      accumulated_x st + (\<Sum>f\<leftarrow>frames. nav_x (snd f)) \<and>
    vertical_threshold c * sent_y outs + accumulated_y st' =
      accumulated_y st + (\<Sum>f\<leftarrow>frames. nav_y (snd f)) \<and>
    length outs \<le> length frames \<and>
    nav_counter c (accumulated_x st, accumulated_y st) (map snd frames) =
      ((accumulated_x st', accumulated_y st'), map action_id outs)"
  using assms(2-5)
proof (induction frames arbitrary: st)
  case Nil
  then show ?case by simp
next
  case (Cons f frames)
  obtain now s where f: "f = (now, s)" by (cases f)
  have tail: "0 \<le> (\<Sum>f\<leftarrow>frames. \<bar>nav_x (snd f)\<bar>)" "0 \<le> (\<Sum>f\<leftarrow>frames. \<bar>nav_y (snd f)\<bar>)"
    by (auto intro!: sum_list_nonneg)
  have s: "kind s = SIGNAL_NORMALIZED_MOTION" "now - tn_last_frame_ms st < ucast (tn_idle_timeout_ms c)"
    "gesture c now frames" using Cons.prems(1) f by auto
  have room: "\<bar>accumulated_x st\<bar> + \<bar>nav_x s\<bar> \<le> INT64_MAX" "\<bar>accumulated_y st\<bar> + \<bar>nav_y s\<bar> \<le> INT64_MAX"
    using Cons.prems(3,4) f tail by auto
  obtain st1 out1 where step:
    "stage_step zpt_text_nav_stage_api (Some c) (Some st) (FrameIn now s) = (Some st1, out1)"
    and last: "tn_have_last_frame st1" "tn_last_frame_ms st1 = now"
    and sums: "horizontal_threshold c * sent_x out1 + accumulated_x st1 = accumulated_x st + nav_x s"
      "vertical_threshold c * sent_y out1 + accumulated_y st1 = accumulated_y st + nav_y s"
    and small: "\<bar>accumulated_x st1\<bar> \<le> \<bar>accumulated_x st\<bar> + \<bar>nav_x s\<bar>"
      "\<bar>accumulated_y st1\<bar> \<le> \<bar>accumulated_y st\<bar> + \<bar>nav_y s\<bar>" and len: "length out1 \<le> 1"
    and count: "nav_count c (accumulated_x st, accumulated_y st) s =
      ((accumulated_x st1, accumulated_y st1), map action_id out1)"
    by (rule nav_frame [OF assms(1) s(1) Cons.prems(2) s(2) room])
  have "gesture c (tn_last_frame_ms st1) frames" using s last by simp
  from Cons.IH [OF this last(1)] Cons.prems(3,4) small obtain st' outs where run:
    "stage_run zpt_text_nav_stage_api (Some c) (Some st1) (map (\<lambda>(now, s). FrameIn now s) frames) = (Some st', outs)"
    "horizontal_threshold c * sent_x outs + accumulated_x st' = accumulated_x st1 + (\<Sum>f\<leftarrow>frames. nav_x (snd f))"
    "vertical_threshold c * sent_y outs + accumulated_y st' = accumulated_y st1 + (\<Sum>f\<leftarrow>frames. nav_y (snd f))"
    "length outs \<le> length frames"
    "nav_counter c (accumulated_x st1, accumulated_y st1) (map snd frames) =
      ((accumulated_x st', accumulated_y st'), map action_id outs)"
    using f by auto
  show ?case
    by (rule exI [of _ st'], rule exI [of _ "out1 @ outs"])
       (use run sums len f step count in \<open>simp add: algebra_simps del: stage_step.simps\<close>)
qed

text \<open>Property C36. Within a gesture (no idle gap between the frames, sums that fit 64 bits) text
  navigation counts exactly. The actions sent, in order, and what is left accumulated are those of
  the plain counter: a frame decided for an axis sends that axis's action, left or up for negative
  motion and right or down for positive, exactly when the motion accumulated there reaches the
  threshold, which is then taken off; a frame not decided for either axis sends nothing and leaves
  both accumulations. Hence, on each axis, the actions sent, signed and weighted by the threshold,
  plus what is still accumulated equal what was accumulated before plus the motion of the frames
  decided for that axis; and no frame sends more than one action.\<close>

theorem text_navigation_counts_thresholds:
  assumes "nav_config_ok c" "gesture c (tn_last_frame_ms st) frames" "tn_have_last_frame st"
    and "\<bar>accumulated_x st\<bar> + (\<Sum>f\<leftarrow>frames. \<bar>nav_x (snd f)\<bar>) \<le> INT64_MAX"
    and "\<bar>accumulated_y st\<bar> + (\<Sum>f\<leftarrow>frames. \<bar>nav_y (snd f)\<bar>) \<le> INT64_MAX"
  shows "\<exists>st' outs. stage_run zpt_text_nav_stage_api (Some c) (Some st)
      (map (\<lambda>(now, s). FrameIn now s) frames) = (Some st', outs) \<and>
    nav_counter c (accumulated_x st, accumulated_y st) (map snd frames) =
      ((accumulated_x st', accumulated_y st'), map action_id outs) \<and>
    horizontal_threshold c * sent_x outs + accumulated_x st' =
      accumulated_x st + (\<Sum>f\<leftarrow>frames. nav_x (snd f)) \<and>
    vertical_threshold c * sent_y outs + accumulated_y st' =
      accumulated_y st + (\<Sum>f\<leftarrow>frames. nav_y (snd f)) \<and>
    length outs \<le> length frames"
  using nav_frames [OF assms] by blast

definition sample_nav :: zpt_text_nav_config where
  "sample_nav = \<lparr>horizontal_threshold = 100, vertical_threshold = 150, tn_idle_timeout_ms = 200\<rparr>"

definition sample_nav_frame :: "int \<Rightarrow> zpt_signal" where
  "sample_nav_frame x = zero_signal\<lparr>kind := SIGNAL_NORMALIZED_MOTION, data := FixedVector x 7,
     annotations := zero_annotations\<lparr>axis_intent := AXIS_HORIZONTAL\<rparr>\<rparr>"

text \<open>One frame past the threshold, one that reaches it exactly, and one that falls short.\<close>

lemma text_navigation_counts_thresholds_witness:
  "let (st', outs) = stage_run zpt_text_nav_stage_api (Some sample_nav)
         (Some (reset_text_nav\<lparr>tn_have_last_frame := True\<rparr>))
         [FrameIn 10 (sample_nav_frame (- 170)), FrameIn 20 (sample_nav_frame (- 30)), FrameIn 30 (sample_nav_frame 99)]
   in map action_id outs = [0, 0] \<and> accumulated_x (the st') = 99 \<and> accumulated_y (the st') = 0"
proof -
  let ?frames = "[(10, sample_nav_frame (- 170)), (20, sample_nav_frame (- 30)), (30, sample_nav_frame 99)]"
  let ?st = "reset_text_nav\<lparr>tn_have_last_frame := True\<rparr>"
  have frames: "gesture sample_nav (tn_last_frame_ms ?st) ?frames"
    by (simp add: sample_nav_def sample_nav_frame_def zero_signal_defs reset_text_nav_def)
  have config: "nav_config_ok sample_nav" by (simp add: nav_config_ok_def sample_nav_def)
  have counted: "nav_counter sample_nav (0, 0) (map snd ?frames) = ((99, 0), [0, 0])"
    by (simp add: nav_count_def nav_fire_def sample_nav_def sample_nav_frame_def zero_signal_defs)
  show ?thesis
    using text_navigation_counts_thresholds [OF config frames] counted
    by (auto simp: sample_nav_frame_def zero_signal_defs nav_x_def nav_y_def reset_text_nav_def
        simp del: stage_run.simps)
qed

interpretation text_nav: stage_contract zpt_text_nav_stage_api "\<lambda>c. True" "\<lambda>c st. True"
proof (unfold_locales, goal_cases)
  case (1 c st s f now)
  then show ?case
    by (auto simp: zpt_text_nav_stage_api_def text_nav_stage_process_def Let_def signal_ok_def
        zero_annotations_def split: option.split)
qed (simp_all add: zpt_text_nav_stage_api_def)

end
