(* ===== verification/Compact_Codec.thy ===== *)
theory Compact_Codec
  imports Signal
begin

text \<open>
  The compact split codec (\<open>source/transport/compact_split_codec.c\<close>): one two-axis source frame
  in one 32-bit event value, with a rolling four-bit sequence number from which the decoder
  rebuilds the source's sequence and sees what was lost on the link.
\<close>

abbreviation (input) AXIS_MASK :: u32 where "AXIS_MASK \<equiv> 0x7FF"
abbreviation (input) AXIS_SIGN_BIT :: u32 where "AXIS_SIGN_BIT \<equiv> 0x400"
abbreviation (input) SEQUENCE_MASK :: u32 where "SEQUENCE_MASK \<equiv> 0xF"
abbreviation (input) SPAN_MASK :: u32 where "SPAN_MASK \<equiv> 0xF"
abbreviation (input) SPAN_SATURATED_CODE :: u32 where "SPAN_SATURATED_CODE \<equiv> 0xF"
abbreviation (input) FORMAT_MASK :: u32 where "FORMAT_MASK \<equiv> 0x3"
abbreviation (input) CURRENT_FORMAT :: u32 where "CURRENT_FORMAT \<equiv> 0x2"
abbreviation (input) AXIS_MIN :: int where "AXIS_MIN \<equiv> - 1024"
abbreviation (input) AXIS_MAX :: int where "AXIS_MAX \<equiv> 1023"

record zpt_compact_split_diagnostics =
  encoded_packets :: u32
  decoded_packets :: u32
  range_errors :: u32
  format_errors :: u32
  sequence_discontinuities :: u32
  estimated_dropped_packets :: u32
  sample_span_saturations :: u32

record zpt_compact_split_encoder =
  next_sequence :: u16
  enc_diagnostics :: zpt_compact_split_diagnostics

record zpt_compact_split_decoder =
  expanded_sequence :: u16
  previous_wire_sequence :: u8
  saw_sequence :: bool
  dec_diagnostics :: zpt_compact_split_diagnostics

record zpt_compact_split_frame =
  cf_motion :: "int \<times> int"
  cf_sample_span_us :: u32
  cf_flags :: u32
  cf_sequence :: u16

definition encode_axis :: "int \<Rightarrow> u32" where
  "encode_axis value = word_of_int value AND AXIS_MASK"

definition decode_axis :: "u32 \<Rightarrow> int" where
  "decode_axis value =
     (let value = value AND AXIS_MASK
      in if value AND AXIS_SIGN_BIT \<noteq> 0 then uint value - 2048 else uint value)"

definition encode_span :: "u32 \<Rightarrow> u32 \<times> bool" where
  "encode_span span_us =
     (if span_us = 0 then (0, False)
      else let code = word_of_int ((uint span_us + 1000) div 2000);
               code = (if code = 0 then 1 else code)
           in if code \<ge> SPAN_SATURATED_CODE then (SPAN_SATURATED_CODE, True) else (code, False))"

definition zero_diagnostics :: zpt_compact_split_diagnostics where
  "zero_diagnostics = \<lparr>encoded_packets = 0, decoded_packets = 0, range_errors = 0,
     format_errors = 0, sequence_discontinuities = 0, estimated_dropped_packets = 0,
     sample_span_saturations = 0\<rparr>"

definition zpt_compact_split_encoder_init :: zpt_compact_split_encoder where
  "zpt_compact_split_encoder_init = \<lparr>next_sequence = 0, enc_diagnostics = zero_diagnostics\<rparr>"

definition zpt_compact_split_decoder_init :: zpt_compact_split_decoder where
  "zpt_compact_split_decoder_init = \<lparr>expanded_sequence = 0, previous_wire_sequence = 0,
     saw_sequence = False, dec_diagnostics = zero_diagnostics\<rparr>"

text \<open>The result: the return code, the packet when one is written, the encoder left.\<close>

definition zpt_compact_split_encode :: "zpt_compact_split_encoder \<Rightarrow> int \<times> int \<Rightarrow> u32 \<Rightarrow>
    int \<times> u32 option \<times> zpt_compact_split_encoder" where
  "zpt_compact_split_encode encoder motion span_us =
     (let sequence = ucast (next_sequence encoder) AND SEQUENCE_MASK;
          encoder = encoder\<lparr>next_sequence := next_sequence encoder + 1\<rparr>;
          d = enc_diagnostics encoder
      in if fst motion < AXIS_MIN \<or> fst motion > AXIS_MAX \<or> snd motion < AXIS_MIN \<or> snd motion > AXIS_MAX
         then (- ERANGE, None, encoder\<lparr>enc_diagnostics := d\<lparr>range_errors := range_errors d + 1\<rparr>\<rparr>)
         else let (span, span_saturated) = encode_span span_us;
                  d = (if span_saturated
                       then d\<lparr>sample_span_saturations := sample_span_saturations d + 1\<rparr> else d);
                  packet = push_bit 30 CURRENT_FORMAT OR push_bit 26 span OR push_bit 22 sequence OR
                    push_bit 11 (encode_axis (snd motion)) OR push_bit 0 (encode_axis (fst motion))
              in (0, Some packet, encoder\<lparr>enc_diagnostics := d\<lparr>encoded_packets := encoded_packets d + 1\<rparr>\<rparr>))"

text \<open>Rebuild the source's sequence number from the four bits on the wire.\<close>

definition expand_sequence :: "zpt_compact_split_decoder \<Rightarrow> u8 \<Rightarrow>
    u16 \<times> u32 \<times> zpt_compact_split_diagnostics" where
  "expand_sequence decoder wire_sequence =
     (let flags = FLAG_TIMING_ESTIMATED; d = dec_diagnostics decoder
      in if \<not> saw_sequence decoder then (ucast wire_sequence, flags, d)
         else let delta = (wire_sequence - previous_wire_sequence decoder) AND 0xF
              in if delta = 1 then (expanded_sequence decoder + 1, flags, d)
                 else let flags = flags OR (FLAG_SEQUENCE_GAP OR FLAG_DISCONTINUITY);
                          d = d\<lparr>sequence_discontinuities := sequence_discontinuities d + 1\<rparr>
                      in if delta > 1
                         then (expanded_sequence decoder + ucast delta, flags,
                               d\<lparr>estimated_dropped_packets := estimated_dropped_packets d + (ucast delta - 1)\<rparr>)
                         else (expanded_sequence decoder + 1, flags, d))"

text \<open>The result: the return code, the frame when one is written, the decoder left.\<close>

definition zpt_compact_split_decode :: "zpt_compact_split_decoder \<Rightarrow> u32 \<Rightarrow>
    int \<times> zpt_compact_split_frame option \<times> zpt_compact_split_decoder" where
  "zpt_compact_split_decode decoder packet =
     (if drop_bit 30 packet AND FORMAT_MASK \<noteq> CURRENT_FORMAT
      then (- EBADMSG, None, decoder\<lparr>dec_diagnostics := (dec_diagnostics decoder)
              \<lparr>format_errors := format_errors (dec_diagnostics decoder) + 1\<rparr>\<rparr>)
      else let wire_sequence = ucast (drop_bit 22 packet AND SEQUENCE_MASK);
               (expanded, flags, d) = expand_sequence decoder wire_sequence;
               span_code = drop_bit 26 packet AND SPAN_MASK;
               saturated = (span_code = SPAN_SATURATED_CODE);
               flags = (if saturated then flags OR FLAG_SAMPLE_SPAN_CLIPPED else flags);
               d = (if saturated then d\<lparr>sample_span_saturations := sample_span_saturations d + 1\<rparr> else d)
           in (0, Some \<lparr>cf_motion = (decode_axis (drop_bit 0 packet), decode_axis (drop_bit 11 packet)),
                  cf_sample_span_us = span_code * 2000, cf_flags = flags, cf_sequence = expanded\<rparr>,
               decoder\<lparr>expanded_sequence := expanded, previous_wire_sequence := wire_sequence,
                 saw_sequence := True,
                 dec_diagnostics := d\<lparr>decoded_packets := decoded_packets d + 1\<rparr>\<rparr>))"

section \<open>Fields of a packet\<close>

declare masks_take_bit [simp]

lemma packet_fields:
  fixes span wire y x :: u32
  assumes "p = push_bit 30 2 OR push_bit 26 (take_bit 4 span) OR push_bit 22 (take_bit 4 wire) OR
    push_bit 11 (take_bit 11 y) OR push_bit 0 (take_bit 11 x)"
  shows "take_bit 2 (drop_bit 30 p) = 2" "take_bit 4 (drop_bit 26 p) = take_bit 4 span"
    "take_bit 4 (drop_bit 22 p) = take_bit 4 wire"
    "take_bit 11 (drop_bit 11 p) = take_bit 11 y" "take_bit 11 (drop_bit 0 p) = take_bit 11 x"
proof -
  have two: "bit (2 :: u32) n \<longleftrightarrow> n = 1" for n
    using bit_exp_iff [of 1 n, where ?'a = u32] by auto
  show "take_bit 2 (drop_bit 30 p) = 2"
    unfolding assms by (rule bit_word_eqI) (auto simp: bit_simps two)
  show "take_bit 4 (drop_bit 26 p) = take_bit 4 span"
    unfolding assms by (rule bit_word_eqI) (auto simp: bit_simps two)
  show "take_bit 4 (drop_bit 22 p) = take_bit 4 wire"
    unfolding assms by (rule bit_word_eqI) (auto simp: bit_simps two)
  show "take_bit 11 (drop_bit 11 p) = take_bit 11 y"
    unfolding assms by (rule bit_word_eqI) (auto simp: bit_simps two)
  show "take_bit 11 (drop_bit 0 p) = take_bit 11 x"
    unfolding assms by (rule bit_word_eqI) (auto simp: bit_simps two)
qed

lemma axis_round_trip:
  assumes "AXIS_MIN \<le> v" "v \<le> AXIS_MAX"
  shows "decode_axis (take_bit 11 (word_of_int v)) = v"
proof -
  let ?w = "take_bit 11 (word_of_int v) :: u32"
  have u: "uint ?w = v mod 2048"
    by (simp add: unsigned_take_bit_eq uint_word_of_int_eq take_bit_eq_mod [where ?'a = int] mod_mod_cancel)
  have "?w AND 2 ^ 10 = 0 \<longleftrightarrow> \<not> bit ?w 10" by (rule and_exp_eq_0_iff_not_bit)
  then have "?w AND AXIS_SIGN_BIT = 0 \<longleftrightarrow> \<not> bit (uint ?w) 10" by (simp add: bit_uint_iff bit_simps)
  also have "\<dots> \<longleftrightarrow> even (v mod 2048 div 1024)" by (simp add: u bit_iff_odd)
  also have "\<dots> \<longleftrightarrow> v \<ge> 0"
  proof (cases "v \<ge> 0")
    case True
    then have "v mod 2048 div 1024 = 0" using assms by simp
    then show ?thesis using True by simp
  next
    case False
    then have "v mod 2048 = v + 2048" using assms by (simp add: mod_pos_geq [symmetric] mod_add_self2 [symmetric, of v] del: mod_add_self2)
    then have "v mod 2048 div 1024 = 1" using False assms by simp
    then show ?thesis using False by simp
  qed
  finally have sign: "?w AND AXIS_SIGN_BIT = 0 \<longleftrightarrow> v \<ge> 0" .
  show ?thesis
  proof (cases "v \<ge> 0")
    case True
    then show ?thesis using assms sign u by (simp add: decode_axis_def)
  next
    case False
    then have "v mod 2048 = v + 2048" using assms by (simp add: mod_pos_geq [symmetric] mod_add_self2 [symmetric, of v] del: mod_add_self2)
    then show ?thesis using False sign u by (simp add: decode_axis_def)
  qed
qed

section \<open>Sequence numbers\<close>

lemma wire_sequence_of_nat:
  "ucast (take_bit 4 (ucast (of_nat k :: u16) :: u32)) = (take_bit 4 (of_nat k) :: u8)"
  by (rule bit_word_eqI) (auto simp: bit_simps bit_of_nat_iff)

lemma take_bit_4_small: "n < 16 \<Longrightarrow> take_bit 4 (of_nat n) = (of_nat n :: u8)"
  by (simp add: word_unat_eq_iff unsigned_take_bit_eq unat_of_nat take_bit_nat_eq_self)

lemma wire_delta:
  assumes "g \<le> 14"
  shows "take_bit 4 (take_bit 4 (of_nat (p + 1 + g)) - take_bit 4 (of_nat p)) = (of_nat (g + 1) :: u8)"
proof -
  have "take_bit 4 (take_bit 4 a - take_bit 4 b) = take_bit 4 (a - b)" for a b :: u8
    by (simp add: word_uint_eq_iff unsigned_take_bit_eq uint_word_arith_bintrs take_bit_diff)
  then have "take_bit 4 (take_bit 4 (of_nat (p + 1 + g)) - take_bit 4 (of_nat p)) =
    take_bit 4 (of_nat (g + 1) :: u8)" by simp
  also have "\<dots> = of_nat (g + 1)" using assms by (intro take_bit_4_small) simp
  finally show ?thesis .
qed

section \<open>A lossy link\<close>

text \<open>
  A source frame is its motion, its span and whether the link delivers its packet. \<open>link_run\<close>
  encodes the frames in order and decodes the packets that were written and delivered.
\<close>

type_synonym source_frame = "(int \<times> int) \<times> u32 \<times> bool"

primrec link_run :: "zpt_compact_split_encoder \<Rightarrow> zpt_compact_split_decoder \<Rightarrow> source_frame list \<Rightarrow>
    zpt_compact_split_frame list" where
  "link_run encoder decoder [] = []"
| "link_run encoder decoder (f # fs) =
     (let (motion, span, delivered) = f;
          (ret, packet, encoder) = zpt_compact_split_encode encoder motion span
      in case packet of
           Some p \<Rightarrow> if delivered
             then let (ret, frame, decoder) = zpt_compact_split_decode decoder p
                  in (case frame of Some r \<Rightarrow> [r] | None \<Rightarrow> []) @ link_run encoder decoder fs
             else link_run encoder decoder fs
         | None \<Rightarrow> link_run encoder decoder fs)"

definition fits_axis :: "int \<Rightarrow> bool" where
  "fits_axis v \<longleftrightarrow> AXIS_MIN \<le> v \<and> v \<le> AXIS_MAX"

fun arrives :: "source_frame \<Rightarrow> bool" where
  "arrives (motion, span, delivered) = (delivered \<and> fits_axis (fst motion) \<and> fits_axis (snd motion))"

text \<open>
  The span a frame arrives with: rounded to a multiple of 2 ms, never rounded down to zero, and
  30 ms, marked as clipped, from 29 ms on.
\<close>

definition span_on_wire :: "u32 \<Rightarrow> int" where
  "span_on_wire span = (if span = 0 then 0 else if uint span \<ge> 29000 then 30000
     else 2000 * max 1 ((uint span + 1000) div 2000))"

text \<open>
  What the receiver should see: exactly the frames that arrive, in order, each with the number
  it had at the source, and a gap flagged when a frame before it was lost.
\<close>

definition frame_at :: "bool \<Rightarrow> nat \<Rightarrow> int \<times> int \<Rightarrow> u32 \<Rightarrow> zpt_compact_split_frame" where
  "frame_at gap k motion span = \<lparr>cf_motion = motion, cf_sample_span_us = of_int (span_on_wire span),
     cf_flags = FLAG_TIMING_ESTIMATED OR
       (if gap then FLAG_SEQUENCE_GAP OR FLAG_DISCONTINUITY else 0) OR
       (if uint span \<ge> 29000 then FLAG_SAMPLE_SPAN_CLIPPED else 0),
     cf_sequence = of_nat k\<rparr>"

definition gap_before :: "nat option \<Rightarrow> nat \<Rightarrow> bool" where
  "gap_before previous k \<longleftrightarrow> (case previous of None \<Rightarrow> False | Some p \<Rightarrow> Suc p < k)"

primrec received :: "nat \<Rightarrow> nat option \<Rightarrow> source_frame list \<Rightarrow> zpt_compact_split_frame list" where
  "received k previous [] = []"
| "received k previous (f # fs) =
     (if arrives f
      then frame_at (gap_before previous k) k (fst f) (fst (snd f)) # received (Suc k) (Some k) fs
      else received (Suc k) previous fs)"

text \<open>At most 14 frames in a row are lost between two that arrive.\<close>

primrec short_gaps :: "nat \<Rightarrow> source_frame list \<Rightarrow> bool" where
  "short_gaps lost [] = True"
| "short_gaps lost (f # fs) =
     (if arrives f then lost \<le> 14 \<and> short_gaps 0 fs else short_gaps (Suc lost) fs)"

definition linked :: "zpt_compact_split_encoder \<Rightarrow> zpt_compact_split_decoder \<Rightarrow> nat \<Rightarrow> nat option \<Rightarrow> nat \<Rightarrow> bool" where
  "linked encoder decoder k previous lost \<longleftrightarrow> next_sequence encoder = of_nat k \<and>
     (case previous of
        None \<Rightarrow> \<not> saw_sequence decoder \<and> lost = k
      | Some p \<Rightarrow> saw_sequence decoder \<and> k = p + 1 + lost \<and> expanded_sequence decoder = of_nat p \<and>
          previous_wire_sequence decoder = take_bit 4 (of_nat p))"

lemma span_code_word:
  assumes "0 \<le> c" "c < 4294967296"
  shows "(of_int c :: u32) = 0 \<longleftrightarrow> c = 0" "(15 :: u32) \<le> of_int c \<longleftrightarrow> 15 \<le> c"
    "c < 16 \<Longrightarrow> take_bit 4 (of_int c :: u32) = of_int c" "c < 16 \<Longrightarrow> of_int c = (15 :: u32) \<longleftrightarrow> c = 15"
  using assms by (simp_all add: word_uint_eq_iff word_le_def unsigned_take_bit_eq uint_word_of_int_eq
    take_bit_int_eq_self)

lemma encode_span_cases:
  "\<exists>c. 0 \<le> c \<and> c < 16 \<and> span_on_wire span = c * 2000 \<and> (c = 15 \<longleftrightarrow> uint span \<ge> 29000) \<and>
     encode_span span = (of_int c, uint span \<ge> 29000)"
proof -
  let ?code = "(uint span + 1000) div 2000"
  have range: "0 \<le> uint span" "uint span < 4294967296" using uint_lt2p [of span] by auto
  have code: "0 \<le> ?code" "?code < 4294967296" using range by linarith+
  note w = span_code_word [OF code]
  consider "span = 0" | "span \<noteq> 0" "29000 \<le> uint span" | "span \<noteq> 0" "uint span < 29000" "?code = 0"
    | "span \<noteq> 0" "uint span < 29000" "0 < ?code" using code by linarith
  then show ?thesis
  proof cases
    case 1
    then show ?thesis by (intro exI [of _ 0]) (simp add: span_on_wire_def encode_span_def)
  next
    case 2
    then have "15 \<le> ?code" by linarith
    with 2 w show ?thesis
      by (intro exI [of _ 15]) (simp add: span_on_wire_def encode_span_def Let_def)
  next
    case 3
    with w show ?thesis
      by (intro exI [of _ 1]) (simp add: span_on_wire_def encode_span_def Let_def word_le_nat_alt)
  next
    case 4
    then have "?code < 15" by linarith
    with 4 w show ?thesis
      by (intro exI [of _ ?code]) (simp add: span_on_wire_def encode_span_def Let_def max_def)
  qed
qed

lemma expand_sequence_linked:
  assumes "linked encoder decoder k previous lost" "lost \<le> 14"
  shows "\<exists>d. expand_sequence decoder (take_bit 4 (of_nat k)) = (of_nat k,
    FLAG_TIMING_ESTIMATED OR (if gap_before previous k then FLAG_SEQUENCE_GAP OR FLAG_DISCONTINUITY else 0), d)"
proof (cases previous)
  case None
  then have "\<not> saw_sequence decoder" "k \<le> 14" using assms by (auto simp: linked_def)
  then have "ucast (take_bit 4 (of_nat k) :: u8) = (of_nat k :: u16)"
    by (simp add: take_bit_4_small unsigned_of_nat take_bit_nat_eq_self)
  then show ?thesis
    using None \<open>\<not> saw_sequence decoder\<close> by (simp add: expand_sequence_def gap_before_def Let_def)
next
  case (Some p)
  then have st: "saw_sequence decoder" "expanded_sequence decoder = of_nat p"
    "previous_wire_sequence decoder = take_bit 4 (of_nat p)" and k: "k = p + 1 + lost"
    using assms(1) by (auto simp: linked_def)
  have delta: "take_bit 4 (take_bit 4 (of_nat k) - previous_wire_sequence decoder) = (of_nat (lost + 1) :: u8)"
    using wire_delta [OF assms(2), of p] by (simp add: st k)
  have wide: "ucast (of_nat (lost + 1) :: u8) = (of_nat (lost + 1) :: u16)"
    using assms(2) by (simp add: unsigned_of_nat take_bit_nat_eq_self del: of_nat_add of_nat_Suc)
  have one: "(of_nat (lost + 1) :: u8) = 1 \<longleftrightarrow> lost = 0" "1 < (of_nat (lost + 1) :: u8) \<longleftrightarrow> 0 < lost"
    using assms(2) by (auto simp: word_unat_eq_iff word_less_nat_alt unat_of_nat take_bit_nat_eq_self simp del: of_nat_add of_nat_Suc)
  have sum: "of_nat p + of_nat (lost + 1) = (of_nat k :: u16)" "lost = 0 \<Longrightarrow> of_nat p + 1 = (of_nat k :: u16)"
    by (simp_all add: k)
  show ?thesis
    using st delta wide one Some sum k
    by (auto simp: expand_sequence_def gap_before_def Let_def simp del: of_nat_add of_nat_Suc)
qed

lemma decode_encode:
  assumes "linked encoder decoder k previous lost" "lost \<le> 14" "fits_axis (fst motion)" "fits_axis (snd motion)"
    and "zpt_compact_split_encode encoder motion span = (ret, packet, encoder')"
  shows "\<exists>p decoder'. packet = Some p \<and>
    zpt_compact_split_decode decoder p =
      (0, Some (frame_at (gap_before previous k) k motion span), decoder') \<and>
    linked encoder' decoder' (Suc k) (Some k) 0"
proof -
  obtain c where c: "0 \<le> c" "c < 16" "span_on_wire span = c * 2000" "c = 15 \<longleftrightarrow> uint span \<ge> 29000"
    and enc: "encode_span span = (of_int c, uint span \<ge> 29000)" using encode_span_cases by blast
  note cw = span_code_word [OF c(1)]
  let ?seq = "ucast (next_sequence encoder) :: u32"
  define p where "p = push_bit 30 2 OR push_bit 26 (take_bit 4 (of_int c)) OR push_bit 22 (take_bit 4 ?seq) OR
    push_bit 11 (take_bit 11 (word_of_int (snd motion))) OR push_bit 0 (take_bit 11 (word_of_int (fst motion) :: u32))"
  have packet: "packet = Some p" and nxt: "next_sequence encoder' = next_sequence encoder + 1"
    using assms(3-5) c cw by (auto simp: p_def enc zpt_compact_split_encode_def Let_def fits_axis_def encode_axis_def)
  note fields = packet_fields [OF p_def]
  have k: "next_sequence encoder = of_nat k" using assms(1) by (simp add: linked_def)
  have motion: "decode_axis p = fst motion" "decode_axis (drop_bit 11 p) = snd motion"
    using axis_round_trip [of "fst motion"] axis_round_trip [of "snd motion"] fields(4,5) assms(3,4)
    by (simp_all add: fits_axis_def decode_axis_def)
  obtain d where expand: "expand_sequence decoder (take_bit 4 (of_nat k)) = (of_nat k,
    FLAG_TIMING_ESTIMATED OR (if gap_before previous k then FLAG_SEQUENCE_GAP OR FLAG_DISCONTINUITY else 0), d)"
    using expand_sequence_linked [OF assms(1,2)] by blast
  have "span_code = of_int c \<Longrightarrow> span_code * 2000 = (of_int (span_on_wire span) :: u32)" for span_code
    by (simp add: c(3))
  then show ?thesis
    using fields(1-3) packet nxt k cw c(2,4)
    by (auto simp: zpt_compact_split_decode_def Let_def wire_sequence_of_nat expand frame_at_def motion linked_def or.assoc)
qed

lemma encode_lost:
  assumes "linked encoder decoder k previous lost"
    and "zpt_compact_split_encode encoder motion span = (ret, packet, encoder')"
  shows "linked encoder' decoder (Suc k) previous (Suc lost)"
    "\<not> arrives (motion, span, delivered) \<Longrightarrow> packet = None \<or> \<not> delivered"
  using assms
  by (auto simp: linked_def fits_axis_def zpt_compact_split_encode_def Let_def split: if_splits prod.splits option.splits)

lemma link_run_received:
  assumes "linked encoder decoder k previous lost" "short_gaps lost fs"
  shows "link_run encoder decoder fs = received k previous fs"
  using assms
proof (induction fs arbitrary: encoder decoder k previous lost)
  case Nil
  then show ?case by simp
next
  case (Cons f fs)
  obtain motion span delivered where f: "f = (motion, span, delivered)" by (cases f) auto
  obtain ret packet encoder' where e: "zpt_compact_split_encode encoder motion span = (ret, packet, encoder')"
    by (cases "zpt_compact_split_encode encoder motion span") auto
  show ?case
  proof (cases "arrives f")
    case True
    then have gap: "lost \<le> 14" and rest: "short_gaps 0 fs" using Cons.prems by simp_all
    from decode_encode [OF Cons.prems(1) gap _ _ e] True f obtain p decoder' where
      "packet = Some p" "linked encoder' decoder' (Suc k) (Some k) 0"
      "zpt_compact_split_decode decoder p =
        (0, Some (frame_at (gap_before previous k) k motion span), decoder')"
      by auto
    with Cons.IH [OF this(2) rest] show ?thesis using True f e by simp
  next
    case False
    have "linked encoder' decoder (Suc k) previous (Suc lost)" and "packet = None \<or> \<not> delivered"
      using encode_lost [OF Cons.prems(1) e] False f by auto
    then show ?thesis
      using Cons.IH [of encoder' decoder "Suc k" previous "Suc lost"] Cons.prems(2) False f e
      by (auto split: option.splits)
  qed
qed

text \<open>Over a link that never loses more than 14 frames in a row the decoder recovers the
  source exactly: every frame whose motion fits the packet and whose packet is delivered arrives
  in order with its own motion, its span to the 2 ms quantum, and the number it had at the source
  modulo 2^16; the frames after a loss, whether on the link or because the motion did not fit,
  are flagged as following a gap, and no others are.\<close>

theorem compact_link_recovers_the_source:
  assumes "short_gaps 0 fs"
  shows "link_run zpt_compact_split_encoder_init zpt_compact_split_decoder_init fs = received 0 None fs"
proof (rule link_run_received)
  show "linked zpt_compact_split_encoder_init zpt_compact_split_decoder_init 0 None 0"
    by (simp add: linked_def zpt_compact_split_encoder_init_def zpt_compact_split_decoder_init_def)
qed (rule assms)

lemma compact_link_recovers_the_source_witness:
  "map (\<lambda>r. (cf_motion r, cf_sample_span_us r, cf_flags r, cf_sequence r))
     (link_run zpt_compact_split_encoder_init zpt_compact_split_decoder_init
       [((5, - 7), 2500, True), ((2000, 0), 0, True), ((1, 1), 900, False), ((- 1024, 1023), 40000, True)]) =
   [((5, - 7), 2000, 8, 0), ((- 1024, 1023), 30000, 232, 3)]"
  using compact_link_recovers_the_source [of "[((5, - 7), 2500, True), ((2000, 0), 0, True), ((1, 1), 900, False),
    ((- 1024, 1023), 40000, True)]"]
  by (simp add: fits_axis_def frame_at_def gap_before_def span_on_wire_def)

text \<open>A packet of another format is refused and leaves the sequence tracking as it was.\<close>

lemma foreign_packet_keeps_sequence:
  assumes "take_bit 2 (drop_bit 30 packet) \<noteq> 2"
  shows "\<exists>d. zpt_compact_split_decode decoder packet = (- EBADMSG, None, decoder\<lparr>dec_diagnostics := d\<rparr>)"
  using assms by (auto simp: zpt_compact_split_decode_def)

end
