(* ===== verification/Frame_Assembler.thy ===== *)
theory Frame_Assembler
  imports Fixed
begin

text \<open>
  The frame assembler (\<open>source/frame_assembler.c\<close>) collects scalar axis events into one frame;
  the motion source (\<open>source/motion_source.c\<close>) turns finished frames into raw motion signals with
  the source's identity, sequence numbers and sensor resolution.
\<close>

datatype zpt_motion_axis = MOTION_AXIS_X | MOTION_AXIS_Y

record zpt_frame_assembler =
  asm_x_counts :: int
  asm_y_counts :: int
  asm_flags :: u32
  saw_axis :: bool

definition saturating_add :: "int \<Rightarrow> int \<Rightarrow> u32 \<Rightarrow> int \<times> u32" where
  "saturating_add lhs rhs frame_flags =
     (if rhs > 0 \<and> lhs > INT64_MAX - rhs then (INT64_MAX, frame_flags OR FLAG_CLIPPED)
      else if rhs < 0 \<and> lhs < INT64_MIN - rhs then (INT64_MIN, frame_flags OR FLAG_CLIPPED)
      else (i64 (lhs + rhs), frame_flags))"

definition zpt_frame_assembler_reset :: zpt_frame_assembler where
  "zpt_frame_assembler_reset =
     \<lparr>asm_x_counts = 0, asm_y_counts = 0, asm_flags = 0, saw_axis = False\<rparr>"

definition zpt_frame_assembler_add :: "zpt_motion_axis \<Rightarrow> int \<Rightarrow> zpt_frame_assembler \<Rightarrow> zpt_frame_assembler" where
  "zpt_frame_assembler_add axis counts assembler =
     (case axis of
        MOTION_AXIS_X \<Rightarrow>
          let (x, fl) = saturating_add (asm_x_counts assembler) counts (asm_flags assembler)
          in assembler\<lparr>asm_x_counts := x, asm_flags := fl, saw_axis := True\<rparr>
      | MOTION_AXIS_Y \<Rightarrow>
          let (y, fl) = saturating_add (asm_y_counts assembler) counts (asm_flags assembler)
          in assembler\<lparr>asm_y_counts := y, asm_flags := fl, saw_axis := True\<rparr>)"

text \<open>The result: the motion and flags when there is a frame, and the assembler left.\<close>

definition zpt_frame_assembler_take :: "zpt_frame_assembler \<Rightarrow> ((int \<times> int) \<times> u32) option \<times> zpt_frame_assembler" where
  "zpt_frame_assembler_take assembler =
     (if \<not> saw_axis assembler then (None, assembler)
      else (Some ((asm_x_counts assembler, asm_y_counts assembler), asm_flags assembler),
            zpt_frame_assembler_reset))"

lemma saturating_add_fst: "fst (saturating_add a b fl) = zpt_fixed_saturating_add a b"
  by (simp add: saturating_add_def zpt_fixed_saturating_add_def)

lemma saturating_add_exact: "in_i64 (a + b) \<Longrightarrow> saturating_add a b fl = (a + b, fl)"
  by (auto simp: saturating_add_def in_i64_def i64_def)

interpretation frame_add: saturating_adder "\<lambda>a b. fst (saturating_add a b fl)" for fl
  by unfold_locales (simp add: saturating_add_fst fixed_add.add_clamps)

section \<open>The motion source\<close>

abbreviation (input) SOURCE_LOCATION_FLAGS :: u32 where
  "SOURCE_LOCATION_FLAGS \<equiv> FLAG_LOCAL OR FLAG_TRANSPORTED"

record zpt_motion_source_config =
  msc_flags :: u32
  msc_source_id :: u16
  msc_resolution_cpi :: u16

record zpt_motion_source_state =
  ms_frame :: zpt_frame_assembler
  ms_flags :: u32
  ms_source_id :: u16
  ms_sequence :: u16
  ms_resolution_cpi :: u16
  staged_resolution_cpi :: u16

text \<open>The result: the return code, and the state written when it is zero.\<close>

definition zpt_motion_source_init :: "zpt_motion_source_config \<Rightarrow> int \<times> zpt_motion_source_state option" where
  "zpt_motion_source_init config =
     (if msc_resolution_cpi config = 0 then (- EINVAL, None)
      else let location = msc_flags config AND SOURCE_LOCATION_FLAGS
           in if location \<noteq> FLAG_LOCAL \<and> location \<noteq> FLAG_TRANSPORTED then (- EINVAL, None)
              else (0, Some \<lparr>ms_frame = zpt_frame_assembler_reset, ms_flags = msc_flags config,
                     ms_source_id = msc_source_id config, ms_sequence = 0,
                     ms_resolution_cpi = msc_resolution_cpi config, staged_resolution_cpi = 0\<rparr>))"

definition zpt_motion_source_add :: "zpt_motion_axis \<Rightarrow> int \<Rightarrow> zpt_motion_source_state \<Rightarrow> zpt_motion_source_state" where
  "zpt_motion_source_add axis counts st = st\<lparr>ms_frame := zpt_frame_assembler_add axis counts (ms_frame st)\<rparr>"

definition take_at_sequence :: "u32 \<Rightarrow> u32 \<Rightarrow> u16 \<Rightarrow> u32 \<Rightarrow> zpt_motion_source_state \<Rightarrow>
    zpt_signal option \<times> zpt_motion_source_state" where
  "take_at_sequence at_ms span_us seq additional_flags st =
     (case zpt_frame_assembler_take (ms_frame st) of
        (None, frame) \<Rightarrow> (None, st\<lparr>ms_frame := frame\<rparr>)
      | (Some (motion, frame_flags), frame) \<Rightarrow>
          let signal = zero_signal\<lparr>kind := SIGNAL_RAW_MOTION,
                metadata := \<lparr>observed_at_ms = at_ms, sample_span_us = span_us,
                  flags = ms_flags st OR (additional_flags AND NOT SOURCE_LOCATION_FLAGS) OR frame_flags,
                  source_id = ms_source_id st, sequence = seq,
                  resolution_cpi = ms_resolution_cpi st\<rparr>,
                annotations := zero_annotations\<lparr>axis_intent := AXIS_UNDECIDED\<rparr>,
                data := RawMotion (fst motion) (snd motion)\<rparr>;
              st = st\<lparr>ms_frame := frame, ms_sequence := seq + 1\<rparr>
          in (Some signal,
              if staged_resolution_cpi st \<noteq> 0
              then st\<lparr>ms_resolution_cpi := staged_resolution_cpi st, staged_resolution_cpi := 0\<rparr> else st))"

definition zpt_motion_source_take :: "u32 \<Rightarrow> u32 \<Rightarrow> u32 \<Rightarrow> zpt_motion_source_state \<Rightarrow>
    zpt_signal option \<times> zpt_motion_source_state" where
  "zpt_motion_source_take at_ms span_us additional_flags st =
     take_at_sequence at_ms span_us (ms_sequence st) additional_flags st"

definition zpt_motion_source_take_at_sequence :: "u32 \<Rightarrow> u32 \<Rightarrow> u16 \<Rightarrow> u32 \<Rightarrow> zpt_motion_source_state \<Rightarrow>
    zpt_signal option \<times> zpt_motion_source_state" where
  "zpt_motion_source_take_at_sequence at_ms span_us seq additional_flags st =
     take_at_sequence at_ms span_us seq additional_flags st"

definition zpt_motion_source_set_resolution_cpi :: "u16 \<Rightarrow> zpt_motion_source_state \<Rightarrow>
    int \<times> zpt_motion_source_state" where
  "zpt_motion_source_set_resolution_cpi cpi st =
     (if cpi = 0 then (- EINVAL, st)
      else if saw_axis (ms_frame st) then (1, st\<lparr>staged_resolution_cpi := cpi\<rparr>)
      else (0, st\<lparr>ms_resolution_cpi := cpi, staged_resolution_cpi := 0\<rparr>))"

end
