(* ===== verification/Source_Ingress.thy ===== *)
theory Source_Ingress
  imports Frame_Assembler Compact_Codec
begin

text \<open>
  Frame reconstruction for one motion source (\<open>source/source_ingress.c\<close>): the input processor
  classifies each input event and feeds it here; a native frame completes on sync, a compact
  packet is a frame by itself.
\<close>

datatype zpt_source_event_kind = SOURCE_EVENT_OTHER | SOURCE_EVENT_AXIS_X | SOURCE_EVENT_AXIS_Y | SOURCE_EVENT_COMPACT

record zpt_source_ingress_config =
  ing_source :: zpt_motion_source_config
  compact_transport_coalesced :: bool

record zpt_source_ingress =
  in_source :: zpt_motion_source_state
  compact_decoder :: zpt_compact_split_decoder

definition zpt_source_ingress_init :: "zpt_source_ingress_config \<Rightarrow> int \<times> zpt_source_ingress option" where
  "zpt_source_ingress_init config =
     (case zpt_motion_source_init (ing_source config) of
        (ret, None) \<Rightarrow> (ret, None)
      | (ret, Some st) \<Rightarrow> (0, Some \<lparr>in_source = st, compact_decoder = zpt_compact_split_decoder_init\<rparr>))"

text \<open>The results: the signal of a completed frame, the decode error, and the ingress left.\<close>

definition take_compact_frame :: "zpt_source_ingress_config \<Rightarrow> int \<Rightarrow> u32 \<Rightarrow> zpt_source_ingress \<Rightarrow>
    zpt_signal option \<times> int \<times> zpt_source_ingress" where
  "take_compact_frame config value now ingress =
     (case zpt_compact_split_decode (compact_decoder ingress) (word_of_int value) of
        (ret, None, decoder) \<Rightarrow> (None, ret, ingress\<lparr>compact_decoder := decoder\<rparr>)
      | (ret, Some frame, decoder) \<Rightarrow>
          let st = zpt_motion_source_add MOTION_AXIS_X (fst (cf_motion frame)) (in_source ingress);
              st = zpt_motion_source_add MOTION_AXIS_Y (snd (cf_motion frame)) st;
              frame_flags = cf_flags frame;
              frame_flags = (if compact_transport_coalesced config then frame_flags OR FLAG_COALESCED else frame_flags);
              (signal, st) = zpt_motion_source_take_at_sequence now (cf_sample_span_us frame)
                (cf_sequence frame) frame_flags st
          in (signal, 0, ingress\<lparr>in_source := st, compact_decoder := decoder\<rparr>))"

definition zpt_source_ingress_handle :: "zpt_source_ingress_config \<Rightarrow> zpt_source_event_kind \<Rightarrow> int \<Rightarrow> bool \<Rightarrow>
    u32 \<Rightarrow> zpt_source_ingress \<Rightarrow> zpt_signal option \<times> int \<times> zpt_source_ingress" where
  "zpt_source_ingress_handle config event value sync now ingress =
     (case event of
        SOURCE_EVENT_COMPACT \<Rightarrow> take_compact_frame config value now ingress
      | _ \<Rightarrow>
          let st = (case event of
                SOURCE_EVENT_AXIS_X \<Rightarrow> zpt_motion_source_add MOTION_AXIS_X value (in_source ingress)
              | SOURCE_EVENT_AXIS_Y \<Rightarrow> zpt_motion_source_add MOTION_AXIS_Y value (in_source ingress)
              | _ \<Rightarrow> in_source ingress)
          in if sync
             then let (signal, st) = zpt_motion_source_take now 0 0 st in (signal, 0, ingress\<lparr>in_source := st\<rparr>)
             else (None, 0, ingress\<lparr>in_source := st\<rparr>))"

definition zpt_source_ingress_follow_resolution :: "u16 \<Rightarrow> zpt_source_ingress \<Rightarrow> zpt_source_ingress" where
  "zpt_source_ingress_follow_resolution cpi ingress =
     (if cpi = 0 then ingress
      else let src = in_source ingress;
               upcoming = (if staged_resolution_cpi src \<noteq> 0 then staged_resolution_cpi src else ms_resolution_cpi src)
           in if cpi \<noteq> upcoming
              then ingress\<lparr>in_source := snd (zpt_motion_source_set_resolution_cpi cpi src)\<rparr>
              else ingress)"

section \<open>Native frames\<close>

text \<open>
  An input event as the processor sees it: the device's current resolution, the event's kind,
  value and sync flag, and the time. The processor follows the resolution, then handles the
  event.
\<close>

record input_event =
  ev_cpi :: u16
  ev_kind :: zpt_source_event_kind
  ev_value :: int
  ev_sync :: bool
  ev_now :: u32

primrec ingress_run :: "zpt_source_ingress_config \<Rightarrow> zpt_source_ingress \<Rightarrow> input_event list \<Rightarrow>
    zpt_signal list \<times> zpt_source_ingress" where
  "ingress_run config ingress [] = ([], ingress)"
| "ingress_run config ingress (e # es) =
     (let (signal, err, ingress) = zpt_source_ingress_handle config (ev_kind e) (ev_value e) (ev_sync e) (ev_now e)
            (zpt_source_ingress_follow_resolution (ev_cpi e) ingress);
          (signals, ingress) = ingress_run config ingress es
      in ((case signal of Some s \<Rightarrow> [s] | None \<Rightarrow> []) @ signals, ingress))"

text \<open>
  What the frames of an event sequence are: the axis events up to a sync, with the time of the
  sync. A sync without axis events closes nothing.
\<close>

definition is_axis :: "input_event \<Rightarrow> bool" where
  "is_axis e \<longleftrightarrow> ev_kind e = SOURCE_EVENT_AXIS_X \<or> ev_kind e = SOURCE_EVENT_AXIS_Y"

primrec frames_of :: "input_event list \<Rightarrow> input_event list \<Rightarrow> (input_event list \<times> u32) list" where
  "frames_of current [] = []"
| "frames_of current (e # es) =
     (let current = current @ (if is_axis e then [e] else [])
      in if ev_sync e \<and> current \<noteq> [] then (current, ev_now e) # frames_of [] es
         else frames_of current es)"

definition counts_x :: "input_event list \<Rightarrow> int" where
  "counts_x es = (\<Sum>e\<leftarrow>es. if ev_kind e = SOURCE_EVENT_AXIS_X then ev_value e else 0)"

definition counts_y :: "input_event list \<Rightarrow> int" where
  "counts_y es = (\<Sum>e\<leftarrow>es. if ev_kind e = SOURCE_EVENT_AXIS_Y then ev_value e else 0)"

text \<open>The signal a frame should become.\<close>

definition frame_signal :: "u32 \<Rightarrow> u16 \<Rightarrow> u16 \<Rightarrow> input_event list \<times> u32 \<Rightarrow> zpt_signal" where
  "frame_signal fl src seq frame = \<lparr>kind = SIGNAL_RAW_MOTION,
     metadata = \<lparr>observed_at_ms = snd frame, sample_span_us = 0, flags = fl, source_id = src,
       sequence = seq, resolution_cpi = ev_cpi (hd (fst frame))\<rparr>,
     annotations = zero_annotations, data = RawMotion (counts_x (fst frame)) (counts_y (fst frame))\<rparr>"

primrec frame_signals :: "u32 \<Rightarrow> u16 \<Rightarrow> u16 \<Rightarrow> (input_event list \<times> u32) list \<Rightarrow> zpt_signal list" where
  "frame_signals fl src seq [] = []"
| "frame_signals fl src seq (f # fs) = frame_signal fl src seq f # frame_signals fl src (seq + 1) fs"

definition native :: "input_event \<Rightarrow> bool" where
  "native e \<longleftrightarrow> ev_kind e \<noteq> SOURCE_EVENT_COMPACT \<and> ev_cpi e \<noteq> 0 \<and> in_i32 (ev_value e)"

text \<open>What the source state is when the axis events \<open>current\<close> are pending.\<close>

definition pending :: "zpt_motion_source_state \<Rightarrow> input_event list \<Rightarrow> bool" where
  "pending st current \<longleftrightarrow>
     ms_frame st = \<lparr>asm_x_counts = counts_x current, asm_y_counts = counts_y current,
       asm_flags = 0, saw_axis = (current \<noteq> [])\<rparr> \<and>
     (if current = [] then staged_resolution_cpi st = 0 else ms_resolution_cpi st = ev_cpi (hd current))"

lemma counts_append [simp]:
  "counts_x (es @ [e]) = counts_x es + (if ev_kind e = SOURCE_EVENT_AXIS_X then ev_value e else 0)"
  "counts_y (es @ [e]) = counts_y es + (if ev_kind e = SOURCE_EVENT_AXIS_Y then ev_value e else 0)"
  "counts_x [] = 0" "counts_y [] = 0"
  by (simp_all add: counts_x_def counts_y_def)

lemma counts_bound:
  assumes "\<forall>e \<in> set es. in_i32 (ev_value e)"
  shows "\<bar>counts_x es\<bar> \<le> 2147483648 * int (length es)" "\<bar>counts_y es\<bar> \<le> 2147483648 * int (length es)"
  using assms by (induction es) (auto simp: counts_x_def counts_y_def in_i32_def)

lemma counts_fit:
  assumes "\<forall>e \<in> set es. in_i32 (ev_value e)" "length es < 4294967296"
  shows "in_i64 (counts_x es)" "in_i64 (counts_y es)"
proof -
  have "2147483648 * int (length es) \<le> INT64_MAX" using assms(2) by linarith
  then show "in_i64 (counts_x es)" "in_i64 (counts_y es)"
    using counts_bound [OF assms(1)] by (auto simp: in_i64_def)
qed

text \<open>The identity a source keeps and the number its next frame gets.\<close>

definition identity :: "zpt_motion_source_state \<Rightarrow> u32 \<times> u16 \<times> u16" where
  "identity st = (ms_flags st, ms_source_id st, ms_sequence st)"

lemma follow_pending:
  assumes "pending (in_source ingress) current" "cpi \<noteq> 0"
  shows "pending (in_source (zpt_source_ingress_follow_resolution cpi ingress)) current"
    "current = [] \<Longrightarrow> ms_resolution_cpi (in_source (zpt_source_ingress_follow_resolution cpi ingress)) = cpi"
    "identity (in_source (zpt_source_ingress_follow_resolution cpi ingress)) = identity (in_source ingress)"
  using assms
  by (auto simp: zpt_source_ingress_follow_resolution_def zpt_motion_source_set_resolution_cpi_def
      pending_def identity_def Let_def)

lemma add_pending:
  assumes "pending st current" "current = [] \<Longrightarrow> ms_resolution_cpi st = ev_cpi e"
    and "in_i64 (counts_x (current @ [e]))" "in_i64 (counts_y (current @ [e]))"
  shows "ev_kind e = SOURCE_EVENT_AXIS_X \<Longrightarrow> pending (zpt_motion_source_add MOTION_AXIS_X (ev_value e) st) (current @ [e])"
    "ev_kind e = SOURCE_EVENT_AXIS_Y \<Longrightarrow> pending (zpt_motion_source_add MOTION_AXIS_Y (ev_value e) st) (current @ [e])"
    "identity (zpt_motion_source_add axis v st) = identity st"
  using assms
  by (auto simp: pending_def zpt_motion_source_add_def zpt_frame_assembler_add_def saturating_add_exact
      hd_append identity_def)

lemma take_pending:
  assumes "pending st current"
  shows "current = [] \<Longrightarrow> zpt_motion_source_take now 0 0 st = (None, st)"
    "current \<noteq> [] \<Longrightarrow> \<exists>st'. zpt_motion_source_take now 0 0 st =
        (Some (frame_signal (ms_flags st) (ms_source_id st) (ms_sequence st) (current, now)), st') \<and>
      pending st' [] \<and> identity st' = (ms_flags st, ms_source_id st, ms_sequence st + 1)"
  using assms
  by (auto simp: pending_def zpt_motion_source_take_def take_at_sequence_def zpt_frame_assembler_take_def
      zpt_frame_assembler_reset_def frame_signal_def zero_signal_defs identity_def Let_def)

text \<open>One event, followed and handled.\<close>

lemma handle_pending:
  assumes "pending (in_source ingress) current" "native e"
    and "in_i64 (counts_x (current @ [e]))" "in_i64 (counts_y (current @ [e]))"
    and "cur = current @ (if is_axis e then [e] else [])"
    and "identity (in_source ingress) = (fl, src, seq)"
  shows "\<exists>signal ingress'. zpt_source_ingress_handle config (ev_kind e) (ev_value e) (ev_sync e) (ev_now e)
      (zpt_source_ingress_follow_resolution (ev_cpi e) ingress) = (signal, 0, ingress') \<and>
    (if ev_sync e \<and> cur \<noteq> []
     then signal = Some (frame_signal fl src seq (cur, ev_now e)) \<and> pending (in_source ingress') [] \<and>
       identity (in_source ingress') = (fl, src, seq + 1)
     else signal = None \<and> pending (in_source ingress') cur \<and> identity (in_source ingress') = (fl, src, seq))"
proof -
  let ?ing = "zpt_source_ingress_follow_resolution (ev_cpi e) ingress"
  have cpi: "ev_cpi e \<noteq> 0" using assms(2) by (simp add: native_def)
  note f = follow_pending [OF assms(1) cpi]
  define st where "st = (case ev_kind e of
      SOURCE_EVENT_AXIS_X \<Rightarrow> zpt_motion_source_add MOTION_AXIS_X (ev_value e) (in_source ?ing)
    | SOURCE_EVENT_AXIS_Y \<Rightarrow> zpt_motion_source_add MOTION_AXIS_Y (ev_value e) (in_source ?ing)
    | _ \<Rightarrow> in_source ?ing)"
  have st: "pending st cur" "identity st = (fl, src, seq)"
    using f add_pending [OF f(1) f(2) assms(3,4)] assms(2,5,6)
    by (auto simp: st_def native_def is_axis_def split: zpt_source_event_kind.split)
  have handle: "zpt_source_ingress_handle config (ev_kind e) (ev_value e) (ev_sync e) (ev_now e) ?ing =
    (if ev_sync e then let (signal, st) = zpt_motion_source_take (ev_now e) 0 0 st
       in (signal, 0, ?ing\<lparr>in_source := st\<rparr>) else (None, 0, ?ing\<lparr>in_source := st\<rparr>))"
    using assms(2) by (simp add: zpt_source_ingress_handle_def st_def native_def split: zpt_source_event_kind.split)
  show ?thesis
    using take_pending [OF st(1), of "ev_now e"] st unfolding handle identity_def by (cases "cur = []") auto
qed

lemma ingress_run_frames:
  assumes "pending (in_source ingress) current" "identity (in_source ingress) = (fl, src, seq)"
    and "\<forall>e \<in> set (current @ es). native e" "length (current @ es) < 4294967296"
  shows "fst (ingress_run config ingress es) = frame_signals fl src seq (frames_of current es)"
  using assms
proof (induction es arbitrary: ingress current seq)
  case Nil
  then show ?case by simp
next
  case (Cons e es)
  let ?cur = "current @ (if is_axis e then [e] else [])"
  have "\<forall>x \<in> set (current @ [e]). in_i32 (ev_value x)" "length (current @ [e]) < 4294967296"
    using Cons.prems(3,4) by (auto simp: native_def)
  from counts_fit [OF this] handle_pending [OF Cons.prems(1) _ _ _ refl Cons.prems(2), of e config] Cons.prems(3)
  obtain signal ingress' where h: "zpt_source_ingress_handle config (ev_kind e) (ev_value e) (ev_sync e) (ev_now e)
      (zpt_source_ingress_follow_resolution (ev_cpi e) ingress) = (signal, 0, ingress')"
    and r: "if ev_sync e \<and> ?cur \<noteq> []
     then signal = Some (frame_signal fl src seq (?cur, ev_now e)) \<and> pending (in_source ingress') [] \<and>
       identity (in_source ingress') = (fl, src, seq + 1)
     else signal = None \<and> pending (in_source ingress') ?cur \<and> identity (in_source ingress') = (fl, src, seq)"
    by auto
  show ?case
  proof (cases "ev_sync e \<and> ?cur \<noteq> []")
    case True
    then have "fst (ingress_run config ingress' es) = frame_signals fl src (seq + 1) (frames_of [] es)"
      using r Cons.prems(3,4) by (intro Cons.IH) auto
    with True r h show ?thesis by (auto simp: Let_def split: prod.split)
  next
    case False
    then have "fst (ingress_run config ingress' es) = frame_signals fl src seq (frames_of ?cur es)"
      using r Cons.prems(3,4) by (intro Cons.IH) auto
    with False r h show ?thesis by (auto simp: Let_def split: prod.split)
  qed
qed

text \<open>What an initialisation leaves.\<close>

lemma ingress_starts:
  assumes "zpt_source_ingress_init config = (0, Some ingress)"
  shows "pending (in_source ingress) []"
    "identity (in_source ingress) = (msc_flags (ing_source config), msc_source_id (ing_source config), 0)"
  using assms by (auto simp: zpt_source_ingress_init_def zpt_motion_source_init_def pending_def
    identity_def zpt_frame_assembler_reset_def Let_def split: if_splits)

lemma frames_from_the_start:
  assumes "zpt_source_ingress_init config = (0, Some ingress)"
    and "\<forall>e \<in> set es. native e" "length es < 4294967296"
  shows "fst (ingress_run config ingress es) =
    frame_signals (msc_flags (ing_source config)) (msc_source_id (ing_source config)) 0 (frames_of [] es)"
  by (rule ingress_run_frames) (use assms ingress_starts [OF assms(1)] in simp_all)

text \<open>Property C6. Frame reconstruction is exact: from initialisation, whatever the sequence of native axis
  events and syncs, the signals are exactly the frames of the sequence, in order: each carries the
  sums of its axis counts, unclipped, the time of its sync, consecutive sequence numbers, the
  source's identity and flags, and the resolution the device had at the frame's first count.\<close>

theorem native_frames_are_exact:
  assumes "zpt_source_ingress_init config = (0, Some ingress)"
    and "\<forall>e \<in> set es. native e" "length es < 4294967296"
  shows "fst (ingress_run config ingress es) =
    frame_signals (msc_flags (ing_source config)) (msc_source_id (ing_source config)) 0 (frames_of [] es)"
  using assms by (rule frames_from_the_start)

definition sample_source :: zpt_source_ingress_config where
  "sample_source = \<lparr>ing_source = \<lparr>msc_flags = FLAG_LOCAL, msc_source_id = 3, msc_resolution_cpi = 800\<rparr>,
     compact_transport_coalesced = True\<rparr>"

definition sample_ingress :: zpt_source_ingress where
  "sample_ingress = the (snd (zpt_source_ingress_init sample_source))"

lemma sample_ingress_init: "zpt_source_ingress_init sample_source = (0, Some sample_ingress)"
  by (simp add: sample_ingress_def sample_source_def zpt_source_ingress_init_def zpt_motion_source_init_def Let_def)

text \<open>The resolution changes in the middle of the first frame.\<close>

definition sample_events :: "input_event list" where
  "sample_events =
    [\<lparr>ev_cpi = 800, ev_kind = SOURCE_EVENT_AXIS_X, ev_value = 5, ev_sync = False, ev_now = 1\<rparr>,
     \<lparr>ev_cpi = 1600, ev_kind = SOURCE_EVENT_AXIS_X, ev_value = - 2, ev_sync = True, ev_now = 2\<rparr>,
     \<lparr>ev_cpi = 1600, ev_kind = SOURCE_EVENT_OTHER, ev_value = 9, ev_sync = True, ev_now = 3\<rparr>,
     \<lparr>ev_cpi = 1600, ev_kind = SOURCE_EVENT_AXIS_Y, ev_value = 4, ev_sync = True, ev_now = 4\<rparr>]"

lemma native_frames_are_exact_witness:
  "map (\<lambda>s. (raw_motion s, resolution_cpi (metadata s), sequence (metadata s)))
     (fst (ingress_run sample_source sample_ingress sample_events)) = [((3, 0), 800, 0), ((0, 4), 1600, 1)]"
  using native_frames_are_exact [OF sample_ingress_init, of sample_events]
  by (simp add: sample_events_def native_def in_i32_def is_axis_def frame_signal_def counts_x_def counts_y_def)

section \<open>Compact frames\<close>

text \<open>A compact packet reaches the processor as a signed event value.\<close>

primrec compact_run :: "zpt_source_ingress_config \<Rightarrow> zpt_source_ingress \<Rightarrow> (u32 \<times> u32) list \<Rightarrow> zpt_signal list" where
  "compact_run config ingress [] = []"
| "compact_run config ingress (p # ps) =
     (let (signal, err, ingress) = zpt_source_ingress_handle config SOURCE_EVENT_COMPACT (sint (fst p)) True (snd p) ingress
      in (case signal of Some s \<Rightarrow> [s] | None \<Rightarrow> []) @ compact_run config ingress ps)"

text \<open>What leaves the peripheral and arrives, each packet with its arrival time.\<close>

primrec delivered_packets :: "zpt_compact_split_encoder \<Rightarrow> (source_frame \<times> u32) list \<Rightarrow> (u32 \<times> u32) list" where
  "delivered_packets encoder [] = []"
| "delivered_packets encoder (f # fs) =
     (let ((motion, span, delivered), now) = f;
          (ret, packet, encoder) = zpt_compact_split_encode encoder motion span
      in (case packet of Some p \<Rightarrow> if delivered then [(p, now)] else [] | None \<Rightarrow> []) @ delivered_packets encoder fs)"

text \<open>The signal a received frame should become.\<close>

definition compact_signal :: "zpt_source_ingress_config \<Rightarrow> u16 \<Rightarrow> zpt_compact_split_frame \<times> u32 \<Rightarrow> zpt_signal" where
  "compact_signal config cpi f = \<lparr>kind = SIGNAL_RAW_MOTION,
     metadata = \<lparr>observed_at_ms = snd f, sample_span_us = cf_sample_span_us (fst f),
       flags = msc_flags (ing_source config) OR cf_flags (fst f) OR
         (if compact_transport_coalesced config then FLAG_COALESCED else 0),
       source_id = msc_source_id (ing_source config), sequence = cf_sequence (fst f), resolution_cpi = cpi\<rparr>,
     annotations = zero_annotations, data = RawMotion (fst (cf_motion (fst f))) (snd (cf_motion (fst f)))\<rparr>"

definition between_frames :: "zpt_source_ingress_config \<Rightarrow> u16 \<Rightarrow> zpt_source_ingress \<Rightarrow> bool" where
  "between_frames config cpi ingress \<longleftrightarrow> (let st = in_source ingress in
     ms_frame st = zpt_frame_assembler_reset \<and> staged_resolution_cpi st = 0 \<and> ms_resolution_cpi st = cpi \<and>
     ms_flags st = msc_flags (ing_source config) \<and> ms_source_id st = msc_source_id (ing_source config))"

lemma frame_flags_local: "cf_flags (frame_at gap k motion span) AND NOT SOURCE_LOCATION_FLAGS = cf_flags (frame_at gap k motion span)"
  "(cf_flags (frame_at gap k motion span) OR FLAG_COALESCED) AND NOT SOURCE_LOCATION_FLAGS =
     cf_flags (frame_at gap k motion span) OR FLAG_COALESCED"
  by (auto simp: frame_at_def)

lemma take_compact:
  assumes "between_frames config cpi ingress" "fits_axis (fst motion)" "fits_axis (snd motion)"
    and "zpt_compact_split_decode (compact_decoder ingress) p = (0, Some (frame_at gap k motion span), decoder')"
  shows "\<exists>ingress'. zpt_source_ingress_handle config SOURCE_EVENT_COMPACT (sint p) True now ingress =
      (Some (compact_signal config cpi (frame_at gap k motion span, now)), 0, ingress') \<and>
    between_frames config cpi ingress' \<and> compact_decoder ingress' = decoder'"
proof -
  have fit: "in_i64 (fst motion)" "in_i64 (snd motion)" "cf_motion (frame_at gap k motion span) = motion"
    using assms(2,3) by (auto simp: fits_axis_def in_i64_def frame_at_def)
  show ?thesis
    using assms(1,4) fit frame_flags_local [of gap k motion span]
    by (auto simp: zpt_source_ingress_handle_def take_compact_frame_def between_frames_def Let_def
        zpt_motion_source_add_def zpt_frame_assembler_add_def saturating_add_exact zpt_frame_assembler_reset_def
        zpt_motion_source_take_at_sequence_def take_at_sequence_def zpt_frame_assembler_take_def
        compact_signal_def zero_signal_defs or.assoc)
qed

lemma compact_run_received:
  assumes "linked encoder (compact_decoder ingress) k previous lost" "short_gaps lost (map fst fs)"
    and "between_frames config cpi ingress"
  shows "compact_run config ingress (delivered_packets encoder fs) =
    map (compact_signal config cpi)
      (zip (received k previous (map fst fs)) (map snd (filter (arrives \<circ> fst) fs)))"
  using assms
proof (induction fs arbitrary: encoder ingress k previous lost)
  case Nil
  then show ?case by simp
next
  case (Cons f fs)
  obtain motion span delivered now where f: "f = ((motion, span, delivered), now)" by (cases f) auto
  obtain ret packet encoder' where e: "zpt_compact_split_encode encoder motion span = (ret, packet, encoder')"
    by (cases "zpt_compact_split_encode encoder motion span") auto
  show ?case
  proof (cases "arrives (fst f)")
    case True
    then have gap: "lost \<le> 14" and rest: "short_gaps 0 (map fst fs)" and fit: "fits_axis (fst motion)" "fits_axis (snd motion)"
      using Cons.prems(2) f by simp_all
    from decode_encode [OF Cons.prems(1) gap fit e] obtain p decoder' where
      p: "packet = Some p" and l: "linked encoder' decoder' (Suc k) (Some k) 0" and
      d: "zpt_compact_split_decode (compact_decoder ingress) p =
        (0, Some (frame_at (gap_before previous k) k motion span), decoder')"
      by auto
    from take_compact [OF Cons.prems(3) fit d, of now] obtain ingress' where
      h: "zpt_source_ingress_handle config SOURCE_EVENT_COMPACT (sint p) True now ingress =
        (Some (compact_signal config cpi (frame_at (gap_before previous k) k motion span, now)), 0, ingress')"
      and i: "between_frames config cpi ingress'" "compact_decoder ingress' = decoder'" by blast
    show ?thesis
      using Cons.IH [of encoder' ingress' "Suc k" "Some k" 0] l i rest True f e p h by simp
  next
    case False
    have "linked encoder' (compact_decoder ingress) (Suc k) previous (Suc lost)" and "packet = None \<or> \<not> delivered"
      using encode_lost [OF Cons.prems(1) e] False f by auto
    then show ?thesis
      using Cons.IH [of encoder' ingress "Suc k" previous "Suc lost"] Cons.prems(2,3) False f e
      by (auto split: option.splits)
  qed
qed

lemma compact_starts:
  assumes "zpt_source_ingress_init config = (0, Some ingress)"
  shows "linked zpt_compact_split_encoder_init (compact_decoder ingress) 0 None 0"
    "between_frames config (msc_resolution_cpi (ing_source config)) ingress"
  using assms by (auto simp: zpt_source_ingress_init_def zpt_motion_source_init_def between_frames_def
    linked_def zpt_compact_split_encoder_init_def zpt_compact_split_decoder_init_def zpt_frame_assembler_reset_def
    Let_def split: if_splits)

text \<open>Property C10. From the peripheral's encoder to the central's signals: over a link that never loses
  more than 14 frames in a row, every delivered frame becomes one raw motion signal with exactly
  the motion, quantised span and source number it was encoded with, stamped with its arrival time
  and the source's identity and resolution; the transport adds its flags and cannot forge the
  source's location.\<close>

theorem compact_transport_end_to_end:
  assumes "zpt_source_ingress_init config = (0, Some ingress)" "short_gaps 0 (map fst fs)"
  shows "compact_run config ingress (delivered_packets zpt_compact_split_encoder_init fs) =
    map (compact_signal config (msc_resolution_cpi (ing_source config)))
      (zip (received 0 None (map fst fs)) (map snd (filter (arrives \<circ> fst) fs)))"
  by (rule compact_run_received [OF compact_starts(1) assms(2) compact_starts(2)]) (rule assms(1))+

lemma compact_transport_end_to_end_witness:
  "map (\<lambda>s. (raw_motion s, flags (metadata s), sequence (metadata s), observed_at_ms (metadata s)))
     (compact_run sample_source sample_ingress (delivered_packets zpt_compact_split_encoder_init
       [(((5, - 7), 2500, True), 10), (((1, 1), 900, False), 12), (((- 1024, 1023), 40000, True), 14)])) =
   [((5, - 7), 13, 0, 10), ((- 1024, 1023), 237, 2, 14)]"
  using compact_transport_end_to_end [OF sample_ingress_init,
    of "[(((5, - 7), 2500, True), 10), (((1, 1), 900, False), 12), (((- 1024, 1023), 40000, True), 14)]"]
  by (simp add: fits_axis_def frame_at_def gap_before_def span_on_wire_def compact_signal_def sample_source_def)

end
