(* ===== verification/Device_Caps.thy ===== *)
theory Device_Caps
  imports Zpt_Prelude
begin

text \<open>
  Supported sensor resolutions (\<open>source/device_caps.c\<close>): a requested counts-per-inch value is
  snapped to the nearest value of a discrete list or of a stepped range.
\<close>

record zpt_cpi_capabilities =
  settable :: bool
  discrete :: bool
  list_values :: "u16 list option"
  range_min :: u16
  range_max :: u16
  range_step :: u16

text \<open>The loop over the list: the exact value, or the best value so far and its distance.\<close>

fun closest :: "u16 \<Rightarrow> u16 list \<Rightarrow> u16 \<Rightarrow> u16 \<Rightarrow> int \<times> u16" where
  "closest requested [] best best_distance = (1, best)"
| "closest requested (v # vs) best best_distance =
     (if v = requested then (0, requested)
      else let distance = (if v > requested then v - requested else requested - v)
           in if distance < best_distance then closest requested vs v distance
              else closest requested vs best best_distance)"

definition validate_discrete :: "zpt_cpi_capabilities \<Rightarrow> u16 \<Rightarrow> int \<times> u16 option" where
  "validate_discrete caps requested =
     (case list_values caps of
        None \<Rightarrow> (- EINVAL, None)
      | Some vs \<Rightarrow> if vs = [] then (- EINVAL, None)
          else let (ret, v) = closest requested vs (hd vs) 0xFFFF in (ret, Some v))"

definition snap_range_point :: "zpt_cpi_capabilities \<Rightarrow> u16 \<Rightarrow> int \<times> u16 option" where
  "snap_range_point caps requested =
     (let offset = ucast requested - ucast (range_min caps) :: u32;
          below = offset - offset mod ucast (range_step caps);
          above = below + ucast (range_step caps);
          chosen = (if above \<le> ucast (range_max caps) - ucast (range_min caps) \<and> above - offset < offset - below
                    then above else below);
          effective = ucast (ucast (range_min caps) + chosen)
      in (if effective = requested then 0 else 1, Some effective))"

definition validate_range :: "zpt_cpi_capabilities \<Rightarrow> u16 \<Rightarrow> int \<times> u16 option" where
  "validate_range caps requested =
     (if range_step caps = 0 \<or> range_min caps > range_max caps then (- EINVAL, None)
      else if requested \<le> range_min caps then (if range_min caps = requested then 0 else 1, Some (range_min caps))
      else if requested \<ge> range_max caps then (if range_max caps = requested then 0 else 1, Some (range_max caps))
      else snap_range_point caps requested)"

definition zpt_cpi_validate :: "zpt_cpi_capabilities \<Rightarrow> u16 \<Rightarrow> int \<times> u16 option" where
  "zpt_cpi_validate caps requested =
     (if \<not> settable caps then (- ENOSYS, None)
      else if discrete caps then validate_discrete caps requested else validate_range caps requested)"

section \<open>The nearest supported value\<close>

definition supported :: "zpt_cpi_capabilities \<Rightarrow> u16 \<Rightarrow> bool" where
  "supported caps v \<longleftrightarrow>
     (if discrete caps then \<exists>vs. list_values caps = Some vs \<and> v \<in> set vs
      else range_min caps \<le> v \<and> v \<le> range_max caps \<and>
        uint (range_step caps) dvd uint v - uint (range_min caps))"

text \<open>Well-formed capabilities; the range ends on a step.\<close>

definition caps_ok :: "zpt_cpi_capabilities \<Rightarrow> bool" where
  "caps_ok caps \<longleftrightarrow> settable caps \<and>
     (if discrete caps then \<exists>vs. list_values caps = Some vs \<and> vs \<noteq> [] \<and> sorted vs
      else range_step caps \<noteq> 0 \<and> range_min caps \<le> range_max caps \<and>
        uint (range_step caps) dvd uint (range_max caps) - uint (range_min caps))"

definition gap :: "u16 \<Rightarrow> u16 \<Rightarrow> int" where
  "gap a b = \<bar>uint a - uint b\<bar>"

text \<open>\<open>v\<close> is nearer to the request than \<open>u\<close>, or as near and not above it.\<close>

definition preferred :: "u16 \<Rightarrow> u16 \<Rightarrow> u16 \<Rightarrow> bool" where
  "preferred requested v u \<longleftrightarrow>
     gap v requested < gap u requested \<or> gap v requested = gap u requested \<and> v \<le> u"

lemma word_distance: "uint (if v > r then v - r else r - v :: u16) = gap v r"
  by (auto simp: gap_def word_less_def uint_sub_if')

lemma preferred_trans: "preferred r a b \<Longrightarrow> preferred r b c \<Longrightarrow> preferred r a c"
  by (auto simp: preferred_def)

lemma preferred_exact: "preferred r r u"
  by (auto simp: preferred_def gap_def word_le_def)

lemma closest_correct:
  assumes "sorted (best # vs)" "best \<noteq> requested" "uint best_distance = gap best requested"
    and "closest requested vs best best_distance = (ret, v)"
  shows "v \<in> set (best # vs) \<and> (\<forall>u \<in> set (best # vs). preferred requested v u) \<and>
    ret = (if v = requested then 0 else 1)"
  using assms
proof (induction vs arbitrary: best best_distance)
  case Nil
  then show ?case by (auto simp: preferred_def)
next
  case (Cons a vs)
  let ?d = "if a > requested then a - requested else requested - a"
  consider "a = requested" | "a \<noteq> requested" "?d < best_distance" | "a \<noteq> requested" "\<not> ?d < best_distance" by blast
  then show ?case
  proof cases
    case 1
    then show ?thesis using Cons.prems by (auto simp: preferred_exact)
  next
    case 2
    then have IH: "v \<in> set (a # vs) \<and> (\<forall>u \<in> set (a # vs). preferred requested v u) \<and>
      ret = (if v = requested then 0 else 1)"
      using Cons.prems by (intro Cons.IH [of a ?d]) (simp_all add: word_distance Let_def)
    moreover have "preferred requested a best"
      using 2 Cons.prems(3) word_distance [of requested a] by (simp add: preferred_def word_less_def)
    ultimately show ?thesis by (auto intro: preferred_trans)
  next
    case 3
    then have IH: "v \<in> set (best # vs) \<and> (\<forall>u \<in> set (best # vs). preferred requested v u) \<and>
      ret = (if v = requested then 0 else 1)"
      using Cons.prems by (intro Cons.IH [of best best_distance]) (simp_all add: Let_def)
    moreover have "preferred requested best a"
      using 3 Cons.prems(1,3) word_distance [of requested a] by (auto simp: preferred_def word_less_def)
    ultimately show ?thesis by (auto intro: preferred_trans)
  qed
qed

lemma validate_discrete_correct:
  assumes "list_values caps = Some vs" "vs \<noteq> []" "sorted vs"
  shows "\<exists>v. validate_discrete caps requested = (if v = requested then 0 else 1, Some v) \<and> v \<in> set vs \<and>
    (\<forall>u \<in> set vs. preferred requested v u)"
proof -
  obtain a as where vs: "vs = a # as" using assms(2) by (cases vs) auto
  obtain ret v where c: "closest requested vs a 0xFFFF = (ret, v)" by (cases "closest requested vs a 0xFFFF")
  have "v \<in> set vs \<and> (\<forall>u \<in> set vs. preferred requested v u) \<and> ret = (if v = requested then 0 else 1)"
  proof (cases "a = requested")
    case True
    then show ?thesis using c vs by (auto simp: preferred_exact)
  next
    case False
    let ?d = "if a > requested then a - requested else requested - a"
    let ?b = "if ?d < 0xFFFF then ?d else 0xFFFF"
    have "uint ?d \<le> 65535" using uint_lt2p [of ?d] by simp
    then have "?b = ?d" by (auto simp: word_less_def word_uint_eq_iff)
    then have "closest requested as a ?d = (ret, v)" using c False vs by (auto simp: Let_def split: if_splits)
    then show ?thesis using closest_correct [of a as requested ?d ret v] assms(3) vs False
      by (simp add: word_distance)
  qed
  then show ?thesis using c vs assms(1) by (intro exI [of _ v]) (simp add: validate_discrete_def)
qed

lemma snap_value:
  assumes "range_min caps < requested" "requested < range_max caps" "range_step caps \<noteq> 0"
    and "a = uint (range_min caps)" "b = uint (range_max caps)" "s = uint (range_step caps)"
    and "r = uint requested"
    and "below = r - a - (r - a) mod s"
  shows "\<exists>v. snap_range_point caps requested = (if v = requested then 0 else 1, Some v) \<and>
    uint v = a + (if below + s \<le> b - a \<and> below + s - (r - a) < r - a - below then below + s else below)"
proof -
  have bounds: "0 \<le> a" "a < r" "r < b" "b < 65536" "0 < s" "s < 65536"
    using assms uint_lt2p [of "range_max caps"] uint_lt2p [of "range_step caps"] uint_lt2p [of requested]
    by (auto simp: word_less_def word_uint_eq_iff order.not_eq_order_implies_strict)
  let ?o = "ucast requested - ucast (range_min caps) :: u32"
  have o: "uint ?o = r - a"
    using assms bounds by (simp add: uint_sub_if' unsigned_ucast_eq take_bit_int_eq_self)
  have m: "0 \<le> (r - a) mod s" "(r - a) mod s \<le> r - a" "(r - a) mod s < s"
    using bounds by (simp_all add: zmod_le_nonneg_dividend)
  let ?below = "?o - ?o mod ucast (range_step caps)"
  have ob: "uint ?below = below"
    using o m bounds assms(6,8)
    by (simp add: uint_sub_if' uint_mod unsigned_ucast_eq take_bit_int_eq_self)
  have below: "0 \<le> below" "below \<le> r - a" using m assms(8) by simp_all
  have sw: "uint (ucast (range_step caps) :: u32) = s"
    using bounds assms(6) by (simp add: unsigned_ucast_eq take_bit_int_eq_self)
  let ?above = "?below + ucast (range_step caps)"
  have oa: "uint ?above = below + s"
  proof -
    have "uint ?below + uint (ucast (range_step caps) :: u32) < 2 ^ LENGTH(32)"
      unfolding ob sw using below bounds by simp
    then show ?thesis by (simp only: uint_add_lem [THEN iffD1] ob sw)
  qed
  have span: "uint (ucast (range_max caps) - ucast (range_min caps) :: u32) = b - a"
    using assms bounds by (simp add: uint_sub_if' unsigned_ucast_eq take_bit_int_eq_self)
  have d1: "uint (?above - ?o) = below + s - (r - a)" and d2: "uint (?o - ?below) = r - a - below"
    using o ob oa m(3) below assms(8) uint_diff [of ?o ?above] uint_diff [of ?below ?o] by simp_all
  let ?chosen = "if ?above \<le> ucast (range_max caps) - ucast (range_min caps) \<and> ?above - ?o < ?o - ?below
    then ?above else ?below"
  have chosen: "uint ?chosen = (if below + s \<le> b - a \<and> below + s - (r - a) < r - a - below then below + s else below)"
    using oa ob span d1 d2 by (simp add: word_le_def word_less_def)
  then have small: "0 \<le> uint ?chosen" "uint ?chosen \<le> b - a" unfolding chosen using below bounds by auto
  have "uint (ucast (ucast (range_min caps) + ?chosen :: u32) :: u16) = a + uint ?chosen"
    using small bounds assms(4)
    by (simp only: unsigned_ucast_eq uint_word_arith_bintrs) (simp add: take_bit_int_eq_self)
  then show ?thesis
    unfolding snap_range_point_def Let_def chosen by (intro exI conjI) (rule refl)
qed

lemma grid_nearest:
  fixes a b s r u :: int
  assumes "0 < s" "a < r" "below = r - a - (r - a) mod s" "s dvd u - a" "u \<le> b"
    and "c = (if below + s \<le> b - a \<and> below + s - (r - a) < r - a - below then below + s else below)"
  shows "\<bar>a + c - r\<bar> < \<bar>u - r\<bar> \<or> \<bar>a + c - r\<bar> = \<bar>u - r\<bar> \<and> a + c \<le> u"
proof -
  obtain k where k: "u - a = s * k" using assms(4) by (elim dvdE)
  obtain q m where q: "(r - a) div s = q" and m: "(r - a) mod s = m" by simp
  have o: "r - a = s * q + m" using mult_div_mod_eq [of s "r - a"] q m by simp
  have m0: "0 \<le> m" "m < s" using assms(1) m [symmetric] by simp_all
  obtain K Q where K: "s * k = K" and Q: "s * q = Q" by simp
  have below: "below = Q" using assms(3) m o Q by simp
  have o': "r - a = Q + m" and k': "u - a = K" using o k K Q by simp_all
  have c: "c = Q + s \<and> Q + s \<le> b - a \<and> s - m < m \<or> c = Q \<and> (b - a < Q + s \<or> m \<le> s - m)"
    using assms(6) below o' by (auto split: if_splits)
  consider "k \<le> q" | "q + 1 \<le> k" by linarith
  then show ?thesis
  proof cases
    case 1
    then have "K \<le> Q" using assms(1) K Q by auto
    then show ?thesis using k' o' m0 c by linarith
  next
    case 2
    then have "s * (q + 1) \<le> s * k" using assms(1) by (intro mult_left_mono) simp_all
    then have "Q + s \<le> K" using K Q by (simp add: algebra_simps)
    then show ?thesis using k' o' m0 c assms(5) by linarith
  qed
qed

lemma validate_range_correct:
  assumes "range_step caps \<noteq> 0" "range_min caps \<le> range_max caps"
    and "uint (range_step caps) dvd uint (range_max caps) - uint (range_min caps)" "\<not> discrete caps"
  shows "\<exists>v. validate_range caps requested = (if v = requested then 0 else 1, Some v) \<and> supported caps v \<and>
    (\<forall>u. supported caps u \<longrightarrow> preferred requested v u)"
proof -
  have sup: "supported caps u \<longleftrightarrow> range_min caps \<le> u \<and> u \<le> range_max caps \<and>
      uint (range_step caps) dvd uint u - uint (range_min caps)" for u
    using assms(4) by (simp add: supported_def)
  consider "requested \<le> range_min caps" | "\<not> requested \<le> range_min caps" "range_max caps \<le> requested"
    | "range_min caps < requested" "requested < range_max caps" by fastforce
  then show ?thesis
  proof cases
    case 1
    then show ?thesis using assms
      by (intro exI [of _ "range_min caps"]) (auto simp: validate_range_def sup preferred_def gap_def word_le_def word_less_def)
  next
    case 2
    then show ?thesis using assms
      by (intro exI [of _ "range_max caps"])
        (auto simp: validate_range_def sup preferred_def gap_def word_le_def word_less_def word_uint_eq_iff)
  next
    case 3
    let ?a = "uint (range_min caps)" and ?b = "uint (range_max caps)" and ?s = "uint (range_step caps)"
      and ?r = "uint requested"
    define below where "below = ?r - ?a - (?r - ?a) mod ?s"
    define c where "c = (if below + ?s \<le> ?b - ?a \<and> below + ?s - (?r - ?a) < ?r - ?a - below then below + ?s else below)"
    obtain v where v: "snap_range_point caps requested = (if v = requested then 0 else 1, Some v)" "uint v = ?a + c"
      using snap_value [OF 3 assms(1) refl refl refl refl below_def] unfolding c_def by blast
    have s: "0 < ?s" using assms(1) by (simp add: word_uint_eq_iff order.not_eq_order_implies_strict)
    have r: "?a < ?r" "?r < ?b" using 3 by (simp_all add: word_less_def)
    have "(?r - ?a) mod ?s \<le> ?r - ?a" "0 \<le> (?r - ?a) mod ?s" using r s by (simp_all add: zmod_le_nonneg_dividend)
    then have b: "0 \<le> below" "below \<le> ?r - ?a" by (simp_all add: below_def)
    then have c: "0 \<le> c" "c \<le> ?b - ?a" using s r by (auto simp: c_def)
    have "?s dvd below" by (simp add: below_def minus_mod_eq_mult_div)
    then have "supported caps v" using c v(2) by (auto simp: sup word_le_def c_def)
    moreover have "preferred requested v u" if "supported caps u" for u
      using grid_nearest [OF s r(1) below_def _ _ c_def, of "uint u"] that v(2)
      by (simp add: sup preferred_def gap_def word_le_def)
    ultimately show ?thesis
      using v(1) 3 assms(1,2) by (intro exI [of _ v]) (auto simp: validate_range_def)
  qed
qed

lemma validate_nearest:
  assumes "caps_ok caps"
  shows "\<exists>v. zpt_cpi_validate caps requested = (if v = requested then 0 else 1, Some v) \<and> supported caps v \<and>
    (\<forall>u. supported caps u \<longrightarrow> preferred requested v u)"
proof (cases "discrete caps")
  case True
  then obtain vs where "list_values caps = Some vs" "vs \<noteq> []" "sorted vs" "settable caps"
    using assms by (auto simp: caps_ok_def)
  with validate_discrete_correct [of caps vs requested] True obtain v where
    "validate_discrete caps requested = (if v = requested then 0 else 1, Some v)" "v \<in> set vs"
    "\<forall>u \<in> set vs. preferred requested v u" by blast
  with \<open>list_values caps = Some vs\<close> \<open>settable caps\<close> True show ?thesis
    by (intro exI [of _ v]) (auto simp: zpt_cpi_validate_def supported_def)
next
  case False
  with assms validate_range_correct [of caps requested] show ?thesis
    by (auto simp: caps_ok_def zpt_cpi_validate_def)
qed

text \<open>A requested resolution is snapped to the nearest supported one: for a device whose capabilities
  are well-formed (an ascending list, or a range that ends on a step) the effective value is
  supported, no supported value is nearer to the request, ties go to the lower value, and the result
  is 0 exactly when the request itself is effective. A device that is not settable, an absent or
  empty list and a range with no step or with its ends swapped refuse every request.\<close>

theorem resolution_request_is_snapped_to_nearest:
  "(caps_ok caps \<longrightarrow> (\<exists>v. zpt_cpi_validate caps requested = (if v = requested then 0 else 1, Some v) \<and>
     supported caps v \<and> (\<forall>u. supported caps u \<longrightarrow> preferred requested v u))) \<and>
   (\<not> settable caps \<longrightarrow> zpt_cpi_validate caps requested = (- ENOSYS, None)) \<and>
   (settable caps \<and> discrete caps \<and> (list_values caps = None \<or> list_values caps = Some []) \<longrightarrow>
     zpt_cpi_validate caps requested = (- EINVAL, None)) \<and>
   (settable caps \<and> \<not> discrete caps \<and> (range_step caps = 0 \<or> range_max caps < range_min caps) \<longrightarrow>
     zpt_cpi_validate caps requested = (- EINVAL, None))"
  using validate_nearest [of caps requested]
  by (auto simp: zpt_cpi_validate_def validate_discrete_def validate_range_def Let_def split: option.splits)

definition sample_caps :: zpt_cpi_capabilities where
  "sample_caps = \<lparr>settable = True, discrete = False, list_values = None,
     range_min = 200, range_max = 3200, range_step = 100\<rparr>"

lemma resolution_request_is_snapped_to_nearest_witness:
  "zpt_cpi_validate sample_caps 850 = (1, Some 800) \<and>
   (\<exists>v. zpt_cpi_validate sample_caps 851 = (if v = 851 then 0 else 1, Some v) \<and> supported sample_caps v)"
  using resolution_request_is_snapped_to_nearest [of sample_caps 851]
  by (auto simp: sample_caps_def caps_ok_def zpt_cpi_validate_def validate_range_def snap_range_point_def Let_def)

text \<open>
  When the range does not end on a step the maximum is effective for requests at or above it but
  not for nearer requests just below it.
\<close>

lemma off_grid_maximum_is_not_snapped_to:
  "zpt_cpi_validate (sample_caps\<lparr>range_max := 3290\<rparr>) 3290 = (0, Some 3290)"
  "zpt_cpi_validate (sample_caps\<lparr>range_max := 3290\<rparr>) 3289 = (1, Some 3200)"
  by (simp_all add: sample_caps_def zpt_cpi_validate_def validate_range_def snap_range_point_def Let_def)

end
