(* ===== verification/Sensor_Control.thy ===== *)
theory Sensor_Control
  imports Zpt_Prelude
begin

text \<open>
  The split sensor-control protocol: the packing of requests and responses
  (\<open>source/sensor_control_wire.h\<close>) and the session that matches a response to the outstanding
  request (\<open>source/sensor_control_session.c\<close>).
\<close>

abbreviation (input) SCW_TAG :: u32 where "SCW_TAG \<equiv> 0xA"
abbreviation (input) SCW_OPCODE_GET_CPI :: u8 where "SCW_OPCODE_GET_CPI \<equiv> 1"
abbreviation (input) SCW_OPCODE_SET_CPI :: u8 where "SCW_OPCODE_SET_CPI \<equiv> 2"
abbreviation (input) SCW_SEQ_MAX :: u8 where "SCW_SEQ_MAX \<equiv> 15"

definition zpt_scw_param1 :: "u8 \<Rightarrow> u8 \<Rightarrow> u8 \<Rightarrow> u32" where
  "zpt_scw_param1 seq opcode device_id =
     push_bit 16 (ucast (seq AND 0x0F)) OR push_bit 8 (ucast (opcode AND 0xFF)) OR ucast device_id"

definition zpt_scw_param_seq :: "u32 \<Rightarrow> u8" where
  "zpt_scw_param_seq param1 = ucast (drop_bit 16 param1 AND 0x0F)"

definition zpt_scw_param_opcode :: "u32 \<Rightarrow> u8" where
  "zpt_scw_param_opcode param1 = ucast (drop_bit 8 param1 AND 0xFF)"

definition zpt_scw_param_device_id :: "u32 \<Rightarrow> u8" where
  "zpt_scw_param_device_id param1 = ucast (param1 AND 0xFF)"

definition zpt_scw_encode :: "u8 \<Rightarrow> u8 \<Rightarrow> u16 \<Rightarrow> u32" where
  "zpt_scw_encode status_errno seq value =
     push_bit 28 SCW_TAG OR push_bit 20 (ucast status_errno) OR push_bit 16 (ucast (seq AND 0x0F)) OR
     ucast value"

text \<open>The status, sequence number and value of a frame that carries the tag.\<close>

definition zpt_scw_decode :: "u32 \<Rightarrow> (u8 \<times> u8 \<times> u16) option" where
  "zpt_scw_decode raw =
     (if drop_bit 28 raw AND 0xF \<noteq> SCW_TAG then None
      else Some (ucast (drop_bit 20 raw AND 0xFF), ucast (drop_bit 16 raw AND 0xF), ucast (raw AND 0xFFFF)))"

declare masks_take_bit [simp]

text \<open>A request read back is the request sent, for sequence numbers of four bits.\<close>

lemma request_round_trip:
  "zpt_scw_param_seq (zpt_scw_param1 seq opcode device_id) = take_bit 4 seq"
  "zpt_scw_param_opcode (zpt_scw_param1 seq opcode device_id) = opcode"
  "zpt_scw_param_device_id (zpt_scw_param1 seq opcode device_id) = device_id"
  by (auto intro!: bit_word_eqI simp: bits_above zpt_scw_param1_def zpt_scw_param_seq_def zpt_scw_param_opcode_def zpt_scw_param_device_id_def bit_simps)

lemma response_round_trip:
  "zpt_scw_decode (zpt_scw_encode status seq value) = Some (status, take_bit 4 seq, value)"
proof -
  have tag: "bit (0xA :: u32) n \<longleftrightarrow> n = 1 \<or> n = 3" for n
  proof -
    have "(0xA :: u32) = 2 ^ 3 OR 2 ^ 1" by simp
    then show ?thesis by (simp only: bit_or_iff bit_exp_iff) auto
  qed
  have "take_bit 4 (drop_bit 28 (zpt_scw_encode status seq value)) = 0xA"
    by (rule bit_word_eqI) (auto simp: zpt_scw_encode_def bit_simps tag bits_above)
  moreover have "ucast (take_bit 8 (drop_bit 20 (zpt_scw_encode status seq value))) = status"
    by (rule bit_word_eqI) (auto simp: zpt_scw_encode_def bit_simps tag bits_above)
  moreover have "ucast (take_bit 4 (drop_bit 16 (zpt_scw_encode status seq value))) = take_bit 4 seq"
    by (rule bit_word_eqI) (auto simp: zpt_scw_encode_def bit_simps tag bits_above)
  moreover have "ucast (take_bit 16 (zpt_scw_encode status seq value)) = value"
    by (rule bit_word_eqI) (auto simp: zpt_scw_encode_def bit_simps tag bits_above)
  ultimately show ?thesis by (simp add: zpt_scw_decode_def)
qed

section \<open>The session\<close>

record zpt_scw_session =
  last_seq :: u8
  expected_seq :: u8
  status_errno :: u8
  scw_value :: u16

definition zpt_scw_session_init :: zpt_scw_session where
  "zpt_scw_session_init = \<lparr>last_seq = 0, expected_seq = 0, status_errno = 0, scw_value = 0\<rparr>"

definition zpt_scw_session_begin :: "zpt_scw_session \<Rightarrow> u8 \<times> zpt_scw_session" where
  "zpt_scw_session_begin session =
     (let seq = last_seq session mod SCW_SEQ_MAX + 1
      in (seq, session\<lparr>last_seq := seq, expected_seq := seq\<rparr>))"

definition zpt_scw_session_offer :: "u32 \<Rightarrow> zpt_scw_session \<Rightarrow> bool \<times> zpt_scw_session" where
  "zpt_scw_session_offer raw session =
     (case zpt_scw_decode raw of
        None \<Rightarrow> (False, session)
      | Some (status, seq, value) \<Rightarrow>
          if expected_seq session = 0 \<or> seq \<noteq> expected_seq session then (False, session)
          else (True, session\<lparr>status_errno := status, scw_value := value, expected_seq := 0\<rparr>))"

definition zpt_scw_session_cancel :: "zpt_scw_session \<Rightarrow> zpt_scw_session" where
  "zpt_scw_session_cancel session = session\<lparr>expected_seq := 0\<rparr>"

definition zpt_scw_session_result :: "zpt_scw_session \<Rightarrow> int \<times> u16" where
  "zpt_scw_session_result session = (- uint (status_errno session), scw_value session)"

text \<open>Sequence numbers run through 1 to 15 and fit the four bits of the wire.\<close>

lemma session_seq:
  assumes "zpt_scw_session_begin session = (seq, session')"
  shows "seq \<noteq> 0" "take_bit 4 seq = seq" "expected_seq session' = seq" "last_seq session' = seq"
proof -
  have seq: "seq = last_seq session mod 15 + 1" and s': "session' = session\<lparr>last_seq := seq, expected_seq := seq\<rparr>"
    using assms by (auto simp: zpt_scw_session_begin_def Let_def)
  have m: "uint (last_seq session mod 15) < 15" by (simp add: uint_mod)
  then have u: "uint seq = uint (last_seq session mod 15) + 1"
    unfolding seq by (subst uint_add_lem [THEN iffD1]) simp_all
  have "0 < uint seq" unfolding u using uint_ge_0 [of "last_seq session mod 15"] by linarith
  then show "seq \<noteq> 0" by auto
  show "take_bit 4 seq = seq"
    using u m by (simp add: word_uint_eq_iff unsigned_take_bit_eq take_bit_int_eq_self)
  show "expected_seq session' = seq" "last_seq session' = seq" using s' by simp_all
qed

end
