(* ===== verification/Device_Table.thy ===== *)
theory Device_Table
  imports Device_Caps Sensor_Control
begin

text \<open>
  The table of physical pointing devices (\<open>platform/zmk/device_table.c\<close>): the current resolution
  of each device, the registry of native sensor drivers, and the service of split requests.

  One \<open>half\<close> is the state of one half of a split keyboard. The table entries are compiled in
  from devicetree; an entry is identified with its contents, which hold its unique id. A native
  driver is a pair of callbacks over a driver state of its own; a sensor device is a number.
\<close>

record 'd zpt_sensor_control_api =
  get_cpi :: "('d \<Rightarrow> int \<times> u16 option \<times> 'd) option"
  set_cpi :: "(u16 \<Rightarrow> 'd \<Rightarrow> int \<times> 'd) option"

record zpt_pointing_device =
  dev_id :: u8
  location :: u8
  default_cpi :: u16
  dev_stable_id :: string
  dev_devicetree_path :: string
  sensor :: "nat option"
  caps :: zpt_cpi_capabilities

record 'd half =
  entries :: "zpt_pointing_device list"
  current_cpi_store :: "u16 list"
  control_bindings :: "(nat \<times> 'd zpt_sensor_control_api) option list"
  sensor_state :: "nat \<Rightarrow> 'd"

section \<open>The registry of native sensors\<close>

fun bind_slot :: "nat \<Rightarrow> 'a \<Rightarrow> (nat \<times> 'a) option list \<Rightarrow> (nat \<times> 'a) option list option" where
  "bind_slot s api [] = None"
| "bind_slot s api (b # bs) =
     (if b = None \<or> fst (the b) = s then Some (Some (s, api) # bs)
      else map_option ((#) b) (bind_slot s api bs))"

definition zpt_sensor_control_register :: "nat option \<Rightarrow> 'd zpt_sensor_control_api option \<Rightarrow> 'd half \<Rightarrow>
    int \<times> 'd half" where
  "zpt_sensor_control_register snsr api half =
     (case (snsr, api) of
        (Some s, Some a) \<Rightarrow>
          (case bind_slot s a (control_bindings half) of
             Some bs \<Rightarrow> (0, half\<lparr>control_bindings := bs\<rparr>)
           | None \<Rightarrow> (- ENOMEM, half))
      | _ \<Rightarrow> (- EINVAL, half))"

fun find_binding :: "nat \<Rightarrow> (nat \<times> 'a) option list \<Rightarrow> 'a option" where
  "find_binding s [] = None"
| "find_binding s (b # bs) =
     (case b of Some (s', api) \<Rightarrow> if s' = s then Some api else find_binding s bs
      | None \<Rightarrow> find_binding s bs)"

definition zpt_sensor_control :: "'d half \<Rightarrow> nat option \<Rightarrow> 'd zpt_sensor_control_api option" where
  "zpt_sensor_control half snsr =
     (case snsr of None \<Rightarrow> None | Some s \<Rightarrow> find_binding s (control_bindings half))"

section \<open>The table\<close>

definition zpt_device_table_count :: "'d half \<Rightarrow> nat" where
  "zpt_device_table_count half = length (entries half)"

definition zpt_device_table_at :: "'d half \<Rightarrow> nat \<Rightarrow> zpt_pointing_device option" where
  "zpt_device_table_at half index = (if index \<ge> length (entries half) then None else Some (entries half ! index))"

definition zpt_device_table_find :: "'d half \<Rightarrow> string option \<Rightarrow> zpt_pointing_device option" where
  "zpt_device_table_find half stable_id =
     (case stable_id of None \<Rightarrow> None | Some i \<Rightarrow> find (\<lambda>d. dev_stable_id d = i) (entries half))"

text \<open>The index of a valid entry's current value.\<close>

definition zpt_device_valid :: "'d half \<Rightarrow> zpt_pointing_device option \<Rightarrow> nat option" where
  "zpt_device_valid half device =
     (case device of None \<Rightarrow> None
      | Some d \<Rightarrow> if unat (dev_id d) \<ge> length (entries half) \<or> entries half ! unat (dev_id d) \<noteq> d then None
          else Some (unat (dev_id d)))"

definition zpt_device_current_cpi :: "'d half \<Rightarrow> zpt_pointing_device option \<Rightarrow> u16" where
  "zpt_device_current_cpi half device =
     (case zpt_device_valid half device of None \<Rightarrow> 0 | Some i \<Rightarrow> current_cpi_store half ! i)"

definition set_current :: "nat \<Rightarrow> u16 \<Rightarrow> 'd half \<Rightarrow> 'd half" where
  "set_current i cpi half = half\<lparr>current_cpi_store := (current_cpi_store half)[i := cpi]\<rparr>"

definition zpt_device_control_record :: "zpt_pointing_device option \<Rightarrow> u16 \<Rightarrow> 'd half \<Rightarrow> int \<times> 'd half" where
  "zpt_device_control_record device cpi half =
     (case zpt_device_valid half device of
        None \<Rightarrow> (- EINVAL, half)
      | Some i \<Rightarrow> if cpi = 0 then (- EINVAL, half) else (0, set_current i cpi half))"

text \<open>The driver of a device's sensor, when it has the callback.\<close>

definition driver_of :: "'d half \<Rightarrow> zpt_pointing_device \<Rightarrow> ('d zpt_sensor_control_api \<Rightarrow> 'f option) \<Rightarrow>
    (nat \<times> 'f) option" where
  "driver_of half device callback =
     (case (sensor device, zpt_sensor_control half (sensor device)) of
        (Some s, Some api) \<Rightarrow> map_option (Pair s) (callback api)
      | _ \<Rightarrow> None)"

text \<open>The result: the return code, the value when one is written, the half left.\<close>

definition zpt_device_control_get :: "zpt_pointing_device option \<Rightarrow> 'd half \<Rightarrow> int \<times> u16 option \<times> 'd half" where
  "zpt_device_control_get device half =
     (case zpt_device_valid half device of
        None \<Rightarrow> (- EINVAL, None, half)
      | Some i \<Rightarrow>
          (case driver_of half (the device) get_cpi of
             Some (s, f) \<Rightarrow>
               let (ret, value, d) = f (sensor_state half s)
               in (ret, value, half\<lparr>sensor_state := (sensor_state half)(s := d)\<rparr>)
           | None \<Rightarrow> (0, Some (current_cpi_store half ! i), half)))"

text \<open>Write a value to the sensor through its driver; no driver is no write.\<close>

definition apply_cpi :: "zpt_pointing_device \<Rightarrow> u16 \<Rightarrow> int \<Rightarrow> 'd half \<Rightarrow> int \<times> 'd half" where
  "apply_cpi device cpi otherwise half =
     (case driver_of half device set_cpi of
        Some (s, f) \<Rightarrow>
          let (ret, d) = f cpi (sensor_state half s)
          in (ret, half\<lparr>sensor_state := (sensor_state half)(s := d)\<rparr>)
      | None \<Rightarrow> (otherwise, half))"

definition zpt_device_control_preview :: "zpt_pointing_device option \<Rightarrow> u16 \<Rightarrow> 'd half \<Rightarrow>
    int \<times> u16 option \<times> 'd half" where
  "zpt_device_control_preview device requested half =
     (case zpt_device_valid half device of
        None \<Rightarrow> (- EINVAL, None, half)
      | Some i \<Rightarrow>
          if \<not> settable (caps (the device)) then (- ENOSYS, None, half)
          else (case zpt_cpi_validate (caps (the device)) requested of
             (ret, None) \<Rightarrow> (ret, None, half)
           | (ret, Some effective) \<Rightarrow>
               if ret < 0 then (ret, Some effective, half)
               else let (ret, half) = apply_cpi (the device) effective ret half
                    in if ret < 0 then (ret, Some effective, half)
                       else (ret, Some effective, set_current i effective half)))"

definition zpt_device_control_reset :: "zpt_pointing_device option \<Rightarrow> 'd half \<Rightarrow> int \<times> 'd half" where
  "zpt_device_control_reset device half =
     (case zpt_device_valid half device of
        None \<Rightarrow> (- EINVAL, half)
      | Some i \<Rightarrow>
          if \<not> settable (caps (the device)) then (- ENOSYS, half)
          else let (ret, half) = apply_cpi (the device) (default_cpi (the device)) 0 half
               in if ret < 0 then (ret, half)
                  else (0, set_current i (default_cpi (the device)) half))"

text \<open>One split request, from packed parameters to the packed response.\<close>

definition zpt_device_control_serve :: "u32 \<Rightarrow> u32 \<Rightarrow> 'd half \<Rightarrow> u32 \<times> 'd half" where
  "zpt_device_control_serve param1 param2 half =
     (let seq = zpt_scw_param_seq param1;
          device = zpt_device_table_at half (unat (zpt_scw_param_device_id param1));
          (ret, value, half) =
            (if device = None \<or> location (the device) = 0 then (- ENODEV, None, half)
             else if zpt_scw_param_opcode param1 = SCW_OPCODE_GET_CPI then zpt_device_control_get device half
             else if zpt_scw_param_opcode param1 = SCW_OPCODE_SET_CPI
             then zpt_device_control_preview device (ucast (param2 AND 0xFFFF)) half
             else (- EINVAL, None, half));
          value = (if ret < 0 then 0 else case value of None \<Rightarrow> 0 | Some v \<Rightarrow> v)
      in (zpt_scw_encode (if ret < 0 then word_of_int (min (- ret) 255) else 0) seq value, half))"

section \<open>Registry laws\<close>

lemma find_binding_bind:
  "bind_slot s api bs = Some bs' \<Longrightarrow> find_binding s bs' = Some api \<and> (\<forall>s'. s' \<noteq> s \<longrightarrow> find_binding s' bs' = find_binding s' bs)"
  by (induction bs arbitrary: bs') (auto split: if_splits option.splits)

lemma bind_slot_length: "bind_slot s api bs = Some bs' \<Longrightarrow> length bs' = length bs"
  by (induction bs arbitrary: bs') (auto split: if_splits)

lemma bind_slot_full:
  "bind_slot s api bs = None \<longleftrightarrow> None \<notin> set bs \<and> s \<notin> (fst \<circ> the) ` set bs"
  by (induction bs) auto

text \<open>The registry is a bounded map: a registration is seen at once and disturbs no other sensor.\<close>

lemma register_effect:
  assumes "zpt_sensor_control_register (Some s) (Some api) half = (ret, half')"
  shows "ret = 0 \<Longrightarrow> zpt_sensor_control half' (Some s) = Some api"
    "s' \<noteq> s \<Longrightarrow> zpt_sensor_control half' (Some s') = zpt_sensor_control half (Some s')"
    "ret \<noteq> 0 \<Longrightarrow> ret = - ENOMEM \<and> half' = half"
  using assms find_binding_bind [of s api "control_bindings half"]
  by (auto simp: zpt_sensor_control_register_def zpt_sensor_control_def split: option.splits)

section \<open>Well-formed tables\<close>

text \<open>Ids are assigned in devicetree order, and every entry has a current value.\<close>

definition table_ok :: "'d half \<Rightarrow> bool" where
  "table_ok half \<longleftrightarrow> length (entries half) \<le> 256 \<and> length (current_cpi_store half) = length (entries half) \<and>
     (\<forall>i < length (entries half). dev_id (entries half ! i) = of_nat i)"

definition device_at :: "'d half \<Rightarrow> nat \<Rightarrow> zpt_pointing_device \<Rightarrow> bool" where
  "device_at half i d \<longleftrightarrow> i < length (entries half) \<and> entries half ! i = d"

lemma valid_iff_device_at:
  assumes "table_ok half"
  shows "zpt_device_valid half (Some d) = Some i \<longleftrightarrow> device_at half i d"
proof
  assume "zpt_device_valid half (Some d) = Some i"
  then show "device_at half i d" by (auto simp: zpt_device_valid_def device_at_def split: if_splits)
next
  assume d: "device_at half i d"
  then have "dev_id d = of_nat i" "i < 256" using assms by (auto simp: table_ok_def device_at_def)
  then have "unat (dev_id d) = i" by (simp add: unat_of_nat)
  with d show "zpt_device_valid half (Some d) = Some i" by (auto simp: zpt_device_valid_def device_at_def)
qed

lemma table_at_id:
  assumes "table_ok half" "device_at half i d"
  shows "zpt_device_table_at half (unat (dev_id d)) = Some d"
  using valid_iff_device_at [OF assms(1), of d i] assms(2)
  by (auto simp: zpt_device_valid_def zpt_device_table_at_def device_at_def split: if_splits)

lemma current_cpi_at:
  assumes "table_ok half" "device_at half i d"
  shows "zpt_device_current_cpi half (Some d) = current_cpi_store half ! i"
  using valid_iff_device_at [OF assms(1), of d i] assms(2) by (simp add: zpt_device_current_cpi_def)

lemma set_current_simps [simp]:
  "entries (set_current i v half) = entries half" "sensor_state (set_current i v half) = sensor_state half"
  "control_bindings (set_current i v half) = control_bindings half"
  "table_ok (set_current i v half) = table_ok half" "device_at (set_current i v half) j d = device_at half j d"
  by (simp_all add: set_current_def table_ok_def device_at_def)

text \<open>
  What the proxy and the source processors rely on: a store of one resolution per device, where
  a recorded value is read back and no other device's value moves.
\<close>

locale resolution_store =
  fixes ok :: "'s \<Rightarrow> bool"
    and has :: "'s \<Rightarrow> 'k \<Rightarrow> bool"
    and read :: "'s \<Rightarrow> 'k \<Rightarrow> u16"
    and put :: "'k \<Rightarrow> u16 \<Rightarrow> 's \<Rightarrow> 's"
  assumes put_ok: "ok s \<Longrightarrow> ok (put k v s)"
    and put_has: "ok s \<Longrightarrow> has (put k v s) k' = has s k'"
    and read_put: "ok s \<Longrightarrow> has s k \<Longrightarrow> v \<noteq> 0 \<Longrightarrow> read (put k v s) k = v"
    and read_put_other: "ok s \<Longrightarrow> has s k' \<Longrightarrow> k' \<noteq> k \<Longrightarrow> read (put k v s) k' = read s k'"
begin

text \<open>After any sequence of records a device has the value recorded last.\<close>

primrec put_all :: "('k \<times> u16) list \<Rightarrow> 's \<Rightarrow> 's" where
  "put_all [] s = s"
| "put_all (p # ps) s = put_all ps (put (fst p) (snd p) s)"

lemma put_all_keeps: "ok s \<Longrightarrow> ok (put_all ps s) \<and> has (put_all ps s) k = has s k"
  by (induction ps arbitrary: s) (auto simp: put_ok put_has)

lemma put_all_other: "ok s \<Longrightarrow> has s k \<Longrightarrow> k \<notin> fst ` set ps \<Longrightarrow> read (put_all ps s) k = read s k"
  by (induction ps arbitrary: s) (auto simp: put_ok put_has read_put_other)

lemma put_all_last:
  "ok s \<Longrightarrow> has s k \<Longrightarrow> v \<noteq> 0 \<Longrightarrow> k \<notin> fst ` set qs \<Longrightarrow> read (put_all (ps @ (k, v) # qs) s) k = v"
  by (induction ps arbitrary: s) (auto simp: put_ok put_has read_put put_all_other)

end

text \<open>Entries are identified by their place in the table.\<close>

definition record_at :: "nat \<Rightarrow> u16 \<Rightarrow> 'd half \<Rightarrow> 'd half" where
  "record_at i v half =
     (if i < length (entries half) then snd (zpt_device_control_record (Some (entries half ! i)) v half) else half)"

definition cpi_at :: "'d half \<Rightarrow> nat \<Rightarrow> u16" where
  "cpi_at half i = zpt_device_current_cpi half (Some (entries half ! i))"

lemma record_at_cases:
  assumes "table_ok half"
  shows "record_at i v half = (if i < length (entries half) \<and> v \<noteq> 0 then set_current i v half else half)"
  using valid_iff_device_at [OF assms, of "entries half ! i" i]
  by (auto simp: record_at_def zpt_device_control_record_def device_at_def)

lemma cpi_at_nth:
  assumes "table_ok half" "i < length (entries half)"
  shows "cpi_at half i = current_cpi_store half ! i"
  using current_cpi_at [OF assms(1), of i "entries half ! i"] assms(2) by (simp add: cpi_at_def device_at_def)

interpretation cpi_store: resolution_store table_ok "\<lambda>half i. i < length (entries half)" cpi_at record_at
proof
  fix half :: "'d half" and i j and v :: u16
  assume ok: "table_ok half"
  show "table_ok (record_at i v half)"
    and "(j < length (entries (record_at i v half))) = (j < length (entries half))"
    using ok by (simp_all add: record_at_cases)
  show "cpi_at (record_at i v half) i = v" if "i < length (entries half)" "v \<noteq> 0"
    using ok that by (simp add: record_at_cases cpi_at_nth) (simp add: set_current_def table_ok_def)
  show "cpi_at (record_at i v half) j = cpi_at half j" if "j < length (entries half)" "j \<noteq> i"
    using ok that by (simp add: record_at_cases cpi_at_nth) (simp add: set_current_def)
qed

section \<open>Previews\<close>

lemma apply_cpi_effect:
  assumes "apply_cpi d v otherwise half = (ret, half')"
  shows "entries half' = entries half" "current_cpi_store half' = current_cpi_store half"
    "control_bindings half' = control_bindings half"
    "sensor d \<noteq> Some s' \<Longrightarrow> sensor_state half' s' = sensor_state half s'"
    "driver_of half d set_cpi = Some (s, f) \<Longrightarrow>
       f v (sensor_state half s) = (ret, sensor_state half' s)"
  using assms by (auto simp: apply_cpi_def driver_of_def split: option.splits prod.splits)

lemma preview_effect:
  assumes "table_ok half" "device_at half i d" "caps_ok (caps d)"
    and "zpt_device_control_preview (Some d) requested half = (ret, eff, half')"
  shows "(if ret \<ge> 0
     then \<exists>v. eff = Some v \<and> supported (caps d) v \<and> (\<forall>u. supported (caps d) u \<longrightarrow> preferred requested v u) \<and>
       current_cpi_store half' = (current_cpi_store half)[i := v] \<and>
       (\<forall>s f. driver_of half d set_cpi = Some (s, f) \<longrightarrow> f v (sensor_state half s) = (ret, sensor_state half' s))
     else current_cpi_store half' = current_cpi_store half) \<and>
    (\<forall>s. sensor d \<noteq> Some s \<longrightarrow> sensor_state half' s = sensor_state half s) \<and>
    table_ok half' \<and> entries half' = entries half"
proof -
  obtain v where v: "zpt_cpi_validate (caps d) requested = (if v = requested then 0 else 1, Some v)"
    "supported (caps d) v" "\<forall>u. supported (caps d) u \<longrightarrow> preferred requested v u"
    using validate_nearest [OF assms(3), of requested] by blast
  obtain w half1 where a: "apply_cpi d v (if v = requested then 0 else 1) half = (w, half1)"
    by (cases "apply_cpi d v (if v = requested then 0 else 1) half")
  have settable: "settable (caps d)" using assms(3) by (simp add: caps_ok_def)
  have valid: "zpt_device_valid half (Some d) = Some i" using valid_iff_device_at assms(1,2) by blast
  have "ret = w" "eff = Some v" "half' = (if w < 0 then half1 else set_current i v half1)"
    using assms(4) a settable v(1)
    by (auto simp: zpt_device_control_preview_def valid split: if_splits)
  then show ?thesis using v(2,3) apply_cpi_effect [OF a] assms(1) by (auto simp: set_current_def table_ok_def)
qed

text \<open>Property C31. A preview is all or nothing for the table: for a device with well-formed capabilities it
  either succeeds, the effective value is supported and nearest to the request, it is the
  device's current resolution, and the sensor's driver, when there is one, was given exactly that
  value; or it fails and no recorded resolution changes. Other devices and sensors are never
  touched.\<close>

theorem preview_applies_the_nearest_value:
  assumes "table_ok half" "device_at half i d" "caps_ok (caps d)"
    and "zpt_device_control_preview (Some d) requested half = (ret, eff, half')"
  shows "(if ret \<ge> 0
     then \<exists>v. eff = Some v \<and> supported (caps d) v \<and> (\<forall>u. supported (caps d) u \<longrightarrow> preferred requested v u) \<and>
       current_cpi_store half' = (current_cpi_store half)[i := v] \<and>
       (\<forall>s f. driver_of half d set_cpi = Some (s, f) \<longrightarrow> f v (sensor_state half s) = (ret, sensor_state half' s))
     else current_cpi_store half' = current_cpi_store half) \<and>
    (\<forall>s. sensor d \<noteq> Some s \<longrightarrow> sensor_state half' s = sensor_state half s)"
  using preview_effect [OF assms] by blast

text \<open>A driver in memory: it keeps the resolution it was given.\<close>

definition sample_driver :: "u16 zpt_sensor_control_api" where
  "sample_driver = \<lparr>get_cpi = Some (\<lambda>d. (0, Some d, d)), set_cpi = Some (\<lambda>v d. (0, v))\<rparr>"

definition sample_device :: "nat option \<Rightarrow> zpt_pointing_device" where
  "sample_device snsr = \<lparr>dev_id = 0, location = 1, default_cpi = 800, dev_stable_id = ''trackball'',
     dev_devicetree_path = ''/trackball'', sensor = snsr, caps = sample_caps\<rparr>"

definition sample_half :: "nat option \<Rightarrow> u16 half" where
  "sample_half snsr = \<lparr>entries = [sample_device snsr], current_cpi_store = [800],
     control_bindings = [Some (7, sample_driver), None, None, None], sensor_state = (\<lambda>s. 800)\<rparr>"

lemma sample_half_ok: "table_ok (sample_half snsr)" "device_at (sample_half snsr) 0 (sample_device snsr)"
  by (simp_all add: table_ok_def device_at_def sample_half_def sample_device_def)

lemma sample_caps_ok: "caps_ok sample_caps"
  by (simp add: caps_ok_def sample_caps_def)

lemma preview_applies_the_nearest_value_witness:
  "let (ret, eff, half') = zpt_device_control_preview (Some (sample_device (Some 7))) 1240 (sample_half (Some 7))
   in ret = 0 \<and> eff = Some 1200 \<and> current_cpi_store half' = [1200] \<and> sensor_state half' 7 = 1200"
proof -
  obtain ret eff half' where r: "zpt_device_control_preview (Some (sample_device (Some 7))) 1240 (sample_half (Some 7)) =
    (ret, eff, half')" by (cases "zpt_device_control_preview (Some (sample_device (Some 7))) 1240 (sample_half (Some 7))")
  have caps: "caps (sample_device (Some 7)) = sample_caps" by (simp add: sample_device_def)
  have "ret = 0" "eff = Some 1200" "driver_of (sample_half (Some 7)) (sample_device (Some 7)) set_cpi = Some (7, \<lambda>v d. (0, v))"
    using r by (simp_all add: zpt_device_control_preview_def zpt_device_valid_def sample_half_def sample_device_def
      apply_cpi_def driver_of_def zpt_sensor_control_def sample_driver_def sample_caps_def zpt_cpi_validate_def
      validate_range_def snap_range_point_def Let_def)
  with preview_applies_the_nearest_value [OF sample_half_ok sample_caps_ok [folded caps] r] show ?thesis
    by (simp add: r) (simp add: sample_half_def)
qed

text \<open>
  The code reported to the caller is the driver's when there is one: a snapped request then
  returns the driver's 0, not the 1 of the documentation.
\<close>

lemma driver_hides_snapping:
  "fst (zpt_device_control_preview (Some (sample_device None)) 1240 (sample_half None)) = 1"
  "fst (zpt_device_control_preview (Some (sample_device (Some 7))) 1240 (sample_half (Some 7))) = 0"
  by (simp_all add: zpt_device_control_preview_def zpt_device_valid_def sample_half_def sample_device_def
      apply_cpi_def driver_of_def zpt_sensor_control_def sample_driver_def sample_caps_def zpt_cpi_validate_def
      validate_range_def snap_range_point_def Let_def)

end
