(* ===== verification/Sensor_Proxy.thy ===== *)
theory Sensor_Proxy
  imports Device_Table
begin

text \<open>
  The two ends of the split sensor-control protocol: the agent of the peripheral half
  (\<open>platform/zmk/sensor_control_agent.c\<close>) and the proxy of the central half
  (\<open>platform/zmk/sensor_control_proxy.c\<close>).

  The split transport is not part of the repository: a relay takes it as a parameter, a function
  from the destination and the two request words to the invocation's result, the input events
  that reach the proxy before its timeout, and the state of the outside world.
\<close>

record split_event =
  sp_type :: nat
  sp_code :: nat
  sp_value :: int
  sp_sync :: bool

abbreviation (input) INPUT_EV_REL :: nat where "INPUT_EV_REL \<equiv> 2"
abbreviation (input) INPUT_REL_MISC :: nat where "INPUT_REL_MISC \<equiv> 9"
abbreviation (input) PROXY_REACHABLE_BITS :: nat where "PROXY_REACHABLE_BITS \<equiv> 32"

type_synonym 'e split_transport = "u8 \<Rightarrow> u32 \<Rightarrow> u32 \<Rightarrow> 'e \<Rightarrow> int \<times> split_event list \<times> 'e"

section \<open>The agent\<close>

record zpt_agent_request =
  ar_split_reg :: u8
  ar_param1 :: u32
  ar_param2 :: u32

text \<open>Serve the pending request; the event is what \<open>zmk_split_peripheral_report_event\<close> is given.\<close>

definition zpt_agent_serve :: "zpt_agent_request \<Rightarrow> 'd half \<Rightarrow> split_event \<times> 'd half" where
  "zpt_agent_serve request half =
     (let (frame, half) = zpt_device_control_serve (ar_param1 request) (ar_param2 request) half
      in (\<lparr>sp_type = INPUT_EV_REL, sp_code = INPUT_REL_MISC, sp_value = sint frame, sp_sync = True\<rparr>, half))"

text \<open>A newer request replaces one that has not run yet.\<close>

definition zpt_agent_pressed :: "u8 \<Rightarrow> u32 \<Rightarrow> u32 \<Rightarrow> zpt_agent_request \<Rightarrow> zpt_agent_request" where
  "zpt_agent_pressed split_reg param1 param2 pending_request =
     \<lparr>ar_split_reg = split_reg, ar_param1 = param1, ar_param2 = param2\<rparr>"

section \<open>The proxy\<close>

record zpt_sensor_proxy_state =
  agent_name :: "string option"
  px_session :: zpt_scw_session
  reachable :: u32

definition zpt_sensor_proxy_receive :: "split_event \<Rightarrow> zpt_sensor_proxy_state \<Rightarrow> bool \<times> zpt_sensor_proxy_state" where
  "zpt_sensor_proxy_receive event proxy =
     (if sp_type event \<noteq> INPUT_EV_REL \<or> sp_code event \<noteq> INPUT_REL_MISC \<or> \<not> sp_sync event then (False, proxy)
      else let (answered, session) = zpt_scw_session_offer (word_of_int (sp_value event)) (px_session proxy)
           in (answered, proxy\<lparr>px_session := session\<rparr>))"

text \<open>The events of the waiting time; the semaphore is given when one of them answers.\<close>

primrec receive_all :: "split_event list \<Rightarrow> zpt_sensor_proxy_state \<Rightarrow> bool \<times> zpt_sensor_proxy_state" where
  "receive_all [] proxy = (False, proxy)"
| "receive_all (e # es) proxy =
     (let (answered, proxy) = zpt_sensor_proxy_receive e proxy;
          (later, proxy) = receive_all es proxy
      in (answered \<or> later, proxy))"

definition zpt_sensor_proxy_note_reachable :: "u8 \<Rightarrow> bool \<Rightarrow> zpt_sensor_proxy_state \<Rightarrow> zpt_sensor_proxy_state" where
  "zpt_sensor_proxy_note_reachable source reached proxy =
     (if unat source \<ge> PROXY_REACHABLE_BITS then proxy
      else if reached then proxy\<lparr>reachable := set_bit (unat source) (reachable proxy)\<rparr>
      else proxy\<lparr>reachable := unset_bit (unat source) (reachable proxy)\<rparr>)"

text \<open>The result: the return code, the value when the request was answered, proxy and world left.\<close>

definition zpt_sensor_proxy_relay :: "'e split_transport \<Rightarrow> zpt_pointing_device \<Rightarrow> u8 \<Rightarrow> u16 \<Rightarrow>
    zpt_sensor_proxy_state \<Rightarrow> 'e \<Rightarrow> int \<times> u16 option \<times> zpt_sensor_proxy_state \<times> 'e" where
  "zpt_sensor_proxy_relay transport device opcode payload proxy world =
     (if agent_name proxy = None then (- ENODEV, None, proxy, world)
      else if location device = 0 then (- EINVAL, None, proxy, world)
      else let source = location device - 1;
               (seq, session) = zpt_scw_session_begin (px_session proxy);
               (ret, events, world) = transport source (zpt_scw_param1 seq opcode (dev_id device)) (ucast payload) world;
               (any, proxy) = receive_all events (proxy\<lparr>px_session := session\<rparr>);
               answered = (ret = 0 \<and> any)
           in if answered
              then let (ret, value) = zpt_scw_session_result (px_session proxy)
                   in (ret, Some value, zpt_sensor_proxy_note_reachable source True proxy, world)
              else (if ret < 0 then ret else - EAGAIN, None,
                    zpt_sensor_proxy_note_reachable source False
                      (proxy\<lparr>px_session := zpt_scw_session_cancel (px_session proxy)\<rparr>), world))"

definition zpt_sensor_control_remote_reachable :: "zpt_sensor_proxy_state \<Rightarrow> zpt_pointing_device option \<Rightarrow> bool" where
  "zpt_sensor_control_remote_reachable proxy device =
     (case device of None \<Rightarrow> False
      | Some d \<Rightarrow> location d \<noteq> 0 \<and> unat (location d) - 1 < PROXY_REACHABLE_BITS \<and>
          bit (reachable proxy) (unat (location d) - 1))"

definition zpt_sensor_control_preview_remote :: "'e split_transport \<Rightarrow> zpt_pointing_device \<Rightarrow> u16 \<Rightarrow>
    zpt_sensor_proxy_state \<times> 'd half \<Rightarrow> 'e \<Rightarrow> int \<times> u16 option \<times> (zpt_sensor_proxy_state \<times> 'd half) \<times> 'e" where
  "zpt_sensor_control_preview_remote transport device requested central world =
     (let (proxy, half) = central;
          (ret, snapped) = zpt_cpi_validate (caps device) requested
      in if ret < 0 then (ret, None, central, world)
         else let (ret, applied, proxy, world) =
                    zpt_sensor_proxy_relay transport device SCW_OPCODE_SET_CPI
                      (case snapped of Some v \<Rightarrow> v | None \<Rightarrow> requested) proxy world
              in if ret < 0 then (ret, None, (proxy, half), world)
                 else let applied = (case applied of Some v \<Rightarrow> v | None \<Rightarrow> 0);
                          (ignored, half) = zpt_device_control_record (Some device) applied half
                      in (0, Some applied, (proxy, half), world))"

definition zpt_sensor_control_get_remote :: "'e split_transport \<Rightarrow> zpt_pointing_device \<Rightarrow>
    zpt_sensor_proxy_state \<times> 'd half \<Rightarrow> 'e \<Rightarrow> int \<times> u16 \<times> (zpt_sensor_proxy_state \<times> 'd half) \<times> 'e" where
  "zpt_sensor_control_get_remote transport device central world =
     (let (proxy, half) = central;
          (ret, value, proxy, world) = zpt_sensor_proxy_relay transport device SCW_OPCODE_GET_CPI 0 proxy world
      in if ret < 0 then (ret, zpt_device_current_cpi half (Some device), (proxy, half), world)
         else let value = (case value of Some v \<Rightarrow> v | None \<Rightarrow> 0);
                  (ignored, half) = zpt_device_control_record (Some device) value half
              in (0, value, (proxy, half), world))"

section \<open>A faulty link\<close>

text \<open>
  A transport to a peripheral that may lose the request or the response and deliver any events
  before and after the response.
\<close>

record link_fault =
  lost_request :: bool
  lost_response :: bool
  events_before :: "split_event list"
  events_after :: "split_event list"

definition faulty_link :: "link_fault \<Rightarrow> 'd half split_transport" where
  "faulty_link fault source param1 param2 half =
     (if lost_request fault then (0, events_before fault @ events_after fault, half)
      else let (response, half) = zpt_agent_serve \<lparr>ar_split_reg = 0, ar_param1 = param1, ar_param2 = param2\<rparr> half
           in (0, events_before fault @ (if lost_response fault then [] else [response]) @ events_after fault, half))"

text \<open>An event that is no response to the request numbered \<open>seq\<close>; answers to other requests are such.\<close>

definition foreign :: "u8 \<Rightarrow> split_event \<Rightarrow> bool" where
  "foreign seq e \<longleftrightarrow> \<not> (sp_type e = INPUT_EV_REL \<and> sp_code e = INPUT_REL_MISC \<and> sp_sync e \<and>
     (\<exists>status value. zpt_scw_decode (word_of_int (sp_value e)) = Some (status, seq, value)))"

lemma receive_foreign:
  assumes "\<forall>e \<in> set es. foreign seq e" "expected_seq (px_session proxy) \<in> {0, seq}"
  shows "receive_all es proxy = (False, proxy)"
  using assms
  by (induction es)
    (auto simp: foreign_def zpt_sensor_proxy_receive_def zpt_scw_session_offer_def split: option.splits prod.splits)

lemma receive_append:
  "receive_all (es @ fs) proxy =
     (let (a, proxy) = receive_all es proxy; (b, proxy) = receive_all fs proxy in (a \<or> b, proxy))"
  by (induction es arbitrary: proxy) (auto simp: Let_def split: prod.splits)

text \<open>The answer among foreign events completes the request; without it nothing does.\<close>

lemma receive_answer:
  assumes "\<forall>e \<in> set (pre @ post). foreign seq e" "expected_seq (px_session proxy) = seq" "seq \<noteq> 0"
    and "take_bit 4 seq = seq"
  shows "receive_all (pre @ \<lparr>sp_type = INPUT_EV_REL, sp_code = INPUT_REL_MISC,
      sp_value = sint (zpt_scw_encode status seq val), sp_sync = True\<rparr> # post) proxy =
    (True, proxy\<lparr>px_session := (px_session proxy)\<lparr>status_errno := status, scw_value := val, expected_seq := 0\<rparr>\<rparr>)"
proof -
  have pre: "receive_all pre proxy = (False, proxy)"
    using assms(1,2) by (intro receive_foreign) auto
  let ?p = "proxy\<lparr>px_session := (px_session proxy)\<lparr>status_errno := status, scw_value := val, expected_seq := 0\<rparr>\<rparr>"
  have post: "receive_all post ?p = (False, ?p)"
    using assms(1) by (intro receive_foreign [of _ seq]) auto
  show ?thesis
    using assms(2-4) response_round_trip [of status seq val]
    by (simp add: receive_append pre post zpt_sensor_proxy_receive_def zpt_scw_session_offer_def)
qed

lemma serve_set:
  assumes "table_ok half" "device_at half i d" "location d \<noteq> 0" "caps_ok (caps d)" "take_bit 4 seq = seq"
    and "zpt_device_control_serve (zpt_scw_param1 seq SCW_OPCODE_SET_CPI (dev_id d)) (ucast (v :: u16)) half = (frame, half')"
  shows "\<exists>status value. frame = zpt_scw_encode status seq value \<and> table_ok half' \<and> entries half' = entries half \<and>
    (status = 0 \<longrightarrow> supported (caps d) value \<and> current_cpi_store half' = (current_cpi_store half)[i := value])"
proof -
  obtain ret eff half1 where p: "zpt_device_control_preview (Some d) v half = (ret, eff, half1)"
    by (cases "zpt_device_control_preview (Some d) v half")
  have payload: "ucast (take_bit 16 (ucast v :: u32)) = v"
    by (rule bit_word_eqI) (auto simp: bit_simps bits_above)
  have neg: "(word_of_int (min (- ret) 255) :: u8) \<noteq> 0" if "ret < 0"
    using that by (simp add: word_uint_eq_iff uint_word_of_int_eq take_bit_int_eq_self)
  have half': "half' = half1" and frame: "frame = zpt_scw_encode (if ret < 0 then word_of_int (min (- ret) 255) else 0) seq
      (if ret < 0 then 0 else case eff of None \<Rightarrow> 0 | Some v \<Rightarrow> v)"
    using assms(3,5,6) p table_at_id [OF assms(1,2)] payload
    by (auto simp: zpt_device_control_serve_def request_round_trip)
  show ?thesis
  proof (cases "ret < 0")
    case True
    then show ?thesis using preview_effect [OF assms(1,2,4) p] neg by (auto simp: frame half')
  next
    case False
    then obtain w where "eff = Some w" "supported (caps d) w" "current_cpi_store half1 = (current_cpi_store half)[i := w]"
      using preview_effect [OF assms(1,2,4) p] by auto
    then show ?thesis using False preview_effect [OF assms(1,2,4) p] by (intro exI [of _ 0] exI [of _ w]) (simp add: frame half')
  qed
qed

lemma relay_set:
  assumes "table_ok half" "device_at half i d" "location d \<noteq> 0" "caps_ok (caps d)"
    and "dev_id c = dev_id d" "location c \<noteq> 0"
    and "\<forall>e \<in> set (events_before fault @ events_after fault). foreign (fst (zpt_scw_session_begin (px_session proxy))) e"
    and "zpt_sensor_proxy_relay (faulty_link fault) c SCW_OPCODE_SET_CPI v proxy half = (ret, value, proxy', half')"
  shows "ret \<le> 0 \<and> table_ok half' \<and> entries half' = entries half \<and>
    (ret = 0 \<longrightarrow> (\<exists>w. value = Some w \<and> supported (caps d) w \<and> current_cpi_store half' = (current_cpi_store half)[i := w]))"
proof -
  obtain seq session where b: "zpt_scw_session_begin (px_session proxy) = (seq, session)"
    by (cases "zpt_scw_session_begin (px_session proxy)")
  note seq = session_seq [OF b]
  have quiet: "\<forall>e \<in> set (events_before fault @ events_after fault). foreign seq e" using assms(7) b by simp
  obtain frame half1 where s: "zpt_device_control_serve (zpt_scw_param1 seq SCW_OPCODE_SET_CPI (dev_id d)) (ucast v) half =
    (frame, half1)" by (cases "zpt_device_control_serve (zpt_scw_param1 seq SCW_OPCODE_SET_CPI (dev_id d)) (ucast v) half")
  from serve_set [OF assms(1-4) seq(2) s] obtain status w where
    frame: "frame = zpt_scw_encode status seq w" and ok: "table_ok half1" "entries half1 = entries half" and
    set: "status = 0 \<Longrightarrow> supported (caps d) w \<and> current_cpi_store half1 = (current_cpi_store half)[i := w]"
    by blast
  let ?proxy = "proxy\<lparr>px_session := session\<rparr>"
  have silent: "receive_all (events_before fault @ events_after fault) ?proxy = (False, ?proxy)"
    using quiet seq(3) by (intro receive_foreign [of _ seq]) simp_all
  note answer = receive_answer [OF quiet, of ?proxy status w]
  have zero: "uint status = 0 \<longleftrightarrow> status = 0" by (simp add: word_uint_eq_iff)
  show ?thesis
    using assms(1,5,6,8) b s seq silent answer ok set zero
    by (auto simp: zpt_sensor_proxy_relay_def faulty_link_def zpt_agent_serve_def frame Let_def
        zpt_scw_session_result_def split: if_splits)
qed

text \<open>Both halves of a split keyboard agree on a resolution the central has set: whatever the
  link loses and whatever stale or foreign events it delivers, when a remote preview returns zero
  the value it reports is supported by the peripheral's device, it is that device's current
  resolution on the peripheral, and it is the resolution the central labels the device's motion
  with; when it fails, the central's table is unchanged.\<close>

theorem remote_preview_agrees:
  assumes "table_ok peripheral" "device_at peripheral i d" "location d \<noteq> 0" "caps_ok (caps d)" "\<not> supported (caps d) 0"
    and "table_ok central" "device_at central i c" "location c \<noteq> 0"
    and "\<forall>e \<in> set (events_before fault @ events_after fault). foreign (fst (zpt_scw_session_begin (px_session proxy))) e"
    and "zpt_sensor_control_preview_remote (faulty_link fault) c requested (proxy, central) peripheral =
      (ret, effective, (proxy', central'), peripheral')"
  shows "if ret = 0
    then \<exists>v. effective = Some v \<and> supported (caps d) v \<and> zpt_device_current_cpi peripheral' (Some d) = v \<and>
      zpt_device_current_cpi central' (Some c) = v
    else ret < 0 \<and> central' = central"
proof -
  have same: "dev_id c = dev_id d" using assms(1,2,6,7) by (auto simp: table_ok_def device_at_def)
  obtain w sn where val: "zpt_cpi_validate (caps c) requested = (w, sn)" by (cases "zpt_cpi_validate (caps c) requested")
  let ?v = "case sn of Some v \<Rightarrow> v | None \<Rightarrow> requested"
  obtain r res p1 h1 where rel: "zpt_sensor_proxy_relay (faulty_link fault) c SCW_OPCODE_SET_CPI ?v proxy peripheral =
    (r, res, p1, h1)" by (cases "zpt_sensor_proxy_relay (faulty_link fault) c SCW_OPCODE_SET_CPI ?v proxy peripheral")
  note set = relay_set [OF assms(1-4) same assms(8,9) rel]
  show ?thesis
  proof (cases "w < 0 \<or> r < 0")
    case True
    then show ?thesis using assms(10) val rel by (auto simp: zpt_sensor_control_preview_remote_def split: if_splits)
  next
    case False
    then have "r = 0" using set by simp
    then obtain v where v: "res = Some v" "supported (caps d) v" "current_cpi_store h1 = (current_cpi_store peripheral)[i := v]"
      using set by blast
    then have v0: "v \<noteq> 0" using assms(5) by blast
    have store: "zpt_device_control_record (Some c) v central = (0, record_at i v central)"
      using valid_iff_device_at [OF assms(6), of c i] assms(7) v0
      by (auto simp: record_at_def zpt_device_control_record_def device_at_def)
    have i: "i < length (entries central)" "entries central ! i = c" using assms(7) by (auto simp: device_at_def)
    have r: "ret = 0" "effective = Some v" "central' = record_at i v central" "peripheral' = h1"
      using assms(10) val rel False v(1) store \<open>r = 0\<close> by (auto simp: zpt_sensor_control_preview_remote_def)
    have "cpi_at (record_at i v central) i = v" using cpi_store.read_put [OF assms(6) i(1) v0] .
    then have "zpt_device_current_cpi central' (Some c) = v"
      using r(3) i assms(6) by (simp add: cpi_at_def record_at_cases v0)
    moreover have "zpt_device_current_cpi h1 (Some d) = v"
      using current_cpi_at [of h1 i d] set assms(1,2) v(3) by (simp add: device_at_def table_ok_def)
    ultimately show ?thesis using r v(2) by simp
  qed
qed

definition sample_proxy :: zpt_sensor_proxy_state where
  "sample_proxy = \<lparr>agent_name = Some ''agent'', px_session = zpt_scw_session_init, reachable = 0\<rparr>"

text \<open>A stale answer to request 4 arrives first.\<close>

definition sample_fault :: link_fault where
  "sample_fault = \<lparr>lost_request = False, lost_response = False,
     events_before = [\<lparr>sp_type = INPUT_EV_REL, sp_code = INPUT_REL_MISC, sp_value = sint (zpt_scw_encode 0 4 900), sp_sync = True\<rparr>],
     events_after = []\<rparr>"

lemma remote_preview_agrees_witness:
  "let (ret, effective, (proxy', central'), peripheral') =
         zpt_sensor_control_preview_remote (faulty_link sample_fault) (sample_device None) 1240
           (sample_proxy, sample_half None) (sample_half (Some 7))
   in ret = 0 \<and> zpt_device_current_cpi central' (Some (sample_device None)) =
        zpt_device_current_cpi peripheral' (Some (sample_device (Some 7)))"
proof -
  let ?run = "zpt_sensor_control_preview_remote (faulty_link sample_fault) (sample_device None) 1240
      (sample_proxy, sample_half None) (sample_half (Some 7))"
  obtain ret effective proxy' central' peripheral' where
    r: "?run = (ret, effective, (proxy', central'), peripheral')" by (metis prod.exhaust)
  have stale: "foreign (fst (zpt_scw_session_begin (px_session sample_proxy))) e"
    if "e \<in> set (events_before sample_fault @ events_after sample_fault)" for e
    using that response_round_trip [of 0 4 900]
    by (auto simp: foreign_def sample_fault_def sample_proxy_def zpt_scw_session_init_def zpt_scw_session_begin_def)
  have d: "location (sample_device s) \<noteq> 0" "caps_ok (caps (sample_device s))" "\<not> supported (caps (sample_device s)) 0" for s
    using sample_caps_ok by (simp_all add: sample_device_def) (simp add: sample_caps_def supported_def)
  have "fst ?run = 0" by code_simp
  with remote_preview_agrees [OF sample_half_ok [of "Some 7"] d(1-3) sample_half_ok [of None] d(1) _ r] stale
  show ?thesis by (auto simp: r)
qed

end
