(* ===== verification/Cursor_Acceleration.thy ===== *)
theory Cursor_Acceleration
  imports Stage_Program
begin

text \<open>
  The cursor acceleration stage (\<open>stage/cursor_acceleration.h\<close>,
  \<open>stage/cursor_acceleration/cursor_acceleration.c\<close>): a smoothed ball speed, a sensitivity read
  from a curve through eight control points, and the scaling of each frame by it.

  \<open>uint64_t\<close> and \<open>int64_t\<close> values are \<open>int\<close> with the wrap-around written out where an expression
  could reach it; the two loops of the integer square root work on \<open>nat\<close>, their values staying
  below \<open>2 ^ 64\<close> (\<open>sqrt_loop_sum_fits\<close>).
\<close>

section \<open>The model\<close>

abbreviation POINTS :: nat where "POINTS \<equiv> 8"
abbreviation ACCELERATION_AXIS_LIMIT :: int where "ACCELERATION_AXIS_LIMIT \<equiv> 2147483647"
abbreviation ACCELERATION_SPEED_LIMIT :: int where "ACCELERATION_SPEED_LIMIT \<equiv> 65535 * FIXED_ONE"
abbreviation (input) ACCELERATION_RESTART_MS :: u32 where "ACCELERATION_RESTART_MS \<equiv> 40"
abbreviation (input) ACCELERATION_RESTART_US :: u32 where "ACCELERATION_RESTART_US \<equiv> 40000"
abbreviation (input) ACCELERATION_MIN_INTERVAL_US :: u32 where "ACCELERATION_MIN_INTERVAL_US \<equiv> 1000"
abbreviation (input) ACCELERATION_MAX_PERCENT :: u16 where "ACCELERATION_MAX_PERCENT \<equiv> 1000"
abbreviation DECAY_FRACTION_BITS :: nat where "DECAY_FRACTION_BITS \<equiv> 24"
abbreviation DECAY_ONE :: int where "DECAY_ONE \<equiv> 16777216"

record zpt_cursor_acceleration_config =
  curve_speed_mm_per_s :: "u16 list"
  curve_percent :: "u16 list"
  speed_rise_ms :: u16
  speed_fall_ms :: u16

record zpt_cursor_acceleration_state =
  speed :: int
  last_frame_ms :: u32
  have_last_frame :: bool

text \<open>The two loops of \<open>integer_sqrt\<close>: find the highest even bit, then build the root.\<close>

function skip_high_bits :: "nat \<Rightarrow> nat \<Rightarrow> nat" where
  "skip_high_bits v b = (if b > v then skip_high_bits v (drop_bit 2 b) else b)"
  by pat_completeness auto
termination
  by (relation "measure snd") (auto simp: drop_bit_eq_div)

function sqrt_loop :: "nat \<Rightarrow> nat \<Rightarrow> nat \<Rightarrow> nat" where
  "sqrt_loop v root b =
     (if b \<noteq> 0 then
        if v \<ge> root + b then sqrt_loop (v - (root + b)) (drop_bit 1 root + b) (drop_bit 2 b)
        else sqrt_loop v (drop_bit 1 root) (drop_bit 2 b)
      else root)"
  by pat_completeness auto
termination
  by (relation "measure (\<lambda>(v, root, b). b)") (auto simp: drop_bit_eq_div)

declare skip_high_bits.simps [simp del] sqrt_loop.simps [simp del]

definition integer_sqrt :: "int \<Rightarrow> int" where
  "integer_sqrt v = int (sqrt_loop (nat v) 0 (skip_high_bits (nat v) (2 ^ 62)))"

definition euclidean_magnitude :: "int \<Rightarrow> int \<Rightarrow> int" where
  "euclidean_magnitude x y =
     (let abs_x = zpt_fixed_magnitude x; abs_y = zpt_fixed_magnitude y;
          abs_x = (if abs_x > ACCELERATION_AXIS_LIMIT then ACCELERATION_AXIS_LIMIT else abs_x);
          abs_y = (if abs_y > ACCELERATION_AXIS_LIMIT then ACCELERATION_AXIS_LIMIT else abs_y)
      in integer_sqrt (u64 (abs_x * abs_x + abs_y * abs_y)))"

definition percent_to_ratio :: "int \<Rightarrow> int" where
  "percent_to_ratio percent_fixed = (percent_fixed + 50) sdiv 100"

definition zpt_cursor_acceleration_validate :: "zpt_cursor_acceleration_config option \<Rightarrow> int" where
  "zpt_cursor_acceleration_validate config =
     (case config of
        None \<Rightarrow> - EINVAL
      | Some c \<Rightarrow>
          if speed_rise_ms c = 0 \<or> speed_fall_ms c = 0 then - EINVAL
          else if list_ex (\<lambda>i. curve_percent c ! i = 0 \<or> curve_percent c ! i > ACCELERATION_MAX_PERCENT \<or>
                 i > 0 \<and> curve_speed_mm_per_s c ! i \<le> curve_speed_mm_per_s c ! (i - 1)) [0..<POINTS]
          then - EINVAL
          else 0)"

definition point_tangent :: "zpt_cursor_acceleration_config \<Rightarrow> nat \<Rightarrow> int" where
  "point_tangent c i =
     (if i = 0 \<or> i + 1 \<ge> POINTS then 0
      else
        let speeds = curve_speed_mm_per_s c; percents = curve_percent c;
            left_span = uint (speeds ! i) - uint (speeds ! (i - 1));
            right_span = uint (speeds ! (i + 1)) - uint (speeds ! i);
            left_rise = uint (percents ! i) - uint (percents ! (i - 1));
            right_rise = uint (percents ! (i + 1)) - uint (percents ! i)
        in if left_rise = 0 \<or> right_rise = 0 \<or> (left_rise < 0) \<noteq> (right_rise < 0) then 0
           else
             let w1 = 2 * right_span + left_span;
                 w2 = right_span + 2 * left_span;
                 numerator = i64 ((w1 + w2) * left_rise * right_rise * FIXED_ONE);
                 denominator = i64 (w1 * left_span * right_rise + w2 * right_span * left_rise)
             in numerator sdiv denominator)"

text \<open>
  The search loop of \<open>zpt_cursor_acceleration_sensitivity\<close>. It runs only for a speed below the
  last point, so the C loop stops inside the array; the bound says the same here.
\<close>

function find_segment :: "u16 list \<Rightarrow> int \<Rightarrow> nat \<Rightarrow> nat" where
  "find_segment speeds v i =
     (if i + 1 < length speeds \<and> v \<ge> uint (speeds ! (i + 1)) * FIXED_ONE
      then find_segment speeds v (i + 1) else i)"
  by pat_completeness auto
termination
  by (relation "measure (\<lambda>(speeds, v, i). length speeds - i)") auto

declare find_segment.simps [simp del]

definition zpt_cursor_acceleration_sensitivity :: "zpt_cursor_acceleration_config \<Rightarrow> int \<Rightarrow> int" where
  "zpt_cursor_acceleration_sensitivity c v =
     (let speeds = curve_speed_mm_per_s c; percents = curve_percent c in
      if v \<le> uint (speeds ! 0) * FIXED_ONE then percent_to_ratio (uint (percents ! 0) * FIXED_ONE)
      else if v \<ge> uint (speeds ! (POINTS - 1)) * FIXED_ONE
      then percent_to_ratio (uint (percents ! (POINTS - 1)) * FIXED_ONE)
      else
        let i = find_segment speeds v 0;
            span = uint (speeds ! (i + 1)) - uint (speeds ! i);
            t = (v - uint (speeds ! i) * FIXED_ONE) sdiv span;
            t2 = drop_bit FIXED_FRACTION_BITS (i64 (t * t));
            t3 = drop_bit FIXED_FRACTION_BITS (i64 (t2 * t));
            start = uint (percents ! i) * FIXED_ONE;
            finish = uint (percents ! (i + 1)) * FIXED_ONE;
            start_tangent = i64 (point_tangent c i * span);
            end_tangent = i64 (point_tangent c (i + 1) * span);
            val = i64 (start + i64 ((finish - start) * (3 * t2 - 2 * t3) +
                start_tangent * (t3 - 2 * t2 + t) + end_tangent * (t3 - t2)) sdiv FIXED_ONE);
            low = (if start < finish then start else finish);
            high = (if start < finish then finish else start);
            val = (if val < low then low else if val > high then high else val)
        in percent_to_ratio val)"

definition decay :: "u32 \<Rightarrow> u16 \<Rightarrow> int" where
  "decay elapsed_us time_constant_ms =
     (let y = (uint elapsed_us * 2 ^ (DECAY_FRACTION_BITS - 4)) div (uint time_constant_ms * 1000) in
      if y \<ge> DECAY_ONE div 2 then 0
      else
        let series = u64 (DECAY_ONE - y div 4);
            series = u64 (DECAY_ONE - drop_bit DECAY_FRACTION_BITS (u64 (y * series)) div 3);
            series = u64 (DECAY_ONE - drop_bit DECAY_FRACTION_BITS (u64 (y * series)) div 2);
            series = u64 (DECAY_ONE - drop_bit DECAY_FRACTION_BITS (u64 (y * series)));
            series = ((\<lambda>series. drop_bit DECAY_FRACTION_BITS (u64 (series * series))) ^^ 4) series
        in drop_bit (DECAY_FRACTION_BITS - 16) (u64 (series + 2 ^ 7)))"

definition frame_interval_us :: "zpt_cursor_acceleration_state \<Rightarrow> zpt_signal_metadata \<Rightarrow> u32" where
  "frame_interval_us st frame =
     (let interval_us = ACCELERATION_RESTART_US in
      if flags frame AND FLAG_SAMPLE_SPAN_CLIPPED \<noteq> 0 then interval_us
      else
        let interval_us =
              (if sample_span_us frame \<noteq> 0 then sample_span_us frame
               else if have_last_frame st then
                 let elapsed_ms = observed_at_ms frame - last_frame_ms st
                 in if elapsed_ms < ACCELERATION_RESTART_MS then elapsed_ms * 1000 else interval_us
               else interval_us)
        in if interval_us < ACCELERATION_MIN_INTERVAL_US then ACCELERATION_MIN_INTERVAL_US
           else if interval_us > ACCELERATION_RESTART_US then ACCELERATION_RESTART_US
           else interval_us)"

text \<open>The speed of one frame on its own, before smoothing.\<close>

definition instant_speed :: "int \<Rightarrow> int \<Rightarrow> u32 \<Rightarrow> int" where
  "instant_speed x y interval_us =
     (let instant = u64 (euclidean_magnitude x y * 1000000) div uint interval_us
      in if instant > ACCELERATION_SPEED_LIMIT then ACCELERATION_SPEED_LIMIT else instant)"

definition zpt_cursor_acceleration_observe ::
  "zpt_cursor_acceleration_config \<Rightarrow> int \<Rightarrow> int \<Rightarrow> zpt_signal_metadata \<Rightarrow>
   zpt_cursor_acceleration_state \<Rightarrow> int \<times> zpt_cursor_acceleration_state" where
  "zpt_cursor_acceleration_observe c x y frame st =
     (let interval_us = frame_interval_us st frame;
          instant = instant_speed x y interval_us;
          estimate =
            (if interval_us \<ge> ACCELERATION_RESTART_US then instant
             else
               let difference = i64 (instant - speed st);
                   time_constant = (if difference > 0 then speed_rise_ms c else speed_fall_ms c);
                   weight = FIXED_ONE - decay interval_us time_constant
               in i64 (speed st + i64 (difference * weight) sdiv FIXED_ONE))
      in (estimate, \<lparr>speed = estimate, last_frame_ms = observed_at_ms frame, have_last_frame = True\<rparr>))"

text \<open>The scaled value and whether it was clipped; \<open>*clipped\<close> is only ever set.\<close>

definition scale :: "int \<Rightarrow> int \<Rightarrow> int \<times> bool" where
  "scale v factor =
     (let magnitude = zpt_fixed_magnitude v; multiplier = u64 factor in
      if magnitude \<noteq> 0 \<and> magnitude > (UINT64_MAX - FIXED_ONE div 2) div multiplier
      then (if v < 0 then INT64_MIN else INT64_MAX, True)
      else
        let scaled = drop_bit FIXED_FRACTION_BITS (u64 (magnitude * multiplier + FIXED_ONE div 2));
            clipped = scaled > INT64_MAX;
            scaled = (if clipped then INT64_MAX else scaled)
        in (if v < 0 then - scaled else scaled, clipped))"

definition cursor_acceleration_stage_activate ::
  "(zpt_cursor_acceleration_config, zpt_cursor_acceleration_state) zpt_stage_activate" where
  "cursor_acceleration_stage_activate config st reason =
     (if config = None \<or> st = None then (- EINVAL, st)
      else (zpt_cursor_acceleration_validate config, st))"

definition cursor_acceleration_stage_reset ::
  "(zpt_cursor_acceleration_config, zpt_cursor_acceleration_state) zpt_stage_reset" where
  "cursor_acceleration_stage_reset config st reason =
     map_option (\<lambda>_. \<lparr>speed = 0, last_frame_ms = 0, have_last_frame = False\<rparr>) st"

definition cursor_acceleration_stage_process ::
  "(zpt_cursor_acceleration_config, zpt_cursor_acceleration_state) zpt_stage_process" where
  "cursor_acceleration_stage_process config st now s =
     (case (config, st) of
        (Some c, Some state) \<Rightarrow>
          if kind s \<noteq> SIGNAL_NORMALIZED_MOTION then Return (- EINVAL) st
          else
            let (x, y) = fixed_vector s;
                (estimate, state) = zpt_cursor_acceleration_observe c x y (metadata s) state;
                sensitivity = zpt_cursor_acceleration_sensitivity c estimate;
                (out_x, clipped_x) = scale x sensitivity;
                (out_y, clipped_y) = scale y sensitivity;
                out = s\<lparr>data := FixedVector out_x out_y,
                  annotations := (annotations s)\<lparr>speed_per_second := estimate\<rparr>\<rparr>
            in emit_return (if clipped_x \<or> clipped_y then add_flag FLAG_CLIPPED out else out) (Some state)
      | _ \<Rightarrow> Return (- EINVAL) st)"

definition zpt_cursor_acceleration_stage_api ::
  "(zpt_cursor_acceleration_config, zpt_cursor_acceleration_state) zpt_stage_api" where
  "zpt_cursor_acceleration_stage_api = \<lparr>strategy_id = Some ''cursor-acceleration'',
     accepted_kinds = ZPT_SIGNAL_KIND_MASK SIGNAL_NORMALIZED_MOTION,
     output_kind = SIGNAL_NORMALIZED_MOTION, api_flags = STAGE_STATEFUL,
     api_process = Some cursor_acceleration_stage_process, api_flush = None,
     api_activate = Some cursor_acceleration_stage_activate, api_deactivate = None,
     api_reset = Some cursor_acceleration_stage_reset\<rparr>"

section \<open>The integer square root\<close>

text \<open>
  With \<open>n\<close> even bits left to try, the loop holds in \<open>root\<close> the root found so far times
  \<open>4 ^ n\<close>, and in its value what the square of that root leaves of the input.
\<close>

lemma sqrt_loop_root:
  assumes "v = w + q * q * 4 ^ n" "v < (q + 1) * (q + 1) * 4 ^ n"
  shows "\<exists>r. sqrt_loop w (q * 4 ^ n) (if n = 0 then 0 else 4 ^ (n - 1)) = r \<and>
    r * r \<le> v \<and> v < (r + 1) * (r + 1)"
  using assms
proof (induction n arbitrary: w q)
  case 0
  then show ?case by (simp add: sqrt_loop.simps)
next
  case (Suc n)
  have bits: "drop_bit 2 (4 ^ n :: nat) = (if n = 0 then 0 else 4 ^ (n - 1))"
    by (cases n) (simp_all add: drop_bit_eq_div)
  have half: "drop_bit 1 (q * 4 ^ Suc n) = (2 * q) * 4 ^ n"
    by (simp add: drop_bit_eq_div)
  have guess: "q * 4 ^ Suc n + 4 ^ n = (4 * q + 1) * 4 ^ n" by (simp add: algebra_simps)
  show ?case
  proof (cases "w \<ge> q * 4 ^ Suc n + 4 ^ n")
    case True
    then have "v = (w - (q * 4 ^ Suc n + 4 ^ n)) + (2 * q + 1) * (2 * q + 1) * 4 ^ n"
      using Suc.prems(1) by (simp add: algebra_simps)
    moreover have "v < (2 * q + 1 + 1) * (2 * q + 1 + 1) * 4 ^ n"
      using Suc.prems(2) by (simp add: algebra_simps)
    ultimately show ?thesis
      using Suc.IH [of "w - (q * 4 ^ Suc n + 4 ^ n)" "2 * q + 1"] True half bits
      by (subst sqrt_loop.simps) (simp add: algebra_simps)
  next
    case False
    have "v = w + (2 * q) * (2 * q) * 4 ^ n"
      using Suc.prems(1) by (simp add: algebra_simps)
    moreover have "v < (2 * q + 1) * (2 * q + 1) * 4 ^ n"
      using False Suc.prems(1) by (simp add: algebra_simps)
    ultimately show ?thesis
      using Suc.IH [of w "2 * q"] False half bits
      by (subst sqrt_loop.simps) (simp add: algebra_simps)
  qed
qed

lemma skip_high_bits_root:
  "v < 4 ^ Suc k \<Longrightarrow> \<exists>n. skip_high_bits v (4 ^ k) = (if n = 0 then 0 else 4 ^ (n - 1)) \<and> v < 4 ^ n"
proof (induction k)
  case 0
  have "skip_high_bits 0 (Suc 0) = 0"
    by (subst skip_high_bits.simps, simp add: drop_bit_eq_div, subst skip_high_bits.simps, simp)
  moreover have "skip_high_bits v (Suc 0) = Suc 0" if "v \<noteq> 0"
    using that by (subst skip_high_bits.simps) simp
  ultimately show ?case
    using 0 by (intro exI [of _ "if v = 0 then 0 else Suc 0"]) simp
next
  case (Suc k)
  show ?case
  proof (cases "4 ^ Suc k > v")
    case True
    then have "skip_high_bits v (4 ^ Suc k) = skip_high_bits v (4 ^ k)"
      by (subst skip_high_bits.simps) (simp add: drop_bit_eq_div)
    with Suc.IH True show ?thesis by simp
  next
    case False
    then have "skip_high_bits v (4 ^ Suc k) = 4 ^ Suc k" by (subst skip_high_bits.simps) simp
    with Suc.prems show ?thesis by (intro exI [of _ "Suc (Suc k)"]) simp
  qed
qed

lemma integer_sqrt_floor:
  assumes "in_u64 v"
  shows "0 \<le> integer_sqrt v \<and> integer_sqrt v * integer_sqrt v \<le> v \<and>
    v < (integer_sqrt v + 1) * (integer_sqrt v + 1)"
proof -
  have "nat v < 4 ^ Suc 31" using assms by (simp add: in_u64_def nat_less_iff)
  moreover have "(2 :: nat) ^ 62 = 4 ^ 31" by simp
  ultimately obtain n where
    n: "skip_high_bits (nat v) (2 ^ 62) = (if n = 0 then 0 else 4 ^ (n - 1))" "nat v < 4 ^ n"
    using skip_high_bits_root [of "nat v" 31] by metis
  obtain r where r: "integer_sqrt v = int r" "r * r \<le> nat v" "nat v < (r + 1) * (r + 1)"
    using sqrt_loop_root [of "nat v" "nat v" 0 n] n by (auto simp: integer_sqrt_def)
  from r(2,3) assms have "int (r * r) \<le> v" "v < int ((r + 1) * (r + 1))"
    by (simp_all add: in_u64_def le_nat_iff nat_less_iff flip: of_nat_le_iff)
  then show ?thesis by (simp add: r(1) algebra_simps)
qed

text \<open>The sum the loop forms in every round it reaches stays below \<open>2 ^ 64\<close>.\<close>

lemma sqrt_loop_sum_fits:
  fixes q v n :: nat
  assumes "q * q * 4 ^ Suc n \<le> v" "v < 2 ^ 64" "n \<le> 31"
  shows "q * 4 ^ Suc n + 4 ^ n < 2 ^ 64"
proof (cases "q = 0")
  case True
  have "(4 :: nat) ^ n \<le> 4 ^ 31" using assms(3) by (intro power_increasing) simp_all
  then show ?thesis using True by simp
next
  case False
  have powers: "(2 :: nat) ^ 64 = 4 ^ 32" by simp
  have "4 ^ Suc n \<le> q * q * 4 ^ Suc n" using False by simp
  from le_less_trans [OF le_trans [OF this assms(1)] assms(2)]
  have "(4 :: nat) ^ Suc n < 4 ^ 32" unfolding powers .
  then have n: "Suc n \<le> 31" by (subst (asm) power_strict_increasing_iff) simp_all
  have square: "(q * 2 ^ Suc n) ^ 2 = q * q * 4 ^ Suc n"
    by (simp add: power2_eq_square power_mult_distrib flip: power_mult_distrib [of 2 2])
  have "(q * 2 ^ Suc n) ^ 2 < (2 ^ 32) ^ 2" unfolding square using assms(1,2) by simp
  then have less: "q * 2 ^ Suc n < 2 ^ 32" by (rule power_less_imp_less_base) simp
  have le: "(2 :: nat) ^ Suc n \<le> 2 ^ 31" using n by (intro power_increasing) simp_all
  have "q * 2 ^ Suc n * 2 ^ Suc n < 2 ^ 32 * 2 ^ 31"
    by (rule mult_less_le_imp_less [OF less le]) simp_all
  moreover have "(4 :: nat) ^ n \<le> 4 ^ 31" using n by (intro power_increasing) simp_all
  moreover have "q * 2 ^ Suc n * 2 ^ Suc n = q * 4 ^ Suc n" by (simp add: mult.assoc flip: power_mult_distrib)
  moreover have "(2 :: nat) ^ 32 * 2 ^ 31 + 4 ^ 31 \<le> 2 ^ 64" by simp
  ultimately show ?thesis by linarith
qed

section \<open>The speed estimate\<close>

lemma frame_interval_bounds: "1000 \<le> uint (frame_interval_us st f)" "uint (frame_interval_us st f) \<le> 40000"
  by (auto simp: frame_interval_us_def Let_def word_less_def)

lemma div_le_of_le_mult: "0 \<le> p \<Longrightarrow> p \<le> d * k \<Longrightarrow> 0 < k \<Longrightarrow> 0 \<le> p div k \<and> p div k \<le> d"
  for p d k :: int
  using zdiv_mono1 [of p "d * k" k] by (simp add: pos_imp_zdiv_nonneg_iff)

lemma euclidean_magnitude_min:
  "euclidean_magnitude x y =
     (let a = min ACCELERATION_AXIS_LIMIT (zpt_fixed_magnitude x);
          b = min ACCELERATION_AXIS_LIMIT (zpt_fixed_magnitude y)
      in integer_sqrt (u64 (a * a + b * b)))"
proof -
  have "(if m > ACCELERATION_AXIS_LIMIT then ACCELERATION_AXIS_LIMIT else m) = min ACCELERATION_AXIS_LIMIT m"
    for m by simp
  then show ?thesis unfolding euclidean_magnitude_def Let_def by (simp only:)
qed

lemma magnitude_bounds:
  "0 \<le> euclidean_magnitude x y" "euclidean_magnitude x y < 4294967296"
proof -
  obtain a where a: "a = min ACCELERATION_AXIS_LIMIT (zpt_fixed_magnitude x)" by simp
  obtain b where b: "b = min ACCELERATION_AXIS_LIMIT (zpt_fixed_magnitude y)" by simp
  have range: "0 \<le> a" "a \<le> 2147483647" "0 \<le> b" "b \<le> 2147483647"
    by (auto simp: a b zpt_fixed_magnitude_def u64_def)
  have "a * a \<le> 2147483647 * 2147483647" "b * b \<le> 2147483647 * 2147483647"
    using range by (intro mult_mono; simp)+
  moreover have "0 \<le> a * a + b * b" by simp
  ultimately have sum: "a * a + b * b < 9223372036854775808" "in_u64 (a * a + b * b)"
    by (simp_all add: in_u64_def)
  have m: "euclidean_magnitude x y = integer_sqrt (a * a + b * b)"
    using sum(2) unfolding euclidean_magnitude_min Let_def a [symmetric] b [symmetric] by simp
  note root = integer_sqrt_floor [OF sum(2), folded m]
  then show "0 \<le> euclidean_magnitude x y" by simp
  show "euclidean_magnitude x y < 4294967296"
  proof (rule ccontr)
    assume "\<not> ?thesis"
    then have "4294967296 * 4294967296 \<le> euclidean_magnitude x y * euclidean_magnitude x y"
      by (intro mult_mono) auto
    with root sum(1) show False by simp
  qed
qed

lemma magnitude_exact:
  fixes x y :: int
  assumes "\<bar>x\<bar> \<le> ACCELERATION_AXIS_LIMIT" "\<bar>y\<bar> \<le> ACCELERATION_AXIS_LIMIT"
  shows "euclidean_magnitude x y * euclidean_magnitude x y \<le> x * x + y * y \<and>
    x * x + y * y < (euclidean_magnitude x y + 1) * (euclidean_magnitude x y + 1)"
proof -
  have "\<bar>x\<bar> * \<bar>x\<bar> \<le> 2147483647 * 2147483647" "\<bar>y\<bar> * \<bar>y\<bar> \<le> 2147483647 * 2147483647"
    using assms by (intro mult_mono; simp)+
  then have "in_u64 (x * x + y * y)" by (simp add: in_u64_def)
  moreover have "euclidean_magnitude x y = integer_sqrt (x * x + y * y)"
  proof -
    have "zpt_fixed_magnitude x = \<bar>x\<bar>" "zpt_fixed_magnitude y = \<bar>y\<bar>"
      using assms by (auto intro!: magnitude_abs simp: in_i64_def)
    then show ?thesis using assms calculation by (simp add: euclidean_magnitude_min Let_def min_absorb2)
  qed
  ultimately show ?thesis using integer_sqrt_floor by simp
qed

lemma instant_speed_exact:
  assumes "1000 \<le> uint iv"
  shows "instant_speed x y iv = min ACCELERATION_SPEED_LIMIT (euclidean_magnitude x y * 1000000 div uint iv)"
proof -
  have "in_u64 (euclidean_magnitude x y * 1000000)"
    using magnitude_bounds [of x y] by (simp add: in_u64_def)
  then show ?thesis by (simp add: instant_speed_def Let_def min_def)
qed

lemma instant_speed_bounds:
  "0 \<le> instant_speed x y iv" "instant_speed x y iv \<le> ACCELERATION_SPEED_LIMIT"
  by (auto simp: instant_speed_def Let_def pos_imp_zdiv_nonneg_iff u64_def div_int_pos_iff)

text \<open>Every step of the decay series stays between zero and one, so the weight does too.\<close>

lemma series_step:
  assumes "0 \<le> y" "y \<le> DECAY_ONE" "0 \<le> s" "s \<le> DECAY_ONE"
  shows "0 \<le> drop_bit DECAY_FRACTION_BITS (u64 (y * s)) \<and> drop_bit DECAY_FRACTION_BITS (u64 (y * s)) \<le> y"
proof -
  have "y * s \<le> y * DECAY_ONE" "0 \<le> y * s" using assms by (auto intro: mult_left_mono)
  then show ?thesis
    using assms div_le_of_le_mult [of "y * s" y DECAY_ONE] by (simp add: in_u64_def drop_bit_eq_div)
qed

lemma square_step:
  assumes "0 \<le> s \<and> s \<le> DECAY_ONE"
  shows "0 \<le> (drop_bit DECAY_FRACTION_BITS (u64 (s * s))) \<and> drop_bit DECAY_FRACTION_BITS (u64 (s * s)) \<le> DECAY_ONE"
  using series_step [of s s] assms by auto

lemma squares_range:
  assumes "0 \<le> s \<and> s \<le> DECAY_ONE"
  shows "0 \<le> ((\<lambda>s. drop_bit DECAY_FRACTION_BITS (u64 (s * s))) ^^ n) s \<and>
    ((\<lambda>s. drop_bit DECAY_FRACTION_BITS (u64 (s * s))) ^^ n) s \<le> DECAY_ONE"
proof (induction n)
  case 0
  then show ?case using assms by simp
next
  case (Suc n)
  then show ?case unfolding funpow.simps comp_apply by (rule square_step)
qed

lemma taylor_step:
  assumes "0 \<le> y" "y \<le> DECAY_ONE" "0 \<le> s \<and> s \<le> DECAY_ONE" "1 \<le> n"
  shows "0 \<le> u64 (DECAY_ONE - drop_bit DECAY_FRACTION_BITS (u64 (y * s)) div n) \<and>
    u64 (DECAY_ONE - drop_bit DECAY_FRACTION_BITS (u64 (y * s)) div n) \<le> DECAY_ONE"
proof -
  obtain d where d: "d = drop_bit DECAY_FRACTION_BITS (u64 (y * s))" "0 \<le> d" "d \<le> DECAY_ONE"
    using series_step [of y s] assms by auto
  have "0 \<le> d div n" "d div n \<le> d"
    using d assms(4) zdiv_mono2 [of d 1 n] by (simp_all add: pos_imp_zdiv_nonneg_iff)
  then have range: "0 \<le> DECAY_ONE - d div n \<and> DECAY_ONE - d div n \<le> DECAY_ONE" using d by simp
  then have "u64 (DECAY_ONE - d div n) = DECAY_ONE - d div n" by (intro u64_id) (simp add: in_u64_def)
  with range show ?thesis unfolding d(1) [symmetric] by simp
qed

lemma decay_bounds: "0 \<le> decay e c \<and> decay e c \<le> FIXED_ONE"
proof -
  obtain y where y: "y = (uint e * 2 ^ (DECAY_FRACTION_BITS - 4)) div (uint c * 1000)" by simp
  have pos: "0 \<le> y" unfolding y by (simp add: div_int_pos_iff)
  show ?thesis
  proof (cases "y \<ge> DECAY_ONE div 2")
    case True
    then show ?thesis by (simp add: decay_def y)
  next
    case False
    note steps = taylor_step [OF pos]
    have small: "y \<le> DECAY_ONE" using False by simp
    have "0 \<le> y div 4" "y div 4 \<le> DECAY_ONE" using pos small by linarith+
    then have "in_u64 (DECAY_ONE - y div 4)" "0 \<le> DECAY_ONE - y div 4 \<and> DECAY_ONE - y div 4 \<le> DECAY_ONE"
      by (simp_all add: in_u64_def)
    then obtain s1 where s1: "s1 = u64 (DECAY_ONE - y div 4)" "0 \<le> s1 \<and> s1 \<le> DECAY_ONE"
      by simp
    obtain s2 where s2: "s2 = u64 (DECAY_ONE - drop_bit DECAY_FRACTION_BITS (u64 (y * s1)) div 3)"
      "0 \<le> s2 \<and> s2 \<le> DECAY_ONE" using steps [OF small s1(2), of 3] by simp
    obtain s3 where s3: "s3 = u64 (DECAY_ONE - drop_bit DECAY_FRACTION_BITS (u64 (y * s2)) div 2)"
      "0 \<le> s3 \<and> s3 \<le> DECAY_ONE" using steps [OF small s2(2), of 2] by simp
    obtain s4 where s4: "s4 = u64 (DECAY_ONE - drop_bit DECAY_FRACTION_BITS (u64 (y * s3)))"
      "0 \<le> s4 \<and> s4 \<le> DECAY_ONE" using steps [OF small s3(2), of 1] by simp
    obtain s5 where s5: "s5 = ((\<lambda>s. drop_bit DECAY_FRACTION_BITS (u64 (s * s))) ^^ 4) s4" by simp
    have "0 \<le> s5 \<and> s5 \<le> DECAY_ONE" unfolding s5 by (rule squares_range [OF s4(2)])
    then have s5_range: "0 \<le> s5" "s5 \<le> DECAY_ONE" by (auto simp: s5)
    have "decay e c = drop_bit (DECAY_FRACTION_BITS - 16) (u64 (s5 + 2 ^ 7))"
      using False unfolding decay_def Let_def s5 s4(1) s3(1) s2(1) s1(1) y by (simp only: if_False)
    then show ?thesis
      using s5_range zdiv_mono1 [of "s5 + 128" 16777344 256]
      by (simp add: in_u64_def drop_bit_eq_div pos_imp_zdiv_nonneg_iff)
  qed
qed

lemma weighted_step:
  fixes d w :: int
  assumes "0 \<le> w" "w \<le> 65536"
  shows "min 0 d \<le> (d * w) sdiv 65536 \<and> (d * w) sdiv 65536 \<le> max 0 d"
proof (cases "0 \<le> d")
  case True
  then have "d * w \<le> d * 65536" "0 \<le> d * w" using assms by (auto intro: mult_left_mono)
  then show ?thesis using True div_le_of_le_mult [of "d * w" d 65536] by (simp add: sdiv_nonneg)
next
  case False
  then have "- d * w \<le> - d * 65536" "0 \<le> - d * w" using assms by (auto intro: mult_left_mono mult_nonpos_nonneg)
  then show ?thesis
    using False div_le_of_le_mult [of "- d * w" "- d" 65536] by (auto simp: sdiv_pos_cases)
qed

lemma observe_cases:
  fixes f :: zpt_signal_metadata
  assumes "0 \<le> speed st" "speed st \<le> ACCELERATION_SPEED_LIMIT"
  defines "iv \<equiv> frame_interval_us st f"
  shows "\<exists>e. zpt_cursor_acceleration_observe c x y f st =
      (e, \<lparr>speed = e, last_frame_ms = observed_at_ms f, have_last_frame = True\<rparr>) \<and>
    min (speed st) (instant_speed x y iv) \<le> e \<and> e \<le> max (speed st) (instant_speed x y iv) \<and>
    (iv = 40000 \<longrightarrow> e = instant_speed x y iv)"
proof -
  obtain v where v: "v = instant_speed x y iv" "0 \<le> v" "v \<le> ACCELERATION_SPEED_LIMIT"
    using instant_speed_bounds by blast
  obtain w where w: "w = FIXED_ONE - decay iv (if v - speed st > 0 then speed_rise_ms c else speed_fall_ms c)"
      "0 \<le> w" "w \<le> 65536"
    using decay_bounds by simp
  have diff: "\<bar>v - speed st\<bar> \<le> ACCELERATION_SPEED_LIMIT" using v assms(1,2) by auto
  then have "\<bar>v - speed st\<bar> * w \<le> ACCELERATION_SPEED_LIMIT * 65536" using w by (intro mult_mono) auto
  moreover have "\<bar>(v - speed st) * w\<bar> = \<bar>v - speed st\<bar> * w" using w by (simp add: abs_mult)
  ultimately have prod: "in_i64 ((v - speed st) * w)" unfolding in_i64_def by linarith
  note step = weighted_step [OF w(2,3), of "v - speed st"]
  have sum: "in_i64 (speed st + (v - speed st) * w sdiv 65536)" "in_i64 (v - speed st)"
    using step v assms(1,2) by (auto simp: in_i64_def)
  have big: "(iv \<ge> ACCELERATION_RESTART_US) = (iv = 40000)"
    using frame_interval_bounds(2) [of st f] by (auto simp: iv_def word_le_def intro: word_uint_eqI)
  show ?thesis
  proof (cases "iv = 40000")
    case True
    then show ?thesis
      using v(2,3) by (simp add: zpt_cursor_acceleration_observe_def Let_def iv_def [symmetric])
  next
    case False
    let ?e = "speed st + (v - speed st) * w sdiv 65536"
    have "zpt_cursor_acceleration_observe c x y f st =
        (?e, \<lparr>speed = ?e, last_frame_ms = observed_at_ms f, have_last_frame = True\<rparr>)"
      unfolding zpt_cursor_acceleration_observe_def Let_def iv_def [symmetric] v(1) [symmetric]
        i64_id [OF sum(2)] w(1) [symmetric] i64_id [OF prod] i64_id [OF sum(1)] big
      using False by simp
    with step False show ?thesis by (auto simp: v(1) [symmetric])
  qed
qed

section \<open>The curve\<close>

definition valid_curve :: "zpt_cursor_acceleration_config \<Rightarrow> bool" where
  "valid_curve c \<longleftrightarrow> length (curve_speed_mm_per_s c) = POINTS \<and> length (curve_percent c) = POINTS \<and>
     zpt_cursor_acceleration_validate (Some c) = 0"

definition point_speed :: "zpt_cursor_acceleration_config \<Rightarrow> nat \<Rightarrow> int" where
  "point_speed c i = uint (curve_speed_mm_per_s c ! i)"

definition point_percent :: "zpt_cursor_acceleration_config \<Rightarrow> nat \<Rightarrow> int" where
  "point_percent c i = uint (curve_percent c ! i)"

text \<open>The sensitivity a control point asks for, as a Q16 ratio.\<close>

definition point_ratio :: "zpt_cursor_acceleration_config \<Rightarrow> nat \<Rightarrow> int" where
  "point_ratio c i = percent_to_ratio (point_percent c i * FIXED_ONE)"

lemma valid_curve_points:
  assumes "valid_curve c"
  shows "i < POINTS \<Longrightarrow> 1 \<le> point_percent c i \<and> point_percent c i \<le> 1000"
    and "i + 1 < POINTS \<Longrightarrow> point_speed c i < point_speed c (i + 1)"
proof -
  let ?bad = "\<lambda>i. curve_percent c ! i = 0 \<or> curve_percent c ! i > ACCELERATION_MAX_PERCENT \<or>
      i > 0 \<and> curve_speed_mm_per_s c ! i \<le> curve_speed_mm_per_s c ! (i - 1)"
  have refused: "(if a then - EINVAL else if b then - EINVAL else 0) = 0 \<Longrightarrow> \<not> b" for a b
    by (simp split: if_splits)
  have "\<not> list_ex ?bad [0..<POINTS]"
    by (rule refused)
      (use assms in \<open>unfold valid_curve_def zpt_cursor_acceleration_validate_def option.case, elim conjE\<close>)
  then have ok: "\<not> ?bad i" if "i < POINTS" for i
    using that unfolding list_ex_iff set_upt by (meson atLeastLessThan_iff zero_le)
  show "1 \<le> point_percent c i \<and> point_percent c i \<le> 1000" if "i < POINTS"
    using ok [OF that] uint_pos_iff [of "curve_percent c ! i"]
    by (simp add: point_percent_def word_less_def)
  show "point_speed c i < point_speed c (i + 1)" if "i + 1 < POINTS"
    using ok [OF that] by (simp add: point_speed_def word_le_def)
qed

lemma point_speed_mono:
  assumes "valid_curve c" "j < POINTS" "i \<le> j"
  shows "point_speed c i \<le> point_speed c j"
  using assms(3,2)
proof (induction rule: dec_induct)
  case (step n)
  then show ?case using valid_curve_points(2) [OF assms(1), of n] by simp
qed simp

lemma percent_to_ratio_mono: "0 \<le> a \<Longrightarrow> a \<le> b \<Longrightarrow> percent_to_ratio a \<le> percent_to_ratio b"
  by (simp add: percent_to_ratio_def sdiv_nonneg zdiv_mono1)

lemma point_ratio_bounds:
  assumes "valid_curve c" "i < POINTS"
  shows "655 \<le> point_ratio c i" "point_ratio c i \<le> 655360"
proof -
  note bounds = valid_curve_points(1) [OF assms]
  then show "655 \<le> point_ratio c i" "point_ratio c i \<le> 655360"
    using percent_to_ratio_mono [of 65536 "point_percent c i * 65536"]
      percent_to_ratio_mono [of "point_percent c i * 65536" 65536000]
    by (simp_all add: point_ratio_def percent_to_ratio_def sdiv_nonneg)
qed

text \<open>The search stops in the segment that holds the speed.\<close>

lemma find_segment_from:
  assumes "length speeds = POINTS" "i + 1 < POINTS"
    and "uint (speeds ! i) * FIXED_ONE \<le> v" "v < uint (speeds ! (POINTS - 1)) * FIXED_ONE"
  shows "find_segment speeds v i + 1 < POINTS \<and> uint (speeds ! find_segment speeds v i) * FIXED_ONE \<le> v \<and>
    v < uint (speeds ! (find_segment speeds v i + 1)) * FIXED_ONE"
  using assms
proof (induction "POINTS - i" arbitrary: i rule: less_induct)
  case less
  show ?case
  proof (cases "v \<ge> uint (speeds ! (i + 1)) * FIXED_ONE")
    case True
    then have step: "find_segment speeds v i = find_segment speeds v (i + 1)"
      using less.prems by (subst find_segment.simps) simp
    have "i + 1 \<noteq> POINTS - 1" using True less.prems(4) by auto
    then have "i + 1 + 1 < POINTS" using less.prems(2) by simp
    moreover have "POINTS - (i + 1) < POINTS - i" using less.prems(2) by simp
    ultimately show ?thesis
      unfolding step using less.hyps [of "i + 1"] less.prems(1,4) True by blast
  next
    case False
    then have "find_segment speeds v i = i" by (subst find_segment.simps) simp
    then show ?thesis using False less.prems by simp
  qed
qed

lemma segment_of_speed:
  assumes c: "valid_curve c" and lo: "point_speed c 0 * FIXED_ONE \<le> v"
    and hi: "v < point_speed c 7 * FIXED_ONE"
  obtains i where "find_segment (curve_speed_mm_per_s c) v 0 = i" "i < 7"
    "point_speed c i * FIXED_ONE \<le> v" "v < point_speed c (i + 1) * FIXED_ONE"
  using find_segment_from [of "curve_speed_mm_per_s c" 0 v] assms
  by (auto simp: point_speed_def valid_curve_def)

text \<open>Only one segment holds a speed.\<close>

lemma segment_unique:
  assumes "valid_curve c" "i < 7" "j < 7"
    and "point_speed c i * FIXED_ONE \<le> v" "v < point_speed c (i + 1) * FIXED_ONE"
    and "point_speed c j * FIXED_ONE \<le> v" "v < point_speed c (j + 1) * FIXED_ONE"
  shows "i = j"
proof (rule ccontr)
  assume "i \<noteq> j"
  then consider "i + 1 \<le> j" | "j + 1 \<le> i" by linarith
  then show False
    using assms point_speed_mono [OF assms(1), of j "i + 1"] point_speed_mono [OF assms(1), of i "j + 1"]
    by cases auto
qed

text \<open>
  The curve without machine arithmetic: the tangent at a point as the weighted harmonic mean of
  its two secants, and the Hermite cubic of a segment, with the truncations the code makes.
\<close>

definition exact_tangent :: "int \<Rightarrow> int \<Rightarrow> int \<Rightarrow> int \<Rightarrow> int" where
  "exact_tangent left_span right_span left_rise right_rise =
     (if left_rise * right_rise \<le> 0 then 0
      else 3 * (left_span + right_span) * left_rise * right_rise * 65536 sdiv
        ((2 * right_span + left_span) * left_span * right_rise +
         (right_span + 2 * left_span) * right_span * left_rise))"

definition tangent_at :: "zpt_cursor_acceleration_config \<Rightarrow> nat \<Rightarrow> int" where
  "tangent_at c i =
     (if i = 0 \<or> i \<ge> 7 then 0
      else exact_tangent (point_speed c i - point_speed c (i - 1)) (point_speed c (i + 1) - point_speed c i)
        (point_percent c i - point_percent c (i - 1)) (point_percent c (i + 1) - point_percent c i))"

definition hermite :: "zpt_cursor_acceleration_config \<Rightarrow> nat \<Rightarrow> int \<Rightarrow> int" where
  "hermite c i v =
     (let span = point_speed c (i + 1) - point_speed c i;
          t = (v - point_speed c i * 65536) div span; t2 = t * t div 65536; t3 = t2 * t div 65536;
          start = point_percent c i * 65536; finish = point_percent c (i + 1) * 65536
      in start + ((finish - start) * (3 * t2 - 2 * t3) + tangent_at c i * span * (t3 - 2 * t2 + t) +
           tangent_at c (i + 1) * span * (t3 - t2)) sdiv 65536)"

lemma harmonic_bound:
  fixes a b l r :: int
  assumes "1 \<le> a" "1 \<le> b" "1 \<le> l" "l \<le> 999" "1 \<le> r" "r \<le> 999"
  defines "n \<equiv> 3 * (a + b) * l * r * 65536" and "d \<equiv> (2 * b + a) * a * r + (b + 2 * a) * b * l"
  shows "0 < d" "n div d * a \<le> 196411392" "n div d * b \<le> 196411392" "0 \<le> n div d"
proof -
  have parts: "0 < (2 * b + a) * a * r" "0 < (b + 2 * a) * b * l" using assms(1-6) by simp_all
  then show d: "0 < d" by (simp add: d_def)
  have n: "0 \<le> n" using assms(1-6) by (simp add: n_def)
  show q: "0 \<le> n div d" using n d by (simp add: pos_imp_zdiv_nonneg_iff)
  have "(a + b) * l \<le> (2 * b + a) * 999" "(a + b) * r \<le> (b + 2 * a) * 999"
    using assms(1-6) by (intro mult_mono; simp)+
  then have "(a + b) * l * (196608 * (a * r)) \<le> (2 * b + a) * 999 * (196608 * (a * r))"
    "(a + b) * r * (196608 * (b * l)) \<le> (b + 2 * a) * 999 * (196608 * (b * l))"
    using assms(1-6) by (intro mult_right_mono; simp)+
  then have "n * a \<le> 196411392 * ((2 * b + a) * a * r)" "n * b \<le> 196411392 * ((b + 2 * a) * b * l)"
    by (simp_all add: n_def algebra_simps)
  then have "n * a \<le> 196411392 * d" "n * b \<le> 196411392 * d"
    using parts by (simp_all add: d_def)
  moreover have "n div d * s * d \<le> n * s" if "1 \<le> s" for s
  proof -
    have "n div d * d \<le> n" using n d by (metis minus_mod_eq_div_mult minus_mod_eq_mult_div
        diff_ge_0_iff_ge le_add_same_cancel1 pos_mod_sign diff_add_cancel mult.commute)
    then have "n div d * d * s \<le> n * s" using that by (intro mult_right_mono) simp_all
    then show ?thesis by (simp add: mult_ac)
  qed
  ultimately have "n div d * a * d \<le> 196411392 * d" "n div d * b * d \<le> 196411392 * d"
    using assms(1,2) by (meson order_trans)+
  then show "n div d * a \<le> 196411392" "n div d * b \<le> 196411392" using d by simp_all
qed

lemma exact_tangent_bound:
  assumes "1 \<le> a" "1 \<le> b" "\<bar>l\<bar> \<le> 999" "\<bar>r\<bar> \<le> 999"
  shows "\<bar>exact_tangent a b l r * a\<bar> \<le> 196411392" "\<bar>exact_tangent a b l r * b\<bar> \<le> 196411392"
proof -
  have "\<bar>exact_tangent a b l r\<bar> * a \<le> 196411392 \<and> \<bar>exact_tangent a b l r\<bar> * b \<le> 196411392"
  proof -
    consider "l * r \<le> 0" | "0 < l" "0 < r" | "l < 0" "r < 0"
      by (metis linorder_neqE_linordered_idom mult_eq_0_iff mult_neg_pos mult_pos_neg order_less_imp_le order_refl)
    then show ?thesis
    proof cases
      case 1
      then show ?thesis by (simp add: exact_tangent_def)
    next
      case 2
      note bound = harmonic_bound [of a b l r]
      have "\<not> l * r \<le> 0" using 2 by (simp add: not_le)
      then have "exact_tangent a b l r = 3 * (a + b) * l * r * 65536 div
          ((2 * b + a) * a * r + (b + 2 * a) * b * l)"
        using bound(1) 2 assms unfolding exact_tangent_def by (simp only: if_False, subst sdiv_nonneg) simp_all
      with bound 2 assms show ?thesis by simp
    next
      case 3
      note bound = harmonic_bound [of a b "- l" "- r"]
      have "0 < l * r" using 3 by (simp add: mult_neg_neg)
      then have "exact_tangent a b l r = - (3 * (a + b) * - l * - r * 65536 div
          ((2 * b + a) * a * - r + (b + 2 * a) * b * - l))"
        using bound(1) 3 assms unfolding exact_tangent_def by (subst sdiv_neg_denominator) (simp_all add: algebra_simps)
      with bound 3 assms show ?thesis by simp
    qed
  qed
  then show "\<bar>exact_tangent a b l r * a\<bar> \<le> 196411392" "\<bar>exact_tangent a b l r * b\<bar> \<le> 196411392"
    using assms(1,2) by (simp_all add: abs_mult)
qed

lemma rises_and_spans:
  assumes "valid_curve c" "i + 1 < POINTS"
  shows "\<bar>point_percent c (i + 1) - point_percent c i\<bar> \<le> 999"
    "1 \<le> point_speed c (i + 1) - point_speed c i" "point_speed c (i + 1) - point_speed c i \<le> 65535"
  using valid_curve_points(1) [OF assms(1), of i] valid_curve_points(1) [OF assms(1), of "i + 1"]
    valid_curve_points(2) [OF assms] assms(2) uint_bounds(2) [of "curve_speed_mm_per_s c ! (i + 1)"]
    uint_bounds(1) [of "curve_speed_mm_per_s c ! i"]
  unfolding point_speed_def by linarith+

lemma rises_and_spans_at:
  assumes "valid_curve c" "0 < i" "i + 1 < POINTS"
  shows "\<bar>point_percent c i - point_percent c (i - 1)\<bar> \<le> 999"
    "1 \<le> point_speed c i - point_speed c (i - 1)" "point_speed c i - point_speed c (i - 1) \<le> 65535"
  using rises_and_spans [OF assms(1), of "i - 1"] assms(2,3) by simp_all

text \<open>On a valid curve no tangent overflows, and its product with either span stays small.\<close>

lemma tangent_sums_fit:
  fixes a b l r :: int
  assumes "1 \<le> a" "a \<le> 65535" "1 \<le> b" "b \<le> 65535" "\<bar>l\<bar> \<le> 999" "\<bar>r\<bar> \<le> 999"
  shows "in_i64 ((2 * b + a + (b + 2 * a)) * l * r * 65536)"
    "in_i64 ((2 * b + a) * a * r + (b + 2 * a) * b * l)"
proof -
  have "\<bar>l\<bar> * \<bar>r\<bar> \<le> 999 * 999" using assms by (intro mult_mono) simp_all
  moreover have "\<bar>3 * (a + b)\<bar> \<le> 393210" using assms by simp
  ultimately have "\<bar>3 * (a + b)\<bar> * (\<bar>l\<bar> * \<bar>r\<bar>) \<le> 393210 * (999 * 999)" by - (rule mult_mono, simp_all)
  then have "\<bar>3 * (a + b) * l * r\<bar> \<le> 393210 * (999 * 999)" by (simp add: abs_mult mult.assoc)
  then show "in_i64 ((2 * b + a + (b + 2 * a)) * l * r * 65536)"
    by (simp add: in_i64_def algebra_simps) linarith
  have "(2 * b + a) * a \<le> 196605 * 65535" "(b + 2 * a) * b \<le> 196605 * 65535"
    using assms by (intro mult_mono; simp)+
  then have "(2 * b + a) * a * \<bar>r\<bar> \<le> 196605 * 65535 * 999" "(b + 2 * a) * b * \<bar>l\<bar> \<le> 196605 * 65535 * 999"
    using assms by (intro mult_mono; simp)+
  then have "\<bar>(2 * b + a) * a * r\<bar> \<le> 196605 * 65535 * 999" "\<bar>(b + 2 * a) * b * l\<bar> \<le> 196605 * 65535 * 999"
    using assms by (simp_all add: abs_mult)
  then show "in_i64 ((2 * b + a) * a * r + (b + 2 * a) * b * l)" unfolding in_i64_def by linarith
qed

lemma point_tangent_exact:
  assumes c: "valid_curve c" and i: "i < POINTS"
  shows "point_tangent c i = tangent_at c i"
proof (cases "i = 0 \<or> i \<ge> 7")
  case True
  with i show ?thesis by (auto simp: point_tangent_def tangent_at_def)
next
  case False
  obtain a b l r where abbr: "a = point_speed c i - point_speed c (i - 1)" "b = point_speed c (i + 1) - point_speed c i"
      "l = point_percent c i - point_percent c (i - 1)" "r = point_percent c (i + 1) - point_percent c i"
    by simp
  have "1 \<le> a" "a \<le> 65535" "1 \<le> b" "b \<le> 65535" "\<bar>l\<bar> \<le> 999" "\<bar>r\<bar> \<le> 999"
    using rises_and_spans [OF c, of i] rises_and_spans_at [OF c, of i] False by (simp_all add: abbr)
  note fits = tangent_sums_fit [OF this]
  have zero: "(l = 0 \<or> r = 0 \<or> (l < 0) \<noteq> (r < 0)) = (l * r \<le> 0)"
    by (auto simp: mult_le_0_iff not_less intro: le_less_trans)
  have "point_tangent c i = (if l = 0 \<or> r = 0 \<or> (l < 0) \<noteq> (r < 0) then 0
      else i64 ((2 * b + a + (b + 2 * a)) * l * r * 65536) sdiv i64 ((2 * b + a) * a * r + (b + 2 * a) * b * l))"
    using False by (simp add: point_tangent_def Let_def abbr point_speed_def point_percent_def)
  also have "\<dots> = exact_tangent a b l r"
    unfolding zero i64_id [OF fits(1)] i64_id [OF fits(2)] by (simp add: exact_tangent_def algebra_simps)
  finally show ?thesis using False by (simp add: tangent_at_def abbr)
qed

lemma tangent_times_span:
  assumes c: "valid_curve c" and i: "i < 7"
  shows "\<bar>tangent_at c i * (point_speed c (i + 1) - point_speed c i)\<bar> \<le> 196411392"
    "\<bar>tangent_at c (i + 1) * (point_speed c (i + 1) - point_speed c i)\<bar> \<le> 196411392"
proof -
  show "\<bar>tangent_at c i * (point_speed c (i + 1) - point_speed c i)\<bar> \<le> 196411392"
  proof (cases "i = 0")
    case False
    then show ?thesis
      using exact_tangent_bound(2) rises_and_spans [OF c, of i] rises_and_spans_at [OF c, of i] i
      by (simp add: tangent_at_def)
  qed (simp add: tangent_at_def)
  show "\<bar>tangent_at c (i + 1) * (point_speed c (i + 1) - point_speed c i)\<bar> \<le> 196411392"
  proof (cases "i = 6")
    case False
    then show ?thesis
      using exact_tangent_bound(1) rises_and_spans [OF c, of "i + 1"] rises_and_spans [OF c, of i] i
      by (simp add: tangent_at_def)
  qed (simp add: tangent_at_def)
qed

text \<open>The clamp of a segment's value to the two points it joins.\<close>

definition between :: "int \<Rightarrow> int \<Rightarrow> int \<Rightarrow> int" where
  "between a b v = max (min a b) (min (max a b) v)"

lemma clamp_between:
  "(if val < (if p < q then p else q) then if p < q then p else q
    else if val > (if p < q then q else p) then if p < q then q else p else val) = between p q val"
  by (simp add: between_def min_def max_def)

lemma product_bound: "\<bar>a\<bar> \<le> m \<Longrightarrow> \<bar>b\<bar> \<le> n \<Longrightarrow> \<bar>a * b\<bar> \<le> m * n" for a b m n :: int
  by (simp add: abs_mult mult_mono)

lemma sdiv_small: "\<bar>a\<bar> \<le> m \<Longrightarrow> \<bar>a sdiv 65536\<bar> \<le> m" for a m :: int
  by (auto simp: sdiv_pos_cases)

lemma segment_position:
  fixes a b v :: int
  assumes "a * 65536 \<le> v" "v < b * 65536" "1 \<le> b - a"
  shows "0 \<le> (v - a * 65536) div (b - a)" "(v - a * 65536) div (b - a) \<le> 65535"
proof -
  have "v - a * 65536 < 65536 * (b - a)" using assms(2) by (simp add: algebra_simps)
  then have "(v - a * 65536) div (b - a) < 65536"
    using div_less_iff_less_mult' [of "b - a" "v - a * 65536" 65536] assms(3) by simp
  then show "(v - a * 65536) div (b - a) \<le> 65535" by simp
  show "0 \<le> (v - a * 65536) div (b - a)" using assms by (simp add: pos_imp_zdiv_nonneg_iff)
qed

lemma powers_of_position:
  fixes t :: int
  assumes "0 \<le> t" "t \<le> 65535"
  defines "t2 \<equiv> t * t div 65536"
  shows "0 \<le> t2" "t2 \<le> t" "0 \<le> t2 * t div 65536" "t2 * t div 65536 \<le> t2"
    "in_i64 (t * t)" "in_i64 (t2 * t)"
proof -
  have "t * t \<le> t * 65536" using assms by (intro mult_left_mono) simp_all
  then show t2: "0 \<le> t2" "t2 \<le> t"
    using div_le_of_le_mult [of "t * t" t 65536] assms by (simp_all add: t2_def)
  have "t2 * t \<le> t2 * 65536" using assms t2 by (intro mult_left_mono) simp_all
  then show "0 \<le> t2 * t div 65536" "t2 * t div 65536 \<le> t2"
    using div_le_of_le_mult [of "t2 * t" t2 65536] assms(1) t2 by simp_all
  have "t * t \<le> 65535 * 65535" "t2 * t \<le> 65535 * 65535" using assms(1,2) t2 by (intro mult_mono; simp)+
  moreover have "0 \<le> t * t" "0 \<le> t2 * t" using assms(1) t2 by (intro mult_nonneg_nonneg; simp)+
  ultimately show "in_i64 (t * t)" "in_i64 (t2 * t)" unfolding in_i64_def by linarith+
qed

lemma hermite_terms_fit:
  fixes p q t t2 t3 a b :: int
  assumes "\<bar>q - p\<bar> \<le> 999 * 65536" "0 \<le> p" "p \<le> 65536000" "\<bar>a\<bar> \<le> 196411392" "\<bar>b\<bar> \<le> 196411392"
    and "0 \<le> t3" "t3 \<le> t2" "t2 \<le> t" "t \<le> 65535"
  shows "in_i64 ((q - p) * (3 * t2 - 2 * t3) + a * (t3 - 2 * t2 + t) + b * (t3 - t2))"
    "in_i64 (p + ((q - p) * (3 * t2 - 2 * t3) + a * (t3 - 2 * t2 + t) + b * (t3 - t2)) sdiv 65536)"
    "in_i64 a" "in_i64 b"
proof -
  have polys: "\<bar>3 * t2 - 2 * t3\<bar> \<le> 196605" "\<bar>t3 - 2 * t2 + t\<bar> \<le> 131070" "\<bar>t3 - t2\<bar> \<le> 65535"
    using assms by auto
  let ?s = "(q - p) * (3 * t2 - 2 * t3) + a * (t3 - 2 * t2 + t) + b * (t3 - t2)"
  have "\<bar>?s\<bar> \<le> 999 * 65536 * 196605 + 196411392 * 131070 + 196411392 * 65535"
    using product_bound [OF assms(1) polys(1)] product_bound [OF assms(4) polys(2)]
      product_bound [OF assms(5) polys(3)] by linarith
  then have sum: "\<bar>?s\<bar> \<le> 51487282298880" by simp
  then show "in_i64 ?s" unfolding in_i64_def by linarith
  show "in_i64 (p + ?s sdiv 65536)"
    using sdiv_small [OF sum] assms(2,3) unfolding in_i64_def by linarith
  show "in_i64 a" "in_i64 b" using assms(4,5) by (auto simp: in_i64_def)
qed

lemma sensitivity_in_segment:
  assumes c: "valid_curve c" and i: "i < 7"
    and v: "point_speed c i * FIXED_ONE \<le> v" "v < point_speed c (i + 1) * FIXED_ONE"
    and above: "point_speed c 0 * FIXED_ONE < v"
  shows "zpt_cursor_acceleration_sensitivity c v =
    percent_to_ratio (between (point_percent c i * FIXED_ONE) (point_percent c (i + 1) * FIXED_ONE) (hermite c i v))"
proof -
  have below: "v < point_speed c 7 * FIXED_ONE"
    using v(2) point_speed_mono [OF c, of 7 "i + 1"] i by simp
  have found: "find_segment (curve_speed_mm_per_s c) v 0 = i"
  proof -
    obtain j where j: "find_segment (curve_speed_mm_per_s c) v 0 = j" "j < 7"
        "point_speed c j * FIXED_ONE \<le> v" "v < point_speed c (j + 1) * FIXED_ONE"
      using segment_of_speed [OF c _ below] above by auto
    then show ?thesis using segment_unique [OF c i j(2) v] by simp
  qed
  define span where "span = point_speed c (i + 1) - point_speed c i"
  define t where "t = (v - point_speed c i * 65536) div span"
  define t2 where "t2 = t * t div 65536"
  define t3 where "t3 = t2 * t div 65536"
  define p where "p = point_percent c i * 65536"
  define q where "q = point_percent c (i + 1) * 65536"
  define a where "a = tangent_at c i * span"
  define b where "b = tangent_at c (i + 1) * span"
  have span: "1 \<le> span" using rises_and_spans(2) [OF c, of i] i by (simp add: span_def)
  have t: "0 \<le> t" "t \<le> 65535" using segment_position [OF v] span by (simp_all add: t_def span_def)
  note powers = powers_of_position [OF t, folded t2_def t3_def]
  have ends: "\<bar>q - p\<bar> \<le> 999 * 65536" "0 \<le> p" "p \<le> 65536000"
    using rises_and_spans(1) [OF c, of i] valid_curve_points(1) [OF c, of i] i by (auto simp: p_def q_def)
  have tangents: "\<bar>a\<bar> \<le> 196411392" "\<bar>b\<bar> \<le> 196411392"
    using tangent_times_span [OF c i] by (simp_all add: a_def b_def span_def)
  note fits = hermite_terms_fit [OF ends tangents powers(3) powers(4) powers(2) t(2)]
  have position: "(v - point_speed c i * 65536) sdiv span = t"
    using v span by (simp add: t_def sdiv_nonneg)
  have sqs: "drop_bit FIXED_FRACTION_BITS (i64 (t * t)) = t2" "drop_bit FIXED_FRACTION_BITS (i64 (t2 * t)) = t3"
    using powers by (simp_all add: drop_bit_eq_div t2_def t3_def)
  have "hermite c i v = p + ((q - p) * (3 * t2 - 2 * t3) + a * (t3 - 2 * t2 + t) + b * (t3 - t2)) sdiv 65536"
    by (simp only: hermite_def Let_def span_def t_def t2_def t3_def p_def q_def a_def b_def)
  moreover have "zpt_cursor_acceleration_sensitivity c v = percent_to_ratio (between p q
      (p + ((q - p) * (3 * t2 - 2 * t3) + a * (t3 - 2 * t2 + t) + b * (t3 - t2)) sdiv 65536))"
  proof -
    have tangents: "point_tangent c i = tangent_at c i" "point_tangent c (i + 1) = tangent_at c (i + 1)"
      using point_tangent_exact [OF c] i by simp_all
    have tests: "\<not> v \<le> point_speed c 0 * FIXED_ONE" "\<not> v \<ge> point_speed c (POINTS - 1) * FIXED_ONE"
      using above below by simp_all
    show ?thesis
      unfolding zpt_cursor_acceleration_sensitivity_def Let_def found point_speed_def [symmetric]
        point_percent_def [symmetric] span_def [symmetric] position sqs p_def [symmetric] q_def [symmetric]
        tangents a_def [symmetric] b_def [symmetric] if_not_P [OF tests(1)] if_not_P [OF tests(2)]
        i64_id [OF fits(1)] i64_id [OF fits(2)] i64_id [OF fits(3)] i64_id [OF fits(4)] clamp_between by (rule refl)
  qed
  ultimately show ?thesis by (simp only: p_def q_def)
qed

section \<open>Properties of the curve and the estimate\<close>

lemma hermite_start:
  assumes "valid_curve c" "i < 7"
  shows "hermite c i (point_speed c i * FIXED_ONE) = point_percent c i * FIXED_ONE"
  by (simp add: hermite_def Let_def)

lemma sensitivity_ends:
  "v \<le> point_speed c 0 * FIXED_ONE \<Longrightarrow> zpt_cursor_acceleration_sensitivity c v = point_ratio c 0"
  "point_speed c 0 < point_speed c 7 \<Longrightarrow> point_speed c 7 * FIXED_ONE \<le> v \<Longrightarrow>
     zpt_cursor_acceleration_sensitivity c v = point_ratio c 7"
  by (simp_all add: zpt_cursor_acceleration_sensitivity_def Let_def point_ratio_def point_speed_def
      point_percent_def)

lemma between_bounds: "min a b \<le> between a b v" "between a b v \<le> max a b"
  "between a b a = a" "between a b b = b"
  by (auto simp: between_def)

lemma sensitivity_on_segment:
  assumes c: "valid_curve c" and i: "i < 7"
    and v: "point_speed c i * FIXED_ONE \<le> v" "v < point_speed c (i + 1) * FIXED_ONE"
  shows "zpt_cursor_acceleration_sensitivity c v = percent_to_ratio
      (between (point_percent c i * FIXED_ONE) (point_percent c (i + 1) * FIXED_ONE) (hermite c i v))"
proof (cases "point_speed c 0 * FIXED_ONE < v")
  case True
  then show ?thesis using sensitivity_in_segment [OF c i v] by blast
next
  case False
  have first: "point_speed c 0 \<le> point_speed c i" using point_speed_mono [OF c, of i 0] i by simp
  then have start: "v = point_speed c i * FIXED_ONE" using False v(1) by simp
  have "i = 0"
    using False v(1) i point_speed_mono [OF c, of i 1] valid_curve_points(2) [OF c, of 0]
    by (cases "i = 0") auto
  then show ?thesis
    using start sensitivity_ends(1) [of v c] hermite_start [OF c i]
    by (simp add: point_ratio_def between_bounds)
qed

lemma sensitivity_after_curve:
  assumes c: "valid_curve c" and v: "point_speed c 7 * FIXED_ONE \<le> v"
  shows "zpt_cursor_acceleration_sensitivity c v = point_ratio c 7"
proof -
  have "point_speed c 0 < point_speed c 7"
    using valid_curve_points(2) [OF c, of 0] point_speed_mono [OF c, of 7 1] by simp
  then show ?thesis using v by (simp add: sensitivity_ends)
qed

lemma sensitivity_at_point:
  assumes c: "valid_curve c" and i: "i < POINTS"
  shows "zpt_cursor_acceleration_sensitivity c (point_speed c i * FIXED_ONE) = point_ratio c i"
proof (cases "i = 7")
  case True
  then show ?thesis using sensitivity_after_curve [OF c] by simp
next
  case False
  with i have i7: "i < 7" by simp
  then show ?thesis
    using sensitivity_on_segment [OF c i7] hermite_start [OF c i7] valid_curve_points(2) [OF c, of i]
    by (simp add: between_bounds point_ratio_def)
qed

lemma point_percent_nonneg: "0 \<le> point_percent c i"
  by (simp add: point_percent_def)

lemma sensitivity_between:
  assumes c: "valid_curve c" and i: "i < 7"
    and v: "point_speed c i * FIXED_ONE \<le> v" "v \<le> point_speed c (i + 1) * FIXED_ONE"
  shows "min (point_ratio c i) (point_ratio c (i + 1)) \<le> zpt_cursor_acceleration_sensitivity c v \<and>
    zpt_cursor_acceleration_sensitivity c v \<le> max (point_ratio c i) (point_ratio c (i + 1))"
proof (cases "v = point_speed c (i + 1) * FIXED_ONE")
  case True
  then show ?thesis using sensitivity_at_point [OF c, of "i + 1"] i by simp
next
  case False
  let ?p = "point_percent c i * FIXED_ONE" and ?q = "point_percent c (i + 1) * FIXED_ONE"
  let ?v = "between ?p ?q (hermite c i v)"
  have "zpt_cursor_acceleration_sensitivity c v = percent_to_ratio ?v"
    using sensitivity_on_segment [OF c i v(1)] False v(2) by simp
  moreover have "0 \<le> min ?p ?q" using point_percent_nonneg [of c] by simp
  then have "percent_to_ratio (min ?p ?q) \<le> percent_to_ratio ?v" "percent_to_ratio ?v \<le> percent_to_ratio (max ?p ?q)"
    using between_bounds(1,2) [of ?p ?q "hermite c i v"]
    by (auto intro!: percent_to_ratio_mono elim: order_trans)
  ultimately show ?thesis by (simp add: point_ratio_def min_def max_def split: if_splits)
qed

lemma speed_in_some_segment:
  assumes c: "valid_curve c"
  obtains "v \<le> point_speed c 0 * FIXED_ONE" | "point_speed c 7 * FIXED_ONE \<le> v"
    | i where "i < 7" "point_speed c i * FIXED_ONE \<le> v" "v < point_speed c (i + 1) * FIXED_ONE"
  using segment_of_speed [OF c, of v] by (metis linorder_not_le nle_le)

lemma sensitivity_range:
  assumes c: "valid_curve c"
  shows "655 \<le> zpt_cursor_acceleration_sensitivity c v" "zpt_cursor_acceleration_sensitivity c v \<le> 655360"
proof -
  have "655 \<le> zpt_cursor_acceleration_sensitivity c v \<and> zpt_cursor_acceleration_sensitivity c v \<le> 655360"
  proof (rule speed_in_some_segment [OF c, of v], goal_cases)
    case 1
    then show ?thesis using point_ratio_bounds [OF c, of 0] by (simp add: sensitivity_ends)
  next
    case 2
    then show ?thesis using point_ratio_bounds [OF c, of 7] by (simp add: sensitivity_after_curve [OF c])
  next
    case (3 i)
    then show ?thesis
      using sensitivity_between [OF c, of i v] point_ratio_bounds [OF c, of i] point_ratio_bounds [OF c, of "i + 1"]
      by (auto simp: min_def max_def split: if_splits)
  qed
  then show "655 \<le> zpt_cursor_acceleration_sensitivity c v" "zpt_cursor_acceleration_sensitivity c v \<le> 655360"
    by simp_all
qed

text \<open>
  Property C25. On a valid curve the sensitivity is flat before the first point and after the
  last, and in between it is the Hermite cubic of the segment that holds the speed, with
  harmonic-mean tangents, in exact integer arithmetic and clamped to the segment's two points: no
  intermediate of the C code overflows.
\<close>

theorem sensitivity_is_the_exact_curve:
  assumes c: "valid_curve c"
  shows "(v \<le> point_speed c 0 * FIXED_ONE \<longrightarrow>
      zpt_cursor_acceleration_sensitivity c v = point_ratio c 0) \<and>
    (point_speed c 7 * FIXED_ONE \<le> v \<longrightarrow>
      zpt_cursor_acceleration_sensitivity c v = point_ratio c 7) \<and>
    (\<forall>i<7. point_speed c i * FIXED_ONE \<le> v \<and> v < point_speed c (i + 1) * FIXED_ONE \<longrightarrow>
      zpt_cursor_acceleration_sensitivity c v =
        percent_to_ratio (between (point_percent c i * FIXED_ONE) (point_percent c (i + 1) * FIXED_ONE)
          (hermite c i v)))"
  using sensitivity_on_segment [OF c] sensitivity_after_curve [OF c] by (simp add: sensitivity_ends)

definition sample_curve :: zpt_cursor_acceleration_config where
  "sample_curve = \<lparr>curve_speed_mm_per_s = [10, 50, 100, 200, 300, 400, 500, 800],
     curve_percent = [50, 60, 100, 100, 140, 180, 200, 190], speed_rise_ms = 4, speed_fall_ms = 20\<rparr>"

lemma sample_curve_valid: "valid_curve sample_curve"
  by (simp add: valid_curve_def sample_curve_def zpt_cursor_acceleration_validate_def upt_rec)

theorem sensitivity_is_the_exact_curve_witness:
  "zpt_cursor_acceleration_sensitivity sample_curve (75 * FIXED_ONE) =
     percent_to_ratio (between (60 * FIXED_ONE) (100 * FIXED_ONE) (hermite sample_curve 1 (75 * FIXED_ONE)))"
  using sensitivity_is_the_exact_curve [OF sample_curve_valid, of "75 * FIXED_ONE", THEN conjunct2, THEN conjunct2,
      rule_format, of 1]
  by (simp add: sample_curve_def point_speed_def point_percent_def)

text \<open>
  The curve passes through every control point and never leaves the band between the
  two points around a speed, so the sensitivity stays between 1 and 1000 percent.
\<close>

theorem curve_never_overshoots:
  assumes c: "valid_curve c"
  shows "(\<forall>i<POINTS. zpt_cursor_acceleration_sensitivity c (point_speed c i * FIXED_ONE) = point_ratio c i) \<and>
    (\<forall>i<7. \<forall>v. point_speed c i * FIXED_ONE \<le> v \<and> v \<le> point_speed c (i + 1) * FIXED_ONE \<longrightarrow>
      min (point_ratio c i) (point_ratio c (i + 1)) \<le> zpt_cursor_acceleration_sensitivity c v \<and>
      zpt_cursor_acceleration_sensitivity c v \<le> max (point_ratio c i) (point_ratio c (i + 1))) \<and>
    (\<forall>v. 655 \<le> zpt_cursor_acceleration_sensitivity c v \<and> zpt_cursor_acceleration_sensitivity c v \<le> 655360)"
  using sensitivity_at_point [OF c] sensitivity_between [OF c] sensitivity_range [OF c] by simp

theorem curve_never_overshoots_witness:
  "zpt_cursor_acceleration_sensitivity sample_curve (200 * FIXED_ONE) = 65536 \<and>
   zpt_cursor_acceleration_sensitivity sample_curve (199 * FIXED_ONE) = 65536"
  using conjunct1 [OF curve_never_overshoots [OF sample_curve_valid], rule_format, of 3]
    conjunct1 [OF conjunct2 [OF curve_never_overshoots [OF sample_curve_valid]], rule_format, of 2 "199 * FIXED_ONE"]
  by (simp add: sample_curve_def point_speed_def point_ratio_def point_percent_def percent_to_ratio_def sdiv_nonneg)

section \<open>The stage\<close>

definition estimate_ok :: "zpt_cursor_acceleration_state \<Rightarrow> bool" where
  "estimate_ok st \<longleftrightarrow> 0 \<le> speed st \<and> speed st \<le> ACCELERATION_SPEED_LIMIT"

lemma observe_ok:
  assumes "estimate_ok st"
  shows "estimate_ok (snd (zpt_cursor_acceleration_observe c x y f st))"
    "fst (zpt_cursor_acceleration_observe c x y f st) = speed (snd (zpt_cursor_acceleration_observe c x y f st))"
  using observe_cases [where st = st and f = f and c = c and x = x and y = y] assms instant_speed_bounds [of x y "frame_interval_us st f"]
  by (auto simp: estimate_ok_def)

text \<open>
  A frame comes after a pause when the time it covers was clipped, is 40 milliseconds or more, or is
  not known because there is no frame before it; the microseconds it is judged over.
\<close>

definition after_pause :: "zpt_cursor_acceleration_state \<Rightarrow> zpt_signal_metadata \<Rightarrow> bool" where
  "after_pause st frame \<longleftrightarrow> flags frame AND FLAG_SAMPLE_SPAN_CLIPPED \<noteq> 0 \<or>
     (if sample_span_us frame \<noteq> 0 then 40000 \<le> uint (sample_span_us frame)
      else \<not> have_last_frame st \<or> 40 \<le> uint (observed_at_ms frame - last_frame_ms st))"

definition judged_over_us :: "zpt_cursor_acceleration_state \<Rightarrow> zpt_signal_metadata \<Rightarrow> int" where
  "judged_over_us st frame =
     (if after_pause st frame then 40000
      else max 1000 (if sample_span_us frame \<noteq> 0 then uint (sample_span_us frame)
        else 1000 * uint (observed_at_ms frame - last_frame_ms st)))"

lemma judged_over_us_interval: "judged_over_us st frame = uint (frame_interval_us st frame)"
proof -
  have small: "uint (w * 1000) = 1000 * uint w" if "uint w < 40" for w :: u32
    using that uint_lt_0 [of w] by (simp add: uint_word_ariths mult.commute)
  have "w < 40 \<longleftrightarrow> uint w < 40" "w < 1000 \<longleftrightarrow> uint w < 1000" "40000 < w \<longleftrightarrow> 40000 < uint w" for w :: u32
    by (simp_all add: word_less_def)
  moreover obtain d where d: "observed_at_ms frame - last_frame_ms st = d" by simp
  ultimately show ?thesis
    by (auto simp: judged_over_us_def after_pause_def frame_interval_us_def Let_def d small max_def)
qed

lemma pause_is_40_ms: "judged_over_us st frame = 40000 \<longleftrightarrow> after_pause st frame"
  using uint_lt_0 [of "observed_at_ms frame - last_frame_ms st"]
  by (auto simp: judged_over_us_def after_pause_def max_def)

text \<open>
  Property C29. A frame is judged over the time it covers: its sample span when it has one, else the
  time since the frame before it, at least one millisecond; and over 40 milliseconds when it comes
  after a pause, that is when the span was clipped, when span or gap is 40 milliseconds or more, and
  when it is the first. For displacements below 2^31 on either axis, its own speed is the whole part
  of the Euclidean length of the displacement over that time, capped at the limit; the new estimate
  is that speed after a pause, lies between the old estimate and that speed otherwise, stays within
  the limit, and is remembered with the frame's time.
\<close>

theorem speed_estimate_follows_the_ball:
  assumes st: "estimate_ok st" and xy: "\<bar>x\<bar> \<le> ACCELERATION_AXIS_LIMIT" "\<bar>y\<bar> \<le> ACCELERATION_AXIS_LIMIT"
    and observed: "zpt_cursor_acceleration_observe c x y frame st = (estimate, st')"
  shows "\<exists>len. 0 \<le> len \<and> len * len \<le> x * x + y * y \<and> x * x + y * y < (len + 1) * (len + 1) \<and>
    (let own = min ACCELERATION_SPEED_LIMIT (len * 1000000 div judged_over_us st frame) in
      min (speed st) own \<le> estimate \<and> estimate \<le> max (speed st) own \<and>
      (after_pause st frame \<longrightarrow> estimate = own)) \<and>
    1000 \<le> judged_over_us st frame \<and> judged_over_us st frame \<le> 40000 \<and>
    st' = \<lparr>speed = estimate, last_frame_ms = observed_at_ms frame, have_last_frame = True\<rparr> \<and> estimate_ok st'"
proof -
  let ?iv = "frame_interval_us st frame"
  have own: "instant_speed x y ?iv = min ACCELERATION_SPEED_LIMIT (euclidean_magnitude x y * 1000000 div judged_over_us st frame)"
    unfolding judged_over_us_interval by (rule instant_speed_exact) (rule frame_interval_bounds)
  have restart: "?iv = 40000" if "after_pause st frame"
    using pause_is_40_ms [of st frame] that unfolding judged_over_us_interval by (auto intro: word_uint_eqI)
  have "0 \<le> speed st" "speed st \<le> ACCELERATION_SPEED_LIMIT" using st by (simp_all add: estimate_ok_def)
  from observe_cases [OF this, of c x y frame] observed
  have moved: "min (speed st) (instant_speed x y ?iv) \<le> estimate" "estimate \<le> max (speed st) (instant_speed x y ?iv)"
    "?iv = 40000 \<longrightarrow> estimate = instant_speed x y ?iv"
    "st' = \<lparr>speed = estimate, last_frame_ms = observed_at_ms frame, have_last_frame = True\<rparr>"
    by auto
  have "estimate_ok st'" using observe_ok(1) [OF st] observed by (metis snd_conv)
  then show ?thesis
    using moved restart magnitude_exact [OF xy] magnitude_bounds(1) [of x y]
      frame_interval_bounds [of st frame, folded judged_over_us_interval]
    unfolding own Let_def by (intro exI [of _ "euclidean_magnitude x y"] conjI) blast+
qed

text \<open>A frame with no span of its own, 1500 milliseconds after a fast one.\<close>

theorem speed_estimate_follows_the_ball_witness:
  "fst (zpt_cursor_acceleration_observe sample_curve 300 400 (zero_metadata\<lparr>observed_at_ms := 1600\<rparr>)
     \<lparr>speed = 90000, last_frame_ms = 100, have_last_frame = True\<rparr>) = 12500"
proof -
  let ?st = "\<lparr>speed = 90000, last_frame_ms = 100, have_last_frame = True\<rparr>"
  let ?f = "zero_metadata\<lparr>observed_at_ms := 1600\<rparr>"
  have st: "estimate_ok ?st" by (simp add: estimate_ok_def)
  have pause: "after_pause ?st ?f" by (simp add: after_pause_def zero_metadata_def)
  obtain e st' where o: "zpt_cursor_acceleration_observe sample_curve 300 400 ?f ?st = (e, st')"
    by fastforce
  have covers: "judged_over_us ?st ?f = 40000" by (simp add: judged_over_us_def pause)
  obtain len :: int where l: "0 \<le> len" "len * len \<le> 250000" "250000 < (len + 1) * (len + 1)"
      "e = min ACCELERATION_SPEED_LIMIT (len * 1000000 div 40000)"
    using speed_estimate_follows_the_ball [OF st _ _ o] pause covers by (auto simp: Let_def)
  have "len \<le> 500"
  proof (rule ccontr)
    assume "\<not> len \<le> 500"
    then have "501 * 501 \<le> len * len" by (intro mult_mono) simp_all
    with l(2) show False by simp
  qed
  moreover have "500 \<le> len"
  proof (rule ccontr)
    assume "\<not> 500 \<le> len"
    then have "(len + 1) * (len + 1) \<le> 500 * 500" using l(1) by (intro mult_mono) simp_all
    with l(3) show False by simp
  qed
  ultimately have "len = 500" by simp
  then show ?thesis using l(4) by (simp add: o)
qed

definition spanned :: "u32 \<Rightarrow> zpt_signal_metadata" where
  "spanned us = zero_metadata\<lparr>sample_span_us := us\<rparr>"

text \<open>Rounding a magnitude to nearest, with the sign of the value put back.\<close>

definition rounded_product :: "int \<Rightarrow> int \<Rightarrow> int" where
  "rounded_product v f = sgn v * ((\<bar>v\<bar> * f + 32768) div 65536)"

definition product_fits :: "int \<Rightarrow> int \<Rightarrow> bool" where
  "product_fits v f \<longleftrightarrow> \<bar>v\<bar> * f + 32768 \<le> UINT64_MAX"

lemma scale_cases:
  assumes "in_i64 v" "1 \<le> f" "f \<le> 655360"
  shows "scale v f = (if product_fits v f then (rounded_product v f, False)
     else (if v < 0 then INT64_MIN else INT64_MAX, True))"
proof -
  have f: "u64 f = f" using assms(2,3) by (simp add: in_u64_def)
  obtain m where m: "m = \<bar>v\<bar>" "0 \<le> m" "zpt_fixed_magnitude v = m"
    using magnitude_abs [OF assms(1)] by (metis abs_ge_zero)
  have test: "(m > (UINT64_MAX - FIXED_ONE div 2) div f) = (\<not> product_fits v f)"
    using div_less_iff_less_mult' [of f "UINT64_MAX - FIXED_ONE div 2" m] assms(2)
    by (auto simp: product_fits_def m(1))
  show ?thesis
  proof (cases "product_fits v f")
    case False
    then have "m \<noteq> 0" by (auto simp: product_fits_def m(1))
    then show ?thesis using False test by (simp add: scale_def Let_def f m(3))
  next
    case True
    have fits: "0 \<le> m * f" "m * f + 32768 \<le> UINT64_MAX"
      using True m(2) assms(2) by (simp_all add: product_fits_def m(1) mult_nonneg_nonneg)
    obtain q where q: "q = (m * f + 32768) div 65536" "0 \<le> q" "q \<le> INT64_MAX" using fits by simp
    have "drop_bit FIXED_FRACTION_BITS (u64 (m * f + FIXED_ONE div 2)) = q"
      using fits by (simp add: in_u64_def drop_bit_eq_div q(1))
    moreover have "\<not> m > (UINT64_MAX - FIXED_ONE div 2) div f" using test True by simp
    ultimately have "scale v f = (if v < 0 then - q else q, False)"
      using q(3) unfolding scale_def Let_def f m(3) by simp
    moreover have "q = 0" if "v = 0" using that by (simp add: q(1) m(1))
    ultimately show ?thesis
      using True unfolding rounded_product_def m(1) [symmetric] q(1) [symmetric] by (simp add: sgn_if)
  qed
qed

lemma rounded_product_bounds:
  assumes "product_fits v f" "1 \<le> f"
  shows "in_i64 (rounded_product v f)" "\<bar>rounded_product v f * 65536 - v * f\<bar> \<le> 32768"
proof -
  have pos: "0 \<le> \<bar>v\<bar> * f" using assms(2) by simp
  obtain q where q: "q = (\<bar>v\<bar> * f + 32768) div 65536" "0 \<le> q" "q \<le> INT64_MAX" "\<bar>q * 65536 - \<bar>v\<bar> * f\<bar> \<le> 32768"
    using assms(1) pos by (simp add: product_fits_def)
  show "in_i64 (rounded_product v f)"
    using q(2,3) unfolding rounded_product_def q(1) [symmetric] in_i64_def by (auto simp: sgn_if)
  show "\<bar>rounded_product v f * 65536 - v * f\<bar> \<le> 32768"
    using q(4) unfolding rounded_product_def q(1) [symmetric] by (auto simp: sgn_if abs_if split: if_splits)
qed

text \<open>
  Property C24. One frame of normalized motion gives one frame of normalized motion: both axes are
  scaled by the sensitivity of the new speed estimate, between 1 and 1000 percent, rounded to
  nearest with the sign kept; a product beyond 64 bits becomes the limit of its sign and flags
  the frame as clipped; the estimate is written into the annotations and the state.
\<close>

theorem frame_is_scaled_by_one_sensitivity:
  assumes c: "valid_curve c" and st: "estimate_ok st"
    and s: "kind s = SIGNAL_NORMALIZED_MOTION" "data s = FixedVector x y" "in_i64 x" "in_i64 y"
  shows "\<exists>estimate st' factor.
    zpt_cursor_acceleration_observe c x y (metadata s) st = (estimate, st') \<and> estimate_ok st' \<and>
    factor = zpt_cursor_acceleration_sensitivity c estimate \<and> 655 \<le> factor \<and> factor \<le> 655360 \<and>
    (let r = run_call (cursor_acceleration_stage_process (Some c) (Some st) now s) dl;
         axis = \<lambda>v. if product_fits v factor then rounded_product v factor
           else if v < 0 then INT64_MIN else INT64_MAX in
      res_ret r = 0 \<and> res_state r = Some st' \<and> res_deadline r = dl \<and>
      (\<exists>out. res_out r = [out] \<and> signal_ok out \<and> kind out = SIGNAL_NORMALIZED_MOTION \<and>
        data out = FixedVector (axis x) (axis y) \<and> speed_per_second (annotations out) = estimate \<and>
        flags (metadata out) = (if product_fits x factor \<and> product_fits y factor then flags (metadata s)
          else flags (metadata s) OR FLAG_CLIPPED)))"
proof -
  obtain estimate st' where o: "zpt_cursor_acceleration_observe c x y (metadata s) st = (estimate, st')"
    by fastforce
  then have ok: "estimate_ok st'" "in_i64 estimate"
    using observe_ok [OF st, of c x y "metadata s"] by (auto simp: estimate_ok_def in_i64_def)
  let ?f = "zpt_cursor_acceleration_sensitivity c estimate"
  have f: "655 \<le> ?f" "?f \<le> 655360" by (rule sensitivity_range [OF c])+
  then have f1: "1 \<le> ?f" by simp
  have axes: "in_i64 (if product_fits v ?f then rounded_product v ?f else if v < 0 then INT64_MIN else INT64_MAX)" for v
    using rounded_product_bounds(1) [of v ?f] f1 by simp
  define axis where "axis = (\<lambda>v. if product_fits v ?f then rounded_product v ?f
      else if v < 0 then INT64_MIN else INT64_MAX)"
  have axis_ok: "in_i64 (axis v)" for v using axes [of v] by (simp add: axis_def)
  define out where "out = (if product_fits x ?f \<and> product_fits y ?f then \<lambda>s. s else add_flag FLAG_CLIPPED)
      (s\<lparr>data := FixedVector (axis x) (axis y), annotations := (annotations s)\<lparr>speed_per_second := estimate\<rparr>\<rparr>)"
  have prog: "cursor_acceleration_stage_process (Some c) (Some st) now s = emit_return out (Some st')"
    using s(1,2) by (simp add: cursor_acceleration_stage_process_def o scale_cases [OF s(3) f1 f(2)]
        scale_cases [OF s(4) f1 f(2)] out_def axis_def Let_def)
  have out: "signal_ok out" "kind out = SIGNAL_NORMALIZED_MOTION" "data out = FixedVector (axis x) (axis y)"
    "speed_per_second (annotations out) = estimate"
    "flags (metadata out) = (if product_fits x ?f \<and> product_fits y ?f then flags (metadata s)
       else flags (metadata s) OR FLAG_CLIPPED)"
    using s(1) ok(2) axis_ok [of x] axis_ok [of y] by (simp_all add: out_def signal_ok_def)
  show ?thesis
    by (rule exI [of _ estimate], rule exI [of _ st'], rule exI [of _ ?f])
      (use o ok(1) f prog out in \<open>simp add: Let_def axis_def\<close>)
qed

definition motion :: "int \<Rightarrow> int \<Rightarrow> u32 \<Rightarrow> zpt_signal" where
  "motion x y us = zero_signal\<lparr>kind := SIGNAL_NORMALIZED_MOTION, data := FixedVector x y, metadata := spanned us\<rparr>"

definition still :: zpt_cursor_acceleration_state where
  "still = \<lparr>speed = 0, last_frame_ms = 0, have_last_frame = False\<rparr>"

theorem frame_is_scaled_by_one_sensitivity_witness:
  "\<exists>out. res_out (run_call (cursor_acceleration_stage_process (Some sample_curve) (Some still) 5 (motion 3 4 8000)) None) =
     [out] \<and> signal_ok out"
  using frame_is_scaled_by_one_sensitivity [of sample_curve still "motion 3 4 8000" 3 4 5 None]
  by (auto simp: sample_curve_valid still_def estimate_ok_def motion_def zero_signal_def Let_def)

text \<open>A curve with every point at 100 percent leaves motion below \<open>2 ^ 48\<close> untouched ...\<close>

lemma even_curve_leaves_motion_untouched:
  assumes c: "valid_curve c" "\<forall>i<POINTS. point_percent c i = 100"
    and v: "\<bar>v\<bar> < 281474976710656"
  shows "scale v (zpt_cursor_acceleration_sensitivity c e) = (v, False)"
proof -
  have ratio: "point_ratio c i = 65536" if "i < POINTS" for i
    using c(2) that by (simp add: point_ratio_def percent_to_ratio_def sdiv_nonneg)
  have "zpt_cursor_acceleration_sensitivity c e = 65536"
  proof (rule speed_in_some_segment [OF c(1), of e], goal_cases)
    case 1
    then show ?thesis using ratio [of 0] by (simp add: sensitivity_ends)
  next
    case 2
    then show ?thesis using ratio [of 7] by (simp add: sensitivity_after_curve [OF c(1)])
  next
    case (3 i)
    then show ?thesis using sensitivity_between [OF c(1), of i e] ratio [of i] ratio [of "i + 1"] by simp
  qed
  moreover have "product_fits v 65536" using v by (simp add: product_fits_def)
  moreover have "rounded_product v 65536 = v" by (simp add: rounded_product_def sgn_if)
  moreover have "in_i64 v" using v by (auto simp: in_i64_def)
  ultimately show ?thesis by (simp add: scale_cases)
qed

text \<open>... but from \<open>2 ^ 48\<close> on (about 4 million metres) it saturates values it could represent.\<close>

lemma even_curve_saturates_large_motion: "scale 281474976710656 65536 = (INT64_MAX, True)"
  by (simp add: scale_def magnitude_abs Let_def)

interpretation acceleration: stage_contract zpt_cursor_acceleration_stage_api
    "\<lambda>c. \<forall>config. c = Some config \<longrightarrow> valid_curve config" "\<lambda>c st. \<forall>state. st = Some state \<longrightarrow> estimate_ok state"
proof (unfold_locales, goal_cases)
  case (1 c st s f now)
  have k: "kind s = SIGNAL_NORMALIZED_MOTION"
    using 1(3) by (rule accepts_mask) (simp_all add: zpt_cursor_acceleration_stage_api_def zpt_signal_kind_valid_def)
  then obtain x y where d: "data s = FixedVector x y" "in_i64 x" "in_i64 y"
    using signal_ok_cases(2) [OF 1(4)] by blast
  have f: "f = cursor_acceleration_stage_process"
    using 1(5) by (simp add: zpt_cursor_acceleration_stage_api_def)
  show ?case
  proof (cases c; cases st)
    fix config state
    assume some: "c = Some config" "st = Some state"
    obtain e state' where o: "zpt_cursor_acceleration_observe config x y (metadata s) state = (e, state')"
      by fastforce
    have ok: "estimate_ok state'" "in_i64 e"
      using observe_ok [of state config x y "metadata s"] 1(2) some o by (auto simp: estimate_ok_def in_i64_def)
    have factor: "1 \<le> zpt_cursor_acceleration_sensitivity config e" "zpt_cursor_acceleration_sensitivity config e \<le> 655360"
      using sensitivity_range [of config e] 1(1) some by simp_all
    show ?thesis
      using d k o ok rounded_product_bounds(1) [OF _ factor(1)]
      by (auto simp: f some cursor_acceleration_stage_process_def scale_cases [OF _ factor] signal_ok_def
          zpt_cursor_acceleration_stage_api_def Let_def)
  qed (use 1(2) in \<open>auto simp: f cursor_acceleration_stage_process_def\<close>)
next
  case (3 c st h reason)
  then show ?case
    by (auto simp: zpt_cursor_acceleration_stage_api_def cursor_acceleration_stage_reset_def estimate_ok_def)
qed (simp_all add: zpt_cursor_acceleration_stage_api_def)

end
