(* ===== verification/Tuning.thy ===== *)
theory Tuning
  imports Zpt_Prelude
begin

text \<open>
  The runtime tuning service (\<open>service/tuning.h\<close>, \<open>service/tuning.c\<close>): a registry of tuning
  targets, each with described parameters, and the operations that read and change them.

  A target's callbacks work on the state \<open>'w\<close> its context pointer leads to; the context is
  already applied. Targets are compared by address in C, so each carries its own. Out-parameters
  are results: \<open>None\<close> where the operation does not write them.
\<close>

section \<open>The model\<close>

abbreviation (input) TUNING_TARGET_PIPELINE_STAGE :: u8 where "TUNING_TARGET_PIPELINE_STAGE \<equiv> 4"
abbreviation (input) TUNING_VALUE_INTEGER :: u8 where "TUNING_VALUE_INTEGER \<equiv> 0"
abbreviation (input) TUNING_VALUE_BOOLEAN :: u8 where "TUNING_VALUE_BOOLEAN \<equiv> 1"

record zpt_tuning_parameter =
  param_id :: u8
  param_type :: u8
  param_key :: "string option"
  param_property :: "string option"
  param_minimum :: int
  param_maximum :: int
  param_step :: int
  param_label :: "string option"
  param_unit :: "string option"
  param_description :: "string option"

record zpt_tuning_value =
  value_id :: u8
  value_new :: int

text \<open>
  \<open>get\<close> returns a code and, when it writes one, the value; \<open>set_many\<close> the code, the parameter it
  blames when it names one, and the state left; \<open>reset\<close> the code and the state left.
\<close>

record 'w zpt_tuning_target =
  target_address :: nat
  target_kind :: u8
  target_stable_id :: "string option"
  target_label :: "string option"
  target_path :: "string option"
  target_parameters :: "zpt_tuning_parameter list option"
  target_parameter_count :: nat
  target_get :: "('w \<Rightarrow> u8 \<Rightarrow> bool \<Rightarrow> int \<times> int option) option"
  target_set_many :: "('w \<Rightarrow> zpt_tuning_value list \<Rightarrow> int \<times> u8 option \<times> 'w) option"
  target_reset :: "('w \<Rightarrow> int \<times> 'w) option"

text \<open>\<open>zpt_tuning_targets\<close> with its count, and the size of the array.\<close>

record 'w tuning_registry =
  zpt_tuning_targets :: "'w zpt_tuning_target list"
  max_targets :: nat

text \<open>A loop that returns the first negative code.\<close>

fun first_error :: "int list \<Rightarrow> int" where
  "first_error [] = 0"
| "first_error (ret # rets) = (if ret < 0 then ret else first_error rets)"

definition described_parameters :: "'w zpt_tuning_target \<Rightarrow> zpt_tuning_parameter list" where
  "described_parameters target = take (target_parameter_count target) (the (target_parameters target))"

definition validate_parameter :: "zpt_tuning_parameter list \<Rightarrow> nat \<Rightarrow> int" where
  "validate_parameter ps i =
     (if param_key (ps ! i) = None \<or> param_property (ps ! i) = None \<or> param_label (ps ! i) = None \<or>
         param_unit (ps ! i) = None \<or> param_description (ps ! i) = None
      then - EINVAL
      else if list_ex (\<lambda>j. param_id (ps ! j) = param_id (ps ! i) \<or> param_key (ps ! j) = param_key (ps ! i)) [0..<i]
      then - EEXIST
      else 0)"

definition validate_target_parameters :: "'w zpt_tuning_target \<Rightarrow> int" where
  "validate_target_parameters target =
     (let ps = described_parameters target in first_error (map (validate_parameter ps) [0..<length ps]))"

definition validate_target :: "'w zpt_tuning_target option \<Rightarrow> int" where
  "validate_target target =
     (case target of
        None \<Rightarrow> - EINVAL
      | Some t \<Rightarrow>
          if target_stable_id t = None \<or> target_label t = None \<or> target_path t = None \<or>
             target_parameters t = None \<or> target_parameter_count t = 0 \<or> target_get t = None \<or>
             target_set_many t = None \<or> target_reset t = None
          then - EINVAL
          else validate_target_parameters t)"

fun find_from :: "'w zpt_tuning_target \<Rightarrow> 'w zpt_tuning_target list \<Rightarrow> nat \<Rightarrow> int" where
  "find_from target [] i = - ENOENT"
| "find_from target (t # ts) i =
     (if target_address t = target_address target then int i
      else if target_stable_id t = target_stable_id target then - EEXIST
      else find_from target ts (i + 1))"

definition find_registered_target :: "'w tuning_registry \<Rightarrow> 'w zpt_tuning_target \<Rightarrow> int" where
  "find_registered_target reg target = find_from target (zpt_tuning_targets reg) 0"

definition zpt_tuning_register :: "'w zpt_tuning_target option \<Rightarrow> 'w tuning_registry \<Rightarrow> int \<times> 'w tuning_registry" where
  "zpt_tuning_register target reg =
     (let ret = validate_target target in
      if ret < 0 then (ret, reg)
      else
        let t = the target; ret = find_registered_target reg t in
        if ret \<noteq> - ENOENT then (ret, reg)
        else if length (zpt_tuning_targets reg) \<ge> max_targets reg then (- ENOMEM, reg)
        else (int (length (zpt_tuning_targets reg)),
          reg\<lparr>zpt_tuning_targets := zpt_tuning_targets reg @ [t]\<rparr>))"

definition zpt_tuning_target_count :: "'w tuning_registry \<Rightarrow> nat" where
  "zpt_tuning_target_count reg = length (zpt_tuning_targets reg)"

definition zpt_tuning_target_get :: "'w tuning_registry \<Rightarrow> u8 \<Rightarrow> 'w zpt_tuning_target option" where
  "zpt_tuning_target_get reg target_id =
     (if unat target_id \<ge> length (zpt_tuning_targets reg) then None
      else Some (zpt_tuning_targets reg ! unat target_id))"

definition zpt_tuning_parameter_get :: "'w zpt_tuning_target option \<Rightarrow> u8 \<Rightarrow> zpt_tuning_parameter option" where
  "zpt_tuning_parameter_get target parameter_id =
     (case target of None \<Rightarrow> None
      | Some t \<Rightarrow> List.find (\<lambda>p. param_id p = parameter_id) (described_parameters t))"

definition zpt_tuning_get :: "'w tuning_registry \<Rightarrow> 'w \<Rightarrow> u8 \<Rightarrow> u8 \<Rightarrow> bool \<Rightarrow> int \<times> int option" where
  "zpt_tuning_get reg w target_id parameter_id compiled =
     (case zpt_tuning_target_get reg target_id of
        None \<Rightarrow> (- ENODEV, None)
      | Some t \<Rightarrow>
          if zpt_tuning_parameter_get (Some t) parameter_id = None then (- ENOENT, None)
          else the (target_get t) w parameter_id compiled)"

definition validate_value_update :: "'w zpt_tuning_target \<Rightarrow> zpt_tuning_value list \<Rightarrow> nat \<Rightarrow> int" where
  "validate_value_update target updates index =
     (let v = updates ! index in
      case zpt_tuning_parameter_get (Some target) (value_id v) of
        None \<Rightarrow> - ENOENT
      | Some p \<Rightarrow>
          if value_new v < param_minimum p \<or> value_new v > param_maximum p \<or>
             param_step p > 1 \<and> i32 (value_new v - param_minimum p) smod param_step p \<noteq> 0
          then - ERANGE
          else if param_type p = TUNING_VALUE_BOOLEAN \<and> value_new v \<noteq> 0 \<and> value_new v \<noteq> 1 then - ERANGE
          else if list_ex (\<lambda>j. value_id (updates ! j) = value_id v) [0..<index] then - EEXIST
          else 0)"

text \<open>The checking loop: the code of the first refused value and the last parameter looked at.\<close>

fun validate_updates :: "'w zpt_tuning_target \<Rightarrow> zpt_tuning_value list \<Rightarrow> nat list \<Rightarrow> u8 option \<Rightarrow> int \<times> u8 option" where
  "validate_updates target updates [] failed = (0, failed)"
| "validate_updates target updates (i # is) failed =
     (let ret = validate_value_update target updates i in
      if ret < 0 then (ret, Some (value_id (updates ! i)))
      else validate_updates target updates is (Some (value_id (updates ! i))))"

definition zpt_tuning_set_many :: "'w tuning_registry \<Rightarrow> 'w \<Rightarrow> u8 \<Rightarrow> zpt_tuning_value list option \<Rightarrow> int \<times> u8 option \<times> 'w" where
  "zpt_tuning_set_many reg w target_id updates =
     (case zpt_tuning_target_get reg target_id of
        None \<Rightarrow> (- ENODEV, None, w)
      | Some t \<Rightarrow>
          if updates = None \<or> updates = Some [] then (- EINVAL, None, w)
          else
            let (ret, failed) = validate_updates t (the updates) [0..<length (the updates)] None in
            if ret < 0 then (ret, failed, w)
            else
              let (ret, blamed, w) = the (target_set_many t) w (the updates)
              in (ret, case blamed of None \<Rightarrow> failed | Some p \<Rightarrow> Some p, w))"

definition zpt_tuning_set :: "'w tuning_registry \<Rightarrow> 'w \<Rightarrow> u8 \<Rightarrow> u8 \<Rightarrow> int \<Rightarrow> int \<times> 'w" where
  "zpt_tuning_set reg w target_id parameter_id v =
     (let (ret, failed, w) = zpt_tuning_set_many reg w target_id (Some [\<lparr>value_id = parameter_id, value_new = v\<rparr>])
      in (ret, w))"

definition zpt_tuning_reset :: "'w tuning_registry \<Rightarrow> 'w \<Rightarrow> u8 \<Rightarrow> int \<times> 'w" where
  "zpt_tuning_reset reg w target_id =
     (case zpt_tuning_target_get reg target_id of
        None \<Rightarrow> (- ENODEV, w) | Some t \<Rightarrow> the (target_reset t) w)"

fun reset_targets :: "'w zpt_tuning_target list \<Rightarrow> int \<Rightarrow> 'w \<Rightarrow> int \<times> 'w" where
  "reset_targets [] result w = (result, w)"
| "reset_targets (t # ts) result w =
     (let (ret, w) = the (target_reset t) w
      in reset_targets ts (if ret < 0 \<and> result = 0 then ret else result) w)"

definition zpt_tuning_reset_all :: "'w tuning_registry \<Rightarrow> 'w \<Rightarrow> int \<times> 'w" where
  "zpt_tuning_reset_all reg w = reset_targets (zpt_tuning_targets reg) 0 w"

section \<open>What validation accepts\<close>

text \<open>The updates a parameter admits.\<close>

definition admits :: "zpt_tuning_parameter \<Rightarrow> int \<Rightarrow> bool" where
  "admits p v \<longleftrightarrow> param_minimum p \<le> v \<and> v \<le> param_maximum p \<and>
     (param_step p > 1 \<longrightarrow> (v - param_minimum p) mod param_step p = 0) \<and>
     (param_type p = TUNING_VALUE_BOOLEAN \<longrightarrow> v = 0 \<or> v = 1)"

text \<open>Every described parameter is within 32 bits, so the step test does not overflow.\<close>

definition narrow :: "zpt_tuning_parameter \<Rightarrow> bool" where
  "narrow p \<longleftrightarrow> in_i32 (param_minimum p) \<and> in_i32 (param_maximum p) \<and> in_i32 (param_maximum p - param_minimum p)"

definition batch_ok :: "zpt_tuning_parameter list \<Rightarrow> zpt_tuning_value list \<Rightarrow> bool" where
  "batch_ok ps updates \<longleftrightarrow> distinct (map value_id updates) \<and>
     (\<forall>v \<in> set updates. \<exists>p \<in> set ps. param_id p = value_id v \<and> admits p (value_new v))"

lemma find_unique:
  assumes "distinct (map param_id ps)" "p \<in> set ps"
  shows "List.find (\<lambda>q. param_id q = param_id p) ps = Some p"
  using assms by (induction ps) (auto simp: rev_image_eqI)

lemma find_none: "(List.find (\<lambda>q. param_id q = k) ps = None) = (k \<notin> param_id ` set ps)"
  by (auto simp: find_None_iff)

lemma validate_value_update_ok:
  assumes ps: "distinct (map param_id ps)" "\<forall>p \<in> set ps. narrow p" "described_parameters t = ps"
  shows "(validate_value_update t updates i = 0) =
    ((\<exists>p \<in> set ps. param_id p = value_id (updates ! i) \<and> admits p (value_new (updates ! i))) \<and>
     (\<forall>j<i. value_id (updates ! j) \<noteq> value_id (updates ! i))) \<and> validate_value_update t updates i \<le> 0"
proof (cases "value_id (updates ! i) \<in> param_id ` set ps")
  case False
  then have "validate_value_update t updates i = - ENOENT"
    using find_none [of "value_id (updates ! i)" ps]
    by (simp add: validate_value_update_def zpt_tuning_parameter_get_def ps(3) Let_def)
  then show ?thesis using False by (auto simp: rev_image_eqI)
next
  case True
  then obtain p where p: "p \<in> set ps" "param_id p = value_id (updates ! i)" by auto
  have only: "q = p" if "q \<in> set ps" "param_id q = value_id (updates ! i)" for q
    using find_unique [OF ps(1) that(1)] find_unique [OF ps(1) p(1)] that(2) p(2) by simp
  have got: "zpt_tuning_parameter_get (Some t) (value_id (updates ! i)) = Some p"
    using find_unique [OF ps(1) p(1)] p(2) by (simp add: zpt_tuning_parameter_get_def ps(3))
  let ?v = "value_new (updates ! i)"
  have step: "i32 (?v - param_minimum p) smod param_step p = (?v - param_minimum p) mod param_step p"
    if "param_minimum p \<le> ?v" "?v \<le> param_maximum p" "param_step p > 1"
  proof -
    have "in_i32 (?v - param_minimum p)"
      using ps(2) p(1) that(1,2) by (auto simp: narrow_def in_i32_def)
    then show ?thesis using that by (simp add: smod_pos_cases)
  qed
  have "(validate_value_update t updates i = 0) =
      (admits p ?v \<and> (\<forall>j<i. value_id (updates ! j) \<noteq> value_id (updates ! i))) \<and> validate_value_update t updates i \<le> 0"
    using step by (auto simp: validate_value_update_def got admits_def list_ex_iff Let_def)
  then show ?thesis using p only by metis
qed

text \<open>The loop accepts exactly the batches that name distinct parameters and admitted updates.\<close>

lemma validate_updates_cases:
  assumes "distinct (map param_id ps)" "\<forall>p \<in> set ps. narrow p" "described_parameters t = ps"
  shows "fst (validate_updates t updates is failed) \<le> 0 \<and>
    ((fst (validate_updates t updates is failed) = 0) = (\<forall>i \<in> set is. validate_value_update t updates i = 0))"
proof (induction "is" arbitrary: failed)
  case (Cons i "is")
  then show ?case using validate_value_update_ok [OF assms, of updates i] by (auto simp: Let_def)
qed simp

lemma validate_updates_iff:
  assumes "distinct (map param_id ps)" "\<forall>p \<in> set ps. narrow p" "described_parameters t = ps"
  shows "(fst (validate_updates t updates [0..<length updates] None) = 0) = batch_ok ps updates"
    "fst (validate_updates t updates [0..<length updates] None) \<le> 0"
proof -
  have "(fst (validate_updates t updates [0..<length updates] None) = 0) =
      (\<forall>i < length updates. (\<exists>p \<in> set ps. param_id p = value_id (updates ! i) \<and> admits p (value_new (updates ! i))) \<and>
        (\<forall>j<i. value_id (updates ! j) \<noteq> value_id (updates ! i)))"
    using validate_updates_cases [OF assms, of updates "[0..<length updates]" None]
      validate_value_update_ok [OF assms, of updates] by auto
  moreover have "distinct (map value_id updates) =
      (\<forall>i < length updates. \<forall>j<i. value_id (updates ! j) \<noteq> value_id (updates ! i))"
    by (auto simp: distinct_conv_nth) (metis nat_neq_iff order_less_trans)+
  ultimately show "(fst (validate_updates t updates [0..<length updates] None) = 0) = batch_ok ps updates"
    by (auto simp: batch_ok_def all_set_conv_all_nth)
  show "fst (validate_updates t updates [0..<length updates] None) \<le> 0"
    using validate_updates_cases [OF assms] by blast
qed

section \<open>The registry\<close>

lemma first_error_cases:
  "first_error rets \<le> 0 \<and> ((first_error rets = 0) = (\<forall>r \<in> set rets. 0 \<le> r))"
  by (induction rets) auto

lemma validate_target_ok:
  assumes "0 \<le> validate_target target"
  obtains t get put res where "target = Some t" "target_stable_id t \<noteq> None" "target_get t = Some get"
    "target_set_many t = Some put" "target_reset t = Some res"
    "distinct (map param_id (described_parameters t))" "validate_target target = 0"
proof -
  obtain t where t: "target = Some t" using assms by (cases target) (simp_all add: validate_target_def)
  have fields: "target_stable_id t \<noteq> None" "target_get t \<noteq> None" "target_set_many t \<noteq> None"
    "target_reset t \<noteq> None" "0 \<le> validate_target_parameters t" "validate_target target = validate_target_parameters t"
    using assms by (auto simp: t validate_target_def split: if_splits)
  let ?ps = "described_parameters t"
  have zero: "validate_target_parameters t = 0"
    using fields(5) first_error_cases unfolding validate_target_parameters_def Let_def by (metis order_antisym)
  then have checked: "0 \<le> validate_parameter ?ps i" if "i < length ?ps" for i
    using first_error_cases [of "map (validate_parameter ?ps) [0..<length ?ps]"] that
    by (simp add: validate_target_parameters_def Let_def)
  have apart: "param_id (?ps ! j) \<noteq> param_id (?ps ! i)" if "i < length ?ps" "j < i" for i j
    using checked [OF that(1)] that(2) by (auto simp: validate_parameter_def list_ex_iff split: if_splits)
  have "distinct (map param_id ?ps)"
    using apart by (auto simp: distinct_conv_nth) (metis nat_neq_iff)
  then show thesis using that t fields zero by auto
qed

definition registry_ok :: "'w tuning_registry \<Rightarrow> bool" where
  "registry_ok reg \<longleftrightarrow> length (zpt_tuning_targets reg) \<le> max_targets reg \<and>
     (\<forall>t \<in> set (zpt_tuning_targets reg). validate_target (Some t) = 0) \<and>
     distinct (map target_stable_id (zpt_tuning_targets reg)) \<and>
     distinct (map target_address (zpt_tuning_targets reg))"

lemma find_from_cases:
  "(find_from t ts i = - ENOENT \<and> target_address t \<notin> target_address ` set ts \<and>
     target_stable_id t \<notin> target_stable_id ` set ts) \<or>
   (find_from t ts i = - EEXIST) \<or>
   (\<exists>j<length ts. find_from t ts i = int (i + j) \<and> target_address (ts ! j) = target_address t)"
proof (induction ts arbitrary: i)
  case (Cons a ts)
  have later: "\<exists>j<length (a # ts). P j" if "\<exists>j<length ts. P (Suc j)" for P using that by auto
  show ?case using Cons.IH [of "i + 1"] by (auto intro!: later)
qed simp

lemma registration_effect:
  assumes ok: "registry_ok reg" and ret: "zpt_tuning_register target reg = (ret, reg')"
  shows "registry_ok reg' \<and> (\<exists>added. zpt_tuning_targets reg' = zpt_tuning_targets reg @ added) \<and>
    (ret < 0 \<longrightarrow> reg' = reg) \<and>
    (0 \<le> ret \<longrightarrow> (\<exists>t. target = Some t \<and> validate_target target = 0 \<and>
      nat ret < length (zpt_tuning_targets reg') \<and>
      target_address (zpt_tuning_targets reg' ! nat ret) = target_address t))"
proof (cases "validate_target target < 0")
  case True
  then show ?thesis using ret ok by (auto simp: zpt_tuning_register_def Let_def)
next
  case False
  then obtain t where t: "target = Some t" "validate_target target = 0"
    using validate_target_ok [of target] by (metis not_less)
  consider (new) "find_registered_target reg t = - ENOENT"
      "target_address t \<notin> target_address ` set (zpt_tuning_targets reg)"
      "target_stable_id t \<notin> target_stable_id ` set (zpt_tuning_targets reg)"
    | (taken) "find_registered_target reg t = - EEXIST"
    | (known) j where "j < length (zpt_tuning_targets reg)" "find_registered_target reg t = int j"
      "target_address (zpt_tuning_targets reg ! j) = target_address t"
    using find_from_cases [of t "zpt_tuning_targets reg" 0] by (auto simp: find_registered_target_def)
  then show ?thesis
  proof cases
    case new
    then show ?thesis using ret ok t False
      by (cases "length (zpt_tuning_targets reg) \<ge> max_targets reg")
        (auto simp: zpt_tuning_register_def registry_ok_def Let_def)
  next
    case taken
    then show ?thesis using ret ok t False by (auto simp: zpt_tuning_register_def Let_def)
  next
    case (known j)
    then have "ret = int j" "reg' = reg" using ret t by (auto simp: zpt_tuning_register_def Let_def)
    then show ?thesis using known ok t by auto
  qed
qed

primrec register_all :: "'w zpt_tuning_target option list \<Rightarrow> 'w tuning_registry \<Rightarrow> int list \<times> 'w tuning_registry" where
  "register_all [] reg = ([], reg)"
| "register_all (t # ts) reg =
     (let (ret, reg) = zpt_tuning_register t reg; (rets, reg) = register_all ts reg in (ret # rets, reg))"

text \<open>
  Over any sequence of registrations the registry holds only validated targets with
  distinct addresses and stable ids, never more than its capacity, and only grows: the id a
  registration returns keeps naming that target.
\<close>

theorem registered_targets_stay_distinct_and_in_place:
  assumes "registry_ok reg"
  shows "registry_ok (snd (register_all ts reg)) \<and>
    (\<exists>added. zpt_tuning_targets (snd (register_all ts reg)) = zpt_tuning_targets reg @ added) \<and>
    length (fst (register_all ts reg)) = length ts \<and>
    (\<forall>k<length ts. 0 \<le> fst (register_all ts reg) ! k \<longrightarrow>
      (\<exists>t. ts ! k = Some t \<and> nat (fst (register_all ts reg) ! k) < length (zpt_tuning_targets (snd (register_all ts reg))) \<and>
        target_address (zpt_tuning_targets (snd (register_all ts reg)) ! nat (fst (register_all ts reg) ! k)) =
          target_address t))"
  using assms
proof (induction ts arbitrary: reg)
  case (Cons target ts)
  obtain ret reg1 where r: "zpt_tuning_register target reg = (ret, reg1)" by fastforce
  obtain rets reg2 where rs: "register_all ts reg1 = (rets, reg2)" by fastforce
  note one = registration_effect [OF Cons.prems r]
  then have "registry_ok reg1" by simp
  note later = Cons.IH [OF this, unfolded rs fst_conv snd_conv]
  obtain first added where grown: "zpt_tuning_targets reg1 = zpt_tuning_targets reg @ first"
      "zpt_tuning_targets reg2 = zpt_tuning_targets reg1 @ added"
    using one later by blast
  have head: "\<exists>t. target = Some t \<and> nat ret < length (zpt_tuning_targets reg2) \<and>
      target_address (zpt_tuning_targets reg2 ! nat ret) = target_address t" if "0 \<le> ret"
    using one that unfolding grown(2) by (auto simp: nth_append)
  have run: "register_all (target # ts) reg = (ret # rets, reg2)" by (simp add: r rs)
  show ?case
    unfolding run fst_conv snd_conv
  proof (intro conjI allI impI)
    show "\<exists>added. zpt_tuning_targets reg2 = zpt_tuning_targets reg @ added" using grown by simp
    show "\<exists>t. (target # ts) ! k = Some t \<and> nat ((ret # rets) ! k) < length (zpt_tuning_targets reg2) \<and>
        target_address (zpt_tuning_targets reg2 ! nat ((ret # rets) ! k)) = target_address t"
      if "k < length (target # ts)" "0 \<le> (ret # rets) ! k" for k
      using that head later by (cases k) auto
  qed (use later in auto)
qed simp

definition sample_parameter :: zpt_tuning_parameter where
  "sample_parameter = \<lparr>param_id = 0, param_type = TUNING_VALUE_INTEGER, param_key = Some ''gain'',
     param_property = Some ''gain'', param_minimum = 1, param_maximum = 9, param_step = 2,
     param_label = Some ''Gain'', param_unit = Some [], param_description = Some []\<rparr>"

text \<open>A target over one integer.\<close>

definition sample_target :: "nat \<Rightarrow> string \<Rightarrow> int zpt_tuning_target" where
  "sample_target address name = \<lparr>target_address = address, target_kind = TUNING_TARGET_PIPELINE_STAGE,
     target_stable_id = Some name, target_label = Some name, target_path = Some ''/stage'',
     target_parameters = Some [sample_parameter], target_parameter_count = 1,
     target_get = Some (\<lambda>w k compiled. (0, Some (if compiled then 1 else w))),
     target_set_many = Some (\<lambda>w vs. (0, None, value_new (hd vs))), target_reset = Some (\<lambda>w. (0, 1))\<rparr>"

definition empty_registry :: "nat \<Rightarrow> 'w tuning_registry" where
  "empty_registry n = \<lparr>zpt_tuning_targets = [], max_targets = n\<rparr>"

theorem registered_targets_stay_distinct_and_in_place_witness:
  "fst (register_all [Some (sample_target 1 ''a''), Some (sample_target 2 ''a''), Some (sample_target 3 ''b''),
      Some (sample_target 1 ''a''), None] (empty_registry 2)) = [0, - EEXIST, 1, 0, - EINVAL] \<and>
   registry_ok (snd (register_all [Some (sample_target 1 ''a''), Some (sample_target 2 ''a''),
      Some (sample_target 3 ''b''), Some (sample_target 1 ''a''), None] (empty_registry 2)))"
proof -
  have "registry_ok (empty_registry 2 :: int tuning_registry)" by (simp add: registry_ok_def empty_registry_def)
  note all = registered_targets_stay_distinct_and_in_place [OF this]
  show ?thesis
    using all [of "[Some (sample_target 1 ''a''), Some (sample_target 2 ''a''), Some (sample_target 3 ''b''),
      Some (sample_target 1 ''a''), None]"]
    by (simp add: zpt_tuning_register_def validate_target_def validate_target_parameters_def validate_parameter_def
        described_parameters_def sample_target_def sample_parameter_def find_registered_target_def
        empty_registry_def Let_def)
qed

end
