(* ===== verification/Stage_Tuning.thy ===== *)
theory Stage_Tuning
  imports Tuning Signal
begin

text \<open>
  Runtime tuning of a pipeline stage (\<open>stage/stage_tuning.h\<close>, the generic half of
  \<open>stage/stage_tuning.c\<close>, and \<open>platform/zmk/stage_tuning.c\<close>): a batch of values is put into a copy
  of the stage's configuration, the copy is checked and applied whole. The contract of a stage's
  tuning operations is the locale \<open>tunable_stage\<close>; the eight stages are in theory
  Stage_Parameters.

  A configuration is copied as a value, so \<open>memcpy(candidate, current, ops->config_size)\<close> is
  \<open>current\<close> itself. Out-parameters are results. \<open>apply_between_frames\<close> is given the results of locking
  and unlocking all routers (theory Platform_Router); its call of \<open>zpt_capture_settings_changed\<close>,
  which marks the change in a running recording and is modelled on the recording's own state in
  theory Telemetry_Capture, is not part of a target's world and is left out here.
\<close>

section \<open>The model\<close>

definition zpt_stage_tuning_fixed_millimeters_to_micrometers :: "int \<Rightarrow> int" where
  "zpt_stage_tuning_fixed_millimeters_to_micrometers v =
     (let scaled = i64 (v * 1000); half = FIXED_ONE div 2;
          micrometers = (if scaled \<ge> 0 then i64 (scaled + half) sdiv FIXED_ONE
            else i64 (scaled - half) sdiv FIXED_ONE)
      in if micrometers > INT32_MAX then INT32_MAX
         else if micrometers < INT32_MIN then INT32_MIN else i32 micrometers)"

definition zpt_stage_tuning_fixed_per_millimeter_to_per_meter :: "int \<Rightarrow> int" where
  "zpt_stage_tuning_fixed_per_millimeter_to_per_meter v =
     zpt_stage_tuning_fixed_millimeters_to_micrometers v"

text \<open>A value set in devicetree units reads back exactly.\<close>

lemma micrometers_round_trip [zpt_simps]:
  assumes "0 \<le> v" "v \<le> 1000000"
  shows "zpt_stage_tuning_fixed_millimeters_to_micrometers (ZPT_MICROMETERS_TO_FIXED_MILLIMETERS v) = v"
proof -
  obtain q r where q: "(v * 65536 + 500) div 1000 = q" "(v * 65536 + 500) = q * 1000 + r" "0 \<le> r" "r < 1000"
    using div_mod_obtain [of 1000 "v * 65536 + 500"] by auto
  have fixed: "ZPT_MICROMETERS_TO_FIXED_MILLIMETERS v = q"
    using assms q(1) by (simp add: micrometers_to_fixed_i32 in_i32_def)
  have "0 \<le> q" "q \<le> 65536001" using assms q by linarith+
  moreover have "(q * 1000 + 32768) div 65536 = v" using q by linarith
  ultimately show ?thesis
    using assms by (simp add: fixed zpt_stage_tuning_fixed_millimeters_to_micrometers_def Let_def in_i64_def
        sdiv_nonneg in_i32_def)
qed

lemma per_meter_round_trip [zpt_simps]:
  assumes "0 \<le> v" "v \<le> 1000000"
  shows "zpt_stage_tuning_fixed_per_millimeter_to_per_meter (ZPT_PER_METER_TO_FIXED_PER_MILLIMETER v) = v"
proof -
  obtain q r where q: "v * 65536 div 1000 = q" "v * 65536 = q * 1000 + r" "0 \<le> r" "r < 1000"
    using div_mod_obtain [of 1000 "v * 65536"] by auto
  have fixed: "ZPT_PER_METER_TO_FIXED_PER_MILLIMETER v = q"
    using assms q(1) by (simp add: per_meter_to_fixed_i32 in_i32_def)
  have "0 \<le> q" "q \<le> 65536000" using assms q by linarith+
  moreover have "(q * 1000 + 32768) div 65536 = v" using q by linarith
  ultimately show ?thesis
    using assms by (simp add: fixed zpt_stage_tuning_fixed_per_millimeter_to_per_meter_def
        zpt_stage_tuning_fixed_millimeters_to_micrometers_def Let_def in_i64_def sdiv_nonneg in_i32_def)
qed

text \<open>\<open>get\<close>: a code and the value when it writes one. \<open>validate\<close>: a code and the parameter it blames.\<close>

record 'c zpt_stage_tuning_ops =
  ops_parameters :: "zpt_tuning_parameter list"
  ops_config_size :: nat
  ops_get :: "'c \<Rightarrow> u8 \<Rightarrow> int \<times> int option"
  ops_put :: "'c \<Rightarrow> u8 \<Rightarrow> int \<Rightarrow> int \<times> 'c"
  ops_validate :: "('c \<Rightarrow> int \<times> u8 option) option"

primrec put_values :: "'c zpt_stage_tuning_ops \<Rightarrow> zpt_tuning_value list \<Rightarrow> 'c \<Rightarrow> int \<times> u8 option \<times> 'c" where
  "put_values ops [] candidate = (0, None, candidate)"
| "put_values ops (v # vs) candidate =
     (let (ret, candidate) = ops_put ops candidate (value_id v) (value_new v) in
      if ret < 0 then (ret, Some (value_id v), candidate) else put_values ops vs candidate)"

definition zpt_stage_tuning_prepare ::
  "'c zpt_stage_tuning_ops option \<Rightarrow> 'c option \<Rightarrow> zpt_tuning_value list option \<Rightarrow> nat \<Rightarrow>
   int \<times> u8 option \<times> 'c option" where
  "zpt_stage_tuning_prepare ops current updates count =
     (case (ops, current) of
        (Some ops, Some current) \<Rightarrow>
          if updates = None \<and> count > 0 then (- EINVAL, None, None)
          else
            let (ret, failed, candidate) = put_values ops (case updates of None \<Rightarrow> [] | Some vs \<Rightarrow> take count vs) current in
            if ret < 0 then (ret, failed, Some candidate)
            else
              let (ret, failed) = (case ops_validate ops of None \<Rightarrow> (0, None) | Some f \<Rightarrow> f candidate)
              in (ret, if ret < 0 then Some (case failed of None \<Rightarrow> 255 | Some k \<Rightarrow> k) else None, Some candidate)
      | _ \<Rightarrow> (- EINVAL, None, None))"

primrec copy_parameters :: "'c zpt_stage_tuning_ops \<Rightarrow> 'c \<Rightarrow> zpt_tuning_parameter list \<Rightarrow> 'c \<Rightarrow> int \<times> 'c" where
  "copy_parameters ops compiled [] candidate = (0, candidate)"
| "copy_parameters ops compiled (p # ps) candidate =
     (let (ret, v) = ops_get ops compiled (param_id p);
          (ret, candidate) = (if ret = 0 then ops_put ops candidate (param_id p) (the v) else (ret, candidate))
      in if ret < 0 then (ret, candidate) else copy_parameters ops compiled ps candidate)"

definition zpt_stage_tuning_prepare_reset ::
  "'c zpt_stage_tuning_ops option \<Rightarrow> 'c option \<Rightarrow> 'c option \<Rightarrow> int \<times> 'c option" where
  "zpt_stage_tuning_prepare_reset ops compiled current =
     (case (ops, compiled, current) of
        (Some ops, Some compiled, Some current) \<Rightarrow>
          let (ret, candidate) = copy_parameters ops compiled (ops_parameters ops) current in (ret, Some candidate)
      | _ \<Rightarrow> (- EINVAL, None))"

text \<open>\<open>apply\<close> takes the current configuration and the candidate and returns a code and the
  configuration left.\<close>

record 'c zpt_stage_tuning_binding =
  bind_ops :: "'c zpt_stage_tuning_ops option"
  bind_compiled :: "'c option"
  bind_current :: "'c option"
  bind_apply :: "('c \<Rightarrow> 'c \<Rightarrow> int \<times> 'c) option"

definition binding_get :: "'c zpt_stage_tuning_binding \<Rightarrow> u8 \<Rightarrow> bool \<Rightarrow> int \<times> int option" where
  "binding_get b parameter_id compiled =
     ops_get (the (bind_ops b)) (the (if compiled then bind_compiled b else bind_current b)) parameter_id"

definition apply_candidate :: "'c zpt_stage_tuning_binding \<Rightarrow> 'c option \<Rightarrow> int \<times> 'c zpt_stage_tuning_binding" where
  "apply_candidate b candidate =
     (let (ret, current) = the (bind_apply b) (the (bind_current b)) (the candidate)
      in (ret, b\<lparr>bind_current := Some current\<rparr>))"

definition binding_set_many ::
  "'c zpt_stage_tuning_binding \<Rightarrow> zpt_tuning_value list \<Rightarrow> int \<times> u8 option \<times> 'c zpt_stage_tuning_binding" where
  "binding_set_many b updates =
     (let (ret, failed, candidate) = zpt_stage_tuning_prepare (bind_ops b) (bind_current b) (Some updates) (length updates) in
      if ret < 0 then (ret, failed, b)
      else let (ret, b) = apply_candidate b candidate in (ret, failed, b))"

definition binding_reset :: "'c zpt_stage_tuning_binding \<Rightarrow> int \<times> 'c zpt_stage_tuning_binding" where
  "binding_reset b =
     (let (ret, candidate) = zpt_stage_tuning_prepare_reset (bind_ops b) (bind_compiled b) (bind_current b) in
      if ret < 0 then (ret, b) else apply_candidate b candidate)"

abbreviation (input) MAX_CONFIG_SIZE :: nat where "MAX_CONFIG_SIZE \<equiv> 96"

text \<open>
  The context pointer of a target leads to a binding inside the state \<open>'w\<close>: \<open>load\<close> and \<open>store\<close>
  dereference it. \<open>address\<close> is the target's own.
\<close>

definition zpt_stage_tuning_target_init ::
  "('w \<Rightarrow> 'c zpt_stage_tuning_binding) \<Rightarrow> ('c zpt_stage_tuning_binding \<Rightarrow> 'w \<Rightarrow> 'w) \<Rightarrow> nat \<Rightarrow>
   'c zpt_stage_tuning_binding option \<Rightarrow> string option \<Rightarrow> string option \<Rightarrow> int \<times> 'w zpt_tuning_target option" where
  "zpt_stage_tuning_target_init load store address binding stable_id path =
     (case binding of
        None \<Rightarrow> (- EINVAL, None)
      | Some b \<Rightarrow>
          if bind_ops b = None \<or> bind_compiled b = None \<or> bind_current b = None \<or> bind_apply b = None \<or>
             ops_config_size (the (bind_ops b)) > MAX_CONFIG_SIZE
          then (- EINVAL, None)
          else (0, Some \<lparr>target_address = address, target_kind = TUNING_TARGET_PIPELINE_STAGE,
            target_stable_id = stable_id, target_label = stable_id, target_path = path,
            target_parameters = Some (ops_parameters (the (bind_ops b))),
            target_parameter_count = length (ops_parameters (the (bind_ops b))),
            target_get = Some (\<lambda>w. binding_get (load w)),
            target_set_many = Some (\<lambda>w updates.
              let (ret, failed, b) = binding_set_many (load w) updates in (ret, failed, store b w)),
            target_reset = Some (\<lambda>w. let (ret, b) = binding_reset (load w) in (ret, store b w))\<rparr>))"

text \<open>
  The platform's \<open>apply\<close>: locks every router, copies, unlocks. The codes of
  \<open>zpt_zmk_router_lock_all\<close> and \<open>zpt_zmk_router_unlock_all\<close> are parameters.
\<close>

definition apply_between_frames :: "int \<Rightarrow> int \<Rightarrow> 'c \<Rightarrow> 'c \<Rightarrow> int \<times> 'c" where
  "apply_between_frames lock_ret unlock_ret current candidate =
     (if lock_ret < 0 then (lock_ret, current) else (unlock_ret, candidate))"

definition zpt_zmk_stage_tuning_register ::
  "int \<Rightarrow> int \<Rightarrow> ('w \<Rightarrow> 'c zpt_stage_tuning_binding) \<Rightarrow> ('c zpt_stage_tuning_binding \<Rightarrow> 'w \<Rightarrow> 'w) \<Rightarrow> nat \<Rightarrow>
   'c zpt_stage_tuning_ops option \<Rightarrow> string option \<Rightarrow> string option \<Rightarrow> 'c option \<Rightarrow> 'c option \<Rightarrow>
   'w tuning_registry \<Rightarrow> 'w \<Rightarrow> int \<times> 'w tuning_registry \<times> 'w" where
  "zpt_zmk_stage_tuning_register lock_ret unlock_ret load store address ops stable_id path compiled current reg w =
     (let b = \<lparr>bind_ops = ops, bind_compiled = compiled, bind_current = current,
                bind_apply = Some (apply_between_frames lock_ret unlock_ret)\<rparr>;
          w = store b w;
          (ret, target) = zpt_stage_tuning_target_init load store address (Some b) stable_id path;
          (ret, reg) = (if ret = 0 then zpt_tuning_register target reg else (ret, reg))
      in (ret, reg, w))"

section \<open>The contract of a stage's tuning operations\<close>

text \<open>
  Every described parameter of a well-shaped configuration (\<open>shape\<close>: its arrays have the length
  of the C arrays) can be read; an admitted value can be put, is what is read afterwards, and
  leaves every other parameter and the rest of the configuration (\<open>rest\<close>: what tuning does not
  own) alone; an unknown parameter is refused and changes nothing.
\<close>

definition reads_back :: "'c zpt_stage_tuning_ops \<Rightarrow> ('c \<Rightarrow> bool) \<Rightarrow> ('c \<Rightarrow> 'r) \<Rightarrow> bool" where
  "reads_back ops shape rest \<longleftrightarrow>
     (\<forall>p \<in> set (ops_parameters ops). \<forall>c. shape c \<longrightarrow>
       (\<exists>v. ops_get ops c (param_id p) = (0, Some v)) \<and>
       (\<forall>v. admits p v \<longrightarrow>
         (\<exists>c'. ops_put ops c (param_id p) v = (0, c') \<and> ops_get ops c' (param_id p) = (0, Some v) \<and>
           (\<forall>k. k \<noteq> param_id p \<longrightarrow> ops_get ops c' k = ops_get ops c k) \<and> shape c' \<and> rest c' = rest c))) \<and>
     (\<forall>k c v. k \<notin> param_id ` set (ops_parameters ops) \<longrightarrow>
       ops_get ops c k = (- ENOENT, None) \<and> ops_put ops c k v = (- ENOENT, c))"

text \<open>What a batch of values makes of a configuration.\<close>

definition tuned :: "'c zpt_stage_tuning_ops \<Rightarrow> ('c \<Rightarrow> bool) \<Rightarrow> ('c \<Rightarrow> 'r) \<Rightarrow> zpt_tuning_value list \<Rightarrow> 'c \<Rightarrow> 'c \<Rightarrow> bool" where
  "tuned ops shape rest vs c c' \<longleftrightarrow> shape c' \<and> rest c' = rest c \<and>
     (\<forall>v \<in> set vs. ops_get ops c' (value_id v) = (0, Some (value_new v))) \<and>
     (\<forall>k. k \<notin> value_id ` set vs \<longrightarrow> ops_get ops c' k = ops_get ops c k)"

locale tunable_stage =
  fixes ops :: "'c zpt_stage_tuning_ops" and shape :: "'c \<Rightarrow> bool" and rest :: "'c \<Rightarrow> 'r"
  assumes described: "distinct (map param_id (ops_parameters ops))" "\<forall>p \<in> set (ops_parameters ops). narrow p"
    and reads_back: "reads_back ops shape rest"
begin

lemma put_known:
  assumes "p \<in> set (ops_parameters ops)" "admits p v" "shape c"
  obtains c' where "ops_put ops c (param_id p) v = (0, c')" "ops_get ops c' (param_id p) = (0, Some v)"
    "\<And>k. k \<noteq> param_id p \<Longrightarrow> ops_get ops c' k = ops_get ops c k" "shape c'" "rest c' = rest c"
  using reads_back assms unfolding reads_back_def by meson

lemma put_values_tunes:
  assumes "batch_ok (ops_parameters ops) vs" "shape c"
  shows "\<exists>c'. put_values ops vs c = (0, None, c') \<and> tuned ops shape rest vs c c'"
  using assms
proof (induction vs arbitrary: c)
  case Nil
  then show ?case by (simp add: tuned_def)
next
  case (Cons v vs)
  from Cons.prems obtain p where p: "p \<in> set (ops_parameters ops)" "param_id p = value_id v" "admits p (value_new v)"
    by (auto simp: batch_ok_def)
  obtain c1 where c1: "ops_put ops c (value_id v) (value_new v) = (0, c1)"
      "ops_get ops c1 (value_id v) = (0, Some (value_new v))"
      "\<And>k. k \<noteq> value_id v \<Longrightarrow> ops_get ops c1 k = ops_get ops c k" "shape c1" "rest c1 = rest c"
    using put_known [OF p(1,3) Cons.prems(2)] unfolding p(2) by blast
  have "batch_ok (ops_parameters ops) vs" "value_id v \<notin> value_id ` set vs"
    using Cons.prems by (auto simp: batch_ok_def)
  then obtain c' where c': "put_values ops vs c1 = (0, None, c')" "tuned ops shape rest vs c1 c'"
    using Cons.IH [of c1] c1(4) by blast
  have "tuned ops shape rest (v # vs) c c'"
    using c'(2) c1 \<open>value_id v \<notin> value_id ` set vs\<close> by (auto simp: tuned_def)
  then show ?case using c'(1) c1(1) by simp
qed

lemma prepare_tunes:
  assumes "batch_ok (ops_parameters ops) vs" "shape c"
  obtains c' where "tuned ops shape rest vs c c'"
    "zpt_stage_tuning_prepare (Some ops) (Some c) (Some vs) (length vs) =
       (let (ret, failed) = (case ops_validate ops of None \<Rightarrow> (0, None) | Some f \<Rightarrow> f c')
        in (ret, if ret < 0 then Some (case failed of None \<Rightarrow> 255 | Some k \<Rightarrow> k) else None, Some c'))"
proof -
  obtain c' where "put_values ops vs c = (0, None, c')" "tuned ops shape rest vs c c'"
    using put_values_tunes [OF assms] by blast
  then show thesis using that by (simp add: zpt_stage_tuning_prepare_def)
qed

text \<open>What every admitted put keeps, a batch keeps.\<close>

lemma put_values_keeps:
  assumes keep: "\<And>p v c. p \<in> set (ops_parameters ops) \<Longrightarrow> admits p v \<Longrightarrow> shape c \<Longrightarrow> P c \<Longrightarrow>
      P (snd (ops_put ops c (param_id p) v))"
    and "batch_ok (ops_parameters ops) vs" "shape c" "P c"
  shows "P (snd (snd (put_values ops vs c)))"
  using assms(2-4)
proof (induction vs arbitrary: c)
  case (Cons v vs)
  from Cons.prems obtain p where p: "p \<in> set (ops_parameters ops)" "param_id p = value_id v" "admits p (value_new v)"
    by (auto simp: batch_ok_def)
  obtain c1 where c1: "ops_put ops c (value_id v) (value_new v) = (0, c1)" "shape c1"
    using put_known [OF p(1,3) Cons.prems(2)] unfolding p(2) by blast
  then have "P c1" using keep [OF p(1,3) Cons.prems(2,3)] p(2) by simp
  moreover have "batch_ok (ops_parameters ops) vs" using Cons.prems(1) by (auto simp: batch_ok_def)
  ultimately show ?case using Cons.IH c1 by simp
qed simp

text \<open>
  A predicate that every admitted put keeps, once the checks across parameters have passed, holds
  of what \<open>prepare\<close> returns.
\<close>

lemma prepare_keeps:
  assumes keep: "\<And>p v c. p \<in> set (ops_parameters ops) \<Longrightarrow> admits p v \<Longrightarrow> shape c \<Longrightarrow> P c \<Longrightarrow>
      P (snd (ops_put ops c (param_id p) v))"
    and batch: "batch_ok (ops_parameters ops) vs" and c: "shape c" "P c"
    and prepared: "zpt_stage_tuning_prepare (Some ops) (Some c) (Some vs) (length vs) = (ok, None, Some c')" "0 \<le> ok"
  shows "shape c'" "P c'" "\<forall>f. ops_validate ops = Some f \<longrightarrow> 0 \<le> fst (f c')"
proof -
  obtain c1 where c1: "put_values ops vs c = (0, None, c1)" "tuned ops shape rest vs c c1"
    using put_values_tunes [OF batch c(1)] by blast
  then have "c' = c1" "\<forall>f. ops_validate ops = Some f \<longrightarrow> 0 \<le> fst (f c')"
    using prepared by (auto simp: zpt_stage_tuning_prepare_def split: option.splits if_splits prod.splits)
  then show "shape c'" "P c'" "\<forall>f. ops_validate ops = Some f \<longrightarrow> 0 \<le> fst (f c')"
    using put_values_keeps [of P, OF keep batch c] c1 by (auto simp: tuned_def)
qed

text \<open>Copying parameters makes them read as they do in the source.\<close>

lemma copy_parameters_copies:
  assumes "set ps \<subseteq> set (ops_parameters ops)"
    and "\<forall>p \<in> set ps. \<forall>v. ops_get ops compiled (param_id p) = (0, Some v) \<longrightarrow> admits p v"
    and "shape compiled" "shape c"
  shows "\<exists>c'. copy_parameters ops compiled ps c = (0, c') \<and> shape c' \<and> rest c' = rest c \<and>
    (\<forall>k. ops_get ops c' k = (if k \<in> param_id ` set ps then ops_get ops compiled k else ops_get ops c k))"
  using assms
proof (induction ps arbitrary: c)
  case Nil
  then show ?case by simp
next
  case (Cons p ps)
  have p: "p \<in> set (ops_parameters ops)" using Cons.prems(1) by simp
  then obtain v where v: "ops_get ops compiled (param_id p) = (0, Some v)"
    using reads_back Cons.prems(3) unfolding reads_back_def by meson
  with Cons.prems(2) have "admits p v" by simp
  from put_known [OF p this Cons.prems(4)] obtain c1 where c1: "ops_put ops c (param_id p) v = (0, c1)"
      "ops_get ops c1 (param_id p) = (0, Some v)"
      "\<And>k. k \<noteq> param_id p \<Longrightarrow> ops_get ops c1 k = ops_get ops c k" "shape c1" "rest c1 = rest c"
    by blast
  obtain c' where c': "copy_parameters ops compiled ps c1 = (0, c')" "shape c'" "rest c' = rest c1"
      "\<forall>k. ops_get ops c' k = (if k \<in> param_id ` set ps then ops_get ops compiled k else ops_get ops c1 k)"
    using Cons.IH [of c1] Cons.prems c1(4) by auto
  have "ops_get ops c' k = (if k \<in> param_id ` set (p # ps) then ops_get ops compiled k else ops_get ops c k)" for k
    using c'(4) c1(2,3) v by (cases "k = param_id p") auto
  then show ?case using c'(1,2,3) c1(1,5) v by simp
qed

lemma unknown_reads_alike:
  "k \<notin> param_id ` set (ops_parameters ops) \<Longrightarrow> ops_get ops c k = ops_get ops c' k"
  using reads_back by (simp add: reads_back_def)

lemma prepare_reset_restores:
  assumes "\<forall>p \<in> set (ops_parameters ops). \<forall>v. ops_get ops compiled (param_id p) = (0, Some v) \<longrightarrow> admits p v"
    and "shape compiled" "shape c"
  shows "\<exists>c'. zpt_stage_tuning_prepare_reset (Some ops) (Some compiled) (Some c) = (0, Some c') \<and>
    shape c' \<and> rest c' = rest c \<and> (\<forall>k. ops_get ops c' k = ops_get ops compiled k)"
  using copy_parameters_copies [OF order_refl assms] unknown_reads_alike
  by (fastforce simp: zpt_stage_tuning_prepare_reset_def)

end

section \<open>A stage behind the service\<close>

text \<open>
  Target \<open>target_id\<close> of the registry is the one built for the binding \<open>b\<close> found in the state \<open>w\<close>,
  whose configuration is \<open>c\<close>; the platform applies candidates between frames.
\<close>

record ('w, 'c) tuning_place =
  place_load :: "'w \<Rightarrow> 'c zpt_stage_tuning_binding"
  place_store :: "'c zpt_stage_tuning_binding \<Rightarrow> 'w \<Rightarrow> 'w"
  place_lock :: int
  place_unlock :: int
  place_ops :: "'c zpt_stage_tuning_ops"

definition serves :: "('w, 'c) tuning_place \<Rightarrow> 'w tuning_registry \<Rightarrow> u8 \<Rightarrow> 'w \<Rightarrow> 'c \<Rightarrow> 'c \<Rightarrow> bool" where
  "serves pl reg target_id w compiled c \<longleftrightarrow>
     (\<forall>b w'. place_load pl (place_store pl b w') = b) \<and> (\<forall>w'. place_store pl (place_load pl w') w' = w') \<and>
     place_load pl w = \<lparr>bind_ops = Some (place_ops pl), bind_compiled = Some compiled, bind_current = Some c,
       bind_apply = Some (apply_between_frames (place_lock pl) (place_unlock pl))\<rparr> \<and>
     (\<exists>address stable_id path t.
       zpt_stage_tuning_target_init (place_load pl) (place_store pl) address (Some (place_load pl w)) stable_id path =
         (0, Some t) \<and>
       zpt_tuning_target_get reg target_id = Some t)"

lemma serves_target:
  assumes "serves pl reg target_id w compiled c"
  obtains t where "zpt_tuning_target_get reg target_id = Some t"
    "described_parameters t = ops_parameters (place_ops pl)"
    "target_get t = Some (\<lambda>w. binding_get (place_load pl w))"
    "target_set_many t = Some (\<lambda>w updates.
       let (ret, failed, b) = binding_set_many (place_load pl w) updates in (ret, failed, place_store pl b w))"
    "target_reset t = Some (\<lambda>w. let (ret, b) = binding_reset (place_load pl w) in (ret, place_store pl b w))"
proof -
  obtain address stable_id path t where t:
    "zpt_stage_tuning_target_init (place_load pl) (place_store pl) address (Some (place_load pl w)) stable_id path = (0, Some t)"
    "zpt_tuning_target_get reg target_id = Some t"
    using assms unfolding serves_def by blast
  have ops: "bind_ops (place_load pl w) = Some (place_ops pl)" using assms by (simp add: serves_def)
  show thesis
    by (rule that [OF t(2)])
      (use t(1) ops in \<open>auto simp: zpt_stage_tuning_target_init_def described_parameters_def split: if_splits\<close>)
qed

lemma serves_keeps:
  assumes "serves pl reg target_id w compiled c"
  shows "place_store pl (place_load pl w) w = w"
    "serves pl reg target_id (place_store pl ((place_load pl w)\<lparr>bind_current := Some c'\<rparr>) w) compiled c'"
proof -
  show "place_store pl (place_load pl w) w = w" using assms unfolding serves_def by blast
  let ?b = "(place_load pl w)\<lparr>bind_current := Some c'\<rparr>"
  obtain address stable_id path t where t:
    "zpt_stage_tuning_target_init (place_load pl) (place_store pl) address (Some (place_load pl w)) stable_id path = (0, Some t)"
    "zpt_tuning_target_get reg target_id = Some t"
    using assms unfolding serves_def by blast
  have b: "place_load pl w = \<lparr>bind_ops = Some (place_ops pl), bind_compiled = Some compiled, bind_current = Some c,
       bind_apply = Some (apply_between_frames (place_lock pl) (place_unlock pl))\<rparr>"
    and laws: "\<And>b w'. place_load pl (place_store pl b w') = b" "\<And>w'. place_store pl (place_load pl w') w' = w'"
    using assms by (simp_all add: serves_def)
  have "zpt_stage_tuning_target_init (place_load pl) (place_store pl) address (Some ?b) stable_id path = (0, Some t)"
    using t(1) by (auto simp: zpt_stage_tuning_target_init_def b split: if_splits)
  then show "serves pl reg target_id (place_store pl ?b w) compiled c'"
    unfolding serves_def using t(2) b laws by auto
qed

text \<open>What the service reads of a stage.\<close>

lemma service_reads:
  assumes laws: "tunable_stage (place_ops pl) shape rest" and at: "serves pl reg target_id w compiled c"
  shows "zpt_tuning_get reg w target_id k from_compiled = ops_get (place_ops pl) (if from_compiled then compiled else c) k"
proof -
  obtain t where t: "zpt_tuning_target_get reg target_id = Some t"
    "described_parameters t = ops_parameters (place_ops pl)"
    "target_get t = Some (\<lambda>w. binding_get (place_load pl w))"
    "target_set_many t = Some (\<lambda>w updates.
       let (ret, failed, b) = binding_set_many (place_load pl w) updates in (ret, failed, place_store pl b w))"
    "target_reset t = Some (\<lambda>w. let (ret, b) = binding_reset (place_load pl w) in (ret, place_store pl b w))"
    using at by (rule serves_target)
  have b: "place_load pl w = \<lparr>bind_ops = Some (place_ops pl), bind_compiled = Some compiled, bind_current = Some c,
       bind_apply = Some (apply_between_frames (place_lock pl) (place_unlock pl))\<rparr>"
    using at by (simp add: serves_def)
  show ?thesis
  proof (cases "k \<in> param_id ` set (ops_parameters (place_ops pl))")
    case True
    then have "zpt_tuning_parameter_get (Some t) k \<noteq> None"
      unfolding zpt_tuning_parameter_get_def option.case t(2) find_none by blast
    then show ?thesis by (auto simp: zpt_tuning_get_def t(1,3) binding_get_def b)
  next
    case False
    then have "zpt_tuning_parameter_get (Some t) k = None"
      unfolding zpt_tuning_parameter_get_def option.case t(2) find_none by blast
    moreover have "ops_get (place_ops pl) c' k = (- ENOENT, None)" for c'
      using tunable_stage.reads_back [OF laws] False by (simp add: reads_back_def)
    ultimately show ?thesis by (simp add: zpt_tuning_get_def t(1))
  qed
qed

text \<open>The outcome of a batch: refused and without effect, or applied whole.\<close>

lemma service_sets:
  assumes laws: "tunable_stage (place_ops pl) shape rest" and at: "serves pl reg target_id w compiled c" and shape: "shape c"
    and outcome: "zpt_tuning_set_many reg w target_id (Some vs) = (ret, failed, w')"
  shows "(ret < 0 \<and> w' = w) \<or>
    (ret = place_unlock pl \<and> vs \<noteq> [] \<and> batch_ok (ops_parameters (place_ops pl)) vs \<and>
     (\<exists>c' ok. serves pl reg target_id w' compiled c' \<and> tuned (place_ops pl) shape rest vs c c' \<and> 0 \<le> ok \<and>
       zpt_stage_tuning_prepare (Some (place_ops pl)) (Some c) (Some vs) (length vs) = (ok, None, Some c')))"
proof -
  obtain t where t: "zpt_tuning_target_get reg target_id = Some t"
    "described_parameters t = ops_parameters (place_ops pl)"
    "target_get t = Some (\<lambda>w. binding_get (place_load pl w))"
    "target_set_many t = Some (\<lambda>w updates.
       let (ret, failed, b) = binding_set_many (place_load pl w) updates in (ret, failed, place_store pl b w))"
    "target_reset t = Some (\<lambda>w. let (ret, b) = binding_reset (place_load pl w) in (ret, place_store pl b w))"
    using at by (rule serves_target)
  have b: "bind_ops (place_load pl w) = Some (place_ops pl)" "bind_current (place_load pl w) = Some c"
    "bind_apply (place_load pl w) = Some (apply_between_frames (place_lock pl) (place_unlock pl))"
    using at by (simp_all add: serves_def)
  note same = serves_keeps(1) [OF at]
  note valid = validate_updates_iff [OF tunable_stage.described [OF laws] t(2), of vs]
  obtain r f where r: "validate_updates t vs [0..<length vs] None = (r, f)" by fastforce
  show ?thesis
  proof (cases "vs = [] \<or> r < 0")
    case True
    then have "zpt_tuning_set_many reg w target_id (Some vs) = (if vs = [] then (- EINVAL, None, w) else (r, f, w))"
      by (auto simp: zpt_tuning_set_many_def t(1) r)
    then show ?thesis using outcome True by (auto split: if_splits)
  next
    case False
    then have "r = 0" using valid(2) by (simp add: r)
    then have batch: "batch_ok (ops_parameters (place_ops pl)) vs" using valid(1) by (simp add: r)
    obtain c' where c': "tuned (place_ops pl) shape rest vs c c'"
      "zpt_stage_tuning_prepare (Some (place_ops pl)) (Some c) (Some vs) (length vs) =
         (let (ret, failed) = (case ops_validate (place_ops pl) of None \<Rightarrow> (0, None) | Some f \<Rightarrow> f c')
          in (ret, if ret < 0 then Some (case failed of None \<Rightarrow> 255 | Some k \<Rightarrow> k) else None, Some c'))"
      using tunable_stage.prepare_tunes [OF laws batch shape] by blast
    obtain ok blamed where prepared: "zpt_stage_tuning_prepare (Some (place_ops pl)) (Some c) (Some vs) (length vs) =
        (ok, blamed, Some c')" "0 \<le> ok \<Longrightarrow> blamed = None"
      using c'(2) by (cases "case ops_validate (place_ops pl) of None \<Rightarrow> (0, None) | Some f \<Rightarrow> f c'") auto
    let ?b' = "(place_load pl w)\<lparr>bind_current := Some c'\<rparr>"
    have many: "binding_set_many (place_load pl w) vs =
        (if ok < 0 then (ok, blamed, place_load pl w)
         else if place_lock pl < 0 then (place_lock pl, blamed, place_load pl w)
         else (place_unlock pl, blamed, ?b'))"
      using b by (cases "place_load pl w")
        (simp add: binding_set_many_def prepared(1) apply_candidate_def apply_between_frames_def)
    have "zpt_tuning_set_many reg w target_id (Some vs) =
        (let (ret, blamed, b) = binding_set_many (place_load pl w) vs
         in (ret, case blamed of None \<Rightarrow> f | Some p \<Rightarrow> Some p, place_store pl b w))"
      using False \<open>r = 0\<close> by (simp add: zpt_tuning_set_many_def t(1,4) r case_prod_unfold Let_def cong: option.case_cong)
    then have "(ret < 0 \<and> w' = w) \<or>
        (0 \<le> ok \<and> ret = place_unlock pl \<and> w' = place_store pl ?b' w)"
      using outcome same unfolding many by (auto split: if_splits)
    then show ?thesis
      using False batch c'(1) prepared serves_keeps(2) [OF at, of c'] by auto
  qed
qed

lemma service_resets:
  assumes laws: "tunable_stage (place_ops pl) shape rest" and at: "serves pl reg target_id w compiled c"
    and shape: "shape compiled" "shape c"
    and admitted: "\<forall>p \<in> set (ops_parameters (place_ops pl)). \<forall>v.
      ops_get (place_ops pl) compiled (param_id p) = (0, Some v) \<longrightarrow> admits p v"
    and outcome: "zpt_tuning_reset reg w target_id = (ret, w')"
  shows "(place_lock pl < 0 \<and> ret = place_lock pl \<and> w' = w) \<or>
    (0 \<le> place_lock pl \<and> ret = place_unlock pl \<and>
     (\<exists>c'. serves pl reg target_id w' compiled c' \<and> shape c' \<and> rest c' = rest c \<and>
       (\<forall>k. ops_get (place_ops pl) c' k = ops_get (place_ops pl) compiled k)))"
proof -
  obtain t where t: "zpt_tuning_target_get reg target_id = Some t"
    "described_parameters t = ops_parameters (place_ops pl)"
    "target_get t = Some (\<lambda>w. binding_get (place_load pl w))"
    "target_set_many t = Some (\<lambda>w updates.
       let (ret, failed, b) = binding_set_many (place_load pl w) updates in (ret, failed, place_store pl b w))"
    "target_reset t = Some (\<lambda>w. let (ret, b) = binding_reset (place_load pl w) in (ret, place_store pl b w))"
    using at by (rule serves_target)
  have b: "bind_ops (place_load pl w) = Some (place_ops pl)" "bind_current (place_load pl w) = Some c"
    "bind_compiled (place_load pl w) = Some compiled"
    "bind_apply (place_load pl w) = Some (apply_between_frames (place_lock pl) (place_unlock pl))"
    using at by (simp_all add: serves_def)
  obtain c' where c': "zpt_stage_tuning_prepare_reset (Some (place_ops pl)) (Some compiled) (Some c) = (0, Some c')"
    "shape c'" "rest c' = rest c" "\<forall>k. ops_get (place_ops pl) c' k = ops_get (place_ops pl) compiled k"
    using tunable_stage.prepare_reset_restores [OF laws admitted shape] by blast
  have "binding_reset (place_load pl w) =
      (if place_lock pl < 0 then (place_lock pl, place_load pl w)
       else (place_unlock pl, (place_load pl w)\<lparr>bind_current := Some c'\<rparr>))"
    using b c'(1) by (cases "place_load pl w") (simp add: binding_reset_def apply_candidate_def apply_between_frames_def)
  then show ?thesis
    using outcome serves_keeps [OF at] c'(2,3,4) by (auto simp: zpt_tuning_reset_def t(1,5) split: if_splits)
qed

end
