(* ===== verification/Stage_Parameters.thy ===== *)
theory Stage_Parameters
  imports Stage_Tuning Motion_Gate Cursor_Transfer Scroll_Batcher Text_Nav Axis_Intent Axis_Constraint
    Cursor_Acceleration Cursor_Coalescer
begin

text \<open>
  The tunable parameters of the eight stages (the stage-specific half of \<open>stage/stage_tuning.c\<close>):
  their tables, the conversions to and from each configuration, the checks across parameters, and
  an interpretation of \<open>tunable_stage\<close> for each.

  Strings are the bytes of the UTF-8 source. \<open>sizeof\<close> of a configuration depends on the platform
  and is the argument \<open>bytes\<close> of the operations; the field pointers of \<open>acceleration_field\<close> and
  \<open>coalescer_field\<close> are values that name the field, read and written by a function each.
\<close>

definition parameter ::
  "u8 \<Rightarrow> u8 \<Rightarrow> string \<Rightarrow> string \<Rightarrow> int \<Rightarrow> int \<Rightarrow> int \<Rightarrow> string \<Rightarrow> string \<Rightarrow> string \<Rightarrow> zpt_tuning_parameter" where
  "parameter k ty name property lo hi st lab un about =
     \<lparr>param_id = k, param_type = ty, param_key = Some name, param_property = Some property, param_minimum = lo,
      param_maximum = hi, param_step = st, param_label = Some lab, param_unit = Some un, param_description = Some about\<rparr>"

lemma parameter_simps [simp]:
  "param_id (parameter k ty name property lo hi st lab un about) = k"
  "admits (parameter k ty name property lo hi st lab un about) v \<longleftrightarrow> lo \<le> v \<and> v \<le> hi \<and>
     (st > 1 \<longrightarrow> (v - lo) mod st = 0) \<and> (ty = TUNING_VALUE_BOOLEAN \<longrightarrow> v = 0 \<or> v = 1)"
  "narrow (parameter k ty name property lo hi st lab un about) \<longleftrightarrow>
     in_i32 lo \<and> in_i32 hi \<and> in_i32 (hi - lo)"
  by (simp_all add: parameter_def admits_def narrow_def)

lemma u16_of_int [simp]: "0 \<le> v \<Longrightarrow> v \<le> 65535 \<Longrightarrow> uint (word_of_int v :: u16) = v"
  by (simp add: uint_word_of_int)

section \<open>The motion gate\<close>

abbreviation (input) GATE_ENABLED :: u8 where "GATE_ENABLED \<equiv> 0"

abbreviation (input) GATE_ACTIVATION_DISTANCE :: u8 where "GATE_ACTIVATION_DISTANCE \<equiv> 1"

abbreviation (input) GATE_COHERENCE :: u8 where "GATE_COHERENCE \<equiv> 2"

abbreviation (input) GATE_QUALIFICATION_TIMEOUT :: u8 where "GATE_QUALIFICATION_TIMEOUT \<equiv> 3"

abbreviation (input) GATE_IDLE_TIMEOUT :: u8 where "GATE_IDLE_TIMEOUT \<equiv> 4"

definition gate_parameters :: "zpt_tuning_parameter list" where
  "gate_parameters = [
     parameter GATE_ENABLED TUNING_VALUE_BOOLEAN ''enabled'' ''enabled'' 0 1 1 ''Enabled'' []
       ''Hold back motion until it moves far enough in a consistent direction; off passes every frame through.'',
     parameter GATE_ACTIVATION_DISTANCE TUNING_VALUE_INTEGER ''activation-distance'' ''activation-distance-micrometers'' 1 20000 1 ''Activation distance'' ([CHR 0xC2, CHR 0xB5] @ ''m'')
       ''Ball travel needed before motion starts. Raise it if resting your hand nudges the cursor.'',
     parameter GATE_COHERENCE TUNING_VALUE_INTEGER ''coherence'' ''coherence-percent'' 0 100 1 ''Coherence'' ''%''
       ''How consistently held-back motion must point one way to count as intended.'',
     parameter GATE_QUALIFICATION_TIMEOUT TUNING_VALUE_INTEGER ''qualification-timeout'' ''qualification-timeout-ms'' 1 5000 1 ''Qualification timeout'' ''ms''
       ''How long held-back motion may take to qualify before it is discarded.'',
     parameter GATE_IDLE_TIMEOUT TUNING_VALUE_INTEGER ''idle-timeout'' ''idle-timeout-ms'' 1 5000 1 ''Idle timeout'' ''ms''
       ''Pause after which the gate closes and motion must qualify again.'']"

definition gate_get :: "zpt_coherent_displacement_stage_config \<Rightarrow> u8 \<Rightarrow> int \<times> int option" where
  "gate_get c k =
    (if k = GATE_ENABLED then (0, Some (if enabled (cd_settings c) then 1 else 0))
      else if k = GATE_ACTIVATION_DISTANCE then (0, Some (zpt_stage_tuning_fixed_millimeters_to_micrometers (cd_activation_distance (cd_settings c))))
      else if k = GATE_COHERENCE then (0, Some (uint (coherence_percent (cd_settings c))))
      else if k = GATE_QUALIFICATION_TIMEOUT then (0, Some (uint (qualification_timeout_ms (cd_settings c))))
      else if k = GATE_IDLE_TIMEOUT then (0, Some (uint (cd_idle_timeout_ms (cd_settings c))))
     else (- ENOENT, None))"

definition gate_put :: "zpt_coherent_displacement_stage_config \<Rightarrow> u8 \<Rightarrow> int \<Rightarrow> int \<times> zpt_coherent_displacement_stage_config" where
  "gate_put c k v =
    (if k = GATE_ENABLED then (0, c\<lparr>cd_settings := (cd_settings c)\<lparr>enabled := v \<noteq> 0\<rparr>\<rparr>)
      else if k = GATE_ACTIVATION_DISTANCE then (0, c\<lparr>cd_settings := (cd_settings c)\<lparr>cd_activation_distance := ZPT_MICROMETERS_TO_FIXED_MILLIMETERS v\<rparr>\<rparr>)
      else if k = GATE_COHERENCE then (0, c\<lparr>cd_settings := (cd_settings c)\<lparr>coherence_percent := word_of_int v\<rparr>\<rparr>)
      else if k = GATE_QUALIFICATION_TIMEOUT then (0, c\<lparr>cd_settings := (cd_settings c)\<lparr>qualification_timeout_ms := word_of_int v\<rparr>\<rparr>)
      else if k = GATE_IDLE_TIMEOUT then (0, c\<lparr>cd_settings := (cd_settings c)\<lparr>cd_idle_timeout_ms := word_of_int v\<rparr>\<rparr>)
     else (- ENOENT, c))"

definition zpt_coherent_displacement_tuning_ops :: "nat \<Rightarrow> zpt_coherent_displacement_stage_config zpt_stage_tuning_ops" where
  "zpt_coherent_displacement_tuning_ops bytes = \<lparr>ops_parameters = gate_parameters, ops_config_size = bytes,
     ops_get = gate_get, ops_put = gate_put, ops_validate = None\<rparr>"

section \<open>The cursor transfer\<close>

abbreviation (input) TRANSFER_SCALE_MULTIPLIER :: u8 where "TRANSFER_SCALE_MULTIPLIER \<equiv> 0"

abbreviation (input) TRANSFER_SCALE_DIVISOR :: u8 where "TRANSFER_SCALE_DIVISOR \<equiv> 1"

definition transfer_parameters :: "zpt_tuning_parameter list" where
  "transfer_parameters = [
     parameter TRANSFER_SCALE_MULTIPLIER TUNING_VALUE_INTEGER ''scale-multiplier'' ''scale-multiplier'' 0 1000 1 ''Gain multiplier'' [CHR 0xC3, CHR 0x97]
       (''Cursor gain numerator: pointer distance is ball distance '' @ [CHR 0xC3, CHR 0x97] @ '' multiplier '' @ [CHR 0xC3, CHR 0xB7] @ '' divisor.''),
     parameter TRANSFER_SCALE_DIVISOR TUNING_VALUE_INTEGER ''scale-divisor'' ''scale-divisor'' 1 1000 1 ''Gain divisor'' [CHR 0xC3, CHR 0xB7]
       ''Cursor gain denominator.'']"

definition transfer_get :: "zpt_cursor_transfer_config \<Rightarrow> u8 \<Rightarrow> int \<times> int option" where
  "transfer_get c k =
    (if k = TRANSFER_SCALE_MULTIPLIER then (0, Some (uint (scale_multiplier c)))
      else if k = TRANSFER_SCALE_DIVISOR then (0, Some (uint (scale_divisor c)))
     else (- ENOENT, None))"

definition transfer_put :: "zpt_cursor_transfer_config \<Rightarrow> u8 \<Rightarrow> int \<Rightarrow> int \<times> zpt_cursor_transfer_config" where
  "transfer_put c k v =
    (if k = TRANSFER_SCALE_MULTIPLIER then (0, c\<lparr>scale_multiplier := word_of_int v\<rparr>)
      else if k = TRANSFER_SCALE_DIVISOR then (0, c\<lparr>scale_divisor := word_of_int v\<rparr>)
     else (- ENOENT, c))"

definition zpt_cursor_transfer_tuning_ops :: "nat \<Rightarrow> zpt_cursor_transfer_config zpt_stage_tuning_ops" where
  "zpt_cursor_transfer_tuning_ops bytes = \<lparr>ops_parameters = transfer_parameters, ops_config_size = bytes,
     ops_get = transfer_get, ops_put = transfer_put, ops_validate = None\<rparr>"

section \<open>The scroll batcher\<close>

abbreviation (input) SCROLL_STEPS_PER_METER :: u8 where "SCROLL_STEPS_PER_METER \<equiv> 0"

abbreviation (input) SCROLL_REPORT_INTERVAL :: u8 where "SCROLL_REPORT_INTERVAL \<equiv> 1"

definition scroll_parameters :: "zpt_tuning_parameter list" where
  "scroll_parameters = [
     parameter SCROLL_STEPS_PER_METER TUNING_VALUE_INTEGER ''steps-per-meter'' ''steps-per-meter'' 1 100000 1 ''Scroll speed'' ''steps/m''
       ''Wheel steps per metre of ball travel along the engaged axis.'',
     parameter SCROLL_REPORT_INTERVAL TUNING_VALUE_INTEGER ''report-interval'' ''report-interval-ms'' 1 1000 1 ''Report interval'' ''ms''
       ''How often accumulated scroll is sent. Longer intervals send fewer, larger steps.'']"

definition scroll_get :: "zpt_scroll_batcher_config \<Rightarrow> u8 \<Rightarrow> int \<times> int option" where
  "scroll_get c k =
    (if k = SCROLL_STEPS_PER_METER then (0, Some (zpt_stage_tuning_fixed_per_millimeter_to_per_meter (steps_per_millimeter c)))
      else if k = SCROLL_REPORT_INTERVAL then (0, Some (uint (report_interval_ms c)))
     else (- ENOENT, None))"

definition scroll_put :: "zpt_scroll_batcher_config \<Rightarrow> u8 \<Rightarrow> int \<Rightarrow> int \<times> zpt_scroll_batcher_config" where
  "scroll_put c k v =
    (if k = SCROLL_STEPS_PER_METER then (0, c\<lparr>steps_per_millimeter := ZPT_PER_METER_TO_FIXED_PER_MILLIMETER v\<rparr>)
      else if k = SCROLL_REPORT_INTERVAL then (0, c\<lparr>report_interval_ms := word_of_int v\<rparr>)
     else (- ENOENT, c))"

definition zpt_scroll_batcher_tuning_ops :: "nat \<Rightarrow> zpt_scroll_batcher_config zpt_stage_tuning_ops" where
  "zpt_scroll_batcher_tuning_ops bytes = \<lparr>ops_parameters = scroll_parameters, ops_config_size = bytes,
     ops_get = scroll_get, ops_put = scroll_put, ops_validate = None\<rparr>"

section \<open>Text navigation\<close>

abbreviation (input) TEXT_HORIZONTAL_THRESHOLD :: u8 where "TEXT_HORIZONTAL_THRESHOLD \<equiv> 0"

abbreviation (input) TEXT_VERTICAL_THRESHOLD :: u8 where "TEXT_VERTICAL_THRESHOLD \<equiv> 1"

abbreviation (input) TEXT_IDLE_TIMEOUT :: u8 where "TEXT_IDLE_TIMEOUT \<equiv> 2"

definition text_parameters :: "zpt_tuning_parameter list" where
  "text_parameters = [
     parameter TEXT_HORIZONTAL_THRESHOLD TUNING_VALUE_INTEGER ''horizontal-threshold'' ''horizontal-threshold-micrometers'' 1 50000 1 ''Horizontal step'' ([CHR 0xC2, CHR 0xB5] @ ''m'')
       ''Ball travel per left or right key tap.'',
     parameter TEXT_VERTICAL_THRESHOLD TUNING_VALUE_INTEGER ''vertical-threshold'' ''vertical-threshold-micrometers'' 1 50000 1 ''Vertical step'' ([CHR 0xC2, CHR 0xB5] @ ''m'')
       ''Ball travel per up or down key tap.'',
     parameter TEXT_IDLE_TIMEOUT TUNING_VALUE_INTEGER ''idle-timeout'' ''idle-timeout-ms'' 1 5000 1 ''Idle timeout'' ''ms''
       ''Pause after which partial travel toward the next tap is dropped.'']"

definition text_get :: "zpt_text_nav_config \<Rightarrow> u8 \<Rightarrow> int \<times> int option" where
  "text_get c k =
    (if k = TEXT_HORIZONTAL_THRESHOLD then (0, Some (zpt_stage_tuning_fixed_millimeters_to_micrometers (horizontal_threshold c)))
      else if k = TEXT_VERTICAL_THRESHOLD then (0, Some (zpt_stage_tuning_fixed_millimeters_to_micrometers (vertical_threshold c)))
      else if k = TEXT_IDLE_TIMEOUT then (0, Some (uint (tn_idle_timeout_ms c)))
     else (- ENOENT, None))"

definition text_put :: "zpt_text_nav_config \<Rightarrow> u8 \<Rightarrow> int \<Rightarrow> int \<times> zpt_text_nav_config" where
  "text_put c k v =
    (if k = TEXT_HORIZONTAL_THRESHOLD then (0, c\<lparr>horizontal_threshold := ZPT_MICROMETERS_TO_FIXED_MILLIMETERS v\<rparr>)
      else if k = TEXT_VERTICAL_THRESHOLD then (0, c\<lparr>vertical_threshold := ZPT_MICROMETERS_TO_FIXED_MILLIMETERS v\<rparr>)
      else if k = TEXT_IDLE_TIMEOUT then (0, c\<lparr>tn_idle_timeout_ms := word_of_int v\<rparr>)
     else (- ENOENT, c))"

definition zpt_text_nav_tuning_ops :: "nat \<Rightarrow> zpt_text_nav_config zpt_stage_tuning_ops" where
  "zpt_text_nav_tuning_ops bytes = \<lparr>ops_parameters = text_parameters, ops_config_size = bytes,
     ops_get = text_get, ops_put = text_put, ops_validate = None\<rparr>"

section \<open>Axis intent\<close>

abbreviation (input) INTENT_ENGAGE_RATIO :: u8 where "INTENT_ENGAGE_RATIO \<equiv> 0"

abbreviation (input) INTENT_RELEASE_RATIO :: u8 where "INTENT_RELEASE_RATIO \<equiv> 1"

abbreviation (input) INTENT_ACTIVATION_DISTANCE :: u8 where "INTENT_ACTIVATION_DISTANCE \<equiv> 2"

abbreviation (input) INTENT_WINDOW :: u8 where "INTENT_WINDOW \<equiv> 3"

abbreviation (input) INTENT_IDLE_TIMEOUT :: u8 where "INTENT_IDLE_TIMEOUT \<equiv> 4"

definition intent_parameters :: "zpt_tuning_parameter list" where
  "intent_parameters = [
     parameter INTENT_ENGAGE_RATIO TUNING_VALUE_INTEGER ''engage-ratio'' ''engage-ratio-percent'' 100 1000 1 ''Engage ratio'' ''%''
       ''How much the major axis must dominate before motion locks to it.'',
     parameter INTENT_RELEASE_RATIO TUNING_VALUE_INTEGER ''release-ratio'' ''release-ratio-percent'' 100 1000 1 ''Release ratio'' ''%''
       ''Dominance below which a locked axis is released. Keep it at or below the engage ratio.'',
     parameter INTENT_ACTIVATION_DISTANCE TUNING_VALUE_INTEGER ''activation-distance'' ''activation-distance-micrometers'' 1 20000 1 ''Activation distance'' ([CHR 0xC2, CHR 0xB5] @ ''m'')
       ''Ball travel needed before an axis is chosen.'',
     parameter INTENT_WINDOW TUNING_VALUE_INTEGER ''window'' ''window-ms'' 1 2000 1 ''Window'' ''ms''
       ''How far back motion counts toward choosing an axis.'',
     parameter INTENT_IDLE_TIMEOUT TUNING_VALUE_INTEGER ''idle-timeout'' ''idle-timeout-ms'' 0 5000 1 ''Idle timeout'' ''ms''
       ''Pause after which the axis choice resets; 0 never resets.'']"

definition intent_get :: "zpt_axis_intent_stage_config \<Rightarrow> u8 \<Rightarrow> int \<times> int option" where
  "intent_get c k =
    (if k = INTENT_ENGAGE_RATIO then (0, Some (uint (engage_ratio_percent (ai_settings c))))
      else if k = INTENT_RELEASE_RATIO then (0, Some (uint (release_ratio_percent (ai_settings c))))
      else if k = INTENT_ACTIVATION_DISTANCE then (0, Some (zpt_stage_tuning_fixed_millimeters_to_micrometers (ai_activation_distance (ai_settings c))))
      else if k = INTENT_WINDOW then (0, Some (uint (window_ms (ai_settings c))))
      else if k = INTENT_IDLE_TIMEOUT then (0, Some (uint (ai_idle_timeout_ms c)))
     else (- ENOENT, None))"

definition intent_put :: "zpt_axis_intent_stage_config \<Rightarrow> u8 \<Rightarrow> int \<Rightarrow> int \<times> zpt_axis_intent_stage_config" where
  "intent_put c k v =
    (if k = INTENT_ENGAGE_RATIO then (0, c\<lparr>ai_settings := (ai_settings c)\<lparr>engage_ratio_percent := word_of_int v\<rparr>\<rparr>)
      else if k = INTENT_RELEASE_RATIO then (0, c\<lparr>ai_settings := (ai_settings c)\<lparr>release_ratio_percent := word_of_int v\<rparr>\<rparr>)
      else if k = INTENT_ACTIVATION_DISTANCE then (0, c\<lparr>ai_settings := (ai_settings c)\<lparr>ai_activation_distance := ZPT_MICROMETERS_TO_FIXED_MILLIMETERS v\<rparr>\<rparr>)
      else if k = INTENT_WINDOW then (0, c\<lparr>ai_settings := (ai_settings c)\<lparr>window_ms := word_of_int v\<rparr>\<rparr>)
      else if k = INTENT_IDLE_TIMEOUT then (0, c\<lparr>ai_idle_timeout_ms := word_of_int v\<rparr>)
     else (- ENOENT, c))"

definition intent_validate :: "zpt_axis_intent_stage_config \<Rightarrow> int \<times> u8 option" where
  "intent_validate c =
     (if release_ratio_percent (ai_settings c) > engage_ratio_percent (ai_settings c)
      then (- EINVAL, Some INTENT_RELEASE_RATIO) else (0, None))"

definition zpt_axis_intent_tuning_ops :: "nat \<Rightarrow> zpt_axis_intent_stage_config zpt_stage_tuning_ops" where
  "zpt_axis_intent_tuning_ops bytes = \<lparr>ops_parameters = intent_parameters, ops_config_size = bytes,
     ops_get = intent_get, ops_put = intent_put, ops_validate = Some intent_validate\<rparr>"

section \<open>Axis constraint\<close>

abbreviation (input) CONSTRAINT_DISCARD_UNCLASSIFIED :: u8 where "CONSTRAINT_DISCARD_UNCLASSIFIED \<equiv> 0"

abbreviation (input) CONSTRAINT_IDLE_TIMEOUT :: u8 where "CONSTRAINT_IDLE_TIMEOUT \<equiv> 1"

abbreviation (input) CONSTRAINT_FOLD_INTERVAL :: u8 where "CONSTRAINT_FOLD_INTERVAL \<equiv> 2"

definition constraint_parameters :: "zpt_tuning_parameter list" where
  "constraint_parameters = [
     parameter CONSTRAINT_DISCARD_UNCLASSIFIED TUNING_VALUE_BOOLEAN ''discard-unclassified'' ''discard-unclassified'' 0 1 1 ''Discard undecided motion'' []
       ''Drop motion held while no axis was chosen instead of releasing it in both axes.'',
     parameter CONSTRAINT_IDLE_TIMEOUT TUNING_VALUE_INTEGER ''idle-timeout'' ''idle-timeout-ms'' 0 5000 1 ''Idle timeout'' ''ms''
       ''Pause after which held undecided motion is released or dropped; 0 never times out.'',
     parameter CONSTRAINT_FOLD_INTERVAL TUNING_VALUE_INTEGER ''fold-interval'' ''fold-interval-ms'' 0 1000 1 ''Fold interval'' ''ms''
       ''How often held undecided motion is released or dropped; 0 uses the idle timeout.'']"

definition constraint_get :: "zpt_axis_constraint_config \<Rightarrow> u8 \<Rightarrow> int \<times> int option" where
  "constraint_get c k =
    (if k = CONSTRAINT_DISCARD_UNCLASSIFIED then (0, Some (if discard_unclassified c then 1 else 0))
      else if k = CONSTRAINT_IDLE_TIMEOUT then (0, Some (uint (ac_idle_timeout_ms c)))
      else if k = CONSTRAINT_FOLD_INTERVAL then (0, Some (uint (fold_interval_ms c)))
     else (- ENOENT, None))"

definition constraint_put :: "zpt_axis_constraint_config \<Rightarrow> u8 \<Rightarrow> int \<Rightarrow> int \<times> zpt_axis_constraint_config" where
  "constraint_put c k v =
    (if k = CONSTRAINT_DISCARD_UNCLASSIFIED then (0, c\<lparr>discard_unclassified := v \<noteq> 0\<rparr>)
      else if k = CONSTRAINT_IDLE_TIMEOUT then (0, c\<lparr>ac_idle_timeout_ms := word_of_int v\<rparr>)
      else if k = CONSTRAINT_FOLD_INTERVAL then (0, c\<lparr>fold_interval_ms := word_of_int v\<rparr>)
     else (- ENOENT, c))"

definition zpt_axis_constraint_tuning_ops :: "nat \<Rightarrow> zpt_axis_constraint_config zpt_stage_tuning_ops" where
  "zpt_axis_constraint_tuning_ops bytes = \<lparr>ops_parameters = constraint_parameters, ops_config_size = bytes,
     ops_get = constraint_get, ops_put = constraint_put, ops_validate = None\<rparr>"

section \<open>Cursor acceleration\<close>

text \<open>
  The ids of the point speeds come first, then those of the point sensitivities, in point order.
  \<open>digit\<close> is the stringified macro argument.
\<close>

abbreviation (input) ACCELERATION_SPEED_FIRST :: u8 where "ACCELERATION_SPEED_FIRST \<equiv> 0"

abbreviation (input) ACCELERATION_PERCENT_FIRST :: u8 where "ACCELERATION_PERCENT_FIRST \<equiv> 8"

abbreviation (input) ACCELERATION_SPEED_RISE :: u8 where "ACCELERATION_SPEED_RISE \<equiv> 16"

abbreviation (input) ACCELERATION_SPEED_FALL :: u8 where "ACCELERATION_SPEED_FALL \<equiv> 17"

definition digit :: "nat \<Rightarrow> string" where
  "digit point = [char_of (48 + point)]"

definition ACCELERATION_SPEED :: "nat \<Rightarrow> zpt_tuning_parameter" where
  "ACCELERATION_SPEED point = parameter (ACCELERATION_SPEED_FIRST + of_nat point - 1) TUNING_VALUE_INTEGER
     (''curve-speed-'' @ digit point) ''curve-speeds-mm-per-s'' 0 10000 1 (''Point '' @ digit point @ '' speed'')
     ''mm/s''
     (''Ball speed of curve point '' @ digit point @ ''. Point speeds must increase from point 1 to 8.'')"

definition ACCELERATION_PERCENT :: "nat \<Rightarrow> zpt_tuning_parameter" where
  "ACCELERATION_PERCENT point = parameter (ACCELERATION_PERCENT_FIRST + of_nat point - 1) TUNING_VALUE_INTEGER
     (''curve-sensitivity-'' @ digit point) ''curve-sensitivity-percent'' 1 1000 1
     (''Point '' @ digit point @ '' sensitivity'') ''%''
     (''Cursor sensitivity at curve point '' @ digit point @ '', on top of the base gain. The curve '' @
      ''runs smoothly between points and stays flat beyond the first and last.'')"

definition acceleration_parameters :: "zpt_tuning_parameter list" where
  "acceleration_parameters = [
     ACCELERATION_SPEED 1, ACCELERATION_SPEED 2, ACCELERATION_SPEED 3, ACCELERATION_SPEED 4,
     ACCELERATION_SPEED 5, ACCELERATION_SPEED 6, ACCELERATION_SPEED 7, ACCELERATION_SPEED 8,
     ACCELERATION_PERCENT 1, ACCELERATION_PERCENT 2, ACCELERATION_PERCENT 3, ACCELERATION_PERCENT 4,
     ACCELERATION_PERCENT 5, ACCELERATION_PERCENT 6, ACCELERATION_PERCENT 7, ACCELERATION_PERCENT 8,
     parameter ACCELERATION_SPEED_RISE TUNING_VALUE_INTEGER ''speed-rise'' ''speed-rise-ms'' 1 200 1 ''Speed rise time'' ''ms''
       (''How quickly the speed estimate follows the ball speeding up. Shorter makes flicks '' @
        ''accelerate sooner; longer smooths out jitter.''),
     parameter ACCELERATION_SPEED_FALL TUNING_VALUE_INTEGER ''speed-fall'' ''speed-fall-ms'' 1 200 1 ''Speed fall time'' ''ms''
       (''How quickly the speed estimate follows the ball slowing down. Shorter stops the cursor '' @
        ''overshooting when you stop to aim.'')]"

datatype acceleration_ref = CurveSpeed nat | CurvePercent nat | SpeedRise | SpeedFall

definition acceleration_field :: "u8 \<Rightarrow> acceleration_ref option" where
  "acceleration_field parameter_id =
     (if parameter_id < ACCELERATION_PERCENT_FIRST then Some (CurveSpeed (unat (parameter_id - ACCELERATION_SPEED_FIRST)))
      else if parameter_id < ACCELERATION_SPEED_RISE then Some (CurvePercent (unat (parameter_id - ACCELERATION_PERCENT_FIRST)))
      else if parameter_id = ACCELERATION_SPEED_RISE then Some SpeedRise
      else if parameter_id = ACCELERATION_SPEED_FALL then Some SpeedFall else None)"

primrec load_field :: "zpt_cursor_acceleration_config \<Rightarrow> acceleration_ref \<Rightarrow> u16" where
  "load_field c (CurveSpeed i) = curve_speed_mm_per_s c ! i"
| "load_field c (CurvePercent i) = curve_percent c ! i"
| "load_field c SpeedRise = speed_rise_ms c"
| "load_field c SpeedFall = speed_fall_ms c"

primrec store_field :: "zpt_cursor_acceleration_config \<Rightarrow> acceleration_ref \<Rightarrow> u16 \<Rightarrow> zpt_cursor_acceleration_config" where
  "store_field c (CurveSpeed i) v = c\<lparr>curve_speed_mm_per_s := (curve_speed_mm_per_s c)[i := v]\<rparr>"
| "store_field c (CurvePercent i) v = c\<lparr>curve_percent := (curve_percent c)[i := v]\<rparr>"
| "store_field c SpeedRise v = c\<lparr>speed_rise_ms := v\<rparr>"
| "store_field c SpeedFall v = c\<lparr>speed_fall_ms := v\<rparr>"

definition acceleration_get :: "zpt_cursor_acceleration_config \<Rightarrow> u8 \<Rightarrow> int \<times> int option" where
  "acceleration_get c k =
     (case acceleration_field k of None \<Rightarrow> (- ENOENT, None) | Some f \<Rightarrow> (0, Some (uint (load_field c f))))"

definition acceleration_put :: "zpt_cursor_acceleration_config \<Rightarrow> u8 \<Rightarrow> int \<Rightarrow> int \<times> zpt_cursor_acceleration_config" where
  "acceleration_put c k v =
     (case acceleration_field k of None \<Rightarrow> (- ENOENT, c) | Some f \<Rightarrow> (0, store_field c f (word_of_int v)))"

text \<open>The loop returns at the first point whose speed does not increase.\<close>

definition acceleration_validate :: "zpt_cursor_acceleration_config \<Rightarrow> int \<times> u8 option" where
  "acceleration_validate c =
     (case List.find (\<lambda>point. curve_speed_mm_per_s c ! point \<le> curve_speed_mm_per_s c ! (point - 1)) [1..<POINTS] of
        None \<Rightarrow> (0, None) | Some point \<Rightarrow> (- EINVAL, Some (ACCELERATION_SPEED_FIRST + of_nat point)))"

definition zpt_cursor_acceleration_tuning_ops :: "nat \<Rightarrow> zpt_cursor_acceleration_config zpt_stage_tuning_ops" where
  "zpt_cursor_acceleration_tuning_ops bytes = \<lparr>ops_parameters = acceleration_parameters, ops_config_size = bytes,
     ops_get = acceleration_get, ops_put = acceleration_put, ops_validate = Some acceleration_validate\<rparr>"

section \<open>Cursor coalescer\<close>

abbreviation (input) COALESCER_USB_REPORT_INTERVAL :: u8 where "COALESCER_USB_REPORT_INTERVAL \<equiv> 0"

abbreviation (input) COALESCER_BLE_REPORT_INTERVAL :: u8 where "COALESCER_BLE_REPORT_INTERVAL \<equiv> 1"

definition coalescer_parameters :: "zpt_tuning_parameter list" where
  "coalescer_parameters = [
     parameter COALESCER_USB_REPORT_INTERVAL TUNING_VALUE_INTEGER ''usb-report-interval'' ''usb-report-interval-ms'' 0 1000 1 ''USB report interval'' ''ms''
       ''Shortest time between cursor reports over USB; motion in between is summed. 0 sends every frame.'',
     parameter COALESCER_BLE_REPORT_INTERVAL TUNING_VALUE_INTEGER ''ble-report-interval'' ''ble-report-interval-ms'' 0 1000 1 ''Bluetooth report interval'' ''ms''
       (''Shortest time between cursor reports over Bluetooth. Match the connection interval, usually 7.5 to 15 ms, so reports don'' @ [CHR 0x27] @ ''t queue up.'')]"

datatype coalescer_ref = UsbInterval | BleInterval

definition coalescer_field :: "u8 \<Rightarrow> coalescer_ref option" where
  "coalescer_field parameter_id =
     (if parameter_id = COALESCER_USB_REPORT_INTERVAL then Some UsbInterval
      else if parameter_id = COALESCER_BLE_REPORT_INTERVAL then Some BleInterval else None)"

primrec load_interval :: "zpt_cursor_coalescer_config \<Rightarrow> coalescer_ref \<Rightarrow> u16" where
  "load_interval c UsbInterval = usb_report_interval_ms c"
| "load_interval c BleInterval = ble_report_interval_ms c"

primrec store_interval :: "zpt_cursor_coalescer_config \<Rightarrow> coalescer_ref \<Rightarrow> u16 \<Rightarrow> zpt_cursor_coalescer_config" where
  "store_interval c UsbInterval v = c\<lparr>usb_report_interval_ms := v\<rparr>"
| "store_interval c BleInterval v = c\<lparr>ble_report_interval_ms := v\<rparr>"

definition coalescer_get :: "zpt_cursor_coalescer_config \<Rightarrow> u8 \<Rightarrow> int \<times> int option" where
  "coalescer_get c k =
     (case coalescer_field k of None \<Rightarrow> (- ENOENT, None) | Some f \<Rightarrow> (0, Some (uint (load_interval c f))))"

definition coalescer_put :: "zpt_cursor_coalescer_config \<Rightarrow> u8 \<Rightarrow> int \<Rightarrow> int \<times> zpt_cursor_coalescer_config" where
  "coalescer_put c k v =
     (case coalescer_field k of None \<Rightarrow> (- ENOENT, c) | Some f \<Rightarrow> (0, store_interval c f (word_of_int v)))"

definition zpt_cursor_coalescer_tuning_ops :: "nat \<Rightarrow> zpt_cursor_coalescer_config zpt_stage_tuning_ops" where
  "zpt_cursor_coalescer_tuning_ops bytes = \<lparr>ops_parameters = coalescer_parameters, ops_config_size = bytes,
     ops_get = coalescer_get, ops_put = coalescer_put, ops_validate = None\<rparr>"

section \<open>Every stage keeps the contract\<close>

lemmas ops_defs =
  zpt_coherent_displacement_tuning_ops_def zpt_cursor_transfer_tuning_ops_def zpt_scroll_batcher_tuning_ops_def
  zpt_text_nav_tuning_ops_def zpt_axis_intent_tuning_ops_def zpt_axis_constraint_tuning_ops_def
  zpt_cursor_acceleration_tuning_ops_def zpt_cursor_coalescer_tuning_ops_def

lemma ops_simps [simp]:
  "ops_parameters (zpt_coherent_displacement_tuning_ops b) = gate_parameters"
  "ops_get (zpt_coherent_displacement_tuning_ops b) = gate_get"
  "ops_put (zpt_coherent_displacement_tuning_ops b) = gate_put"
  "ops_parameters (zpt_cursor_transfer_tuning_ops b) = transfer_parameters"
  "ops_get (zpt_cursor_transfer_tuning_ops b) = transfer_get"
  "ops_put (zpt_cursor_transfer_tuning_ops b) = transfer_put"
  "ops_parameters (zpt_scroll_batcher_tuning_ops b) = scroll_parameters"
  "ops_get (zpt_scroll_batcher_tuning_ops b) = scroll_get"
  "ops_put (zpt_scroll_batcher_tuning_ops b) = scroll_put"
  "ops_parameters (zpt_text_nav_tuning_ops b) = text_parameters"
  "ops_get (zpt_text_nav_tuning_ops b) = text_get"
  "ops_put (zpt_text_nav_tuning_ops b) = text_put"
  "ops_parameters (zpt_axis_intent_tuning_ops b) = intent_parameters"
  "ops_get (zpt_axis_intent_tuning_ops b) = intent_get"
  "ops_put (zpt_axis_intent_tuning_ops b) = intent_put"
  "ops_parameters (zpt_axis_constraint_tuning_ops b) = constraint_parameters"
  "ops_get (zpt_axis_constraint_tuning_ops b) = constraint_get"
  "ops_put (zpt_axis_constraint_tuning_ops b) = constraint_put"
  "ops_parameters (zpt_cursor_acceleration_tuning_ops b) = acceleration_parameters"
  "ops_get (zpt_cursor_acceleration_tuning_ops b) = acceleration_get"
  "ops_put (zpt_cursor_acceleration_tuning_ops b) = acceleration_put"
  "ops_parameters (zpt_cursor_coalescer_tuning_ops b) = coalescer_parameters"
  "ops_get (zpt_cursor_coalescer_tuning_ops b) = coalescer_get"
  "ops_put (zpt_cursor_coalescer_tuning_ops b) = coalescer_put"
  by (simp_all add: ops_defs)

interpretation gate: tunable_stage "zpt_coherent_displacement_tuning_ops b" "\<lambda>_. True" cd_suppression for b
  by unfold_locales
    (auto simp: reads_back_def gate_parameters_def gate_get_def gate_put_def zpt_simps split: if_splits)

interpretation transfer_tuning: tunable_stage "zpt_cursor_transfer_tuning_ops b" "\<lambda>_. True" "\<lambda>_. ()" for b
  by unfold_locales (auto simp: reads_back_def transfer_parameters_def transfer_get_def transfer_put_def)

interpretation scroll: tunable_stage "zpt_scroll_batcher_tuning_ops b" "\<lambda>_. True" sb_suppression for b
  by unfold_locales (auto simp: reads_back_def scroll_parameters_def scroll_get_def scroll_put_def zpt_simps)

interpretation text_tuning: tunable_stage "zpt_text_nav_tuning_ops b" "\<lambda>_. True" "\<lambda>_. ()" for b
  by unfold_locales (auto simp: reads_back_def text_parameters_def text_get_def text_put_def zpt_simps)

interpretation intent_tuning: tunable_stage "zpt_axis_intent_tuning_ops b" "\<lambda>_. True"
    "\<lambda>c. (ai_policy c, ai_suppression c)" for b
  by unfold_locales (auto simp: reads_back_def intent_parameters_def intent_get_def intent_put_def zpt_simps)

interpretation constraint_tuning: tunable_stage "zpt_axis_constraint_tuning_ops b" "\<lambda>_. True" ac_suppression for b
  by unfold_locales (auto simp: reads_back_def constraint_parameters_def constraint_get_def constraint_put_def)

interpretation coalescer_tuning: tunable_stage "zpt_cursor_coalescer_tuning_ops b" "\<lambda>_. True" current_link for b
  by unfold_locales
    (auto simp: reads_back_def coalescer_parameters_def coalescer_get_def coalescer_put_def coalescer_field_def)

lemma acceleration_parameter_simps [simp]:
  "param_id (ACCELERATION_SPEED n) = of_nat n - 1" "param_id (ACCELERATION_PERCENT n) = 8 + of_nat n - 1"
  "admits (ACCELERATION_SPEED n) v \<longleftrightarrow> 0 \<le> v \<and> v \<le> 10000"
  "admits (ACCELERATION_PERCENT n) v \<longleftrightarrow> 1 \<le> v \<and> v \<le> 1000"
  "narrow (ACCELERATION_SPEED n)" "narrow (ACCELERATION_PERCENT n)"
  by (simp_all add: ACCELERATION_SPEED_def ACCELERATION_PERCENT_def)

lemma acceleration_ids: "map param_id acceleration_parameters = [0, 1, 2, 3, 4, 5, 6, 7, 8, 9, 10, 11, 12, 13, 14, 15, 16, 17]"
  by (simp add: acceleration_parameters_def)

lemma acceleration_known: "(k \<in> param_id ` set acceleration_parameters) = (k \<le> 17)"
proof -
  have "k \<in> set [0, 1, 2, 3, 4, 5, 6, 7, 8, 9, 10, 11, 12, 13, 14, 15, 16, 17]" if "k \<le> 17"
  proof -
    have "unat k < 18" using that by (simp add: word_le_nat_alt)
    then have "unat k \<in> set [0..<18]" by simp
    then have "k \<in> of_nat ` set [0..<18]" by (metis image_eqI of_nat_unat ucast_id)
    then show ?thesis by (simp add: upt_rec)
  qed
  moreover have "k \<le> 17" if "k \<in> set [0, 1, 2, 3, 4, 5, 6, 7, 8, 9, 10, 11, 12, 13, 14, 15, 16, 17]"
    using that by auto
  ultimately show ?thesis unfolding acceleration_ids [symmetric] set_map by blast
qed

lemma acceleration_admits:
  "p \<in> set acceleration_parameters \<Longrightarrow> admits p v \<Longrightarrow> 0 \<le> v \<and> v \<le> 65535 \<and>
     (8 \<le> param_id p \<longrightarrow> 1 \<le> v) \<and> (param_id p < 16 \<and> 8 \<le> param_id p \<longrightarrow> v \<le> 1000)"
  by (auto simp: acceleration_parameters_def word_le_nat_alt)

fun ref_ok :: "acceleration_ref \<Rightarrow> bool" where
  "ref_ok (CurveSpeed i) = (i < POINTS)"
| "ref_ok (CurvePercent i) = (i < POINTS)"
| "ref_ok _ = True"

lemma acceleration_field_none: "(acceleration_field k = None) = (17 < k)"
  by (simp add: acceleration_field_def split: if_splits) (unat_arith; simp)

lemma acceleration_field_some:
  assumes "acceleration_field k = Some f"
  shows "ref_ok f" "acceleration_field k' = Some f \<Longrightarrow> k' = k"
proof -
  show "ref_ok f"
    using assms by (auto simp: acceleration_field_def word_less_nat_alt unat_sub word_le_nat_alt split: if_splits)
  show "k' = k" if "acceleration_field k' = Some f"
    using assms that
    by (auto simp: acceleration_field_def split: if_splits simp flip: word_unat_eq_iff)
qed

definition curve_shaped :: "zpt_cursor_acceleration_config \<Rightarrow> bool" where
  "curve_shaped c \<longleftrightarrow> length (curve_speed_mm_per_s c) = POINTS \<and> length (curve_percent c) = POINTS"

lemma load_store_field:
  assumes "curve_shaped c" "ref_ok f"
  shows "load_field (store_field c f v) g = (if f = g then v else load_field c g)"
    "curve_shaped (store_field c f v)"
  using assms by (cases f; cases g; simp add: curve_shaped_def)+

interpretation acceleration_tuning: tunable_stage "zpt_cursor_acceleration_tuning_ops b" curve_shaped "\<lambda>_. ()" for b
proof
  show "distinct (map param_id (ops_parameters (zpt_cursor_acceleration_tuning_ops b)))"
    by (simp add: acceleration_ids)
  show "\<forall>p \<in> set (ops_parameters (zpt_cursor_acceleration_tuning_ops b)). narrow p"
    by (auto simp: acceleration_parameters_def)
  have put: "\<exists>f. acceleration_field (param_id p) = Some f" if "p \<in> set acceleration_parameters" for p
    using acceleration_known [of "param_id p"] acceleration_field_none [of "param_id p"] that
    by (metis image_eqI not_None_eq not_less)
  show "reads_back (zpt_cursor_acceleration_tuning_ops b) curve_shaped (\<lambda>_. ())"
    unfolding reads_back_def ops_simps
  proof (intro conjI ballI allI impI)
    fix p c
    assume p: "p \<in> set acceleration_parameters" and c: "curve_shaped c"
    obtain f where f: "acceleration_field (param_id p) = Some f" using put [OF p] by blast
    then show "\<exists>v. acceleration_get c (param_id p) = (0, Some v)" by (simp add: acceleration_get_def)
    fix v
    assume v: "admits p v"
    have other: "acceleration_field k \<noteq> Some f" if "k \<noteq> param_id p" for k
      using acceleration_field_some(2) [OF f, of k] that by blast
    show "\<exists>c'. acceleration_put c (param_id p) v = (0, c') \<and> acceleration_get c' (param_id p) = (0, Some v) \<and>
        (\<forall>k. k \<noteq> param_id p \<longrightarrow> acceleration_get c' k = acceleration_get c k) \<and> curve_shaped c' \<and> () = ()"
      using acceleration_admits [OF p v] load_store_field [OF c acceleration_field_some(1) [OF f]] other
      by (intro exI [of _ "store_field c f (word_of_int v)"])
        (auto simp: acceleration_put_def acceleration_get_def f split: option.split)
  next
    fix k c v
    assume "k \<notin> param_id ` set acceleration_parameters"
    then have "acceleration_field k = None" using acceleration_known acceleration_field_none by (metis not_less)
    then show "acceleration_get c k = (- ENOENT, None)" "acceleration_put c k v = (- ENOENT, c)"
      by (simp_all add: acceleration_get_def acceleration_put_def)
  qed
qed

section \<open>Activation\<close>

text \<open>Tuning never turns a configuration its stage accepts into one it refuses.\<close>

definition keeps_activation ::
  "'c zpt_stage_tuning_ops \<Rightarrow> ('c \<Rightarrow> bool) \<Rightarrow> ('c, 's) zpt_stage_activate \<Rightarrow> bool" where
  "keeps_activation ops shape activate \<longleftrightarrow>
     (\<forall>c c' vs ok st reason. shape c \<and> batch_ok (ops_parameters ops) vs \<and> 0 \<le> ok \<and>
        zpt_stage_tuning_prepare (Some ops) (Some c) (Some vs) (length vs) = (ok, None, Some c') \<and>
        fst (activate (Some c) st reason) = 0 \<longrightarrow> fst (activate (Some c') st reason) = 0)"

lemma keeps_activationI:
  assumes "tunable_stage ops shape rest"
    and "\<And>p v c st reason. p \<in> set (ops_parameters ops) \<Longrightarrow> admits p v \<Longrightarrow> shape c \<Longrightarrow>
      fst (activate (Some c) st reason) = 0 \<Longrightarrow>
      fst (activate (Some (snd (ops_put ops c (param_id p) v))) st reason) = 0"
  shows "keeps_activation ops shape activate"
  unfolding keeps_activation_def
  using tunable_stage.prepare_keeps(2) [OF assms(1), of "\<lambda>c. fst (activate (Some c) st reason) = 0" for st reason]
    assms(2) by blast

lemma fixed_pos:
  "1 \<le> v \<Longrightarrow> v \<le> 1000000 \<Longrightarrow> \<not> ZPT_MICROMETERS_TO_FIXED_MILLIMETERS v \<le> 0"
  "1 \<le> v \<Longrightarrow> v \<le> 1000000 \<Longrightarrow> \<not> ZPT_PER_METER_TO_FIXED_PER_MILLIMETER v \<le> 0"
  by (simp_all add: micrometers_to_fixed_i32 per_meter_to_fixed_i32 in_i32_def pos_imp_zdiv_pos_iff not_le)

lemma u16_pos: "1 \<le> v \<Longrightarrow> v \<le> 65535 \<Longrightarrow> (word_of_int v :: u16) \<noteq> 0"
  using uint_pos_iff [of "word_of_int v :: u16"] by simp

lemma u16_le: "0 \<le> v \<Longrightarrow> v \<le> 100 \<Longrightarrow> \<not> (100 :: u16) < word_of_int v"
  by (simp add: word_less_def)

text \<open>What each activation tests.\<close>

lemma activation_tests:
  "(fst (coherent_stage_activate (Some c) st reason) = 0) = (st \<noteq> None \<and> zpt_coherent_displacement_validate (cd_settings c) = 0)"
  "(fst (cursor_transfer_stage_activate (Some d) ut reason) = 0) = (scale_divisor d \<noteq> 0)"
  "(fst (scroll_batcher_stage_activate (Some e) bt reason) = 0) =
     (bt \<noteq> None \<and> \<not> steps_per_millimeter e \<le> 0 \<and> report_interval_ms e \<noteq> 0)"
  "(fst (text_nav_stage_activate (Some t) tt reason) = 0) =
     (tt \<noteq> None \<and> \<not> horizontal_threshold t \<le> 0 \<and> \<not> vertical_threshold t \<le> 0 \<and> tn_idle_timeout_ms t \<noteq> 0)"
  "(fst (axis_intent_stage_activate (Some i) it reason) = 0) = (it \<noteq> None \<and> zpt_axis_intent_validate (ai_settings i) = 0)"
  by (simp_all add: coherent_stage_activate_def cursor_transfer_stage_activate_def scroll_batcher_stage_activate_def
      text_nav_stage_activate_def axis_intent_stage_activate_def split: option.split)

lemma gate_activation: "keeps_activation (zpt_coherent_displacement_tuning_ops b) (\<lambda>_. True) coherent_stage_activate"
  by (rule keeps_activationI [OF gate.tunable_stage_axioms])
    (auto simp: activation_tests gate_parameters_def gate_put_def zpt_coherent_displacement_validate_def
      fixed_pos u16_pos u16_le split: if_splits)

lemma transfer_activation: "keeps_activation (zpt_cursor_transfer_tuning_ops b) (\<lambda>_. True) cursor_transfer_stage_activate"
  by (rule keeps_activationI [OF transfer_tuning.tunable_stage_axioms])
    (auto simp: activation_tests transfer_parameters_def transfer_put_def u16_pos)

lemma scroll_activation: "keeps_activation (zpt_scroll_batcher_tuning_ops b) (\<lambda>_. True) scroll_batcher_stage_activate"
  by (rule keeps_activationI [OF scroll.tunable_stage_axioms])
    (auto simp: activation_tests scroll_parameters_def scroll_put_def fixed_pos u16_pos)

lemma text_activation: "keeps_activation (zpt_text_nav_tuning_ops b) (\<lambda>_. True) text_nav_stage_activate"
  by (rule keeps_activationI [OF text_tuning.tunable_stage_axioms])
    (auto simp: activation_tests text_parameters_def text_put_def fixed_pos u16_pos)

lemma intent_activation: "keeps_activation (zpt_axis_intent_tuning_ops b) (\<lambda>_. True) axis_intent_stage_activate"
  by (rule keeps_activationI [OF intent_tuning.tunable_stage_axioms])
    (auto simp: activation_tests intent_parameters_def intent_put_def zpt_axis_intent_validate_def
      fixed_pos u16_pos split: if_splits)

lemma constraint_activation: "keeps_activation (zpt_axis_constraint_tuning_ops b) (\<lambda>_. True) axis_constraint_stage_activate"
  by (rule keeps_activationI [OF constraint_tuning.tunable_stage_axioms]) (simp add: axis_constraint_stage_activate_def)

lemma coalescer_activation: "keeps_activation (zpt_cursor_coalescer_tuning_ops b) (\<lambda>_. True) cursor_coalescer_stage_activate"
  by (rule keeps_activationI [OF coalescer_tuning.tunable_stage_axioms]) (simp add: cursor_coalescer_stage_activate_def)

text \<open>The ranges an acceleration configuration must keep, and the order its check enforces.\<close>

definition ranges_kept :: "zpt_cursor_acceleration_config \<Rightarrow> bool" where
  "ranges_kept c \<longleftrightarrow> speed_rise_ms c \<noteq> 0 \<and> speed_fall_ms c \<noteq> 0 \<and>
     (\<forall>i<POINTS. curve_percent c ! i \<noteq> 0 \<and> \<not> 1000 < curve_percent c ! i)"

definition speeds_increase :: "zpt_cursor_acceleration_config \<Rightarrow> bool" where
  "speeds_increase c \<longleftrightarrow> (\<forall>i. 1 \<le> i \<and> i < POINTS \<longrightarrow> \<not> curve_speed_mm_per_s c ! i \<le> curve_speed_mm_per_s c ! (i - 1))"

lemma validate_ranges_and_order:
  "(zpt_cursor_acceleration_validate (Some c) = 0) = (ranges_kept c \<and> speeds_increase c)"
proof -
  have two: "((if a then - EINVAL else if b then - EINVAL else 0) = 0) = (\<not> a \<and> \<not> b)" for a b by simp
  show ?thesis
    unfolding zpt_cursor_acceleration_validate_def option.case two list_ex_iff set_upt ranges_kept_def speeds_increase_def
    by (auto simp: Suc_le_eq Ball_def)
qed

lemma acceleration_check: "0 \<le> fst (acceleration_validate c) \<Longrightarrow> speeds_increase c"
  unfolding acceleration_validate_def speeds_increase_def
  by (cases "List.find (\<lambda>p. curve_speed_mm_per_s c ! p \<le> curve_speed_mm_per_s c ! (p - 1)) [1..<POINTS]")
    (auto simp: find_None_iff simp del: upt_rec_numeral)

lemma acceleration_put_keeps:
  assumes "p \<in> set acceleration_parameters" "admits p v" "curve_shaped c" "ranges_kept c"
  shows "ranges_kept (snd (acceleration_put c (param_id p) v))"
proof -
  obtain f where f: "acceleration_field (param_id p) = Some f"
    using acceleration_known [of "param_id p"] acceleration_field_none [of "param_id p"] assms(1)
    by (metis image_eqI not_None_eq not_less)
  note admitted = acceleration_admits [OF assms(1,2)]
  have v: "0 \<le> v" "v \<le> 65535" using admitted by simp_all
  have "(word_of_int v :: u16) \<noteq> 0" if "8 \<le> param_id p" using admitted that u16_pos by simp
  moreover have "\<not> (1000 :: u16) < word_of_int v" if "8 \<le> param_id p" "param_id p < 16"
    using admitted that v by (simp add: word_less_def)
  moreover have "8 \<le> param_id p \<and> param_id p < 16" if "f = CurvePercent i" for i
    using f that by (auto simp: acceleration_field_def not_less split: if_splits)
  moreover have "8 \<le> param_id p" if "f = SpeedRise \<or> f = SpeedFall"
    using f that by (auto simp: acceleration_field_def not_less split: if_splits)
  ultimately show ?thesis
    using assms(3,4) acceleration_field_some(1) [OF f] by (cases f) (auto simp: acceleration_put_def f ranges_kept_def curve_shaped_def nth_list_update)
qed

lemma acceleration_activation:
  "keeps_activation (zpt_cursor_acceleration_tuning_ops b) curve_shaped cursor_acceleration_stage_activate"
  unfolding keeps_activation_def
proof (intro allI impI, elim conjE)
  fix c c' vs ok st reason
  let ?ops = "zpt_cursor_acceleration_tuning_ops b"
  assume c: "curve_shaped c" and batch: "batch_ok (ops_parameters ?ops) vs" and ok: "0 \<le> ok"
    and prepared: "zpt_stage_tuning_prepare (Some ?ops) (Some c) (Some vs) (length vs) = (ok, None, Some c')"
    and active: "fst (cursor_acceleration_stage_activate (Some c) st reason) = 0"
  have st: "st \<noteq> None" "ranges_kept c"
    using active by (auto simp: cursor_acceleration_stage_activate_def validate_ranges_and_order split: if_splits)
  have "ranges_kept (snd (ops_put ?ops c (param_id p) v))"
    if "p \<in> set (ops_parameters ?ops)" "admits p v" "curve_shaped c" "ranges_kept c" for p v c
    using acceleration_put_keeps that by simp
  note kept = acceleration_tuning.prepare_keeps [of b ranges_kept, OF this batch c st(2) prepared ok]
  have "speeds_increase c'"
    using kept(3) acceleration_check by (simp add: zpt_cursor_acceleration_tuning_ops_def)
  then show "fst (cursor_acceleration_stage_activate (Some c') st reason) = 0"
    using kept(2) st by (simp add: cursor_acceleration_stage_activate_def validate_ranges_and_order)
qed

section \<open>Properties\<close>

text \<open>
  Property C30. For each of the eight stages: every described parameter can be read, an admitted
  value reads back exactly (through the Q16 conversions too), changes no other parameter and
  nothing tuning does not own, and an unknown id is refused without effect.
\<close>

theorem every_stage_parameter_reads_back:
  "reads_back (zpt_coherent_displacement_tuning_ops b) (\<lambda>_. True) cd_suppression \<and>
   reads_back (zpt_cursor_transfer_tuning_ops b) (\<lambda>_. True) (\<lambda>_. ()) \<and>
   reads_back (zpt_scroll_batcher_tuning_ops b) (\<lambda>_. True) sb_suppression \<and>
   reads_back (zpt_text_nav_tuning_ops b) (\<lambda>_. True) (\<lambda>_. ()) \<and>
   reads_back (zpt_axis_intent_tuning_ops b) (\<lambda>_. True) (\<lambda>c. (ai_policy c, ai_suppression c)) \<and>
   reads_back (zpt_axis_constraint_tuning_ops b) (\<lambda>_. True) ac_suppression \<and>
   reads_back (zpt_cursor_acceleration_tuning_ops b) curve_shaped (\<lambda>_. ()) \<and>
   reads_back (zpt_cursor_coalescer_tuning_ops b) (\<lambda>_. True) current_link"
  by (intro conjI gate.reads_back transfer_tuning.reads_back scroll.reads_back text_tuning.reads_back
      intent_tuning.reads_back constraint_tuning.reads_back acceleration_tuning.reads_back coalescer_tuning.reads_back)

text \<open>
  Property C18. A batch of values the service accepts and the stage's checks pass never turns a
  configuration the stage's activation accepts into one it refuses, for each of the eight stages.
\<close>

theorem tuning_keeps_stages_activatable:
  "keeps_activation (zpt_coherent_displacement_tuning_ops b) (\<lambda>_. True) coherent_stage_activate \<and>
   keeps_activation (zpt_cursor_transfer_tuning_ops b) (\<lambda>_. True) cursor_transfer_stage_activate \<and>
   keeps_activation (zpt_scroll_batcher_tuning_ops b) (\<lambda>_. True) scroll_batcher_stage_activate \<and>
   keeps_activation (zpt_text_nav_tuning_ops b) (\<lambda>_. True) text_nav_stage_activate \<and>
   keeps_activation (zpt_axis_intent_tuning_ops b) (\<lambda>_. True) axis_intent_stage_activate \<and>
   keeps_activation (zpt_axis_constraint_tuning_ops b) (\<lambda>_. True) axis_constraint_stage_activate \<and>
   keeps_activation (zpt_cursor_acceleration_tuning_ops b) curve_shaped cursor_acceleration_stage_activate \<and>
   keeps_activation (zpt_cursor_coalescer_tuning_ops b) (\<lambda>_. True) cursor_coalescer_stage_activate"
  by (intro conjI gate_activation transfer_activation scroll_activation text_activation intent_activation
      constraint_activation acceleration_activation coalescer_activation)

text \<open>
  Property C12. A batch of values through the tuning service either is refused with a negative code
  and changes nothing, or is applied whole: every value of the batch reads back through the
  service, every other parameter reads as before, what tuning does not own is kept.
\<close>

theorem tuning_batch_is_all_or_nothing:
  assumes "tunable_stage (place_ops pl) shape rest" and "serves pl reg target_id w compiled c" and "shape c"
    and "zpt_tuning_set_many reg w target_id (Some vs) = (ret, failed, w')"
  shows "(ret < 0 \<and> w' = w) \<or>
    (ret = place_unlock pl \<and>
     (\<exists>c'. serves pl reg target_id w' compiled c' \<and> shape c' \<and> rest c' = rest c \<and>
       (\<forall>v \<in> set vs. zpt_tuning_get reg w' target_id (value_id v) False = (0, Some (value_new v))) \<and>
       (\<forall>k. k \<notin> value_id ` set vs \<longrightarrow>
         zpt_tuning_get reg w' target_id k False = zpt_tuning_get reg w target_id k False)))"
  using service_sets [OF assms] service_reads [OF assms(1)] assms(2) by (auto simp: tuned_def)

text \<open>
  Resetting a target restores every parameter to its compiled value as read through
  the service and keeps what tuning does not own, or reports that the routers could not be locked
  and changes nothing.
\<close>

theorem tuning_reset_restores_compiled_values:
  assumes "tunable_stage (place_ops pl) shape rest" and "serves pl reg target_id w compiled c"
    and "shape compiled" and "shape c"
    and "\<forall>p \<in> set (ops_parameters (place_ops pl)). \<forall>v.
      ops_get (place_ops pl) compiled (param_id p) = (0, Some v) \<longrightarrow> admits p v"
    and "zpt_tuning_reset reg w target_id = (ret, w')"
  shows "(ret = place_lock pl \<and> ret < 0 \<and> w' = w) \<or>
    (ret = place_unlock pl \<and>
     (\<exists>c'. serves pl reg target_id w' compiled c' \<and> rest c' = rest c \<and>
       (\<forall>k. zpt_tuning_get reg w' target_id k False = zpt_tuning_get reg w target_id k True)))"
  using service_resets [OF assms] service_reads [OF assms(1)] assms(2) by auto

text \<open>One tunable cursor transfer behind the service: the whole state is its binding.\<close>

definition sample_place :: "(zpt_cursor_transfer_config zpt_stage_tuning_binding, zpt_cursor_transfer_config) tuning_place" where
  "sample_place = \<lparr>place_load = \<lambda>w. w, place_store = \<lambda>b w. b, place_lock = 0, place_unlock = 0,
     place_ops = zpt_cursor_transfer_tuning_ops 4\<rparr>"

definition gain :: "u16 \<Rightarrow> u16 \<Rightarrow> zpt_cursor_transfer_config" where
  "gain m d = \<lparr>scale_multiplier = m, scale_divisor = d\<rparr>"

definition sample_binding :: "zpt_cursor_transfer_config \<Rightarrow> zpt_cursor_transfer_config zpt_stage_tuning_binding" where
  "sample_binding c = \<lparr>bind_ops = Some (zpt_cursor_transfer_tuning_ops 4), bind_compiled = Some (gain 1 1),
     bind_current = Some c, bind_apply = Some (apply_between_frames 0 0)\<rparr>"

definition sample_registry :: "zpt_cursor_transfer_config zpt_stage_tuning_binding tuning_registry" where
  "sample_registry = \<lparr>zpt_tuning_targets = [the (snd (zpt_stage_tuning_target_init (\<lambda>w. w) (\<lambda>b w. b) 1
     (Some (sample_binding (gain 1 1))) (Some ''gain'') (Some ''/gain'')))], max_targets = 4\<rparr>"

lemma sample_serves: "serves sample_place sample_registry 0 (sample_binding c) (gain 1 1) c"
proof -
  obtain t where t: "zpt_stage_tuning_target_init (\<lambda>w. w) (\<lambda>b w. b) 1 (Some (sample_binding d)) (Some ''gain'') (Some ''/gain'') =
      (0, Some t)" for d
    by (simp add: zpt_stage_tuning_target_init_def sample_binding_def zpt_cursor_transfer_tuning_ops_def)
  then have "zpt_tuning_target_get sample_registry 0 = Some t"
    by (simp add: zpt_tuning_target_get_def sample_registry_def)
  with t show ?thesis
    unfolding serves_def by (auto simp: sample_place_def sample_binding_def)
qed

lemma sample_tunable: "tunable_stage (place_ops sample_place) (\<lambda>_. True) (\<lambda>_. ())"
  using transfer_tuning.tunable_stage_axioms by (simp add: sample_place_def)

theorem tuning_batch_is_all_or_nothing_witness:
  "\<exists>w'. zpt_tuning_set_many sample_registry (sample_binding (gain 1 1)) 0 (Some [\<lparr>value_id = 1, value_new = 7\<rparr>]) =
     (0, Some 1, w') \<and> zpt_tuning_get sample_registry w' 0 1 False = (0, Some 7)"
proof -
  let ?set = "zpt_tuning_set_many sample_registry (sample_binding (gain 1 1)) 0 (Some [\<lparr>value_id = 1, value_new = 7\<rparr>])"
  have run: "?set = (0, Some 1, sample_binding (gain 1 7))"
    by (simp add: zpt_tuning_set_many_def zpt_tuning_target_get_def sample_registry_def sample_binding_def gain_def
        zpt_stage_tuning_target_init_def zpt_cursor_transfer_tuning_ops_def validate_value_update_def
        zpt_tuning_parameter_get_def described_parameters_def transfer_parameters_def parameter_def transfer_put_def
        binding_set_many_def zpt_stage_tuning_prepare_def apply_candidate_def apply_between_frames_def)
  then show ?thesis
    using tuning_batch_is_all_or_nothing [OF sample_tunable sample_serves _ run] by auto
qed

theorem tuning_reset_restores_compiled_values_witness:
  "zpt_tuning_get sample_registry (snd (zpt_tuning_reset sample_registry (sample_binding (gain 9 7)) 0)) 0 1 False = (0, Some 1)"
proof -
  obtain ret w' where run: "zpt_tuning_reset sample_registry (sample_binding (gain 9 7)) 0 = (ret, w')" by fastforce
  have compiled: "zpt_tuning_get sample_registry (sample_binding (gain 9 7)) 0 1 True = (0, Some 1)"
    using service_reads [OF sample_tunable sample_serves, of "gain 9 7" 1 True]
    by (simp add: sample_place_def transfer_get_def gain_def)
  have "\<forall>p \<in> set (ops_parameters (place_ops sample_place)). \<forall>v.
      ops_get (place_ops sample_place) (gain 1 1) (param_id p) = (0, Some v) \<longrightarrow> admits p v"
    by (simp add: sample_place_def transfer_parameters_def transfer_get_def gain_def)
  then show ?thesis
    using tuning_reset_restores_compiled_values [OF sample_tunable sample_serves _ _ _ run] compiled
    by (auto simp: run sample_place_def)
qed

end
