(* ===== verification/Bytes.thy ===== *)
theory Bytes
  imports Zpt_Prelude
begin

text \<open>
  The byte formats shared by the host protocol (\<open>service/telemetry.c\<close>) and input capture
  (\<open>observer/capture.c\<close>): little-endian integers, varints and zigzag numbers, and the readers
  the host uses (\<open>web/protocol.js\<close>). A write into a byte array at an offset that only grows is the
  list of the bytes written.
\<close>

section \<open>Little-endian integers\<close>

definition put_le16 :: "u16 \<Rightarrow> u8 list" where
  "put_le16 v = [ucast (v AND 0xff), ucast (drop_bit 8 v)]"

definition put_le32 :: "u32 \<Rightarrow> u8 list" where
  "put_le32 v = map (\<lambda>i. ucast (drop_bit (8 * i) v)) [0..<4]"

definition get_le16 :: "u8 list \<Rightarrow> u16" where
  "get_le16 bs = ucast (bs ! 0) OR push_bit 8 (ucast (bs ! 1))"

definition get_le32 :: "u8 list \<Rightarrow> u32" where
  "get_le32 bs = ucast (bs ! 0) OR push_bit 8 (ucast (bs ! 1)) OR push_bit 16 (ucast (bs ! 2)) OR
     push_bit 24 (ucast (bs ! 3))"

lemma length_put_le [simp]: "length (put_le16 v) = 2" "length (put_le32 w) = 4"
  by (simp_all add: put_le16_def put_le32_def)

lemma put_le_not_Nil [simp]: "put_le16 v \<noteq> []" "put_le32 w \<noteq> []"
  by (simp_all add: put_le16_def put_le32_def)

lemma put_le32_bytes:
  "put_le32 v = [ucast v, ucast (drop_bit 8 v), ucast (drop_bit 16 v), ucast (drop_bit 24 v)]"
  by (simp add: put_le32_def upt_rec)

lemma get_put_le16 [simp]: "get_le16 (put_le16 v @ rest) = v"
  by (rule bit_word_eqI)
    (auto simp: get_le16_def put_le16_def masks_take_bit bit_simps not_less intro: le_Suc_ex)

lemma get_put_le32 [simp]: "get_le32 (put_le32 v @ rest) = v"
proof (rule bit_word_eqI)
  fix n
  assume "n < LENGTH(32)"
  then consider "n < 8" | "8 \<le> n" "n < 16" | "16 \<le> n" "n < 24" | "24 \<le> n" "n < 32" by force
  then show "bit (get_le32 (put_le32 v @ rest)) n = bit v n"
    by cases (auto simp: get_le32_def put_le32_bytes bit_simps)
qed

lemmas get_put_le_whole [simp] = get_put_le16 [of _ "[]", simplified] get_put_le32 [of _ "[]", simplified]

lemma sint_word_of_int_i32 [simp]: "in_i32 v \<Longrightarrow> sint (word_of_int v :: u32) = v"
  by (simp add: in_i32_def sint_sbintrunc' signed_take_bit_int_eq_self)

section \<open>Varints and zigzag numbers\<close>

lemma uint_drop_bit: "uint (drop_bit n w) = uint w div 2 ^ n" for w :: "'a::len word"
  by (simp only: uint_nat unat_drop_bit_eq drop_bit_eq_div [where 'a = nat]) (simp add: zdiv_int)

lemma drop_bit_less: "v \<ge> 0x80 \<Longrightarrow> unat (drop_bit 7 v) < unat v" for v :: u32
  by (simp only: unat_drop_bit_eq drop_bit_eq_div [where 'a = nat]) (simp add: word_le_nat_alt)

text \<open>\<open>put_varint\<close>: seven bits a byte, the low ones first, the top bit saying that more follow.\<close>

function put_varint :: "u32 \<Rightarrow> u8 list" where
  "put_varint v = (if v \<ge> 0x80 then ucast (v OR 0x80) # put_varint (drop_bit 7 v) else [ucast v])"
  by pat_completeness auto

termination by (relation "measure unat") (simp_all only: wf_measure in_measure drop_bit_less)

declare put_varint.simps [simp del]

definition zigzag :: "int \<Rightarrow> u32" where
  "zigzag v = push_bit 1 (word_of_int v) XOR (if v < 0 then - 1 else 0)"

text \<open>How many bytes a stored varint takes, seen from its first byte.\<close>

definition varint_length :: "u8 list \<Rightarrow> nat \<Rightarrow> nat" where
  "varint_length bytes available =
     length (takeWhile (\<lambda>b. b AND 0x80 \<noteq> 0) (take (min available 5) bytes)) + 1"

section \<open>What the host reads\<close>

text \<open>
  \<open>readVarint\<close> and \<open>unzigzag\<close> of \<open>web/protocol.js\<close>; a JavaScript number that is an integer below
  \<open>2\<^sup>5\<^sup>3\<close> is an \<open>int\<close>, and the error thrown for a short or malformed payload is \<open>None\<close>.
\<close>

fun read_varint_from :: "nat \<Rightarrow> int \<Rightarrow> u8 list \<Rightarrow> (int \<times> u8 list) option" where
  "read_varint_from shift v [] = None"
| "read_varint_from shift v (byte # rest) =
     (if shift \<ge> 35 then None
      else if shift = 28 \<and> byte > 0x0f then None
      else let v = v + uint (byte AND 0x7f) * 2 ^ shift
           in if byte AND 0x80 = 0 then Some (v, rest) else read_varint_from (shift + 7) v rest)"

definition readVarint :: "u8 list \<Rightarrow> (int \<times> u8 list) option" where
  "readVarint payload = read_varint_from 0 0 payload"

definition unzigzag :: "int \<Rightarrow> int" where
  "unzigzag v = (if v mod 2 = 0 then v div 2 else - (v + 1) div 2)"

section \<open>Reading back what was written\<close>

lemma varint_byte:
  fixes v :: u32
  shows "uint ((ucast (v OR 0x80) :: u8) AND 0x7f) = uint v mod 128" "(ucast (v OR 0x80) :: u8) AND 0x80 \<noteq> 0"
proof -
  have hi: "(0x80 :: u32) = 2 ^ 7" and lo: "(0x7f :: u8) = mask 7" by (simp_all add: mask_eq_exp_minus_1)
  have "(ucast (v OR 2 ^ 7) :: u8) AND mask 7 = ucast (take_bit 7 v)"
    by (rule bit_word_eqI) (auto simp: bit_simps simp del: of_nat_numeral power_numeral)
  then show "uint ((ucast (v OR 0x80) :: u8) AND 0x7f) = uint v mod 128"
    by (simp only: hi lo unsigned_ucast_eq unsigned_take_bit_eq) (simp add: take_bit_eq_mod mod_mod_cancel)
  have "bit (ucast (v OR 2 ^ 7) :: u8) 7" by (simp add: bit_simps)
  then have "(ucast (v OR 2 ^ 7) :: u8) AND 2 ^ 7 \<noteq> 0" by (simp only: and_exp_eq_0_iff_not_bit) simp
  then show "(ucast (v OR 0x80) :: u8) AND 0x80 \<noteq> 0" by simp
qed

lemma varint_last_byte:
  fixes v :: u32
  assumes "\<not> 0x80 \<le> v"
  shows "uint (ucast v :: u8) = uint v" "uint ((ucast v :: u8) AND 0x7f) = uint v" "(ucast v :: u8) AND 0x80 = 0"
proof -
  have small: "uint v < 128" using assms by (simp add: word_le_def)
  then show whole: "uint (ucast v :: u8) = uint v"
    by (simp add: unsigned_ucast_eq take_bit_eq_mod)
  have lo: "(0x7f :: u8) = mask 7" by (simp add: mask_eq_exp_minus_1)
  show "uint ((ucast v :: u8) AND 0x7f) = uint v"
    using small whole by (simp only: lo unsigned_take_bit_eq flip: take_bit_eq_mask) (simp add: take_bit_eq_mod)
  have "\<not> bit (ucast v :: u8) 7"
    using small by (simp add: bit_iff_odd word_div_def whole)
  then have "(ucast v :: u8) AND 2 ^ 7 = 0" by (simp only: and_exp_eq_0_iff_not_bit) simp
  then show "(ucast v :: u8) AND 0x80 = 0" by simp
qed


theorem readVarint_put_varint [simp]: "readVarint (put_varint v @ rest) = Some (uint v, rest)"
proof -
  have "read_varint_from shift acc (put_varint v @ rest) = Some (acc + uint v * 2 ^ shift, rest)"
    if "uint v * 2 ^ shift < 4294967296" "shift \<in> {0, 7, 14, 21, 28}" for shift acc v
    using that
  proof (induction v arbitrary: shift acc rule: put_varint.induct)
    case (1 v)
    show ?case
    proof (cases "0x80 \<le> v")
      case True
      then have big: "128 \<le> uint v" by (simp add: word_le_def)
      then have "shift \<noteq> 28" using "1.prems"(1) by auto
      moreover have split: "uint v * 2 ^ shift = (uint v mod 128) * 2 ^ shift + uint v div 128 * 2 ^ (shift + 7)"
      proof -
        have "uint v * 2 ^ shift = (uint v div 128 * 128 + uint v mod 128) * 2 ^ shift" by simp
        then show ?thesis by (simp only: distrib_right power_add) simp
      qed
      moreover have "0 \<le> (uint v mod 128) * 2 ^ shift" by simp
      ultimately show ?thesis
        using True "1.prems" "1.IH" [of "shift + 7" "acc + uint v mod 128 * 2 ^ shift"]
        by (auto simp: put_varint.simps [of v] varint_byte uint_drop_bit)
    next
      case False
      then show ?thesis
        using "1.prems" by (auto simp: put_varint.simps [of v] varint_last_byte word_le_def word_less_def not_le)
    qed
  qed
  from this [of v 0 0] show ?thesis using uint_bounds(4) [of v] by (simp add: readVarint_def)
qed

lemma uint_zigzag: "in_i32 v \<Longrightarrow> uint (zigzag v) = (if v < 0 then - 2 * v - 1 else 2 * v)"
proof -
  assume "in_i32 v"
  then have range: "- 2147483648 \<le> v" "v \<le> 2147483647" by (simp_all add: in_i32_def)
  have twice: "push_bit 1 (word_of_int v) = (word_of_int (2 * v) :: u32)"
    by (simp add: push_bit_eq_mult wi_hom_mult [symmetric])
  show ?thesis
  proof (cases "v < 0")
    case True
    have "push_bit 1 (word_of_int v) XOR - 1 = (NOT (push_bit 1 (word_of_int v)) :: u32)"
      by (rule bit_word_eqI) (simp add: bit_simps)
    moreover have "NOT (word_of_int (2 * v)) = (word_of_int (- 2 * v - 1) :: u32)"
      by (simp add: not_eq_complement)
    ultimately show ?thesis
      using True range by (simp only: zigzag_def twice if_True uint_word_of_int) simp
  next
    case False
    then show ?thesis
      using range by (simp only: zigzag_def twice if_False xor.right_neutral uint_word_of_int) simp
  qed
qed

lemma unzigzag_zigzag [simp]: "in_i32 v \<Longrightarrow> unzigzag (uint (zigzag v)) = v"
  by (auto simp: uint_zigzag unzigzag_def)

lemma put_varint_split:
  "\<exists>more last. put_varint v = more @ [last] \<and> (\<forall>b \<in> set more. b AND 0x80 \<noteq> 0) \<and> last AND 0x80 = 0"
proof (induction v rule: put_varint.induct)
  case (1 v)
  show ?case
  proof (cases "0x80 \<le> v")
    case True
    then obtain more last where "put_varint (drop_bit 7 v) = more @ [last]"
      "\<forall>b \<in> set more. b AND 0x80 \<noteq> 0" "last AND 0x80 = 0" using 1 by blast
    then have "put_varint v = (ucast (v OR 0x80) # more) @ [last] \<and>
      (\<forall>b \<in> set (ucast (v OR 0x80) # more). b AND 0x80 \<noteq> 0) \<and> last AND 0x80 = 0"
      using True varint_byte by (simp add: put_varint.simps [of v])
    then show ?thesis by blast
  next
    case False
    then have "put_varint v = [] @ [ucast v] \<and> (ucast v :: u8) AND 0x80 = 0"
      using varint_last_byte by (simp add: put_varint.simps [of v])
    then show ?thesis by (metis empty_iff empty_set)
  qed
qed

lemma put_varint_not_Nil [simp]: "put_varint v \<noteq> []"
  by (simp add: put_varint.simps)

lemma length_put_varint_within: "uint v < 128 ^ Suc k \<Longrightarrow> length (put_varint v) \<le> Suc k"
proof (induction v arbitrary: k rule: put_varint.induct)
  case (1 v)
  show ?case
  proof (cases "0x80 \<le> v")
    case True
    then have "k \<noteq> 0" using "1.prems" by (cases k) (auto simp: word_le_def)
    then obtain j where k: "k = Suc j" by (cases k) auto
    have "uint (drop_bit 7 v) < 128 ^ Suc j"
      using "1.prems" k by (simp add: uint_drop_bit)
    with True 1 k show ?thesis by (simp add: put_varint.simps [of v])
  qed (simp add: put_varint.simps [of v])
qed

lemma length_put_varint: "length (put_varint v) \<le> 5"
  using length_put_varint_within [of v 4] uint_bounds(4) [of v] by simp

lemma varint_length_put_varint [simp]:
  assumes "length (put_varint v) \<le> available"
  shows "varint_length (put_varint v @ rest) available = length (put_varint v)"
proof -
  obtain more last where split: "put_varint v = more @ [last]" "\<forall>b \<in> set more. b AND 0x80 \<noteq> 0" "last AND 0x80 = 0"
    using put_varint_split by blast
  have "length more < min available 5"
    using assms length_put_varint [of v] by (simp add: split)
  then obtain n where "min available 5 = Suc (length more + n)" by (metis less_iff_Suc_add)
  then show ?thesis
    by (simp add: varint_length_def split takeWhile_append)
qed

end
