(* ===== verification/Capture_Buffer.thy ===== *)
theory Capture_Buffer
  imports Bytes
begin

text \<open>
  The burst buffer of input capture (\<open>observer/capture.h\<close>, \<open>observer/capture.c\<close>): a record is
  encoded as it is recorded, a frame as a delta from the previous frame where that is shorter,
  and waits in a ring of bytes until the link has room. Batches are peeked and then consumed.
  A record that does not fit is dropped but numbered; a marker stored before the next record
  says how many were.

  The locale \<open>byte_fifo\<close> is what the batches need of the ring, interpreted on the ring of the code.
\<close>

section \<open>Records\<close>

abbreviation "CAPTURE_RECORD_FRAME \<equiv> (1 :: u8)"
abbreviation "CAPTURE_RECORD_SOURCE \<equiv> (2 :: u8)"
abbreviation "CAPTURE_RECORD_KEYPRESS \<equiv> (3 :: u8)"
abbreviation "CAPTURE_RECORD_ENTERED \<equiv> (4 :: u8)"
abbreviation "CAPTURE_RECORD_LEFT \<equiv> (5 :: u8)"
abbreviation "CAPTURE_RECORD_SETTINGS_CHANGED \<equiv> (6 :: u8)"
abbreviation "CAPTURE_RECORD_FLUSH \<equiv> (7 :: u8)"
abbreviation "CAPTURE_DELTA_FRAME \<equiv> (0x80 :: u8)"
abbreviation "CAPTURE_DELTA_FLAGS \<equiv> (0x04 :: u8)"
abbreviation "CAPTURE_SPAN_PREVIOUS \<equiv> (0 :: u8)"
abbreviation "CAPTURE_SPAN_ELAPSED \<equiv> (1 :: u8)"
abbreviation "CAPTURE_SPAN_ELAPSED_PLUS \<equiv> (2 :: u8)"
abbreviation "CAPTURE_SPAN_ABSOLUTE \<equiv> (3 :: u8)"
abbreviation "GAP_MARKER \<equiv> (0x7f :: u8)"
abbreviation "CAPTURE_RECORD_MAX_SIZE \<equiv> (20 :: nat)"
abbreviation "GAP_MARKER_SIZE \<equiv> (5 :: nat)"
abbreviation "CAPTURE_BATCH_HEADER_SIZE \<equiv> (5 :: nat)"
abbreviation "CAPTURE_BATCH_MAX_PAYLOAD \<equiv> (119 :: nat)"

record zpt_capture_record =
  cr_sequence :: u32
  cr_time_ms :: u32
  cr_time_us :: u16
  cr_kind :: u8
  cr_flags :: u8
  cr_link :: u8
  cr_source_id :: u16
  cr_resolution_cpi :: u16
  cr_x :: int
  cr_y :: int
  cr_span_us :: u32
  cr_settings_hash :: u32

definition capture_record :: zpt_capture_record where
  "capture_record = \<lparr>cr_sequence = 0, cr_time_ms = 0, cr_time_us = 0, cr_kind = 0, cr_flags = 0, cr_link = 0,
     cr_source_id = 0, cr_resolution_cpi = 0, cr_x = 0, cr_y = 0, cr_span_us = 0, cr_settings_hash = 0\<rparr>"

definition saturate_int32 :: "int \<Rightarrow> int" where
  "saturate_int32 v = (if v > INT32_MAX then INT32_MAX else if v < INT32_MIN then INT32_MIN else v)"

definition encode_full :: "zpt_capture_record \<Rightarrow> u8 list" where
  "encode_full r = cr_kind r #
     (if cr_kind r = CAPTURE_RECORD_FRAME then
        cr_flags r # put_le32 (cr_time_ms r) @ put_le16 (cr_time_us r) @ put_le32 (word_of_int (cr_x r)) @
        put_le32 (word_of_int (cr_y r)) @ put_le32 (cr_span_us r)
      else if cr_kind r = CAPTURE_RECORD_SOURCE then
        cr_link r # put_le16 (cr_source_id r) @ put_le16 (cr_resolution_cpi r)
      else if cr_kind r = CAPTURE_RECORD_KEYPRESS \<or> cr_kind r = CAPTURE_RECORD_FLUSH then put_le32 (cr_time_ms r)
      else if cr_kind r = CAPTURE_RECORD_ENTERED then put_le32 (cr_settings_hash r)
      else [])"

section \<open>The buffer\<close>

record zpt_capture_buffer =
  cb_data :: "u8 list"
  cb_capacity :: u32
  cb_head :: u32
  cb_used :: u32
  cb_records :: u32
  cb_next_sequence :: u32
  cb_out_sequence :: u32
  cb_pending_gap :: u32
  cb_previous_us :: int
  cb_previous_span_us :: u32
  cb_previous_flags :: u8
  cb_have_previous :: bool

record zpt_capture_take =
  take_bytes :: u32
  take_records :: u32
  take_next_sequence :: u32

definition frame_us :: "zpt_capture_record \<Rightarrow> int" where
  "frame_us r = u64 (uint (cr_time_ms r) * 1000 + uint (cr_time_us r))"

text \<open>A frame as a delta from the buffer's previous frame; empty when it has to go whole.\<close>

definition span_mode :: "zpt_capture_buffer \<Rightarrow> zpt_capture_record \<Rightarrow> int \<Rightarrow> u8" where
  "span_mode b r elapsed =
     (if cr_span_us r = cb_previous_span_us b then CAPTURE_SPAN_PREVIOUS
      else if elapsed \<ge> 0 \<and> uint (cr_span_us r) = u64 elapsed then CAPTURE_SPAN_ELAPSED
      else if uint (cr_span_us r) - elapsed \<ge> INT32_MIN \<and> uint (cr_span_us r) - elapsed \<le> INT32_MAX \<and>
          length (put_varint (zigzag (uint (cr_span_us r) - elapsed))) < length (put_varint (cr_span_us r))
        then CAPTURE_SPAN_ELAPSED_PLUS
      else CAPTURE_SPAN_ABSOLUTE)"

definition delta_bytes :: "zpt_capture_buffer \<Rightarrow> zpt_capture_record \<Rightarrow> int \<Rightarrow> u8 list" where
  "delta_bytes b r elapsed =
     (let mode = span_mode b r elapsed; flags = cr_flags r \<noteq> cb_previous_flags b
      in (CAPTURE_DELTA_FRAME OR (if flags then CAPTURE_DELTA_FLAGS else 0) OR mode) #
         put_varint (zigzag elapsed) @ put_varint (zigzag (cr_x r)) @ put_varint (zigzag (cr_y r)) @
         (if flags then [cr_flags r] else []) @
         (if mode = CAPTURE_SPAN_ELAPSED_PLUS then put_varint (zigzag (uint (cr_span_us r) - elapsed))
          else if mode = CAPTURE_SPAN_ABSOLUTE then put_varint (cr_span_us r) else []))"

definition encode_delta :: "zpt_capture_buffer \<Rightarrow> zpt_capture_record \<Rightarrow> u8 list" where
  "encode_delta b r =
     (let elapsed = i64 (frame_us r - cb_previous_us b)
      in if \<not> cb_have_previous b \<or> elapsed > INT32_MAX \<or> elapsed < INT32_MIN then []
         else let bytes = delta_bytes b r elapsed
              in if length bytes < CAPTURE_RECORD_MAX_SIZE then bytes else [])"

text \<open>The length of the stored record or gap marker that starts the bytes.\<close>

definition stored_length :: "u8 list \<Rightarrow> nat \<Rightarrow> nat" where
  "stored_length bytes available =
     (let kind = bytes ! 0
      in if kind AND CAPTURE_DELTA_FRAME \<noteq> 0 then
           let skip_varint = (\<lambda>length. length + varint_length (drop length bytes) (available - length));
               length = (skip_varint ^^ 3) 1;
               length = length + (if kind AND CAPTURE_DELTA_FLAGS \<noteq> 0 then 1 else 0);
               mode = kind AND 0x03
           in if mode = CAPTURE_SPAN_ELAPSED_PLUS \<or> mode = CAPTURE_SPAN_ABSOLUTE then skip_varint length else length
         else if kind = CAPTURE_RECORD_FRAME then 20
         else if kind = CAPTURE_RECORD_SOURCE then 6
         else if kind = CAPTURE_RECORD_KEYPRESS \<or> kind = CAPTURE_RECORD_FLUSH \<or> kind = CAPTURE_RECORD_ENTERED \<or>
           kind = GAP_MARKER then 5
         else 1)"

fun ring_store :: "u32 \<Rightarrow> u32 \<Rightarrow> u8 list \<Rightarrow> u8 list \<Rightarrow> u8 list" where
  "ring_store capacity tail [] data = data"
| "ring_store capacity tail (byte # bytes) data =
     ring_store capacity (if tail + 1 = capacity then 0 else tail + 1) bytes (data[unat tail := byte])"

definition ring_write :: "zpt_capture_buffer \<Rightarrow> u8 list \<Rightarrow> zpt_capture_buffer" where
  "ring_write b bytes = b\<lparr>cb_data := ring_store (cb_capacity b) ((cb_head b + cb_used b) mod cb_capacity b) bytes (cb_data b),
     cb_used := cb_used b + of_nat (length bytes)\<rparr>"

fun ring_load :: "u32 \<Rightarrow> u32 \<Rightarrow> nat \<Rightarrow> u8 list \<Rightarrow> u8 list" where
  "ring_load capacity position 0 data = []"
| "ring_load capacity position (Suc n) data =
     data ! unat position # ring_load capacity (if position + 1 = capacity then 0 else position + 1) n data"

definition ring_read :: "zpt_capture_buffer \<Rightarrow> nat \<Rightarrow> nat \<Rightarrow> u8 list" where
  "ring_read b offset len = ring_load (cb_capacity b) ((cb_head b + of_nat offset) mod cb_capacity b) len (cb_data b)"

definition zpt_capture_buffer_init :: "u8 list \<Rightarrow> u32 \<Rightarrow> zpt_capture_buffer" where
  "zpt_capture_buffer_init storage capacity = \<lparr>cb_data = storage, cb_capacity = capacity, cb_head = 0, cb_used = 0,
     cb_records = 0, cb_next_sequence = 0, cb_out_sequence = 0, cb_pending_gap = 0, cb_previous_us = 0,
     cb_previous_span_us = 0, cb_previous_flags = 0, cb_have_previous = False\<rparr>"

definition zpt_capture_buffer_reset :: "zpt_capture_buffer \<Rightarrow> zpt_capture_buffer" where
  "zpt_capture_buffer_reset b = zpt_capture_buffer_init (cb_data b) (cb_capacity b)"

definition zpt_capture_buffer_put :: "zpt_capture_buffer \<Rightarrow> zpt_capture_record \<Rightarrow> bool \<times> zpt_capture_buffer" where
  "zpt_capture_buffer_put b r =
     (let b = b\<lparr>cb_next_sequence := cb_next_sequence b + 1\<rparr>;
          b = (if cr_kind r = CAPTURE_RECORD_ENTERED then b\<lparr>cb_have_previous := False\<rparr> else b);
          frame = (cr_kind r = CAPTURE_RECORD_FRAME);
          encoded = (if frame then encode_delta b r else []);
          encoded = (if encoded = [] then encode_full r else encoded);
          needed = of_nat (length encoded) + (if cb_pending_gap b > 0 then of_nat GAP_MARKER_SIZE else 0)
      in if cb_capacity b - cb_used b < needed
         then (False, b\<lparr>cb_pending_gap := cb_pending_gap b + 1, cb_have_previous := False\<rparr>)
         else
           let b = (if cb_pending_gap b > 0
                    then (ring_write b (GAP_MARKER # put_le32 (cb_pending_gap b)))\<lparr>cb_pending_gap := 0\<rparr> else b);
               b = ring_write b encoded;
               b = b\<lparr>cb_records := cb_records b + 1\<rparr>
           in (True, if frame then b\<lparr>cb_previous_us := frame_us r, cb_previous_span_us := cr_span_us r,
                       cb_previous_flags := cr_flags r, cb_have_previous := True\<rparr> else b))"

text \<open>
  The loop of \<open>zpt_capture_buffer_peek\<close>: \<open>offset\<close>, \<open>sequence\<close> and \<open>count\<close> as in the code, and the
  records copied so far. A record read short of its 20 bytes is padded with zeros.
\<close>

lemma stored_length_pos: "0 < stored_length bytes available"
  by (auto simp: stored_length_def Let_def numeral_3_eq_3)

lemma peek_progress: "offset < used \<Longrightarrow> used - (offset + stored_length bytes available) < used - offset"
  using stored_length_pos [of bytes available] by linarith

function peek_loop :: "zpt_capture_buffer \<Rightarrow> nat \<Rightarrow> nat \<Rightarrow> u32 \<Rightarrow> nat \<Rightarrow> u8 list \<Rightarrow> nat \<times> u32 \<times> nat \<times> u8 list" where
  "peek_loop b capacity offset sequence count out =
     (if offset < unat (cb_used b) \<and> count < 255 then
        let available = min (unat (cb_used b) - offset) CAPTURE_RECORD_MAX_SIZE;
            record = ring_read b offset available @ replicate (CAPTURE_RECORD_MAX_SIZE - available) 0;
            record_length = stored_length record available
        in if record ! 0 = GAP_MARKER then
             if count > 0 then (offset, sequence, count, out)
             else peek_loop b capacity (offset + record_length) (sequence + get_le32 (drop 1 record)) count out
           else if CAPTURE_BATCH_HEADER_SIZE + length out + record_length > capacity then (offset, sequence, count, out)
           else peek_loop b capacity (offset + record_length) sequence (count + 1) (out @ take record_length record)
      else (offset, sequence, count, out))"
  by pat_completeness auto

termination
  by (relation "measure (\<lambda>(b, _, offset, _). unat (cb_used b) - offset)")
    (simp_all only: wf_measure in_measure case_prod_conv peek_progress)

declare peek_loop.simps [simp del]

definition zpt_capture_buffer_peek :: "zpt_capture_buffer \<Rightarrow> nat \<Rightarrow> u8 list \<times> zpt_capture_take" where
  "zpt_capture_buffer_peek b capacity =
     (let (offset, sequence, count, records) = peek_loop b capacity 0 (cb_out_sequence b) 0 [];
          covered = \<lparr>take_bytes = of_nat offset, take_records = of_nat count,
            take_next_sequence = sequence + of_nat count\<rparr>
      in (if count = 0 then [] else put_le32 sequence @ [of_nat count] @ records, covered))"

definition zpt_capture_buffer_consume :: "zpt_capture_buffer \<Rightarrow> zpt_capture_take \<Rightarrow> zpt_capture_buffer" where
  "zpt_capture_buffer_consume b t = b\<lparr>cb_head := (cb_head b + take_bytes t) mod cb_capacity b,
     cb_used := cb_used b - take_bytes t, cb_records := cb_records b - take_records t,
     cb_out_sequence := take_next_sequence t\<rparr>"

definition zpt_capture_buffer_discard :: "zpt_capture_buffer \<Rightarrow> u32 \<times> zpt_capture_buffer" where
  "zpt_capture_buffer_discard b = (cb_records b,
     b\<lparr>cb_head := 0, cb_used := 0, cb_records := 0, cb_pending_gap := 0,
       cb_out_sequence := cb_next_sequence b, cb_have_previous := False\<rparr>)"

section \<open>The ring is a queue of bytes\<close>

definition ring_ok :: "zpt_capture_buffer \<Rightarrow> bool" where
  "ring_ok b \<longleftrightarrow> length (cb_data b) = unat (cb_capacity b) \<and> 0 < unat (cb_capacity b) \<and>
     unat (cb_capacity b) < 2147483648 \<and> unat (cb_head b) < unat (cb_capacity b) \<and>
     unat (cb_used b) \<le> unat (cb_capacity b)"

definition content :: "zpt_capture_buffer \<Rightarrow> u8 list" where
  "content b = map (\<lambda>i. cb_data b ! ((unat (cb_head b) + i) mod unat (cb_capacity b))) [0..<unat (cb_used b)]"

lemma length_content [simp]: "length (content b) = unat (cb_used b)"
  by (simp add: content_def)

lemma unat_plus: "unat v + unat w < 4294967296 \<Longrightarrow> unat (v + w) = unat v + unat w" for v w :: u32
  by (simp add: unat_word_ariths)

lemma unat_minus: "unat w \<le> unat v \<Longrightarrow> unat (v - w) = unat v - unat w" for v w :: u32
  by (simp add: unat_sub word_le_nat_alt)

lemma unat_wrapped_next:
  assumes "unat t < unat n" "unat n < 2147483648"
  shows "unat (if t + 1 = n then 0 else t + 1 :: u32) = (unat t + 1) mod unat n"
proof -
  have succ: "unat (t + 1) = unat t + 1" using assms by (subst unat_plus) simp_all
  show ?thesis
  proof (cases "t + 1 = n")
    case True
    then show ?thesis using succ by auto
  next
    case False
    then have "unat t + 1 \<noteq> unat n" using succ by (metis word_unat_eq_iff)
    then show ?thesis using False assms succ by simp
  qed
qed

lemma ring_load_map:
  assumes "unat position < unat capacity" "unat capacity < 2147483648"
  shows "ring_load capacity position n data = map (\<lambda>i. data ! ((unat position + i) mod unat capacity)) [0..<n]"
  using assms(1)
proof (induction n arbitrary: position)
  case (Suc n)
  have step: "unat (if position + 1 = capacity then 0 else position + 1) = (unat position + 1) mod unat capacity"
    using Suc.prems assms(2) by (rule unat_wrapped_next)
  then have "unat (if position + 1 = capacity then 0 else position + 1) < unat capacity"
    using Suc.prems by simp
  from Suc.IH [OF this] show ?case
    using Suc.prems by (simp add: step mod_add_left_eq map_upt_Suc del: upt_Suc)
qed simp

text \<open>How far \<open>p\<close> lies behind \<open>t\<close> on a ring of \<open>n\<close> places.\<close>

definition ring_distance :: "nat \<Rightarrow> nat \<Rightarrow> nat \<Rightarrow> nat" where
  "ring_distance n t p = (if t \<le> p then p - t else p + n - t)"

lemma nth_ring_store:
  assumes "unat capacity < 2147483648" "unat tail < unat capacity" "length bytes \<le> unat capacity"
    "length data = unat capacity" "p < unat capacity"
  shows "ring_store capacity tail bytes data ! p =
    (let d = ring_distance (unat capacity) (unat tail) p in if d < length bytes then bytes ! d else data ! p)"
  using assms(2-)
proof (induction bytes arbitrary: tail data)
  case (Cons byte bytes)
  let ?next = "if tail + 1 = capacity then 0 else tail + 1"
  have step: "unat ?next = (unat tail + 1) mod unat capacity"
    using Cons.prems(1) assms(1) by (rule unat_wrapped_next)
  have succ: "unat ?next = (if unat tail + 1 = unat capacity then 0 else unat tail + 1)"
    unfolding step using Cons.prems(1) by auto
  have IH: "ring_store capacity ?next bytes (data[unat tail := byte]) ! p =
    (let d = ring_distance (unat capacity) (unat ?next) p in if d < length bytes then bytes ! d else data[unat tail := byte] ! p)"
    using Cons.prems by (intro Cons.IH) (auto simp: succ)
  show ?case
  proof (cases "p = unat tail")
    case True
    then have "ring_distance (unat capacity) (unat ?next) p = unat capacity - 1" "ring_distance (unat capacity) (unat tail) p = 0"
      using Cons.prems by (auto simp: ring_distance_def succ)
    then show ?thesis using Cons.prems True IH by (auto simp: Let_def split: if_splits)
  next
    case False
    then have "ring_distance (unat capacity) (unat tail) p = Suc (ring_distance (unat capacity) (unat ?next) p)"
      using Cons.prems by (auto simp: ring_distance_def succ)
    then show ?thesis using False IH by (simp add: Let_def)
  qed
qed simp

lemma length_ring_store [simp]: "length (ring_store capacity tail bytes data) = length data"
  by (induction capacity tail bytes data rule: ring_store.induct) simp_all

lemma content_ring_write:
  assumes "ring_ok b" "length bytes \<le> unat (cb_capacity b) - unat (cb_used b)"
  shows "content (ring_write b bytes) = content b @ bytes" "ring_ok (ring_write b bytes)"
    "unat (cb_used (ring_write b bytes)) = unat (cb_used b) + length bytes"
proof -
  let ?n = "unat (cb_capacity b)" and ?h = "unat (cb_head b)" and ?u = "unat (cb_used b)"
  have ok: "length (cb_data b) = ?n" "0 < ?n" "?n < 2147483648" "?h < ?n" "?u \<le> ?n"
    using assms(1) by (simp_all add: ring_ok_def)
  have tail: "unat ((cb_head b + cb_used b) mod cb_capacity b) = (?h + ?u) mod ?n"
    using ok by (simp add: unat_mod unat_plus)
  have len: "unat (of_nat (length bytes) :: u32) = length bytes"
    using assms(2) ok by (simp add: unat_of_nat)
  show used: "unat (cb_used (ring_write b bytes)) = ?u + length bytes"
    using assms(2) ok len by (simp add: ring_write_def unat_plus)
  show "ring_ok (ring_write b bytes)"
    using assms(2) ok used by (simp add: ring_ok_def ring_write_def)
  have byte: "cb_data (ring_write b bytes) ! ((?h + i) mod ?n) =
      (if i < ?u then cb_data b ! ((?h + i) mod ?n) else bytes ! (i - ?u))" if "i < ?u + length bytes" for i
  proof -
    have "ring_distance ?n ((?h + ?u) mod ?n) ((?h + i) mod ?n) = (if i < ?u then i + ?n - ?u else i - ?u)"
      using ok that assms(2) by (simp add: ring_distance_def mod_if) linarith
    then show ?thesis
      using ok tail that assms(2) by (auto simp: ring_write_def nth_ring_store Let_def)
  qed
  show "content (ring_write b bytes) = content b @ bytes"
  proof (rule nth_equalityI)
    fix i assume "i < length (content (ring_write b bytes))"
    then have i: "i < ?u + length bytes" by (simp add: used)
    then have "content (ring_write b bytes) ! i = cb_data (ring_write b bytes) ! ((?h + i) mod ?n)"
      by (simp add: content_def used) (simp add: ring_write_def)
    also have "\<dots> = (content b @ bytes) ! i"
      unfolding byte [OF i] by (simp add: nth_append) (simp add: content_def)
    finally show "content (ring_write b bytes) ! i = (content b @ bytes) ! i" .
  qed (simp add: used)
qed

lemma ring_read_content:
  assumes "ring_ok b" "offset + len \<le> unat (cb_used b)"
  shows "ring_read b offset len = take len (drop offset (content b))"
proof -
  let ?n = "unat (cb_capacity b)" and ?h = "unat (cb_head b)"
  have ok: "0 < ?n" "?n < 2147483648" "?h < ?n" "unat (cb_used b) \<le> ?n"
    using assms(1) by (simp_all add: ring_ok_def)
  have at: "unat ((cb_head b + of_nat offset) mod cb_capacity b) = (?h + offset) mod ?n"
    using ok assms(2) by (simp add: unat_mod unat_plus unat_of_nat)
  have "ring_read b offset len = map (\<lambda>i. cb_data b ! (((?h + offset) mod ?n + i) mod ?n)) [0..<len]"
    unfolding ring_read_def at [symmetric] using ok at by (intro ring_load_map) simp_all
  also have "\<dots> = take len (drop offset (content b))"
    using assms(2) by (intro nth_equalityI) (simp_all add: content_def mod_add_left_eq add.assoc)
  finally show ?thesis .
qed

lemma content_consume:
  assumes "ring_ok b" "unat (take_bytes t) \<le> unat (cb_used b)"
  shows "content (zpt_capture_buffer_consume b t) = drop (unat (take_bytes t)) (content b)"
    "ring_ok (zpt_capture_buffer_consume b t)"
proof -
  let ?n = "unat (cb_capacity b)" and ?h = "unat (cb_head b)" and ?k = "unat (take_bytes t)"
  have ok: "length (cb_data b) = ?n" "0 < ?n" "?n < 2147483648" "?h < ?n" "unat (cb_used b) \<le> ?n"
    using assms(1) by (simp_all add: ring_ok_def)
  have head: "unat ((cb_head b + take_bytes t) mod cb_capacity b) = (?h + ?k) mod ?n"
    using ok assms(2) by (simp add: unat_mod unat_plus)
  have used: "unat (cb_used b - take_bytes t) = unat (cb_used b) - ?k"
    using assms(2) by (rule unat_minus)
  show "ring_ok (zpt_capture_buffer_consume b t)"
    using ok by (simp add: ring_ok_def zpt_capture_buffer_consume_def head used)
  show "content (zpt_capture_buffer_consume b t) = drop ?k (content b)"
    by (rule nth_equalityI)
      (simp_all add: content_def zpt_capture_buffer_consume_def head used mod_add_left_eq add.assoc
        drop_map nth_map_upt)
qed

section \<open>The interface\<close>

text \<open>
  A queue of bytes that is written at its end and read at any offset. A copy of it may be read
  while it is written: what was queued stays where it is until it is skipped.
\<close>

locale byte_fifo =
  fixes ok :: "'q \<Rightarrow> bool" and queued :: "'q \<Rightarrow> u8 list" and room :: "'q \<Rightarrow> nat"
    and store :: "'q \<Rightarrow> u8 list \<Rightarrow> 'q" and look :: "'q \<Rightarrow> nat \<Rightarrow> nat \<Rightarrow> u8 list" and skip :: "'q \<Rightarrow> nat \<Rightarrow> 'q"
  assumes queued_store: "ok q \<Longrightarrow> length bs \<le> room q \<Longrightarrow> queued (store q bs) = queued q @ bs"
    and ok_store: "ok q \<Longrightarrow> length bs \<le> room q \<Longrightarrow> ok (store q bs)"
    and room_store: "ok q \<Longrightarrow> length bs \<le> room q \<Longrightarrow> room (store q bs) = room q - length bs"
    and look_queued: "ok q \<Longrightarrow> offset + len \<le> length (queued q) \<Longrightarrow> look q offset len = take len (drop offset (queued q))"
    and queued_skip: "ok q \<Longrightarrow> len \<le> length (queued q) \<Longrightarrow> queued (skip q len) = drop len (queued q)"
    and ok_skip: "ok q \<Longrightarrow> len \<le> length (queued q) \<Longrightarrow> ok (skip q len)"
begin

lemma store_two:
  assumes "ok q" "length as + length bs \<le> room q"
  shows "queued (store (store q as) bs) = queued q @ as @ bs" "ok (store (store q as) bs)"
  using assms by (simp_all add: queued_store ok_store room_store)

lemma look_while_storing:
  assumes "ok q" "length bs \<le> room q" "offset + len \<le> length (queued q)"
  shows "look (store q bs) offset len = look q offset len"
  using assms by (simp add: look_queued queued_store ok_store)

lemma skip_while_storing:
  assumes "ok q" "length bs \<le> room q" "len \<le> length (queued q)"
  shows "queued (skip (store q bs) len) = queued (skip q len) @ bs"
  using assms by (simp add: queued_skip queued_store ok_store)

end

definition ring_skip :: "zpt_capture_buffer \<Rightarrow> nat \<Rightarrow> zpt_capture_buffer" where
  "ring_skip b len = zpt_capture_buffer_consume b
     \<lparr>take_bytes = of_nat len, take_records = 0, take_next_sequence = cb_out_sequence b\<rparr>"

interpretation ring: byte_fifo ring_ok content "\<lambda>b. unat (cb_capacity b) - unat (cb_used b)" ring_write ring_read ring_skip
proof
  fix b and bs :: "u8 list"
  assume "ring_ok b" "length bs \<le> unat (cb_capacity b) - unat (cb_used b)"
  note wrote = content_ring_write [OF this]
  then show "content (ring_write b bs) = content b @ bs" "ring_ok (ring_write b bs)" by simp_all
  show "unat (cb_capacity (ring_write b bs)) - unat (cb_used (ring_write b bs)) =
      unat (cb_capacity b) - unat (cb_used b) - length bs"
    using wrote(3) by (simp add: ring_write_def)
next
  fix b offset len
  assume "ring_ok b" "offset + len \<le> length (content b)"
  then show "ring_read b offset len = take len (drop offset (content b))" by (simp add: ring_read_content)
next
  fix b len
  assume b: "ring_ok b" "len \<le> length (content b)"
  then have "unat (of_nat len :: u32) = len" by (simp add: ring_ok_def unat_of_nat)
  then show "content (ring_skip b len) = drop len (content b)" "ring_ok (ring_skip b len)"
    using b by (simp_all add: ring_skip_def content_consume)
qed

end
