(* ===== verification/Capture_Stream.thy ===== *)
theory Capture_Stream
  imports Capture_Buffer
begin

text \<open>
  What the host reads from capture batches (\<open>parseCaptureBatch\<close> of \<open>web/protocol.js\<close>), and the
  end-to-end property of the burst buffer: over any interleaving of recording, sending and
  giving up, the host has received exactly the stored records that left the buffer, numbered
  as they were recorded.

  Exceptions of the host are \<open>None\<close>. The numbers of the host are integers, its sequence
  numbers (reduced with \<open>>>> 0\<close>) are words.
\<close>

section \<open>The host\<close>

datatype host_record =
    HostFrame (host_flags: u8) (host_time_ms: int) (host_time_us: int) (host_x: int) (host_y: int) (host_span_us: int)
  | HostSource u8 u16 u16
  | HostTimed u8 int
  | HostEntered u32
  | HostMark u8

text \<open>\<open>previous\<close> holds flags, milliseconds, microseconds and span of the last frame.\<close>

record capture_decoder =
  dec_next :: u32
  dec_previous :: "(u8 \<times> int \<times> int \<times> int) option"
  dec_skipped :: nat

definition captureDecoder :: capture_decoder where
  "captureDecoder = \<lparr>dec_next = 0, dec_previous = None, dec_skipped = 0\<rparr>"

definition parse_whole_frame :: "u8 list \<Rightarrow> (host_record \<times> u8 list) option" where
  "parse_whole_frame bytes =
     (if length bytes < 19 then None
      else Some (HostFrame (bytes ! 0) (uint (get_le32 (drop 1 bytes))) (uint (get_le16 (drop 5 bytes)))
             (sint (get_le32 (drop 7 bytes))) (sint (get_le32 (drop 11 bytes))) (uint (get_le32 (drop 15 bytes))),
           drop 19 bytes))"

text \<open>The fields of a delta frame: elapsed, x, y, the flags byte and the span value if they follow.\<close>

definition parse_delta_fields :: "u8 \<Rightarrow> u8 list \<Rightarrow> (int \<times> int \<times> int \<times> u8 option \<times> int \<times> u8 list) option" where
  "parse_delta_fields kind bytes =
     (case readVarint bytes of None \<Rightarrow> None | Some (elapsed, bytes) \<Rightarrow>
      case readVarint bytes of None \<Rightarrow> None | Some (x, bytes) \<Rightarrow>
      case readVarint bytes of None \<Rightarrow> None | Some (y, bytes) \<Rightarrow>
      let flagged = kind AND CAPTURE_DELTA_FLAGS \<noteq> 0; mode = kind AND 0x03 in
      if flagged \<and> bytes = [] then None
      else let (flags, bytes) = (if flagged then (Some (hd bytes), tl bytes) else (None, bytes)) in
        if mode = CAPTURE_SPAN_PREVIOUS \<or> mode = CAPTURE_SPAN_ELAPSED then Some (elapsed, x, y, flags, 0, bytes)
        else case readVarint bytes of None \<Rightarrow> None | Some (v, bytes) \<Rightarrow> Some (elapsed, x, y, flags, v, bytes))"

definition delta_frame :: "u8 \<Rightarrow> int \<Rightarrow> int \<Rightarrow> int \<Rightarrow> u8 option \<Rightarrow> int \<Rightarrow> u8 \<times> int \<times> int \<times> int \<Rightarrow> host_record" where
  "delta_frame kind elapsed x y flags v = (\<lambda>(previous_flags, time_ms, time_us, span_us).
     let elapsed = unzigzag elapsed; mode = kind AND 0x03;
         span = (if mode = CAPTURE_SPAN_PREVIOUS then span_us
                 else if mode = CAPTURE_SPAN_ELAPSED then elapsed
                 else if mode = CAPTURE_SPAN_ABSOLUTE then v else elapsed + unzigzag v);
         us = time_ms * 1000 + time_us + elapsed
     in HostFrame (case flags of None \<Rightarrow> previous_flags | Some f \<Rightarrow> f) (us div 1000) (us smod 1000)
          (unzigzag x) (unzigzag y) span)"

text \<open>One record: what is pushed, the previous frame after it, the bytes left.\<close>

fun parse_record :: "u8 list \<Rightarrow> (u8 \<times> int \<times> int \<times> int) option \<Rightarrow>
    (host_record option \<times> (u8 \<times> int \<times> int \<times> int) option \<times> u8 list) option" where
  "parse_record [] previous = None"
| "parse_record (kind # bytes) previous =
     (if kind = CAPTURE_RECORD_FRAME then
        case parse_whole_frame bytes of None \<Rightarrow> None
        | Some (f, bytes) \<Rightarrow> Some (Some f, Some (host_flags f, host_time_ms f, host_time_us f, host_span_us f), bytes)
      else if kind AND 0xf8 = CAPTURE_DELTA_FRAME then
        case parse_delta_fields kind bytes of None \<Rightarrow> None
        | Some (elapsed, x, y, flags, v, bytes) \<Rightarrow>
            (case previous of None \<Rightarrow> Some (None, None, bytes)
             | Some p \<Rightarrow> let f = delta_frame kind elapsed x y flags v p
                 in Some (Some f, Some (host_flags f, host_time_ms f, host_time_us f, host_span_us f), bytes))
      else if kind = CAPTURE_RECORD_SOURCE then
        if length bytes < 5 then None
        else Some (Some (HostSource (bytes ! 0) (get_le16 (drop 1 bytes)) (get_le16 (drop 3 bytes))), previous, drop 5 bytes)
      else if kind = CAPTURE_RECORD_KEYPRESS \<or> kind = CAPTURE_RECORD_FLUSH then
        if length bytes < 4 then None
        else Some (Some (HostTimed kind (uint (get_le32 bytes))), previous, drop 4 bytes)
      else if kind = CAPTURE_RECORD_ENTERED then
        if length bytes < 4 then None else Some (Some (HostEntered (get_le32 bytes)), None, drop 4 bytes)
      else if kind = CAPTURE_RECORD_LEFT \<or> kind = CAPTURE_RECORD_SETTINGS_CHANGED then
        Some (Some (HostMark kind), previous, bytes)
      else None)"

fun parse_records :: "nat \<Rightarrow> u32 \<Rightarrow> u8 list \<Rightarrow> capture_decoder \<Rightarrow>
    ((u32 \<times> host_record) list \<times> u8 list \<times> capture_decoder) option" where
  "parse_records 0 sequence bytes d = Some ([], bytes, d)"
| "parse_records (Suc count) sequence bytes d =
     (case parse_record bytes (dec_previous d) of None \<Rightarrow> None
      | Some (parsed, previous, bytes) \<Rightarrow>
          let d = d\<lparr>dec_previous := previous, dec_skipped := dec_skipped d + (if parsed = None then 1 else 0)\<rparr> in
          case parse_records count (sequence + 1) bytes d of None \<Rightarrow> None
          | Some (records, bytes, d) \<Rightarrow>
              Some ((case parsed of None \<Rightarrow> [] | Some r \<Rightarrow> [(sequence, r)]) @ records, bytes, d))"

definition parseCaptureBatch :: "u8 list \<Rightarrow> capture_decoder \<Rightarrow> ((u32 \<times> host_record) list \<times> capture_decoder) option" where
  "parseCaptureBatch payload d =
     (if length payload < 5 then None
      else let first = get_le32 payload;
               d = (if first \<noteq> dec_next d then d\<lparr>dec_previous := None\<rparr> else d)
           in case parse_records (unat (payload ! 4)) first (drop 5 payload) d of
                Some (records, [], d) \<Rightarrow> Some (records, d\<lparr>dec_next := first + ucast (payload ! 4)\<rparr>)
              | _ \<Rightarrow> None)"

section \<open>Reading back one record\<close>

text \<open>The records firmware submits, and what the host is to make of each.\<close>

definition capture_record_ok :: "zpt_capture_record \<Rightarrow> bool" where
  "capture_record_ok r \<longleftrightarrow> 1 \<le> uint (cr_kind r) \<and> uint (cr_kind r) \<le> 7 \<and>
     uint (cr_time_us r) < 1000 \<and> in_i32 (cr_x r) \<and> in_i32 (cr_y r)"

definition host_view :: "zpt_capture_record \<Rightarrow> host_record" where
  "host_view r =
     (if cr_kind r = CAPTURE_RECORD_FRAME then
        HostFrame (cr_flags r) (uint (cr_time_ms r)) (uint (cr_time_us r)) (cr_x r) (cr_y r) (uint (cr_span_us r))
      else if cr_kind r = CAPTURE_RECORD_SOURCE then HostSource (cr_link r) (cr_source_id r) (cr_resolution_cpi r)
      else if cr_kind r = CAPTURE_RECORD_KEYPRESS \<or> cr_kind r = CAPTURE_RECORD_FLUSH then
        HostTimed (cr_kind r) (uint (cr_time_ms r))
      else if cr_kind r = CAPTURE_RECORD_ENTERED then HostEntered (cr_settings_hash r)
      else HostMark (cr_kind r))"

definition frame_base :: "zpt_capture_record \<Rightarrow> u8 \<times> int \<times> int \<times> int" where
  "frame_base r = (cr_flags r, uint (cr_time_ms r), uint (cr_time_us r), uint (cr_span_us r))"

lemma record_kinds:
  assumes "capture_record_ok r"
  obtains "cr_kind r = 1" | "cr_kind r = 2" | "cr_kind r = 3" | "cr_kind r = 4" | "cr_kind r = 5" | "cr_kind r = 6"
    | "cr_kind r = 7"
proof -
  obtain k where k: "uint (cr_kind r) = k" by blast
  then have "cr_kind r = word_of_int k" by (metis word_of_int_uint)
  moreover have "k \<in> {1, 2, 3, 4, 5, 6, 7}" using assms k by (auto simp: capture_record_ok_def)
  ultimately show thesis using that by auto
qed

lemma get_after_put [simp]:
  "get_le32 (drop 4 (put_le32 v @ bs)) = get_le32 bs" "get_le16 (drop 4 (put_le32 v @ bs)) = get_le16 bs"
  by simp_all

text \<open>A record that is not a frame, or a frame sent whole.\<close>

definition base_after :: "zpt_capture_record \<Rightarrow> (u8 \<times> int \<times> int \<times> int) option \<Rightarrow> (u8 \<times> int \<times> int \<times> int) option" where
  "base_after r previous = (if cr_kind r = CAPTURE_RECORD_FRAME then Some (frame_base r)
     else if cr_kind r = CAPTURE_RECORD_ENTERED then None else previous)"

lemma parse_encode_full:
  assumes "capture_record_ok r"
  shows "parse_record (encode_full r @ rest) previous = Some (Some (host_view r), base_after r previous, rest)"
  using assms
  by (rule record_kinds)
    (insert assms, auto simp: encode_full_def host_view_def base_after_def frame_base_def parse_whole_frame_def
      capture_record_ok_def drop_Cons' nth_append)


text \<open>A delta, for a host whose previous frame is the one firmware encoded it against.\<close>

lemma span_modes:
  obtains "span_mode b r elapsed = CAPTURE_SPAN_PREVIOUS" "cr_span_us r = cb_previous_span_us b"
  | "span_mode b r elapsed = CAPTURE_SPAN_ELAPSED" "0 \<le> elapsed" "uint (cr_span_us r) = u64 elapsed"
  | "span_mode b r elapsed = CAPTURE_SPAN_ELAPSED_PLUS" "in_i32 (uint (cr_span_us r) - elapsed)"
  | "span_mode b r elapsed = CAPTURE_SPAN_ABSOLUTE"
proof -
  have "(span_mode b r elapsed = CAPTURE_SPAN_PREVIOUS \<and> cr_span_us r = cb_previous_span_us b) \<or>
      (span_mode b r elapsed = CAPTURE_SPAN_ELAPSED \<and> 0 \<le> elapsed \<and> uint (cr_span_us r) = u64 elapsed) \<or>
      (span_mode b r elapsed = CAPTURE_SPAN_ELAPSED_PLUS \<and> in_i32 (uint (cr_span_us r) - elapsed)) \<or>
      span_mode b r elapsed = CAPTURE_SPAN_ABSOLUTE"
    by (simp add: span_mode_def in_i32_def)
  then show thesis using that by blast
qed

lemma frame_us_exact: "frame_us r = uint (cr_time_ms r) * 1000 + uint (cr_time_us r)"
  using uint_bounds(2) [of "cr_time_us r"] uint_bounds(4) [of "cr_time_ms r"]
  by (simp add: frame_us_def in_u64_def)

definition follows :: "zpt_capture_buffer \<Rightarrow> u8 \<times> int \<times> int \<times> int \<Rightarrow> bool" where
  "follows b = (\<lambda>(flags, time_ms, time_us, span). flags = cb_previous_flags b \<and>
     time_ms * 1000 + time_us = cb_previous_us b \<and> span = uint (cb_previous_span_us b) \<and>
     0 \<le> cb_previous_us b \<and> cb_previous_us b < 8796093022208)"

lemma parse_delta:
  assumes "capture_record_ok r" "cr_kind r = CAPTURE_RECORD_FRAME" "follows b p"
    and "elapsed = frame_us r - cb_previous_us b" "in_i32 elapsed"
  shows "parse_record (delta_bytes b r elapsed @ rest) (Some p) = Some (Some (host_view r), Some (frame_base r), rest)"
proof -
  obtain flags ms us span where p: "p = (flags, ms, us, span)" by (cases p) auto
  have prev: "flags = cb_previous_flags b" "span = uint (cb_previous_span_us b)"
    and now: "ms * 1000 + us + elapsed = uint (cr_time_ms r) * 1000 + uint (cr_time_us r)"
    using assms(3,4) by (auto simp: follows_def p frame_us_exact)
  have time: "(uint (cr_time_ms r) * 1000 + uint (cr_time_us r)) div 1000 = uint (cr_time_ms r)"
      "(uint (cr_time_ms r) * 1000 + uint (cr_time_us r)) smod 1000 = uint (cr_time_us r)"
    using assms(1) by (simp_all add: capture_record_ok_def smod_pos_cases)
  have view: "host_view r = HostFrame (cr_flags r) (uint (cr_time_ms r)) (uint (cr_time_us r)) (cr_x r) (cr_y r) (uint (cr_span_us r))"
    using assms(2) by (simp add: host_view_def)
  have xy: "in_i32 (cr_x r)" "in_i32 (cr_y r)" using assms(1) by (simp_all add: capture_record_ok_def)
  note parts = delta_bytes_def parse_delta_fields_def delta_frame_def view now time xy assms(5) prev p frame_base_def Let_def
  have u64: "0 \<le> elapsed \<Longrightarrow> u64 elapsed = elapsed" using assms(5) by (simp add: in_i32_def in_u64_def)
  show ?thesis
    by (rule span_modes [of b r elapsed]) (auto simp: parts u64)
qed


section \<open>What the buffer holds\<close>

text \<open>
  The bytes in the ring are entries: a stored record with its encoding, or a gap marker.
  \<open>entries_ok\<close> follows the base of the deltas through them: it is the previous frame of the
  host, if the host may rely on one.
\<close>

datatype capture_entry = Kept "u8 list" zpt_capture_record | Gap u32

fun entry_bytes :: "capture_entry \<Rightarrow> u8 list" where
  "entry_bytes (Kept bytes r) = bytes"
| "entry_bytes (Gap n) = GAP_MARKER # put_le32 n"

fun entry_base :: "capture_entry \<Rightarrow> (u8 \<times> int \<times> int \<times> int) option \<Rightarrow> (u8 \<times> int \<times> int \<times> int) option" where
  "entry_base (Kept bytes r) base = base_after r base"
| "entry_base (Gap n) base = None"

definition encoding_of :: "zpt_capture_record \<Rightarrow> (u8 \<times> int \<times> int \<times> int) option \<Rightarrow> u8 list \<Rightarrow> bool" where
  "encoding_of r base bytes \<longleftrightarrow> bytes = encode_full r \<or>
     (\<exists>b p. base = Some p \<and> follows b p \<and> cr_kind r = CAPTURE_RECORD_FRAME \<and>
        in_i32 (frame_us r - cb_previous_us b) \<and> bytes = delta_bytes b r (frame_us r - cb_previous_us b) \<and>
        length bytes < CAPTURE_RECORD_MAX_SIZE)"

text \<open>A gap is not empty, and the record that made it be written follows it.\<close>

fun entries_ok :: "(u8 \<times> int \<times> int \<times> int) option \<Rightarrow> capture_entry list \<Rightarrow> bool" where
  "entries_ok base [] = True"
| "entries_ok base (Kept bytes r # es) =
     (capture_record_ok r \<and> encoding_of r base bytes \<and> entries_ok (base_after r base) es)"
| "entries_ok base [Gap n] = False"
| "entries_ok base (Gap n # Gap m # es) = False"
| "entries_ok base (Gap n # Kept bytes r # es) = (n \<noteq> 0 \<and> entries_ok None (Kept bytes r # es))"

definition final_base :: "(u8 \<times> int \<times> int \<times> int) option \<Rightarrow> capture_entry list \<Rightarrow> (u8 \<times> int \<times> int \<times> int) option" where
  "final_base base es = fold entry_base es base"

lemma parse_encoding:
  assumes "capture_record_ok r" "encoding_of r base bytes" "base \<noteq> None \<longrightarrow> previous = base"
  obtains p where "parse_record (bytes @ rest) previous = Some (Some (host_view r), p, rest)"
    "p = base_after r previous"
  using assms(2) unfolding encoding_of_def
proof (elim disjE exE conjE)
  assume "bytes = encode_full r"
  then show thesis using that parse_encode_full [OF assms(1)] by simp
next
  fix b p
  assume delta: "base = Some p" "follows b p" "cr_kind r = CAPTURE_RECORD_FRAME"
    "in_i32 (frame_us r - cb_previous_us b)" "bytes = delta_bytes b r (frame_us r - cb_previous_us b)"
  then show thesis
    using that assms(1,3) parse_delta [of r b p "frame_us r - cb_previous_us b" rest] by (simp add: base_after_def)
qed

lemma first_byte_of_delta:
  "delta_bytes b r elapsed ! 0 AND CAPTURE_DELTA_FRAME \<noteq> 0" "delta_bytes b r elapsed ! 0 \<noteq> GAP_MARKER"
  by (rule span_modes [of b r elapsed]; simp add: delta_bytes_def Let_def)+

lemma stored_length_delta:
  assumes "length (delta_bytes b r elapsed) \<le> available"
  shows "stored_length (delta_bytes b r elapsed @ rest) available = length (delta_bytes b r elapsed)"
proof (rule span_modes [of b r elapsed])
qed (use assms in \<open>auto simp: delta_bytes_def stored_length_def Let_def numeral_3_eq_3\<close>)

lemma stored_length_full:
  "capture_record_ok r \<Longrightarrow> stored_length (encode_full r @ rest) available = length (encode_full r)"
  by (erule record_kinds) (simp_all add: encode_full_def stored_length_def)

lemma length_encode_full: "capture_record_ok r \<Longrightarrow> length (encode_full r) \<le> CAPTURE_RECORD_MAX_SIZE"
  by (erule record_kinds) (simp_all add: encode_full_def)

lemma first_byte_of_full: "capture_record_ok r \<Longrightarrow> encode_full r ! 0 \<noteq> GAP_MARKER"
  by (erule record_kinds) (simp_all add: encode_full_def)

lemma encoding_bytes:
  assumes "capture_record_ok r" "encoding_of r base bytes"
  shows "length bytes \<le> CAPTURE_RECORD_MAX_SIZE" "bytes \<noteq> []" "bytes ! 0 \<noteq> GAP_MARKER"
    "length bytes \<le> available \<Longrightarrow> stored_length (bytes @ rest) available = length bytes"
proof -
  consider "bytes = encode_full r" | b elapsed where "bytes = delta_bytes b r elapsed" "length bytes < CAPTURE_RECORD_MAX_SIZE"
    using assms(2) by (auto simp: encoding_of_def)
  note cases = this
  show "length bytes \<le> CAPTURE_RECORD_MAX_SIZE"
    by (rule cases) (use assms(1) length_encode_full in auto)
  show "bytes \<noteq> []"
    by (rule cases) (auto simp: encode_full_def delta_bytes_def Let_def)
  show "bytes ! 0 \<noteq> GAP_MARKER"
    by (rule cases) (use assms(1) first_byte_of_full first_byte_of_delta in auto)
  show "length bytes \<le> available \<Longrightarrow> stored_length (bytes @ rest) available = length bytes"
    by (rule cases) (use assms(1) stored_length_full stored_length_delta in auto)
qed

abbreviation entries_bytes :: "capture_entry list \<Rightarrow> u8 list" where
  "entries_bytes es \<equiv> concat (map entry_bytes es)"

fun kept :: "capture_entry list \<Rightarrow> zpt_capture_record list" where
  "kept [] = []"
| "kept (Kept bytes r # es) = r # kept es"
| "kept (Gap n # es) = kept es"

fun kept_bytes :: "capture_entry list \<Rightarrow> u8 list" where
  "kept_bytes [] = []"
| "kept_bytes (Kept bytes r # es) = bytes @ kept_bytes es"
| "kept_bytes (Gap n # es) = kept_bytes es"

text \<open>The records of the entries as the host is to number them, and the number after them.\<close>

fun numbered :: "u32 \<Rightarrow> capture_entry list \<Rightarrow> (u32 \<times> host_record) list" where
  "numbered sequence [] = []"
| "numbered sequence (Kept bytes r # es) = (sequence, host_view r) # numbered (sequence + 1) es"
| "numbered sequence (Gap n # es) = numbered (sequence + n) es"

fun sequence_after :: "u32 \<Rightarrow> capture_entry list \<Rightarrow> u32" where
  "sequence_after sequence [] = sequence"
| "sequence_after sequence (Kept bytes r # es) = sequence_after (sequence + 1) es"
| "sequence_after sequence (Gap n # es) = sequence_after (sequence + n) es"

lemma kept_append [simp]: "kept (es @ fs) = kept es @ kept fs"
  by (induction es rule: kept.induct) simp_all

lemma kept_bytes_append [simp]: "kept_bytes (es @ fs) = kept_bytes es @ kept_bytes fs"
  by (induction es rule: kept_bytes.induct) simp_all

lemma numbered_append [simp]:
  "numbered n (es @ fs) = numbered n es @ numbered (sequence_after n es) fs"
  "sequence_after n (es @ fs) = sequence_after (sequence_after n es) fs"
  by (induction n es rule: numbered.induct) simp_all

lemma length_numbered [simp]: "length (numbered n es) = length (kept es)"
  by (induction n es rule: numbered.induct) simp_all

lemma numbered_Nil_iff [simp]: "numbered n es = [] \<longleftrightarrow> kept es = []"
  by (metis length_numbered length_0_conv)

lemma final_base_simps [simp]:
  "final_base base [] = base" "final_base base (e # es) = final_base (entry_base e base) es"
  "final_base base (es @ fs) = final_base (final_base base es) fs"
  by (simp_all add: final_base_def)

lemma final_base_agrees:
  assumes "base \<noteq> None \<longrightarrow> previous = base"
  shows "final_base base es \<noteq> None \<longrightarrow> final_base previous es = final_base base es"
  using assms
proof (induction es arbitrary: base previous)
  case (Cons e es)
  then show ?case by (cases e) (auto simp: base_after_def)
qed simp

lemma entries_ok_suffix: "entries_ok base (es @ fs) \<Longrightarrow> entries_ok (final_base base es) fs"
proof (induction base es rule: entries_ok.induct)
  case (3 base n)
  then show ?case by (cases "(base, fs)" rule: entries_ok.cases) auto
qed auto

definition kept_only :: "capture_entry list \<Rightarrow> bool" where
  "kept_only es \<longleftrightarrow> (\<forall>e \<in> set es. \<exists>bytes r. e = Kept bytes r)"

fun lone_gap_first :: "capture_entry list \<Rightarrow> bool" where
  "lone_gap_first (Gap n # es) = kept_only es"
| "lone_gap_first es = kept_only es"

lemma kept_only_simps [simp]:
  "kept_only []" "kept_only (Kept bytes r # es) = kept_only es" "\<not> kept_only (Gap n # es)"
  by (auto simp: kept_only_def)

lemma kept_only_lone [simp]: "kept_only es \<Longrightarrow> lone_gap_first es"
  by (cases es rule: lone_gap_first.cases) simp_all

lemma entries_ok_prefix: "kept_only es \<Longrightarrow> entries_ok base (es @ fs) \<Longrightarrow> entries_ok base es"
  by (induction base es rule: entries_ok.induct) auto

lemma entries_ok_gap: "entries_ok base (Gap n # es) \<Longrightarrow> entries_ok None es \<and> n \<noteq> 0"
  by (cases es; cases "hd es") auto

lemma entries_ok_append:
  "entries_ok base es \<Longrightarrow> entries_ok (final_base base es) fs \<Longrightarrow> entries_ok base (es @ fs)"
  by (induction base es rule: entries_ok.induct) auto

lemma sequence_after_kept: "\<forall>e \<in> set es. \<exists>bytes r. e = Kept bytes r \<Longrightarrow> sequence_after n es = n + of_nat (length (kept es))"
  by (induction n es rule: sequence_after.induct) auto

section \<open>Batches\<close>

lemma record_at:
  assumes "ring_ok b" "content b = pre @ bytes @ later" "length bytes \<le> CAPTURE_RECORD_MAX_SIZE"
    and "available = min (unat (cb_used b) - length pre) CAPTURE_RECORD_MAX_SIZE"
  obtains rest where
    "ring_read b (length pre) available @ replicate (CAPTURE_RECORD_MAX_SIZE - available) 0 = bytes @ rest"
    "length bytes \<le> available"
proof -
  have used: "unat (cb_used b) = length pre + length bytes + length later"
    using assms(2) by (metis length_content length_append add.assoc)
  then have fits: "length bytes \<le> available" using assms(3,4) by simp
  have "ring_read b (length pre) available = take available (bytes @ later)"
    using assms used by (subst ring_read_content) simp_all
  also have "\<dots> = bytes @ take (available - length bytes) later" using fits by simp
  finally show thesis using that fits by simp
qed

lemma peek_loop_entries:
  assumes "ring_ok b" "content b = pre @ entries_bytes es" "entries_ok base es"
  shows "\<exists>taken left. es = taken @ left \<and>
    peek_loop b capacity (length pre) sequence count out =
      (length pre + length (entries_bytes taken), sequence_after sequence taken - of_nat (length (kept taken)),
       count + length (kept taken), out @ kept_bytes taken) \<and>
    (if count > 0 then kept_only taken else lone_gap_first taken) \<and>
    (count \<le> 255 \<longrightarrow> count + length (kept taken) \<le> 255) \<and>
    (count = 0 \<and> es \<noteq> [] \<and> length out + 25 \<le> capacity \<longrightarrow> kept taken \<noteq> [])"
  using assms(2,3)
proof (induction base es arbitrary: pre sequence count out rule: entries_ok.induct)
  case (1 base)
  then have "unat (cb_used b) = length pre" by (metis append_Nil2 concat.simps(1) length_content list.map(1))
  then show ?case by (auto simp: peek_loop.simps)
next
  case (2 base bytes r es)
  have ok: "capture_record_ok r" "encoding_of r base bytes" "entries_ok (base_after r base) es"
    using "2.prems"(2) by simp_all
  note enc = encoding_bytes [OF ok(1,2)]
  define available where "available = min (unat (cb_used b) - length pre) CAPTURE_RECORD_MAX_SIZE"
  obtain rest where rd: "ring_read b (length pre) available @ replicate (CAPTURE_RECORD_MAX_SIZE - available) 0 = bytes @ rest"
      "length bytes \<le> available"
    by (rule record_at [OF assms(1) _ enc(1) available_def, of "entries_bytes es"]) (use "2.prems"(1) in simp)
  have at: "(bytes @ rest) ! 0 \<noteq> GAP_MARKER" "stored_length (bytes @ rest) available = length bytes"
    using enc rd(2) by (simp_all add: nth_append)
  have inside: "length pre < unat (cb_used b)"
    using enc(2) "2.prems"(1) by (simp flip: length_content)
  have step: "peek_loop b capacity (length pre) sequence count out =
      (if count < 255 \<and> CAPTURE_BATCH_HEADER_SIZE + length out + length bytes \<le> capacity
       then peek_loop b capacity (length (pre @ bytes)) sequence (count + 1) (out @ bytes)
       else (length pre, sequence, count, out))"
    unfolding peek_loop.simps [of b capacity "length pre"]
    using inside at rd(1) by (simp add: Let_def flip: available_def)
  show ?case
  proof (cases "count < 255 \<and> CAPTURE_BATCH_HEADER_SIZE + length out + length bytes \<le> capacity")
    case True
    then obtain taken left where IH: "es = taken @ left"
      "peek_loop b capacity (length (pre @ bytes)) sequence (count + 1) (out @ bytes) =
        (length (pre @ bytes) + length (entries_bytes taken), sequence_after sequence taken - of_nat (length (kept taken)),
         count + 1 + length (kept taken), (out @ bytes) @ kept_bytes taken)"
      "kept_only taken" "count + 1 + length (kept taken) \<le> 255"
      using "2.IH" [of "pre @ bytes" sequence "count + 1" "out @ bytes"] "2.prems"(1) ok(3) by auto
    show ?thesis
      by (rule exI [of _ "Kept bytes r # taken"], rule exI [of _ left])
        (use True IH step sequence_after_kept [of taken] in \<open>simp add: kept_only_def\<close>)
  next
    case False
    then show ?thesis
      using step enc(1) by (intro exI [of _ "[]"] exI [of _ "Kept bytes r # es"]) auto
  qed
next
  case (5 base n bytes r es)
  let ?gap = "GAP_MARKER # put_le32 n"
  define available where "available = min (unat (cb_used b) - length pre) CAPTURE_RECORD_MAX_SIZE"
  obtain rest where rd: "ring_read b (length pre) available @ replicate (CAPTURE_RECORD_MAX_SIZE - available) 0 = ?gap @ rest"
      "length ?gap \<le> available"
    by (rule record_at [OF assms(1) _ _ available_def, of ?gap "entries_bytes (Kept bytes r # es)"]) (use "5.prems"(1) in simp_all)
  have inside: "length pre < unat (cb_used b)"
    using "5.prems"(1) by (simp flip: length_content)
  have stored: "stored_length (?gap @ rest) available = 5" "(?gap @ rest) ! 0 = GAP_MARKER"
    "get_le32 (drop 1 (?gap @ rest)) = n"
    by (simp_all add: stored_length_def)
  have step: "peek_loop b capacity (length pre) sequence count out =
      (if count = 0 then peek_loop b capacity (length (pre @ ?gap)) (sequence + n) 0 out
       else (length pre, sequence, count, out))"
    unfolding peek_loop.simps [of b capacity "length pre"]
    using inside stored rd(1) by (simp add: Let_def flip: available_def)
  show ?case
  proof (cases "count = 0")
    case True
    obtain taken left where IH: "Kept bytes r # es = taken @ left"
      "peek_loop b capacity (length (pre @ ?gap)) (sequence + n) 0 out =
        (length (pre @ ?gap) + length (entries_bytes taken), sequence_after (sequence + n) taken - of_nat (length (kept taken)),
         length (kept taken), out @ kept_bytes taken)"
      "lone_gap_first taken" "length (kept taken) \<le> 255" "length out + 25 \<le> capacity \<longrightarrow> kept taken \<noteq> []"
      using "5.IH" [of "pre @ ?gap" "sequence + n" 0 out] "5.prems" by auto
    have "kept_only taken"
      using IH(1,3) by (cases taken) auto
    then show ?thesis
      by (intro exI [of _ "Gap n # taken"] exI [of _ left]) (use True IH step in simp)
  next
    case False
    then show ?thesis
      using step by (intro exI [of _ "[]"] exI [of _ "Gap n # Kept bytes r # es"]) auto
  qed
qed auto

lemma parse_records_entries:
  assumes "kept_only es" "entries_ok base es" "base \<noteq> None \<longrightarrow> dec_previous d = base"
  shows "parse_records (length (kept es)) sequence (kept_bytes es @ rest) d =
    Some (numbered sequence es, rest, d\<lparr>dec_previous := final_base (dec_previous d) es\<rparr>)"
  using assms
proof (induction es arbitrary: base sequence d)
  case (Cons e es)
  then obtain bytes r where e: "e = Kept bytes r" by (cases e) simp_all
  have ok: "capture_record_ok r" "encoding_of r base bytes" "entries_ok (base_after r base) es" "kept_only es"
    using Cons.prems(1,2) by (simp_all add: e)
  obtain p where p: "parse_record (bytes @ kept_bytes es @ rest) (dec_previous d) = Some (Some (host_view r), p, kept_bytes es @ rest)"
    "p = base_after r (dec_previous d)"
    by (rule parse_encoding [OF ok(1,2) Cons.prems(3)])
  have "base_after r base \<noteq> None \<longrightarrow> p = base_after r base"
    using Cons.prems(3) p(2) by (auto simp: base_after_def)
  with Cons.IH [OF ok(4,3), of "d\<lparr>dec_previous := p\<rparr>" "sequence + 1"] p show ?case
    by (simp add: e)
qed simp

text \<open>What relates the buffer, the host and the entries on their way.\<close>

definition link_inv :: "zpt_capture_buffer \<Rightarrow> capture_decoder \<Rightarrow> capture_entry list \<Rightarrow> bool" where
  "link_inv b d es \<longleftrightarrow> ring_ok b \<and> content b = entries_bytes es \<and> cb_records b = of_nat (length (kept es)) \<and>
     sequence_after (cb_out_sequence b) es + cb_pending_gap b = cb_next_sequence b \<and>
     (cb_pending_gap b \<noteq> 0 \<longrightarrow> \<not> cb_have_previous b) \<and>
     (\<exists>base. entries_ok base es \<and> (base \<noteq> None \<longrightarrow> dec_previous d = base \<and> dec_next d = cb_out_sequence b) \<and>
       (cb_have_previous b \<longrightarrow> (\<exists>p. final_base base es = Some p \<and> follows b p)))"

text \<open>The bytes of the entries determine how many there are, so the counters cannot wrap.\<close>

lemma entries_fit:
  "entries_ok base es \<Longrightarrow> length (kept es) \<le> length (entries_bytes es)"
proof (induction base es rule: entries_ok.induct)
  case (2 base bytes r es)
  then have "bytes \<noteq> []" using encoding_bytes(2) [of r base bytes] by auto
  then have "1 \<le> length bytes" by (cases bytes) simp_all
  with 2 show ?case by simp
qed auto

text \<open>A peeked batch is read by the host as the records it covers.\<close>

lemma peek_and_parse:
  assumes inv: "link_inv b d es" and cap: "30 \<le> capacity"
    and peek: "zpt_capture_buffer_peek b capacity = (payload, t)"
  obtains taken left where "es = taken @ left"
    and "unat (take_bytes t) = length (entries_bytes taken)" "take_records t = of_nat (length (kept taken))"
    and "take_next_sequence t = sequence_after (cb_out_sequence b) taken"
    and "payload = [] \<longleftrightarrow> es = []"
    and "payload \<noteq> [] \<Longrightarrow> \<exists>final. parseCaptureBatch payload d = Some (numbered (cb_out_sequence b) taken,
          d\<lparr>dec_previous := final, dec_next := sequence_after (cb_out_sequence b) taken\<rparr>) \<and>
        (\<forall>base. (base \<noteq> None \<longrightarrow> dec_previous d = base \<and> dec_next d = cb_out_sequence b) \<longrightarrow>
          final_base base taken \<noteq> None \<longrightarrow> final = final_base base taken)"
proof -
  let ?out = "cb_out_sequence b"
  obtain base where base: "ring_ok b" "content b = entries_bytes es" "entries_ok base es"
      "base \<noteq> None \<longrightarrow> dec_previous d = base \<and> dec_next d = ?out"
    using inv by (auto simp: link_inv_def)
  obtain taken left where taken: "es = taken @ left"
      "peek_loop b capacity 0 ?out 0 [] = (length (entries_bytes taken),
         sequence_after ?out taken - of_nat (length (kept taken)), length (kept taken), kept_bytes taken)"
      "lone_gap_first taken" "length (kept taken) \<le> 255" "es \<noteq> [] \<longrightarrow> kept taken \<noteq> []"
    using peek_loop_entries [OF base(1) _ base(3), of "[]" capacity ?out 0 "[]"] base(2) cap by auto
  let ?n = "length (kept taken)" and ?first = "sequence_after ?out taken - of_nat (length (kept taken))"
  have fits: "length (entries_bytes taken) < 2147483648"
  proof -
    have "length (entries_bytes taken) \<le> length (content b)" by (simp add: base(2) taken(1) del: length_content)
    then show ?thesis using base(1) by (simp add: ring_ok_def)
  qed
  have t: "payload = (if ?n = 0 then [] else put_le32 ?first @ [of_nat ?n] @ kept_bytes taken)"
      "t = \<lparr>take_bytes = of_nat (length (entries_bytes taken)), take_records = of_nat ?n,
        take_next_sequence = ?first + of_nat ?n\<rparr>"
    using peek by (simp_all add: zpt_capture_buffer_peek_def taken(2))
  have empty: "payload = [] \<longleftrightarrow> es = []" using t(1) taken(1,5) by auto
  have "\<exists>final. parseCaptureBatch payload d = Some (numbered ?out taken,
          d\<lparr>dec_previous := final, dec_next := sequence_after ?out taken\<rparr>) \<and>
        (\<forall>base. (base \<noteq> None \<longrightarrow> dec_previous d = base \<and> dec_next d = ?out) \<longrightarrow>
          final_base base taken \<noteq> None \<longrightarrow> final = final_base base taken)" if "payload \<noteq> []"
  proof -
    have n: "0 < ?n" "unat (of_nat ?n :: u8) = ?n" using taken(4) that t(1) by (auto simp: unat_of_nat)
    let ?d = "if ?first \<noteq> dec_next d then d\<lparr>dec_previous := None\<rparr> else d"
    have head: "get_le32 payload = ?first" "payload ! 4 = of_nat ?n" "drop 5 payload = kept_bytes taken" "5 \<le> length payload"
      using n(1) by (simp_all add: t(1) nth_append)
    have succ: "?first + ucast (of_nat ?n :: u8) = sequence_after ?out taken"
    proof -
      have "ucast (of_nat ?n :: u8) = (of_nat (unat (of_nat ?n :: u8)) :: u32)" by (simp only: of_nat_unat)
      then show ?thesis by (simp only: n(2)) simp
    qed
    have "\<exists>final. parse_records ?n ?first (kept_bytes taken) ?d = Some (numbered ?out taken, [], ?d\<lparr>dec_previous := final\<rparr>) \<and>
        (\<forall>base. (base \<noteq> None \<longrightarrow> dec_previous d = base \<and> dec_next d = ?out) \<longrightarrow>
          final_base base taken \<noteq> None \<longrightarrow> final = final_base base taken)"
    proof -
      consider (gap) g ks where "taken = Gap g # ks" "kept_only ks" | (plain) "kept_only taken"
        using taken(3) by (cases taken rule: lone_gap_first.cases) auto
      then show ?thesis
      proof cases
        case gap
        then have ks: "kept_only ks" "entries_ok None ks"
          using taken(1,3) base(3) entries_ok_gap [of base g "ks @ left"] entries_ok_prefix [of ks None left] by auto
        have first: "?first = ?out + g" using gap(1) ks(1) sequence_after_kept [of ks] by (simp add: kept_only_def)
        have "parse_records ?n ?first (kept_bytes taken) ?d = Some (numbered ?out taken, [], ?d\<lparr>dec_previous := final_base (dec_previous ?d) ks\<rparr>)"
          using parse_records_entries [OF ks, of ?d ?first "[]"] unfolding first by (simp add: gap(1))
        moreover have "final_base None ks \<noteq> None \<longrightarrow> final_base (dec_previous ?d) ks = final_base None ks"
          by (rule final_base_agrees) simp
        ultimately show ?thesis by (auto simp: gap(1))
      next
        case plain
        note kept = plain
        have first: "?first = ?out" using kept sequence_after_kept [of taken ?out] by (simp add: kept_only_def)
        have ok: "entries_ok base taken" using base(3) taken(1) entries_ok_prefix kept by blast
        have "base \<noteq> None \<longrightarrow> dec_previous ?d = base" using base(4) first by auto
        note parsed = parse_records_entries [OF kept ok this, of ?first "[]"]
        have "final_base base' taken \<noteq> None \<longrightarrow> final_base (dec_previous ?d) taken = final_base base' taken"
          if "base' \<noteq> None \<longrightarrow> dec_previous d = base' \<and> dec_next d = ?out" for base'
          by (rule final_base_agrees) (use that first in auto)
        then show ?thesis using parsed first by (intro exI [of _ "final_base (dec_previous ?d) taken"]) simp
      qed
    qed
    then obtain final where final: "parse_records ?n ?first (kept_bytes taken) ?d = Some (numbered ?out taken, [], ?d\<lparr>dec_previous := final\<rparr>)"
      "\<forall>base. (base \<noteq> None \<longrightarrow> dec_previous d = base \<and> dec_next d = ?out) \<longrightarrow>
          final_base base taken \<noteq> None \<longrightarrow> final = final_base base taken" by blast
    show ?thesis
      unfolding parseCaptureBatch_def using head n(2) final succ
      by (intro exI [of _ final]) (auto simp: Let_def)
  qed
  then show thesis
    using that [of taken left] taken(1) t empty fits by (simp add: unat_of_nat)
qed

section \<open>Recording and sending keep the relation\<close>

lemma encode_delta_follows:
  assumes "encode_delta b r \<noteq> []" "cr_kind r = CAPTURE_RECORD_FRAME"
    and "cb_have_previous b \<longrightarrow> (\<exists>p. base = Some p \<and> follows b p)"
  shows "encoding_of r base (encode_delta b r)"
proof -
  let ?elapsed = "frame_us r - cb_previous_us b"
  have delta: "cb_have_previous b" "in_i32 (i64 ?elapsed)" "encode_delta b r = delta_bytes b r (i64 ?elapsed)"
    "length (encode_delta b r) < CAPTURE_RECORD_MAX_SIZE"
    using assms(1) by (auto simp: encode_delta_def Let_def in_i32_def split: if_splits)
  then obtain p where p: "base = Some p" "follows b p" using assms(3) by blast
  then have "0 \<le> cb_previous_us b" "cb_previous_us b < 8796093022208" by (auto simp: follows_def)
  moreover have "0 \<le> frame_us r" "frame_us r \<le> 4294967295000 + 65535"
    using uint_bounds(2) [of "cr_time_us r"] uint_bounds(4) [of "cr_time_ms r"] by (simp_all add: frame_us_exact)
  ultimately have "i64 ?elapsed = ?elapsed" by (intro i64_id) (simp add: in_i64_def)
  then show ?thesis
    unfolding encoding_of_def using assms(2) delta p by auto
qed

lemma follows_frame:
  assumes "cb_previous_us b = frame_us r" "cb_previous_span_us b = cr_span_us r" "cb_previous_flags b = cr_flags r"
  shows "follows b (frame_base r)"
  using assms uint_bounds(1,2) [of "cr_time_us r"] uint_bounds(3,4) [of "cr_time_ms r"]
  by (simp add: follows_def frame_base_def frame_us_exact)

text \<open>The ring looks at nothing but its bytes, its capacity, head and fill.\<close>

lemma ring_fields [simp]:
  "ring_ok (b\<lparr>cb_records := w\<rparr>) = ring_ok b" "content (b\<lparr>cb_records := w\<rparr>) = content b"
  "ring_ok (b\<lparr>cb_next_sequence := w\<rparr>) = ring_ok b" "content (b\<lparr>cb_next_sequence := w\<rparr>) = content b"
  "ring_ok (b\<lparr>cb_pending_gap := w\<rparr>) = ring_ok b" "content (b\<lparr>cb_pending_gap := w\<rparr>) = content b"
  "ring_ok (b\<lparr>cb_have_previous := h\<rparr>) = ring_ok b" "content (b\<lparr>cb_have_previous := h\<rparr>) = content b"
  "ring_ok (b\<lparr>cb_previous_us := u\<rparr>) = ring_ok b" "content (b\<lparr>cb_previous_us := u\<rparr>) = content b"
  "ring_ok (b\<lparr>cb_previous_span_us := w\<rparr>) = ring_ok b" "content (b\<lparr>cb_previous_span_us := w\<rparr>) = content b"
  "ring_ok (b\<lparr>cb_previous_flags := f\<rparr>) = ring_ok b" "content (b\<lparr>cb_previous_flags := f\<rparr>) = content b"
  by (simp_all add: ring_ok_def content_def)

lemma ring_write_fields [simp]:
  "cb_capacity (ring_write b bytes) = cb_capacity b" "cb_records (ring_write b bytes) = cb_records b"
  "cb_next_sequence (ring_write b bytes) = cb_next_sequence b" "cb_out_sequence (ring_write b bytes) = cb_out_sequence b"
  "cb_pending_gap (ring_write b bytes) = cb_pending_gap b" "cb_have_previous (ring_write b bytes) = cb_have_previous b"
  "cb_previous_us (ring_write b bytes) = cb_previous_us b" "cb_previous_span_us (ring_write b bytes) = cb_previous_span_us b"
  "cb_previous_flags (ring_write b bytes) = cb_previous_flags b"
  by (simp_all add: ring_write_def)

text \<open>What a put writes, and what it does to the ring.\<close>

definition put_before :: "zpt_capture_buffer \<Rightarrow> zpt_capture_record \<Rightarrow> zpt_capture_buffer" where
  "put_before b r = (let b = b\<lparr>cb_next_sequence := cb_next_sequence b + 1\<rparr> in
     if cr_kind r = CAPTURE_RECORD_ENTERED then b\<lparr>cb_have_previous := False\<rparr> else b)"

definition put_encoding :: "zpt_capture_buffer \<Rightarrow> zpt_capture_record \<Rightarrow> u8 list" where
  "put_encoding b r = (if cr_kind r = CAPTURE_RECORD_FRAME \<and> encode_delta (put_before b r) r \<noteq> []
     then encode_delta (put_before b r) r else encode_full r)"

definition put_marker :: "zpt_capture_buffer \<Rightarrow> u8 list" where
  "put_marker b = (if cb_pending_gap b \<noteq> 0 then GAP_MARKER # put_le32 (cb_pending_gap b) else [])"

lemma put_before_fields [simp]:
  "ring_ok (put_before b r) = ring_ok b" "content (put_before b r) = content b"
  "cb_capacity (put_before b r) = cb_capacity b" "cb_used (put_before b r) = cb_used b" "cb_head (put_before b r) = cb_head b"
  "cb_records (put_before b r) = cb_records b" "cb_next_sequence (put_before b r) = cb_next_sequence b + 1"
  "cb_out_sequence (put_before b r) = cb_out_sequence b" "cb_pending_gap (put_before b r) = cb_pending_gap b"
  "cb_previous_us (put_before b r) = cb_previous_us b" "cb_previous_span_us (put_before b r) = cb_previous_span_us b"
  "cb_previous_flags (put_before b r) = cb_previous_flags b"
  "cb_have_previous (put_before b r) = (cb_have_previous b \<and> cr_kind r \<noteq> CAPTURE_RECORD_ENTERED)"
  by (simp_all add: put_before_def Let_def)

lemma put_refused:
  "zpt_capture_buffer_put b r = (False, b') \<Longrightarrow>
    b' = (put_before b r)\<lparr>cb_pending_gap := cb_pending_gap b + 1, cb_have_previous := False\<rparr>"
  by (auto simp: zpt_capture_buffer_put_def Let_def put_before_def split: if_splits)

lemma put_stored:
  assumes put: "zpt_capture_buffer_put b r = (True, b')" and ok: "ring_ok b" and len: "length (put_encoding b r) \<le> CAPTURE_RECORD_MAX_SIZE"
  shows "content b' = content b @ put_marker b @ put_encoding b r" "ring_ok b'"
    "cb_records b' = cb_records b + 1" "cb_next_sequence b' = cb_next_sequence b + 1" "cb_out_sequence b' = cb_out_sequence b"
    "cb_pending_gap b' = 0"
    "if cr_kind r = CAPTURE_RECORD_FRAME then cb_have_previous b' \<and> follows b' (frame_base r)
     else cb_have_previous b' = (cb_have_previous b \<and> cr_kind r \<noteq> CAPTURE_RECORD_ENTERED) \<and> follows b' = follows b"
proof -
  let ?b = "put_before b r" and ?gap = "cb_pending_gap b" and ?e = "put_encoding b r"
  define marked where "marked = (if ?gap \<noteq> 0 then (ring_write ?b (put_marker b))\<lparr>cb_pending_gap := 0\<rparr> else ?b)"
  define written where "written = (ring_write marked ?e)\<lparr>cb_records := cb_records b + 1\<rparr>"
  have unfolded: "\<not> cb_capacity b - cb_used b < of_nat (length ?e) + (if ?gap > 0 then of_nat GAP_MARKER_SIZE else 0) \<and>
    b' = (if cr_kind r = CAPTURE_RECORD_FRAME then written\<lparr>cb_previous_us := frame_us r, cb_previous_span_us := cr_span_us r,
            cb_previous_flags := cr_flags r, cb_have_previous := True\<rparr> else written)"
    using put
    by (auto simp: zpt_capture_buffer_put_def Let_def put_before_def put_encoding_def put_marker_def written_def marked_def
        word_gt_0 split: if_splits)
  have gap0: "?gap > 0 \<longleftrightarrow> ?gap \<noteq> 0" by (simp add: word_gt_0)
  have "unat (of_nat (length ?e) + (if ?gap > 0 then of_nat GAP_MARKER_SIZE else 0) :: u32) = length ?e + length (put_marker b)"
    using len by (simp add: put_marker_def gap0 unat_plus unat_of_nat)
  moreover have "unat (cb_capacity b - cb_used b) = unat (cb_capacity b) - unat (cb_used b)"
    using ok by (intro unat_minus) (simp add: ring_ok_def)
  ultimately have room: "length (put_marker b) + length ?e \<le> unat (cb_capacity b) - unat (cb_used b)"
    using unfolded by (simp add: word_less_nat_alt)
  have marked: "content marked = content b @ put_marker b" "ring_ok marked" "cb_capacity marked = cb_capacity b"
    "unat (cb_used marked) = unat (cb_used b) + length (put_marker b)"
    using ok room content_ring_write [of ?b "put_marker b"] by (auto simp: marked_def put_marker_def)
  have written: "content written = content b @ put_marker b @ ?e" "ring_ok written"
    using marked room content_ring_write [of marked ?e] by (auto simp: written_def)
  then show "content b' = content b @ put_marker b @ ?e" "ring_ok b'" using unfolded by auto
  show "cb_records b' = cb_records b + 1" "cb_next_sequence b' = cb_next_sequence b + 1"
    "cb_out_sequence b' = cb_out_sequence b" "cb_pending_gap b' = 0"
    using unfolded by (auto simp: written_def marked_def)
  show "if cr_kind r = CAPTURE_RECORD_FRAME then cb_have_previous b' \<and> follows b' (frame_base r)
     else cb_have_previous b' = (cb_have_previous b \<and> cr_kind r \<noteq> CAPTURE_RECORD_ENTERED) \<and> follows b' = follows b"
  proof (cases "cr_kind r = CAPTURE_RECORD_FRAME")
    case True
    then have "follows b' (frame_base r)" using unfolded by (intro follows_frame) simp_all
    then show ?thesis using True unfolded by simp
  next
    case False
    then show ?thesis using unfolded by (simp add: written_def marked_def follows_def fun_eq_iff)
  qed
qed

text \<open>A stored record is appended, behind a marker if records before it were dropped.\<close>

lemma put_keeps_link:
  assumes inv: "link_inv b d es" and r: "capture_record_ok r"
    and put: "zpt_capture_buffer_put b r = (stored, b')"
  obtains ks where "link_inv b' d (es @ ks)" "cb_out_sequence b' = cb_out_sequence b"
    and "numbered (sequence_after (cb_out_sequence b) es) ks = (if stored then [(cb_next_sequence b, host_view r)] else [])"
proof -
  let ?gap = "cb_pending_gap b" and ?b = "put_before b r"
  obtain base where base: "ring_ok b" "content b = entries_bytes es" "cb_records b = of_nat (length (kept es))"
      "sequence_after (cb_out_sequence b) es + ?gap = cb_next_sequence b" "?gap \<noteq> 0 \<longrightarrow> \<not> cb_have_previous b"
      "entries_ok base es" "base \<noteq> None \<longrightarrow> dec_previous d = base \<and> dec_next d = cb_out_sequence b"
      "cb_have_previous b \<longrightarrow> (\<exists>p. final_base base es = Some p \<and> follows b p)"
    using inv unfolding link_inv_def by blast
  show thesis
  proof (cases stored)
    case False
    then have b': "b' = ?b\<lparr>cb_pending_gap := ?gap + 1, cb_have_previous := False\<rparr>"
      using put put_refused by simp
    have "link_inv b' d es"
      unfolding link_inv_def b' using base by auto
    then show thesis using that [of "[]"] False by (simp add: b')
  next
    case True
    let ?ks = "(if ?gap \<noteq> 0 then [Gap ?gap] else []) @ [Kept (put_encoding b r) r]"
    have follows: "follows ?b = follows b" by (simp add: follows_def fun_eq_iff)
    have enc: "encoding_of r (if ?gap \<noteq> 0 then None else final_base base es) (put_encoding b r)"
    proof (cases "cr_kind r = CAPTURE_RECORD_FRAME \<and> encode_delta ?b r \<noteq> []")
      case True
      then have "cb_have_previous b" by (auto simp: encode_delta_def Let_def split: if_splits)
      with True base(5,8) follows show ?thesis
        by (auto simp: put_encoding_def intro!: encode_delta_follows)
    qed (auto simp: put_encoding_def encoding_of_def)
    note stored = put_stored [OF put [unfolded True [THEN iffD2 [OF eq_True]]] base(1) encoding_bytes(1) [OF r enc]]
    have ok: "entries_ok base (es @ ?ks)"
      using base(6) by (rule entries_ok_append) (use r enc in \<open>auto split: if_splits\<close>)
    have "link_inv b' d (es @ ?ks)"
      unfolding link_inv_def
    proof (intro conjI exI [of _ base])
      show "cb_have_previous b' \<longrightarrow> (\<exists>p. final_base base (es @ ?ks) = Some p \<and> follows b' p)"
      proof (cases "cr_kind r = CAPTURE_RECORD_FRAME")
        case True
        then show ?thesis using stored(7) by (intro impI exI [of _ "frame_base r"]) (simp add: base_after_def)
      next
        case False
        then show ?thesis using stored(7) base(5,8) by (simp add: base_after_def)
      qed
      show "sequence_after (cb_out_sequence b') (es @ ?ks) + cb_pending_gap b' = cb_next_sequence b'"
        using stored(4-6) base(4) by (auto simp: algebra_simps)
    qed (use ok stored base in \<open>auto simp: put_marker_def\<close>)
    moreover have "numbered (sequence_after (cb_out_sequence b) es) ?ks = [(cb_next_sequence b, host_view r)]"
      using base(4) by (auto simp flip: base(4))
    ultimately show thesis using that [of ?ks] stored(5) True by simp
  qed
qed

text \<open>Consuming what a batch covers, also when records were put since it was peeked.\<close>

lemma consume_keeps_link:
  assumes inv: "link_inv b d (taken @ left)"
    and t: "unat (take_bytes t) = length (entries_bytes taken)" "take_records t = of_nat (length (kept taken))"
      "take_next_sequence t = sequence_after (cb_out_sequence b) taken"
    and d': "d' = d\<lparr>dec_previous := final, dec_next := sequence_after (cb_out_sequence b) taken\<rparr>"
    and final: "\<forall>base. (base \<noteq> None \<longrightarrow> dec_previous d = base \<and> dec_next d = cb_out_sequence b) \<longrightarrow>
      final_base base taken \<noteq> None \<longrightarrow> final = final_base base taken"
  shows "link_inv (zpt_capture_buffer_consume b t) d' left"
proof -
  obtain base where base: "ring_ok b" "content b = entries_bytes (taken @ left)"
      "cb_records b = of_nat (length (kept (taken @ left)))"
      "sequence_after (cb_out_sequence b) (taken @ left) + cb_pending_gap b = cb_next_sequence b"
      "cb_pending_gap b \<noteq> 0 \<longrightarrow> \<not> cb_have_previous b" "entries_ok base (taken @ left)"
      "base \<noteq> None \<longrightarrow> dec_previous d = base \<and> dec_next d = cb_out_sequence b"
      "cb_have_previous b \<longrightarrow> (\<exists>p. final_base base (taken @ left) = Some p \<and> follows b p)"
    using inv unfolding link_inv_def by blast
  have bytes: "unat (take_bytes t) \<le> unat (cb_used b)"
    using t(1) base(2) by (simp flip: length_content)
  have fields: "cb_records (zpt_capture_buffer_consume b t) = cb_records b - take_records t"
    "cb_out_sequence (zpt_capture_buffer_consume b t) = take_next_sequence t"
    "cb_pending_gap (zpt_capture_buffer_consume b t) = cb_pending_gap b"
    "cb_next_sequence (zpt_capture_buffer_consume b t) = cb_next_sequence b"
    "cb_have_previous (zpt_capture_buffer_consume b t) = cb_have_previous b"
    "follows (zpt_capture_buffer_consume b t) = follows b"
    by (simp_all add: zpt_capture_buffer_consume_def follows_def fun_eq_iff)
  show ?thesis
    unfolding link_inv_def fields
  proof (intro conjI exI [of _ "final_base base taken"])
    show "ring_ok (zpt_capture_buffer_consume b t)"
      using base(1) bytes by (rule content_consume)
    show "content (zpt_capture_buffer_consume b t) = entries_bytes left"
      using content_consume(1) [OF base(1) bytes] base(2) t(1) by simp
    show "entries_ok (final_base base taken) left" using base(6) by (rule entries_ok_suffix)
    show "final_base base taken \<noteq> None \<longrightarrow> dec_previous d' = final_base base taken \<and> dec_next d' = take_next_sequence t"
      using final base(7) t(3) d' by simp
  qed (use base t in simp_all)
qed

section \<open>The capture link\<close>

text \<open>
  A step records a frame or another event, delivers a batch while records arrive between
  building it and consuming it (as \<open>zpt_capture_drain\<close> allows), or gives up on a failed link.
  The log is what the property is about: the records the buffer accepted, with the number
  each was given, less those given up.
\<close>

datatype capture_event = Recorded zpt_capture_record | Delivered "zpt_capture_record list" | GivenUp

record capture_link =
  cl_buffer :: zpt_capture_buffer
  cl_host :: capture_decoder
  cl_log :: "(u32 \<times> host_record) list"
  cl_received :: "(u32 \<times> host_record) list"

definition record_one :: "zpt_capture_record \<Rightarrow> capture_link \<Rightarrow> capture_link" where
  "record_one r link =
     (let (stored, b) = zpt_capture_buffer_put (cl_buffer link) r
      in link\<lparr>cl_buffer := b,
           cl_log := cl_log link @ (if stored then [(cb_next_sequence (cl_buffer link), host_view r)] else [])\<rparr>)"

fun capture_step :: "capture_event \<Rightarrow> capture_link \<Rightarrow> capture_link option" where
  "capture_step (Recorded r) link = Some (record_one r link)"
| "capture_step (Delivered rs) link =
     (let (payload, t) = zpt_capture_buffer_peek (cl_buffer link) CAPTURE_BATCH_MAX_PAYLOAD in
      if payload = [] then Some link
      else let link = fold record_one rs link in
        case parseCaptureBatch payload (cl_host link) of None \<Rightarrow> None
        | Some (records, d) \<Rightarrow> Some (link\<lparr>cl_buffer := zpt_capture_buffer_consume (cl_buffer link) t,
            cl_host := d, cl_received := cl_received link @ records\<rparr>))"
| "capture_step GivenUp link =
     Some (link\<lparr>cl_buffer := snd (zpt_capture_buffer_discard (cl_buffer link)), cl_log := cl_received link\<rparr>)"

fun capture_run :: "capture_event list \<Rightarrow> capture_link \<Rightarrow> capture_link option" where
  "capture_run [] link = Some link"
| "capture_run (s # steps) link = (case capture_step s link of None \<Rightarrow> None | Some link \<Rightarrow> capture_run steps link)"

fun step_records_ok :: "capture_event \<Rightarrow> bool" where
  "step_records_ok (Recorded r) = capture_record_ok r"
| "step_records_ok (Delivered rs) = (\<forall>r \<in> set rs. capture_record_ok r)"
| "step_records_ok GivenUp = True"

definition new_link :: "u8 list \<Rightarrow> u32 \<Rightarrow> capture_link" where
  "new_link storage capacity = \<lparr>cl_buffer = zpt_capture_buffer_init storage capacity, cl_host = captureDecoder,
     cl_log = [], cl_received = []\<rparr>"

definition link_ok :: "capture_link \<Rightarrow> capture_entry list \<Rightarrow> bool" where
  "link_ok link es \<longleftrightarrow> link_inv (cl_buffer link) (cl_host link) es \<and> dec_skipped (cl_host link) = 0 \<and>
     cl_log link = cl_received link @ numbered (cb_out_sequence (cl_buffer link)) es"

lemma record_one_ok:
  assumes "link_ok link es" "capture_record_ok r"
  obtains ks where "link_ok (record_one r link) (es @ ks)" "cl_host (record_one r link) = cl_host link"
    "cb_out_sequence (cl_buffer (record_one r link)) = cb_out_sequence (cl_buffer link)"
proof -
  obtain stored b where put: "zpt_capture_buffer_put (cl_buffer link) r = (stored, b)" by fastforce
  obtain ks where ks: "link_inv b (cl_host link) (es @ ks)" "cb_out_sequence b = cb_out_sequence (cl_buffer link)"
    "numbered (sequence_after (cb_out_sequence (cl_buffer link)) es) ks =
      (if stored then [(cb_next_sequence (cl_buffer link), host_view r)] else [])"
    using assms put_keeps_link [OF _ assms(2) put] by (metis link_ok_def)
  show thesis
    by (rule that [of ks]) (use assms(1) ks put in \<open>auto simp: link_ok_def record_one_def\<close>)
qed

lemma records_ok:
  assumes "link_ok link es" "\<forall>r \<in> set rs. capture_record_ok r"
  shows "\<exists>ks. link_ok (fold record_one rs link) (es @ ks) \<and> cl_host (fold record_one rs link) = cl_host link \<and>
    cb_out_sequence (cl_buffer (fold record_one rs link)) = cb_out_sequence (cl_buffer link)"
  using assms
proof (induction rs arbitrary: link es)
  case Nil
  then show ?case by (intro exI [of _ "[]"]) simp
next
  case (Cons r rs)
  obtain ks where "link_ok (record_one r link) (es @ ks)" "cl_host (record_one r link) = cl_host link"
    "cb_out_sequence (cl_buffer (record_one r link)) = cb_out_sequence (cl_buffer link)"
    using record_one_ok Cons.prems by (metis list.set_intros(1))
  with Cons.IH [of "record_one r link" "es @ ks"] Cons.prems(2) show ?case by (metis append.assoc fold_Cons o_apply list.set_intros(2))
qed

lemma capture_step_ok:
  assumes "link_ok link es" "step_records_ok s"
  shows "\<exists>link' es'. capture_step s link = Some link' \<and> link_ok link' es'"
proof (cases s)
  case (Recorded r)
  then show ?thesis using record_one_ok assms by (metis capture_step.simps(1) step_records_ok.simps(1))
next
  case (Delivered rs)
  obtain payload t where peek: "zpt_capture_buffer_peek (cl_buffer link) CAPTURE_BATCH_MAX_PAYLOAD = (payload, t)" by fastforce
  show ?thesis
  proof (cases "payload = []")
    case True
    then show ?thesis using Delivered peek assms(1) by auto
  next
    case False
    have "link_inv (cl_buffer link) (cl_host link) es" using assms(1) by (simp add: link_ok_def)
    then obtain taken left final where batch: "es = taken @ left"
      "unat (take_bytes t) = length (entries_bytes taken)" "take_records t = of_nat (length (kept taken))"
      "take_next_sequence t = sequence_after (cb_out_sequence (cl_buffer link)) taken"
      "parseCaptureBatch payload (cl_host link) = Some (numbered (cb_out_sequence (cl_buffer link)) taken,
        (cl_host link)\<lparr>dec_previous := final, dec_next := sequence_after (cb_out_sequence (cl_buffer link)) taken\<rparr>)"
      "\<forall>base. (base \<noteq> None \<longrightarrow> dec_previous (cl_host link) = base \<and> dec_next (cl_host link) = cb_out_sequence (cl_buffer link)) \<longrightarrow>
        final_base base taken \<noteq> None \<longrightarrow> final = final_base base taken"
    proof (rule peek_and_parse [OF _ _ peek], goal_cases)
      case (2 taken left)
      from 2(7) [OF False] obtain final where "parseCaptureBatch payload (cl_host link) =
          Some (numbered (cb_out_sequence (cl_buffer link)) taken, (cl_host link)\<lparr>dec_previous := final,
            dec_next := sequence_after (cb_out_sequence (cl_buffer link)) taken\<rparr>)"
        "\<forall>base. (base \<noteq> None \<longrightarrow> dec_previous (cl_host link) = base \<and> dec_next (cl_host link) = cb_out_sequence (cl_buffer link)) \<longrightarrow>
          final_base base taken \<noteq> None \<longrightarrow> final = final_base base taken" by blast
      then show thesis by (rule 2(1) [OF 2(2-5)])
    qed simp_all
    let ?link = "fold record_one rs link"
    obtain ks where ks: "link_ok ?link (es @ ks)" "cl_host ?link = cl_host link"
      "cb_out_sequence (cl_buffer ?link) = cb_out_sequence (cl_buffer link)"
      using records_ok [OF assms(1)] assms(2) Delivered by auto
    have "link_inv (cl_buffer ?link) (cl_host link) (taken @ left @ ks)" using ks batch(1) by (simp add: link_ok_def)
    note after = consume_keeps_link [OF this batch(2,3) _ _, unfolded ks(3), OF batch(4) refl batch(6)]
    show ?thesis
      by (rule exI, rule exI [of _ "left @ ks"])
        (use Delivered peek False batch ks after in \<open>auto simp: link_ok_def Let_def zpt_capture_buffer_consume_def\<close>)
  qed
next
  case GivenUp
  have "link_inv (snd (zpt_capture_buffer_discard (cl_buffer link))) (cl_host link) []"
    using assms(1)
    by (auto simp: link_ok_def link_inv_def zpt_capture_buffer_discard_def ring_ok_def content_def)
  then show ?thesis
    using GivenUp assms(1)
    by (intro exI [of _ "link\<lparr>cl_buffer := snd (zpt_capture_buffer_discard (cl_buffer link)), cl_log := cl_received link\<rparr>"]
        exI [of _ "[]"]) (simp add: link_ok_def)
qed

text \<open>
Property C7. Over any sequence of recording well-formed records, delivering batches (with records
arriving while a batch is on its way) and giving up on a failed link, the host parses every batch,
and what it has received is, record by record and number by number, the log of the accepted
records without those still waiting: nothing is altered, reordered, duplicated or lost but for
the records the buffer refused or discarded, whose numbers are missing. The buffer's own
count of waiting records is exact, and an empty buffer means that everything has arrived.
\<close>

theorem capture_delivers_what_was_stored:
  assumes "\<forall>s \<in> set steps. step_records_ok s"
    and "length storage = unat capacity" "0 < capacity" "unat capacity < 2147483648"
  shows "\<exists>link waiting. capture_run steps (new_link storage capacity) = Some link \<and>
    cl_log link = cl_received link @ waiting \<and> length waiting = unat (cb_records (cl_buffer link)) \<and>
    (cb_used (cl_buffer link) = 0 \<longrightarrow> waiting = []) \<and> dec_skipped (cl_host link) = 0"
proof -
  have run: "\<exists>link' es'. capture_run steps link = Some link' \<and> link_ok link' es'" if "link_ok link es" for link es
    using that assms(1)
  proof (induction steps arbitrary: link es)
    case (Cons s steps)
    then obtain link1 es1 where "capture_step s link = Some link1" "link_ok link1 es1"
      using capture_step_ok [of link es s] by auto
    with Cons show ?case by auto
  qed auto
  have "link_ok (new_link storage capacity) []"
    using assms(2-4)
    by (auto simp: link_ok_def link_inv_def new_link_def zpt_capture_buffer_init_def captureDecoder_def ring_ok_def
        content_def word_gt_0 unat_gt_0)
  then obtain link es where link: "capture_run steps (new_link storage capacity) = Some link" "link_ok link es"
    using run by blast
  then obtain base where inv: "entries_ok base es" "content (cl_buffer link) = entries_bytes es" "ring_ok (cl_buffer link)"
      "cb_records (cl_buffer link) = of_nat (length (kept es))"
    unfolding link_ok_def link_inv_def by blast
  have "length (kept es) \<le> unat (cb_used (cl_buffer link))"
    using entries_fit [OF inv(1)] by (simp flip: inv(2))
  moreover have "unat (cb_used (cl_buffer link)) < 2147483648" using inv(3) by (simp add: ring_ok_def)
  ultimately show ?thesis
    using link inv(4) by (intro exI [of _ link] exI [of _ "numbered (cb_out_sequence (cl_buffer link)) es"])
      (auto simp: link_ok_def unat_of_nat)
qed

text \<open>A small buffer: the third frame is dropped, the fourth goes whole behind a marker.\<close>

definition demo_frame :: "u32 \<Rightarrow> int \<Rightarrow> zpt_capture_record" where
  "demo_frame ms x = capture_record\<lparr>cr_kind := CAPTURE_RECORD_FRAME, cr_time_ms := ms, cr_time_us := 250, cr_x := x, cr_y := - 2,
     cr_flags := 1, cr_span_us := 1000\<rparr>"

definition demo_steps :: "capture_event list" where
  "demo_steps = [Recorded (capture_record\<lparr>cr_kind := CAPTURE_RECORD_ENTERED, cr_settings_hash := 77\<rparr>),
     Recorded (demo_frame 100 5), Recorded (demo_frame 101 (- 7)), Recorded (demo_frame 4000000 200000), Delivered [],
     Recorded (demo_frame 102 1), Delivered []]"

definition demo_link :: capture_link where
  "demo_link = the (capture_run demo_steps (new_link (replicate 33 0) 33))"

theorem capture_delivers_what_was_stored_witness:
  "list_all step_records_ok demo_steps \<and>
   (\<exists>link waiting. capture_run demo_steps (new_link (replicate 33 0) 33) = Some link \<and>
    cl_log link = cl_received link @ waiting \<and> length waiting = unat (cb_records (cl_buffer link)) \<and>
    (cb_used (cl_buffer link) = 0 \<longrightarrow> waiting = []) \<and> dec_skipped (cl_host link) = 0) \<and>
   cl_received demo_link = [(0, HostEntered 77), (1, HostFrame 1 100 250 5 (- 2) 1000), (2, HostFrame 1 101 250 (- 7) (- 2) 1000),
     (4, HostFrame 1 102 250 1 (- 2) 1000)]"
proof (intro conjI)
  show "list_all step_records_ok demo_steps"
    by (simp add: demo_steps_def demo_frame_def capture_record_def capture_record_ok_def)
  then have ok: "\<forall>s \<in> set demo_steps. step_records_ok s" by (simp add: list_all_iff)
  show "\<exists>link waiting. capture_run demo_steps (new_link (replicate 33 0) 33) = Some link \<and>
    cl_log link = cl_received link @ waiting \<and> length waiting = unat (cb_records (cl_buffer link)) \<and>
    (cb_used (cl_buffer link) = 0 \<longrightarrow> waiting = []) \<and> dec_skipped (cl_host link) = 0"
    by (rule capture_delivers_what_was_stored [OF ok]) simp_all
  show "cl_received demo_link = [(0, HostEntered 77), (1, HostFrame 1 100 250 5 (- 2) 1000), (2, HostFrame 1 101 250 (- 7) (- 2) 1000),
     (4, HostFrame 1 102 250 1 (- 2) 1000)]"
    by code_simp
qed

end
