(* ===== verification/Telemetry_Frame.thy ===== *)
theory Telemetry_Frame
  imports Bytes
begin

text \<open>
  The framing of the host protocol (\<open>service/telemetry.c\<close>): a frame is two magic bytes, a type, a
  16-bit length and the payload. Each link has its own parser, a state machine fed one byte at
  a time, and the frame decoder of the host (\<open>web/protocol.js\<close>) works on chunks of any size.

  A parser step gives the request to dispatch, if the byte completes one. The dispatch itself
  touches no parser, so it may follow the step.
\<close>

abbreviation "ZPT_FRAME_MAGIC_0 \<equiv> (0x5a :: u8)"
abbreviation "ZPT_FRAME_MAGIC_1 \<equiv> (0x50 :: u8)"
abbreviation "ZPT_MAX_REQUEST_PAYLOAD \<equiv> (128 :: nat)"

type_synonym frame = "u8 \<times> u8 list"

section \<open>Sending\<close>

text \<open>The header of \<open>zpt_send_frame_on_link\<close> and the bytes a link carries; also \<open>encodeFrame\<close> of the host.\<close>

definition frame_header :: "u8 \<Rightarrow> u16 \<Rightarrow> u8 list" where
  "frame_header type len = [ZPT_FRAME_MAGIC_0, ZPT_FRAME_MAGIC_1, type, ucast (len AND 0xff), ucast (drop_bit 8 len)]"

definition encode_frame :: "frame \<Rightarrow> u8 list" where
  "encode_frame f = frame_header (fst f) (of_nat (length (snd f))) @ snd f"

section \<open>The parser of the firmware\<close>

datatype parser_state = MAGIC_0 | MAGIC_1 | PARSE_TYPE | LENGTH_0 | LENGTH_1 | PAYLOAD

record zpt_frame_parser =
  ps_state :: parser_state
  ps_type :: u8
  ps_length :: u16
  ps_received :: u16
  ps_payload :: "u8 list"

definition new_parser :: zpt_frame_parser where
  "new_parser = \<lparr>ps_state = MAGIC_0, ps_type = 0, ps_length = 0, ps_received = 0,
     ps_payload = replicate ZPT_MAX_REQUEST_PAYLOAD 0\<rparr>"

definition zpt_parse_byte :: "zpt_frame_parser \<Rightarrow> u8 \<Rightarrow> zpt_frame_parser \<times> frame option" where
  "zpt_parse_byte p byte =
     (case ps_state p of
        MAGIC_0 \<Rightarrow> (if byte = ZPT_FRAME_MAGIC_0 then p\<lparr>ps_state := MAGIC_1\<rparr> else p, None)
      | MAGIC_1 \<Rightarrow> (p\<lparr>ps_state := (if byte = ZPT_FRAME_MAGIC_1 then PARSE_TYPE
                                 else if byte = ZPT_FRAME_MAGIC_0 then MAGIC_1 else MAGIC_0)\<rparr>, None)
      | PARSE_TYPE \<Rightarrow> (p\<lparr>ps_type := byte, ps_state := LENGTH_0\<rparr>, None)
      | LENGTH_0 \<Rightarrow> (p\<lparr>ps_length := ucast byte, ps_state := LENGTH_1\<rparr>, None)
      | LENGTH_1 \<Rightarrow>
          let p = p\<lparr>ps_length := ps_length p OR push_bit 8 (ucast byte), ps_received := 0\<rparr> in
          if unat (ps_length p) > length (ps_payload p) then (p\<lparr>ps_state := MAGIC_0\<rparr>, None)
          else if ps_length p = 0 then (p\<lparr>ps_state := MAGIC_0\<rparr>, Some (ps_type p, []))
          else (p\<lparr>ps_state := PAYLOAD\<rparr>, None)
      | PAYLOAD \<Rightarrow>
          let p = p\<lparr>ps_payload := (ps_payload p)[unat (ps_received p) := byte], ps_received := ps_received p + 1\<rparr> in
          if ps_received p = ps_length p
          then (p\<lparr>ps_state := MAGIC_0\<rparr>, Some (ps_type p, take (unat (ps_length p)) (ps_payload p)))
          else (p, None))"

fun parse_bytes :: "zpt_frame_parser \<Rightarrow> u8 list \<Rightarrow> zpt_frame_parser \<times> frame list" where
  "parse_bytes p [] = (p, [])"
| "parse_bytes p (byte # bytes) =
     (let (p, request) = zpt_parse_byte p byte; (p, requests) = parse_bytes p bytes
      in (p, (case request of None \<Rightarrow> [] | Some r \<Rightarrow> [r]) @ requests))"

section \<open>What the parser recognises\<close>

text \<open>
  The bytes the parser has read since it left \<open>MAGIC_0\<close>: the state is exactly the memory of a
  frame begun. \<open>parser_ok\<close> also says that every index the parser uses lies in its payload array.
\<close>

definition parser_ok :: "zpt_frame_parser \<Rightarrow> bool" where
  "parser_ok p \<longleftrightarrow> length (ps_payload p) = ZPT_MAX_REQUEST_PAYLOAD \<and>
     (ps_state p = LENGTH_1 \<longrightarrow> unat (ps_length p) < 256) \<and>
     (ps_state p = PAYLOAD \<longrightarrow> unat (ps_received p) < unat (ps_length p) \<and> unat (ps_length p) \<le> ZPT_MAX_REQUEST_PAYLOAD)"

definition begun :: "zpt_frame_parser \<Rightarrow> u8 list" where
  "begun p = (case ps_state p of
      MAGIC_0 \<Rightarrow> []
    | MAGIC_1 \<Rightarrow> [ZPT_FRAME_MAGIC_0]
    | PARSE_TYPE \<Rightarrow> [ZPT_FRAME_MAGIC_0, ZPT_FRAME_MAGIC_1]
    | LENGTH_0 \<Rightarrow> [ZPT_FRAME_MAGIC_0, ZPT_FRAME_MAGIC_1, ps_type p]
    | LENGTH_1 \<Rightarrow> [ZPT_FRAME_MAGIC_0, ZPT_FRAME_MAGIC_1, ps_type p, ucast (ps_length p)]
    | PAYLOAD \<Rightarrow> frame_header (ps_type p) (ps_length p) @ take (unat (ps_received p)) (ps_payload p))"

lemma new_parser_ok [simp]: "parser_ok new_parser" "begun new_parser = []"
  by (simp_all add: parser_ok_def begun_def new_parser_def)

lemma length_bytes: "ucast (((ucast low :: u16) OR push_bit 8 (ucast high)) AND 0xff) = low"
  "ucast (drop_bit 8 ((ucast low :: u16) OR push_bit 8 (ucast high))) = high" for low high :: u8
  by (rule bit_word_eqI, simp add: masks_take_bit bit_simps bits_above)+

lemma header_length: "(ucast (ucast (v AND 0xff) :: u8) :: u16) OR push_bit 8 (ucast (ucast (drop_bit 8 v) :: u8)) = v" for v :: u16
  using get_put_le16 [of v "[]"] by (simp add: get_le16_def put_le16_def)

lemma unat_ucast_byte [simp]: "unat (ucast b :: u16) = unat b" for b :: u8
proof -
  have "uint (ucast b :: u16) = uint b"
    using uint_bounds(5,6) [of b] by (simp only: unsigned_ucast_eq take_bit_eq_mod) simp
  then show ?thesis by (simp only: unat_eq_nat_uint)
qed

lemma unat_byte_less: "unat (b :: u8) < 256"
  using uint_bounds(6) [of b] by (simp only: uint_nat)

lemma ucast_small: "unat v < 256 \<Longrightarrow> ucast (ucast v :: u8) = v" for v :: u16
proof (rule word_uint_eqI)
  assume "unat v < 256"
  then have "uint v < 256" by (simp only: uint_nat)
  then show "uint (ucast (ucast v :: u8) :: u16) = uint v"
    by (simp only: unsigned_ucast_eq unsigned_take_bit_eq take_bit_eq_mod [where 'a = int]) simp
qed

lemma parse_keeps_ok:
  assumes "parser_ok p"
  shows "parser_ok (fst (zpt_parse_byte p byte))"
proof (cases "ps_state p")
  case PAYLOAD
  then have "unat (ps_received p + 1) = unat (ps_received p) + 1" "unat (ps_received p) < unat (ps_length p)"
    using assms by (auto simp: parser_ok_def unat_word_ariths)
  then show ?thesis
    using assms PAYLOAD by (auto simp: zpt_parse_byte_def parser_ok_def Let_def word_unat_eq_iff)
next
  case LENGTH_0
  then show ?thesis using assms unat_byte_less [of byte] by (simp add: zpt_parse_byte_def parser_ok_def)
qed (use assms in \<open>auto simp: zpt_parse_byte_def parser_ok_def Let_def unat_gt_0\<close>)


text \<open>A frame begun is remembered exactly, and a request is dispatched exactly when its frame is complete.\<close>

lemma begun_nothing [simp]: "ps_state p = MAGIC_0 \<Longrightarrow> begun p = []"
  by (simp add: begun_def)

lemma begun_header:
  assumes "unat v < 256"
  shows "frame_header t (v OR push_bit 8 (ucast byte)) = [ZPT_FRAME_MAGIC_0, ZPT_FRAME_MAGIC_1, t, ucast v, byte]"
  using length_bytes [of "ucast v" byte] assms by (simp add: frame_header_def ucast_small)

lemma take_update_last: "k < length xs \<Longrightarrow> take (Suc k) (xs[k := x]) = take k xs @ [x]"
  by (simp add: take_Suc_conv_app_nth)

lemma parse_step:
  assumes ok: "parser_ok p" and step: "zpt_parse_byte p byte = (p', request)"
  shows "case request of
      None \<Rightarrow> \<exists>noise. begun p @ [byte] = noise @ begun p'
    | Some r \<Rightarrow> begun p @ [byte] = encode_frame r \<and> begun p' = []"
proof (cases "ps_state p")
  case MAGIC_0
  then show ?thesis using step by (auto simp: zpt_parse_byte_def begun_def split: if_splits)
next
  case MAGIC_1
  then show ?thesis using step by (auto simp: zpt_parse_byte_def begun_def split: if_splits)
next
  case PARSE_TYPE
  then show ?thesis using step by (auto simp: zpt_parse_byte_def begun_def)
next
  case LENGTH_0
  have "ucast (ucast byte :: u16) = byte" by (rule bit_word_eqI) (simp add: bit_simps bits_above)
  then show ?thesis using LENGTH_0 step by (auto simp: zpt_parse_byte_def begun_def)
next
  case LENGTH_1
  let ?len = "ps_length p OR push_bit 8 (ucast byte)"
  have header: "begun p @ [byte] = frame_header (ps_type p) ?len"
    using ok LENGTH_1 by (simp add: begun_header parser_ok_def) (simp add: begun_def)
  then show ?thesis
    using LENGTH_1 step
    by (auto simp: zpt_parse_byte_def Let_def encode_frame_def begun_def [of p'] split: if_splits)
next
  case PAYLOAD
  have bounds: "unat (ps_received p) < unat (ps_length p)" "unat (ps_length p) \<le> length (ps_payload p)"
    "length (ps_payload p) = ZPT_MAX_REQUEST_PAYLOAD"
    using ok PAYLOAD by (auto simp: parser_ok_def)
  then have succ: "unat (ps_received p + 1) = Suc (unat (ps_received p))" by (simp add: unat_word_ariths)
  let ?q = "p\<lparr>ps_payload := (ps_payload p)[unat (ps_received p) := byte], ps_received := ps_received p + 1\<rparr>"
  have read: "begun p @ [byte] = frame_header (ps_type p) (ps_length p) @ take (unat (ps_received p + 1)) (ps_payload ?q)"
    using PAYLOAD bounds succ by (simp add: begun_def take_update_last)
  show ?thesis
  proof (cases "ps_received p + 1 = ps_length p")
    case True
    then have "p' = ?q\<lparr>ps_state := MAGIC_0\<rparr>" "request = Some (ps_type p, take (unat (ps_length p)) (ps_payload ?q))"
      using step PAYLOAD by (auto simp: zpt_parse_byte_def Let_def)
    then show ?thesis using read True bounds by (simp add: encode_frame_def begun_def [of p'] min_absorb2)
  next
    case False
    then have "p' = ?q" "request = None" using step PAYLOAD by (auto simp: zpt_parse_byte_def Let_def)
    moreover have "begun ?q = frame_header (ps_type p) (ps_length p) @ take (unat (ps_received p + 1)) (ps_payload ?q)"
      using PAYLOAD by (simp add: begun_def)
    ultimately show ?thesis using read by (auto intro: exI [of _ "[]"])
  qed
qed

text \<open>Every request was framed in what was read: the stream is frames between bytes that are not used.\<close>

lemma parsed_requests_were_framed:
  assumes "parser_ok p" "parse_bytes p bytes = (p', rs)"
  shows "\<exists>noise last. length noise = length rs \<and>
    begun p @ bytes = concat (map2 (\<lambda>n r. n @ encode_frame r) noise rs) @ last @ begun p'"
  using assms
proof (induction bytes arbitrary: p rs)
  case Nil
  then show ?case by auto
next
  case (Cons byte bytes)
  obtain p1 request where step: "zpt_parse_byte p byte = (p1, request)" by (cases "zpt_parse_byte p byte")
  obtain rs1 where rest: "parse_bytes p1 bytes = (p', rs1)"
      "rs = (case request of None \<Rightarrow> [] | Some r \<Rightarrow> [r]) @ rs1"
    using Cons.prems(2) step by (cases "parse_bytes p1 bytes") (simp add: Let_def)
  have "parser_ok p1" using parse_keeps_ok [OF Cons.prems(1)] step by (metis fst_conv)
  from Cons.IH [OF this rest(1)] obtain noise last where IH: "length noise = length rs1"
      "begun p1 @ bytes = concat (map2 (\<lambda>n r. n @ encode_frame r) noise rs1) @ last @ begun p'" by blast
  note now = parse_step [OF Cons.prems(1) step]
  have split: "begun p @ byte # bytes = (begun p @ [byte]) @ bytes" by simp
  show ?case
  proof (cases request)
    case (Some r)
    then have "begun p @ byte # bytes = encode_frame r @ (begun p1 @ bytes)"
      unfolding split using now by simp
    with IH Some rest(2) show ?thesis by (intro exI [of _ "[] # noise"] exI [of _ last]) simp
  next
    case None
    then obtain skip where skip: "begun p @ byte # bytes = skip @ (begun p1 @ bytes)"
      unfolding split using now by auto
    show ?thesis
    proof (cases rs1)
      case Nil
      with IH None rest(2) skip show ?thesis by (intro exI [of _ "[]"] exI [of _ "skip @ last"]) simp
    next
      case (Cons r rs2)
      then obtain n ns where "noise = n # ns" using IH(1) by (cases noise) auto
      with Cons IH None rest(2) skip show ?thesis by (intro exI [of _ "(skip @ n) # ns"] exI [of _ last]) simp
    qed
  qed
qed

text \<open>Every frame that fits is recognised.\<close>

lemma parse_bytes_append:
  "parse_bytes p (xs @ ys) = (let (p, rs) = parse_bytes p xs; (p, rs') = parse_bytes p ys in (p, rs @ rs'))"
  by (induction xs arbitrary: p) (auto simp: Let_def split: prod.splits)

lemma parse_payload:
  assumes "parser_ok p" "ps_state p = PAYLOAD" "unat (ps_length p) = unat (ps_received p) + length rest"
  shows "\<exists>p'. parse_bytes p rest = (p', [(ps_type p, take (unat (ps_received p)) (ps_payload p) @ rest)]) \<and>
    parser_ok p' \<and> ps_state p' = MAGIC_0"
  using assms
proof (induction rest arbitrary: p)
  case Nil
  then show ?case by (simp add: parser_ok_def)
next
  case (Cons byte rest)
  let ?q = "p\<lparr>ps_payload := (ps_payload p)[unat (ps_received p) := byte], ps_received := ps_received p + 1\<rparr>"
  have bounds: "unat (ps_received p) < unat (ps_length p)" "unat (ps_length p) \<le> length (ps_payload p)"
    "length (ps_payload p) = ZPT_MAX_REQUEST_PAYLOAD"
    using Cons.prems(1,2) by (auto simp: parser_ok_def)
  then have succ: "unat (ps_received p + 1) = Suc (unat (ps_received p))" by (simp add: unat_word_ariths)
  have ok: "parser_ok (fst (zpt_parse_byte p byte))" by (rule parse_keeps_ok [OF Cons.prems(1)])
  show ?case
  proof (cases rest)
    case Nil
    then have "ps_received p + 1 = ps_length p" using Cons.prems(3) succ by (simp add: word_unat_eq_iff)
    then show ?thesis
      using Cons.prems(2) Nil ok bounds succ by (auto simp: zpt_parse_byte_def Let_def take_update_last)
  next
    case (Cons b more)
    then have "ps_received p + 1 \<noteq> ps_length p" using Cons.prems(3) succ by (auto simp: word_unat_eq_iff)
    then have q: "zpt_parse_byte p byte = (?q, None)" using Cons.prems(2) by (simp add: zpt_parse_byte_def Let_def)
    from Cons.IH [of ?q] ok q Cons.prems(2,3) succ bounds show ?thesis
      by (auto simp: take_update_last)
  qed
qed

lemma parse_frame:
  assumes "parser_ok p" "ps_state p = MAGIC_0" "length (snd f) \<le> ZPT_MAX_REQUEST_PAYLOAD"
  shows "\<exists>p'. parse_bytes p (encode_frame f) = (p', [f]) \<and> parser_ok p' \<and> ps_state p' = MAGIC_0"
proof -
  obtain t pl where f: "f = (t, pl)" by (cases f)
  let ?len = "of_nat (length pl) :: u16"
  have len: "unat ?len = length pl" using assms(3) by (simp add: f unat_of_nat)
  let ?h = "p\<lparr>ps_type := t, ps_length := ?len, ps_received := 0\<rparr>"
  have payload: "length (ps_payload p) = ZPT_MAX_REQUEST_PAYLOAD" using assms(1) by (simp add: parser_ok_def)
  have "parse_bytes p (frame_header t ?len) =
      (if pl = [] then (?h\<lparr>ps_state := MAGIC_0\<rparr>, [f]) else (?h\<lparr>ps_state := PAYLOAD\<rparr>, []))"
    using assms header_length [of ?len] len payload
    by (auto simp: frame_header_def zpt_parse_byte_def f Let_def)
  moreover have "parser_ok (?h\<lparr>ps_state := MAGIC_0\<rparr>)" "pl \<noteq> [] \<Longrightarrow> parser_ok (?h\<lparr>ps_state := PAYLOAD\<rparr>)"
    using assms(3) payload len by (auto simp: parser_ok_def f)
  ultimately show ?thesis
    using parse_payload [of "?h\<lparr>ps_state := PAYLOAD\<rparr>" pl] len
    by (cases "pl = []") (auto simp: encode_frame_def f parse_bytes_append)
qed

section \<open>The decoder of the host\<close>

text \<open>\<open>FrameDecoder.push\<close>: what is left of the earlier chunks goes in front of the new one.\<close>

fun skip_to_magic :: "u8 list \<Rightarrow> u8 list" where
  "skip_to_magic (a # b # bytes) =
     (if a \<noteq> ZPT_FRAME_MAGIC_0 \<or> b \<noteq> ZPT_FRAME_MAGIC_1 then skip_to_magic (b # bytes) else a # b # bytes)"
| "skip_to_magic bytes = bytes"

definition frame_length :: "u8 list \<Rightarrow> nat" where
  "frame_length bytes = 5 + unat ((ucast (bytes ! 3) :: u16) OR push_bit 8 (ucast (bytes ! 4)))"

lemma length_skip_to_magic: "length (skip_to_magic bytes) \<le> length bytes"
  by (induction bytes rule: skip_to_magic.induct) auto

function decode_frames :: "u8 list \<Rightarrow> frame list \<times> u8 list" where
  "decode_frames bytes =
     (let bytes = skip_to_magic bytes in
      if length bytes < 5 \<or> length bytes < frame_length bytes then ([], bytes)
      else let (frames, rest) = decode_frames (drop (frame_length bytes) bytes)
           in ((bytes ! 2, take (frame_length bytes - 5) (drop 5 bytes)) # frames, rest))"
  by pat_completeness auto
termination
proof (relation "measure length")
  fix bytes x :: "u8 list"
  assume "x = skip_to_magic bytes" "\<not> (length x < 5 \<or> length x < frame_length x)"
  then show "(drop (frame_length x) x, bytes) \<in> measure length"
    using length_skip_to_magic [of bytes] by (auto simp: frame_length_def)
qed simp

declare decode_frames.simps [simp del]

definition decoder_push :: "u8 list \<Rightarrow> u8 list \<Rightarrow> frame list \<times> u8 list" where
  "decoder_push buffer chunk = decode_frames (buffer @ chunk)"

fun decoder_push_all :: "u8 list \<Rightarrow> u8 list list \<Rightarrow> frame list \<times> u8 list" where
  "decoder_push_all buffer [] = ([], buffer)"
| "decoder_push_all buffer (chunk # chunks) =
     (let (frames, buffer) = decoder_push buffer chunk; (frames', buffer) = decoder_push_all buffer chunks
      in (frames @ frames', buffer))"

lemma skip_append: "skip_to_magic (skip_to_magic xs @ ys) = skip_to_magic (xs @ ys)"
proof (induction xs rule: skip_to_magic.induct)
  case (1 a b bytes)
  then show ?case by (cases "bytes @ ys") auto
qed simp_all

lemma skip_longer:
  assumes "2 \<le> length (skip_to_magic xs)"
  shows "skip_to_magic (xs @ ys) = skip_to_magic xs @ ys"
  using assms by (induction xs rule: skip_to_magic.induct) auto

lemma decode_append:
  "decode_frames (xs @ ys) =
    (let (frames, rest) = decode_frames xs; (frames', rest') = decode_frames (rest @ ys) in (frames @ frames', rest'))"
proof (induction xs rule: decode_frames.induct)
  case (1 xs)
  let ?xs = "skip_to_magic xs"
  show ?case
  proof (cases "length ?xs < 5 \<or> length ?xs < frame_length ?xs")
    case True
    then have "decode_frames xs = ([], ?xs)" by (simp add: decode_frames.simps [of xs] Let_def)
    moreover have "decode_frames (?xs @ ys) = decode_frames (xs @ ys)"
      by (simp add: decode_frames.simps [of "?xs @ ys"] decode_frames.simps [of "xs @ ys"] skip_append)
    ultimately show ?thesis by (simp split: prod.splits)
  next
    case False
    then have longer: "skip_to_magic (xs @ ys) = ?xs @ ys" by (intro skip_longer) simp
    have len: "frame_length (?xs @ ys) = frame_length ?xs"
      using False by (simp add: frame_length_def nth_append)
    have same: "(?xs @ ys) ! 2 = ?xs ! 2"
      "take (frame_length ?xs - 5) (drop 5 (?xs @ ys)) = take (frame_length ?xs - 5) (drop 5 ?xs)"
      "drop (frame_length ?xs) (?xs @ ys) = drop (frame_length ?xs) ?xs @ ys"
      using False by (simp_all add: nth_append)
    have "decode_frames (xs @ ys) =
        (let (frames, rest) = decode_frames (drop (frame_length ?xs) ?xs @ ys)
         in ((?xs ! 2, take (frame_length ?xs - 5) (drop 5 ?xs)) # frames, rest))"
      using False by (simp add: decode_frames.simps [of "xs @ ys"] longer len same Let_def)
    moreover have "decode_frames xs =
        (let (frames, rest) = decode_frames (drop (frame_length ?xs) ?xs)
         in ((?xs ! 2, take (frame_length ?xs - 5) (drop 5 ?xs)) # frames, rest))"
      using False by (simp add: decode_frames.simps [of xs] Let_def)
    ultimately show ?thesis
      using 1 [OF refl False] by (simp add: Let_def split: prod.splits)
  qed
qed

lemma decode_frame:
  assumes "length (snd f) < 65536"
  shows "decode_frames (encode_frame f) = ([f], [])"
proof -
  obtain t pl where f: "f = (t, pl)" by (cases f)
  have len: "unat (of_nat (length pl) :: u16) = length pl" using assms by (simp add: f unat_of_nat)
  have flen: "frame_length (encode_frame f) = 5 + length pl"
    using header_length [of "of_nat (length pl)"] len
    by (simp add: frame_length_def encode_frame_def frame_header_def f)
  have head: "skip_to_magic (encode_frame f) = encode_frame f" "encode_frame f ! 2 = t" "drop 5 (encode_frame f) = pl"
    "length (encode_frame f) = 5 + length pl" "drop (5 + length pl) (encode_frame f) = []"
    by (simp_all add: encode_frame_def frame_header_def f)
  have "decode_frames [] = ([], [])" by (simp add: decode_frames.simps)
  then show ?thesis
    by (subst decode_frames.simps) (simp only: head(1) flen Let_def, simp add: head(2-) flip: f)
qed

lemma decode_frame_list:
  "\<forall>f \<in> set fs. length (snd f) < 65536 \<Longrightarrow> decode_frames (concat (map encode_frame fs)) = (fs, [])"
proof (induction fs)
  case Nil
  show ?case by (simp add: decode_frames.simps)
next
  case (Cons f fs)
  then show ?case using decode_append [of "encode_frame f"] decode_frame [of f] by simp
qed

lemma decoder_push_all_decodes:
  "decode_frames buffer = ([], buffer) \<Longrightarrow> decoder_push_all buffer chunks = decode_frames (buffer @ concat chunks)"
proof (induction chunks arbitrary: buffer)
  case (Cons chunk chunks)
  obtain frames rest where first: "decode_frames (buffer @ chunk) = (frames, rest)" by fastforce
  have settled: "decode_frames rest = ([], rest)"
    using decode_append [of "buffer @ chunk" "[]"] first by (cases "decode_frames rest") simp
  show ?case
    using Cons.IH [OF settled] first decode_append [of "buffer @ chunk" "concat chunks"]
    by (simp add: decoder_push_def split: prod.splits)
qed simp

section \<open>Both directions\<close>

text \<open>
  What a host may write on a link: frames, and headers announcing more than the parser holds
  (which it drops), each after bytes in which no frame begins.
\<close>

datatype stream_unit = RequestFrame frame | OversizedHeader u8 u16

fun unit_bytes :: "stream_unit \<Rightarrow> u8 list" where
  "unit_bytes (RequestFrame f) = encode_frame f"
| "unit_bytes (OversizedHeader t len) = frame_header t len"

fun unit_frames :: "stream_unit \<Rightarrow> frame list" where
  "unit_frames (RequestFrame f) = [f]"
| "unit_frames (OversizedHeader t len) = []"

fun unit_ok :: "stream_unit \<Rightarrow> bool" where
  "unit_ok (RequestFrame f) = (length (snd f) \<le> ZPT_MAX_REQUEST_PAYLOAD)"
| "unit_ok (OversizedHeader t len) = (unat len > ZPT_MAX_REQUEST_PAYLOAD)"

fun no_frame_begins :: "u8 list \<Rightarrow> bool" where
  "no_frame_begins (a # b # bytes) = ((a \<noteq> ZPT_FRAME_MAGIC_0 \<or> b \<noteq> ZPT_FRAME_MAGIC_1) \<and> no_frame_begins (b # bytes))"
| "no_frame_begins bytes = True"

definition item_bytes :: "u8 list \<times> stream_unit \<Rightarrow> u8 list" where
  "item_bytes item = fst item @ unit_bytes (snd item)"

definition item_ok :: "u8 list \<times> stream_unit \<Rightarrow> bool" where
  "item_ok item \<longleftrightarrow> no_frame_begins (fst item) \<and> unit_ok (snd item)"

lemma parse_noise:
  assumes "no_frame_begins (begun p @ bytes)" "ps_state p \<in> {MAGIC_0, MAGIC_1}"
  shows "\<exists>s. parse_bytes p bytes = (p\<lparr>ps_state := s\<rparr>, []) \<and> s \<in> {MAGIC_0, MAGIC_1}"
  using assms
proof (induction bytes arbitrary: p)
  case Nil
  then show ?case by (auto intro: exI [of _ "ps_state p"])
next
  case (Cons byte bytes)
  let ?s = "if byte = ZPT_FRAME_MAGIC_0 then MAGIC_1 else MAGIC_0"
  have step: "zpt_parse_byte p byte = (p\<lparr>ps_state := ?s\<rparr>, None)"
    using Cons.prems by (auto simp: zpt_parse_byte_def begun_def)
  have "no_frame_begins (begun (p\<lparr>ps_state := ?s\<rparr>) @ bytes)"
    using Cons.prems by (cases bytes) (auto simp: begun_def)
  from Cons.IH [OF this] step show ?case by auto
qed

text \<open>A frame may follow a stray first magic byte.\<close>

lemma parse_after_noise:
  assumes "ps_state p \<in> {MAGIC_0, MAGIC_1}"
  shows "parse_bytes p (frame_header t len @ rest) = parse_bytes (p\<lparr>ps_state := MAGIC_0\<rparr>) (frame_header t len @ rest)"
  using assms by (auto simp: frame_header_def zpt_parse_byte_def)

lemma parse_oversized:
  assumes "parser_ok p" "ps_state p = MAGIC_0" "unat len > ZPT_MAX_REQUEST_PAYLOAD"
  shows "\<exists>p'. parse_bytes p (frame_header t len) = (p', []) \<and> parser_ok p' \<and> ps_state p' = MAGIC_0"
  using assms header_length [of len]
  by (auto simp: frame_header_def zpt_parse_byte_def Let_def parser_ok_def)

lemma parse_item:
  assumes ok: "parser_ok p" and ready: "ps_state p = MAGIC_0" and item: "item_ok item"
  shows "\<exists>p'. parse_bytes p (item_bytes item) = (p', unit_frames (snd item)) \<and> parser_ok p' \<and> ps_state p' = MAGIC_0"
proof -
  obtain s where noise: "parse_bytes p (fst item) = (p\<lparr>ps_state := s\<rparr>, [])" "s \<in> {MAGIC_0, MAGIC_1}"
    using parse_noise [of p "fst item"] ready item by (auto simp: item_ok_def)
  let ?p = "p\<lparr>ps_state := MAGIC_0\<rparr>"
  have "parser_ok ?p" using ok by (simp add: parser_ok_def)
  then have "\<exists>p'. parse_bytes ?p (unit_bytes (snd item)) = (p', unit_frames (snd item)) \<and> parser_ok p' \<and> ps_state p' = MAGIC_0"
    using parse_frame [of ?p] parse_oversized [of ?p] item by (cases "snd item") (auto simp: item_ok_def)
  moreover have "parse_bytes (p\<lparr>ps_state := s\<rparr>) (unit_bytes (snd item)) = parse_bytes ?p (unit_bytes (snd item))"
    using parse_after_noise [of "p\<lparr>ps_state := s\<rparr>"] parse_after_noise [of "p\<lparr>ps_state := s\<rparr>" _ _ "[]"] noise(2)
    by (cases "snd item") (auto simp: encode_frame_def)
  ultimately show ?thesis using noise(1) by (auto simp: item_bytes_def parse_bytes_append)
qed

lemma parse_items:
  assumes "parser_ok p" "ps_state p = MAGIC_0" "list_all item_ok items"
  shows "\<exists>p'. parse_bytes p (concat (map item_bytes items)) = (p', concat (map (unit_frames \<circ> snd) items)) \<and>
    parser_ok p' \<and> ps_state p' = MAGIC_0"
  using assms
proof (induction items arbitrary: p)
  case (Cons item items)
  obtain p1 where "parse_bytes p (item_bytes item) = (p1, unit_frames (snd item))" "parser_ok p1" "ps_state p1 = MAGIC_0"
    using parse_item [of p item] Cons.prems by auto
  with Cons.IH [of p1] Cons.prems(3) show ?case by (auto simp: parse_bytes_append)
qed simp

text \<open>
Property C9. Requests: a parser that is not in the middle of a frame reads any sequence of frames
of at most 128 payload bytes, headers that announce more, and bytes in which no frame begins
before each of them (a stray first magic byte included), as exactly those frames, in order, and
is ready again after it; and whatever bytes arrive, each request it dispatches stood framed in them, in order
and without overlap, and what it still remembers is the end of what it read. Responses: however
the link cuts a sequence of frames into chunks, the decoder of the host yields exactly the frames.
\<close>

theorem frames_cross_the_link:
  assumes "parser_ok p" "ps_state p = MAGIC_0" "list_all item_ok items"
    and "concat chunks = concat (map encode_frame fs)" "list_all (\<lambda>f. length (snd f) < 65536) fs"
  shows "(\<exists>p'. parse_bytes p (concat (map item_bytes items)) = (p', concat (map (unit_frames \<circ> snd) items)) \<and>
      parser_ok p' \<and> ps_state p' = MAGIC_0) \<and>
    (\<exists>noise rest. length noise = length (snd (parse_bytes p bytes)) \<and>
      bytes = concat (map2 (\<lambda>n r. n @ encode_frame r) noise (snd (parse_bytes p bytes))) @ rest @ begun (fst (parse_bytes p bytes))) \<and>
    decoder_push_all [] chunks = (fs, [])"
proof (intro conjI)
  show "\<exists>p'. parse_bytes p (concat (map item_bytes items)) = (p', concat (map (unit_frames \<circ> snd) items)) \<and>
      parser_ok p' \<and> ps_state p' = MAGIC_0"
    using parse_items [OF assms(1-3)] by simp
  show "\<exists>noise rest. length noise = length (snd (parse_bytes p bytes)) \<and>
      bytes = concat (map2 (\<lambda>n r. n @ encode_frame r) noise (snd (parse_bytes p bytes))) @ rest @ begun (fst (parse_bytes p bytes))"
    using parsed_requests_were_framed [OF assms(1), of bytes] assms(2) by (cases "parse_bytes p bytes") simp
  show "decoder_push_all [] chunks = (fs, [])"
    using decoder_push_all_decodes [of "[]" chunks] decode_frame_list [of fs] assms(4,5)
    by (simp add: decode_frames.simps [of "[]"] list_all_iff)
qed

definition demo_items :: "(u8 list \<times> stream_unit) list" where
  "demo_items = [([0x50, 1, 0x5a], RequestFrame (0x03, [])), ([], OversizedHeader 6 200),
     ([7], RequestFrame (0x06, [1, 2, 0x5a, 0x50, 0, 0]))]"

definition demo_chunks :: "u8 list list" where
  "demo_chunks = [[0x5a], [0x50, 0x82, 1], [0, 7, 0x5a, 0x50, 0x81, 0], [0]]"

theorem frames_cross_the_link_witness:
  "snd (parse_bytes new_parser (concat (map item_bytes demo_items))) = [(0x03, []), (0x06, [1, 2, 0x5a, 0x50, 0, 0])] \<and>
   decoder_push_all [] demo_chunks = ([(0x82, [7]), (0x81, [])], [])"
proof -
  have "new_parser = new_parser\<lparr>ps_state := MAGIC_0\<rparr>" "list_all item_ok demo_items"
    "concat demo_chunks = concat (map encode_frame [(0x82, [7]), (0x81, [])])"
    by (simp_all add: new_parser_def demo_items_def demo_chunks_def encode_frame_def frame_header_def item_ok_def)
  from frames_cross_the_link [OF new_parser_ok(1) _ this(2,3), of "[]"] show ?thesis
    by (auto simp: new_parser_def demo_items_def)
qed

end
