(* ===== verification/Telemetry_Tuning.thy ===== *)
theory Telemetry_Tuning
  imports Telemetry_Frame Tuning
begin

text \<open>
  The runtime tuning requests of the host protocol (\<open>service/telemetry.c\<close>) over the tuning registry
  of theory Tuning, and the host's reading of the answers (\<open>web/protocol.js\<close>).

  A handler answers with one frame, the last thing it does: it is a function to that frame and
  the state left. A payload array filled at a growing offset is the list of the bytes written;
  the tests of the offset against the size of the array are kept. A string is its bytes.
\<close>

abbreviation "ZPT_REQ_TUNING_TARGETS \<equiv> (0x04 :: u8)"
abbreviation "ZPT_REQ_TUNING_DESCRIBE \<equiv> (0x05 :: u8)"
abbreviation "ZPT_REQ_TUNING_SET \<equiv> (0x06 :: u8)"
abbreviation "ZPT_REQ_TUNING_RESET \<equiv> (0x07 :: u8)"
abbreviation "ZPT_REQ_TUNING_HELP \<equiv> (0x08 :: u8)"
abbreviation "ZPT_REQ_TUNING_TARGET_METADATA \<equiv> (0x09 :: u8)"
abbreviation "ZPT_REQ_TUNING_PARAMETER_METADATA \<equiv> (0x0a :: u8)"
abbreviation "ZPT_REQ_TUNING_SET_MANY \<equiv> (0x0b :: u8)"
abbreviation "ZPT_RESP_TUNING_TARGETS \<equiv> (0x83 :: u8)"
abbreviation "ZPT_RESP_TUNING_DESCRIBE \<equiv> (0x84 :: u8)"
abbreviation "ZPT_RESP_TUNING_RESULT \<equiv> (0x85 :: u8)"
abbreviation "ZPT_RESP_TUNING_HELP \<equiv> (0x86 :: u8)"
abbreviation "ZPT_RESP_TUNING_TARGET_METADATA \<equiv> (0x87 :: u8)"
abbreviation "ZPT_RESP_TUNING_PARAMETER_METADATA \<equiv> (0x88 :: u8)"
abbreviation "ZPT_MAX_DESCRIBE_PAYLOAD \<equiv> (512 :: nat)"
abbreviation "ZPT_MAX_TUNING_DESCRIPTION_PAYLOAD \<equiv> (1024 :: nat)"
abbreviation "ZPT_TUNING_ALL_TARGETS \<equiv> (255 :: u8)"
abbreviation "ZPT_TUNING_BATCH_HEADER_SIZE \<equiv> (2 :: nat)"
abbreviation "ZPT_TUNING_BATCH_VALUE_SIZE \<equiv> (5 :: nat)"
abbreviation "ZPT_TUNING_MAX_BATCH_VALUES \<equiv> (20 :: nat)"
abbreviation "NO_ID \<equiv> (255 :: u8)"

abbreviation "STATUS_OK \<equiv> (0 :: u8)"
abbreviation "STATUS_UNKNOWN_TARGET \<equiv> (1 :: u8)"
abbreviation "STATUS_UNKNOWN_PARAMETER \<equiv> (2 :: u8)"
abbreviation "STATUS_INVALID_VALUE \<equiv> (3 :: u8)"
abbreviation "STATUS_INTERNAL_ERROR \<equiv> (4 :: u8)"
abbreviation "STATUS_UNREACHABLE \<equiv> (5 :: u8)"

section \<open>The handlers\<close>

definition string_bytes :: "string option \<Rightarrow> u8 list" where
  "string_bytes s = map of_char (the s)"

text \<open>\<open>memcpy\<close> of \<open>MIN(strlen(s), limit)\<close> bytes.\<close>

definition limited :: "nat \<Rightarrow> string option \<Rightarrow> u8 list" where
  "limited limit s = take (min (length (string_bytes s)) limit) (string_bytes s)"

definition zpt_tuning_status_from_errno :: "int \<Rightarrow> u8" where
  "zpt_tuning_status_from_errno error =
     (if error = 0 then STATUS_OK
      else if error = - ENODEV then STATUS_UNKNOWN_TARGET
      else if error = - ENOENT then STATUS_UNKNOWN_PARAMETER
      else if error = - EINVAL \<or> error = - ERANGE \<or> error = - EEXIST \<or> error = - ENOSYS then STATUS_INVALID_VALUE
      else if error = - EAGAIN then STATUS_UNREACHABLE
      else STATUS_INTERNAL_ERROR)"

definition zpt_send_tuning_result :: "u8 \<Rightarrow> int \<Rightarrow> u8 \<Rightarrow> u8 \<Rightarrow> int \<Rightarrow> frame" where
  "zpt_send_tuning_result request_type error target_id parameter_id v =
     (ZPT_RESP_TUNING_RESULT, [request_type, zpt_tuning_status_from_errno error, target_id, parameter_id] @
        put_le32 (word_of_int v))"

text \<open>The list of targets: how many fit, and their descriptors.\<close>

fun target_descriptors :: "'w zpt_tuning_target list \<Rightarrow> nat \<Rightarrow> u8 list \<Rightarrow> nat \<times> u8 list" where
  "target_descriptors [] i out = (i, out)"
| "target_descriptors (t # ts) i out =
     (let label = limited 255 (target_label t) in
      if 1 + length out + 3 + length label > ZPT_MAX_DESCRIBE_PAYLOAD then (i, out)
      else target_descriptors ts (i + 1) (out @ [of_nat i, target_kind t, of_nat (length label)] @ label))"

definition zpt_send_tuning_targets :: "'w tuning_registry \<Rightarrow> frame" where
  "zpt_send_tuning_targets reg =
     (let count = min (zpt_tuning_target_count reg) 255;
          (listed, out) = target_descriptors (take count (zpt_tuning_targets reg)) 0 []
      in (ZPT_RESP_TUNING_TARGETS, of_nat listed # out))"

definition parameter_descriptor :: "zpt_tuning_parameter \<Rightarrow> int \<Rightarrow> int \<Rightarrow> u8 list" where
  "parameter_descriptor p compiled current =
     (let label = limited 255 (param_label p); unit = limited 255 (param_unit p)
      in [param_id p, param_type p] @ put_le32 (word_of_int (param_minimum p)) @ put_le32 (word_of_int (param_maximum p)) @
         put_le32 (word_of_int (param_step p)) @ put_le32 (word_of_int compiled) @ put_le32 (word_of_int current) @
         [of_nat (length label), of_nat (length unit)] @ label @ unit)"

text \<open>The loop over the parameters: the error frame it returns with, or the count and the bytes.\<close>

fun parameter_descriptors :: "'w tuning_registry \<Rightarrow> 'w \<Rightarrow> u8 \<Rightarrow> zpt_tuning_parameter list \<Rightarrow> nat \<Rightarrow> u8 list \<Rightarrow>
    frame + (nat \<times> u8 list)" where
  "parameter_descriptors reg w target_id [] i out = Inr (i, out)"
| "parameter_descriptors reg w target_id (p # ps) i out =
     (let (ret, compiled) = zpt_tuning_get reg w target_id (param_id p) True;
          (ret, current) = (if ret = 0 then zpt_tuning_get reg w target_id (param_id p) False else (ret, None))
      in if ret \<noteq> 0 then Inl (zpt_send_tuning_result ZPT_REQ_TUNING_DESCRIBE ret target_id (param_id p) 0)
         else
           let encoded_length = 24 + length (limited 255 (param_label p)) + length (limited 255 (param_unit p)) in
           if 2 + length out + encoded_length > ZPT_MAX_TUNING_DESCRIPTION_PAYLOAD then Inr (i, out)
           else parameter_descriptors reg w target_id ps (i + 1)
             (out @ parameter_descriptor p (the compiled) (the current)))"

definition zpt_send_tuning_description :: "'w tuning_registry \<Rightarrow> 'w \<Rightarrow> u8 \<Rightarrow> frame" where
  "zpt_send_tuning_description reg w target_id =
     (case zpt_tuning_target_get reg target_id of
        None \<Rightarrow> zpt_send_tuning_result ZPT_REQ_TUNING_DESCRIBE (- ENODEV) target_id NO_ID 0
      | Some t \<Rightarrow>
          case parameter_descriptors reg w target_id (take 255 (described_parameters t)) 0 [] of
            Inl frame \<Rightarrow> frame
          | Inr (count, out) \<Rightarrow> (ZPT_RESP_TUNING_DESCRIBE, target_id # of_nat count # out))"

definition zpt_handle_tuning_set :: "'w tuning_registry \<Rightarrow> 'w \<Rightarrow> u8 list \<Rightarrow> frame \<times> 'w" where
  "zpt_handle_tuning_set reg w payload =
     (if length payload \<noteq> 6 then (zpt_send_tuning_result ZPT_REQ_TUNING_SET (- EINVAL) NO_ID NO_ID 0, w)
      else
        let target_id = payload ! 0; parameter_id = payload ! 1;
            requested = sint (get_le32 (drop 2 payload));
            (ret, w) = zpt_tuning_set reg w target_id parameter_id requested;
            (ret, current) = (if ret = 0 then zpt_tuning_get reg w target_id parameter_id False else (ret, None))
        in (zpt_send_tuning_result ZPT_REQ_TUNING_SET ret target_id parameter_id
              (case current of None \<Rightarrow> requested | Some v \<Rightarrow> v), w))"

definition zpt_handle_tuning_reset :: "'w tuning_registry \<Rightarrow> 'w \<Rightarrow> u8 list \<Rightarrow> frame \<times> 'w" where
  "zpt_handle_tuning_reset reg w payload =
     (if length payload \<noteq> 1 then (zpt_send_tuning_result ZPT_REQ_TUNING_RESET (- EINVAL) NO_ID NO_ID 0, w)
      else
        let target_id = payload ! 0;
            (ret, w) = (if target_id = ZPT_TUNING_ALL_TARGETS then zpt_tuning_reset_all reg w
                        else zpt_tuning_reset reg w target_id)
        in (zpt_send_tuning_result ZPT_REQ_TUNING_RESET ret target_id NO_ID 0, w))"

definition zpt_send_tuning_help :: "'w tuning_registry \<Rightarrow> u8 \<Rightarrow> u8 \<Rightarrow> frame" where
  "zpt_send_tuning_help reg target_id parameter_id =
     (case zpt_tuning_target_get reg target_id of
        None \<Rightarrow> zpt_send_tuning_result ZPT_REQ_TUNING_HELP (- ENODEV) target_id parameter_id 0
      | Some t \<Rightarrow>
          case zpt_tuning_parameter_get (Some t) parameter_id of
            None \<Rightarrow> zpt_send_tuning_result ZPT_REQ_TUNING_HELP (- ENOENT) target_id parameter_id 0
          | Some p \<Rightarrow>
              let description = limited (256 - 4) (param_description p)
              in (ZPT_RESP_TUNING_HELP, [target_id, parameter_id] @ put_le16 (of_nat (length description)) @ description))"

definition zpt_send_tuning_target_metadata :: "'w tuning_registry \<Rightarrow> u8 \<Rightarrow> frame" where
  "zpt_send_tuning_target_metadata reg target_id =
     (case zpt_tuning_target_get reg target_id of
        None \<Rightarrow> zpt_send_tuning_result ZPT_REQ_TUNING_TARGET_METADATA (- ENODEV) target_id NO_ID 0
      | Some t \<Rightarrow>
          let stable_id = limited 255 (target_stable_id t); path = limited 65535 (target_path t) in
          if 4 + length stable_id + length path > ZPT_MAX_DESCRIBE_PAYLOAD
          then zpt_send_tuning_result ZPT_REQ_TUNING_TARGET_METADATA (- ENOMEM) target_id NO_ID 0
          else (ZPT_RESP_TUNING_TARGET_METADATA,
                [target_id, of_nat (length stable_id)] @ put_le16 (of_nat (length path)) @ stable_id @ path))"

definition zpt_send_tuning_parameter_metadata :: "'w tuning_registry \<Rightarrow> u8 \<Rightarrow> u8 \<Rightarrow> frame" where
  "zpt_send_tuning_parameter_metadata reg target_id parameter_id =
     (case zpt_tuning_target_get reg target_id of
        None \<Rightarrow> zpt_send_tuning_result ZPT_REQ_TUNING_PARAMETER_METADATA (- ENODEV) target_id parameter_id 0
      | Some t \<Rightarrow>
          case zpt_tuning_parameter_get (Some t) parameter_id of
            None \<Rightarrow> zpt_send_tuning_result ZPT_REQ_TUNING_PARAMETER_METADATA (- ENOENT) target_id parameter_id 0
          | Some p \<Rightarrow>
              let key = limited 255 (param_key p); property = limited 255 (param_property p) in
              if 4 + length key + length property > ZPT_MAX_DESCRIBE_PAYLOAD
              then zpt_send_tuning_result ZPT_REQ_TUNING_PARAMETER_METADATA (- ENOMEM) target_id parameter_id 0
              else (ZPT_RESP_TUNING_PARAMETER_METADATA,
                    [target_id, parameter_id, of_nat (length key), of_nat (length property)] @ key @ property))"

definition batch_values :: "u8 list \<Rightarrow> nat \<Rightarrow> zpt_tuning_value list" where
  "batch_values payload count =
     map (\<lambda>i. let offset = ZPT_TUNING_BATCH_HEADER_SIZE + i * ZPT_TUNING_BATCH_VALUE_SIZE
              in \<lparr>value_id = payload ! offset, value_new = sint (get_le32 (drop (offset + 1) payload))\<rparr>) [0..<count]"

definition zpt_handle_tuning_set_many :: "'w tuning_registry \<Rightarrow> 'w \<Rightarrow> u8 list \<Rightarrow> frame \<times> 'w" where
  "zpt_handle_tuning_set_many reg w payload =
     (if length payload < ZPT_TUNING_BATCH_HEADER_SIZE
      then (zpt_send_tuning_result ZPT_REQ_TUNING_SET_MANY (- EINVAL) NO_ID NO_ID 0, w)
      else
        let target_id = payload ! 0; count = unat (payload ! 1) in
        if count = 0 \<or> count > ZPT_TUNING_MAX_BATCH_VALUES \<or>
           length payload \<noteq> ZPT_TUNING_BATCH_HEADER_SIZE + count * ZPT_TUNING_BATCH_VALUE_SIZE
        then (zpt_send_tuning_result ZPT_REQ_TUNING_SET_MANY (- EINVAL) target_id NO_ID 0, w)
        else
          let (ret, failed, w) = zpt_tuning_set_many reg w target_id (Some (batch_values payload count))
          in (zpt_send_tuning_result ZPT_REQ_TUNING_SET_MANY ret target_id
                (if ret = 0 then NO_ID else case failed of None \<Rightarrow> NO_ID | Some p \<Rightarrow> p)
                (if ret = 0 then int count else 0), w))"

definition zpt_dispatch_tuning :: "'w tuning_registry \<Rightarrow> 'w \<Rightarrow> frame \<Rightarrow> frame option \<times> 'w" where
  "zpt_dispatch_tuning reg w request =
     (let (type, payload) = request;
          refused = zpt_send_tuning_result type (- EINVAL) NO_ID NO_ID 0
      in if type = ZPT_REQ_TUNING_TARGETS then (Some (zpt_send_tuning_targets reg), w)
         else if type = ZPT_REQ_TUNING_DESCRIBE then
           (Some (if length payload = 1 then zpt_send_tuning_description reg w (payload ! 0) else refused), w)
         else if type = ZPT_REQ_TUNING_SET then apfst Some (zpt_handle_tuning_set reg w payload)
         else if type = ZPT_REQ_TUNING_RESET then apfst Some (zpt_handle_tuning_reset reg w payload)
         else if type = ZPT_REQ_TUNING_HELP then
           (Some (if length payload = 2 then zpt_send_tuning_help reg (payload ! 0) (payload ! 1) else refused), w)
         else if type = ZPT_REQ_TUNING_TARGET_METADATA then
           (Some (if length payload = 1 then zpt_send_tuning_target_metadata reg (payload ! 0) else refused), w)
         else if type = ZPT_REQ_TUNING_PARAMETER_METADATA then
           (Some (if length payload = 2 then zpt_send_tuning_parameter_metadata reg (payload ! 0) (payload ! 1) else refused), w)
         else if type = ZPT_REQ_TUNING_SET_MANY then apfst Some (zpt_handle_tuning_set_many reg w payload)
         else (None, w))"

definition zpt_is_tuning_request :: "u8 \<Rightarrow> bool" where
  "zpt_is_tuning_request type \<longleftrightarrow> type \<in> {ZPT_REQ_TUNING_TARGETS, ZPT_REQ_TUNING_DESCRIBE, ZPT_REQ_TUNING_SET,
     ZPT_REQ_TUNING_RESET, ZPT_REQ_TUNING_HELP, ZPT_REQ_TUNING_TARGET_METADATA, ZPT_REQ_TUNING_PARAMETER_METADATA,
     ZPT_REQ_TUNING_SET_MANY}"


section \<open>The answers\<close>

lemma length_limited: "length (limited n s) \<le> n"
  by (simp add: limited_def)

lemma result_answer [simp]:
  "fst (zpt_send_tuning_result type error t p v) = ZPT_RESP_TUNING_RESULT"
  "length (snd (zpt_send_tuning_result type error t p v)) = 8"
  "snd (zpt_send_tuning_result type error t p v) ! 0 = type"
  by (simp_all add: zpt_send_tuning_result_def)

text \<open>
  A request is answered with its own kind of response, of a size the payload array of its handler
  holds, or with a result that names the request.
\<close>

definition response_of :: "u8 \<Rightarrow> u8" where
  "response_of type =
     (if type = ZPT_REQ_TUNING_TARGETS then ZPT_RESP_TUNING_TARGETS
      else if type = ZPT_REQ_TUNING_DESCRIBE then ZPT_RESP_TUNING_DESCRIBE
      else if type = ZPT_REQ_TUNING_HELP then ZPT_RESP_TUNING_HELP
      else if type = ZPT_REQ_TUNING_TARGET_METADATA then ZPT_RESP_TUNING_TARGET_METADATA
      else if type = ZPT_REQ_TUNING_PARAMETER_METADATA then ZPT_RESP_TUNING_PARAMETER_METADATA
      else ZPT_RESP_TUNING_RESULT)"

definition response_limit :: "u8 \<Rightarrow> nat" where
  "response_limit type =
     (if type = ZPT_RESP_TUNING_RESULT then 8
      else if type = ZPT_RESP_TUNING_DESCRIBE then ZPT_MAX_TUNING_DESCRIPTION_PAYLOAD
      else if type = ZPT_RESP_TUNING_HELP then 256
      else ZPT_MAX_DESCRIBE_PAYLOAD)"

definition answers :: "u8 \<Rightarrow> frame \<Rightarrow> bool" where
  "answers type answer \<longleftrightarrow> length (snd answer) \<le> response_limit (fst answer) \<and>
     (fst answer = response_of type \<and> fst answer \<noteq> ZPT_RESP_TUNING_RESULT \<or>
      fst answer = ZPT_RESP_TUNING_RESULT \<and> length (snd answer) = 8 \<and> snd answer ! 0 = type)"

lemma result_answers [simp]: "answers type (zpt_send_tuning_result type error t p v)"
  by (simp add: answers_def response_limit_def)

lemma target_descriptors_fit:
  "1 + length out \<le> ZPT_MAX_DESCRIBE_PAYLOAD \<Longrightarrow> 1 + length (snd (target_descriptors ts i out)) \<le> ZPT_MAX_DESCRIBE_PAYLOAD"
  by (induction ts i out rule: target_descriptors.induct) (auto simp: Let_def)

lemma targets_answer: "answers ZPT_REQ_TUNING_TARGETS (zpt_send_tuning_targets reg)"
proof -
  let ?ts = "take (min (zpt_tuning_target_count reg) 255) (zpt_tuning_targets reg)"
  obtain n out where "target_descriptors ?ts 0 [] = (n, out)" by fastforce
  then show ?thesis
    using target_descriptors_fit [of "[]" ?ts 0]
    by (simp add: zpt_send_tuning_targets_def answers_def response_of_def response_limit_def)
qed

lemma length_parameter_descriptor:
  "length (parameter_descriptor p c v) = 24 + length (limited 255 (param_label p)) + length (limited 255 (param_unit p))"
  by (simp add: parameter_descriptor_def Let_def)

lemma parameter_descriptors_fit:
  assumes "2 + length out \<le> ZPT_MAX_TUNING_DESCRIPTION_PAYLOAD"
  shows "case parameter_descriptors reg w t ps i out of
      Inl frame \<Rightarrow> answers ZPT_REQ_TUNING_DESCRIBE frame
    | Inr (n, out') \<Rightarrow> 2 + length out' \<le> ZPT_MAX_TUNING_DESCRIPTION_PAYLOAD"
  using assms
proof (induction reg w t ps i out rule: parameter_descriptors.induct)
  case (2 reg w t p ps i out)
  show ?case
    using 2 by (auto simp: Let_def length_parameter_descriptor split: prod.splits)
qed simp

lemma description_answer: "answers ZPT_REQ_TUNING_DESCRIBE (zpt_send_tuning_description reg w t)"
proof (cases "zpt_tuning_target_get reg t")
  case None
  then show ?thesis by (simp add: zpt_send_tuning_description_def)
next
  case (Some target)
  note fit = parameter_descriptors_fit [of "[]" reg w t "take 255 (described_parameters target)" 0]
  show ?thesis
  proof (cases "parameter_descriptors reg w t (take 255 (described_parameters target)) 0 []")
    case (Inl frame)
    then show ?thesis using fit Some by (simp add: zpt_send_tuning_description_def)
  next
    case (Inr counted)
    then show ?thesis
      using fit Some
      by (cases counted) (simp add: zpt_send_tuning_description_def answers_def response_of_def response_limit_def)
  qed
qed

lemma metadata_answers:
  "answers ZPT_REQ_TUNING_HELP (zpt_send_tuning_help reg t p)"
  "answers ZPT_REQ_TUNING_TARGET_METADATA (zpt_send_tuning_target_metadata reg t)"
  "answers ZPT_REQ_TUNING_PARAMETER_METADATA (zpt_send_tuning_parameter_metadata reg t p)"
  using length_limited [of 252]
  by (auto simp: zpt_send_tuning_help_def zpt_send_tuning_target_metadata_def zpt_send_tuning_parameter_metadata_def
      answers_def [of _ "(_, _ # _)"] response_of_def response_limit_def Let_def split: option.splits)

lemma handlers_answer:
  "answers ZPT_REQ_TUNING_SET (fst (zpt_handle_tuning_set reg w payload))"
  "answers ZPT_REQ_TUNING_RESET (fst (zpt_handle_tuning_reset reg w payload))"
  "answers ZPT_REQ_TUNING_SET_MANY (fst (zpt_handle_tuning_set_many reg w payload))"
  by (auto simp: zpt_handle_tuning_set_def zpt_handle_tuning_reset_def zpt_handle_tuning_set_many_def Let_def
      split: prod.splits)

lemma tuning_answers:
  assumes "zpt_is_tuning_request (fst request)"
  shows "case fst (zpt_dispatch_tuning reg w request) of None \<Rightarrow> False | Some answer \<Rightarrow> answers (fst request) answer"
  using assms
  by (cases request)
    (auto simp: zpt_is_tuning_request_def zpt_dispatch_tuning_def Let_def targets_answer description_answer
      metadata_answers handlers_answer)

text \<open>Only a change of settings changes the state.\<close>

lemma tuning_reads_change_nothing:
  assumes "fst request \<notin> {ZPT_REQ_TUNING_SET, ZPT_REQ_TUNING_RESET, ZPT_REQ_TUNING_SET_MANY}"
  shows "snd (zpt_dispatch_tuning reg w request) = w"
  using assms by (cases request) (auto simp: zpt_dispatch_tuning_def Let_def)

section \<open>What the host reads\<close>

text \<open>The parsers of \<open>web/protocol.js\<close>; a thrown error is \<open>None\<close>, a decoded text its bytes.\<close>

record host_parameter =
  hp_id :: u8
  hp_type :: u8
  hp_minimum :: int
  hp_maximum :: int
  hp_step :: int
  hp_compiled :: int
  hp_current :: int
  hp_label :: "u8 list"
  hp_unit :: "u8 list"

definition int32_at :: "u8 list \<Rightarrow> nat \<Rightarrow> int" where
  "int32_at bytes offset = sint (get_le32 (drop offset bytes))"

definition read_parameter :: "u8 list \<Rightarrow> (host_parameter \<times> u8 list) option" where
  "read_parameter bytes =
     (if length bytes < 24 then None
      else
        let label_length = unat (bytes ! 22); unit_length = unat (bytes ! 23); rest = drop 24 bytes in
        if length rest < label_length + unit_length then None
        else Some (\<lparr>hp_id = bytes ! 0, hp_type = bytes ! 1, hp_minimum = int32_at bytes 2, hp_maximum = int32_at bytes 6,
          hp_step = int32_at bytes 10, hp_compiled = int32_at bytes 14, hp_current = int32_at bytes 18,
          hp_label = take label_length rest, hp_unit = take unit_length (drop label_length rest)\<rparr>,
          drop (label_length + unit_length) rest))"

fun read_parameters :: "nat \<Rightarrow> u8 list \<Rightarrow> host_parameter list option" where
  "read_parameters 0 bytes = Some []"
| "read_parameters (Suc n) bytes =
     (case read_parameter bytes of
        None \<Rightarrow> None
      | Some (p, rest) \<Rightarrow> map_option (Cons p) (read_parameters n rest))"

definition parseTuningDescription :: "u8 list \<Rightarrow> (u8 \<times> host_parameter list) option" where
  "parseTuningDescription payload =
     (if length payload < 2 then None
      else map_option (Pair (payload ! 0)) (read_parameters (unat (payload ! 1)) (drop 2 payload)))"

record host_result =
  hr_request :: u8
  hr_status :: u8
  hr_target :: u8
  hr_parameter :: u8
  hr_value :: int

definition parseTuningResult :: "u8 list \<Rightarrow> host_result option" where
  "parseTuningResult payload =
     (if length payload \<noteq> 8 then None
      else Some \<lparr>hr_request = payload ! 0, hr_status = payload ! 1, hr_target = payload ! 2,
        hr_parameter = payload ! 3, hr_value = int32_at payload 4\<rparr>)"

definition encodeTuningSet :: "u8 \<Rightarrow> u8 \<Rightarrow> int \<Rightarrow> frame" where
  "encodeTuningSet target_id parameter_id v = (ZPT_REQ_TUNING_SET, [target_id, parameter_id] @ put_le32 (word_of_int v))"

definition encodeTuningSetMany :: "u8 \<Rightarrow> zpt_tuning_value list \<Rightarrow> frame option" where
  "encodeTuningSetMany target_id values =
     (if values = [] \<or> length values > 20 then None
      else Some (ZPT_REQ_TUNING_SET_MANY, [target_id, of_nat (length values)] @
        concat (map (\<lambda>v. value_id v # put_le32 (word_of_int (value_new v))) values)))"

text \<open>Numbers and lengths survive.\<close>

lemma unat_small: "n < 256 \<Longrightarrow> unat (of_nat n :: u8) = n"
  by (simp add: unat_of_nat)

lemma int32_at_put [simp]: "in_i32 v \<Longrightarrow> int32_at (put_le32 (word_of_int v) @ rest) 0 = v"
  by (simp add: int32_at_def)

lemma parse_result:
  assumes "in_i32 v"
  shows "parseTuningResult (snd (zpt_send_tuning_result type error t p v)) =
    Some \<lparr>hr_request = type, hr_status = zpt_tuning_status_from_errno error, hr_target = t, hr_parameter = p, hr_value = v\<rparr>"
  using assms by (simp add: parseTuningResult_def zpt_send_tuning_result_def int32_at_def)

definition host_view :: "zpt_tuning_parameter \<Rightarrow> int \<Rightarrow> int \<Rightarrow> host_parameter" where
  "host_view p compiled current = \<lparr>hp_id = param_id p, hp_type = param_type p, hp_minimum = param_minimum p,
     hp_maximum = param_maximum p, hp_step = param_step p, hp_compiled = compiled, hp_current = current,
     hp_label = limited 255 (param_label p), hp_unit = limited 255 (param_unit p)\<rparr>"

lemma read_parameter_descriptor:
  assumes "in_i32 (param_minimum p)" "in_i32 (param_maximum p)" "in_i32 (param_step p)" "in_i32 c" "in_i32 v"
  shows "read_parameter (parameter_descriptor p c v @ rest) = Some (host_view p c v, rest)"
proof -
  have "unat (of_nat (length (limited 255 s)) :: u8) = length (limited 255 s)" for s
    using length_limited [of 255 s] by (intro unat_small) simp
  then show ?thesis
    using assms by (simp add: read_parameter_def parameter_descriptor_def host_view_def int32_at_def Let_def nth_append)
qed


lemma read_parameter_list:
  assumes "\<forall>p \<in> set ps. in_i32 (param_minimum p) \<and> in_i32 (param_maximum p) \<and> in_i32 (param_step p) \<and>
      in_i32 (compiled (param_id p)) \<and> in_i32 (current (param_id p))"
  shows "read_parameters (length ps) (concat (map (\<lambda>p. parameter_descriptor p (compiled (param_id p)) (current (param_id p))) ps)) =
    Some (map (\<lambda>p. host_view p (compiled (param_id p)) (current (param_id p))) ps)"
  using assms by (induction ps) (simp_all add: read_parameter_descriptor)

definition described_size :: "zpt_tuning_parameter list \<Rightarrow> nat" where
  "described_size ps = 2 + sum_list (map (\<lambda>p. 24 + length (limited 255 (param_label p)) + length (limited 255 (param_unit p))) ps)"

text \<open>The loop writes the longest prefix that fits.\<close>

lemma parameter_descriptors_prefix:
  assumes "\<forall>p \<in> set ps. zpt_tuning_get reg w t (param_id p) True = (0, Some (compiled (param_id p))) \<and>
      zpt_tuning_get reg w t (param_id p) False = (0, Some (current (param_id p)))"
    and "2 + length out = described_size done" "described_size done \<le> ZPT_MAX_TUNING_DESCRIPTION_PAYLOAD"
  shows "\<exists>n \<le> length ps. parameter_descriptors reg w t ps i out =
      Inr (i + n, out @ concat (map (\<lambda>p. parameter_descriptor p (compiled (param_id p)) (current (param_id p))) (take n ps))) \<and>
    described_size (done @ take n ps) \<le> ZPT_MAX_TUNING_DESCRIPTION_PAYLOAD \<and>
    (n < length ps \<longrightarrow> described_size (done @ take (Suc n) ps) > ZPT_MAX_TUNING_DESCRIPTION_PAYLOAD)"
  using assms
proof (induction ps arbitrary: i out "done")
  case Nil
  then show ?case by simp
next
  case (Cons p ps)
  let ?d = "parameter_descriptor p (compiled (param_id p)) (current (param_id p))"
  have size: "described_size (done @ [p]) = described_size done + length ?d"
    by (simp add: described_size_def length_parameter_descriptor)
  show ?case
  proof (cases "described_size (done @ [p]) > ZPT_MAX_TUNING_DESCRIPTION_PAYLOAD")
    case True
    then show ?thesis
      using Cons.prems size by (intro exI [of _ 0]) (simp add: Let_def length_parameter_descriptor)
  next
    case False
    then have "2 + length (out @ ?d) = described_size (done @ [p])" using Cons.prems(2) size by simp
    from Cons.IH [OF _ this, of "i + 1"] Cons.prems(1) False obtain n where "n \<le> length ps"
      "parameter_descriptors reg w t ps (i + 1) (out @ ?d) = Inr (i + 1 + n, (out @ ?d) @
        concat (map (\<lambda>p. parameter_descriptor p (compiled (param_id p)) (current (param_id p))) (take n ps)))"
      "described_size ((done @ [p]) @ take n ps) \<le> ZPT_MAX_TUNING_DESCRIPTION_PAYLOAD"
      "n < length ps \<longrightarrow> described_size ((done @ [p]) @ take (Suc n) ps) > ZPT_MAX_TUNING_DESCRIPTION_PAYLOAD"
      by auto
    then show ?thesis
      using Cons.prems False size by (intro exI [of _ "Suc n"]) (simp add: Let_def length_parameter_descriptor)
  qed
qed

text \<open>
Property C19. A description of a tuning target whose parameters can all be read is understood by the
host as exactly the target's parameters with their ranges, compiled and current settings and the
first 255 bytes of their label and unit, in order: all of them when they fit the 1024-byte response
(and are at most 255), and otherwise the longest prefix that fits.
\<close>

theorem tuning_description_is_read_back:
  assumes "zpt_tuning_target_get reg t = Some target"
    and "\<forall>p \<in> set (described_parameters target).
      zpt_tuning_get reg w t (param_id p) True = (0, Some (compiled (param_id p))) \<and>
      zpt_tuning_get reg w t (param_id p) False = (0, Some (current (param_id p))) \<and>
      in_i32 (compiled (param_id p)) \<and> in_i32 (current (param_id p)) \<and>
      in_i32 (param_minimum p) \<and> in_i32 (param_maximum p) \<and> in_i32 (param_step p)"
  shows "\<exists>n payload. n \<le> min 255 (length (described_parameters target)) \<and>
    zpt_send_tuning_description reg w t = (ZPT_RESP_TUNING_DESCRIBE, payload) \<and>
    parseTuningDescription payload =
      Some (t, map (\<lambda>p. host_view p (compiled (param_id p)) (current (param_id p))) (take n (described_parameters target))) \<and>
    length payload = described_size (take n (described_parameters target)) \<and> length payload \<le> 1024 \<and>
    (n < min 255 (length (described_parameters target)) \<longrightarrow>
      described_size (take (Suc n) (described_parameters target)) > 1024)"
proof -
  let ?ps = "described_parameters target"
  let ?bytes = "\<lambda>n. concat (map (\<lambda>p. parameter_descriptor p (compiled (param_id p)) (current (param_id p))) (take n ?ps))"
  have readable: "\<forall>p \<in> set (take 255 ?ps). zpt_tuning_get reg w t (param_id p) True = (0, Some (compiled (param_id p))) \<and>
      zpt_tuning_get reg w t (param_id p) False = (0, Some (current (param_id p)))"
    using assms(2) by (meson in_set_takeD)
  obtain n where n: "n \<le> min 255 (length ?ps)" "parameter_descriptors reg w t (take 255 ?ps) 0 [] = Inr (n, ?bytes n)"
      "described_size (take n ?ps) \<le> 1024"
      "n < min 255 (length ?ps) \<longrightarrow> described_size (take (Suc n) ?ps) > 1024"
    using parameter_descriptors_prefix [OF readable, of "[]" "[]" 0]
    by (auto simp: described_size_def min_def take_all_iff split: if_splits)
  let ?payload = "t # of_nat n # ?bytes n"
  have "zpt_send_tuning_description reg w t = (ZPT_RESP_TUNING_DESCRIBE, ?payload)"
    using assms(1) n(2) by (simp add: zpt_send_tuning_description_def)
  moreover have "parseTuningDescription ?payload =
      Some (t, map (\<lambda>p. host_view p (compiled (param_id p)) (current (param_id p))) (take n ?ps))"
  proof -
    have "length (take n ?ps) = n" "unat (of_nat n :: u8) = n" using n(1) by (simp_all add: unat_small)
    then show ?thesis
      using read_parameter_list [of "take n ?ps" compiled current] assms(2)
      by (simp add: parseTuningDescription_def) (metis (no_types, lifting) in_set_takeD)
  qed
  moreover have "length ?payload = described_size (take n ?ps)"
    by (simp add: described_size_def length_concat comp_def length_parameter_descriptor)
  ultimately show ?thesis using n by (intro exI [of _ n] exI [of _ ?payload]) simp
qed


definition demo_parameter :: "u8 \<Rightarrow> string \<Rightarrow> zpt_tuning_parameter" where
  "demo_parameter i label = \<lparr>param_id = i, param_type = 0, param_key = Some label, param_property = Some label,
     param_minimum = - 5, param_maximum = 100, param_step = 5, param_label = Some label, param_unit = Some ''ms'',
     param_description = Some ''''\<rparr>"

definition demo_target :: "int zpt_tuning_target" where
  "demo_target = \<lparr>target_address = 1, target_kind = 4, target_stable_id = Some ''gate'', target_label = Some ''Gate'',
     target_path = Some ''/gate'', target_parameters = Some [demo_parameter 1 ''pause'', demo_parameter 7 ''hold''],
     target_parameter_count = 2, target_get = Some (\<lambda>w p compiled. (0, Some (if compiled then 10 else w))),
     target_set_many = Some (\<lambda>w updates. (0, None, value_new (last updates))), target_reset = Some (\<lambda>w. (0, 10))\<rparr>"

definition demo_registry :: "int tuning_registry" where
  "demo_registry = \<lparr>zpt_tuning_targets = [demo_target], max_targets = 4\<rparr>"

lemmas demo_tuning_defs = demo_parameter_def demo_target_def demo_registry_def

theorem tuning_description_is_read_back_witness:
  "\<exists>payload. zpt_send_tuning_description demo_registry (- 5) 0 = (ZPT_RESP_TUNING_DESCRIBE, payload) \<and>
     parseTuningDescription payload =
       Some (0, [host_view (demo_parameter 1 ''pause'') 10 (- 5), host_view (demo_parameter 7 ''hold'') 10 (- 5)])"
proof -
  have get: "zpt_tuning_target_get demo_registry 0 = Some demo_target"
    by (simp add: zpt_tuning_target_get_def demo_registry_def)
  have ps: "described_parameters demo_target = [demo_parameter 1 ''pause'', demo_parameter 7 ''hold'']"
    by (simp add: demo_target_def described_parameters_def)
  have reads: "zpt_tuning_get demo_registry (- 5) 0 (param_id p) c = (0, Some (if c then 10 else - 5))"
    if "p \<in> set (described_parameters demo_target)" for p c
    using that get ps by (auto simp: zpt_tuning_get_def zpt_tuning_parameter_get_def) (auto simp: demo_tuning_defs)
  have small: "described_size (take (Suc n) (described_parameters demo_target)) \<le> 1024" for n
    unfolding ps by (cases n) (auto simp: described_size_def demo_parameter_def limited_def string_bytes_def take_Cons')
  have "\<exists>n payload. n \<le> min 255 (length (described_parameters demo_target)) \<and>
    zpt_send_tuning_description demo_registry (- 5) 0 = (ZPT_RESP_TUNING_DESCRIBE, payload) \<and>
    parseTuningDescription payload =
      Some (0, map (\<lambda>p. host_view p ((\<lambda>i. 10) (param_id p)) ((\<lambda>i. - 5) (param_id p))) (take n (described_parameters demo_target))) \<and>
    length payload = described_size (take n (described_parameters demo_target)) \<and> length payload \<le> 1024 \<and>
    (n < min 255 (length (described_parameters demo_target)) \<longrightarrow>
      described_size (take (Suc n) (described_parameters demo_target)) > 1024)"
  proof (rule tuning_description_is_read_back [OF get])
    show "\<forall>p \<in> set (described_parameters demo_target).
      zpt_tuning_get demo_registry (- 5) 0 (param_id p) True = (0, Some ((\<lambda>i. 10) (param_id p))) \<and>
      zpt_tuning_get demo_registry (- 5) 0 (param_id p) False = (0, Some ((\<lambda>i. - 5) (param_id p))) \<and>
      in_i32 ((\<lambda>i. 10) (param_id p)) \<and> in_i32 ((\<lambda>i. - 5) (param_id p)) \<and>
      in_i32 (param_minimum p) \<and> in_i32 (param_maximum p) \<and> in_i32 (param_step p)"
      using reads by (auto simp: ps demo_parameter_def)
  qed
  then show ?thesis
    using small by (auto simp: ps not_less [symmetric] elim!: le_SucE)
qed

section \<open>Changes the host asks for\<close>

lemma drop_uniform:
  "\<forall>x \<in> set xs. length (f x) = k \<Longrightarrow> drop (i * k) (concat (map f xs)) = concat (map f (drop i xs))"
proof (induction xs arbitrary: i)
  case (Cons x xs)
  then show ?case by (cases i) simp_all
qed simp

lemma batch_values_read:
  assumes "\<forall>v \<in> set values. in_i32 (value_new v)"
  shows "batch_values ([t, c] @ concat (map (\<lambda>v. value_id v # put_le32 (word_of_int (value_new v))) values)) (length values) = values"
proof (rule nth_equalityI)
  let ?f = "\<lambda>v. value_id v # put_le32 (word_of_int (value_new v))"
  fix i
  assume "i < length (batch_values ([t, c] @ concat (map ?f values)) (length values))"
  then have i: "i < length values" by (simp add: batch_values_def)
  have here: "drop (2 + i * 5) ([t, c] @ concat (map ?f values)) = ?f (values ! i) @ concat (map ?f (drop (Suc i) values))"
    using drop_uniform [of "values" ?f 5 i] i by (simp flip: Cons_nth_drop_Suc)
  have id: "([t, c] @ concat (map ?f values)) ! (2 + i * 5) = value_id (values ! i)"
    using arg_cong [OF here, of hd] i
    by (subst (asm) hd_drop_conv_nth) (auto simp: length_concat comp_def sum_list_triv)
  have new: "drop (2 + i * 5 + 1) ([t, c] @ concat (map ?f values)) =
      put_le32 (word_of_int (value_new (values ! i))) @ concat (map ?f (drop (Suc i) values))"
    using arg_cong [OF here, of tl] by (simp only: tl_drop drop_Suc flip: Suc_eq_plus1) simp
  show "batch_values ([t, c] @ concat (map ?f values)) (length values) ! i = values ! i"
    using i id new assms by (simp only: batch_values_def nth_map_upt Let_def) simp
qed (simp add: batch_values_def)

lemma set_many_request:
  assumes "encodeTuningSetMany t values = Some request" "\<forall>v \<in> set values. in_i32 (value_new v)"
    and "zpt_tuning_set_many reg w t (Some values) = (ret, failed, w')"
  shows "fst request = ZPT_REQ_TUNING_SET_MANY \<and> length (snd request) \<le> ZPT_MAX_REQUEST_PAYLOAD \<and>
    zpt_dispatch_tuning reg w request =
      (Some (zpt_send_tuning_result ZPT_REQ_TUNING_SET_MANY ret t
         (if ret = 0 then NO_ID else case failed of None \<Rightarrow> NO_ID | Some p \<Rightarrow> p)
         (if ret = 0 then int (length values) else 0)), w')"
proof -
  let ?f = "\<lambda>v. value_id v # put_le32 (word_of_int (value_new v))"
  have request: "request = (ZPT_REQ_TUNING_SET_MANY, [t, of_nat (length values)] @ concat (map ?f values))"
    and size: "0 < length values" "length values \<le> 20"
    using assms(1) by (auto simp: encodeTuningSetMany_def split: if_splits)
  have len: "length (concat (map ?f values)) = 5 * length values"
    by (simp add: length_concat comp_def sum_list_triv)
  show ?thesis
    using batch_values_read [OF assms(2), of t "of_nat (length values)"] size len assms(3)
    by (simp add: request zpt_dispatch_tuning_def zpt_handle_tuning_set_many_def unat_small Let_def)
qed

lemma set_request:
  assumes "in_i32 v" "zpt_tuning_set reg w t p v = (ret, w')"
  shows "length (snd (encodeTuningSet t p v)) \<le> ZPT_MAX_REQUEST_PAYLOAD \<and>
    zpt_dispatch_tuning reg w (encodeTuningSet t p v) =
      (let (ret, current) = (if ret = 0 then zpt_tuning_get reg w' t p False else (ret, None))
       in (Some (zpt_send_tuning_result ZPT_REQ_TUNING_SET ret t p (case current of None \<Rightarrow> v | Some c \<Rightarrow> c)), w'))"
  using assms by (simp add: encodeTuningSet_def zpt_dispatch_tuning_def zpt_handle_tuning_set_def Let_def split: prod.splits)

end
