(* ===== verification/Telemetry_Devices.thy ===== *)
theory Telemetry_Devices
  imports Telemetry_Tuning Sensor_Proxy
begin

text \<open>
  The pointing device requests of the host protocol (\<open>service/telemetry.c\<close>) over the device table
  and the sensor-control proxy, and the host's reading of the answers (\<open>web/protocol.js\<close>).

  The state is that of the central half: the proxy and the table. Devices of other halves are
  reached through the split transport; a build without the tunnel (\<open>ZPT_REMOTE_DEVICES\<close> zero) has
  no transport.
\<close>

abbreviation "ZPT_REQ_DEVICE_LIST \<equiv> (0x0d :: u8)"
abbreviation "ZPT_REQ_DEVICE_DESCRIBE \<equiv> (0x0e :: u8)"
abbreviation "ZPT_REQ_DEVICE_PREVIEW \<equiv> (0x0f :: u8)"
abbreviation "ZPT_RESP_DEVICE_LIST \<equiv> (0x8a :: u8)"
abbreviation "ZPT_RESP_DEVICE_DESCRIPTION \<equiv> (0x8b :: u8)"
abbreviation "ZPT_DEVICE_DESCRIPTION_FIXED_SIZE \<equiv> (15 :: nat)"

type_synonym 'd central = "zpt_sensor_proxy_state \<times> 'd half"

section \<open>The handlers\<close>

definition zpt_send_device_result :: "u8 \<Rightarrow> int \<Rightarrow> u8 \<Rightarrow> u16 \<Rightarrow> frame" where
  "zpt_send_device_result request_type error device_id v = zpt_send_tuning_result request_type error 255 device_id (uint v)"

definition device_reachable :: "'e split_transport option \<Rightarrow> zpt_sensor_proxy_state \<Rightarrow> zpt_pointing_device \<Rightarrow> bool" where
  "device_reachable remote proxy device \<longleftrightarrow>
     location device = 0 \<or> remote \<noteq> None \<and> zpt_sensor_control_remote_reachable proxy (Some device)"

definition device_flags :: "bool \<Rightarrow> bool \<Rightarrow> u8" where
  "device_flags a b = (if a then 1 else 0) OR (if b then 2 else 0)"

fun device_entries :: "(zpt_pointing_device \<Rightarrow> bool) \<Rightarrow> zpt_pointing_device list \<Rightarrow> nat \<Rightarrow> u8 list \<Rightarrow> nat \<times> u8 list" where
  "device_entries reached [] i out = (i, out)"
| "device_entries reached (d # ds) i out =
     (let label = limited 255 (Some (dev_stable_id d)) in
      if 1 + length out + 5 + length label > ZPT_MAX_DESCRIBE_PAYLOAD then (i, out)
      else device_entries reached ds (i + 1)
        (out @ [dev_id d, location d, device_flags (reached d) (settable (caps d)), of_nat (length label)] @ label))"

definition zpt_send_device_list :: "'e split_transport option \<Rightarrow> 'd central \<Rightarrow> frame" where
  "zpt_send_device_list remote central =
     (let (proxy, half) = central;
          count = min (zpt_device_table_count half) 255;
          (listed, out) = device_entries (device_reachable remote proxy) (take count (entries half)) 0 []
      in (ZPT_RESP_DEVICE_LIST, of_nat listed # out))"

text \<open>The resolutions after the flags byte, for a payload of \<open>offset\<close> bytes so far.\<close>

definition capability_bytes :: "zpt_cpi_capabilities \<Rightarrow> nat \<Rightarrow> u8 list" where
  "capability_bytes c offset =
     (if settable c \<and> discrete c then
        let supported_values = (case list_values c of None \<Rightarrow> [] | Some vs \<Rightarrow> vs);
            n = min (length supported_values) ((ZPT_MAX_DESCRIBE_PAYLOAD - offset - 1) div 2)
        in of_nat n # concat (map put_le16 (take n supported_values))
      else if settable c then
        0 # put_le16 (range_min c) @ put_le16 (range_max c) @ put_le16 (range_step c)
      else [])"

definition device_description :: "zpt_pointing_device \<Rightarrow> u16 \<Rightarrow> bool \<Rightarrow> u8 list" where
  "device_description d current stale =
     (let stable_id = limited 255 (Some (dev_stable_id d)); path = limited 65535 (Some (dev_devicetree_path d));
          fields = of_nat (length stable_id) # stable_id @ put_le16 (of_nat (length path)) @ path @
            put_le16 current @ put_le16 (default_cpi d) @ [device_flags (settable (caps d)) stale]
      in fields @ capability_bytes (caps d) (length fields))"

text \<open>The answer, the central half left, and the other halves left.\<close>

definition zpt_send_device_description :: "'e split_transport option \<Rightarrow> u8 \<Rightarrow> 'd central \<Rightarrow> 'e \<Rightarrow> frame \<times> 'd central \<times> 'e" where
  "zpt_send_device_description remote device_id central world =
     (case zpt_device_table_at (snd central) (unat device_id) of
        None \<Rightarrow> (zpt_send_device_result ZPT_REQ_DEVICE_DESCRIBE (- ENODEV) device_id 0, central, world)
      | Some d \<Rightarrow>
          if ZPT_DEVICE_DESCRIPTION_FIXED_SIZE + length (limited 255 (Some (dev_stable_id d))) +
             length (limited 65535 (Some (dev_devicetree_path d))) > ZPT_MAX_DESCRIBE_PAYLOAD
          then (zpt_send_device_result ZPT_REQ_DEVICE_DESCRIBE (- ENOSPC) device_id 0, central, world)
          else
            let (ret, current, stale, central, world) =
              (case (if location d \<noteq> 0 then remote else None) of
                 Some transport \<Rightarrow>
                   let (got, current, central, world) = zpt_sensor_control_get_remote transport d central world
                   in (0, current, got < 0, central, world)
               | None \<Rightarrow>
                   let (ret, current, half) = zpt_device_control_get (Some d) (snd central)
                   in (ret, case current of None \<Rightarrow> 0 | Some v \<Rightarrow> v, False, (fst central, half), world))
            in if ret < 0 then (zpt_send_device_result ZPT_REQ_DEVICE_DESCRIBE ret device_id 0, central, world)
               else ((ZPT_RESP_DEVICE_DESCRIPTION, device_description d current stale), central, world))"

definition zpt_handle_device_preview :: "'e split_transport option \<Rightarrow> u8 list \<Rightarrow> 'd central \<Rightarrow> 'e \<Rightarrow> frame \<times> 'd central \<times> 'e" where
  "zpt_handle_device_preview remote payload central world =
     (if length payload \<noteq> 3
      then (zpt_send_device_result ZPT_REQ_DEVICE_PREVIEW (- EINVAL) 255 0, central, world)
      else
        let requested = ucast (payload ! 1) OR push_bit 8 (ucast (payload ! 2)) in
        case zpt_device_table_at (snd central) (unat (payload ! 0)) of
          None \<Rightarrow> (zpt_send_device_result ZPT_REQ_DEVICE_PREVIEW (- ENODEV) (payload ! 0) 0, central, world)
        | Some d \<Rightarrow>
            if location d \<noteq> 0 then
              (case remote of
                 Some transport \<Rightarrow>
                   let (ret, effective, central, world) =
                     zpt_sensor_control_preview_remote transport d requested central world
                   in (zpt_send_device_result ZPT_REQ_DEVICE_PREVIEW (if ret < 0 then ret else 0) (payload ! 0)
                         (case effective of None \<Rightarrow> 0 | Some v \<Rightarrow> v), central, world)
               | None \<Rightarrow> (zpt_send_device_result ZPT_REQ_DEVICE_PREVIEW (- ENOSYS) (payload ! 0) 0, central, world))
            else
              let (ret, effective, half) = zpt_device_control_preview (Some d) requested (snd central)
              in (zpt_send_device_result ZPT_REQ_DEVICE_PREVIEW (if ret < 0 then ret else 0) (payload ! 0)
                    (case effective of None \<Rightarrow> 0 | Some v \<Rightarrow> v), (fst central, half), world))"

definition zpt_is_device_request :: "u8 \<Rightarrow> bool" where
  "zpt_is_device_request type \<longleftrightarrow> type \<in> {ZPT_REQ_DEVICE_LIST, ZPT_REQ_DEVICE_DESCRIBE, ZPT_REQ_DEVICE_PREVIEW}"

definition zpt_dispatch_device :: "'e split_transport option \<Rightarrow> frame \<Rightarrow> 'd central \<Rightarrow> 'e \<Rightarrow> frame \<times> 'd central \<times> 'e" where
  "zpt_dispatch_device remote request central world =
     (let (type, payload) = request in
      if type = ZPT_REQ_DEVICE_LIST then (zpt_send_device_list remote central, central, world)
      else if type = ZPT_REQ_DEVICE_DESCRIBE then
        (if length payload = 1 then zpt_send_device_description remote (payload ! 0) central world
         else (zpt_send_device_result type (- EINVAL) 255 0, central, world))
      else zpt_handle_device_preview remote payload central world)"


section \<open>What the host reads\<close>

datatype host_resolutions = NotSettable | SupportedValues "u16 list" | SupportedRange u16 u16 u16

record host_device =
  hd_stable_id :: "u8 list"
  hd_path :: "u8 list"
  hd_current :: u16
  hd_default :: u16
  hd_stale :: bool
  hd_resolutions :: host_resolutions

definition read_resolutions :: "u8 list \<Rightarrow> host_resolutions option" where
  "read_resolutions bytes =
     (if length bytes < 1 then None
      else
        let count = unat (bytes ! 0); bytes = drop 1 bytes in
        if count > 0 then
          if length bytes < count * 2 then None
          else Some (SupportedValues (map (\<lambda>i. get_le16 (drop (i * 2) bytes)) [0..<count]))
        else if length bytes < 6 then None
        else Some (SupportedRange (get_le16 bytes) (get_le16 (drop 2 bytes)) (get_le16 (drop 4 bytes))))"

definition parseDeviceDescription :: "u8 list \<Rightarrow> host_device option" where
  "parseDeviceDescription bytes =
     (if length bytes < 1 then None
      else
        let n = unat (bytes ! 0); bytes = drop 1 bytes in
        if length bytes < n then None
        else
          let stable_id = take n bytes; bytes = drop n bytes in
          if length bytes < 2 then None
          else
            let m = unat (get_le16 bytes); bytes = drop 2 bytes in
            if length bytes < m then None
            else
              let path = take m bytes; bytes = drop m bytes in
              if length bytes < 5 then None
              else
                let flags = bytes ! 4;
                    device = \<lparr>hd_stable_id = stable_id, hd_path = path, hd_current = get_le16 bytes,
                      hd_default = get_le16 (drop 2 bytes), hd_stale = (flags AND 2 \<noteq> 0), hd_resolutions = NotSettable\<rparr>
                in if flags AND 1 = 0 then Some device
                   else map_option (\<lambda>r. device\<lparr>hd_resolutions := r\<rparr>) (read_resolutions (drop 5 bytes)))"

definition encodeDevicePreview :: "u8 \<Rightarrow> u16 \<Rightarrow> frame" where
  "encodeDevicePreview device_id cpi = (ZPT_REQ_DEVICE_PREVIEW, [device_id, ucast (cpi AND 0xff), ucast (drop_bit 8 cpi AND 0xff)])"

lemma device_flags_bits [simp]: "(device_flags a b AND 1 = 0) = (\<not> a)" "(device_flags a b AND 2 = 0) = (\<not> b)"
  by (cases a; cases b; simp add: device_flags_def)+

lemma unat_small16: "n < 65536 \<Longrightarrow> unat (of_nat n :: u16) = n"
  by (simp add: unat_of_nat)

lemma map_get_le16: "map (\<lambda>i. get_le16 (drop (i * 2) (concat (map put_le16 vs)))) [0..<length vs] = vs"
proof (rule nth_equalityI)
  fix i assume "i < length (map (\<lambda>i. get_le16 (drop (i * 2) (concat (map put_le16 vs)))) [0..<length vs])"
  then have i: "i < length vs" by simp
  have "drop (i * 2) (concat (map put_le16 vs)) = put_le16 (vs ! i) @ concat (map put_le16 (drop (Suc i) vs))"
    using drop_uniform [of vs put_le16 2 i] i by (simp flip: Cons_nth_drop_Suc)
  then show "map (\<lambda>i. get_le16 (drop (i * 2) (concat (map put_le16 vs)))) [0..<length vs] ! i = vs ! i"
    using i by simp
qed simp

text \<open>What the host learns about the resolutions of a device, with room for \<open>n\<close> values.\<close>

definition resolutions_of :: "zpt_cpi_capabilities \<Rightarrow> nat \<Rightarrow> host_resolutions" where
  "resolutions_of c n =
     (if \<not> settable c then NotSettable
      else if discrete c then SupportedValues (take n (the (list_values c)))
      else SupportedRange (range_min c) (range_max c) (range_step c))"

lemma read_capability_bytes:
  assumes "caps_ok c" "offset \<le> 505" "8 \<le> offset"
  shows "read_resolutions (capability_bytes c offset) = Some (resolutions_of c ((512 - offset - 1) div 2)) \<and>
    offset + length (capability_bytes c offset) \<le> 512"
proof (cases "discrete c")
  case True
  then obtain vs where vs: "list_values c = Some vs" "vs \<noteq> []" using assms(1) by (auto simp: caps_ok_def)
  define room where "room = (512 - offset - 1) div 2"
  define m where "m = min (length vs) room"
  have room: "0 < room" "room < 256" "offset + 1 + 2 * room \<le> 512" using assms(2,3) by (auto simp: room_def)
  have m: "0 < m" "m < 256" "m \<le> length vs" "offset + 1 + 2 * m \<le> 512" "take m vs = take room vs"
    using room vs(2) by (auto simp: m_def min_def)
  have bytes: "capability_bytes c offset = of_nat m # concat (map put_le16 (take m vs))"
    using True assms(1) vs(1) by (simp add: capability_bytes_def caps_ok_def m_def room_def Let_def)
  have count: "unat (of_nat m :: u8) = m" using m(2) by (rule unat_small)
  have len: "length (concat (map put_le16 (take m vs))) = m * 2"
    using m(3) by (simp add: length_concat comp_def sum_list_triv)
  have "read_resolutions (capability_bytes c offset) = Some (SupportedValues (take m vs))"
    using map_get_le16 [of "take m vs"] m(1,3) len by (simp add: read_resolutions_def bytes count)
  then show ?thesis
    using True assms(1) vs(1) m(4,5) len by (simp add: resolutions_of_def caps_ok_def bytes room_def)
next
  case False
  then show ?thesis
    using assms by (simp add: read_resolutions_def capability_bytes_def resolutions_of_def caps_ok_def Let_def)
qed

lemma parse_device_description:
  assumes "settable (caps d) \<Longrightarrow> caps_ok (caps d)"
    and "15 + length (limited 255 (Some (dev_stable_id d))) + length (limited 65535 (Some (dev_devicetree_path d))) \<le> 512"
  defines "room \<equiv> (512 - (8 + length (limited 255 (Some (dev_stable_id d))) + length (limited 65535 (Some (dev_devicetree_path d)))) - 1) div 2"
  shows "parseDeviceDescription (device_description d current stale) =
      Some \<lparr>hd_stable_id = limited 255 (Some (dev_stable_id d)), hd_path = limited 65535 (Some (dev_devicetree_path d)),
        hd_current = current, hd_default = default_cpi d, hd_stale = stale, hd_resolutions = resolutions_of (caps d) room\<rparr> \<and>
    length (device_description d current stale) \<le> 512"
proof -
  let ?id = "limited 255 (Some (dev_stable_id d))" and ?path = "limited 65535 (Some (dev_devicetree_path d))"
  have lengths: "unat (of_nat (length ?id) :: u8) = length ?id" "unat (of_nat (length ?path) :: u16) = length ?path"
    using length_limited [of 255 "Some (dev_stable_id d)"] length_limited [of 65535 "Some (dev_devicetree_path d)"]
    by (simp_all add: unat_small unat_small16)
  let ?caps = "capability_bytes (caps d) (8 + length ?id + length ?path)"
  have head: "device_description d current stale = of_nat (length ?id) # ?id @ put_le16 (of_nat (length ?path)) @ ?path @
      put_le16 current @ put_le16 (default_cpi d) @ device_flags (settable (caps d)) stale # ?caps"
    by (simp add: device_description_def Let_def add.assoc)
  have parsed: "parseDeviceDescription (device_description d current stale) =
      (let device = \<lparr>hd_stable_id = ?id, hd_path = ?path, hd_current = current, hd_default = default_cpi d,
         hd_stale = stale, hd_resolutions = NotSettable\<rparr>
       in if \<not> settable (caps d) then Some device
          else map_option (\<lambda>r. device\<lparr>hd_resolutions := r\<rparr>) (read_resolutions ?caps))"
    unfolding head by (simp add: parseDeviceDescription_def lengths Let_def nth_append)
  have len: "length (device_description d current stale) = 8 + length ?id + length ?path + length ?caps"
    unfolding head by simp
  show ?thesis
  proof (cases "settable (caps d)")
    case False
    then have "?caps = []" by (simp add: capability_bytes_def)
    then show ?thesis using False parsed len assms(2) by (simp add: resolutions_of_def)
  next
    case True
    show ?thesis
      using read_capability_bytes [OF assms(1) [OF True], of "8 + length ?id + length ?path"] True parsed len assms(2)
      by (simp add: room_def)
  qed
qed


text \<open>
The description of a pointing device that is not settable or has well-formed capabilities
is understood by the host as the strings, the compiled and the supported resolutions of the device
(a list cut to exactly the values that fit the 512-byte response behind the rest), and its current
resolution: for a device of the central half or one whose half answers, what the half
reports; for one whose half does not answer, the last value known, and only then marked as stale.
\<close>

theorem device_description_is_read_back:
  assumes "zpt_device_table_at (snd central) (unat device_id) = Some d"
    and "zpt_send_device_description remote device_id central world = ((ZPT_RESP_DEVICE_DESCRIPTION, payload), central', world')"
    and "settable (caps d) \<Longrightarrow> caps_ok (caps d)"
  shows "\<exists>host. parseDeviceDescription payload = Some host \<and> length payload \<le> 512 \<and>
    hd_stable_id host = limited 255 (Some (dev_stable_id d)) \<and> hd_path host = limited 65535 (Some (dev_devicetree_path d)) \<and>
    hd_default host = default_cpi d \<and> hd_resolutions host = resolutions_of (caps d)
      ((503 - length (limited 255 (Some (dev_stable_id d))) - length (limited 65535 (Some (dev_devicetree_path d)))) div 2) \<and>
    (if location d = 0 \<or> remote = None
     then \<not> hd_stale host \<and> central' = (fst central, snd (snd (zpt_device_control_get (Some d) (snd central)))) \<and>
       (\<forall>v. fst (snd (zpt_device_control_get (Some d) (snd central))) = Some v \<longrightarrow> hd_current host = v)
     else \<exists>got. zpt_sensor_control_get_remote (the remote) d central world = (got, hd_current host, central', world') \<and>
       (hd_stale host = (got < 0)) \<and>
       (hd_stale host \<longrightarrow> snd central' = snd central \<and> hd_current host = zpt_device_current_cpi (snd central) (Some d)))"
proof -
  have fits: "15 + length (limited 255 (Some (dev_stable_id d))) + length (limited 65535 (Some (dev_devicetree_path d))) \<le> 512"
    using assms(1,2) by (auto simp: zpt_send_device_description_def zpt_send_device_result_def zpt_send_tuning_result_def
        split: if_splits)
  have room: "512 - (8 + a + b) - 1 = 503 - a - b" for a b :: nat by simp
  note parse = parse_device_description [OF assms(3) fits, unfolded room]
  show ?thesis
  proof (cases "location d = 0 \<or> remote = None")
    case True
    obtain ret current half where g: "zpt_device_control_get (Some d) (snd central) = (ret, current, half)"
      by (cases "zpt_device_control_get (Some d) (snd central)")
    have "payload = device_description d (case current of None \<Rightarrow> 0 | Some v \<Rightarrow> v) False" "central' = (fst central, half)"
      using assms(1,2) fits True g
      by (auto simp: zpt_send_device_description_def zpt_send_device_result_def zpt_send_tuning_result_def
          split: if_splits option.splits)
    then show ?thesis using True g parse [of "case current of None \<Rightarrow> 0 | Some v \<Rightarrow> v" False] by auto
  next
    case False
    then obtain transport where remote: "remote = Some transport" "location d \<noteq> 0" by auto
    obtain got current cen wor where g: "zpt_sensor_control_get_remote transport d central world = (got, current, cen, wor)"
      by (cases "zpt_sensor_control_get_remote transport d central world")
    have "payload = device_description d current (got < 0)" "central' = cen" "world' = wor"
      using assms(1,2) fits remote g by (auto simp: zpt_send_device_description_def)
    moreover have "snd cen = snd central \<and> current = zpt_device_current_cpi (snd central) (Some d)" if "got < 0"
      using g that by (cases central) (auto simp: zpt_sensor_control_get_remote_def Let_def split: prod.splits if_splits)
    ultimately show ?thesis using remote g parse [of current "got < 0"] by auto
  qed
qed

lemma encode_preview_request:
  "ucast (snd (encodeDevicePreview i cpi) ! 1) OR push_bit 8 (ucast (snd (encodeDevicePreview i cpi) ! 2)) = cpi"
proof -
  have "ucast (drop_bit 8 cpi AND 0xff) = (ucast (drop_bit 8 cpi) :: u8)"
    by (rule bit_word_eqI) (auto simp: masks_take_bit bit_simps)
  then show ?thesis using header_length [of cpi] by (simp add: encodeDevicePreview_def)
qed

lemma status_ok_iff: "(zpt_tuning_status_from_errno error = STATUS_OK) = (error = 0)"
  by (simp add: zpt_tuning_status_from_errno_def)

text \<open>
Property C16. Over a split link that may lose the request or the response and deliver answers to older
requests, the host's request to change the resolution of a device of the other half, with well-formed
capabilities that do not include 0, is answered with its own result: either with success and a supported resolution that both halves have
recorded, or with an error and the central half's record as it was.
\<close>

theorem host_preview_agrees_on_both_halves:
  assumes "table_ok peripheral" "device_at peripheral i d" "location d \<noteq> 0" "caps_ok (caps d)" "\<not> supported (caps d) 0"
    and "table_ok central" "device_at central i c" "location c \<noteq> 0"
    and "\<forall>e \<in> set (events_before fault @ events_after fault). foreign (fst (zpt_scw_session_begin (px_session proxy))) e"
    and "zpt_dispatch_device (Some (faulty_link fault)) (encodeDevicePreview (dev_id c) requested) (proxy, central) peripheral =
      (answer, (proxy', central'), peripheral')"
  shows "fst answer = ZPT_RESP_TUNING_RESULT \<and> (\<exists>result. parseTuningResult (snd answer) = Some result \<and>
    hr_request result = ZPT_REQ_DEVICE_PREVIEW \<and> hr_parameter result = dev_id c \<and>
    (if hr_status result = STATUS_OK
     then \<exists>v. hr_value result = uint v \<and> supported (caps d) v \<and> zpt_device_current_cpi peripheral' (Some d) = v \<and>
       zpt_device_current_cpi central' (Some c) = v
     else central' = central))"
proof -
  let ?transport = "faulty_link fault"
  obtain ret effective proxy2 central2 peripheral2 where p:
    "zpt_sensor_control_preview_remote ?transport c requested (proxy, central) peripheral =
      (ret, effective, (proxy2, central2), peripheral2)"
    by (metis prod.exhaust)
  note agreed = remote_preview_agrees [OF assms(1-9) p]
  let ?v = "case effective of None \<Rightarrow> 0 | Some v \<Rightarrow> v"
  have at: "zpt_device_table_at central (unat (dev_id c)) = Some c" using table_at_id assms(6,7) by blast
  have "zpt_dispatch_device (Some ?transport) (encodeDevicePreview (dev_id c) requested) (proxy, central) peripheral =
      (zpt_send_device_result ZPT_REQ_DEVICE_PREVIEW (if ret < 0 then ret else 0) (dev_id c) ?v, (proxy2, central2), peripheral2)"
    using at assms(8) p encode_preview_request [of "dev_id c" requested]
    by (simp add: zpt_dispatch_device_def zpt_handle_device_preview_def encodeDevicePreview_def)
  then have run: "answer = zpt_send_device_result ZPT_REQ_DEVICE_PREVIEW (if ret < 0 then ret else 0) (dev_id c) ?v"
    "central' = central2" "peripheral' = peripheral2" using assms(10) by auto
  have "uint ?v \<le> 65535" "0 \<le> uint ?v" by (rule uint_bounds)+
  then have "in_i32 (uint ?v)" by (simp only: in_i32_def) arith
  note seen = parse_result [OF this, of ZPT_REQ_DEVICE_PREVIEW "if ret < 0 then ret else 0" 255 "dev_id c"]
  show ?thesis
    using agreed seen by (auto simp: run zpt_send_device_result_def status_ok_iff split: if_splits)
qed


definition demo_central :: "u16 central" where
  "demo_central = (sample_proxy, sample_half None)"

theorem device_description_is_read_back_witness:
  "let ((type, payload), central', world') =
         zpt_send_device_description (Some (faulty_link sample_fault)) 0 demo_central (sample_half (Some 7))
   in type = ZPT_RESP_DEVICE_DESCRIPTION \<and>
     map_option hd_default (parseDeviceDescription payload) = Some 800 \<and> length payload \<le> 512"
proof -
  let ?d = "sample_device None"
  let ?run = "zpt_send_device_description (Some (faulty_link sample_fault)) 0 demo_central (sample_half (Some 7))"
  have here: "zpt_device_table_at (snd demo_central) (unat (0 :: u8)) = Some ?d"
    by (simp add: demo_central_def sample_half_def zpt_device_table_at_def)
  have ok: "settable (caps ?d) \<Longrightarrow> caps_ok (caps ?d)" using sample_caps_ok by (simp add: sample_device_def)
  have "fst (fst ?run) = ZPT_RESP_DEVICE_DESCRIPTION"
    using here by (simp add: zpt_send_device_description_def split: prod.splits)
      (simp add: sample_device_def limited_def string_bytes_def)
  then obtain payload central' world' where run: "?run = ((ZPT_RESP_DEVICE_DESCRIPTION, payload), central', world')"
    by (metis prod.collapse)
  have "default_cpi ?d = 800" by (simp add: sample_device_def)
  with device_description_is_read_back [OF here run ok] run show ?thesis by auto
qed

theorem host_preview_agrees_on_both_halves_witness:
  "let (answer, (proxy', central'), peripheral') =
         zpt_dispatch_device (Some (faulty_link sample_fault)) (encodeDevicePreview (dev_id (sample_device None)) 1240)
           (sample_proxy, sample_half None) (sample_half (Some 7))
   in zpt_device_current_cpi central' (Some (sample_device None)) =
        zpt_device_current_cpi peripheral' (Some (sample_device (Some 7))) \<and>
      map_option hr_status (parseTuningResult (snd answer)) = Some STATUS_OK"
proof -
  let ?run = "zpt_dispatch_device (Some (faulty_link sample_fault)) (encodeDevicePreview (dev_id (sample_device None)) 1240)
      (sample_proxy, sample_half None) (sample_half (Some 7))"
  obtain answer proxy' central' peripheral' where r: "?run = (answer, (proxy', central'), peripheral')" by (metis prod.exhaust)
  have stale: "foreign (fst (zpt_scw_session_begin (px_session sample_proxy))) e"
    if "e \<in> set (events_before sample_fault @ events_after sample_fault)" for e
    using that response_round_trip [of 0 4 900]
    by (auto simp: foreign_def sample_fault_def sample_proxy_def zpt_scw_session_init_def zpt_scw_session_begin_def)
  have d: "location (sample_device s) \<noteq> 0" "caps_ok (caps (sample_device s))" "\<not> supported (caps (sample_device s)) 0" for s
    using sample_caps_ok by (simp_all add: sample_device_def) (simp add: sample_caps_def supported_def)
  have "map_option hr_status (parseTuningResult (snd (fst ?run))) = Some STATUS_OK" by code_simp
  with host_preview_agrees_on_both_halves [OF sample_half_ok [of "Some 7"] d(1-3) sample_half_ok [of None] d(1) _ r] stale
  show ?thesis by (auto simp: r)
qed

end
