(* ===== verification/Host_Transport.thy ===== *)
theory Host_Transport
  imports Telemetry_Frame
begin

text \<open>
  The byte links of the host protocol: \<open>service/host_transport.h\<close>, the serial port
  (\<open>service/transport/uart.c\<close>) and Bluetooth GATT (\<open>service/transport/gatt.c\<close>), and the loop
  of the protocol worker that feeds received bytes to a link's parser (\<open>zpt_receive\<close> of
  \<open>service/telemetry.c\<close>).

  The interrupt controller and the Bluetooth stack are outside the repository. A link's state holds
  what the far end has received, and for Bluetooth what the stack answers next. A ring buffer is
  the list of its bytes. The model of a wait is that it ends, as the code's comment says, by a
  completion or by a disconnect.
\<close>

section \<open>The interface\<close>

record 'l zpt_host_transport =
  ht_send :: "u8 list \<Rightarrow> u8 list \<Rightarrow> bool \<Rightarrow> 'l \<Rightarrow> int \<times> 'l"
  ht_has_room :: "('l \<Rightarrow> bool) option"

definition zpt_send_frame_on_link :: "'l zpt_host_transport \<Rightarrow> frame \<Rightarrow> bool \<Rightarrow> 'l \<Rightarrow> int \<times> 'l" where
  "zpt_send_frame_on_link link f droppable l =
     ht_send link (frame_header (fst f) (of_nat (length (snd f)))) (snd f) droppable l"

text \<open>
  What a link promises: a frame it accepts reaches the host whole, after everything before it; one
  it refuses leaves no byte, unless the link went down in the middle of it.
\<close>

locale host_link =
  fixes link :: "'l zpt_host_transport" and usable :: "'l \<Rightarrow> bool" and received :: "'l \<Rightarrow> u8 list" and cut :: "'l \<Rightarrow> bool"
  assumes usable_stays: "ht_send link h p d l = (ret, l') \<Longrightarrow> usable l \<Longrightarrow> usable l'"
    and accepted: "ht_send link h p d l = (ret, l') \<Longrightarrow> usable l \<Longrightarrow> 0 \<le> ret \<Longrightarrow> received l' = received l @ h @ p"
    and refused: "ht_send link h p d l = (ret, l') \<Longrightarrow> usable l \<Longrightarrow> ret < 0 \<Longrightarrow> \<not> cut l' \<Longrightarrow> received l' = received l"
    and cut_stays: "ht_send link h p d l = (ret, l') \<Longrightarrow> usable l \<Longrightarrow> cut l \<Longrightarrow> cut l'"
begin

text \<open>A usable link on which the host has received the frames \<open>fs\<close> and nothing else.\<close>

definition carried :: "'l \<Rightarrow> frame list \<Rightarrow> bool" where
  "carried l fs \<longleftrightarrow> usable l \<and> received l = concat (map encode_frame fs)"

lemma carried_send:
  assumes "carried l fs" "zpt_send_frame_on_link link f d l = (ret, l')" "\<not> cut l'"
  shows "carried l' (if 0 \<le> ret then fs @ [f] else fs)"
  using assms accepted refused usable_stays
  by (simp add: carried_def zpt_send_frame_on_link_def encode_frame_def)

lemma cut_send: "zpt_send_frame_on_link link f d l = (ret, l') \<Longrightarrow> carried l fs \<Longrightarrow> \<not> cut l' \<Longrightarrow> \<not> cut l"
  using cut_stays by (auto simp: zpt_send_frame_on_link_def carried_def)

lemma carried_decodes:
  assumes "carried l fs" "list_all (\<lambda>f. length (snd f) < 65536) fs"
  shows "decode_frames (received l) = (fs, [])"
  using assms decode_frame_list [of fs] by (simp add: carried_def list_all_iff)

end

section \<open>The serial port\<close>

text \<open>The state is what the port has put out; \<open>uart_poll_out\<close> blocks until the byte is queued.\<close>

definition zpt_uart_send :: "u8 list \<Rightarrow> u8 list \<Rightarrow> bool \<Rightarrow> u8 list \<Rightarrow> int \<times> u8 list" where
  "zpt_uart_send header payload droppable out = (0, out @ header @ payload)"

definition zpt_uart_transport :: "u8 list zpt_host_transport" where
  "zpt_uart_transport = \<lparr>ht_send = zpt_uart_send, ht_has_room = None\<rparr>"

interpretation uart: host_link zpt_uart_transport "\<lambda>out. True" "\<lambda>out. out" "\<lambda>out. False"
  by unfold_locales (auto simp: zpt_uart_transport_def zpt_uart_send_def)

text \<open>The receive interrupt: each read of at most 32 bytes goes into the ring as far as it fits.\<close>

definition ring_put :: "nat \<Rightarrow> u8 list \<Rightarrow> u8 list \<Rightarrow> u8 list" where
  "ring_put capacity bytes ring = ring @ take (capacity - length ring) bytes"

fun zpt_uart_callback :: "nat \<Rightarrow> u8 list list \<Rightarrow> u8 list \<Rightarrow> u8 list" where
  "zpt_uart_callback capacity [] ring = ring"
| "zpt_uart_callback capacity (bytes # reads) ring =
     (if bytes = [] then ring else zpt_uart_callback capacity reads (ring_put capacity bytes ring))"

section \<open>Bluetooth\<close>

text \<open>
  What the stack does when a notification is about to be sent: how many earlier ones complete, or
  the connection ends; and what the stack returns for it.
\<close>

datatype gatt_wait = Completions nat | Disconnect

record zpt_gatt =
  gatt_conn :: "nat option"
  gatt_rx_ring :: "u8 list"
  gatt_rx_reset :: bool
  gatt_credits :: nat
  gatt_tx_credits :: nat
  gatt_chunk_max :: nat
  gatt_subscribed :: "nat \<Rightarrow> bool"
  gatt_mtu :: "nat \<Rightarrow> nat"
  gatt_stack :: "(gatt_wait \<times> int) list"
  gatt_notified :: "u8 list"
  gatt_cut :: bool

abbreviation (input) ENOTCONN :: int where "ENOTCONN \<equiv> 128"
abbreviation (input) EPIPE :: int where "EPIPE \<equiv> 32"
abbreviation (input) ENOBUFS :: int where "ENOBUFS \<equiv> 105"
abbreviation (input) ATT_ERR_AUTHENTICATION :: int where "ATT_ERR_AUTHENTICATION \<equiv> 5"
abbreviation (input) ATT_ERR_INVALID_OFFSET :: int where "ATT_ERR_INVALID_OFFSET \<equiv> 7"
abbreviation (input) ATT_ERR_INSUFFICIENT_RESOURCES :: int where "ATT_ERR_INSUFFICIENT_RESOURCES \<equiv> 17"
abbreviation (input) GATT_RX_SIZE :: nat where "GATT_RX_SIZE \<equiv> 256"
abbreviation (input) ATT_NOTIFY_OVERHEAD :: nat where "ATT_NOTIFY_OVERHEAD \<equiv> 3"

subsection \<open>Receiving\<close>

definition zpt_gatt_set_conn :: "nat option \<Rightarrow> zpt_gatt \<Rightarrow> zpt_gatt" where
  "zpt_gatt_set_conn conn g = g\<lparr>gatt_conn := conn\<rparr>"

definition zpt_gatt_write :: "(nat \<Rightarrow> bool) \<Rightarrow> nat \<Rightarrow> u8 list \<Rightarrow> nat \<Rightarrow> zpt_gatt \<Rightarrow> int \<times> zpt_gatt" where
  "zpt_gatt_write bonded conn buf offset g =
     (if \<not> bonded conn then (- ATT_ERR_AUTHENTICATION, g)
      else if offset \<noteq> 0 then (- ATT_ERR_INVALID_OFFSET, g)
      else if GATT_RX_SIZE - length (gatt_rx_ring g) < length buf then (- ATT_ERR_INSUFFICIENT_RESOURCES, g)
      else
        let g = (if gatt_conn g \<noteq> Some conn then zpt_gatt_set_conn (Some conn) (g\<lparr>gatt_rx_reset := True\<rparr>) else g)
        in (int (length buf), g\<lparr>gatt_rx_ring := ring_put GATT_RX_SIZE buf (gatt_rx_ring g)\<rparr>))"

definition zpt_gatt_ccc_write :: "u16 \<Rightarrow> zpt_gatt \<Rightarrow> zpt_gatt" where
  "zpt_gatt_ccc_write v g = (if v AND 1 \<noteq> 0 then g\<lparr>gatt_rx_reset := True\<rparr> else g)"

definition zpt_gatt_disconnected :: "nat \<Rightarrow> zpt_gatt \<Rightarrow> zpt_gatt" where
  "zpt_gatt_disconnected conn g =
     (if gatt_conn g \<noteq> Some conn then g
      else (zpt_gatt_set_conn None g)\<lparr>gatt_credits := gatt_tx_credits g\<rparr>)"

subsection \<open>Sending\<close>

definition zpt_gatt_sent :: "nat \<Rightarrow> zpt_gatt \<Rightarrow> zpt_gatt" where
  "zpt_gatt_sent completions g = g\<lparr>gatt_credits := min (gatt_tx_credits g) (gatt_credits g + completions)\<rparr>"

definition zpt_gatt_gather :: "nat \<Rightarrow> nat \<Rightarrow> u8 list \<Rightarrow> u8 list \<Rightarrow> u8 list" where
  "zpt_gatt_gather offset len header payload =
     map (\<lambda>i. let position = offset + i
              in if position < length header then header ! position else payload ! (position - length header)) [0..<len]"

text \<open>\<open>k_sem_take\<close>: false when a disconnect ended the wait.\<close>

definition take_credit :: "nat \<Rightarrow> gatt_wait \<Rightarrow> zpt_gatt \<Rightarrow> bool \<times> zpt_gatt" where
  "take_credit conn wait g =
     (case wait of
        Completions n \<Rightarrow>
          let g = zpt_gatt_sent (if gatt_credits g = 0 then max 1 n else n) g
          in (True, g\<lparr>gatt_credits := gatt_credits g - 1\<rparr>)
      | Disconnect \<Rightarrow>
          let left = zpt_gatt_disconnected conn g
          in if gatt_credits g > 0 then (True, left\<lparr>gatt_credits := gatt_credits left - 1\<rparr>) else (False, left))"

fun next_answer :: "(gatt_wait \<times> int) list \<Rightarrow> (gatt_wait \<times> int) \<times> (gatt_wait \<times> int) list" where
  "next_answer [] = ((Completions 1, 0), [])"
| "next_answer (a # as) = (a, as)"

fun notify_chunks :: "nat \<Rightarrow> nat list \<Rightarrow> nat \<Rightarrow> u8 list \<Rightarrow> u8 list \<Rightarrow> zpt_gatt \<Rightarrow> int \<times> zpt_gatt" where
  "notify_chunks conn [] chunk_size header payload g = (0, g)"
| "notify_chunks conn (offset # offsets) chunk_size header payload g =
     (let ((wait, answer), answers) = next_answer (gatt_stack g);
          (taken, g) = take_credit conn wait (g\<lparr>gatt_stack := answers\<rparr>)
      in if \<not> taken then (- ENOTCONN, g\<lparr>gatt_cut := gatt_cut g \<or> offset > 0\<rparr>)
         else
           let len = min chunk_size (length header + length payload - offset);
               chunk = zpt_gatt_gather offset len header payload
           in if answer < 0 then (answer, (zpt_gatt_sent 1 g)\<lparr>gatt_cut := gatt_cut g \<or> offset > 0\<rparr>)
              else notify_chunks conn offsets chunk_size header payload
                (g\<lparr>gatt_notified := gatt_notified g @ chunk\<rparr>))"

definition div_round_up :: "nat \<Rightarrow> nat \<Rightarrow> nat" where
  "div_round_up n d = (n + d - 1) div d"

definition zpt_gatt_notify_frame :: "nat \<Rightarrow> nat \<Rightarrow> u8 list \<Rightarrow> u8 list \<Rightarrow> zpt_gatt \<Rightarrow> int \<times> zpt_gatt" where
  "zpt_gatt_notify_frame conn chunk_size header payload g =
     notify_chunks conn (map (\<lambda>k. k * chunk_size) [0..<div_round_up (length header + length payload) chunk_size])
       chunk_size header payload g"

definition zpt_gatt_chunk_size :: "zpt_gatt \<Rightarrow> nat \<Rightarrow> nat" where
  "zpt_gatt_chunk_size g conn = min (gatt_mtu g conn - ATT_NOTIFY_OVERHEAD) (gatt_chunk_max g)"

definition zpt_gatt_send :: "u8 list \<Rightarrow> u8 list \<Rightarrow> bool \<Rightarrow> zpt_gatt \<Rightarrow> int \<times> zpt_gatt" where
  "zpt_gatt_send header payload droppable g =
     (case gatt_conn g of
        None \<Rightarrow> (- ENOTCONN, g)
      | Some conn \<Rightarrow>
          if \<not> gatt_subscribed g conn then (- EPIPE, g)
          else
            let chunk_size = zpt_gatt_chunk_size g conn;
                needed = min (div_round_up (length header + length payload) chunk_size) (gatt_tx_credits g)
            in if droppable \<and> gatt_credits g < needed then (- ENOBUFS, g)
               else zpt_gatt_notify_frame conn chunk_size header payload g)"

definition zpt_gatt_has_room :: "zpt_gatt \<Rightarrow> bool" where
  "zpt_gatt_has_room g \<longleftrightarrow> gatt_credits g > 0"

definition zpt_gatt_transport :: "zpt_gatt zpt_host_transport" where
  "zpt_gatt_transport = \<lparr>ht_send = zpt_gatt_send, ht_has_room = Some zpt_gatt_has_room\<rparr>"


subsection \<open>A frame is cut into notifications\<close>

lemma gather_take:
  assumes "offset + len \<le> length header + length payload"
  shows "zpt_gatt_gather offset len header payload = take len (drop offset (header @ payload))"
  using assms by (intro nth_equalityI) (auto simp: zpt_gatt_gather_def nth_append Let_def simp del: drop_append take_append)

lemma round_up_covers: "0 < d \<Longrightarrow> n \<le> div_round_up n d * d"
  and round_up_less: "0 < d \<Longrightarrow> k < div_round_up n d \<Longrightarrow> k * d < n"
proof -
  assume d: "0 < d"
  have "n + d - 1 = (n + d - 1) div d * d + (n + d - 1) mod d" by simp
  moreover have "(n + d - 1) mod d < d" using d by simp
  ultimately show "n \<le> div_round_up n d * d" unfolding div_round_up_def by linarith
  assume "k < div_round_up n d"
  then have "Suc k * d \<le> n + d - 1"
    using less_eq_div_iff_mult_less_eq [OF d, of "Suc k"] by (simp add: div_round_up_def Suc_le_eq)
  then show "k * d < n" using d by simp
qed

lemma take_credit_fields:
  assumes "take_credit conn wait g = (taken, g')"
  shows "gatt_notified g' = gatt_notified g \<and> gatt_cut g' = gatt_cut g \<and> gatt_stack g' = gatt_stack g \<and>
    gatt_tx_credits g' = gatt_tx_credits g \<and> gatt_chunk_max g' = gatt_chunk_max g \<and> gatt_mtu g' = gatt_mtu g"
  using assms
  by (auto simp: take_credit_def zpt_gatt_sent_def zpt_gatt_disconnected_def zpt_gatt_set_conn_def Let_def
      split: gatt_wait.splits if_splits)

lemma sent_fields [simp]:
  "gatt_notified (zpt_gatt_sent n g) = gatt_notified g" "gatt_cut (zpt_gatt_sent n g) = gatt_cut g"
  "gatt_tx_credits (zpt_gatt_sent n g) = gatt_tx_credits g" "gatt_chunk_max (zpt_gatt_sent n g) = gatt_chunk_max g"
  "gatt_mtu (zpt_gatt_sent n g) = gatt_mtu g"
  by (simp_all add: zpt_gatt_sent_def)

text \<open>The host receives a prefix of the frame, all of it exactly when the code reports success.\<close>

lemma notify_chunks_prefix:
  assumes "0 < cs" "m \<le> div_round_up (length h + length p) cs"
    and "notify_chunks conn (map (\<lambda>k. k * cs) [m..<div_round_up (length h + length p) cs]) cs h p g = (ret, g')"
    and "gatt_notified g = base @ take (m * cs) (h @ p)"
  shows "ret \<le> 0 \<and> (gatt_cut g \<longrightarrow> gatt_cut g') \<and>
    gatt_tx_credits g' = gatt_tx_credits g \<and> gatt_chunk_max g' = gatt_chunk_max g \<and> gatt_mtu g' = gatt_mtu g \<and>
    (\<exists>j. gatt_notified g' = base @ take (j * cs) (h @ p) \<and>
      (ret = 0 \<longrightarrow> j = div_round_up (length h + length p) cs) \<and> (ret < 0 \<longrightarrow> \<not> gatt_cut g' \<longrightarrow> j = 0))"
  using assms(2-4)
proof (induction "div_round_up (length h + length p) cs - m" arbitrary: m g)
  case 0
  then show ?case by (auto intro: exI [of _ m])
next
  case (Suc n)
  let ?n = "div_round_up (length h + length p) cs" and ?t = "length h + length p"
  have m: "m < ?n" using Suc.hyps(2) by simp
  then have split: "[m..<?n] = m # [Suc m..<?n]" by (simp add: upt_conv_Cons)
  obtain wait answer answers where a: "next_answer (gatt_stack g) = ((wait, answer), answers)" by (metis prod.exhaust)
  obtain taken g1 where t: "take_credit conn wait (g\<lparr>gatt_stack := answers\<rparr>) = (taken, g1)" by (metis prod.exhaust)
  note kept = take_credit_fields [OF t]
  show ?case
  proof (cases "\<not> taken \<or> answer < 0")
    case True
    then have "ret < 0 \<and> gatt_notified g' = gatt_notified g \<and> gatt_cut g' = (gatt_cut g \<or> m * cs > 0) \<and>
        gatt_tx_credits g' = gatt_tx_credits g \<and> gatt_chunk_max g' = gatt_chunk_max g \<and> gatt_mtu g' = gatt_mtu g"
      using Suc.prems(2) a t kept unfolding split by (auto simp: Let_def split: if_splits)
    then show ?thesis using Suc.prems(3) assms(1) by (auto intro: exI [of _ m])
  next
    case False
    have "m * cs + min cs (?t - m * cs) \<le> ?t" using round_up_less [OF assms(1) m] by simp
    then have chunk: "zpt_gatt_gather (m * cs) (min cs (?t - m * cs)) h p = take cs (drop (m * cs) (h @ p))"
      by (subst gather_take) (simp_all add: min_def)
    let ?g = "g1\<lparr>gatt_notified := gatt_notified g1 @ take cs (drop (m * cs) (h @ p))\<rparr>"
    have run: "notify_chunks conn (map (\<lambda>k. k * cs) [Suc m..<?n]) cs h p ?g = (ret, g')"
      using Suc.prems(2) a t False chunk unfolding split by (simp add: Let_def)
    have "take (m * cs) (h @ p) @ take cs (drop (m * cs) (h @ p)) = take (Suc m * cs) (h @ p)"
      by (simp only: mult_Suc add.commute [of cs] take_add)
    then have base: "gatt_notified ?g = base @ take (Suc m * cs) (h @ p)" using kept Suc.prems(3) by simp
    have "n = ?n - Suc m" "Suc m \<le> ?n" using Suc.hyps(2) m by simp_all
    from Suc.hyps(1) [OF this run base] kept show ?thesis by simp
  qed
qed

text \<open>The MTU of a Bluetooth connection is at least 23 bytes.\<close>

definition gatt_usable :: "zpt_gatt \<Rightarrow> bool" where
  "gatt_usable g \<longleftrightarrow> (\<forall>conn. 23 \<le> gatt_mtu g conn) \<and> 0 < gatt_chunk_max g \<and> 0 < gatt_tx_credits g"

lemma gatt_send_prefix:
  assumes "zpt_gatt_send h p d g = (ret, g')" "gatt_usable g"
  shows "ret \<le> 0 \<and> gatt_usable g' \<and> (gatt_cut g \<longrightarrow> gatt_cut g') \<and>
    (ret = 0 \<longrightarrow> gatt_notified g' = gatt_notified g @ h @ p) \<and>
    (ret < 0 \<longrightarrow> \<not> gatt_cut g' \<longrightarrow> gatt_notified g' = gatt_notified g) \<and>
    (\<exists>n. gatt_notified g' = gatt_notified g @ take n (h @ p))"
proof (cases "gatt_conn g")
  case None
  then show ?thesis using assms by (auto simp: zpt_gatt_send_def intro: exI [of _ 0])
next
  case (Some conn)
  let ?cs = "zpt_gatt_chunk_size g conn" and ?n = "div_round_up (length h + length p) (zpt_gatt_chunk_size g conn)"
  show ?thesis
  proof (cases "\<not> gatt_subscribed g conn \<or> d \<and> gatt_credits g < min ?n (gatt_tx_credits g)")
    case True
    then have "ret < 0" "g' = g" using assms(1) Some by (auto simp: zpt_gatt_send_def Let_def split: if_splits)
    then show ?thesis using assms(2) by (auto intro: exI [of _ 0])
  next
    case False
    then have run: "notify_chunks conn (map (\<lambda>k. k * ?cs) [0..<?n]) ?cs h p g = (ret, g')"
      using assms(1) Some by (auto simp: zpt_gatt_send_def zpt_gatt_notify_frame_def Let_def split: if_splits)
    have "23 \<le> gatt_mtu g conn" "0 < gatt_chunk_max g" using assms(2) by (simp_all add: gatt_usable_def)
    then have cs: "0 < ?cs" by (simp add: zpt_gatt_chunk_size_def)
    from notify_chunks_prefix [OF cs _ run, of "gatt_notified g"]
    obtain j where j: "ret \<le> 0" "gatt_cut g \<longrightarrow> gatt_cut g'" "gatt_tx_credits g' = gatt_tx_credits g"
      "gatt_chunk_max g' = gatt_chunk_max g" "gatt_mtu g' = gatt_mtu g"
      "gatt_notified g' = gatt_notified g @ take (j * ?cs) (h @ p)" "ret = 0 \<longrightarrow> j = ?n" "ret < 0 \<longrightarrow> \<not> gatt_cut g' \<longrightarrow> j = 0"
      by auto
    have "take (?n * ?cs) (h @ p) = h @ p" using round_up_covers [OF cs] by (simp del: take_append)
    then show ?thesis using j assms(2) by (auto simp: gatt_usable_def simp del: take_append)
  qed
qed

interpretation gatt: host_link zpt_gatt_transport gatt_usable gatt_notified gatt_cut
  by unfold_locales (use gatt_send_prefix in \<open>fastforce simp: zpt_gatt_transport_def\<close>)+


text \<open>
Property C17. Over a Bluetooth connection a frame that the link accepts reaches the host whole, however
many notifications it takes and whatever completes in between, and a frame it does not accept
leaves no byte at the host unless the link went down in the middle of it; what the host receives
is always a prefix of the frame. A droppable frame is refused, with nothing changed, when fewer
credits are free than it has notifications, or than there are credits at all; without a free
credit every droppable frame is refused, which is when the link says it has no room.
\<close>

theorem bluetooth_frames_are_whole:
  assumes "gatt_usable g" "zpt_send_frame_on_link zpt_gatt_transport f droppable g = (ret, g')"
  shows "ret \<le> 0 \<and> gatt_usable g' \<and> (\<exists>n. gatt_notified g' = gatt_notified g @ take n (encode_frame f)) \<and>
    (ret = 0 \<longrightarrow> gatt_notified g' = gatt_notified g @ encode_frame f) \<and>
    (ret < 0 \<longrightarrow> \<not> gatt_cut g' \<longrightarrow> gatt_notified g' = gatt_notified g) \<and>
    (\<forall>conn. gatt_conn g = Some conn \<longrightarrow> droppable \<longrightarrow>
      gatt_credits g < min (div_round_up (5 + length (snd f)) (zpt_gatt_chunk_size g conn)) (gatt_tx_credits g) \<longrightarrow>
      ret < 0 \<and> g' = g) \<and>
    (\<not> zpt_gatt_has_room g \<longrightarrow> droppable \<longrightarrow> ret < 0 \<and> g' = g)"
proof -
  let ?h = "frame_header (fst f) (of_nat (length (snd f)))"
  have run: "zpt_gatt_send ?h (snd f) droppable g = (ret, g')"
    using assms(2) by (simp add: zpt_send_frame_on_link_def zpt_gatt_transport_def)
  have h: "length ?h = 5" by (simp add: frame_header_def)
  have room: "0 < min (div_round_up (5 + length (snd f)) (zpt_gatt_chunk_size g conn)) (gatt_tx_credits g)" for conn
  proof -
    have "23 \<le> gatt_mtu g conn" "0 < gatt_chunk_max g" "0 < gatt_tx_credits g"
      using assms(1) by (simp_all add: gatt_usable_def)
    moreover from this have "0 < zpt_gatt_chunk_size g conn" by (simp add: zpt_gatt_chunk_size_def)
    from round_up_covers [OF this, of "5 + length (snd f)"]
    have "0 < div_round_up (5 + length (snd f)) (zpt_gatt_chunk_size g conn)" by (intro gr0I) simp
    ultimately show ?thesis by simp
  qed
  have refused: "ret < 0 \<and> g' = g" if "gatt_conn g = Some conn" "droppable"
      "gatt_credits g < min (div_round_up (5 + length (snd f)) (zpt_gatt_chunk_size g conn)) (gatt_tx_credits g)" for conn
    using run that h by (auto simp: zpt_gatt_send_def Let_def split: if_splits)
  have "ret < 0 \<and> g' = g" if "\<not> zpt_gatt_has_room g" "droppable"
    using that refused room run by (cases "gatt_conn g") (auto simp: zpt_gatt_has_room_def zpt_gatt_send_def)
  with gatt_send_prefix [OF run assms(1)] refused show ?thesis by (simp add: encode_frame_def)
qed

definition demo_gatt :: "(gatt_wait \<times> int) list \<Rightarrow> zpt_gatt" where
  "demo_gatt answers = \<lparr>gatt_conn = Some 1, gatt_rx_ring = [], gatt_rx_reset = False, gatt_credits = 1, gatt_tx_credits = 2,
     gatt_chunk_max = 4, gatt_subscribed = (\<lambda>c. True), gatt_mtu = (\<lambda>c. 23), gatt_stack = answers, gatt_notified = [],
     gatt_cut = False\<rparr>"

theorem bluetooth_frames_are_whole_witness:
  "gatt_notified (snd (zpt_send_frame_on_link zpt_gatt_transport (0x82, [1, 2, 3, 4, 5]) False
     (demo_gatt [(Completions 0, 0), (Completions 2, 0)]))) = encode_frame (0x82, [1, 2, 3, 4, 5])"
proof -
  let ?run = "zpt_send_frame_on_link zpt_gatt_transport (0x82, [1, 2, 3, 4, 5]) False (demo_gatt [(Completions 0, 0), (Completions 2, 0)])"
  have "gatt_usable (demo_gatt [(Completions 0, 0), (Completions 2, 0)])" by (simp add: gatt_usable_def demo_gatt_def)
  moreover have "fst ?run = 0" by code_simp
  then have "?run = (0, snd ?run)" by (metis prod.collapse)
  ultimately show ?thesis using bluetooth_frames_are_whole by (fastforce simp: demo_gatt_def)
qed

section \<open>The worker's side\<close>

text \<open>
  The inner loop of \<open>zpt_receive\<close>: the bytes waiting on one link go through its parser, and the
  first of them takes the reset flag. A link without the flag has it false.
\<close>

fun receive_bytes :: "bool \<Rightarrow> zpt_frame_parser \<Rightarrow> u8 list \<Rightarrow> zpt_frame_parser \<times> bool \<times> frame list" where
  "receive_bytes reset p [] = (p, reset, [])"
| "receive_bytes reset p (byte # bytes) =
     (let p = (if reset then p\<lparr>ps_state := MAGIC_0\<rparr> else p);
          (p, request) = zpt_parse_byte p byte;
          (p, reset, requests) = receive_bytes False p bytes
      in (p, reset, (case request of None \<Rightarrow> [] | Some r \<Rightarrow> [r]) @ requests))"

definition zpt_receive_gatt :: "zpt_frame_parser \<Rightarrow> zpt_gatt \<Rightarrow> zpt_frame_parser \<times> zpt_gatt \<times> frame list" where
  "zpt_receive_gatt p g =
     (let (p, reset, requests) = receive_bytes (gatt_rx_reset g) p (gatt_rx_ring g)
      in (p, g\<lparr>gatt_rx_ring := [], gatt_rx_reset := reset\<rparr>, requests))"

lemma receive_bytes_parse:
  "receive_bytes reset p bytes =
    (if bytes = [] then (p, reset, [])
     else let (p, rs) = parse_bytes (if reset then p\<lparr>ps_state := MAGIC_0\<rparr> else p) bytes in (p, False, rs))"
proof (induction bytes arbitrary: reset p)
  case (Cons byte bytes)
  have "receive_bytes False q bytes = (let (p, rs) = parse_bytes q bytes in (p, False, rs))" for q
    using Cons.IH [of False q] by (cases bytes) auto
  then show ?case by (simp add: Let_def split: prod.splits)
qed simp

text \<open>
Property C39. When nothing of the previous peer is waiting in the ring, a request written by a new
Bluetooth peer, or by the same one after a reconnect, is read as that request, whatever partial
frame the previous connection left in the parser.
\<close>

theorem a_new_peer_starts_a_fresh_frame:
  assumes "parser_ok p" "bonded conn" "gatt_conn g \<noteq> Some conn" "gatt_rx_ring g = []" "length (snd f) \<le> 128"
    and "zpt_gatt_write bonded conn (encode_frame f) 0 g = (ret, g1)" "zpt_receive_gatt p g1 = (p', g', requests)"
  shows "0 \<le> ret \<and> requests = [f] \<and> ps_state p' = MAGIC_0 \<and> gatt_conn g' = Some conn \<and> gatt_rx_ring g' = [] \<and>
    \<not> gatt_rx_reset g'"
proof -
  have len: "length (encode_frame f) = 5 + length (snd f)" by (simp add: encode_frame_def frame_header_def)
  have g1: "ret = int (length (encode_frame f))" "gatt_rx_ring g1 = encode_frame f" "gatt_rx_reset g1" "gatt_conn g1 = Some conn"
    using assms(2-6) len by (auto simp: zpt_gatt_write_def zpt_gatt_set_conn_def ring_put_def Let_def)
  have "parser_ok (p\<lparr>ps_state := MAGIC_0\<rparr>)" using assms(1) by (simp add: parser_ok_def)
  from parse_frame [OF this _ assms(5)] obtain q where
    q: "parse_bytes (p\<lparr>ps_state := MAGIC_0\<rparr>) (encode_frame f) = (q, [f])" "ps_state q = MAGIC_0" by auto
  have "encode_frame f \<noteq> []" using len by auto
  then show ?thesis
    using assms(7) g1 q by (auto simp: zpt_receive_gatt_def receive_bytes_parse)
qed

theorem a_new_peer_starts_a_fresh_frame_witness:
  "snd (snd (zpt_receive_gatt (fst (parse_bytes new_parser [0x5a, 0x50, 6, 6, 0, 1]))
     (snd (zpt_gatt_write (\<lambda>c. True) 2 (encode_frame (0x03, [])) 0 (demo_gatt []))))) = [(0x03, [])]"
proof -
  have ok: "parser_ok (fst (parse_bytes new_parser [0x5a, 0x50, 6, 6, 0, 1]))"
    by (simp add: parser_ok_def new_parser_def zpt_parse_byte_def Let_def)
  obtain ret g1 where w: "zpt_gatt_write (\<lambda>c. True) 2 (encode_frame (0x03, [])) 0 (demo_gatt []) = (ret, g1)" by (metis prod.exhaust)
  obtain p' g' rs where r: "zpt_receive_gatt (fst (parse_bytes new_parser [0x5a, 0x50, 6, 6, 0, 1])) g1 = (p', g', rs)"
    by (metis prod.exhaust)
  have "rs = [(0x03, [])]"
    using a_new_peer_starts_a_fresh_frame [OF ok _ _ _ _ w r] by (simp add: demo_gatt_def)
  then show ?thesis unfolding w snd_conv r by simp
qed

text \<open>
  The condition on the ring is needed: a byte of the previous peer that the worker has not read
  takes the reset flag, and with it the partial frame it belongs to survives into the new peer's
  bytes. Here the new peer's ping becomes the payload of the previous peer's request.
\<close>

lemma unread_bytes_take_the_reset:
  "snd (snd (zpt_receive_gatt new_parser (snd (zpt_gatt_write (\<lambda>c. True) 2 (encode_frame (0x03, [])) 0
     ((demo_gatt [])\<lparr>gatt_rx_ring := [0x5a, 0x50, 6, 5, 0]\<rparr>))))) = [(6, encode_frame (0x03, []))]"
  by code_simp

end
