(* ===== verification/Telemetry_State.thy ===== *)
theory Telemetry_State
  imports Telemetry_Tuning Host_Transport "HOL-Library.Sublist"
begin

text \<open>
  State telemetry (\<open>observer/state.h\<close> and the state part of \<open>service/telemetry.c\<close>): levels and
  labels of the targets, the queue of samples with its drop counter, the samples and the status on
  the wire, and what the host reads (\<open>web/protocol.js\<close>).

  Samples are submitted on the input thread and sent by the worker; each operation is atomic, so
  what happens is a sequence of operations. The message queue is the list of its records, a
  semaphore that only wakes the worker is not part of the state.
\<close>

abbreviation (input) "ZPT_REQ_STATE_CONTROL \<equiv> (0x0c :: u8)"
abbreviation (input) "ZPT_RESP_STATE_STATUS \<equiv> (0x89 :: u8)"
abbreviation (input) "ZPT_EVENT_STATE \<equiv> (0x91 :: u8)"
abbreviation (input) "ZPT_STATE_LEVEL_OFF \<equiv> (0 :: u8)"
abbreviation (input) "ZPT_STATE_LEVEL_VERBOSE \<equiv> (2 :: u8)"
abbreviation (input) "ZPT_STATE_ALL_TARGETS \<equiv> (255 :: u8)"
abbreviation (input) "ZPT_STATE_SCHEMA_VERSION \<equiv> (2 :: u8)"
abbreviation (input) "ZPT_STATE_LABEL_MAX_LENGTH \<equiv> (27 :: nat)"
abbreviation (input) "ZPT_STATE_VALUE_COUNT \<equiv> (10 :: nat)"

record zpt_state_sample =
  ss_timestamp_ms :: u32
  ss_sequence :: u32
  ss_target_id :: u8
  ss_target_kind :: u8
  ss_event :: u8
  ss_intent :: u8
  ss_flags :: u16
  ss_values :: "int list"

record state_telemetry =
  state_levels :: "u8 list"
  state_labels :: "string option list"
  state_slot_limit :: nat
  state_dropped :: u32
  state_sequence :: u32
  record_queue :: "zpt_state_sample list"
  record_queue_size :: nat
  last_contact :: u32

section \<open>Targets\<close>

definition zpt_state_telemetry_level :: "state_telemetry \<Rightarrow> u8 \<Rightarrow> u8" where
  "zpt_state_telemetry_level st target_id =
     (if unat target_id \<ge> length (state_levels st) then ZPT_STATE_LEVEL_OFF else state_levels st ! unat target_id)"

definition find_state_target :: "'w tuning_registry \<Rightarrow> state_telemetry \<Rightarrow> string \<Rightarrow> int" where
  "find_state_target reg st stable_id =
     (case List.find (\<lambda>i. target_stable_id (the (zpt_tuning_target_get reg (of_nat i))) = Some stable_id)
             [0..<zpt_tuning_target_count reg] of
        Some i \<Rightarrow> int i
      | None \<Rightarrow>
          case List.find (\<lambda>i. state_labels st ! i = Some stable_id)
                 [zpt_tuning_target_count reg..<length (state_labels st)] of
            Some i \<Rightarrow> int i
          | None \<Rightarrow> - ENOENT)"

text \<open>The result: the code, the id when one is written, and the state left.\<close>

definition zpt_state_telemetry_register_target :: "'w tuning_registry \<Rightarrow> bool \<Rightarrow> string option \<Rightarrow> state_telemetry \<Rightarrow>
    int \<times> u8 option \<times> state_telemetry" where
  "zpt_state_telemetry_register_target reg has_target_id stable_id st =
     (if \<not> has_target_id \<or> stable_id = None then (- EINVAL, None, st)
      else
        let existing = find_state_target reg st (the stable_id) in
        if existing \<ge> 0 then (0, Some (word_of_int existing), st)
        else case List.find (\<lambda>i. state_labels st ! i = None) [zpt_tuning_target_count reg..<length (state_levels st)] of
          None \<Rightarrow> (- ENOSPC, None, st)
        | Some i \<Rightarrow> (0, Some (of_nat i), st\<lparr>state_labels := (state_labels st)[i := stable_id],
            state_slot_limit := max (state_slot_limit st) (i + 1)\<rparr>))"

section \<open>Samples\<close>

definition zpt_state_telemetry_submit :: "zpt_state_sample option \<Rightarrow> state_telemetry \<Rightarrow> state_telemetry" where
  "zpt_state_telemetry_submit sample st =
     (case sample of
        None \<Rightarrow> st
      | Some s \<Rightarrow>
          if zpt_state_telemetry_level st (ss_target_id s) = ZPT_STATE_LEVEL_OFF then st
          else
            let record = s\<lparr>ss_sequence := state_sequence st\<rparr>;
                st = st\<lparr>state_sequence := state_sequence st + 1\<rparr>
            in if length (record_queue st) \<ge> record_queue_size st then st\<lparr>state_dropped := state_dropped st + 1\<rparr>
               else st\<lparr>record_queue := record_queue st @ [record]\<rparr>)"

definition zpt_state_disable_all :: "state_telemetry \<Rightarrow> state_telemetry" where
  "zpt_state_disable_all st = st\<lparr>state_levels := map (\<lambda>level. ZPT_STATE_LEVEL_OFF) (state_levels st)\<rparr>"

definition state_payload :: "zpt_state_sample \<Rightarrow> u8 list" where
  "state_payload s = [ss_target_id s, ss_target_kind s, ss_event s, ss_intent s] @ put_le16 (ss_flags s) @
     put_le32 (ss_timestamp_ms s) @ put_le32 (ss_sequence s) @
     concat (map (\<lambda>v. put_le32 (word_of_int v)) (ss_values s))"

definition zpt_send_state :: "'l zpt_host_transport \<Rightarrow> zpt_state_sample \<Rightarrow> state_telemetry \<times> 'l \<Rightarrow> state_telemetry \<times> 'l" where
  "zpt_send_state link sample stl =
     (let (st, l) = stl; (ret, l) = zpt_send_frame_on_link link (ZPT_EVENT_STATE, state_payload sample) True l
      in (if ret < 0 then st\<lparr>state_dropped := state_dropped st + 1\<rparr> else st, l))"

text \<open>
  The first loop of \<open>zpt_drain_records\<close>, one record taken from the queue at a time; \<open>now\<close> is the
  clock when it looks. The loop ends with the queue empty or with the host given up.
\<close>

datatype drain_outcome = NextRecord | QueueEmpty | HostGone

definition drain_record :: "'l zpt_host_transport \<Rightarrow> nat \<Rightarrow> u32 \<Rightarrow> state_telemetry \<times> 'l \<Rightarrow> drain_outcome \<times> state_telemetry \<times> 'l" where
  "drain_record link host_timeout now stl =
     (let (st, l) = stl in
      case record_queue st of
        [] \<Rightarrow> (QueueEmpty, st, l)
      | record # records \<Rightarrow>
          let st = st\<lparr>record_queue := records\<rparr> in
          if unat (now - last_contact st) > host_timeout
          then (HostGone, zpt_state_disable_all (st\<lparr>record_queue := []\<rparr>), l)
          else if zpt_state_telemetry_level st (ss_target_id record) \<noteq> ZPT_STATE_LEVEL_OFF
          then (NextRecord, zpt_send_state link record (st, l))
          else (NextRecord, st, l))"

text \<open>The whole loop while nothing is submitted, with the clock readings it takes.\<close>

fun drain_state :: "'l zpt_host_transport \<Rightarrow> nat \<Rightarrow> (nat \<Rightarrow> u32) \<Rightarrow> nat \<Rightarrow> state_telemetry \<times> 'l \<Rightarrow> drain_outcome \<times> state_telemetry \<times> 'l" where
  "drain_state link host_timeout clock 0 stl = (QueueEmpty, stl)"
| "drain_state link host_timeout clock (Suc records) stl =
     (let (outcome, stl) = drain_record link host_timeout (clock 0) stl
      in if outcome = NextRecord then drain_state link host_timeout (\<lambda>k. clock (Suc k)) records stl else (outcome, stl))"

section \<open>Status and control\<close>

definition state_target_count :: "'w tuning_registry \<Rightarrow> state_telemetry \<Rightarrow> nat" where
  "state_target_count reg st =
     min (max (zpt_tuning_target_count reg) (state_slot_limit st)) (length (state_levels st))"

definition state_label :: "'w tuning_registry \<Rightarrow> state_telemetry \<Rightarrow> nat \<Rightarrow> u8 list" where
  "state_label reg st i =
     (case zpt_tuning_target_get reg (of_nat i) of
        Some t \<Rightarrow> (case target_label t of None \<Rightarrow> [] | Some s \<Rightarrow> limited ZPT_STATE_LABEL_MAX_LENGTH (Some s))
      | None \<Rightarrow> (case state_labels st ! i of None \<Rightarrow> [] | Some s \<Rightarrow> limited ZPT_STATE_LABEL_MAX_LENGTH (Some s)))"

definition zpt_send_state_status :: "'w tuning_registry \<Rightarrow> state_telemetry \<Rightarrow> frame" where
  "zpt_send_state_status reg st =
     (ZPT_RESP_STATE_STATUS, [ZPT_STATE_SCHEMA_VERSION] @ put_le32 (state_dropped st) @
        put_le16 (of_nat (record_queue_size st)) @ [of_nat (state_target_count reg st)] @
        concat (map (\<lambda>i. [of_nat i, state_levels st ! i, of_nat (length (state_label reg st i))] @ state_label reg st i)
          [0..<state_target_count reg st]))"

definition zpt_handle_state_control :: "'w tuning_registry \<Rightarrow> u8 list \<Rightarrow> state_telemetry \<Rightarrow> frame \<times> state_telemetry" where
  "zpt_handle_state_control reg payload st =
     (let st = (if length payload = 2 \<and> payload ! 1 \<le> ZPT_STATE_LEVEL_VERBOSE then
                  if payload ! 0 = ZPT_STATE_ALL_TARGETS then st\<lparr>state_levels := map (\<lambda>level. payload ! 1) (state_levels st)\<rparr>
                  else if unat (payload ! 0) < length (state_levels st)
                  then st\<lparr>state_levels := (state_levels st)[unat (payload ! 0) := payload ! 1]\<rparr> else st
                else st)
      in (zpt_send_state_status reg st, st))"


section \<open>Registration\<close>

text \<open>The stable id a target id stands for.\<close>

definition names :: "'w tuning_registry \<Rightarrow> state_telemetry \<Rightarrow> nat \<Rightarrow> string option" where
  "names reg st i =
     (if i < zpt_tuning_target_count reg then target_stable_id (zpt_tuning_targets reg ! i) else state_labels st ! i)"

definition state_targets_ok :: "'w tuning_registry \<Rightarrow> state_telemetry \<Rightarrow> bool" where
  "state_targets_ok reg st \<longleftrightarrow> registry_ok reg \<and> max_targets reg = length (state_levels st) \<and>
     length (state_labels st) = length (state_levels st) \<and> length (state_levels st) \<le> 255 \<and>
     state_slot_limit st \<le> length (state_levels st) \<and>
     (\<forall>i < length (state_levels st). zpt_tuning_target_count reg \<le> i \<longrightarrow> state_labels st ! i \<noteq> None \<longrightarrow> i < state_slot_limit st) \<and>
     (\<forall>i < length (state_levels st). \<forall>j < i. names reg st i \<noteq> None \<longrightarrow> names reg st j \<noteq> names reg st i)"

lemma find_upt_cases:
  "(List.find P [a..<b] = None \<and> (\<forall>i. a \<le> i \<and> i < b \<longrightarrow> \<not> P i)) \<or>
   (\<exists>i. List.find P [a..<b] = Some i \<and> a \<le> i \<and> i < b \<and> P i \<and> (\<forall>j. a \<le> j \<and> j < i \<longrightarrow> \<not> P j))"
proof (cases "List.find P [a..<b]")
  case None
  then show ?thesis by (auto simp: find_None_iff)
next
  case (Some i)
  then obtain k where k: "k < length [a..<b]" "P ([a..<b] ! k)" "i = [a..<b] ! k" "\<forall>j<k. \<not> P ([a..<b] ! j)"
    by (auto simp: find_Some_iff)
  have "\<not> P j" if "a \<le> j" "j < i" for j
    using k(4) [rule_format, of "j - a"] k(1,3) that by (simp add: less_diff_conv)
  then show ?thesis using Some k by auto
qed

lemma tuning_target_at:
  assumes "i < zpt_tuning_target_count reg" "i < 256"
  shows "zpt_tuning_target_get reg (of_nat i) = Some (zpt_tuning_targets reg ! i)"
  using assms by (simp add: zpt_tuning_target_get_def zpt_tuning_target_count_def unat_small)

lemma find_state_target_cases:
  assumes "state_targets_ok reg st"
  shows "(find_state_target reg st sid < 0 \<and> (\<forall>i < length (state_levels st). names reg st i \<noteq> Some sid)) \<or>
    (\<exists>i < length (state_levels st). find_state_target reg st sid = int i \<and> names reg st i = Some sid)"
proof -
  let ?n = "zpt_tuning_target_count reg"
  let ?P = "\<lambda>i. target_stable_id (the (zpt_tuning_target_get reg (of_nat i))) = Some sid"
  let ?Q = "\<lambda>i. state_labels st ! i = Some sid"
  have n: "?n \<le> length (state_levels st)" "length (state_labels st) = length (state_levels st)" "length (state_levels st) \<le> 255"
    using assms by (auto simp: state_targets_ok_def registry_ok_def zpt_tuning_target_count_def)
  have P: "?P i = (names reg st i = Some sid)" if "i < ?n" for i
    using that n by (subst tuning_target_at) (auto simp: names_def)
  have Q: "?Q i = (names reg st i = Some sid)" if "?n \<le> i" for i using that by (simp add: names_def)
  show ?thesis
    using find_upt_cases [of ?P 0 ?n] find_upt_cases [of ?Q ?n "length (state_labels st)"]
  proof (elim disjE conjE exE)
    assume "List.find ?P [0..<?n] = None" "\<forall>i. 0 \<le> i \<and> i < ?n \<longrightarrow> \<not> ?P i"
      "List.find ?Q [?n..<length (state_labels st)] = None" "\<forall>i. ?n \<le> i \<and> i < length (state_labels st) \<longrightarrow> \<not> ?Q i"
    moreover from this have "\<forall>i < length (state_levels st). names reg st i \<noteq> Some sid"
      using P Q n by (metis linorder_not_less zero_le)
    ultimately show ?thesis by (simp add: find_state_target_def)
  next
    fix i assume "List.find ?P [0..<?n] = None" "List.find ?Q [?n..<length (state_labels st)] = Some i"
      "?n \<le> i" "i < length (state_labels st)" "?Q i"
    then show ?thesis using Q n by (auto simp: find_state_target_def)
  next
    fix i assume "List.find ?P [0..<?n] = Some i" "i < ?n" "?P i"
    then show ?thesis using P n by (auto simp: find_state_target_def)
  next
    fix i assume "List.find ?P [0..<?n] = Some i" "i < ?n" "?P i"
    then show ?thesis using P n by (auto simp: find_state_target_def)
  qed
qed


lemma register_target_effect:
  assumes ok: "state_targets_ok reg st"
    and run: "zpt_state_telemetry_register_target reg True (Some sid) st = (ret, target, st')"
  shows "state_targets_ok reg st' \<and> state_levels st' = state_levels st \<and>
    (\<forall>i < length (state_levels st). names reg st i \<noteq> None \<longrightarrow> names reg st' i = names reg st i) \<and>
    (ret = 0 \<and> (\<exists>v. target = Some v \<and> unat v < state_target_count reg st' \<and> names reg st' (unat v) = Some sid) \<or>
     ret = - ENOSPC \<and> target = None \<and> st' = st \<and> (\<forall>i < length (state_levels st). names reg st i \<noteq> None \<and> names reg st i \<noteq> Some sid))"
proof -
  let ?n = "zpt_tuning_target_count reg" and ?m = "length (state_levels st)"
  have n: "?n \<le> ?m" "length (state_labels st) = ?m" "?m \<le> 255" "state_slot_limit st \<le> ?m"
    and limit: "\<And>i. i < ?m \<Longrightarrow> ?n \<le> i \<Longrightarrow> state_labels st ! i \<noteq> None \<Longrightarrow> i < state_slot_limit st"
    and apart: "\<And>i j. i < ?m \<Longrightarrow> j < i \<Longrightarrow> names reg st i \<noteq> None \<Longrightarrow> names reg st j \<noteq> names reg st i"
    using ok by (auto simp: state_targets_ok_def registry_ok_def zpt_tuning_target_count_def)
  from find_state_target_cases [OF ok, of sid] show ?thesis
  proof (elim disjE conjE exE)
    fix i assume i: "i < ?m" "find_state_target reg st sid = int i" "names reg st i = Some sid"
    then have v: "unat (word_of_int (int i) :: u8) = i" using n(3) by (simp add: unat_small)
    have "i < state_target_count reg st"
      using i n limit [of i] by (cases "i < ?n") (auto simp: state_target_count_def names_def)
    moreover have "ret = 0" "target = Some (word_of_int (int i))" "st' = st"
      using run i(2) by (simp_all add: zpt_state_telemetry_register_target_def)
    ultimately show ?thesis using ok i(3) v by auto
  next
    assume new: "find_state_target reg st sid < 0" "\<forall>i < ?m. names reg st i \<noteq> Some sid"
    let ?P = "\<lambda>i. state_labels st ! i = None"
    from find_upt_cases [of ?P ?n ?m] show ?thesis
    proof (elim disjE conjE exE)
      assume none: "List.find ?P [?n..<?m] = None" "\<forall>i. ?n \<le> i \<and> i < ?m \<longrightarrow> \<not> ?P i"
      have "names reg st i \<noteq> None" if "i < ?m" for i
      proof (cases "i < ?n")
        case True
        then have "zpt_tuning_targets reg ! i \<in> set (zpt_tuning_targets reg)" by (simp add: zpt_tuning_target_count_def)
        then have "validate_target (Some (zpt_tuning_targets reg ! i)) = 0"
          using ok by (auto simp: state_targets_ok_def registry_ok_def)
        then have "target_stable_id (zpt_tuning_targets reg ! i) \<noteq> None"
          by (auto simp: validate_target_def split: if_splits)
        then show ?thesis using True by (simp add: names_def)
      qed (use none(2) that in \<open>simp add: names_def\<close>)
      then show ?thesis using run new none(1) ok by (simp add: zpt_state_telemetry_register_target_def)
    next
      fix i assume i: "List.find ?P [?n..<?m] = Some i" "?n \<le> i" "i < ?m" "?P i"
      have v: "unat (of_nat i :: u8) = i" using i(3) n(3) by (simp add: unat_small)
      have st': "ret = 0" "target = Some (of_nat i)"
        "st' = st\<lparr>state_labels := (state_labels st)[i := Some sid], state_slot_limit := max (state_slot_limit st) (i + 1)\<rparr>"
        using run new(1) i(1) by (simp_all add: zpt_state_telemetry_register_target_def)
      have names': "names reg st' j = (if j = i then Some sid else names reg st j)" for j
        using i n(2) by (simp add: st' names_def nth_list_update)
      have len: "length (state_levels st') = ?m" by (simp add: st'(3))
      have "state_targets_ok reg st'"
        unfolding state_targets_ok_def
      proof (intro conjI allI impI)
        fix k j assume "k < length (state_levels st')" "j < k" "names reg st' k \<noteq> None"
        then show "names reg st' j \<noteq> names reg st' k"
          using apart [of k j] new(2) i(3) by (auto simp: names' len split: if_splits)
      next
        fix k assume k: "k < length (state_levels st')" "?n \<le> k" "state_labels st' ! k \<noteq> None"
        then show "k < state_slot_limit st'"
          using limit [of k] n(2) i(3) by (auto simp: st'(3) nth_list_update split: if_splits)
      qed (use ok i(3) n in \<open>auto simp: state_targets_ok_def st'(3)\<close>)
      moreover have "i < state_target_count reg st'" using i(3) by (simp add: state_target_count_def st'(3))
      moreover have "names reg st i = None" using i by (simp add: names_def)
      moreover have "state_levels st' = state_levels st" by (simp add: st'(3))
      ultimately show ?thesis using v st'(1,2) by (auto simp: names')
    qed
  qed
qed

fun register_all :: "'w tuning_registry \<Rightarrow> string list \<Rightarrow> state_telemetry \<Rightarrow> (int \<times> u8 option) list \<times> state_telemetry" where
  "register_all reg [] st = ([], st)"
| "register_all reg (sid # sids) st =
     (let (ret, target, st) = zpt_state_telemetry_register_target reg True (Some sid) st;
          (results, st) = register_all reg sids st
      in ((ret, target) # results, st))"

definition registered_as :: "'w tuning_registry \<Rightarrow> state_telemetry \<Rightarrow> string \<Rightarrow> int \<times> u8 option \<Rightarrow> bool" where
  "registered_as reg st sid result \<longleftrightarrow>
     (case result of
        (ret, Some v) \<Rightarrow> ret = 0 \<and> unat v < state_target_count reg st \<and> names reg st (unat v) = Some sid
      | (ret, None) \<Rightarrow> ret = - ENOSPC \<and> (\<forall>i < length (state_levels st). names reg st i \<noteq> None \<and> names reg st i \<noteq> Some sid))"

lemma target_count_mono:
  assumes "state_targets_ok reg st" "zpt_state_telemetry_register_target reg True (Some sid) st = (ret, target, st')"
  shows "state_target_count reg st \<le> state_target_count reg st'"
  using assms(2) by (auto simp: zpt_state_telemetry_register_target_def state_target_count_def Let_def
      split: if_splits option.splits)

lemma registered_stays:
  assumes "state_targets_ok reg st" "zpt_state_telemetry_register_target reg True (Some sid) st = (ret, target, st')"
    and "registered_as reg st s result"
  shows "registered_as reg st' s result"
proof -
  note effect = register_target_effect [OF assms(1,2)] and more = target_count_mono [OF assms(1,2)]
  have "state_target_count reg st \<le> length (state_levels st)" by (simp add: state_target_count_def)
  then show ?thesis
    using assms(3) effect more
    by (auto simp: registered_as_def split: option.splits)
qed

text \<open>
Property C22. When the tuning targets are in place, any sequence of registrations of state targets
keeps the table in order: every registration that succeeds returns an id the status lists and that
stands for its stable id from then on; a tunable stage reports under its tuning target's id; the
same stable id always gets the same id and two different ones never share one; and a
registration fails only when every id stands for some other stage.
\<close>

theorem state_targets_are_named_once:
  assumes "state_targets_ok reg st" "register_all reg sids st = (results, st')"
  shows "state_targets_ok reg st' \<and> length results = length sids \<and>
    (\<forall>k < length sids. registered_as reg st' (sids ! k) (results ! k)) \<and>
    (\<forall>j < length sids. \<forall>k < length sids. snd (results ! j) \<noteq> None \<longrightarrow> snd (results ! k) \<noteq> None \<longrightarrow>
      (snd (results ! j) = snd (results ! k)) = (sids ! j = sids ! k)) \<and>
    (\<forall>k < length sids. \<forall>i < zpt_tuning_target_count reg.
      target_stable_id (zpt_tuning_targets reg ! i) = Some (sids ! k) \<longrightarrow> results ! k = (0, Some (of_nat i)))"
proof -
  have main: "state_targets_ok reg st' \<and> length results = length sids \<and>
      (\<forall>k < length sids. registered_as reg st' (sids ! k) (results ! k)) \<and>
      (\<forall>s r. registered_as reg st s r \<longrightarrow> registered_as reg st' s r)"
    using assms
  proof (induction sids arbitrary: st results)
    case Nil
    then show ?case by simp
  next
    case (Cons sid sids)
    obtain ret target st1 where one: "zpt_state_telemetry_register_target reg True (Some sid) st = (ret, target, st1)"
      by (metis prod.exhaust)
    obtain results1 where rest: "register_all reg sids st1 = (results1, st')" "results = (ret, target) # results1"
      using Cons.prems(2) one by (cases "register_all reg sids st1") simp
    note effect = register_target_effect [OF Cons.prems(1) one]
    note IH = Cons.IH [OF conjunct1 [OF effect] rest(1)]
    have "registered_as reg st1 sid (ret, target)"
      using effect by (auto simp: registered_as_def)
    then have "registered_as reg st' sid (ret, target)" using IH by blast
    then show ?case
      using IH registered_stays [OF Cons.prems(1) one] by (auto simp: rest(2) nth_Cons')
  qed
  have unique: "i = j" if "i < length (state_levels st')" "j < length (state_levels st')" "names reg st' i = Some s"
      "names reg st' j = Some s" for i j s
  proof -
    have apart: "names reg st' b \<noteq> names reg st' a" if "a < length (state_levels st')" "b < a" "names reg st' a \<noteq> None" for a b
      using main that unfolding state_targets_ok_def by blast
    show ?thesis using apart [of i j] apart [of j i] that by (cases i j rule: linorder_cases) auto
  qed
  have small: "i < length (state_levels st')" if "i < state_target_count reg st'" for i
    using that by (simp add: state_target_count_def)
  have named: "fst (results ! k) = 0 \<and> (\<exists>v. snd (results ! k) = Some v \<and> unat v < length (state_levels st') \<and>
      names reg st' (unat v) = Some (sids ! k))" if "k < length sids" "snd (results ! k) \<noteq> None" for k
    using main that small by (cases "results ! k"; cases "snd (results ! k)") (auto simp: registered_as_def)
  have "(snd (results ! j) = snd (results ! k)) = (sids ! j = sids ! k)"
    if "j < length sids" "k < length sids" "snd (results ! j) \<noteq> None" "snd (results ! k) \<noteq> None" for j k
  proof -
    note both = that
    obtain v where v: "snd (results ! j) = Some v" "unat v < length (state_levels st')" "names reg st' (unat v) = Some (sids ! j)"
      using named [OF both(1,3)] by blast
    obtain w where w: "snd (results ! k) = Some w" "unat w < length (state_levels st')" "names reg st' (unat w) = Some (sids ! k)"
      using named [OF both(2,4)] by blast
    show ?thesis using v w unique [of "unat v" "unat w"] by (auto simp: word_unat_eq_iff)
  qed
  moreover have "results ! k = (0, Some (of_nat i))"
    if k: "k < length sids" and i: "i < zpt_tuning_target_count reg" "target_stable_id (zpt_tuning_targets reg ! i) = Some (sids ! k)" for k i
  proof -
    have here: "i < length (state_levels st')" "names reg st' i = Some (sids ! k)"
      using main i by (auto simp: state_targets_ok_def registry_ok_def zpt_tuning_target_count_def names_def)
    then have some: "snd (results ! k) \<noteq> None"
      using main k by (cases "results ! k"; cases "snd (results ! k)") (auto simp: registered_as_def)
    from named [OF k some] obtain v where v: "fst (results ! k) = 0" "snd (results ! k) = Some v"
      "unat v < length (state_levels st')" "names reg st' (unat v) = Some (sids ! k)" by blast
    then have "unat v = i" using unique here by blast
    then have "v = of_nat i" by (metis of_nat_unat ucast_id)
    then show ?thesis using v by (simp add: prod_eq_iff)
  qed
  ultimately show ?thesis using main by simp
qed


definition demo_state :: state_telemetry where
  "demo_state = \<lparr>state_levels = [0, 0, 0], state_labels = [None, None, None], state_slot_limit = 0, state_dropped = 0,
     state_sequence = 0, record_queue = [], record_queue_size = 2, last_contact = 0\<rparr>"

theorem state_targets_are_named_once_witness:
  "\<exists>results st'. register_all (demo_registry\<lparr>max_targets := 3\<rparr>) [''scroll'', ''gate'', ''scroll''] demo_state = (results, st') \<and>
     results ! 1 = (0, Some 0) \<and> snd (results ! 0) = snd (results ! 2) \<and> snd (results ! 0) \<noteq> snd (results ! 1)"
proof -
  let ?reg = "demo_registry\<lparr>max_targets := 3\<rparr>" and ?ids = "[''scroll'', ''gate'', ''scroll'']"
  have reg: "registry_ok ?reg"
    by (simp add: registry_ok_def demo_tuning_defs validate_target_def validate_target_parameters_def validate_parameter_def
        described_parameters_def Let_def upt_rec)
  have "names ?reg demo_state 0 = Some ''gate''" "names ?reg demo_state (Suc i) = [None, None, None] ! Suc i" for i
    by (simp_all add: names_def demo_state_def demo_tuning_defs zpt_tuning_target_count_def)
  then have ok: "state_targets_ok ?reg demo_state"
    using reg by (auto simp: state_targets_ok_def demo_state_def less_Suc_eq numeral_3_eq_3 zpt_tuning_target_count_def demo_registry_def)
  have some: "list_all (\<lambda>r. snd r \<noteq> None) (fst (register_all ?reg ?ids demo_state))" by code_simp
  obtain results st' where r: "register_all ?reg ?ids demo_state = (results, st')" by fastforce
  note all = state_targets_are_named_once [OF ok r]
  have "list_all (\<lambda>r. snd r \<noteq> None) results" using some unfolding r by simp
  moreover have three: "length results = 3" using all by simp
  ultimately have "snd (results ! 0) \<noteq> None" "snd (results ! 1) \<noteq> None" "snd (results ! 2) \<noteq> None"
    unfolding list_all_length by simp_all
  then have "(snd (results ! 0) = snd (results ! 2)) = (?ids ! 0 = ?ids ! 2)"
    "(snd (results ! 0) = snd (results ! 1)) = (?ids ! 0 = ?ids ! 1)"
    using all by simp_all
  moreover have "results ! 1 = (0, Some (of_nat 0))"
    using conjunct2 [OF conjunct2 [OF conjunct2 [OF conjunct2 [OF all]]], THEN spec, of 1]
    by (auto simp: demo_tuning_defs zpt_tuning_target_count_def)
  ultimately show ?thesis using r by simp
qed


section \<open>What becomes of the samples\<close>

text \<open>\<open>parseStateSample\<close> of the host.\<close>

definition parseStateSample :: "u8 list \<Rightarrow> zpt_state_sample option" where
  "parseStateSample payload =
     (if length payload \<noteq> 54 then None
      else Some \<lparr>ss_timestamp_ms = get_le32 (drop 6 payload), ss_sequence = get_le32 (drop 10 payload),
        ss_target_id = payload ! 0, ss_target_kind = payload ! 1, ss_event = payload ! 2, ss_intent = payload ! 3,
        ss_flags = get_le16 (drop 4 payload), ss_values = map (\<lambda>i. int32_at payload (14 + i * 4)) [0..<10]\<rparr>)"

definition sample_ok :: "zpt_state_sample \<Rightarrow> bool" where
  "sample_ok s \<longleftrightarrow> length (ss_values s) = ZPT_STATE_VALUE_COUNT \<and> (\<forall>v \<in> set (ss_values s). in_i32 v)"

lemma length_state_payload: "sample_ok s \<Longrightarrow> length (state_payload s) = 54"
  by (simp add: state_payload_def sample_ok_def length_concat comp_def sum_list_triv)

lemma parse_state_sample:
  assumes "sample_ok s"
  shows "parseStateSample (state_payload s) = Some s"
proof -
  let ?f = "\<lambda>v. put_le32 (word_of_int v)"
  let ?vs = "ss_values s"
  have "int32_at (state_payload s) (14 + i * 4) = ?vs ! i" if "i < 10" for i
  proof -
    have "drop (14 + i * 4) (state_payload s) = drop (i * 4) (concat (map ?f ?vs))"
      by (simp add: state_payload_def drop_Cons')
    also have "\<dots> = ?f (?vs ! i) @ concat (map ?f (drop (Suc i) ?vs))"
      using drop_uniform [of ?vs ?f 4 i] that assms by (simp add: sample_ok_def flip: Cons_nth_drop_Suc)
    finally show ?thesis using that assms by (simp add: int32_at_def sample_ok_def)
  qed
  then have "map (\<lambda>i. int32_at (state_payload s) (14 + i * 4)) [0..<10] = ?vs"
    using assms by (intro nth_equalityI) (auto simp: sample_ok_def)
  then show ?thesis
    using length_state_payload [OF assms] by (simp add: parseStateSample_def) (simp add: state_payload_def)
qed

text \<open>
  What happens to the telemetry state while the host is connected: a stage submits a sample, the
  worker looks at the next record, a request changes levels or is just noted, and the worker sends
  any other frame. Two auxiliary components are kept: the samples numbered so far, and how many of
  them were withheld because their target was turned off or the host was given up.
\<close>

datatype state_event =
    SubmitSample zpt_state_sample
  | DrainRecord u32
  | StateControl "u8 list"
  | NoteContact u32
  | OtherFrame frame

fun state_event_ok :: "state_event \<Rightarrow> bool" where
  "state_event_ok (SubmitSample s) = sample_ok s"
| "state_event_ok (OtherFrame f) = (fst f \<noteq> ZPT_EVENT_STATE \<and> length (snd f) < 65536)"
| "state_event_ok e = True"

fun state_step :: "'w tuning_registry \<Rightarrow> 'l zpt_host_transport \<Rightarrow> nat \<Rightarrow> state_event \<Rightarrow>
    state_telemetry \<times> 'l \<times> zpt_state_sample list \<times> nat \<Rightarrow> state_telemetry \<times> 'l \<times> zpt_state_sample list \<times> nat" where
  "state_step reg link host_timeout (SubmitSample s) (st, l, numbered, withheld) =
     (zpt_state_telemetry_submit (Some s) st, l,
      if zpt_state_telemetry_level st (ss_target_id s) = ZPT_STATE_LEVEL_OFF then numbered
      else numbered @ [s\<lparr>ss_sequence := state_sequence st\<rparr>], withheld)"
| "state_step reg link host_timeout (DrainRecord now) (st, l, numbered, withheld) =
     (let (outcome, st', l') = drain_record link host_timeout now (st, l)
      in (st', l', numbered,
          case outcome of
            QueueEmpty \<Rightarrow> withheld
          | HostGone \<Rightarrow> withheld + length (record_queue st)
          | NextRecord \<Rightarrow>
              if zpt_state_telemetry_level st (ss_target_id (hd (record_queue st))) = ZPT_STATE_LEVEL_OFF
              then withheld + 1 else withheld))"
| "state_step reg link host_timeout (StateControl payload) (st, l, numbered, withheld) =
     (snd (zpt_handle_state_control reg payload st), l, numbered, withheld)"
| "state_step reg link host_timeout (NoteContact now) (st, l, numbered, withheld) =
     (st\<lparr>last_contact := now\<rparr>, l, numbered, withheld)"
| "state_step reg link host_timeout (OtherFrame f) (st, l, numbered, withheld) =
     (st, snd (zpt_send_frame_on_link link f False l), numbered, withheld)"

definition state_run :: "'w tuning_registry \<Rightarrow> 'l zpt_host_transport \<Rightarrow> nat \<Rightarrow> state_event list \<Rightarrow>
    state_telemetry \<times> 'l \<times> zpt_state_sample list \<times> nat \<Rightarrow> state_telemetry \<times> 'l \<times> zpt_state_sample list \<times> nat" where
  "state_run reg link host_timeout events s = fold (state_step reg link host_timeout) events s"

text \<open>The samples among the frames a host decoded.\<close>

definition host_samples :: "frame list \<Rightarrow> zpt_state_sample option list" where
  "host_samples fs = map (parseStateSample \<circ> snd) (filter (\<lambda>f. fst f = ZPT_EVENT_STATE) fs)"

lemma host_samples_append [simp]: "host_samples (fs @ gs) = host_samples fs @ host_samples gs"
  by (simp add: host_samples_def)

lemma control_keeps:
  "snd (zpt_handle_state_control reg payload st) = st\<lparr>state_levels := state_levels (snd (zpt_handle_state_control reg payload st))\<rparr>"
  by (simp add: zpt_handle_state_control_def Let_def)

lemma level_of_update [simp]:
  "zpt_state_telemetry_level (st\<lparr>record_queue := q\<rparr>) t = zpt_state_telemetry_level st t"
  by (simp add: zpt_state_telemetry_level_def)

context host_link begin

definition accounted :: "u32 \<Rightarrow> u32 \<Rightarrow> state_telemetry \<times> 'l \<times> zpt_state_sample list \<times> nat \<Rightarrow> bool" where
  "accounted first dropped0 s \<longleftrightarrow>
     (case s of (st, l, numbered, withheld) \<Rightarrow>
        \<exists>fs sent lost. carried l fs \<and> list_all (\<lambda>f. length (snd f) < 65536) fs \<and> host_samples fs = map Some sent \<and>
          subseq (sent @ record_queue st) numbered \<and> list_all sample_ok numbered \<and>
          map ss_sequence numbered = map (\<lambda>i. first + of_nat i) [0..<length numbered] \<and>
          state_sequence st = first + of_nat (length numbered) \<and> state_dropped st = dropped0 + of_nat lost \<and>
          length numbered = length sent + length (record_queue st) + withheld + lost)"

lemma accountedI:
  assumes "carried l fs" "list_all (\<lambda>f. length (snd f) < 65536) fs" "host_samples fs = map Some sent"
    "subseq (sent @ record_queue st) numbered" "list_all sample_ok numbered"
    "map ss_sequence numbered = map (\<lambda>i. first + of_nat i) [0..<length numbered]"
    "state_sequence st = first + of_nat (length numbered)" "state_dropped st = dropped0 + of_nat lost"
    "length numbered = length sent + length (record_queue st) + withheld + lost"
  shows "accounted first dropped0 (st, l, numbered, withheld)"
  using assms unfolding accounted_def by auto

lemma submit_accounted:
  assumes "accounted first dropped0 (st, l, numbered, withheld)" "sample_ok s"
  shows "accounted first dropped0 (state_step reg link host_timeout (SubmitSample s) (st, l, numbered, withheld))"
proof -
  obtain fs sent lost where I: "carried l fs" "list_all (\<lambda>f. length (snd f) < 65536) fs" "host_samples fs = map Some sent"
    "subseq (sent @ record_queue st) numbered" "list_all sample_ok numbered"
    "map ss_sequence numbered = map (\<lambda>i. first + of_nat i) [0..<length numbered]"
    "state_sequence st = first + of_nat (length numbered)" "state_dropped st = dropped0 + of_nat lost"
    "length numbered = length sent + length (record_queue st) + withheld + lost"
    using assms(1) by (auto simp: accounted_def)
  show ?thesis
  proof (cases "zpt_state_telemetry_level st (ss_target_id s) = ZPT_STATE_LEVEL_OFF")
    case True
    then show ?thesis using assms(1) by (simp add: zpt_state_telemetry_submit_def)
  next
    case False
    let ?s = "s\<lparr>ss_sequence := state_sequence st\<rparr>"
    have ok: "sample_ok ?s" using assms(2) by (simp add: sample_ok_def)
    show ?thesis
    proof (cases "length (record_queue st) \<ge> record_queue_size st")
      case True
      have "subseq (sent @ record_queue st) (numbered @ [?s])" using I(4) by (meson subseq_rev_drop_many)
      then show ?thesis
        using True False I ok
        by (auto simp: zpt_state_telemetry_submit_def Let_def intro!: accountedI [where lost = "lost + 1"])
    next
      case fits: False
      have "subseq ((sent @ record_queue st) @ [?s]) (numbered @ [?s])" using I(4) by (simp only: subseq_append)
      then show ?thesis
        using fits False I ok
        by (auto simp: zpt_state_telemetry_submit_def Let_def intro!: accountedI [where lost = lost])
    qed
  qed
qed

lemma drain_accounted:
  assumes "accounted first dropped0 (st, l, numbered, withheld)"
    and "state_step reg link host_timeout (DrainRecord now) (st, l, numbered, withheld) = (st', l', numbered', withheld')"
    and "\<not> cut l'"
  shows "accounted first dropped0 (st', l', numbered', withheld')"
proof -
  obtain fs sent lost where I: "carried l fs" "list_all (\<lambda>f. length (snd f) < 65536) fs" "host_samples fs = map Some sent"
    "subseq (sent @ record_queue st) numbered" "list_all sample_ok numbered"
    "map ss_sequence numbered = map (\<lambda>i. first + of_nat i) [0..<length numbered]"
    "state_sequence st = first + of_nat (length numbered)" "state_dropped st = dropped0 + of_nat lost"
    "length numbered = length sent + length (record_queue st) + withheld + lost"
    using assms(1) by (auto simp: accounted_def)
  show ?thesis
  proof (cases "record_queue st")
    case Nil
    then show ?thesis using assms by (auto simp: drain_record_def)
  next
    case (Cons r rs)
    have rest: "subseq (sent @ rs) numbered" "subseq sent numbered"
      using I(4) Cons by (metis list.distinct(1) subseq_Cons' subseq_append' subseq_order.trans list_emb_append2 append_Nil2 list_emb_Nil)+
    consider "unat (now - last_contact st) > host_timeout"
      | "unat (now - last_contact st) \<le> host_timeout" "zpt_state_telemetry_level st (ss_target_id r) = ZPT_STATE_LEVEL_OFF"
      | "unat (now - last_contact st) \<le> host_timeout" "zpt_state_telemetry_level st (ss_target_id r) \<noteq> ZPT_STATE_LEVEL_OFF"
      by linarith
    then show ?thesis
    proof cases
      case 1
      then show ?thesis
        using assms(2) Cons I rest(2)
        by (auto simp: drain_record_def zpt_state_disable_all_def intro!: accountedI [where sent = sent and lost = lost])
    next
      case 2
      then show ?thesis
        using assms(2) Cons I rest(1) by (auto simp: drain_record_def intro!: accountedI [where sent = sent and lost = lost])
    next
      case 3
      obtain ret l1 where send: "zpt_send_frame_on_link link (ZPT_EVENT_STATE, state_payload r) True l = (ret, l1)"
        by (metis prod.exhaust)
      have step: "l' = l1" "numbered' = numbered" "withheld' = withheld"
        "st' = (if ret < 0 then (st\<lparr>record_queue := rs\<rparr>)\<lparr>state_dropped := state_dropped st + 1\<rparr> else st\<lparr>record_queue := rs\<rparr>)"
        using assms(2) Cons 3 send by (auto simp: drain_record_def zpt_send_state_def Let_def)
      have "r \<in> set numbered" using list_emb_set [OF I(4), of r] Cons by auto
      then have ok: "sample_ok r" using I(5) by (auto simp: list_all_iff)
      have carried: "carried l1 (if 0 \<le> ret then fs @ [(ZPT_EVENT_STATE, state_payload r)] else fs)"
        using carried_send [OF I(1) send] assms(3) step(1) by simp
      show ?thesis
      proof (cases "ret < 0")
        case True
        then show ?thesis
          using carried I Cons rest(1) step by (auto intro!: accountedI [where sent = sent and lost = "lost + 1"])
      next
        case False
        have "host_samples (fs @ [(ZPT_EVENT_STATE, state_payload r)]) = map Some (sent @ [r])"
          using I(3) parse_state_sample [OF ok] by (simp add: host_samples_def)
        moreover have "list_all (\<lambda>f. length (snd f) < 65536) (fs @ [(ZPT_EVENT_STATE, state_payload r)])"
          using I(2) length_state_payload [OF ok] by simp
        ultimately show ?thesis
          using False carried I(4-9) Cons step
          by (auto intro!: accountedI [where sent = "sent @ [r]" and lost = lost and fs = "fs @ [(ZPT_EVENT_STATE, state_payload r)]"])
      qed
    qed
  qed
qed

lemma step_accounted:
  assumes "accounted first dropped0 s" "state_event_ok e" "\<not> cut (fst (snd (state_step reg link host_timeout e s)))"
  shows "accounted first dropped0 (state_step reg link host_timeout e s)"
proof -
  obtain st l numbered withheld where s: "s = (st, l, numbered, withheld)" by (metis prod.exhaust)
  show ?thesis
  proof (cases e)
    case (SubmitSample sample)
    then show ?thesis using submit_accounted assms(1,2) s by simp
  next
    case (DrainRecord now)
    obtain st' l' numbered' withheld' where
      step: "state_step reg link host_timeout (DrainRecord now) (st, l, numbered, withheld) = (st', l', numbered', withheld')"
      by (metis prod.exhaust)
    then show ?thesis using drain_accounted [OF _ step] assms(1,3) s DrainRecord by simp
  next
    case (StateControl payload)
    obtain levels where "snd (zpt_handle_state_control reg payload st) = st\<lparr>state_levels := levels\<rparr>"
      using control_keeps by blast
    then show ?thesis using assms(1) s StateControl by (simp add: accounted_def)
  next
    case (NoteContact now)
    then show ?thesis using assms(1) s by (simp add: accounted_def)
  next
    case (OtherFrame f)
    obtain ret l1 where send: "zpt_send_frame_on_link link f False l = (ret, l1)" by (metis prod.exhaust)
    obtain fs sent lost where I: "carried l fs" "list_all (\<lambda>f. length (snd f) < 65536) fs" "host_samples fs = map Some sent"
      "subseq (sent @ record_queue st) numbered" "list_all sample_ok numbered"
      "map ss_sequence numbered = map (\<lambda>i. first + of_nat i) [0..<length numbered]"
      "state_sequence st = first + of_nat (length numbered)" "state_dropped st = dropped0 + of_nat lost"
      "length numbered = length sent + length (record_queue st) + withheld + lost"
      using assms(1) s by (auto simp: accounted_def)
    have "\<not> cut l1" using assms(3) s OtherFrame send by simp
    note carried = carried_send [OF I(1) send this]
    have "host_samples (fs @ [f]) = map Some sent" using I(3) assms(2) OtherFrame by (simp add: host_samples_def)
    then have "accounted first dropped0 (st, l1, numbered, withheld)"
      using carried I assms(2) OtherFrame
      by (cases "0 \<le> ret")
        (auto intro!: accountedI [where sent = sent and lost = lost and fs = "if 0 \<le> ret then fs @ [f] else fs"])
    then show ?thesis using s OtherFrame send by simp
  qed
qed

lemma step_link:
  assumes "usable (fst (snd s))"
  shows "usable (fst (snd (state_step reg link host_timeout e s))) \<and>
    (cut (fst (snd s)) \<longrightarrow> cut (fst (snd (state_step reg link host_timeout e s))))"
proof -
  obtain st l numbered withheld where s: "s = (st, l, numbered, withheld)" by (metis prod.exhaust)
  have sends: "usable l' \<and> (cut l \<longrightarrow> cut l')" if "zpt_send_frame_on_link link f d l = (ret, l')" for f d ret l'
    using that assms usable_stays cut_stays s by (auto simp: zpt_send_frame_on_link_def)
  show ?thesis
  proof (cases e)
    case (DrainRecord now)
    have "fst (snd (state_step reg link host_timeout e s)) = snd (snd (drain_record link host_timeout now (st, l)))"
      using s DrainRecord by (simp split: prod.splits)
    moreover have "snd (snd (drain_record link host_timeout now (st, l))) = l \<or>
        (\<exists>f d. snd (snd (drain_record link host_timeout now (st, l))) = snd (zpt_send_frame_on_link link f d l))"
      by (auto simp: drain_record_def zpt_send_state_def Let_def split: list.splits prod.splits) (metis snd_conv)+
    ultimately show ?thesis using sends assms s by (metis fst_conv prod.collapse snd_conv)
  next
    case (OtherFrame f)
    then show ?thesis using sends [of f False] s by (cases "zpt_send_frame_on_link link f False l") simp
  qed (use assms s in simp_all)
qed

lemma run_accounted:
  assumes "accounted first dropped0 s" "list_all state_event_ok events"
    and "\<not> cut (fst (snd (state_run reg link host_timeout events s)))"
  shows "accounted first dropped0 (state_run reg link host_timeout events s)"
  using assms
proof (induction events arbitrary: s)
  case Nil
  then show ?case by (simp add: state_run_def)
next
  case (Cons e es)
  let ?s = "state_step reg link host_timeout e s"
  have run: "state_run reg link host_timeout (e # es) s = state_run reg link host_timeout es ?s" by (simp add: state_run_def)
  have usable: "usable (fst (snd t)) \<Longrightarrow> cut (fst (snd t)) \<Longrightarrow> cut (fst (snd (state_run reg link host_timeout es t)))" for t es
  proof (induction es arbitrary: t)
    case (Cons e es)
    then show ?case using step_link [of t reg host_timeout e] by (simp add: state_run_def)
  qed (simp add: state_run_def)
  have "usable (fst (snd s))" using Cons.prems(1) by (auto simp: accounted_def carried_def)
  then have "\<not> cut (fst (snd ?s))"
    using usable [of ?s es] step_link [of s reg host_timeout e] Cons.prems(3) run by auto
  then have "accounted first dropped0 ?s"
    by (intro step_accounted) (use Cons.prems(1,2) in simp_all)
  then show ?case using Cons.IH Cons.prems(2,3) run by simp
qed

end

text \<open>
Property C13. Over a Bluetooth link that does not go down in the middle of a frame, whatever sequence of
submitted samples, worker looks, control requests and other frames happens: the frames decode,
and the state samples among them are samples that were submitted, unchanged, in the order of
submission; every sample a target's level let in was given the next sequence number; and the ones
that neither arrived, nor wait in the queue, nor were withheld because their target was turned off
or the host was given up, are exactly counted by the drop counter.
\<close>

theorem state_samples_are_accounted_for:
  assumes "gatt_usable g" "gatt_notified g = []" "record_queue st = []" "list_all state_event_ok events"
    and "state_run reg zpt_gatt_transport host_timeout events (st, g, [], 0) = (st', g', numbered, withheld)"
    and "\<not> gatt_cut g'"
  shows "\<exists>fs sent lost. decode_frames (gatt_notified g') = (fs, []) \<and> host_samples fs = map Some sent \<and>
    subseq (sent @ record_queue st') numbered \<and>
    map ss_sequence numbered = map (\<lambda>i. state_sequence st + of_nat i) [0..<length numbered] \<and>
    state_dropped st' = state_dropped st + of_nat lost \<and>
    length numbered = length sent + length (record_queue st') + withheld + lost"
proof -
  have "gatt.accounted (state_sequence st) (state_dropped st) (st, g, [], 0)"
    using assms(1-3) by (intro gatt.accountedI [where fs = "[]" and sent = "[]" and lost = 0])
      (simp_all add: gatt.carried_def host_samples_def)
  from gatt.run_accounted [OF this assms(4), of reg host_timeout] assms(5,6)
  have "gatt.accounted (state_sequence st) (state_dropped st) (st', g', numbered, withheld)" by simp
  then obtain fs sent lost where I: "gatt.carried g' fs" "list_all (\<lambda>f. length (snd f) < 65536) fs"
    "host_samples fs = map Some sent" "subseq (sent @ record_queue st') numbered"
    "map ss_sequence numbered = map (\<lambda>i. state_sequence st + of_nat i) [0..<length numbered]"
    "state_dropped st' = state_dropped st + of_nat lost"
    "length numbered = length sent + length (record_queue st') + withheld + lost"
    unfolding gatt.accounted_def by auto
  then show ?thesis using gatt.carried_decodes by blast
qed


definition demo_sample :: zpt_state_sample where
  "demo_sample = \<lparr>ss_timestamp_ms = 7, ss_sequence = 0, ss_target_id = 1, ss_target_kind = 4, ss_event = 1, ss_intent = 0,
     ss_flags = 2, ss_values = replicate 10 (- 1)\<rparr>"

theorem state_samples_are_accounted_for_witness:
  "\<exists>fs sent. decode_frames (gatt_notified (fst (snd (state_run demo_registry zpt_gatt_transport 2500
       [StateControl [1, 1], SubmitSample demo_sample, DrainRecord 9, SubmitSample demo_sample]
       (demo_state, (demo_gatt [])\<lparr>gatt_chunk_max := 20, gatt_credits := 2\<rparr>, [], 0))))) = (fs, []) \<and> host_samples fs = map Some sent"
proof -
  let ?g = "(demo_gatt [])\<lparr>gatt_chunk_max := 20, gatt_credits := 2\<rparr>"
  let ?es = "[StateControl [1, 1], SubmitSample demo_sample, DrainRecord 9, SubmitSample demo_sample]"
  obtain st' g' numbered withheld where
    run: "state_run demo_registry zpt_gatt_transport 2500 ?es (demo_state, ?g, [], 0) = (st', g', numbered, withheld)"
    by (metis prod.exhaust)
  have "\<not> gatt_cut (fst (snd (state_run demo_registry zpt_gatt_transport 2500 ?es (demo_state, ?g, [], 0))))" by code_simp
  then have whole: "\<not> gatt_cut g'" by (simp only: run fst_conv snd_conv not_False_eq_True)
  have ok: "gatt_usable ?g" "gatt_notified ?g = []" "record_queue demo_state = []" "list_all state_event_ok ?es"
    by (simp_all add: gatt_usable_def demo_gatt_def demo_state_def sample_ok_def demo_sample_def)
  show ?thesis
    using state_samples_are_accounted_for [OF ok run whole] unfolding run fst_conv snd_conv by blast
qed


section \<open>What the host sees of the levels\<close>

record host_state_status =
  hs_dropped :: u32
  hs_queue_capacity :: u16
  hs_targets :: "(u8 \<times> u8 \<times> u8 list) list"

fun read_state_targets :: "nat \<Rightarrow> u8 list \<Rightarrow> (u8 \<times> u8 \<times> u8 list) list option" where
  "read_state_targets 0 bytes = Some []"
| "read_state_targets (Suc n) bytes =
     (if length bytes < 3 then None
      else
        let label_length = unat (bytes ! 2); rest = drop 3 bytes in
        if length rest < label_length then None
        else map_option (Cons (bytes ! 0, bytes ! 1, take label_length rest))
          (read_state_targets n (drop label_length rest)))"

definition parseStateStatus :: "u8 list \<Rightarrow> host_state_status option" where
  "parseStateStatus payload =
     (if length payload < 8 \<or> payload ! 0 \<noteq> ZPT_STATE_SCHEMA_VERSION then None
      else map_option (\<lambda>targets. \<lparr>hs_dropped = get_le32 (drop 1 payload), hs_queue_capacity = get_le16 (drop 5 payload),
          hs_targets = targets\<rparr>) (read_state_targets (unat (payload ! 7)) (drop 8 payload)))"

lemma length_state_label: "length (state_label reg st i) \<le> 27"
  using length_limited [of 27] by (auto simp: state_label_def split: option.splits)

lemma read_state_target_list:
  "read_state_targets (length is)
     (concat (map (\<lambda>i. [of_nat i, state_levels st ! i, of_nat (length (state_label reg st i))] @ state_label reg st i) is)) =
   Some (map (\<lambda>i. (of_nat i, state_levels st ! i, state_label reg st i)) is)"
proof (induction "is")
  case (Cons i "is")
  have "unat (of_nat (length (state_label reg st i)) :: u8) = length (state_label reg st i)"
    using length_state_label [of reg st i] by (simp add: unat_small)
  with Cons show ?case by simp
qed simp

lemma status_is_read_back:
  assumes "length (state_levels st) \<le> 255"
  shows "parseStateStatus (snd (zpt_send_state_status reg st)) =
    Some \<lparr>hs_dropped = state_dropped st, hs_queue_capacity = of_nat (record_queue_size st),
      hs_targets = map (\<lambda>i. (of_nat i, state_levels st ! i, state_label reg st i)) [0..<state_target_count reg st]\<rparr>"
proof -
  have "unat (of_nat (state_target_count reg st) :: u8) = state_target_count reg st"
    using assms by (simp add: unat_small state_target_count_def)
  then show ?thesis
    using read_state_target_list [of "[0..<state_target_count reg st]" st reg]
    by (simp add: parseStateStatus_def zpt_send_state_status_def nth_append)
qed

text \<open>
A request that turns the state telemetry of one target or of all of them to a level takes
effect at once, on that target or on all and on no other, for the next sample submitted; and the
answer shows the host the level and the label of every target the table lists, with the drop
counter. Any other request changes no level.
\<close>

theorem state_control_takes_effect:
  assumes "length (state_levels st) \<le> 255" "zpt_handle_state_control reg payload st = (answer, st')"
  shows "(\<forall>target. zpt_state_telemetry_level st' target =
      (if length payload = 2 \<and> payload ! 1 \<le> ZPT_STATE_LEVEL_VERBOSE \<and> unat target < length (state_levels st) \<and>
          payload ! 0 \<in> {target, ZPT_STATE_ALL_TARGETS}
       then payload ! 1 else zpt_state_telemetry_level st target)) \<and>
    fst answer = ZPT_RESP_STATE_STATUS \<and>
    parseStateStatus (snd answer) = Some \<lparr>hs_dropped = state_dropped st, hs_queue_capacity = of_nat (record_queue_size st),
      hs_targets = map (\<lambda>i. (of_nat i, zpt_state_telemetry_level st' (of_nat i), state_label reg st i))
        [0..<state_target_count reg st]\<rparr>"
proof -
  have kept: "length (state_levels st') = length (state_levels st)" "state_labels st' = state_labels st"
    "state_dropped st' = state_dropped st" "record_queue_size st' = record_queue_size st"
    "state_slot_limit st' = state_slot_limit st" "answer = zpt_send_state_status reg st'"
    using assms(2) by (auto simp: zpt_handle_state_control_def Let_def split: if_splits)
  then have same: "state_target_count reg st' = state_target_count reg st" "state_label reg st' = state_label reg st"
    by (simp_all add: state_target_count_def state_label_def fun_eq_iff split: option.split)
  have "zpt_state_telemetry_level st' (of_nat i) = state_levels st' ! i" if "i < state_target_count reg st" for i
    using that assms(1) kept(1) by (simp add: state_target_count_def zpt_state_telemetry_level_def unat_small)
  then have levels: "map (\<lambda>i. (of_nat i, state_levels st' ! i, state_label reg st i)) [0..<state_target_count reg st] =
      map (\<lambda>i. (of_nat i :: u8, zpt_state_telemetry_level st' (of_nat i), state_label reg st i)) [0..<state_target_count reg st]"
    by simp
  have "zpt_state_telemetry_level st' target =
      (if length payload = 2 \<and> payload ! 1 \<le> ZPT_STATE_LEVEL_VERBOSE \<and> unat target < length (state_levels st) \<and>
          payload ! 0 \<in> {target, ZPT_STATE_ALL_TARGETS}
       then payload ! 1 else zpt_state_telemetry_level st target)" for target
    using assms by (auto simp: zpt_handle_state_control_def zpt_state_telemetry_level_def Let_def nth_list_update word_unat_eq_iff
        split: if_splits)
  then show ?thesis
    using status_is_read_back [of st' reg] assms(1) kept levels by (auto simp: same zpt_send_state_status_def)
qed

theorem state_control_takes_effect_witness:
  "zpt_state_telemetry_level (snd (zpt_handle_state_control demo_registry [1, 2] demo_state)) 1 = 2 \<and>
   zpt_state_telemetry_level (snd (zpt_handle_state_control demo_registry [1, 2] demo_state)) 0 = 0"
proof -
  obtain answer st' where run: "zpt_handle_state_control demo_registry [1, 2] demo_state = (answer, st')" by fastforce
  have "length (state_levels demo_state) \<le> 255" by (simp add: demo_state_def)
  note level = conjunct1 [OF state_control_takes_effect [OF this run], THEN spec]
  show ?thesis
    using level [of 1] level [of 0] unfolding run by (simp add: demo_state_def zpt_state_telemetry_level_def)
qed

end
