(* ===== verification/Pipeline_Twins.thy ===== *)
theory Pipeline_Twins
  imports Pipeline_Properties
begin

text \<open>
  When two pipelines cannot be told apart by what goes in and comes out. The second may live in
  another store, with other objects: replay rebuilds a recorded pipeline on the host. Stages are
  compared by what their calls do, not by their memory, because a reset leaves in place what a
  stage reads only after writing it again.
\<close>

section \<open>The same motion at another time\<close>

text \<open>
  A replayed signal carries what the stages read of the recorded one: the same kind, values,
  annotations and resolution, seen \<open>D\<close> milliseconds earlier, with the same sample span. A clipped
  span need not be marked as clipped if it is so long that it counts as a restart.
\<close>

definition span_like :: "zpt_signal_metadata \<Rightarrow> zpt_signal_metadata \<Rightarrow> bool" where
  "span_like m m' \<longleftrightarrow>
     (if flags m AND FLAG_SAMPLE_SPAN_CLIPPED \<noteq> 0
      then flags m' AND FLAG_SAMPLE_SPAN_CLIPPED \<noteq> 0 \<or> 40000 \<le> sample_span_us m'
      else flags m' AND FLAG_SAMPLE_SPAN_CLIPPED = 0 \<and> sample_span_us m' = sample_span_us m)"

definition meta_like :: "zpt_signal_metadata \<Rightarrow> zpt_signal_metadata \<Rightarrow> bool" where
  "meta_like m m' \<longleftrightarrow> resolution_cpi m' = resolution_cpi m \<and> span_like m m'"

definition same_motion :: "u32 \<Rightarrow> zpt_signal \<Rightarrow> zpt_signal \<Rightarrow> bool" where
  "same_motion D s s' \<longleftrightarrow> kind s' = kind s \<and> annotations s' = annotations s \<and> data s' = data s \<and>
     observed_at_ms (metadata s') = observed_at_ms (metadata s) - D \<and> meta_like (metadata s) (metadata s')"

lemma same_motionD:
  assumes "same_motion D s s'"
  shows "kind s' = kind s" "annotations s' = annotations s" "data s' = data s"
    "observed_at_ms (metadata s') = observed_at_ms (metadata s) - D"
    "resolution_cpi (metadata s') = resolution_cpi (metadata s)" "meta_like (metadata s) (metadata s')"
    "span_like (metadata s) (metadata s')"
    "raw_motion s' = raw_motion s" "fixed_vector s' = fixed_vector s" "delta s' = delta s"
  using assms by (simp_all add: same_motion_def meta_like_def)

lemma elapsed_shift [simp]: "(now - D) - (past - D) = now - (past :: u32)"
  by simp

lemma time_reached_shift [simp]: "time_reached (now - D) (deadline - D) = time_reached now deadline"
  by (simp add: time_reached_def)

section \<open>Stages that forget\<close>

text \<open>The same calls, \<open>D\<close> milliseconds earlier, with what the later ones see and the states left related.\<close>

primrec prog_twin :: "u32 \<Rightarrow> ('s option \<Rightarrow> 's option \<Rightarrow> bool) \<Rightarrow> 's stage_prog \<Rightarrow> 's stage_prog \<Rightarrow> bool" where
  "prog_twin D R (Return r st) q = (\<exists>st'. q = Return r st' \<and> R st st')"
| "prog_twin D R (Emit s k) q = (\<exists>s' k'. q = Emit s' k' \<and> same_motion D s s' \<and> (\<forall>r. prog_twin D R (k r) (k' r)))"
| "prog_twin D R (ScheduleFlush d k) q = (\<exists>k'. q = ScheduleFlush (d - D) k' \<and> (\<forall>r. prog_twin D R (k r) (k' r)))"
| "prog_twin D R (CancelFlush p) q = (\<exists>p'. q = CancelFlush p' \<and> prog_twin D R p p')"
| "prog_twin D R (Notify e v p) q = (\<exists>p'. q = Notify e v p' \<and> prog_twin D R p p')"

lemma prog_twin_emit_return [intro]:
  "same_motion D s s' \<Longrightarrow> R st st' \<Longrightarrow> prog_twin D R (emit_return s st) (emit_return s' st')"
  by (simp add: emit_return_def)

lemma prog_twin_notify_all [simp]: "prog_twin D R (notify_all es p) (notify_all es q) = prog_twin D R p q"
  by (induction es) (auto simp: notify_all_def)

text \<open>
  What replay needs of a stage: with configurations related by \<open>C\<close> and states by \<open>R\<close>, its callbacks
  make the same calls, the same time later; and a reset makes any two states related, whatever was
  there before.
\<close>

definition reset_state :: "('c, 's) zpt_stage_api \<Rightarrow> 'c option \<Rightarrow> 's option \<Rightarrow> zpt_reset_reason \<Rightarrow> 's option" where
  "reset_state api c st reason = (case api_reset api of None \<Rightarrow> st | Some h \<Rightarrow> h c st reason)"

locale forgetful_stage =
  fixes D :: u32 and C :: "'c option \<Rightarrow> 'c option \<Rightarrow> bool" and R :: "'s option \<Rightarrow> 's option \<Rightarrow> bool" and api :: "('c, 's) zpt_stage_api"
  assumes process_twin: "api_process api = Some f \<Longrightarrow> C c c' \<Longrightarrow> R st st' \<Longrightarrow> same_motion D s s' \<Longrightarrow>
      prog_twin D R (f c st now s) (f c' st' (now - D) s')"
    and flush_twin: "api_flush api = Some g \<Longrightarrow> C c c' \<Longrightarrow> R st st' \<Longrightarrow>
      prog_twin D R (g c st deadline now) (g c' st' (deadline - D) (now - D))"
    and reset_forgets: "C c c' \<Longrightarrow> (st = None \<longleftrightarrow> st' = None) \<or> (\<forall>z z'. R z z') \<Longrightarrow>
      R (reset_state api c st reason) (reset_state api c' st' reason')"
    and reset_keeps: "reset_state api c (Some s0) reason \<noteq> None"
    and put_keeps: "R st st' \<Longrightarrow> R z z' \<Longrightarrow>
      R (if st = None \<or> z = None then st else z) (if st' = None \<or> z' = None then st' else z')"
    and absent_alike: "R None None"
    and has_process: "api_process api \<noteq> None"

section \<open>Twin pipelines\<close>

definition stage_twin :: "u32 \<Rightarrow> (('c, 's) zpt_stage_api \<Rightarrow> 's option \<Rightarrow> 's option \<Rightarrow> bool) \<Rightarrow> ('c, 's, 'k) world \<Rightarrow> nat \<Rightarrow>
    ('c, 's, 'l) world \<Rightarrow> nat \<Rightarrow> bool" where
  "stage_twin D R w sid w' sid' \<longleftrightarrow>
     (let g = w_stages w sid; g' = w_stages w' sid' in
      stg_deadline_pending g' = stg_deadline_pending g \<and>
      (stg_deadline_pending g \<longrightarrow> stg_deadline_ms g' = stg_deadline_ms g - D \<and> api_flush (the (stg_api g)) \<noteq> None) \<and>
      R (the (stg_api g)) (stage_state w sid) (stage_state w' sid'))"

text \<open>What a signal is when it reaches the place after \<open>i\<close> stages.\<close>

definition kind_here :: "('c, 's, 'k) world \<Rightarrow> nat \<Rightarrow> nat \<Rightarrow> zpt_signal_kind" where
  "kind_here w pid = kind_at w (pl_input_kind (w_pipes w pid)) (pl_stages (w_pipes w pid))"

text \<open>Sinks that take signals of one kind alike.\<close>

definition sink_twin :: "u32 \<Rightarrow> zpt_signal_kind \<Rightarrow> ('k \<Rightarrow> 'l \<Rightarrow> bool) \<Rightarrow> 'k zpt_sink_api \<Rightarrow> 'l zpt_sink_api \<Rightarrow> bool" where
  "sink_twin D accepted K api api' \<longleftrightarrow>
     kind_accepted (sink_accepted_kinds api') accepted = kind_accepted (sink_accepted_kinds api) accepted \<and>
     (\<forall>k l s s'. K k l \<longrightarrow> kind s = accepted \<longrightarrow> same_motion D s s' \<longrightarrow> rel_prod (=) K (the (sink_emit api) k s) (the (sink_emit api') l s'))"

text \<open>Stages of one pipeline share no memory.\<close>

definition own_memory :: "('c, 's, 'k) world \<Rightarrow> nat list \<Rightarrow> bool" where
  "own_memory w ids \<longleftrightarrow> distinct ids \<and>
     (\<forall>a \<in> set ids. \<forall>b \<in> set ids. a \<noteq> b \<longrightarrow> stg_state (w_stages w a) = None \<or>
        stg_state (w_stages w a) \<noteq> stg_state (w_stages w b))"

text \<open>What no operation changes: the twins are built alike, of stages that forget.\<close>

definition built_alike :: "u32 \<Rightarrow> ('c option \<Rightarrow> 'c option \<Rightarrow> bool) \<Rightarrow> (('c, 's) zpt_stage_api \<Rightarrow> 's option \<Rightarrow> 's option \<Rightarrow> bool) \<Rightarrow> ('k \<Rightarrow> 'l \<Rightarrow> bool) \<Rightarrow>
    ('c, 's, 'k) world \<Rightarrow> nat \<Rightarrow> ('c, 's, 'l) world \<Rightarrow> nat \<Rightarrow> bool" where
  "built_alike D C R K w pid w' pid' \<longleftrightarrow>
     (let p = w_pipes w pid; p' = w_pipes w' pid'; ids = pl_stages p; ids' = pl_stages p' in
      length ids' = length ids \<and> own_memory w ids \<and> own_memory w' ids' \<and>
      pl_input_kind p' = pl_input_kind p \<and> pl_dispatch_budget p' = pl_dispatch_budget p \<and>
      (\<forall>i < length ids. \<exists>api. stg_api (w_stages w (ids ! i)) = Some api \<and> stg_api (w_stages w' (ids' ! i)) = Some api \<and>
         forgetful_stage D C (R api) api \<and> C (stg_config (w_stages w (ids ! i))) (stg_config (w_stages w' (ids' ! i))) \<and>
         ((stg_state (w_stages w (ids ! i)) = None \<longleftrightarrow> stg_state (w_stages w' (ids' ! i)) = None) \<or> (\<forall>z z'. R api z z'))) \<and>
      (\<exists>k l. snk_api (w_sinks w (pl_sink p)) = Some k \<and> snk_api (w_sinks w' (pl_sink p')) = Some l \<and>
         sink_twin D (kind_here w pid (length ids)) K k l))"

text \<open>What operations change, alike in both.\<close>

definition in_step :: "u32 \<Rightarrow> ('c option \<Rightarrow> 'c option \<Rightarrow> bool) \<Rightarrow> (('c, 's) zpt_stage_api \<Rightarrow> 's option \<Rightarrow> 's option \<Rightarrow> bool) \<Rightarrow> ('k \<Rightarrow> 'l \<Rightarrow> bool) \<Rightarrow>
    ('c, 's, 'k) world \<Rightarrow> nat \<Rightarrow> ('c, 's, 'l) world \<Rightarrow> nat \<Rightarrow> bool" where
  "in_step D C R K w pid w' pid' \<longleftrightarrow>
     (let p = w_pipes w pid; p' = w_pipes w' pid' in
      pl_validated p' = pl_validated p \<and> pl_active p' = pl_active p \<and>
      (\<forall>i < length (pl_stages p). stage_twin D R w (pl_stages p ! i) w' (pl_stages p' ! i)) \<and>
      K (snk_state (w_sinks w (pl_sink p))) (snk_state (w_sinks w' (pl_sink p'))))"

definition twins :: "u32 \<Rightarrow> ('c option \<Rightarrow> 'c option \<Rightarrow> bool) \<Rightarrow> (('c, 's) zpt_stage_api \<Rightarrow> 's option \<Rightarrow> 's option \<Rightarrow> bool) \<Rightarrow> ('k \<Rightarrow> 'l \<Rightarrow> bool) \<Rightarrow>
    ('c, 's, 'k) world \<Rightarrow> nat \<Rightarrow> ('c, 's, 'l) world \<Rightarrow> nat \<Rightarrow> bool" where
  "twins D C R K w pid w' pid' \<longleftrightarrow> built_alike D C R K w pid w' pid' \<and> in_step D C R K w pid w' pid'"

definition twin_machines :: "u32 \<Rightarrow> ('c option \<Rightarrow> 'c option \<Rightarrow> bool) \<Rightarrow> (('c, 's) zpt_stage_api \<Rightarrow> 's option \<Rightarrow> 's option \<Rightarrow> bool) \<Rightarrow> ('k \<Rightarrow> 'l \<Rightarrow> bool) \<Rightarrow>
    ('c, 's, 'k) machine \<Rightarrow> ('c, 's, 'l) machine \<Rightarrow> bool" where
  "twin_machines D C R K m m' \<longleftrightarrow> twins D C R K (fst m) (op_pipeline (snd m)) (fst m') (op_pipeline (snd m')) \<and>
     op_now (snd m') = op_now (snd m) - D \<and> op_remaining (snd m') = op_remaining (snd m) \<and>
     rel_option (rel_prod (same_motion D) (=)) (op_pending (snd m)) (op_pending (snd m')) \<and> op_result (snd m') = op_result (snd m) \<and>
     (\<forall>s i. op_pending (snd m) = Some (s, i) \<longrightarrow> i \<le> length (op_stages m) \<and> kind s = kind_here (fst m) (op_pipeline (snd m)) i)"

abbreviation (input) "placed m s i \<equiv> i \<le> length (op_stages m) \<and> kind s = kind_here (fst m) (op_pipeline (snd m)) i"

abbreviation (input) "same_result D C R K \<equiv> rel_prod (=) (twin_machines D C R K)"


section \<open>Updates keep twins in step\<close>

lemma kind_here_shape:
  assumes "same_shape w v"
  shows "kind_here v pid i = kind_here w pid i"
  by (simp add: kind_here_def kind_at_def same_shape_simps [OF assms])

lemma kind_here_simps [simp]:
  "kind_here (log_if b e w) = kind_here w" "kind_here (put_state sid st w) = kind_here w"
  "kind_here (update_stage sid (\<lambda>g. g\<lparr>stg_deadline_pending := c\<rparr>) w) = kind_here w"
  "kind_here (update_stage sid (\<lambda>g. g\<lparr>stg_deadline_ms := d, stg_deadline_pending := c\<rparr>) w) = kind_here w"
  "kind_here (update_sink kid (\<lambda>k. k\<lparr>snk_state := v\<rparr>) w) = kind_here w"
  by (intro ext kind_here_shape same_shape_basic)+

lemma kind_here_Suc:
  "stg_api (w_stages w (pl_stages (w_pipes w pid) ! i)) = Some api \<Longrightarrow> kind_here w pid (Suc i) = output_kind api"
  by (simp add: kind_here_def kind_at_def)

lemma kind_here_advances: "advances m n \<Longrightarrow> kind_here (fst n) (op_pipeline (snd n)) i = kind_here (fst m) (op_pipeline (snd m)) i"
  by (cases m; cases n) (simp add: advances_def kind_here_shape)

lemma built_alike_shape:
  assumes "built_alike D C R K w pid w' pid'" "same_shape w v" "same_shape w' v'"
  shows "built_alike D C R K v pid v' pid'"
  using assms(1) unfolding built_alike_def own_memory_def Let_def
  by (simp add: same_shape_simps [OF assms(2)] same_shape_simps [OF assms(3)] kind_here_shape [OF assms(2)])

lemma stage_state_simps [simp]:
  "stage_state (log_if b e w) sid = stage_state w sid"
  "stage_state (update_sink kid f w) sid = stage_state w sid"
  "stage_state (update_stage i (\<lambda>g. g\<lparr>stg_deadline_pending := b\<rparr>) w) sid = stage_state w sid"
  "stage_state (update_stage i (\<lambda>g. g\<lparr>stg_deadline_ms := d, stg_deadline_pending := b\<rparr>) w) sid = stage_state w sid"
  by (simp_all add: stage_state_def)

lemma stage_state_put:
  "stage_state (put_state sid st w) sid = (if stage_state w sid = None \<or> st = None then stage_state w sid else st)"
  "stg_state (w_stages w other) = None \<or> stg_state (w_stages w other) \<noteq> stg_state (w_stages w sid) \<Longrightarrow>
     stage_state (put_state sid st w) other = stage_state w other"
   apply (auto simp: stage_state_def put_state_def split: option.split)[1]
  by (cases "stg_state (w_stages w other)") (auto simp: stage_state_def put_state_def split: option.split)

lemma twinsD:
  assumes "twins D C R K w pid w' pid'"
  shows "length (pl_stages (w_pipes w' pid')) = length (pl_stages (w_pipes w pid))"
    and "pl_dispatch_budget (w_pipes w' pid') = pl_dispatch_budget (w_pipes w pid)"
    and "pl_input_kind (w_pipes w' pid') = pl_input_kind (w_pipes w pid)"
    and "pl_validated (w_pipes w' pid') = pl_validated (w_pipes w pid)"
    and "pl_active (w_pipes w' pid') = pl_active (w_pipes w pid)"
    and "K (snk_state (w_sinks w (pl_sink (w_pipes w pid)))) (snk_state (w_sinks w' (pl_sink (w_pipes w' pid'))))"
  using assms by (simp_all add: twins_def built_alike_def in_step_def Let_def)

lemma twins_stage:
  assumes "twins D C R K w pid w' pid'" "i < length (pl_stages (w_pipes w pid))"
  obtains api where
    "stg_api (w_stages w (pl_stages (w_pipes w pid) ! i)) = Some api"
    "stg_api (w_stages w' (pl_stages (w_pipes w' pid') ! i)) = Some api" "forgetful_stage D C (R api) api"
    "C (stg_config (w_stages w (pl_stages (w_pipes w pid) ! i))) (stg_config (w_stages w' (pl_stages (w_pipes w' pid') ! i)))"
    "stage_twin D R w (pl_stages (w_pipes w pid) ! i) w' (pl_stages (w_pipes w' pid') ! i)"
  using assms by (auto simp: twins_def built_alike_def in_step_def Let_def)

text \<open>An update of both machines that keeps their shapes, and one stage of each in step.\<close>

lemma twins_update:
  assumes tw: "twins D C R K w pid w' pid'" and shape: "same_shape w v" "same_shape w' v'"
    and sinks: "K (snk_state (w_sinks v (pl_sink (w_pipes w pid)))) (snk_state (w_sinks v' (pl_sink (w_pipes w' pid'))))"
    and stages: "\<And>j. j < length (pl_stages (w_pipes w pid)) \<Longrightarrow>
      stage_twin D R v (pl_stages (w_pipes w pid) ! j) v' (pl_stages (w_pipes w' pid') ! j)"
  shows "twins D C R K v pid v' pid'"
  using tw sinks stages built_alike_shape [OF _ shape]
  by (auto simp: twins_def in_step_def Let_def same_shape_pipes [OF shape(1)] same_shape_pipes [OF shape(2)])

lemma twins_log: "twins D C R K w pid w' pid' \<Longrightarrow> twins D C R K (log_if b e w) pid (log_if b' e' w') pid'"
  by (rule twins_update) (auto simp: twins_def in_step_def stage_twin_def Let_def)

lemma twins_put_state:
  assumes tw: "twins D C R K w pid w' pid'" and i: "i < length (pl_stages (w_pipes w pid))" 
    and st: "R (the (stg_api (w_stages w (pl_stages (w_pipes w pid) ! i)))) st st'"
  shows "twins D C R K (put_state (pl_stages (w_pipes w pid) ! i) st w) pid (put_state (pl_stages (w_pipes w' pid') ! i) st' w') pid'"
proof (rule twins_update [OF tw])
  let ?ids = "pl_stages (w_pipes w pid)" and ?ids' = "pl_stages (w_pipes w' pid')"
  show "K (snk_state (w_sinks (put_state (?ids ! i) st w) (pl_sink (w_pipes w pid))))
      (snk_state (w_sinks (put_state (?ids' ! i) st' w') (pl_sink (w_pipes w' pid'))))"
    using twinsD [OF tw] by simp
  fix j
  assume j: "j < length ?ids"
  obtain api where twin: "stage_twin D R w (?ids ! j) w' (?ids' ! j)"
    using twins_stage [OF tw j] by blast
  show "stage_twin D R (put_state (?ids ! i) st w) (?ids ! j) (put_state (?ids' ! i) st' w') (?ids' ! j)"
  proof (cases "j = i")
    case True
    have "R (the (stg_api (w_stages w (?ids ! i)))) (stage_state w (?ids ! i)) (stage_state w' (?ids' ! i))"
      using twin True by (simp add: stage_twin_def Let_def)
    moreover obtain api where api: "stg_api (w_stages w (?ids ! i)) = Some api" "forgetful_stage D C (R api) api"
      using twins_stage [OF tw i] by metis
    ultimately show ?thesis
      using twin True st forgetful_stage.put_keeps [OF api(2)] by (simp add: stage_twin_def Let_def stage_state_put(1))
  next
    case False
    have apart: "stg_state (w_stages w (?ids ! j)) = None \<or> stg_state (w_stages w (?ids ! j)) \<noteq> stg_state (w_stages w (?ids ! i))"
      "stg_state (w_stages w' (?ids' ! j)) = None \<or> stg_state (w_stages w' (?ids' ! j)) \<noteq> stg_state (w_stages w' (?ids' ! i))"
      using tw i j False by (auto simp: twins_def built_alike_def own_memory_def Let_def nth_eq_iff_index_eq)
    then show ?thesis using twin by (simp add: stage_twin_def Let_def stage_state_put(2))
  qed
qed auto

lemma twins_deadline:
  assumes tw: "twins D C R K w pid w' pid'" and i: "i < length (pl_stages (w_pipes w pid))"
    and f_cases: "f = (\<lambda>g. g\<lparr>stg_deadline_pending := False\<rparr>) \<and> f' = f \<or>
      f = (\<lambda>g. g\<lparr>stg_deadline_ms := d, stg_deadline_pending := True\<rparr>) \<and>
      f' = (\<lambda>g. g\<lparr>stg_deadline_ms := d - D, stg_deadline_pending := True\<rparr>) \<and>
      api_flush (the (stg_api (w_stages w (pl_stages (w_pipes w pid) ! i)))) \<noteq> None"
  shows "twins D C R K (update_stage (pl_stages (w_pipes w pid) ! i) f w) pid
    (update_stage (pl_stages (w_pipes w' pid') ! i) f' w') pid'"
proof (rule twins_update [OF tw])
  let ?ids = "pl_stages (w_pipes w pid)" and ?ids' = "pl_stages (w_pipes w' pid')"
  show "same_shape w (update_stage (?ids ! i) f w)" "same_shape w' (update_stage (?ids' ! i) f' w')" using f_cases by auto
  show "K (snk_state (w_sinks (update_stage (?ids ! i) f w) (pl_sink (w_pipes w pid))))
      (snk_state (w_sinks (update_stage (?ids' ! i) f' w') (pl_sink (w_pipes w' pid'))))"
    using twinsD [OF tw] by simp
  fix j
  assume j: "j < length ?ids"
  have len: "length ?ids' = length ?ids" using twinsD [OF tw] by simp
  have "distinct ?ids" "distinct ?ids'" using tw by (simp_all add: twins_def built_alike_def own_memory_def Let_def)
  then have same: "?ids ! j = ?ids ! i \<longleftrightarrow> j = i" "?ids' ! j = ?ids' ! i \<longleftrightarrow> j = i"
    using i j len by (simp_all add: nth_eq_iff_index_eq)
  have twin: "stage_twin D R w (?ids ! j) w' (?ids' ! j)" using twins_stage [OF tw j] by blast
  then show "stage_twin D R (update_stage (?ids ! i) f w) (?ids ! j) (update_stage (?ids' ! i) f' w') (?ids' ! j)"
    using f_cases by (auto simp: stage_twin_def Let_def same)
qed

lemma twins_sink:
  assumes "twins D C R K w pid w' pid'" "K k l"
  shows "twins D C R K (update_sink (pl_sink (w_pipes w pid)) (\<lambda>s. s\<lparr>snk_state := k\<rparr>) w) pid
    (update_sink (pl_sink (w_pipes w' pid')) (\<lambda>s. s\<lparr>snk_state := l\<rparr>) w') pid'"
  using assms(1)
  by (rule twins_update) (use assms in \<open>auto simp: twins_def in_step_def stage_twin_def Let_def\<close>)


section \<open>Operations keep twins in step\<close>

lemma twin_machinesD:
  assumes "twin_machines D C R K (w, op) (w', op')"
  shows "twins D C R K w (op_pipeline op) w' (op_pipeline op')" "op_now op' = op_now op - D"
    "op_remaining op' = op_remaining op" "rel_option (rel_prod (same_motion D) (=)) (op_pending op) (op_pending op')" "op_result op' = op_result op"
    "length (pl_stages (w_pipes w' (op_pipeline op'))) = length (pl_stages (w_pipes w (op_pipeline op)))"
    "\<And>s i. op_pending op = Some (s, i) \<Longrightarrow> i \<le> length (pl_stages (w_pipes w (op_pipeline op)))"
    "\<And>s i. op_pending op = Some (s, i) \<Longrightarrow> kind s = kind_here w (op_pipeline op) i"
  using assms twinsD(1) [of D C R K w "op_pipeline op" w' "op_pipeline op'"] by (simp_all add: twin_machines_def)

lemma emit_twin:
  assumes disp: "\<And>s s' i m m'. twin_machines D C R K m m' \<Longrightarrow> same_motion D s s' \<Longrightarrow> placed m s i \<Longrightarrow>
      same_result D C R K (disp s i m) (disp' s' i m')"
    and m: "twin_machines D C R K m m'" and s: "same_motion D s s'" and adv: "\<And>s i m. advances m (snd (disp s i m))"
  shows "same_result D C R K (zpt_stage_emit disp index s m) (zpt_stage_emit disp' index s' m')"
proof (cases "index < length (op_stages m)")
  case True
  obtain w op w' op' where ms: "m = (w, op)" "m' = (w', op')" by (cases m; cases m')
  note mD = twin_machinesD [OF m [unfolded ms]]
  obtain api where api: "stg_api (w_stages w (op_stages m ! index)) = Some api"
    "stg_api (w_stages w' (op_stages m' ! index)) = Some api"
    using twins_stage [OF mD(1), of index] True by (auto simp: ms)
  let ?log = "log_if (stg_observer_frame (w_stages w (op_stages (w, op) ! index)))
      (LogFrame (op_stages (w, op) ! index) s (op_now op)) w"
  let ?log' = "log_if (stg_observer_frame (w_stages w' (op_stages (w', op') ! index)))
      (LogFrame (op_stages (w', op') ! index) s' (op_now op')) w'"
  note [simp] = same_motionD(1) [OF s]
  have logged: "twins D C R K ?log (op_pipeline op) ?log' (op_pipeline op')"
    by (rule twins_log) (rule mD(1))
  show ?thesis
  proof (cases "kind s \<noteq> output_kind api")
    case True
    then show ?thesis using m \<open>index < _\<close> mD(6) api by (simp add: ms Let_def)
  next
    case kind: False
    show ?thesis
    proof (cases "op_pending op")
      case None
      then show ?thesis
        using kind mD api \<open>index < _\<close> logged s by (simp add: ms Let_def twin_machines_def kind_here_Suc)
    next
      case (Some e)
      obtain earlier i where e: "e = (earlier, i)" by (cases e)
      obtain earlier' where e': "op_pending op' = Some (earlier', i)" "same_motion D earlier earlier'"
        using mD(4) Some e by (cases "op_pending op'") auto
      have start: "twin_machines D C R K (?log, op\<lparr>op_pending := None\<rparr>) (?log', op'\<lparr>op_pending := None\<rparr>)"
        using logged mD by (simp add: twin_machines_def)
      obtain r v vop v' vop' where d: "disp earlier i (?log, op\<lparr>op_pending := None\<rparr>) = (r, v, vop)"
          "disp' earlier' i (?log', op'\<lparr>op_pending := None\<rparr>) = (r, v', vop')"
          "twin_machines D C R K (v, vop) (v', vop')"
        using disp [OF start e'(2), of i] mD(7,8) [of earlier i] Some e
        by (cases "disp earlier i (?log, op\<lparr>op_pending := None\<rparr>)";
            cases "disp' earlier' i (?log', op'\<lparr>op_pending := None\<rparr>)") auto
      have "op_stages (v, vop) = op_stages (w, op)" "kind_here v (op_pipeline vop) (Suc index) = output_kind api"
        using advances_stages [OF adv [of "(?log, op\<lparr>op_pending := None\<rparr>)" earlier i]]
          kind_here_advances [OF adv [of "(?log, op\<lparr>op_pending := None\<rparr>)" earlier i], of "Suc index"] d(1) api(1)
        by (simp_all add: ms kind_here_Suc)
      then show ?thesis
        using d kind api \<open>index < _\<close> mD(6) Some e e' s by (simp add: ms Let_def twin_machines_def)
    qed
  qed
next
  case False
  then show ?thesis using m twin_machinesD(6) [of D C R K "fst m" "snd m" "fst m'" "snd m'"]
    by (cases m; cases m') (simp add: Let_def)
qed

lemma service_twin:
  assumes m: "twin_machines D C R K m m'"
  shows "same_result D C R K (zpt_stage_schedule_flush index d m) (zpt_stage_schedule_flush index (d - D) m')"
    and "twin_machines D C R K (zpt_stage_cancel_flush index m) (zpt_stage_cancel_flush index m')"
    and "twin_machines D C R K (zpt_stage_notify index e v m) (zpt_stage_notify index e v m')"
proof -
  obtain w op w' op' where ms: "m = (w, op)" "m' = (w', op')" by (cases m; cases m')
  note mD = twin_machinesD [OF m [unfolded ms]]
  have log: "twin_machines D C R K (log_if b x w, op) (log_if b' x' w', op')" for b x b' x'
    using twins_log [OF mD(1)] mD by (simp add: twin_machines_def)
  have range: "index < length (pl_stages (w_pipes w' (op_pipeline op'))) \<longleftrightarrow> index < length (pl_stages (w_pipes w (op_pipeline op)))"
    using mD(6) by simp
  show "twin_machines D C R K (zpt_stage_notify index e v m) (zpt_stage_notify index e v m')"
    using m log by (auto simp: ms Let_def mD(6))
  show "twin_machines D C R K (zpt_stage_cancel_flush index m) (zpt_stage_cancel_flush index m')"
  proof (cases "index < length (pl_stages (w_pipes w (op_pipeline op)))")
    case True
    show ?thesis
      using True range mD twins_deadline [OF mD(1) True, of "\<lambda>g. g\<lparr>stg_deadline_pending := False\<rparr>"]
      by (simp add: ms twin_machines_def)
  qed (use m mD(6) in \<open>simp add: ms\<close>)
  show "same_result D C R K (zpt_stage_schedule_flush index d m) (zpt_stage_schedule_flush index (d - D) m')"
  proof (cases "index < length (pl_stages (w_pipes w (op_pipeline op)))")
    case True
    obtain api where api: "stg_api (w_stages w (pl_stages (w_pipes w (op_pipeline op)) ! index)) = Some api"
      "stg_api (w_stages w' (pl_stages (w_pipes w' (op_pipeline op')) ! index)) = Some api"
      using twins_stage [OF mD(1) True] by metis
    have "twins D C R K (update_stage (pl_stages (w_pipes w (op_pipeline op)) ! index)
          (\<lambda>g. g\<lparr>stg_deadline_ms := d, stg_deadline_pending := True\<rparr>) w) (op_pipeline op)
        (update_stage (pl_stages (w_pipes w' (op_pipeline op')) ! index)
          (\<lambda>g. g\<lparr>stg_deadline_ms := d - D, stg_deadline_pending := True\<rparr>) w') (op_pipeline op')"
      if "api_flush api \<noteq> None"
      by (rule twins_deadline [OF mD(1) True, where d = d]) (use that api in auto)
    then show ?thesis
      using True range m mD api by (auto simp: ms twin_machines_def Let_def)
  qed (use m mD(6) in \<open>simp add: ms\<close>)
qed

abbreviation (input) "relation_at R m index \<equiv> R (the (stg_api (w_stages (fst m) (op_stages m ! index))))"

lemma relation_at_advances: "advances m n \<Longrightarrow> relation_at R n index = relation_at R m index"
  by (cases m; cases n) (auto simp: advances_def same_shape_pipes same_shape_stage)

lemma run_stage_twin:
  assumes disp: "\<And>s s' i m m'. twin_machines D C R K m m' \<Longrightarrow> same_motion D s s' \<Longrightarrow> placed m s i \<Longrightarrow>
      same_result D C R K (disp s i m) (disp' s' i m')"
  shows "twin_machines D C R K m m' \<Longrightarrow> index < length (op_stages m) \<Longrightarrow> prog_twin D (relation_at R m index) p p' \<Longrightarrow>
    (\<And>s i m. advances m (snd (disp s i m))) \<Longrightarrow>
    same_result D C R K (run_stage disp index p m) (run_stage disp' index p' m')"
proof (induction p arbitrary: p' m m')
  case (Return r st)
  obtain st' where p': "p' = Return r st'" "relation_at R m index st st'" using Return.prems by auto
  obtain w op w' op' where ms: "m = (w, op)" "m' = (w', op')" by (cases m; cases m')
  show ?case
    using Return.prems p' twins_put_state [of D C R K w "op_pipeline op" w' "op_pipeline op'" index st st']
    by (simp add: ms twin_machines_def)
next
  case (Emit s k)
  obtain s' k' where k': "p' = Emit s' k'" "same_motion D s s'" "\<And>r. prog_twin D (relation_at R m index) (k r) (k' r)" using Emit.prems by auto
  have "same_result D C R K (zpt_stage_emit disp index s m) (zpt_stage_emit disp' index s' m')"
    by (rule emit_twin) (simp_all add: disp k'(2) Emit.prems(1,4))
  then obtain r n n' where e: "zpt_stage_emit disp index s m = (r, n)" "zpt_stage_emit disp' index s' m' = (r, n')"
      "twin_machines D C R K n n'"
    by (cases "zpt_stage_emit disp index s m"; cases "zpt_stage_emit disp' index s' m'") auto
  have "advances m n"
    using emit_advances [where disp = disp and m = m and index = index and s = s] Emit.prems(4) e(1) by simp
  note kept = advances_stages [OF this] relation_at_advances [OF this, of R index]
  then show ?case
    using Emit.IH [of "k r" n n' "k' r"] e k' Emit.prems(2,4) kept by simp
next
  case (ScheduleFlush d k)
  obtain k' where k': "p' = ScheduleFlush (d - D) k'" "\<And>r. prog_twin D (relation_at R m index) (k r) (k' r)" using ScheduleFlush.prems by auto
  obtain r n n' where e: "zpt_stage_schedule_flush index d m = (r, n)" "zpt_stage_schedule_flush index (d - D) m' = (r, n')"
      "twin_machines D C R K n n'"
    using service_twin(1) [OF ScheduleFlush.prems(1), of index d]
    by (cases "zpt_stage_schedule_flush index d m"; cases "zpt_stage_schedule_flush index (d - D) m'") auto
  have "advances m n" using service_advances(1) [of m index d] e(1) by simp
  note kept = advances_stages [OF this] relation_at_advances [OF this, of R index]
  then show ?case
    using ScheduleFlush.IH [of "k r" n n' "k' r"] e k' ScheduleFlush.prems(2,4) kept by simp
next
  case (CancelFlush p)
  then obtain q where q: "p' = CancelFlush q" "prog_twin D (relation_at R m index) p q" by auto
  show ?case
    using CancelFlush.IH [OF service_twin(2) [OF CancelFlush.prems(1), of index], of q] q advances_stages [OF service_advances(2) [of m index]]
      relation_at_advances [OF service_advances(2) [of m index], of R index] CancelFlush.prems(2,4) by simp
next
  case (Notify e v p)
  then obtain q where q: "p' = Notify e v q" "prog_twin D (relation_at R m index) p q" by auto
  show ?case
    using Notify.IH [OF service_twin(3) [OF Notify.prems(1), of index e v], of q] q advances_stages [OF service_advances(3) [of m index e v]]
      relation_at_advances [OF service_advances(3) [of m index e v], of R index] Notify.prems(2,4) by simp
qed

lemma drain_loop_twin:
  assumes "\<And>s s' i m m'. twin_machines D C R K m m' \<Longrightarrow> same_motion D s s' \<Longrightarrow> placed m s i \<Longrightarrow>
      same_result D C R K (disp i s m) (disp' i s' m')"
  shows "twin_machines D C R K m m' \<Longrightarrow> same_result D C R K (drain_loop n disp ret m) (drain_loop n disp' ret m')"
proof (induction n arbitrary: ret m m')
  case 0
  then show ?case by (cases m; cases m') (simp add: twin_machines_def)
next
  case (Suc n)
  obtain w op w' op' where ms: "m = (w, op)" "m' = (w', op')" by (cases m; cases m')
  note mD = twin_machinesD [OF Suc.prems [unfolded ms]]
  have cleared: "twin_machines D C R K (w, op\<lparr>op_pending := None\<rparr>) (w', op'\<lparr>op_pending := None\<rparr>)"
    using mD by (simp add: twin_machines_def)
  show ?case
  proof (cases "ret = 0 \<and> op_pending op \<noteq> None")
    case True
    then obtain s i where p: "op_pending op = Some (s, i)" by auto
    obtain s' where p': "op_pending op' = Some (s', i)" "same_motion D s s'"
      using mD(4) p by (cases "op_pending op'") auto
    obtain r n1 n1' where d: "disp i s (w, op\<lparr>op_pending := None\<rparr>) = (r, n1)"
        "disp' i s' (w', op'\<lparr>op_pending := None\<rparr>) = (r, n1')" "twin_machines D C R K n1 n1'"
      using assms [OF cleared p'(2), of i] mD(7,8) [OF p]
      by (cases "disp i s (w, op\<lparr>op_pending := None\<rparr>)"; cases "disp' i s' (w', op'\<lparr>op_pending := None\<rparr>)") auto
    then show ?thesis using Suc.IH [OF d(3), of r] True p p' by (simp add: ms)
  next
    case False
    then show ?thesis using Suc.prems cleared mD(4)
      by (cases "op_pending op"; cases "op_pending op'") (auto simp: ms)
  qed
qed


lemma twins_sink_apis:
  assumes "twins D C R K w pid w' pid'"
  obtains k l where "snk_api (w_sinks w (pl_sink (w_pipes w pid))) = Some k"
    "snk_api (w_sinks w' (pl_sink (w_pipes w' pid'))) = Some l" "sink_twin D (kind_here w pid (length (pl_stages (w_pipes w pid)))) K k l"
  using assms by (auto simp: twins_def built_alike_def Let_def)

lemma dispatch_to_sink_twin:
  assumes m: "twin_machines D C R K m m'" and s: "same_motion D s s'" and placed: "placed m s (length (op_stages m))"
  shows "same_result D C R K (dispatch_to_sink s m) (dispatch_to_sink s' m')"
proof -
  obtain w op w' op' where ms: "m = (w, op)" "m' = (w', op')" by (cases m; cases m')
  note mD = twin_machinesD [OF m [unfolded ms]]
  obtain k l where apis: "snk_api (w_sinks w (pl_sink (w_pipes w (op_pipeline op)))) = Some k"
      "snk_api (w_sinks w' (pl_sink (w_pipes w' (op_pipeline op')))) = Some l"
      "kind_accepted (sink_accepted_kinds l) (kind s) = kind_accepted (sink_accepted_kinds k) (kind s)"
      "\<And>x y. K x y \<Longrightarrow> rel_prod (=) K (the (sink_emit k) x s) (the (sink_emit l) y s')"
    by (rule twins_sink_apis [OF mD(1)]) (use s placed in \<open>simp add: ms sink_twin_def\<close>)
  obtain r a b where e: "the (sink_emit k) (snk_state (w_sinks w (pl_sink (w_pipes w (op_pipeline op))))) s = (r, a)"
      "the (sink_emit l) (snk_state (w_sinks w' (pl_sink (w_pipes w' (op_pipeline op'))))) s' = (r, b)" "K a b"
    using apis(4) [OF twinsD(6) [OF mD(1)]]
    by (cases "the (sink_emit k) (snk_state (w_sinks w (pl_sink (w_pipes w (op_pipeline op))))) s";
        cases "the (sink_emit l) (snk_state (w_sinks w' (pl_sink (w_pipes w' (op_pipeline op'))))) s'") auto
  show ?thesis
    using m mD apis e twins_sink [OF mD(1) e(3)] same_motionD(1) [OF s]
    by (simp add: dispatch_to_sink_def ms Let_def twin_machines_def)
qed

lemma dispatch_at_twin:
  "twin_machines D C R K m m' \<Longrightarrow> same_motion D s s' \<Longrightarrow> placed m s index \<Longrightarrow>
     same_result D C R K (dispatch_at fuel index s m) (dispatch_at fuel index s' m')"
proof (induction fuel arbitrary: index s s' m m')
  case 0
  then show ?case by simp
next
  case (Suc fuel)
  obtain w op w' op' where ms: "m = (w, op)" "m' = (w', op')" by (cases m; cases m')
  note mD = twin_machinesD [OF Suc.prems(1) [unfolded ms]]
  have nested: "same_result D C R K
      (let (ret, m) = dispatch_at fuel i e n in drain_loop (Suc fuel) (dispatch_at fuel) ret m)
      (let (ret, m) = dispatch_at fuel i e' n' in drain_loop (Suc fuel) (dispatch_at fuel) ret m)"
    if pair: "twin_machines D C R K n n'" "same_motion D e e'" "placed n e i" for e e' i n n'
  proof -
    obtain r n1 n1' where d: "dispatch_at fuel i e n = (r, n1)" "dispatch_at fuel i e' n' = (r, n1')"
        "twin_machines D C R K n1 n1'"
      using Suc.IH [OF pair] by (cases "dispatch_at fuel i e n"; cases "dispatch_at fuel i e' n'") auto
    have "same_result D C R K (drain_loop (Suc fuel) (dispatch_at fuel) r n1) (drain_loop (Suc fuel) (dispatch_at fuel) r n1')"
      by (rule drain_loop_twin) (simp_all add: Suc.IH d(3) del: op_stages.simps)
    then show ?thesis by (simp add: d)
  qed
  have nested_advances: "advances n (snd (let (ret, m) = dispatch_at fuel i e n
      in drain_loop (Suc fuel) (dispatch_at fuel) ret m))" for e i and n :: "('a, 'b, 'c) machine"
  proof -
    obtain r n1 where d: "dispatch_at fuel i e n = (r, n1)" by (cases "dispatch_at fuel i e n")
    have "advances n n1" "advances n1 (snd (drain_loop (Suc fuel) (dispatch_at fuel) r n1))"
      using dispatch_at_advances [of n fuel i e] d
      by (simp_all add: drain_loop_advances dispatch_at_advances del: drain_loop.simps)
    then show ?thesis unfolding d Let_def prod.case by (rule advances_trans)
  qed
  show ?case
  proof (cases "op_remaining op = 0")
    case True
    then show ?thesis using Suc.prems mD by (simp add: ms)
  next
    case False
    note [simp] = same_motionD(1) [OF Suc.prems(2)]
    have counted: "twin_machines D C R K (w, count_dispatch op) (w', count_dispatch op')"
      using mD by (simp add: twin_machines_def count_dispatch_def)
    show ?thesis
    proof (cases "index = length (op_stages m)")
      case True
      then show ?thesis
        using False mD dispatch_to_sink_twin [OF counted Suc.prems(2)] Suc.prems(3) by (simp add: ms Let_def)
    next
      case inner: False
      then have index: "index < length (pl_stages (w_pipes w (op_pipeline op)))"
        using Suc.prems(3) by (simp add: ms)
      obtain api where api: "stg_api (w_stages w (pl_stages (w_pipes w (op_pipeline op)) ! index)) = Some api"
          "stg_api (w_stages w' (pl_stages (w_pipes w' (op_pipeline op')) ! index)) = Some api"
          "forgetful_stage D C (R api) api"
          "C (stg_config (w_stages w (pl_stages (w_pipes w (op_pipeline op)) ! index)))
             (stg_config (w_stages w' (pl_stages (w_pipes w' (op_pipeline op')) ! index)))"
          "R api (stage_state w (pl_stages (w_pipes w (op_pipeline op)) ! index))
             (stage_state w' (pl_stages (w_pipes w' (op_pipeline op')) ! index))"
        using twins_stage [OF mD(1) index] unfolding stage_twin_def Let_def by (metis option.sel)
      obtain f where f: "api_process api = Some f" using forgetful_stage.has_process [OF api(3)] by auto
      note same_program = forgetful_stage.process_twin [OF api(3) f api(4,5) Suc.prems(2), of "op_now op"]
      define d where "d = (\<lambda>e i (m :: ('a, 'b, 'c) machine). let (ret, m) = dispatch_at fuel i e m
        in drain_loop (Suc fuel) (dispatch_at fuel) ret m)"
      define d' where "d' = (\<lambda>e i (m :: ('a, 'b, 'd) machine). let (ret, m) = dispatch_at fuel i e m
        in drain_loop (Suc fuel) (dispatch_at fuel) ret m)"
      have "same_result D C R K
          (run_stage d index (f (stg_config (w_stages w (pl_stages (w_pipes w (op_pipeline op)) ! index)))
            (stage_state w (pl_stages (w_pipes w (op_pipeline op)) ! index)) (op_now op) s) (w, count_dispatch op))
          (run_stage d' index (f (stg_config (w_stages w' (pl_stages (w_pipes w' (op_pipeline op')) ! index)))
            (stage_state w' (pl_stages (w_pipes w' (op_pipeline op')) ! index)) (op_now op - D) s') (w', count_dispatch op'))"
      proof (rule run_stage_twin [OF _ counted])
        show "prog_twin D (relation_at R (w, count_dispatch op) index)
            (f (stg_config (w_stages w (pl_stages (w_pipes w (op_pipeline op)) ! index)))
              (stage_state w (pl_stages (w_pipes w (op_pipeline op)) ! index)) (op_now op) s)
            (f (stg_config (w_stages w' (pl_stages (w_pipes w' (op_pipeline op')) ! index)))
              (stage_state w' (pl_stages (w_pipes w' (op_pipeline op')) ! index)) (op_now op - D) s')"
          using same_program api by simp
        show "same_result D C R K (d e i n) (d' e' i n')" if "twin_machines D C R K n n'" "same_motion D e e'" "placed n e i" for e e' i n n'
          unfolding d_def d'_def using that by (rule nested)
        show "advances n (snd (d e i n))" for e i n
          unfolding d_def by (rule nested_advances)
      qed (use index api in simp_all)
      then show ?thesis
        using False inner index mD api f Suc.prems(1) counted
        by (simp add: ms Let_def d_def d'_def del: drain_loop.simps)
    qed
  qed
qed

lemma drain_twin:
  "twin_machines D C R K m m' \<Longrightarrow> same_result D C R K (drain fuel ret m) (drain fuel ret m')"
  unfolding drain_def by (rule drain_loop_twin) (rule dispatch_at_twin)

lemma drain_dispatch_twin:
  assumes "twin_machines D C R K m m'" "same_motion D s s'" "placed m s i"
  shows "same_result D C R K (drain_dispatch fuel s i m) (drain_dispatch fuel s' i m')"
proof -
  obtain r n n' where "dispatch_at fuel i s m = (r, n)" "dispatch_at fuel i s' m' = (r, n')" "twin_machines D C R K n n'"
    using dispatch_at_twin [OF assms, of fuel] by (cases "dispatch_at fuel i s m"; cases "dispatch_at fuel i s' m'") auto
  then show ?thesis using drain_twin by (simp add: drain_dispatch_def)
qed


lemma begin_twin:
  assumes "twins D C R K w pid w' pid'"
  shows "twin_machines D C R K (log_if b x w, begin_operation w pid now) (log_if b' x' w', begin_operation w' pid' (now - D))"
  using assms twinsD [OF assms] twins_log [OF assms]
  by (simp add: twin_machines_def begin_operation_def)

lemma log_if_nothing: "log_if False x w = w"
  by (simp add: log_if_def)

lemma push_twin:
  assumes tw: "twins D C R K w pid w' pid'" and s: "same_motion D s s'"
  shows "rel_prod (=) (rel_prod (=) (\<lambda>v v'. twins D C R K v pid v' pid'))
    (zpt_pipeline_push pid s w) (zpt_pipeline_push pid' s' w')"
proof -
  note same = twinsD [OF tw] same_motionD(1,4) [OF s]
  define m where "m = (log_if (obs_input (pl_observer (w_pipes w pid))) (LogInput pid s) w,
    begin_operation w pid (observed_at_ms (metadata s)))"
  define m' where "m' = (log_if (obs_input (pl_observer (w_pipes w' pid'))) (LogInput pid' s') w',
    begin_operation w' pid' (observed_at_ms (metadata s) - D))"
  define fuel where "fuel = unat (pl_dispatch_budget (w_pipes w pid))"
  show ?thesis
  proof (cases "kind s = pl_input_kind (w_pipes w pid)")
    case False
    then show ?thesis using tw same by (auto simp: zpt_pipeline_push_def)
  next
    case True
    have "same_result D C R K (drain_dispatch fuel s 0 m) (drain_dispatch fuel s' 0 m')"
      unfolding m_def m'_def
      by (rule drain_dispatch_twin [OF begin_twin [OF tw] s]) (simp add: True begin_operation_def kind_here_def kind_at_def)
    then obtain r v op v' op' where d: "drain_dispatch fuel s 0 m = (r, v, op)" "drain_dispatch fuel s' 0 m' = (r, v', op')"
        "twin_machines D C R K (v, op) (v', op')"
      by (cases "drain_dispatch fuel s 0 m"; cases "drain_dispatch fuel s' 0 m'") auto
    have "op_pipeline op = pid" "op_pipeline op' = pid'"
      using drain_dispatch_advances [of m fuel s 0] drain_dispatch_advances [of m' fuel s' 0] d(1,2)
      by (simp_all add: advances_def m_def m'_def begin_operation_def)
    then show ?thesis
      using tw same d twins_log
      by (auto simp: zpt_pipeline_push_def Let_def m_def m'_def fuel_def begin_operation_def twin_machines_def)
  qed
qed

lemma flush_stages_twin:
  assumes "drop index (op_stages m) = sids" "drop index (op_stages m') = sids'" "twin_machines D C R K m m'"
  shows "rel_prod (=) (rel_prod (=) (twin_machines D C R K))
    (flush_stages fuel index sids observed m) (flush_stages fuel index sids' observed m')"
  using assms
proof (induction sids arbitrary: index sids' observed m m')
  case Nil
  then have "sids' = []"
    using twin_machinesD(6) [of D C R K "fst m" "snd m" "fst m'" "snd m'"] by (cases m; cases m') auto
  then show ?case using Nil by simp
next
  case (Cons sid sids)
  obtain w op w' op' where ms: "m = (w, op)" "m' = (w', op')" by (cases m; cases m')
  note mD = twin_machinesD [OF Cons.prems(3) [unfolded ms]]
  let ?ids = "pl_stages (w_pipes w (op_pipeline op))" and ?ids' = "pl_stages (w_pipes w' (op_pipeline op'))"
  have index: "index < length ?ids" using Cons.prems(1) by (cases "index < length ?ids") (auto simp: ms)
  have sid: "sid = ?ids ! index" "drop (Suc index) ?ids = sids"
    using Cons.prems(1) index by (simp_all add: ms Cons_nth_drop_Suc [symmetric])
  define sid' where "sid' = ?ids' ! index"
  define rest' where "rest' = drop (Suc index) ?ids'"
  have sids': "sids' = sid' # rest'"
    using Cons.prems(2) index mD(6) by (simp add: ms sid'_def rest'_def Cons_nth_drop_Suc)
  obtain api where api: "stg_api (w_stages w sid) = Some api" "stg_api (w_stages w' sid') = Some api"
      "forgetful_stage D C (R api) api" "C (stg_config (w_stages w sid)) (stg_config (w_stages w' sid'))"
      "stage_twin D R w sid w' sid'"
    using twins_stage [OF mD(1) index] sid(1) sid'_def by metis
  note twin = api(5) [unfolded stage_twin_def Let_def]
  show ?case
  proof (cases "stg_deadline_pending (w_stages w sid) \<and> time_reached (op_now op) (stg_deadline_ms (w_stages w sid))")
    case False
    then have skip: "\<not> stg_deadline_pending (w_stages w sid) \<or> \<not> time_reached (op_now op) (stg_deadline_ms (w_stages w sid))"
      "\<not> stg_deadline_pending (w_stages w' sid') \<or> \<not> time_reached (op_now op') (stg_deadline_ms (w_stages w' sid'))"
      using twin mD(2) by auto
    have "rel_prod (=) (rel_prod (=) (twin_machines D C R K))
      (flush_stages fuel (Suc index) sids observed m) (flush_stages fuel (Suc index) rest' observed m')"
      by (rule Cons.IH) (use sid rest'_def Cons.prems(3) in \<open>simp_all add: ms\<close>)
    then show ?thesis using skip by (simp add: ms sids' Let_def)
  next
    case True
    then have due: "stg_deadline_pending (w_stages w' sid')" "time_reached (op_now op') (stg_deadline_ms (w_stages w' sid'))"
      using twin mD(2) by auto
    obtain g where g: "api_flush api = Some g" using twin True api(1) by auto
    let ?start = "\<lambda>w op sid. update_stage sid (\<lambda>g. g\<lparr>stg_deadline_pending := False\<rparr>)
      (log_if (\<not> observed \<and> obs_flush (pl_observer (w_pipes w (op_pipeline op)))) (LogFlush (op_pipeline op) (op_now op)) w)"
    define n where "n = (?start w op sid, op)"
    define n' where "n' = (?start w' op' sid', op')"
    have logged: "twins D C R K (log_if b x w) (op_pipeline op) (log_if b' x' w') (op_pipeline op')" for b x b' x'
      by (rule twins_log [OF mD(1)])
    have started: "twin_machines D C R K n n'"
      unfolding n_def n'_def
      using mD twins_deadline [OF logged, where i = index and f = "\<lambda>g. g\<lparr>stg_deadline_pending := False\<rparr>"] index
      by (simp add: twin_machines_def sid(1) sid'_def)
    have program: "prog_twin D (R api)
        (g (stg_config (w_stages w sid)) (stage_state w sid) (stg_deadline_ms (w_stages w sid)) (op_now op))
        (g (stg_config (w_stages w' sid')) (stage_state w' sid') (stg_deadline_ms (w_stages w sid) - D) (op_now op - D))"
      using forgetful_stage.flush_twin [OF api(3) g api(4)] twin api(1) by simp
    define q where "q = g (stg_config (w_stages w sid)) (stage_state w sid) (stg_deadline_ms (w_stages w sid)) (op_now op)"
    define q' where "q' = g (stg_config (w_stages w' sid')) (stage_state w' sid') (stg_deadline_ms (w_stages w sid) - D) (op_now op - D)"
    have "same_result D C R K (run_stage (drain_dispatch fuel) index q n) (run_stage (drain_dispatch fuel) index q' n')"
    proof (rule run_stage_twin [OF _ started])
      show "index < length (op_stages n)" using index by (simp add: n_def)
      show "prog_twin D (relation_at R n index) q q'"
        using program api(1) sid(1) by (simp add: q_def q'_def n_def)
    qed (simp_all add: drain_dispatch_twin drain_dispatch_advances)
    then obtain r n1 n1' where n1: "run_stage (drain_dispatch fuel) index q n = (r, n1)"
        "run_stage (drain_dispatch fuel) index q' n' = (r, n1')" "twin_machines D C R K n1 n1'"
      by (cases "run_stage (drain_dispatch fuel) index q n"; cases "run_stage (drain_dispatch fuel) index q' n'") auto
    obtain r2 n2 n2' where n2: "drain fuel r n1 = (r2, n2)" "drain fuel r n1' = (r2, n2')" "twin_machines D C R K n2 n2'"
      using drain_twin [OF n1(3), of fuel r] by (cases "drain fuel r n1"; cases "drain fuel r n1'") auto
    have "advances n n1" "advances n1 n2" "advances n' n1'" "advances n1' n2'"
      using run_stage_advances [of "drain_dispatch fuel" n index q] run_stage_advances [of "drain_dispatch fuel" n' index q']
        drain_advances [of n1 fuel r] drain_advances [of n1' fuel r] n1 n2
      by (simp_all add: drain_dispatch_advances)
    then have ids: "op_stages n2 = op_stages (w, op)" "op_stages n2' = op_stages (w', op')"
      using advances_stages by (metis (no_types, lifting) n_def n'_def op_stages.simps update_fields(1) log_if_fields(3))+
    have "rel_prod (=) (rel_prod (=) (twin_machines D C R K))
        (flush_stages fuel (Suc index) sids True n2) (flush_stages fuel (Suc index) rest' True n2')"
      by (rule Cons.IH) (use ids sid rest'_def n2 in simp_all)
    then show ?thesis
      using True due api g twin mD n1 n2
      by (simp add: ms sids' Let_def n_def n'_def q_def q'_def stage_state_def)
  qed
qed

lemma flush_twin:
  assumes tw: "twins D C R K w pid w' pid'"
  shows "rel_prod (=) (rel_prod (=) (\<lambda>v v'. twins D C R K v pid v' pid'))
    (zpt_pipeline_flush pid now w) (zpt_pipeline_flush pid' (now - D) w')"
proof -
  note same = twinsD [OF tw]
  define fuel where "fuel = unat (pl_dispatch_budget (w_pipes w pid))"
  define m where "m = (w, begin_operation w pid now)"
  define m' where "m' = (w', begin_operation w' pid' (now - D))"
  let ?run = "flush_stages fuel 0 (pl_stages (w_pipes w pid)) False m"
  let ?run' = "flush_stages fuel 0 (pl_stages (w_pipes w' pid')) False m'"
  have start: "twin_machines D C R K m m'"
    using begin_twin [OF tw, of False undefined now False undefined] by (simp add: m_def m'_def log_if_nothing)
  have "rel_prod (=) (rel_prod (=) (twin_machines D C R K)) ?run ?run'"
    by (rule flush_stages_twin [OF _ _ start]) (simp_all add: m_def m'_def begin_operation_def)
  then obtain r seen v op v' op' where d: "?run = (r, seen, v, op)" "?run' = (r, seen, v', op')" "twin_machines D C R K (v, op) (v', op')"
    by (cases ?run; cases ?run') auto
  have "op_pipeline op = pid" "op_pipeline op' = pid'"
    using flush_stages_advances [of m fuel 0 "pl_stages (w_pipes w pid)" False]
      flush_stages_advances [of m' fuel 0 "pl_stages (w_pipes w' pid')" False] d(1,2)
    by (simp_all add: advances_def m_def m'_def begin_operation_def)
  then show ?thesis
    using tw same d twins_log
    by (auto simp: zpt_pipeline_flush_def Let_def m_def m'_def fuel_def begin_operation_def twin_machines_def)
qed

lemma best_deadline_twin:
  "list_all2 (\<lambda>sid sid'. stg_deadline_pending (w_stages w' sid') = stg_deadline_pending (w_stages w sid) \<and>
      (stg_deadline_pending (w_stages w sid) \<longrightarrow> stg_deadline_ms (w_stages w' sid') = stg_deadline_ms (w_stages w sid) - D)) sids sids' \<Longrightarrow>
   best_deadline w' (now - D) sids' (map_option (map_prod id (\<lambda>d. d - D)) best) =
     map_option (map_prod id (\<lambda>d. d - D)) (best_deadline w now sids best)"
proof (induction sids sids' arbitrary: best rule: list_all2_induct)
  case (Cons sid sids sid' sids')
  let ?delta = "if time_reached now (stg_deadline_ms (w_stages w sid)) then 0 else stg_deadline_ms (w_stages w sid) - now"
  let ?best = "case best of None \<Rightarrow> Some (?delta, stg_deadline_ms (w_stages w sid))
    | Some (best_delta, d) \<Rightarrow> if ?delta < best_delta then Some (?delta, stg_deadline_ms (w_stages w sid)) else best"
  show ?case
    using Cons.hyps Cons.IH [of best] Cons.IH [of ?best]
    by (cases best) (auto simp: Let_def split: if_splits)
qed simp

lemma next_deadline_twin:
  assumes tw: "twins D C R K w pid w' pid'"
  shows "zpt_pipeline_next_deadline w' pid' (now - D) = map_option (\<lambda>d. d - D) (zpt_pipeline_next_deadline w pid now)"
proof -
  have "best_deadline w' (now - D) (pl_stages (w_pipes w' pid')) (map_option (map_prod id (\<lambda>d. d - D)) None) =
    map_option (map_prod id (\<lambda>d. d - D)) (best_deadline w now (pl_stages (w_pipes w pid)) None)"
  proof (rule best_deadline_twin, unfold list_all2_conv_all_nth, intro conjI allI impI)
    fix i
    assume "i < length (pl_stages (w_pipes w pid))"
    then show "stg_deadline_pending (w_stages w' (pl_stages (w_pipes w' pid') ! i)) =
          stg_deadline_pending (w_stages w (pl_stages (w_pipes w pid) ! i))"
      "stg_deadline_pending (w_stages w (pl_stages (w_pipes w pid) ! i)) \<Longrightarrow>
        stg_deadline_ms (w_stages w' (pl_stages (w_pipes w' pid') ! i)) =
          stg_deadline_ms (w_stages w (pl_stages (w_pipes w pid) ! i)) - D"
      using twins_stage [OF tw] unfolding stage_twin_def Let_def by metis+
  qed (use twinsD [OF tw] in simp)
  then show ?thesis
    using twinsD [OF tw] by (simp add: zpt_pipeline_next_deadline_def option.map_comp comp_def)
qed

section \<open>A reset makes twins\<close>

lemma own_memory_shape: "same_shape w v \<Longrightarrow> own_memory v ids = own_memory w ids"
  by (simp add: own_memory_def same_shape_stage)

lemma reset_stage_state_other:
  assumes "sid \<noteq> a" "stg_state (w_stages w sid) = None \<or> stg_state (w_stages w sid) \<noteq> stg_state (w_stages w a)"
  shows "stage_state (reset_stage reason a w) sid = stage_state w sid"
  using assms stage_state_put(2) [of "update_stage a (\<lambda>g. g\<lparr>stg_deadline_pending := False\<rparr>) w" sid a]
  by (auto simp: reset_stage_def Let_def split: option.split)

lemma reset_stage_state_same:
  assumes "stg_api (w_stages w a) = Some api" "\<And>c s. reset_state api c (Some s) reason \<noteq> None"
  shows "stage_state (reset_stage reason a w) a =
    (case stage_state w a of None \<Rightarrow> None | Some s \<Rightarrow> reset_state api (stg_config (w_stages w a)) (Some s) reason)"
proof (cases "stage_state w a")
  case None
  then show ?thesis using assms(1) by (auto simp: reset_stage_def Let_def stage_state_put split: option.split)
next
  case (Some s)
  then show ?thesis
    using assms(1) assms(2) [of "stg_config (w_stages w a)" s]
    by (auto simp: reset_stage_def reset_state_def Let_def stage_state_put split: option.split)
qed

lemma fold_reset_state_other:
  assumes "sid \<notin> set sids"
    "\<forall>a \<in> set sids. stg_state (w_stages w sid) = None \<or> stg_state (w_stages w sid) \<noteq> stg_state (w_stages w a)"
  shows "stage_state (fold (reset_stage reason) sids w) sid = stage_state w sid"
  using assms
proof (induction sids arbitrary: w)
  case (Cons a sids)
  have "stage_state (fold (reset_stage reason) sids (reset_stage reason a w)) sid = stage_state (reset_stage reason a w) sid"
    by (rule Cons.IH) (use Cons.prems in \<open>auto simp: same_shape_stage(4) [OF reset_stage_shape]\<close>)
  then show ?case using Cons.prems reset_stage_state_other [of sid a w reason] by auto
qed simp

lemma fold_reset_state:
  assumes "own_memory w sids" "sid \<in> set sids" "stg_api (w_stages w sid) = Some api"
    and keeps: "\<And>c s. reset_state api c (Some s) reason \<noteq> None"
  shows "stage_state (fold (reset_stage reason) sids w) sid =
    (case stage_state w sid of None \<Rightarrow> None | Some s \<Rightarrow> reset_state api (stg_config (w_stages w sid)) (Some s) reason)"
  using assms(1-3)
proof (induction sids arbitrary: w)
  case (Cons a sids)
  note shape = reset_stage_shape [of w reason a]
  show ?case
  proof (cases "sid = a")
    case True
    have "stage_state (fold (reset_stage reason) sids (reset_stage reason a w)) sid = stage_state (reset_stage reason a w) sid"
      by (rule fold_reset_state_other)
        (use Cons.prems True in \<open>auto simp: own_memory_def same_shape_stage(4) [OF shape]\<close>)
    then show ?thesis using True reset_stage_state_same [OF Cons.prems(3) keeps] by simp
  next
    case False
    have own: "own_memory (reset_stage reason a w) sids"
      using Cons.prems(1) unfolding own_memory_shape [OF shape] by (auto simp: own_memory_def)
    have "stage_state (fold (reset_stage reason) sids (reset_stage reason a w)) sid =
      (case stage_state (reset_stage reason a w) sid of None \<Rightarrow> None
        | Some s \<Rightarrow> reset_state api (stg_config (w_stages (reset_stage reason a w) sid)) (Some s) reason)"
      by (rule Cons.IH)
        (use Cons.prems False own in \<open>auto simp: same_shape_stage(2) [OF shape]\<close>)
    moreover have "stage_state (reset_stage reason a w) sid = stage_state w sid"
      by (rule reset_stage_state_other) (use Cons.prems False in \<open>auto simp: own_memory_def\<close>)
    ultimately show ?thesis by (simp add: same_shape_stage(3) [OF shape] split: option.split)
  qed
qed simp

lemma stage_state_reset_sink [simp]: "stage_state (reset_sink reason kid w) sid = stage_state w sid"
  by (simp add: stage_state_def reset_sink_def split: option.split)

text \<open>
  After a reset of each, with whatever reasons, pipelines that are built alike are twins, provided
  both are in the same mode and their sinks, reset too, are related.
\<close>

lemma reset_makes_twins:
  assumes built: "built_alike D C R K w pid w' pid'"
    and flags: "pl_validated (w_pipes w' pid') = pl_validated (w_pipes w pid)" "pl_active (w_pipes w' pid') = pl_active (w_pipes w pid)"
    and sinks: "K (snk_state (w_sinks (zpt_pipeline_reset pid reason w) (pl_sink (w_pipes w pid))))
      (snk_state (w_sinks (zpt_pipeline_reset pid' reason' w') (pl_sink (w_pipes w' pid'))))"
  shows "twins D C R K (zpt_pipeline_reset pid reason w) pid (zpt_pipeline_reset pid' reason' w') pid'"
proof -
  let ?ids = "pl_stages (w_pipes w pid)" and ?ids' = "pl_stages (w_pipes w' pid')"
  let ?v = "zpt_pipeline_reset pid reason w" and ?v' = "zpt_pipeline_reset pid' reason' w'"
  note shapes = reset_shape [of w pid reason] reset_shape [of w' pid' reason']
  have len: "length ?ids' = length ?ids" and own: "own_memory w ?ids" "own_memory w' ?ids'"
    using built by (simp_all add: built_alike_def Let_def)
  have "stage_twin D R ?v (?ids ! i) ?v' (?ids' ! i)" if i: "i < length ?ids" for i
  proof -
    obtain api where api: "stg_api (w_stages w (?ids ! i)) = Some api" "stg_api (w_stages w' (?ids' ! i)) = Some api"
        "forgetful_stage D C (R api) api" "C (stg_config (w_stages w (?ids ! i))) (stg_config (w_stages w' (?ids' ! i)))"
        "(stg_state (w_stages w (?ids ! i)) = None \<longleftrightarrow> stg_state (w_stages w' (?ids' ! i)) = None) \<or> (\<forall>z z'. R api z z')"
      using built i unfolding built_alike_def Let_def by metis
    have member: "?ids ! i \<in> set ?ids" "?ids' ! i \<in> set ?ids'" using i len by simp_all
    note keeps = forgetful_stage.reset_keeps [OF api(3)]
    have states: "stage_state ?v (?ids ! i) = (case stage_state w (?ids ! i) of None \<Rightarrow> None
        | Some s \<Rightarrow> reset_state api (stg_config (w_stages w (?ids ! i))) (Some s) reason)"
      "stage_state ?v' (?ids' ! i) = (case stage_state w' (?ids' ! i) of None \<Rightarrow> None
        | Some s \<Rightarrow> reset_state api (stg_config (w_stages w' (?ids' ! i))) (Some s) reason')"
      using fold_reset_state [OF own(1) member(1) api(1) keeps] fold_reset_state [OF own(2) member(2) api(2) keeps]
      by (simp_all add: zpt_pipeline_reset_def)
    have "(stage_state w (?ids ! i) = None \<longleftrightarrow> stage_state w' (?ids' ! i) = None) \<or> (\<forall>z z'. R api z z')"
      using api(5) by (simp add: stage_state_def)
    then have "R api (stage_state ?v (?ids ! i)) (stage_state ?v' (?ids' ! i))"
      unfolding states using forgetful_stage.reset_forgets [OF api(3,4)] forgetful_stage.absent_alike [OF api(3)]
      by (cases "stage_state w (?ids ! i)"; cases "stage_state w' (?ids' ! i)") auto
    then show ?thesis
      using member api(1) by (simp add: stage_twin_def Let_def reset_pending same_shape_stage(2) [OF shapes(1)])
  qed
  then show ?thesis
    using built_alike_shape [OF built shapes] flags sinks
    by (simp add: twins_def in_step_def Let_def same_shape_pipes [OF shapes(1)] same_shape_pipes [OF shapes(2)])
qed

end
