(* ===== verification/Stage_Replay.thy ===== *)
theory Stage_Replay
  imports Pipeline_Twins Orientation Resolution_Normalize Motion_Gate Axis_Intent Axis_Constraint
    Cursor_Acceleration Cursor_Transfer Cursor_Quantizer Cursor_Coalescer Scroll_Batcher Text_Nav
begin

text \<open>
  Every stage a recording can hold forgets at a reset and only reads differences of time: each
  theorem below interprets \<open>forgetful_stage\<close> on the stage's own API record, with the relation between
  the states that matters to it. A time a stage has not stored yet is not compared.
\<close>

section \<open>Signals\<close>

lemma and_or_mask: "f AND (128 :: u32) = 0 \<Longrightarrow> (x OR f) AND 128 = x AND 128"
  by (simp add: bit.conj_disj_distrib2)

lemma meta_like_refl [simp]: "meta_like m m"
  by (simp add: meta_like_def span_like_def)

lemma meta_like_updates [simp]:
  "meta_like (m\<lparr>observed_at_ms := a\<rparr>) m' = meta_like m m'"
  "meta_like m (m'\<lparr>observed_at_ms := a\<rparr>) = meta_like m m'"
  "meta_like (m\<lparr>sequence := q\<rparr>) m' = meta_like m m'" "meta_like m (m'\<lparr>sequence := q\<rparr>) = meta_like m m'"
  by (simp_all add: meta_like_def span_like_def)

lemma meta_like_flag:
  "f AND 128 = 0 \<Longrightarrow> meta_like m m' \<Longrightarrow> meta_like (m\<lparr>flags := flags m OR f\<rparr>) (m'\<lparr>flags := flags m' OR f\<rparr>)"
  by (auto simp: meta_like_def span_like_def and_or_mask)

lemma same_motion_updates [simp]:
  "same_motion D s s' \<Longrightarrow> same_motion D (s\<lparr>data := d\<rparr>) (s'\<lparr>data := d\<rparr>)"
  "same_motion D s s' \<Longrightarrow> same_motion D (s\<lparr>kind := k, data := d\<rparr>) (s'\<lparr>kind := k, data := d\<rparr>)"
  "same_motion D s s' \<Longrightarrow> same_motion D (s\<lparr>annotations := a\<rparr>) (s'\<lparr>annotations := a\<rparr>)"
  "same_motion D s s' \<Longrightarrow> same_motion D (s\<lparr>data := d, annotations := a\<rparr>) (s'\<lparr>data := d, annotations := a\<rparr>)"
  by (simp_all add: same_motion_def)

lemma same_motion_flag:
  "f AND 128 = 0 \<Longrightarrow> same_motion D s s' \<Longrightarrow> same_motion D (add_flag f s) (add_flag f s')"
  by (simp add: same_motion_def add_flag_def meta_like_flag)

lemma same_motion_fresh [simp]:
  "same_motion D \<lparr>kind = k, metadata = m\<lparr>observed_at_ms := t\<rparr>, annotations = a, data = d\<rparr>
     \<lparr>kind = k, metadata = m\<lparr>observed_at_ms := t - D\<rparr>, annotations = a, data = d\<rparr>"
  by (simp add: same_motion_def)

lemma rel_option_cases:
  assumes "rel_option P x y"
  obtains "x = None" "y = None" | a b where "x = Some a" "y = Some b" "P a b"
  using assms by (cases x; cases y) auto

lemma option_alike:
  "rel_option P st st' \<Longrightarrow> rel_option P z z' \<Longrightarrow>
     rel_option P (if st = None \<or> z = None then st else z) (if st' = None \<or> z' = None then st' else z')"
  by (cases st; cases st'; cases z; cases z') auto

lemma total_option [simp]: "\<not> (\<forall>z. All (rel_option P z))"
proof
  assume "\<forall>z. All (rel_option P z)"
  then have "rel_option P None (Some undefined)" by blast
  then show False by simp
qed

section \<open>Stateless stages\<close>

interpretation orientation_forgets: forgetful_stage D "(=)" "\<lambda>_ _. True" zpt_orthogonal_orientation_stage_api for D
  by unfold_locales
    (auto simp: zpt_orthogonal_orientation_stage_api_def reset_state_def orthogonal_orientation_process_def
      Let_def case_prod_unfold same_motionD option.rel_eq)

interpretation resolution_forgets: forgetful_stage D "(=)" "\<lambda>_ _. True" zpt_resolution_normalize_stage_api for D
  by unfold_locales
    (auto simp: zpt_resolution_normalize_stage_api_def reset_state_def resolution_normalize_process_def
      Let_def case_prod_unfold same_motionD option.rel_eq)

interpretation transfer_forgets: forgetful_stage D "(=)" "\<lambda>_ _. True" zpt_cursor_transfer_stage_api for D
  by unfold_locales
    (auto simp: zpt_cursor_transfer_stage_api_def reset_state_def cursor_transfer_stage_process_def
      Let_def case_prod_unfold same_motionD option.rel_eq same_motion_flag split: option.split)

interpretation quantizer_forgets: forgetful_stage D "(=)" "rel_option (=)" zpt_cursor_quantizer_stage_api for D
  by unfold_locales
    (auto simp: zpt_cursor_quantizer_stage_api_def reset_state_def cursor_quantizer_stage_process_def
      cursor_quantizer_stage_reset_def Let_def case_prod_unfold same_motionD option.rel_eq split: option.split)


section \<open>Times that matter\<close>

text \<open>A time noted in both states \<open>D\<close> apart, or in neither.\<close>

definition noted :: "u32 \<Rightarrow> bool \<Rightarrow> u32 \<Rightarrow> bool \<Rightarrow> u32 \<Rightarrow> bool" where
  "noted D have t have' t' \<longleftrightarrow> have' = have \<and> (have \<longrightarrow> t' = t - D)"

definition guard_alike :: "u32 \<Rightarrow> zpt_suppression_policy option \<Rightarrow> zpt_suppression_policy option \<Rightarrow> bool" where
  "guard_alike D p p' \<longleftrightarrow>
     (\<forall>s s' now. same_motion D s s' \<longrightarrow> suppression_active p' s' (now - D) = suppression_active p s now)"

lemma guard_alikeD: "guard_alike D p p' \<Longrightarrow> same_motion D s s' \<Longrightarrow> suppression_active p' s' (now - D) = suppression_active p s now"
  by (simp add: guard_alike_def)

section \<open>Acceleration\<close>

definition acceleration_like :: "u32 \<Rightarrow> zpt_cursor_acceleration_state \<Rightarrow> zpt_cursor_acceleration_state \<Rightarrow> bool" where
  "acceleration_like D st st' \<longleftrightarrow> speed st' = speed st \<and>
     noted D (have_last_frame st) (last_frame_ms st) (have_last_frame st') (last_frame_ms st')"

lemma frame_interval_like:
  assumes "acceleration_like D st st'" "span_like m m'" "observed_at_ms m' = observed_at_ms m - D"
  shows "frame_interval_us st' m' = frame_interval_us st m"
proof (cases "flags m AND FLAG_SAMPLE_SPAN_CLIPPED \<noteq> 0")
  case True
  have "sample_span_us m' \<noteq> 0 \<and> \<not> sample_span_us m' < 1000 \<and> (sample_span_us m' > 40000 \<or> sample_span_us m' = 40000)"
    if "40000 \<le> sample_span_us m'"
    using that order.trans [of "1000 :: u32" 40000 "sample_span_us m'"] by (auto simp: not_less)
  then show ?thesis using True assms(2) by (auto simp: frame_interval_us_def Let_def span_like_def)
next
  case False
  then show ?thesis
    using assms by (auto simp: frame_interval_us_def Let_def acceleration_like_def noted_def span_like_def)
qed

lemma acceleration_observe_like:
  assumes "acceleration_like D st st'" "meta_like m m'" "observed_at_ms m' = observed_at_ms m - D"
  shows "fst (zpt_cursor_acceleration_observe c x y m' st') = fst (zpt_cursor_acceleration_observe c x y m st)"
    and "acceleration_like D (snd (zpt_cursor_acceleration_observe c x y m st)) (snd (zpt_cursor_acceleration_observe c x y m' st'))"
  using assms frame_interval_like [OF assms(1) _ assms(3)]
  by (auto simp: zpt_cursor_acceleration_observe_def Let_def acceleration_like_def noted_def meta_like_def)

interpretation acceleration_forgets: forgetful_stage D "(=)" "rel_option (acceleration_like D)" zpt_cursor_acceleration_stage_api for D
proof unfold_locales
  fix f and c c' :: "zpt_cursor_acceleration_config option" and st st' s s' now
  assume f: "api_process zpt_cursor_acceleration_stage_api = Some f" and "c = c'" and
    st: "rel_option (acceleration_like D) st st'" and s: "same_motion D s s'"
  show "prog_twin D (rel_option (acceleration_like D)) (f c st now s) (f c' st' (now - D) s')"
    using f \<open>c = c'\<close> st
  proof (cases rule: rel_option_cases [OF st])
    case (2 a b)
    show ?thesis
    proof (cases c)
      case (Some config)
      obtain x y where xy: "fixed_vector s = (x, y)" by fastforce
      obtain e a1 where o: "zpt_cursor_acceleration_observe config x y (metadata s) a = (e, a1)" by fastforce
      obtain b1 where o': "zpt_cursor_acceleration_observe config x y (metadata s') b = (e, b1)" "acceleration_like D a1 b1"
        using acceleration_observe_like [OF 2(3) same_motionD(6) [OF s] same_motionD(4) [OF s], of config x y] o
        by (cases "zpt_cursor_acceleration_observe config x y (metadata s') b") auto
      show ?thesis
        using f \<open>c = c'\<close> Some 2 same_motionD [OF s] xy o o' s
        by (auto simp: zpt_cursor_acceleration_stage_api_def cursor_acceleration_stage_process_def Let_def
            case_prod_unfold intro!: prog_twin_emit_return same_motion_flag)
    qed (use f \<open>c = c'\<close> 2 in \<open>auto simp: zpt_cursor_acceleration_stage_api_def cursor_acceleration_stage_process_def\<close>)
  qed (auto simp: zpt_cursor_acceleration_stage_api_def cursor_acceleration_stage_process_def split: option.split)
qed (auto simp: zpt_cursor_acceleration_stage_api_def reset_state_def cursor_acceleration_stage_reset_def
      acceleration_like_def noted_def option_rel_Some1 option.rel_map elim: option.rel_induct split: option.splits)

section \<open>Gate\<close>

definition gate_strategy_like :: "u32 \<Rightarrow> zpt_coherent_displacement_state \<Rightarrow> zpt_coherent_displacement_state \<Rightarrow> bool" where
  "gate_strategy_like D st st' \<longleftrightarrow>
     cd_pending_x st' = cd_pending_x st \<and> cd_pending_y st' = cd_pending_y st \<and> squared_energy st' = squared_energy st \<and>
     sample_count st' = sample_count st \<and> cd_active st' = cd_active st \<and> pending_clipped st' = pending_clipped st \<and>
     noted D (cd_have_last_frame st) (cd_last_frame_ms st) (cd_have_last_frame st') (cd_last_frame_ms st') \<and>
     (has_pending st \<longrightarrow> pending_started_ms st' = pending_started_ms st - D) \<and>
     (has_pending st \<or> cd_active st \<longrightarrow> cd_have_last_frame st)"


lemma gate_reset_like: "gate_strategy_like D zpt_coherent_displacement_reset zpt_coherent_displacement_reset"
  by (simp add: gate_strategy_like_def noted_def zpt_coherent_displacement_reset_def has_pending_def)

lemma has_pending_like: "gate_strategy_like D st st' \<Longrightarrow> has_pending st' = has_pending st"
  by (simp add: gate_strategy_like_def has_pending_def)

lemma gate_expire_like:
  assumes "gate_strategy_like D st st'"
  shows "fst (expire_state settings (now - D) st') = fst (expire_state settings now st)"
    and "gate_strategy_like D (snd (expire_state settings now st)) (snd (expire_state settings (now - D) st'))"
proof -
  have same: "cd_active st' = cd_active st" "has_pending st' = has_pending st"
    using assms has_pending_like [OF assms] by (simp_all add: gate_strategy_like_def)
  have idle: "(cd_have_last_frame st' \<and> t \<le> now - D - cd_last_frame_ms st') =
      (cd_have_last_frame st \<and> t \<le> now - cd_last_frame_ms st)" for t
    using assms by (auto simp: gate_strategy_like_def noted_def)
  have late: "(\<not> cd_active st \<and> has_pending st \<and> t \<le> now - D - pending_started_ms st') =
      (\<not> cd_active st \<and> has_pending st \<and> t \<le> now - pending_started_ms st)" for t
    using assms by (auto simp: gate_strategy_like_def)
  have dropped: "gate_strategy_like D (reset_pending st) (reset_pending st')"
    using assms by (simp add: gate_strategy_like_def noted_def reset_pending_def has_pending_def)
  show "fst (expire_state settings (now - D) st') = fst (expire_state settings now st)"
    unfolding expire_state_def Let_def same idle late by simp
  show "gate_strategy_like D (snd (expire_state settings now st)) (snd (expire_state settings (now - D) st'))"
    unfolding expire_state_def Let_def same idle late using assms gate_reset_like dropped by simp
qed

lemma gate_accumulate_like:
  assumes "gate_strategy_like D st st'" "cd_have_last_frame st"
  shows "gate_strategy_like D (accumulate_pending x y now st) (accumulate_pending x y (now - D) st')"
  using assms
  by (auto simp: accumulate_pending_def Let_def case_prod_unfold gate_strategy_like_def noted_def has_pending_def)

lemma gate_update_like:
  assumes "gate_strategy_like D st st'"
  shows "fst (zpt_coherent_displacement_update settings x y (now - D) suppress st') =
      fst (zpt_coherent_displacement_update settings x y now suppress st)"
    and "gate_strategy_like D (snd (zpt_coherent_displacement_update settings x y now suppress st))
      (snd (zpt_coherent_displacement_update settings x y (now - D) suppress st'))"
proof -
  obtain r e e' where ex: "expire_state settings now st = (r, e)" "expire_state settings (now - D) st' = (r, e')"
      "gate_strategy_like D e e'"
    using gate_expire_like [OF assms, of settings now]
    by (cases "expire_state settings now st"; cases "expire_state settings (now - D) st'") auto
  define a where "a = e\<lparr>cd_last_frame_ms := now, cd_have_last_frame := True\<rparr>"
  define a' where "a' = e'\<lparr>cd_last_frame_ms := now - D, cd_have_last_frame := True\<rparr>"
  have a: "gate_strategy_like D a a'" "cd_have_last_frame a"
    using ex(3) by (simp_all add: a_def a'_def gate_strategy_like_def noted_def has_pending_def)
  define b where "b = accumulate_pending x y now a"
  define b' where "b' = accumulate_pending x y (now - D) a'"
  have b: "gate_strategy_like D b b'" unfolding b_def b'_def by (rule gate_accumulate_like [OF a])
  have have_b: "cd_have_last_frame b" using a by (simp add: b_def accumulate_pending_def Let_def case_prod_unfold)
  have q: "gate_strategy_like D (reset_pending (b\<lparr>cd_active := True\<rparr>)) (reset_pending (b'\<lparr>cd_active := True\<rparr>))"
    using b have_b by (auto simp: gate_strategy_like_def noted_def reset_pending_def has_pending_def)
  have fields: "cd_pending_x b' = cd_pending_x b" "cd_pending_y b' = cd_pending_y b" "squared_energy b' = squared_energy b"
    "sample_count b' = sample_count b" "pending_clipped b' = pending_clipped b" "cd_active a' = cd_active a"
    "has_pending st' = has_pending st" "cd_active st' = cd_active st"
    using b a(1) assms by (simp_all add: gate_strategy_like_def has_pending_def)
  show "fst (zpt_coherent_displacement_update settings x y (now - D) suppress st') =
      fst (zpt_coherent_displacement_update settings x y now suppress st)"
    unfolding zpt_coherent_displacement_update_def ex Let_def prod.case a_def [symmetric] a'_def [symmetric]
      b_def [symmetric] b'_def [symmetric] fields by simp
  show "gate_strategy_like D (snd (zpt_coherent_displacement_update settings x y now suppress st))
      (snd (zpt_coherent_displacement_update settings x y (now - D) suppress st'))"
    unfolding zpt_coherent_displacement_update_def ex Let_def prod.case a_def [symmetric] a'_def [symmetric]
      b_def [symmetric] b'_def [symmetric] fields using assms gate_reset_like a b q by simp
qed

definition gate_like :: "u32 \<Rightarrow> zpt_coherent_displacement_stage_state \<Rightarrow> zpt_coherent_displacement_stage_state \<Rightarrow> bool" where
  "gate_like D st st' \<longleftrightarrow> gate_strategy_like D (strategy st) (strategy st') \<and>
     have_pending_evidence st' = have_pending_evidence st \<and>
     (have_pending_evidence st \<longrightarrow> same_motion D (pending_evidence st) (pending_evidence st'))"

definition gate_config_like :: "u32 \<Rightarrow> zpt_coherent_displacement_stage_config \<Rightarrow> zpt_coherent_displacement_stage_config \<Rightarrow> bool" where
  "gate_config_like D c c' \<longleftrightarrow> cd_settings c' = cd_settings c \<and> guard_alike D (cd_suppression c) (cd_suppression c')"

lemma schedule_next_deadline_twin:
  assumes st: "gate_strategy_like D st st'" and k: "\<And>r. prog_twin D R (k r) (k' r)"
  shows "prog_twin D R (schedule_next_deadline settings st now k) (schedule_next_deadline settings st' (now - D) k')"
proof (cases "\<not> enabled settings \<or> \<not> cd_active st \<and> \<not> has_pending st")
  case True
  then show ?thesis using assms has_pending_like [OF st] by (simp add: schedule_next_deadline_def gate_strategy_like_def)
next
  case False
  define d where "d = cd_last_frame_ms st + ucast (cd_idle_timeout_ms settings)"
  define q where "q = pending_started_ms st + ucast (qualification_timeout_ms settings)"
  have last: "cd_last_frame_ms st' + ucast (cd_idle_timeout_ms settings) = d - D"
    using st False by (auto simp: gate_strategy_like_def noted_def d_def)
  have started: "has_pending st \<Longrightarrow> pending_started_ms st' + ucast (qualification_timeout_ms settings) = q - D"
    using st by (simp add: gate_strategy_like_def q_def)
  have same: "cd_active st' = cd_active st" "has_pending st' = has_pending st"
    using st has_pending_like [OF st] by (simp_all add: gate_strategy_like_def)
  show ?thesis
    unfolding schedule_next_deadline_def Let_def same last d_def [symmetric] q_def [symmetric]
    using False k started by (cases "has_pending st") auto
qed


text \<open>The spans of two frames folded into one: where either is clipped, the sum is, or is as long.\<close>

lemma accumulate_span_like:
  fixes m m' n n' :: zpt_signal_metadata
  assumes m: "meta_like m m'" and n: "meta_like n n'"
  defines "fold_span \<equiv> \<lambda>m n. m\<lparr>sample_span_us := (if - 1 - sample_span_us m < sample_span_us n then - 1 else sample_span_us m + sample_span_us n),
      flags := (if - 1 - sample_span_us m < sample_span_us n then flags m OR FLAG_SAMPLE_SPAN_CLIPPED else flags m) OR flags n\<rparr>"
  shows "meta_like (fold_span m n) (fold_span m' n')"
proof -
  have bits: "(a OR b) AND (128 :: u32) = 0 \<longleftrightarrow> a AND 128 = 0 \<and> b AND 128 = 0" for a b :: u32
    by (simp add: bit.conj_disj_distrib2 or_eq_0_iff)
  have flag: "(128 :: u32) AND 128 \<noteq> 0" by simp
  have sum: "40000 \<le> a + b" if "40000 \<le> a \<or> 40000 \<le> b" "\<not> - 1 - a < b" for a b :: u32
  proof -
    have "uint b \<le> uint (- 1 - a)" using that(2) by (simp add: word_less_alt)
    also have "uint (- 1 - a) = 2 ^ 32 - 1 - uint a"
      using uint_sub_lem [of a "- 1 :: u32"] uint_bounds(4) [of a]
      by (simp add: unsigned_minus_1_eq_mask mask_eq_exp_minus_1)
    finally have "uint (a + b) = uint a + uint b" by (intro uint_add_lem [THEN iffD1]) simp
    then show ?thesis using that(1) unfolding word_le_def by (auto intro: add_increasing add_increasing2)
  qed
  show ?thesis
  proof (cases "flags m AND 128 = 0 \<and> flags n AND 128 = 0")
    case True
    then have "sample_span_us m' = sample_span_us m" "sample_span_us n' = sample_span_us n" "flags m' AND 128 = 0" "flags n' AND 128 = 0"
      using m n by (simp_all add: meta_like_def span_like_def)
    then show ?thesis using True m flag by (auto simp: fold_span_def meta_like_def span_like_def bits)
  next
    case False
    then have "flags m' AND 128 \<noteq> 0 \<or> flags n' AND 128 \<noteq> 0 \<or> 40000 \<le> sample_span_us m' \<or> 40000 \<le> sample_span_us n'"
      using m n by (auto simp: meta_like_def span_like_def split: if_splits)
    then have "flags (fold_span m' n') AND 128 \<noteq> 0 \<or> 40000 \<le> sample_span_us (fold_span m' n')"
      using flag sum [of "sample_span_us m'" "sample_span_us n'"] by (auto simp: fold_span_def bits)
    moreover have "flags (fold_span m n) AND 128 \<noteq> 0" using False flag by (auto simp: fold_span_def bits)
    ultimately show ?thesis using m by (auto simp: meta_like_def span_like_def fold_span_def)
  qed
qed

lemma accumulate_evidence_like:
  assumes st: "gate_like D st st'" and s: "same_motion D s s'"
  shows "gate_like D (accumulate_pending_evidence s st) (accumulate_pending_evidence s' st')"
    and "have_pending_evidence (accumulate_pending_evidence s st)"
proof -
  show "have_pending_evidence (accumulate_pending_evidence s st)" by (simp add: accumulate_pending_evidence_def Let_def)
  show "gate_like D (accumulate_pending_evidence s st) (accumulate_pending_evidence s' st')"
  proof (cases "have_pending_evidence st")
    case True
    then have e: "same_motion D (pending_evidence st) (pending_evidence st')" and "have_pending_evidence st'"
      using st by (simp_all add: gate_like_def)
    show ?thesis
      using True st s e accumulate_span_like [OF same_motionD(6) [OF e] same_motionD(6) [OF s]]
      by (simp add: accumulate_pending_evidence_def gate_like_def Let_def same_motion_def)
  next
    case False
    then show ?thesis using st s by (simp add: accumulate_pending_evidence_def gate_like_def)
  qed
qed

lemma clear_evidence_like: "gate_strategy_like D (strategy st) (strategy st') \<Longrightarrow> gate_like D (clear_pending_evidence st) (clear_pending_evidence st')"
  by (simp add: gate_like_def clear_pending_evidence_def)

lemma observe_result_like:
  assumes st: "gate_like D st st'" and s: "same_motion D s s'"
  shows "fst (observe_result s' r hp st') = fst (observe_result s r hp st)"
    and "gate_like D (snd (observe_result s r hp st)) (snd (observe_result s' r hp st'))"
    and "gate_qualified r \<Longrightarrow> have_pending_evidence (snd (observe_result s r hp st))"
  using assms clear_evidence_like [of D st st'] accumulate_evidence_like [OF _ s]
  by (auto simp: observe_result_def Let_def gate_like_def)


lemma qualified_output_like:
  assumes "gate_like D st st'" "have_pending_evidence st"
  shows "same_motion D (qualified_output st r hp) (qualified_output st' r hp)"
  using assms by (simp add: qualified_output_def Let_def gate_like_def same_motion_flag)

lemma gate_process_twin:
  assumes c: "gate_config_like D c c'" and st: "gate_like D st st'" and s: "same_motion D s s'"
  shows "prog_twin D (rel_option (gate_like D)) (coherent_stage_process (Some c) (Some st) now s)
    (coherent_stage_process (Some c') (Some st') (now - D) s')"
proof -
  note same = same_motionD [OF s]
  have guard: "suppression_active (cd_suppression c') s' (now - D) = suppression_active (cd_suppression c) s now"
    "cd_settings c' = cd_settings c"
    using c guard_alikeD [OF _ s] by (simp_all add: gate_config_like_def)
  have strat: "gate_strategy_like D (strategy st) (strategy st')" using st by (simp add: gate_like_def)
  define x where "x = fst (fixed_vector s)"
  define y where "y = snd (fixed_vector s)"
  define sup where "sup = suppression_active (cd_suppression c) s now"
  define hp where "hp = has_pending (strategy st)"
  obtain r v v' where u: "zpt_coherent_displacement_update (cd_settings c) x y now sup (strategy st) = (r, v)"
      "zpt_coherent_displacement_update (cd_settings c) x y (now - D) sup (strategy st') = (r, v')" "gate_strategy_like D v v'"
    using gate_update_like [OF strat, of "cd_settings c" x y now sup]
    by (cases "zpt_coherent_displacement_update (cd_settings c) x y now sup (strategy st)";
        cases "zpt_coherent_displacement_update (cd_settings c) x y (now - D) sup (strategy st')") auto
  have stepped: "gate_like D (st\<lparr>strategy := v\<rparr>) (st'\<lparr>strategy := v'\<rparr>)" using st u(3) by (simp add: gate_like_def)
  obtain es z z' where o: "observe_result s r hp (st\<lparr>strategy := v\<rparr>) = (es, z)"
      "observe_result s' r hp (st'\<lparr>strategy := v'\<rparr>) = (es, z')" "gate_like D z z'"
      "gate_qualified r \<Longrightarrow> have_pending_evidence z"
    using observe_result_like [OF stepped s, of r hp]
    by (cases "observe_result s r hp (st\<lparr>strategy := v\<rparr>)"; cases "observe_result s' r hp (st'\<lparr>strategy := v'\<rparr>)") auto
  have z: "gate_strategy_like D (strategy z) (strategy z')" using o(3) by (simp add: gate_like_def)
  have hp': "has_pending (strategy st') = hp" using has_pending_like [OF strat] by (simp add: hp_def)
  show ?thesis
    unfolding coherent_stage_process_def prod.case option.case same guard Let_def hp' x_def [symmetric] y_def [symmetric]
      sup_def [symmetric] u hp_def [symmetric] o
    using st by (auto simp: o(4) intro!: schedule_next_deadline_twin [OF u(3)] prog_twin_emit_return s
      qualified_output_like o(3) clear_evidence_like z)
qed

lemma gate_flush_twin:
  assumes c: "gate_config_like D c c'" and st: "gate_like D st st'"
  shows "prog_twin D (rel_option (gate_like D)) (coherent_stage_flush (Some c) (Some st) deadline now)
    (coherent_stage_flush (Some c') (Some st') (deadline - D) (now - D))"
proof -
  have strat: "gate_strategy_like D (strategy st) (strategy st')" and settings: "cd_settings c' = cd_settings c"
    using st c by (simp_all add: gate_like_def gate_config_like_def)
  obtain r v v' where u: "zpt_coherent_displacement_expire (cd_settings c) now (strategy st) = (r, v)"
      "zpt_coherent_displacement_expire (cd_settings c) (now - D) (strategy st') = (r, v')" "gate_strategy_like D v v'"
  proof (rule that)
    let ?bypass = "zpt_coherent_displacement_validate (cd_settings c) < 0 \<or> \<not> enabled (cd_settings c)"
    show "zpt_coherent_displacement_expire (cd_settings c) now (strategy st) =
        (if ?bypass then zero_gate_result\<lparr>phase := GATE_BYPASS\<rparr> else fst (expire_state (cd_settings c) now (strategy st)),
         if ?bypass then strategy st else snd (expire_state (cd_settings c) now (strategy st)))"
      by (simp add: zpt_coherent_displacement_expire_def)
    show "zpt_coherent_displacement_expire (cd_settings c) (now - D) (strategy st') =
        (if ?bypass then zero_gate_result\<lparr>phase := GATE_BYPASS\<rparr> else fst (expire_state (cd_settings c) now (strategy st)),
         if ?bypass then strategy st' else snd (expire_state (cd_settings c) (now - D) (strategy st')))"
      by (simp add: zpt_coherent_displacement_expire_def gate_expire_like(1) [OF strat, symmetric])
    show "gate_strategy_like D (if ?bypass then strategy st else snd (expire_state (cd_settings c) now (strategy st)))
        (if ?bypass then strategy st' else snd (expire_state (cd_settings c) (now - D) (strategy st')))"
      using strat gate_expire_like(2) [OF strat] by simp
  qed
  have stepped: "gate_like D (st\<lparr>strategy := v\<rparr>) (st'\<lparr>strategy := v'\<rparr>)" using st u(3) by (simp add: gate_like_def)
  have cleared: "gate_like D (clear_pending_evidence (st\<lparr>strategy := v\<rparr>)) (clear_pending_evidence (st'\<lparr>strategy := v'\<rparr>))"
    by (rule clear_evidence_like) (simp add: u)
  show ?thesis
    unfolding coherent_stage_flush_def prod.case option.case settings u Let_def
    using stepped cleared by (auto intro!: schedule_next_deadline_twin [OF u(3)])
qed

lemma gate_missing:
  "coherent_stage_process None st now s = Return (- EINVAL) st" "coherent_stage_process c None now s = Return (- EINVAL) None"
  "coherent_stage_flush None st d now = Return (- EINVAL) st" "coherent_stage_flush c None d now = Return (- EINVAL) None"
  by (simp_all add: coherent_stage_process_def coherent_stage_flush_def split: option.split)

interpretation gate_forgets: forgetful_stage D "rel_option (gate_config_like D)" "rel_option (gate_like D)" zpt_coherent_displacement_stage_api for D
proof unfold_locales
  fix f c c' st st' s s' now
  assume "api_process zpt_coherent_displacement_stage_api = Some f"
    and "rel_option (gate_config_like D) c c'" "rel_option (gate_like D) st st'" "same_motion D s s'"
  then show "prog_twin D (rel_option (gate_like D)) (f c st now s) (f c' st' (now - D) s')"
    using gate_process_twin
    by (auto simp: zpt_coherent_displacement_stage_api_def gate_missing elim!: rel_option_cases)
next
  fix g c c' st st' deadline now
  assume "api_flush zpt_coherent_displacement_stage_api = Some g"
    and "rel_option (gate_config_like D) c c'" "rel_option (gate_like D) st st'"
  then show "prog_twin D (rel_option (gate_like D)) (g c st deadline now) (g c' st' (deadline - D) (now - D))"
    using gate_flush_twin by (auto simp: zpt_coherent_displacement_stage_api_def gate_missing elim!: rel_option_cases)
qed (auto simp: zpt_coherent_displacement_stage_api_def reset_state_def coherent_stage_reset_def
      clear_evidence_like gate_reset_like elim!: rel_option_cases split: option.split)


section \<open>Axis intent\<close>

definition intent_like :: "u32 \<Rightarrow> zpt_axis_intent_stage_state \<Rightarrow> zpt_axis_intent_stage_state \<Rightarrow> bool" where
  "intent_like D st st' \<longleftrightarrow> estimator st' = estimator st \<and> last_notified_intent st' = last_notified_intent st \<and>
     noted D (ai_have_last_frame st) (ai_last_frame_ms st) (ai_have_last_frame st') (ai_last_frame_ms st')"

definition intent_config_like :: "u32 \<Rightarrow> zpt_axis_intent_stage_config \<Rightarrow> zpt_axis_intent_stage_config \<Rightarrow> bool" where
  "intent_config_like D c c' \<longleftrightarrow> ai_settings c' = ai_settings c \<and> ai_policy c' = ai_policy c \<and>
     ai_idle_timeout_ms c' = ai_idle_timeout_ms c \<and> guard_alike D (ai_suppression c) (ai_suppression c')"

lemma intent_stale_like:
  assumes "intent_like D st st'"
  shows "fst (reset_estimator_if_stale quiet had t e st') = fst (reset_estimator_if_stale quiet had t e st)"
    and "intent_like D (snd (reset_estimator_if_stale quiet had t e st)) (snd (reset_estimator_if_stale quiet had t e st'))"
  using assms by (auto simp: reset_estimator_if_stale_def intent_like_def)

lemma intent_process_twin:
  assumes c: "intent_config_like D c c'" and st: "intent_like D st st'" and s: "same_motion D s s'"
  shows "prog_twin D (rel_option (intent_like D)) (axis_intent_stage_process (Some c) (Some st) now s)
    (axis_intent_stage_process (Some c') (Some st') (now - D) s')"
proof -
  note same = same_motionD [OF s]
  have guard: "suppression_active (ai_suppression c') s' (now - D) = suppression_active (ai_suppression c) s now"
    "ai_settings c' = ai_settings c" "ai_policy c' = ai_policy c" "ai_idle_timeout_ms c' = ai_idle_timeout_ms c"
    using c guard_alikeD [OF _ s] by (simp_all add: intent_config_like_def)
  have elapsed: "(if ai_have_last_frame st then now - D - ai_last_frame_ms st' else 0) =
      (if ai_have_last_frame st then now - ai_last_frame_ms st else 0)" "ai_have_last_frame st' = ai_have_last_frame st"
    using st by (auto simp: intent_like_def noted_def)
  define e where "e = (if ai_have_last_frame st then now - ai_last_frame_ms st else 0)"
  define sup where "sup = suppression_active (ai_suppression c) s now"
  obtain ns z z' where r: "reset_estimator_if_stale sup (ai_have_last_frame st) (ai_idle_timeout_ms c) e st = (ns, z)"
      "reset_estimator_if_stale sup (ai_have_last_frame st) (ai_idle_timeout_ms c) e st' = (ns, z')" "intent_like D z z'"
    using intent_stale_like [OF st, of sup "ai_have_last_frame st" "ai_idle_timeout_ms c" e]
    by (cases "reset_estimator_if_stale sup (ai_have_last_frame st) (ai_idle_timeout_ms c) e st";
        cases "reset_estimator_if_stale sup (ai_have_last_frame st) (ai_idle_timeout_ms c) e st'") auto
  define a where "a = z\<lparr>ai_last_frame_ms := now, ai_have_last_frame := True\<rparr>"
  define a' where "a' = z'\<lparr>ai_last_frame_ms := now - D, ai_have_last_frame := True\<rparr>"
  have a: "intent_like D a a'" "estimator a' = estimator a" "last_notified_intent a' = last_notified_intent a"
    using r(3) by (simp_all add: a_def a'_def intent_like_def noted_def)
  obtain x y where xy: "fixed_vector s = (x, y)" by fastforce
  obtain i est where est: "zpt_axis_intent_estimate (ai_settings c) (ai_policy c) x y e (estimator a) = (i, est)" by fastforce
  have updated: "intent_like D (a\<lparr>estimator := x, last_notified_intent := y\<rparr>) (a'\<lparr>estimator := x, last_notified_intent := y\<rparr>)" for x y
    using a(1) by (simp add: intent_like_def)
  show ?thesis
    unfolding axis_intent_stage_process_def prod.case option.case same guard elapsed(2) Let_def elapsed(1) e_def [symmetric]
      sup_def [symmetric] r a_def [symmetric] a'_def [symmetric] a(2,3) xy est
    using a(1) updated s by (auto intro!: prog_twin_emit_return)
qed

lemma intent_missing:
  "axis_intent_stage_process None st now s = Return (- EINVAL) st" "axis_intent_stage_process c None now s = Return (- EINVAL) None"
  by (simp_all add: axis_intent_stage_process_def split: option.split)

interpretation intent_forgets: forgetful_stage D "rel_option (intent_config_like D)" "rel_option (intent_like D)" zpt_axis_intent_stage_api for D
proof unfold_locales
  fix f c c' st st' s s' now
  assume "api_process zpt_axis_intent_stage_api = Some f"
    and "rel_option (intent_config_like D) c c'" "rel_option (intent_like D) st st'" "same_motion D s s'"
  then show "prog_twin D (rel_option (intent_like D)) (f c st now s) (f c' st' (now - D) s')"
    using intent_process_twin by (auto simp: zpt_axis_intent_stage_api_def intent_missing elim!: rel_option_cases)
qed (auto simp: zpt_axis_intent_stage_api_def reset_state_def axis_intent_stage_reset_def intent_like_def noted_def
      elim!: rel_option_cases split: option.split)

section \<open>Axis constraint\<close>

definition constraint_like :: "u32 \<Rightarrow> zpt_axis_constraint_state \<Rightarrow> zpt_axis_constraint_state \<Rightarrow> bool" where
  "constraint_like D st st' \<longleftrightarrow> undecided_x st' = undecided_x st \<and> undecided_y st' = undecided_y st \<and>
     previous_intent st' = previous_intent st \<and> have_undecided st' = have_undecided st \<and>
     noted D (ac_have_last_frame st) (ac_last_frame_ms st) (ac_have_last_frame st') (ac_last_frame_ms st')"

definition constraint_config_like :: "u32 \<Rightarrow> zpt_axis_constraint_config \<Rightarrow> zpt_axis_constraint_config \<Rightarrow> bool" where
  "constraint_config_like D c c' \<longleftrightarrow> discard_unclassified c' = discard_unclassified c \<and>
     ac_idle_timeout_ms c' = ac_idle_timeout_ms c \<and> fold_interval_ms c' = fold_interval_ms c \<and>
     guard_alike D (ac_suppression c) (ac_suppression c')"

lemma clear_undecided_like: "constraint_like D st st' \<Longrightarrow> constraint_like D (clear_undecided st) (clear_undecided st')"
  by (simp add: constraint_like_def clear_undecided_def)

lemma undecided_expiry_twin:
  assumes "have_undecided st' = have_undecided st" "fold_interval_ms c' = fold_interval_ms c" "ac_idle_timeout_ms c' = ac_idle_timeout_ms c"
    and "prog_twin D R k k'"
  shows "prog_twin D R (schedule_undecided_expiry st c now k) (schedule_undecided_expiry st' c' (now - D) k')"
  using assms by (simp add: schedule_undecided_expiry_def Let_def)

lemma fold_undecided_like:
  assumes "constraint_like D st st'"
  obtains out z z' folded where "fold_undecided_motion st i v = (out, z, folded)"
    "fold_undecided_motion st' i v = (out, z', folded)" "constraint_like D z z'"
  using that assms clear_undecided_like [OF assms]
  by (cases "previous_intent st \<noteq> AXIS_UNDECIDED \<or> \<not> have_undecided st")
    (auto simp: fold_undecided_motion_def constraint_like_def)

lemma constraint_process_twin:
  assumes c: "constraint_config_like D c c'" and st: "constraint_like D st st'" and s: "same_motion D s s'"
  shows "prog_twin D (rel_option (constraint_like D)) (axis_constraint_stage_process (Some c) (Some st) now s)
    (axis_constraint_stage_process (Some c') (Some st') (now - D) s')"
proof -
  note same = same_motionD [OF s]
  have guard: "suppression_active (ac_suppression c') s' (now - D) = suppression_active (ac_suppression c) s now"
    and timeout: "ac_idle_timeout_ms c' = ac_idle_timeout_ms c" "fold_interval_ms c' = fold_interval_ms c"
    using c guard_alikeD [OF _ s] by (simp_all add: constraint_config_like_def)
  have elapsed: "(if ac_have_last_frame st then now - D - ac_last_frame_ms st' else 0) =
      (if ac_have_last_frame st then now - ac_last_frame_ms st else 0)" "ac_have_last_frame st' = ac_have_last_frame st"
    using st by (auto simp: constraint_like_def noted_def)
  define e where "e = (if ac_have_last_frame st then now - ac_last_frame_ms st else 0)"
  define stale where "stale = (\<not> ac_have_last_frame st \<or> ac_idle_timeout_ms c \<noteq> 0 \<and> e \<ge> ucast (ac_idle_timeout_ms c))"
  define a where "a = (if stale then (clear_undecided st)\<lparr>previous_intent := AXIS_UNDECIDED\<rparr> else st)\<lparr>ac_last_frame_ms := now, ac_have_last_frame := True\<rparr>"
  define a' where "a' = (if stale then (clear_undecided st')\<lparr>previous_intent := AXIS_UNDECIDED\<rparr> else st')\<lparr>ac_last_frame_ms := now - D, ac_have_last_frame := True\<rparr>"
  have a: "constraint_like D a a'" "undecided_x a' = undecided_x a" "undecided_y a' = undecided_y a"
    using st by (auto simp: a_def a'_def constraint_like_def clear_undecided_def noted_def)
  obtain out z z' folded where f: "fold_undecided_motion a (axis_intent (annotations s)) (0, 0) = (out, z, folded)"
      "fold_undecided_motion a' (axis_intent (annotations s)) (0, 0) = (out, z', folded)" "constraint_like D z z'"
    by (rule fold_undecided_like [OF a(1)])
  have updated: "constraint_like D (z\<lparr>previous_intent := i\<rparr>) (z'\<lparr>previous_intent := i\<rparr>)"
      "constraint_like D (a\<lparr>undecided_x := x, undecided_y := y, have_undecided := True\<rparr>)
        (a'\<lparr>undecided_x := x, undecided_y := y, have_undecided := True\<rparr>)" for i x y
    using a(1) f(3) by (simp_all add: constraint_like_def)
  obtain x y where xy: "fixed_vector s = (x, y)" by fastforce
  obtain ox oy where out: "out = (ox, oy)" by (cases out)
  have undecided: "have_undecided z' = have_undecided z" using f(3) by (simp add: constraint_like_def)
  show ?thesis
    unfolding axis_constraint_stage_process_def prod.case option.case same guard elapsed(2) timeout(1) Let_def elapsed(1) e_def [symmetric]
      stale_def [symmetric] a_def [symmetric] a'_def [symmetric] a(2,3) f xy out
    using st
    by (auto simp: updated f(3) clear_undecided_like zeroed_frame_def undecided same_motion_def [symmetric]
        intro!: prog_twin_emit_return undecided_expiry_twin timeout s same_motion_updates)
qed


lemma constraint_flush_twin:
  assumes c: "constraint_config_like D c c'" and st: "constraint_like D st st'"
  shows "prog_twin D (rel_option (constraint_like D)) (axis_constraint_stage_flush (Some c) (Some st) deadline now)
    (axis_constraint_stage_flush (Some c') (Some st') (deadline - D) (now - D))"
proof -
  have same: "discard_unclassified c' = discard_unclassified c" "have_undecided st' = have_undecided st"
    "undecided_x st' = undecided_x st" "undecided_y st' = undecided_y st"
    using c st by (simp_all add: constraint_config_like_def constraint_like_def)
  show ?thesis
    unfolding axis_constraint_stage_flush_def prod.case option.case same
    using st clear_undecided_like [OF st] by (auto intro!: prog_twin_emit_return simp: same_motion_def)
qed

lemma constraint_missing:
  "axis_constraint_stage_process None st now s = Return (- EINVAL) st"
  "axis_constraint_stage_process c None now s = Return (- EINVAL) None"
  "axis_constraint_stage_flush None st d now = Return (- EINVAL) st"
  "axis_constraint_stage_flush c None d now = Return (- EINVAL) None"
  by (simp_all add: axis_constraint_stage_process_def axis_constraint_stage_flush_def split: option.split)

interpretation constraint_forgets: forgetful_stage D "rel_option (constraint_config_like D)" "rel_option (constraint_like D)"
  zpt_axis_constraint_stage_api for D
proof unfold_locales
  fix f c c' st st' s s' now
  assume "api_process zpt_axis_constraint_stage_api = Some f"
    and "rel_option (constraint_config_like D) c c'" "rel_option (constraint_like D) st st'" "same_motion D s s'"
  then show "prog_twin D (rel_option (constraint_like D)) (f c st now s) (f c' st' (now - D) s')"
    using constraint_process_twin
    by (auto simp: zpt_axis_constraint_stage_api_def constraint_missing elim!: rel_option_cases)
next
  fix g c c' st st' deadline now
  assume "api_flush zpt_axis_constraint_stage_api = Some g"
    and "rel_option (constraint_config_like D) c c'" "rel_option (constraint_like D) st st'"
  then show "prog_twin D (rel_option (constraint_like D)) (g c st deadline now) (g c' st' (deadline - D) (now - D))"
    using constraint_flush_twin
    by (auto simp: zpt_axis_constraint_stage_api_def constraint_missing elim!: rel_option_cases)
qed (auto simp: zpt_axis_constraint_stage_api_def reset_state_def axis_constraint_stage_reset_def
      clear_undecided_def constraint_like_def noted_def elim!: rel_option_cases split: option.split)

section \<open>Coalescer\<close>

definition coalescer_like :: "u32 \<Rightarrow> zpt_cursor_coalescer_state \<Rightarrow> zpt_cursor_coalescer_state \<Rightarrow> bool" where
  "coalescer_like D st st' \<longleftrightarrow> pending_x st' = pending_x st \<and> pending_y st' = pending_y st \<and>
     pending_frames st' = pending_frames st \<and> armed st' = armed st \<and>
     meta_like (pending_metadata st) (pending_metadata st') \<and>
     noted D (have_report st) (last_report_ms st) (have_report st') (last_report_ms st')"

definition coalescer_config_like :: "zpt_cursor_coalescer_config \<Rightarrow> zpt_cursor_coalescer_config \<Rightarrow> bool" where
  "coalescer_config_like c c' \<longleftrightarrow> zpt_cursor_coalescer_interval_ms c' = zpt_cursor_coalescer_interval_ms c"

lemma arm_twin:
  assumes st: "coalescer_like D st st'"
    and k: "\<And>r z z'. coalescer_like D z z' \<Longrightarrow> prog_twin D (rel_option (coalescer_like D)) (k r z) (k' r z')"
  shows "\<not> armed st \<Longrightarrow> d' = d - D \<Longrightarrow> prog_twin D (rel_option (coalescer_like D)) (arm st d k) (arm st' d' k')"
    and "armed st \<Longrightarrow> prog_twin D (rel_option (coalescer_like D)) (arm st d k) (arm st' d' k')"
proof -
  have same: "armed st' = armed st" and set_armed: "coalescer_like D (st\<lparr>armed := True\<rparr>) (st'\<lparr>armed := True\<rparr>)"
    using st by (simp_all add: coalescer_like_def)
  show "\<not> armed st \<Longrightarrow> d' = d - D \<Longrightarrow> prog_twin D (rel_option (coalescer_like D)) (arm st d k) (arm st' d' k')"
    using k st set_armed by (simp add: arm_def same)
  show "armed st \<Longrightarrow> prog_twin D (rel_option (coalescer_like D)) (arm st d k) (arm st' d' k')"
    using k st by (simp add: arm_def same)
qed

text \<open>The report \<open>send_report\<close> makes, and the state it leaves before it arms.\<close>

definition report_of :: "zpt_cursor_coalescer_state \<Rightarrow> u32 \<Rightarrow> zpt_signal" where
  "report_of st now = \<lparr>kind = SIGNAL_POINTER_DELTA,
     metadata = (if pending_frames st > 1
       then (pending_metadata st)\<lparr>observed_at_ms := now, flags := flags (pending_metadata st) OR FLAG_COALESCED\<rparr>
       else (pending_metadata st)\<lparr>observed_at_ms := now\<rparr>),
     annotations = zero_annotations,
     data = Delta (fst (take_report_axis (pending_x st))) (fst (take_report_axis (pending_y st)))\<rparr>"

definition reported :: "zpt_cursor_coalescer_state \<Rightarrow> u32 \<Rightarrow> zpt_cursor_coalescer_state" where
  "reported st now = st\<lparr>pending_x := snd (take_report_axis (pending_x st)), pending_y := snd (take_report_axis (pending_y st)),
     pending_frames := 0, last_report_ms := now, have_report := True\<rparr>"

lemma send_report_alt:
  "send_report st now i = (if pending_x (reported st now) \<noteq> 0 \<or> pending_y (reported st now) \<noteq> 0
     then arm (reported st now) (now + ucast i)
       (\<lambda>ret state. if ret < 0 then Return ret (Some state) else emit_return (report_of st now) (Some state))
     else emit_return (report_of st now) (Some (reported st now)))"
  by (simp add: send_report_def report_of_def reported_def Let_def case_prod_unfold cong: if_cong)

lemma report_like:
  assumes "coalescer_like D st st'"
  shows "same_motion D (report_of st now) (report_of st' (now - D))"
    and "coalescer_like D (reported st now) (reported st' (now - D))"
    and "pending_x (reported st' t) = pending_x (reported st u)" "pending_y (reported st' t) = pending_y (reported st u)"
  using assms meta_like_flag [of FLAG_COALESCED "pending_metadata st" "pending_metadata st'"]
  by (auto simp: report_of_def reported_def coalescer_like_def noted_def same_motion_def meta_like_def span_like_def)

lemma send_report_twin:
  assumes st: "coalescer_like D st st'"
  shows "prog_twin D (rel_option (coalescer_like D)) (send_report st now i) (send_report st' (now - D) i)"
proof -
  note like = report_like [OF st]
  have "prog_twin D (rel_option (coalescer_like D))
     (arm (reported st now) (now + ucast i) (\<lambda>ret state. if ret < 0 then Return ret (Some state) else emit_return (report_of st now) (Some state)))
     (arm (reported st' (now - D)) (now - D + ucast i)
       (\<lambda>ret state. if ret < 0 then Return ret (Some state) else emit_return (report_of st' (now - D)) (Some state)))"
  proof (cases "armed (reported st now)")
    case True
    then show ?thesis by (intro arm_twin(2) [OF like(2)]) (auto intro!: prog_twin_emit_return like(1))
  next
    case False
    then show ?thesis by (intro arm_twin(1) [OF like(2)]) (auto intro!: prog_twin_emit_return like(1))
  qed
  then show ?thesis
    unfolding send_report_alt using like(1,2) like(3,4) [of "now - D" now] by auto
qed

lemma fold_frame_like: "coalescer_like D st st' \<Longrightarrow> same_motion D s s' \<Longrightarrow> coalescer_like D (fold_frame s st) (fold_frame s' st')"
  by (auto simp: fold_frame_def coalescer_like_def same_motionD)

lemma coalescer_process_twin:
  assumes c: "coalescer_config_like c c'" and st: "coalescer_like D st st'" and s: "same_motion D s s'"
  shows "prog_twin D (rel_option (coalescer_like D)) (cursor_coalescer_stage_process (Some c) (Some st) now s)
    (cursor_coalescer_stage_process (Some c') (Some st') (now - D) s')"
proof -
  define z where "z = fold_frame s st"
  define z' where "z' = fold_frame s' st'"
  have z: "coalescer_like D z z'" unfolding z_def z'_def by (rule fold_frame_like [OF st s])
  have same: "kind s' = kind s" "pending_x z' = pending_x z" "pending_y z' = pending_y z" "armed z' = armed z"
      "zpt_cursor_coalescer_interval_ms c' = zpt_cursor_coalescer_interval_ms c"
      "interval_elapsed z' (now - D) i = interval_elapsed z now i" for i
    using z c same_motionD(1) [OF s] by (auto simp: coalescer_like_def coalescer_config_like_def interval_elapsed_def noted_def)
  have later: "prog_twin D (rel_option (coalescer_like D)) (arm z (last_report_ms z + ucast i) (\<lambda>ret state. Return ret (Some state)))
      (arm z' (last_report_ms z' + ucast i) (\<lambda>ret state. Return ret (Some state)))"
    if "armed z \<or> \<not> interval_elapsed z now i" for i
  proof (cases "armed z")
    case False
    then have "last_report_ms z' = last_report_ms z - D"
      using that z by (simp add: coalescer_like_def interval_elapsed_def noted_def)
    then show ?thesis using False by (intro arm_twin(1) [OF z]) simp_all
  qed (intro arm_twin(2) [OF z], simp_all)
  show ?thesis
    unfolding cursor_coalescer_stage_process_def prod.case option.case Let_def z_def [symmetric] z'_def [symmetric] same
    using st z later send_report_twin [OF z] by auto
qed

lemma coalescer_flush_twin:
  assumes c: "coalescer_config_like c c'" and st: "coalescer_like D st st'"
  shows "prog_twin D (rel_option (coalescer_like D)) (cursor_coalescer_stage_flush (Some c) (Some st) deadline now)
    (cursor_coalescer_stage_flush (Some c') (Some st') (deadline - D) (now - D))"
proof -
  have z: "coalescer_like D (st\<lparr>armed := False\<rparr>) (st'\<lparr>armed := False\<rparr>)" using st by (simp add: coalescer_like_def)
  then show ?thesis
    using send_report_twin [OF z] c st
    by (simp add: cursor_coalescer_stage_flush_def coalescer_config_like_def coalescer_like_def [of D st st'] Let_def)
qed

lemma coalescer_missing:
  "cursor_coalescer_stage_process None st now s = Return (- EINVAL) st"
  "cursor_coalescer_stage_process c None now s = Return (- EINVAL) None"
  "cursor_coalescer_stage_flush None st d now = Return (- EINVAL) st"
  "cursor_coalescer_stage_flush c None d now = Return (- EINVAL) None"
  by (simp_all add: cursor_coalescer_stage_process_def cursor_coalescer_stage_flush_def split: option.split)

interpretation coalescer_forgets: forgetful_stage D "rel_option coalescer_config_like" "rel_option (coalescer_like D)"
  zpt_cursor_coalescer_stage_api for D
proof unfold_locales
  fix f c c' st st' s s' now
  assume "api_process zpt_cursor_coalescer_stage_api = Some f"
    and "rel_option coalescer_config_like c c'" "rel_option (coalescer_like D) st st'" "same_motion D s s'"
  then show "prog_twin D (rel_option (coalescer_like D)) (f c st now s) (f c' st' (now - D) s')"
    using coalescer_process_twin
    by (auto simp: zpt_cursor_coalescer_stage_api_def coalescer_missing elim!: rel_option_cases)
next
  fix g c c' st st' deadline now
  assume "api_flush zpt_cursor_coalescer_stage_api = Some g"
    and "rel_option coalescer_config_like c c'" "rel_option (coalescer_like D) st st'"
  then show "prog_twin D (rel_option (coalescer_like D)) (g c st deadline now) (g c' st' (deadline - D) (now - D))"
    using coalescer_flush_twin
    by (auto simp: zpt_cursor_coalescer_stage_api_def coalescer_missing elim!: rel_option_cases)
qed (auto simp: zpt_cursor_coalescer_stage_api_def reset_state_def cursor_coalescer_stage_reset_def
      zero_coalescer_def coalescer_like_def noted_def elim!: rel_option_cases split: option.split)


section \<open>Scroll batcher\<close>

definition batcher_config_like :: "u32 \<Rightarrow> zpt_scroll_batcher_config \<Rightarrow> zpt_scroll_batcher_config \<Rightarrow> bool" where
  "batcher_config_like D c c' \<longleftrightarrow> steps_per_millimeter c' = steps_per_millimeter c \<and>
     report_interval_ms c' = report_interval_ms c \<and> guard_alike D (sb_suppression c) (sb_suppression c')"

interpretation batcher_forgets: forgetful_stage D "rel_option (batcher_config_like D)" "rel_option (=)" zpt_scroll_batcher_stage_api for D
proof unfold_locales
  fix f c c' and st st' :: "zpt_scroll_batcher_state option" and s s' now
  assume "api_process zpt_scroll_batcher_stage_api = Some f"
    and "rel_option (batcher_config_like D) c c'" "rel_option (=) st st'" and s: "same_motion D s s'"
  then show "prog_twin D (rel_option (=)) (f c st now s) (f c' st' (now - D) s')"
    using same_motionD [OF s] guard_alikeD [OF _ s]
    by (auto simp: zpt_scroll_batcher_stage_api_def scroll_batcher_stage_process_def batcher_config_like_def
        option.rel_eq Let_def elim!: rel_option_cases split: option.split)
next
  fix g c c' and st st' :: "zpt_scroll_batcher_state option" and deadline now
  assume "api_flush zpt_scroll_batcher_stage_api = Some g"
    and "rel_option (batcher_config_like D) c c'" "rel_option (=) st st'"
  then show "prog_twin D (rel_option (=)) (g c st deadline now) (g c' st' (deadline - D) (now - D))"
    by (auto simp: zpt_scroll_batcher_stage_api_def scroll_batcher_stage_flush_def batcher_config_like_def
        option.rel_eq Let_def case_prod_unfold elim!: rel_option_cases split: option.split)
qed (auto simp: zpt_scroll_batcher_stage_api_def reset_state_def scroll_batcher_stage_reset_def
      elim!: rel_option_cases split: option.split)

section \<open>Text navigation\<close>

definition text_nav_like :: "u32 \<Rightarrow> zpt_text_nav_state \<Rightarrow> zpt_text_nav_state \<Rightarrow> bool" where
  "text_nav_like D st st' \<longleftrightarrow> accumulated_x st' = accumulated_x st \<and> accumulated_y st' = accumulated_y st \<and>
     last_direction st' = last_direction st \<and>
     noted D (tn_have_last_frame st) (tn_last_frame_ms st) (tn_have_last_frame st') (tn_last_frame_ms st')"

lemma start_frame_like: "text_nav_like D st st' \<Longrightarrow> text_nav_like D (start_frame c now st) (start_frame c (now - D) st')"
  by (auto simp: start_frame_def text_nav_like_def noted_def Let_def)

lemma text_nav_process_twin:
  assumes st: "text_nav_like D st st'" and s: "same_motion D s s'"
  shows "prog_twin D (rel_option (text_nav_like D)) (text_nav_stage_process (Some c) (Some st) now s)
    (text_nav_stage_process (Some c) (Some st') (now - D) s')"
proof -
  note same = same_motionD(1,2,9) [OF s]
  define z where "z = start_frame c now st"
  define z' where "z' = start_frame c (now - D) st'"
  have z: "text_nav_like D z z'" unfolding z_def z'_def by (rule start_frame_like [OF st])
  have axis: "resolve_text_nav_axis z' c i x y = resolve_text_nav_axis z c i x y" for i x y
    using z by (simp add: resolve_text_nav_axis_def text_nav_like_def)
  have stored: "text_nav_like D ((store_axis_accumulation h a z)\<lparr>last_direction := d\<rparr>) ((store_axis_accumulation h a z')\<lparr>last_direction := d\<rparr>)"
    "text_nav_like D (z\<lparr>last_direction := d\<rparr>) (z'\<lparr>last_direction := d\<rparr>)" for h a d
    using z by (auto simp: store_axis_accumulation_def text_nav_like_def)
  show ?thesis
    unfolding text_nav_stage_process_def prod.case option.case Let_def z_def [symmetric] z'_def [symmetric] same axis
    using st stored by (auto split: option.split intro!: prog_twin_emit_return)
qed

interpretation text_nav_forgets: forgetful_stage D "(=)" "rel_option (text_nav_like D)" zpt_text_nav_stage_api for D
proof unfold_locales
  fix f and c c' :: "zpt_text_nav_config option" and st st' s s' now
  assume "api_process zpt_text_nav_stage_api = Some f" "c = c'"
    and "rel_option (text_nav_like D) st st'" "same_motion D s s'"
  moreover have "text_nav_stage_process None z now t = Return (- EINVAL) z"
    "text_nav_stage_process c None now t = Return (- EINVAL) None" for c z now t
    by (simp_all add: text_nav_stage_process_def split: option.split)
  ultimately show "prog_twin D (rel_option (text_nav_like D)) (f c st now s) (f c' st' (now - D) s')"
    using text_nav_process_twin by (cases c) (auto simp: zpt_text_nav_stage_api_def elim!: rel_option_cases)
qed (auto simp: zpt_text_nav_stage_api_def reset_state_def text_nav_stage_reset_def reset_text_nav_def
      text_nav_like_def noted_def elim!: rel_option_cases split: option.split)

end
