(* ===== verification/Chain.thy ===== *)
theory Chain
  imports Stage_Replay Stage_Parameters
begin

text \<open>
  Pipelines of different stages in one store. The replay runner keeps the configuration and the state
  of a stage in unions (\<open>host/runners/cursor_pipeline_replay.c\<close>); here they are sums, and each
  stage's API is embedded into APIs over the sums. The firmware reads the same objects through
  \<open>void\<close> pointers cast to what the stage's strategy takes. A member that was never written is zero.
\<close>

section \<open>Stages of every type\<close>

datatype stage_type = STAGE_ORIENTATION | STAGE_NORMALIZE | STAGE_GATE | STAGE_ACCELERATION | STAGE_TRANSFER
  | STAGE_QUANTIZER | STAGE_COALESCER | STAGE_INTENT | STAGE_CONSTRAINT | STAGE_BATCHER | STAGE_TEXT_NAV

definition stage_names :: "(string \<times> stage_type) list" where
  "stage_names = [(''orientation'', STAGE_ORIENTATION), (''normalize'', STAGE_NORMALIZE), (''gate'', STAGE_GATE),
     (''acceleration'', STAGE_ACCELERATION), (''transfer'', STAGE_TRANSFER), (''quantizer'', STAGE_QUANTIZER),
     (''coalescer'', STAGE_COALESCER), (''axis-intent'', STAGE_INTENT), (''axis-constraint'', STAGE_CONSTRAINT),
     (''scroll-batcher'', STAGE_BATCHER), (''text-nav'', STAGE_TEXT_NAV)]"

datatype chain_config =
    NoConfig
  | Orientation zpt_orientation_config
  | Gate zpt_coherent_displacement_stage_config
  | Acceleration zpt_cursor_acceleration_config
  | Transfer zpt_cursor_transfer_config
  | Coalescer zpt_cursor_coalescer_config
  | Intent zpt_axis_intent_stage_config
  | Constraint zpt_axis_constraint_config
  | Batcher zpt_scroll_batcher_config
  | TextNav zpt_text_nav_config

datatype chain_state =
    ZeroState
  | GateState zpt_coherent_displacement_stage_state
  | AccelerationState zpt_cursor_acceleration_state
  | QuantizerState zpt_cursor_quantizer_state
  | CoalescerState zpt_cursor_coalescer_state
  | IntentState zpt_axis_intent_stage_state
  | ConstraintState zpt_axis_constraint_state
  | BatcherState zpt_scroll_batcher_state
  | TextNavState zpt_text_nav_state

text \<open>Reading a member, zero while the object holds no value of its type.\<close>

fun as_gate :: "chain_state \<Rightarrow> zpt_coherent_displacement_stage_state" where
  "as_gate (GateState s) = s"
| "as_gate _ = \<lparr>strategy = zpt_coherent_displacement_reset, pending_evidence = zero_signal, have_pending_evidence = False\<rparr>"

fun as_acceleration :: "chain_state \<Rightarrow> zpt_cursor_acceleration_state" where
  "as_acceleration (AccelerationState s) = s"
| "as_acceleration _ = \<lparr>speed = 0, last_frame_ms = 0, have_last_frame = False\<rparr>"

fun as_quantizer :: "chain_state \<Rightarrow> zpt_cursor_quantizer_state" where
  "as_quantizer (QuantizerState s) = s"
| "as_quantizer _ = \<lparr>remainder_x = 0, remainder_y = 0\<rparr>"

fun as_coalescer :: "chain_state \<Rightarrow> zpt_cursor_coalescer_state" where
  "as_coalescer (CoalescerState s) = s"
| "as_coalescer _ = zero_coalescer"

fun as_intent :: "chain_state \<Rightarrow> zpt_axis_intent_stage_state" where
  "as_intent (IntentState s) = s"
| "as_intent _ = \<lparr>estimator = zpt_axis_intent_reset, ai_last_frame_ms = 0, ai_have_last_frame = False, last_notified_intent = 0\<rparr>"

fun as_constraint :: "chain_state \<Rightarrow> zpt_axis_constraint_state" where
  "as_constraint (ConstraintState s) = s"
| "as_constraint _ = \<lparr>undecided_x = 0, undecided_y = 0, previous_intent = 0, ac_last_frame_ms = 0,
     ac_have_last_frame = False, have_undecided = False\<rparr>"

fun as_batcher :: "chain_state \<Rightarrow> zpt_scroll_batcher_state" where
  "as_batcher (BatcherState s) = s"
| "as_batcher _ = zero_batcher"

fun as_text_nav :: "chain_state \<Rightarrow> zpt_text_nav_state" where
  "as_text_nav (TextNavState s) = s"
| "as_text_nav _ = \<lparr>accumulated_x = 0, accumulated_y = 0, last_direction = 0, tn_last_frame_ms = 0, tn_have_last_frame = False\<rparr>"

fun config_orientation where "config_orientation (Orientation c) = Some c" | "config_orientation _ = None"
fun config_gate where "config_gate (Gate c) = Some c" | "config_gate _ = None"
fun config_acceleration where "config_acceleration (Acceleration c) = Some c" | "config_acceleration _ = None"
fun config_transfer where "config_transfer (Transfer c) = Some c" | "config_transfer _ = None"
fun config_coalescer where "config_coalescer (Coalescer c) = Some c" | "config_coalescer _ = None"
fun config_intent where "config_intent (Intent c) = Some c" | "config_intent _ = None"
fun config_constraint where "config_constraint (Constraint c) = Some c" | "config_constraint _ = None"
fun config_batcher where "config_batcher (Batcher c) = Some c" | "config_batcher _ = None"
fun config_text_nav where "config_text_nav (TextNav c) = Some c" | "config_text_nav _ = None"

text \<open>
  A callback of a stage on its own types becomes one on the sums: it reads its member of the state
  and writes it back. A stage without state leaves the object alone.
\<close>

definition embed_api :: "('C \<Rightarrow> 'c option) \<Rightarrow> ('S \<Rightarrow> 's) \<Rightarrow> ('S \<Rightarrow> 's \<Rightarrow> 'S) \<Rightarrow> ('c, 's) zpt_stage_api \<Rightarrow> ('C, 'S) zpt_stage_api" where
  "embed_api cast get put api = \<lparr>strategy_id = strategy_id api, accepted_kinds = accepted_kinds api,
     output_kind = output_kind api, api_flags = api_flags api,
     api_process = map_option (\<lambda>f c st now s.
       map_stage_prog (put (the st)) (f (Option.bind c cast) (map_option get st) now s)) (api_process api),
     api_flush = map_option (\<lambda>f c st deadline now.
       map_stage_prog (put (the st)) (f (Option.bind c cast) (map_option get st) deadline now)) (api_flush api),
     api_activate = map_option (\<lambda>f c st reason.
       map_prod id (map_option (put (the st))) (f (Option.bind c cast) (map_option get st) reason)) (api_activate api),
     api_deactivate = map_option (\<lambda>f c st now reason.
       map_stage_prog (put (the st)) (f (Option.bind c cast) (map_option get st) now reason)) (api_deactivate api),
     api_reset = map_option (\<lambda>f c st reason.
       map_option (put (the st)) (f (Option.bind c cast) (map_option get st) reason)) (api_reset api)\<rparr>"

fun stage_api :: "stage_type \<Rightarrow> (chain_config, chain_state) zpt_stage_api" where
  "stage_api STAGE_ORIENTATION = embed_api config_orientation (\<lambda>_. ()) (\<lambda>st _. st) zpt_orthogonal_orientation_stage_api"
| "stage_api STAGE_NORMALIZE = embed_api (\<lambda>_. None) (\<lambda>_. ()) (\<lambda>st _. st) zpt_resolution_normalize_stage_api"
| "stage_api STAGE_GATE = embed_api config_gate as_gate (\<lambda>_. GateState) zpt_coherent_displacement_stage_api"
| "stage_api STAGE_ACCELERATION = embed_api config_acceleration as_acceleration (\<lambda>_. AccelerationState) zpt_cursor_acceleration_stage_api"
| "stage_api STAGE_TRANSFER = embed_api config_transfer (\<lambda>_. ()) (\<lambda>st _. st) zpt_cursor_transfer_stage_api"
| "stage_api STAGE_QUANTIZER = embed_api (\<lambda>_. None) as_quantizer (\<lambda>_. QuantizerState) zpt_cursor_quantizer_stage_api"
| "stage_api STAGE_COALESCER = embed_api config_coalescer as_coalescer (\<lambda>_. CoalescerState) zpt_cursor_coalescer_stage_api"
| "stage_api STAGE_INTENT = embed_api config_intent as_intent (\<lambda>_. IntentState) zpt_axis_intent_stage_api"
| "stage_api STAGE_CONSTRAINT = embed_api config_constraint as_constraint (\<lambda>_. ConstraintState) zpt_axis_constraint_stage_api"
| "stage_api STAGE_BATCHER = embed_api config_batcher as_batcher (\<lambda>_. BatcherState) zpt_scroll_batcher_stage_api"
| "stage_api STAGE_TEXT_NAV = embed_api config_text_nav as_text_nav (\<lambda>_. TextNavState) zpt_text_nav_stage_api"

section \<open>Guards decide\<close>

text \<open>
  The policy a stage references answers from the state of its guard. \<open>decided\<close> gives every policy at
  an address the guard's decisions now, before a call of the pipeline that keeps them.
\<close>

definition decided_policy :: "nat \<Rightarrow> (u32 \<Rightarrow> bool) \<Rightarrow> zpt_suppression_policy option \<Rightarrow> zpt_suppression_policy option" where
  "decided_policy address f = map_option (\<lambda>p. if policy_at p = address then p\<lparr>is_suppressed := Some (\<lambda>s now. f now)\<rparr> else p)"

fun decided_config :: "nat \<Rightarrow> (u32 \<Rightarrow> bool) \<Rightarrow> chain_config \<Rightarrow> chain_config" where
  "decided_config a f (Gate c) = Gate (c\<lparr>cd_suppression := decided_policy a f (cd_suppression c)\<rparr>)"
| "decided_config a f (Intent c) = Intent (c\<lparr>ai_suppression := decided_policy a f (ai_suppression c)\<rparr>)"
| "decided_config a f (Constraint c) = Constraint (c\<lparr>ac_suppression := decided_policy a f (ac_suppression c)\<rparr>)"
| "decided_config a f (Batcher c) = Batcher (c\<lparr>sb_suppression := decided_policy a f (sb_suppression c)\<rparr>)"
| "decided_config a f c = c"

definition with_config :: "(chain_config \<Rightarrow> chain_config) \<Rightarrow> (chain_config, 's, 'k) world \<Rightarrow> (chain_config, 's, 'k) world" where
  "with_config f w = w\<lparr>w_stages := \<lambda>sid. (w_stages w sid)\<lparr>stg_config := map_option f (stg_config (w_stages w sid))\<rparr>\<rparr>"

definition decided :: "nat \<Rightarrow> (u32 \<Rightarrow> bool) \<Rightarrow> (chain_config, 's, 'k) world \<Rightarrow> (chain_config, 's, 'k) world" where
  "decided a f = with_config (decided_config a f)"

section \<open>The embedding keeps what replay needs\<close>

lemma prog_twin_map:
  assumes "prog_twin D R p q" "\<And>st st'. R st st' \<Longrightarrow> Q (map_option f st) (map_option g st')"
  shows "prog_twin D Q (map_stage_prog f p) (map_stage_prog g q)"
  using assms(1)
proof (induction p arbitrary: q)
  case (Return r st)
  then show ?case by (auto simp: assms(2))
next
  case (Emit s k)
  then show ?case by fastforce
next
  case (ScheduleFlush d k)
  then show ?case by fastforce
qed auto

text \<open>Objects of the union are alike as what the stage reads of them is.\<close>

definition seen_alike :: "('S \<Rightarrow> 's) \<Rightarrow> ('s option \<Rightarrow> 's option \<Rightarrow> bool) \<Rightarrow> 'S option \<Rightarrow> 'S option \<Rightarrow> bool" where
  "seen_alike get R S S' \<longleftrightarrow> R (map_option get S) (map_option get S')"

lemma seen_alike_rel_option: "seen_alike get (rel_option P) = rel_option (\<lambda>S S'. P (get S) (get S'))"
  by (simp add: seen_alike_def fun_eq_iff option.rel_map)

lemma embed_forgets:
  fixes cast :: "'C \<Rightarrow> 'c option" and get :: "'S \<Rightarrow> 's" and put :: "'S \<Rightarrow> 's \<Rightarrow> 'S"
  assumes stage: "forgetful_stage D C R api"
    and put: "\<And>S S' z z'. R z z' \<Longrightarrow> seen_alike get R (map_option (put S) z) (map_option (put S') z')"
    and total: "(\<forall>z z'. seen_alike get R z z') \<Longrightarrow> (\<forall>z z'. R z z')"
  shows "forgetful_stage D (\<lambda>c c'. C (Option.bind c cast) (Option.bind c' cast)) (seen_alike get R) (embed_api cast get put api)"
proof (rule forgetful_stage.intro)
  fix f and c c' :: "'C option" and st st' :: "'S option" and s s' now
  assume f: "api_process (embed_api cast get put api) = Some f" and c: "C (Option.bind c cast) (Option.bind c' cast)"
    and st: "seen_alike get R st st'" and s: "same_motion D s s'"
  obtain f0 where f0: "api_process api = Some f0" using f by (auto simp: embed_api_def)
  from forgetful_stage.process_twin [OF stage f0 c st [unfolded seen_alike_def] s]
  show "prog_twin D (seen_alike get R) (f c st now s) (f c' st' (now - D) s')"
    using f f0 by (auto simp: embed_api_def put intro!: prog_twin_map)
next
  fix g and c c' :: "'C option" and st st' :: "'S option" and deadline now
  assume g: "api_flush (embed_api cast get put api) = Some g" and c: "C (Option.bind c cast) (Option.bind c' cast)"
    and st: "seen_alike get R st st'"
  obtain g0 where g0: "api_flush api = Some g0" using g by (auto simp: embed_api_def)
  from forgetful_stage.flush_twin [OF stage g0 c st [unfolded seen_alike_def]]
  show "prog_twin D (seen_alike get R) (g c st deadline now) (g c' st' (deadline - D) (now - D))"
    using g g0 by (auto simp: embed_api_def put intro!: prog_twin_map)
next
  fix c c' :: "'C option" and st st' :: "'S option" and reason reason'
  assume c: "C (Option.bind c cast) (Option.bind c' cast)"
    and st: "(st = None) = (st' = None) \<or> (\<forall>z z'. seen_alike get R z z')"
  have "R (reset_state api (Option.bind c cast) (map_option get st) reason)
      (reset_state api (Option.bind c' cast) (map_option get st') reason')"
    by (rule forgetful_stage.reset_forgets [OF stage c]) (use st total in auto)
  then show "seen_alike get R (reset_state (embed_api cast get put api) c st reason)
      (reset_state (embed_api cast get put api) c' st' reason')"
    by (cases "api_reset api") (auto simp: reset_state_def embed_api_def put, simp add: seen_alike_def)
next
  fix c :: "'C option" and s0 :: 'S and reason
  show "reset_state (embed_api cast get put api) c (Some s0) reason \<noteq> None"
    using forgetful_stage.reset_keeps [OF stage, of "Option.bind c cast" "get s0" reason]
    by (cases "api_reset api") (auto simp: reset_state_def embed_api_def)
next
  fix st st' z z' :: "'S option"
  assume "seen_alike get R st st'" "seen_alike get R z z'"
  then show "seen_alike get R (if st = None \<or> z = None then st else z) (if st' = None \<or> z' = None then st' else z')"
    using forgetful_stage.put_keeps [OF stage, of "map_option get st" "map_option get st'" "map_option get z" "map_option get z'"]
    by (simp add: seen_alike_def if_distrib [of "map_option get"])
next
  show "seen_alike get R None None" using forgetful_stage.absent_alike [OF stage] by (simp add: seen_alike_def)
  show "api_process (embed_api cast get put api) \<noteq> None"
    using forgetful_stage.has_process [OF stage] by (auto simp: embed_api_def)
qed

lemma forgetful_stage_mono:
  assumes stage: "forgetful_stage D C R api" and C: "\<And>c c'. C' c c' \<Longrightarrow> C c c'" and R: "\<And>s s'. R' s s' = R s s'"
  shows "forgetful_stage D C' R' api"
proof -
  have "R' = R" using R by (simp add: fun_eq_iff)
  show ?thesis
    by (rule forgetful_stage.intro, unfold \<open>R' = R\<close>)
      (erule forgetful_stage.process_twin [OF stage] forgetful_stage.flush_twin [OF stage]
         forgetful_stage.reset_forgets [OF stage C] forgetful_stage.put_keeps [OF stage]
       | rule forgetful_stage.reset_keeps [OF stage] forgetful_stage.absent_alike [OF stage]
         forgetful_stage.has_process [OF stage] | assumption | erule C)+
qed

section \<open>Chains of every stage forget\<close>

text \<open>
  Configurations that make a stage behave alike \<open>D\<close> milliseconds apart: the same numbers, with
  guards that answer alike. States are compared by what the stage of the API reads of them.
\<close>

fun config_like :: "u32 \<Rightarrow> chain_config \<Rightarrow> chain_config \<Rightarrow> bool" where
  "config_like D (Gate c) d = (\<exists>c'. d = Gate c' \<and> gate_config_like D c c')"
| "config_like D (Intent c) d = (\<exists>c'. d = Intent c' \<and> intent_config_like D c c')"
| "config_like D (Constraint c) d = (\<exists>c'. d = Constraint c' \<and> constraint_config_like D c c')"
| "config_like D (Coalescer c) d = (\<exists>c'. d = Coalescer c' \<and> coalescer_config_like c c')"
| "config_like D (Batcher c) d = (\<exists>c'. d = Batcher c' \<and> batcher_config_like D c c')"
| "config_like D c d = (d = c)"

abbreviation chain_config_like :: "u32 \<Rightarrow> chain_config option \<Rightarrow> chain_config option \<Rightarrow> bool" where
  "chain_config_like D \<equiv> rel_option (config_like D)"

fun state_like :: "u32 \<Rightarrow> stage_type \<Rightarrow> chain_state option \<Rightarrow> chain_state option \<Rightarrow> bool" where
  "state_like D STAGE_GATE = rel_option (\<lambda>s s'. gate_like D (as_gate s) (as_gate s'))"
| "state_like D STAGE_ACCELERATION = rel_option (\<lambda>s s'. acceleration_like D (as_acceleration s) (as_acceleration s'))"
| "state_like D STAGE_QUANTIZER = rel_option (\<lambda>s s'. as_quantizer s = as_quantizer s')"
| "state_like D STAGE_COALESCER = rel_option (\<lambda>s s'. coalescer_like D (as_coalescer s) (as_coalescer s'))"
| "state_like D STAGE_INTENT = rel_option (\<lambda>s s'. intent_like D (as_intent s) (as_intent s'))"
| "state_like D STAGE_CONSTRAINT = rel_option (\<lambda>s s'. constraint_like D (as_constraint s) (as_constraint s'))"
| "state_like D STAGE_BATCHER = rel_option (\<lambda>s s'. as_batcher s = as_batcher s')"
| "state_like D STAGE_TEXT_NAV = rel_option (\<lambda>s s'. text_nav_like D (as_text_nav s) (as_text_nav s'))"
| "state_like D _ = (\<lambda>_ _. True)"

lemma config_like_casts:
  assumes "config_like D c c'"
  shows "config_orientation c = config_orientation c'" "config_acceleration c = config_acceleration c'"
    "config_transfer c = config_transfer c'" "config_text_nav c = config_text_nav c'"
    "rel_option (gate_config_like D) (config_gate c) (config_gate c')"
    "rel_option (intent_config_like D) (config_intent c) (config_intent c')"
    "rel_option (constraint_config_like D) (config_constraint c) (config_constraint c')"
    "rel_option coalescer_config_like (config_coalescer c) (config_coalescer c')"
    "rel_option (batcher_config_like D) (config_batcher c) (config_batcher c')"
  using assms by (cases c; auto)+

lemma chain_forgets:
  "forgetful_stage D (chain_config_like D) (state_like D t) (stage_api t)"
proof (cases t)
  case STAGE_ORIENTATION
  show ?thesis unfolding STAGE_ORIENTATION stage_api.simps
    by (rule forgetful_stage_mono [OF embed_forgets [OF orientation_forgets.forgetful_stage_axioms]])
      (auto elim!: rel_option_cases simp: config_like_casts seen_alike_rel_option option.rel_map seen_alike_def [of _ "\<lambda>_ _. True"])
next
  case STAGE_NORMALIZE
  show ?thesis unfolding STAGE_NORMALIZE stage_api.simps
    by (rule forgetful_stage_mono [OF embed_forgets [OF resolution_forgets.forgetful_stage_axioms]])
      (auto elim!: rel_option_cases simp: seen_alike_rel_option option.rel_map seen_alike_def [of _ "\<lambda>_ _. True"])
next
  case STAGE_GATE
  show ?thesis unfolding STAGE_GATE stage_api.simps
    by (rule forgetful_stage_mono [OF embed_forgets [OF gate_forgets.forgetful_stage_axioms]])
      (auto elim!: rel_option_cases simp: config_like_casts seen_alike_rel_option option.rel_map seen_alike_def [of _ "\<lambda>_ _. True"])
next
  case STAGE_ACCELERATION
  show ?thesis unfolding STAGE_ACCELERATION stage_api.simps
    by (rule forgetful_stage_mono [OF embed_forgets [OF acceleration_forgets.forgetful_stage_axioms]])
      (auto elim!: rel_option_cases simp: config_like_casts seen_alike_rel_option option.rel_map seen_alike_def [of _ "\<lambda>_ _. True"])
next
  case STAGE_TRANSFER
  show ?thesis unfolding STAGE_TRANSFER stage_api.simps
    by (rule forgetful_stage_mono [OF embed_forgets [OF transfer_forgets.forgetful_stage_axioms]])
      (auto elim!: rel_option_cases simp: config_like_casts seen_alike_rel_option option.rel_map seen_alike_def [of _ "\<lambda>_ _. True"])
next
  case STAGE_QUANTIZER
  show ?thesis unfolding STAGE_QUANTIZER stage_api.simps
    by (rule forgetful_stage_mono [OF embed_forgets [OF quantizer_forgets.forgetful_stage_axioms]])
      (auto elim!: rel_option_cases simp: seen_alike_rel_option option.rel_map seen_alike_def [of _ "\<lambda>_ _. True"])
next
  case STAGE_COALESCER
  show ?thesis unfolding STAGE_COALESCER stage_api.simps
    by (rule forgetful_stage_mono [OF embed_forgets [OF coalescer_forgets.forgetful_stage_axioms]])
      (auto elim!: rel_option_cases simp: config_like_casts seen_alike_rel_option option.rel_map seen_alike_def [of _ "\<lambda>_ _. True"])
next
  case STAGE_INTENT
  show ?thesis unfolding STAGE_INTENT stage_api.simps
    by (rule forgetful_stage_mono [OF embed_forgets [OF intent_forgets.forgetful_stage_axioms]])
      (auto elim!: rel_option_cases simp: config_like_casts seen_alike_rel_option option.rel_map seen_alike_def [of _ "\<lambda>_ _. True"])
next
  case STAGE_CONSTRAINT
  show ?thesis unfolding STAGE_CONSTRAINT stage_api.simps
    by (rule forgetful_stage_mono [OF embed_forgets [OF constraint_forgets.forgetful_stage_axioms]])
      (auto elim!: rel_option_cases simp: config_like_casts seen_alike_rel_option option.rel_map seen_alike_def [of _ "\<lambda>_ _. True"])
next
  case STAGE_BATCHER
  show ?thesis unfolding STAGE_BATCHER stage_api.simps
    by (rule forgetful_stage_mono [OF embed_forgets [OF batcher_forgets.forgetful_stage_axioms]])
      (auto elim!: rel_option_cases simp: config_like_casts seen_alike_rel_option option.rel_map seen_alike_def [of _ "\<lambda>_ _. True"])
next
  case STAGE_TEXT_NAV
  show ?thesis unfolding STAGE_TEXT_NAV stage_api.simps
    by (rule forgetful_stage_mono [OF embed_forgets [OF text_nav_forgets.forgetful_stage_axioms]])
      (auto elim!: rel_option_cases simp: config_like_casts seen_alike_rel_option option.rel_map seen_alike_def [of _ "\<lambda>_ _. True"])
qed

lemma strategy_names:
  "strategy_id (stage_api t) = Some (case t of STAGE_ORIENTATION \<Rightarrow> ''orthogonal-orientation''
     | STAGE_NORMALIZE \<Rightarrow> ''resolution-normalize-mm'' | STAGE_GATE \<Rightarrow> ''coherent-displacement''
     | STAGE_ACCELERATION \<Rightarrow> ''cursor-acceleration'' | STAGE_TRANSFER \<Rightarrow> ''cursor-transfer''
     | STAGE_QUANTIZER \<Rightarrow> ''cursor-quantizer'' | STAGE_COALESCER \<Rightarrow> ''cursor-coalescer''
     | STAGE_INTENT \<Rightarrow> ''axis-intent'' | STAGE_CONSTRAINT \<Rightarrow> ''axis-constraint''
     | STAGE_BATCHER \<Rightarrow> ''scroll-batcher'' | STAGE_TEXT_NAV \<Rightarrow> ''text-nav'')"
  by (cases t) (simp_all add: embed_api_def zpt_orthogonal_orientation_stage_api_def zpt_resolution_normalize_stage_api_def
      zpt_coherent_displacement_stage_api_def zpt_cursor_acceleration_stage_api_def zpt_cursor_transfer_stage_api_def
      zpt_cursor_quantizer_stage_api_def zpt_cursor_coalescer_stage_api_def zpt_axis_intent_stage_api_def
      zpt_axis_constraint_stage_api_def zpt_scroll_batcher_stage_api_def zpt_text_nav_stage_api_def)

lemma stage_api_inj: "stage_api t = stage_api u \<Longrightarrow> t = u"
  using arg_cong [of "stage_api t" "stage_api u" strategy_id]
  unfolding strategy_names by (cases t; cases u) simp_all

definition chain_like :: "u32 \<Rightarrow> (chain_config, chain_state) zpt_stage_api \<Rightarrow> chain_state option \<Rightarrow> chain_state option \<Rightarrow> bool" where
  "chain_like D api s s' \<longleftrightarrow> (\<forall>t. api = stage_api t \<longrightarrow> state_like D t s s')"

lemma chain_like_stage [simp]: "chain_like D (stage_api t) = state_like D t"
  using stage_api_inj by (auto simp: chain_like_def fun_eq_iff)

text \<open>The chain of any list of stages.\<close>

interpretation chain: forgetful_stage D "chain_config_like D" "chain_like D (stage_api t)" "stage_api t" for D t
  unfolding chain_like_stage by (rule chain_forgets)

end
