(* ===== verification/Keypress_Suppression.thy ===== *)
theory Keypress_Suppression
  imports Suppression
begin

text \<open>
  The keypress suppression policy of the keyboard (\<open>platform/zmk/keypress_suppression.c\<close>): motion is
  suppressed for a window after any key press. Key events arrive on ZMK's event thread while stages
  ask on the input thread, and input capture freezes the press a frame is decided with. Every shared
  variable is atomic, so the threads are modelled by a step relation whose steps are single atomic
  accesses, in the order the code makes them.
\<close>

section \<open>Data and operations\<close>

datatype frozen_view = FROZEN_NONE | FROZEN_NO_KEYPRESS | FROZEN_KEYPRESS

record zpt_keypress_suppression_data =
  suppress_after_ms :: u32
  last_keypress_ms :: u32
  have_keypress :: bool
  frozen :: frozen_view
  frozen_ms :: u32

definition keypress_is_suppressed :: "zpt_keypress_suppression_data \<Rightarrow> u32 \<Rightarrow> bool" where
  "keypress_is_suppressed d now =
     (if frozen d \<noteq> FROZEN_NONE
      then frozen d = FROZEN_KEYPRESS \<and> now - frozen_ms d < suppress_after_ms d
      else have_keypress d \<and> now - last_keypress_ms d < suppress_after_ms d)"

text \<open>What it returns, and the time it reports.\<close>

definition keypress_freeze :: "zpt_keypress_suppression_data \<Rightarrow> (bool \<times> u32) \<times> zpt_keypress_suppression_data" where
  "keypress_freeze d =
     (let have = have_keypress d; latest = last_keypress_ms d; d = d\<lparr>frozen_ms := latest\<rparr>;
          d = d\<lparr>frozen := if have then FROZEN_KEYPRESS else FROZEN_NO_KEYPRESS\<rparr>
      in ((have, latest), d))"

definition keypress_thaw :: "zpt_keypress_suppression_data \<Rightarrow> zpt_keypress_suppression_data" where
  "keypress_thaw d = d\<lparr>frozen := FROZEN_NONE\<rparr>"

definition keypress_suppression_init :: "u32 \<Rightarrow> nat \<Rightarrow> zpt_keypress_suppression_data \<Rightarrow>
    int \<times> zpt_keypress_suppression_data \<times> (zpt_keypress_suppression_data \<Rightarrow> zpt_suppression_policy)" where
  "keypress_suppression_init window address d =
     (0, d\<lparr>suppress_after_ms := window\<rparr>,
      \<lambda>now. \<lparr>policy_at = address, is_suppressed = Some (\<lambda>s now_ms. keypress_is_suppressed now now_ms),
        keypress_window_ms = window, freezes = True, thaws = True\<rparr>)"

text \<open>The device a stage names: whether it is ready, a keypress suppression device, and its \<open>get_policy\<close>.\<close>

record keypress_device =
  kd_ready :: bool
  kd_api_is :: bool
  kd_get_policy :: "zpt_suppression_policy option option"

definition zpt_zmk_keypress_suppression_get :: "keypress_device option \<Rightarrow> bool \<Rightarrow> int \<times> zpt_suppression_policy option" where
  "zpt_zmk_keypress_suppression_get dev has_policy =
     (case dev of
        None \<Rightarrow> (- EINVAL, None)
      | Some d \<Rightarrow>
          if \<not> has_policy then (- EINVAL, None)
          else if \<not> kd_ready d then (- ENODEV, None)
          else if \<not> kd_api_is d then (- EPROTOTYPE, None)
          else case kd_get_policy d of
            None \<Rightarrow> (- ENOSYS, None)
          | Some None \<Rightarrow> (- ENODEV, None)
          | Some (Some candidate) \<Rightarrow> (0, Some candidate))"

text \<open>
  A key event: \<open>None\<close> for another kind of event, else whether the key went down, and when. The
  listener records it on every device that is ready.
\<close>

definition record_keypress_on :: "u32 \<Rightarrow> zpt_keypress_suppression_data \<Rightarrow> zpt_keypress_suppression_data" where
  "record_keypress_on timestamp d = (d\<lparr>last_keypress_ms := timestamp\<rparr>)\<lparr>have_keypress := True\<rparr>"

definition position_state_changed_listener :: "(bool \<times> u32) option \<Rightarrow>
    (bool \<times> zpt_keypress_suppression_data) list \<Rightarrow> (bool \<times> zpt_keypress_suppression_data) list" where
  "position_state_changed_listener event devices =
     (case event of
        Some (True, timestamp) \<Rightarrow>
          map (\<lambda>(ready, d). (ready, if ready then record_keypress_on timestamp d else d)) devices
      | _ \<Rightarrow> devices)"

section \<open>What a frozen policy decides with\<close>

text \<open>
  The guard as capture uses it: freezing reports the press that every decision until the thaw is
  made with, whatever presses land meanwhile.
\<close>

record 'g keypress_guard =
  freeze_keypress :: "'g \<Rightarrow> (bool \<times> u32) \<times> 'g"
  thaw_keypress :: "'g \<Rightarrow> 'g"

locale frozen_guard =
  fixes ops :: "'g keypress_guard" and press :: "u32 \<Rightarrow> 'g \<Rightarrow> 'g"
    and decides :: "'g \<Rightarrow> u32 \<Rightarrow> bool" and window :: "'g \<Rightarrow> u32"
  assumes frozen_decision:
      "freeze_keypress ops g = ((have, t), g') \<Longrightarrow> decides (fold press ts g') now \<longleftrightarrow> have \<and> now - t < window g"
    and thawed: "freeze_keypress ops g = ((have, t), g') \<Longrightarrow>
      decides (thaw_keypress ops (fold press ts g')) = decides (thaw_keypress ops (fold press ts g))"
    and window_kept: "window (press t g) = window g" "window (thaw_keypress ops g) = window g"
      "window (snd (freeze_keypress ops g)) = window g"
begin

text \<open>Two halves that freeze the same press decide alike for as long as they stay frozen.\<close>

lemma same_press_same_decisions:
  assumes "freeze_keypress ops g = (p, g')" "freeze_keypress ops h = (p, h')" "window g = window h"
  shows "decides (fold press ts g') = decides (fold press us h')"
proof -
  obtain have_it t where "p = (have_it, t)" by fastforce
  then show ?thesis
    using frozen_decision [of g have_it t g' ts] frozen_decision [of h have_it t h' us] assms by auto
qed

lemma presses_wait_for_the_thaw:
  assumes "freeze_keypress ops g = (p, g')"
  shows "decides (fold press ts g') = decides g'"
  using same_press_same_decisions [OF assms assms, of ts "[]"] by simp

end

definition keypress_guard :: "zpt_keypress_suppression_data keypress_guard" where
  "keypress_guard = \<lparr>freeze_keypress = keypress_freeze, thaw_keypress = keypress_thaw\<rparr>"

lemma fold_record_keypress:
  "frozen (fold record_keypress_on ts d) = frozen d" "frozen_ms (fold record_keypress_on ts d) = frozen_ms d"
  "suppress_after_ms (fold record_keypress_on ts d) = suppress_after_ms d"
  "last_keypress_ms (fold record_keypress_on ts d) = (if ts = [] then last_keypress_ms d else last ts)"
  "have_keypress (fold record_keypress_on ts d) \<longleftrightarrow> have_keypress d \<or> ts \<noteq> []"
  by (induction ts arbitrary: d) (auto simp: record_keypress_on_def)

lemmas keypress_defs = keypress_is_suppressed_def keypress_freeze_def keypress_thaw_def keypress_guard_def Let_def

interpretation keyboard: frozen_guard keypress_guard record_keypress_on keypress_is_suppressed suppress_after_ms
proof unfold_locales
  fix g have_it t g' ts now
  assume "freeze_keypress keypress_guard g = ((have_it, t), g')"
  then have "have_it = have_keypress g" "t = last_keypress_ms g"
    "g' = g\<lparr>frozen_ms := t, frozen := if have_it then FROZEN_KEYPRESS else FROZEN_NO_KEYPRESS\<rparr>"
    by (auto simp: keypress_defs)
  then show "keypress_is_suppressed (fold record_keypress_on ts g') now \<longleftrightarrow> have_it \<and> now - t < suppress_after_ms g"
    and "keypress_is_suppressed (thaw_keypress keypress_guard (fold record_keypress_on ts g')) =
      keypress_is_suppressed (thaw_keypress keypress_guard (fold record_keypress_on ts g))"
    by (auto simp: keypress_defs fold_record_keypress fun_eq_iff)
qed (simp_all add: keypress_defs record_keypress_on_def)

section \<open>The threads, one atomic access at a time\<close>

text \<open>
  The input thread is in the middle of \<open>keypress_freeze\<close> with what it has read so far, frozen with
  what it reported, or neither; \<open>seen\<close> is how many presses had a timestamp stored when the freeze
  began. The event thread has stored a timestamp it has yet to publish, or not. \<open>stamped\<close> holds every
  timestamp stored, newest first.
\<close>

datatype freeze_point =
    Thawed
  | HaveRead bool nat
  | LatestRead bool u32 nat
  | TimeStored bool u32 nat
  | FrozenWith bool u32 nat

record keypress_threads =
  kt_data :: zpt_keypress_suppression_data
  kt_freeze :: freeze_point
  kt_publishing :: bool
  kt_stamped :: "u32 list"

inductive keypress_step :: "keypress_threads \<Rightarrow> keypress_threads \<Rightarrow> bool" where
  store_press: "\<not> kt_publishing s \<Longrightarrow> keypress_step s (s\<lparr>kt_data := (kt_data s)\<lparr>last_keypress_ms := t\<rparr>,
      kt_publishing := True, kt_stamped := t # kt_stamped s\<rparr>)"
| publish_press: "kt_publishing s \<Longrightarrow> keypress_step s (s\<lparr>kt_data := (kt_data s)\<lparr>have_keypress := True\<rparr>, kt_publishing := False\<rparr>)"
| read_have: "kt_freeze s = Thawed \<Longrightarrow>
    keypress_step s (s\<lparr>kt_freeze := HaveRead (have_keypress (kt_data s)) (length (kt_stamped s))\<rparr>)"
| read_latest: "kt_freeze s = HaveRead have n \<Longrightarrow>
    keypress_step s (s\<lparr>kt_freeze := LatestRead have (last_keypress_ms (kt_data s)) n\<rparr>)"
| store_time: "kt_freeze s = LatestRead have t n \<Longrightarrow>
    keypress_step s (s\<lparr>kt_data := (kt_data s)\<lparr>frozen_ms := t\<rparr>, kt_freeze := TimeStored have t n\<rparr>)"
| store_view: "kt_freeze s = TimeStored have t n \<Longrightarrow>
    keypress_step s (s\<lparr>kt_data := (kt_data s)\<lparr>frozen := if have then FROZEN_KEYPRESS else FROZEN_NO_KEYPRESS\<rparr>,
      kt_freeze := FrozenWith have t n\<rparr>)"
| thaw: "kt_freeze s = FrozenWith have t n \<Longrightarrow>
    keypress_step s (s\<lparr>kt_data := keypress_thaw (kt_data s), kt_freeze := Thawed\<rparr>)"

inductive_cases keypress_stepE: "keypress_step s s'"

text \<open>From boot: the window set, no press yet.\<close>

definition boot_keypress :: "u32 \<Rightarrow> keypress_threads" where
  "boot_keypress window = \<lparr>kt_data = \<lparr>suppress_after_ms = window, last_keypress_ms = 0, have_keypress = False,
     frozen = FROZEN_NONE, frozen_ms = 0\<rparr>, kt_freeze = Thawed, kt_publishing = False, kt_stamped = []\<rparr>"

text \<open>A press read after a freeze began is one stored no earlier than the newest one then.\<close>

definition recent :: "u32 list \<Rightarrow> nat \<Rightarrow> u32 \<Rightarrow> bool" where
  "recent stamped n t \<longleftrightarrow> (\<exists>newer older. stamped = newer @ t # older \<and> n \<le> Suc (length older))"

lemma recent_Cons: "recent stamped n t \<Longrightarrow> recent (x # stamped) n t"
  by (auto simp: recent_def) (metis append_Cons)

lemma recent_head: "n \<le> Suc (length ts) \<Longrightarrow> recent (t # ts) n t"
  unfolding recent_def by blast

primrec freeze_ok :: "zpt_keypress_suppression_data \<Rightarrow> u32 list \<Rightarrow> freeze_point \<Rightarrow> bool" where
  "freeze_ok d stamped Thawed = (frozen d = FROZEN_NONE)"
| "freeze_ok d stamped (HaveRead have n) = (frozen d = FROZEN_NONE \<and> n \<le> length stamped \<and> (have \<longrightarrow> stamped \<noteq> []))"
| "freeze_ok d stamped (LatestRead have t n) = (frozen d = FROZEN_NONE \<and> (have \<longrightarrow> recent stamped n t))"
| "freeze_ok d stamped (TimeStored have t n) = (frozen d = FROZEN_NONE \<and> frozen_ms d = t \<and> (have \<longrightarrow> recent stamped n t))"
| "freeze_ok d stamped (FrozenWith have t n) = (frozen d = (if have then FROZEN_KEYPRESS else FROZEN_NO_KEYPRESS) \<and>
     frozen_ms d = t \<and> (have \<longrightarrow> recent stamped n t))"

definition keypress_inv :: "u32 \<Rightarrow> keypress_threads \<Rightarrow> bool" where
  "keypress_inv window s \<longleftrightarrow> suppress_after_ms (kt_data s) = window \<and>
     (kt_stamped s \<noteq> [] \<longrightarrow> last_keypress_ms (kt_data s) = hd (kt_stamped s)) \<and>
     (have_keypress (kt_data s) \<or> kt_publishing s \<longrightarrow> kt_stamped s \<noteq> []) \<and>
     freeze_ok (kt_data s) (kt_stamped s) (kt_freeze s)"

lemma freeze_ok_press:
  "freeze_ok d stamped p \<Longrightarrow> freeze_ok (d\<lparr>last_keypress_ms := t\<rparr>) (t # stamped) p"
  "freeze_ok d stamped p \<Longrightarrow> freeze_ok (d\<lparr>have_keypress := True\<rparr>) stamped p"
  by (cases p; auto intro: recent_Cons)+

lemma keypress_inv_step: "keypress_step s s' \<Longrightarrow> keypress_inv window s \<Longrightarrow> keypress_inv window s'"
proof (induction rule: keypress_step.induct)
  case (read_latest s have_it n)
  then show ?case
    by (cases "kt_stamped s") (auto simp: keypress_inv_def intro: recent_head)
qed (auto simp: keypress_inv_def keypress_thaw_def freeze_ok_press)

lemma keypress_inv_reachable: "keypress_step\<^sup>*\<^sup>* (boot_keypress window) s \<Longrightarrow> keypress_inv window s"
proof (induction rule: rtranclp_induct)
  case base
  show ?case by (simp add: keypress_inv_def boot_keypress_def)
next
  case (step y z)
  then show ?case by (blast intro: keypress_inv_step)
qed

text \<open>
  Property C40. However the event thread's accesses fall between those of a freeze: from
  the moment the freeze returns until the thaw, motion is suppressed exactly within the window after
  the press it reported, if it reported one; that is a press that happened, no older than the newest
  one stored when the freeze began. While nothing is frozen, only a press that happened suppresses.
\<close>

theorem frozen_frames_use_one_press:
  assumes "keypress_step\<^sup>*\<^sup>* (boot_keypress window) s"
  shows "(\<forall>have t n. kt_freeze s = FrozenWith have t n \<longrightarrow>
            (\<forall>now. keypress_is_suppressed (kt_data s) now \<longleftrightarrow> have \<and> now - t < window) \<and>
            (have \<longrightarrow> recent (kt_stamped s) n t)) \<and>
         (\<forall>now. frozen (kt_data s) = FROZEN_NONE \<and> keypress_is_suppressed (kt_data s) now \<longrightarrow>
            (\<exists>t \<in> set (kt_stamped s). now - t < window))"
proof -
  note inv = keypress_inv_reachable [OF assms, unfolded keypress_inv_def]
  show ?thesis
  proof (intro conjI allI impI)
    fix have_it t n now
    assume p: "kt_freeze s = FrozenWith have_it t n"
    then show "keypress_is_suppressed (kt_data s) now \<longleftrightarrow> have_it \<and> now - t < window"
      using inv by (auto simp: keypress_is_suppressed_def)
  next
    fix have_it t n
    assume "kt_freeze s = FrozenWith have_it t n" have_it
    then show "recent (kt_stamped s) n t" using inv by auto
  next
    fix now
    assume "frozen (kt_data s) = FROZEN_NONE \<and> keypress_is_suppressed (kt_data s) now"
    then have "have_keypress (kt_data s)" "now - last_keypress_ms (kt_data s) < window"
      using inv by (auto simp: keypress_is_suppressed_def)
    then show "\<exists>t \<in> set (kt_stamped s). now - t < window" using inv by (metis hd_in_set)
  qed
qed

text \<open>A press at 100 is published and frozen; another lands at 130 while the frame runs.\<close>

definition frozen_example :: keypress_threads where
  "frozen_example = \<lparr>kt_data = \<lparr>suppress_after_ms = 20, last_keypress_ms = 130, have_keypress = True,
     frozen = FROZEN_KEYPRESS, frozen_ms = 100\<rparr>, kt_freeze = FrozenWith True 100 1, kt_publishing = True,
     kt_stamped = [130, 100]\<rparr>"

lemma frozen_example_reachable: "keypress_step\<^sup>*\<^sup>* (boot_keypress 20) frozen_example"
proof -
  define d where "d = kt_data (boot_keypress 20)"
  define s1 where "s1 = (boot_keypress 20)\<lparr>kt_data := d\<lparr>last_keypress_ms := 100\<rparr>, kt_publishing := True, kt_stamped := [100]\<rparr>"
  define s2 where "s2 = s1\<lparr>kt_data := (kt_data s1)\<lparr>have_keypress := True\<rparr>, kt_publishing := False\<rparr>"
  define s3 where "s3 = s2\<lparr>kt_freeze := HaveRead True 1\<rparr>"
  define s4 where "s4 = s3\<lparr>kt_freeze := LatestRead True 100 1\<rparr>"
  define s5 where "s5 = s4\<lparr>kt_data := (kt_data s4)\<lparr>last_keypress_ms := 130\<rparr>, kt_publishing := True, kt_stamped := [130, 100]\<rparr>"
  define s6 where "s6 = s5\<lparr>kt_data := (kt_data s5)\<lparr>frozen_ms := 100\<rparr>, kt_freeze := TimeStored True 100 1\<rparr>"
  note defs = s1_def s2_def s3_def s4_def s5_def s6_def boot_keypress_def d_def frozen_example_def
  have "keypress_step (boot_keypress 20) s1"
    using store_press [of "boot_keypress 20" 100] by (simp add: defs)
  moreover have "keypress_step s1 s2" using publish_press [of s1] by (simp add: defs)
  moreover have "keypress_step s2 s3" using read_have [of s2] by (simp add: defs)
  moreover have "keypress_step s3 s4" using read_latest [of s3 True 1] by (simp add: defs)
  moreover have "keypress_step s4 s5" using store_press [of s4 130] by (simp add: defs)
  moreover have "keypress_step s5 s6" using store_time [of s5 True 100 1] by (simp add: defs)
  moreover have "keypress_step s6 frozen_example" using store_view [of s6 True 100 1] by (simp add: defs)
  ultimately show ?thesis by (meson converse_rtranclp_into_rtranclp rtranclp.rtrancl_refl)
qed

lemma frozen_frames_use_one_press_witness:
  "keypress_is_suppressed (kt_data frozen_example) 119 \<and> \<not> keypress_is_suppressed (kt_data frozen_example) 131 \<and>
   recent (kt_stamped frozen_example) 1 100"
proof -
  have at_point: "kt_freeze frozen_example = FrozenWith True 100 1" by (simp add: frozen_example_def)
  have "\<forall>now. keypress_is_suppressed (kt_data frozen_example) now \<longleftrightarrow> True \<and> now - 100 < 20"
    "recent (kt_stamped frozen_example) 1 100"
    using frozen_frames_use_one_press [OF frozen_example_reachable] at_point by blast+
  then show ?thesis by simp
qed

end
