(* ===== verification/Capture_Tap.thy ===== *)
theory Capture_Tap
  imports Chain Capture_Buffer Keypress_Suppression
begin

text \<open>
  The tap of input capture (\<open>observer/capture.c\<close>): it observes one pipeline and turns what it sees
  into records for a sink. It freezes the keypress guard around every frame and flush, records a
  change of source, link or key press before the frame that follows it, and resets the pipeline
  at rest when a replay could no longer follow.

  The sink's callbacks are a record of functions on the sink's state, and the guard's freeze and
  thaw are one on the guard's; a call of the pipeline runs them as the observer hooks do.
\<close>

type_synonym 'k chain_world = "(chain_config, chain_state, 'k) world"

section \<open>What replays\<close>

definition replayable_strategies :: "string list" where
  "replayable_strategies = [''orthogonal-orientation'', ''resolution-normalize-mm'', ''coherent-displacement'',
     ''cursor-acceleration'', ''cursor-transfer'', ''cursor-quantizer'', ''cursor-coalescer'', ''axis-intent'',
     ''axis-constraint'', ''scroll-batcher'', ''text-nav'']"

definition strategy_of :: "'k chain_world \<Rightarrow> nat \<Rightarrow> string" where
  "strategy_of w sid = the (strategy_id (the (stg_api (w_stages w sid))))"

definition replayable_stage :: "'k chain_world \<Rightarrow> nat \<Rightarrow> bool" where
  "replayable_stage w sid \<longleftrightarrow> strategy_of w sid \<in> set replayable_strategies"

definition is_strategy :: "'k chain_world \<Rightarrow> nat \<Rightarrow> string \<Rightarrow> bool" where
  "is_strategy w sid name \<longleftrightarrow> strategy_of w sid = name"

abbreviation (input) "config_of w sid cast \<equiv> Option.bind (stg_config (w_stages w sid)) cast"

text \<open>The suppression policy a stage references, for the stages that take one.\<close>

definition stage_guard :: "'k chain_world \<Rightarrow> nat \<Rightarrow> zpt_suppression_policy option" where
  "stage_guard w sid =
     (if is_strategy w sid ''coherent-displacement'' then Option.bind (config_of w sid config_gate) cd_suppression
      else if is_strategy w sid ''axis-intent'' then Option.bind (config_of w sid config_intent) ai_suppression
      else if is_strategy w sid ''axis-constraint'' then Option.bind (config_of w sid config_constraint) ac_suppression
      else if is_strategy w sid ''scroll-batcher'' then Option.bind (config_of w sid config_batcher) sb_suppression
      else None)"

definition freezable :: "zpt_suppression_policy option \<Rightarrow> bool" where
  "freezable guard \<longleftrightarrow> (case guard of None \<Rightarrow> False | Some p \<Rightarrow> freezes p \<and> thaws p)"

definition find_guard :: "'k chain_world \<Rightarrow> nat \<Rightarrow> zpt_suppression_policy option" where
  "find_guard w pid = Option.bind (find (\<lambda>sid. freezable (stage_guard w sid)) (pl_stages (w_pipes w pid))) (stage_guard w)"

text \<open>Policies are compared by address.\<close>

definition zpt_capture_pipeline_replayable :: "'k chain_world \<Rightarrow> nat \<Rightarrow> bool" where
  "zpt_capture_pipeline_replayable w pid \<longleftrightarrow>
     (\<forall>sid \<in> set (pl_stages (w_pipes w pid)). replayable_stage w sid \<and>
        (stage_guard w sid = None \<or> map_option policy_at (stage_guard w sid) = map_option policy_at (find_guard w pid))) \<and>
     pl_stages (w_pipes w pid) \<noteq> []"

definition find_stage :: "'k chain_world \<Rightarrow> nat \<Rightarrow> string \<Rightarrow> nat option" where
  "find_stage w pid name = find (\<lambda>sid. is_strategy w sid name) (pl_stages (w_pipes w pid))"

abbreviation "CAPTURE_LINK_USB \<equiv> (0 :: u8)"
abbreviation "CAPTURE_LINK_BLE \<equiv> (1 :: u8)"
abbreviation "CAPTURE_LINK_NONE \<equiv> (255 :: u8)"

definition zpt_capture_pipeline_link :: "'k chain_world \<Rightarrow> nat \<Rightarrow> u8" where
  "zpt_capture_pipeline_link w pid =
     (case find_stage w pid ''cursor-coalescer'' of
        None \<Rightarrow> CAPTURE_LINK_NONE
      | Some sid \<Rightarrow>
          let link = (case Option.bind (config_of w sid config_coalescer) current_link of Some l \<Rightarrow> l | None \<Rightarrow> LINK_USB)
          in if link = LINK_BLE then CAPTURE_LINK_BLE else CAPTURE_LINK_USB)"

section \<open>The tap\<close>

record 'q zpt_capture_sink =
  cs_recording :: "'q \<Rightarrow> bool"
  cs_submit :: "'q \<Rightarrow> zpt_capture_record \<Rightarrow> 'q"
  cs_sub_ms_us :: "'q \<Rightarrow> u32 \<Rightarrow> u16"
  cs_take_resync :: "'q \<Rightarrow> bool \<times> 'q"
  cs_settings_hash :: "'q \<Rightarrow> u32"

record zpt_capture_tap =
  ct_pipeline :: nat
  ct_guard :: "zpt_suppression_policy option"
  ct_keypress_ms :: u32
  ct_last_frame_ms :: u32
  ct_source_id :: u16
  ct_resolution_cpi :: u16
  ct_link :: u8
  ct_described :: bool
  ct_keypress_recorded :: bool
  ct_have_last_frame :: bool
  ct_frozen :: bool
  ct_replayable :: bool
  ct_resync_pending :: bool

text \<open>A tap with the states its callbacks reach: the sink, the guard and the pipelines.\<close>

record ('q, 'g, 'k) tapped =
  tp_tap :: zpt_capture_tap
  tp_sink :: 'q
  tp_guard :: 'g
  tp_world :: "'k chain_world"

definition tp_submit :: "'q zpt_capture_sink \<Rightarrow> zpt_capture_record \<Rightarrow> ('q, 'g, 'k) tapped \<Rightarrow> ('q, 'g, 'k) tapped" where
  "tp_submit sink r t = t\<lparr>tp_sink := cs_submit sink (tp_sink t) r\<rparr>"

definition submit_kind :: "'q zpt_capture_sink \<Rightarrow> u8 \<Rightarrow> u32 \<Rightarrow> ('q, 'g, 'k) tapped \<Rightarrow> ('q, 'g, 'k) tapped" where
  "submit_kind sink kind_of time_ms = tp_submit sink (capture_record\<lparr>cr_kind := kind_of, cr_time_ms := time_ms\<rparr>)"

definition restart :: "zpt_capture_tap \<Rightarrow> zpt_capture_tap" where
  "restart tap = tap\<lparr>ct_described := False, ct_keypress_recorded := False, ct_have_last_frame := False, ct_resync_pending := False\<rparr>"

definition enter :: "'q zpt_capture_sink \<Rightarrow> ('q, 'g, 'k) tapped \<Rightarrow> ('q, 'g, 'k) tapped" where
  "enter sink t = tp_submit sink
     (capture_record\<lparr>cr_kind := CAPTURE_RECORD_ENTERED, cr_settings_hash := cs_settings_hash sink (tp_sink t)\<rparr>) t"

definition reset_and_enter :: "'q zpt_capture_sink \<Rightarrow> ('q, 'g, 'k) tapped \<Rightarrow> ('q, 'g, 'k) tapped" where
  "reset_and_enter sink t = enter sink (t\<lparr>
     tp_world := zpt_pipeline_reset (ct_pipeline (tp_tap t)) RESET_ADMINISTRATIVE (tp_world t),
     tp_tap := restart (tp_tap t)\<rparr>)"

definition stage_memory_ms :: "'k chain_world \<Rightarrow> nat \<Rightarrow> nat \<Rightarrow> u32" where
  "stage_memory_ms w pid sid =
     (if is_strategy w sid ''cursor-coalescer'' then
        (case config_of w sid config_coalescer of
           None \<Rightarrow> 0
         | Some c \<Rightarrow> ucast (if zpt_capture_pipeline_link w pid = CAPTURE_LINK_BLE then ble_report_interval_ms c
                           else usb_report_interval_ms c))
      else if is_strategy w sid ''axis-intent'' then
        (case config_of w sid config_intent of None \<Rightarrow> 0 | Some c \<Rightarrow> ucast (ai_idle_timeout_ms c))
      else if is_strategy w sid ''axis-constraint'' then
        (case config_of w sid config_constraint of
           None \<Rightarrow> 0
         | Some c \<Rightarrow> ucast (if ac_idle_timeout_ms c > fold_interval_ms c then ac_idle_timeout_ms c else fold_interval_ms c))
      else if is_strategy w sid ''scroll-batcher'' then
        (case config_of w sid config_batcher of None \<Rightarrow> 0 | Some c \<Rightarrow> ucast (report_interval_ms c))
      else if is_strategy w sid ''text-nav'' then
        (case config_of w sid config_text_nav of None \<Rightarrow> 0 | Some c \<Rightarrow> ucast (tn_idle_timeout_ms c))
      else 0)"

abbreviation "CAPTURE_RESYNC_REST_MS \<equiv> (40 :: u32)"

definition resync_rest_ms :: "'k chain_world \<Rightarrow> nat \<Rightarrow> u32" where
  "resync_rest_ms w pid = fold (\<lambda>sid rest. if stage_memory_ms w pid sid > rest then stage_memory_ms w pid sid else rest)
     (pl_stages (w_pipes w pid)) CAPTURE_RESYNC_REST_MS"

definition resync_at_rest :: "'q zpt_capture_sink \<Rightarrow> u32 \<Rightarrow> ('q, 'g, 'k) tapped \<Rightarrow> ('q, 'g, 'k) tapped" where
  "resync_at_rest sink now t =
     (let tap = tp_tap t; pid = ct_pipeline tap in
      if \<not> ct_replayable tap \<or> \<not> ct_have_last_frame tap \<or>
         sint (now - ct_last_frame_ms tap) < sint (resync_rest_ms (tp_world t) pid) \<or>
         zpt_pipeline_next_deadline (tp_world t) pid now \<noteq> None
      then t
      else
        let (requested, q) = cs_take_resync sink (tp_sink t); t = t\<lparr>tp_sink := q\<rparr>
        in if requested \<or> ct_resync_pending tap then reset_and_enter sink t else t)"

definition describe_source :: "'q zpt_capture_sink \<Rightarrow> zpt_signal_metadata \<Rightarrow> ('q, 'g, 'k) tapped \<Rightarrow> ('q, 'g, 'k) tapped" where
  "describe_source sink m t =
     (let tap = tp_tap t; link = zpt_capture_pipeline_link (tp_world t) (ct_pipeline tap) in
      if ct_described tap \<and> ct_source_id tap = source_id m \<and> ct_resolution_cpi tap = resolution_cpi m \<and> ct_link tap = link
      then t
      else tp_submit sink (capture_record\<lparr>cr_kind := CAPTURE_RECORD_SOURCE, cr_time_ms := observed_at_ms m,
               cr_link := link, cr_source_id := source_id m, cr_resolution_cpi := resolution_cpi m\<rparr>)
             (t\<lparr>tp_tap := tap\<lparr>ct_resync_pending := ct_resync_pending tap \<or> ct_described tap, ct_source_id := source_id m,
                ct_resolution_cpi := resolution_cpi m, ct_link := link, ct_described := True\<rparr>\<rparr>))"

definition record_keypress :: "'q zpt_capture_sink \<Rightarrow> 'g keypress_guard \<Rightarrow> ('q, 'g, 'k) tapped \<Rightarrow> ('q, 'g, 'k) tapped" where
  "record_keypress sink ops t =
     (if ct_guard (tp_tap t) = None then t
      else
        let ((have, keypress_ms), g) = freeze_keypress ops (tp_guard t);
            tap = (tp_tap t)\<lparr>ct_frozen := True\<rparr>;
            t = t\<lparr>tp_guard := g, tp_tap := tap\<rparr>
        in if have \<and> (\<not> ct_keypress_recorded tap \<or> keypress_ms \<noteq> ct_keypress_ms tap)
           then submit_kind sink CAPTURE_RECORD_KEYPRESS keypress_ms
                  (t\<lparr>tp_tap := tap\<lparr>ct_keypress_ms := keypress_ms, ct_keypress_recorded := True\<rparr>\<rparr>)
           else t)"

definition frame_record :: "'q zpt_capture_sink \<Rightarrow> 'q \<Rightarrow> zpt_signal \<Rightarrow> zpt_capture_record" where
  "frame_record sink q s = capture_record\<lparr>cr_kind := CAPTURE_RECORD_FRAME, cr_time_ms := observed_at_ms (metadata s),
     cr_time_us := cs_sub_ms_us sink q (observed_at_ms (metadata s)), cr_flags := ucast (flags (metadata s) AND 0xff),
     cr_x := saturate_int32 (fst (raw_motion s)), cr_y := saturate_int32 (snd (raw_motion s)),
     cr_span_us := sample_span_us (metadata s)\<rparr>"

definition tap_input :: "'q zpt_capture_sink \<Rightarrow> 'g keypress_guard \<Rightarrow> zpt_signal \<Rightarrow> ('q, 'g, 'k) tapped \<Rightarrow> ('q, 'g, 'k) tapped" where
  "tap_input sink ops s t =
     (if \<not> cs_recording sink (tp_sink t) \<or> kind s \<noteq> SIGNAL_RAW_MOTION then t
      else
        let t = resync_at_rest sink (observed_at_ms (metadata s)) t;
            t = describe_source sink (metadata s) t;
            t = record_keypress sink ops t;
            t = tp_submit sink (frame_record sink (tp_sink t) s) t
        in t\<lparr>tp_tap := (tp_tap t)\<lparr>ct_last_frame_ms := observed_at_ms (metadata s), ct_have_last_frame := True\<rparr>\<rparr>)"

definition tap_done :: "'g keypress_guard \<Rightarrow> ('q, 'g, 'k) tapped \<Rightarrow> ('q, 'g, 'k) tapped" where
  "tap_done ops t =
     (if ct_frozen (tp_tap t)
      then t\<lparr>tp_tap := (tp_tap t)\<lparr>ct_frozen := False\<rparr>, tp_guard := thaw_keypress ops (tp_guard t)\<rparr> else t)"

definition tap_flush :: "'q zpt_capture_sink \<Rightarrow> 'g keypress_guard \<Rightarrow> u32 \<Rightarrow> ('q, 'g, 'k) tapped \<Rightarrow> ('q, 'g, 'k) tapped" where
  "tap_flush sink ops now t =
     (if \<not> cs_recording sink (tp_sink t) then t
      else
        let t = submit_kind sink CAPTURE_RECORD_FLUSH now (record_keypress sink ops t)
        in t\<lparr>tp_tap := (tp_tap t)\<lparr>ct_last_frame_ms := now\<rparr>\<rparr>)"

definition tap_lifecycle :: "'q zpt_capture_sink \<Rightarrow> bool \<Rightarrow> ('q, 'g, 'k) tapped \<Rightarrow> ('q, 'g, 'k) tapped" where
  "tap_lifecycle sink active t =
     (if \<not> cs_recording sink (tp_sink t) then t
      else if active then enter sink (t\<lparr>tp_tap := restart (tp_tap t)\<rparr>)
      else submit_kind sink CAPTURE_RECORD_LEFT 0 t)"

text \<open>The tap and the observer it installs; then a recording that starts while the pipeline runs.\<close>

definition zpt_capture_tap_attach :: "nat \<Rightarrow> 'k chain_world \<Rightarrow> zpt_capture_tap \<times> 'k chain_world" where
  "zpt_capture_tap_attach pid w =
     (\<lparr>ct_pipeline = pid, ct_guard = find_guard w pid, ct_keypress_ms = 0, ct_last_frame_ms = 0, ct_source_id = 0,
        ct_resolution_cpi = 0, ct_link = 0, ct_described = False, ct_keypress_recorded = False,
        ct_have_last_frame = False, ct_frozen = False, ct_replayable = zpt_capture_pipeline_replayable w pid,
        ct_resync_pending = False\<rparr>,
      update_pipe pid (\<lambda>p. p\<lparr>pl_observer := \<lparr>obs_input = True, obs_input_done = True, obs_flush = True,
        obs_flush_done = True, obs_lifecycle = True\<rparr>\<rparr>) w)"

definition zpt_capture_tap_start :: "'q zpt_capture_sink \<Rightarrow> ('q, 'g, 'k) tapped \<Rightarrow> ('q, 'g, 'k) tapped" where
  "zpt_capture_tap_start sink t =
     (let t = t\<lparr>tp_tap := restart (tp_tap t)\<rparr>
      in if ct_replayable (tp_tap t) \<and> pl_active (w_pipes (tp_world t) (ct_pipeline (tp_tap t)))
         then reset_and_enter sink t else t)"

end
