(* ===== verification/Replay_Runner.thy ===== *)
theory Replay_Runner
  imports Chain
begin

text \<open>
  The host's replay of a chain of stages (\<open>host/runners/cursor_pipeline_replay.c\<close>): a header names
  the source and the stages with their settings, the stages of the firmware are assembled into a
  pipeline, and the events of a trace are pushed through it. Lines are modelled by what \<open>sscanf\<close>
  reads of them; what is printed is a list of outputs.
\<close>

section \<open>Settings of a stage\<close>

text \<open>The zero-initialised member of the configuration union that the stage reads.\<close>

fun zero_config :: "stage_type \<Rightarrow> chain_config" where
  "zero_config STAGE_ORIENTATION = Orientation \<lparr>swap_xy = False, invert_x = False, invert_y = False\<rparr>"
| "zero_config STAGE_GATE = Gate \<lparr>cd_settings = \<lparr>enabled = False, cd_activation_distance = 0, coherence_percent = 0,
     qualification_timeout_ms = 0, cd_idle_timeout_ms = 0\<rparr>, cd_suppression = None\<rparr>"
| "zero_config STAGE_ACCELERATION = Acceleration \<lparr>curve_speed_mm_per_s = replicate POINTS 0,
     curve_percent = replicate POINTS 0, speed_rise_ms = 0, speed_fall_ms = 0\<rparr>"
| "zero_config STAGE_TRANSFER = Transfer \<lparr>scale_multiplier = 0, scale_divisor = 0\<rparr>"
| "zero_config STAGE_COALESCER = Coalescer \<lparr>usb_report_interval_ms = 0, ble_report_interval_ms = 0, current_link = None\<rparr>"
| "zero_config STAGE_INTENT = Intent \<lparr>ai_settings = \<lparr>engage_ratio_percent = 0, release_ratio_percent = 0,
     ai_activation_distance = 0, window_ms = 0\<rparr>, ai_policy = 0, ai_idle_timeout_ms = 0, ai_suppression = None\<rparr>"
| "zero_config STAGE_CONSTRAINT = Constraint \<lparr>discard_unclassified = False, ac_idle_timeout_ms = 0, fold_interval_ms = 0, ac_suppression = None\<rparr>"
| "zero_config STAGE_BATCHER = Batcher \<lparr>steps_per_millimeter = 0, report_interval_ms = 0, sb_suppression = None\<rparr>"
| "zero_config STAGE_TEXT_NAV = TextNav \<lparr>horizontal_threshold = 0, vertical_threshold = 0, tn_idle_timeout_ms = 0\<rparr>"
| "zero_config _ = NoConfig"

text \<open>The tuning operations of a stage, on the union.\<close>

definition embed_ops :: "(chain_config \<Rightarrow> 'c option) \<Rightarrow> ('c \<Rightarrow> chain_config) \<Rightarrow> 'c zpt_stage_tuning_ops \<Rightarrow> chain_config zpt_stage_tuning_ops" where
  "embed_ops cast wrap ops = \<lparr>ops_parameters = ops_parameters ops, ops_config_size = ops_config_size ops,
     ops_get = (\<lambda>c. ops_get ops (the (cast c))), ops_put = (\<lambda>c k v. map_prod id wrap (ops_put ops (the (cast c)) k v)),
     ops_validate = map_option (\<lambda>f c. f (the (cast c))) (ops_validate ops)\<rparr>"

fun tuning_ops :: "stage_type \<Rightarrow> chain_config zpt_stage_tuning_ops option" where
  "tuning_ops STAGE_GATE = Some (embed_ops config_gate Gate (zpt_coherent_displacement_tuning_ops 0))"
| "tuning_ops STAGE_ACCELERATION = Some (embed_ops config_acceleration Acceleration (zpt_cursor_acceleration_tuning_ops 0))"
| "tuning_ops STAGE_TRANSFER = Some (embed_ops config_transfer Transfer (zpt_cursor_transfer_tuning_ops 0))"
| "tuning_ops STAGE_COALESCER = Some (embed_ops config_coalescer Coalescer (zpt_cursor_coalescer_tuning_ops 0))"
| "tuning_ops STAGE_INTENT = Some (embed_ops config_intent Intent (zpt_axis_intent_tuning_ops 0))"
| "tuning_ops STAGE_CONSTRAINT = Some (embed_ops config_constraint Constraint (zpt_axis_constraint_tuning_ops 0))"
| "tuning_ops STAGE_BATCHER = Some (embed_ops config_batcher Batcher (zpt_scroll_batcher_tuning_ops 0))"
| "tuning_ops STAGE_TEXT_NAV = Some (embed_ops config_text_nav TextNav (zpt_text_nav_tuning_ops 0))"
| "tuning_ops _ = None"

section \<open>The replay and its header\<close>

record replay_stage =
  rs_type :: stage_type
  rs_stable_id :: string
  rs_config :: chain_config
  rs_parameters_set :: "u8 set"
  rs_suppress_after_keypress_ms :: u16

datatype replay_output =
    ReportLine u32 int int u32
  | ActionLine u32 u32 u32
  | AxisLine u32 int int "zpt_axis_intent option" bool u32
  | CursorLine u32 int int int int bool u32 int int

text \<open>The sink's state pointer leads to the replay: it reads \<open>now_us\<close> and prints.\<close>

record replay_sink =
  so_now_us :: u32
  so_lines :: "replay_output list"

type_synonym replay_world = "(chain_config, chain_state, replay_sink) world"

record replay =
  rp_resolution_cpi :: u16
  rp_link :: zpt_cursor_link
  rp_suppress_after_keypress_ms :: u16
  rp_keypress_seen :: bool
  rp_recorded_flushes :: bool
  rp_last_keypress_ms :: u32
  rp_replay_stages :: "replay_stage list"
  rp_acceleration :: "zpt_cursor_acceleration_config option"
  rp_axis_chain :: bool
  rp_world :: replay_world

abbreviation "MAX_STAGES \<equiv> (8 :: nat)"
abbreviation "MAX_ID \<equiv> (64 :: nat)"

text \<open>The address of the replay's own suppression policy, and what that policy answers.\<close>

abbreviation "REPLAY_GUARD \<equiv> (0 :: nat)"

definition replay_suppressed :: "replay \<Rightarrow> u32 \<Rightarrow> bool" where
  "replay_suppressed r now \<longleftrightarrow> 0 < rp_suppress_after_keypress_ms r \<and> rp_keypress_seen r \<and>
     now - rp_last_keypress_ms r < ucast (rp_suppress_after_keypress_ms r)"

definition add_stage :: "replay \<Rightarrow> string \<Rightarrow> string \<Rightarrow> int \<times> replay" where
  "add_stage r type_name stable_id =
     (if length (rp_replay_stages r) \<ge> MAX_STAGES \<or> length stable_id \<ge> MAX_ID then (- EINVAL, r)
      else case map_of stage_names type_name of
        None \<Rightarrow> (- EINVAL, r)
      | Some t \<Rightarrow>
          let config = (case zero_config t of
                Intent c \<Rightarrow> Intent (c\<lparr>ai_policy := POLICY_ADAPTIVE\<rparr>)
              | Coalescer c \<Rightarrow> Coalescer (c\<lparr>current_link := Some LINK_USB\<rparr>)
              | c \<Rightarrow> c)
          in (0, r\<lparr>rp_replay_stages := rp_replay_stages r @ [\<lparr>rs_type = t, rs_stable_id = stable_id, rs_config = config,
                rs_parameters_set = {}, rs_suppress_after_keypress_ms = 0\<rparr>]\<rparr>))"

definition set_orientation :: "zpt_orientation_config \<Rightarrow> string \<Rightarrow> int \<Rightarrow> int \<times> zpt_orientation_config" where
  "set_orientation c name v =
     (if name \<notin> {''swap-xy'', ''invert-x'', ''invert-y''} \<or> v < 0 \<or> v > 1 then (- EINVAL, c)
      else (0, if name = ''swap-xy'' then c\<lparr>swap_xy := v \<noteq> 0\<rparr>
               else if name = ''invert-x'' then c\<lparr>invert_x := v \<noteq> 0\<rparr> else c\<lparr>invert_y := v \<noteq> 0\<rparr>))"

definition set_tuned :: "replay_stage \<Rightarrow> chain_config zpt_stage_tuning_ops \<Rightarrow> string \<Rightarrow> int \<Rightarrow> int \<times> replay_stage" where
  "set_tuned stage ops name v =
     (case find (\<lambda>p. param_key p = Some name) (ops_parameters ops) of
        None \<Rightarrow> (- EINVAL, stage)
      | Some p \<Rightarrow>
          if param_id p \<in> rs_parameters_set stage \<or> v < param_minimum p \<or> v > param_maximum p \<or>
             i32 (v - param_minimum p) smod param_step p \<noteq> 0
          then (- EINVAL, stage)
          else let (ret, config) = ops_put ops (rs_config stage) (param_id p) v
               in (ret, stage\<lparr>rs_parameters_set := insert (param_id p) (rs_parameters_set stage), rs_config := config\<rparr>))"

definition takes_guard :: "stage_type \<Rightarrow> bool" where
  "takes_guard t \<longleftrightarrow> t \<in> {STAGE_GATE, STAGE_INTENT, STAGE_CONSTRAINT, STAGE_BATCHER}"

definition set_guard :: "replay \<Rightarrow> replay_stage \<Rightarrow> int \<Rightarrow> int \<times> replay \<times> replay_stage" where
  "set_guard r stage v =
     (if v < 0 \<or> v > 65535 \<or>
         (v > 0 \<and> 0 < rp_suppress_after_keypress_ms r \<and> rp_suppress_after_keypress_ms r \<noteq> word_of_int v)
      then (- EINVAL, r, stage)
      else (0, if v > 0 then r\<lparr>rp_suppress_after_keypress_ms := word_of_int v\<rparr> else r,
            stage\<lparr>rs_suppress_after_keypress_ms := word_of_int v\<rparr>))"

definition set_parameter :: "replay \<Rightarrow> string \<Rightarrow> int \<Rightarrow> int \<times> replay" where
  "set_parameter r name v =
     (if rp_replay_stages r = [] then (- EINVAL, r)
      else
        let stage = last (rp_replay_stages r);
            stored = (\<lambda>r stage. r\<lparr>rp_replay_stages := butlast (rp_replay_stages r) @ [stage]\<rparr>)
        in if rs_type stage = STAGE_ORIENTATION then
             let (ret, c) = set_orientation (the (config_orientation (rs_config stage))) name v
             in (ret, stored r (stage\<lparr>rs_config := Orientation c\<rparr>))
           else if name = ''suppress-after-keypress-ms'' \<and> takes_guard (rs_type stage) then
             let (ret, r, stage) = set_guard r stage v in (ret, stored r stage)
           else if rs_type stage = STAGE_INTENT \<and> name = ''policy'' then
             if v < POLICY_FREE \<or> v > POLICY_VERTICAL then (- EINVAL, r)
             else (0, stored r (stage\<lparr>rs_config := Intent ((the (config_intent (rs_config stage)))\<lparr>ai_policy := v\<rparr>)\<rparr>))
           else case tuning_ops (rs_type stage) of
               None \<Rightarrow> (- EINVAL, r)
             | Some ops \<Rightarrow> let (ret, stage) = set_tuned stage ops name v in (ret, stored r stage))"

definition check_complete :: "replay_stage \<Rightarrow> int" where
  "check_complete stage =
     (case tuning_ops (rs_type stage) of
        None \<Rightarrow> 0
      | Some ops \<Rightarrow>
          if \<exists>p \<in> set (ops_parameters ops). param_id p \<notin> rs_parameters_set stage then - EINVAL
          else case ops_validate ops of
              None \<Rightarrow> 0
            | Some f \<Rightarrow> if fst (f (rs_config stage)) < 0 then - EINVAL else 0)"

datatype header_line =
    ResolutionLine u16
  | LinkLine string
  | StageLine string string
  | ParameterLine string int
  | RecordedFlushesLine
  | EndLine
  | MalformedLine

text \<open>The code, whether the header ends here, and the replay.\<close>

fun read_header_line :: "replay \<Rightarrow> header_line \<Rightarrow> int \<times> bool \<times> replay" where
  "read_header_line r (ResolutionLine cpi) =
     (if cpi = 0 then (- EINVAL, False, r) else (0, False, r\<lparr>rp_resolution_cpi := cpi\<rparr>))"
| "read_header_line r (LinkLine word) =
     (if word = ''usb'' then (0, False, r\<lparr>rp_link := LINK_USB\<rparr>)
      else if word = ''ble'' then (0, False, r\<lparr>rp_link := LINK_BLE\<rparr>) else (- EINVAL, False, r))"
| "read_header_line r (StageLine type_name stable_id) = (let (ret, r) = add_stage r type_name stable_id in (ret, False, r))"
| "read_header_line r (ParameterLine name v) = (let (ret, r) = set_parameter r name v in (ret, False, r))"
| "read_header_line r RecordedFlushesLine = (0, False, r\<lparr>rp_recorded_flushes := True\<rparr>)"
| "read_header_line r EndLine = (0, True, r)"
| "read_header_line r MalformedLine = (- EINVAL, False, r)"

section \<open>Building the pipeline\<close>

definition capture_emit :: "replay_sink \<Rightarrow> zpt_signal \<Rightarrow> int \<times> replay_sink" where
  "capture_emit k s =
     (if kind s = SIGNAL_POINTER_DELTA \<or> kind s = SIGNAL_SCROLL_STEPS
      then (0, k\<lparr>so_lines := so_lines k @ [ReportLine (observed_at_ms (metadata s)) (fst (delta s)) (snd (delta s)) (so_now_us k)]\<rparr>)
      else if kind s = SIGNAL_ACTION
      then (0, k\<lparr>so_lines := so_lines k @ [ActionLine (observed_at_ms (metadata s)) (action_id s) (so_now_us k)]\<rparr>)
      else (- EPROTOTYPE, k))"

definition capture_api :: "replay_sink zpt_sink_api" where
  "capture_api = \<lparr>type_id = Some ''chain-capture'',
     sink_accepted_kinds = ZPT_SIGNAL_KIND_MASK SIGNAL_POINTER_DELTA OR ZPT_SIGNAL_KIND_MASK SIGNAL_SCROLL_STEPS OR
       ZPT_SIGNAL_KIND_MASK SIGNAL_ACTION,
     sink_emit = Some capture_emit, sink_activate = None, sink_deactivate = None, sink_reset = None\<rparr>"

definition replay_policy :: zpt_suppression_policy where
  "replay_policy = \<lparr>policy_at = REPLAY_GUARD, is_suppressed = Some (\<lambda>s now. False), keypress_window_ms = 0,
     freezes = False, thaws = False\<rparr>"

text \<open>The configuration a stage runs with: its guard, and the link for a coalescer to read.\<close>

definition built_config :: "zpt_cursor_link \<Rightarrow> replay_stage \<Rightarrow> chain_config" where
  "built_config link source =
     (let guard = (if 0 < rs_suppress_after_keypress_ms source then Some replay_policy else None) in
      case rs_config source of
        Gate c \<Rightarrow> Gate (c\<lparr>cd_suppression := guard\<rparr>)
      | Intent c \<Rightarrow> Intent (c\<lparr>ai_suppression := guard\<rparr>)
      | Constraint c \<Rightarrow> Constraint (c\<lparr>ac_suppression := guard\<rparr>)
      | Batcher c \<Rightarrow> Batcher (c\<lparr>sb_suppression := guard\<rparr>)
      | Coalescer c \<Rightarrow> Coalescer (c\<lparr>current_link := Some link\<rparr>)
      | c \<Rightarrow> c)"

definition built_stage :: "zpt_cursor_link \<Rightarrow> replay_stage list \<Rightarrow> nat \<Rightarrow> (chain_config, chain_state) zpt_stage" where
  "built_stage link sources i =
     (let source = sources ! i in
      \<lparr>stg_stable_id = Some (rs_stable_id source), stg_api = Some (stage_api (rs_type source)),
       stg_config = Some (built_config link source), stg_state = Some i, stg_owner = None, stg_deadline_ms = 0,
       stg_deadline_pending = False, stg_observer_callback = False, stg_observer_frame = (rs_type source = STAGE_ACCELERATION)\<rparr>)"

definition built_world :: "zpt_cursor_link \<Rightarrow> replay_stage list \<Rightarrow> replay_world" where
  "built_world link sources = \<lparr>w_stages = built_stage link sources, w_heap = \<lambda>_. ZeroState,
     w_sinks = \<lambda>_. \<lparr>snk_stable_id = Some ''capture'', snk_api = Some capture_api, snk_state = \<lparr>so_now_us = 0, so_lines = []\<rparr>, snk_owner = None\<rparr>,
     w_pipes = \<lambda>_. \<lparr>pl_stable_id = Some ''cursor-replay'', pl_input_kind = SIGNAL_RAW_MOTION,
       pl_stages = [0..<length sources], pl_sink = 0, pl_dispatch_budget = 16, pl_validated = False,
       pl_active = False, pl_observer = \<lparr>obs_input = False, obs_input_done = False, obs_flush = False,
         obs_flush_done = False, obs_lifecycle = False\<rparr>\<rparr>,
     w_log = []\<rparr>"

definition build_pipeline :: "replay \<Rightarrow> int \<times> replay" where
  "build_pipeline r =
     (if \<exists>source \<in> set (rp_replay_stages r). check_complete source < 0 then (- EINVAL, r)
      else
        let sources = rp_replay_stages r;
            curves = [c. Acceleration c \<leftarrow> map rs_config sources];
            kind_out = output_kind (stage_api (rs_type (last sources)));
            w = built_world (rp_link r) sources;
            (ret, w) = zpt_pipeline_validate 0 w;
            (ret, w) = (if ret < 0 then (ret, w) else zpt_pipeline_activate 0 RESET_PIPELINE_ENTERED w);
            r = r\<lparr>rp_world := w, rp_acceleration := (if curves = [] then None else Some (last curves)),
                  rp_axis_chain := sources \<noteq> [] \<and> (kind_out = SIGNAL_SCROLL_STEPS \<or> kind_out = SIGNAL_ACTION)\<rparr>
        in (if ret < 0 then - EINVAL else 0, r))"

section \<open>Events\<close>

definition replay_find_stage :: "replay \<Rightarrow> stage_type \<Rightarrow> nat option" where
  "replay_find_stage r t = find (\<lambda>i. rs_type (rp_replay_stages r ! i) = t) [0..<length (rp_replay_stages r)]"

definition set_now_us :: "u32 \<Rightarrow> replay \<Rightarrow> replay" where
  "set_now_us t r = r\<lparr>rp_world := update_sink 0 (\<lambda>k. k\<lparr>snk_state := (snk_state k)\<lparr>so_now_us := t\<rparr>\<rparr>) (rp_world r)\<rparr>"

definition print_line :: "replay_output \<Rightarrow> replay \<Rightarrow> replay" where
  "print_line l r = r\<lparr>rp_world := update_sink 0 (\<lambda>k. k\<lparr>snk_state := (snk_state k)\<lparr>so_lines := so_lines (snk_state k) @ [l]\<rparr>\<rparr>) (rp_world r)\<rparr>"

text \<open>A call of the pipeline, with the guard's decisions as they are then.\<close>

definition replay_world_now :: "replay \<Rightarrow> replay_world" where
  "replay_world_now r = decided REPLAY_GUARD (replay_suppressed r) (rp_world r)"

definition replay_flush :: "u32 \<Rightarrow> replay \<Rightarrow> int \<times> replay" where
  "replay_flush now r = (let (ret, _, w) = zpt_pipeline_flush 0 now (replay_world_now r) in (ret, r\<lparr>rp_world := w\<rparr>))"

text \<open>Run every deadline due, each at its own time; \<open>None\<close> if that never ends.\<close>

partial_function (option) flush_until :: "replay \<Rightarrow> u32 \<Rightarrow> bool \<Rightarrow> (int \<times> replay) option" where
  "flush_until r now all_of_them =
     (case zpt_pipeline_next_deadline (rp_world r) 0 now of
        None \<Rightarrow> Some (0, r)
      | Some deadline \<Rightarrow>
          if \<not> all_of_them \<and> \<not> time_reached now deadline then Some (0, r)
          else let (ret, r) = replay_flush deadline (set_now_us (deadline * 1000) r)
               in if ret < 0 then Some (- EINVAL, r) else flush_until r now all_of_them)"

text \<open>The speed the acceleration stage last annotated since the log was \<open>n\<close> long.\<close>

definition frame_speed :: "nat \<Rightarrow> replay_world \<Rightarrow> int option" where
  "frame_speed n w = (case [speed_per_second (annotations s). LogFrame sid s now \<leftarrow> drop n (w_log w)] of
     [] \<Rightarrow> None | speeds \<Rightarrow> Some (last speeds))"

definition motion_signal :: "replay \<Rightarrow> u32 \<Rightarrow> int \<Rightarrow> int \<Rightarrow> u32 \<Rightarrow> zpt_signal" where
  "motion_signal r t_ms x y span_us = \<lparr>kind = SIGNAL_RAW_MOTION,
     metadata = zero_metadata\<lparr>observed_at_ms := t_ms, sample_span_us := span_us, resolution_cpi := rp_resolution_cpi r\<rparr>,
     annotations = zero_annotations, data = RawMotion x y\<rparr>"

definition push_motion :: "replay \<Rightarrow> u32 \<Rightarrow> u32 \<Rightarrow> int \<Rightarrow> int \<Rightarrow> u32 \<Rightarrow> int \<times> replay" where
  "push_motion r t_us t_ms x y span_us =
     (let r = set_now_us t_us r;
          suppressed = replay_suppressed r t_ms;
          n = length (w_log (rp_world r));
          (ret, _, w) = zpt_pipeline_push 0 (motion_signal r t_ms x y span_us) (replay_world_now r);
          r = r\<lparr>rp_world := w\<rparr>
      in if ret < 0 then (- EINVAL, r)
         else if rp_axis_chain r then
           (0, print_line (AxisLine t_ms x y
                 (map_option (\<lambda>i. intent (estimator (as_intent (w_heap w i)))) (replay_find_stage r STAGE_INTENT)) suppressed t_us) r)
         else
           let quantizer = map_option (\<lambda>i. as_quantizer (w_heap w i)) (replay_find_stage r STAGE_QUANTIZER);
               speed = frame_speed n w
           in (0, print_line (CursorLine t_ms x y
                 (case quantizer of None \<Rightarrow> 0 | Some q \<Rightarrow> remainder_x q) (case quantizer of None \<Rightarrow> 0 | Some q \<Rightarrow> remainder_y q)
                 (flags (metadata (motion_signal r t_ms x y span_us)) AND FLAG_CLIPPED \<noteq> 0) t_us (case speed of None \<Rightarrow> - 1 | Some v \<Rightarrow> v)
                 (case speed of None \<Rightarrow> - 1 | Some v \<Rightarrow> zpt_cursor_acceleration_sensitivity (the (rp_acceleration r)) v)) r))"

text \<open>An event line as \<open>sscanf\<close> reads it; \<open>late_ms\<close> is zero unless the line has it.\<close>

datatype event_line =
    EventM u32 int int u32 u32
  | EventK u32 u32
  | EventF u32 u32
  | EventMalformed

datatype replay_line =
    MotionAt u32 u32 int int u32
  | KeypressAt u32 u32
  | FlushAt u32 u32

fun parse_event :: "event_line \<Rightarrow> replay_line option" where
  "parse_event (EventM t_us x y span_us late_ms) = Some (MotionAt t_us (t_us div 1000 - late_ms) x y span_us)"
| "parse_event (EventK t_us late_ms) = Some (KeypressAt t_us (t_us div 1000 - late_ms))"
| "parse_event (EventF t_us late_ms) = Some (FlushAt t_us (t_us div 1000 - late_ms))"
| "parse_event EventMalformed = None"

fun line_ms :: "replay_line \<Rightarrow> u32" where
  "line_ms (MotionAt _ t_ms _ _ _) = t_ms" | "line_ms (KeypressAt _ t_ms) = t_ms" | "line_ms (FlushAt _ t_ms) = t_ms"

fun run_line :: "replay \<Rightarrow> replay_line \<Rightarrow> int \<times> replay" where
  "run_line r (FlushAt t_us t_ms) =
     (if \<not> rp_recorded_flushes r then (- EINVAL, r)
      else let (ret, r) = replay_flush t_ms (set_now_us t_us r) in (if ret < 0 then - EINVAL else 0, r))"
| "run_line r (KeypressAt t_us t_ms) = (0, r\<lparr>rp_keypress_seen := True, rp_last_keypress_ms := t_ms\<rparr>)"
| "run_line r (MotionAt t_us t_ms x y span_us) = push_motion r t_us t_ms x y span_us"

definition replay_event :: "replay \<Rightarrow> event_line \<Rightarrow> (int \<times> replay) option" where
  "replay_event r line =
     (case parse_event line of
        None \<Rightarrow> Some (- EINVAL, r)
      | Some e \<Rightarrow>
          if rp_recorded_flushes r then Some (run_line r e)
          else case flush_until r (line_ms e) False of
              None \<Rightarrow> None
            | Some (ret, r) \<Rightarrow> if ret < 0 then Some (- EINVAL, r) else Some (run_line r e))"

section \<open>The program\<close>

text \<open>The header up to its end: the code, the replay and the lines left.\<close>

fun read_header :: "replay \<Rightarrow> header_line list \<Rightarrow> int \<times> replay" where
  "read_header r [] = (- EINVAL, r)"
| "read_header r (l # ls) =
     (let (ret, header_done, r) = read_header_line r l in
      if ret < 0 then (ret, r) else if header_done then (0, r) else read_header r ls)"

fun replay_events :: "replay \<Rightarrow> event_line list \<Rightarrow> (int \<times> replay) option" where
  "replay_events r [] = Some (0, r)"
| "replay_events r (l # ls) =
     (case replay_event r l of
        None \<Rightarrow> None
      | Some (ret, r) \<Rightarrow> if ret < 0 then Some (2, r) else replay_events r ls)"

definition zero_replay :: replay where
  "zero_replay = \<lparr>rp_resolution_cpi = 0, rp_link = LINK_USB, rp_suppress_after_keypress_ms = 0, rp_keypress_seen = False,
     rp_recorded_flushes = False, rp_last_keypress_ms = 0, rp_replay_stages = [], rp_acceleration = None,
     rp_axis_chain = False, rp_world = built_world LINK_USB []\<rparr>"

definition replay_main :: "header_line list \<Rightarrow> event_line list \<Rightarrow> (int \<times> replay) option" where
  "replay_main header events =
     (let (ret, r) = read_header zero_replay header in
      if ret < 0 \<or> rp_resolution_cpi r = 0 then Some (2, r)
      else
        let (ret, r) = build_pipeline r in
        if ret < 0 then Some (2, r)
        else case replay_events r events of
            None \<Rightarrow> None
          | Some (ret, r) \<Rightarrow>
              if ret \<noteq> 0 then Some (ret, r)
              else if rp_recorded_flushes r then Some (0, r)
              else case flush_until r 0 True of
                  None \<Rightarrow> None
                | Some (ret, r) \<Rightarrow> Some (if ret < 0 then 2 else 0, r))"

end
