(* ===== verification/Capture_Describe.thy ===== *)
theory Capture_Describe
  imports Telemetry_Tuning Capture_Tap "HOL-Library.AList"
begin

text \<open>
  The description of a recorded pipeline (\<open>observer/capture.c\<close>): its stages, and of each the settings
  that runtime tuning does not publish, with the hash of those it does; and what the host reads
  from it (\<open>parseCaptureDescription\<close> of \<open>web/protocol.js\<close>). Strings are ASCII, so the text decoder of
  the host is the identity on their bytes. Exceptions of the host are \<open>None\<close>.
\<close>

section \<open>The settings hash\<close>

definition fnv_byte :: "u32 \<Rightarrow> u8 \<Rightarrow> u32" where
  "fnv_byte fnv byte = (fnv XOR ucast byte) * 16777619"

definition zpt_capture_settings_hash_add :: "u32 \<Rightarrow> string \<Rightarrow> string \<Rightarrow> int \<Rightarrow> u32" where
  "zpt_capture_settings_hash_add hash stable_id key v =
     (let fnv = fold (\<lambda>part fnv. fnv_byte (fold (\<lambda>c fnv. fnv_byte fnv (of_char c)) part fnv) 0) [stable_id, key] 2166136261
      in hash + fold (\<lambda>byte fnv. fnv_byte fnv byte) (put_le32 (word_of_int v)) fnv)"

section \<open>What is written\<close>

definition fixed_settings :: "'k chain_world \<Rightarrow> nat \<Rightarrow> nat \<Rightarrow> (string \<times> int) list" where
  "fixed_settings w pid sid =
     (if is_strategy w sid ''orthogonal-orientation'' then
        let c = the (config_of w sid config_orientation)
        in [(''swap-xy'', of_bool (swap_xy c)), (''invert-x'', of_bool (invert_x c)), (''invert-y'', of_bool (invert_y c))]
      else
        (if is_strategy w sid ''axis-intent'' then [(''policy'', ai_policy (the (config_of w sid config_intent)))] else []) @
        (if is_strategy w sid ''coherent-displacement'' \<or> is_strategy w sid ''axis-intent'' \<or>
            is_strategy w sid ''axis-constraint'' \<or> is_strategy w sid ''scroll-batcher''
         then
           let guard = find_guard w pid;
               window = (case guard of None \<Rightarrow> 0
                 | Some p \<Rightarrow> if map_option policy_at (stage_guard w sid) = Some (policy_at p) then keypress_window_ms p else 0)
           in [(''suppress-after-keypress-ms'', sint window)]
         else []))"

text \<open>A writer is the bytes written so far; \<open>None\<close> once something did not fit.\<close>

type_synonym bounded_writer = "u8 list option"

definition write_bytes :: "nat \<Rightarrow> u8 list \<Rightarrow> bounded_writer \<Rightarrow> bounded_writer" where
  "write_bytes capacity piece writer =
     (case writer of None \<Rightarrow> None
      | Some out \<Rightarrow> if capacity - length out < length piece then None else Some (out @ piece))"

definition write_u8 :: "nat \<Rightarrow> u8 \<Rightarrow> bounded_writer \<Rightarrow> bounded_writer" where
  "write_u8 capacity v = write_bytes capacity [v]"

definition write_string :: "nat \<Rightarrow> string \<Rightarrow> bounded_writer \<Rightarrow> bounded_writer" where
  "write_string capacity text writer =
     (if length text > 255 then None
      else write_bytes capacity (string_bytes (Some text)) (write_u8 capacity (of_nat (length text)) writer))"

definition write_setting :: "nat \<Rightarrow> string \<times> int \<Rightarrow> bounded_writer \<Rightarrow> bounded_writer" where
  "write_setting capacity setting writer =
     write_bytes capacity (put_le32 (word_of_int (snd setting))) (write_string capacity (fst setting) writer)"

definition write_stage :: "nat \<Rightarrow> 'k chain_world \<Rightarrow> nat \<Rightarrow> nat \<Rightarrow> bounded_writer \<Rightarrow> bounded_writer" where
  "write_stage capacity w pid sid writer =
     (let settings = fixed_settings w pid sid;
          writer = write_string capacity (strategy_of w sid) writer;
          writer = write_string capacity (the (stg_stable_id (w_stages w sid))) writer;
          writer = write_u8 capacity (of_nat (length settings)) writer
      in fold (write_setting capacity) settings writer)"

text \<open>The code or the length, and what was written.\<close>

definition zpt_capture_describe_pipeline :: "'k chain_world \<Rightarrow> nat \<Rightarrow> u8 \<Rightarrow> u32 \<Rightarrow> nat \<Rightarrow> int \<times> u8 list" where
  "zpt_capture_describe_pipeline w pid pipeline_id settings_hash capacity =
     (let pipeline = w_pipes w pid;
          writer = write_u8 capacity pipeline_id (Some []);
          writer = write_string capacity (the (pl_stable_id pipeline)) writer;
          writer = write_bytes capacity (put_le32 settings_hash) writer;
          writer = write_u8 capacity (of_nat (length (pl_stages pipeline))) writer;
          writer = fold (write_stage capacity w pid) (pl_stages pipeline) writer
      in case writer of
           None \<Rightarrow> (- ENOSPC, [])
         | Some out \<Rightarrow> if length (pl_stages pipeline) > 255 then (- ENOSPC, []) else (int (length out), out))"

section \<open>What is read\<close>

record host_stage =
  hg_strategy :: "u8 list"
  hg_stable_id :: "u8 list"
  hg_fixed :: "(u8 list \<times> int) list"

record host_description =
  hd_pipeline_id :: u8
  hd_stable_id :: "u8 list"
  hd_settings_hash :: u32
  hd_stages :: "host_stage list"

definition read_byte :: "u8 list \<Rightarrow> (u8 \<times> u8 list) option" where
  "read_byte bytes = (case bytes of [] \<Rightarrow> None | b # bytes \<Rightarrow> Some (b, bytes))"

definition read_string :: "u8 list \<Rightarrow> (u8 list \<times> u8 list) option" where
  "read_string bytes = (case bytes of [] \<Rightarrow> None
     | n # bytes \<Rightarrow> if length bytes < unat n then None else Some (take (unat n) bytes, drop (unat n) bytes))"

text \<open>\<open>fixed[key] = value\<close>: a key assigned twice keeps its place and takes the new value.\<close>

fun read_settings :: "nat \<Rightarrow> u8 list \<Rightarrow> (u8 list \<times> int) list \<Rightarrow> ((u8 list \<times> int) list \<times> u8 list) option" where
  "read_settings 0 bytes fixed = Some (fixed, bytes)"
| "read_settings (Suc n) bytes fixed =
     (case read_string bytes of None \<Rightarrow> None
      | Some (key, bytes) \<Rightarrow>
          if length bytes < 4 then None
          else read_settings n (drop 4 bytes) (AList.update key (sint (get_le32 bytes)) fixed))"

definition read_stage :: "u8 list \<Rightarrow> (host_stage \<times> u8 list) option" where
  "read_stage bytes =
     (case read_string bytes of None \<Rightarrow> None | Some (strategy_id_bytes, bytes) \<Rightarrow>
      case read_string bytes of None \<Rightarrow> None | Some (stable_id, bytes) \<Rightarrow>
      case read_byte bytes of None \<Rightarrow> None | Some (settings, bytes) \<Rightarrow>
      case read_settings (unat settings) bytes [] of None \<Rightarrow> None | Some (fixed, bytes) \<Rightarrow>
        Some (\<lparr>hg_strategy = strategy_id_bytes, hg_stable_id = stable_id, hg_fixed = fixed\<rparr>, bytes))"

fun read_stages :: "nat \<Rightarrow> u8 list \<Rightarrow> (host_stage list \<times> u8 list) option" where
  "read_stages 0 bytes = Some ([], bytes)"
| "read_stages (Suc n) bytes =
     (case read_stage bytes of None \<Rightarrow> None
      | Some (stage, bytes) \<Rightarrow> map_option (apfst (Cons stage)) (read_stages n bytes))"

definition parseCaptureDescription :: "u8 list \<Rightarrow> host_description option" where
  "parseCaptureDescription bytes =
     (case read_byte bytes of None \<Rightarrow> None | Some (pipeline_id, bytes) \<Rightarrow>
      case read_string bytes of None \<Rightarrow> None | Some (stable_id, bytes) \<Rightarrow>
      if length bytes < 4 then None
      else case read_byte (drop 4 bytes) of None \<Rightarrow> None | Some (stages, rest) \<Rightarrow>
        map_option (\<lambda>(stages, _). \<lparr>hd_pipeline_id = pipeline_id, hd_stable_id = stable_id,
          hd_settings_hash = get_le32 bytes, hd_stages = stages\<rparr>) (read_stages (unat stages) rest))"

section \<open>The host reads the pipeline back\<close>

text \<open>What a description holds, and what the host is to make of it.\<close>

definition string_part :: "string \<Rightarrow> u8 list" where
  "string_part text = of_nat (length text) # string_bytes (Some text)"

definition setting_part :: "string \<times> int \<Rightarrow> u8 list" where
  "setting_part setting = string_part (fst setting) @ put_le32 (word_of_int (snd setting))"

definition stage_part :: "'k chain_world \<Rightarrow> nat \<Rightarrow> nat \<Rightarrow> u8 list" where
  "stage_part w pid sid = string_part (strategy_of w sid) @ string_part (the (stg_stable_id (w_stages w sid))) @
     of_nat (length (fixed_settings w pid sid)) # concat (map setting_part (fixed_settings w pid sid))"

definition description_part :: "'k chain_world \<Rightarrow> nat \<Rightarrow> u8 \<Rightarrow> u32 \<Rightarrow> u8 list" where
  "description_part w pid pipeline_id hash = pipeline_id # string_part (the (pl_stable_id (w_pipes w pid))) @ put_le32 hash @
     of_nat (length (pl_stages (w_pipes w pid))) # concat (map (stage_part w pid) (pl_stages (w_pipes w pid)))"

definition stage_seen :: "'k chain_world \<Rightarrow> nat \<Rightarrow> nat \<Rightarrow> host_stage" where
  "stage_seen w pid sid = \<lparr>hg_strategy = string_bytes (Some (strategy_of w sid)),
     hg_stable_id = string_bytes (Some (the (stg_stable_id (w_stages w sid)))),
     hg_fixed = map (\<lambda>(key, v). (string_bytes (Some key), v)) (fixed_settings w pid sid)\<rparr>"

text \<open>Names short enough for their length byte.\<close>

definition names_fit :: "'k chain_world \<Rightarrow> nat \<Rightarrow> bool" where
  "names_fit w pid \<longleftrightarrow> length (the (pl_stable_id (w_pipes w pid))) \<le> 255 \<and> length (pl_stages (w_pipes w pid)) \<le> 255 \<and>
     (\<forall>sid \<in> set (pl_stages (w_pipes w pid)). length (strategy_of w sid) \<le> 255 \<and>
        length (the (stg_stable_id (w_stages w sid))) \<le> 255)"

definition settings_are_int32 :: "'k chain_world \<Rightarrow> nat \<Rightarrow> bool" where
  "settings_are_int32 w pid \<longleftrightarrow> (\<forall>sid \<in> set (pl_stages (w_pipes w pid)). \<forall>s \<in> set (fixed_settings w pid sid). in_i32 (snd s))"

lemma write_bytes_None [simp]: "write_bytes capacity piece None = None"
  by (simp add: write_bytes_def)

lemma write_string_part:
  "length text \<le> 255 \<Longrightarrow> write_string capacity text writer = write_bytes capacity (string_part text) writer"
  by (cases writer) (auto simp: write_string_def write_u8_def write_bytes_def string_part_def string_bytes_def)

lemma write_bytes_append:
  "write_bytes capacity next_piece (write_bytes capacity piece writer) = write_bytes capacity (piece @ next_piece) writer"
  by (cases writer) (auto simp: write_bytes_def)

lemma fixed_setting_keys:
  "s \<in> set (fixed_settings w pid sid) \<Longrightarrow> length (fst s) \<le> 255"
  "length (fixed_settings w pid sid) \<le> 3" "distinct (map fst (fixed_settings w pid sid))"
  by (auto simp: fixed_settings_def Let_def split: if_splits)

lemma write_stage_part:
  assumes "length (strategy_of w sid) \<le> 255" "length (the (stg_stable_id (w_stages w sid))) \<le> 255"
  shows "write_stage capacity w pid sid writer = write_bytes capacity (stage_part w pid sid) writer"
proof -
  have "fold (write_setting capacity) ss (write_bytes capacity piece writer) =
      write_bytes capacity (piece @ concat (map setting_part ss)) writer"
    if "\<forall>s \<in> set ss. length (fst s) \<le> 255" for ss piece
    using that
    by (induction ss arbitrary: piece) (simp_all add: write_setting_def write_string_part write_bytes_append setting_part_def)
  then show ?thesis
    using assms fixed_setting_keys(1) [of _ w pid sid]
    by (simp add: write_stage_def Let_def write_string_part write_u8_def write_bytes_append stage_part_def)
qed

lemma describe_writes:
  assumes "names_fit w pid"
  shows "zpt_capture_describe_pipeline w pid pipeline_id hash capacity =
    (if capacity < length (description_part w pid pipeline_id hash) then (- ENOSPC, [])
     else (int (length (description_part w pid pipeline_id hash)), description_part w pid pipeline_id hash))"
proof -
  have "fold (write_stage capacity w pid) sids (write_bytes capacity piece writer) =
      write_bytes capacity (piece @ concat (map (stage_part w pid) sids)) writer"
    if "set sids \<subseteq> set (pl_stages (w_pipes w pid))" for sids piece writer
    using that assms
    by (induction sids arbitrary: piece) (simp_all add: write_stage_part write_bytes_append names_fit_def)
  from this [OF order_refl]
  have "zpt_capture_describe_pipeline w pid pipeline_id hash capacity =
      (case write_bytes capacity (description_part w pid pipeline_id hash) (Some []) of
         None \<Rightarrow> (- ENOSPC, []) | Some out \<Rightarrow> (int (length out), out))"
    using assms
    by (simp add: zpt_capture_describe_pipeline_def write_u8_def write_string_part write_bytes_append names_fit_def
        description_part_def Let_def not_less split: option.split)
  then show ?thesis by (simp add: write_bytes_def)
qed

lemma read_string_part: "length text \<le> 255 \<Longrightarrow> read_string (string_part text @ rest) = Some (string_bytes (Some text), rest)"
  by (simp add: read_string_def string_part_def string_bytes_def unat_small)

lemma string_bytes_inj [simp]: "string_bytes (Some s) = string_bytes (Some t) \<longleftrightarrow> s = t"
proof -
  have "inj (of_char :: char \<Rightarrow> u8)"
  proof (rule injI)
    fix c d :: char assume "(of_char c :: u8) = of_char d"
    then have "(of_nat (of_char c) :: u8) = of_nat (of_char d)" by (simp only: of_nat_of_char)
    then have "(of_char c :: nat) = of_char d" by (metis unat_small nat_of_char_less_256)
    then show "c = d" by (simp only: of_char_eq_iff)
  qed
  then show ?thesis by (simp add: string_bytes_def inj_map_eq_map)
qed

lemma read_setting_parts:
  assumes "\<forall>s \<in> set ss. length (fst s) \<le> 255 \<and> in_i32 (snd s)" "distinct (map fst (done_ss @ ss))"
  shows "read_settings (length ss) (concat (map setting_part ss) @ rest) (map (\<lambda>(key, v). (string_bytes (Some key), v)) done_ss) =
    Some (map (\<lambda>(key, v). (string_bytes (Some key), v)) (done_ss @ ss), rest)"
  using assms
proof (induction ss arbitrary: done_ss)
  case (Cons s ss)
  obtain key v where s: "s = (key, v)" by fastforce
  let ?f = "\<lambda>(key, v). (string_bytes (Some key), v)"
  have fresh: "AList.update (string_bytes (Some key)) v (map ?f ds) = map ?f ds @ [(string_bytes (Some key), v)]"
    if "key \<notin> fst ` set ds" for ds :: "(string \<times> int) list"
    using that by (induction ds) auto
  have "key \<notin> fst ` set done_ss" using Cons.prems(2) by (auto simp: s)
  with Cons.IH [of "done_ss @ [s]"] Cons.prems fresh show ?case
    by (simp add: s setting_part_def read_string_part)
qed simp

lemma read_stage_part:
  assumes "length (strategy_of w sid) \<le> 255" "length (the (stg_stable_id (w_stages w sid))) \<le> 255"
    and "\<forall>s \<in> set (fixed_settings w pid sid). in_i32 (snd s)"
  shows "read_stage (stage_part w pid sid @ rest) = Some (stage_seen w pid sid, rest)"
proof -
  have "unat (of_nat (length (fixed_settings w pid sid)) :: u8) = length (fixed_settings w pid sid)"
    using fixed_setting_keys(2) [of w pid sid] by (simp add: unat_small)
  then show ?thesis
    using assms read_setting_parts [of "fixed_settings w pid sid" "[]" rest] fixed_setting_keys(1) [of _ w pid sid]
      fixed_setting_keys(3) [of w pid sid]
    by (simp add: read_stage_def stage_part_def read_string_part read_byte_def stage_seen_def)
qed

text \<open>
Property C20. The description of a pipeline is written exactly when it fits, and is otherwise refused as a
whole; and the host reads from it the pipeline's id and hash, and of every stage, in order, the
strategy, the name and each fixed setting with its value, negative values included.
\<close>

theorem capture_description_is_read_back:
  assumes "names_fit w pid" "settings_are_int32 w pid"
    and "zpt_capture_describe_pipeline w pid pipeline_id hash capacity = (ret, out)"
  shows "(ret < 0 \<longleftrightarrow> capacity < length (description_part w pid pipeline_id hash)) \<and> (ret < 0 \<longrightarrow> ret = - ENOSPC) \<and>
    (0 \<le> ret \<longrightarrow> ret = int (length out) \<and> length out \<le> capacity \<and>
      parseCaptureDescription out = Some \<lparr>hd_pipeline_id = pipeline_id,
        hd_stable_id = string_bytes (Some (the (pl_stable_id (w_pipes w pid)))), hd_settings_hash = hash,
        hd_stages = map (stage_seen w pid) (pl_stages (w_pipes w pid))\<rparr>)"
proof -
  have stages: "read_stages (length sids) (concat (map (stage_part w pid) sids)) = Some (map (stage_seen w pid) sids, [])"
    if "set sids \<subseteq> set (pl_stages (w_pipes w pid))" for sids
    using that
  proof (induction sids)
    case (Cons sid sids)
    then have "read_stage (stage_part w pid sid @ rest) = Some (stage_seen w pid sid, rest)" for rest
      using assms(1,2) by (intro read_stage_part) (auto simp: names_fit_def settings_are_int32_def)
    with Cons show ?case by simp
  qed simp
  have "unat (of_nat (length (pl_stages (w_pipes w pid))) :: u8) = length (pl_stages (w_pipes w pid))"
    using assms(1) by (simp add: unat_small names_fit_def)
  then have "parseCaptureDescription (description_part w pid pipeline_id hash) = Some \<lparr>hd_pipeline_id = pipeline_id,
        hd_stable_id = string_bytes (Some (the (pl_stable_id (w_pipes w pid)))), hd_settings_hash = hash,
        hd_stages = map (stage_seen w pid) (pl_stages (w_pipes w pid))\<rparr>"
    using assms(1) stages
    by (simp add: parseCaptureDescription_def description_part_def read_byte_def read_string_part names_fit_def)
  then show ?thesis using assms(3) describe_writes [OF assms(1)] by (auto split: if_splits)
qed

definition described_world :: "unit chain_world" where
  "described_world =
     (let policy = \<lparr>policy_at = 9, is_suppressed = None, keypress_window_ms = 250, freezes = True, thaws = True\<rparr>;
          stage = (\<lambda>name t c. \<lparr>stg_stable_id = Some name, stg_api = Some (stage_api t), stg_config = Some c, stg_state = None,
            stg_owner = None, stg_deadline_ms = 0, stg_deadline_pending = False, stg_observer_callback = False,
            stg_observer_frame = False\<rparr>)
      in \<lparr>w_stages = (\<lambda>sid. if sid = 0
             then stage ''turn'' STAGE_ORIENTATION (Orientation \<lparr>swap_xy = True, invert_x = False, invert_y = True\<rparr>)
             else stage ''intent'' STAGE_INTENT (Intent \<lparr>ai_settings = \<lparr>engage_ratio_percent = 0, release_ratio_percent = 0,
               ai_activation_distance = 0, window_ms = 0\<rparr>, ai_policy = - 1, ai_idle_timeout_ms = 0, ai_suppression = Some policy\<rparr>)),
           w_heap = (\<lambda>_. ZeroState), w_sinks = (\<lambda>_. \<lparr>snk_stable_id = None, snk_api = None, snk_state = (), snk_owner = None\<rparr>),
           w_pipes = (\<lambda>_. \<lparr>pl_stable_id = Some ''ball'', pl_input_kind = SIGNAL_RAW_MOTION, pl_stages = [0, 1], pl_sink = 0,
             pl_dispatch_budget = 0, pl_validated = True, pl_active = True,
             pl_observer = \<lparr>obs_input = False, obs_input_done = False, obs_flush = False, obs_flush_done = False, obs_lifecycle = False\<rparr>\<rparr>),
           w_log = []\<rparr>)"

theorem capture_description_is_read_back_witness:
  "parseCaptureDescription (snd (zpt_capture_describe_pipeline described_world 0 3 77 200)) = Some \<lparr>hd_pipeline_id = 3,
     hd_stable_id = string_bytes (Some ''ball''), hd_settings_hash = 77, hd_stages =
      [\<lparr>hg_strategy = string_bytes (Some ''orthogonal-orientation''), hg_stable_id = string_bytes (Some ''turn''),
         hg_fixed = [(string_bytes (Some ''swap-xy''), 1), (string_bytes (Some ''invert-x''), 0), (string_bytes (Some ''invert-y''), 1)]\<rparr>,
       \<lparr>hg_strategy = string_bytes (Some ''axis-intent''), hg_stable_id = string_bytes (Some ''intent''),
         hg_fixed = [(string_bytes (Some ''policy''), - 1), (string_bytes (Some ''suppress-after-keypress-ms''), 250)]\<rparr>]\<rparr> \<and>
   fst (zpt_capture_describe_pipeline described_world 0 3 77 20) = - ENOSPC"
proof -
  have fit: "names_fit described_world 0" and int32: "settings_are_int32 described_world 0"
    by (simp add: names_fit_def, code_simp) (simp add: settings_are_int32_def, code_simp)
  have "fst (zpt_capture_describe_pipeline described_world 0 3 77 200) \<ge> 0" by code_simp
  moreover have "fst (zpt_capture_describe_pipeline described_world 0 3 77 20) < 0" by code_simp
  moreover have "map (stage_seen described_world 0) (pl_stages (w_pipes described_world 0)) =
      [\<lparr>hg_strategy = string_bytes (Some ''orthogonal-orientation''), hg_stable_id = string_bytes (Some ''turn''),
         hg_fixed = [(string_bytes (Some ''swap-xy''), 1), (string_bytes (Some ''invert-x''), 0), (string_bytes (Some ''invert-y''), 1)]\<rparr>,
       \<lparr>hg_strategy = string_bytes (Some ''axis-intent''), hg_stable_id = string_bytes (Some ''intent''),
         hg_fixed = [(string_bytes (Some ''policy''), - 1), (string_bytes (Some ''suppress-after-keypress-ms''), 250)]\<rparr>]"
    by code_simp
  moreover have "the (pl_stable_id (w_pipes described_world 0)) = ''ball''" by code_simp
  ultimately show ?thesis
    using capture_description_is_read_back [OF fit int32 surjective_pairing, of 3 77 200]
      capture_description_is_read_back [OF fit int32 surjective_pairing, of 3 77 20] by simp
qed

end
