(* ===== verification/Telemetry_Capture.thy ===== *)
theory Telemetry_Capture
  imports Capture_Describe Capture_Stream Telemetry_State
begin

text \<open>
  The capture part of the protocol worker (\<open>service/telemetry.c\<close>): which pipeline is recorded, the
  sink the taps submit to, and the drain that sends what the burst buffer holds.

  Records are submitted on the input thread and sent by the worker; the lock makes each submission
  and each bookkeeping step atomic, so what happens is a sequence of them. A batch of the drain
  takes the records submitted while it is built and sent as an argument.
\<close>

abbreviation (input) "ZPT_EVENT_CAPTURE \<equiv> (0x92 :: u8)"

text \<open>The entries are their taps; \<open>cv_uptime_us\<close> is the clock in microseconds.\<close>

record capture_service =
  cv_taps :: "zpt_capture_tap list"
  cv_max_pipelines :: nat
  cv_recording :: "nat option"
  cv_resync :: bool
  cv_hash :: u32
  cv_dropped :: u32
  cv_buffer :: zpt_capture_buffer
  cv_uptime_us :: nat

section \<open>The sink of the taps\<close>

definition zpt_capture_entry_recording :: "nat \<Rightarrow> capture_service \<Rightarrow> bool" where
  "zpt_capture_entry_recording i v \<longleftrightarrow> cv_recording v = Some i"

definition zpt_capture_count_drop :: "u32 \<Rightarrow> capture_service \<Rightarrow> capture_service" where
  "zpt_capture_count_drop records v = v\<lparr>cv_dropped := cv_dropped v + records, cv_resync := True\<rparr>"

definition zpt_capture_submit :: "capture_service \<Rightarrow> zpt_capture_record \<Rightarrow> capture_service" where
  "zpt_capture_submit v capture =
     (let (stored, b) = (if cv_recording v \<noteq> None then zpt_capture_buffer_put (cv_buffer v) capture
                         else (True, cv_buffer v));
          v = v\<lparr>cv_buffer := b\<rparr>
      in if \<not> stored then zpt_capture_count_drop 1 v else v)"

definition zpt_capture_sub_ms_us :: "capture_service \<Rightarrow> u32 \<Rightarrow> u16" where
  "zpt_capture_sub_ms_us v time_ms =
     (if (of_nat (cv_uptime_us v div 1000) :: u32) = time_ms then of_nat (cv_uptime_us v mod 1000) else 999)"

definition zpt_capture_take_resync :: "capture_service \<Rightarrow> bool \<times> capture_service" where
  "zpt_capture_take_resync v = (cv_resync v, v\<lparr>cv_resync := False\<rparr>)"

definition capture_sink :: "nat \<Rightarrow> capture_service zpt_capture_sink" where
  "capture_sink i = \<lparr>cs_recording = zpt_capture_entry_recording i, cs_submit = zpt_capture_submit,
     cs_sub_ms_us = zpt_capture_sub_ms_us, cs_take_resync = zpt_capture_take_resync, cs_settings_hash = cv_hash\<rparr>"

definition zpt_capture_register_pipeline :: "nat option \<Rightarrow> capture_service \<Rightarrow> 'k chain_world \<Rightarrow> int \<times> capture_service \<times> 'k chain_world" where
  "zpt_capture_register_pipeline pipeline v w =
     (case pipeline of
        None \<Rightarrow> (- EINVAL, v, w)
      | Some pid \<Rightarrow>
          if length (cv_taps v) \<ge> cv_max_pipelines v then (- ENOSPC, v, w)
          else let (tap, w) = zpt_capture_tap_attach pid w in (0, v\<lparr>cv_taps := cv_taps v @ [tap]\<rparr>, w))"

section \<open>The settings hash\<close>

text \<open>
  The value read for a parameter is 0 when reading fails. Tuning reads the values of the stages from
  the store \<open>tw\<close> of the registry's targets.
\<close>

definition zpt_capture_settings_hash :: "'w tuning_registry \<Rightarrow> 'w \<Rightarrow> 'k chain_world \<Rightarrow> nat \<Rightarrow> u32" where
  "zpt_capture_settings_hash reg tw w pid =
     fold (\<lambda>sid hash.
        fold (\<lambda>id hash.
           let target = the (zpt_tuning_target_get reg (of_nat id)) in
           if target_stable_id target \<noteq> Some (the (stg_stable_id (w_stages w sid))) then hash
           else fold (\<lambda>parameter hash.
                  zpt_capture_settings_hash_add hash (the (stg_stable_id (w_stages w sid))) (the (param_key parameter))
                    (case snd (zpt_tuning_get reg tw (of_nat id) (param_id parameter) False) of Some v \<Rightarrow> v | None \<Rightarrow> 0))
                (described_parameters target) hash)
          [0..<zpt_tuning_target_count reg] hash)
       (pl_stages (w_pipes w pid)) 0"

section \<open>Starting, changing, stopping\<close>

definition zpt_capture_settings_changed :: "'w tuning_registry \<Rightarrow> 'w \<Rightarrow> 'k chain_world \<Rightarrow> capture_service \<Rightarrow> capture_service" where
  "zpt_capture_settings_changed reg tw w v =
     (case cv_recording v of
        None \<Rightarrow> v
      | Some i \<Rightarrow>
          let v = v\<lparr>cv_hash := zpt_capture_settings_hash reg tw w (ct_pipeline (cv_taps v ! i))\<rparr>;
              v = zpt_capture_submit v (capture_record\<lparr>cr_kind := CAPTURE_RECORD_SETTINGS_CHANGED\<rparr>)
          in v\<lparr>cv_resync := True\<rparr>)"

definition zpt_capture_stop :: "capture_service \<Rightarrow> capture_service" where
  "zpt_capture_stop v = v\<lparr>cv_recording := None\<rparr>"

text \<open>What a start prepares before the tap's first records.\<close>

definition recording_started :: "nat \<Rightarrow> u32 \<Rightarrow> capture_service \<Rightarrow> capture_service" where
  "recording_started i hash v = v\<lparr>cv_buffer := zpt_capture_buffer_reset (cv_buffer v), cv_resync := False,
     cv_hash := hash, cv_recording := Some i\<rparr>"

definition zpt_capture_start_between_frames :: "'w tuning_registry \<Rightarrow> 'w \<Rightarrow> nat \<Rightarrow> capture_service \<times> 'k chain_world \<Rightarrow>
    capture_service \<times> 'k chain_world" where
  "zpt_capture_start_between_frames reg tw i = (\<lambda>(v, w).
     (let tap = cv_taps v ! i;
          v = recording_started i (zpt_capture_settings_hash reg tw w (ct_pipeline tap)) v;
          t = zpt_capture_tap_start (capture_sink i) \<lparr>tp_tap = tap, tp_sink = v, tp_guard = (), tp_world = w\<rparr>
      in ((tp_sink t)\<lparr>cv_taps := (cv_taps (tp_sink t))[i := tp_tap t]\<rparr>, tp_world t)))"

section \<open>The drain\<close>

text \<open>
  One turn of the loop of \<open>zpt_capture_drain\<close>: whether it goes on, and the state. \<open>during\<close> are the
  records submitted while the batch, built from a copy of the bookkeeping, is on its way.
\<close>

definition drain_batch :: "'l zpt_host_transport \<Rightarrow> bool \<Rightarrow> zpt_capture_record list \<Rightarrow> capture_service \<times> 'l \<Rightarrow>
    bool \<times> capture_service \<times> 'l" where
  "drain_batch link wait during = (\<lambda>(v, l).
     (let has_room = (case ht_has_room link of None \<Rightarrow> True | Some room \<Rightarrow> room l);
          (payload, taken) = zpt_capture_buffer_peek (cv_buffer v) CAPTURE_BATCH_MAX_PAYLOAD;
          v = fold (\<lambda>r v. zpt_capture_submit v r) during v
      in if \<not> wait \<and> \<not> has_room \<or> payload = [] then (False, v, l)
         else
           let (ret, l) = zpt_send_frame_on_link link (ZPT_EVENT_CAPTURE, payload) (\<not> wait) l
           in if ret < 0 then
                (False,
                 if wait then let (lost, b) = zpt_capture_buffer_discard (cv_buffer v)
                              in zpt_capture_count_drop lost (v\<lparr>cv_buffer := b\<rparr>)
                 else v, l)
              else (True, v\<lparr>cv_buffer := zpt_capture_buffer_consume (cv_buffer v) taken\<rparr>, l)))"

text \<open>The loop, with what is submitted before and during each turn; \<open>None\<close> if it never ends.\<close>

partial_function (option) zpt_capture_drain :: "'l zpt_host_transport \<Rightarrow> bool \<Rightarrow>
    (nat \<Rightarrow> zpt_capture_record list \<times> zpt_capture_record list) \<Rightarrow> capture_service \<times> 'l \<Rightarrow> (capture_service \<times> 'l) option" where
  "zpt_capture_drain link wait arrivals vl =
     (let (before, during) = arrivals 0;
          (again, vl) = drain_batch link wait during (fold (\<lambda>r v. zpt_capture_submit v r) before (fst vl), snd vl)
      in if again then zpt_capture_drain link wait (\<lambda>k. arrivals (Suc k)) vl else Some vl)"

declare zpt_capture_drain.simps [code]

text \<open>
  The drain of the worker: the queue of state samples, then what the capture buffer holds. \<open>clock\<close>
  are the readings while the queue is emptied and \<open>now\<close> the one after it.
\<close>

definition zpt_drain_records :: "'l zpt_host_transport \<Rightarrow> nat \<Rightarrow> (nat \<Rightarrow> u32) \<Rightarrow> u32 \<Rightarrow>
    (nat \<Rightarrow> zpt_capture_record list \<times> zpt_capture_record list) \<Rightarrow> state_telemetry \<times> capture_service \<times> 'l \<Rightarrow>
    (state_telemetry \<times> capture_service \<times> 'l) option" where
  "zpt_drain_records link host_timeout clock now arrivals = (\<lambda>(st, v, l).
     (let (outcome, st, l) = drain_state link host_timeout clock (length (record_queue st)) (st, l)
      in if outcome = HostGone then Some (st, v, l)
         else if cv_recording v \<noteq> None \<and> unat (now - last_contact st) > host_timeout
         then let v = zpt_capture_stop v
              in Some (st, v\<lparr>cv_buffer := snd (zpt_capture_buffer_discard (cv_buffer v))\<rparr>, l)
         else map_option (\<lambda>(v, l). (st, v, l)) (zpt_capture_drain link False arrivals (v, l))))"

section \<open>The requests\<close>

abbreviation (input) "ZPT_REQ_CAPTURE_CONTROL \<equiv> (0x10 :: u8)"
abbreviation (input) "ZPT_REQ_CAPTURE_DESCRIBE \<equiv> (0x11 :: u8)"
abbreviation (input) "ZPT_RESP_CAPTURE_STATUS \<equiv> (0x8c :: u8)"
abbreviation (input) "ZPT_RESP_CAPTURE_DESCRIPTION \<equiv> (0x8d :: u8)"
abbreviation (input) "ZPT_CAPTURE_SCHEMA_VERSION \<equiv> (2 :: u8)"
abbreviation (input) "ZPT_CAPTURE_NONE \<equiv> (255 :: u8)"
abbreviation (input) "ZPT_CAPTURE_LABEL_MAX_LENGTH \<equiv> (27 :: nat)"
abbreviation (input) "ZPT_CAPTURE_FLAG_REPLAYABLE \<equiv> (1 :: u8)"

definition capture_entry_bytes :: "'w tuning_registry \<Rightarrow> 'w \<Rightarrow> 'k chain_world \<Rightarrow> nat \<times> zpt_capture_tap \<Rightarrow> u8 list" where
  "capture_entry_bytes reg tw w = (\<lambda>(i, tap).
     (let pid = ct_pipeline tap; pipeline = w_pipes w pid;
          label = limited ZPT_CAPTURE_LABEL_MAX_LENGTH (pl_stable_id pipeline)
      in [of_nat i, if pl_active pipeline then 1 else 0, of_nat (length (pl_stages pipeline)),
           if ct_replayable tap then ZPT_CAPTURE_FLAG_REPLAYABLE else 0] @
         put_le32 (zpt_capture_settings_hash reg tw w pid) @ [of_nat (length label)] @ label))"

definition zpt_send_capture_status :: "'w tuning_registry \<Rightarrow> 'w \<Rightarrow> 'k chain_world \<Rightarrow> capture_service \<Rightarrow> frame" where
  "zpt_send_capture_status reg tw w v =
     (ZPT_RESP_CAPTURE_STATUS,
      [ZPT_CAPTURE_SCHEMA_VERSION, case cv_recording v of None \<Rightarrow> ZPT_CAPTURE_NONE | Some i \<Rightarrow> of_nat i] @
      put_le32 (cv_dropped v) @ put_le32 (cb_used (cv_buffer v)) @ put_le32 (cb_capacity (cv_buffer v)) @
      [of_nat (length (cv_taps v))] @ concat (map (capture_entry_bytes reg tw w) (enumerate 0 (cv_taps v))))"

text \<open>\<open>zpt_send_frame\<close>: a response is never droppable, and one that fails is only logged.\<close>

definition zpt_send_frame :: "'l zpt_host_transport \<Rightarrow> frame \<Rightarrow> 'l \<Rightarrow> 'l" where
  "zpt_send_frame link f l = snd (zpt_send_frame_on_link link f False l)"

text \<open>
  \<open>zpt_capture_between_frames\<close> of \<open>platform/zmk/input_capture.c\<close> with the codes that locking and
  unlocking the routers return.
\<close>

definition zpt_capture_between_frames :: "int \<Rightarrow> int \<Rightarrow> ('s \<Rightarrow> 's) \<Rightarrow> 's \<Rightarrow> int \<times> 's" where
  "zpt_capture_between_frames lock_all unlock_all fn s = (if lock_all < 0 then (lock_all, s) else (unlock_all, fn s))"

definition zpt_handle_capture_control :: "'l zpt_host_transport \<Rightarrow> nat \<Rightarrow> (nat \<Rightarrow> u32) \<Rightarrow> u32 \<Rightarrow>
    (nat \<Rightarrow> zpt_capture_record list \<times> zpt_capture_record list) \<Rightarrow> (nat \<Rightarrow> zpt_capture_record list \<times> zpt_capture_record list) \<Rightarrow>
    'w tuning_registry \<Rightarrow> 'w \<Rightarrow> int \<Rightarrow> int \<Rightarrow> u8 list \<Rightarrow> state_telemetry \<times> capture_service \<times> 'k chain_world \<times> 'l \<Rightarrow>
    (state_telemetry \<times> capture_service \<times> 'k chain_world \<times> 'l) option" where
  "zpt_handle_capture_control link host_timeout clock now arrivals arrivals' reg tw lock_all unlock_all payload = (\<lambda>(st, v, w, l).
     (if length payload \<noteq> 1 then Some (st, v, w, zpt_send_frame link (zpt_send_capture_status reg tw w v) l)
      else
        case zpt_drain_records link host_timeout clock now arrivals (st, zpt_capture_stop v, l) of None \<Rightarrow> None
        | Some (st, v, l) \<Rightarrow>
            (case zpt_capture_drain link True arrivals' (v, l) of None \<Rightarrow> None
             | Some (v, l) \<Rightarrow>
                 let (v, w) =
                   (if unat (payload ! 0) < length (cv_taps v) then
                      let (ret, v, w) = zpt_capture_between_frames lock_all unlock_all
                            (zpt_capture_start_between_frames reg tw (unat (payload ! 0))) (v, w)
                      in (if ret < 0 then zpt_capture_stop v else v, w)
                    else (v, w))
                 in Some (st, v, w, zpt_send_frame link (zpt_send_capture_status reg tw w v) l))))"

definition zpt_send_capture_description :: "'w tuning_registry \<Rightarrow> 'w \<Rightarrow> 'k chain_world \<Rightarrow> capture_service \<Rightarrow> u8 list \<Rightarrow> nat \<Rightarrow> frame" where
  "zpt_send_capture_description reg tw w v payload capacity =
     (if length payload \<noteq> 1 \<or> unat (payload ! 0) \<ge> length (cv_taps v)
      then zpt_send_tuning_result ZPT_REQ_CAPTURE_DESCRIBE (- ENODEV) (if length payload = 1 then payload ! 0 else 255) 255 0
      else
        let pid = ct_pipeline (cv_taps v ! unat (payload ! 0));
            (ret, out) = zpt_capture_describe_pipeline w pid (payload ! 0) (zpt_capture_settings_hash reg tw w pid) capacity
        in if ret < 0 then zpt_send_tuning_result ZPT_REQ_CAPTURE_DESCRIBE ret (payload ! 0) 255 0
           else (ZPT_RESP_CAPTURE_DESCRIPTION, out))"

text \<open>\<open>parseCaptureStatus\<close> of the host.\<close>

record host_pipeline =
  hp_id :: u8
  hp_active :: bool
  hp_stage_count :: u8
  hp_replayable :: bool
  hp_settings_hash :: u32
  hp_label :: "u8 list"

record host_capture_status =
  hc_recording :: "u8 option"
  hc_dropped :: u32
  hc_buffer_used :: u32
  hc_buffer_size :: u32
  hc_pipelines :: "host_pipeline list"

fun read_pipelines :: "nat \<Rightarrow> u8 list \<Rightarrow> host_pipeline list option" where
  "read_pipelines 0 bytes = Some []"
| "read_pipelines (Suc n) bytes =
     (if length bytes < 9 then None
      else
        let label_length = unat (bytes ! 8); rest = drop 9 bytes in
        if length rest < label_length then None
        else map_option (Cons \<lparr>hp_id = bytes ! 0, hp_active = bytes ! 1 \<noteq> 0, hp_stage_count = bytes ! 2,
            hp_replayable = bytes ! 3 AND ZPT_CAPTURE_FLAG_REPLAYABLE \<noteq> 0, hp_settings_hash = get_le32 (drop 4 bytes),
            hp_label = take label_length rest\<rparr>)
          (read_pipelines n (drop label_length rest)))"

definition parseCaptureStatus :: "u8 list \<Rightarrow> host_capture_status option" where
  "parseCaptureStatus payload =
     (if length payload < 15 \<or> payload ! 0 \<noteq> ZPT_CAPTURE_SCHEMA_VERSION then None
      else map_option (\<lambda>pipelines. \<lparr>hc_recording = (if payload ! 1 = ZPT_CAPTURE_NONE then None else Some (payload ! 1)),
          hc_dropped = get_le32 (drop 2 payload), hc_buffer_used = get_le32 (drop 6 payload),
          hc_buffer_size = get_le32 (drop 10 payload), hc_pipelines = pipelines\<rparr>)
        (read_pipelines (unat (payload ! 14)) (drop 15 payload)))"

section \<open>Every record is delivered or counted\<close>

text \<open>
  The host's side of a recording: the capture batches among the frames it decoded, through
  \<open>parseCaptureBatch\<close> with the decoder of the recording.
\<close>

fun host_capture :: "frame list \<Rightarrow> capture_decoder \<Rightarrow> ((u32 \<times> host_record) list \<times> capture_decoder) option" where
  "host_capture [] d = Some ([], d)"
| "host_capture (f # fs) d =
     (if fst f \<noteq> ZPT_EVENT_CAPTURE then host_capture fs d
      else case parseCaptureBatch (snd f) d of None \<Rightarrow> None
        | Some (records, d) \<Rightarrow>
            (case host_capture fs d of None \<Rightarrow> None | Some (later, d) \<Rightarrow> Some (records @ later, d)))"

lemma host_capture_append:
  "host_capture (fs @ gs) d = (case host_capture fs d of None \<Rightarrow> None | Some (records, d) \<Rightarrow>
     (case host_capture gs d of None \<Rightarrow> None | Some (later, d) \<Rightarrow> Some (records @ later, d)))"
  by (induction fs arbitrary: d) (auto split: option.splits)

text \<open>The records submitted, as the host sees each, with the number of its place.\<close>

definition numbered_submissions :: "zpt_capture_record list \<Rightarrow> (u32 \<times> host_record) list" where
  "numbered_submissions rs = map (\<lambda>(i, r). (of_nat i, Capture_Stream.host_view r)) (enumerate 0 rs)"

lemma numbered_submissions_snoc:
  "numbered_submissions (rs @ [r]) = numbered_submissions rs @ [(of_nat (length rs), Capture_Stream.host_view r)]"
  by (simp add: numbered_submissions_def enumerate_append_eq)

lemma length_numbered_submissions [simp]: "length (numbered_submissions rs) = length rs"
  by (simp add: numbered_submissions_def)

text \<open>
  The service during a recording, with what the host has read from the batches sent: \<open>c\<close> is the
  drop counter at the start, \<open>rs\<close> the records submitted.
\<close>

definition recording_inv :: "u32 \<Rightarrow> zpt_capture_record list \<Rightarrow> capture_service \<Rightarrow> capture_link \<Rightarrow> frame list \<Rightarrow> bool" where
  "recording_inv c rs v link sent \<longleftrightarrow> cl_buffer link = cv_buffer v \<and> (\<exists>es. link_ok link es) \<and>
     host_capture sent captureDecoder = Some (cl_received link, cl_host link) \<and>
     list_all (\<lambda>f. length (snd f) < 65536) sent \<and>
     cb_next_sequence (cv_buffer v) = of_nat (length rs) \<and> subseq (cl_log link) (numbered_submissions rs) \<and>
     cv_dropped v = c + of_nat (length rs - length (cl_log link))"

definition while_recording :: "capture_service \<Rightarrow> zpt_capture_record list \<Rightarrow> zpt_capture_record list" where
  "while_recording v rs = (if cv_recording v = None then [] else rs)"

lemma submit_stopped: "cv_recording v = None \<Longrightarrow> zpt_capture_submit v r = v"
  by (simp add: zpt_capture_submit_def)

lemma submits_stopped [simp]: "cv_recording v = None \<Longrightarrow> fold (\<lambda>r v. zpt_capture_submit v r) rs v = v"
  by (induction rs) (simp_all add: submit_stopped)

lemma submit_recording [simp]: "cv_recording (zpt_capture_submit v r) = cv_recording v"
  by (simp add: zpt_capture_submit_def zpt_capture_count_drop_def Let_def split: prod.splits)

lemma submits_recording [simp]: "cv_recording (fold (\<lambda>r v. zpt_capture_submit v r) rs v) = cv_recording v"
  by (induction rs arbitrary: v) simp_all

lemma put_sequence: "cb_next_sequence (snd (zpt_capture_buffer_put b r)) = cb_next_sequence b + 1"
  by (cases "zpt_capture_buffer_put b r") (auto simp: zpt_capture_buffer_put_def Let_def split: if_splits)

lemma record_one_kept [simp]: "cl_host (record_one r link) = cl_host link" "cl_received (record_one r link) = cl_received link"
  by (simp_all add: record_one_def split: prod.splits)

lemma records_kept [simp]: "cl_host (fold record_one rs link) = cl_host link" "cl_received (fold record_one rs link) = cl_received link"
  by (induction rs arbitrary: link) simp_all

lemma submit_inv:
  assumes "recording_inv c rs v link sent" "capture_record_ok r" "cv_recording v \<noteq> None"
  shows "recording_inv c (rs @ [r]) (zpt_capture_submit v r) (record_one r link) sent"
proof -
  obtain es where es: "link_ok link es" using assms(1) by (auto simp: recording_inv_def)
  then have ok: "\<exists>es. link_ok (record_one r link) es" using record_one_ok assms(2) by metis
  obtain stored b where put: "zpt_capture_buffer_put (cv_buffer v) r = (stored, b)" by fastforce
  then have next_sequence: "cb_next_sequence b = cb_next_sequence (cv_buffer v) + 1" using put_sequence [of "cv_buffer v" r] by simp
  have inv: "cl_buffer link = cv_buffer v" "host_capture sent captureDecoder = Some (cl_received link, cl_host link)"
    "list_all (\<lambda>f. length (snd f) < 65536) sent" "cb_next_sequence (cv_buffer v) = of_nat (length rs)"
    "subseq (cl_log link) (numbered_submissions rs)" "cv_dropped v = c + of_nat (length rs - length (cl_log link))"
    using assms(1) by (simp_all add: recording_inv_def)
  have len: "length (cl_log link) \<le> length rs" using list_emb_length [OF inv(5)] by simp
  have service: "cv_buffer (zpt_capture_submit v r) = b" "cv_dropped (zpt_capture_submit v r) = cv_dropped v + (if stored then 0 else 1)"
    using assms(3) by (auto simp: zpt_capture_submit_def put zpt_capture_count_drop_def Let_def)
  have link: "cl_buffer (record_one r link) = b"
    "cl_log (record_one r link) = cl_log link @ (if stored then [(of_nat (length rs), Capture_Stream.host_view r)] else [])"
    by (simp_all add: record_one_def inv(1,4) put)
  have "subseq (cl_log (record_one r link)) (numbered_submissions (rs @ [r]))"
    using inv(5) by (simp add: link(2) numbered_submissions_snoc list_emb_prefix)
  then show ?thesis
    using inv len ok by (simp add: recording_inv_def service link(1) next_sequence) (simp add: link(2) Suc_diff_le)
qed

lemma submits_inv:
  assumes "recording_inv c rs v link sent" "\<forall>r \<in> set (while_recording v new). capture_record_ok r"
  shows "recording_inv c (rs @ while_recording v new) (fold (\<lambda>r v. zpt_capture_submit v r) new v)
    (fold record_one (while_recording v new) link) sent"
proof (cases "cv_recording v")
  case None
  then show ?thesis using assms(1) by (simp add: while_recording_def)
next
  case (Some i)
  then have "\<forall>r \<in> set new. capture_record_ok r" using assms(2) by (simp add: while_recording_def)
  with Some have "\<forall>rs v link. recording_inv c rs v link sent \<longrightarrow> cv_recording v = Some i \<longrightarrow>
      recording_inv c (rs @ new) (fold (\<lambda>r v. zpt_capture_submit v r) new v) (fold record_one new link) sent"
  proof (induction new)
    case (Cons r new)
    show ?case
    proof (intro allI impI)
      fix rs v link assume "recording_inv c rs v link sent" "cv_recording v = Some i"
      then have "recording_inv c (rs @ [r]) (zpt_capture_submit v r) (record_one r link) sent"
        using submit_inv Cons.prems(2) by simp
      with Cons \<open>cv_recording v = Some i\<close> show "recording_inv c (rs @ r # new) (fold (\<lambda>r v. zpt_capture_submit v r) (r # new) v)
          (fold record_one (r # new) link) sent" by fastforce
    qed
  qed simp
  then show ?thesis using assms(1) Some by (simp add: while_recording_def)
qed

lemma submits_taps [simp]: "cv_taps (fold (\<lambda>r v. zpt_capture_submit v r) rs v) = cv_taps v"
proof (induction rs arbitrary: v)
  case (Cons r rs)
  have "cv_taps (zpt_capture_submit v r) = cv_taps v"
    by (simp add: zpt_capture_submit_def zpt_capture_count_drop_def Let_def split: prod.splits)
  with Cons show ?case by simp
qed simp

lemma drain_batch_taps:
  assumes "drain_batch link wait during (v, l) = (again, v', l')"
  shows "cv_taps v' = cv_taps v"
  using assms
  by (auto simp: drain_batch_def zpt_capture_count_drop_def Let_def split: prod.splits if_splits)

text \<open>A batch fits its payload, and one that is not empty takes bytes from the buffer.\<close>

lemma peek_loop_bounds:
  "peek_loop b capacity at_byte first n out = (o', s', c', out') \<Longrightarrow> n \<le> 255 \<Longrightarrow> 5 + length out \<le> capacity \<Longrightarrow>
    c' \<le> 255 \<and> 5 + length out' \<le> capacity"
proof (induction b capacity at_byte first n out rule: peek_loop.induct)
  case (1 b capacity at_byte first n out)
  define available where "available = min (unat (cb_used b) - at_byte) CAPTURE_RECORD_MAX_SIZE"
  define bytes where "bytes = ring_read b at_byte available @ replicate (CAPTURE_RECORD_MAX_SIZE - available) 0"
  note step = peek_loop.simps [of b capacity at_byte first n out]
  show ?case
  proof (cases "at_byte < unat (cb_used b) \<and> n < 255")
    case False
    then show ?thesis using 1(3-5) unfolding step if_not_P [OF False] by simp
  next
    case True
    note IH = 1(1) [OF True available_def bytes_def refl] 1(2) [OF True available_def bytes_def refl]
    have len: "length (take k bytes) \<le> k" for k by simp
    show ?thesis
      using 1(3-5) True IH len [of "stored_length bytes available"]
      by (auto simp: step simp flip: available_def bytes_def simp: Let_def split: if_splits)
  qed
qed

lemma peek_batch:
  assumes "link_inv b d es" "zpt_capture_buffer_peek b CAPTURE_BATCH_MAX_PAYLOAD = (payload, t)" "payload \<noteq> []"
  shows "length payload \<le> CAPTURE_BATCH_MAX_PAYLOAD" "0 < unat (take_bytes t)" "unat (take_bytes t) \<le> unat (cb_used b)"
    "parseCaptureBatch payload d \<noteq> None"
proof -
  obtain o' s' c' out' where loop: "peek_loop b CAPTURE_BATCH_MAX_PAYLOAD 0 (cb_out_sequence b) 0 [] = (o', s', c', out')"
    by (metis prod_cases4)
  then have bounds: "c' \<le> 255" "5 + length out' \<le> CAPTURE_BATCH_MAX_PAYLOAD" using peek_loop_bounds [OF loop] by simp_all
  have payload: "c' \<noteq> 0" "payload = put_le32 s' @ [of_nat c'] @ out'" "take_records t = of_nat c'"
    using assms(2,3) loop by (auto simp: zpt_capture_buffer_peek_def split: if_splits)
  show "length payload \<le> CAPTURE_BATCH_MAX_PAYLOAD" using bounds(2) payload(2) by simp
  obtain base where base: "content b = entries_bytes es" "entries_ok base es" using assms(1) by (auto simp: link_inv_def)
  have cap: "30 \<le> CAPTURE_BATCH_MAX_PAYLOAD" by simp
  from peek_and_parse [OF assms(1) cap assms(2)] obtain taken left where
    t: "es = taken @ left" "unat (take_bytes t) = length (entries_bytes taken)" "take_records t = of_nat (length (kept taken))"
    and parsed: "parseCaptureBatch payload d \<noteq> None"
    using assms(3) by (metis option.distinct(1))
  show "parseCaptureBatch payload d \<noteq> None" by (rule parsed)
  have "kept taken \<noteq> []"
  proof
    assume "kept taken = []"
    then have "(of_nat c' :: u32) = 0" using t(3) payload(3) by simp
    moreover have "unat (of_nat c' :: u32) = c'" using bounds(1) by (simp add: unat_of_nat)
    ultimately show False using payload(1) by simp
  qed
  then obtain e es' where e: "taken = e # es'" by (cases taken) auto
  have "entry_bytes e \<noteq> []"
    using base(2) encoding_bytes(2) unfolding t(1) e by (cases e) auto
  then show "0 < unat (take_bytes t)" unfolding t(2) e by simp
  show "unat (take_bytes t) \<le> unat (cb_used b)"
    using base(1) unfolding t(1) by (simp add: t(2) flip: length_content)
qed

lemma discard_inv:
  assumes "recording_inv c rs v link sent" "zpt_capture_buffer_discard (cv_buffer v) = (lost, b)"
  shows "recording_inv c rs (zpt_capture_count_drop lost (v\<lparr>cv_buffer := b\<rparr>))
    (link\<lparr>cl_buffer := b, cl_log := cl_received link\<rparr>) sent"
proof -
  obtain es where es: "link_ok link es" using assms(1) by (auto simp: recording_inv_def)
  have inv: "cl_buffer link = cv_buffer v" "subseq (cl_log link) (numbered_submissions rs)"
    "cv_dropped v = c + of_nat (length rs - length (cl_log link))" "cb_next_sequence (cv_buffer v) = of_nat (length rs)"
    using assms(1) by (simp_all add: recording_inv_def)
  have b: "b = snd (zpt_capture_buffer_discard (cl_buffer link))" using assms(2) inv(1) by simp
  have ok: "\<exists>es. link_ok (link\<lparr>cl_buffer := b, cl_log := cl_received link\<rparr>) es"
    using capture_step_ok [OF es, of GivenUp] b by simp
  have log: "cl_log link = cl_received link @ numbered (cb_out_sequence (cl_buffer link)) es"
    and lost: "lost = of_nat (length (kept es))"
    using es assms(2) inv(1) by (auto simp: link_ok_def link_inv_def zpt_capture_buffer_discard_def)
  have received: "subseq (cl_received link) (numbered_submissions rs)"
    using inv(2) unfolding log by (rule subseq_order.order_trans [OF list_emb_prefix [OF subseq_order.order_refl]])
  have "length (cl_log link) \<le> length rs" using list_emb_length [OF inv(2)] by simp
  then have count: "length rs - length (cl_received link) = (length rs - length (cl_log link)) + length (kept es)"
    by (simp add: log)
  have "cb_next_sequence b = cb_next_sequence (cv_buffer v)" using assms(2) by (auto simp: zpt_capture_buffer_discard_def)
  then show ?thesis
    using assms(1) ok received count by (simp add: recording_inv_def zpt_capture_count_drop_def lost)
qed

lemma deliver_inv:
  assumes "recording_inv c rs v link sent" "\<forall>r \<in> set (while_recording v during). capture_record_ok r"
    and "zpt_capture_buffer_peek (cv_buffer v) CAPTURE_BATCH_MAX_PAYLOAD = (payload, t)" "payload \<noteq> []"
    and "v' = fold (\<lambda>r v. zpt_capture_submit v r) during v"
  shows "\<exists>link'. recording_inv c (rs @ while_recording v during) (v'\<lparr>cv_buffer := zpt_capture_buffer_consume (cv_buffer v') t\<rparr>)
    link' (sent @ [(ZPT_EVENT_CAPTURE, payload)])"
proof -
  let ?during = "while_recording v during"
  define link1 where "link1 = fold record_one ?during link"
  obtain es where es: "link_ok link es" and buffer: "cl_buffer link = cv_buffer v" using assms(1) by (auto simp: recording_inv_def)
  have inv: "recording_inv c (rs @ ?during) v' link1 sent" using submits_inv [OF assms(1,2)] by (simp add: assms(5) link1_def)
  have peek: "zpt_capture_buffer_peek (cl_buffer link) CAPTURE_BATCH_MAX_PAYLOAD = (payload, t)" using assms(3) buffer by simp
  have "step_records_ok (Delivered ?during)" using assms(2) by (simp add: while_recording_def)
  then obtain link' es' where step: "capture_step (Delivered ?during) link = Some link'" "link_ok link' es'"
    using capture_step_ok [OF es] by blast
  then obtain records d where parse: "parseCaptureBatch payload (cl_host link) = Some (records, d)"
    using peek assms(4) by (auto simp: Let_def split: option.splits)
  then have link': "link' = link1\<lparr>cl_buffer := zpt_capture_buffer_consume (cl_buffer link1) t, cl_host := d,
      cl_received := cl_received link1 @ records\<rparr>"
    using step(1) peek assms(4) by (simp add: link1_def Let_def)
  have host: "host_capture (sent @ [(ZPT_EVENT_CAPTURE, payload)]) captureDecoder = Some (cl_received link', cl_host link')"
    using inv parse by (simp add: recording_inv_def host_capture_append link' link1_def)
  have short: "length payload < 65536"
    using peek_batch(1) [OF _ assms(3,4)] es buffer by (fastforce simp: link_ok_def)
  have "cb_next_sequence (zpt_capture_buffer_consume b t) = cb_next_sequence b" for b
    by (simp add: zpt_capture_buffer_consume_def)
  then have "recording_inv c (rs @ ?during) (v'\<lparr>cv_buffer := zpt_capture_buffer_consume (cv_buffer v') t\<rparr>) link'
      (sent @ [(ZPT_EVENT_CAPTURE, payload)])"
    using inv step(2) host short by (auto simp: recording_inv_def link')
  then show ?thesis by blast
qed

subsection \<open>Over a link that keeps its promises\<close>

context host_link
begin

text \<open>\<open>fs\<close> are the frames the host had received when the recording began.\<close>

definition recorded_on :: "u32 \<Rightarrow> frame list \<Rightarrow> zpt_capture_record list \<Rightarrow> capture_service \<times> 'l \<Rightarrow> bool" where
  "recorded_on c fs rs = (\<lambda>(v, l). usable l \<and> (\<exists>cl sent. recording_inv c rs v cl sent \<and>
     (\<not> cut l \<longrightarrow> received l = concat (map encode_frame (fs @ sent)))))"

lemma drain_batch_keeps:
  assumes "recorded_on c fs rs (v, l)" "\<forall>r \<in> set (while_recording v during). capture_record_ok r"
    and "drain_batch link wait during (v, l) = (again, v', l')"
  shows "recorded_on c fs (rs @ while_recording v during) (v', l') \<and> cv_recording v' = cv_recording v"
proof -
  obtain cl sent where inv: "usable l" "recording_inv c rs v cl sent" "\<not> cut l \<longrightarrow> received l = concat (map encode_frame (fs @ sent))"
    using assms(1) by (auto simp: recorded_on_def)
  define v1 where "v1 = fold (\<lambda>r v. zpt_capture_submit v r) during v"
  have inv1: "recording_inv c (rs @ while_recording v during) v1 (fold record_one (while_recording v during) cl) sent"
    and rec: "cv_recording v1 = cv_recording v"
    using submits_inv [OF inv(2) assms(2)] by (simp_all add: v1_def)
  obtain payload t where peek: "zpt_capture_buffer_peek (cv_buffer v) CAPTURE_BATCH_MAX_PAYLOAD = (payload, t)" by fastforce
  obtain ret l1 where send: "zpt_send_frame_on_link link (ZPT_EVENT_CAPTURE, payload) (\<not> wait) l = (ret, l1)" by fastforce
  obtain lost b where discard: "zpt_capture_buffer_discard (cv_buffer v1) = (lost, b)" by fastforce
  note run = assms(3) [unfolded drain_batch_def, simplified, folded v1_def]
  note sent1 = send [unfolded zpt_send_frame_on_link_def]
  have l1: "usable l1" "cut l \<longrightarrow> cut l1" using usable_stays [OF sent1 inv(1)] cut_stays [OF sent1 inv(1)] by auto
  have refused1: "\<not> cut l1 \<longrightarrow> received l1 = concat (map encode_frame (fs @ sent))" if "ret < 0"
    using refused [OF sent1 inv(1) that] inv(3) l1(2) by auto
  have accepted1: "\<not> cut l1 \<longrightarrow> received l1 = concat (map encode_frame (fs @ sent @ [(ZPT_EVENT_CAPTURE, payload)]))" if "0 \<le> ret"
    using accepted [OF sent1 inv(1) that] inv(3) l1(2) by (auto simp: encode_frame_def)
  consider (idle) "again = False" "v' = v1" "l' = l"
    | (kept) "ret < 0" "v' = v1" "l' = l1"
    | (lost) "ret < 0" "v' = zpt_capture_count_drop lost (v1\<lparr>cv_buffer := b\<rparr>)" "l' = l1"
    | (sent) "0 \<le> ret" "payload \<noteq> []" "v' = v1\<lparr>cv_buffer := zpt_capture_buffer_consume (cv_buffer v1) t\<rparr>" "l' = l1"
    using run peek send discard by (auto simp: Let_def split: if_splits)
  then show ?thesis
  proof cases
    case idle
    then show ?thesis using inv inv1 rec unfolding recorded_on_def by auto
  next
    case kept
    then show ?thesis using inv1 rec l1 refused1 unfolding recorded_on_def by auto
  next
    case lost
    then show ?thesis using discard_inv [OF inv1 discard] rec l1 refused1
      unfolding recorded_on_def by (auto simp: zpt_capture_count_drop_def)
  next
    case sent
    from deliver_inv [OF inv(2) assms(2) peek sent(2) v1_def] obtain link' where
      "recording_inv c (rs @ while_recording v during) v' link' (sent @ [(ZPT_EVENT_CAPTURE, payload)])" using sent(3) by blast
    moreover have "\<not> cut l' \<longrightarrow> received l' = concat (map encode_frame (fs @ sent @ [(ZPT_EVENT_CAPTURE, payload)]))"
      using accepted1 sent(1,4) by blast
    ultimately show ?thesis using sent(3,4) rec l1(1) unfolding recorded_on_def case_prod_conv by fastforce
  qed
qed

lemma drain_batch_progress:
  assumes "recorded_on c fs rs (v, l)" "cv_recording v = None"
    and "drain_batch link wait during (v, l) = (again, v', l')"
  shows "if again then unat (cb_used (cv_buffer v')) < unat (cb_used (cv_buffer v)) else wait \<longrightarrow> cb_used (cv_buffer v') = 0"
proof -
  obtain payload t where peek: "zpt_capture_buffer_peek (cv_buffer v) CAPTURE_BATCH_MAX_PAYLOAD = (payload, t)" by fastforce
  obtain d es where inv: "link_inv (cv_buffer v) d es"
    using assms(1) by (fastforce simp: recorded_on_def recording_inv_def link_ok_def)
  have empty: "cb_used (cv_buffer v) = 0" if "payload = []"
  proof -
    have cap: "30 \<le> CAPTURE_BATCH_MAX_PAYLOAD" by simp
    have "es = []" using peek_and_parse [OF inv cap peek] that by metis
    then have "length (content (cv_buffer v)) = 0" using inv by (simp add: link_inv_def del: length_content)
    then show ?thesis by (simp add: unat_eq_0)
  qed
  have "unat (cb_used (cv_buffer v) - take_bytes t) < unat (cb_used (cv_buffer v))" if "payload \<noteq> []"
    using peek_batch(2,3) [OF inv peek that] by (subst unat_minus) simp_all
  then show ?thesis
    using assms(2,3) peek empty
    by (auto simp: drain_batch_def zpt_capture_buffer_discard_def zpt_capture_count_drop_def zpt_capture_buffer_consume_def
        Let_def split: if_splits prod.splits)
qed

lemma stopped_drain_ends:
  assumes "recorded_on c fs rs (v, l)" "cv_recording v = None"
  shows "\<exists>v' l'. zpt_capture_drain link wait arrivals (v, l) = Some (v', l') \<and> recorded_on c fs rs (v', l') \<and>
    (wait \<longrightarrow> cb_used (cv_buffer v') = 0) \<and> cv_recording v' = None \<and> cv_taps v' = cv_taps v"
  using assms
proof (induction "unat (cb_used (cv_buffer v))" arbitrary: v l arrivals rule: less_induct)
  case less
  obtain before during where first: "arrivals 0 = (before, during)" by fastforce
  obtain again v1 l1 where batch: "drain_batch link wait during (v, l) = (again, v1, l1)" by (metis prod_cases3)
  have during: "\<forall>r \<in> set (while_recording v during). capture_record_ok r" using less.prems(2) by (simp add: while_recording_def)
  have keeps: "recorded_on c fs rs (v1, l1)" "cv_recording v1 = None"
    using drain_batch_keeps [OF less.prems(1) during batch] less.prems(2) by (simp_all add: while_recording_def)
  have taps: "cv_taps v1 = cv_taps v" using drain_batch_taps [OF batch] .
  have step: "zpt_capture_drain link wait arrivals (v, l) =
      (if again then zpt_capture_drain link wait (\<lambda>k. arrivals (Suc k)) (v1, l1) else Some (v1, l1))"
    using less.prems(2) by (subst zpt_capture_drain.simps) (simp add: first batch)
  show ?case
  proof (cases again)
    case True
    then have "unat (cb_used (cv_buffer v1)) < unat (cb_used (cv_buffer v))"
      using drain_batch_progress [OF less.prems(1,2) batch] by simp
    from less.hyps [OF this keeps] step True taps show ?thesis by auto
  next
    case False
    then show ?thesis using drain_batch_progress [OF less.prems(1,2) batch] keeps step taps by simp
  qed
qed

end

subsection \<open>A recording and its end\<close>

datatype worker_event = Submitted zpt_capture_record | Drained "zpt_capture_record list"

fun submissions :: "worker_event list \<Rightarrow> zpt_capture_record list" where
  "submissions [] = []"
| "submissions (Submitted r # es) = r # submissions es"
| "submissions (Drained during # es) = during @ submissions es"

text \<open>The turns of any number of drains, each with what is submitted meanwhile.\<close>

fun service_run :: "'l zpt_host_transport \<Rightarrow> worker_event list \<Rightarrow> capture_service \<times> 'l \<Rightarrow> capture_service \<times> 'l" where
  "service_run link [] vl = vl"
| "service_run link (Submitted r # es) vl = service_run link es (zpt_capture_submit (fst vl) r, snd vl)"
| "service_run link (Drained during # es) vl = service_run link es (snd (drain_batch link False during vl))"

definition ring_storage_ok :: "zpt_capture_buffer \<Rightarrow> bool" where
  "ring_storage_ok b \<longleftrightarrow> length (cb_data b) = unat (cb_capacity b) \<and> 0 < cb_capacity b \<and> unat (cb_capacity b) < 2147483648"

lemma started_inv:
  assumes "ring_storage_ok (cv_buffer v)"
  shows "recording_inv (cv_dropped v) [] (recording_started i hash v)
    (new_link (cb_data (cv_buffer v)) (cb_capacity (cv_buffer v))) []"
proof -
  have "link_ok (new_link (cb_data (cv_buffer v)) (cb_capacity (cv_buffer v))) []"
    using assms by (auto simp: ring_storage_ok_def link_ok_def link_inv_def new_link_def zpt_capture_buffer_init_def
        captureDecoder_def ring_ok_def content_def word_gt_0 unat_gt_0)
  then show ?thesis
    by (auto simp: recording_inv_def new_link_def recording_started_def zpt_capture_buffer_reset_def
        zpt_capture_buffer_init_def numbered_submissions_def)
qed

context host_link
begin

lemma service_run_keeps:
  assumes "recorded_on c fs rs (v, l)" "cv_recording v \<noteq> None" "\<forall>r \<in> set (submissions events). capture_record_ok r"
    and "service_run link events (v, l) = (v', l')"
  shows "recorded_on c fs (rs @ submissions events) (v', l')"
  using assms
proof (induction events arbitrary: rs v l rule: submissions.induct)
  case (2 r es)
  have "recorded_on c fs (rs @ [r]) (zpt_capture_submit v r, l)"
    using "2.prems"(1-3) submit_inv by (fastforce simp: recorded_on_def)
  from "2.IH" [OF this] "2.prems"(2-4) show ?case by simp
next
  case (3 during es)
  obtain again v1 l1 where batch: "drain_batch link False during (v, l) = (again, v1, l1)" by (metis prod_cases3)
  have during: "while_recording v during = during" using "3.prems"(2) by (auto simp: while_recording_def)
  have "recorded_on c fs (rs @ during) (v1, l1) \<and> cv_recording v1 = cv_recording v"
    using drain_batch_keeps [OF "3.prems"(1) _ batch] "3.prems"(3) by (simp add: during)
  with "3.IH" [of "rs @ during" v1 l1] "3.prems"(2-4) batch show ?case by simp
qed simp

lemma emptied_recording:
  assumes "recorded_on c fs rs (v, l)" "cb_used (cv_buffer v) = 0" "list_all (\<lambda>f. length (snd f) < 65536) fs" "\<not> cut l"
  shows "\<exists>sent records d. decode_frames (received l) = (fs @ sent, []) \<and> host_capture sent captureDecoder = Some (records, d) \<and>
    subseq records (numbered_submissions rs) \<and> cv_dropped v = c + of_nat (length rs - length records)"
proof -
  obtain cl sent es where inv: "recording_inv c rs v cl sent" "link_ok cl es" "received l = concat (map encode_frame (fs @ sent))"
    using assms(1,4) by (auto simp: recorded_on_def recording_inv_def)
  obtain base where "content (cl_buffer cl) = entries_bytes es" "entries_ok base es"
    using inv(2) by (auto simp: link_ok_def link_inv_def)
  moreover have "length (content (cl_buffer cl)) = 0" using inv(1) assms(2) by (simp add: recording_inv_def)
  ultimately have "kept es = []" using entries_fit by (metis le_zero_eq length_0_conv)
  then have "cl_log cl = cl_received cl" using inv(2) by (simp add: link_ok_def)
  moreover have "decode_frames (received l) = (fs @ sent, [])"
    unfolding inv(3) by (rule decode_frame_list) (use assms(3) inv(1) in \<open>auto simp: recording_inv_def list_all_iff\<close>)
  ultimately show ?thesis using inv(1) by (auto simp: recording_inv_def)
qed

end

subsection \<open>The answer to a request\<close>

definition pipeline_seen :: "'w tuning_registry \<Rightarrow> 'w \<Rightarrow> 'k chain_world \<Rightarrow> nat \<times> zpt_capture_tap \<Rightarrow> host_pipeline" where
  "pipeline_seen reg tw w = (\<lambda>(i, tap).
     (let pid = ct_pipeline tap; pipeline = w_pipes w pid
      in \<lparr>hp_id = of_nat i, hp_active = pl_active pipeline, hp_stage_count = of_nat (length (pl_stages pipeline)),
           hp_replayable = ct_replayable tap, hp_settings_hash = zpt_capture_settings_hash reg tw w pid,
           hp_label = limited ZPT_CAPTURE_LABEL_MAX_LENGTH (pl_stable_id pipeline)\<rparr>))"

lemma read_pipelines_entries:
  "read_pipelines (length taps) (concat (map (capture_entry_bytes reg tw w) taps)) = Some (map (pipeline_seen reg tw w) taps)"
proof (induction taps)
  case (Cons tap taps)
  have "unat (of_nat (length (limited ZPT_CAPTURE_LABEL_MAX_LENGTH s)) :: u8) = length (limited ZPT_CAPTURE_LABEL_MAX_LENGTH s)" for s
    using length_limited [of ZPT_CAPTURE_LABEL_MAX_LENGTH s] by (simp add: unat_small)
  with Cons show ?case
    by (cases tap) (simp add: capture_entry_bytes_def pipeline_seen_def Let_def nth_append)
qed simp

lemma capture_status_is_read_back:
  assumes "length (cv_taps v) \<le> 255" "\<forall>i. cv_recording v = Some i \<longrightarrow> i < length (cv_taps v)"
  shows "parseCaptureStatus (snd (zpt_send_capture_status reg tw w v)) = Some \<lparr>hc_recording = map_option of_nat (cv_recording v),
    hc_dropped = cv_dropped v, hc_buffer_used = cb_used (cv_buffer v), hc_buffer_size = cb_capacity (cv_buffer v),
    hc_pipelines = map (pipeline_seen reg tw w) (enumerate 0 (cv_taps v))\<rparr>"
proof -
  have count: "unat (of_nat (length (cv_taps v)) :: u8) = length (cv_taps v)" using assms(1) by (simp add: unat_small)
  have small: "(of_nat i :: u8) \<noteq> 255" if "i < 255" for i
  proof
    assume "(of_nat i :: u8) = 255"
    then have "unat (of_nat i :: u8) = 255" by simp
    then show False using that unat_small [of i] by simp
  qed
  then have "\<forall>i. cv_recording v = Some i \<longrightarrow> (of_nat i :: u8) \<noteq> 255" using assms by (meson less_le_trans)
  then show ?thesis
    using count read_pipelines_entries [of "enumerate 0 (cv_taps v)" reg tw w]
    by (simp add: parseCaptureStatus_def zpt_send_capture_status_def nth_append split: option.splits)
qed

lemma length_capture_status:
  assumes "length (cv_taps v) \<le> 255"
  shows "length (snd (zpt_send_capture_status reg tw w v)) < 65536"
proof -
  have "length (capture_entry_bytes reg tw w tap) \<le> 36" for tap
    using length_limited [of ZPT_CAPTURE_LABEL_MAX_LENGTH] by (cases tap) (simp add: capture_entry_bytes_def Let_def)
  then have "length (concat (map (capture_entry_bytes reg tw w) taps)) \<le> length taps * 36" for taps
    by (induction taps) (auto intro: add_mono)
  from this [of "enumerate 0 (cv_taps v)"] assms show ?thesis by (simp add: zpt_send_capture_status_def)
qed

context host_link
begin

lemma other_frame_keeps:
  assumes "recorded_on c fs rs (v, l)" "zpt_send_frame_on_link link f d l = (ret, l')"
    and "fst f \<noteq> ZPT_EVENT_CAPTURE" "length (snd f) < 65536"
  shows "recorded_on c fs rs (v, l')"
proof -
  obtain cl sent where inv: "usable l" "recording_inv c rs v cl sent" "\<not> cut l \<longrightarrow> received l = concat (map encode_frame (fs @ sent))"
    using assms(1) by (auto simp: recorded_on_def)
  note send = assms(2) [unfolded zpt_send_frame_on_link_def]
  have l': "usable l'" "cut l \<longrightarrow> cut l'" using usable_stays [OF send inv(1)] cut_stays [OF send inv(1)] by auto
  show ?thesis
  proof (cases "0 \<le> ret")
    case True
    have "recording_inv c rs v cl (sent @ [f])"
      using inv(2) assms(3,4) by (simp add: recording_inv_def host_capture_append)
    moreover have "\<not> cut l' \<longrightarrow> received l' = concat (map encode_frame (fs @ sent @ [f]))"
      using accepted [OF send inv(1) True] inv(3) l'(2) by (auto simp: encode_frame_def)
    ultimately show ?thesis using l'(1) unfolding recorded_on_def case_prod_conv by blast
  next
    case False
    then have "\<not> cut l' \<longrightarrow> received l' = concat (map encode_frame (fs @ sent))"
      using refused [OF send inv(1)] inv(3) l'(2) by auto
    then show ?thesis using inv(2) l'(1) unfolding recorded_on_def case_prod_conv by blast
  qed
qed

lemma drain_state_keeps:
  assumes "recorded_on c fs rs (v, l)" "\<forall>s \<in> set (record_queue st). length (ss_values s) = ZPT_STATE_VALUE_COUNT"
    and "drain_state link host_timeout clock n (st, l) = (outcome, st', l')"
  shows "recorded_on c fs rs (v, l')"
  using assms
proof (induction n arbitrary: clock st l)
  case (Suc n)
  obtain o1 st1 l1 where first: "drain_record link host_timeout (clock 0) (st, l) = (o1, st1, l1)" by (metis prod_cases3)
  have "recorded_on c fs rs (v, l1) \<and> set (record_queue st1) \<subseteq> set (record_queue st)"
  proof (cases "record_queue st")
    case Nil
    then show ?thesis using first Suc.prems(1) by (simp add: drain_record_def)
  next
    case (Cons sample samples)
    obtain ret l2 where send: "zpt_send_frame_on_link link (ZPT_EVENT_STATE, state_payload sample) True l = (ret, l2)" by fastforce
    have "length (state_payload sample) < 65536"
      using Suc.prems(2) Cons by (simp add: state_payload_def length_concat comp_def sum_list_triv)
    then have "recorded_on c fs rs (v, l2)" using other_frame_keeps [OF Suc.prems(1) send] by simp
    then show ?thesis
      using first Suc.prems(1) Cons send
      by (auto simp: drain_record_def zpt_send_state_def zpt_state_disable_all_def Let_def split: if_splits)
  qed
  then have "recorded_on c fs rs (v, l1)" "\<forall>s \<in> set (record_queue st1). length (ss_values s) = ZPT_STATE_VALUE_COUNT"
    using Suc.prems(2) by auto
  with Suc.IH [of l1 st1] Suc.prems(3) first show ?case by (auto simp: Let_def split: if_splits)
qed simp

lemma drain_records_keeps:
  assumes "recorded_on c fs rs (v, l)" "cv_recording v = None"
    and "\<forall>s \<in> set (record_queue st). length (ss_values s) = ZPT_STATE_VALUE_COUNT"
  shows "\<exists>st' v' l'. zpt_drain_records link host_timeout clock now arrivals (st, v, l) = Some (st', v', l') \<and>
    recorded_on c fs rs (v', l') \<and> cv_recording v' = None \<and> cv_taps v' = cv_taps v"
proof -
  obtain outcome st1 l1 where state: "drain_state link host_timeout clock (length (record_queue st)) (st, l) = (outcome, st1, l1)"
    by (metis prod_cases3)
  have "recorded_on c fs rs (v, l1)" by (rule drain_state_keeps [OF assms(1,3) state])
  with stopped_drain_ends [OF this assms(2), of False arrivals] assms(2) show ?thesis
    by (auto simp: zpt_drain_records_def state)
qed

lemma stop_request_delivers:
  assumes "usable l" "received l = concat (map encode_frame fs)" "list_all (\<lambda>f. length (snd f) < 65536) fs"
    and "ring_storage_ok (cv_buffer v)" "\<forall>r \<in> set (submissions events). capture_record_ok r"
    and "service_run link events (recording_started i hash v, l) = (v1, l1)"
    and "\<forall>s \<in> set (record_queue st). length (ss_values s) = ZPT_STATE_VALUE_COUNT"
    and "length (cv_taps v1) \<le> unat pipeline"
  shows "\<exists>st2 v2 l2 status. zpt_handle_capture_control link host_timeout clock now arrivals arrivals' reg tw lock_all unlock_all
      [pipeline] (st, v1, w, l1) = Some (st2, v2, w, l2) \<and> cv_recording v2 = None \<and>
    parseCaptureStatus (snd (zpt_send_capture_status reg tw w v2)) = Some status \<and>
    hc_recording status = None \<and> hc_buffer_used status = 0 \<and>
    (\<not> cut l2 \<longrightarrow> (\<exists>sent records d. decode_frames (received l2) = (fs @ sent, []) \<and>
       host_capture sent captureDecoder = Some (records, d) \<and>
       subseq records (numbered_submissions (submissions events)) \<and>
       hc_dropped status = cv_dropped v + of_nat (length (submissions events) - length records)))"
proof -
  let ?c = "cv_dropped v" and ?rs = "submissions events"
  have "recorded_on ?c fs [] (recording_started i hash v, l)"
    using started_inv [OF assms(4)] assms(1,2) by (fastforce simp: recorded_on_def)
  moreover have "cv_recording (recording_started i hash v) \<noteq> None" by (simp add: recording_started_def)
  ultimately have "recorded_on ?c fs ?rs (v1, l1)" using service_run_keeps [OF _ _ assms(5,6)] by fastforce
  then have "recorded_on ?c fs ?rs (zpt_capture_stop v1, l1)" by (simp add: recorded_on_def recording_inv_def zpt_capture_stop_def)
  from drain_records_keeps [OF this _ assms(7)] obtain st2 va la where
    a: "zpt_drain_records link host_timeout clock now arrivals (st, zpt_capture_stop v1, l1) = Some (st2, va, la)"
      "recorded_on ?c fs ?rs (va, la)" "cv_recording va = None" "cv_taps va = cv_taps v1" by (fastforce simp: zpt_capture_stop_def)
  from stopped_drain_ends [OF a(2,3), of True arrivals'] obtain v2 lb where
    b: "zpt_capture_drain link True arrivals' (va, la) = Some (v2, lb)" "recorded_on ?c fs ?rs (v2, lb)"
      "cb_used (cv_buffer v2) = 0" "cv_recording v2 = None" "cv_taps v2 = cv_taps v1" using a(4) by auto
  let ?status = "zpt_send_capture_status reg tw w v2"
  obtain ret l2 where send: "zpt_send_frame_on_link link ?status False lb = (ret, l2)" by fastforce
  have "unat pipeline < 2 ^ LENGTH(8)" by (rule unsigned_less)
  then have few: "length (cv_taps v2) \<le> 255" using assms(8) b(5) by simp
  have run: "zpt_handle_capture_control link host_timeout clock now arrivals arrivals' reg tw lock_all unlock_all
      [pipeline] (st, v1, w, l1) = Some (st2, v2, w, l2)"
    using a(1) b(1,5) assms(8) send by (simp add: zpt_handle_capture_control_def zpt_send_frame_def)
  have after: "recorded_on ?c fs ?rs (v2, l2)"
    using other_frame_keeps [OF b(2) send _ length_capture_status [OF few]] by (simp add: zpt_send_capture_status_def)
  have "\<exists>sent records d. decode_frames (received l2) = (fs @ sent, []) \<and> host_capture sent captureDecoder = Some (records, d) \<and>
       subseq records (numbered_submissions ?rs) \<and> cv_dropped v2 = ?c + of_nat (length ?rs - length records)" if "\<not> cut l2"
    by (rule emptied_recording [OF after b(3) assms(3) that])
  then show ?thesis
    using run b(3,4) capture_status_is_read_back [OF few, of reg tw w] by (intro exI conjI) auto
qed

end

text \<open>
Property C8. A request that stops a recording over Bluetooth is always answered: whatever was submitted
and sent before, and whatever still arrives, the drains it runs return, the recording has ended
and the status tells the host so, with an empty buffer. If the link did not go down in the middle
of a frame, the host can decode all it has received and read every batch; the records it has read
are records that were submitted, in order and with the number of their place; and the drop
counter in the status counts every one that is missing.
\<close>

theorem stopping_delivers_the_recording:
  assumes "gatt_usable l" "gatt_notified l = concat (map encode_frame fs)" "list_all (\<lambda>f. length (snd f) < 65536) fs"
    and "ring_storage_ok (cv_buffer v)" "\<forall>r \<in> set (submissions events). capture_record_ok r"
    and "service_run zpt_gatt_transport events (recording_started i hash v, l) = (v1, l1)"
    and "\<forall>s \<in> set (record_queue st). length (ss_values s) = ZPT_STATE_VALUE_COUNT"
    and "length (cv_taps v1) \<le> unat pipeline"
  shows "\<exists>st2 v2 l2 status. zpt_handle_capture_control zpt_gatt_transport host_timeout clock now arrivals arrivals' reg tw
      lock_all unlock_all [pipeline] (st, v1, w, l1) = Some (st2, v2, w, l2) \<and> cv_recording v2 = None \<and>
    parseCaptureStatus (snd (zpt_send_capture_status reg tw w v2)) = Some status \<and>
    hc_recording status = None \<and> hc_buffer_used status = 0 \<and>
    (\<not> gatt_cut l2 \<longrightarrow> (\<exists>sent records d. decode_frames (gatt_notified l2) = (fs @ sent, []) \<and>
       host_capture sent captureDecoder = Some (records, d) \<and>
       subseq records (numbered_submissions (submissions events)) \<and>
       hc_dropped status = cv_dropped v + of_nat (length (submissions events) - length records)))"
  using assms by (rule gatt.stop_request_delivers)

text \<open>A ring of 33 bytes, a link that refuses a batch: the last record is dropped, the others arrive.\<close>

definition demo_service :: capture_service where
  "demo_service = \<lparr>cv_taps = [], cv_max_pipelines = 2, cv_recording = None, cv_resync = False, cv_hash = 0, cv_dropped = 7,
     cv_buffer = zpt_capture_buffer_init (replicate 33 0) 33, cv_uptime_us = 0\<rparr>"

definition demo_events :: "worker_event list" where
  "demo_events = [Submitted (capture_record\<lparr>cr_kind := CAPTURE_RECORD_ENTERED, cr_settings_hash := 77\<rparr>),
     Submitted (demo_frame 100 5), Drained [demo_frame 101 (- 7)], Submitted (demo_frame 4000000 200000)]"

definition demo_run :: "capture_service \<times> zpt_gatt" where
  "demo_run = service_run zpt_gatt_transport demo_events (recording_started 0 77 demo_service, demo_gatt [])"

definition demo_sample :: zpt_state_sample where
  "demo_sample = \<lparr>ss_timestamp_ms = 1, ss_sequence = 2, ss_target_id = 0, ss_target_kind = 1, ss_event = 3, ss_intent = 0,
     ss_flags = 0, ss_values = replicate 10 (- 1)\<rparr>"

definition demo_telemetry :: state_telemetry where
  "demo_telemetry = \<lparr>state_levels = [1], state_labels = [None], state_slot_limit = 0, state_dropped = 0, state_sequence = 3,
     record_queue = [demo_sample], record_queue_size = 4, last_contact = 0\<rparr>"

definition demo_answer :: "state_telemetry \<times> capture_service \<times> unit chain_world \<times> zpt_gatt" where
  "demo_answer = the (zpt_handle_capture_control zpt_gatt_transport 1000 (\<lambda>k. 5) 6 (\<lambda>k. ([demo_frame 5 5], [])) (\<lambda>k. ([], []))
     \<lparr>zpt_tuning_targets = [], max_targets = 1\<rparr> () 0 0 [255] (demo_telemetry, fst demo_run, described_world, snd demo_run))"

theorem stopping_delivers_the_recording_witness:
  "(\<exists>st2 v2 l2 status. zpt_handle_capture_control zpt_gatt_transport 1000 (\<lambda>k. 5) 6 (\<lambda>k. ([demo_frame 5 5], [])) (\<lambda>k. ([], []))
      \<lparr>zpt_tuning_targets = [], max_targets = 1\<rparr> () 0 0 [255] (demo_telemetry, fst demo_run, described_world, snd demo_run) =
      Some (st2, v2, described_world, l2) \<and> cv_recording v2 = None \<and>
    parseCaptureStatus (snd (zpt_send_capture_status \<lparr>zpt_tuning_targets = [], max_targets = 1\<rparr> () described_world v2)) = Some status \<and>
    hc_recording status = None \<and> hc_buffer_used status = 0 \<and>
    (\<not> gatt_cut l2 \<longrightarrow> (\<exists>sent records d. decode_frames (gatt_notified l2) = ([] @ sent, []) \<and>
       host_capture sent captureDecoder = Some (records, d) \<and>
       subseq records (numbered_submissions (submissions demo_events)) \<and>
       hc_dropped status = cv_dropped demo_service + of_nat (length (submissions demo_events) - length records)))) \<and>
   \<not> gatt_cut (snd (snd (snd demo_answer))) \<and> cv_dropped (fst (snd demo_answer)) = 8 \<and>
   map_option fst (host_capture (fst (decode_frames (gatt_notified (snd (snd (snd demo_answer)))))) captureDecoder) =
     Some [(0, HostEntered 77), (1, HostFrame 1 100 250 5 (- 2) 1000), (2, HostFrame 1 101 250 (- 7) (- 2) 1000)]"
proof (intro conjI)
  have run: "service_run zpt_gatt_transport demo_events (recording_started 0 77 demo_service, demo_gatt []) =
    (fst demo_run, snd demo_run)" by (simp add: demo_run_def)
  have taps: "length (cv_taps (fst demo_run)) \<le> unat (255 :: u8)" by code_simp
  show "\<exists>st2 v2 l2 status. zpt_handle_capture_control zpt_gatt_transport 1000 (\<lambda>k. 5) 6 (\<lambda>k. ([demo_frame 5 5], [])) (\<lambda>k. ([], []))
      \<lparr>zpt_tuning_targets = [], max_targets = 1\<rparr> () 0 0 [255] (demo_telemetry, fst demo_run, described_world, snd demo_run) =
      Some (st2, v2, described_world, l2) \<and> cv_recording v2 = None \<and>
    parseCaptureStatus (snd (zpt_send_capture_status \<lparr>zpt_tuning_targets = [], max_targets = 1\<rparr> () described_world v2)) = Some status \<and>
    hc_recording status = None \<and> hc_buffer_used status = 0 \<and>
    (\<not> gatt_cut l2 \<longrightarrow> (\<exists>sent records d. decode_frames (gatt_notified l2) = ([] @ sent, []) \<and>
       host_capture sent captureDecoder = Some (records, d) \<and>
       subseq records (numbered_submissions (submissions demo_events)) \<and>
       hc_dropped status = cv_dropped demo_service + of_nat (length (submissions demo_events) - length records)))"
    by (rule stopping_delivers_the_recording [OF _ _ _ _ _ run _ taps])
      (simp_all add: demo_gatt_def gatt_usable_def demo_service_def ring_storage_ok_def zpt_capture_buffer_init_def
        demo_events_def demo_frame_def capture_record_def capture_record_ok_def demo_telemetry_def demo_sample_def)
  show "\<not> gatt_cut (snd (snd (snd demo_answer)))" by code_simp
  show "cv_dropped (fst (snd demo_answer)) = 8" by code_simp
  show "map_option fst (host_capture (fst (decode_frames (gatt_notified (snd (snd (snd demo_answer)))))) captureDecoder) =
     Some [(0, HostEntered 77), (1, HostFrame 1 100 250 5 (- 2) 1000), (2, HostFrame 1 101 250 (- 7) (- 2) 1000)]"
    by code_simp
qed

end
