(* ===== verification/Chain_Types.thy ===== *)
theory Chain_Types
  imports Chain Pipeline_Properties
begin

text \<open>
  The types of stages in a chain: which member of the state union a stage owns, and which member of
  the data union its signals carry. C checks neither; every stage of the repository keeps both, so
  a pipeline assembled from them is what \<open>push_walks_the_stages\<close> asks for.
\<close>

section \<open>Types of states and signals\<close>

text \<open>The evidence a gate holds is the motion it will emit.\<close>

fun member_of :: "stage_type \<Rightarrow> chain_state \<Rightarrow> bool" where
  "member_of t ZeroState = True"
| "member_of STAGE_GATE (GateState g) =
     (have_pending_evidence g \<longrightarrow> kind (pending_evidence g) = SIGNAL_NORMALIZED_MOTION)"
| "member_of STAGE_ACCELERATION (AccelerationState _) = True"
| "member_of STAGE_QUANTIZER (QuantizerState _) = True"
| "member_of STAGE_COALESCER (CoalescerState _) = True"
| "member_of STAGE_INTENT (IntentState _) = True"
| "member_of STAGE_CONSTRAINT (ConstraintState _) = True"
| "member_of STAGE_BATCHER (BatcherState _) = True"
| "member_of STAGE_TEXT_NAV (TextNavState _) = True"
| "member_of _ _ = False"

definition has_type :: "stage_type \<Rightarrow> chain_state option \<Rightarrow> bool" where
  "has_type t st \<longleftrightarrow> (case st of None \<Rightarrow> True | Some S \<Rightarrow> member_of t S)"

fun fits_kind :: "zpt_signal_kind \<Rightarrow> zpt_signal_data \<Rightarrow> bool" where
  "fits_kind SIGNAL_RAW_MOTION (RawMotion _ _) = True"
| "fits_kind SIGNAL_NORMALIZED_MOTION (FixedVector _ _) = True"
| "fits_kind SIGNAL_POINTER_DELTA (Delta _ _) = True"
| "fits_kind SIGNAL_SCROLL_STEPS (Delta _ _) = True"
| "fits_kind SIGNAL_ACTION (Action _) = True"
| "fits_kind _ _ = False"

definition tagged :: "zpt_signal \<Rightarrow> bool" where
  "tagged s \<longleftrightarrow> fits_kind (kind s) (data s)"

primrec emits :: "(zpt_signal \<Rightarrow> bool) \<Rightarrow> 's stage_prog \<Rightarrow> bool" where
  "emits P (Return r st) = True"
| "emits P (Emit s k) = (P s \<and> (\<forall>r. emits P (k r)))"
| "emits P (ScheduleFlush d k) = (\<forall>r. emits P (k r))"
| "emits P (CancelFlush p) = emits P p"
| "emits P (Notify e v p) = emits P p"

text \<open>A program of a stage: typed, and its emissions tagged if \<open>B\<close>, that is if the signal it was given was.\<close>

definition prog_well_typed :: "bool \<Rightarrow> zpt_signal_kind \<Rightarrow> ('s option \<Rightarrow> bool) \<Rightarrow> 's stage_prog \<Rightarrow> bool" where
  "prog_well_typed B K I p \<longleftrightarrow> prog_typed K I p \<and> (B \<longrightarrow> emits tagged p)"

lemma well_typed_simps [simp]:
  "prog_well_typed B K I (Return r st) = I st"
  "prog_well_typed B K I (emit_return s st) = (kind s = K \<and> (B \<longrightarrow> tagged s) \<and> I st)"
  "prog_well_typed B K I (ScheduleFlush d k) = (\<forall>r. prog_well_typed B K I (k r))"
  "prog_well_typed B K I (CancelFlush p) = prog_well_typed B K I p"
  "prog_well_typed B K I (Notify e v p) = prog_well_typed B K I p"
  by (auto simp: prog_well_typed_def emit_return_def)

lemma well_typed_notify_all [simp]: "prog_well_typed B K I (notify_all es p) = prog_well_typed B K I p"
  by (induction es) (auto simp: notify_all_def)

lemma well_typed_map:
  assumes "prog_well_typed B K I p" "\<And>st. I st \<Longrightarrow> J (map_option f st)"
  shows "prog_well_typed B K J (map_stage_prog f p)"
proof -
  have "prog_typed K I p \<Longrightarrow> prog_typed K J (map_stage_prog f p)"
    by (induction p) (auto simp: assms(2))
  moreover have "emits tagged p \<Longrightarrow> emits tagged (map_stage_prog f p)" by (induction p) auto
  ultimately show ?thesis using assms(1) by (simp add: prog_well_typed_def)
qed

section \<open>Each stage\<close>

lemma fits_kind_simps [simp]:
  "fits_kind K (RawMotion x y) = (K = SIGNAL_RAW_MOTION)"
  "fits_kind K (FixedVector x y) = (K = SIGNAL_NORMALIZED_MOTION)"
  "fits_kind K (Delta x y) = (K = SIGNAL_POINTER_DELTA \<or> K = SIGNAL_SCROLL_STEPS)"
  "fits_kind K (Action a) = (K = SIGNAL_ACTION)"
  by (cases K; simp)+

lemma tagged_add_flag [simp]: "tagged (add_flag f s) = tagged s" "kind (add_flag f s) = kind s"
  by (simp_all add: tagged_def add_flag_def)

lemma typed_schedule: "(\<And>r. prog_well_typed B K I (k r)) \<Longrightarrow> prog_well_typed B K I (schedule_next_deadline c st now k)"
  by (simp add: schedule_next_deadline_def Let_def)

lemma orientation_typed:
  "kind s = SIGNAL_RAW_MOTION \<Longrightarrow> prog_well_typed (tagged s) SIGNAL_RAW_MOTION (\<lambda>z. z = st) (orthogonal_orientation_process c st now s)"
  by (simp add: orthogonal_orientation_process_def tagged_def split: prod.split)

lemma normalize_typed: "prog_well_typed (tagged s) SIGNAL_NORMALIZED_MOTION (\<lambda>z. z = st) (resolution_normalize_process c st now s)"
  by (simp add: resolution_normalize_process_def tagged_def Let_def split: prod.split)

lemma acceleration_typed: "prog_well_typed (tagged s) SIGNAL_NORMALIZED_MOTION (\<lambda>_. True) (cursor_acceleration_stage_process c st now s)"
  by (simp add: cursor_acceleration_stage_process_def tagged_def Let_def split: prod.split option.split)

lemma transfer_typed: "prog_well_typed (tagged s) SIGNAL_NORMALIZED_MOTION (\<lambda>z. z = st) (cursor_transfer_stage_process c st now s)"
  by (simp add: cursor_transfer_stage_process_def tagged_def Let_def split: prod.split option.split)

lemma quantizer_typed: "prog_well_typed (tagged s) SIGNAL_POINTER_DELTA (\<lambda>_. True) (cursor_quantizer_stage_process c st now s)"
  by (simp add: cursor_quantizer_stage_process_def tagged_def Let_def split: prod.split option.split)

lemma report_typed: "prog_well_typed B SIGNAL_POINTER_DELTA (\<lambda>_. True) (send_report st now interval)"
  by (simp add: send_report_def arm_def tagged_def Let_def split: prod.split)

lemma coalescer_typed:
  "prog_well_typed (tagged s) SIGNAL_POINTER_DELTA (\<lambda>_. True) (cursor_coalescer_stage_process c st now s)"
  "prog_well_typed B SIGNAL_POINTER_DELTA (\<lambda>_. True) (cursor_coalescer_stage_flush c st deadline now)"
  by (simp_all add: cursor_coalescer_stage_process_def cursor_coalescer_stage_flush_def report_typed arm_def Let_def split: option.split)

lemma intent_typed:
  "kind s = SIGNAL_NORMALIZED_MOTION \<Longrightarrow>
    prog_well_typed (tagged s) SIGNAL_NORMALIZED_MOTION (\<lambda>_. True) (axis_intent_stage_process c st now s)"
  by (simp add: axis_intent_stage_process_def tagged_def Let_def split: prod.split option.split)

lemma constraint_typed:
  "kind s = SIGNAL_NORMALIZED_MOTION \<Longrightarrow>
    prog_well_typed (tagged s) SIGNAL_NORMALIZED_MOTION (\<lambda>_. True) (axis_constraint_stage_process c st now s)"
  "prog_well_typed B SIGNAL_NORMALIZED_MOTION (\<lambda>_. True) (axis_constraint_stage_flush c st deadline now)"
  by (simp_all add: axis_constraint_stage_process_def axis_constraint_stage_flush_def schedule_undecided_expiry_def zeroed_frame_def
      tagged_def Let_def split: prod.split option.split)

lemma batcher_typed:
  "prog_well_typed (tagged s) SIGNAL_SCROLL_STEPS (\<lambda>_. True) (scroll_batcher_stage_process c st now s)"
  "prog_well_typed B SIGNAL_SCROLL_STEPS (\<lambda>_. True) (scroll_batcher_stage_flush c st deadline now)"
  by (simp_all add: scroll_batcher_stage_process_def scroll_batcher_stage_flush_def
      tagged_def Let_def split: prod.split option.split)

lemma text_nav_typed: "prog_well_typed (tagged s) SIGNAL_ACTION (\<lambda>_. True) (text_nav_stage_process c st now s)"
  by (simp add: text_nav_stage_process_def tagged_def Let_def split: prod.split option.split)

definition evidence_typed :: "zpt_coherent_displacement_stage_state option \<Rightarrow> bool" where
  "evidence_typed st \<longleftrightarrow> (\<forall>g. st = Some g \<longrightarrow> have_pending_evidence g \<longrightarrow> kind (pending_evidence g) = SIGNAL_NORMALIZED_MOTION)"

lemma gate_typed:
  assumes "evidence_typed st"
  shows "kind s = SIGNAL_NORMALIZED_MOTION \<Longrightarrow>
      prog_well_typed (tagged s) SIGNAL_NORMALIZED_MOTION evidence_typed (coherent_stage_process c st now s)"
    "prog_well_typed B SIGNAL_NORMALIZED_MOTION evidence_typed (coherent_stage_flush c st deadline now)"
    "evidence_typed (coherent_stage_reset c st reason)"
proof -
  have accumulate: "evidence_typed (Some (accumulate_pending_evidence s g)) \<and> have_pending_evidence (accumulate_pending_evidence s g)"
    if "evidence_typed (Some g)" "kind s = SIGNAL_NORMALIZED_MOTION" for g
    using that by (auto simp: evidence_typed_def accumulate_pending_evidence_def Let_def)
  have clear: "evidence_typed (Some (clear_pending_evidence g))" for g
    by (simp add: evidence_typed_def clear_pending_evidence_def)
  have strat: "evidence_typed (Some (g\<lparr>strategy := x\<rparr>)) = evidence_typed (Some g)" for g x
    by (simp add: evidence_typed_def)
  have observe: "evidence_typed (Some g') \<and> (gate_qualified r \<longrightarrow> have_pending_evidence g')"
    if "observe_result s r had g = (events, g')" "evidence_typed (Some g)" "kind s = SIGNAL_NORMALIZED_MOTION" for r had g events g'
    using that clear accumulate by (auto simp: observe_result_def Let_def split: if_splits)
  have out: "kind (qualified_output g r had) = SIGNAL_NORMALIZED_MOTION \<and> tagged (qualified_output g r had)"
    if "evidence_typed (Some g)" "have_pending_evidence g" for g r had
    using that by (simp add: qualified_output_def evidence_typed_def tagged_def Let_def add_flag_def)
  show "prog_well_typed (tagged s) SIGNAL_NORMALIZED_MOTION evidence_typed (coherent_stage_process c st now s)"
    if "kind s = SIGNAL_NORMALIZED_MOTION"
  proof (cases "\<exists>c0 g. c = Some c0 \<and> st = Some g")
    case False
    then show ?thesis using assms by (auto simp: coherent_stage_process_def split: option.split)
  next
    case True
    then obtain c0 g where c: "c = Some c0" "st = Some g" by blast
    obtain r x where update: "zpt_coherent_displacement_update (cd_settings c0) (fst (fixed_vector s)) (snd (fixed_vector s)) now
        (suppression_active (cd_suppression c0) s now) (strategy g) = (r, x)" by fastforce
    obtain events g' where g': "observe_result s r (has_pending (strategy g)) (g\<lparr>strategy := x\<rparr>) = (events, g')" by fastforce
    have "evidence_typed (Some g') \<and> (gate_qualified r \<longrightarrow> have_pending_evidence g')"
      using observe [OF g'] assms that by (simp add: c strat)
    then show ?thesis
      using that out clear
      by (simp only: coherent_stage_process_def c update g' Let_def option.case prod.case simp_thms if_False well_typed_notify_all)
        (auto intro!: typed_schedule)
  qed
  show "prog_well_typed B SIGNAL_NORMALIZED_MOTION evidence_typed (coherent_stage_flush c st deadline now)"
    using assms clear strat
    by (auto simp: coherent_stage_flush_def Let_def split: prod.split option.split intro!: typed_schedule)
  show "evidence_typed (coherent_stage_reset c st reason)"
    using clear by (cases st) (auto simp: coherent_stage_reset_def evidence_typed_def [of None])
qed

section \<open>Every stage of a chain\<close>

lemma mask_kind: "ZPT_SIGNAL_KIND_MASK K AND ZPT_SIGNAL_KIND_MASK k \<noteq> 0 \<Longrightarrow> zpt_signal_kind_valid K \<Longrightarrow> k = K"
  using kind_mask_and [of K k] by simp

lemma embed_typed:
  assumes "prog_well_typed B K I p" "\<And>z. I z \<Longrightarrow> has_type t (map_option (put (the st)) z)"
  shows "prog_well_typed B K (has_type t) (map_stage_prog (put (the st)) p)"
  using assms by (rule well_typed_map)

lemma has_type_members [simp]:
  "has_type STAGE_ACCELERATION (map_option AccelerationState z)" "has_type STAGE_QUANTIZER (map_option QuantizerState z1)"
  "has_type STAGE_COALESCER (map_option CoalescerState z2)" "has_type STAGE_INTENT (map_option IntentState z3)"
  "has_type STAGE_CONSTRAINT (map_option ConstraintState z4)" "has_type STAGE_BATCHER (map_option BatcherState z5)"
  "has_type STAGE_TEXT_NAV (map_option TextNavState z6)"
  by (simp_all add: has_type_def split: option.split)

lemma stateless_kept [simp]: "map_option (\<lambda>a. the st) (map_option (\<lambda>_. ()) st) = st"
  by (cases st) simp_all

lemma has_type_gate:
  "has_type STAGE_GATE (map_option GateState z) = evidence_typed z"
  "has_type STAGE_GATE st \<Longrightarrow> evidence_typed (map_option as_gate st)"
proof -
  show "has_type STAGE_GATE (map_option GateState z) = evidence_typed z"
    by (auto simp: has_type_def evidence_typed_def split: option.split)
  show "evidence_typed (map_option as_gate st)" if "has_type STAGE_GATE st"
  proof (cases st)
    case (Some S)
    then show ?thesis using that by (cases S) (auto simp: has_type_def evidence_typed_def)
  qed (simp add: evidence_typed_def)
qed

lemmas stage_apis = embed_api_def zpt_orthogonal_orientation_stage_api_def zpt_resolution_normalize_stage_api_def
  zpt_coherent_displacement_stage_api_def zpt_cursor_acceleration_stage_api_def zpt_cursor_transfer_stage_api_def
  zpt_cursor_quantizer_stage_api_def zpt_cursor_coalescer_stage_api_def zpt_axis_intent_stage_api_def
  zpt_axis_constraint_stage_api_def zpt_scroll_batcher_stage_api_def zpt_text_nav_stage_api_def

lemma stage_process_typed:
  assumes "has_type t st" "api_process (stage_api t) = Some f" "accepted_kinds (stage_api t) AND ZPT_SIGNAL_KIND_MASK (kind s) \<noteq> 0"
  shows "prog_well_typed (tagged s) (output_kind (stage_api t)) (has_type t) (f c st now s)"
proof -
  have raw: "kind s = SIGNAL_RAW_MOTION" if "t \<in> {STAGE_ORIENTATION, STAGE_NORMALIZE}"
    using that assms(3) by (auto simp: stage_apis zpt_signal_kind_valid_def intro!: mask_kind)
  have motion: "kind s = SIGNAL_NORMALIZED_MOTION"
    if "t \<in> {STAGE_GATE, STAGE_ACCELERATION, STAGE_TRANSFER, STAGE_QUANTIZER, STAGE_INTENT, STAGE_CONSTRAINT, STAGE_BATCHER, STAGE_TEXT_NAV}"
    using that assms(3) by (auto simp: stage_apis zpt_signal_kind_valid_def intro!: mask_kind)
  show ?thesis
    using assms(1,2) raw motion
    by (cases t)
      (auto simp: stage_apis has_type_gate intro!: embed_typed orientation_typed normalize_typed gate_typed acceleration_typed
        transfer_typed quantizer_typed coalescer_typed intent_typed constraint_typed batcher_typed text_nav_typed)
qed

lemma stage_flush_typed:
  assumes "has_type t st" "api_flush (stage_api t) = Some g"
  shows "prog_well_typed B (output_kind (stage_api t)) (has_type t) (g c st deadline now)"
  using assms
  by (cases t)
    (auto simp: stage_apis has_type_gate intro!: embed_typed gate_typed coalescer_typed constraint_typed batcher_typed)

lemma activations_keep [simp]:
  "snd (coherent_stage_activate c0 st0 reason) = st0" "snd (cursor_acceleration_stage_activate c1 st1 reason) = st1"
  "snd (cursor_transfer_stage_activate c2 st2 reason) = st2" "snd (cursor_quantizer_stage_activate c3 st3 reason) = st3"
  "snd (cursor_coalescer_stage_activate c4 st4 reason) = st4" "snd (axis_intent_stage_activate c5 st5 reason) = st5"
  "snd (axis_constraint_stage_activate c6 st6 reason) = st6" "snd (scroll_batcher_stage_activate c7 st7 reason) = st7"
  "snd (text_nav_stage_activate c8 st8 reason) = st8"
  by (simp_all add: coherent_stage_activate_def cursor_acceleration_stage_activate_def cursor_transfer_stage_activate_def
      cursor_quantizer_stage_activate_def cursor_coalescer_stage_activate_def axis_intent_stage_activate_def
      axis_constraint_stage_activate_def scroll_batcher_stage_activate_def text_nav_stage_activate_def split: option.split)

lemma stage_reset_typed: "has_type t st \<Longrightarrow> api_reset (stage_api t) = Some h \<Longrightarrow> has_type t (h c st reason)"
  using gate_typed(3) [OF has_type_gate(2)] by (cases t) (auto simp: stage_apis has_type_gate)

lemma stage_activate_typed: "has_type t st \<Longrightarrow> api_activate (stage_api t) = Some a \<Longrightarrow> has_type t (snd (a c st reason))"
  by (cases t) (auto simp: stage_apis has_type_gate)

text \<open>
Property C15. Every callback of every stage of the repository keeps the types that C does not check. Given a
state object holding the stage's own member of the union, or none yet, and for a gate evidence
that is motion, each callback leaves such an object, whatever the configuration and whatever its
calls of the runtime return; and processing an accepted signal, or flushing, emits at most once,
as the last call, a signal of the declared output kind, whose data is the member that kind stands
for if that of the input is.
\<close>

theorem every_stage_keeps_its_types:
  assumes "has_type t st"
  shows "(\<exists>f. api_process (stage_api t) = Some f \<and> (\<forall>c now s. accepted_kinds (stage_api t) AND ZPT_SIGNAL_KIND_MASK (kind s) \<noteq> 0 \<longrightarrow>
      prog_well_typed (tagged s) (output_kind (stage_api t)) (has_type t) (f c st now s))) \<and>
    (\<forall>g c deadline now. api_flush (stage_api t) = Some g \<longrightarrow>
      prog_well_typed True (output_kind (stage_api t)) (has_type t) (g c st deadline now)) \<and>
    (\<forall>h c reason. api_reset (stage_api t) = Some h \<longrightarrow> has_type t (h c st reason)) \<and>
    (\<forall>a c reason. api_activate (stage_api t) = Some a \<longrightarrow> has_type t (snd (a c st reason))) \<and>
    zpt_signal_kind_valid (output_kind (stage_api t)) \<and> api_deactivate (stage_api t) = None"
proof -
  have "api_process (stage_api t) \<noteq> None" "zpt_signal_kind_valid (output_kind (stage_api t))" "api_deactivate (stage_api t) = None"
    by (cases t; simp add: stage_apis zpt_signal_kind_valid_def)+
  then show ?thesis
    using stage_process_typed [OF assms] stage_flush_typed [OF assms] stage_reset_typed [OF assms] stage_activate_typed [OF assms]
    by blast
qed

text \<open>A gate that holds evidence: what it emits when it opens is motion.\<close>

definition held_evidence :: chain_state where
  "held_evidence = GateState \<lparr>strategy = zpt_coherent_displacement_reset,
     pending_evidence = zero_signal\<lparr>kind := SIGNAL_NORMALIZED_MOTION, data := FixedVector 1 2\<rparr>, have_pending_evidence = True\<rparr>"

definition open_gate :: chain_config where
  "open_gate = Gate \<lparr>cd_settings = \<lparr>enabled = True, cd_activation_distance = 1, coherence_percent = 0,
     qualification_timeout_ms = 5, cd_idle_timeout_ms = 5\<rparr>, cd_suppression = None\<rparr>"

theorem every_stage_keeps_its_types_witness:
  "has_type STAGE_GATE (Some held_evidence) \<and>
   prog_well_typed (tagged sample_signal) SIGNAL_NORMALIZED_MOTION (has_type STAGE_GATE)
     ((the (api_process (stage_api STAGE_GATE))) (Some open_gate) (Some held_evidence) 6 sample_signal) \<and>
   prog_well_typed True SIGNAL_NORMALIZED_MOTION (has_type STAGE_GATE)
     ((the (api_flush (stage_api STAGE_GATE))) (Some open_gate) (Some held_evidence) 5 6) \<and>
   has_type STAGE_GATE ((the (api_reset (stage_api STAGE_GATE))) (Some open_gate) (Some held_evidence) RESET_IDLE)"
proof -
  have held: "has_type STAGE_GATE (Some held_evidence)" by (simp add: has_type_def held_evidence_def)
  have gate: "api_flush (stage_api STAGE_GATE) = Some (the (api_flush (stage_api STAGE_GATE)))"
    "api_reset (stage_api STAGE_GATE) = Some (the (api_reset (stage_api STAGE_GATE)))"
    "output_kind (stage_api STAGE_GATE) = SIGNAL_NORMALIZED_MOTION"
    "accepted_kinds (stage_api STAGE_GATE) AND ZPT_SIGNAL_KIND_MASK (kind sample_signal) \<noteq> 0"
    by (simp_all add: stage_apis sample_signal_def ZPT_SIGNAL_KIND_MASK_def)
  note typed = every_stage_keeps_its_types [OF held, unfolded gate(3)]
  from typed obtain f where f: "api_process (stage_api STAGE_GATE) = Some f" "prog_well_typed (tagged sample_signal)
      SIGNAL_NORMALIZED_MOTION (has_type STAGE_GATE) (f (Some open_gate) (Some held_evidence) 6 sample_signal)"
    using gate(4) by blast
  moreover have "prog_well_typed True SIGNAL_NORMALIZED_MOTION (has_type STAGE_GATE)
     ((the (api_flush (stage_api STAGE_GATE))) (Some open_gate) (Some held_evidence) 5 6)" using typed gate(1) by blast
  moreover have "has_type STAGE_GATE ((the (api_reset (stage_api STAGE_GATE))) (Some open_gate) (Some held_evidence) RESET_IDLE)"
    using typed gate(2) by blast
  ultimately show ?thesis using held by simp
qed

section \<open>Pipelines of chain stages\<close>

text \<open>A pipeline assembled from stages of the repository has what \<open>push_walks_the_stages\<close> asks for.\<close>

lemma chain_disciplined: "disciplined (has_type t) (stage_api t)"
  using stage_process_typed by (fastforce simp: disciplined_def prog_well_typed_def)

lemma chain_links_fit:
  assumes "structure_ok w pid" "pl_validated (w_pipes w pid)" "pl_active (w_pipes w pid)"
    and "own_states w (pl_stages (w_pipes w pid))"
    and "\<forall>sid \<in> set (pl_stages (w_pipes w pid)). stg_api (w_stages w sid) = Some (stage_api (ty sid)) \<and> has_type (ty sid) (stage_state w sid)"
    and "kind s = pl_input_kind (w_pipes w pid)" "length (pl_stages (w_pipes w pid)) < unat (pl_dispatch_budget (w_pipes w pid))"
  shows "links_fit (\<lambda>sid. has_type (ty sid)) w (pl_sink (w_pipes w pid)) (pl_stages (w_pipes w pid)) (kind s)"
  using structure_links_fit [OF assms(1,4), of "\<lambda>sid. has_type (ty sid)"] assms(5,6) chain_disciplined by auto

end
