(* ===== verification/Capture_Hash.thy ===== *)
theory Capture_Hash
  imports Telemetry_Capture "HOL-Library.Multiset"
begin

text \<open>
  The settings hash on both ends. Firmware sums over the stages of a pipeline and the tuning targets
  that carry their names; the host (\<open>captureSettingsHash\<close> of \<open>web/protocol.js\<close>) over the targets of a
  profile it exported, in the order of that file. A capture is matched to the profile it was
  recorded with by comparing the two.
\<close>

text \<open>A profile lists targets with their parameters and values.\<close>

type_synonym host_profile = "(string \<times> (string \<times> int) list) list"

definition host_fnv :: "string \<Rightarrow> string \<Rightarrow> int \<Rightarrow> u32" where
  "host_fnv stable_id key v =
     fold (\<lambda>byte fnv. (fnv XOR ucast byte) * 0x01000193)
       (string_bytes (Some stable_id) @ [0] @ string_bytes (Some key) @ [0] @ put_le32 (word_of_int v)) 0x811c9dc5"

definition captureSettingsHash :: "host_profile \<Rightarrow> string list \<Rightarrow> u32" where
  "captureSettingsHash profile stage_ids =
     fold (\<lambda>(stable_id, parameters) hash.
        if stable_id \<notin> set stage_ids then hash
        else fold (\<lambda>(key, v) hash. hash + host_fnv stable_id key v) parameters hash) profile 0"

text \<open>What an export of the registry's targets holds.\<close>

definition exported :: "'w tuning_registry \<Rightarrow> 'w \<Rightarrow> nat \<Rightarrow> string \<times> (string \<times> int) list" where
  "exported reg tw i =
     (let target = zpt_tuning_targets reg ! i
      in (the (target_stable_id target),
          map (\<lambda>p. (the (param_key p), case snd (zpt_tuning_get reg tw (of_nat i) (param_id p) False) of Some v \<Rightarrow> v | None \<Rightarrow> 0))
            (described_parameters target)))"

lemma hash_add_is_host_fnv: "zpt_capture_settings_hash_add hash stable_id key v = hash + host_fnv stable_id key v"
  by (simp add: zpt_capture_settings_hash_add_def host_fnv_def fnv_byte_def string_bytes_def fold_map comp_def Let_def)

lemma fold_add: "fold (\<lambda>x hash. hash + f x) xs hash = hash + sum_list (map f xs)" for hash :: u32
  by (induction xs arbitrary: hash) (simp_all add: add.assoc)

definition target_sum :: "string \<times> (string \<times> int) list \<Rightarrow> u32" where
  "target_sum = (\<lambda>(stable_id, parameters). sum_list (map (\<lambda>(key, v). host_fnv stable_id key v) parameters))"

lemma host_hash_sum:
  "captureSettingsHash profile stage_ids = sum_list (map (\<lambda>t. if fst t \<in> set stage_ids then target_sum t else 0) profile)"
proof -
  have "(\<lambda>(stable_id, parameters) hash. if stable_id \<notin> set stage_ids then hash
        else fold (\<lambda>(key, v) hash. hash + host_fnv stable_id key v) parameters hash) =
      (\<lambda>t hash. hash + (if fst t \<in> set stage_ids then target_sum t else 0))"
    by (auto simp: fun_eq_iff target_sum_def case_prod_unfold fold_add)
  then show ?thesis by (simp add: captureSettingsHash_def fold_add)
qed

lemma sum_over_names:
  assumes "distinct ids"
  shows "sum_list (map (\<lambda>name. if x = name then (v :: u32) else 0) ids) = (if x \<in> set ids then v else 0)"
  using assms by (induction ids) auto

lemma sum_swap: "sum_list (map (\<lambda>x. sum_list (map (f x) ys)) xs) = sum_list (map (\<lambda>y. sum_list (map (\<lambda>x. f x y) xs)) ys)"
  for f :: "'a \<Rightarrow> 'b \<Rightarrow> u32"
  by (induction xs) (simp_all add: sum_list_addf)

lemma firmware_hash_sum:
  assumes "zpt_tuning_target_count reg \<le> 255" "\<forall>t \<in> set (zpt_tuning_targets reg). target_stable_id t \<noteq> None"
  shows "zpt_capture_settings_hash reg tw w pid =
    sum_list (map (\<lambda>sid. sum_list (map (\<lambda>i. if fst (exported reg tw i) = the (stg_stable_id (w_stages w sid))
        then target_sum (exported reg tw i) else 0) [0..<zpt_tuning_target_count reg]))
      (pl_stages (w_pipes w pid)))"
proof -
  let ?name = "\<lambda>sid. the (stg_stable_id (w_stages w sid))"
  have target: "the (zpt_tuning_target_get reg (of_nat i)) = zpt_tuning_targets reg ! i" if "i < zpt_tuning_target_count reg" for i
    using that assms(1) by (simp add: tuning_target_at)
  have one: "(let target = the (zpt_tuning_target_get reg (of_nat i)) in
           if target_stable_id target \<noteq> Some (?name sid) then hash
           else fold (\<lambda>parameter hash. zpt_capture_settings_hash_add hash (?name sid) (the (param_key parameter))
                    (case snd (zpt_tuning_get reg tw (of_nat i) (param_id parameter) False) of Some v \<Rightarrow> v | None \<Rightarrow> 0))
                (described_parameters target) hash) =
      hash + (if fst (exported reg tw i) = ?name sid then target_sum (exported reg tw i) else 0)"
    if "i < zpt_tuning_target_count reg" for i sid hash
  proof -
    have "target_stable_id (zpt_tuning_targets reg ! i) \<noteq> None"
      using that assms(2) by (simp add: zpt_tuning_target_count_def)
    then show ?thesis
      by (auto simp: target [OF that] exported_def target_sum_def Let_def hash_add_is_host_fnv fold_add comp_def)
  qed
  have inner: "fold (\<lambda>i hash. (let target = the (zpt_tuning_target_get reg (of_nat i)) in
           if target_stable_id target \<noteq> Some (?name sid) then hash
           else fold (\<lambda>parameter hash. zpt_capture_settings_hash_add hash (?name sid) (the (param_key parameter))
                    (case snd (zpt_tuning_get reg tw (of_nat i) (param_id parameter) False) of Some v \<Rightarrow> v | None \<Rightarrow> 0))
                (described_parameters target) hash)) ids hash =
      hash + sum_list (map (\<lambda>i. if fst (exported reg tw i) = ?name sid then target_sum (exported reg tw i) else 0) ids)"
    if "\<forall>i \<in> set ids. i < zpt_tuning_target_count reg" for ids sid hash
    using that by (induction ids arbitrary: hash) (simp_all add: one add.assoc)
  let ?n = "zpt_tuning_target_count reg"
  have all: "\<forall>i \<in> set [0..<?n]. i < ?n" by simp
  have "zpt_capture_settings_hash reg tw w pid = fold (\<lambda>sid hash. hash + sum_list (map (\<lambda>i. if fst (exported reg tw i) = ?name sid
        then target_sum (exported reg tw i) else 0) [0..<?n])) (pl_stages (w_pipes w pid)) 0"
    unfolding zpt_capture_settings_hash_def
    by (rule fold_cong [OF refl refl]) (simp only: fun_eq_iff inner [OF all] simp_thms)
  then show ?thesis by (simp only: fold_add add_0)
qed

text \<open>
Property C21. The host computes the firmware's settings hash. For a pipeline whose stages have distinct
names, every profile that lists the exported targets, in whatever order, has the hash that firmware
sends with a recording of that pipeline, whatever the order of the stages and of the targets. So
the host accepts a profile that holds the settings the recording ran with.
\<close>

theorem host_computes_the_settings_hash:
  assumes "zpt_tuning_target_count reg \<le> 255" "\<forall>t \<in> set (zpt_tuning_targets reg). target_stable_id t \<noteq> None"
    and "distinct (map (\<lambda>sid. the (stg_stable_id (w_stages w sid))) (pl_stages (w_pipes w pid)))"
    and "mset profile = mset (map (exported reg tw) [0..<zpt_tuning_target_count reg])"
  shows "captureSettingsHash profile (map (\<lambda>sid. the (stg_stable_id (w_stages w sid))) (pl_stages (w_pipes w pid))) =
    zpt_capture_settings_hash reg tw w pid"
proof -
  let ?ids = "map (\<lambda>sid. the (stg_stable_id (w_stages w sid))) (pl_stages (w_pipes w pid))"
  let ?f = "\<lambda>t. if fst t \<in> set ?ids then target_sum t else 0"
  have "captureSettingsHash profile ?ids = sum_mset (image_mset ?f (mset profile))"
    by (simp add: host_hash_sum sum_mset_sum_list flip: mset_map)
  also have "\<dots> = sum_list (map ?f (map (exported reg tw) [0..<zpt_tuning_target_count reg]))"
    unfolding assms(4) by (simp add: sum_mset_sum_list flip: mset_map del: map_map)
  also have "\<dots> = sum_list (map (\<lambda>i. sum_list (map (\<lambda>name. if fst (exported reg tw i) = name then target_sum (exported reg tw i) else 0)
      ?ids)) [0..<zpt_tuning_target_count reg])"
    unfolding sum_over_names [OF assms(3)] by (simp only: map_map comp_def)
  also have "\<dots> = zpt_capture_settings_hash reg tw w pid"
    unfolding firmware_hash_sum [OF assms(1,2)] by (subst sum_swap) (simp add: comp_def)
  finally show ?thesis .
qed

text \<open>Three targets, two of them stages of the pipeline, exported in another order.\<close>

definition hashed_registry :: "int tuning_registry" where
  "hashed_registry = \<lparr>zpt_tuning_targets = map (\<lambda>name. demo_target\<lparr>target_stable_id := Some name\<rparr>) [''gate'', ''intent'', ''turn''],
     max_targets = 4\<rparr>"

definition hashed_profile :: host_profile where
  "hashed_profile = map (\<lambda>name. (name, [(''pause'', - 5), (''hold'', - 5)])) [''turn'', ''gate'', ''intent'']"

theorem host_computes_the_settings_hash_witness:
  "captureSettingsHash hashed_profile [''turn'', ''intent''] = zpt_capture_settings_hash hashed_registry (- 5) described_world 0 \<and>
   captureSettingsHash hashed_profile [''turn'', ''intent''] \<noteq> captureSettingsHash hashed_profile [''turn'']"
proof
  have ids: "map (\<lambda>sid. the (stg_stable_id (w_stages described_world sid))) (pl_stages (w_pipes described_world 0)) = [''turn'', ''intent'']"
    by code_simp
  have "map (exported hashed_registry (- 5)) [0..<zpt_tuning_target_count hashed_registry] =
      map (\<lambda>name. (name, [(''pause'', - 5), (''hold'', - 5)])) [''gate'', ''intent'', ''turn'']" by code_simp
  then have "mset hashed_profile = mset (map (exported hashed_registry (- 5)) [0..<zpt_tuning_target_count hashed_registry])"
    by (simp add: hashed_profile_def)
  from host_computes_the_settings_hash [OF _ _ _ this, of described_world 0] show "captureSettingsHash hashed_profile [''turn'', ''intent''] =
      zpt_capture_settings_hash hashed_registry (- 5) described_world 0"
    by (simp add: ids hashed_registry_def zpt_tuning_target_count_def)
  show "captureSettingsHash hashed_profile [''turn'', ''intent''] \<noteq> captureSettingsHash hashed_profile [''turn'']" by code_simp
qed

end
