(* ===== verification/Telemetry_Service.thy ===== *)
theory Telemetry_Service
  imports Telemetry_Devices Telemetry_Capture
begin

text \<open>
  The protocol worker as a whole (\<open>service/telemetry.c\<close>): it takes the bytes its links received,
  parses them link by link, dispatches every request to its handler, answers on the link the
  request came from, and then sends what the observers recorded.

  The links are values of one type, each with its transport and its receive ring. What happens on
  other threads while a request is handled, the clock and the codes of the router locks come with
  the request as a \<open>worker_schedule\<close>.
\<close>

abbreviation (input) "ZPT_REQ_DESCRIBE \<equiv> (0x01 :: u8)"
abbreviation (input) "ZPT_REQ_PING \<equiv> (0x03 :: u8)"
abbreviation (input) "ZPT_RESP_DESCRIBE \<equiv> (0x81 :: u8)"
abbreviation (input) "ZPT_RESP_ACK \<equiv> (0x82 :: u8)"
abbreviation (input) "ZPT_PROTOCOL_VERSION \<equiv> (8 :: u8)"

record 'l zpt_link =
  ln_transport :: "'l zpt_host_transport"
  ln_rx_get :: "'l \<Rightarrow> (u8 \<times> 'l) option"
  ln_take_reset :: "('l \<Rightarrow> bool \<times> 'l) option"

record worker_schedule =
  sc_clock :: "nat \<Rightarrow> u32"
  sc_now :: u32
  sc_before :: "nat \<Rightarrow> zpt_capture_record list \<times> zpt_capture_record list"
  sc_during :: "nat \<Rightarrow> zpt_capture_record list \<times> zpt_capture_record list"
  sc_lock_all :: int
  sc_unlock_all :: int

record ('w, 'e, 'l) service_build =
  sb_links :: "'l zpt_link list"
  sb_registry :: "'w tuning_registry"
  sb_remote :: "'e split_transport option"
  sb_host_timeout :: nat
  sb_large_payload :: nat

record ('w, 'd, 'e, 'k, 'l) host_service =
  sv_link_states :: "'l list"
  sv_parsers :: "zpt_frame_parser list"
  sv_host_link :: nat
  sv_tuning :: 'w
  sv_central :: "'d central"
  sv_halves :: 'e
  sv_state :: state_telemetry
  sv_capture :: capture_service
  sv_pipelines :: "'k chain_world"

section \<open>Answers\<close>

definition host_transport :: "('w, 'e, 'l) service_build \<Rightarrow> ('w, 'd, 'e, 'k, 'l) host_service \<Rightarrow> 'l zpt_host_transport" where
  "host_transport b s = ln_transport (sb_links b ! sv_host_link s)"

abbreviation host_state :: "('w, 'd, 'e, 'k, 'l) host_service \<Rightarrow> 'l" where
  "host_state s \<equiv> sv_link_states s ! sv_host_link s"

definition with_host_state :: "'l \<Rightarrow> ('w, 'd, 'e, 'k, 'l) host_service \<Rightarrow> ('w, 'd, 'e, 'k, 'l) host_service" where
  "with_host_state l s = s\<lparr>sv_link_states := (sv_link_states s)[sv_host_link s := l]\<rparr>"

definition answer_with :: "('w, 'e, 'l) service_build \<Rightarrow> frame \<Rightarrow> ('w, 'd, 'e, 'k, 'l) host_service \<Rightarrow> ('w, 'd, 'e, 'k, 'l) host_service" where
  "answer_with b f s = with_host_state (zpt_send_frame (host_transport b s) f (host_state s)) s"

definition zpt_send_describe :: frame where
  "zpt_send_describe = (ZPT_RESP_DESCRIBE, [ZPT_PROTOCOL_VERSION])"

definition zpt_send_ack :: "state_telemetry \<Rightarrow> capture_service \<Rightarrow> frame" where
  "zpt_send_ack st v = (ZPT_RESP_ACK, put_le32 (state_dropped st) @ put_le32 (cv_dropped v))"

definition zpt_note_contact :: "u32 \<Rightarrow> ('w, 'd, 'e, 'k, 'l) host_service \<Rightarrow> ('w, 'd, 'e, 'k, 'l) host_service" where
  "zpt_note_contact now s = s\<lparr>sv_state := (sv_state s)\<lparr>last_contact := now\<rparr>\<rparr>"

section \<open>Dispatch\<close>

definition zpt_dispatch :: "('w, 'e, 'l) service_build \<Rightarrow> worker_schedule \<Rightarrow> frame \<Rightarrow> ('w, 'd, 'e, 'k, 'l) host_service \<Rightarrow>
    ('w, 'd, 'e, 'k, 'l) host_service option" where
  "zpt_dispatch b q request s =
     (let (type, payload) = request; reg = sb_registry b; noted = zpt_note_contact (sc_now q) s in
      if zpt_is_tuning_request type then
        let (answer, tw) = zpt_dispatch_tuning reg (sv_tuning noted) request; s = noted\<lparr>sv_tuning := tw\<rparr>
        in Some (case answer of None \<Rightarrow> s | Some f \<Rightarrow> answer_with b f s)
      else if zpt_is_device_request type then
        let (answer, central, halves) = zpt_dispatch_device (sb_remote b) request (sv_central noted) (sv_halves noted)
        in Some (answer_with b answer (noted\<lparr>sv_central := central, sv_halves := halves\<rparr>))
      else if type = ZPT_REQ_DESCRIBE then Some (answer_with b zpt_send_describe noted)
      else if type = ZPT_REQ_PING then Some (answer_with b (zpt_send_ack (sv_state noted) (sv_capture noted)) noted)
      else if type = ZPT_REQ_STATE_CONTROL then
        let (answer, st) = zpt_handle_state_control reg payload (sv_state noted)
        in Some (answer_with b answer (noted\<lparr>sv_state := st\<rparr>))
      else if type = ZPT_REQ_CAPTURE_CONTROL then
        map_option (\<lambda>(st, v, w, l). with_host_state l (noted\<lparr>sv_state := st, sv_capture := v, sv_pipelines := w\<rparr>))
          (zpt_handle_capture_control (host_transport b noted) (sb_host_timeout b) (sc_clock q) (sc_now q) (sc_before q) (sc_during q)
            reg (sv_tuning noted) (sc_lock_all q) (sc_unlock_all q) payload
            (sv_state noted, sv_capture noted, sv_pipelines noted, host_state noted))
      else if type = ZPT_REQ_CAPTURE_DESCRIBE then
        Some (answer_with b (zpt_send_capture_description reg (sv_tuning noted) (sv_pipelines noted) (sv_capture noted) payload
          (sb_large_payload b)) noted)
      else Some s)"

definition zpt_dispatch_frame :: "('w, 'e, 'l) service_build \<Rightarrow> worker_schedule \<Rightarrow> nat \<Rightarrow> frame \<Rightarrow>
    ('w, 'd, 'e, 'k, 'l) host_service \<Rightarrow> ('w, 'd, 'e, 'k, 'l) host_service option" where
  "zpt_dispatch_frame b q i request s = zpt_dispatch b q request (s\<lparr>sv_host_link := i\<rparr>)"

section \<open>The worker's turn\<close>

text \<open>The bytes of one link; \<open>None\<close> if they never end or a handler does not return.\<close>

partial_function (option) receive_link :: "('w, 'e, 'l) service_build \<Rightarrow> (nat \<Rightarrow> worker_schedule) \<Rightarrow> nat \<Rightarrow>
    ('w, 'd, 'e, 'k, 'l) host_service \<Rightarrow> ('w, 'd, 'e, 'k, 'l) host_service option" where
  "receive_link b q i s =
     (case ln_rx_get (sb_links b ! i) (sv_link_states s ! i) of
        None \<Rightarrow> Some s
      | Some (byte, l) \<Rightarrow>
          let (reset, l) = (case ln_take_reset (sb_links b ! i) of None \<Rightarrow> (False, l) | Some take_reset \<Rightarrow> take_reset l);
              p = (if reset then (sv_parsers s ! i)\<lparr>ps_state := MAGIC_0\<rparr> else sv_parsers s ! i);
              (p, request) = zpt_parse_byte p byte;
              s = s\<lparr>sv_link_states := (sv_link_states s)[i := l], sv_parsers := (sv_parsers s)[i := p]\<rparr>
          in case request of
               None \<Rightarrow> receive_link b q i s
             | Some r \<Rightarrow> Option.bind (zpt_dispatch_frame b (q 0) i r s) (receive_link b (\<lambda>k. q (Suc k)) i))"

fun zpt_receive :: "('w, 'e, 'l) service_build \<Rightarrow> (nat \<Rightarrow> nat \<Rightarrow> worker_schedule) \<Rightarrow> nat list \<Rightarrow>
    ('w, 'd, 'e, 'k, 'l) host_service \<Rightarrow> ('w, 'd, 'e, 'k, 'l) host_service option" where
  "zpt_receive b q [] s = Some s"
| "zpt_receive b q (i # links) s = Option.bind (receive_link b (q i) i s) (zpt_receive b q links)"

text \<open>A turn of \<open>zpt_thread\<close> after it has been woken: all links, then the records.\<close>

definition zpt_thread_turn :: "('w, 'e, 'l) service_build \<Rightarrow> (nat \<Rightarrow> nat \<Rightarrow> worker_schedule) \<Rightarrow> worker_schedule \<Rightarrow>
    ('w, 'd, 'e, 'k, 'l) host_service \<Rightarrow> ('w, 'd, 'e, 'k, 'l) host_service option" where
  "zpt_thread_turn b q records s =
     Option.bind (zpt_receive b q [0..<length (sb_links b)] s) (\<lambda>s.
       map_option (\<lambda>(st, v, l). with_host_state l (s\<lparr>sv_state := st, sv_capture := v\<rparr>))
         (zpt_drain_records (host_transport b s) (sb_host_timeout b) (sc_clock records) (sc_now records) (sc_before records)
           (sv_state s, sv_capture s, host_state s)))"

section \<open>Every request is answered\<close>

text \<open>The answers a request may get: its own response, or a result that names the request.\<close>

definition response_to :: "u8 \<Rightarrow> u8" where
  "response_to type =
     (if zpt_is_tuning_request type then response_of type
      else if type = ZPT_REQ_DEVICE_LIST then ZPT_RESP_DEVICE_LIST
      else if type = ZPT_REQ_DEVICE_DESCRIBE then ZPT_RESP_DEVICE_DESCRIPTION
      else if type = ZPT_REQ_DEVICE_PREVIEW then ZPT_RESP_TUNING_RESULT
      else if type = ZPT_REQ_DESCRIBE then ZPT_RESP_DESCRIBE
      else if type = ZPT_REQ_PING then ZPT_RESP_ACK
      else if type = ZPT_REQ_STATE_CONTROL then ZPT_RESP_STATE_STATUS
      else if type = ZPT_REQ_CAPTURE_CONTROL then ZPT_RESP_CAPTURE_STATUS
      else ZPT_RESP_CAPTURE_DESCRIPTION)"

definition known_request :: "u8 \<Rightarrow> bool" where
  "known_request type \<longleftrightarrow> zpt_is_tuning_request type \<or> zpt_is_device_request type \<or>
     type \<in> {ZPT_REQ_DESCRIBE, ZPT_REQ_PING, ZPT_REQ_STATE_CONTROL, ZPT_REQ_CAPTURE_CONTROL, ZPT_REQ_CAPTURE_DESCRIBE}"

definition answers_request :: "u8 \<Rightarrow> frame \<Rightarrow> bool" where
  "answers_request type answer \<longleftrightarrow> fst answer = response_to type \<and> fst answer \<noteq> ZPT_RESP_TUNING_RESULT \<or>
     fst answer = ZPT_RESP_TUNING_RESULT \<and> length (snd answer) = 8 \<and> snd answer ! 0 = type"

lemma device_result_answers [simp]: "answers_request type (zpt_send_device_result type error device v)"
  by (simp add: answers_request_def zpt_send_device_result_def)

lemma tuning_result_answers [simp]: "answers_request type (zpt_send_tuning_result type error t p v)"
  by (simp add: answers_request_def)

lemma own_response_answers:
  "answers_request ZPT_REQ_DEVICE_LIST (ZPT_RESP_DEVICE_LIST, bytes)"
  "answers_request ZPT_REQ_DEVICE_DESCRIBE (ZPT_RESP_DEVICE_DESCRIPTION, bytes)"
  "answers_request ZPT_REQ_DESCRIBE (ZPT_RESP_DESCRIBE, bytes)"
  "answers_request ZPT_REQ_PING (ZPT_RESP_ACK, bytes)"
  "answers_request ZPT_REQ_STATE_CONTROL (ZPT_RESP_STATE_STATUS, bytes)"
  "answers_request ZPT_REQ_CAPTURE_CONTROL (ZPT_RESP_CAPTURE_STATUS, bytes)"
  "answers_request ZPT_REQ_CAPTURE_DESCRIBE (ZPT_RESP_CAPTURE_DESCRIPTION, bytes)"
  by (simp_all add: answers_request_def response_to_def zpt_is_tuning_request_def)

lemma description_answers:
  "answers_request ZPT_REQ_DEVICE_DESCRIBE (fst (zpt_send_device_description remote device central halves))"
  by (simp add: zpt_send_device_description_def own_response_answers split_beta Let_def split: option.split)

lemma preview_answers:
  "answers_request ZPT_REQ_DEVICE_PREVIEW (fst (zpt_handle_device_preview remote payload central halves))"
  by (simp add: zpt_handle_device_preview_def split_beta Let_def split: option.split)

lemma device_answers:
  assumes "zpt_is_device_request type"
  shows "answers_request type (fst (zpt_dispatch_device remote (type, payload) central halves))"
proof -
  consider "type = ZPT_REQ_DEVICE_LIST" | "type = ZPT_REQ_DEVICE_DESCRIBE" | "type = ZPT_REQ_DEVICE_PREVIEW"
    using assms by (auto simp: zpt_is_device_request_def)
  then show ?thesis
    by cases (simp_all add: zpt_dispatch_device_def zpt_send_device_list_def own_response_answers description_answers
        preview_answers split_beta Let_def)
qed

lemma tuning_request_answers:
  assumes "zpt_is_tuning_request type"
  obtains answer where "fst (zpt_dispatch_tuning reg w (type, payload)) = Some answer" "answers_request type answer"
  using tuning_answers [of "(type, payload)" reg w] assms
  by (auto simp: answers_def answers_request_def response_to_def split: option.splits)

lemma drain_state_contact:
  "drain_state link host_timeout clock n (st, l) = (outcome, st', l') \<Longrightarrow> last_contact st' = last_contact st"
proof (induction n arbitrary: clock st l)
  case (Suc n)
  have "last_contact (fst (snd (drain_record link host_timeout (clock 0) (st, l)))) = last_contact st"
    by (simp add: drain_record_def zpt_send_state_def split_beta Let_def zpt_state_disable_all_def split: list.split)
  with Suc show ?case by (auto simp: Let_def split: prod.splits if_splits)
qed simp

lemma drain_records_contact:
  assumes "zpt_drain_records link host_timeout clock now arrivals (st, v, l) = Some (st', v', l')"
  shows "last_contact st' = last_contact st"
  using assms drain_state_contact
  by (fastforce simp: zpt_drain_records_def Let_def split: prod.splits if_splits)

lemma capture_status_answers: "answers_request ZPT_REQ_CAPTURE_CONTROL (zpt_send_capture_status reg tw w v)"
  by (simp add: zpt_send_capture_status_def own_response_answers)

lemma capture_control_answers:
  assumes "zpt_handle_capture_control link host_timeout clock now arrivals arrivals' reg tw lock_all unlock_all payload
      (st, v, w, l) = Some (st', v', w', l')"
  obtains answer before where "answers_request ZPT_REQ_CAPTURE_CONTROL answer" "l' = zpt_send_frame link answer before"
    "last_contact st' = last_contact st"
proof (cases "length payload = 1")
  case True
  with assms obtain v1 l1 v2 l2 where drained: "zpt_drain_records link host_timeout clock now arrivals (st, zpt_capture_stop v, l) = Some (st', v1, l1)"
    "l' = zpt_send_frame link (zpt_send_capture_status reg tw w' v') l2"
    by (auto simp: zpt_handle_capture_control_def Let_def simp del: split_paired_All split: option.splits prod.splits)
  show thesis by (rule that [OF capture_status_answers drained(2) drain_records_contact [OF drained(1)]])
next
  case False
  then show thesis using assms by (auto simp: zpt_handle_capture_control_def intro: that [OF capture_status_answers])
qed

lemma capture_description_answers:
  "answers_request ZPT_REQ_CAPTURE_DESCRIBE (zpt_send_capture_description reg tw w v payload capacity)"
  by (simp add: zpt_send_capture_description_def own_response_answers split_beta Let_def)

lemma answered_by:
  assumes "s' = answer_with b answer u" "answers_request type answer"
  shows "\<exists>answer l. answers_request type answer \<and> (type \<noteq> ZPT_REQ_CAPTURE_CONTROL \<longrightarrow> l = host_state u) \<and>
    sv_link_states s' = (sv_link_states u)[sv_host_link u := zpt_send_frame (ln_transport (sb_links b ! sv_host_link u)) answer l] \<and>
    last_contact (sv_state s') = last_contact (sv_state u)"
  using assms by (intro exI [of _ answer] exI [of _ "host_state u"])
    (simp add: answer_with_def with_host_state_def host_transport_def)

lemma other_request_answers:
  assumes "\<not> zpt_is_tuning_request type" "\<not> zpt_is_device_request type" "known_request type"
    and "zpt_dispatch b q (type, payload) s = Some s'"
  shows "\<exists>answer l. answers_request type answer \<and> (type \<noteq> ZPT_REQ_CAPTURE_CONTROL \<longrightarrow> l = host_state s) \<and>
    sv_link_states s' = (sv_link_states s)[sv_host_link s := zpt_send_frame (host_transport b s) answer l] \<and>
    last_contact (sv_state s') = sc_now q"
proof (cases "type = ZPT_REQ_CAPTURE_CONTROL")
  case True
  then obtain st v w l where handled: "zpt_handle_capture_control (host_transport b s) (sb_host_timeout b) (sc_clock q) (sc_now q)
      (sc_before q) (sc_during q) (sb_registry b) (sv_tuning s) (sc_lock_all q) (sc_unlock_all q) payload
      ((sv_state s)\<lparr>last_contact := sc_now q\<rparr>, sv_capture s, sv_pipelines s, host_state s) = Some (st, v, w, l)"
    "sv_link_states s' = (sv_link_states s)[sv_host_link s := l]" "sv_state s' = st"
    using assms(1,2,4)
    by (auto simp: zpt_dispatch_def Let_def zpt_note_contact_def with_host_state_def host_transport_def)
  from capture_control_answers [OF handled(1)] obtain answer before where "answers_request ZPT_REQ_CAPTURE_CONTROL answer"
    "l = zpt_send_frame (host_transport b s) answer before" "last_contact st = sc_now q" by auto
  then show ?thesis using True handled(2,3) by blast
next
  case False
  obtain answer noted where "answers_request type answer" "s' = answer_with b answer (s\<lparr>sv_state := noted\<rparr>)"
    "last_contact noted = sc_now q"
  proof -
    note sent = that
    have state: "last_contact (snd (zpt_handle_state_control (sb_registry b) payload ((sv_state s)\<lparr>last_contact := sc_now q\<rparr>))) = sc_now q"
      by (subst control_keeps) simp
    consider "type = ZPT_REQ_DESCRIBE" | "type = ZPT_REQ_PING" | "type = ZPT_REQ_STATE_CONTROL" | "type = ZPT_REQ_CAPTURE_DESCRIBE"
      using assms(1,2,3) False by (auto simp: known_request_def)
    then show thesis
    proof cases
      case 1
      show thesis by (rule sent [of zpt_send_describe "(sv_state s)\<lparr>last_contact := sc_now q\<rparr>"])
          (use 1 assms in \<open>simp_all add: zpt_dispatch_def Let_def zpt_note_contact_def zpt_send_describe_def own_response_answers\<close>)
    next
      case 2
      show thesis by (rule sent [of "zpt_send_ack ((sv_state s)\<lparr>last_contact := sc_now q\<rparr>) (sv_capture s)" "(sv_state s)\<lparr>last_contact := sc_now q\<rparr>"])
          (use 2 assms in \<open>simp_all add: zpt_dispatch_def Let_def zpt_note_contact_def zpt_send_ack_def own_response_answers\<close>)
    next
      case 3
      show thesis by (rule sent [of "zpt_send_state_status (sb_registry b)
            (snd (zpt_handle_state_control (sb_registry b) payload ((sv_state s)\<lparr>last_contact := sc_now q\<rparr>)))", OF _ _ state])
          (use 3 assms in \<open>simp_all add: zpt_dispatch_def Let_def zpt_note_contact_def zpt_handle_state_control_def
            zpt_send_state_status_def own_response_answers\<close>)
    next
      case 4
      show thesis by (rule sent [of "zpt_send_capture_description (sb_registry b) (sv_tuning s) (sv_pipelines s) (sv_capture s)
            payload (sb_large_payload b)" "(sv_state s)\<lparr>last_contact := sc_now q\<rparr>"])
          (use 4 assms in \<open>simp_all add: zpt_dispatch_def Let_def zpt_note_contact_def capture_description_answers\<close>)
    qed
  qed
  then show ?thesis using answered_by [of s' b _ _ type] by (fastforce simp: host_transport_def simp del: split_paired_Ex)
qed

text \<open>
Property C14. A request of a known type that its handler finishes is answered with exactly one frame, sent
last, on the link the request came from: the type's own response, or an eight-byte result that names the
request; a request for a capture may send records before it. It counts as contact with the host.
Nothing else in the protocol sends: the other links are untouched, and a request of an unknown
type changes nothing but the link in use.
\<close>

theorem every_request_is_answered:
  assumes "zpt_dispatch_frame b q i (type, payload) s = Some s'" "i < length (sv_link_states s)"
  shows "if known_request type
    then \<exists>answer l. answers_request type answer \<and> (type \<noteq> ZPT_REQ_CAPTURE_CONTROL \<longrightarrow> l = sv_link_states s ! i) \<and>
      sv_link_states s' = (sv_link_states s)[i := zpt_send_frame (ln_transport (sb_links b ! i)) answer l] \<and>
      last_contact (sv_state s') = sc_now q
    else s' = s\<lparr>sv_host_link := i\<rparr>"
proof -
  let ?s = "s\<lparr>sv_host_link := i\<rparr>"
  have run: "zpt_dispatch b q (type, payload) ?s = Some s'" using assms(1) by (simp add: zpt_dispatch_frame_def)
  consider "zpt_is_tuning_request type" | "zpt_is_device_request type" "\<not> zpt_is_tuning_request type"
    | "known_request type" "\<not> zpt_is_device_request type" "\<not> zpt_is_tuning_request type" | "\<not> known_request type"
    by blast
  then show ?thesis
  proof cases
    case 1
    obtain answer where "fst (zpt_dispatch_tuning (sb_registry b) (sv_tuning s) (type, payload)) = Some answer"
      "answers_request type answer" by (rule tuning_request_answers [OF 1])
    moreover from this obtain tw where
      "s' = answer_with b answer (?s\<lparr>sv_state := (sv_state s)\<lparr>last_contact := sc_now q\<rparr>, sv_tuning := tw\<rparr>)"
      using 1 run by (auto simp: zpt_dispatch_def Let_def zpt_note_contact_def split: prod.splits)
    ultimately show ?thesis using 1 answered_by [of s' b answer _ type] by (fastforce simp: known_request_def simp del: split_paired_Ex)
  next
    case 2
    obtain answer central halves where
      answer: "zpt_dispatch_device (sb_remote b) (type, payload) (sv_central s) (sv_halves s) = (answer, central, halves)"
      by (metis prod_cases3)
    then have "s' = answer_with b answer (?s\<lparr>sv_state := (sv_state s)\<lparr>last_contact := sc_now q\<rparr>,
        sv_central := central, sv_halves := halves\<rparr>)"
      using 2 run by (simp add: zpt_dispatch_def zpt_note_contact_def)
    moreover have "answers_request type answer"
      using device_answers [OF 2(1), of "sb_remote b" payload "sv_central s" "sv_halves s"] by (simp add: answer)
    ultimately show ?thesis using 2 answered_by [of s' b answer _ type] by (fastforce simp: known_request_def simp del: split_paired_Ex)
  next
    case 3
    then show ?thesis using other_request_answers [OF 3(3,2,1) run] by (simp add: host_transport_def)
  next
    case 4
    then show ?thesis using run by (auto simp: zpt_dispatch_def known_request_def Let_def)
  qed
qed

text \<open>A ping over the second of two links, with contact lost for a long time.\<close>

definition demo_build :: "(unit, unit, zpt_gatt) service_build" where
  "demo_build = \<lparr>sb_links = replicate 2 \<lparr>ln_transport = zpt_gatt_transport, ln_rx_get = (\<lambda>g. None), ln_take_reset = None\<rparr>,
     sb_registry = \<lparr>zpt_tuning_targets = [], max_targets = 1\<rparr>, sb_remote = None, sb_host_timeout = 1000,
     sb_large_payload = 200\<rparr>"

definition demo_host :: "(unit, u16, unit, unit, zpt_gatt) host_service" where
  "demo_host = \<lparr>sv_link_states = replicate 2 (demo_gatt []), sv_parsers = replicate 2 new_parser, sv_host_link = 0,
     sv_tuning = (), sv_central = demo_central, sv_halves = (), sv_state = demo_telemetry, sv_capture = demo_service,
     sv_pipelines = described_world\<rparr>"

definition demo_schedule :: worker_schedule where
  "demo_schedule = \<lparr>sc_clock = (\<lambda>k. 0), sc_now = 900000, sc_before = (\<lambda>k. ([], [])), sc_during = (\<lambda>k. ([], [])),
     sc_lock_all = 0, sc_unlock_all = 0\<rparr>"

theorem every_request_is_answered_witness:
  "(\<exists>answer l. answers_request 3 answer \<and> l = demo_gatt [] \<and>
      sv_link_states (the (zpt_dispatch_frame demo_build demo_schedule 1 (3, []) demo_host)) =
        [demo_gatt [], zpt_send_frame zpt_gatt_transport answer l] \<and>
      last_contact (sv_state (the (zpt_dispatch_frame demo_build demo_schedule 1 (3, []) demo_host))) = 900000) \<and>
   gatt_notified (sv_link_states (the (zpt_dispatch_frame demo_build demo_schedule 1 (3, []) demo_host)) ! 1) =
     encode_frame (0x82, [0, 0, 0, 0, 7, 0, 0, 0])"
proof
  let ?run = "zpt_dispatch_frame demo_build demo_schedule 1 (3, []) demo_host"
  have run: "?run = Some (the ?run)"
    by (simp add: zpt_dispatch_frame_def zpt_dispatch_def zpt_is_tuning_request_def zpt_is_device_request_def Let_def)
  have known: "known_request 3" by (simp add: known_request_def)
  have links: "sv_link_states demo_host = [demo_gatt [], demo_gatt []]" by (simp add: demo_host_def numeral_eq_Suc)
  have transport: "ln_transport (sb_links demo_build ! 1) = zpt_gatt_transport" by (simp add: demo_build_def)
  have contact: "sc_now demo_schedule = 900000" by (simp add: demo_schedule_def)
  show "\<exists>answer l. answers_request 3 answer \<and> l = demo_gatt [] \<and>
      sv_link_states (the ?run) = [demo_gatt [], zpt_send_frame zpt_gatt_transport answer l] \<and>
      last_contact (sv_state (the ?run)) = 900000"
    using every_request_is_answered [OF run] by (simp only: known transport contact) (simp add: links)
  have answer: "zpt_send_ack demo_telemetry demo_service = (0x82, [0, 0, 0, 0, 7, 0, 0, 0])" by code_simp
  have sent: "gatt_notified (zpt_send_frame zpt_gatt_transport (0x82, [0, 0, 0, 0, 7, 0, 0, 0]) (demo_gatt [])) =
    encode_frame (0x82, [0, 0, 0, 0, 7, 0, 0, 0])" by code_simp
  have ack: "zpt_send_ack (demo_telemetry\<lparr>last_contact := t\<rparr>) v = zpt_send_ack demo_telemetry v" for t v
    by (simp add: zpt_send_ack_def)
  have "sv_link_states (the ?run) ! 1 = zpt_send_frame zpt_gatt_transport (zpt_send_ack demo_telemetry demo_service) (demo_gatt [])"
    using transport
    by (simp add: zpt_dispatch_frame_def zpt_dispatch_def zpt_is_tuning_request_def zpt_is_device_request_def Let_def
        answer_with_def with_host_state_def host_transport_def zpt_note_contact_def links ack)
      (simp add: demo_host_def ack)
  then show "gatt_notified (sv_link_states (the ?run) ! 1) = encode_frame (0x82, [0, 0, 0, 0, 7, 0, 0, 0])"
    by (simp add: answer sent)
qed

end
