(* ===== verification/Router_Executor.thy ===== *)
theory Router_Executor
  imports Router
begin

text \<open>
  The router under Zephyr (\<open>platform/zmk/router_executor.h\<close>, \<open>platform/zmk/router_executor.c\<close>): every
  operation holds the executor's mutex, and afterwards the delayable work of the executor is set to
  the router's next deadline; when it runs it flushes the router.

  The mutex and the delayable work are objects of the kernel: their operations are an argument, and
  what the code relies on of them is the predicate \<open>kernel_laws\<close>. Executors are members of other
  objects in all callers, so a null executor is not represented; \<open>ex_router\<close> is null before
  initialisation, and holds the router the pointer leads to afterwards.
\<close>

record 'z kernel_ops =
  k_mutex_lock :: "'z \<Rightarrow> int \<times> 'z"
  k_mutex_unlock :: "'z \<Rightarrow> int \<times> 'z"
  k_work_is_pending :: "'z \<Rightarrow> bool"
  k_work_cancel :: "'z \<Rightarrow> int \<times> 'z"
  k_work_reschedule :: "u32 \<Rightarrow> 'z \<Rightarrow> int \<times> 'z"
  k_objects_init :: 'z

record 'z zpt_zmk_router_executor =
  ex_kernel :: 'z
  ex_router :: "zpt_router option"

section \<open>Operations\<close>

definition update_deadline_locked :: "'z kernel_ops \<Rightarrow> 'z zpt_zmk_router_executor \<Rightarrow> ('c, 's, 'k) world \<Rightarrow> u32 \<Rightarrow>
    int \<times> 'z zpt_zmk_router_executor" where
  "update_deadline_locked ops ex w now =
     (case zpt_router_next_deadline (the (ex_router ex)) w now of
        None \<Rightarrow>
          if k_work_is_pending ops (ex_kernel ex)
          then let (ret, z) = k_work_cancel ops (ex_kernel ex)
               in (if ret < 0 then ret else 0, ex\<lparr>ex_kernel := z\<rparr>)
          else (0, ex)
      | Some deadline \<Rightarrow>
          let delay_ms = (if time_reached now deadline then 0 else deadline - now);
              (ret, z) = k_work_reschedule ops delay_ms (ex_kernel ex)
          in (if ret < 0 then ret else 0, ex\<lparr>ex_kernel := z\<rparr>))"

definition lock_executor :: "'z kernel_ops \<Rightarrow> 'z zpt_zmk_router_executor \<Rightarrow> int \<times> 'z zpt_zmk_router_executor" where
  "lock_executor ops ex =
     (if ex_router ex = None then (- EINVAL, ex)
      else let (ret, z) = k_mutex_lock ops (ex_kernel ex) in (ret, ex\<lparr>ex_kernel := z\<rparr>))"

definition unlock_with_result :: "'z kernel_ops \<Rightarrow> 'z zpt_zmk_router_executor \<Rightarrow> int \<Rightarrow> int \<Rightarrow> int \<times> 'z zpt_zmk_router_executor" where
  "unlock_with_result ops ex operation_result deadline_result =
     (let (unlock_result, z) = k_mutex_unlock ops (ex_kernel ex); ex = ex\<lparr>ex_kernel := z\<rparr>
      in if operation_result < 0 then (operation_result, ex)
         else if deadline_result < 0 then (deadline_result, ex)
         else (unlock_result, ex))"

text \<open>The clock an operation reads with \<open>k_uptime_get_32\<close> is its argument \<open>uptime\<close>.\<close>

definition zpt_zmk_router_executor_activate :: "'z kernel_ops \<Rightarrow> u32 \<Rightarrow> zpt_reset_reason \<Rightarrow>
    'z zpt_zmk_router_executor \<Rightarrow> ('c, 's, 'k) world \<Rightarrow> int \<times> 'z zpt_zmk_router_executor \<times> ('c, 's, 'k) world" where
  "zpt_zmk_router_executor_activate ops uptime reason ex w =
     (let (ret, ex) = lock_executor ops ex in
      if ret < 0 then (ret, ex, w)
      else
        let (operation_result, r, w) = zpt_router_activate (the (ex_router ex)) reason w;
            ex = ex\<lparr>ex_router := Some r\<rparr>;
            (deadline_result, ex) = (if operation_result < 0 then (0, ex) else update_deadline_locked ops ex w uptime);
            (ret, ex) = unlock_with_result ops ex operation_result deadline_result
        in (ret, ex, w))"

definition zpt_zmk_router_executor_select :: "'z kernel_ops \<Rightarrow> nat \<Rightarrow> u32 \<Rightarrow>
    'z zpt_zmk_router_executor \<Rightarrow> ('c, 's, 'k) world \<Rightarrow> int \<times> 'z zpt_zmk_router_executor \<times> ('c, 's, 'k) world" where
  "zpt_zmk_router_executor_select ops pipeline_index now ex w =
     (let (ret, ex) = lock_executor ops ex in
      if ret < 0 then (ret, ex, w)
      else
        let (operation_result, result, r, w) = zpt_router_select (the (ex_router ex)) pipeline_index now w;
            ex = ex\<lparr>ex_router := Some r\<rparr>;
            (deadline_result, ex) = update_deadline_locked ops ex w now;
            (ret, ex) = unlock_with_result ops ex operation_result deadline_result
        in (ret, ex, w))"

definition zpt_zmk_router_executor_push :: "'z kernel_ops \<Rightarrow> u32 \<Rightarrow> zpt_signal \<Rightarrow>
    'z zpt_zmk_router_executor \<Rightarrow> ('c, 's, 'k) world \<Rightarrow> int \<times> 'z zpt_zmk_router_executor \<times> ('c, 's, 'k) world" where
  "zpt_zmk_router_executor_push ops uptime s ex w =
     (let (ret, ex) = lock_executor ops ex in
      if ret < 0 then (ret, ex, w)
      else
        let (operation_result, result, w) = zpt_router_push (the (ex_router ex)) s w;
            (deadline_result, ex) = update_deadline_locked ops ex w uptime;
            (ret, ex) = unlock_with_result ops ex operation_result deadline_result
        in (ret, ex, w))"

definition zpt_zmk_router_executor_flush :: "'z kernel_ops \<Rightarrow> u32 \<Rightarrow>
    'z zpt_zmk_router_executor \<Rightarrow> ('c, 's, 'k) world \<Rightarrow> int \<times> 'z zpt_zmk_router_executor \<times> ('c, 's, 'k) world" where
  "zpt_zmk_router_executor_flush ops now ex w =
     (let (ret, ex) = lock_executor ops ex in
      if ret < 0 then (ret, ex, w)
      else
        let (operation_result, result, w) = zpt_router_flush (the (ex_router ex)) now w;
            (deadline_result, ex) = update_deadline_locked ops ex w now;
            (ret, ex) = unlock_with_result ops ex operation_result deadline_result
        in (ret, ex, w))"

definition zpt_zmk_router_executor_lock :: "'z kernel_ops \<Rightarrow> 'z zpt_zmk_router_executor \<Rightarrow> int \<times> 'z zpt_zmk_router_executor" where
  "zpt_zmk_router_executor_lock ops ex = lock_executor ops ex"

definition zpt_zmk_router_executor_unlock :: "'z kernel_ops \<Rightarrow> 'z zpt_zmk_router_executor \<Rightarrow> int \<times> 'z zpt_zmk_router_executor" where
  "zpt_zmk_router_executor_unlock ops ex =
     (if ex_router ex = None then (- EINVAL, ex)
      else let (ret, z) = k_mutex_unlock ops (ex_kernel ex) in (ret, ex\<lparr>ex_kernel := z\<rparr>))"

text \<open>The work flushes the router; its code is only logged.\<close>

definition deadline_work_handler :: "'z kernel_ops \<Rightarrow> u32 \<Rightarrow>
    'z zpt_zmk_router_executor \<Rightarrow> ('c, 's, 'k) world \<Rightarrow> 'z zpt_zmk_router_executor \<times> ('c, 's, 'k) world" where
  "deadline_work_handler ops uptime ex w = snd (zpt_zmk_router_executor_flush ops uptime ex w)"

definition zpt_zmk_router_executor_init :: "'z kernel_ops \<Rightarrow> zpt_router \<Rightarrow> ('c, 's, 'k) world \<Rightarrow>
    int \<times> 'z zpt_zmk_router_executor \<times> ('c, 's, 'k) world" where
  "zpt_zmk_router_executor_init ops r w =
     (let (ret, r, w) = zpt_router_validate r w
      in (ret, \<lparr>ex_kernel = k_objects_init ops, ex_router = Some r\<rparr>, w))"

section \<open>What is relied on of the kernel\<close>

text \<open>
  \<open>held z\<close> is how often the calling thread holds the mutex, \<open>due z\<close> the delay the pending work was
  scheduled with. Waiting for a mutex forever gets it or fails; the owner can unlock it; a work that
  is scheduled is reported pending (one that is running may be too); a cancelled work that is reported cancelled is not pending, and a rescheduled one is pending with
  its new delay.
\<close>

definition kernel_laws :: "'z kernel_ops \<Rightarrow> ('z \<Rightarrow> nat) \<Rightarrow> ('z \<Rightarrow> u32 option) \<Rightarrow> bool" where
  "kernel_laws ops held due \<longleftrightarrow>
     (\<forall>z ret z'. k_mutex_lock ops z = (ret, z') \<longrightarrow>
        held z' = (if ret < 0 then held z else Suc (held z)) \<and> due z' = due z) \<and>
     (\<forall>z ret z'. k_mutex_unlock ops z = (ret, z') \<longrightarrow> 0 < held z \<longrightarrow>
        ret = 0 \<and> held z' = held z - 1 \<and> due z' = due z) \<and>
     (\<forall>z. due z \<noteq> None \<longrightarrow> k_work_is_pending ops z) \<and>
     (\<forall>z ret z'. k_work_cancel ops z = (ret, z') \<longrightarrow> held z' = held z \<and> (0 \<le> ret \<longrightarrow> due z' = None)) \<and>
     (\<forall>z d ret z'. k_work_reschedule ops d z = (ret, z') \<longrightarrow> held z' = held z \<and> (0 \<le> ret \<longrightarrow> due z' = Some d))"

section \<open>The work waits for the earliest deadline\<close>

text \<open>The delay the work has to be scheduled with at \<open>now\<close>.\<close>

definition wanted_delay :: "zpt_router \<Rightarrow> ('c, 's, 'k) world \<Rightarrow> u32 \<Rightarrow> u32 option" where
  "wanted_delay r w now =
     map_option (\<lambda>deadline. if time_reached now deadline then 0 else deadline - now) (zpt_router_next_deadline r w now)"

text \<open>The operations of an executor, and what each asks of the router.\<close>

datatype executor_op = ExActivate zpt_reset_reason u32 | ExSelect nat u32 | ExPush zpt_signal u32 | ExFlush u32

fun executor_step :: "'z kernel_ops \<Rightarrow> executor_op \<Rightarrow> 'z zpt_zmk_router_executor \<Rightarrow> ('c, 's, 'k) world \<Rightarrow>
    int \<times> 'z zpt_zmk_router_executor \<times> ('c, 's, 'k) world" where
  "executor_step ops (ExActivate reason now) ex w = zpt_zmk_router_executor_activate ops now reason ex w"
| "executor_step ops (ExSelect i now) ex w = zpt_zmk_router_executor_select ops i now ex w"
| "executor_step ops (ExPush s now) ex w = zpt_zmk_router_executor_push ops now s ex w"
| "executor_step ops (ExFlush now) ex w = zpt_zmk_router_executor_flush ops now ex w"

fun router_part :: "executor_op \<Rightarrow> zpt_router \<Rightarrow> ('c, 's, 'k) world \<Rightarrow> int \<times> zpt_router \<times> ('c, 's, 'k) world" where
  "router_part (ExActivate reason now) r w = zpt_router_activate r reason w"
| "router_part (ExSelect i now) r w = (let (ret, res, r, w) = zpt_router_select r i now w in (ret, r, w))"
| "router_part (ExPush s now) r w = (let (ret, res, w) = zpt_router_push r s w in (ret, r, w))"
| "router_part (ExFlush now) r w = (let (ret, res, w) = zpt_router_flush r now w in (ret, r, w))"

fun asked_at :: "executor_op \<Rightarrow> u32" where
  "asked_at (ExActivate reason now) = now"
| "asked_at (ExSelect i now) = now"
| "asked_at (ExPush s now) = now"
| "asked_at (ExFlush now) = now"

lemma lock_effect:
  assumes "kernel_laws ops held due" "ex_router ex = Some r" "lock_executor ops ex = (ret, ex')"
  shows "ex_router ex' = Some r \<and> due (ex_kernel ex') = due (ex_kernel ex) \<and>
    held (ex_kernel ex') = (if ret < 0 then held (ex_kernel ex) else Suc (held (ex_kernel ex)))"
  using assms by (auto simp: lock_executor_def kernel_laws_def split: prod.splits)

lemma update_deadline_effect:
  assumes "kernel_laws ops held due" "ex_router ex = Some r" "update_deadline_locked ops ex w now = (ret, ex')"
  shows "ret \<le> 0 \<and> ex_router ex' = Some r \<and> held (ex_kernel ex') = held (ex_kernel ex) \<and>
    (ret = 0 \<longrightarrow> due (ex_kernel ex') = wanted_delay r w now)"
  using assms
  by (auto simp: update_deadline_locked_def kernel_laws_def wanted_delay_def Let_def
      split: option.splits if_splits prod.splits)

lemma unlock_effect:
  assumes "kernel_laws ops held due" "0 < held (ex_kernel ex)" "unlock_with_result ops ex o1 d1 = (ret, ex')"
  shows "ret = (if o1 < 0 then o1 else if d1 < 0 then d1 else 0) \<and> ex_router ex' = ex_router ex \<and>
    held (ex_kernel ex') = held (ex_kernel ex) - 1 \<and> due (ex_kernel ex') = due (ex_kernel ex)"
  using assms by (auto simp: unlock_with_result_def kernel_laws_def Let_def split: if_splits prod.splits)

lemma update_deadline_succeeds:
  assumes "\<forall>z d. 0 \<le> fst (k_work_cancel ops z) \<and> 0 \<le> fst (k_work_reschedule ops d z)"
  shows "fst (update_deadline_locked ops ex w now) = 0"
proof -
  have "\<not> fst (k_work_cancel ops z) < 0" "\<not> fst (k_work_reschedule ops d z) < 0" for z d using assms by (auto simp: not_less)
  then show ?thesis by (simp add: update_deadline_locked_def Let_def split_beta split: option.split)
qed

text \<open>An operation between lock and unlock; \<open>skip\<close> leaves the work alone.\<close>

lemma locked_operation:
  assumes "kernel_laws ops held due" "ex_router ex = Some r" "lock_executor ops ex = (lret, taken)" "0 \<le> lret"
    and "(if skip then (0, taken\<lparr>ex_router := Some r'\<rparr>) else update_deadline_locked ops (taken\<lparr>ex_router := Some r'\<rparr>) w1 now) = (dret, dex)"
    and "unlock_with_result ops dex oret dret = (ret, ex')"
  shows "held (ex_kernel ex') = held (ex_kernel ex) \<and> ex_router ex' = Some r' \<and> (oret < 0 \<longrightarrow> ret = oret) \<and>
    (skip \<longrightarrow> due (ex_kernel ex') = due (ex_kernel ex)) \<and>
    (\<not> skip \<longrightarrow> 0 \<le> ret \<or> (\<forall>z d. 0 \<le> fst (k_work_cancel ops z) \<and> 0 \<le> fst (k_work_reschedule ops d z)) \<longrightarrow>
      due (ex_kernel ex') = wanted_delay r' w1 now)"
proof -
  have locked: "held (ex_kernel taken) = Suc (held (ex_kernel ex))" "due (ex_kernel taken) = due (ex_kernel ex)"
    using lock_effect [OF assms(1-3)] assms(4) by simp_all
  have timed: "dret \<le> 0 \<and> ex_router dex = Some r' \<and> held (ex_kernel dex) = Suc (held (ex_kernel ex)) \<and>
      (skip \<longrightarrow> due (ex_kernel dex) = due (ex_kernel ex)) \<and>
      (\<not> skip \<longrightarrow> dret = 0 \<longrightarrow> due (ex_kernel dex) = wanted_delay r' w1 now)"
    using update_deadline_effect [OF assms(1), of "taken\<lparr>ex_router := Some r'\<rparr>" r' w1 now dret dex] assms(5) locked
    by (auto split: if_splits)
  have "dret = 0" if "\<not> skip" "\<forall>z d. 0 \<le> fst (k_work_cancel ops z) \<and> 0 \<le> fst (k_work_reschedule ops d z)"
    using update_deadline_succeeds [OF that(2), of "taken\<lparr>ex_router := Some r'\<rparr>" w1 now] assms(5) that(1) by simp
  with timed unlock_effect [OF assms(1) _ assms(6)] show ?thesis by (auto split: if_splits)
qed

lemma same_router: "ex_router ex = Some r \<Longrightarrow> lock_executor ops ex = (lret, taken) \<Longrightarrow> taken\<lparr>ex_router := Some r\<rparr> = taken"
  by (auto simp: lock_executor_def split: prod.splits)

text \<open>
Property C37. Whatever an executor's operation meets, the mutex is released as often as it was taken.
If it was not taken, nothing has happened. Otherwise the router has done exactly its own operation,
whose error is returned before any other; and when the kernel took the schedule, the work is
pending if and only if a stage of the active pipeline waits for a flush, with the delay from the
operation's time to the earliest deadline, or none for one that has passed. An activation that
fails leaves the work as it was.
\<close>

theorem executor_waits_for_the_earliest_deadline:
  assumes "kernel_laws ops held due" "ex_router ex = Some r"
    and "executor_step ops op ex w = (ret, ex', w')" "router_part op r w = (oret, r', w1)"
  shows "held (ex_kernel ex') = held (ex_kernel ex) \<and>
    (if fst (lock_executor ops ex) < 0
     then ret < 0 \<and> ex_router ex' = Some r \<and> w' = w \<and> due (ex_kernel ex') = due (ex_kernel ex)
     else ex_router ex' = Some r' \<and> w' = w1 \<and> (oret < 0 \<longrightarrow> ret = oret) \<and>
       (\<forall>reason now. op = ExActivate reason now \<and> oret < 0 \<longrightarrow> due (ex_kernel ex') = due (ex_kernel ex)) \<and>
       (0 \<le> ret \<or> (\<forall>z d. 0 \<le> fst (k_work_cancel ops z) \<and> 0 \<le> fst (k_work_reschedule ops d z)) \<and>
          (\<forall>reason now. op \<noteq> ExActivate reason now) \<longrightarrow>
        due (ex_kernel ex') = wanted_delay r' w1 (asked_at op)))"
proof -
  obtain lret taken where lock: "lock_executor ops ex = (lret, taken)" by fastforce
  note router = same_router [OF assms(2) lock] lock_effect [OF assms(1,2) lock]
  show ?thesis
  proof (cases "lret < 0")
    case True
    with lock assms(3) have "ret = lret \<and> ex' = taken \<and> w' = w"
      by (cases op) (auto simp: zpt_zmk_router_executor_activate_def zpt_zmk_router_executor_select_def
          zpt_zmk_router_executor_push_def zpt_zmk_router_executor_flush_def)
    then show ?thesis using router True lock by simp
  next
    case False
    let ?skip = "(\<exists>reason now. op = ExActivate reason now) \<and> oret < 0"
    obtain dret dex where timed: "(if ?skip then (0, taken\<lparr>ex_router := Some r'\<rparr>)
        else update_deadline_locked ops (taken\<lparr>ex_router := Some r'\<rparr>) w1 (asked_at op)) = (dret, dex)" by fastforce
    have "unlock_with_result ops dex oret dret = (ret, ex') \<and> w' = w1"
    proof (cases op)
      case (ExActivate reason now)
      then show ?thesis using assms(3,4) lock False router timed
        by (auto simp: zpt_zmk_router_executor_activate_def split: prod.splits if_splits)
    next
      case (ExSelect i now)
      then show ?thesis using assms(3,4) lock False router timed
        by (auto simp: zpt_zmk_router_executor_select_def split: prod.splits)
    next
      case (ExPush s now)
      moreover from this have "update_deadline_locked ops taken w1 now = (dret, dex)"
        using timed router(1) assms(4) by (auto split: prod.splits)
      ultimately show ?thesis using assms(3,4) lock False router(2)
        by (auto simp: zpt_zmk_router_executor_push_def split: prod.splits)
    next
      case (ExFlush now)
      moreover from this have "update_deadline_locked ops taken w1 now = (dret, dex)"
        using timed router(1) assms(4) by (auto split: prod.splits)
      ultimately show ?thesis using assms(3,4) lock False router(2)
        by (auto simp: zpt_zmk_router_executor_flush_def split: prod.splits)
    qed
    moreover have "0 \<le> lret" using False by simp
    note locked_operation [OF assms(1,2) lock this timed, of oret ret ex']
    ultimately show ?thesis using False lock by (simp del: split_paired_All) (metis linorder_not_less)
  qed
qed

text \<open>
  A kernel with one thread that always grants: how often the mutex is held and the delay of the
  pending work. A frame of the wrong kind arrives while a stage waits until 50 ms.
\<close>

definition plain_kernel :: "(nat \<times> u32 option) kernel_ops" where
  "plain_kernel = \<lparr>k_mutex_lock = (\<lambda>(h, d). (0, (Suc h, d))),
     k_mutex_unlock = (\<lambda>(h, d). if h = 0 then (- EINVAL, (h, d)) else (0, (h - 1, d))),
     k_work_is_pending = (\<lambda>(h, d). d \<noteq> None), k_work_cancel = (\<lambda>(h, d). (0, (h, None))),
     k_work_reschedule = (\<lambda>delay (h, d). (1, (h, Some delay))), k_objects_init = (0, None)\<rparr>"

lemma plain_kernel_laws: "kernel_laws plain_kernel fst snd"
  by (auto simp: kernel_laws_def plain_kernel_def)

definition waiting_world :: "(unit, nat, zpt_signal list) world" where
  "waiting_world = update_stage 0 (\<lambda>st. st\<lparr>stg_deadline_pending := True, stg_deadline_ms := 50\<rparr>) (snd two_started)"

definition stray_frame :: zpt_signal where
  "stray_frame = \<lparr>kind = SIGNAL_ACTION, metadata = zero_metadata, annotations = zero_annotations, data = Action 1\<rparr>"

lemmas started_run = two_started_def two_run zpt_router_activate_def zpt_pipeline_activate_def activate_sink_def log_if_def

lemma started_router: "rt_validated (fst two_started)" "rt_input_kind (fst two_started) = SIGNAL_NORMALIZED_MOTION"
  by (simp_all add: started_run)

lemma started_deadline: "zpt_router_next_deadline (fst two_started) waiting_world 20 = Some 50"
proof -
  have "pl_validated (w_pipes (snd two_started) 0)" "pl_active (w_pipes (snd two_started) 0)"
    "pl_stages (w_pipes (snd two_started) 0) = [0]" by (simp_all add: started_run)
  then show ?thesis
    using two_started(4)
    by (simp add: zpt_router_next_deadline_def zpt_pipeline_next_deadline_def waiting_world_def update_stage_def Let_def)
qed

theorem executor_waits_for_the_earliest_deadline_witness:
  "let (ret, ex, w) = executor_step plain_kernel (ExPush stray_frame 20)
       \<lparr>ex_kernel = (0, None), ex_router = Some (fst two_started)\<rparr> waiting_world
   in ret = - EPROTOTYPE \<and> fst (ex_kernel ex) = 0 \<and> snd (ex_kernel ex) = Some 30 \<and> w = waiting_world"
proof -
  let ?ex = "\<lparr>ex_kernel = (0, None), ex_router = Some (fst two_started)\<rparr> :: (nat \<times> u32 option) zpt_zmk_router_executor"
  obtain ret ex w where run: "executor_step plain_kernel (ExPush stray_frame 20) ?ex waiting_world = (ret, ex, w)"
    by (metis prod_cases3)
  have refused: "router_part (ExPush stray_frame 20) (fst two_started) waiting_world = (- EPROTOTYPE, fst two_started, waiting_world)"
    using started_router by (simp add: zpt_router_push_def stray_frame_def)
  have delay: "wanted_delay (fst two_started) waiting_world 20 = Some 30"
    by (simp add: wanted_delay_def started_deadline time_reached_def)
  have grants: "\<forall>z d. 0 \<le> fst (k_work_cancel plain_kernel z) \<and> 0 \<le> fst (k_work_reschedule plain_kernel d z)"
    by (simp add: plain_kernel_def split_beta)
  have locks: "\<not> fst (lock_executor plain_kernel ?ex) < 0" by (simp add: lock_executor_def plain_kernel_def)
  from executor_waits_for_the_earliest_deadline [OF plain_kernel_laws _ run refused] grants locks
  show ?thesis using run delay by (auto simp: Let_def)
qed

end
