(* ===== verification/Platform_Router.thy ===== *)
theory Platform_Router
  imports Router_Executor Route_Override
begin

text \<open>
  The router device (\<open>platform/zmk/router.c\<close>): it routes by the keys that are held on it and by the
  active layers, through the executor, and holds the lock of every router for changes that need
  all of them. The providers of its pipelines and sinks are \<open>platform/zmk/pipeline_provider.c\<close> and
  \<open>platform/zmk/sink_provider.c\<close>, the behavior of its keys \<open>platform/zmk/behavior_route.c\<close>.

  Devices are numbers. What the device model of the kernel knows of one, whether it is ready and
  has the interface asked for, is part of its record. The keymap is an argument.
\<close>

section \<open>Providers\<close>

record sink_provider =
  sp_ready :: bool
  sp_is_provider :: bool
  sp_action :: bool
  sp_output_device :: "nat option"

text \<open>
  The output of a cursor or a scroll sink is bound once (\<open>sink/cursor.c\<close>, \<open>sink/scroll.c\<close>); an action
  sink takes any output and needs none (\<open>sink/action.c\<close>).
\<close>

definition sink_bind_output :: "nat \<Rightarrow> sink_provider \<Rightarrow> int \<times> sink_provider" where
  "sink_bind_output output_device p =
     (if sp_action p then (0, p)
      else if sp_output_device p \<noteq> None then (- EBUSY, p) else (0, p\<lparr>sp_output_device := Some output_device\<rparr>))"

definition validate_provider :: "sink_provider option \<Rightarrow> int" where
  "validate_provider dev =
     (case dev of None \<Rightarrow> - EINVAL
      | Some p \<Rightarrow> if \<not> sp_ready p then - ENODEV else if sp_is_provider p then 0 else - EPROTOTYPE)"

definition zpt_zmk_sink_provider_bind_output :: "sink_provider option \<Rightarrow> nat option \<Rightarrow> int \<times> sink_provider option" where
  "zpt_zmk_sink_provider_bind_output dev output_device =
     (case output_device of
        None \<Rightarrow> (- EINVAL, dev)
      | Some output \<Rightarrow>
          if validate_provider dev < 0 then (validate_provider dev, dev)
          else let (ret, p) = sink_bind_output output (the dev) in (ret, Some p))"

record pipeline_provider =
  pp_ready :: bool
  pp_is_provider :: bool
  pp_prepared :: bool
  pp_sink_device :: nat
  pp_pipeline :: nat

record providers =
  pv_pipelines :: "nat \<Rightarrow> pipeline_provider"
  pv_sinks :: "nat \<Rightarrow> sink_provider"

definition pipeline_provider_prepare :: "nat \<Rightarrow> nat \<Rightarrow> providers \<Rightarrow> int \<times> nat \<times> providers" where
  "pipeline_provider_prepare dev output_device pv =
     (let p = pv_pipelines pv dev in
      if pp_prepared p then (- EBUSY, 0, pv)
      else
        let (ret, sink) = zpt_zmk_sink_provider_bind_output (Some (pv_sinks pv (pp_sink_device p))) (Some output_device);
            pv = pv\<lparr>pv_sinks := (pv_sinks pv)(pp_sink_device p := the sink)\<rparr>
        in if ret < 0 then (ret, 0, pv)
           else (0, pp_pipeline p, pv\<lparr>pv_pipelines := (pv_pipelines pv)(dev := p\<lparr>pp_prepared := True\<rparr>)\<rparr>))"

definition zpt_zmk_pipeline_provider_prepare :: "nat option \<Rightarrow> nat option \<Rightarrow> providers \<Rightarrow> int \<times> nat \<times> providers" where
  "zpt_zmk_pipeline_provider_prepare dev output_device pv =
     (case (dev, output_device) of
        (Some d, Some output) \<Rightarrow>
          if \<not> pp_ready (pv_pipelines pv d) then (- ENODEV, 0, pv)
          else if \<not> pp_is_provider (pv_pipelines pv d) then (- EPROTOTYPE, 0, pv)
          else pipeline_provider_prepare d output pv
      | _ \<Rightarrow> (- EINVAL, 0, pv))"

section \<open>The router device\<close>

record zpt_layer_route_config =
  lr_pipeline_device :: nat
  lr_layers :: "u8 list"

record zpt_router_config =
  rc_stable_id :: "string option"
  rc_pipeline_devices :: "nat list"
  rc_default_pipeline_device :: nat
  rc_layer_routes :: "zpt_layer_route_config list"

text \<open>The pipelines of the data are those of its router, which is in the executor.\<close>

record 'z zpt_router_data =
  rd_route_pipeline_indices :: "nat list"
  rd_route_lock :: 'z
  rd_override_table :: zpt_route_override_table
  rd_executor :: "'z zpt_zmk_router_executor"

text \<open>What the keymap tells: the layer at an index, from the bottom up, if there is one.\<close>

record keymap =
  km_layers_len :: nat
  km_index_to_id :: "nat \<Rightarrow> u8 option"
  km_layer_active :: "u8 \<Rightarrow> bool"
  km_layer_default :: u8

definition pipeline_device_index :: "zpt_router_config \<Rightarrow> nat \<Rightarrow> nat option" where
  "pipeline_device_index config dev =
     List.find (\<lambda>candidate. rc_pipeline_devices config ! candidate = dev) [0..<length (rc_pipeline_devices config)]"

definition layer_route_at :: "zpt_router_config \<Rightarrow> 'z zpt_router_data \<Rightarrow> nat \<Rightarrow> nat option" where
  "layer_route_at config rd layer_index =
     map_option (\<lambda>route. rd_route_pipeline_indices rd ! route)
       (List.find (\<lambda>route. layer_index \<in> unat ` set (lr_layers (rc_layer_routes config ! route)))
         [0..<length (rc_layer_routes config)])"

text \<open>The layers below \<open>n\<close>, from the top.\<close>

fun walk_layers :: "keymap \<Rightarrow> (nat \<Rightarrow> nat option) \<Rightarrow> nat \<Rightarrow> nat option" where
  "walk_layers keymap route_at 0 = None"
| "walk_layers keymap route_at (Suc layer_index) =
     (case km_index_to_id keymap layer_index of
        None \<Rightarrow> walk_layers keymap route_at layer_index
      | Some layer \<Rightarrow>
          (case (if km_layer_active keymap layer then route_at layer_index else None) of
             Some i \<Rightarrow> Some i
           | None \<Rightarrow> if layer = km_layer_default keymap then None else walk_layers keymap route_at layer_index))"

definition selected_layer_pipeline :: "zpt_router_config \<Rightarrow> keymap \<Rightarrow> 'z zpt_router_data \<Rightarrow> nat" where
  "selected_layer_pipeline config keymap rd =
     (case walk_layers keymap (layer_route_at config rd) (km_layers_len keymap) of
        Some i \<Rightarrow> i
      | None \<Rightarrow> default_pipeline_index (the (ex_router (rd_executor rd))))"

definition desired_route :: "zpt_router_config \<Rightarrow> keymap \<Rightarrow> 'z zpt_router_data \<Rightarrow> nat" where
  "desired_route config keymap rd =
     (case zpt_route_override_selected (rd_override_table rd) of
        Some i \<Rightarrow> i | None \<Rightarrow> selected_layer_pipeline config keymap rd)"

definition select_desired_route_locked :: "'z kernel_ops \<Rightarrow> zpt_router_config \<Rightarrow> keymap \<Rightarrow> u32 \<Rightarrow>
    'z zpt_router_data \<Rightarrow> ('c, 's, 'k) world \<Rightarrow> int \<times> 'z zpt_router_data \<times> ('c, 's, 'k) world" where
  "select_desired_route_locked ops config keymap now rd w =
     (let (ret, ex, w) = zpt_zmk_router_executor_select ops (desired_route config keymap rd) now (rd_executor rd) w
      in (ret, rd\<lparr>rd_executor := ex\<rparr>, w))"

definition lock_route :: "'z kernel_ops \<Rightarrow> 'z zpt_router_data \<Rightarrow> int \<times> 'z zpt_router_data" where
  "lock_route ops rd = (let (ret, z) = k_mutex_lock ops (rd_route_lock rd) in (ret, rd\<lparr>rd_route_lock := z\<rparr>))"

definition unlock_route :: "'z kernel_ops \<Rightarrow> 'z zpt_router_data \<Rightarrow> int \<Rightarrow> int \<times> 'z zpt_router_data" where
  "unlock_route ops rd result =
     (let (unlock_result, z) = k_mutex_unlock ops (rd_route_lock rd)
      in (if result < 0 then result else unlock_result, rd\<lparr>rd_route_lock := z\<rparr>))"

definition router_refresh_layer_route :: "'z kernel_ops \<Rightarrow> zpt_router_config \<Rightarrow> keymap \<Rightarrow> u32 \<Rightarrow>
    'z zpt_router_data \<Rightarrow> ('c, 's, 'k) world \<Rightarrow> int \<times> 'z zpt_router_data \<times> ('c, 's, 'k) world" where
  "router_refresh_layer_route ops config keymap now rd w =
     (if rc_layer_routes config = [] then (0, rd, w)
      else
        let (ret, rd) = lock_route ops rd in
        if ret < 0 then (ret, rd, w)
        else let (ret, rd, w) = select_desired_route_locked ops config keymap now rd w;
                 (ret, rd) = unlock_route ops rd ret
             in (ret, rd, w))"

definition router_override_press :: "'z kernel_ops \<Rightarrow> zpt_router_config \<Rightarrow> keymap \<Rightarrow> nat \<Rightarrow> u32 \<Rightarrow> u32 \<Rightarrow>
    'z zpt_router_data \<Rightarrow> ('c, 's, 'k) world \<Rightarrow> int \<times> 'z zpt_router_data \<times> ('c, 's, 'k) world" where
  "router_override_press ops config keymap pipeline_device pos now rd w =
     (case pipeline_device_index config pipeline_device of
        None \<Rightarrow> (- ENOENT, rd, w)
      | Some i \<Rightarrow>
          let (ret, rd) = lock_route ops rd in
          if ret < 0 then (ret, rd, w)
          else
            let (ret, table) = zpt_route_override_press (rd_override_table rd) pos i;
                rd = rd\<lparr>rd_override_table := table\<rparr>;
                (ret, rd, w) = (if ret < 0 then (ret, rd, w) else select_desired_route_locked ops config keymap now rd w);
                (ret, rd) = unlock_route ops rd ret
            in (ret, rd, w))"

definition router_override_release :: "'z kernel_ops \<Rightarrow> zpt_router_config \<Rightarrow> keymap \<Rightarrow> u32 \<Rightarrow> u32 \<Rightarrow>
    'z zpt_router_data \<Rightarrow> ('c, 's, 'k) world \<Rightarrow> int \<times> 'z zpt_router_data \<times> ('c, 's, 'k) world" where
  "router_override_release ops config keymap pos now rd w =
     (let (ret, rd) = lock_route ops rd in
      if ret < 0 then (ret, rd, w)
      else
        let (ret, table) = zpt_route_override_release (rd_override_table rd) pos;
            rd = rd\<lparr>rd_override_table := table\<rparr>;
            (ret, rd, w) = (if ret < 0 then (ret, rd, w) else select_desired_route_locked ops config keymap now rd w);
            (ret, rd) = unlock_route ops rd ret
        in (ret, rd, w))"

definition router_push :: "'z kernel_ops \<Rightarrow> u32 \<Rightarrow> zpt_signal \<Rightarrow>
    'z zpt_router_data \<Rightarrow> ('c, 's, 'k) world \<Rightarrow> int \<times> 'z zpt_router_data \<times> ('c, 's, 'k) world" where
  "router_push ops uptime s rd w =
     (let (ret, ex, w) = zpt_zmk_router_executor_push ops uptime s (rd_executor rd) w
      in (ret, rd\<lparr>rd_executor := ex\<rparr>, w))"

section \<open>Initialisation\<close>

fun prepare_pipelines :: "nat \<Rightarrow> nat list \<Rightarrow> nat list \<Rightarrow> providers \<Rightarrow> int \<times> nat list \<times> providers" where
  "prepare_pipelines dev [] prepared pv = (0, prepared, pv)"
| "prepare_pipelines dev (d # ds) prepared pv =
     (let (ret, pipeline, pv) = zpt_zmk_pipeline_provider_prepare (Some d) (Some dev) pv in
      if ret < 0 then (ret, prepared, pv) else prepare_pipelines dev ds (prepared @ [pipeline]) pv)"

fun route_indices :: "zpt_router_config \<Rightarrow> keymap \<Rightarrow> zpt_layer_route_config list \<Rightarrow> nat list \<Rightarrow> int \<times> nat list" where
  "route_indices config keymap [] indices = (0, indices)"
| "route_indices config keymap (route # routes) indices =
     (if \<exists>layer \<in> set (lr_layers route). km_layers_len keymap \<le> unat layer then (- EINVAL, indices)
      else case pipeline_device_index config (lr_pipeline_device route) of
             None \<Rightarrow> (- ENOENT, indices)
           | Some i \<Rightarrow> route_indices config keymap routes (indices @ [i]))"

text \<open>
  \<open>override_slots\<close> is the number of keys that can be held, \<open>uptime\<close> and \<open>uptime'\<close> the clock when the
  router is activated and when its initial route is selected. The data is zero before.
\<close>

definition router_init :: "'z kernel_ops \<Rightarrow> nat \<Rightarrow> u32 \<Rightarrow> u32 \<Rightarrow> nat \<Rightarrow> zpt_router_config \<Rightarrow> keymap \<Rightarrow> 'z zpt_router_data \<Rightarrow>
    providers \<Rightarrow> ('c, 's, 'k) world \<Rightarrow> int \<times> 'z zpt_router_data \<times> providers \<times> ('c, 's, 'k) world" where
  "router_init ops override_slots uptime uptime' dev config keymap rd pv w =
     (let rd = rd\<lparr>rd_route_lock := k_objects_init ops,
            rd_override_table := zpt_route_override_table_init (Some (replicate override_slots zero_override))\<rparr>;
          (ret, pipelines, pv) = prepare_pipelines dev (rc_pipeline_devices config) [] pv
      in if ret < 0 then (ret, rd, pv, w)
         else case pipeline_device_index config (rc_default_pipeline_device config) of
           None \<Rightarrow> (- ENOENT, rd, pv, w)
         | Some default_index \<Rightarrow>
             let (ret, indices) = route_indices config keymap (rc_layer_routes config) [];
                 rd = rd\<lparr>rd_route_pipeline_indices := indices\<rparr>
             in if ret < 0 then (ret, rd, pv, w)
                else
                  let r = \<lparr>rt_stable_id = rc_stable_id config, rt_input_kind = SIGNAL_RAW_MOTION, rt_pipelines = pipelines,
                        default_pipeline_index = default_index, active_pipeline_index = Some 0, rt_validated = False,
                        rt_active = False\<rparr>;
                      (ret, ex, w) = zpt_zmk_router_executor_init ops r w
                  in if ret < 0 then (ret, rd\<lparr>rd_executor := ex\<rparr>, pv, w)
                     else
                       let (ret, ex, w) = zpt_zmk_router_executor_activate ops uptime RESET_PIPELINE_ENTERED ex w;
                           rd = rd\<lparr>rd_executor := ex\<rparr>
                       in if ret < 0 then (ret, rd, pv, w)
                          else if selected_layer_pipeline config keymap rd = default_index then (0, rd, pv, w)
                          else
                            let (ret, ex, w) = zpt_zmk_router_executor_select ops
                                  (selected_layer_pipeline config keymap rd) uptime' (rd_executor rd) w
                            in (ret, rd\<lparr>rd_executor := ex\<rparr>, pv, w))"

section \<open>The interface of the device\<close>

record 'z router_device =
  dv_ready :: bool
  dv_is_router :: bool
  dv_config :: zpt_router_config
  dv_data :: "'z zpt_router_data"

definition validate_router_device :: "'z router_device option \<Rightarrow> int" where
  "validate_router_device dev =
     (case dev of None \<Rightarrow> - EINVAL
      | Some d \<Rightarrow> if \<not> dv_ready d then - ENODEV else if dv_is_router d then 0 else - EPROTOTYPE)"

definition on_device :: "('z router_device \<Rightarrow> ('c, 's, 'k) world \<Rightarrow> int \<times> 'z zpt_router_data \<times> ('c, 's, 'k) world) \<Rightarrow>
    'z router_device option \<Rightarrow> ('c, 's, 'k) world \<Rightarrow> int \<times> 'z router_device option \<times> ('c, 's, 'k) world" where
  "on_device f dev w =
     (if validate_router_device dev < 0 then (validate_router_device dev, dev, w)
      else let (ret, rd, w) = f (the dev) w in (ret, Some ((the dev)\<lparr>dv_data := rd\<rparr>), w))"

definition zpt_zmk_router_push :: "'z kernel_ops \<Rightarrow> u32 \<Rightarrow> zpt_signal option \<Rightarrow>
    'z router_device option \<Rightarrow> ('c, 's, 'k) world \<Rightarrow> int \<times> 'z router_device option \<times> ('c, 's, 'k) world" where
  "zpt_zmk_router_push ops uptime s dev w =
     (case s of None \<Rightarrow> (- EINVAL, dev, w)
      | Some s \<Rightarrow> on_device (\<lambda>d. router_push ops uptime s (dv_data d)) dev w)"

definition zpt_zmk_router_refresh_layer_route :: "'z kernel_ops \<Rightarrow> keymap \<Rightarrow> u32 \<Rightarrow>
    'z router_device option \<Rightarrow> ('c, 's, 'k) world \<Rightarrow> int \<times> 'z router_device option \<times> ('c, 's, 'k) world" where
  "zpt_zmk_router_refresh_layer_route ops keymap now dev w =
     on_device (\<lambda>d. router_refresh_layer_route ops (dv_config d) keymap now (dv_data d)) dev w"

definition zpt_zmk_router_override_press :: "'z kernel_ops \<Rightarrow> keymap \<Rightarrow> nat option \<Rightarrow> u32 \<Rightarrow> u32 \<Rightarrow>
    'z router_device option \<Rightarrow> ('c, 's, 'k) world \<Rightarrow> int \<times> 'z router_device option \<times> ('c, 's, 'k) world" where
  "zpt_zmk_router_override_press ops keymap pipeline_device pos now dev w =
     (case pipeline_device of None \<Rightarrow> (- EINVAL, dev, w)
      | Some p \<Rightarrow> on_device (\<lambda>d. router_override_press ops (dv_config d) keymap p pos now (dv_data d)) dev w)"

definition zpt_zmk_router_override_release :: "'z kernel_ops \<Rightarrow> keymap \<Rightarrow> u32 \<Rightarrow> u32 \<Rightarrow>
    'z router_device option \<Rightarrow> ('c, 's, 'k) world \<Rightarrow> int \<times> 'z router_device option \<times> ('c, 's, 'k) world" where
  "zpt_zmk_router_override_release ops keymap pos now dev w =
     on_device (\<lambda>d. router_override_release ops (dv_config d) keymap pos now (dv_data d)) dev w"

text \<open>The behavior of a key: the binding's devices, if the binding is known.\<close>

record zpt_route_behavior_config =
  bh_router_device :: nat
  bh_pipeline_device :: "nat option"

definition route_behavior_pressed :: "'z kernel_ops \<Rightarrow> keymap \<Rightarrow> zpt_route_behavior_config option \<Rightarrow> u32 \<Rightarrow> u32 \<Rightarrow>
    'z router_device option \<Rightarrow> ('c, 's, 'k) world \<Rightarrow> int \<times> 'z router_device option \<times> ('c, 's, 'k) world" where
  "route_behavior_pressed ops keymap config pos uptime router w =
     (case config of None \<Rightarrow> (- ENODEV, router, w)
      | Some c \<Rightarrow> zpt_zmk_router_override_press ops keymap (bh_pipeline_device c) pos uptime router w)"

definition route_behavior_released :: "'z kernel_ops \<Rightarrow> keymap \<Rightarrow> zpt_route_behavior_config option \<Rightarrow> u32 \<Rightarrow> u32 \<Rightarrow>
    'z router_device option \<Rightarrow> ('c, 's, 'k) world \<Rightarrow> int \<times> 'z router_device option \<times> ('c, 's, 'k) world" where
  "route_behavior_released ops keymap config pos uptime router w =
     (case config of None \<Rightarrow> (- ENODEV, router, w)
      | Some c \<Rightarrow> zpt_zmk_router_override_release ops keymap pos uptime router w)"

text \<open>A layer event refreshes every router that is ready.\<close>

fun layer_state_changed_listener :: "'z kernel_ops \<Rightarrow> keymap \<Rightarrow> u32 \<Rightarrow> 'z router_device list \<Rightarrow> ('c, 's, 'k) world \<Rightarrow>
    'z router_device list \<times> ('c, 's, 'k) world" where
  "layer_state_changed_listener ops keymap timestamp [] w = ([], w)"
| "layer_state_changed_listener ops keymap timestamp (d # ds) w =
     (let (d, w) = (if dv_ready d
            then let (ret, rd, w) = router_refresh_layer_route ops (dv_config d) keymap timestamp (dv_data d) w
                 in (d\<lparr>dv_data := rd\<rparr>, w)
            else (d, w));
          (ds, w) = layer_state_changed_listener ops keymap timestamp ds w
      in (d # ds, w))"

section \<open>All routers at once\<close>

abbreviation device_executor :: "'z router_device \<Rightarrow> 'z zpt_zmk_router_executor" where
  "device_executor d \<equiv> rd_executor (dv_data d)"

definition with_executor :: "'z zpt_zmk_router_executor \<Rightarrow> 'z router_device \<Rightarrow> 'z router_device" where
  "with_executor ex d = d\<lparr>dv_data := (dv_data d)\<lparr>rd_executor := ex\<rparr>\<rparr>"

definition unlock_device :: "'z kernel_ops \<Rightarrow> 'z router_device \<Rightarrow> int \<times> 'z router_device" where
  "unlock_device ops d =
     (if dv_ready d then let (ret, ex) = zpt_zmk_router_executor_unlock ops (device_executor d) in (ret, with_executor ex d)
      else (0, d))"

definition lock_device :: "'z kernel_ops \<Rightarrow> 'z router_device \<Rightarrow> int \<times> 'z router_device" where
  "lock_device ops d =
     (if dv_ready d then let (ret, ex) = zpt_zmk_router_executor_lock ops (device_executor d) in (ret, with_executor ex d)
      else (0, d))"

fun unlock_devices :: "'z kernel_ops \<Rightarrow> int \<Rightarrow> 'z router_device list \<Rightarrow> int \<times> 'z router_device list" where
  "unlock_devices ops result [] = (result, [])"
| "unlock_devices ops result (d # ds) =
     (let (ret, d) = unlock_device ops d;
          (result, ds) = unlock_devices ops (if ret < 0 \<and> result = 0 then ret else result) ds
      in (result, d # ds))"

definition zpt_zmk_router_unlock_all :: "'z kernel_ops \<Rightarrow> 'z router_device list \<Rightarrow> int \<times> 'z router_device list" where
  "zpt_zmk_router_unlock_all ops devices = unlock_devices ops 0 devices"

text \<open>\<open>held\<close> are the routers already locked, newest first.\<close>

fun lock_devices :: "'z kernel_ops \<Rightarrow> 'z router_device list \<Rightarrow> 'z router_device list \<Rightarrow> int \<times> 'z router_device list" where
  "lock_devices ops locked [] = (0, rev locked)"
| "lock_devices ops locked (d # ds) =
     (let (ret, d) = lock_device ops d in
      if ret < 0 then (ret, rev (map (\<lambda>d. snd (unlock_device ops d)) locked) @ d # ds)
      else lock_devices ops (d # locked) ds)"

definition zpt_zmk_router_lock_all :: "'z kernel_ops \<Rightarrow> 'z router_device list \<Rightarrow> int \<times> 'z router_device list" where
  "zpt_zmk_router_lock_all ops devices = lock_devices ops [] devices"


section \<open>Motion follows the keys and the layers\<close>

text \<open>What the walk over the layers finds: the highest active layer with a route, down to the default one.\<close>

definition layer_on :: "keymap \<Rightarrow> nat \<Rightarrow> bool" where
  "layer_on keymap layer_index \<longleftrightarrow>
     (case km_index_to_id keymap layer_index of None \<Rightarrow> False | Some layer \<Rightarrow> km_layer_active keymap layer)"

lemma last_hit:
  "(\<exists>k<Suc n. A k \<and> (\<forall>j. k < j \<and> j < Suc n \<longrightarrow> C j)) \<longleftrightarrow> A n \<or> C n \<and> (\<exists>k<n. A k \<and> (\<forall>j. k < j \<and> j < n \<longrightarrow> C j))"
  by (auto simp: less_Suc_eq)

lemma walk_layers_finds:
  "walk_layers keymap route_at n = Some i \<longleftrightarrow>
    (\<exists>k<n. (layer_on keymap k \<and> route_at k = Some i) \<and>
       (\<forall>j. k < j \<and> j < n \<longrightarrow> (layer_on keymap j \<longrightarrow> route_at j = None) \<and>
          km_index_to_id keymap j \<noteq> Some (km_layer_default keymap)))"
proof (induction n)
  case (Suc n)
  have "walk_layers keymap route_at (Suc n) = Some i \<longleftrightarrow> layer_on keymap n \<and> route_at n = Some i \<or>
    ((layer_on keymap n \<longrightarrow> route_at n = None) \<and> km_index_to_id keymap n \<noteq> Some (km_layer_default keymap)) \<and>
    walk_layers keymap route_at n = Some i"
    by (simp add: layer_on_def split: option.split)
  then show ?case unfolding last_hit Suc.IH .
qed simp

lemma executor_keeps_router [simp]:
  "ex_router (snd (lock_executor ops ex)) = ex_router ex"
  "ex_router (snd (update_deadline_locked ops ex w now)) = ex_router ex"
  "ex_router (snd (unlock_with_result ops ex o1 d1)) = ex_router ex"
  by (auto simp: lock_executor_def update_deadline_locked_def unlock_with_result_def Let_def
      split: prod.split option.split)

lemma unlock_result: "0 \<le> fst (unlock_with_result ops ex o1 d1) \<Longrightarrow> 0 \<le> o1"
  by (auto simp: unlock_with_result_def Let_def split: prod.splits if_splits)

lemma select_fields:
  assumes "zpt_router_select r i now w = (ret, res, r', w')"
  shows "default_pipeline_index r' = default_pipeline_index r \<and> rt_pipelines r' = rt_pipelines r"
  using assms by (auto simp: zpt_router_select_def Let_def split: if_splits prod.splits option.splits)

lemma executor_select_routes:
  assumes "ex_router ex = Some r" "router_inv r w" "rt_active r" "i < length (rt_pipelines r)"
    and "zpt_zmk_router_executor_select ops i now ex w = (ret, ex', w')"
  shows "\<exists>r'. ex_router ex' = Some r' \<and> router_inv r' w' \<and> rt_active r' \<and> rt_pipelines r' = rt_pipelines r \<and>
    default_pipeline_index r' = default_pipeline_index r \<and> (0 \<le> ret \<longrightarrow> active_pipeline_index r' = Some i)"
proof -
  obtain oret res r1 w1 where sel: "zpt_router_select r i now w = (oret, res, r1, w1)" by (metis prod_cases4)
  note effect = router_select_effect [OF assms(2) sel] select_fields [OF sel]
  show ?thesis
  proof (cases "fst (lock_executor ops ex) < 0")
    case True
    then show ?thesis using assms by (auto simp: zpt_zmk_router_executor_select_def split_beta)
  next
    case False
    let ?ex1 = "(snd (lock_executor ops ex))\<lparr>ex_router := Some r1\<rparr>"
    let ?timed = "update_deadline_locked ops ?ex1 w1 now"
    have "unlock_with_result ops (snd ?timed) oret (fst ?timed) = (ret, ex') \<and> w' = w1"
      using assms(1,5) False sel by (auto simp: zpt_zmk_router_executor_select_def split_beta Let_def)
    then have "ex_router ex' = Some r1 \<and> (0 \<le> ret \<longrightarrow> 0 \<le> oret) \<and> w' = w1"
      using executor_keeps_router(3) [of ops "snd ?timed" oret "fst ?timed"] unlock_result [of ops "snd ?timed" oret "fst ?timed"]
      by simp
    then show ?thesis using effect assms(3,4) by auto
  qed
qed

lemma executor_push_keeps:
  assumes "ex_router ex = Some r" "router_inv r w" "zpt_zmk_router_executor_push ops uptime s ex w = (ret, ex', w')"
  shows "ex_router ex' = Some r \<and> router_inv r w'"
proof -
  obtain oret res w1 where push: "zpt_router_push r s w = (oret, res, w1)" by (metis prod_cases3)
  then have "router_inv r w1" using router_traffic_inv [OF assms(2)] by blast
  then show ?thesis
    using assms push by (auto simp: zpt_zmk_router_executor_push_def split_beta Let_def split: if_splits)
qed

lemma executor_flush_keeps:
  assumes "ex_router ex = Some r" "router_inv r w" "zpt_zmk_router_executor_flush ops now ex w = (ret, ex', w')"
  shows "ex_router ex' = Some r \<and> router_inv r w'"
proof -
  obtain oret res w1 where flush: "zpt_router_flush r now w = (oret, res, w1)" by (metis prod_cases3)
  then have "router_inv r w1" using router_traffic_inv [OF assms(2)] by blast
  then show ?thesis
    using assms flush by (auto simp: zpt_zmk_router_executor_flush_def split_beta Let_def split: if_splits)
qed


text \<open>Every held key and every layer route leads to one of the router's pipelines.\<close>

definition table_below :: "nat \<Rightarrow> zpt_route_override_table \<Rightarrow> bool" where
  "table_below n table \<longleftrightarrow> (\<exists>os. overrides table = Some os \<and> (\<forall>c \<in> set os. ov_active c \<longrightarrow> ov_pipeline_index c < n))"

lemma newest_active: "newest selected os = Some c \<Longrightarrow> selected = Some c \<or> c \<in> set os \<and> ov_active c"
  by (induction os arbitrary: selected) (fastforce split: if_splits)+

lemma table_below_selected: "table_below n table \<Longrightarrow> zpt_route_override_selected table = Some i \<Longrightarrow> i < n"
  using newest_active [of None] by (fastforce simp: table_below_def zpt_route_override_selected_def)

lemma table_below_press:
  "table_below n table \<Longrightarrow> i < n \<Longrightarrow> zpt_route_override_press table pos i = (ret, table') \<Longrightarrow> table_below n table'"
  by (auto simp: table_below_def zpt_route_override_press_def Let_def split: option.splits
      dest!: set_update_subset_insert [THEN subsetD])

lemma release_first_active: "c \<in> set (release_first pos os) \<Longrightarrow> ov_active c \<Longrightarrow> c \<in> set os"
  by (induction os) (auto split: if_splits)

lemma table_below_release:
  "table_below n table \<Longrightarrow> zpt_route_override_release table pos = (ret, table') \<Longrightarrow> table_below n table'"
  using release_first_active by (fastforce simp: table_below_def zpt_route_override_release_def)

definition route_inv :: "zpt_router_config \<Rightarrow> 'z zpt_router_data \<Rightarrow> ('c, 's, 'k) world \<Rightarrow> bool" where
  "route_inv config rd w \<longleftrightarrow>
     (\<exists>r. ex_router (rd_executor rd) = Some r \<and> router_inv r w \<and> rt_active r \<and>
        length (rt_pipelines r) = length (rc_pipeline_devices config) \<and>
        length (rd_route_pipeline_indices rd) = length (rc_layer_routes config)) \<and>
     (\<forall>i \<in> set (rd_route_pipeline_indices rd). i < length (rc_pipeline_devices config)) \<and>
     table_below (length (rc_pipeline_devices config)) (rd_override_table rd)"

definition active_route :: "'z zpt_router_data \<Rightarrow> nat option" where
  "active_route rd = active_pipeline_index (the (ex_router (rd_executor rd)))"

lemma layer_route_below:
  assumes "route_inv config rd w" "layer_route_at config rd layer_index = Some i"
  shows "i < length (rc_pipeline_devices config)"
  using assms by (auto simp: layer_route_at_def route_inv_def List.find_Some_iff)

lemma desired_route_below:
  assumes "route_inv config rd w"
  shows "desired_route config keymap rd < length (rc_pipeline_devices config)"
proof (cases "zpt_route_override_selected (rd_override_table rd)")
  case None
  then show ?thesis using assms layer_route_below [OF assms]
    by (auto simp: desired_route_def selected_layer_pipeline_def walk_layers_finds route_inv_def router_inv_def
        split: option.split)
next
  case (Some i)
  then show ?thesis using assms by (auto simp: desired_route_def route_inv_def intro: table_below_selected)
qed

lemma device_index_below: "pipeline_device_index config dev = Some i \<Longrightarrow> i < length (rc_pipeline_devices config)"
  by (auto simp: pipeline_device_index_def List.find_Some_iff)

text \<open>The route depends on the table, the layer routes and the default pipeline.\<close>

lemma desired_route_cong:
  assumes "rd_override_table rd' = rd_override_table rd" "rd_route_pipeline_indices rd' = rd_route_pipeline_indices rd"
    and "default_pipeline_index (the (ex_router (rd_executor rd'))) = default_pipeline_index (the (ex_router (rd_executor rd)))"
  shows "desired_route config keymap rd' = desired_route config keymap rd"
proof -
  have "layer_route_at config rd' = layer_route_at config rd" using assms(2) by (simp add: layer_route_at_def fun_eq_iff)
  then have "selected_layer_pipeline config keymap rd' = selected_layer_pipeline config keymap rd"
    using assms(3) by (simp add: selected_layer_pipeline_def split: option.split)
  then show ?thesis using assms(1) by (simp add: desired_route_def split: option.split)
qed

lemma no_routes_no_layers:
  assumes "rc_layer_routes config = []"
  shows "desired_route config keymap rd = desired_route config keymap' rd"
proof -
  have "layer_route_at config rd = (\<lambda>layer_index. None)" using assms by (simp add: layer_route_at_def fun_eq_iff)
  moreover have "walk_layers k (\<lambda>layer_index. None) n = None" for k n
    using walk_layers_finds [of k "\<lambda>layer_index. None" n] by (cases "walk_layers k (\<lambda>layer_index. None) n") auto
  ultimately show ?thesis by (simp add: desired_route_def selected_layer_pipeline_def split: option.split)
qed

lemma select_desired_effect:
  assumes "route_inv config rd w" "select_desired_route_locked ops config keymap now rd w = (ret, rd', w')"
  shows "route_inv config rd' w' \<and> (0 \<le> ret \<longrightarrow> active_route rd' = Some (desired_route config keymap rd'))"
proof -
  obtain r where r: "ex_router (rd_executor rd) = Some r" "router_inv r w" "rt_active r"
    "length (rt_pipelines r) = length (rc_pipeline_devices config)" using assms(1) by (auto simp: route_inv_def)
  obtain ex where run: "zpt_zmk_router_executor_select ops (desired_route config keymap rd) now (rd_executor rd) w = (ret, ex, w')"
    and rd': "rd' = rd\<lparr>rd_executor := ex\<rparr>"
    using assms(2) by (auto simp: select_desired_route_locked_def split: prod.splits)
  from executor_select_routes [OF r(1-3) _ run] desired_route_below [OF assms(1)] r(4) obtain r' where
    r': "ex_router ex = Some r'" "router_inv r' w'" "rt_active r'" "rt_pipelines r' = rt_pipelines r"
      "default_pipeline_index r' = default_pipeline_index r"
      "0 \<le> ret \<longrightarrow> active_pipeline_index r' = Some (desired_route config keymap rd)" by auto
  moreover have "desired_route config keymap rd' = desired_route config keymap rd"
    by (rule desired_route_cong) (simp_all add: rd' r' r(1))
  ultimately show ?thesis using assms(1) r by (auto simp: route_inv_def active_route_def rd')
qed

lemma lock_route_fields:
  "lock_route ops rd = (ret, rd') \<Longrightarrow> rd' = rd\<lparr>rd_route_lock := rd_route_lock rd'\<rparr>"
  "unlock_route ops rd result = (ret, rd') \<Longrightarrow> rd' = rd\<lparr>rd_route_lock := rd_route_lock rd'\<rparr> \<and> (0 \<le> ret \<longrightarrow> 0 \<le> result)"
  by (auto simp: lock_route_def unlock_route_def Let_def split: prod.splits if_splits)

lemma lock_field_irrelevant [simp]:
  "route_inv config (rd\<lparr>rd_route_lock := z\<rparr>) w = route_inv config rd w"
  "active_route (rd\<lparr>rd_route_lock := z\<rparr>) = active_route rd"
  "desired_route config keymap (rd\<lparr>rd_route_lock := z\<rparr>) = desired_route config keymap rd"
  by (simp_all add: route_inv_def active_route_def desired_route_cong [of "rd\<lparr>rd_route_lock := z\<rparr>" rd])

text \<open>What every change of the route has in common: a new table, the selection, both locks.\<close>

lemma rerouted:
  assumes "route_inv config rd w" "table_below (length (rc_pipeline_devices config)) table"
    and "(if bad then (code, rd\<lparr>rd_override_table := table\<rparr>, w)
          else select_desired_route_locked ops config keymap now (rd\<lparr>rd_override_table := table\<rparr>) w) = (ret1, rd1, w')"
    and "unlock_route ops rd1 ret1 = (ret, rd')" "bad \<Longrightarrow> code < 0"
  shows "route_inv config rd' w' \<and> (0 \<le> ret \<longrightarrow> active_route rd' = Some (desired_route config keymap rd'))"
proof -
  have inv: "route_inv config (rd\<lparr>rd_override_table := table\<rparr>) w" using assms(1,2) by (auto simp: route_inv_def)
  have "route_inv config rd1 w' \<and> (0 \<le> ret1 \<longrightarrow> active_route rd1 = Some (desired_route config keymap rd1))"
    using assms(3,5) inv select_desired_effect [OF inv] by (auto split: if_splits)
  moreover have "rd' = rd1\<lparr>rd_route_lock := rd_route_lock rd'\<rparr>" "0 \<le> ret \<longrightarrow> 0 \<le> ret1"
    using lock_route_fields(2) [OF assms(4)] by auto
  ultimately show ?thesis by (metis lock_field_irrelevant)
qed


lemma press_effect:
  assumes "route_inv config rd w" "router_override_press ops config keymap dev pos now rd w = (ret, rd', w')"
  shows "route_inv config rd' w' \<and> (0 \<le> ret \<longrightarrow> active_route rd' = Some (desired_route config keymap rd'))"
proof (cases "pipeline_device_index config dev")
  case None
  then show ?thesis using assms by (simp add: router_override_press_def)
next
  case (Some i)
  obtain lret rd1 where lock: "lock_route ops rd = (lret, rd1)" by fastforce
  have inv: "route_inv config rd1 w" using lock_route_fields(1) [OF lock] assms(1) by (metis lock_field_irrelevant(1))
  obtain oret table where press: "zpt_route_override_press (rd_override_table rd1) pos i = (oret, table)" by fastforce
  have below: "table_below (length (rc_pipeline_devices config)) table"
    using table_below_press [OF _ device_index_below [OF Some] press] inv by (simp add: route_inv_def)
  show ?thesis
  proof (cases "lret < 0")
    case True
    then show ?thesis using assms(2) inv lock Some by (simp add: router_override_press_def)
  next
    case False
    then show ?thesis using assms(2) lock Some press rerouted [OF inv below, of "oret < 0" oret]
      by (auto simp: router_override_press_def Let_def split: prod.splits)
  qed
qed

lemma release_effect:
  assumes "route_inv config rd w" "router_override_release ops config keymap pos now rd w = (ret, rd', w')"
  shows "route_inv config rd' w' \<and> (0 \<le> ret \<longrightarrow> active_route rd' = Some (desired_route config keymap rd'))"
proof -
  obtain lret rd1 where lock: "lock_route ops rd = (lret, rd1)" by fastforce
  have inv: "route_inv config rd1 w" using lock_route_fields(1) [OF lock] assms(1) by (metis lock_field_irrelevant(1))
  obtain oret table where release: "zpt_route_override_release (rd_override_table rd1) pos = (oret, table)" by fastforce
  have below: "table_below (length (rc_pipeline_devices config)) table"
    using table_below_release [OF _ release] inv by (simp add: route_inv_def)
  show ?thesis
  proof (cases "lret < 0")
    case True
    then show ?thesis using assms(2) inv lock by (simp add: router_override_release_def)
  next
    case False
    then show ?thesis using assms(2) lock release rerouted [OF inv below, of "oret < 0" oret]
      by (auto simp: router_override_release_def Let_def split: prod.splits)
  qed
qed

lemma refresh_effect:
  assumes "route_inv config rd w" "router_refresh_layer_route ops config keymap now rd w = (ret, rd', w')"
    and "active_route rd = Some (desired_route config keymap0 rd)"
  shows "route_inv config rd' w' \<and> (0 \<le> ret \<longrightarrow> active_route rd' = Some (desired_route config keymap rd'))"
proof (cases "rc_layer_routes config = []")
  case True
  then show ?thesis
    using assms no_routes_no_layers [OF True, of keymap rd keymap0] by (simp add: router_refresh_layer_route_def)
next
  case False
  obtain lret rd1 where lock: "lock_route ops rd = (lret, rd1)" by fastforce
  have inv: "route_inv config rd1 w" using lock_route_fields(1) [OF lock] assms(1) by (metis lock_field_irrelevant(1))
  then have below: "table_below (length (rc_pipeline_devices config)) (rd_override_table rd1)" by (simp add: route_inv_def)
  show ?thesis
  proof (cases "lret < 0")
    case True
    then show ?thesis using assms(2) inv lock False by (simp add: router_refresh_layer_route_def)
  next
    case unlocked: False
    then show ?thesis using assms(2) lock False rerouted [OF inv below, of False 0]
      by (auto simp: router_refresh_layer_route_def Let_def split: prod.splits)
  qed
qed

text \<open>What happens to a router: the layers change, keys are pressed and released, frames, its deadline.\<close>

datatype router_event =
    LayersChanged keymap u32
  | KeyPressed nat u32 u32
  | KeyReleased u32 u32
  | FramePushed zpt_signal u32
  | DeadlineReached u32

fun router_event_step :: "'z kernel_ops \<Rightarrow> zpt_router_config \<Rightarrow> router_event \<Rightarrow>
    keymap \<times> 'z zpt_router_data \<times> ('c, 's, 'k) world \<Rightarrow> int \<times> keymap \<times> 'z zpt_router_data \<times> ('c, 's, 'k) world" where
  "router_event_step ops config (LayersChanged keymap' now) (keymap, rd, w) =
     (let (ret, rd, w) = router_refresh_layer_route ops config keymap' now rd w in (ret, keymap', rd, w))"
| "router_event_step ops config (KeyPressed dev pos now) (keymap, rd, w) =
     (let (ret, rd, w) = router_override_press ops config keymap dev pos now rd w in (ret, keymap, rd, w))"
| "router_event_step ops config (KeyReleased pos now) (keymap, rd, w) =
     (let (ret, rd, w) = router_override_release ops config keymap pos now rd w in (ret, keymap, rd, w))"
| "router_event_step ops config (FramePushed s uptime) (keymap, rd, w) =
     (let (ret, rd, w) = router_push ops uptime s rd w in (0, keymap, rd, w))"
| "router_event_step ops config (DeadlineReached uptime) (keymap, rd, w) =
     (let (ex, w) = deadline_work_handler ops uptime (rd_executor rd) w in (0, keymap, rd\<lparr>rd_executor := ex\<rparr>, w))"

text \<open>A run, and whether every change of the route succeeded; frames and flushes may fail.\<close>

fun router_run :: "'z kernel_ops \<Rightarrow> zpt_router_config \<Rightarrow> router_event list \<Rightarrow>
    keymap \<times> 'z zpt_router_data \<times> ('c, 's, 'k) world \<Rightarrow> bool \<times> keymap \<times> 'z zpt_router_data \<times> ('c, 's, 'k) world" where
  "router_run ops config [] st = (True, st)"
| "router_run ops config (e # es) st =
     (let (ret, st) = router_event_step ops config e st; (rest, st) = router_run ops config es st
      in (0 \<le> ret \<and> rest, st))"

lemma same_route_traffic:
  assumes "route_inv config rd w" "ex_router ex = ex_router (rd_executor rd)" "router_inv (the (ex_router ex)) w'"
  shows "route_inv config (rd\<lparr>rd_executor := ex\<rparr>) w' \<and> active_route (rd\<lparr>rd_executor := ex\<rparr>) = active_route rd \<and>
    desired_route config keymap (rd\<lparr>rd_executor := ex\<rparr>) = desired_route config keymap rd"
  using assms desired_route_cong [of "rd\<lparr>rd_executor := ex\<rparr>" rd config keymap]
  by (auto simp: route_inv_def active_route_def)

lemma router_event_effect:
  assumes "route_inv config rd w" "active_route rd = Some (desired_route config keymap rd)"
    and "router_event_step ops config e (keymap, rd, w) = (ret, keymap', rd', w')" "0 \<le> ret"
  shows "route_inv config rd' w' \<and> active_route rd' = Some (desired_route config keymap' rd')"
proof (cases e)
  case (LayersChanged k now)
  then show ?thesis using assms refresh_effect [OF assms(1) _ assms(2)] by (fastforce split: prod.splits)
next
  case (KeyPressed dev pos now)
  then show ?thesis using assms press_effect [OF assms(1)] by (fastforce split: prod.splits)
next
  case (KeyReleased pos now)
  then show ?thesis using assms release_effect [OF assms(1)] by (fastforce split: prod.splits)
next
  case (FramePushed s uptime)
  obtain r where r: "ex_router (rd_executor rd) = Some r" "router_inv r w" using assms(1) by (auto simp: route_inv_def)
  obtain ret1 ex w1 where push: "zpt_zmk_router_executor_push ops uptime s (rd_executor rd) w = (ret1, ex, w1)"
    by (metis prod_cases3)
  from executor_push_keeps [OF r push] r(1) have "ex_router ex = ex_router (rd_executor rd)" "router_inv (the (ex_router ex)) w1"
    by auto
  from same_route_traffic [OF assms(1) this] show ?thesis
    using assms(2,3) push FramePushed by (auto simp: router_push_def)
next
  case (DeadlineReached uptime)
  obtain r where r: "ex_router (rd_executor rd) = Some r" "router_inv r w" using assms(1) by (auto simp: route_inv_def)
  obtain ret1 ex w1 where flush: "zpt_zmk_router_executor_flush ops uptime (rd_executor rd) w = (ret1, ex, w1)"
    by (metis prod_cases3)
  from executor_flush_keeps [OF r flush] r(1) have "ex_router ex = ex_router (rd_executor rd)" "router_inv (the (ex_router ex)) w1"
    by auto
  from same_route_traffic [OF assms(1) this] show ?thesis
    using assms(2,3) flush DeadlineReached by (auto simp: deadline_work_handler_def)
qed

lemma router_run_effect:
  assumes "route_inv config rd w" "active_route rd = Some (desired_route config keymap rd)"
    and "router_run ops config es (keymap, rd, w) = (True, keymap', rd', w')"
  shows "route_inv config rd' w' \<and> active_route rd' = Some (desired_route config keymap' rd')"
  using assms
proof (induction es arbitrary: keymap rd w)
  case (Cons e es)
  obtain ret k1 rd1 w1 where e: "router_event_step ops config e (keymap, rd, w) = (ret, k1, rd1, w1)" by (metis prod_cases4)
  with Cons.prems(3) have "0 \<le> ret" "router_run ops config es (k1, rd1, w1) = (True, keymap', rd', w')"
    by (auto split: prod.splits)
  with router_event_effect [OF Cons.prems(1,2) e] Cons.IH show ?case by blast
qed simp


text \<open>Initialisation.\<close>

lemma prepare_pipelines_length:
  "prepare_pipelines dev ds prepared pv = (ret, pipelines, pv') \<Longrightarrow> 0 \<le> ret \<Longrightarrow>
    length pipelines = length prepared + length ds"
  by (induction ds arbitrary: prepared pv) (auto simp: Let_def split: prod.splits if_splits)

lemma route_indices_below:
  "route_indices config keymap routes indices = (ret, indices') \<Longrightarrow> 0 \<le> ret \<Longrightarrow>
    \<forall>i \<in> set indices. i < length (rc_pipeline_devices config) \<Longrightarrow>
    length indices' = length indices + length routes \<and> (\<forall>i \<in> set indices'. i < length (rc_pipeline_devices config))"
proof (induction routes arbitrary: indices)
  case (Cons route routes)
  obtain i where i: "pipeline_device_index config (lr_pipeline_device route) = Some i"
    using Cons.prems(1,2) by (cases "pipeline_device_index config (lr_pipeline_device route)") (auto split: if_splits)
  have rest: "route_indices config keymap routes (indices @ [i]) = (ret, indices')"
    using Cons.prems(1,2) i by (auto split: if_splits)
  have "\<forall>j \<in> set (indices @ [i]). j < length (rc_pipeline_devices config)"
    using Cons.prems(3) device_index_below [OF i] by simp
  from Cons.IH [OF rest Cons.prems(2) this] show ?case by simp
next
  case Nil
  then show ?case by simp
qed

lemma validate_code: "zpt_router_validate r w = (ret, r', w') \<Longrightarrow> 0 \<le> ret \<Longrightarrow> ret = 0"
  by (auto simp: zpt_router_validate_def split: prod.splits if_splits)

lemma validate_fields:
  "zpt_router_validate r w = (ret, r', w') \<Longrightarrow> default_pipeline_index r' = default_pipeline_index r \<and>
    rt_pipelines r' = rt_pipelines r"
  by (auto simp: zpt_router_validate_def split: prod.splits if_splits)

lemma executor_activate_routes:
  assumes "ex_router ex = Some r" "router_inv r w" "zpt_zmk_router_executor_activate ops uptime reason ex w = (ret, ex', w')"
    and "0 \<le> ret"
  shows "\<exists>r'. ex_router ex' = Some r' \<and> router_inv r' w' \<and> rt_active r' \<and> rt_pipelines r' = rt_pipelines r \<and>
    default_pipeline_index r' = default_pipeline_index r \<and> active_pipeline_index r' = Some (default_pipeline_index r)"
proof -
  obtain oret r1 w1 where act: "zpt_router_activate r reason w = (oret, r1, w1)" by (metis prod_cases3)
  have locked: "\<not> fst (lock_executor ops ex) < 0"
    using assms(3,4) by (auto simp: zpt_zmk_router_executor_activate_def split_beta split: if_splits)
  let ?ex1 = "(snd (lock_executor ops ex))\<lparr>ex_router := Some r1\<rparr>"
  define timed where "timed = (if oret < 0 then (0, ?ex1) else update_deadline_locked ops ?ex1 w1 uptime)"
  have unlock: "unlock_with_result ops (snd timed) oret (fst timed) = (ret, ex') \<and> w' = w1"
    using assms(1,3) locked act by (auto simp: zpt_zmk_router_executor_activate_def timed_def split_beta Let_def)
  have "ex_router (snd timed) = Some r1" by (simp add: timed_def)
  then have "ex_router ex' = Some r1" "0 \<le> oret"
    using unlock executor_keeps_router(3) [of ops "snd timed" oret "fst timed"]
      unlock_result [of ops "snd timed" oret "fst timed"] assms(4) by simp_all
  moreover have "oret = 0 \<and> rt_active r1 \<and> rt_pipelines r1 = rt_pipelines r \<and> default_pipeline_index r1 = default_pipeline_index r"
    using act \<open>0 \<le> oret\<close> pipes.only_enter by (auto simp: zpt_router_activate_def split: if_splits prod.splits)
  ultimately show ?thesis using router_activate_inv [OF assms(2) act] unlock by auto
qed

lemma newest_none: "\<forall>c \<in> set os. \<not> ov_active c \<Longrightarrow> newest None os = None"
  by (induction os) auto

lemma router_init_effect:
  assumes "router_init ops override_slots uptime uptime' dev config keymap rd pv w = (ret, rd', pv', w')" "0 \<le> ret"
  shows "route_inv config rd' w' \<and> active_route rd' = Some (desired_route config keymap rd')"
proof -
  let ?table = "zpt_route_override_table_init (Some (replicate override_slots zero_override))"
  obtain r1 pipelines pv1 where prepared: "prepare_pipelines dev (rc_pipeline_devices config) [] pv = (r1, pipelines, pv1)"
    by (metis prod_cases3)
  have ok1: "\<not> r1 < 0" using assms prepared by (auto simp: router_init_def Let_def)
  obtain default_index where def_ix: "pipeline_device_index config (rc_default_pipeline_device config) = Some default_index"
    using assms prepared ok1 by (auto simp: router_init_def Let_def split: option.splits)
  obtain r2 indices where routes: "route_indices config keymap (rc_layer_routes config) [] = (r2, indices)" by fastforce
  have ok2: "\<not> r2 < 0" using assms prepared ok1 def_ix routes by (auto simp: router_init_def Let_def)
  define r where "r = \<lparr>rt_stable_id = rc_stable_id config, rt_input_kind = SIGNAL_RAW_MOTION, rt_pipelines = pipelines,
    default_pipeline_index = default_index, active_pipeline_index = Some 0, rt_validated = False, rt_active = False\<rparr>"
  obtain r3 ex1 w1 where init: "zpt_zmk_router_executor_init ops r w = (r3, ex1, w1)" by (metis prod_cases3)
  have ok3: "\<not> r3 < 0"
    using assms prepared ok1 def_ix routes ok2 init by (auto simp: router_init_def Let_def r_def)
  obtain r4 ex2 w2 where act: "zpt_zmk_router_executor_activate ops uptime RESET_PIPELINE_ENTERED ex1 w1 = (r4, ex2, w2)"
    by (metis prod_cases3)
  have ok4: "\<not> r4 < 0"
    using assms prepared ok1 def_ix routes ok2 init ok3 act by (auto simp: router_init_def Let_def r_def)
  define rd2 where "rd2 = rd\<lparr>rd_route_lock := k_objects_init ops, rd_override_table := ?table,
    rd_route_pipeline_indices := indices, rd_executor := ex2\<rparr>"
  have final: "if selected_layer_pipeline config keymap rd2 = default_index then rd' = rd2 \<and> w' = w2
    else \<exists>ex. zpt_zmk_router_executor_select ops (selected_layer_pipeline config keymap rd2) uptime' ex2 w2 = (ret, ex, w') \<and>
      rd' = rd2\<lparr>rd_executor := ex\<rparr>"
    using assms prepared ok1 def_ix routes ok2 init ok3 act ok4
    by (auto simp: router_init_def Let_def r_def rd2_def split: prod.splits if_splits)
  obtain r' where v: "zpt_router_validate r w = (r3, r', w1)" "ex_router ex1 = Some r'"
    using init by (auto simp: zpt_zmk_router_executor_init_def split: prod.splits)
  have "r3 = 0" using validate_code [OF v(1)] ok3 by simp
  with router_validate_inv [OF v(1)] have "router_inv r' w1" by simp
  from executor_activate_routes [OF v(2) this act] ok4 obtain ra where
    ra: "ex_router ex2 = Some ra" "router_inv ra w2" "rt_active ra" "rt_pipelines ra = pipelines"
      "default_pipeline_index ra = default_index" "active_pipeline_index ra = Some default_index"
    using validate_fields [OF v(1)] by (auto simp: r_def)
  have "table_below (length (rc_pipeline_devices config)) ?table"
    by (auto simp: table_below_def zpt_route_override_table_init_def zero_override_def)
  then have inv: "route_inv config rd2 w2"
    using ra prepare_pipelines_length [OF prepared] route_indices_below [OF routes] ok1 ok2
    by (auto simp: route_inv_def rd2_def)
  have free: "zpt_route_override_selected ?table = None"
    by (simp add: zpt_route_override_selected_def zpt_route_override_table_init_def newest_none zero_override_def)
  then have desired: "desired_route config keymap rd2 = selected_layer_pipeline config keymap rd2"
    by (simp add: desired_route_def rd2_def)
  show ?thesis
  proof (cases "selected_layer_pipeline config keymap rd2 = default_index")
    case True
    then show ?thesis using final inv desired ra by (simp add: active_route_def rd2_def)
  next
    case False
    with final obtain ex where sel: "zpt_zmk_router_executor_select ops (desired_route config keymap rd2) uptime' ex2 w2 = (ret, ex, w')"
      and rd': "rd' = rd2\<lparr>rd_executor := ex\<rparr>" by (auto simp: desired)
    have "select_desired_route_locked ops config keymap uptime' rd2 w2 = (ret, rd', w')"
      using sel rd' by (simp add: select_desired_route_locked_def rd2_def)
    from select_desired_effect [OF inv this] assms(2) show ?thesis by blast
  qed
qed

text \<open>The highest active layer with a route, down to the default layer, leads to pipeline \<open>i\<close>.\<close>

definition routed_by_layer :: "zpt_router_config \<Rightarrow> keymap \<Rightarrow> 'z zpt_router_data \<Rightarrow> nat \<Rightarrow> bool" where
  "routed_by_layer config keymap rd i \<longleftrightarrow>
     (\<exists>k < km_layers_len keymap. (layer_on keymap k \<and> layer_route_at config rd k = Some i) \<and>
        (\<forall>j. k < j \<and> j < km_layers_len keymap \<longrightarrow> (layer_on keymap j \<longrightarrow> layer_route_at config rd j = None) \<and>
           km_index_to_id keymap j \<noteq> Some (km_layer_default keymap)))"



text \<open>Two pipelines, the second one on layer 1 of three; a key for the first is pressed while layer 1 is on.\<close>

definition raw_pipes :: "(unit, nat, zpt_signal list) world" where
  "raw_pipes = two_pipes
     \<lparr>w_stages := (\<lambda>i. (w_stages two_pipes i)\<lparr>stg_api := Some (relay_api\<lparr>accepted_kinds := ZPT_SIGNAL_KIND_MASK SIGNAL_RAW_MOTION\<rparr>)\<rparr>),
      w_pipes := (\<lambda>i. (w_pipes two_pipes i)\<lparr>pl_input_kind := SIGNAL_RAW_MOTION\<rparr>)\<rparr>"

definition routed_config :: zpt_router_config where
  "routed_config = \<lparr>rc_stable_id = Some ''motion'', rc_pipeline_devices = [10, 11], rc_default_pipeline_device = 10,
     rc_layer_routes = [\<lparr>lr_pipeline_device = 11, lr_layers = [1]\<rparr>]\<rparr>"

definition routed_keymap :: "u8 list \<Rightarrow> keymap" where
  "routed_keymap active = \<lparr>km_layers_len = 3, km_index_to_id = (\<lambda>i. Some (of_nat i)),
     km_layer_active = (\<lambda>layer. layer \<in> set active), km_layer_default = 0\<rparr>"

definition routed_providers :: providers where
  "routed_providers = \<lparr>pv_pipelines = (\<lambda>d. \<lparr>pp_ready = True, pp_is_provider = True, pp_prepared = False, pp_sink_device = d,
       pp_pipeline = d - 10\<rparr>),
     pv_sinks = (\<lambda>d. \<lparr>sp_ready = True, sp_is_provider = True, sp_action = False, sp_output_device = None\<rparr>)\<rparr>"

definition routed_data :: "(nat \<times> u32 option) zpt_router_data" where
  "routed_data = \<lparr>rd_route_pipeline_indices = [], rd_route_lock = (0, None),
     rd_override_table = \<lparr>overrides = None, next_order = 0\<rparr>, rd_executor = \<lparr>ex_kernel = (0, None), ex_router = None\<rparr>\<rparr>"

definition routed_init :: "int \<times> (nat \<times> u32 option) zpt_router_data \<times> providers \<times> (unit, nat, zpt_signal list) world" where
  "routed_init = router_init plain_kernel 2 0 0 7 routed_config (routed_keymap [0]) routed_data routed_providers raw_pipes"

definition routed_events :: "router_event list" where
  "routed_events = [LayersChanged (routed_keymap [0, 1]) 5, KeyPressed 10 4 6]"

definition routed_run :: "bool \<times> keymap \<times> (nat \<times> u32 option) zpt_router_data \<times> (unit, nat, zpt_signal list) world" where
  "routed_run = router_run plain_kernel routed_config routed_events
     (routed_keymap [0], fst (snd routed_init), snd (snd (snd routed_init)))"

lemma routed_keys: "fst routed_run" "zpt_route_override_selected (rd_override_table (fst (snd (snd routed_run)))) = Some 0"
  by code_simp+


section \<open>All routers are locked or none\<close>

text \<open>How often the calling thread holds a router, and what it finds there.\<close>

definition depth :: "('z \<Rightarrow> nat) \<Rightarrow> 'z router_device \<Rightarrow> nat" where
  "depth held d = held (ex_kernel (device_executor d))"

definition held_once_more :: "('z \<Rightarrow> nat) \<Rightarrow> 'z router_device \<Rightarrow> 'z router_device \<Rightarrow> bool" where
  "held_once_more held d d' \<longleftrightarrow> dv_ready d' = dv_ready d \<and> ex_router (device_executor d') = ex_router (device_executor d) \<and>
     depth held d' = depth held d + of_bool (dv_ready d) \<and> (dv_ready d \<longrightarrow> ex_router (device_executor d) \<noteq> None)"

lemma mutex_laws:
  assumes "kernel_laws ops held due"
  shows "k_mutex_lock ops z = (ret, z') \<Longrightarrow> held z' = (if ret < 0 then held z else Suc (held z))"
    and "k_mutex_unlock ops z = (ret, z') \<Longrightarrow> 0 < held z \<Longrightarrow> ret = 0 \<and> held z' = held z - 1"
  using assms unfolding kernel_laws_def by blast+

lemma lock_device_effect:
  assumes "kernel_laws ops held due" "lock_device ops d = (ret, d')"
  shows "if ret < 0 then depth held d' = depth held d else held_once_more held d d'"
  using assms(2) mutex_laws(1) [OF assms(1)]
  by (auto simp: lock_device_def zpt_zmk_router_executor_lock_def lock_executor_def with_executor_def depth_def
      held_once_more_def split: if_splits prod.splits)

lemma unlock_device_effect:
  assumes "kernel_laws ops held due" "held_once_more held d d'" "unlock_device ops d' = (ret, d2)"
  shows "ret = 0 \<and> depth held d2 = depth held d"
  using assms(2,3) mutex_laws(2) [OF assms(1)]
  by (auto simp: unlock_device_def zpt_zmk_router_executor_unlock_def with_executor_def depth_def
      held_once_more_def split: if_splits prod.splits)

lemma unlocked_depths:
  assumes "kernel_laws ops held due" "list_all2 (held_once_more held) ds ds'"
  shows "map (depth held) (map (\<lambda>d. snd (unlock_device ops d)) ds') = map (depth held) ds"
  using assms(2) unlock_device_effect [OF assms(1)]
  by (induction rule: list_all2_induct) (auto simp: prod_eq_iff)

lemma unlock_devices_effect:
  assumes "kernel_laws ops held due" "list_all2 (held_once_more held) ds ds'" "unlock_devices ops 0 ds' = (ret, ds2)"
  shows "ret = 0 \<and> map (depth held) ds2 = map (depth held) ds"
  using assms(2,3)
proof (induction arbitrary: ds2 ret rule: list_all2_induct)
  case (Cons d ds d' ds')
  obtain r1 e where u: "unlock_device ops d' = (r1, e)" by fastforce
  from unlock_device_effect [OF assms(1) Cons.hyps(1) u] have "r1 = 0" "depth held e = depth held d" by auto
  with Cons.prems Cons.IH u show ?case by (auto split: prod.splits)
qed simp

lemma lock_devices_effect:
  assumes "kernel_laws ops held due" "list_all2 (held_once_more held) before (rev locked)"
    and "lock_devices ops locked ds = (ret, ds')"
  shows "if ret < 0 then map (depth held) ds' = map (depth held) (before @ ds)
    else ret = 0 \<and> list_all2 (held_once_more held) (before @ ds) ds'"
  using assms(2,3)
proof (induction ds arbitrary: before locked)
  case Nil
  then show ?case by simp
next
  case (Cons d ds)
  obtain r1 e where l: "lock_device ops d = (r1, e)" by fastforce
  show ?case
  proof (cases "r1 < 0")
    case True
    with Cons.prems(2) l have "ret = r1" "ds' = map (\<lambda>d. snd (unlock_device ops d)) (rev locked) @ e # ds"
      by (auto simp: rev_map)
    with True lock_device_effect [OF assms(1) l] unlocked_depths [OF assms(1) Cons.prems(1)] show ?thesis by simp
  next
    case False
    with lock_device_effect [OF assms(1) l] have "list_all2 (held_once_more held) (before @ [d]) (rev (e # locked))"
      using Cons.prems(1) by (simp add: list_all2_appendI)
    from Cons.IH [OF this] Cons.prems(2) l False show ?thesis by (auto split: if_splits)
  qed
qed

text \<open>
Locking all routers, for changes their stages must see whole, takes all or none: if one
router cannot be locked, the error is returned and every router is held as often as before;
otherwise every ready router is held once more with its pipelines as they were, and unlocking all
returns 0 and leaves each held as often as before.
\<close>

theorem routers_are_locked_together:
  assumes "kernel_laws ops held due" "zpt_zmk_router_lock_all ops devices = (ret, locked)"
    and "zpt_zmk_router_unlock_all ops locked = (ret', unlocked)"
  shows "if ret < 0 then map (depth held) locked = map (depth held) devices
    else ret = 0 \<and> map (depth held) locked = map (\<lambda>d. depth held d + of_bool (dv_ready d)) devices \<and>
      map (ex_router \<circ> device_executor) locked = map (ex_router \<circ> device_executor) devices \<and>
      ret' = 0 \<and> map (depth held) unlocked = map (depth held) devices"
proof -
  have effect: "if ret < 0 then map (depth held) locked = map (depth held) devices
    else ret = 0 \<and> list_all2 (held_once_more held) devices locked"
    using lock_devices_effect [OF assms(1), of "[]" "[]" devices ret locked] assms(2)
    by (auto simp: zpt_zmk_router_lock_all_def split: if_splits)
  have grown: "map (depth held) locked = map (\<lambda>d. depth held d + of_bool (dv_ready d)) devices \<and>
      map (ex_router \<circ> device_executor) locked = map (ex_router \<circ> device_executor) devices"
    if "list_all2 (held_once_more held) devices locked"
    using that by (induction rule: list_all2_induct) (auto simp: held_once_more_def)
  show ?thesis
    using effect grown unlock_devices_effect [OF assms(1)] assms(3)
    by (auto simp: zpt_zmk_router_unlock_all_def split: if_splits)
qed

text \<open>Three routers, the second not ready, the third without its router yet: nothing stays locked.\<close>

definition routed_devices :: "(nat \<times> u32 option) router_device list" where
  "routed_devices = map (\<lambda>(ready, router). \<lparr>dv_ready = ready, dv_is_router = True, dv_config = routed_config,
     dv_data = routed_data\<lparr>rd_executor := \<lparr>ex_kernel = (1, None), ex_router = router\<rparr>\<rparr>\<rparr>)
     [(True, Some two_router), (False, None), (True, None)]"

theorem routers_are_locked_together_witness:
  "fst (zpt_zmk_router_lock_all plain_kernel routed_devices) = - EINVAL \<and>
   map (depth fst) (snd (zpt_zmk_router_lock_all plain_kernel routed_devices)) = [1, 1, 1] \<and>
   fst (zpt_zmk_router_lock_all plain_kernel (take 2 routed_devices)) = 0 \<and>
   map (depth fst) (snd (zpt_zmk_router_lock_all plain_kernel (take 2 routed_devices))) = [2, 1]"
proof -
  let ?run = "\<lambda>ds. zpt_zmk_router_lock_all plain_kernel ds"
  have code: "fst (?run routed_devices) = - EINVAL" "fst (?run (take 2 routed_devices)) = 0" by code_simp+
  from routers_are_locked_together [OF plain_kernel_laws prod.collapse [symmetric, of "?run routed_devices"] prod.collapse [symmetric]]
    routers_are_locked_together [OF plain_kernel_laws prod.collapse [symmetric, of "?run (take 2 routed_devices)"] prod.collapse [symmetric]]
  show ?thesis unfolding code by (simp add: routed_devices_def depth_def)
qed

end
