(* ===== verification/Input_Processors.thy ===== *)
theory Input_Processors
  imports Platform_Router Source_Ingress Device_Table "HOL-Library.Sublist"
begin

text \<open>
  The two input processors: on the half of a split keyboard without the host, the encoder that
  turns the axis events of a sensor into compact packets
  (\<open>platform/zmk/compact_split_encoder.c\<close>); on the other, the source that turns axis events or
  packets into frames and pushes them to its router (\<open>platform/zmk/source_input_processor.c\<close>).

  An event is processed at the time \<open>now\<close>. What \<open>input_report\<close> returns is an argument; the events
  it was given are part of the result. The device of an event and the parameters of the listener
  play no part. An event that is not stopped is seen by the processors after this one.
\<close>

abbreviation (input) "INPUT_EV_REL \<equiv> (2 :: u8)"
abbreviation (input) "INPUT_REL_X \<equiv> (0 :: u16)"
abbreviation (input) "INPUT_REL_Y \<equiv> (1 :: u16)"
abbreviation (input) "ZMK_INPUT_PROC_CONTINUE \<equiv> (0 :: int)"
abbreviation (input) "ZMK_INPUT_PROC_STOP \<equiv> (1 :: int)"

record zephyr_event =
  ie_type :: u8
  ie_code :: u16
  ie_value :: int
  ie_sync :: bool

section \<open>The compact encoder\<close>

record zpt_compact_split_encoder_data =
  ce_frame :: zpt_frame_assembler
  ce_encoder :: zpt_compact_split_encoder
  ce_previous_frame_at_ms :: u32
  ce_saw_frame_time :: bool

definition sample_span :: "zpt_compact_split_encoder_data \<Rightarrow> u32 \<Rightarrow> u32 \<times> zpt_compact_split_encoder_data" where
  "sample_span d now =
     (let elapsed_ms = now - ce_previous_frame_at_ms d;
          span = (if \<not> ce_saw_frame_time d then 0
                  else if elapsed_ms > 4294967 then 4294967295 else elapsed_ms * 1000)
      in (span, d\<lparr>ce_previous_frame_at_ms := now, ce_saw_frame_time := True\<rparr>))"

definition zpt_compact_split_encoder_device_init :: "zpt_compact_split_encoder_data \<Rightarrow> zpt_compact_split_encoder_data" where
  "zpt_compact_split_encoder_device_init d =
     d\<lparr>ce_frame := zpt_frame_assembler_reset, ce_encoder := zpt_compact_split_encoder_init\<rparr>"

definition is_axis_event :: "zephyr_event \<Rightarrow> bool" where
  "is_axis_event e \<longleftrightarrow> ie_type e = INPUT_EV_REL \<and> (ie_code e = INPUT_REL_X \<or> ie_code e = INPUT_REL_Y)"

text \<open>The result, the event left, the events reported, the data.\<close>

definition zpt_compact_split_encoder_handle_event :: "u16 \<Rightarrow> int \<Rightarrow> u32 \<Rightarrow> zephyr_event \<Rightarrow> zpt_compact_split_encoder_data \<Rightarrow>
    int \<times> zephyr_event \<times> zephyr_event list \<times> zpt_compact_split_encoder_data" where
  "zpt_compact_split_encoder_handle_event event_code reported now event d =
     (let is_axis = is_axis_event event;
          d = (if is_axis
               then d\<lparr>ce_frame := zpt_frame_assembler_add
                      (if ie_code event = INPUT_REL_X then MOTION_AXIS_X else MOTION_AXIS_Y) (ie_value event) (ce_frame d)\<rparr>
               else d);
          event = (if is_axis then event\<lparr>ie_value := 0\<rparr> else event);
          (taken, frame) = (if ie_sync event then zpt_frame_assembler_take (ce_frame d) else (None, ce_frame d));
          d = d\<lparr>ce_frame := frame\<rparr>
      in case taken of
           None \<Rightarrow> (if is_axis then ZMK_INPUT_PROC_STOP else ZMK_INPUT_PROC_CONTINUE, event, [], d)
         | Some (motion, frame_flags) \<Rightarrow>
             let (span, d) = sample_span d now;
                 (encode_result, packet, encoder) = zpt_compact_split_encode (ce_encoder d) motion span;
                 d = d\<lparr>ce_encoder := encoder\<rparr>;
                 packet_event = \<lparr>ie_type = INPUT_EV_REL, ie_code = event_code,
                   ie_value = (case packet of None \<Rightarrow> 0 | Some p \<Rightarrow> sint p), ie_sync = True\<rparr>
             in if frame_flags AND FLAG_CLIPPED \<noteq> 0 \<or> encode_result < 0 then (ZMK_INPUT_PROC_STOP, event, [], d)
                else if is_axis then (ZMK_INPUT_PROC_CONTINUE, packet_event, [], d)
                else if reported < 0 then (reported, event, [packet_event], d)
                else (ZMK_INPUT_PROC_CONTINUE, event, [packet_event], d))"

section \<open>The source\<close>

record zpt_source_processor_config =
  spc_ingress :: zpt_source_ingress_config
  spc_device_stable_id :: "string option"
  spc_compact_event_code :: u16
  spc_compact_transport :: bool

record zpt_source_processor_data =
  spd_ingress :: zpt_source_ingress
  spd_device :: "zpt_pointing_device option"

definition zpt_source_followed_cpi :: "'d half \<Rightarrow> zpt_source_processor_data \<Rightarrow> u16" where
  "zpt_source_followed_cpi half d =
     (case spd_device d of None \<Rightarrow> 0 | Some device \<Rightarrow> zpt_device_current_cpi half (Some device))"

definition zpt_source_processor_init :: "zpt_source_processor_config \<Rightarrow> 'd half \<Rightarrow> bool \<Rightarrow> int \<times> zpt_source_processor_data option" where
  "zpt_source_processor_init config half router_ready =
     (case zpt_source_ingress_init (spc_ingress config) of
        (ret, None) \<Rightarrow> (ret, None)
      | (ret, Some ingress) \<Rightarrow>
          let found = (case spc_device_stable_id config of None \<Rightarrow> None | Some i \<Rightarrow> zpt_device_table_find half (Some i));
              d = \<lparr>spd_ingress = ingress, spd_device = found\<rparr>
          in if spc_device_stable_id config \<noteq> None \<and> found = None then (- ENODEV, Some d)
             else (if router_ready then 0 else - ENODEV, Some d))"

definition classify_event :: "zpt_source_processor_config \<Rightarrow> zephyr_event \<Rightarrow> zpt_source_event_kind" where
  "classify_event config event =
     (if ie_type event \<noteq> INPUT_EV_REL then SOURCE_EVENT_OTHER
      else if spc_compact_transport config \<and> ie_code event = spc_compact_event_code config then SOURCE_EVENT_COMPACT
      else if ie_code event = INPUT_REL_X then SOURCE_EVENT_AXIS_X
      else if ie_code event = INPUT_REL_Y then SOURCE_EVENT_AXIS_Y else SOURCE_EVENT_OTHER)"

text \<open>\<open>uptime\<close> is the clock the executor reads when the frame is pushed.\<close>

definition zpt_source_processor_handle_event :: "'z kernel_ops \<Rightarrow> zpt_source_processor_config \<Rightarrow> 'd half \<Rightarrow> u32 \<Rightarrow> u32 \<Rightarrow>
    zephyr_event \<Rightarrow> zpt_source_processor_data \<times> 'z router_device option \<times> ('c, 's, 'k) world \<Rightarrow>
    int \<times> zephyr_event \<times> zpt_source_processor_data \<times> 'z router_device option \<times> ('c, 's, 'k) world" where
  "zpt_source_processor_handle_event ops config half now uptime event = (\<lambda>(d, router, w).
     (let event_kind = classify_event config event;
          ingress = zpt_source_ingress_follow_resolution (zpt_source_followed_cpi half d) (spd_ingress d);
          (signal, decode_error, ingress) =
            zpt_source_ingress_handle (spc_ingress config) event_kind (ie_value event) (ie_sync event) now ingress;
          d = d\<lparr>spd_ingress := ingress\<rparr>;
          (router, w) = (case signal of
               None \<Rightarrow> (router, w)
             | Some s \<Rightarrow> let (ret, router, w) = zpt_zmk_router_push ops uptime (Some s) router w in (router, w))
      in if event_kind = SOURCE_EVENT_OTHER then (ZMK_INPUT_PROC_CONTINUE, event, d, router, w)
         else (ZMK_INPUT_PROC_STOP, event\<lparr>ie_value := 0\<rparr>, d, router, w)))"


section \<open>The encoder sends every frame\<close>

text \<open>An event with the time it is processed and the answer a report gets; what each leaves behind.\<close>

type_synonym timed_event = "zephyr_event \<times> u32 \<times> int"

fun encoder_run :: "u16 \<Rightarrow> timed_event list \<Rightarrow> zpt_compact_split_encoder_data \<Rightarrow> (int \<times> zephyr_event \<times> zephyr_event list) list" where
  "encoder_run event_code [] d = []"
| "encoder_run event_code ((e, now, reported) # es) d =
     (let (ret, e', reports, d) = zpt_compact_split_encoder_handle_event event_code reported now e d
      in (ret, e', reports) # encoder_run event_code es d)"

text \<open>Of a result, the packets on their way to the other half: reported, or in place of the event.\<close>

definition packets_sent :: "u16 \<Rightarrow> int \<times> zephyr_event \<times> zephyr_event list \<Rightarrow> u32 list" where
  "packets_sent event_code = (\<lambda>(ret, e, reports).
     map (\<lambda>p. word_of_int (ie_value p))
       (reports @ (if ret = ZMK_INPUT_PROC_CONTINUE \<and> ie_type e = INPUT_EV_REL \<and> ie_code e = event_code then [e] else [])))"

text \<open>The frames of the events, as a source would take them, with the time since the frame before.\<close>

definition axis_input :: "timed_event \<Rightarrow> input_event" where
  "axis_input = (\<lambda>(e, now, reported). \<lparr>ev_cpi = 0,
     ev_kind = (if \<not> is_axis_event e then SOURCE_EVENT_OTHER
       else if ie_code e = INPUT_REL_X then SOURCE_EVENT_AXIS_X else SOURCE_EVENT_AXIS_Y),
     ev_value = ie_value e, ev_sync = ie_sync e, ev_now = now\<rparr>)"

definition span_since :: "u32 option \<Rightarrow> u32 \<Rightarrow> u32" where
  "span_since previous now =
     (case previous of None \<Rightarrow> 0 | Some p \<Rightarrow> if now - p > 4294967 then 4294967295 else (now - p) * 1000)"

fun spanned :: "u32 option \<Rightarrow> (input_event list \<times> u32) list \<Rightarrow> (source_frame \<times> u32) list" where
  "spanned previous [] = []"
| "spanned previous ((es, now) # frames) =
     (((counts_x es, counts_y es), span_since previous now, True), now) # spanned (Some now) frames"

text \<open>The encoder between two events: the axis events of the frame so far, and the last frame's time.\<close>

definition collecting :: "zpt_compact_split_encoder_data \<Rightarrow> input_event list \<Rightarrow> u32 option \<Rightarrow> bool" where
  "collecting d current previous \<longleftrightarrow>
     ce_frame d = \<lparr>asm_x_counts = counts_x current, asm_y_counts = counts_y current, asm_flags = 0, saw_axis = (current \<noteq> [])\<rparr> \<and>
     ce_saw_frame_time d = (previous \<noteq> None) \<and> (\<forall>p. previous = Some p \<longrightarrow> ce_previous_frame_at_ms d = p)"

definition ordinary :: "u16 \<Rightarrow> timed_event \<Rightarrow> bool" where
  "ordinary event_code = (\<lambda>(e, now, reported). in_i32 (ie_value e) \<and> (is_axis_event e \<or> ie_code e \<noteq> event_code))"

lemma sample_span_collecting:
  "collecting d current previous \<Longrightarrow> fst (sample_span d now) = span_since previous now"
  by (cases previous) (simp_all add: sample_span_def collecting_def span_since_def Let_def)

lemma encode_result_cases:
  "zpt_compact_split_encode encoder motion span = (ret, packet, encoder') \<Longrightarrow>
    (case packet of None \<Rightarrow> ret < 0 | Some p \<Rightarrow> ret = 0)"
  by (auto simp: zpt_compact_split_encode_def Let_def split: if_splits prod.splits)

lemma encoder_event:
  assumes "collecting d current previous" "ordinary event_code (e, now, reported)" "event_code \<noteq> INPUT_REL_X" "event_code \<noteq> INPUT_REL_Y"
    and "cur = current @ (if is_axis_event e then [axis_input (e, now, reported)] else [])"
    and "in_i64 (counts_x cur)" "in_i64 (counts_y cur)"
    and "zpt_compact_split_encoder_handle_event event_code reported now e d = (ret, e', reports, d')"
  shows "if ie_sync e \<and> cur \<noteq> []
    then \<exists>code packet. zpt_compact_split_encode (ce_encoder d) (counts_x cur, counts_y cur) (span_since previous now) =
        (code, packet, ce_encoder d') \<and> packets_sent event_code (ret, e', reports) = (case packet of None \<Rightarrow> [] | Some p \<Rightarrow> [p]) \<and>
      collecting d' [] (Some now)
    else packets_sent event_code (ret, e', reports) = [] \<and> collecting d' cur previous \<and> ce_encoder d' = ce_encoder d"
proof -
  define d1 where "d1 = (if is_axis_event e
    then d\<lparr>ce_frame := zpt_frame_assembler_add (if ie_code e = INPUT_REL_X then MOTION_AXIS_X else MOTION_AXIS_Y) (ie_value e) (ce_frame d)\<rparr>
    else d)"
  have d1: "collecting d1 cur previous" "ce_encoder d1 = ce_encoder d"
    using assms(1,5-7)
    by (auto simp: d1_def collecting_def zpt_frame_assembler_add_def axis_input_def saturating_add_exact split: if_splits)
  show ?thesis
  proof (cases "ie_sync e \<and> cur \<noteq> []")
    case True
    then have taken: "zpt_frame_assembler_take (ce_frame d1) = (Some ((counts_x cur, counts_y cur), 0), zpt_frame_assembler_reset)"
      using d1(1) by (simp add: zpt_frame_assembler_take_def collecting_def)
    let ?d2 = "d1\<lparr>ce_frame := zpt_frame_assembler_reset\<rparr>"
    obtain span d3 where span: "sample_span ?d2 now = (span, d3)" by fastforce
    then have "d3 = ?d2\<lparr>ce_previous_frame_at_ms := now, ce_saw_frame_time := True\<rparr>" by (simp add: sample_span_def Let_def)
    moreover have "span = span_since previous now"
      using sample_span_collecting [of d1 cur previous now] d1(1) span by (simp add: sample_span_def Let_def)
    ultimately have d3: "span = span_since previous now" "collecting d3 [] (Some now)" "ce_encoder d3 = ce_encoder d"
      using d1(2) by (simp_all add: collecting_def zpt_frame_assembler_reset_def)
    obtain code packet encoder where enc: "zpt_compact_split_encode (ce_encoder d) (counts_x cur, counts_y cur) span = (code, packet, encoder)"
      by (metis prod_cases3)
    have d': "d' = d3\<lparr>ce_encoder := encoder\<rparr>"
      using assms(8) True taken span enc d3(3) by (auto simp: zpt_compact_split_encoder_handle_event_def d1_def [symmetric] Let_def split: if_splits)
    have "packets_sent event_code (ret, e', reports) = (case packet of None \<Rightarrow> [] | Some p \<Rightarrow> [p])"
      using assms(2,8) True taken span enc d3(3) encode_result_cases [OF enc]
      by (auto simp: zpt_compact_split_encoder_handle_event_def d1_def [symmetric] Let_def packets_sent_def ordinary_def
          split: if_splits option.splits)
    then show ?thesis using True enc d3 by (auto simp: d' collecting_def)
  next
    case False
    then have "(if ie_sync e then zpt_frame_assembler_take (ce_frame d1) else (None, ce_frame d1)) = (None, ce_frame d1)"
      using d1(1) by (auto simp: zpt_frame_assembler_take_def collecting_def)
    then have "d' = d1 \<and> packets_sent event_code (ret, e', reports) = []"
      using assms(2,8)
      by (auto simp: zpt_compact_split_encoder_handle_event_def d1_def [symmetric] Let_def packets_sent_def ordinary_def split: if_splits)
    then show ?thesis using False d1 by auto
  qed
qed

lemma encoder_run_sends:
  assumes "collecting d current previous" "event_code \<noteq> INPUT_REL_X" "event_code \<noteq> INPUT_REL_Y"
    and "\<forall>e \<in> set es. ordinary event_code e" "\<forall>e \<in> set current. in_i32 (ev_value e)"
    and "length current + length es < 4294967296"
  shows "concat (map (packets_sent event_code) (encoder_run event_code es d)) =
    map fst (delivered_packets (ce_encoder d) (spanned previous (frames_of current (map axis_input es))))"
  using assms
proof (induction es arbitrary: d current previous)
  case Nil
  then show ?case by simp
next
  case (Cons x es)
  obtain e now reported where x: "x = (e, now, reported)" by (cases x)
  obtain ret e' reports d' where step: "zpt_compact_split_encoder_handle_event event_code reported now e d = (ret, e', reports, d')"
    by (metis prod_cases4)
  define cur where "cur = current @ (if is_axis_event e then [axis_input (e, now, reported)] else [])"
  have axis: "is_axis (axis_input (e, now, reported)) = is_axis_event e" "ev_sync (axis_input (e, now, reported)) = ie_sync e"
    "ev_now (axis_input (e, now, reported)) = now" by (auto simp: axis_input_def is_axis_def)
  have frames: "frames_of current (map axis_input (x # es)) =
      (if ie_sync e \<and> cur \<noteq> [] then (cur, now) # frames_of [] (map axis_input es) else frames_of cur (map axis_input es))"
    by (simp add: x cur_def Let_def axis)
  have i32: "\<forall>e \<in> set cur. in_i32 (ev_value e)" using Cons.prems(4,5) x by (auto simp: cur_def ordinary_def axis_input_def)
  have len: "length cur + length es < 4294967296" using Cons.prems(6) by (simp add: cur_def)
  then have fit: "in_i64 (counts_x cur)" "in_i64 (counts_y cur)" using counts_fit [OF i32] by simp_all
  have ord: "ordinary event_code (e, now, reported)" using Cons.prems(4) x by simp
  note event = encoder_event [OF Cons.prems(1) ord Cons.prems(2,3) cur_def fit step]
  show ?case
  proof (cases "ie_sync e \<and> cur \<noteq> []")
    case True
    with event obtain code packet where
      enc: "zpt_compact_split_encode (ce_encoder d) (counts_x cur, counts_y cur) (span_since previous now) = (code, packet, ce_encoder d')"
      "packets_sent event_code (ret, e', reports) = (case packet of None \<Rightarrow> [] | Some p \<Rightarrow> [p])" "collecting d' [] (Some now)"
      by auto
    have "concat (map (packets_sent event_code) (encoder_run event_code es d')) =
        map fst (delivered_packets (ce_encoder d') (spanned (Some now) (frames_of [] (map axis_input es))))"
      using enc(3) Cons.prems len by (intro Cons.IH) auto
    then show ?thesis using True enc(1,2) step unfolding frames by (simp add: x split: option.split)
  next
    case False
    with event have "packets_sent event_code (ret, e', reports) = []" "collecting d' cur previous" "ce_encoder d' = ce_encoder d"
      by auto
    moreover from this have "concat (map (packets_sent event_code) (encoder_run event_code es d')) =
        map fst (delivered_packets (ce_encoder d') (spanned previous (frames_of cur (map axis_input es))))"
      using Cons.prems len i32 by (intro Cons.IH) auto
    ultimately show ?thesis using step unfolding frames if_not_P [OF False] by (simp add: x)
  qed
qed

lemma axis_events_end_here:
  "list_all2 (\<lambda>(e, now, reported) (ret, e', reports). is_axis_event e \<longrightarrow>
      ret = ZMK_INPUT_PROC_STOP \<and> ie_value e' = 0 \<or> ret = ZMK_INPUT_PROC_CONTINUE \<and> ie_code e' = event_code)
    es (encoder_run event_code es d)"
proof (induction es arbitrary: d)
  case (Cons x es)
  then show ?case
    by (cases x) (auto simp: zpt_compact_split_encoder_handle_event_def Let_def split: prod.split option.split)
qed simp

text \<open>
The encoder sends every frame of the sensor, once and in order. From its initialisation,
for any events of the sensor other than packets, the packets that leave, in place of an axis event
or reported beside another event, are those of the frames of the sequence, exactly as a source
would take them: the sums of the axis counts up to a sync and the time since the frame before, 0 for the
first; only a frame out of the packet's range sends none. And no axis event goes further.
\<close>

theorem encoder_sends_every_frame:
  assumes "event_code \<noteq> INPUT_REL_X" "event_code \<noteq> INPUT_REL_Y" "\<not> ce_saw_frame_time d"
    and "\<forall>e \<in> set es. ordinary event_code e" "length es < 4294967296"
  shows "concat (map (packets_sent event_code) (encoder_run event_code es (zpt_compact_split_encoder_device_init d))) =
      map fst (delivered_packets zpt_compact_split_encoder_init (spanned None (frames_of [] (map axis_input es)))) \<and>
    list_all2 (\<lambda>(e, now, reported) (ret, e', reports). is_axis_event e \<longrightarrow>
        ret = ZMK_INPUT_PROC_STOP \<and> ie_value e' = 0 \<or> ret = ZMK_INPUT_PROC_CONTINUE \<and> ie_code e' = event_code)
      es (encoder_run event_code es (zpt_compact_split_encoder_device_init d))"
proof -
  have "collecting (zpt_compact_split_encoder_device_init d) [] None"
    using assms(3) by (simp add: collecting_def zpt_compact_split_encoder_device_init_def zpt_frame_assembler_reset_def)
  from encoder_run_sends [OF this assms(1,2,4)] assms(5) axis_events_end_here show ?thesis
    by (simp add: zpt_compact_split_encoder_device_init_def)
qed

text \<open>
  An event that is no axis event is stopped with a frame that is out of range, although it carries
  something else: here the release of a button.
\<close>

definition demo_encoder :: zpt_compact_split_encoder_data where
  "demo_encoder = zpt_compact_split_encoder_device_init \<lparr>ce_frame = zpt_frame_assembler_reset,
     ce_encoder = zpt_compact_split_encoder_init, ce_previous_frame_at_ms = 0, ce_saw_frame_time = False\<rparr>"

lemma button_is_stopped_with_a_dropped_frame:
  "map fst (encoder_run 9 [(\<lparr>ie_type = 2, ie_code = 0, ie_value = 4000, ie_sync = False\<rparr>, 1, 0),
     (\<lparr>ie_type = 1, ie_code = 0x110, ie_value = 0, ie_sync = True\<rparr>, 1, 0)] demo_encoder) = [ZMK_INPUT_PROC_STOP, ZMK_INPUT_PROC_STOP]"
  by code_simp

definition demo_sensor :: "timed_event list" where
  "demo_sensor = [(\<lparr>ie_type = 2, ie_code = 0, ie_value = 5, ie_sync = False\<rparr>, 100, 0),
     (\<lparr>ie_type = 2, ie_code = 1, ie_value = - 7, ie_sync = True\<rparr>, 100, 0),
     (\<lparr>ie_type = 2, ie_code = 1, ie_value = 3, ie_sync = False\<rparr>, 104, 0),
     (\<lparr>ie_type = 1, ie_code = 0x110, ie_value = 1, ie_sync = True\<rparr>, 105, 0)]"

theorem encoder_sends_every_frame_witness:
  "concat (map (packets_sent 9) (encoder_run 9 demo_sensor demo_encoder)) =
    map fst (delivered_packets zpt_compact_split_encoder_init [(((5, - 7), 0, True), 100), (((0, 3), 5000, True), 105)])"
proof -
  have "\<forall>e \<in> set demo_sensor. ordinary 9 e" "length demo_sensor < 4294967296"
    by (simp_all add: demo_sensor_def ordinary_def in_i32_def is_axis_event_def)
  moreover have "spanned None (frames_of [] (map axis_input demo_sensor)) =
      [(((5, - 7), 0, True), 100), (((0, 3), 5000, True), 105)]"
    by (simp add: demo_sensor_def axis_input_def is_axis_event_def is_axis_def counts_x_def counts_y_def span_since_def)
  ultimately show ?thesis
    using encoder_sends_every_frame [of 9 "\<lparr>ce_frame = zpt_frame_assembler_reset, ce_encoder = zpt_compact_split_encoder_init,
        ce_previous_frame_at_ms = 0, ce_saw_frame_time = False\<rparr>" demo_sensor]
    by (simp add: demo_encoder_def)
qed

section \<open>The source takes the motion\<close>

text \<open>An event with its time, the time of the push and the table of the devices at that moment.\<close>

type_synonym 'd source_event = "zephyr_event \<times> u32 \<times> u32 \<times> 'd half"

fun source_run :: "'z kernel_ops \<Rightarrow> zpt_source_processor_config \<Rightarrow> 'd source_event list \<Rightarrow>
    zpt_source_processor_data \<times> 'z router_device option \<times> ('c, 's, 'k) world \<Rightarrow>
    (int \<times> zephyr_event) list \<times> zpt_source_processor_data \<times> 'z router_device option \<times> ('c, 's, 'k) world" where
  "source_run ops config [] st = ([], st)"
| "source_run ops config ((e, now, uptime, half) # es) st =
     (let (ret, e', st) = zpt_source_processor_handle_event ops config half now uptime e st;
          (outs, st) = source_run ops config es st
      in ((ret, e') # outs, st))"

text \<open>The event as the ingress sees it.\<close>

definition source_input :: "zpt_source_processor_config \<Rightarrow> zpt_pointing_device option \<Rightarrow> 'd source_event \<Rightarrow> input_event" where
  "source_input config device = (\<lambda>(e, now, uptime, half).
     \<lparr>ev_cpi = (case device of None \<Rightarrow> 0 | Some dev \<Rightarrow> zpt_device_current_cpi half (Some dev)), ev_kind = classify_event config e,
       ev_value = ie_value e, ev_sync = ie_sync e, ev_now = now\<rparr>)"

text \<open>What the events leave for the processors after this one: nothing of the motion.\<close>

definition left_over :: "zpt_source_processor_config \<Rightarrow> 'd source_event \<Rightarrow> int \<times> zephyr_event" where
  "left_over config = (\<lambda>(e, now, uptime, half).
     if classify_event config e = SOURCE_EVENT_OTHER then (ZMK_INPUT_PROC_CONTINUE, e)
     else (ZMK_INPUT_PROC_STOP, e\<lparr>ie_value := 0\<rparr>))"

text \<open>Signals pushed one after the other, each with the clock of its push.\<close>

definition pushed :: "'z kernel_ops \<Rightarrow> (u32 \<times> zpt_signal) list \<Rightarrow> 'z router_device option \<times> ('c, 's, 'k) world \<Rightarrow>
    'z router_device option \<times> ('c, 's, 'k) world" where
  "pushed ops = fold (\<lambda>(uptime, s) (router, w). snd (zpt_zmk_router_push ops uptime (Some s) router w))"

lemma source_run_pushes:
  assumes "source_run ops config es (d, router, w) = (outs, d', router', w')"
  shows "outs = map (left_over config) es \<and>
    (\<exists>signals. pushed ops signals (router, w) = (router', w') \<and> set (map fst signals) \<subseteq> set (map (\<lambda>(e, now, uptime, half). uptime) es) \<and>
       map snd signals = fst (ingress_run (spc_ingress config) (spd_ingress d) (map (source_input config (spd_device d)) es)))"
  using assms
proof (induction es arbitrary: d router w outs)
  case Nil
  then show ?case by (auto simp: pushed_def intro!: exI [of _ "[]"])
next
  case (Cons x es)
  obtain e now uptime half where x: "x = (e, now, uptime, half)" by (cases x)
  let ?ing = "zpt_source_ingress_follow_resolution (zpt_source_followed_cpi half d) (spd_ingress d)"
  obtain signal err ing where h: "zpt_source_ingress_handle (spc_ingress config) (classify_event config e) (ie_value e) (ie_sync e) now ?ing =
      (signal, err, ing)" by (metis prod_cases3)
  define this_one where "this_one = (case signal of None \<Rightarrow> [] | Some s \<Rightarrow> [(uptime, s)])"
  obtain router1 w1 where p: "pushed ops this_one (router, w) = (router1, w1)" by fastforce
  have step: "zpt_source_processor_handle_event ops config half now uptime e (d, router, w) =
      (fst (left_over config x), snd (left_over config x), d\<lparr>spd_ingress := ing\<rparr>, router1, w1)"
    using h p by (auto simp: zpt_source_processor_handle_event_def left_over_def x this_one_def pushed_def Let_def
        split: option.splits prod.splits)
  obtain rest where rest: "source_run ops config es (d\<lparr>spd_ingress := ing\<rparr>, router1, w1) = (rest, d', router', w')"
    and outs: "outs = left_over config x # rest"
    using Cons.prems x step by (auto split: prod.splits)
  from Cons.IH [OF rest] obtain signals where
    signals: "rest = map (left_over config) es" "pushed ops signals (router1, w1) = (router', w')"
      "set (map fst signals) \<subseteq> set (map (\<lambda>(e, now, uptime, half). uptime) es)"
      "map snd signals = fst (ingress_run (spc_ingress config) ing (map (source_input config (spd_device d)) es))" by auto
  have "pushed ops (this_one @ signals) (router, w) = (router', w')" using p signals(2) by (simp add: pushed_def)
  moreover have "map snd (this_one @ signals) =
      fst (ingress_run (spc_ingress config) (spd_ingress d) (map (source_input config (spd_device d)) (x # es)))"
    using h signals(4)
    by (auto simp: x source_input_def this_one_def zpt_source_followed_cpi_def Let_def split: option.splits prod.splits)
  moreover have "set (map fst (this_one @ signals)) \<subseteq> set (map (\<lambda>(e, now, uptime, half). uptime) (x # es))"
    using signals(3) by (auto simp: x this_one_def split: option.splits)
  ultimately show ?case using outs signals(1) by (intro conjI exI [of _ "this_one @ signals"]) simp_all
qed


text \<open>
A source takes its motion and pushes it as frames. From an initialisation that succeeds,
for any axis events and syncs, with a resolution known at each, every axis event is stopped with
its value gone and every other event passes unchanged; and what has happened to the router is the
push of exactly the frames of the sequence, in order, with the sums of their counts, consecutive
numbers and the resolution their device had at the first count.
\<close>

theorem source_pushes_the_frames:
  assumes "zpt_source_processor_init config half0 ready = (0, Some d)"
    and "\<forall>e \<in> set es. native (source_input config (spd_device d) e)" "length es < 4294967296"
    and "source_run ops config es (d, router, w) = (outs, d', router', w')"
  shows "outs = map (left_over config) es \<and>
    (\<exists>signals. pushed ops signals (router, w) = (router', w') \<and>
       map snd signals = frame_signals (msc_flags (ing_source (spc_ingress config))) (msc_source_id (ing_source (spc_ingress config))) 0
         (frames_of [] (map (source_input config (spd_device d)) es)))"
proof -
  have "zpt_source_ingress_init (spc_ingress config) = (0, Some (spd_ingress d))"
    using assms(1) by (auto simp: zpt_source_processor_init_def zpt_source_ingress_init_def Let_def
        split: prod.splits option.splits if_splits)
  from frames_from_the_start [OF this, of "map (source_input config (spd_device d)) es"] assms(2,3)
    source_run_pushes [OF assms(4)] show ?thesis by auto
qed

section \<open>From the sensor of one half to the router on the other\<close>

definition packet_event :: "u16 \<Rightarrow> u32 \<Rightarrow> zephyr_event" where
  "packet_event event_code p = \<lparr>ie_type = INPUT_EV_REL, ie_code = event_code, ie_value = sint p, ie_sync = True\<rparr>"

lemma ingress_run_compact:
  "fst (ingress_run config ingress (map (\<lambda>(p, now). \<lparr>ev_cpi = 0, ev_kind = SOURCE_EVENT_COMPACT, ev_value = sint p,
      ev_sync = True, ev_now = now\<rparr>) ps)) = compact_run config ingress ps"
proof (induction ps arbitrary: ingress)
  case (Cons p ps)
  have "zpt_source_ingress_follow_resolution 0 i = i" for i by (simp add: zpt_source_ingress_follow_resolution_def)
  then show ?case using Cons by (simp add: split_beta Let_def)
qed simp

lemma delivered_are_sent:
  assumes "list_all2 (\<lambda>((motion, span, delivered), now) ((motion', span', delivered'), now'). motion = motion' \<and> span = span' \<and> delivered')
      fs frames"
  shows "subseq (map fst (delivered_packets encoder fs)) (map fst (delivered_packets encoder frames))"
  using assms
proof (induction arbitrary: encoder rule: list_all2_induct)
  case (Cons f fs g gs)
  obtain motion span delivered now now' where f: "f = ((motion, span, delivered), now)" "g = ((motion, span, True), now')"
    using Cons.hyps(1) by (cases f; cases g) auto
  obtain ret packet encoder' where e: "zpt_compact_split_encode encoder motion span = (ret, packet, encoder')" by (metis prod_cases3)
  show ?case using Cons.IH [of encoder'] f e by (auto split: option.split intro: list_emb_Cons)
qed simp

text \<open>
Property C38. Motion crosses the halves of the keyboard. Whatever the events of the sensor other than packets,
for a source that takes packets and follows no device's resolution, whichever of the encoder's
packets the link loses, as long as it never loses more than 14 frames in a row, and whenever the
others arrive: the packets that arrive are among those sent, in order, and what has
happened to the router of the other half is the push of exactly one signal for each, with the sums
of the axis counts of a sensor frame, its number and its span on the wire, and a gap flagged when
a frame before it was lost; nothing is left over for other processors.
\<close>

theorem motion_crosses_the_halves:
  assumes "event_code \<noteq> INPUT_REL_X" "event_code \<noteq> INPUT_REL_Y" "\<not> ce_saw_frame_time e0"
    and "\<forall>e \<in> set es. ordinary event_code e" "length es < 4294967296"
    and "list_all2 (\<lambda>((motion, span, delivered), now) ((motion', span', delivered'), now'). motion = motion' \<and> span = span' \<and> delivered')
      fs (spanned None (frames_of [] (map axis_input es)))" "short_gaps 0 (map fst fs)"
    and "zpt_source_processor_init config half0 ready = (0, Some d)" "spd_device d = None"
    and "spc_compact_transport config" "spc_compact_event_code config = event_code"
    and "source_run ops config (map (\<lambda>(p, now). (packet_event event_code p, now, now, half)) (delivered_packets zpt_compact_split_encoder_init fs))
      (d, router, w) = (outs, d', router', w')"
  shows "subseq (map fst (delivered_packets zpt_compact_split_encoder_init fs))
      (concat (map (packets_sent event_code) (encoder_run event_code es (zpt_compact_split_encoder_device_init e0)))) \<and>
    list_all (\<lambda>(ret, e). ret = ZMK_INPUT_PROC_STOP \<and> ie_value e = 0) outs \<and>
    (\<exists>signals. pushed ops signals (router, w) = (router', w') \<and>
       map snd signals = map (compact_signal (spc_ingress config) (msc_resolution_cpi (ing_source (spc_ingress config))))
         (zip (received 0 None (map fst fs)) (map snd (filter (arrives \<circ> fst) fs))))"
proof -
  let ?packets = "delivered_packets zpt_compact_split_encoder_init fs"
  let ?es = "map (\<lambda>(p, now). (packet_event event_code p, now, now, half)) ?packets"
  have init: "zpt_source_ingress_init (spc_ingress config) = (0, Some (spd_ingress d))"
    using assms(8) by (auto simp: zpt_source_processor_init_def zpt_source_ingress_init_def Let_def
        split: prod.splits option.splits if_splits)
  have inputs: "map (source_input config (spd_device d)) ?es =
      map (\<lambda>(p, now). \<lparr>ev_cpi = 0, ev_kind = SOURCE_EVENT_COMPACT, ev_value = sint p, ev_sync = True, ev_now = now\<rparr>) ?packets"
    using assms(9-11) by (auto simp: source_input_def packet_event_def classify_event_def)
  from source_run_pushes [OF assms(12)] have outs: "outs = map (left_over config) ?es" and
    pushes: "\<exists>signals. pushed ops signals (router, w) = (router', w') \<and>
       map snd signals = compact_run (spc_ingress config) (spd_ingress d) ?packets"
    unfolding inputs ingress_run_compact by auto
  have "list_all (\<lambda>(ret, e). ret = ZMK_INPUT_PROC_STOP \<and> ie_value e = 0) outs"
    using assms(10,11) by (auto simp: outs list_all_iff left_over_def packet_event_def classify_event_def)
  moreover have "subseq (map fst ?packets) (concat (map (packets_sent event_code) (encoder_run event_code es
      (zpt_compact_split_encoder_device_init e0))))"
    using encoder_sends_every_frame [OF assms(1-5)] delivered_are_sent [OF assms(6)] by simp
  ultimately show ?thesis
    using pushes compact_run_received [OF compact_starts(1) [OF init] assms(7) compact_starts(2) [OF init]] by simp
qed


text \<open>Sources without a device, in front of a router: one of packets, one of axis events.\<close>

definition demo_source :: "bool \<Rightarrow> zpt_source_processor_config" where
  "demo_source compact = \<lparr>spc_ingress = sample_source, spc_device_stable_id = None, spc_compact_event_code = 9,
     spc_compact_transport = compact\<rparr>"

definition demo_source_data :: zpt_source_processor_data where
  "demo_source_data = \<lparr>spd_ingress = sample_ingress, spd_device = None\<rparr>"

lemma demo_source_init: "zpt_source_processor_init (demo_source compact) half True = (0, Some demo_source_data)"
  by (simp add: zpt_source_processor_init_def demo_source_def demo_source_data_def sample_ingress_init Let_def)

definition demo_router :: "(nat \<times> u32 option) router_device" where
  "demo_router = \<lparr>dv_ready = True, dv_is_router = True, dv_config = routed_config, dv_data = fst (snd routed_init)\<rparr>"

definition demo_world :: "(unit, nat, zpt_signal list) world" where
  "demo_world = snd (snd (snd routed_init))"

definition no_devices :: "unit half" where
  "no_devices = \<lparr>entries = [], current_cpi_store = [], control_bindings = [], sensor_state = (\<lambda>i. ())\<rparr>"

text \<open>Of the two frames of the sensor the link loses the first.\<close>

definition demo_link :: "(source_frame \<times> u32) list" where
  "demo_link = [(((5, - 7), 0, False), 0), (((0, 3), 5000, True), 120)]"

theorem motion_crosses_the_halves_witness:
  "let run = source_run plain_kernel (demo_source True)
      (map (\<lambda>(p, now). (packet_event 9 p, now, now, no_devices)) (delivered_packets zpt_compact_split_encoder_init demo_link))
      (demo_source_data, Some demo_router, demo_world)
   in \<exists>signals. pushed plain_kernel signals (Some demo_router, demo_world) = snd (snd run) \<and>
     map (\<lambda>s. (raw_motion (snd s), sequence (metadata (snd s)), sample_span_us (metadata (snd s)), observed_at_ms (metadata (snd s)))) signals =
       [((0, 3), 1, 6000, 120)]"
proof -
  let ?ps = "delivered_packets zpt_compact_split_encoder_init demo_link"
  let ?run = "source_run plain_kernel (demo_source True) (map (\<lambda>(p, now). (packet_event 9 p, now, now, no_devices)) ?ps)
      (demo_source_data, Some demo_router, demo_world)"
  let ?e0 = "\<lparr>ce_frame = zpt_frame_assembler_reset, ce_encoder = zpt_compact_split_encoder_init,
        ce_previous_frame_at_ms = 0, ce_saw_frame_time = False\<rparr>"
  obtain outs d' router' w' where run: "?run = (outs, d', router', w')" by (rule prod_cases4)
  have frames: "list_all2 (\<lambda>((motion, span, delivered), now) ((motion', span', delivered'), now'). motion = motion' \<and> span = span' \<and> delivered')
      demo_link (spanned None (frames_of [] (map axis_input demo_sensor)))"
    by (simp add: demo_link_def demo_sensor_def axis_input_def is_axis_event_def is_axis_def counts_x_def counts_y_def span_since_def)
  have short: "short_gaps 0 (map fst demo_link)" by (simp add: demo_link_def fits_axis_def)
  have sensor: "\<not> ce_saw_frame_time ?e0" "\<forall>e \<in> set demo_sensor. ordinary 9 e" "length demo_sensor < 4294967296"
    by (simp_all add: demo_sensor_def ordinary_def in_i32_def is_axis_event_def)
  have source: "spd_device demo_source_data = None" "spc_compact_transport (demo_source True)"
    "spc_compact_event_code (demo_source True) = 9" "spc_ingress (demo_source True) = sample_source"
    "msc_resolution_cpi (ing_source sample_source) = 800"
    by (simp_all add: demo_source_data_def demo_source_def sample_source_def)
  have codes: "(9 :: u16) \<noteq> INPUT_REL_X" "(9 :: u16) \<noteq> INPUT_REL_Y" by simp_all
  obtain signals where pushes: "pushed plain_kernel signals (Some demo_router, demo_world) = (router', w')"
    "map snd signals = map (compact_signal sample_source 800) (zip (received 0 None (map fst demo_link)) (map snd (filter (arrives \<circ> fst) demo_link)))"
    using motion_crosses_the_halves [OF codes sensor frames short demo_source_init source(1-3) run] unfolding source(4,5) by blast
  have "map (\<lambda>s. (raw_motion (snd s), sequence (metadata (snd s)), sample_span_us (metadata (snd s)), observed_at_ms (metadata (snd s)))) signals =
      map (\<lambda>s. (raw_motion s, sequence (metadata s), sample_span_us (metadata s), observed_at_ms (metadata s))) (map snd signals)"
    by simp
  also have "\<dots> = [((0, 3), 1, 6000, 120)]"
    unfolding pushes(2)
    by (simp add: demo_link_def fits_axis_def frame_at_def gap_before_def span_on_wire_def compact_signal_def)
  finally show ?thesis using pushes(1) by (auto simp: run)
qed


text \<open>A source that follows its device; a button is pressed between the two axes of a frame.\<close>

definition following_source :: zpt_source_processor_config where
  "following_source = (demo_source False)\<lparr>spc_device_stable_id := Some ''trackball''\<rparr>"

definition following_data :: zpt_source_processor_data where
  "following_data = demo_source_data\<lparr>spd_device := Some (sample_device (Some 7))\<rparr>"

definition demo_motion :: "u16 source_event list" where
  "demo_motion = [(\<lparr>ie_type = 2, ie_code = 0, ie_value = 5, ie_sync = False\<rparr>, 10, 11, sample_half (Some 7)),
     (\<lparr>ie_type = 1, ie_code = 0x110, ie_value = 1, ie_sync = False\<rparr>, 10, 11, sample_half (Some 7)),
     (\<lparr>ie_type = 2, ie_code = 1, ie_value = - 2, ie_sync = True\<rparr>, 12, 13, sample_half (Some 7))]"

theorem source_pushes_the_frames_witness:
  "let run = source_run plain_kernel following_source demo_motion (following_data, Some demo_router, demo_world)
   in map (\<lambda>(ret, e). (ret, ie_value e)) (fst run) = [(1, 0), (0, 1), (1, 0)] \<and>
     (\<exists>signals. pushed plain_kernel signals (Some demo_router, demo_world) = snd (snd run) \<and>
       map (\<lambda>s. (raw_motion s, resolution_cpi (metadata s), observed_at_ms (metadata s))) (map snd signals) = [((5, - 2), 800, 12)])"
proof -
  let ?run = "source_run plain_kernel following_source demo_motion (following_data, Some demo_router, demo_world)"
  obtain outs d' router' w' where run: "?run = (outs, d', router', w')" by (rule prod_cases4)
  have init: "zpt_source_processor_init following_source (sample_half (Some 7)) True = (0, Some following_data)"
    by (simp add: zpt_source_processor_init_def following_source_def demo_source_def following_data_def demo_source_data_def
        sample_ingress_init zpt_device_table_find_def sample_half_def sample_device_def Let_def)
  have device: "spd_device following_data = Some (sample_device (Some 7))" by (simp add: following_data_def)
  have cpi: "zpt_device_current_cpi (sample_half (Some 7)) (Some (sample_device (Some 7))) = 800"
    using current_cpi_at [OF sample_half_ok, of "Some 7"] by (simp add: sample_half_def)
  have inputs: "map (source_input following_source (spd_device following_data)) demo_motion =
     [\<lparr>ev_cpi = 800, ev_kind = SOURCE_EVENT_AXIS_X, ev_value = 5, ev_sync = False, ev_now = 10\<rparr>,
      \<lparr>ev_cpi = 800, ev_kind = SOURCE_EVENT_OTHER, ev_value = 1, ev_sync = False, ev_now = 10\<rparr>,
      \<lparr>ev_cpi = 800, ev_kind = SOURCE_EVENT_AXIS_Y, ev_value = - 2, ev_sync = True, ev_now = 12\<rparr>]"
    by (simp add: demo_motion_def source_input_def device cpi classify_event_def following_source_def demo_source_def)
  have native: "\<forall>e \<in> set demo_motion. native (source_input following_source (spd_device following_data) e)"
    using inputs by (simp add: demo_motion_def native_def in_i32_def)
  have "length demo_motion < 4294967296" by (simp add: demo_motion_def)
  note effect = source_pushes_the_frames [OF init native this run]
  have outs: "map (\<lambda>(ret, e). (ret, ie_value e)) outs = [(1, 0), (0, 1), (1, 0)]"
    using effect by (simp add: demo_motion_def left_over_def classify_event_def following_source_def demo_source_def)
  have signals: "map (\<lambda>s. (raw_motion s, resolution_cpi (metadata s), observed_at_ms (metadata s)))
      (frame_signals (msc_flags (ing_source (spc_ingress following_source))) (msc_source_id (ing_source (spc_ingress following_source))) 0
         (frames_of [] (map (source_input following_source (spd_device following_data)) demo_motion))) = [((5, - 2), 800, 12)]"
    unfolding inputs by (simp add: is_axis_def frame_signal_def counts_x_def counts_y_def)
  show ?thesis using effect outs signals by (auto simp: run simp del: map_map)
qed

end
