(* ===== verification/Providers.thy ===== *)
theory Providers
  imports Platform_Router Telemetry_Capture
begin

text \<open>
  The devices a pipeline is made of (\<open>platform/zmk/stage_provider.c\<close>, \<open>platform/zmk/sink_provider.c\<close>,
  \<open>platform/zmk/pipeline_provider.c\<close>) and the registration of every pipeline with the capture service
  (\<open>platform/zmk/input_capture.c\<close>).

  The stage or sink in the data of device \<open>d\<close> is the one at address \<open>d\<close> of the store; the address of
  a pipeline device's pipeline is part of its record.
\<close>

section \<open>Stages, sinks and pipelines\<close>

record stage_provider =
  stp_ready :: bool
  stp_is_provider :: bool

definition zpt_zmk_stage_provider_init :: "nat \<Rightarrow> string option \<Rightarrow> ('c, 's) zpt_stage_api option \<Rightarrow> 'c option \<Rightarrow> nat option \<Rightarrow>
    ('c, 's, 'k) world \<Rightarrow> int \<times> ('c, 's, 'k) world" where
  "zpt_zmk_stage_provider_init dev stable_id api config state w =
     (if missing_id stable_id \<or> api = None then (- EINVAL, w)
      else (0, update_stage dev (\<lambda>_. \<lparr>stg_stable_id = stable_id, stg_api = api, stg_config = config, stg_state = state,
             stg_owner = None, stg_deadline_ms = 0, stg_deadline_pending = False,
             stg_observer_callback = False, stg_observer_frame = False\<rparr>) w))"

definition zpt_zmk_stage_provider_get :: "(nat \<Rightarrow> stage_provider) \<Rightarrow> nat option \<Rightarrow> int \<times> nat" where
  "zpt_zmk_stage_provider_get stages dev =
     (case dev of
        None \<Rightarrow> (- EINVAL, 0)
      | Some d \<Rightarrow> if \<not> stp_ready (stages d) then (- ENODEV, 0)
          else if \<not> stp_is_provider (stages d) then (- EPROTOTYPE, 0) else (0, d))"

definition zpt_zmk_sink_provider_init :: "nat \<Rightarrow> string option \<Rightarrow> 'k zpt_sink_api option \<Rightarrow> 'k \<Rightarrow>
    ('c, 's, 'k) world \<Rightarrow> int \<times> ('c, 's, 'k) world" where
  "zpt_zmk_sink_provider_init dev stable_id api state w =
     (if missing_id stable_id \<or> api = None then (- EINVAL, w)
      else (0, update_sink dev (\<lambda>_. \<lparr>snk_stable_id = stable_id, snk_api = api, snk_state = state, snk_owner = None\<rparr>) w))"

definition zpt_zmk_sink_provider_get :: "(nat \<Rightarrow> sink_provider) \<Rightarrow> nat option \<Rightarrow> int \<times> nat" where
  "zpt_zmk_sink_provider_get sinks dev =
     (let ret = validate_provider (map_option sinks dev)
      in if ret < 0 then (ret, 0) else (0, the dev))"

record pipeline_provider_config =
  ppc_stable_id :: "string option"
  ppc_stage_devices :: "nat list"
  ppc_dispatch_budget :: u32

fun get_stages :: "(nat \<Rightarrow> stage_provider) \<Rightarrow> nat list \<Rightarrow> int \<times> nat list" where
  "get_stages stages [] = (0, [])"
| "get_stages stages (dev # devices) =
     (let (ret, stage) = zpt_zmk_stage_provider_get stages (Some dev) in
      if ret < 0 then (ret, [])
      else let (ret, rest) = get_stages stages devices in (ret, stage # rest))"

definition pipeline_provider_init :: "pipeline_provider_config \<Rightarrow> nat \<Rightarrow> (nat \<Rightarrow> stage_provider) \<Rightarrow> providers \<Rightarrow>
    ('c, 's, 'k) world \<Rightarrow> int \<times> ('c, 's, 'k) world" where
  "pipeline_provider_init config dev stages pv w =
     (let (ret, found) = get_stages stages (ppc_stage_devices config) in
      if ret < 0 then (ret, w)
      else
        let (ret, sink) = zpt_zmk_sink_provider_get (pv_sinks pv) (Some (pp_sink_device (pv_pipelines pv dev))) in
        if ret < 0 then (ret, w)
        else (0, update_pipe (pp_pipeline (pv_pipelines pv dev)) (\<lambda>_. \<lparr>pl_stable_id = ppc_stable_id config,
               pl_input_kind = SIGNAL_RAW_MOTION, pl_stages = found, pl_sink = sink,
               pl_dispatch_budget = ppc_dispatch_budget config, pl_validated = False, pl_active = False,
               pl_observer = \<lparr>obs_input = False, obs_input_done = False, obs_flush = False, obs_flush_done = False,
                 obs_lifecycle = False\<rparr>\<rparr>) w))"

definition pipeline_provider_get :: "nat \<Rightarrow> providers \<Rightarrow> ('c, 's, 'k) world \<Rightarrow> int \<times> nat" where
  "pipeline_provider_get dev pv w =
     (let pid = pp_pipeline (pv_pipelines pv dev)
      in if pl_stable_id (w_pipes w pid) = None then (- EAGAIN, 0) else (0, pid))"

definition zpt_zmk_pipeline_provider_get :: "nat \<Rightarrow> providers \<Rightarrow> ('c, 's, 'k) world \<Rightarrow> int \<times> nat" where
  "zpt_zmk_pipeline_provider_get dev pv w =
     (if \<not> pp_ready (pv_pipelines pv dev) then (- ENODEV, 0)
      else if \<not> pp_is_provider (pv_pipelines pv dev) then (- EPROTOTYPE, 0)
      else pipeline_provider_get dev pv w)"

text \<open>Every pipeline is offered for recording, between frames; what is refused is only logged.\<close>

fun zpt_input_capture_register_all :: "providers \<Rightarrow> nat list \<Rightarrow> capture_service \<times> 'k chain_world \<Rightarrow> capture_service \<times> 'k chain_world" where
  "zpt_input_capture_register_all pv [] (v, w) = (v, w)"
| "zpt_input_capture_register_all pv (dev # devices) (v, w) =
     (let (ret, pid) = zpt_zmk_pipeline_provider_get dev pv w;
          (ret, v, w) = (if ret = 0 then zpt_capture_register_pipeline (Some pid) v w else (ret, v, w))
      in zpt_input_capture_register_all pv devices (v, w))"

definition zpt_input_capture_init :: "int \<Rightarrow> int \<Rightarrow> providers \<Rightarrow> nat list \<Rightarrow> capture_service \<times> 'k chain_world \<Rightarrow>
    int \<times> capture_service \<times> 'k chain_world" where
  "zpt_input_capture_init lock_all unlock_all pv devices =
     zpt_capture_between_frames lock_all unlock_all (zpt_input_capture_register_all pv devices)"

section \<open>A device that is initialised is what its configuration says\<close>

lemma get_stages_effect:
  "get_stages stages devices = (ret, found) \<Longrightarrow> 0 \<le> ret \<Longrightarrow>
     ret = 0 \<and> found = devices \<and> (\<forall>d \<in> set devices. stp_ready (stages d) \<and> stp_is_provider (stages d))"
proof (induction devices arbitrary: ret found)
  case (Cons d devices)
  obtain r rest where more: "get_stages stages devices = (r, rest)" by fastforce
  have here: "stp_ready (stages d) \<and> stp_is_provider (stages d)" "ret = r" "found = d # rest"
    using Cons.prems more by (auto simp: zpt_zmk_stage_provider_get_def split: if_splits)
  then show ?case using Cons.IH [OF more] Cons.prems(2) by simp
qed simp

lemma pipeline_is_assembled:
  assumes "pipeline_provider_init config dev stages pv w = (ret, w')" "0 \<le> ret"
    and "pp_ready (pv_pipelines pv dev)" "pp_is_provider (pv_pipelines pv dev)" "ppc_stable_id config = Some name"
  shows "\<exists>p. zpt_zmk_pipeline_provider_get dev pv w' = (0, pp_pipeline (pv_pipelines pv dev)) \<and>
    w_pipes w' (pp_pipeline (pv_pipelines pv dev)) = p \<and> pl_stable_id p = Some name \<and>
    pl_stages p = ppc_stage_devices config \<and> pl_sink p = pp_sink_device (pv_pipelines pv dev) \<and>
    \<not> pl_validated p \<and> \<not> pl_active p"
  using assms get_stages_effect
  by (auto simp: pipeline_provider_init_def zpt_zmk_pipeline_provider_get_def pipeline_provider_get_def
      zpt_zmk_sink_provider_get_def update_pipe_def Let_def split: prod.splits if_splits)

section \<open>Pipelines and outputs have one router\<close>

text \<open>Routers ask for pipelines: each request names the device and the router, in any order.\<close>

fun prepare_run :: "(nat \<times> nat) list \<Rightarrow> providers \<Rightarrow> int list \<times> providers" where
  "prepare_run [] pv = ([], pv)"
| "prepare_run ((dev, router) # requests) pv =
     (let (ret, pid, pv) = zpt_zmk_pipeline_provider_prepare (Some dev) (Some router) pv;
          (rets, pv) = prepare_run requests pv
      in (ret # rets, pv))"

lemma prepare_effect:
  assumes "zpt_zmk_pipeline_provider_prepare (Some dev) (Some router) pv = (ret, pid, pv')"
  shows "pv_pipelines pv' = (if ret < 0 then pv_pipelines pv
      else (pv_pipelines pv)(dev := (pv_pipelines pv dev)\<lparr>pp_prepared := True\<rparr>)) \<and>
    (ret < 0 \<longrightarrow> pv_sinks pv' = pv_sinks pv) \<and>
    (0 \<le> ret \<longrightarrow> ret = 0 \<and> pid = pp_pipeline (pv_pipelines pv dev) \<and> \<not> pp_prepared (pv_pipelines pv dev) \<and>
      (if sp_action (pv_sinks pv (pp_sink_device (pv_pipelines pv dev))) then pv_sinks pv' = pv_sinks pv
       else sp_output_device (pv_sinks pv (pp_sink_device (pv_pipelines pv dev))) = None \<and>
         pv_sinks pv' = (pv_sinks pv)(pp_sink_device (pv_pipelines pv dev) :=
           (pv_sinks pv (pp_sink_device (pv_pipelines pv dev)))\<lparr>sp_output_device := Some router\<rparr>)))"
  using assms
  by (auto simp: zpt_zmk_pipeline_provider_prepare_def pipeline_provider_prepare_def zpt_zmk_sink_provider_bind_output_def
      validate_provider_def sink_bind_output_def Let_def split: if_splits prod.splits)

text \<open>What no request takes back.\<close>

lemma prepare_run_keeps:
  "prepare_run requests pv = (rets, pv') \<Longrightarrow>
     length rets = length requests \<and>
     (\<forall>d. pp_sink_device (pv_pipelines pv' d) = pp_sink_device (pv_pipelines pv d) \<and>
       (pp_prepared (pv_pipelines pv d) \<longrightarrow> pp_prepared (pv_pipelines pv' d))) \<and>
     (\<forall>k. sp_action (pv_sinks pv' k) = sp_action (pv_sinks pv k) \<and>
       (sp_output_device (pv_sinks pv k) \<noteq> None \<longrightarrow> pv_sinks pv' k = pv_sinks pv k))"
proof (induction requests pv arbitrary: rets pv' rule: prepare_run.induct)
  case (2 dev router requests pv)
  obtain ret pid pv1 where one: "zpt_zmk_pipeline_provider_prepare (Some dev) (Some router) pv = (ret, pid, pv1)"
    by (metis prod.exhaust)
  obtain rets1 where rest: "prepare_run requests pv1 = (rets1, pv')" "rets = ret # rets1"
    using "2.prems" one by (cases "prepare_run requests pv1") simp
  note IH = "2.IH" [OF one [symmetric] refl refl rest(1)]
  show ?case using prepare_effect [OF one] IH
    by (cases "ret < 0") (auto simp: rest(2) split: if_splits)
qed simp

lemma prepared_stays:
  assumes "prepare_run requests pv = (rets, pv')" "j < length requests" "0 \<le> rets ! j" "requests ! j = (dev, router)"
  shows "\<not> pp_prepared (pv_pipelines pv dev) \<and> pp_prepared (pv_pipelines pv' dev) \<and>
    (\<not> sp_action (pv_sinks pv (pp_sink_device (pv_pipelines pv dev))) \<longrightarrow>
      sp_output_device (pv_sinks pv (pp_sink_device (pv_pipelines pv dev))) = None \<and>
      sp_output_device (pv_sinks pv' (pp_sink_device (pv_pipelines pv dev))) = Some router)"
  using assms
proof (induction requests pv arbitrary: rets pv' j rule: prepare_run.induct)
  case (2 dev1 router1 requests pv)
  obtain ret pid pv1 where one: "zpt_zmk_pipeline_provider_prepare (Some dev1) (Some router1) pv = (ret, pid, pv1)"
    by (metis prod.exhaust)
  obtain rets1 where rest: "prepare_run requests pv1 = (rets1, pv')" "rets = ret # rets1"
    using "2.prems"(1) one by (cases "prepare_run requests pv1") simp
  note effect = prepare_effect [OF one] and keeps = prepare_run_keeps [OF rest(1)]
  show ?case
  proof (cases j)
    case 0
    then have "dev1 = dev" "router1 = router" "0 \<le> ret" using "2.prems" rest by auto
    then show ?thesis using effect keeps by (auto split: if_splits)
  next
    case (Suc i)
    from "2.IH" [OF one [symmetric] refl refl rest(1), of i] "2.prems" rest(2) Suc
    have "\<not> pp_prepared (pv_pipelines pv1 dev) \<and> pp_prepared (pv_pipelines pv' dev) \<and>
      (\<not> sp_action (pv_sinks pv1 (pp_sink_device (pv_pipelines pv1 dev))) \<longrightarrow>
        sp_output_device (pv_sinks pv1 (pp_sink_device (pv_pipelines pv1 dev))) = None \<and>
        sp_output_device (pv_sinks pv' (pp_sink_device (pv_pipelines pv1 dev))) = Some router)"
      by simp
    then show ?thesis using effect by (cases "ret < 0") (auto split: if_splits)
  qed
qed simp

lemma prepare_run_append:
  "prepare_run (xs @ ys) pv =
     (let (rets, pv) = prepare_run xs pv; (rets', pv) = prepare_run ys pv in (rets @ rets', pv))"
  by (induction xs pv rule: prepare_run.induct) (simp_all add: Let_def split: prod.split)

text \<open>
A pipeline belongs to one router, and so does the output of a cursor or a scroll sink. Of any
requests of routers for pipelines, in any order, two that succeed name different pipelines, and
different sinks unless it is an action sink; after them every such pipeline is prepared and its
sink reports to the router that got it, and a request that fails changes nothing.
\<close>

theorem pipelines_have_one_router:
  assumes "prepare_run requests pv = (rets, pv')" "i < j" "j < length requests" "0 \<le> rets ! i" "0 \<le> rets ! j"
  shows "let (dev, router) = requests ! i; (dev', router') = requests ! j;
      sink = pp_sink_device (pv_pipelines pv dev); sink' = pp_sink_device (pv_pipelines pv dev') in
    dev \<noteq> dev' \<and> (sink = sink' \<longrightarrow> sp_action (pv_sinks pv sink)) \<and>
    pp_prepared (pv_pipelines pv' dev) \<and> pp_prepared (pv_pipelines pv' dev') \<and>
    (sp_action (pv_sinks pv sink) \<or> sp_output_device (pv_sinks pv' sink) = Some router) \<and>
    (sp_action (pv_sinks pv sink') \<or> sp_output_device (pv_sinks pv' sink') = Some router')"
proof -
  obtain dev router dev' router' where req: "requests ! i = (dev, router)" "requests ! j = (dev', router')" by fastforce
  have first: "i < length requests" using assms(2,3) by simp
  obtain pv1 rets1 rets2 where split: "prepare_run (take (Suc i) requests) pv = (rets1, pv1)"
    "prepare_run (drop (Suc i) requests) pv1 = (rets2, pv')" "rets = rets1 @ rets2"
    using prepare_run_append [of "take (Suc i) requests" "drop (Suc i) requests" pv] assms(1)
    by (cases "prepare_run (take (Suc i) requests) pv") (auto split: prod.splits)
  have len: "length rets1 = Suc i" using prepare_run_keeps [OF split(1)] first by simp
  note early = prepared_stays [OF split(1), of i dev router]
  have one: "\<not> pp_prepared (pv_pipelines pv dev) \<and> pp_prepared (pv_pipelines pv1 dev) \<and>
    (\<not> sp_action (pv_sinks pv (pp_sink_device (pv_pipelines pv dev))) \<longrightarrow>
      sp_output_device (pv_sinks pv1 (pp_sink_device (pv_pipelines pv dev))) = Some router)"
    using early first len assms(4) req(1) split(3) by (simp add: nth_append)
  have two: "\<not> pp_prepared (pv_pipelines pv1 dev') \<and>
    (\<not> sp_action (pv_sinks pv1 (pp_sink_device (pv_pipelines pv1 dev'))) \<longrightarrow>
      sp_output_device (pv_sinks pv1 (pp_sink_device (pv_pipelines pv1 dev'))) = None)"
    using prepared_stays [OF split(2), of "j - Suc i" dev' router'] assms(2,3,5) req(2) len split(3)
    by (simp add: nth_append)
  have "dev \<noteq> dev'" using one two by auto
  moreover have "pp_sink_device (pv_pipelines pv dev) = pp_sink_device (pv_pipelines pv dev') \<Longrightarrow>
    sp_action (pv_sinks pv (pp_sink_device (pv_pipelines pv dev)))"
    using one two prepare_run_keeps [OF split(1)] by auto
  ultimately show ?thesis
    using prepared_stays [OF assms(1) first assms(4) req(1)] prepared_stays [OF assms(1,3,5) req(2)] by (auto simp: req Let_def)
qed

text \<open>A second router asks for a pipeline that is taken, then for a free one.\<close>

definition asked :: "(nat \<times> nat) list" where
  "asked = [(10, 7), (10, 8), (11, 8)]"

theorem pipelines_have_one_router_witness:
  "sp_output_device (pv_sinks (snd (prepare_run asked routed_providers)) 10) = Some 7 \<and>
   sp_output_device (pv_sinks (snd (prepare_run asked routed_providers)) 11) = Some 8"
proof -
  have run: "fst (prepare_run asked routed_providers) = [0, - EBUSY, 0]" by code_simp
  then have ok: "0 \<le> fst (prepare_run asked routed_providers) ! 0" "0 \<le> fst (prepare_run asked routed_providers) ! 2" by simp_all
  have len: "2 < length asked" and sinks: "\<not> sp_action (pv_sinks routed_providers k)" for k
    by (simp_all add: asked_def routed_providers_def)
  from pipelines_have_one_router [OF prod.collapse [symmetric] _ len ok] sinks show ?thesis
    by (simp add: asked_def Let_def) (simp add: routed_providers_def)
qed

end
