(* ===== verification/Pipeline_Telemetry.thy ===== *)
theory Pipeline_Telemetry
  imports Providers Telemetry_State
begin

text \<open>
  The observer that reports what the stages of a pipeline decide and emit as state telemetry
  (\<open>platform/zmk/pipeline_telemetry.c\<close>).

  The store of the pipelines logs the calls its stages' observers get, with what they are called
  with; \<open>telemetry_observes\<close> is what the callbacks installed here do at one such call. The device's
  entries are found by the address of their stage, the last one attached first, as the stage points
  to it.
\<close>

abbreviation (input) "ZPT_TUNING_TARGET_PIPELINE_STAGE \<equiv> (4 :: u8)"
abbreviation (input) "ZPT_STATE_EVENT_FRAME \<equiv> (1 :: u8)"
abbreviation (input) "ZPT_STATE_EVENT_FLUSH \<equiv> (2 :: u8)"
abbreviation (input) "ZPT_STATE_STAGE_FRAME \<equiv> (128 :: int)"

record zpt_pipeline_telemetry_entry =
  te_stage :: nat
  te_target_id :: u8

section \<open>The callbacks\<close>

primrec stage_event_code :: "zpt_stage_event \<Rightarrow> int" where
  "stage_event_code EVENT_SUPPRESSED = 0"
| "stage_event_code EVENT_DISCARDED = 1"
| "stage_event_code EVENT_QUALIFIED = 2"
| "stage_event_code EVENT_INTENT_CHANGED = 3"
| "stage_event_code EVENT_FLUSHED = 4"
| "stage_event_code EVENT_ACTION = 5"

primrec event_flags :: "zpt_stage_event \<Rightarrow> u16" where
  "event_flags EVENT_SUPPRESSED = 2"
| "event_flags EVENT_DISCARDED = 4"
| "event_flags EVENT_QUALIFIED = 16"
| "event_flags EVENT_INTENT_CHANGED = 1"
| "event_flags EVENT_FLUSHED = 8"
| "event_flags EVENT_ACTION = 8"

definition stage_observer :: "zpt_pipeline_telemetry_entry \<Rightarrow> zpt_stage_event \<Rightarrow> int \<Rightarrow> u32 \<Rightarrow> state_telemetry \<Rightarrow> state_telemetry" where
  "stage_observer entry event value now st =
     zpt_state_telemetry_submit (Some \<lparr>ss_timestamp_ms = now, ss_sequence = 0, ss_target_id = te_target_id entry,
       ss_target_kind = ZPT_TUNING_TARGET_PIPELINE_STAGE,
       ss_event = (if event = EVENT_FLUSHED then ZPT_STATE_EVENT_FLUSH else ZPT_STATE_EVENT_FRAME),
       ss_intent = 0, ss_flags = event_flags event,
       ss_values = [stage_event_code event, i32 value] @ replicate 8 0\<rparr>) st"

definition clamp_int32 :: "int \<Rightarrow> int" where
  "clamp_int32 value = (if value > INT32_MAX then INT32_MAX else if value < INT32_MIN then INT32_MIN else value)"

definition signal_axes :: "zpt_signal \<Rightarrow> int \<times> int" where
  "signal_axes s =
     (case kind s of
        SIGNAL_RAW_MOTION \<Rightarrow> raw_motion s
      | SIGNAL_NORMALIZED_MOTION \<Rightarrow> fixed_vector s
      | SIGNAL_POINTER_DELTA \<Rightarrow> delta s
      | SIGNAL_SCROLL_STEPS \<Rightarrow> delta s
      | SIGNAL_ACTION \<Rightarrow> (uint (action_id s), 0)
      | _ \<Rightarrow> (0, 0))"

definition frame_observer :: "zpt_pipeline_telemetry_entry \<Rightarrow> zpt_signal \<Rightarrow> u32 \<Rightarrow> state_telemetry \<Rightarrow> state_telemetry" where
  "frame_observer entry s now st =
     (if zpt_state_telemetry_level st (te_target_id entry) \<noteq> ZPT_STATE_LEVEL_VERBOSE then st
      else
        let (x, y) = signal_axes s in
        zpt_state_telemetry_submit (Some \<lparr>
          ss_timestamp_ms = (if observed_at_ms (metadata s) \<noteq> 0 then observed_at_ms (metadata s) else now),
          ss_sequence = 0, ss_target_id = te_target_id entry, ss_target_kind = ZPT_TUNING_TARGET_PIPELINE_STAGE,
          ss_event = ZPT_STATE_EVENT_FRAME, ss_intent = axis_intent (annotations s), ss_flags = 0,
          ss_values = [ZPT_STATE_STAGE_FRAME, int (kind_code (kind s)), clamp_int32 x, clamp_int32 y,
            uint (resolution_cpi (metadata s)), clamp_int32 (uint (sample_span_us (metadata s))),
            uint (sequence (metadata s)), clamp_int32 (uint (flags (metadata s))),
            uint (source_id (metadata s)), clamp_int32 (speed_per_second (annotations s))]\<rparr>) st)"

definition entry_of :: "zpt_pipeline_telemetry_entry list \<Rightarrow> nat \<Rightarrow> zpt_pipeline_telemetry_entry option" where
  "entry_of entries sid = List.find (\<lambda>e. te_stage e = sid) (rev entries)"

fun telemetry_observes :: "zpt_pipeline_telemetry_entry list \<Rightarrow> log_entry \<Rightarrow> state_telemetry \<Rightarrow> state_telemetry" where
  "telemetry_observes entries (LogEvent sid event value now) st =
     (case entry_of entries sid of None \<Rightarrow> st | Some entry \<Rightarrow> stage_observer entry event value now st)"
| "telemetry_observes entries (LogFrame sid s now) st =
     (case entry_of entries sid of None \<Rightarrow> st | Some entry \<Rightarrow> frame_observer entry s now st)"
| "telemetry_observes entries _ st = st"

section \<open>The device\<close>

definition lookup_stage :: "zpt_pipeline_telemetry_entry list \<Rightarrow> string option \<Rightarrow> ('c, 's, 'k) world \<Rightarrow> int \<times> nat" where
  "lookup_stage entries stable_id w =
     (case stable_id of
        None \<Rightarrow> (- EINVAL, 0)
      | Some name \<Rightarrow>
          (case List.find (\<lambda>e. stg_stable_id (w_stages w (te_stage e)) = Some name) entries of
             Some e \<Rightarrow> (0, te_stage e)
           | None \<Rightarrow> (- ENOENT, 0)))"

record telemetry_device =
  td_ready :: bool
  td_is_telemetry :: bool
  td_entries :: "zpt_pipeline_telemetry_entry list"

definition zpt_zmk_pipeline_telemetry_lookup :: "telemetry_device option \<Rightarrow> string option \<Rightarrow> ('c, 's, 'k) world \<Rightarrow> int \<times> nat" where
  "zpt_zmk_pipeline_telemetry_lookup dev stable_id w =
     (if stable_id = None then (- EINVAL, 0)
      else case dev of
        None \<Rightarrow> (- ENODEV, 0)
      | Some d \<Rightarrow> if \<not> td_ready d then (- ENODEV, 0)
          else if \<not> td_is_telemetry d then (- EPROTOTYPE, 0) else lookup_stage (td_entries d) stable_id w)"

text \<open>The result of both loops: the code, the entries, the state telemetry and the store.\<close>

fun observe_stages :: "'w tuning_registry \<Rightarrow> nat list \<Rightarrow> zpt_pipeline_telemetry_entry list \<Rightarrow> state_telemetry \<Rightarrow>
    ('c, 's, 'k) world \<Rightarrow> int \<times> zpt_pipeline_telemetry_entry list \<times> state_telemetry \<times> ('c, 's, 'k) world" where
  "observe_stages reg [] entries st w = (0, entries, st, w)"
| "observe_stages reg (sid # stages) entries st w =
     (let (ret, target_id, st) = zpt_state_telemetry_register_target reg True (stg_stable_id (w_stages w sid)) st in
      if ret < 0 then (ret, entries, st, w)
      else observe_stages reg stages (entries @ [\<lparr>te_stage = sid, te_target_id = the target_id\<rparr>]) st
             (update_stage sid (\<lambda>g. g\<lparr>stg_observer_callback := True, stg_observer_frame := True\<rparr>) w))"

fun pipeline_telemetry_init :: "'w tuning_registry \<Rightarrow> providers \<Rightarrow> nat list \<Rightarrow> zpt_pipeline_telemetry_entry list \<Rightarrow>
    state_telemetry \<Rightarrow> ('c, 's, 'k) world \<Rightarrow> int \<times> zpt_pipeline_telemetry_entry list \<times> state_telemetry \<times> ('c, 's, 'k) world" where
  "pipeline_telemetry_init reg pv [] entries st w = (0, entries, st, w)"
| "pipeline_telemetry_init reg pv (dev # devices) entries st w =
     (let (ret, pid) = zpt_zmk_pipeline_provider_get dev pv w in
      if ret < 0 then (ret, entries, st, w)
      else
        let (ret, entries, st, w) = observe_stages reg (pl_stages (w_pipes w pid)) entries st w in
        if ret < 0 then (ret, entries, st, w) else pipeline_telemetry_init reg pv devices entries st w)"

section \<open>Stages report under their names\<close>

text \<open>The store with the stages of the entries observed, and nothing else changed.\<close>

definition observed_world :: "nat set \<Rightarrow> ('c, 's, 'k) world \<Rightarrow> ('c, 's, 'k) world" where
  "observed_world S w = w\<lparr>w_stages := (\<lambda>sid. if sid \<in> S
     then (w_stages w sid)\<lparr>stg_observer_callback := True, stg_observer_frame := True\<rparr> else w_stages w sid)\<rparr>"

lemma observed_world_simps [simp]:
  "observed_world {} w = w"
  "observed_world S (observed_world T w) = observed_world (S \<union> T) w"
  "update_stage sid (\<lambda>g. g\<lparr>stg_observer_callback := True, stg_observer_frame := True\<rparr>) w = observed_world {sid} w"
  "w_pipes (observed_world S w) = w_pipes w"
  "stg_stable_id (w_stages (observed_world S w) sid) = stg_stable_id (w_stages w sid)"
  by (auto simp: observed_world_def update_stage_def fun_eq_iff)

definition reports_as :: "'w tuning_registry \<Rightarrow> state_telemetry \<Rightarrow> ('c, 's, 'k) world \<Rightarrow> zpt_pipeline_telemetry_entry \<Rightarrow> bool" where
  "reports_as reg st w e \<longleftrightarrow> stg_stable_id (w_stages w (te_stage e)) \<noteq> None \<and>
     unat (te_target_id e) < state_target_count reg st \<and>
     names reg st (unat (te_target_id e)) = stg_stable_id (w_stages w (te_stage e))"

lemma reports_as_observed [simp]: "reports_as reg st (observed_world S w) e = reports_as reg st w e"
  by (simp add: reports_as_def)

lemma reports_stay:
  assumes "state_targets_ok reg st" "zpt_state_telemetry_register_target reg True (Some sid) st = (ret, target, st')"
    and "reports_as reg st w e"
  shows "reports_as reg st' w e"
proof -
  obtain name where name: "stg_stable_id (w_stages w (te_stage e)) = Some name" using assms(3) by (auto simp: reports_as_def)
  then have "registered_as reg st name (0, Some (te_target_id e))" using assms(3) by (simp add: reports_as_def registered_as_def)
  from registered_stays [OF assms(1,2) this] show ?thesis by (simp add: reports_as_def registered_as_def name)
qed

text \<open>What the loop over the stages of one pipeline has done when it ends.\<close>

definition observing :: "'w tuning_registry \<Rightarrow> nat list \<Rightarrow> zpt_pipeline_telemetry_entry list \<Rightarrow> state_telemetry \<Rightarrow> ('c, 's, 'k) world \<Rightarrow>
    int \<Rightarrow> zpt_pipeline_telemetry_entry list \<Rightarrow> state_telemetry \<Rightarrow> ('c, 's, 'k) world \<Rightarrow> bool" where
  "observing reg stages entries st w ret entries' st' w' \<longleftrightarrow>
     state_targets_ok reg st' \<and> state_levels st' = state_levels st \<and>
     (\<forall>e. reports_as reg st w e \<longrightarrow> reports_as reg st' w e) \<and>
     (\<exists>new. entries' = entries @ new \<and> w' = observed_world (te_stage ` set new) w \<and>
        (\<forall>e \<in> set new. reports_as reg st' w e) \<and>
        map te_stage new = take (length new) stages \<and> (0 \<le> ret \<longrightarrow> ret = 0 \<and> length new = length stages) \<and>
        (ret < 0 \<longrightarrow> length new < length stages \<and>
          (stg_stable_id (w_stages w (stages ! length new)) = None \<and> ret = - EINVAL \<or>
           ret = - ENOSPC \<and> (\<forall>i < length (state_levels st). names reg st' i \<noteq> None))))"

lemma observe_stages_effect:
  "state_targets_ok reg st \<Longrightarrow> observe_stages reg stages entries st w = (ret, entries', st', w') \<Longrightarrow>
     observing reg stages entries st w ret entries' st' w'"
proof (induction reg stages entries st w arbitrary: ret entries' st' w' rule: observe_stages.induct)
  case (1 reg entries st w)
  then show ?case by (auto simp: observing_def)
next
  case (2 reg sid stages entries st w)
  obtain r t st1 where one: "zpt_state_telemetry_register_target reg True (stg_stable_id (w_stages w sid)) st = (r, t, st1)"
    by (metis prod.exhaust)
  show ?case
  proof (cases "stg_stable_id (w_stages w sid)")
    case None
    then show ?thesis using 2 by (auto simp: zpt_state_telemetry_register_target_def observing_def)
  next
    case (Some name)
    note effect = register_target_effect [OF "2.prems"(1) one [unfolded Some]]
    note stay = reports_stay [OF "2.prems"(1) one [unfolded Some]]
    show ?thesis
    proof (cases "r < 0")
      case True
      then show ?thesis using "2.prems" one effect by (auto simp: observing_def)
    next
      case False
      let ?e = "\<lparr>te_stage = sid, te_target_id = the t\<rparr>"
      have here: "reports_as reg st1 w ?e" using effect False Some by (auto simp: reports_as_def)
      have rest: "observe_stages reg stages (entries @ [?e]) st1 (observed_world {sid} w) = (ret, entries', st', w')"
        using "2.prems"(2) one False by simp
      have "observing reg stages (entries @ [?e]) st1 (observed_world {sid} w) ret entries' st' w'"
        using "2.IH" [OF one [symmetric] refl refl False] effect rest by simp
      then obtain new where "state_targets_ok reg st'" "state_levels st' = state_levels st1"
        "\<forall>e. reports_as reg st1 w e \<longrightarrow> reports_as reg st' w e"
        and new: "entries' = (entries @ [?e]) @ new" "w' = observed_world (te_stage ` set new) (observed_world {sid} w)"
          "\<forall>e \<in> set new. reports_as reg st' w e" "map te_stage new = take (length new) stages"
          "0 \<le> ret \<longrightarrow> ret = 0 \<and> length new = length stages"
          "ret < 0 \<longrightarrow> length new < length stages \<and> (stg_stable_id (w_stages w (stages ! length new)) = None \<and> ret = - EINVAL \<or>
             ret = - ENOSPC \<and> (\<forall>i < length (state_levels st1). names reg st' i \<noteq> None))"
        unfolding observing_def by auto
      then show ?thesis
        unfolding observing_def using effect here stay by (auto intro!: exI [of _ "?e # new"])
    qed
  qed
qed

text \<open>The stages of the pipelines of some devices, in order.\<close>

definition stages_of :: "providers \<Rightarrow> ('c, 's, 'k) world \<Rightarrow> nat list \<Rightarrow> nat list" where
  "stages_of pv w devices = concat (map (\<lambda>d. pl_stages (w_pipes w (pp_pipeline (pv_pipelines pv d)))) devices)"

lemma provider_get_observed [simp]:
  "zpt_zmk_pipeline_provider_get d pv (observed_world S w) = zpt_zmk_pipeline_provider_get d pv w"
  "stages_of pv (observed_world S w) devices = stages_of pv w devices"
  by (simp_all add: zpt_zmk_pipeline_provider_get_def pipeline_provider_get_def stages_of_def Let_def)

lemma provider_get_effect:
  "zpt_zmk_pipeline_provider_get d pv w = (ret, pid) \<Longrightarrow> ret < 0 \<or> ret = 0 \<and> pid = pp_pipeline (pv_pipelines pv d)"
  by (auto simp: zpt_zmk_pipeline_provider_get_def pipeline_provider_get_def Let_def split: if_splits)

lemma telemetry_init_effect:
  "state_targets_ok reg st \<Longrightarrow> pipeline_telemetry_init reg pv devices entries st w = (ret, entries', st', w') \<Longrightarrow>
     state_targets_ok reg st' \<and> state_levels st' = state_levels st \<and>
     (\<forall>e. reports_as reg st w e \<longrightarrow> reports_as reg st' w e) \<and>
     (\<exists>new. entries' = entries @ new \<and> w' = observed_world (te_stage ` set new) w \<and>
        (\<forall>e \<in> set new. reports_as reg st' w e) \<and> prefix (map te_stage new) (stages_of pv w devices) \<and>
        (if 0 \<le> ret then ret = 0 \<and> map te_stage new = stages_of pv w devices
         else (\<exists>d \<in> set devices. fst (zpt_zmk_pipeline_provider_get d pv w) = ret) \<or>
           ret = - EINVAL \<and> (\<exists>sid \<in> set (stages_of pv w devices). stg_stable_id (w_stages w sid) = None) \<or>
           ret = - ENOSPC \<and> (\<forall>i < length (state_levels st). names reg st' i \<noteq> None)))"
proof (induction reg pv devices entries st w arbitrary: ret entries' st' w' rule: pipeline_telemetry_init.induct)
  case (1 reg pv entries st w)
  then show ?case by (auto simp: stages_of_def)
next
  case (2 reg pv dev devices entries st w)
  obtain r pid where get: "zpt_zmk_pipeline_provider_get dev pv w = (r, pid)" by fastforce
  show ?case
  proof (cases "r < 0")
    case True
    then show ?thesis using "2.prems" get by auto
  next
    case False
    let ?stages = "pl_stages (w_pipes w pid)"
    have pid: "pid = pp_pipeline (pv_pipelines pv dev)" using provider_get_effect [OF get] False by simp
    then have all: "stages_of pv w (dev # devices) = ?stages @ stages_of pv w devices" by (simp add: stages_of_def)
    obtain r1 es st1 w1 where one: "observe_stages reg ?stages entries st w = (r1, es, st1, w1)" by (metis prod.exhaust)
    then obtain new1 where ok1: "state_targets_ok reg st1" "state_levels st1 = state_levels st"
      "\<And>e. reports_as reg st w e \<Longrightarrow> reports_as reg st1 w e"
      and new1: "es = entries @ new1" "w1 = observed_world (te_stage ` set new1) w" "\<forall>e \<in> set new1. reports_as reg st1 w e"
        "map te_stage new1 = take (length new1) ?stages" "0 \<le> r1 \<longrightarrow> r1 = 0 \<and> length new1 = length ?stages"
        "r1 < 0 \<longrightarrow> length new1 < length ?stages \<and> (stg_stable_id (w_stages w (?stages ! length new1)) = None \<and> r1 = - EINVAL \<or>
           r1 = - ENOSPC \<and> (\<forall>i < length (state_levels st). names reg st1 i \<noteq> None))"
      using observe_stages_effect [OF "2.prems"(1) one] unfolding observing_def by auto
    show ?thesis
    proof (cases "r1 < 0")
      case True
      have "ret = r1" "entries' = es" "st' = st1" "w' = w1" using "2.prems"(2) get False one True by simp_all
      moreover have "prefix (map te_stage new1) (?stages @ stages_of pv w devices)"
        by (metis new1(4) prefix_prefix take_is_prefix)
      moreover have "?stages ! length new1 \<in> set ?stages" using new1(6) True by simp
      ultimately show ?thesis using ok1 new1 True unfolding all by (intro conjI exI [of _ new1]) auto
    next
      case fine: False
      have rest: "pipeline_telemetry_init reg pv devices es st1 w1 = (ret, entries', st', w')"
        using "2.prems"(2) get False one fine by simp
      note IH = "2.IH" [OF get [symmetric] refl False one [symmetric] refl refl refl fine ok1(1) rest]
      then obtain new2 where new2: "entries' = es @ new2" "w' = observed_world (te_stage ` set new2) w1"
        "\<forall>e \<in> set new2. reports_as reg st' w e" "prefix (map te_stage new2) (stages_of pv w devices)"
        "if 0 \<le> ret then ret = 0 \<and> map te_stage new2 = stages_of pv w devices
         else (\<exists>d \<in> set devices. fst (zpt_zmk_pipeline_provider_get d pv w) = ret) \<or>
           ret = - EINVAL \<and> (\<exists>sid \<in> set (stages_of pv w devices). stg_stable_id (w_stages w sid) = None) \<or>
           ret = - ENOSPC \<and> (\<forall>i < length (state_levels st). names reg st' i \<noteq> None)"
        unfolding new1(2) provider_get_observed observed_world_simps(5) reports_as_observed ok1(2) by blast
      have "map te_stage new1 = ?stages" using new1(4,5) fine by simp
      then show ?thesis
        using ok1 IH new1(1-3) new2 unfolding all
        by (intro conjI exI [of _ "new1 @ new2"]) (auto simp: Un_commute image_Un split: if_splits)
    qed
  qed
qed

lemma same_target:
  assumes "state_targets_ok reg st" "reports_as reg st w e" "reports_as reg st w e'"
  shows "te_target_id e = te_target_id e' \<longleftrightarrow> stg_stable_id (w_stages w (te_stage e)) = stg_stable_id (w_stages w (te_stage e'))"
proof -
  let ?i = "unat (te_target_id e)" and ?j = "unat (te_target_id e')"
  have apart: "names reg st b \<noteq> names reg st a" if "a < length (state_levels st)" "b < a" "names reg st a \<noteq> None" for a b
    using assms(1) that unfolding state_targets_ok_def by blast
  have small: "i < length (state_levels st)" if "i < state_target_count reg st" for i
    using that by (simp add: state_target_count_def)
  have "?i = ?j \<longleftrightarrow> names reg st ?i = names reg st ?j"
    using apart [of ?i ?j] apart [of ?j ?i] small assms(2,3)
    by (cases ?i ?j rule: linorder_cases) (auto simp: reports_as_def)
  then show ?thesis using assms(2,3) by (simp add: reports_as_def word_unat_eq_iff)
qed

lemma lookup_finds:
  assumes "stg_stable_id (w_stages w sid) = Some name"
  shows "if sid \<in> te_stage ` set entries
    then \<exists>found. lookup_stage entries (Some name) w = (0, found) \<and> found \<in> te_stage ` set entries \<and>
      stg_stable_id (w_stages w found) = Some name
    else True"
proof (cases "List.find (\<lambda>e. stg_stable_id (w_stages w (te_stage e)) = Some name) entries")
  case None
  then show ?thesis using assms by (auto simp: find_None_iff)
next
  case (Some e)
  then have "e \<in> set entries" "stg_stable_id (w_stages w (te_stage e)) = Some name" by (auto simp: find_Some_iff)
  then show ?thesis by (simp add: lookup_stage_def Some)
qed

text \<open>
Every stage reports under its own name. When the tuning targets are in place, attaching the
observers to the pipelines of some devices observes exactly the stages of its entries and changes
nothing else of the pipelines; every entry's target id is listed by the status and stands for the
stable id of its stage, so two stages share an id only if they share a stable id, and a tunable
stage reports under its tuning target. If it succeeds, the entries are all stages of the
pipelines in order, and the lookup by any of their names finds a stage of that name. It fails only
because a device is no initialised pipeline, a stage has no name, or all ids are in use.
\<close>

theorem stages_report_under_their_names:
  assumes "state_targets_ok reg st" "pipeline_telemetry_init reg pv devices [] st w = (ret, entries, st', w')"
  shows "state_targets_ok reg st' \<and> state_levels st' = state_levels st \<and> w' = observed_world (te_stage ` set entries) w \<and>
    list_all (reports_as reg st' w') entries \<and>
    list_all (\<lambda>e. list_all (\<lambda>e'. te_target_id e = te_target_id e' \<longleftrightarrow>
      stg_stable_id (w_stages w' (te_stage e)) = stg_stable_id (w_stages w' (te_stage e'))) entries) entries \<and>
    (if 0 \<le> ret then map te_stage entries = stages_of pv w devices \<and>
       list_all (\<lambda>sid. \<exists>found. lookup_stage entries (stg_stable_id (w_stages w' sid)) w' = (0, found) \<and>
         stg_stable_id (w_stages w' found) = stg_stable_id (w_stages w' sid)) (stages_of pv w devices)
     else prefix (map te_stage entries) (stages_of pv w devices) \<and>
       ((\<exists>d \<in> set devices. fst (zpt_zmk_pipeline_provider_get d pv w) = ret) \<or>
        ret = - EINVAL \<and> (\<exists>sid \<in> set (stages_of pv w devices). stg_stable_id (w_stages w sid) = None) \<or>
        ret = - ENOSPC \<and> (\<forall>i < length (state_levels st). names reg st' i \<noteq> None)))"
proof -
  note effect = telemetry_init_effect [OF assms]
  then have world: "w' = observed_world (te_stage ` set entries) w" and ok: "state_targets_ok reg st'" by auto
  have named: "reports_as reg st' w' e" if "e \<in> set entries" for e using effect that by (auto simp: world)
  have found: "\<exists>found. lookup_stage entries (stg_stable_id (w_stages w' sid)) w' = (0, found) \<and>
      stg_stable_id (w_stages w' found) = stg_stable_id (w_stages w' sid)" if "sid \<in> te_stage ` set entries" for sid
    using that named lookup_finds [of w' sid _ entries] by (auto simp: reports_as_def) metis+
  have same: "list_all (\<lambda>e. list_all (\<lambda>e'. te_target_id e = te_target_id e' \<longleftrightarrow>
      stg_stable_id (w_stages w' (te_stage e)) = stg_stable_id (w_stages w' (te_stage e'))) entries) entries"
    using same_target [OF ok named named] by (simp only: list_all_iff) blast
  have every: "list_all (\<lambda>sid. \<exists>found. lookup_stage entries (stg_stable_id (w_stages w' sid)) w' = (0, found) \<and>
      stg_stable_id (w_stages w' found) = stg_stable_id (w_stages w' sid)) stages" if "map te_stage entries = stages" for stages
    using found unfolding that [symmetric] list_all_iff by simp
  have "list_all (reports_as reg st' w') entries" using named by (simp add: list_all_iff)
  then show ?thesis
    using effect same every [of "stages_of pv w devices"] unfolding append_Nil
    by (cases "0 \<le> ret") (simp_all only: if_True if_False if_not_P if_P, blast+)
qed

section \<open>What the host reads of it\<close>

text \<open>The calls that are worth a sample at the levels of \<open>st\<close>.\<close>

fun wanted :: "zpt_pipeline_telemetry_entry list \<Rightarrow> state_telemetry \<Rightarrow> log_entry \<Rightarrow> bool" where
  "wanted entries st (LogEvent sid event value now) =
     (case entry_of entries sid of None \<Rightarrow> False
      | Some e \<Rightarrow> zpt_state_telemetry_level st (te_target_id e) \<noteq> ZPT_STATE_LEVEL_OFF)"
| "wanted entries st (LogFrame sid s now) =
     (case entry_of entries sid of None \<Rightarrow> False
      | Some e \<Rightarrow> zpt_state_telemetry_level st (te_target_id e) = ZPT_STATE_LEVEL_VERBOSE)"
| "wanted entries st _ = False"

text \<open>The layout \<open>docs/protocol.md\<close> gives of a sample: the flag of a decision, the values of a frame.\<close>

primrec documented_bit :: "zpt_stage_event \<Rightarrow> nat" where
  "documented_bit EVENT_SUPPRESSED = 1"
| "documented_bit EVENT_DISCARDED = 2"
| "documented_bit EVENT_QUALIFIED = 4"
| "documented_bit EVENT_INTENT_CHANGED = 0"
| "documented_bit EVENT_FLUSHED = 3"
| "documented_bit EVENT_ACTION = 3"

definition saturated :: "int \<Rightarrow> int" where
  "saturated v = max INT32_MIN (min INT32_MAX v)"

fun reads_as :: "zpt_pipeline_telemetry_entry list \<Rightarrow> log_entry \<Rightarrow> zpt_state_sample \<Rightarrow> bool" where
  "reads_as entries (LogEvent sid event value now) x \<longleftrightarrow>
     entry_of entries sid = Some \<lparr>te_stage = sid, te_target_id = ss_target_id x\<rparr> \<and> ss_target_kind x = 4 \<and>
     ss_event x = (if event = EVENT_FLUSHED then 2 else 1) \<and> ss_timestamp_ms x = now \<and> ss_intent x = 0 \<and>
     ss_flags x = push_bit (documented_bit event) 1 \<and>
     (\<exists>v. ss_values x = [stage_event_code event, v, 0, 0, 0, 0, 0, 0, 0, 0] \<and> (in_i32 value \<longrightarrow> v = value))"
| "reads_as entries (LogFrame sid s now) x \<longleftrightarrow>
     entry_of entries sid = Some \<lparr>te_stage = sid, te_target_id = ss_target_id x\<rparr> \<and> ss_target_kind x = 4 \<and>
     ss_event x = 1 \<and> ss_timestamp_ms x = (if observed_at_ms (metadata s) = 0 then now else observed_at_ms (metadata s)) \<and>
     ss_intent x = axis_intent (annotations s) \<and> ss_flags x = 0 \<and>
     ss_values x = [128, int (kind_code (kind s)), saturated (fst (signal_axes s)), saturated (snd (signal_axes s)),
       uint (resolution_cpi (metadata s)), saturated (uint (sample_span_us (metadata s))), uint (sequence (metadata s)),
       saturated (uint (flags (metadata s))), uint (source_id (metadata s)), saturated (speed_per_second (annotations s))]"
| "reads_as entries _ x = False"

lemma clamp_saturates: "clamp_int32 v = saturated v" "in_i32 (saturated v)"
  by (auto simp: clamp_int32_def saturated_def in_i32_def)

lemma small_values [simp]: "in_i32 (uint (h :: u16))" "in_i32 (int (kind_code k))" "in_i32 (stage_event_code event)" "in_i32 (i32 v)"
proof -
  have "INT32_MIN \<le> uint h" using uint_ge_0 [of h] by linarith
  then show "in_i32 (uint h)" using uint_bounded [of h] by (simp add: in_i32_def)
  show "in_i32 (int (kind_code k))" by (cases k) (simp_all add: in_i32_def)
  show "in_i32 (stage_event_code event)" by (cases event) (simp_all add: in_i32_def)
qed (simp add: i32_def in_i32_def)

lemma queued_eq [simp]:
  "st\<lparr>state_sequence := n, record_queue := q @ [x]\<rparr> = st\<lparr>state_sequence := n, record_queue := q @ [y]\<rparr> \<longleftrightarrow> x = y"
  by (auto dest: arg_cong [where f = record_queue])

lemma entry_of_eq: "entry_of entries sid = Some e \<Longrightarrow> e = \<lparr>te_stage = sid, te_target_id = te_target_id e\<rparr>"
  by (auto simp: entry_of_def find_Some_iff)

text \<open>One call: nothing, or one more sample with the next number.\<close>

lemma observed_call:
  assumes "length (record_queue st) < record_queue_size st"
  shows "if wanted entries st c
    then \<exists>x. telemetry_observes entries c st =
        st\<lparr>state_sequence := state_sequence st + 1, record_queue := record_queue st @ [x]\<rparr> \<and>
      ss_sequence x = state_sequence st \<and> sample_ok x \<and> reads_as entries c x
    else telemetry_observes entries c st = st"
proof (cases c)
  case (LogEvent sid event v now)
  have "event_flags event = push_bit (documented_bit event) 1" by (cases event) simp_all
  then show ?thesis
    using assms
    by (cases "entry_of entries sid")
      (auto simp: LogEvent stage_observer_def zpt_state_telemetry_submit_def sample_ok_def numeral_eq_Suc
        dest: entry_of_eq)
next
  case (LogFrame sid s now)
  obtain x y where axes: "signal_axes s = (x, y)" by fastforce
  show ?thesis
    using assms
    by (cases "entry_of entries sid")
      (auto simp: LogFrame frame_observer_def zpt_state_telemetry_submit_def sample_ok_def axes clamp_saturates
        dest: entry_of_eq)
qed simp_all

lemma observed_levels [simp]:
  "zpt_state_telemetry_level (st\<lparr>state_sequence := n, record_queue := q\<rparr>) t = zpt_state_telemetry_level st t"
  "wanted entries (st\<lparr>state_sequence := n, record_queue := q\<rparr>) = wanted entries st"
proof -
  show level: "zpt_state_telemetry_level (st\<lparr>state_sequence := n, record_queue := q\<rparr>) t = zpt_state_telemetry_level st t" for t
    by (simp add: zpt_state_telemetry_level_def)
  have sequence: "zpt_state_telemetry_level (st\<lparr>state_sequence := n\<rparr>) t = zpt_state_telemetry_level st t" for t
    by (simp add: zpt_state_telemetry_level_def)
  have "wanted entries (st\<lparr>state_sequence := n, record_queue := q\<rparr>) c = wanted entries st c" for c
    by (cases c) (auto simp: level sequence split: option.split)
  then show "wanted entries (st\<lparr>state_sequence := n, record_queue := q\<rparr>) = wanted entries st" by (rule ext)
qed

text \<open>
The host reads what the stages did. As long as the queue has room, whatever calls the
observers of the stages get, the samples queued for them are those of every decision of a stage whose target is on and
of every frame of one that is on at the every-frame level, once each, in order and consecutively
numbered, none dropped; and each is decoded by the host as what the documentation says of it: the
stage's target, the decision's flag, kind and quantity, or the frame's kind, axes and metadata,
saturated where they exceed 32 bits.
\<close>

theorem host_reads_what_the_stages_did:
  assumes "length (record_queue st) + length calls \<le> record_queue_size st"
    and "fold (telemetry_observes entries) calls st = st'"
  shows "\<exists>new. record_queue st' = record_queue st @ new \<and> state_dropped st' = state_dropped st \<and>
    state_levels st' = state_levels st \<and> list_all2 (reads_as entries) (filter (wanted entries st) calls) new \<and>
    map ss_sequence new = map (\<lambda>i. state_sequence st + of_nat i) [0..<length new] \<and>
    map (parseStateSample \<circ> state_payload) new = map Some new"
proof -
  have "\<exists>new. fold (telemetry_observes entries) calls st =
        st\<lparr>state_sequence := state_sequence st + of_nat (length new), record_queue := record_queue st @ new\<rparr> \<and>
      list_all2 (reads_as entries) (filter (wanted entries st) calls) new \<and> list_all sample_ok new \<and>
      map ss_sequence new = map (\<lambda>i. state_sequence st + of_nat i) [0..<length new]"
    using assms(1)
  proof (induction calls arbitrary: st)
    case Nil
    have "st = st\<lparr>state_sequence := state_sequence st, record_queue := record_queue st\<rparr>" by simp
    then show ?case by auto
  next
    case (Cons c calls)
    have room: "length (record_queue st) < record_queue_size st" using Cons.prems by simp
    show ?case
    proof (cases "wanted entries st c")
      case False
      then show ?thesis using Cons observed_call [OF room, of entries c] by auto
    next
      case True
      then obtain x where x: "telemetry_observes entries c st =
          st\<lparr>state_sequence := state_sequence st + 1, record_queue := record_queue st @ [x]\<rparr>"
        "ss_sequence x = state_sequence st" "sample_ok x" "reads_as entries c x"
        using observed_call [OF room, of entries c] by auto
      from Cons.IH [of "telemetry_observes entries c st"] Cons.prems obtain new where
        new: "fold (telemetry_observes entries) calls (telemetry_observes entries c st) =
          st\<lparr>state_sequence := state_sequence st + 1 + of_nat (length new), record_queue := record_queue st @ [x] @ new\<rparr>"
        "list_all2 (reads_as entries) (filter (wanted entries st) calls) new" "list_all sample_ok new"
        "map ss_sequence new = map (\<lambda>i. state_sequence st + 1 + of_nat i) [0..<length new]"
        by (auto simp: x(1))
      have "map ss_sequence (x # new) = map (\<lambda>i. state_sequence st + of_nat i) [0..<length (x # new)]"
        using x(2) new(4) by (simp add: map_upt_Suc add.assoc del: upt_Suc)
      then show ?thesis using new x True by (intro exI [of _ "x # new"]) (simp add: add.assoc)
    qed
  qed
  then show ?thesis using assms(2) parse_state_sample by (auto simp: list_all_iff)
qed

text \<open>A stage observed as target 1 that is turned on: its decision is queued, its frame is not.\<close>

definition watched :: state_telemetry where
  "watched = demo_state\<lparr>state_levels := [0, 1, 0]\<rparr>"

definition watched_entries :: "zpt_pipeline_telemetry_entry list" where
  "watched_entries = [\<lparr>te_stage = 5, te_target_id = 1\<rparr>]"

theorem host_reads_what_the_stages_did_witness:
  "\<exists>x. record_queue (fold (telemetry_observes watched_entries)
       [LogEvent 5 EVENT_DISCARDED 40 9, LogFrame 5 zero_signal 9] watched) = [x] \<and>
     ss_target_id x = 1 \<and> ss_flags x = 4 \<and> ss_values x = [1, 40, 0, 0, 0, 0, 0, 0, 0, 0] \<and>
     parseStateSample (state_payload x) = Some x"
proof -
  let ?calls = "[LogEvent 5 EVENT_DISCARDED 40 9, LogFrame 5 zero_signal 9]"
  have wanted: "filter (wanted watched_entries watched) ?calls = [LogEvent 5 EVENT_DISCARDED 40 9]"
    by (simp add: entry_of_def watched_entries_def watched_def zpt_state_telemetry_level_def demo_state_def)
  have room: "length (record_queue watched) + length ?calls \<le> record_queue_size watched" "record_queue watched = []"
    by (simp_all add: watched_def demo_state_def)
  from host_reads_what_the_stages_did [OF room(1) refl, of watched_entries, unfolded wanted room(2) append_Nil]
  obtain new where new: "record_queue (fold (telemetry_observes watched_entries) ?calls watched) = new"
    "list_all2 (reads_as watched_entries) [LogEvent 5 EVENT_DISCARDED 40 9] new"
    "map (parseStateSample \<circ> state_payload) new = map Some new" by blast
  then obtain x where "new = [x]" "reads_as watched_entries (LogEvent 5 EVENT_DISCARDED 40 9) x"
    by (auto simp: list_all2_Cons1)
  with new show ?thesis by (auto simp: entry_of_def watched_entries_def in_i32_def push_bit_eq_mult)
qed

end
