(* ===== verification/Spec2Isabelle.thy ===== *)
theory Spec2Isabelle
  imports Pipeline_Properties Router Route_Override Orientation Resolution_Normalize Motion_Gate Axis_Intent
    Axis_Constraint Cursor_Transfer Cursor_Quantizer Cursor_Coalescer Scroll_Batcher Text_Nav Compact_Codec
    Frame_Assembler Source_Ingress Device_Caps Sensor_Control Device_Table Sensor_Proxy
    Cursor_Acceleration Tuning Stage_Tuning Stage_Parameters Capture_Stream
    Telemetry_Devices Telemetry_State Capture_Tap Replay_Runner Capture_Describe Telemetry_Capture
    Chain_Types Capture_Hash Telemetry_Service Router_Executor Platform_Router Input_Processors Providers
    Pipeline_Telemetry
begin

text \<open>
  Verification library of the ZMK pointing tools firmware module (the C code under
  \<open>src/include/zmk/pointing_tools\<close> and \<open>src/src\<close>).

  \<^bold>\<open>The program.\<close> A pointing sensor reports scalar axis events. A source turns them into frames
  (on a split keyboard through a 32-bit packet codec over a lossy link), a router hands each
  frame to one of its pipelines, and the pipeline drives it through configured stages
  (orientation, resolution, motion gate, axis intent and constraint, acceleration, gain,
  quantizer, coalescer, scroll batcher, text navigation) into a sink. Stages hold motion back and ask to be
  flushed at a deadline. Settings of the stages are changed at run time by the tuning service,
  sensor resolutions through the device table and, for the other half of a split keyboard,
  through a request and response protocol. A host reads and changes all of this over a framed
  byte protocol.

  \<^bold>\<open>Theories and code.\<close> Names of the C code are kept; each theory says which files it translates.
  \<^item> Zpt_Prelude: machine integers, wrap-around, generic lemmas and the fact collections.
  \<^item> Signal (\<open>core/signal.h\<close>), Fixed (\<open>core/fixed.h\<close>): typed values and saturating arithmetic, with
    the locale \<open>saturating_adder\<close>.
  \<^item> Stage_Program, Pipeline (\<open>core/pipeline.h\<close>, \<open>core/pipeline.c\<close>): a callback of a stage is the
    tree of the runtime calls it makes; the runtime interprets the tree over a store of stages,
    sinks, pipelines and states. Pipeline_Laws holds the frame and budget lemmas,
    Pipeline_Properties the properties. The locale \<open>stage_contract\<close> is what the runtime needs of
    a stage, the theory of each stage interprets it on its own API record.
  \<^item> Router (\<open>core/router.c\<close>), Route_Override (\<open>core/route_override.c\<close>): the step relation of the
    router with reachability; the override table as a newest-first list.
  \<^item> Orientation, Resolution_Normalize, Motion_Gate, Axis_Intent, Axis_Constraint,
    Cursor_Acceleration, Cursor_Transfer, Cursor_Quantizer, Cursor_Coalescer, Scroll_Batcher,
    Text_Nav (\<open>stage/\<close>), Suppression (\<open>policy/suppression.h\<close>): the eleven stages.
  \<^item> Frame_Assembler, Source_Ingress, Compact_Codec, Device_Caps, Sensor_Control (\<open>source/\<close>);
    Device_Table, Sensor_Proxy (\<open>platform/zmk/\<close>): sources, resolutions, the split link.
  \<^item> Router_Executor, Platform_Router (\<open>platform/zmk/router_executor.c\<close>, \<open>router.c\<close>, \<open>behavior_route.c\<close>):
    the router under its mutex with the delayed work for the next deadline, and the choice of the
    pipeline by held keys and layers. Input_Processors (\<open>compact_split_encoder.c\<close>,
    \<open>source_input_processor.c\<close>): the two ends of the split link as the input events pass them.
    Providers (\<open>pipeline_provider.c\<close>, \<open>stage_provider.c\<close>, \<open>sink_provider.c\<close>, \<open>input_capture.c\<close>): how
    pipelines are assembled and handed out. Pipeline_Telemetry (\<open>pipeline_telemetry.c\<close>): what the
    observers of the stages report.
  \<^item> Tuning (\<open>service/tuning.c\<close>), Stage_Tuning and Stage_Parameters (\<open>stage/stage_tuning.c\<close>): the
    registry, the batch protocol, and the eight parameter tables, each an interpretation of the
    locale \<open>tunable_stage\<close>.
  \<^item> Keypress_Suppression (\<open>platform/zmk/keypress_suppression.c\<close>): the policy of the keyboard, with
    a step relation of the atomic accesses of its two threads; its interpretation of the locale
    \<open>frozen_guard\<close> is what a recording relies on.
  \<^item> Bytes, Capture_Buffer, Capture_Stream (\<open>observer/capture.c\<close>, \<open>web/protocol.js\<close>): little-endian
    fields and varints, the ring of encoded records with the locale \<open>byte_fifo\<close>, and the decoder of
    the host. Capture_Tap is the observer that records a pipeline, Capture_Describe the description
    and the settings hash of a pipeline, Capture_Hash the hash of the host.
  \<^item> Host_Transport (\<open>service/transport/\<close>): the serial and the Bluetooth link, both interpretations of
    the locale \<open>host_link\<close>. Telemetry_Frame, Telemetry_Tuning, Telemetry_Devices, Telemetry_State,
    Telemetry_Capture (\<open>service/telemetry.c\<close>, \<open>web/protocol.js\<close>): the frames and, request by request,
    what firmware answers and what the host reads; Telemetry_Service: the dispatch and the worker.
  \<^item> Pipeline_Twins: pipelines that agree on their states act alike, for stages that interpret the
    locale \<open>forgetful_stage\<close>; Stage_Replay interprets it on the stages of the repository. Chain and
    Chain_Types: all stages over one union of configurations and states, and that each callback
    keeps the types C does not check. Replay_Runner (\<open>host/runners/cursor_pipeline_replay.c\<close>): the
    runner that replays a recording.

  \<^bold>\<open>Lemma groups.\<close> Every arithmetic helper is proved equal to its mathematical meaning and where
  it saturates (collections \<open>zpt_range\<close>, \<open>zpt_simps\<close>); every stage has a state invariant kept by
  each callback and a conservation or functional statement over whole runs of frames and
  ticks; the pipeline has a refinement of the queue-and-dispatch machinery to a straight walk;
  the router has invariants by rule induction and the error behaviour of a failed switch; the
  codecs have round trips; the services have all-or-nothing and read-back statements; the
  telemetry theories carry an invariant over any interleaving of submissions, drains and requests
  that accounts for every record, delivered or counted as dropped.

  \<^bold>\<open>Bounds and fuel.\<close> Nested dispatches carry fuel that covers the dispatches the operation has left
  (\<open>op_remaining\<close>), and theory Pipeline_Laws proves that more fuel changes nothing. The loops that
  wait for a link or for the bytes of a host (\<open>zpt_capture_drain\<close>, \<open>receive_link\<close>) and the flushes of
  the replay runner (\<open>flush_until\<close>) are partial functions whose value \<open>None\<close> is a loop that does not
  end; that a stopped recording's drain ends is part of its property. All other loops are structural
  or have a proved measure.

  \<^bold>\<open>What is assumed of the surroundings.\<close> Mutex and delayed work of the kernel are the record
  \<open>kernel_ops\<close>, and \<open>kernel_laws\<close> is what the code relies on of them; \<open>plain_kernel\<close> satisfies it. The
  clock, the keymap, the sensor drivers and the answers of the Bluetooth stack are arguments or part
  of the link's state. Bytes the Bluetooth stack accepts count as received by the host, and a stack
  that stops taking a frame in its middle cuts the link, so a stack that drops what it has queued
  is not covered. The link a cursor coalescer asks for is fixed in its configuration for a run.

  \<^bold>\<open>Not modelled.\<close> The rest of Zephyr appears not at all. Storing a record and counting it as dropped
  are one step of the recorder. The settings mark that \<open>apply_between_frames\<close> leaves in a running
  recording is modelled with the recorder (\<open>zpt_capture_settings_changed\<close>) but not called from the
  dispatch of a tuning request. The sinks' calls into HID and behaviors, the devicetree
  instantiation macros of \<open>platform/zmk/\<close>, the older host test runners, and the pages of the web
  tuner are not modelled; the components of the manifest list each such file with the reason.
\<close>

end
